(* ===== verification/Prelude.thy ===== *)
theory Prelude
  imports Main "HOL-Library.Word" "HOL-Library.Monad_Syntax" "HOL-Library.Signed_Division"
begin

text \<open>
  What every component of the development shares: the machine integers of the C++ code as
  words, reads of a \<open>std::vector\<close> or \<open>std::array\<close> with their range checks, the bits of a
  byte string as a list, and the theorem collections the component proofs use.

  A model function that can leave the defined behaviour of C++ returns an option:
  \<^const>\<open>None\<close> is an access outside a container, an uncaught exception or a conversion that is
  undefined, and \<open>Some\<close> a normal return. A theorem that says \<open>Some\<close> is therefore a
  memory-safety statement.
\<close>

unbundle bit_operations_syntax

named_theorems vec_simps
  \<comment> \<open>reads and writes of fixed-size arrays and vectors\<close>
named_theorems word_nat
  \<comment> \<open>shifts, masks and sums of words as natural numbers\<close>

type_synonym u8 = "8 word"
type_synonym u16 = "16 word"
type_synonym u32 = "32 word"
type_synonym u64 = "64 word"

section \<open>Vectors\<close>

definition vget :: "'a list \<Rightarrow> nat \<Rightarrow> 'a option" where
  "vget xs i = (if i < length xs then Some (xs ! i) else None)"

definition vput :: "'a list \<Rightarrow> nat \<Rightarrow> 'a \<Rightarrow> 'a list option" where
  "vput xs i v = (if i < length xs then Some (xs[i := v]) else None)"

text \<open>A loop that reads \<open>n\<close> consecutive elements from index \<open>i\<close> on.\<close>

fun vread :: "'a list \<Rightarrow> nat \<Rightarrow> nat \<Rightarrow> 'a list option" where
  "vread xs i 0 = Some []"
| "vread xs i (Suc n) =
     do { x \<leftarrow> vget xs i; ys \<leftarrow> vread xs (Suc i) n; Some (x # ys) }"

lemma vget_Some [vec_simps]: "i < length xs \<Longrightarrow> vget xs i = Some (xs ! i)"
  by (simp add: vget_def)

lemma vget_None [vec_simps]: "length xs \<le> i \<Longrightarrow> vget xs i = None"
  by (simp add: vget_def)

lemma vget_eq_Some_iff: "vget xs i = Some y \<longleftrightarrow> i < length xs \<and> y = xs ! i"
  by (auto simp: vget_def)

lemma vput_Some [vec_simps]: "i < length xs \<Longrightarrow> vput xs i v = Some (xs[i := v])"
  by (simp add: vput_def)

lemma vread_eq:
  "vread xs i n = (if n = 0 \<or> i + n \<le> length xs then Some (take n (drop i xs)) else None)"
proof (induction n arbitrary: i)
  case 0
  show ?case by simp
next
  case (Suc n)
  show ?case
  proof (cases "i < length xs")
    case True
    then have "drop i xs = xs ! i # drop (Suc i) xs"
      by (simp add: Cons_nth_drop_Suc)
    with True Suc show ?thesis by (auto simp: vget_def)
  next
    case False
    then show ?thesis by (simp add: vget_def)
  qed
qed

lemma vread_Some [vec_simps]:
  "i + n \<le> length xs \<Longrightarrow> vread xs i n = Some (take n (drop i xs))"
  by (simp add: vread_eq)

lemma vread_length: "vread xs i n = Some ys \<Longrightarrow> length ys = n"
  by (auto simp: vread_eq split: if_splits)

lemma take_drop_nth: "i + n \<le> length xs \<Longrightarrow> take n (drop i xs) = map ((!) xs) [i..<i + n]"
  by (rule nth_equalityI) simp_all

text \<open>The loop \<open>for (k : ks) out.push_back(f(k))\<close> with a body that can fail.\<close>

fun mapM :: "('a \<Rightarrow> 'b option) \<Rightarrow> 'a list \<Rightarrow> 'b list option" where
  "mapM f [] = Some []"
| "mapM f (x # xs) = do { y \<leftarrow> f x; ys \<leftarrow> mapM f xs; Some (y # ys) }"

lemma mapM_cong [fundef_cong]:
  "xs = ys \<Longrightarrow> (\<And>x. x \<in> set ys \<Longrightarrow> f x = g x) \<Longrightarrow> mapM f xs = mapM g ys"
  by (induction ys arbitrary: xs) auto

lemma mapM_Some_map: "(\<And>x. x \<in> set xs \<Longrightarrow> f x = Some (g x)) \<Longrightarrow> mapM f xs = Some (map g xs)"
  by (induction xs) auto

lemma mapM_length: "mapM f xs = Some ys \<Longrightarrow> length ys = length xs"
  by (induction xs arbitrary: ys) (auto simp: bind_eq_Some_conv)

lemma mapM_nth: "mapM f xs = Some ys \<Longrightarrow> i < length xs \<Longrightarrow> f (xs ! i) = Some (ys ! i)"
proof (induction xs arbitrary: ys i)
  case Nil
  then show ?case by simp
next
  case (Cons x xs)
  then show ?case by (cases i) (auto simp: bind_eq_Some_conv)
qed

lemma mapM_None_iff: "mapM f xs = None \<longleftrightarrow> (\<exists>x \<in> set xs. f x = None)"
  by (induction xs) (auto simp: bind_eq_None_conv)

text \<open>A loop over a list that threads a state through a body that can fail.\<close>

fun foldM :: "('a \<Rightarrow> 's \<Rightarrow> 's option) \<Rightarrow> 'a list \<Rightarrow> 's \<Rightarrow> 's option" where
  "foldM f [] s = Some s"
| "foldM f (x # xs) s = do { s' \<leftarrow> f x s; foldM f xs s' }"

lemma foldM_append: "foldM f (xs @ ys) s = do { s' \<leftarrow> foldM f xs s; foldM f ys s' }"
proof (induction xs arbitrary: s)
  case Nil
  show ?case by simp
next
  case (Cons x xs)
  then show ?case by (cases "f x s") simp_all
qed

lemma foldM_invariant:
  assumes "\<And>x s s'. x \<in> set xs \<Longrightarrow> P s \<Longrightarrow> f x s = Some s' \<Longrightarrow> P s'"
    and "P s" and "foldM f xs s = Some s'"
  shows "P s'"
  using assms
proof (induction xs arbitrary: s)
  case Nil
  then show ?case by simp
next
  case (Cons x xs)
  from Cons.prems(3) obtain t where t: "f x s = Some t" "foldM f xs t = Some s'"
    by (auto simp: bind_eq_Some_conv)
  have "P t" using Cons.prems(1)[of x s t] Cons.prems(2) t(1) by simp
  have "\<And>x s s'. x \<in> set xs \<Longrightarrow> P s \<Longrightarrow> f x s = Some s' \<Longrightarrow> P s'"
    using Cons.prems(1) by (meson list.set_intros(2))
  then show ?case using \<open>P t\<close> t(2) by (rule Cons.IH)
qed

lemma foldM_total:
  assumes "\<And>x s. x \<in> set xs \<Longrightarrow> P s \<Longrightarrow> \<exists>s'. f x s = Some s' \<and> P s'"
    and "P s"
  shows "\<exists>s'. foldM f xs s = Some s' \<and> P s'"
  using assms
proof (induction xs arbitrary: s)
  case Nil
  then show ?case by simp
next
  case (Cons x xs)
  from Cons.prems(1)[of x s] Cons.prems(2) obtain t where t: "f x s = Some t" "P t"
    by auto
  with Cons.IH[of t] Cons.prems(1) show ?case by auto
qed

section \<open>The bits of a byte string\<close>

text \<open>Most significant bit first, as the interface control documents number them.\<close>

definition byte_bits :: "u8 \<Rightarrow> bool list" where
  "byte_bits b = map (bit b) [7, 6, 5, 4, 3, 2, 1, 0]"

definition bits_of :: "u8 list \<Rightarrow> bool list" where
  "bits_of bs = concat (map byte_bits bs)"

fun bit_val_acc :: "nat \<Rightarrow> bool list \<Rightarrow> nat" where
  "bit_val_acc a [] = a"
| "bit_val_acc a (b # bs) = bit_val_acc (2 * a + of_bool b) bs"

definition bit_val :: "bool list \<Rightarrow> nat" where
  "bit_val bs = bit_val_acc 0 bs"

text \<open>The \<open>len\<close> bits from bit \<open>off\<close> on, as an unsigned number: the reference for every
  field of a message.\<close>

definition bit_field :: "u8 list \<Rightarrow> nat \<Rightarrow> nat \<Rightarrow> nat" where
  "bit_field bs off len = bit_val (take len (drop off (bits_of bs)))"

lemma length_byte_bits [simp]: "length (byte_bits b) = 8"
  by (simp add: byte_bits_def)

lemma bits_of_Nil [simp]: "bits_of [] = []"
  by (simp add: bits_of_def)

lemma bits_of_Cons [simp]: "bits_of (b # bs) = byte_bits b @ bits_of bs"
  by (simp add: bits_of_def)

lemma bits_of_append [simp]: "bits_of (xs @ ys) = bits_of xs @ bits_of ys"
  by (simp add: bits_of_def)

lemma length_bits_of [simp]: "length (bits_of bs) = 8 * length bs"
  by (induction bs) simp_all

lemma drop_bits_of: "drop (8 * n) (bits_of bs) = bits_of (drop n bs)"
proof (induction n arbitrary: bs)
  case 0
  show ?case by simp
next
  case (Suc n)
  then show ?case by (cases bs) simp_all
qed

lemma take_bits_of: "take (8 * n) (bits_of bs) = bits_of (take n bs)"
proof (induction n arbitrary: bs)
  case 0
  show ?case by simp
next
  case (Suc n)
  then show ?case by (cases bs) simp_all
qed

lemma bit_val_acc_eq: "bit_val_acc a bs = a * 2 ^ length bs + bit_val bs"
proof (induction bs arbitrary: a)
  case Nil
  show ?case by (simp add: bit_val_def)
next
  case (Cons b bs)
  have "bit_val_acc a (b # bs) = (2 * a + of_bool b) * 2 ^ length bs + bit_val bs"
    using Cons[of "2 * a + of_bool b"] by simp
  moreover have "bit_val (b # bs) = of_bool b * 2 ^ length bs + bit_val bs"
    using Cons[of "of_bool b"] by (simp add: bit_val_def)
  ultimately show ?case by (simp add: algebra_simps)
qed

lemma bit_val_Nil [simp]: "bit_val [] = 0"
  by (simp add: bit_val_def)

lemma bit_val_Cons: "bit_val (b # bs) = of_bool b * 2 ^ length bs + bit_val bs"
  using bit_val_acc_eq[of "of_bool b" bs] by (simp add: bit_val_def)

lemma bit_val_append: "bit_val (xs @ ys) = bit_val xs * 2 ^ length ys + bit_val ys"
  by (induction xs) (simp_all add: bit_val_Cons power_add algebra_simps)

lemma bit_val_bound: "bit_val bs < 2 ^ length bs"
  by (induction bs) (auto simp: bit_val_Cons)


section \<open>Bytes and words as natural numbers\<close>

lemma unat_u8 [simp]: "unat (b :: u8) < 256"
  using unsigned_less[of b, where 'a = nat] by simp

lemma unat_u8_le [simp]: "unat (b :: u8) \<le> 255"
  using unat_u8[of b] by linarith

lemma bit_val_horner: "bit_val bs = horner_sum of_bool 2 (rev bs)"
  by (induction bs) (simp_all add: bit_val_Cons horner_sum_append)

lemma bit_val_byte_bits: "bit_val (byte_bits b) = unat b"
proof -
  have "rev (byte_bits b) = map (bit (unat b)) [0..<8]"
    by (simp add: byte_bits_def bit_unsigned_iff upt_rec numeral_eq_Suc)
  then have "bit_val (byte_bits b) = take_bit 8 (unat b)"
    by (simp only: bit_val_horner horner_sum_bit_eq_take_bit)
  then show ?thesis by (simp add: take_bit_eq_mod)
qed

lemma high_nibble_eq: "drop_bit 4 (b AND 0xF0) = (drop_bit 4 b :: u8)"
proof -
  have "drop_bit 4 (b AND push_bit 4 (mask 4)) = drop_bit 4 b"
  proof (rule bit_word_eqI)
    fix n
    have "bit b (4 + n) \<Longrightarrow> n < 4" using bit_imp_le_length[of b "4 + n"] by simp
    then show "bit (drop_bit 4 (b AND push_bit 4 (mask 4))) n = bit (drop_bit 4 b) n"
      by (auto simp: bit_simps)
  qed
  moreover have "push_bit 4 (mask 4) = (0xF0 :: u8)"
    by (simp add: mask_eq_exp_minus_1)
  ultimately show ?thesis by simp
qed

lemma low_nibble_eq: "b AND 0x0F = (take_bit 4 b :: u8)"
  by (simp add: take_bit_eq_mask mask_eq_exp_minus_1)

lemma unat_high_nibble [word_nat]: "unat (drop_bit 4 (b AND 0xF0) :: u8) = unat b div 16"
  by (simp only: high_nibble_eq unsigned_drop_bit_eq)
    (simp add: drop_bit_eq_div take_bit_eq_mod)

lemma unat_low_nibble [word_nat]: "unat (b AND 0x0F :: u8) = unat b mod 16"
  by (simp only: low_nibble_eq unsigned_take_bit_eq) (simp add: take_bit_eq_mod)

section \<open>Fields of a bit string as quotients and remainders\<close>

lemma bit_val_take_drop:
  assumes "a + l \<le> length xs"
  shows "bit_val (take l (drop a xs)) = bit_val xs div 2 ^ (length xs - a - l) mod 2 ^ l"
proof -
  let ?f = "take l (drop a xs)" and ?r = "drop (a + l) xs"
  have len: "length ?f = l" "length ?r = length xs - a - l" using assms by simp_all
  have "drop a xs = ?f @ ?r" by (metis append_take_drop_id drop_drop add.commute)
  then have "xs = take a xs @ ?f @ ?r" by (metis append_take_drop_id)
  then have "bit_val xs = bit_val (take a xs @ ?f @ ?r)" by simp
  also have "\<dots> = (bit_val (take a xs) * 2 ^ l + bit_val ?f) * 2 ^ length ?r + bit_val ?r"
    using len by (simp add: bit_val_append power_add algebra_simps)
  finally have eq: "bit_val xs = bit_val ?r + (bit_val (take a xs) * 2 ^ l + bit_val ?f) * 2 ^ length ?r"
    by simp
  have "bit_val xs div 2 ^ length ?r = bit_val (take a xs) * 2 ^ l + bit_val ?f"
    unfolding eq using bit_val_bound[of ?r] by (simp only: div_mult_self1) simp
  then have "bit_val xs div 2 ^ length ?r mod 2 ^ l = bit_val ?f mod 2 ^ l" by simp
  also have "\<dots> = bit_val ?f" using bit_val_bound[of ?f] len(1) by simp
  finally show ?thesis by (simp only: len(2))
qed

lemma bit_val_byte_append [simp]:
  "bit_val (byte_bits b @ xs) = unat b * 2 ^ length xs + bit_val xs"
  by (simp add: bit_val_append bit_val_byte_bits)

lemma bit_val_byte [simp]: "bit_val (byte_bits b) = unat b"
  by (rule bit_val_byte_bits)

text \<open>A field inside one byte.\<close>

lemma bit_field_in_byte:
  assumes "i < length bs" and "a + l \<le> 8"
  shows "bit_field bs (8 * i + a) l = unat (bs ! i) div 2 ^ (8 - a - l) mod 2 ^ l"
proof -
  have "drop (8 * i + a) (bits_of bs) = drop a (bits_of (drop i bs))"
    by (metis drop_bits_of drop_drop add.commute)
  also have "drop i bs = bs ! i # drop (Suc i) bs"
    using assms(1) by (simp add: Cons_nth_drop_Suc)
  finally have "take l (drop (8 * i + a) (bits_of bs)) = take l (drop a (byte_bits (bs ! i)))"
    using assms(2) by simp
  then show ?thesis
    using assms(2) bit_val_take_drop[of a l "byte_bits (bs ! i)"]
    by (simp add: bit_field_def bit_val_byte_bits)
qed

text \<open>A field that starts in byte \<open>i\<close> and ends inside the \<open>n\<close> bytes from there.\<close>

lemma bit_field_in_bytes:
  assumes "i + n \<le> length bs" and "a + l \<le> 8 * n"
  shows "bit_field bs (8 * i + a) l =
           bit_val (bits_of (take n (drop i bs))) div 2 ^ (8 * n - a - l) mod 2 ^ l"
proof -
  have "drop (8 * i + a) (bits_of bs) = drop a (bits_of (drop i bs))"
    by (metis drop_bits_of drop_drop add.commute)
  also have "bits_of (drop i bs) = bits_of (take n (drop i bs)) @ bits_of (drop n (drop i bs))"
    by (metis append_take_drop_id bits_of_append)
  finally have eq: "drop (8 * i + a) (bits_of bs) =
      drop a (bits_of (take n (drop i bs)) @ bits_of (drop n (drop i bs)))" .
  have "length (take n (drop i bs)) = n" using assms(1) by simp
  then have len: "length (bits_of (take n (drop i bs))) = 8 * n" by (simp only: length_bits_of)
  have "take l (drop (8 * i + a) (bits_of bs)) = take l (drop a (bits_of (take n (drop i bs))))"
    unfolding eq drop_append take_append len length_drop using assms(2) by simp
  then show ?thesis
    using bit_val_take_drop[of a l "bits_of (take n (drop i bs))"] assms(2)
    unfolding bit_field_def len by simp
qed

lemma bit_field_bytes:
  assumes "i + n \<le> length bs"
  shows "bit_field bs (8 * i) (8 * n) = bit_val (bits_of (take n (drop i bs)))"
  by (simp add: bit_field_def drop_bits_of take_bits_of)

lemma bit_field_bound: "bit_field bs off l < 2 ^ l"
proof -
  have "bit_field bs off l < 2 ^ length (take l (drop off (bits_of bs)))"
    unfolding bit_field_def by (rule bit_val_bound)
  also have "\<dots> \<le> 2 ^ l" by (simp add: power_increasing)
  finally show ?thesis .
qed

section \<open>Masks and shifts\<close>

declare drop_bit_and [simp del] push_bit_and [simp del]
  \<comment> \<open>keeps the shape \<open>(b & mask) >> k\<close> of the code\<close>

lemma unat_masked_field:
  "unat (drop_bit k (b AND push_bit k (mask l)) :: 'a::len word) = unat b div 2 ^ k mod 2 ^ l"
proof -
  have "drop_bit k (b AND push_bit k (mask l)) = take_bit l (drop_bit k b)"
    by (rule bit_word_eqI) (auto simp: bit_simps dest: bit_imp_le_length)
  then show ?thesis
    by (simp only: unsigned_take_bit_eq unsigned_drop_bit_eq)
      (simp add: take_bit_eq_mod drop_bit_eq_div)
qed

lemma unat_low_field: "unat (b AND mask l :: 'a::len word) = unat b mod 2 ^ l"
  using unat_masked_field[of 0 b l] by simp

lemma unat_ucast_up:
  "LENGTH('a) \<le> LENGTH('b) \<Longrightarrow> unat (ucast (b :: 'a::len word) :: 'b::len word) = unat b"
  by (simp add: unsigned_ucast_eq take_bit_nat_eq_self_iff unsigned_less
      order_less_le_trans[OF unsigned_less])

lemma unat_plus_less:
  "unat a + unat b < 2 ^ LENGTH('a) \<Longrightarrow> unat (a + b :: 'a::len word) = unat a + unat b"
  by (simp add: unat_word_ariths)

text \<open>Sums of shifted bytes are read through natural numbers.\<close>

lemma ucast_of_nat: "(ucast b :: 'a::len word) = of_nat (unat b)"
  by simp

lemma push_ucast_of_nat: "(push_bit k (of_nat n) :: 'a::len word) = of_nat (n * 2 ^ k)"
  by (simp add: push_bit_eq_mult)

lemma unat_of_nat_less: "n < 2 ^ LENGTH('a) \<Longrightarrow> unat (of_nat n :: 'a::len word) = n"
  by (simp add: unat_of_nat)

lemma unat_push_bit_less:
  "unat a * 2 ^ k < 2 ^ LENGTH('a) \<Longrightarrow> unat (push_bit k a :: 'a::len word) = unat a * 2 ^ k"
  by (simp only: unsigned_push_bit_eq) (simp add: take_bit_eq_mod push_bit_eq_mult)

section \<open>Fields at byte and half-byte positions\<close>

lemma nib_mod: "r < P \<Longrightarrow> (x * P + r) mod (16 * P) = (x mod 16) * P + (r :: nat)"
proof -
  assume r: "r < P"
  have "x mod 16 * P \<le> 15 * P" by (rule mult_right_mono) auto
  then have "x mod 16 * P + r < 16 * P" using r by linarith
  moreover have "x * P + r = x mod 16 * P + r + x div 16 * (16 * P)"
    by (metis (no_types, lifting) add.assoc add.commute add_mult_distrib2 div_mult_mod_eq
        mult.assoc mult.commute)
  ultimately show ?thesis by (simp only: mod_mult_self1) simp
qed

lemma nib_div: "(q * 256 + w) div 16 = q * 16 + w div (16 :: nat)"
  by presburger

lemma word_of_nat_high_nibble: "drop_bit 4 (b AND 0xF0) = (of_nat (unat b div 16) :: u8)"
  by (simp only: unat_high_nibble[symmetric] of_nat_unat) simp

lemma word_of_nat_low_nibble: "b AND 0x0F = (of_nat (unat b mod 16) :: u8)"
  by (simp only: unat_low_nibble[symmetric] of_nat_unat) simp

lemma drop_ucast_high:
  assumes "8 \<le> LENGTH('a)"
  shows "(drop_bit 4 (ucast (b AND 0xF0 :: u8)) :: 'a::len word) = of_nat (unat b div 16)"
proof -
  have "drop_bit 4 (ucast (b AND 0xF0 :: u8)) = (ucast (drop_bit 4 (b AND 0xF0)) :: 'a word)"
    by (rule bit_word_eqI) (use assms in \<open>auto simp: bit_simps dest: bit_imp_le_length\<close>)
  also have "\<dots> = of_nat (unat b div 16)"
    using ucast_of_nat[of "drop_bit 4 (b AND 0xF0)"] unat_high_nibble[of b] by simp
  finally show ?thesis .
qed

lemma be_bytes: "i + n \<le> length m \<Longrightarrow>
    bit_val (bits_of (take n (drop i m))) = bit_val (bits_of (map ((!) m) [i..<i + n]))"
  by (simp add: take_drop_nth)

lemma be_1: "i + 1 \<le> length m \<Longrightarrow> bit_val (bits_of (take 1 (drop i m))) = unat (m ! i)"
  by (simp add: take_drop_nth)

lemma be_Suc: "i + Suc n \<le> length m \<Longrightarrow> bit_val (bits_of (take (Suc n) (drop i m))) =
    unat (m ! i) * 256 ^ n + bit_val (bits_of (take n (drop (Suc i) m)))"
proof -
  assume le: "i + Suc n \<le> length m"
  then have "drop i m = m ! i # drop (Suc i) m" by (simp add: Cons_nth_drop_Suc)
  moreover have "length (take n (drop (Suc i) m)) = n" using le by simp
  ultimately show ?thesis by (simp del: length_take add: power_mult)
qed

lemma be_step:
  assumes "i + N \<le> length m" and "N = Suc n" and "j = Suc i"
    and "bit_val (bits_of (take n (drop j m))) = v" and "p = 256 ^ n"
  shows "bit_val (bits_of (take N (drop i m))) = unat (m ! i) * p + v"
  using be_Suc[of i n m] assms by simp

lemma be_2:
  assumes "i + 2 \<le> length m" "j1 = i + 1"
  shows "bit_val (bits_of (take 2 (drop i m))) = unat (m ! i) * 256 + unat (m ! j1)"
  using be_step[where i = i and m = m and N = 2 and n = 1 and j = j1, OF _ _ _ be_1] assms
  by simp

lemma be_3:
  assumes "i + 3 \<le> length m" "j1 = i + 1" "j2 = i + 2"
  shows "bit_val (bits_of (take 3 (drop i m))) =
    unat (m ! i) * 65536 + (unat (m ! j1) * 256 + unat (m ! j2))"
proof (rule be_step[where n = 2 and j = j1])
  show "bit_val (bits_of (take 2 (drop j1 m))) = 
      unat (m ! j1) * 256 + unat (m ! j2)"
    by (rule be_2) (use assms in simp_all)
qed (use assms in simp_all)

lemma be_4:
  assumes "i + 4 \<le> length m" "j1 = i + 1" "j2 = i + 2" "j3 = i + 3"
  shows "bit_val (bits_of (take 4 (drop i m))) = unat (m ! i) * 16777216 +
    (unat (m ! j1) * 65536 + (unat (m ! j2) * 256 + unat (m ! j3)))"
proof (rule be_step[where n = 3 and j = j1])
  show "bit_val (bits_of (take 3 (drop j1 m))) = 
      unat (m ! j1) * 65536 + (unat (m ! j2) * 256 + unat (m ! j3))"
    by (rule be_3) (use assms in simp_all)
qed (use assms in simp_all)

lemma be_5:
  assumes "i + 5 \<le> length m" "j1 = i + 1" "j2 = i + 2" "j3 = i + 3" "j4 = i + 4"
  shows "bit_val (bits_of (take 5 (drop i m))) = unat (m ! i) * 4294967296 +
    (unat (m ! j1) * 16777216 + (unat (m ! j2) * 65536 + (unat (m ! j3) * 256 + unat (m ! j4))))"
proof (rule be_step[where n = 4 and j = j1])
  show "bit_val (bits_of (take 4 (drop j1 m))) = 
      unat (m ! j1) * 16777216 + (unat (m ! j2) * 65536 + (unat (m ! j3) * 256 + unat (m ! j4)))"
    by (rule be_4) (use assms in simp_all)
qed (use assms in simp_all)

text \<open>A field of whole bytes, one that starts at the second half of its first byte, and one
  that ends at the first half of its last byte.\<close>

lemma fld_whole:
  assumes "i + n \<le> length m" "off = 8 * i" "l = 8 * n"
  shows "bit_field m off l = bit_val (bits_of (take n (drop i m)))"
  using assms by (simp add: bit_field_bytes)

lemma fld_tail:
  assumes "i + n \<le> length m" "off = 8 * i + 4" "8 * n = l + 4"
  shows "bit_field m off l = bit_val (bits_of (take n (drop i m))) mod 2 ^ l"
  using bit_field_in_bytes[of i n m 4 l] assms by simp

lemma fld_head:
  assumes "i + n \<le> length m" "off = 8 * i" "8 * n = l + 4"
  shows "bit_field m off l = bit_val (bits_of (take n (drop i m))) div 16"
proof -
  have "bit_field m off l = bit_val (bits_of (take n (drop i m))) div 2 ^ 4 mod 2 ^ l"
    using bit_field_in_bytes[of i n m 0 l] assms by simp
  moreover have "bit_val (bits_of (take n (drop i m))) div 2 ^ 4 < 2 ^ l"
  proof -
    have "length (bits_of (take n (drop i m))) = l + 4" using assms by simp
    then have "bit_val (bits_of (take n (drop i m))) < 2 ^ l * 2 ^ 4"
      using bit_val_bound[of "bits_of (take n (drop i m))"] by (simp add: power_add)
    then show ?thesis by (rule less_mult_imp_div_less)
  qed
  ultimately show ?thesis by simp
qed

lemma fld_byte: "i < length m \<Longrightarrow> off = 8 * i \<Longrightarrow> bit_field m off 8 = unat (m ! i)"
  using fld_whole[of i 1 m off 8] be_1[of i m] by simp

lemma fld_hi: "i < length m \<Longrightarrow> off = 8 * i \<Longrightarrow> bit_field m off 4 = unat (m ! i) div 16"
  using fld_head[of i 1 m off 4] be_1[of i m] by simp

lemma fld_lo: "i < length m \<Longrightarrow> off = 8 * i + 4 \<Longrightarrow> bit_field m off 4 = unat (m ! i) mod 16"
  using fld_tail[of i 1 m off 4] be_1[of i m] by simp

lemma fld_split:
  assumes "i + 2 \<le> length m" "off = 8 * i + 4" "j = i + 1"
  shows "bit_field m off 8 = unat (m ! i) mod 16 * 16 + unat (m ! j) div 16"
proof -
  have "bit_field m off 8 = (unat (m ! i) * 256 + unat (m ! j)) div 16 mod 256"
    using bit_field_in_bytes[of i 2 m 4 8] be_2[of i m j] assms by simp
  also have "\<dots> = (unat (m ! i) * 16 + unat (m ! j) div 16) mod (16 * 16)"
    by (simp only: nib_div) simp
  also have "\<dots> = unat (m ! i) mod 16 * 16 + unat (m ! j) div 16"
    by (rule nib_mod) (simp add: less_mult_imp_div_less)
  finally show ?thesis .
qed

lemma fld_head12:
  assumes "i + 2 \<le> length m" "off = 8 * i" "j1 = i + 1"
  shows "bit_field m off 12 = unat (m ! i) * 16 + unat (m ! j1) div 16"
  using fld_head[of i 2 m off 12] be_2[of i m j1] assms by (simp add: nib_div)

lemma fld_tail12:
  assumes "i + 2 \<le> length m" "off = 8 * i + 4" "j1 = i + 1"
  shows "bit_field m off 12 = unat (m ! i) mod 16 * 256 + unat (m ! j1)"
  using fld_tail[of i 2 m off 12] be_2[of i m j1] assms
    nib_mod[of "unat (m ! j1)" 256 "unat (m ! i)"] by simp

lemma fld_head20:
  assumes "i + 3 \<le> length m" "off = 8 * i" "j1 = i + 1" "j2 = i + 2"
  shows "bit_field m off 20 = unat (m ! i) * 4096 + unat (m ! j1) * 16 + unat (m ! j2) div 16"
  using fld_head[of i 3 m off 20] be_3[of i m j1 j2] assms
    nib_div[of "unat (m ! i) * 256 + unat (m ! j1)" "unat (m ! j2)"] by (simp add: algebra_simps)

lemma fld_tail20:
  assumes "i + 3 \<le> length m" "off = 8 * i + 4" "j1 = i + 1" "j2 = i + 2"
  shows "bit_field m off 20 = unat (m ! i) mod 16 * 65536 + unat (m ! j1) * 256 + unat (m ! j2)"
proof -
  have "unat (m ! j1) * 256 + unat (m ! j2) < 65536"
    using unat_u8_le[of "m ! j1"] unat_u8_le[of "m ! j2"] by linarith
  from nib_mod[OF this, of "unat (m ! i)"] show ?thesis
    using fld_tail[of i 3 m off 20] be_3[of i m j1 j2] assms by simp
qed

lemma fld_whole24:
  assumes "i + 3 \<le> length m" "off = 8 * i" "j1 = i + 1" "j2 = i + 2"
  shows "bit_field m off 24 = unat (m ! i) * 65536 + unat (m ! j1) * 256 + unat (m ! j2)"
  using fld_whole[of i 3 m off 24] be_3[of i m j1 j2] assms by simp

lemma fld_head28:
  assumes "i + 4 \<le> length m" "off = 8 * i" "j1 = i + 1" "j2 = i + 2" "j3 = i + 3"
  shows "bit_field m off 28 = unat (m ! i) * 1048576 + unat (m ! j1) * 4096 + unat (m ! j2) * 16
    + unat (m ! j3) div 16"
  using fld_head[of i 4 m off 28] be_4[of i m j1 j2 j3] assms
    nib_div[of "unat (m ! i) * 65536 + unat (m ! j1) * 256 + unat (m ! j2)" "unat (m ! j3)"]
  by (simp add: algebra_simps)

lemma fld_tail28:
  assumes "i + 4 \<le> length m" "off = 8 * i + 4" "j1 = i + 1" "j2 = i + 2" "j3 = i + 3"
  shows "bit_field m off 28 = unat (m ! i) mod 16 * 16777216 + unat (m ! j1) * 65536
    + unat (m ! j2) * 256 + unat (m ! j3)"
proof -
  have "unat (m ! j1) * 65536 + (unat (m ! j2) * 256 + unat (m ! j3)) < 16777216"
    using unat_u8_le[of "m ! j1"] unat_u8_le[of "m ! j2"] unat_u8_le[of "m ! j3"] by linarith
  from nib_mod[OF this, of "unat (m ! i)"] show ?thesis
    using fld_tail[of i 4 m off 28] be_4[of i m j1 j2 j3] assms by simp
qed

lemma fld_whole32:
  assumes "i + 4 \<le> length m" "off = 8 * i" "j1 = i + 1" "j2 = i + 2" "j3 = i + 3"
  shows "bit_field m off 32 = unat (m ! i) * 16777216 + unat (m ! j1) * 65536
    + unat (m ! j2) * 256 + unat (m ! j3)"
  using fld_whole[of i 4 m off 32] be_4[of i m j1 j2 j3] assms by simp

lemma fld_whole40:
  assumes "i + 5 \<le> length m" "off = 8 * i" "j1 = i + 1" "j2 = i + 2" "j3 = i + 3" "j4 = i + 4"
  shows "bit_field m off 40 = unat (m ! i) * 4294967296 + unat (m ! j1) * 16777216
    + unat (m ! j2) * 65536 + unat (m ! j3) * 256 + unat (m ! j4)"
  using fld_whole[of i 5 m off 40] be_5[of i m j1 j2 j3 j4] assms by simp

text \<open>Both sides of a field equation as the word of a natural number.\<close>

lemma split_byte_word:
  "push_bit 4 (a AND 0x0F) + drop_bit 4 (b AND 0xF0) = (of_nat (unat a mod 16 * 16 + unat b div 16) :: u8)"
  by (simp only: word_of_nat_high_nibble word_of_nat_low_nibble push_ucast_of_nat of_nat_add) simp

lemma byte_word: "(b :: u8) = of_nat (unat b)"
  by simp

end
