(* ===== verification/Containers.thy ===== *)
theory Containers
  imports Prelude
begin

text \<open>
  The ordered containers of the C++ standard library the receiver uses: \<open>std::map\<close> and
  \<open>std::multimap\<close>. Both are lists of key-value pairs in the order a C++ iterator visits
  them, so that a range-based loop of the source is a recursion over the list, \<open>begin()\<close> is
  its head and \<open>rbegin()\<close> its last element.

  The interface the components rely on is the locale \<open>ordered_store\<close>; it is interpreted
  here on the model of \<open>std::map\<close>.
\<close>

type_synonym ('k, 'v) std_map = "('k \<times> 'v) list"

section \<open>Operations\<close>

text \<open>\<open>m[k] = v\<close>: replaces the value or inserts the pair at its place.\<close>

fun map_assign :: "'k::linorder \<Rightarrow> 'v \<Rightarrow> ('k, 'v) std_map \<Rightarrow> ('k, 'v) std_map" where
  "map_assign k v [] = [(k, v)]"
| "map_assign k v ((k', v') # m) =
     (if k < k' then (k, v) # (k', v') # m
      else if k = k' then (k, v) # m
      else (k', v') # map_assign k v m)"

text \<open>\<open>m.insert({k, v})\<close>: does nothing when the key is there.\<close>

definition map_insert :: "'k::linorder \<Rightarrow> 'v \<Rightarrow> ('k, 'v) std_map \<Rightarrow> ('k, 'v) std_map" where
  "map_insert k v m = (case map_of m k of None \<Rightarrow> map_assign k v m | Some _ \<Rightarrow> m)"

text \<open>\<open>mm.insert({k, v})\<close> of a multimap: behind the pairs of the same key.\<close>

fun mm_insert :: "'k::linorder \<Rightarrow> 'v \<Rightarrow> ('k, 'v) std_map \<Rightarrow> ('k, 'v) std_map" where
  "mm_insert k v [] = [(k, v)]"
| "mm_insert k v ((k', v') # m) =
     (if k < k' then (k, v) # (k', v') # m else (k', v') # mm_insert k v m)"

definition map_inv :: "('k::linorder, 'v) std_map \<Rightarrow> bool" where
  "map_inv m \<longleftrightarrow> sorted_wrt (<) (map fst m)"

definition mm_inv :: "('k::linorder, 'v) std_map \<Rightarrow> bool" where
  "mm_inv m \<longleftrightarrow> sorted (map fst m)"

section \<open>Laws of a single map\<close>

lemma map_inv_Nil [simp]: "map_inv []"
  by (simp add: map_inv_def)

lemma map_inv_Cons [simp]:
  "map_inv ((k, v) # m) \<longleftrightarrow> (\<forall>k' \<in> fst ` set m. k < k') \<and> map_inv m"
  by (auto simp: map_inv_def)

lemma keys_map_assign: "fst ` set (map_assign k v m) = insert k (fst ` set m)"
  by (induction m rule: map_assign.induct) auto

lemma map_inv_assign: "map_inv m \<Longrightarrow> map_inv (map_assign k v m)"
proof (induction k v m rule: map_assign.induct)
  case (1 k v)
  show ?case by simp
next
  case (2 k v k' v' m)
  then have "\<forall>l \<in> fst ` set m. k' < l" and "map_inv m" by auto
  with 2 show ?case
    by (simp only: map_assign.simps map_inv_Cons keys_map_assign split: if_splits)
      (auto simp: keys_map_assign)
qed

lemma map_of_None_less: "\<forall>k' \<in> fst ` set m. k < k' \<Longrightarrow> map_of m (k :: 'k::linorder) = None"
  by (auto simp: map_of_eq_None_iff)

lemma map_of_assign: "map_inv m \<Longrightarrow> map_of (map_assign k v m) = (map_of m)(k \<mapsto> v)"
proof (induction k v m rule: map_assign.induct)
  case (1 k v)
  show ?case by simp
next
  case (2 k v k' v' m)
  then show ?case by (auto simp: fun_eq_iff map_of_None_less)
qed

lemma length_mm_insert [simp]: "length (mm_insert k v m) = Suc (length m)"
  by (induction m rule: mm_insert.induct) auto

lemma set_mm_insert: "set (mm_insert k v m) = insert (k, v) (set m)"
  by (induction m rule: mm_insert.induct) auto

lemma mm_inv_insert: "mm_inv m \<Longrightarrow> mm_inv (mm_insert k v m)"
proof (induction k v m rule: mm_insert.induct)
  case (1 k v)
  show ?case by (simp add: mm_inv_def)
next
  case (2 k v k' v' m)
  have "fst ` set (mm_insert k v m) = insert k (fst ` set m)"
    by (simp add: set_mm_insert)
  with 2 show ?case by (force simp: mm_inv_def)
qed

section \<open>The interface\<close>

text \<open>What an associative container promises, ordered or not.\<close>

locale key_value_store =
  fixes find :: "'m \<Rightarrow> 'k \<Rightarrow> 'v option"
    and assign :: "'k \<Rightarrow> 'v \<Rightarrow> 'm \<Rightarrow> 'm"
    and inv :: "'m \<Rightarrow> bool"
  assumes find_assign: "inv m \<Longrightarrow> find (assign k v m) = (find m)(k \<mapsto> v)"
    and inv_assign: "inv m \<Longrightarrow> inv (assign k v m)"
begin

lemma find_assign_same: "inv m \<Longrightarrow> find (assign k v m) k = Some v"
  by (simp add: find_assign)

lemma find_assign_other: "inv m \<Longrightarrow> k' \<noteq> k \<Longrightarrow> find (assign k v m) k' = find m k'"
  by (simp add: find_assign)

lemma find_assign_twice: "inv m \<Longrightarrow> find (assign k w (assign k v m)) = find (assign k w m)"
  by (simp add: find_assign inv_assign)

lemma find_assign_swap:
  "inv m \<Longrightarrow> k \<noteq> l \<Longrightarrow> find (assign k v (assign l w m)) = find (assign l w (assign k v m))"
  by (simp add: find_assign inv_assign fun_upd_twist)

end

locale ordered_store = key_value_store find assign inv
  for find :: "'m \<Rightarrow> 'k::linorder \<Rightarrow> 'v option"
    and assign :: "'k \<Rightarrow> 'v \<Rightarrow> 'm \<Rightarrow> 'm"
    and inv :: "'m \<Rightarrow> bool" +
  fixes ins :: "'k \<Rightarrow> 'v \<Rightarrow> 'm \<Rightarrow> 'm"
    and entries :: "'m \<Rightarrow> ('k \<times> 'v) list"
  assumes find_entries: "inv m \<Longrightarrow> find m k = map_of (entries m) k"
    and sorted_entries: "inv m \<Longrightarrow> sorted_wrt (<) (map fst (entries m))"
    and ins_def: "ins k v m = (case find m k of None \<Rightarrow> assign k v m | Some _ \<Rightarrow> m)"
begin

lemma inv_ins: "inv m \<Longrightarrow> inv (ins k v m)"
  by (auto simp: ins_def inv_assign split: option.splits)

lemma find_ins_same: "inv m \<Longrightarrow> find m k = None \<Longrightarrow> find (ins k v m) k = Some v"
  by (simp add: ins_def find_assign)

lemma find_ins_keeps: "inv m \<Longrightarrow> find m k' = Some w \<Longrightarrow> find (ins k v m) k' = Some w"
  by (auto simp: ins_def find_assign split: option.splits)

lemma find_ins_other: "inv m \<Longrightarrow> k' \<noteq> k \<Longrightarrow> find (ins k v m) k' = find m k'"
  by (auto simp: ins_def find_assign split: option.splits)

lemma find_ins: "inv m \<Longrightarrow> find (ins k v m) k' =
    (if k' = k then (case find m k of None \<Rightarrow> Some v | Some w \<Rightarrow> Some w) else find m k')"
  by (auto simp: ins_def find_assign split: option.splits)

lemma find_eq_entry:
  assumes "inv m" shows "find m k = Some v \<longleftrightarrow> (k, v) \<in> set (entries m)"
proof -
  have "distinct (map fst (entries m))"
    using sorted_entries[OF assms] by (metis strict_sorted_iff)
  then show ?thesis using find_entries[OF assms] by simp
qed

lemma last_entry_greatest:
  assumes "inv m" and "find m k = Some v"
  shows "k \<le> fst (last (entries m))"
proof -
  from assms have mem: "(k, v) \<in> set (entries m)" by (simp add: find_eq_entry)
  have "sorted (map fst (entries m))"
    using sorted_entries[OF assms(1)] by (metis strict_sorted_iff)
  moreover from mem obtain i where i: "i < length (entries m)" "entries m ! i = (k, v)"
    by (auto simp: in_set_conv_nth)
  ultimately have "map fst (entries m) ! i \<le> map fst (entries m) ! (length (entries m) - 1)"
    by (intro sorted_nth_mono) auto
  then show ?thesis using i by (cases "entries m = []") (auto simp: last_conv_nth)
qed

lemma nonempty_assign: "inv m \<Longrightarrow> entries (assign k v m) \<noteq> []"
  using find_entries[OF inv_assign, of m k v k] find_assign[of m k v] by auto

lemma nonempty_ins: "inv m \<Longrightarrow> entries (ins k v m) \<noteq> []"
  using nonempty_assign[of m k v] find_entries[of m k] by (auto simp: ins_def split: option.splits)

end

interpretation om: ordered_store map_of map_assign map_inv map_insert "\<lambda>m. m"
proof
  fix m :: "('a::linorder, 'b) std_map" and k v
  show "map_inv m \<Longrightarrow> map_of m k = map_of m k" by simp
  show "map_inv m \<Longrightarrow> sorted_wrt (<) (map fst m)" by (simp add: map_inv_def)
  show "map_inv m \<Longrightarrow> map_of (map_assign k v m) = (map_of m)(k \<mapsto> v)" by (rule map_of_assign)
  show "map_inv m \<Longrightarrow> map_inv (map_assign k v m)" by (rule map_inv_assign)
  show "map_insert k v m = (case map_of m k of None \<Rightarrow> map_assign k v m | Some _ \<Rightarrow> m)"
    by (simp add: map_insert_def)
qed

text \<open>\<open>std::unordered_map\<close>: an association list; the order of its pairs stands for the order of
  the buckets, on which nothing may depend. \<open>m[k] = v\<close>, or \<open>m.at(k) = v\<close> where the key is there.\<close>

fun um_assign :: "'k \<Rightarrow> 'v \<Rightarrow> ('k \<times> 'v) list \<Rightarrow> ('k \<times> 'v) list" where
  "um_assign k v [] = [(k, v)]"
| "um_assign k v ((k', v') # m) = (if k = k' then (k, v) # m else (k', v') # um_assign k v m)"

lemma map_of_um_assign: "map_of (um_assign k v m) = (map_of m)(k \<mapsto> v)"
  by (induction k v m rule: um_assign.induct) (auto simp: fun_eq_iff)

interpretation um: key_value_store map_of um_assign "\<lambda>_. True"
  by unfold_locales (auto simp: map_of_um_assign)

lemma um_assign_id: "map_of m k = Some v \<Longrightarrow> um_assign k v m = m"
  by (induction k v m rule: um_assign.induct) (auto split: if_splits)

lemma keys_um_assign: "fst ` set (um_assign k v m) = insert k (fst ` set m)"
  by (induction k v m rule: um_assign.induct) auto

section \<open>Rewriting every value of a map in its iteration order\<close>

lemma map_inv_map_values: "map_inv (map (\<lambda>(k, v). (k, f k v)) m) = map_inv m"
proof -
  have "map fst (map (\<lambda>(k, v). (k, f k v)) m) = map fst m" by (induction m) auto
  then show ?thesis by (simp only: map_inv_def)
qed

lemma map_of_map_values: "map_of (map (\<lambda>(k, v). (k, f k v)) m) k = map_option (f k) (map_of m k)"
  by (induction m) auto

lemma mm_inv_filter: "mm_inv m \<Longrightarrow> mm_inv (filter P m)"
  unfolding mm_inv_def by (induction m) auto

lemma mm_inv_drop: "mm_inv m \<Longrightarrow> mm_inv (drop n m)"
  unfolding mm_inv_def by (simp add: drop_map[symmetric] sorted_wrt_drop)

lemma mm_inv_map_values: "mm_inv (map (\<lambda>(k, v). (k, f k v)) m) = mm_inv m"
proof -
  have "map fst (map (\<lambda>(k, v). (k, f k v)) m) = map fst m" by (induction m) auto
  then show ?thesis by (simp only: mm_inv_def)
qed

end
