(* ===== verification/Osnma_Tables.thy ===== *)
theory Osnma_Tables
  imports Containers
begin

text \<open>
  The constants and tables of \<open>core/system_parameters/Galileo_OSNMA.h\<close>, in the order of
  the header. An \<open>unordered_map\<close> that is only looked up is an association list, read with
  \<^const>\<open>map_of\<close>; the lookups fall back to the value the callers use when the key is missing.
\<close>

definition SIZE_DSM_BLOCKS_BYTES :: nat where
  "SIZE_DSM_BLOCKS_BYTES = 13"

definition OSNMA_TABLE_1 :: "(u8 \<times> string) list" where
  "OSNMA_TABLE_1 =
     [(0, ''Reserved''),
      (1, ''Test''),
      (2, ''Operational''),
      (3, (''Don'' @ [CHR 0x27] @ ''t use''))]"  \<comment> \<open>nmas, its status\<close>

definition OSNMA_TABLE_2 :: "(u8 \<times> string) list" where
  "OSNMA_TABLE_2 =
     [(0, ''Reserved''),
      (1, ''Nominal''),
      (2, ''End of Chain (EOC)''),
      (3, ''Chain Revoked (CREV)''),
      (4, ''New Public Key (NPK)''),
      (5, ''Public Key Revoked (PKREV)''),
      (6, ''New Merkle Tree (NMT)''),
      (7, ''Alert Message (AM)'')]"  \<comment> \<open>cpks, its status\<close>

definition OSNMA_TABLE_3 :: "(u8 \<times> u16 \<times> u16) list" where
  "OSNMA_TABLE_3 =
     [(0, 0, 0),
      (1, 0, 0),
      (2, 0, 0),
      (3, 0, 0),
      (4, 0, 0),
      (5, 0, 0),
      (6, 0, 0),
      (7, 13, 1352),
      (8, 14, 1456),
      (9, 15, 1560),
      (10, 16, 1664),
      (11, 0, 0),
      (12, 0, 0),
      (13, 0, 0),
      (14, 0, 0),
      (15, 0, 0)]"  \<comment> \<open>nb_dp, number of blocks and l_dp bits\<close>

definition OSNMA_TABLE_5 :: "(u8 \<times> string) list" where
  "OSNMA_TABLE_5 =
     [(0, ''Reserved''),
      (1, ''ECDSA P-256''),
      (2, ''Reserved''),
      (3, ''ECDSA P-521''),
      (4, ''OAM''),
      (5, ''Reserved''),
      (6, ''Reserved''),
      (7, ''Reserved''),
      (8, ''Reserved''),
      (9, ''Reserved''),
      (10, ''Reserved''),
      (11, ''Reserved''),
      (12, ''Reserved''),
      (13, ''Reserved''),
      (14, ''Reserved''),
      (15, ''Reserved'')]"  \<comment> \<open>npkt, key type\<close>

definition OSNMA_TABLE_6 :: "(string \<times> u16) list" where
  "OSNMA_TABLE_6 =
     [(''ECDSA P-256'', 264),
      (''ECDSA P-521'', 536)]"  \<comment> \<open>key type, bits of the compressed key\<close>

definition OSNMA_TABLE_7 :: "(u8 \<times> u16 \<times> u16) list" where
  "OSNMA_TABLE_7 =
     [(0, 0, 0),
      (1, 7, 728),
      (2, 8, 832),
      (3, 9, 936),
      (4, 10, 1040),
      (5, 11, 1144),
      (6, 12, 1248),
      (7, 13, 1352),
      (8, 14, 1456),
      (9, 0, 0),
      (10, 0, 0),
      (11, 0, 0),
      (12, 0, 0),
      (13, 0, 0),
      (14, 0, 0),
      (15, 0, 0)]"  \<comment> \<open>nb_dk, number of blocks and l_dk bits\<close>

definition OSNMA_TABLE_8 :: "(u8 \<times> string) list" where
  "OSNMA_TABLE_8 =
     [(0, ''SHA-256''),
      (1, ''Reserved''),
      (2, ''SHA3-256''),
      (3, ''Reserved'')]"  \<comment> \<open>hf, hash function\<close>

definition OSNMA_TABLE_10 :: "(u8 \<times> u16) list" where
  "OSNMA_TABLE_10 =
     [(0, 96),
      (1, 104),
      (2, 112),
      (3, 120),
      (4, 128),
      (5, 160),
      (6, 192),
      (7, 224),
      (8, 256),
      (9, 0),
      (10, 0),
      (11, 0),
      (12, 0),
      (13, 0),
      (15, 0),
      (15, 0)]"  \<comment> \<open>ks, key bits\<close>

definition OSNMA_TABLE_11 :: "(u8 \<times> u8) list" where
  "OSNMA_TABLE_11 =
     [(0, 0),
      (1, 0),
      (2, 0),
      (3, 0),
      (4, 0),
      (5, 20),
      (6, 24),
      (7, 28),
      (8, 32),
      (9, 40),
      (10, 0),
      (11, 0),
      (12, 0),
      (13, 0),
      (14, 0),
      (15, 0)]"  \<comment> \<open>ts, tag bits\<close>

definition OSNMA_TABLE_15 :: "(string \<times> u16) list" where
  "OSNMA_TABLE_15 =
     [(''ECDSA P-256'', 512),
      (''ECDSA P-521'', 1056)]"  \<comment> \<open>curve and hash, signature bits\<close>

record mack_lookup =
  ml_msg :: u8
  ml_nt :: u8
  ml_sequence1 :: "string list"
  ml_sequence2 :: "string list"

definition OSNMA_TABLE_16 :: "(u8 \<times> mack_lookup) list" where
  "OSNMA_TABLE_16 =
     [(27, \<lparr>ml_msg = 2, ml_nt = 6,
        ml_sequence1 = [''00S'', ''00E'', ''00E'', ''00E'', ''12S'', ''00E''],
        ml_sequence2 = [''00S '', ''00E'', ''00E'', ''04S'', ''12S'', ''00E'']\<rparr>),
      (28, \<lparr>ml_msg = 2, ml_nt = 10,
        ml_sequence1 = [''00S'', ''00E'', ''00E'', ''00E'', ''00S'', ''00E'', ''00E'', ''12S'', ''00E'', ''00E''],
        ml_sequence2 = [''00S'', ''00E'', ''00E'', ''00S'', ''00E'', ''00E'', ''04S'', ''12S'', ''00E'', ''00E'']\<rparr>),
      (31, \<lparr>ml_msg = 2, ml_nt = 5,
        ml_sequence1 = [''00S'', ''00E'', ''00E'', ''12S'', ''00E''],
        ml_sequence2 = [''00S'', ''00E'', ''00E'', ''12S'', ''04S'']\<rparr>),
      (33, \<lparr>ml_msg = 2, ml_nt = 6,
        ml_sequence1 = [''00S'', ''00E'', ''04S'', ''00E'', ''12S'', ''00E''],
        ml_sequence2 = [''00S'', ''00E'', ''00E'', ''12S'', ''00E'', ''12E'']\<rparr>),
      (34, \<lparr>ml_msg = 2, ml_nt = 6,
        ml_sequence1 = [''00S'', ''FLX'', ''04S'', ''FLX'', ''12S'', ''00E''],
        ml_sequence2 = [''00S'', ''FLX'', ''00E'', ''12S'', ''00E'', ''12E'']\<rparr>),
      (35, \<lparr>ml_msg = 2, ml_nt = 6,
        ml_sequence1 = [''00S'', ''FLX'', ''04S'', ''FLX'', ''12S'', ''FLX''],
        ml_sequence2 = [''00S'', ''FLX'', ''FLX'', ''12S'', ''FLX'', ''FLX'']\<rparr>),
      (36, \<lparr>ml_msg = 2, ml_nt = 5,
        ml_sequence1 = [''00S'', ''FLX'', ''04S'', ''FLX'', ''12S''],
        ml_sequence2 = [''00S'', ''FLX'', ''00E'', ''12S'', ''12E'']\<rparr>),
      (37, \<lparr>ml_msg = 2, ml_nt = 5,
        ml_sequence1 = [''00S'', ''00E'', ''04S'', ''00E'', ''12S''],
        ml_sequence2 = [''00S'', ''00E'', ''00E'', ''12S'', ''12E'']\<rparr>),
      (38, \<lparr>ml_msg = 2, ml_nt = 5,
        ml_sequence1 = [''00S'', ''FLX'', ''04S'', ''FLX'', ''12S''],
        ml_sequence2 = [''00S'', ''FLX'', ''FLX'', ''12S'', ''FLX'']\<rparr>),
      (39, \<lparr>ml_msg = 2, ml_nt = 4,
        ml_sequence1 = [''00S'', ''FLX'', ''04S'', ''FLX''],
        ml_sequence2 = [''00S'', ''FLX'', ''00E'', ''12S'']\<rparr>),
      (40, \<lparr>ml_msg = 2, ml_nt = 4,
        ml_sequence1 = [''00S'', ''00E'', ''04S'', ''12S''],
        ml_sequence2 = [''00S'', ''00E'', ''00E'', ''12E'']\<rparr>),
      (41, \<lparr>ml_msg = 2, ml_nt = 4,
        ml_sequence1 = [''00S'', ''FLX'', ''04S'', ''FLX''],
        ml_sequence2 = [''00S'', ''FLX'', ''FLX'', ''12S'']\<rparr>)]"  \<comment> \<open>maclt, the two sequences of the MAC look-up table\<close>

text \<open>\<open>auto it = T.find(k); if (it != T.cend()) x = it->second;\<close> with \<open>x\<close> initialised to 0.\<close>

definition table_lookup :: "'v \<Rightarrow> ('k \<times> 'v) list \<Rightarrow> 'k \<Rightarrow> 'v" where
  "table_lookup d t k = (case map_of t k of Some v \<Rightarrow> v | None \<Rightarrow> d)"

end
