(* ===== verification/Osnma_Helper.thy ===== *)
theory Osnma_Helper
  imports Osnma_Tables
begin

text \<open>
  The class \<open>Osnma_Helper\<close> of \<open>core/libs/osnma_helper.cc\<close>: Galileo System Time as one 32-bit
  word (week number in the 12 high bits, time of week in the 20 low bits), bit strings as
  bytes, and hexadecimal strings. \<open>compute_gst(tm&)\<close> and \<open>compute_gst_now\<close> read the calendar
  functions and the clock of the host; of these only the conversion from a duration to a GST
  is modelled, as \<open>gst_of_duration\<close>.
\<close>

section \<open>Definitions\<close>

definition compute_gst :: "u32 \<Rightarrow> u32 \<Rightarrow> u32" where
  "compute_gst WN TOW = push_bit 20 (WN AND 0x00000FFF) OR (TOW AND 0x000FFFFF)"

definition gst_of_duration :: "int \<Rightarrow> u32" where
  "gst_of_duration duration_sec =
     compute_gst (word_of_int (duration_sec sdiv 604800)) (word_of_int (duration_sec smod 604800))"

definition gst_to_uint8 :: "u32 \<Rightarrow> u8 list" where
  "gst_to_uint8 GST =
     [ucast (drop_bit 24 (GST AND 0xFF000000)),
      ucast (drop_bit 16 (GST AND 0x00FF0000)),
      ucast (drop_bit 8 (GST AND 0x0000FF00)),
      ucast (GST AND 0x000000FF)]"

definition get_WN :: "u32 \<Rightarrow> u32" where
  "get_WN GST = drop_bit 20 (GST AND 0xFFF00000)"

definition get_TOW :: "u32 \<Rightarrow> u32" where
  "get_TOW GST = GST AND 0x000FFFFF"

text \<open>The constructor \<open>std::bitset<n>(str)\<close>: it throws on any other character than 0 and 1.\<close>

definition bitset_char :: "char \<Rightarrow> bool option" where
  "bitset_char c = (if c = CHR ''0'' then Some False else if c = CHR ''1'' then Some True else None)"

definition bitset_of :: "string \<Rightarrow> bool list option" where
  "bitset_of s = mapM bitset_char s"

text \<open>The loop of \<open>Osnma_Helper::bytes\<close> over the padded string, eight characters a step.\<close>

function bytes_loop :: "string \<Rightarrow> u8 list option" where
  "bytes_loop s =
     (if s = [] then Some []
      else do {
        bs \<leftarrow> bitset_of (take 8 s);
        rest \<leftarrow> bytes_loop (drop 8 s);
        Some (of_nat (bit_val bs) # rest) })"
  by pat_completeness auto
termination by (relation "measure length") auto

declare bytes_loop.simps [simp del]

definition helper_bytes :: "string \<Rightarrow> u8 list option" where
  "helper_bytes binaryString =
     (let padding_size = length binaryString mod 8;
          padded_binary =
            (if padding_size \<noteq> 0 then binaryString @ replicate (8 - padding_size) (CHR ''0'')
             else binaryString)
      in bytes_loop padded_binary)"

definition verification_status_str :: "int \<Rightarrow> string" where
  "verification_status_str status =
     (if status = 0 then ''SUCCESS''
      else if status = 1 then ''FAIL''
      else if status = 2 then ''UNVERIFIED''
      else ''UNKNOWN'')"

text \<open>\<open>std::hex << std::setw(2) << std::setfill('0')\<close> on a byte.\<close>

definition hex_digit :: "nat \<Rightarrow> char" where
  "hex_digit n = ''0123456789abcdef'' ! n"

definition convert_to_hex_string :: "u8 list \<Rightarrow> string" where
  "convert_to_hex_string bs =
     concat (map (\<lambda>b. [hex_digit (unat b div 16), hex_digit (unat b mod 16)]) bs)"

text \<open>\<open>std::stoul(s, nullptr, 16)\<close>: white space, a sign, an optional \<open>0x\<close>, the longest run of
  hexadecimal digits; it throws when there is none or the value does not fit.\<close>

definition hex_value :: "char \<Rightarrow> nat option" where
  "hex_value c =
     (let n = of_char c :: nat in
      if 48 \<le> n \<and> n \<le> 57 then Some (n - 48)
      else if 97 \<le> n \<and> n \<le> 102 then Some (n - 87)
      else if 65 \<le> n \<and> n \<le> 70 then Some (n - 55)
      else None)"

definition is_space :: "char \<Rightarrow> bool" where
  "is_space c = (let n = of_char c :: nat in n = 32 \<or> (9 \<le> n \<and> n \<le> 13))"

definition skip_0x :: "string \<Rightarrow> string" where
  "skip_0x s =
     (case s of
        z # x # d # r \<Rightarrow>
          (if z = CHR ''0'' \<and> (x = CHR ''x'' \<or> x = CHR ''X'') \<and> hex_value d \<noteq> None
           then d # r else s)
      | _ \<Rightarrow> s)"

fun hex_run :: "nat \<Rightarrow> string \<Rightarrow> nat" where
  "hex_run a [] = a"
| "hex_run a (c # cs) =
     (case hex_value c of None \<Rightarrow> a | Some d \<Rightarrow> hex_run (16 * a + d) cs)"

definition stoul16 :: "string \<Rightarrow> u64 option" where
  "stoul16 s =
     (let s1 = dropWhile is_space s;
          neg = (s1 \<noteq> [] \<and> hd s1 = CHR ''-'');
          s2 = (if s1 \<noteq> [] \<and> (hd s1 = CHR ''-'' \<or> hd s1 = CHR ''+'') then tl s1 else s1);
          s3 = skip_0x s2;
          v = hex_run 0 s3
      in if s3 = [] \<or> hex_value (hd s3) = None then None
         else if 2 ^ 64 \<le> v then None
         else Some (if neg then - of_nat v else of_nat v))"

function from_hex_loop :: "string \<Rightarrow> u8 list option" where
  "from_hex_loop s =
     (if s = [] then Some []
      else do {
        v \<leftarrow> stoul16 (take 2 s);
        rest \<leftarrow> from_hex_loop (drop 2 s);
        Some (ucast v # rest) })"
  by pat_completeness auto
termination by (relation "measure length") auto

declare from_hex_loop.simps [simp del]

definition convert_from_hex_string :: "string \<Rightarrow> u8 list option" where
  "convert_from_hex_string hex_string =
     from_hex_loop (if length hex_string mod 2 \<noteq> 0 then CHR ''0'' # hex_string else hex_string)"

section \<open>Galileo System Time\<close>

lemma mask_constants:
  "(0x00000FFF :: u32) = mask 12" "(0x000FFFFF :: u32) = mask 20"
  "(0xFFF00000 :: u32) = push_bit 20 (mask 12)"
  "(0xFF000000 :: u32) = push_bit 24 (mask 8)" "(0x00FF0000 :: u32) = push_bit 16 (mask 8)"
  "(0x0000FF00 :: u32) = push_bit 8 (mask 8)" "(0x000000FF :: u32) = mask 8"
  by (simp_all add: mask_eq_exp_minus_1)

lemma get_WN_compute_gst: "get_WN (compute_gst WN TOW) = WN AND 0x00000FFF"
  unfolding get_WN_def compute_gst_def mask_constants
  by (rule bit_word_eqI) (auto simp: bit_simps)

lemma get_TOW_compute_gst: "get_TOW (compute_gst WN TOW) = TOW AND 0x000FFFFF"
  unfolding get_TOW_def compute_gst_def mask_constants
  by (rule bit_word_eqI) (auto simp: bit_simps)

lemma compute_gst_split: "compute_gst (get_WN g) (get_TOW g) = g"
  unfolding get_WN_def get_TOW_def compute_gst_def mask_constants
  by (rule bit_word_eqI) (auto simp: bit_simps)

text \<open>The Galileo System Time of a duration since the epoch holds the week modulo 4096 and
  the second of the week: no bit of either is lost in the packing.\<close>

lemma gst_of_duration_eq:
  assumes "0 \<le> d"
  shows "uint (get_WN (gst_of_duration d)) = d div 604800 mod 4096 \<and>
    uint (get_TOW (gst_of_duration d)) = d mod 604800"
proof -
  have sd: "d sdiv 604800 = d div 604800" "d smod 604800 = d mod 604800"
    using assms by (auto simp: signed_divide_int_def signed_modulo_int_def sgn_if)
  have wn: "uint (get_WN (gst_of_duration d)) = d div 604800 mod 4096"
    unfolding gst_of_duration_def get_WN_compute_gst mask_constants sd take_bit_eq_mask[symmetric]
    by (simp only: unsigned_take_bit_eq unsigned_of_int)
      (simp add: take_bit_eq_mod mod_mod_cancel)
  have "d mod 604800 < 604800" "0 \<le> d mod 604800" by simp_all
  then have "uint (get_TOW (gst_of_duration d)) = d mod 604800"
    unfolding gst_of_duration_def get_TOW_compute_gst mask_constants sd take_bit_eq_mask[symmetric]
    by (simp only: unsigned_take_bit_eq unsigned_of_int)
      (simp add: take_bit_eq_mod mod_mod_cancel)
  with wn show ?thesis ..
qed

lemma gst_of_duration_eq_witness:
  "uint (get_WN (gst_of_duration 700000)) = 1 \<and> uint (get_TOW (gst_of_duration 700000)) = 95200"
  using gst_of_duration_eq[of 700000] by simp

section \<open>Bit strings\<close>

lemma bit_val_inj:
  "length xs = length ys \<Longrightarrow> bit_val xs = bit_val ys \<Longrightarrow> xs = ys"
proof (induction xs ys rule: list_induct2)
  case Nil
  show ?case by simp
next
  case (Cons x xs y ys)
  have "bit_val xs < 2 ^ length ys" "bit_val ys < 2 ^ length ys"
    using bit_val_bound[of xs] bit_val_bound[of ys] Cons.hyps by simp_all
  with Cons.prems Cons.hyps have "x = y"
    by (cases x; cases y) (simp_all add: bit_val_Cons)
  with Cons show ?case by (simp add: bit_val_Cons)
qed

lemma byte_bits_of_val: "length bs = 8 \<Longrightarrow> byte_bits (of_nat (bit_val bs)) = bs"
proof (rule bit_val_inj)
  assume "length bs = 8"
  then show "length (byte_bits (of_nat (bit_val bs))) = length bs" by simp
  have "bit_val bs < 256" using bit_val_bound[of bs] \<open>length bs = 8\<close> by simp
  then show "bit_val (byte_bits (of_nat (bit_val bs))) = bit_val bs"
    by (simp add: bit_val_byte_bits unat_of_nat)
qed

definition string_bits :: "string \<Rightarrow> bool list" where
  "string_bits s = map (\<lambda>c. c = CHR ''1'') s"

lemma bitset_of_eq:
  "bitset_of s = (if set s \<subseteq> {CHR ''0'', CHR ''1''} then Some (string_bits s) else None)"
proof (cases "set s \<subseteq> {CHR ''0'', CHR ''1''}")
  case True
  then have "mapM bitset_char s = Some (map (\<lambda>c. c = CHR ''1'') s)"
    by (intro mapM_Some_map) (auto simp: bitset_char_def)
  with True show ?thesis by (simp add: bitset_of_def string_bits_def)
next
  case False
  then have "mapM bitset_char s = None"
    by (auto simp: mapM_None_iff bitset_char_def)
  with False show ?thesis by (simp add: bitset_of_def)
qed

lemma bytes_loop_bits:
  assumes "length s mod 8 = 0" and "set s \<subseteq> {CHR ''0'', CHR ''1''}"
  shows "\<exists>bs. bytes_loop s = Some bs \<and> bits_of bs = string_bits s"
  using assms
proof (induction s rule: bytes_loop.induct)
  case (1 s)
  show ?case
  proof (cases "s = []")
    case True
    then show ?thesis by (simp add: bytes_loop.simps string_bits_def)
  next
    case False
    have len: "8 \<le> length s" using False "1.prems"(1) by (cases "length s < 8") auto
    have tk: "bitset_of (take 8 s) = Some (string_bits (take 8 s))"
      using "1.prems"(2) set_take_subset[of 8 s] by (auto simp: bitset_of_eq)
    have "length (drop 8 s) mod 8 = 0" using len "1.prems"(1) by (simp add: le_mod_geq)
    moreover have "set (drop 8 s) \<subseteq> {CHR ''0'', CHR ''1''}"
      using "1.prems"(2) set_drop_subset[of 8 s] by (rule subset_trans[rotated])
    ultimately have "\<exists>bs. bytes_loop (drop 8 s) = Some bs \<and> bits_of bs = string_bits (drop 8 s)"
      by (rule "1.IH"[OF False tk])
    then obtain bs where bs: "bytes_loop (drop 8 s) = Some bs"
        "bits_of bs = string_bits (drop 8 s)" by (elim exE conjE)
    have "bits_of (of_nat (bit_val (string_bits (take 8 s))) # bs) = string_bits s"
      using len by (simp add: byte_bits_of_val bs(2) string_bits_def take_map[symmetric]
          drop_map[symmetric])
    then show ?thesis using False tk bs(1) by (simp add: bytes_loop.simps[of s])
  qed
qed

lemma bytes_loop_None:
  "\<not> set s \<subseteq> {CHR ''0'', CHR ''1''} \<Longrightarrow> bytes_loop s = None"
proof (induction s rule: bytes_loop.induct)
  case (1 s)
  then have ne: "s \<noteq> []" by auto
  show ?case
  proof (cases "bitset_of (take 8 s)")
    case None
    with ne show ?thesis by (simp add: bytes_loop.simps[of s])
  next
    case (Some b)
    then have "set (take 8 s) \<subseteq> {CHR ''0'', CHR ''1''}"
      by (auto simp: bitset_of_eq split: if_splits)
    moreover have "set s = set (take 8 s) \<union> set (drop 8 s)"
      by (metis append_take_drop_id set_append)
    ultimately have "\<not> set (drop 8 s) \<subseteq> {CHR ''0'', CHR ''1''}"
      using "1.prems" by blast
    with "1.IH"[OF ne Some] have "bytes_loop (drop 8 s) = None" .
    with ne Some show ?thesis by (simp add: bytes_loop.simps[of s])
  qed
qed

definition pad8 :: "nat \<Rightarrow> nat" where
  "pad8 n = (8 - n mod 8) mod 8"

text \<open>The bytes of a bit string hold exactly its bits, then zeros up to the byte.\<close>

lemma helper_bytes_bits:
  assumes "set s \<subseteq> {CHR ''0'', CHR ''1''}"
  shows "\<exists>bs. helper_bytes s = Some bs \<and>
           bits_of bs = string_bits s @ replicate (pad8 (length s)) False"
proof -
  let ?p = "s @ replicate (pad8 (length s)) (CHR ''0'')"
  have pad: "helper_bytes s = bytes_loop ?p"
    by (simp add: helper_bytes_def pad8_def Let_def)
  have "length ?p mod 8 = 0" unfolding pad8_def by (simp add: mod_simps) presburger
  moreover have "set ?p \<subseteq> {CHR ''0'', CHR ''1''}" using assms by auto
  ultimately have "\<exists>bs. bytes_loop ?p = Some bs \<and> bits_of bs = string_bits ?p"
    by (rule bytes_loop_bits)
  then obtain bs where "bytes_loop ?p = Some bs" "bits_of bs = string_bits ?p"
    by (elim exE conjE)
  then show ?thesis by (simp add: pad string_bits_def)
qed

lemma helper_bytes_None_iff:
  "helper_bytes s = None \<longleftrightarrow> \<not> set s \<subseteq> {CHR ''0'', CHR ''1''}"
proof
  assume "helper_bytes s = None"
  then show "\<not> set s \<subseteq> {CHR ''0'', CHR ''1''}" using helper_bytes_bits[of s] by auto
next
  assume "\<not> set s \<subseteq> {CHR ''0'', CHR ''1''}"
  then show "helper_bytes s = None"
    by (auto simp: helper_bytes_def Let_def intro!: bytes_loop_None)
qed

section \<open>Hexadecimal strings\<close>

lemma hex_digit_facts:
  assumes "n < 16"
  shows "hex_value (hex_digit n) = Some n" "\<not> is_space (hex_digit n)"
    "hex_digit n \<noteq> CHR ''-''" "hex_digit n \<noteq> CHR ''+''"
proof -
  have "\<forall>k \<in> set [0..<16]. hex_value (hex_digit k) = Some k \<and> \<not> is_space (hex_digit k) \<and>
      hex_digit k \<noteq> CHR ''-'' \<and> hex_digit k \<noteq> CHR ''+''"
    by code_simp
  with assms show "hex_value (hex_digit n) = Some n" "\<not> is_space (hex_digit n)"
    "hex_digit n \<noteq> CHR ''-''" "hex_digit n \<noteq> CHR ''+''"
    by auto
qed

lemma stoul16_digits:
  "a < 16 \<Longrightarrow> b < 16 \<Longrightarrow> stoul16 [hex_digit a, hex_digit b] = Some (of_nat (16 * a + b))"
  by (simp add: stoul16_def Let_def skip_0x_def hex_digit_facts)

text \<open>Hexadecimal text round trip: what \<open>convert_to_hex_string\<close> writes for any bytes,
  \<open>convert_from_hex_string\<close> reads back, without an exception.\<close>

lemma convert_hex_roundtrip: "convert_from_hex_string (convert_to_hex_string bs) = Some bs"
proof -
  have loop: "from_hex_loop (convert_to_hex_string bs) = Some bs"
  proof (induction bs)
    case Nil
    show ?case by (simp add: convert_to_hex_string_def from_hex_loop.simps)
  next
    case (Cons b bs)
    have "unat b div 16 < 16" using unat_u8[of b] by (simp add: less_mult_imp_div_less)
    then have "stoul16 [hex_digit (unat b div 16), hex_digit (unat b mod 16)] =
        Some (of_nat (unat b))"
      by (simp add: stoul16_digits mult.commute)
    moreover have "ucast (of_nat (unat b) :: u64) = b"
      by (rule bit_word_eqI) (auto simp: bit_simps dest: bit_imp_le_length)
    ultimately show ?case
      using Cons by (simp add: convert_to_hex_string_def from_hex_loop.simps[of "_ # _"])
  qed
  have "even (length (convert_to_hex_string bs))"
    by (induction bs) (simp_all add: convert_to_hex_string_def)
  with loop show ?thesis
    by (simp add: convert_from_hex_string_def even_iff_mod_2_eq_zero)
qed

end
