(* ===== verification/Osnma_Dsm_Reader.thy ===== *)
theory Osnma_Dsm_Reader
  imports Osnma_Helper
begin

text \<open>
  The class \<open>OSNMA_DSM_Reader\<close> of \<open>core/system_parameters/osnma_dsm_reader.cc\<close>: the fields of
  the NMA header, of the DSM header and of a DSM message, read with the masks of
  \<open>osnma_dsm_reader.h\<close>. A read of the message is an unchecked \<open>operator[]\<close>, hence \<^const>\<open>vget\<close>;
  the lemmas show every getter equal to the bit field of the interface control document.
\<close>

section \<open>Headers\<close>

definition get_nmas :: "u8 \<Rightarrow> u8" where
  "get_nmas nma_header = drop_bit 6 (nma_header AND 0xC0)"

definition get_cid :: "u8 \<Rightarrow> u8" where
  "get_cid nma_header = drop_bit 4 (nma_header AND 0x30)"

definition get_cpks :: "u8 \<Rightarrow> u8" where
  "get_cpks nma_header = drop_bit 1 (nma_header AND 0x0E)"

definition get_nma_header_reserved :: "u8 \<Rightarrow> bool" where
  "get_nma_header_reserved nma_header \<longleftrightarrow> nma_header AND 0x01 \<noteq> 0"

definition get_dsm_id :: "u8 \<Rightarrow> u8" where
  "get_dsm_id dsm_header = drop_bit 4 (dsm_header AND 0xF0)"

definition get_dsm_block_id :: "u8 \<Rightarrow> u8" where
  "get_dsm_block_id dsm_header = dsm_header AND 0x0F"

definition get_number_blocks_index :: "u8 \<Rightarrow> u8" where
  "get_number_blocks_index dsm_msg_0 = drop_bit 4 (dsm_msg_0 AND 0xF0)"

section \<open>DSM message\<close>

definition get_pkid :: "u8 list \<Rightarrow> u8 option" where
  "get_pkid dsm_msg = do { b \<leftarrow> vget dsm_msg 0; Some (b AND 0x0F) }"

definition get_cidkr :: "u8 list \<Rightarrow> u8 option" where
  "get_cidkr dsm_msg = do { b \<leftarrow> vget dsm_msg 1; Some (drop_bit 6 (b AND 0xC0)) }"

definition get_dsm_reserved1 :: "u8 list \<Rightarrow> u8 option" where
  "get_dsm_reserved1 dsm_msg = do { b \<leftarrow> vget dsm_msg 1; Some (drop_bit 4 (b AND 0x30)) }"

definition get_hf :: "u8 list \<Rightarrow> u8 option" where
  "get_hf dsm_msg = do { b \<leftarrow> vget dsm_msg 1; Some (drop_bit 2 (b AND 0x0C)) }"

definition get_mf :: "u8 list \<Rightarrow> u8 option" where
  "get_mf dsm_msg = do { b \<leftarrow> vget dsm_msg 1; Some (b AND 0x03) }"

definition get_ks :: "u8 list \<Rightarrow> u8 option" where
  "get_ks dsm_msg = do { b \<leftarrow> vget dsm_msg 2; Some (drop_bit 4 (b AND 0xF0)) }"

definition get_ts :: "u8 list \<Rightarrow> u8 option" where
  "get_ts dsm_msg = do { b \<leftarrow> vget dsm_msg 2; Some (b AND 0x0F) }"

definition get_maclt :: "u8 list \<Rightarrow> u8 option" where
  "get_maclt dsm_msg = vget dsm_msg 3"

definition get_dsm_reserved :: "u8 list \<Rightarrow> u8 option" where
  "get_dsm_reserved dsm_msg = do { b \<leftarrow> vget dsm_msg 4; Some (drop_bit 4 (b AND 0xF0)) }"

definition get_wn_k :: "u8 list \<Rightarrow> u16 option" where
  "get_wn_k dsm_msg =
     do { b4 \<leftarrow> vget dsm_msg 4;
          b5 \<leftarrow> vget dsm_msg 5;
          Some (push_bit 8 (ucast (b4 AND 0x0F)) + ucast b5) }"

definition get_towh_k :: "u8 list \<Rightarrow> u8 option" where
  "get_towh_k dsm_msg = vget dsm_msg 6"

definition get_alpha :: "u8 list \<Rightarrow> u64 option" where
  "get_alpha dsm_msg =
     do { b7 \<leftarrow> vget dsm_msg 7;
          b8 \<leftarrow> vget dsm_msg 8;
          b9 \<leftarrow> vget dsm_msg 9;
          b10 \<leftarrow> vget dsm_msg 10;
          b11 \<leftarrow> vget dsm_msg 11;
          b12 \<leftarrow> vget dsm_msg 12;
          Some (push_bit 40 (ucast b7) + push_bit 32 (ucast b8) + push_bit 24 (ucast b9)
                + push_bit 16 (ucast b10) + push_bit 8 (ucast b11) + ucast b12) }"

definition get_l_dk_bits :: "u8 \<Rightarrow> u16" where
  "get_l_dk_bits nb_dk = snd (table_lookup (0, 0) OSNMA_TABLE_7 nb_dk)"

definition get_lk_bits :: "u8 \<Rightarrow> u16" where
  "get_lk_bits ks = table_lookup 0 OSNMA_TABLE_10 ks"

text \<open>The root key: zeros when the message is not longer than the header and the key.\<close>

definition get_kroot :: "u8 list \<Rightarrow> u16 \<Rightarrow> u8 list option" where
  "get_kroot dsm_msg bytes_lk =
     (if length dsm_msg > 13 + unat bytes_lk then vread dsm_msg 13 (unat bytes_lk)
      else Some (replicate (unat bytes_lk) 0))"

definition get_hash_function :: "u8 \<Rightarrow> string" where
  "get_hash_function hf = table_lookup [] OSNMA_TABLE_8 hf"

definition get_mid :: "u8 list \<Rightarrow> u8 option" where
  "get_mid dsm_msg = do { b \<leftarrow> vget dsm_msg 0; Some (b AND 0x0F) }"

definition get_npkt :: "u8 list \<Rightarrow> u8 option" where
  "get_npkt dsm_msg = do { b \<leftarrow> vget dsm_msg 129; Some (drop_bit 4 (b AND 0xF0)) }"

definition get_npktid :: "u8 list \<Rightarrow> u8 option" where
  "get_npktid dsm_msg = do { b \<leftarrow> vget dsm_msg 129; Some (b AND 0x0F) }"

definition get_nmas_status :: "u8 \<Rightarrow> string" where
  "get_nmas_status nmas = table_lookup [] OSNMA_TABLE_1 nmas"

definition get_cpks_status :: "u8 \<Rightarrow> string" where
  "get_cpks_status cpks = table_lookup [] OSNMA_TABLE_2 cpks"

section \<open>Every getter is a bit field\<close>

lemma field_masks:
  "(0xC0 :: u8) = push_bit 6 (mask 2)" "(0x30 :: u8) = push_bit 4 (mask 2)"
  "(0x0E :: u8) = push_bit 1 (mask 3)" "(0x0C :: u8) = push_bit 2 (mask 2)"
  "(0xF0 :: u8) = push_bit 4 (mask 4)" "(0x0F :: u8) = mask 4" "(0x03 :: u8) = mask 2"
  "(0x01 :: u8) = mask 1"
  by (simp_all add: mask_eq_exp_minus_1)

lemmas field_simps_u8 = field_masks unat_masked_field unat_low_field

lemma mod_div_pow2: "(n :: nat) < 2 ^ (k + l) \<Longrightarrow> n div 2 ^ k mod 2 ^ l = n div 2 ^ k"
  by (simp add: less_mult_imp_div_less power_add mult.commute)

lemma nma_header_fields:
  "unat (get_nmas b) = bit_field [b] 0 2"
  "unat (get_cid b) = bit_field [b] 2 2"
  "unat (get_cpks b) = bit_field [b] 4 3"
  "get_nma_header_reserved b \<longleftrightarrow> bit_field [b] 7 1 = 1"
proof -
  have f: "bit_field [b] a l = unat b div 2 ^ (8 - a - l) mod 2 ^ l" if "a + l \<le> 8" for a l
    using bit_field_in_byte[of 0 "[b]" a l] that by simp
  show "unat (get_nmas b) = bit_field [b] 0 2" "unat (get_cid b) = bit_field [b] 2 2"
    "unat (get_cpks b) = bit_field [b] 4 3"
    unfolding get_nmas_def get_cid_def get_cpks_def field_simps_u8 by (simp_all add: f)
  have "get_nma_header_reserved b \<longleftrightarrow> unat (b AND 0x01) \<noteq> 0"
    by (simp add: get_nma_header_reserved_def unat_eq_0)
  also have "unat (b AND 0x01) = unat b mod 2"
    unfolding field_simps_u8 by simp
  finally show "get_nma_header_reserved b \<longleftrightarrow> bit_field [b] 7 1 = 1" by (simp add: f)
qed

lemma dsm_header_fields:
  "unat (get_dsm_id b) = bit_field [b] 0 4"
  "unat (get_dsm_block_id b) = bit_field [b] 4 4"
  "unat (get_number_blocks_index b) = bit_field [b] 0 4"
proof -
  have f: "bit_field [b] a l = unat b div 2 ^ (8 - a - l) mod 2 ^ l" if "a + l \<le> 8" for a l
    using bit_field_in_byte[of 0 "[b]" a l] that by simp
  show "unat (get_dsm_id b) = bit_field [b] 0 4" "unat (get_dsm_block_id b) = bit_field [b] 4 4"
    "unat (get_number_blocks_index b) = bit_field [b] 0 4"
    unfolding get_dsm_id_def get_dsm_block_id_def get_number_blocks_index_def field_simps_u8
    by (simp_all add: f)
qed

lemmas dsm_getter_defs = get_pkid_def get_cidkr_def get_dsm_reserved1_def get_hf_def get_mf_def
  get_ks_def get_ts_def get_maclt_def get_dsm_reserved_def get_towh_k_def get_mid_def
  get_npkt_def get_npktid_def

lemma dsm_byte_fields:
  assumes "4 < length m"
  shows "map_option unat (get_pkid m) = Some (bit_field m 4 4)"
    and "map_option unat (get_cidkr m) = Some (bit_field m 8 2)"
    and "map_option unat (get_dsm_reserved1 m) = Some (bit_field m 10 2)"
    and "map_option unat (get_hf m) = Some (bit_field m 12 2)"
    and "map_option unat (get_mf m) = Some (bit_field m 14 2)"
    and "map_option unat (get_ks m) = Some (bit_field m 16 4)"
    and "map_option unat (get_ts m) = Some (bit_field m 20 4)"
    and "map_option unat (get_maclt m) = Some (bit_field m 24 8)"
    and "map_option unat (get_dsm_reserved m) = Some (bit_field m 32 4)"
    and "map_option unat (get_mid m) = Some (bit_field m 4 4)"
proof -
  have v: "vget m 0 = Some (m ! 0)" "vget m 1 = Some (m ! 1)" "vget m 2 = Some (m ! 2)"
    "vget m 3 = Some (m ! 3)" "vget m 4 = Some (m ! 4)"
    using assms by (auto simp: vget_def)
  have f: "bit_field m (8 * i + a) l = unat (m ! i) div 2 ^ (8 - a - l) mod 2 ^ l"
    if "i \<le> 4" "a + l \<le> 8" for i a l
    using assms that bit_field_in_byte[of i m a l] by simp
  note bf = f[of 0 4 4, simplified] f[of 1 0 2, simplified] f[of 1 2 2, simplified]
    f[of 1 4 2, simplified] f[of 1 6 2, simplified] f[of 2 0 4, simplified]
    f[of 2 4 4, simplified] f[of 3 0 8, simplified] f[of 4 0 4, simplified]
  show "map_option unat (get_pkid m) = Some (bit_field m 4 4)"
    and "map_option unat (get_cidkr m) = Some (bit_field m 8 2)"
    and "map_option unat (get_dsm_reserved1 m) = Some (bit_field m 10 2)"
    and "map_option unat (get_hf m) = Some (bit_field m 12 2)"
    and "map_option unat (get_mf m) = Some (bit_field m 14 2)"
    and "map_option unat (get_ks m) = Some (bit_field m 16 4)"
    and "map_option unat (get_ts m) = Some (bit_field m 20 4)"
    and "map_option unat (get_maclt m) = Some (bit_field m 24 8)"
    and "map_option unat (get_dsm_reserved m) = Some (bit_field m 32 4)"
    and "map_option unat (get_mid m) = Some (bit_field m 4 4)"
    unfolding dsm_getter_defs field_masks v bf by (simp_all add: unat_masked_field unat_low_field)
qed

lemma dsm_npk_fields:
  assumes "129 < length m"
  shows "map_option unat (get_npkt m) = Some (bit_field m 1032 4)"
    and "map_option unat (get_npktid m) = Some (bit_field m 1036 4)"
  unfolding dsm_getter_defs field_masks
  using assms bit_field_in_byte[of 129 m 0 4] bit_field_in_byte[of 129 m 4 4]
  by (simp_all add: vec_simps unat_masked_field unat_low_field)

lemma dsm_wn_k_field:
  assumes "5 < length m"
  shows "map_option unat (get_wn_k m) = Some (bit_field m 36 12)"
proof -
  have td: "take 2 (drop 4 m) = [m ! 4, m ! 5]"
    using assms by (simp add: take_drop_nth upt_rec)
  have "unat (ucast (m ! 4 AND 0x0F) :: u16) = unat (m ! 4) mod 16"
    unfolding field_masks by (simp add: unat_ucast_up unat_low_field)
  moreover have "push_bit 8 (ucast (m ! 4 AND 0x0F)) + ucast (m ! 5) =
      (of_nat (unat (m ! 4 AND 0x0F) * 2 ^ 8 + unat (m ! 5)) :: u16)"
    by (simp only: push_ucast_of_nat of_nat_add ucast_of_nat)
  moreover have "unat (m ! 4 AND 0x0F) = unat (m ! 4) mod 16"
    unfolding field_masks by (simp add: unat_low_field)
  moreover have "unat (m ! 4) mod 16 * 2 ^ 8 + unat (m ! 5) < 2 ^ LENGTH(16)"
  proof -
    have "unat (m ! 4) mod 16 < 16" by simp
    then have "unat (m ! 4) mod 16 * 256 + unat (m ! 5) < 65536"
      using unat_u8[of "m ! 5"] by linarith
    then show ?thesis by simp
  qed
  ultimately have "unat (push_bit 8 (ucast (m ! 4 AND 0x0F)) + ucast (m ! 5) :: u16)
      = unat (m ! 4) mod 16 * 256 + unat (m ! 5)"
    by (simp only: unat_of_nat_less) simp
  moreover have "bit_field m 36 12 = (unat (m ! 4) * 256 + unat (m ! 5)) mod 4096"
    using assms bit_field_in_bytes[of 4 2 m 4 12] by (simp add: td)
  moreover have "(unat (m ! 4) * 256 + unat (m ! 5)) mod 4096
      = unat (m ! 4) mod 16 * 256 + unat (m ! 5)"
  proof -
    have "unat (m ! 4) mod 16 < 16" by simp
    then have "unat (m ! 4) mod 16 * 256 + unat (m ! 5) < 4096"
      using unat_u8[of "m ! 5"] by linarith
    moreover have "unat (m ! 4) * 256 + unat (m ! 5) =
        unat (m ! 4) mod 16 * 256 + unat (m ! 5) + unat (m ! 4) div 16 * 4096"
      using div_mult_mod_eq[of "unat (m ! 4)" 16] by linarith
    ultimately show ?thesis by (simp only: mod_mult_self1) simp
  qed
  ultimately show ?thesis using assms by (simp add: get_wn_k_def vec_simps)
qed

lemma dsm_alpha_field:
  assumes "12 < length m"
  shows "map_option unat (get_alpha m) = Some (bit_field m 56 48)"
    and "map_option unat (get_towh_k m) = Some (bit_field m 48 8)"
proof -
  have td: "take 6 (drop 7 m) = [m ! 7, m ! 8, m ! 9, m ! 10, m ! 11, m ! 12]"
    using assms by (simp add: take_drop_nth upt_rec)
  have bf: "bit_field m 56 48 = unat (m ! 7) * 2 ^ 40 + unat (m ! 8) * 2 ^ 32 + unat (m ! 9) * 2 ^ 24
      + unat (m ! 10) * 2 ^ 16 + unat (m ! 11) * 2 ^ 8 + unat (m ! 12)"
    using assms bit_field_bytes[of 7 6 m] by (simp add: td)
  have sum: "push_bit 40 (ucast (m ! 7)) + push_bit 32 (ucast (m ! 8)) + push_bit 24 (ucast (m ! 9))
      + push_bit 16 (ucast (m ! 10)) + push_bit 8 (ucast (m ! 11)) + ucast (m ! 12) =
      (of_nat (bit_field m 56 48) :: u64)"
    unfolding bf by (simp only: push_ucast_of_nat of_nat_add ucast_of_nat)
  have "bit_field m 56 48 < 2 ^ LENGTH(64)"
    using bit_field_bound[of m 56 48] by simp
  then have "map_option unat (get_alpha m) = Some (bit_field m 56 48)"
    using assms by (simp only: get_alpha_def vget_Some sum) (simp add: vec_simps unat_of_nat_less sum)
  then show "map_option unat (get_alpha m) = Some (bit_field m 56 48)" .
  show "map_option unat (get_towh_k m) = Some (bit_field m 48 8)"
    using assms bit_field_in_byte[of 6 m 0 8] by (simp add: get_towh_k_def vec_simps)
qed

text \<open>Every field of a DSM-KROOT message is read at the bit position the interface document
  gives it, most significant bit first, and no read leaves a message of more than 12 bytes.\<close>

lemma dsm_kroot_fields:
  assumes "12 < length m"
  shows "map_option unat (get_pkid m) = Some (bit_field m 4 4) \<and>
    map_option unat (get_cidkr m) = Some (bit_field m 8 2) \<and>
    map_option unat (get_hf m) = Some (bit_field m 12 2) \<and>
    map_option unat (get_mf m) = Some (bit_field m 14 2) \<and>
    map_option unat (get_ks m) = Some (bit_field m 16 4) \<and>
    map_option unat (get_ts m) = Some (bit_field m 20 4) \<and>
    map_option unat (get_maclt m) = Some (bit_field m 24 8) \<and>
    map_option unat (get_wn_k m) = Some (bit_field m 36 12) \<and>
    map_option unat (get_towh_k m) = Some (bit_field m 48 8) \<and>
    map_option unat (get_alpha m) = Some (bit_field m 56 48)"
proof -
  have "4 < length m" "5 < length m" using assms by simp_all
  then show ?thesis
    by (simp only: dsm_byte_fields dsm_wn_k_field dsm_alpha_field[OF assms] simp_thms)
qed

lemma dsm_kroot_fields_witness:
  "map_option unat (get_alpha (replicate 13 0xAB)) = Some (bit_field (replicate 13 0xAB) 56 48)"
proof -
  have "12 < length (replicate 13 (0xAB :: u8))" by simp
  from dsm_kroot_fields[OF this] show ?thesis by blast
qed

lemma get_kroot_total: "\<exists>k. get_kroot m n = Some k \<and> length k = unat n"
  by (simp add: get_kroot_def vread_eq)

lemma get_kroot_slice:
  "13 + unat n < length m \<Longrightarrow> get_kroot m n = Some (take (unat n) (drop 13 m))"
  by (simp add: get_kroot_def vec_simps)

end
