(* ===== verification/Osnma_Data.thy ===== *)
theory Osnma_Data
  imports Osnma_Dsm_Reader
begin

text \<open>
  The data classes of \<open>core/system_parameters/osnma_data.h\<close> and the message \<open>OSNMA_msg\<close> of
  \<open>galileo_inav_message.h\<close> that the telemetry decoder sends. Default member initialisers are
  the \<open>default_\<dots>\<close> values. The counters \<open>nav_data_id\<close> and \<open>tag_id\<close>, which only appear in
  log lines, are left out.
\<close>

record osnma_msg =
  om_mack :: "u32 list"      \<comment> \<open>\<open>std::array<uint32_t, 15>\<close>\<close>
  om_hkroot :: "u8 list"     \<comment> \<open>\<open>std::array<uint8_t, 15>\<close>\<close>
  om_PRN :: u32
  om_WN_sf0 :: u32
  om_TOW_sf0 :: u32

record dsm_nma_header =
  nmas :: u8
  cid :: u8
  cpks :: u8
  nma_reserved :: bool

record dsm_dsm_header =
  dsm_id :: u8
  dsm_block_id :: u8

record mack_header =
  tag0 :: u64
  macseq :: u16
  mh_cop :: u8

record mack_tag_info =
  ti_PRN_d :: u8
  ti_ADKD :: u8
  ti_cop :: u8

record mack_tag_and_info =
  mti_tag :: u64
  mti_tag_info :: mack_tag_info
  mti_counter :: u32

record dsm_pkr_message =
  itn :: "u8 list"
  npk :: "u8 list"
  p_dp :: "u8 list"
  nb_dp :: u8
  mid :: u8
  npkt :: u8
  npktid :: u8

record dsm_kroot_message =
  kroot :: "u8 list"
  ds :: "u8 list"
  p_dk :: "u8 list"
  alpha :: u64
  wn_k :: u16
  nb_dk :: u8
  pkid :: u8
  cidkr :: u8
  kr_reserved1 :: u8
  hf :: u8
  mf :: u8
  ks :: u8
  ts :: u8
  maclt :: u8
  kr_reserved :: u8
  towh_k :: u8
  kr_verified :: bool

record mack_message =
  header :: mack_header
  tag_and_info :: "mack_tag_and_info list"
  mk_key :: "u8 list"
  mk_TOW :: u32
  mk_WN :: u32
  mk_PRNa :: u32

record osnma_navdata =
  d_ephemeris_iono :: string
  d_utc :: string
  d_TOW_sf0 :: u32
  d_last_received_TOW :: u32
  PRNd :: u32
  verified_bits :: u32
  IOD_nav :: u32
  nd_verified :: bool

record osnma_data =
  d_nma_header :: dsm_nma_header
  d_dsm_header :: dsm_dsm_header
  d_dsm_pkr_message :: dsm_pkr_message
  d_dsm_kroot_message :: dsm_kroot_message
  d_dsm_kroot_new_message :: dsm_kroot_message
  d_mack_msg :: mack_message
  d_nav_data :: osnma_navdata

datatype e_verification_status = SUCCESS | FAIL | UNVERIFIED

record tag =
  tg_TOW :: u32
  tg_WN :: u32
  tg_PRNa :: u32
  tg_CTR :: u8
  tg_status :: e_verification_status
  received_tag :: u64
  computed_tag :: u64
  tg_PRN_d :: u8
  tg_ADKD :: u8
  tg_cop :: u8
  skipped :: u32
  tg_nav_data :: string

section \<open>Defaults\<close>

definition default_kroot_message :: dsm_kroot_message where
  "default_kroot_message =
     \<lparr>kroot = [], ds = [], p_dk = [], alpha = 0, wn_k = 0, nb_dk = 0, pkid = 0, cidkr = 0,
      kr_reserved1 = 0, hf = 0, mf = 0, ks = 0, ts = 0, maclt = 0, kr_reserved = 0, towh_k = 0,
      kr_verified = False\<rparr>"

definition default_pkr_message :: dsm_pkr_message where
  "default_pkr_message =
     \<lparr>itn = replicate 128 0, npk = [], p_dp = [], nb_dp = 0, mid = 0, npkt = 0, npktid = 0\<rparr>"

definition default_mack_message :: mack_message where
  "default_mack_message =
     \<lparr>header = \<lparr>tag0 = 0, macseq = 0, mh_cop = 0\<rparr>, tag_and_info = [], mk_key = [],
      mk_TOW = 0, mk_WN = 0, mk_PRNa = 0\<rparr>"

definition default_navdata :: osnma_navdata where
  "default_navdata =
     \<lparr>d_ephemeris_iono = [], d_utc = [], d_TOW_sf0 = 0, d_last_received_TOW = 0, PRNd = 0,
      verified_bits = 0, IOD_nav = 0, nd_verified = False\<rparr>"

definition default_osnma_data :: osnma_data where
  "default_osnma_data =
     \<lparr>d_nma_header = \<lparr>nmas = 0, cid = 0, cpks = 0, nma_reserved = False\<rparr>,
      d_dsm_header = \<lparr>dsm_id = 0, dsm_block_id = 0\<rparr>,
      d_dsm_pkr_message = default_pkr_message,
      d_dsm_kroot_message = default_kroot_message,
      d_dsm_kroot_new_message = default_kroot_message,
      d_mack_msg = default_mack_message,
      d_nav_data = default_navdata\<rparr>"

section \<open>Operations\<close>

text \<open>The two constructors of \<open>Tag\<close>: a tag of the Tag\&Info field, and Tag0.\<close>

definition tag_of_info :: "mack_tag_and_info \<Rightarrow> u32 \<Rightarrow> u32 \<Rightarrow> u32 \<Rightarrow> u8 \<Rightarrow> tag" where
  "tag_of_info MTI TOW WN PRNa CTR =
     \<lparr>tg_TOW = TOW, tg_WN = WN, tg_PRNa = PRNa, tg_CTR = CTR, tg_status = UNVERIFIED,
      received_tag = mti_tag MTI, computed_tag = 0, tg_PRN_d = ti_PRN_d (mti_tag_info MTI),
      tg_ADKD = ti_ADKD (mti_tag_info MTI), tg_cop = ti_cop (mti_tag_info MTI), skipped = 0,
      tg_nav_data = []\<rparr>"

definition tag0_of_mack :: "mack_message \<Rightarrow> tag" where
  "tag0_of_mack mack =
     \<lparr>tg_TOW = mk_TOW mack, tg_WN = mk_WN mack, tg_PRNa = mk_PRNa mack, tg_CTR = 1,
      tg_status = UNVERIFIED, received_tag = tag0 (header mack), computed_tag = 0,
      tg_PRN_d = ucast (mk_PRNa mack), tg_ADKD = 0, tg_cop = mh_cop (header mack), skipped = 0,
      tg_nav_data = []\<rparr>"

text \<open>\<open>OSNMA_NavData::add_nav_data\<close>: ephemeris or UTC bits by length. The ten bits of the IOD
  go through \<open>uint8_t\<close> on their way into the 32-bit member.\<close>

definition add_nav_data :: "string \<Rightarrow> osnma_navdata \<Rightarrow> osnma_navdata option" where
  "add_nav_data nav_data nd =
     (if length nav_data = 549 then
        do { bits \<leftarrow> bitset_of (take 10 nav_data);
             Some (nd\<lparr>d_ephemeris_iono := nav_data,
                      IOD_nav := ucast (of_nat (bit_val bits) :: u8)\<rparr>) }
      else if length nav_data = 141 then Some (nd\<lparr>d_utc := nav_data\<rparr>)
      else Some nd)"

definition set_update_verified_bits :: "u32 \<Rightarrow> osnma_navdata \<Rightarrow> osnma_navdata" where
  "set_update_verified_bits morebits nd = nd\<lparr>verified_bits := verified_bits nd + morebits\<rparr>"

text \<open>The member holds the issue of data modulo 256, not its ten bits.\<close>

lemma add_nav_data_IOD:
  assumes "add_nav_data s nd = Some nd'" and "length s = 549"
  shows "unat (IOD_nav nd') = bit_val (string_bits (take 10 s)) mod 256"
proof -
  from assms obtain bits where b: "bitset_of (take 10 s) = Some bits"
      and nd': "IOD_nav nd' = ucast (of_nat (bit_val bits) :: u8)"
    by (auto simp: add_nav_data_def bind_eq_Some_conv)
  from b have "bits = string_bits (take 10 s)" by (auto simp: bitset_of_eq split: if_splits)
  with nd' show ?thesis by (simp only: unat_ucast_up) (simp add: unat_ucast_up unat_of_nat)
qed

lemma add_nav_data_total:
  assumes "set s \<subseteq> {CHR ''0'', CHR ''1''}"
  shows "\<exists>nd'. add_nav_data s nd = Some nd'"
proof -
  have "set (take 10 s) \<subseteq> {CHR ''0'', CHR ''1''}"
    using set_take_subset assms by (rule subset_trans)
  then show ?thesis by (simp add: add_nav_data_def bitset_of_eq)
qed

end
