(* ===== verification/Osnma_Nav_Data.thy ===== *)
theory Osnma_Nav_Data
  imports Osnma_Data
begin

text \<open>
  The class \<open>OSNMA_NavDataManager\<close> of \<open>core/libs/osnma_nav_data_manager.cc\<close>: the navigation
  bits of every satellite, a map from the satellite to a map from the time of week of the
  first reception to the data. \<open>operator[]\<close> on a missing key creates a default entry, as
  \<open>nd_at\<close> and \<open>tow_map_at\<close> write out.
\<close>

type_synonym nav_store = "(u32, (u32, osnma_navdata) std_map) std_map"

section \<open>Operations\<close>

definition tow_map_at :: "nav_store \<Rightarrow> u32 \<Rightarrow> (u32, osnma_navdata) std_map" where
  "tow_map_at m prn = (case map_of m prn of Some tm \<Rightarrow> tm | None \<Rightarrow> [])"

definition nd_at :: "nav_store \<Rightarrow> u32 \<Rightarrow> u32 \<Rightarrow> osnma_navdata" where
  "nd_at m prn tow =
     (case map_of (tow_map_at m prn) tow of Some nd \<Rightarrow> nd | None \<Rightarrow> default_navdata)"

definition nd_set :: "nav_store \<Rightarrow> u32 \<Rightarrow> u32 \<Rightarrow> osnma_navdata \<Rightarrow> nav_store" where
  "nd_set m prn tow nd = map_assign prn (map_assign tow nd (tow_map_at m prn)) m"

text \<open>\<open>have_nav_data(nav_bits, PRNd, TOW)\<close>: the first entry with the same bits gets the new
  reception time.\<close>

definition nav_bits_match :: "string \<Rightarrow> osnma_navdata \<Rightarrow> bool" where
  "nav_bits_match nav_bits nd \<longleftrightarrow>
     (if length nav_bits = 549 then d_ephemeris_iono nd = nav_bits
      else if length nav_bits = 141 then d_utc nd = nav_bits
      else False)"

fun touch_nav_data ::
  "string \<Rightarrow> u32 \<Rightarrow> (u32, osnma_navdata) std_map \<Rightarrow> bool \<times> (u32, osnma_navdata) std_map" where
  "touch_nav_data nav_bits TOW [] = (False, [])"
| "touch_nav_data nav_bits TOW ((t, nd) # tm) =
     (if nav_bits_match nav_bits nd then (True, (t, nd\<lparr>d_last_received_TOW := TOW\<rparr>) # tm)
      else let (found, tm') = touch_nav_data nav_bits TOW tm in (found, (t, nd) # tm'))"

definition have_nav_data_bits :: "string \<Rightarrow> u32 \<Rightarrow> u32 \<Rightarrow> nav_store \<Rightarrow> bool \<times> nav_store" where
  "have_nav_data_bits nav_bits prn TOW m =
     (case map_of m prn of
        Some tm \<Rightarrow> let (found, tm') = touch_nav_data nav_bits TOW tm in (found, map_assign prn tm' m)
      | None \<Rightarrow> (False, m))"

definition add_navigation_data :: "string \<Rightarrow> u32 \<Rightarrow> u32 \<Rightarrow> nav_store \<Rightarrow> nav_store option" where
  "add_navigation_data nav_bits prn TOW m =
     (let (found, m1) = have_nav_data_bits nav_bits prn TOW m in
      if found then Some m1
      else do {
        nd \<leftarrow> add_nav_data nav_bits (nd_at m1 prn TOW);
        Some (nd_set m1 prn TOW (nd\<lparr>PRNd := prn, d_TOW_sf0 := TOW, d_last_received_TOW := TOW\<rparr>)) })"

text \<open>The data a tag of the given ADKD authenticates.\<close>

definition adkd_data :: "u8 \<Rightarrow> osnma_navdata \<Rightarrow> string" where
  "adkd_data adkd nd =
     (if adkd = 0 \<or> adkd = 12 then d_ephemeris_iono nd
      else if adkd = 4 then d_utc nd
      else [])"

definition update_nav_data_tag :: "u8 \<Rightarrow> tag \<Rightarrow> nav_store \<Rightarrow> nav_store" where
  "update_nav_data_tag tag_size t m =
     (if tg_status t = SUCCESS then
        (case map_of m (ucast (tg_PRN_d t)) of
           None \<Rightarrow> m
         | Some tow_map \<Rightarrow>
             map_assign (ucast (tg_PRN_d t))
               (map (\<lambda>(tow, nd). (tow,
                  if tg_nav_data t = adkd_data (tg_ADKD t) nd
                  then set_update_verified_bits (ucast tag_size) nd else nd)) tow_map) m)
      else m)"

definition update_nav_data :: "(u32, tag) std_map \<Rightarrow> u8 \<Rightarrow> nav_store \<Rightarrow> nav_store" where
  "update_nav_data tags tag_size m =
     (if m = [] then m else fold (\<lambda>(_, t). update_nav_data_tag tag_size t) tags m)"

definition L_t_min :: u32 where
  "L_t_min = 40"

definition get_verified_data :: "nav_store \<Rightarrow> osnma_navdata list \<times> nav_store" where
  "get_verified_data m =
     (concat (map (\<lambda>(_, tm). filter (\<lambda>nd. L_t_min \<le> verified_bits nd) (map snd tm)) m),
      map (\<lambda>(prn, tm). (prn, map (\<lambda>(tow, nd). (tow,
        if L_t_min \<le> verified_bits nd then nd\<lparr>nd_verified := True\<rparr> else nd)) tm)) m)"

definition have_nav_data_at :: "nav_store \<Rightarrow> u32 \<Rightarrow> u32 \<Rightarrow> u8 \<Rightarrow> bool" where
  "have_nav_data_at m prn TOW adkd =
     (case map_of m prn of
        None \<Rightarrow> False
      | Some tm \<Rightarrow> (case map_of tm TOW of
            None \<Rightarrow> False
          | Some nd \<Rightarrow>
              if adkd = 0 \<or> adkd = 12 then d_ephemeris_iono nd \<noteq> []
              else if adkd = 4 then d_utc nd \<noteq> []
              else False))"

text \<open>Whether a data set can be the one a tag refers to: it was first or last received inside
  the cut-off window and before the tag. The subtraction wraps at 32 bits.\<close>

definition in_cop_window :: "tag \<Rightarrow> u32 \<Rightarrow> osnma_navdata \<Rightarrow> bool" where
  "in_cop_window t tow nd \<longleftrightarrow>
     (tg_TOW t - 30 * ucast (tg_cop t) \<le> tow \<or>
      tg_TOW t - 30 * ucast (tg_cop t) \<le> d_last_received_TOW nd) \<and> tow < tg_TOW t"

fun nav_data_rev :: "tag \<Rightarrow> (u32 \<times> osnma_navdata) list \<Rightarrow> string" where
  "nav_data_rev t [] = []"
| "nav_data_rev t ((tow, nd) # rev_tm) =
     (if in_cop_window t tow nd \<and> adkd_data (tg_ADKD t) nd \<noteq> [] then adkd_data (tg_ADKD t) nd
      else nav_data_rev t rev_tm)"

definition get_navigation_data :: "nav_store \<Rightarrow> tag \<Rightarrow> string" where
  "get_navigation_data m t =
     (if tg_cop t = 0 \<and> (tg_ADKD t = 0 \<or> tg_ADKD t = 12) then replicate 549 (CHR ''0'')
      else if tg_cop t = 0 \<and> tg_ADKD t = 4 then replicate 141 (CHR ''0'')
      else case map_of m (ucast (tg_PRN_d t)) of
        None \<Rightarrow> []
      | Some tm \<Rightarrow>
          (case map_of tm (tg_TOW t - 30) of
             Some nd \<Rightarrow> adkd_data (tg_ADKD t) nd
           | None \<Rightarrow> nav_data_rev t (rev tm)))"

fun have_nav_data_rev :: "tag \<Rightarrow> (u32 \<times> osnma_navdata) list \<Rightarrow> bool" where
  "have_nav_data_rev t [] = False"
| "have_nav_data_rev t ((tow, nd) # rev_tm) =
     (if in_cop_window t tow nd \<and>
         ((tg_ADKD t = 0 \<or> tg_ADKD t = 12) \<and> d_ephemeris_iono nd \<noteq> [] \<or>
          tg_ADKD t = 4 \<and> d_utc nd \<noteq> [])
      then True
      else have_nav_data_rev t rev_tm)"

definition have_nav_data_tag :: "nav_store \<Rightarrow> tag \<Rightarrow> bool" where
  "have_nav_data_tag m t =
     (if tg_cop t = 0 then True
      else case map_of m (ucast (tg_PRN_d t)) of
        None \<Rightarrow> False
      | Some tm \<Rightarrow>
          (case map_of tm (tg_TOW t - 30) of
             Some nd \<Rightarrow>
               (if tg_ADKD t = 0 \<or> tg_ADKD t = 12 then d_ephemeris_iono nd \<noteq> []
                else if tg_ADKD t = 4 then d_utc nd \<noteq> []
                else False)
           | None \<Rightarrow> have_nav_data_rev t (rev tm)))"

section \<open>The invariant: both levels are ordered maps\<close>

definition nav_inv :: "nav_store \<Rightarrow> bool" where
  "nav_inv m \<longleftrightarrow> map_inv m \<and> (\<forall>tm \<in> snd ` set m. map_inv tm)"

lemma nav_inv_Nil [simp]: "nav_inv []"
  by (simp add: nav_inv_def)

lemma nav_inv_tow_map: "nav_inv m \<Longrightarrow> map_inv (tow_map_at m prn)"
  by (auto simp: nav_inv_def tow_map_at_def split: option.splits dest!: map_of_SomeD)

lemma set_map_assign: "map_inv m \<Longrightarrow> set (map_assign k v m) \<subseteq> insert (k, v) (set m)"
  by (induction k v m rule: map_assign.induct) auto

lemma nav_inv_assign: "nav_inv m \<Longrightarrow> map_inv tm \<Longrightarrow> nav_inv (map_assign prn tm m)"
  unfolding nav_inv_def using set_map_assign[of m prn tm] by (auto simp: map_inv_assign)

lemma nav_inv_nd_set: "nav_inv m \<Longrightarrow> nav_inv (nd_set m prn tow nd)"
  by (simp add: nd_set_def nav_inv_assign map_inv_assign nav_inv_tow_map)

lemma keys_touch: "map fst (snd (touch_nav_data s TOW tm)) = map fst tm"
  by (induction s TOW tm rule: touch_nav_data.induct) (auto simp: Let_def split: prod.splits)

lemma map_inv_touch: "map_inv (snd (touch_nav_data s TOW tm)) = map_inv tm"
  by (simp add: map_inv_def keys_touch)

lemma nav_inv_have_bits: "nav_inv m \<Longrightarrow> nav_inv (snd (have_nav_data_bits s prn TOW m))"
  using map_inv_touch[of s TOW] nav_inv_tow_map[of m prn]
  by (auto simp: have_nav_data_bits_def tow_map_at_def Let_def nav_inv_assign
      split: option.splits prod.splits)
    (metis nav_inv_assign snd_conv)

lemma nav_inv_add:
  assumes "nav_inv m" and "add_navigation_data s prn TOW m = Some m'"
  shows "nav_inv m'"
  using assms nav_inv_have_bits[of m s prn TOW]
  by (auto simp: add_navigation_data_def Let_def bind_eq_Some_conv nav_inv_nd_set
      split: prod.splits if_splits)

lemma nav_inv_update_tag: "nav_inv m \<Longrightarrow> nav_inv (update_nav_data_tag sz t m)"
  using nav_inv_tow_map[of m "ucast (tg_PRN_d t)"]
  by (auto simp: update_nav_data_tag_def tow_map_at_def intro!: nav_inv_assign
      split: option.splits) (simp add: map_inv_map_values)

lemma nav_inv_fold_update: "nav_inv m \<Longrightarrow> nav_inv (fold (\<lambda>(_, t). update_nav_data_tag sz t) tags m)"
  by (induction tags arbitrary: m) (auto simp: nav_inv_update_tag)

lemma nav_inv_update: "nav_inv m \<Longrightarrow> nav_inv (update_nav_data tags sz m)"
  by (simp add: update_nav_data_def nav_inv_fold_update)

lemma nav_inv_get_verified: "nav_inv m \<Longrightarrow> nav_inv (snd (get_verified_data m))"
proof -
  assume inv: "nav_inv m"
  define g where "g = (\<lambda>tm :: (u32, osnma_navdata) std_map. map (\<lambda>(tow, nd). (tow,
        if L_t_min \<le> verified_bits nd then nd\<lparr>nd_verified := True\<rparr> else nd)) tm)"
  have snd_eq: "snd (get_verified_data m) = map (\<lambda>(prn, tm). (prn, g tm)) m"
    by (simp add: get_verified_data_def g_def)
  have "map_inv (g tm)" if "map_inv tm" for tm
    using that map_inv_map_values[of "\<lambda>(_ :: u32) (nd :: osnma_navdata). if L_t_min \<le> verified_bits nd
      then nd\<lparr>nd_verified := True\<rparr> else nd"] by (simp add: g_def)
  with inv show ?thesis
    using map_inv_map_values[of "\<lambda>_. g" m] by (auto simp: nav_inv_def snd_eq)
qed

section \<open>Availability and retrieval agree\<close>

lemma have_rev_iff_get_rev:
  "tg_ADKD t \<in> {0, 4, 12} \<Longrightarrow> have_nav_data_rev t tm \<longleftrightarrow> nav_data_rev t tm \<noteq> []"
  by (induction t tm rule: nav_data_rev.induct) (auto simp: adkd_data_def)

lemma have_iff_get:
  assumes "tg_ADKD t \<in> {0, 4, 12}"
  shows "have_nav_data_tag m t \<longleftrightarrow> get_navigation_data m t \<noteq> []"
  using assms have_rev_iff_get_rev[OF assms]
  by (auto simp: have_nav_data_tag_def get_navigation_data_def adkd_data_def split: option.splits)

lemma nav_data_rev_source:
  "nav_data_rev t tm \<noteq> [] \<Longrightarrow>
     \<exists>(tow, nd) \<in> set tm. in_cop_window t tow nd \<and> nav_data_rev t tm = adkd_data (tg_ADKD t) nd"
  by (induction t tm rule: nav_data_rev.induct) (auto split: if_splits)

text \<open>The bits a tag that is not a dummy one is checked against were received from the
  satellite of the tag, thirty seconds before it or inside its cut-off window.\<close>

lemma get_navigation_data_source:
  assumes "tg_cop t \<noteq> 0" and "get_navigation_data m t \<noteq> []"
  shows "\<exists>tm tow nd. map_of m (ucast (tg_PRN_d t)) = Some tm \<and> (tow, nd) \<in> set tm \<and>
           (tow = tg_TOW t - 30 \<or> in_cop_window t tow nd) \<and>
           get_navigation_data m t = adkd_data (tg_ADKD t) nd"
proof -
  from assms obtain tm where tm: "map_of m (ucast (tg_PRN_d t)) = Some tm"
    by (auto simp: get_navigation_data_def split: option.splits)
  show ?thesis
  proof (cases "map_of tm (tg_TOW t - 30)")
    case None
    with assms tm have "get_navigation_data m t = nav_data_rev t (rev tm)"
      by (simp add: get_navigation_data_def)
    with assms(2) nav_data_rev_source[of t "rev tm"] show ?thesis
      using tm by (auto split: prod.splits)
  next
    case (Some nd)
    with assms tm have "get_navigation_data m t = adkd_data (tg_ADKD t) nd"
      by (simp add: get_navigation_data_def)
    with Some tm show ?thesis by (blast dest: map_of_SomeD)
  qed
qed

section \<open>Storing the same bits twice\<close>

lemma touch_found_iff:
  "fst (touch_nav_data s TOW tm) \<longleftrightarrow> (\<exists>e \<in> set tm. nav_bits_match s (snd e))"
  by (induction s TOW tm rule: touch_nav_data.induct) (auto simp: Let_def case_prod_beta)

lemma nav_bits_match_update [simp]:
  "nav_bits_match s (nd\<lparr>d_last_received_TOW := TOW\<rparr>) = nav_bits_match s nd"
  "nav_bits_match s (nd\<lparr>PRNd := prn, d_TOW_sf0 := TOW, d_last_received_TOW := TOW\<rparr>) = nav_bits_match s nd"
  by (simp_all add: nav_bits_match_def)

lemma have_bits_found_iff:
  "fst (have_nav_data_bits s prn TOW m) \<longleftrightarrow>
     (\<exists>e \<in> set (tow_map_at m prn). nav_bits_match s (snd e))"
proof (cases "map_of m prn")
  case None
  then show ?thesis by (simp add: have_nav_data_bits_def tow_map_at_def)
next
  case (Some tm)
  then have "fst (have_nav_data_bits s prn TOW m) = fst (touch_nav_data s TOW tm)"
    by (simp add: have_nav_data_bits_def Let_def case_prod_beta)
  with Some show ?thesis by (simp only: touch_found_iff tow_map_at_def option.case)
qed

lemma map_assign_self: "map_inv m \<Longrightarrow> map_of m k = Some v \<Longrightarrow> map_assign k v m = m"
  by (induction k v m rule: map_assign.induct) (force split: if_splits dest: map_of_SomeD)+

lemma touch_not_found: "\<not> fst (touch_nav_data s TOW tm) \<Longrightarrow> snd (touch_nav_data s TOW tm) = tm"
  by (induction s TOW tm rule: touch_nav_data.induct) (auto simp: Let_def split: prod.splits)

lemma have_bits_not_found:
  assumes "nav_inv m" and "\<not> fst (have_nav_data_bits s prn TOW m)"
  shows "snd (have_nav_data_bits s prn TOW m) = m"
proof (cases "map_of m prn")
  case None
  then show ?thesis by (simp add: have_nav_data_bits_def)
next
  case (Some tm)
  with assms(2) have "\<not> fst (touch_nav_data s TOW tm)"
    by (simp add: have_nav_data_bits_def Let_def split: prod.splits)
  with Some assms(1) show ?thesis using touch_not_found[of s TOW tm]
    by (auto simp: have_nav_data_bits_def Let_def nav_inv_def map_assign_self split: prod.splits)
qed

lemma tow_map_at_assign:
  "map_inv m \<Longrightarrow> tow_map_at (map_assign prn tm m) p = (if p = prn then tm else tow_map_at m p)"
  by (simp add: tow_map_at_def om.find_assign)

text \<open>Navigation bits that were added are found again under their satellite, at whatever
  time they are looked up: the same bits are not stored twice.\<close>

lemma added_is_found:
  assumes "nav_inv m" and "add_navigation_data s prn TOW m = Some m'"
    and "length s = 549 \<or> length s = 141"
  shows "fst (have_nav_data_bits s prn TOW' m')"
proof -
  obtain found m1 where h: "have_nav_data_bits s prn TOW m = (found, m1)" by fastforce
  show ?thesis
  proof (cases found)
    case True
    with assms(2) h have m': "m' = m1" by (simp add: add_navigation_data_def)
    from h True obtain tm where tm: "map_of m prn = Some tm" "fst (touch_nav_data s TOW tm)"
        "m1 = map_assign prn (snd (touch_nav_data s TOW tm)) m"
      by (auto simp: have_nav_data_bits_def Let_def split: option.splits prod.splits)
    have "fst (touch_nav_data s TOW' (snd (touch_nav_data s TOW tm)))"
      using tm(2) by (induction s TOW tm rule: touch_nav_data.induct)
        (auto simp: Let_def split: prod.splits if_splits)
    with tm assms(1) m' show ?thesis
      by (auto simp: have_bits_found_iff tow_map_at_assign nav_inv_def touch_found_iff)
  next
    case False
    with h assms(1) have "m1 = m" using have_bits_not_found[of m s prn TOW] by simp
    with assms(2) h False obtain nd where nd: "add_nav_data s (nd_at m prn TOW) = Some nd"
        and m': "m' = nd_set m prn TOW (nd\<lparr>PRNd := prn, d_TOW_sf0 := TOW, d_last_received_TOW := TOW\<rparr>)"
      by (auto simp: add_navigation_data_def bind_eq_Some_conv)
    from nd assms(3) have "nav_bits_match s nd"
      by (auto simp: nav_bits_match_def add_nav_data_def bind_eq_Some_conv split: if_splits)
    moreover have "(TOW, nd\<lparr>PRNd := prn, d_TOW_sf0 := TOW, d_last_received_TOW := TOW\<rparr>)
        \<in> set (tow_map_at m' prn)"
      using assms(1) nav_inv_tow_map[OF assms(1), of prn] m'
      by (simp add: nd_set_def tow_map_at_assign nav_inv_def om.find_eq_entry[symmetric]
          om.inv_assign om.find_assign)
    ultimately show ?thesis unfolding have_bits_found_iff
      by (metis nav_bits_match_update(2) snd_conv)
  qed
qed

section \<open>Counting verified bits\<close>

definition tag_verifies :: "u32 \<Rightarrow> osnma_navdata \<Rightarrow> tag \<Rightarrow> bool" where
  "tag_verifies prn nd t \<longleftrightarrow>
     tg_status t = SUCCESS \<and> ucast (tg_PRN_d t) = prn \<and> tg_nav_data t = adkd_data (tg_ADKD t) nd"

definition nav_lookup :: "nav_store \<Rightarrow> u32 \<Rightarrow> u32 \<Rightarrow> osnma_navdata option" where
  "nav_lookup m prn tow = (case map_of m prn of None \<Rightarrow> None | Some tm \<Rightarrow> map_of tm tow)"

lemma adkd_data_update [simp]:
  "adkd_data a (set_update_verified_bits n nd) = adkd_data a nd"
  "adkd_data a (nd\<lparr>verified_bits := b\<rparr>) = adkd_data a nd"
  by (simp_all add: adkd_data_def set_update_verified_bits_def)

lemma tag_verifies_update [simp]:
  "tag_verifies prn (set_update_verified_bits n nd) t = tag_verifies prn nd t"
  by (simp add: tag_verifies_def)

lemma nav_lookup_update_tag:
  assumes "nav_inv m"
  shows "nav_lookup (update_nav_data_tag sz t m) prn tow =
    map_option (\<lambda>nd. if tag_verifies prn nd t then set_update_verified_bits (ucast sz) nd else nd)
      (nav_lookup m prn tow)"
proof -
  have inv: "map_inv m" using assms by (simp add: nav_inv_def)
  have idt: "map_option (\<lambda>nd. nd) x = x" for x :: "osnma_navdata option" by (cases x) simp_all
  show ?thesis
    using inv
    by (cases "tg_status t = SUCCESS"; cases "prn = ucast (tg_PRN_d t)")
      (auto simp: update_nav_data_tag_def nav_lookup_def tag_verifies_def om.find_assign
        map_of_map_values[where f = "\<lambda>_ nd. if tg_nav_data t = adkd_data (tg_ADKD t) nd
           then set_update_verified_bits (ucast sz) nd else nd"] idt
        split: option.splits)
qed

text \<open>The bits a data set has after the loop: the size of a tag once for every verified tag
  over these bits, modulo the 32 bits of the counter.\<close>

lemma fold_update_bits:
  "nav_inv m \<Longrightarrow> nav_lookup m prn tow = Some nd \<Longrightarrow>
   nav_lookup (fold (\<lambda>(_, t). update_nav_data_tag sz t) tags m) prn tow =
     Some (nd\<lparr>verified_bits :=
       verified_bits nd + of_nat (length (filter (tag_verifies prn nd) (map snd tags))) * ucast sz\<rparr>)"
proof (induction tags arbitrary: m nd)
  case Nil
  then show ?case by simp
next
  case (Cons kt tags)
  obtain k t where kt: "kt = (k, t)" by fastforce
  let ?m = "update_nav_data_tag sz t m"
  let ?nd = "if tag_verifies prn nd t then set_update_verified_bits (ucast sz) nd else nd"
  have inv: "nav_inv ?m" using Cons.prems(1) by (rule nav_inv_update_tag)
  have look: "nav_lookup ?m prn tow = Some ?nd"
    using Cons.prems by (simp add: nav_lookup_update_tag)
  have same: "tag_verifies prn ?nd = tag_verifies prn nd" by (rule ext) simp
  from Cons.IH[OF inv look] show ?case
    unfolding same by (simp add: kt set_update_verified_bits_def algebra_simps)
qed

text \<open>C40: An update adds to the verified bits of a data set the tag length for every
  successful tag of its satellite with exactly its bits, and changes nothing else of it.\<close>

theorem update_nav_data_bits:
  assumes "nav_inv m" and "nav_lookup m prn tow = Some nd"
  shows "nav_lookup (update_nav_data tags sz m) prn tow = Some (nd\<lparr>verified_bits :=
     verified_bits nd + of_nat (length (filter (tag_verifies prn nd) (map snd tags))) * ucast sz\<rparr>)"
proof -
  from assms(2) have "m \<noteq> []" by (auto simp: nav_lookup_def)
  then show ?thesis unfolding update_nav_data_def using fold_update_bits[OF assms] by simp
qed

section \<open>Verified data\<close>

lemma set_get_verified_data:
  "set (fst (get_verified_data m)) =
     {nd. \<exists>(prn, tm) \<in> set m. nd \<in> snd ` set tm \<and> L_t_min \<le> verified_bits nd}"
  by (auto simp: get_verified_data_def)

lemma nav_lookup_entry:
  assumes "nav_inv m"
  shows "nav_lookup m prn tow = Some nd \<longleftrightarrow> (\<exists>tm. (prn, tm) \<in> set m \<and> (tow, nd) \<in> set tm)"
proof -
  have inner: "map_inv tm" if "(prn, tm) \<in> set m" for tm
    using assms that by (auto simp: nav_inv_def)
  have outer: "map_of m prn = Some tm \<longleftrightarrow> (prn, tm) \<in> set m" for tm
    using assms by (simp add: nav_inv_def om.find_eq_entry)
  show ?thesis
  proof
    assume "nav_lookup m prn tow = Some nd"
    then obtain tm where tm: "map_of m prn = Some tm" "map_of tm tow = Some nd"
      by (auto simp: nav_lookup_def split: option.splits)
    with inner[of tm] outer show "\<exists>tm. (prn, tm) \<in> set m \<and> (tow, nd) \<in> set tm"
      by (auto dest: map_of_SomeD)
  next
    assume "\<exists>tm. (prn, tm) \<in> set m \<and> (tow, nd) \<in> set tm"
    then obtain tm where tm: "(prn, tm) \<in> set m" "(tow, nd) \<in> set tm" by blast
    with inner[of tm] outer[of tm] show "nav_lookup m prn tow = Some nd"
      by (simp add: nav_lookup_def om.find_eq_entry)
  qed
qed

text \<open>The data sets handed over are exactly the stored ones with at least 40 verified bits.\<close>

lemma get_verified_data_iff:
  assumes "nav_inv m"
  shows "nd \<in> set (fst (get_verified_data m)) \<longleftrightarrow>
     (\<exists>prn tow. nav_lookup m prn tow = Some nd) \<and> L_t_min \<le> verified_bits nd"
  by (force simp: set_get_verified_data nav_lookup_entry[OF assms])

section \<open>Concrete stores\<close>

definition utc_bits :: string where
  "utc_bits = replicate 141 (CHR ''1'')"

definition utc_nd :: osnma_navdata where
  "utc_nd = default_navdata\<lparr>d_utc := utc_bits, verified_bits := 40\<rparr>"

definition utc_store :: nav_store where
  "utc_store = [(1, [(0, utc_nd)])]"

definition utc_tag :: tag where
  "utc_tag = (tag_of_info \<lparr>mti_tag = 0, mti_tag_info = \<lparr>ti_PRN_d = 1, ti_ADKD = 4, ti_cop = 1\<rparr>,
     mti_counter = 2\<rparr> 30 0 5 2)\<lparr>tg_status := SUCCESS, tg_nav_data := utc_bits\<rparr>"

lemma utc_store_inv: "nav_inv utc_store"
  by (simp add: utc_store_def nav_inv_def)

lemma utc_lookup: "nav_lookup utc_store 1 0 = Some utc_nd"
  by (simp add: utc_store_def nav_lookup_def)

lemma get_navigation_data_source_witness:
  "\<exists>tm tow nd. map_of utc_store 1 = Some tm \<and> (tow, nd) \<in> set tm \<and>
     get_navigation_data utc_store utc_tag = adkd_data 4 nd"
proof -
  have "tg_cop utc_tag \<noteq> 0" "get_navigation_data utc_store utc_tag \<noteq> []"
    by (simp_all add: utc_tag_def tag_of_info_def get_navigation_data_def utc_store_def utc_nd_def
        utc_bits_def adkd_data_def)
  from get_navigation_data_source[OF this] show ?thesis
    by (auto simp: utc_tag_def tag_of_info_def)
qed

lemma added_is_found_witness:
  "\<exists>m'. add_navigation_data utc_bits 1 30 [] = Some m' \<and> fst (have_nav_data_bits utc_bits 1 60 m')"
proof -
  have "length utc_bits = 141" by (simp add: utc_bits_def)
  then obtain m' where m: "add_navigation_data utc_bits 1 30 [] = Some m'"
    by (auto simp: add_navigation_data_def have_nav_data_bits_def add_nav_data_def)
  from added_is_found[OF nav_inv_Nil m, of 60] m show ?thesis
    by (simp add: utc_bits_def)
qed

theorem update_nav_data_bits_witness:
  "nav_lookup (update_nav_data [(30, utc_tag)] 40 utc_store) 1 0 = Some (utc_nd\<lparr>verified_bits := 80\<rparr>)"
proof -
  have t: "tag_verifies 1 utc_nd utc_tag"
    by (simp add: tag_verifies_def utc_tag_def tag_of_info_def adkd_data_def utc_nd_def)
  have v: "verified_bits utc_nd = 40" by (simp add: utc_nd_def)
  from update_nav_data_bits[OF utc_store_inv utc_lookup, of "[(30, utc_tag)]" 40] show ?thesis
    by (simp add: t v)
qed

lemma get_verified_data_iff_witness:
  "utc_nd \<in> set (fst (get_verified_data utc_store))"
proof -
  have "L_t_min \<le> verified_bits utc_nd" by (simp add: L_t_min_def utc_nd_def)
  then show ?thesis
    using get_verified_data_iff[OF utc_store_inv, of utc_nd] utc_lookup by blast
qed

end
