(* ===== verification/Gnss_Crypto.thy ===== *)
theory Gnss_Crypto
  imports Osnma_Nav_Data
begin

text \<open>
  The class \<open>Gnss_Crypto\<close> of \<open>core/libs/gnss_crypto.cc\<close>, its branch for OpenSSL 3. The
  cryptographic library is not part of the repository: its functions are the fields of the
  parameter \<open>crypto_lib\<close>, and \<open>crypto_ok\<close> states the output lengths the documentation of
  the library promises. A key handle is represented by the octets it was imported from.
\<close>

record crypto_lib =
  lib_sha256 :: "u8 list \<Rightarrow> u8 list"
  lib_sha3_256 :: "u8 list \<Rightarrow> u8 list"
  lib_hmac_sha256 :: "u8 list \<Rightarrow> u8 list \<Rightarrow> u8 list"          \<comment> \<open>key, message\<close>
  lib_cmac_aes :: "u8 list \<Rightarrow> u8 list \<Rightarrow> u8 list"             \<comment> \<open>key, message\<close>
  lib_ec_import :: "string \<Rightarrow> u8 list \<Rightarrow> bool"               \<comment> \<open>group, octets: a valid point\<close>
  lib_ecdsa_p256 :: "u8 list \<Rightarrow> u8 list \<Rightarrow> u8 list \<Rightarrow> bool" \<comment> \<open>key, message, signature\<close>
  lib_ecdsa_p521 :: "u8 list \<Rightarrow> u8 list \<Rightarrow> u8 list \<Rightarrow> bool" \<comment> \<open>key, message, DER signature\<close>

definition crypto_ok :: "crypto_lib \<Rightarrow> bool" where
  "crypto_ok L \<longleftrightarrow>
     (\<forall>x. length (lib_sha256 L x) = 32) \<and> (\<forall>x. length (lib_sha3_256 L x) = 32) \<and>
     (\<forall>k x. length (lib_hmac_sha256 L k x) = 32) \<and> (\<forall>k x. length (lib_cmac_aes L k x) = 16)"

record gnss_crypto =
  d_PublicKey :: "u8 list option"
  d_PublicKeyType :: string
  d_x_4_0 :: "u8 list"

section \<open>Operations\<close>

definition have_public_key :: "gnss_crypto \<Rightarrow> bool" where
  "have_public_key c \<longleftrightarrow> d_PublicKey c \<noteq> None"

text \<open>\<open>store_public_key\<close>: the content of the PEM file afterwards, for a file that opens.\<close>

definition store_public_key :: "gnss_crypto \<Rightarrow> u8 list option \<Rightarrow> u8 list option" where
  "store_public_key c pem_file = (if \<not> have_public_key c then pem_file else d_PublicKey c)"

text \<open>\<open>convert_raw_to_der_ecdsa\<close>, which the P-521 check uses: the output signature is appended to; a read of the first byte of an empty half is outside the vector.\<close>

definition encode_asn1_integer :: "u8 list \<Rightarrow> u8 list option" where
  "encode_asn1_integer v =
     do { v0 \<leftarrow> vget v 0;
          Some (0x02 # (if v0 AND 0x80 \<noteq> 0 then [of_nat (length v + 1), 0x00]
                        else [of_nat (length v)]) @ v) }"

definition convert_raw_to_der_ecdsa :: "u8 list \<Rightarrow> u8 list \<Rightarrow> (bool \<times> u8 list) option" where
  "convert_raw_to_der_ecdsa raw_signature der_signature =
     (if length raw_signature mod 2 \<noteq> 0 then Some (False, der_signature)
      else do {
        let half_size = length raw_signature div 2;
        der_r \<leftarrow> encode_asn1_integer (take half_size raw_signature);
        der_s \<leftarrow> encode_asn1_integer (drop half_size raw_signature);
        let total_length = length der_r + length der_s;
        Some (True, der_signature @ [0x30] @ (if total_length > 127 then [0x81] else [])
                    @ [of_nat total_length] @ der_r @ der_s) })"

definition verify_signature_ecdsa_p256 :: "crypto_lib \<Rightarrow> gnss_crypto \<Rightarrow> u8 list \<Rightarrow> u8 list \<Rightarrow> bool" where
  "verify_signature_ecdsa_p256 L c message signature =
     (case d_PublicKey c of None \<Rightarrow> False | Some key \<Rightarrow> lib_ecdsa_p256 L key message signature)"

definition verify_signature_ecdsa_p521 :: "crypto_lib \<Rightarrow> gnss_crypto \<Rightarrow> u8 list \<Rightarrow> u8 list \<Rightarrow> bool" where
  "verify_signature_ecdsa_p521 L c message signature =
     (case d_PublicKey c of
        None \<Rightarrow> False
      | Some key \<Rightarrow>
          if length signature \<noteq> 132 then False
          else case convert_raw_to_der_ecdsa signature [] of
            Some (True, der_sig) \<Rightarrow> lib_ecdsa_p521 L key message der_sig
          | _ \<Rightarrow> False)"

definition get_merkle_root :: "gnss_crypto \<Rightarrow> u8 list" where
  "get_merkle_root c = d_x_4_0 c"

definition get_public_key_type :: "gnss_crypto \<Rightarrow> string" where
  "get_public_key_type c = (if d_PublicKeyType c = [] then ''Unknown'' else d_PublicKeyType c)"

text \<open>\<open>set_public_key\<close>: the type follows the size; when the import fails the type is
  \<open>Unknown\<close> and the previous key stays in place.\<close>

definition set_public_key :: "crypto_lib \<Rightarrow> u8 list \<Rightarrow> gnss_crypto \<Rightarrow> gnss_crypto" where
  "set_public_key L publicKey c =
     (let c1 = c\<lparr>d_PublicKeyType := ''Unknown''\<rparr>;
          grp = (if length publicKey = 33 then ''prime256v1'' else ''secp521r1'');
          c2 = (if length publicKey = 33 then c1\<lparr>d_PublicKeyType := ''ECDSA P-256''\<rparr>
                else if length publicKey = 67 then c1\<lparr>d_PublicKeyType := ''ECDSA P-521''\<rparr>
                else c1)
      in if lib_ec_import L grp publicKey then c2\<lparr>d_PublicKey := Some publicKey\<rparr>
         else c2\<lparr>d_PublicKeyType := ''Unknown''\<rparr>)"

definition set_public_key_type :: "string \<Rightarrow> gnss_crypto \<Rightarrow> gnss_crypto" where
  "set_public_key_type public_key_type c =
     (if public_key_type = ''ECDSA P-256'' \<or> public_key_type = ''ECDSA P-521''
      then c\<lparr>d_PublicKeyType := public_key_type\<rparr> else c)"

definition set_merkle_root :: "u8 list \<Rightarrow> gnss_crypto \<Rightarrow> gnss_crypto" where
  "set_merkle_root v c = c\<lparr>d_x_4_0 := v\<rparr>"

text \<open>\<open>convert_from_hex_str\<close>: pairs of characters, an odd last one alone.\<close>

definition convert_from_hex_str :: "string \<Rightarrow> u8 list option" where
  "convert_from_hex_str input = from_hex_loop input"

section \<open>Facts\<close>

lemma set_public_key_type_cases:
  "d_PublicKeyType (set_public_key L k c) \<in> {''Unknown'', ''ECDSA P-256'', ''ECDSA P-521''}"
  by (simp add: set_public_key_def Let_def)

lemma set_public_key_known:
  assumes "d_PublicKeyType (set_public_key L k c) \<noteq> ''Unknown''"
  shows "d_PublicKey (set_public_key L k c) = Some k \<and> length k \<in> {33, 67}"
  using assms by (auto simp: set_public_key_def Let_def split: if_splits)

text \<open>Reading the DER structure back: an independent decoder of the two integers.\<close>

definition der_integer :: "u8 list \<Rightarrow> (nat \<times> u8 list) option" where
  "der_integer bs =
     (case bs of
        t # l # rest \<Rightarrow>
          (if t = 0x02 \<and> unat l < 128 \<and> unat l \<le> length rest
           then Some (bit_val (bits_of (take (unat l) rest)), drop (unat l) rest) else None)
      | _ \<Rightarrow> None)"

definition der_signature_values :: "u8 list \<Rightarrow> (nat \<times> nat) option" where
  "der_signature_values bs =
     (case bs of
        t # l # rest \<Rightarrow>
          (if t = 0x30 then
             do { body \<leftarrow> (if unat l < 128 then (if unat l = length rest then Some rest else None)
                            else if l = 0x81 then
                              (case rest of n # body \<Rightarrow>
                                 (if unat n = length body \<and> 128 \<le> unat n then Some body else None)
                               | [] \<Rightarrow> None)
                            else None);
                  (r, rest1) \<leftarrow> der_integer body;
                  (s, rest2) \<leftarrow> der_integer rest1;
                  if rest2 = [] then Some (r, s) else None }
           else None)
      | _ \<Rightarrow> None)"

lemma encode_asn1_integer_decodes:
  assumes "v \<noteq> []" and "length v < 127"
  shows "\<exists>d. encode_asn1_integer v = Some d \<and> length d \<in> {length v + 2, length v + 3} \<and>
     der_integer (d @ rest) = Some (bit_val (bits_of v), rest)"
proof -
  have un: "unat (of_nat (length v) :: u8) = length v" "unat (of_nat (length v + 1) :: u8) = length v + 1"
    using assms(2) by (simp_all only: unat_of_nat) simp_all
  show ?thesis
  proof (cases "v ! 0 AND 0x80 = 0")
    case True
    then have "encode_asn1_integer v = Some (0x02 # of_nat (length v) # v)"
      using assms(1) by (simp add: encode_asn1_integer_def vec_simps)
    then show ?thesis using un(1) assms(2) by (simp add: der_integer_def)
  next
    case False
    then have "encode_asn1_integer v = Some (0x02 # of_nat (length v + 1) # 0x00 # v)"
      using assms(1) by (simp add: encode_asn1_integer_def vec_simps)
    then show ?thesis using un(2) assms(2) unfolding der_integer_def
      by (simp del: of_nat_add of_nat_Suc)
  qed
qed

text \<open>The DER form of a raw signature of up to 132 bytes holds, for a decoder of the two
  integers, exactly the two halves of the raw signature.\<close>

lemma der_conversion_correct:
  assumes even: "length raw = 2 * n" and n: "0 < n" "n \<le> 66"
  shows "\<exists>der. convert_raw_to_der_ecdsa raw [] = Some (True, der) \<and>
     der_signature_values der = Some (bit_val (bits_of (take n raw)), bit_val (bits_of (drop n raw)))"
proof -
  let ?r = "take n raw" and ?s = "drop n raw"
  have len: "length ?r = n" "length ?s = n" using even by simp_all
  then have ne: "?r \<noteq> []" "?s \<noteq> []" using n by auto
  obtain ds where ds: "encode_asn1_integer ?s = Some ds" "length ds \<in> {n + 2, n + 3}"
      "der_integer (ds @ []) = Some (bit_val (bits_of ?s), [])"
    using encode_asn1_integer_decodes[OF ne(2), of "[]"] len n by auto
  obtain dr where dr: "encode_asn1_integer ?r = Some dr" "length dr \<in> {n + 2, n + 3}"
      "der_integer (dr @ ds) = Some (bit_val (bits_of ?r), ds)"
    using encode_asn1_integer_decodes[OF ne(1), of ds] len n by auto
  let ?t = "length dr + length ds"
  have t: "?t \<le> 138" "?t < 256" using ds(2) dr(2) n by auto
  have un: "unat (of_nat ?t :: u8) = ?t" using t by (simp only: unat_of_nat) simp
  have conv: "convert_raw_to_der_ecdsa raw [] =
      Some (True, 0x30 # (if ?t > 127 then [0x81] else []) @ of_nat ?t # dr @ ds)"
    using even dr(1) ds(1) by (simp add: convert_raw_to_der_ecdsa_def Let_def)
  show ?thesis
  proof (cases "127 < ?t")
    case True
    with conv show ?thesis using un dr(3) ds(3)
      by (simp add: der_signature_values_def del: of_nat_add)
  next
    case False
    with conv show ?thesis using un dr(3) ds(3)
      by (simp add: der_signature_values_def del: of_nat_add)
  qed
qed

lemma der_conversion_correct_witness:
  "\<exists>der. convert_raw_to_der_ecdsa (replicate 132 0xAB) [] = Some (True, der) \<and>
     der_signature_values der =
       Some (bit_val (bits_of (replicate 66 0xAB)), bit_val (bits_of (replicate 66 0xAB)))"
proof -
  have "length (replicate 132 (0xAB :: u8)) = 2 * 66" by simp
  from der_conversion_correct[OF this] show ?thesis by simp
qed

text \<open>DER asks for the shortest integer: no leading zero byte unless the next one is 128 or
  more. The conversion keeps the leading zeros of the fixed-width halves.\<close>

definition der_minimal :: "u8 list \<Rightarrow> bool" where
  "der_minimal content \<longleftrightarrow>
     \<not> (2 \<le> length content \<and> content ! 0 = 0 \<and> content ! 1 AND 0x80 = 0)"

definition asn1_content :: "u8 list \<Rightarrow> u8 list" where
  "asn1_content v = (if v ! 0 AND 0x80 \<noteq> 0 then 0x00 # v else v)"

lemma encode_asn1_content:
  "v \<noteq> [] \<Longrightarrow> encode_asn1_integer v = Some (0x02 # of_nat (length (asn1_content v)) # asn1_content v)"
  by (simp add: encode_asn1_integer_def asn1_content_def vec_simps)

lemma asn1_minimal_iff:
  "2 \<le> length v \<Longrightarrow> der_minimal (asn1_content v) \<longleftrightarrow> \<not> (v ! 0 = 0 \<and> v ! 1 AND 0x80 = 0)"
  by (auto simp: der_minimal_def asn1_content_def)

end
