(* ===== verification/Osnma_State.thy ===== *)
theory Osnma_State
  imports Gnss_Crypto
begin

text \<open>
  The members of the class \<open>osnma_msg_receiver\<close> (\<open>core/libs/osnma_msg_receiver.h\<close>) as one
  record, and the value its default member initialisers give. What the receiver writes outside
  itself is in the last fields: the messages published on the port \<open>OSNMA_to_PVT\<close>, newest
  last, the file of the root key (NMA header and DSM message) and the PEM file.
\<close>

datatype pvt_msg = Pvt_NavData osnma_navdata | Pvt_OsnmaData osnma_data

record receiver =
  d_tesla_keys :: "(u32, u8 list) std_map"
  d_tags_awaiting_verify :: "(u32, tag) std_map"
  d_new_public_key :: "u8 list"
  d_tags_to_verify :: "u8 list"
  d_macks_awaiting_MACSEQ_verification :: "mack_message list"
  d_dsm_message :: "u8 list list"       \<comment> \<open>16 buffers of 256 bytes\<close>
  d_dsm_id_received :: "u8 list list"   \<comment> \<open>16 tables of 16 flags\<close>
  d_number_of_blocks :: "u16 list"      \<comment> \<open>16 counters\<close>
  d_mack_message :: "u8 list"           \<comment> \<open>60 bytes\<close>
  d_crypto :: gnss_crypto
  d_nav_data_manager :: nav_store
  d_satellite_nav_data :: nav_store     \<comment> \<open>declared, read for a log line, never written\<close>
  d_osnma_data :: osnma_data
  d_last_received_GST :: u32
  d_GST_Sf :: u32
  d_GST_Rx :: u32
  d_last_verified_key_GST :: u32
  d_GST_0 :: u32
  d_GST_SIS :: u32
  d_GST_PKR_PKREV_start :: u32
  d_GST_PKR_AM_start :: u32
  d_GST_chain_renewal_start :: u32
  d_GST_chain_revocation_start :: u32
  d_count_successful_tags :: u32
  d_count_failed_tags :: u32
  d_count_failed_Kroot :: u32
  d_count_failed_pubKey :: u32
  d_count_failed_macseq :: u32
  d_new_public_key_id :: u8
  d_new_data :: bool
  d_public_key_verified :: bool
  d_kroot_verified :: bool
  d_tesla_key_verified :: bool
  d_strict_mode :: bool
  d_flag_hot_start :: bool
  d_flag_PK_renewal :: bool
  d_flag_PK_revocation :: bool
  d_flag_NPK_set :: bool
  d_flag_alert_message :: bool
  d_flag_chain_renewal :: bool
  d_flag_chain_revocation :: bool
  pvt_out :: "pvt_msg list"
  kroot_file :: "(u8 \<times> u8 list) option"
  pem_file :: "u8 list option"

definition d_T_L :: u8 where
  "d_T_L = 30"

definition initial_receiver ::
  "gnss_crypto \<Rightarrow> (u8 \<times> u8 list) option \<Rightarrow> u8 list option \<Rightarrow> bool \<Rightarrow> receiver" where
  "initial_receiver crypto kfile pfile strict_mode =
     \<lparr>d_tesla_keys = [], d_tags_awaiting_verify = [], d_new_public_key = [],
      d_tags_to_verify = [0, 4, 12], d_macks_awaiting_MACSEQ_verification = [],
      d_dsm_message = replicate 16 (replicate 256 0),
      d_dsm_id_received = replicate 16 (replicate 16 0),
      d_number_of_blocks = replicate 16 0, d_mack_message = replicate 60 0,
      d_crypto = crypto, d_nav_data_manager = [], d_satellite_nav_data = [],
      d_osnma_data = default_osnma_data,
      d_last_received_GST = 0, d_GST_Sf = 0, d_GST_Rx = 0, d_last_verified_key_GST = 0,
      d_GST_0 = 0, d_GST_SIS = 0, d_GST_PKR_PKREV_start = 0, d_GST_PKR_AM_start = 0,
      d_GST_chain_renewal_start = 0, d_GST_chain_revocation_start = 0,
      d_count_successful_tags = 0, d_count_failed_tags = 0, d_count_failed_Kroot = 0,
      d_count_failed_pubKey = 0, d_count_failed_macseq = 0, d_new_public_key_id = 0,
      d_new_data = False, d_public_key_verified = False, d_kroot_verified = False,
      d_tesla_key_verified = False, d_strict_mode = strict_mode, d_flag_hot_start = False,
      d_flag_PK_renewal = False, d_flag_PK_revocation = False, d_flag_NPK_set = False,
      d_flag_alert_message = False, d_flag_chain_renewal = False, d_flag_chain_revocation = False,
      pvt_out = [], kroot_file = kfile, pem_file = pfile\<rparr>"

section \<open>Abbreviations for the nested data\<close>

abbreviation nma_of :: "receiver \<Rightarrow> dsm_nma_header" where
  "nma_of r \<equiv> d_nma_header (d_osnma_data r)"

abbreviation dsm_header_of :: "receiver \<Rightarrow> dsm_dsm_header" where
  "dsm_header_of r \<equiv> d_dsm_header (d_osnma_data r)"

abbreviation kroot_of :: "receiver \<Rightarrow> dsm_kroot_message" where
  "kroot_of r \<equiv> d_dsm_kroot_message (d_osnma_data r)"

abbreviation pkr_of :: "receiver \<Rightarrow> dsm_pkr_message" where
  "pkr_of r \<equiv> d_dsm_pkr_message (d_osnma_data r)"

abbreviation mack_of :: "receiver \<Rightarrow> mack_message" where
  "mack_of r \<equiv> d_mack_msg (d_osnma_data r)"

abbreviation tow_sf0_of :: "receiver \<Rightarrow> u32" where
  "tow_sf0_of r \<equiv> d_TOW_sf0 (d_nav_data (d_osnma_data r))"

text \<open>The tag length of the chain in force.\<close>

definition tag_length :: "receiver \<Rightarrow> nat" where
  "tag_length r = unat (table_lookup 0 OSNMA_TABLE_11 (ts (kroot_of r)))"

lemma table_11_values:
  "table_lookup 0 OSNMA_TABLE_11 t \<in> {0, 20, 24, 28, 32, 40}"
  by (simp add: table_lookup_def OSNMA_TABLE_11_def)

lemma tag_length_values: "tag_length r \<in> {0, 20, 24, 28, 32, 40}"
  using table_11_values[of "ts (kroot_of r)"] by (auto simp: tag_length_def)

lemma table_10_values:
  "get_lk_bits k \<in> {0, 96, 104, 112, 120, 128, 160, 192, 224, 256}"
  by (simp add: get_lk_bits_def table_lookup_def OSNMA_TABLE_10_def)

section \<open>A concrete state\<close>

text \<open>A receiver with an authenticated root key of 128 bits, 40-bit tags, HMAC-SHA-256 and the
  MAC look-up table 33, and the trivial library, for evaluating the operations.\<close>

definition sample_kroot :: dsm_kroot_message where
  "sample_kroot = default_kroot_message
     \<lparr>kroot := replicate 16 0xAB, ks := 4, ts := 9, maclt := 33, wn_k := 1, towh_k := 1,
      alpha := 0xA06221261AD9, kr_verified := True\<rparr>"

definition sample_crypto :: gnss_crypto where
  "sample_crypto =
     \<lparr>d_PublicKey = Some (replicate 33 2), d_PublicKeyType = ''ECDSA P-256'', d_x_4_0 = replicate 32 0\<rparr>"

definition sample_lib :: crypto_lib where
  "sample_lib =
     \<lparr>lib_sha256 = (\<lambda>x. replicate 32 0xAB), lib_sha3_256 = (\<lambda>x. replicate 32 0xCD),
      lib_hmac_sha256 = (\<lambda>k x. replicate 32 0), lib_cmac_aes = (\<lambda>k x. replicate 16 0),
      lib_ec_import = (\<lambda>g k. length k = 33), lib_ecdsa_p256 = (\<lambda>k m s. True),
      lib_ecdsa_p521 = (\<lambda>k m s. False)\<rparr>"

definition sample_receiver :: receiver where
  "sample_receiver = (initial_receiver sample_crypto None None False)
     \<lparr>d_osnma_data := default_osnma_data\<lparr>d_dsm_kroot_message := sample_kroot\<rparr>,
      d_kroot_verified := True, d_public_key_verified := True\<rparr>"

lemma crypto_ok_sample: "crypto_ok sample_lib"
  by (simp add: crypto_ok_def sample_lib_def)

lemmas sample_defs = sample_receiver_def sample_kroot_def sample_crypto_def initial_receiver_def
  default_osnma_data_def default_kroot_message_def default_mack_message_def

end
