(* ===== verification/Osnma_Mack.thy ===== *)
theory Osnma_Mack
  imports Osnma_State
begin

text \<open>
  The MACK message of one subframe: \<open>read_mack_header\<close> and \<open>read_mack_body\<close> of
  \<open>core/libs/osnma_msg_receiver.cc\<close>. The code reads the fields of every tag length by its own
  shifts and masks; the lemmas show that for each tag length the header, all tags with their
  information and the TESLA key are the bit fields of Eq. 8 of the interface document, and
  that no read leaves the 60 bytes.
\<close>

section \<open>Header\<close>

definition mack_header_fields :: "nat \<Rightarrow> u8 list \<Rightarrow> (u64 \<times> u16 \<times> u8) option" where
  "mack_header_fields lt_bits m =
     do { b0 \<leftarrow> vget m 0;
          b1 \<leftarrow> vget m 1;
          let first_lt_bits = push_bit (lt_bits - 8) (ucast b0) + push_bit (lt_bits - 16) (ucast b1);
          if lt_bits = 20 then
            do { b2 \<leftarrow> vget m 2; b3 \<leftarrow> vget m 3; b4 \<leftarrow> vget m 4;
                 Some (first_lt_bits + drop_bit 4 (ucast (b2 AND 0xF0)),
                       push_bit 8 (ucast (b2 AND 0x0F)) + ucast b3,
                       drop_bit 4 (b4 AND 0xF0)) }
          else if lt_bits = 24 then
            do { b2 \<leftarrow> vget m 2; b3 \<leftarrow> vget m 3; b4 \<leftarrow> vget m 4;
                 Some (first_lt_bits + ucast b2,
                       push_bit 4 (ucast b3) + drop_bit 4 (ucast (b4 AND 0xF0)),
                       b4 AND 0x0F) }
          else if lt_bits = 28 then
            do { b2 \<leftarrow> vget m 2; b3 \<leftarrow> vget m 3; b4 \<leftarrow> vget m 4; b5 \<leftarrow> vget m 5;
                 Some (first_lt_bits + push_bit 4 (ucast b2) + drop_bit 4 (ucast (b3 AND 0xF0)),
                       push_bit 8 (ucast (b3 AND 0x0F)) + ucast b4,
                       drop_bit 4 (b5 AND 0xF0)) }
          else if lt_bits = 32 then
            do { b2 \<leftarrow> vget m 2; b3 \<leftarrow> vget m 3; b4 \<leftarrow> vget m 4; b5 \<leftarrow> vget m 5;
                 Some (first_lt_bits + push_bit 8 (ucast b2) + ucast b3,
                       push_bit 4 (ucast b4) + drop_bit 4 (ucast (b5 AND 0xF0)),
                       b5 AND 0x0F) }
          else if lt_bits = 40 then
            do { b2 \<leftarrow> vget m 2; b3 \<leftarrow> vget m 3; b4 \<leftarrow> vget m 4; b5 \<leftarrow> vget m 5; b6 \<leftarrow> vget m 6;
                 Some (first_lt_bits + push_bit 16 (ucast b2) + push_bit 8 (ucast b3) + ucast b4,
                       push_bit 4 (ucast b5) + drop_bit 4 (ucast (b6 AND 0xF0)),
                       b6 AND 0x0F) }
          else Some (first_lt_bits, 0, 0) }"

definition read_mack_header :: "receiver \<Rightarrow> receiver option" where
  "read_mack_header r =
     (let lt_bits = tag_length r in
      if lt_bits < 16 then Some r
      else do {
        (t0, msq, cp) \<leftarrow> mack_header_fields lt_bits (d_mack_message r);
        Some (r\<lparr>d_osnma_data := (d_osnma_data r)\<lparr>d_mack_msg := (mack_of r)\<lparr>header :=
                 \<lparr>tag0 = t0, macseq = msq, mh_cop = cp\<rparr>\<rparr>\<rparr>\<rparr>) })"

section \<open>Body\<close>

text \<open>Number of tags, Eq. 8: the floating-point quotient of the code is exact.\<close>

definition number_of_tags :: "nat \<Rightarrow> nat \<Rightarrow> nat" where
  "number_of_tags lk_bits lt_bits = (480 - lk_bits) div (lt_bits + 16)"

text \<open>The fields of the \<open>k\<close>-th tag: tag, PRN, ADKD and cut-off point.\<close>

definition mack_tag_fields :: "nat \<Rightarrow> u8 list \<Rightarrow> nat \<Rightarrow> (u64 \<times> u8 \<times> u8 \<times> u8) option" where
  "mack_tag_fields lt_bits m k =
     (if lt_bits = 20 then
        (let step = (9 * k + 1) div 2 in
         do { b4 \<leftarrow> vget m (4 + step); b5 \<leftarrow> vget m (5 + step); b6 \<leftarrow> vget m (6 + step);
              b7 \<leftarrow> vget m (7 + step); b8 \<leftarrow> vget m (8 + step);
              if k mod 2 = 0
              then Some (push_bit 16 (ucast (b4 AND 0x0F)) + push_bit 8 (ucast b5) + ucast b6,
                         b7, drop_bit 4 (b8 AND 0xF0), b8 AND 0x0F)
              else Some (push_bit 12 (ucast b4) + push_bit 4 (ucast b5) + drop_bit 4 (ucast (b6 AND 0xF0)),
                         push_bit 4 (b6 AND 0x0F) + drop_bit 4 (b7 AND 0xF0),
                         b7 AND 0x0F, drop_bit 4 (b8 AND 0xF0)) })
      else if lt_bits = 24 then
        do { b5 \<leftarrow> vget m (5 + k * 5); b6 \<leftarrow> vget m (6 + k * 5); b7 \<leftarrow> vget m (7 + k * 5);
             b8 \<leftarrow> vget m (8 + k * 5); b9 \<leftarrow> vget m (9 + k * 5);
             Some (push_bit 16 (ucast b5) + push_bit 8 (ucast b6) + ucast b7,
                   b8, drop_bit 4 (b9 AND 0xF0), b9 AND 0x0F) }
      else if lt_bits = 28 then
        (let step = (11 * k + 1) div 2 in
         do { b5 \<leftarrow> vget m (5 + step); b6 \<leftarrow> vget m (6 + step); b7 \<leftarrow> vget m (7 + step);
              b8 \<leftarrow> vget m (8 + step); b9 \<leftarrow> vget m (9 + step); b10 \<leftarrow> vget m (10 + step);
              if k mod 2 = 0
              then Some (push_bit 24 (ucast (b5 AND 0x0F)) + push_bit 16 (ucast b6)
                           + push_bit 8 (ucast b7) + ucast b8,
                         b9, drop_bit 4 (b10 AND 0xF0), b10 AND 0x0F)
              else Some (push_bit 20 (ucast b5) + push_bit 12 (ucast b6) + push_bit 4 (ucast b7)
                           + drop_bit 4 (ucast (b8 AND 0xF0)),
                         push_bit 4 (b8 AND 0x0F) + drop_bit 4 (b9 AND 0xF0),
                         b9 AND 0x0F, drop_bit 4 (b10 AND 0xF0)) })
      else if lt_bits = 32 then
        do { b6 \<leftarrow> vget m (6 + k * 6); b7 \<leftarrow> vget m (7 + k * 6); b8 \<leftarrow> vget m (8 + k * 6);
             b9 \<leftarrow> vget m (9 + k * 6); b10 \<leftarrow> vget m (10 + k * 6); b11 \<leftarrow> vget m (11 + k * 6);
             Some (push_bit 24 (ucast b6) + push_bit 16 (ucast b7) + push_bit 8 (ucast b8) + ucast b9,
                   b10, drop_bit 4 (b11 AND 0xF0), b11 AND 0x0F) }
      else if lt_bits = 40 then
        do { b7 \<leftarrow> vget m (7 + k * 7); b8 \<leftarrow> vget m (8 + k * 7); b9 \<leftarrow> vget m (9 + k * 7);
             b10 \<leftarrow> vget m (10 + k * 7); b11 \<leftarrow> vget m (11 + k * 7); b12 \<leftarrow> vget m (12 + k * 7);
             b13 \<leftarrow> vget m (13 + k * 7);
             Some (push_bit 32 (ucast b7) + push_bit 24 (ucast b8) + push_bit 16 (ucast b9)
                     + push_bit 8 (ucast b10) + ucast b11,
                   b12, drop_bit 4 (b13 AND 0xF0), b13 AND 0x0F) }
      else Some (0, 0, 0, 0))"

text \<open>The key behind the last tag \<open>k\<close>: \<open>n\<close> bytes, at half-byte alignment for the odd
  positions of the 20- and 28-bit tags.\<close>

definition split_bytes :: "u8 list \<Rightarrow> nat \<Rightarrow> nat \<Rightarrow> u8 list option" where
  "split_bytes m i n =
     mapM (\<lambda>j. do { a \<leftarrow> vget m (i + j);
                    b \<leftarrow> vget m (Suc i + j);
                    Some (push_bit 4 (a AND 0x0F) + drop_bit 4 (b AND 0xF0)) }) [0..<n]"

definition mack_key :: "nat \<Rightarrow> u8 list \<Rightarrow> nat \<Rightarrow> nat \<Rightarrow> u8 list option" where
  "mack_key lt_bits m k n =
     (if lt_bits = 20 then
        (let step = (9 * k + 1) div 2 in
         if k mod 2 = 0 then vread m (9 + step) n else split_bytes m (8 + step) n)
      else if lt_bits = 24 then vread m (10 + k * 5) n
      else if lt_bits = 28 then
        (let step = (11 * k + 1) div 2 in
         if k mod 2 = 0 then vread m (11 + step) n else split_bytes m (10 + step) n)
      else if lt_bits = 32 then vread m (12 + k * 6) n
      else vread m (14 + k * 7) n)"

definition tag_info_at :: "nat \<Rightarrow> u8 list \<Rightarrow> nat \<Rightarrow> mack_tag_and_info option" where
  "tag_info_at lt_bits m k =
     do { (tg, prn, adkd, cp) \<leftarrow> mack_tag_fields lt_bits m k;
          Some \<lparr>mti_tag = tg, mti_tag_info = \<lparr>ti_PRN_d = prn, ti_ADKD = adkd, ti_cop = cp\<rparr>,
                mti_counter = of_nat (k + 2)\<rparr> }"

definition read_mack_body :: "receiver \<Rightarrow> receiver option" where
  "read_mack_body r =
     (let lt_bits = tag_length r in
      if lt_bits = 0 then Some r
      else do {
        let lk_bits = unat (get_lk_bits (ks (kroot_of r)));
        let nt = number_of_tags lk_bits lt_bits;
        tags \<leftarrow> mapM (tag_info_at lt_bits (d_mack_message r)) [0..<nt - 1];
        k \<leftarrow> (if 2 \<le> nt
              then mack_key lt_bits (d_mack_message r) (nt - 2) (length (kroot (kroot_of r)))
              else Some (mk_key (mack_of r)));
        Some (r\<lparr>d_osnma_data := (d_osnma_data r)\<lparr>d_mack_msg := (mack_of r)\<lparr>tag_and_info := tags,
                 mk_key := k\<rparr>\<rparr>\<rparr>) })"

section \<open>The fields of one tag\<close>

lemma ucast_low_nibble:
  "(ucast (of_nat (unat b mod 16) :: u8) :: 'a::len word) = of_nat (unat (b :: u8) mod 16)"
proof -
  have "unat b mod 16 < 2 ^ LENGTH(8)" by (rule order_less_trans[of _ 16]) simp_all
  then have "unat (of_nat (unat b mod 16) :: u8) = unat b mod 16" by (rule unat_of_nat_less)
  then show ?thesis by (simp only: ucast_of_nat)
qed

lemmas mack_word_simps = word_of_nat_high_nibble word_of_nat_low_nibble drop_ucast_high
  ucast_low_nibble push_bit_eq_mult

lemma mack_tag_fields_24:
  assumes "40 * (k + 2) \<le> 8 * length m"
  shows "mack_tag_fields 24 m (k) = Some (of_nat (bit_field m (40 * (k + 1)) 24),
     of_nat (bit_field m (40 * (k + 1) + 24) 8), of_nat (bit_field m (40 * (k + 1) + 32) 4),
     of_nat (bit_field m (40 * (k + 1) + 36) 4))"
proof -
  have len: "9 + k * 5 < length m" using assms by presburger
  have f: "bit_field m (40 * (k + 1)) 24 = unat (m ! (5 + k * 5)) * 65536
      + unat (m ! (6 + k * 5)) * 256 + unat (m ! (7 + k * 5))"
    "bit_field m (40 * (k + 1) + 24) 8 = unat (m ! (8 + k * 5))"
    "bit_field m (40 * (k + 1) + 32) 4 = unat (m ! (9 + k * 5)) div 16"
    "bit_field m (40 * (k + 1) + 36) 4 = unat (m ! (9 + k * 5)) mod 16"
    by ((rule fld_whole24 fld_byte fld_hi fld_lo; use len in simp)+)
  show ?thesis
    unfolding f using len by (simp add: mack_tag_fields_def Let_def vec_simps mack_word_simps)
qed

lemma mack_tag_fields_32:
  assumes "48 * (k + 2) \<le> 8 * length m"
  shows "mack_tag_fields 32 m (k) = Some (of_nat (bit_field m (48 * (k + 1)) 32),
     of_nat (bit_field m (48 * (k + 1) + 32) 8), of_nat (bit_field m (48 * (k + 1) + 40) 4),
     of_nat (bit_field m (48 * (k + 1) + 44) 4))"
proof -
  have len: "11 + k * 6 < length m" using assms by presburger
  have f: "bit_field m (48 * (k + 1)) 32 = unat (m ! (6 + k * 6)) * 16777216
      + unat (m ! (7 + k * 6)) * 65536 + unat (m ! (8 + k * 6)) * 256 + unat (m ! (9 + k * 6))"
    "bit_field m (48 * (k + 1) + 32) 8 = unat (m ! (10 + k * 6))"
    "bit_field m (48 * (k + 1) + 40) 4 = unat (m ! (11 + k * 6)) div 16"
    "bit_field m (48 * (k + 1) + 44) 4 = unat (m ! (11 + k * 6)) mod 16"
    by ((rule fld_whole32 fld_byte fld_hi fld_lo; use len in simp)+)
  show ?thesis
    unfolding f using len by (simp add: mack_tag_fields_def Let_def vec_simps mack_word_simps)
qed

lemma mack_tag_fields_40:
  assumes "56 * (k + 2) \<le> 8 * length m"
  shows "mack_tag_fields 40 m (k) = Some (of_nat (bit_field m (56 * (k + 1)) 40),
     of_nat (bit_field m (56 * (k + 1) + 40) 8), of_nat (bit_field m (56 * (k + 1) + 48) 4),
     of_nat (bit_field m (56 * (k + 1) + 52) 4))"
proof -
  have len: "13 + k * 7 < length m" using assms by presburger
  have f: "bit_field m (56 * (k + 1)) 40 = unat (m ! (7 + k * 7)) * 4294967296
      + unat (m ! (8 + k * 7)) * 16777216 + unat (m ! (9 + k * 7)) * 65536 + unat (m ! (10 + k * 7)) * 256 + unat (m ! (11 + k * 7))"
    "bit_field m (56 * (k + 1) + 40) 8 = unat (m ! (12 + k * 7))"
    "bit_field m (56 * (k + 1) + 48) 4 = unat (m ! (13 + k * 7)) div 16"
    "bit_field m (56 * (k + 1) + 52) 4 = unat (m ! (13 + k * 7)) mod 16"
    by ((rule fld_whole40 fld_byte fld_hi fld_lo; use len in simp)+)
  show ?thesis
    unfolding f using len by (simp add: mack_tag_fields_def Let_def vec_simps mack_word_simps)
qed

lemma mack_tag_fields_20_even:
  assumes "36 * (2 * q + 2) \<le> 8 * length m"
  shows "mack_tag_fields 20 m (2 * q) = Some (of_nat (bit_field m (36 * (2 * q + 1)) 20),
     of_nat (bit_field m (36 * (2 * q + 1) + 20) 8), of_nat (bit_field m (36 * (2 * q + 1) + 28) 4),
     of_nat (bit_field m (36 * (2 * q + 1) + 32) 4))"
proof -
  have len: "8 + 9 * q < length m" using assms by presburger
  have f: "bit_field m (36 * (2 * q + 1)) 20 = unat (m ! (4 + 9 * q)) mod 16 * 65536
      + unat (m ! (5 + 9 * q)) * 256 + unat (m ! (6 + 9 * q))"
    "bit_field m (36 * (2 * q + 1) + 20) 8 = unat (m ! (7 + 9 * q))"
    "bit_field m (36 * (2 * q + 1) + 28) 4 = unat (m ! (8 + 9 * q)) div 16"
    "bit_field m (36 * (2 * q + 1) + 32) 4 = unat (m ! (8 + 9 * q)) mod 16"
    by ((rule fld_tail20 fld_byte fld_hi fld_lo; use len in simp)+)
  show ?thesis
    unfolding f using len by (simp add: mack_tag_fields_def Let_def vec_simps mack_word_simps)
qed

lemma mack_tag_fields_20_odd:
  assumes "36 * (2 * q + 1 + 2) \<le> 8 * length m"
  shows "mack_tag_fields 20 m (2 * q + 1) = Some (of_nat (bit_field m (36 * (2 * q + 1 + 1)) 20),
     of_nat (bit_field m (36 * (2 * q + 1 + 1) + 20) 8), of_nat (bit_field m (36 * (2 * q + 1 + 1) + 28) 4),
     of_nat (bit_field m (36 * (2 * q + 1 + 1) + 32) 4))"
proof -
  have len: "8 + (9 * q + 5) < length m" using assms by presburger
  have f: "bit_field m (36 * (2 * q + 1 + 1)) 20 = unat (m ! (4 + (9 * q + 5))) * 4096
      + unat (m ! (5 + (9 * q + 5))) * 16 + unat (m ! (6 + (9 * q + 5))) div 16"
    "bit_field m (36 * (2 * q + 1 + 1) + 20) 8 = unat (m ! (6 + (9 * q + 5))) mod 16 * 16 + unat (m ! (7 + (9 * q + 5))) div 16"
    "bit_field m (36 * (2 * q + 1 + 1) + 28) 4 = unat (m ! (7 + (9 * q + 5))) mod 16"
    "bit_field m (36 * (2 * q + 1 + 1) + 32) 4 = unat (m ! (8 + (9 * q + 5))) div 16"
    by ((rule fld_head20 fld_split fld_hi fld_lo; use len in simp)+)
  show ?thesis
    unfolding f using len by (simp add: mack_tag_fields_def Let_def vec_simps mack_word_simps)
qed

lemma mack_tag_fields_28_even:
  assumes "44 * (2 * q + 2) \<le> 8 * length m"
  shows "mack_tag_fields 28 m (2 * q) = Some (of_nat (bit_field m (44 * (2 * q + 1)) 28),
     of_nat (bit_field m (44 * (2 * q + 1) + 28) 8), of_nat (bit_field m (44 * (2 * q + 1) + 36) 4),
     of_nat (bit_field m (44 * (2 * q + 1) + 40) 4))"
proof -
  have len: "10 + 11 * q < length m" using assms by presburger
  have f: "bit_field m (44 * (2 * q + 1)) 28 = unat (m ! (5 + 11 * q)) mod 16 * 16777216
      + unat (m ! (6 + 11 * q)) * 65536 + unat (m ! (7 + 11 * q)) * 256 + unat (m ! (8 + 11 * q))"
    "bit_field m (44 * (2 * q + 1) + 28) 8 = unat (m ! (9 + 11 * q))"
    "bit_field m (44 * (2 * q + 1) + 36) 4 = unat (m ! (10 + 11 * q)) div 16"
    "bit_field m (44 * (2 * q + 1) + 40) 4 = unat (m ! (10 + 11 * q)) mod 16"
    by ((rule fld_tail28 fld_byte fld_hi fld_lo; use len in simp)+)
  show ?thesis
    unfolding f using len by (simp add: mack_tag_fields_def Let_def vec_simps mack_word_simps)
qed

lemma mack_tag_fields_28_odd:
  assumes "44 * (2 * q + 1 + 2) \<le> 8 * length m"
  shows "mack_tag_fields 28 m (2 * q + 1) = Some (of_nat (bit_field m (44 * (2 * q + 1 + 1)) 28),
     of_nat (bit_field m (44 * (2 * q + 1 + 1) + 28) 8), of_nat (bit_field m (44 * (2 * q + 1 + 1) + 36) 4),
     of_nat (bit_field m (44 * (2 * q + 1 + 1) + 40) 4))"
proof -
  have len: "10 + (11 * q + 6) < length m" using assms by presburger
  have f: "bit_field m (44 * (2 * q + 1 + 1)) 28 = unat (m ! (5 + (11 * q + 6))) * 1048576
      + unat (m ! (6 + (11 * q + 6))) * 4096 + unat (m ! (7 + (11 * q + 6))) * 16 + unat (m ! (8 + (11 * q + 6))) div 16"
    "bit_field m (44 * (2 * q + 1 + 1) + 28) 8 = unat (m ! (8 + (11 * q + 6))) mod 16 * 16 + unat (m ! (9 + (11 * q + 6))) div 16"
    "bit_field m (44 * (2 * q + 1 + 1) + 36) 4 = unat (m ! (9 + (11 * q + 6))) mod 16"
    "bit_field m (44 * (2 * q + 1 + 1) + 40) 4 = unat (m ! (10 + (11 * q + 6))) div 16"
    by ((rule fld_head28 fld_split fld_hi fld_lo; use len in simp)+)
  show ?thesis
    unfolding f using len by (simp add: mack_tag_fields_def Let_def vec_simps mack_word_simps)
qed

lemma mack_tag_fields_spec:
  assumes "lt \<in> {20, 24, 28, 32, 40}" and "(lt + 16) * (k + 2) \<le> 8 * length m"
  shows "mack_tag_fields lt m k = Some (of_nat (bit_field m ((lt + 16) * (k + 1)) lt),
     of_nat (bit_field m ((lt + 16) * (k + 1) + lt) 8),
     of_nat (bit_field m ((lt + 16) * (k + 1) + lt + 8) 4),
     of_nat (bit_field m ((lt + 16) * (k + 1) + lt + 12) 4))"
proof -
  obtain q where q: "k = 2 * q \<or> k = 2 * q + 1" by (metis oddE evenE)
  consider "lt = 20" | "lt = 24" | "lt = 28" | "lt = 32" | "lt = 40" using assms(1) by auto
  then show ?thesis
  proof cases
    case 1
    with assms(2) q mack_tag_fields_20_even[of q m] mack_tag_fields_20_odd[of q m]
    show ?thesis by (elim disjE) (simp_all add: add.assoc)
  next
    case 2
    with assms(2) mack_tag_fields_24[of k m] show ?thesis by (simp add: add.assoc)
  next
    case 3
    with assms(2) q mack_tag_fields_28_even[of q m] mack_tag_fields_28_odd[of q m]
    show ?thesis by (elim disjE) (simp_all add: add.assoc)
  next
    case 4
    with assms(2) mack_tag_fields_32[of k m] show ?thesis by (simp add: add.assoc)
  next
    case 5
    with assms(2) mack_tag_fields_40[of k m] show ?thesis by (simp add: add.assoc)
  qed
qed

section \<open>The header\<close>

lemma mack_header_fields_spec:
  assumes lt: "lt \<in> {20, 24, 28, 32, 40}" and len: "7 \<le> length m"
  shows "mack_header_fields lt m = Some (of_nat (bit_field m 0 lt), of_nat (bit_field m lt 12),
           of_nat (bit_field m (lt + 12) 4))"
proof -
  have b0: "0 < length m" using len by linarith
  note hdr = mack_header_fields_def Let_def vec_simps mack_word_simps
  consider "lt = 20" | "lt = 24" | "lt = 28" | "lt = 32" | "lt = 40" using lt by auto
  then show ?thesis
  proof cases
    case 1
    have f: "bit_field m 0 20 = unat (m ! 0) * 4096 + unat (m ! 1) * 16 + unat (m ! 2) div 16"
      "bit_field m 20 12 = unat (m ! 2) mod 16 * 256 + unat (m ! 3)"
      "bit_field m (20 + 12) 4 = unat (m ! 4) div 16"
      by (rule fld_head20 fld_tail12[of 2] fld_hi[of 4]; use len in simp)+
    show ?thesis unfolding 1 f using len b0 by (simp add: hdr)
  next
    case 2
    have f: "bit_field m 0 24 = unat (m ! 0) * 65536 + unat (m ! 1) * 256 + unat (m ! 2)"
      "bit_field m 24 12 = unat (m ! 3) * 16 + unat (m ! 4) div 16"
      "bit_field m (24 + 12) 4 = unat (m ! 4) mod 16"
      by (rule fld_whole24 fld_head12[of 3] fld_lo[of 4]; use len in simp)+
    show ?thesis unfolding 2 f using len b0 by (simp add: hdr)
  next
    case 3
    have f: "bit_field m 0 28 = unat (m ! 0) * 1048576 + unat (m ! 1) * 4096 + unat (m ! 2) * 16
        + unat (m ! 3) div 16"
      "bit_field m 28 12 = unat (m ! 3) mod 16 * 256 + unat (m ! 4)"
      "bit_field m (28 + 12) 4 = unat (m ! 5) div 16"
      by (rule fld_head28 fld_tail12[of 3] fld_hi[of 5]; use len in simp)+
    show ?thesis unfolding 3 f using len b0 by (simp add: hdr)
  next
    case 4
    have f: "bit_field m 0 32 = unat (m ! 0) * 16777216 + unat (m ! 1) * 65536
        + unat (m ! 2) * 256 + unat (m ! 3)"
      "bit_field m 32 12 = unat (m ! 4) * 16 + unat (m ! 5) div 16"
      "bit_field m (32 + 12) 4 = unat (m ! 5) mod 16"
      by (rule fld_whole32 fld_head12[of 4] fld_lo[of 5]; use len in simp)+
    show ?thesis unfolding 4 f using len b0 by (simp add: hdr)
  next
    case 5
    have f: "bit_field m 0 40 = unat (m ! 0) * 4294967296 + unat (m ! 1) * 16777216
        + unat (m ! 2) * 65536 + unat (m ! 3) * 256 + unat (m ! 4)"
      "bit_field m 40 12 = unat (m ! 5) * 16 + unat (m ! 6) div 16"
      "bit_field m (40 + 12) 4 = unat (m ! 6) mod 16"
      by (rule fld_whole40 fld_head12[of 5] fld_lo[of 6]; use len in simp)+
    show ?thesis unfolding 5 f using len b0 by (simp add: hdr)
  qed
qed

section \<open>The key\<close>

lemma byte_bits_split:
  "byte_bits (push_bit 4 (a AND 0x0F) + drop_bit 4 (b AND 0xF0)) =
     drop 4 (byte_bits a) @ take 4 (byte_bits b)"
proof (rule bit_val_inj)
  have "unat a mod 16 * 16 + unat b div 16 < 256"
  proof -
    have "unat a mod 16 < 16" "unat b div 16 < 16" by (simp_all add: less_mult_imp_div_less)
    then show ?thesis by linarith
  qed
  then have "bit_val (byte_bits (push_bit 4 (a AND 0x0F) + drop_bit 4 (b AND 0xF0))) =
      unat a mod 16 * 16 + unat b div 16"
    by (simp only: bit_val_byte_bits split_byte_word) (simp only: unat_of_nat, simp)
  moreover have "bit_val (drop 4 (byte_bits a)) = unat a mod 16"
    using bit_val_take_drop[of 4 4 "byte_bits a"] by (simp add: bit_val_byte_bits)
  moreover have "bit_val (take 4 (byte_bits b)) = unat b div 16"
    using bit_val_take_drop[of 0 4 "byte_bits b"] unat_u8_le[of b]
    by (simp add: bit_val_byte_bits)
  ultimately show "bit_val (byte_bits (push_bit 4 (a AND 0x0F) + drop_bit 4 (b AND 0xF0))) =
      bit_val (drop 4 (byte_bits a) @ take 4 (byte_bits b))"
    by (simp add: bit_val_append)
qed simp

lemma split_bytes_spec:
  assumes "i + n < length m"
  shows "\<exists>bs. split_bytes m i n = Some bs \<and> bits_of bs = take (8 * n) (drop (8 * i + 4) (bits_of m))"
proof -
  define s where "s = (\<lambda>a b :: u8. push_bit 4 (a AND 0x0F) + drop_bit 4 (b AND 0xF0))"
  have sb: "byte_bits (s a b) = drop 4 (byte_bits a) @ take 4 (byte_bits b)" for a b
    unfolding s_def by (rule byte_bits_split)
  have "split_bytes m i n = Some (map (\<lambda>j. s (m ! (i + j)) (m ! (Suc i + j))) [0..<n])"
    unfolding split_bytes_def
    by (rule mapM_Some_map) (use assms in \<open>simp add: vec_simps s_def\<close>)
  moreover have "bits_of (map (\<lambda>j. s (m ! (i + j)) (m ! (Suc i + j))) [0..<n]) =
      take (8 * n) (drop (8 * i + 4) (bits_of m))"
    using assms
  proof (induction n)
    case 0
    show ?case by simp
  next
    case (Suc n)
    let ?xs = "drop (8 * i + 4) (bits_of m)"
    have "drop (i + n) m = m ! (i + n) # m ! (Suc i + n) # drop (Suc (Suc (i + n))) m"
      using Suc.prems by (simp add: Cons_nth_drop_Suc)
    then have "drop (8 * (i + n)) (bits_of m) =
        byte_bits (m ! (i + n)) @ byte_bits (m ! (Suc i + n)) @ bits_of (drop (Suc (Suc (i + n))) m)"
      by (simp only: drop_bits_of bits_of_Cons)
    then have "drop 4 (drop (8 * (i + n)) (bits_of m)) = drop 4 (byte_bits (m ! (i + n))) @
        byte_bits (m ! (Suc i + n)) @ bits_of (drop (Suc (Suc (i + n))) m)"
      by simp
    moreover have "drop (8 * n) ?xs = drop 4 (drop (8 * (i + n)) (bits_of m))"
      by (simp add: algebra_simps)
    ultimately have "take 8 (drop (8 * n) ?xs) =
        drop 4 (byte_bits (m ! (i + n))) @ take 4 (byte_bits (m ! (Suc i + n)))"
      by simp
    moreover have "take (8 * Suc n) ?xs = take (8 * n) ?xs @ take 8 (drop (8 * n) ?xs)"
      using take_add[of "8 * n" 8 ?xs] by (simp add: add.commute)
    ultimately show ?case using Suc by (simp add: sb)
  qed
  ultimately show ?thesis by blast
qed

lemma vread_bits:
  "i + n \<le> length m \<Longrightarrow>
     \<exists>bs. vread m i n = Some bs \<and> bits_of bs = take (8 * n) (drop (8 * i) (bits_of m))"
  by (simp add: vread_eq drop_bits_of take_bits_of)

lemma mack_key_spec:
  assumes lt: "lt \<in> {20, 24, 28, 32, 40}" and len: "(lt + 16) * (k + 2) + 8 * n \<le> 8 * length m"
  shows "\<exists>bs. mack_key lt m k n = Some bs \<and>
           bits_of bs = take (8 * n) (drop ((lt + 16) * (k + 2)) (bits_of m))"
proof -
  obtain q where q: "k = 2 * q \<or> k = 2 * q + 1" by (metis oddE evenE)
  have odd: "Suc (q * 2) mod 2 \<noteq> 0" by presburger
  consider "lt = 20" "k = 2 * q" | "lt = 20" "k = 2 * q + 1" | "lt = 24"
    | "lt = 28" "k = 2 * q" | "lt = 28" "k = 2 * q + 1" | "lt = 32" | "lt = 40"
    using lt q by auto
  then show ?thesis
  proof cases
    case 1
    then show ?thesis using len vread_bits[of "9 + 9 * q" n m]
      by (simp add: mack_key_def Let_def algebra_simps)
  next
    case 2
    then show ?thesis using len split_bytes_spec[of "13 + 9 * q" n m] odd
      by (simp add: mack_key_def Let_def algebra_simps)
  next
    case 3
    then show ?thesis using len vread_bits[of "10 + k * 5" n m]
      by (simp add: mack_key_def Let_def algebra_simps)
  next
    case 4
    then show ?thesis using len vread_bits[of "11 + 11 * q" n m]
      by (simp add: mack_key_def Let_def algebra_simps)
  next
    case 5
    then show ?thesis using len split_bytes_spec[of "16 + 11 * q" n m] odd
      by (simp add: mack_key_def Let_def algebra_simps)
  next
    case 6
    then show ?thesis using len vread_bits[of "12 + k * 6" n m]
      by (simp add: mack_key_def Let_def algebra_simps)
  next
    case 7
    then show ?thesis using len vread_bits[of "14 + k * 7" n m]
      by (simp add: mack_key_def Let_def algebra_simps)
  qed
qed

section \<open>The message\<close>

lemma tag_length_set: "tag_length r \<noteq> 0 \<Longrightarrow> tag_length r \<in> {20, 24, 28, 32, 40}"
  using tag_length_values[of r] by auto

lemma number_of_tags_bounds:
  assumes "lk \<le> 256" and "lt \<in> {20, 24, 28, 32, 40 :: nat}"
  shows "4 \<le> number_of_tags lk lt" and "(lt + 16) * number_of_tags lk lt + lk \<le> 480"
proof -
  have "4 * (lt + 16) \<le> 480 - lk" using assms by auto
  then show "4 \<le> number_of_tags lk lt"
    using assms(2) by (auto simp: number_of_tags_def less_eq_div_iff_mult_less_eq)
  have "(lt + 16) * number_of_tags lk lt \<le> 480 - lk"
    by (simp add: number_of_tags_def)
  then show "(lt + 16) * number_of_tags lk lt + lk \<le> 480" using assms(1) by linarith
qed

text \<open>The record of the \<open>k\<close>-th tag of a message laid out as the interface document says.\<close>

definition icd_tag :: "nat \<Rightarrow> u8 list \<Rightarrow> nat \<Rightarrow> mack_tag_and_info" where
  "icd_tag lt m k =
     (let off = (lt + 16) * (k + 1) in
      \<lparr>mti_tag = of_nat (bit_field m off lt),
       mti_tag_info = \<lparr>ti_PRN_d = of_nat (bit_field m (off + lt) 8),
                       ti_ADKD = of_nat (bit_field m (off + lt + 8) 4),
                       ti_cop = of_nat (bit_field m (off + lt + 12) 4)\<rparr>,
       mti_counter = of_nat (k + 2)\<rparr>)"

lemma read_mack_header_spec:
  assumes "length (d_mack_message r) = 60" and "tag_length r \<noteq> 0"
  shows "read_mack_header r = Some (r\<lparr>d_osnma_data := (d_osnma_data r)\<lparr>d_mack_msg := (mack_of r)\<lparr>header :=
     \<lparr>tag0 = of_nat (bit_field (d_mack_message r) 0 (tag_length r)),
      macseq = of_nat (bit_field (d_mack_message r) (tag_length r) 12),
      mh_cop = of_nat (bit_field (d_mack_message r) (tag_length r + 12) 4)\<rparr>\<rparr>\<rparr>\<rparr>)"
proof -
  have "16 \<le> tag_length r" using tag_length_set[OF assms(2)] by auto
  moreover have "7 \<le> length (d_mack_message r)" using assms(1) by simp
  ultimately show ?thesis
    by (simp add: read_mack_header_def Let_def mack_header_fields_spec[OF tag_length_set[OF assms(2)]])
qed

lemma read_mack_body_spec:
  assumes len: "length (d_mack_message r) = 60" and lt: "tag_length r \<noteq> 0"
    and key: "8 * length (kroot (kroot_of r)) = unat (get_lk_bits (ks (kroot_of r)))"
  defines "nt \<equiv> number_of_tags (unat (get_lk_bits (ks (kroot_of r)))) (tag_length r)"
  shows "\<exists>k. read_mack_body r = Some (r\<lparr>d_osnma_data := (d_osnma_data r)\<lparr>d_mack_msg := (mack_of r)\<lparr>
           tag_and_info := map (icd_tag (tag_length r) (d_mack_message r)) [0..<nt - 1],
           mk_key := k\<rparr>\<rparr>\<rparr>) \<and>
     bits_of k = take (unat (get_lk_bits (ks (kroot_of r))))
       (drop ((tag_length r + 16) * nt) (bits_of (d_mack_message r)))"
proof -
  let ?lt = "tag_length r" and ?m = "d_mack_message r"
  let ?lk = "unat (get_lk_bits (ks (kroot_of r)))"
  have lts: "?lt \<in> {20, 24, 28, 32, 40}" using lt by (rule tag_length_set)
  have "?lk \<le> 256" using table_10_values[of "ks (kroot_of r)"] by auto
  from number_of_tags_bounds[OF this lts]
  have nt: "4 \<le> nt" "(?lt + 16) * nt + ?lk \<le> 480" by (simp_all add: nt_def)
  have "mapM (tag_info_at ?lt ?m) [0..<nt - 1] = Some (map (icd_tag ?lt ?m) [0..<nt - 1])"
  proof (rule mapM_Some_map)
    fix k assume "k \<in> set [0..<nt - 1]"
    then have "(?lt + 16) * (k + 2) \<le> (?lt + 16) * nt" by (intro mult_le_mono2) auto
    then have "(?lt + 16) * (k + 2) \<le> 8 * length ?m" using nt(2) len by linarith
    from mack_tag_fields_spec[OF lts this]
    show "tag_info_at ?lt ?m k = Some (icd_tag ?lt ?m k)"
      by (simp add: tag_info_at_def icd_tag_def Let_def)
  qed
  moreover obtain bs where bs: "mack_key ?lt ?m (nt - 2) (length (kroot (kroot_of r))) = Some bs"
      "bits_of bs = take ?lk (drop ((?lt + 16) * nt) (bits_of ?m))"
  proof -
    have "nt - 2 + 2 = nt" using nt(1) by simp
    then have "(?lt + 16) * (nt - 2 + 2) + 8 * length (kroot (kroot_of r)) \<le> 8 * length ?m"
      using nt(2) len key by simp
    from mack_key_spec[OF lts this] show ?thesis
      using that unfolding \<open>nt - 2 + 2 = nt\<close> key by blast
  qed
  ultimately show ?thesis
    using lt nt(1) by (auto simp: read_mack_body_def Let_def nt_def[symmetric])
qed

text \<open>C21: Reading a MACK message never leaves its 60 bytes, for any tag length and key size of
  the tables, and gives the layout of the interface document: Tag0, MACSEQ and COP from the
  first bits, then tag, PRN, ADKD and COP of every further tag at multiples of the tag length
  plus 16 bits, then the TESLA key.\<close>

theorem mack_message_layout:
  assumes "length (d_mack_message r) = 60" and "tag_length r \<noteq> 0"
    and "8 * length (kroot (kroot_of r)) = unat (get_lk_bits (ks (kroot_of r)))"
  shows "\<exists>r'. do { r1 \<leftarrow> read_mack_header r; read_mack_body r1 } = Some r' \<and>
    (let m = d_mack_message r; lt = tag_length r; lk = unat (get_lk_bits (ks (kroot_of r)));
         nt = (480 - lk) div (lt + 16)
     in header (mack_of r') = \<lparr>tag0 = of_nat (bit_field m 0 lt), macseq = of_nat (bit_field m lt 12),
                               mh_cop = of_nat (bit_field m (lt + 12) 4)\<rparr> \<and>
        tag_and_info (mack_of r') = map (icd_tag lt m) [0..<nt - 1] \<and>
        bits_of (mk_key (mack_of r')) = take lk (drop ((lt + 16) * nt) (bits_of m)))"
proof -
  let ?h = "\<lparr>tag0 = of_nat (bit_field (d_mack_message r) 0 (tag_length r)),
      macseq = of_nat (bit_field (d_mack_message r) (tag_length r) 12),
      mh_cop = of_nat (bit_field (d_mack_message r) (tag_length r + 12) 4)\<rparr>"
  let ?r1 = "r\<lparr>d_osnma_data := (d_osnma_data r)\<lparr>d_mack_msg := (mack_of r)\<lparr>header := ?h\<rparr>\<rparr>\<rparr>"
  have same: "tag_length ?r1 = tag_length r" by (simp add: tag_length_def)
  show ?thesis
    using read_mack_header_spec[OF assms(1,2)] read_mack_body_spec[of ?r1] assms
    by (auto simp: same number_of_tags_def Let_def)
qed

theorem mack_message_layout_witness:
  "\<exists>r'. do { r1 \<leftarrow> read_mack_header sample_receiver; read_mack_body r1 } = Some r' \<and>
     length (tag_and_info (mack_of r')) = 5"
  using mack_message_layout[of sample_receiver]
  by (auto simp: sample_defs tag_length_def table_lookup_def OSNMA_TABLE_11_def get_lk_bits_def
      OSNMA_TABLE_10_def Let_def)

end
