(* ===== verification/Osnma_Tesla.thy ===== *)
theory Osnma_Tesla
  imports Osnma_Mack
begin

text \<open>
  The TESLA key chain: \<open>hash_chain\<close> and \<open>verify_tesla_key\<close> of
  \<open>core/libs/osnma_msg_receiver.cc\<close>. A key is hashed with the time of its subframe and the
  \<open>alpha\<close> of the chain, once for every subframe between it and the reference, which is the
  root key or the last verified key. The locale \<open>key_chain\<close> states what an iterated one-way
  step with a running time promises; \<open>hash_chain_loop\<close> interprets it.
\<close>

section \<open>Definitions\<close>

definition chain_hash :: "crypto_lib \<Rightarrow> u8 \<Rightarrow> u8 list \<Rightarrow> u8 list" where
  "chain_hash L h msg =
     (if h = 0 then lib_sha256 L msg else if h = 2 then lib_sha3_256 L msg else replicate 32 0)"

definition alpha_bytes :: "u64 \<Rightarrow> u8 list" where
  "alpha_bytes a = map (\<lambda>k. ucast (drop_bit (k * 8) a AND 0xFF)) [5, 4, 3, 2, 1, 0]"

definition chain_message :: "dsm_kroot_message \<Rightarrow> u8 list \<Rightarrow> u32 \<Rightarrow> u8 list" where
  "chain_message kr K_II GST_SFi =
     K_II @
     [ucast (drop_bit 24 (GST_SFi AND 0xFF000000)), ucast (drop_bit 16 (GST_SFi AND 0x00FF0000)),
      ucast (drop_bit 8 (GST_SFi AND 0x0000FF00)), ucast (GST_SFi AND 0x000000FF)] @
     alpha_bytes (alpha kr)"

definition chain_step :: "crypto_lib \<Rightarrow> dsm_kroot_message \<Rightarrow> nat \<Rightarrow> u8 list \<Rightarrow> u32 \<Rightarrow> u8 list option" where
  "chain_step L kr lk_bytes K_II GST_SFi =
     vread (chain_hash L (hf kr) (chain_message kr K_II GST_SFi)) 0 lk_bytes"

fun hash_chain_loop ::
  "crypto_lib \<Rightarrow> dsm_kroot_message \<Rightarrow> nat \<Rightarrow> nat \<Rightarrow> u8 list \<Rightarrow> u32 \<Rightarrow> u8 list option" where
  "hash_chain_loop L kr lk_bytes 0 K_II GST_SFi = Some K_II"
| "hash_chain_loop L kr lk_bytes (Suc n) K_II GST_SFi =
     do { K_I \<leftarrow> chain_step L kr lk_bytes K_II GST_SFi;
          hash_chain_loop L kr lk_bytes n K_I (GST_SFi - 30) }"

text \<open>The comparison of the final time with the time of the reference is only logged.\<close>

definition hash_chain :: "crypto_lib \<Rightarrow> receiver \<Rightarrow> u32 \<Rightarrow> u8 list \<Rightarrow> u32 \<Rightarrow> u8 \<Rightarrow> u8 list option" where
  "hash_chain L r num_of_hashes_needed key GST_SFi lk_bytes =
     hash_chain_loop L (kroot_of r) (unat lk_bytes) (unat num_of_hashes_needed) key GST_SFi"

definition chain_lk_bytes :: "receiver \<Rightarrow> u8" where
  "chain_lk_bytes r = ucast (get_lk_bits (ks (kroot_of r)) div 8)"

definition verify_tesla_key ::
  "crypto_lib \<Rightarrow> receiver \<Rightarrow> u8 list \<Rightarrow> u32 \<Rightarrow> (bool \<times> receiver) option" where
  "verify_tesla_key L r key TOW =
     do { let GST_SFi = d_GST_Sf r - 30;
          let lk_bytes = chain_lk_bytes r;
          (validated_key, num_of_hashes_needed) \<leftarrow>
            (if d_tesla_key_verified r then
               (if d_tesla_keys r = [] then None
                else Some (snd (last (d_tesla_keys r)), (d_GST_Sf r - d_last_verified_key_GST r) div 30))
             else Some (kroot (kroot_of r), (d_GST_Sf r - d_GST_0 r) div 30 + 1));
          hash \<leftarrow> hash_chain L r num_of_hashes_needed key GST_SFi lk_bytes;
          computed_key \<leftarrow> vread hash 0 (length key);
          let r' = (if computed_key = validated_key \<and> num_of_hashes_needed > 0
                    then r\<lparr>d_tesla_keys := map_insert TOW key (d_tesla_keys r),
                           d_tesla_key_verified := True,
                           d_last_verified_key_GST := d_GST_Sf r\<rparr>
                    else r);
          Some (d_tesla_key_verified r', r') }"

section \<open>The interface of a key chain\<close>

locale key_chain =
  fixes step :: "'k \<Rightarrow> 't \<Rightarrow> 'k option" and prev :: "'t \<Rightarrow> 't"
    and chain :: "nat \<Rightarrow> 'k \<Rightarrow> 't \<Rightarrow> 'k option"
  assumes chain_0: "chain 0 k t = Some k"
    and chain_Suc: "chain (Suc n) k t = Option.bind (step k t) (\<lambda>k'. chain n k' (prev t))"
begin

lemma chain_add:
  "chain (m + n) k t = Option.bind (chain m k t) (\<lambda>k'. chain n k' ((prev ^^ m) t))"
proof (induction m arbitrary: k t)
  case 0
  show ?case by (simp add: chain_0)
next
  case (Suc m)
  show ?case
  proof (cases "step k t")
    case None
    then show ?thesis by (simp add: chain_Suc)
  next
    case (Some k')
    then show ?thesis using Suc[of k' "prev t"] by (simp add: chain_Suc funpow_swap1)
  qed
qed

text \<open>A key that reaches an intermediate key reaches whatever that key reaches.\<close>

lemma chain_trans:
  "chain m k t = Some k' \<Longrightarrow> chain n k' ((prev ^^ m) t) = Some root \<Longrightarrow> chain (m + n) k t = Some root"
  by (simp add: chain_add)

lemma chain_resume:
  "chain m k t = Some k' \<Longrightarrow>
     chain (m + n) k t = Some root \<longleftrightarrow> chain n k' ((prev ^^ m) t) = Some root"
  by (simp add: chain_add)

lemma chain_total:
  assumes "\<And>k t. P k \<Longrightarrow> \<exists>k'. step k t = Some k' \<and> P k'" and "P k"
  shows "\<exists>k'. chain n k t = Some k' \<and> P k'"
  using assms(2)
proof (induction n arbitrary: k t)
  case 0
  then show ?case by (simp add: chain_0)
next
  case (Suc n)
  from assms(1)[OF Suc.prems, of t] obtain k' where k': "step k t = Some k'" "P k'" by blast
  with Suc.IH[OF k'(2), of "prev t"] show ?case by (simp add: chain_Suc)
qed

end

interpretation tesla: key_chain "chain_step L kr lk" "\<lambda>t. t - 30" "hash_chain_loop L kr lk"
  for L kr lk
  by unfold_locales simp_all

section \<open>Facts\<close>

lemma prev_pow: "((\<lambda>t :: u32. t - 30) ^^ m) t = t - 30 * of_nat m"
  by (induction m) (simp_all add: algebra_simps)

lemma chain_hash_length: "crypto_ok L \<Longrightarrow> length (chain_hash L h msg) = 32"
  by (simp add: crypto_ok_def chain_hash_def)

lemma chain_step_total:
  "crypto_ok L \<Longrightarrow> lk \<le> 32 \<Longrightarrow> \<exists>k'. chain_step L kr lk k t = Some k' \<and> length k' = lk"
  by (simp add: chain_step_def vread_eq chain_hash_length)

lemma hash_chain_length:
  assumes "crypto_ok L" and "lk \<le> 32" and "length k = lk"
  shows "\<exists>k'. hash_chain_loop L kr lk n k t = Some k' \<and> length k' = lk"
  using assms(3) by (rule tesla.chain_total[rotated]) (use chain_step_total[OF assms(1,2)] in blast)

lemma chain_lk_bytes_eq: "unat (chain_lk_bytes r) = unat (get_lk_bits (ks (kroot_of r))) div 8"
  and chain_lk_bytes_le: "unat (chain_lk_bytes r) \<le> 32"
proof -
  have "get_lk_bits (ks (kroot_of r)) \<in> {0, 96, 104, 112, 120, 128, 160, 192, 224, 256}"
    by (rule table_10_values)
  then show "unat (chain_lk_bytes r) = unat (get_lk_bits (ks (kroot_of r))) div 8"
    and "unat (chain_lk_bytes r) \<le> 32"
    by (auto simp: chain_lk_bytes_def)
qed

section \<open>Verification of a key\<close>

text \<open>Reference: the key reaches the reference key in the given number of steps.\<close>

definition reaches :: "crypto_lib \<Rightarrow> receiver \<Rightarrow> u8 list \<Rightarrow> u32 \<Rightarrow> nat \<Rightarrow> u8 list \<Rightarrow> bool" where
  "reaches L r key t n ref \<longleftrightarrow>
     hash_chain_loop L (kroot_of r) (unat (chain_lk_bytes r)) n key t = Some ref"

lemma verify_tesla_key_total:
  assumes "crypto_ok L" and "length key = unat (chain_lk_bytes r)"
    and "d_tesla_key_verified r \<Longrightarrow> d_tesla_keys r \<noteq> []"
  shows "\<exists>b r'. verify_tesla_key L r key TOW = Some (b, r')"
proof -
  have *: "\<exists>h. hash_chain L r n key (d_GST_Sf r - 30) (chain_lk_bytes r) = Some h \<and>
      length h = length key" for n
    using hash_chain_length[OF assms(1) chain_lk_bytes_le assms(2)] assms(2)
    by (simp add: hash_chain_def)
  show ?thesis
  proof (cases "d_tesla_key_verified r")
    case True
    with assms(3) *[of "(d_GST_Sf r - d_last_verified_key_GST r) div 30"] show ?thesis
      by (auto simp: verify_tesla_key_def Let_def vec_simps)
  next
    case False
    with *[of "(d_GST_Sf r - d_GST_0 r) div 30 + 1"] show ?thesis
      by (auto simp: verify_tesla_key_def Let_def vec_simps)
  qed
qed

lemma verify_tesla_key_state:
  assumes "verify_tesla_key L r key TOW = Some (b, r')"
  shows "b = d_tesla_key_verified r' \<and>
    (r' = r \<or> r' = r\<lparr>d_tesla_keys := map_insert TOW key (d_tesla_keys r),
       d_tesla_key_verified := True, d_last_verified_key_GST := d_GST_Sf r\<rparr>)"
  using assms by (auto simp: verify_tesla_key_def Let_def bind_eq_Some_conv split: if_splits)

lemma verify_against_root:
  assumes "crypto_ok L" and "length key = unat (chain_lk_bytes r)" and "\<not> d_tesla_key_verified r"
  shows "verify_tesla_key L r key TOW =
    (if reaches L r key (d_GST_Sf r - 30) (unat ((d_GST_Sf r - d_GST_0 r) div 30 + 1)) (kroot (kroot_of r))
     then Some (True, r\<lparr>d_tesla_keys := map_insert TOW key (d_tesla_keys r),
                         d_tesla_key_verified := True, d_last_verified_key_GST := d_GST_Sf r\<rparr>)
     else Some (False, r))"
proof -
  let ?n = "(d_GST_Sf r - d_GST_0 r) div 30 + 1"
  obtain h where h: "hash_chain_loop L (kroot_of r) (unat (chain_lk_bytes r)) (unat ?n) key (d_GST_Sf r - 30) = Some h"
      "length h = length key"
    using hash_chain_length[OF assms(1) chain_lk_bytes_le assms(2)] assms(2) by metis
  have "?n \<noteq> 0"
  proof -
    have "unat ((d_GST_Sf r - d_GST_0 r) div 30) \<le> 143165576"
      using unsigned_less[of "d_GST_Sf r - d_GST_0 r", where 'a = nat]
      by (simp add: unat_div) 
    then have "unat ?n = unat ((d_GST_Sf r - d_GST_0 r) div 30) + 1"
      by (simp add: unat_plus_less)
    then show ?thesis by (metis add_is_0 unat_0 zero_neq_one)
  qed
  then have "0 < ?n" by (simp add: word_gt_0)
  with h assms(3) show ?thesis
    by (simp add: verify_tesla_key_def hash_chain_def reaches_def Let_def vec_simps)
qed

lemma verify_against_key:
  assumes "crypto_ok L" and "length key = unat (chain_lk_bytes r)" and "d_tesla_key_verified r"
    and "d_tesla_keys r \<noteq> []"
  defines "n \<equiv> (d_GST_Sf r - d_last_verified_key_GST r) div 30"
  shows "verify_tesla_key L r key TOW =
    (if 0 < n \<and> reaches L r key (d_GST_Sf r - 30) (unat n) (snd (last (d_tesla_keys r)))
     then Some (True, r\<lparr>d_tesla_keys := map_insert TOW key (d_tesla_keys r),
                         d_tesla_key_verified := True, d_last_verified_key_GST := d_GST_Sf r\<rparr>)
     else Some (True, r))"
proof -
  obtain h where h: "hash_chain_loop L (kroot_of r) (unat (chain_lk_bytes r)) (unat n) key (d_GST_Sf r - 30) = Some h"
      "length h = length key"
    using hash_chain_length[OF assms(1) chain_lk_bytes_le assms(2)] assms(2) by metis
  with assms(3,4) show ?thesis
    by (simp add: verify_tesla_key_def hash_chain_def reaches_def Let_def vec_simps n_def)
qed

text \<open>C15: The first key of a chain is accepted exactly when it hashes to the root key in one
  step per subframe since the root key's time of applicability plus one, the time running back
  by 30 seconds a step; the answer is the same flag, and nothing changes otherwise.\<close>

theorem first_key_accepted_iff:
  assumes "crypto_ok L" and "length key = unat (chain_lk_bytes r)" and "\<not> d_tesla_key_verified r"
  shows "\<exists>b r'. verify_tesla_key L r key TOW = Some (b, r') \<and>
    (b \<longleftrightarrow> hash_chain_loop L (kroot_of r) (unat (chain_lk_bytes r))
             (unat ((d_GST_Sf r - d_GST_0 r) div 30 + 1)) key (d_GST_Sf r - 30) = Some (kroot (kroot_of r))) \<and>
    d_tesla_key_verified r' = b \<and>
    d_tesla_keys r' = (if b then map_insert TOW key (d_tesla_keys r) else d_tesla_keys r)"
  using verify_against_root[OF assms] assms(3) by (auto simp: reaches_def)

theorem first_key_accepted_iff_witness:
  "\<exists>b r'. verify_tesla_key sample_lib sample_receiver (replicate 16 0x11) 30 = Some (b, r') \<and>
    d_tesla_key_verified r' = b"
  using first_key_accepted_iff[of sample_lib "replicate 16 0x11" sample_receiver 30] crypto_ok_sample
  by (auto simp: sample_defs chain_lk_bytes_def get_lk_bits_def table_lookup_def OSNMA_TABLE_10_def)

text \<open>C13: Verification up to the last verified key is as good as up to the root key: when the
  last stored key reaches the root key, and a later key is accepted against it, the later key
  reaches the root key in the number of steps the full verification would use.\<close>

theorem resumed_verification_reaches_root:
  assumes ok: "crypto_ok L" "length key = unat (chain_lk_bytes r)"
    and st: "d_tesla_key_verified r" "d_tesla_keys r \<noteq> []"
    and times: "d_GST_Sf r = d_GST_0 r + 30 * of_nat i"
      "d_last_verified_key_GST r = d_GST_0 r + 30 * of_nat j" "j < i" "i < 143165576"
    and last: "hash_chain_loop L (kroot_of r) (unat (chain_lk_bytes r)) (j + 1)
                 (snd (last (d_tesla_keys r))) (d_last_verified_key_GST r - 30) = Some (kroot (kroot_of r))"
    and acc: "verify_tesla_key L r key TOW = Some (b, r')" "d_last_verified_key_GST r' = d_GST_Sf r"
  shows "hash_chain_loop L (kroot_of r) (unat (chain_lk_bytes r)) (i + 1) key (d_GST_Sf r - 30) =
           Some (kroot (kroot_of r)) \<and>
         unat ((d_GST_Sf r - d_GST_0 r) div 30 + 1) = i + 1"
proof
  have small: "30 * i < 2 ^ LENGTH(32)" "30 * (i - j) < 2 ^ LENGTH(32)" using times(4) by simp_all
  have i30: "unat (30 * of_nat i :: u32) = 30 * i"
    using unat_of_nat_less[OF small(1)] by simp
  have d: "d_GST_Sf r - d_last_verified_key_GST r = 30 * of_nat (i - j)"
    using times(1,2,3) by (simp add: of_nat_diff algebra_simps)
  have d30: "unat (30 * of_nat (i - j) :: u32) = 30 * (i - j)"
    using unat_of_nat_less[OF small(2)] by simp
  let ?n = "(d_GST_Sf r - d_last_verified_key_GST r) div 30"
  have n: "unat ?n = i - j" by (simp add: d unat_div d30)
  have differ: "d_last_verified_key_GST r \<noteq> d_GST_Sf r"
  proof
    assume "d_last_verified_key_GST r = d_GST_Sf r"
    with d have "30 * of_nat (i - j) = (0 :: u32)" by simp
    with d30 times(3) show False by simp
  qed
  have step: "hash_chain_loop L (kroot_of r) (unat (chain_lk_bytes r)) (i - j) key (d_GST_Sf r - 30) =
      Some (snd (last (d_tesla_keys r)))"
    using verify_against_key[OF ok st, of TOW] acc differ n
    by (auto simp: reaches_def split: if_splits)
  have e: "d_GST_Sf r - 30 - 30 * of_nat (i - j) = d_last_verified_key_GST r - 30"
    using d by (simp add: algebra_simps)
  have "hash_chain_loop L (kroot_of r) (unat (chain_lk_bytes r)) (j + 1) (snd (last (d_tesla_keys r)))
      (((\<lambda>t. t - 30) ^^ (i - j)) (d_GST_Sf r - 30)) = Some (kroot (kroot_of r))"
    unfolding prev_pow e by (rule last)
  from tesla.chain_trans[OF step this]
  show "hash_chain_loop L (kroot_of r) (unat (chain_lk_bytes r)) (i + 1) key (d_GST_Sf r - 30) =
           Some (kroot (kroot_of r))"
    using times(3) by simp
  have "unat ((d_GST_Sf r - d_GST_0 r) div 30) = i"
    using times(1) by (simp add: unat_div i30)
  then show "unat ((d_GST_Sf r - d_GST_0 r) div 30 + 1) = i + 1"
    using times(4) by (simp add: unat_plus_less)
qed

text \<open>With the sample library every key hashes to the sample root key.\<close>

lemma sample_chain_step:
  "hf kr = 0 \<Longrightarrow> chain_step sample_lib kr 16 k t = Some (replicate 16 0xAB)"
  by (simp add: chain_step_def chain_hash_def sample_lib_def vec_simps)

lemma sample_chain_fixed:
  "hf kr = 0 \<Longrightarrow>
     hash_chain_loop sample_lib kr 16 n (replicate 16 0xAB) t = Some (replicate 16 0xAB)"
  by (induction n arbitrary: t) (simp_all add: sample_chain_step)

lemma sample_chain:
  "hf kr = 0 \<Longrightarrow> hash_chain_loop sample_lib kr 16 (Suc n) k t = Some (replicate 16 0xAB)"
  by (simp add: sample_chain_step sample_chain_fixed)

lemma sample_lk_bytes: "chain_lk_bytes sample_receiver = 16"
  by (simp add: sample_defs chain_lk_bytes_def get_lk_bits_def table_lookup_def OSNMA_TABLE_10_def)

definition sample_running :: receiver where
  "sample_running = sample_receiver
     \<lparr>d_tesla_keys := [(30, replicate 16 0xAB)], d_tesla_key_verified := True,
      d_GST_0 := 3600, d_GST_Sf := 3660, d_last_verified_key_GST := 3630\<rparr>"

lemma sample_running_lk: "chain_lk_bytes sample_running = 16"
  using sample_lk_bytes by (simp add: sample_running_def chain_lk_bytes_def)

lemma sample_running_hf: "hf (kroot_of sample_running) = 0"
  by (simp add: sample_running_def sample_defs)

theorem resumed_verification_reaches_root_witness:
  "hash_chain_loop sample_lib (kroot_of sample_running) 16 3 (replicate 16 0x22) 3630 =
     Some (replicate 16 0xAB)"
proof -
  let ?k = "replicate 16 0x22"
  have ok: "length ?k = unat (chain_lk_bytes sample_running)"
    by (simp add: sample_running_lk)
  have st: "d_tesla_key_verified sample_running" "d_tesla_keys sample_running \<noteq> []"
    "d_GST_Sf sample_running = d_GST_0 sample_running + 30 * of_nat 2"
    "d_last_verified_key_GST sample_running = d_GST_0 sample_running + 30 * of_nat 1"
    by (simp_all add: sample_running_def)
  have last: "hash_chain_loop sample_lib (kroot_of sample_running) (unat (chain_lk_bytes sample_running))
      (1 + 1) (snd (last (d_tesla_keys sample_running))) (d_last_verified_key_GST sample_running - 30) =
      Some (kroot (kroot_of sample_running))"
  proof -
    have "kroot (kroot_of sample_running) = replicate 16 0xAB" "unat (16 :: u8) = 16" "1 + 1 = Suc 1"
      by (simp_all add: sample_running_def sample_defs)
    then show ?thesis
      unfolding sample_running_lk by (simp only: sample_chain[OF sample_running_hf])
  qed
  have acc: "verify_tesla_key sample_lib sample_running ?k 60 = Some (True, sample_running
      \<lparr>d_tesla_keys := map_insert 60 ?k (d_tesla_keys sample_running),
       d_tesla_key_verified := True, d_last_verified_key_GST := d_GST_Sf sample_running\<rparr>)"
  proof -
    have n: "(d_GST_Sf sample_running - d_last_verified_key_GST sample_running) div 30 = 1"
      "snd (last (d_tesla_keys sample_running)) = replicate 16 0xAB" "unat (1 :: u32) = Suc 0"
      by (simp_all add: sample_running_def)
    have "reaches sample_lib sample_running ?k (d_GST_Sf sample_running - 30)
        (unat ((d_GST_Sf sample_running - d_last_verified_key_GST sample_running) div 30))
        (snd (last (d_tesla_keys sample_running)))"
      unfolding n reaches_def sample_running_lk using sample_chain[OF sample_running_hf, of 0] by simp
    with n(1) show ?thesis
      using verify_against_key[OF crypto_ok_sample ok st(1,2)] by simp
  qed
  have "hash_chain_loop sample_lib (kroot_of sample_running) (unat (chain_lk_bytes sample_running))
      (2 + 1) ?k (d_GST_Sf sample_running - 30) = Some (kroot (kroot_of sample_running))"
    by (rule resumed_verification_reaches_root[THEN conjunct1,
          OF crypto_ok_sample ok st _ _ last acc]) simp_all
  then show ?thesis
    by (simp only: sample_running_lk) (simp add: sample_running_def sample_defs)
qed

text \<open>C34: Once a key of the chain has been verified, the answer for any further key is
  \<open>true\<close>: a key that does not hash to the last verified one leaves the state as it is and is
  reported as verified.\<close>

theorem failed_key_reported_verified:
  assumes "crypto_ok L" and "length key = unat (chain_lk_bytes r)" and "d_tesla_key_verified r"
    and "d_tesla_keys r \<noteq> []"
    and "hash_chain_loop L (kroot_of r) (unat (chain_lk_bytes r))
           (unat ((d_GST_Sf r - d_last_verified_key_GST r) div 30)) key (d_GST_Sf r - 30)
         \<noteq> Some (snd (last (d_tesla_keys r)))"
  shows "verify_tesla_key L r key TOW = Some (True, r)"
  using verify_against_key[OF assms(1-4)] assms(5) by (simp add: reaches_def)

theorem failed_key_reported_verified_witness:
  "verify_tesla_key sample_lib (sample_running\<lparr>d_tesla_keys := [(30, replicate 16 0)]\<rparr>)
     (replicate 16 0x22) 60 = Some (True, sample_running\<lparr>d_tesla_keys := [(30, replicate 16 0)]\<rparr>)"
proof (rule failed_key_reported_verified)
  let ?r = "sample_running\<lparr>d_tesla_keys := [(30, replicate 16 0)]\<rparr>"
  have lk: "chain_lk_bytes ?r = 16" using sample_running_lk by (simp add: chain_lk_bytes_def)
  have n: "unat ((d_GST_Sf ?r - d_last_verified_key_GST ?r) div 30) = 1"
    by (simp add: sample_running_def)
  show "hash_chain_loop sample_lib (kroot_of ?r) (unat (chain_lk_bytes ?r))
      (unat ((d_GST_Sf ?r - d_last_verified_key_GST ?r) div 30)) (replicate 16 0x22) (d_GST_Sf ?r - 30)
      \<noteq> Some (snd (last (d_tesla_keys ?r)))"
    unfolding n lk using sample_running_hf by (simp add: sample_chain_step)
  show "length (replicate 16 (0x22 :: u8)) = unat (chain_lk_bytes ?r)" by (simp add: lk)
qed (simp_all add: crypto_ok_sample sample_running_def)

end
