(* ===== verification/Osnma_Tags.thy ===== *)
theory Osnma_Tags
  imports Osnma_Tesla
begin

text \<open>
  The tags: the message a tag authenticates (\<open>build_message\<close>), its verification
  (\<open>verify_tag\<close>) and the queue of tags that wait for a key or for navigation data
  (\<open>tag_has_key_available\<close>, \<open>tag_has_nav_data_available\<close>, \<open>remove_verified_tags\<close>,
  \<open>control_tags_awaiting_verify_size\<close>) of \<open>core/libs/osnma_msg_receiver.cc\<close>.
\<close>

section \<open>Definitions\<close>

text \<open>\<open>m.back() |= (byte >> 2); m.push_back(byte << 6);\<close>\<close>

definition append_nav_byte :: "u8 \<Rightarrow> u8 list \<Rightarrow> u8 list" where
  "append_nav_byte b m = butlast m @ [last m OR drop_bit 2 b, push_bit 6 b]"

text \<open>At most three shifts by two bits while the two lowest bits are zero.\<close>

fun shift_padding :: "nat \<Rightarrow> u8 \<Rightarrow> u8" where
  "shift_padding 0 b = b"
| "shift_padding (Suc n) b = (if b AND 0x03 = 0 then shift_padding n (push_bit 2 b) else b)"

definition finish_message :: "u8 list \<Rightarrow> u8 list" where
  "finish_message m =
     (if last m = 0 then butlast m else butlast m @ [shift_padding 3 (last m)])"

definition build_message :: "receiver \<Rightarrow> tag \<Rightarrow> (u8 list \<times> tag) option" where
  "build_message r t =
     do { let m = (if tg_CTR t \<noteq> 1 then [tg_PRN_d t] else []) @ [ucast (tg_PRNa t)];
          let GST = compute_gst (tg_WN t) (tg_TOW t);
          let m = m @ gst_to_uint8 GST @ [tg_CTR t];
          let two_bits_nmas = push_bit 6 (nmas (nma_of r) AND 0x03);
          let m = m @ [two_bits_nmas];
          let applicable_nav_data = get_navigation_data (d_nav_data_manager r) t;
          nav_bytes \<leftarrow> helper_bytes applicable_nav_data;
          let m = fold append_nav_byte nav_bytes m;
          Some (finish_message m, t\<lparr>tg_nav_data := applicable_nav_data\<rparr>) }"

text \<open>\<open>trunc(l_t, mac)\<close> as the code computes it.\<close>

definition truncate_mac :: "nat \<Rightarrow> u8 list \<Rightarrow> u64 option" where
  "truncate_mac lt_bits mac =
     do { m0 \<leftarrow> vget mac 0;
          m1 \<leftarrow> vget mac 1;
          let computed_mac = push_bit (lt_bits - 8) (ucast m0) + push_bit (lt_bits - 16) (ucast m1);
          if lt_bits = 20 then Some (computed_mac + drop_bit 4 (ucast (m1 AND 0xF0)))
          else if lt_bits = 24 then do { m2 \<leftarrow> vget mac 2; Some (computed_mac + ucast m2) }
          else if lt_bits = 28 then
            do { m2 \<leftarrow> vget mac 2; m3 \<leftarrow> vget mac 3;
                 Some (computed_mac + push_bit 4 (ucast m2) + drop_bit 4 (ucast (m3 AND 0xF0))) }
          else if lt_bits = 32 then
            do { m2 \<leftarrow> vget mac 2; m3 \<leftarrow> vget mac 3;
                 Some (computed_mac + push_bit 8 (ucast m2) + ucast m3) }
          else if lt_bits = 40 then
            do { m2 \<leftarrow> vget mac 2; m3 \<leftarrow> vget mac 3; m4 \<leftarrow> vget mac 4;
                 Some (computed_mac + push_bit 16 (ucast m2) + push_bit 8 (ucast m3) + ucast m4) }
          else Some computed_mac }"

text \<open>The MAC function of the chain: none for the reserved values of \<open>mf\<close>.\<close>

definition tag_mac :: "crypto_lib \<Rightarrow> u8 \<Rightarrow> u8 list \<Rightarrow> u8 list \<Rightarrow> u8 list" where
  "tag_mac L f key m =
     (if f = 0 then lib_hmac_sha256 L key m else if f = 1 then lib_cmac_aes L key m else [])"

definition applicable_key :: "receiver \<Rightarrow> tag \<Rightarrow> u8 list option" where
  "applicable_key r t =
     (if tg_ADKD t = 0 \<or> tg_ADKD t = 4 then map_of (d_tesla_keys r) (tg_TOW t + 30)
      else map_of (d_tesla_keys r) (tg_TOW t + 330))"

definition verify_tag :: "crypto_lib \<Rightarrow> receiver \<Rightarrow> tag \<Rightarrow> (bool \<times> tag) option" where
  "verify_tag L r t =
     do { (m, t1) \<leftarrow> build_message r t;
          case applicable_key r t1 of
            None \<Rightarrow> Some (False, t1)
          | Some key \<Rightarrow>
              let mac = tag_mac L (mf (kroot_of r)) key m;
                  lt_bits = tag_length r
              in if lt_bits < 16 then Some (False, t1)
                 else do {
                   computed_mac \<leftarrow> truncate_mac lt_bits mac;
                   Some (received_tag t1 = computed_mac, t1\<lparr>computed_tag := computed_mac\<rparr>) } }"

definition tag_has_nav_data_available :: "receiver \<Rightarrow> tag \<Rightarrow> bool" where
  "tag_has_nav_data_available r t =
     (case map_of (d_satellite_nav_data r) (ucast (tg_PRN_d t)) of
        Some tow_map \<Rightarrow> map_of tow_map (tg_TOW t - 30) \<noteq> None
      | None \<Rightarrow> False)"

definition tag_has_key_available :: "receiver \<Rightarrow> tag \<Rightarrow> bool" where
  "tag_has_key_available r t =
     (if tg_ADKD t = 0 \<or> tg_ADKD t = 4 then map_of (d_tesla_keys r) (tg_TOW t + 30) \<noteq> None
      else if tg_ADKD t = 12 then map_of (d_tesla_keys r) (tg_TOW t + 330) \<noteq> None
      else False)"

definition tag_is_removed :: "receiver \<Rightarrow> tag \<Rightarrow> bool" where
  "tag_is_removed r t =
     (if tg_status t = SUCCESS \<or> tg_status t = FAIL then True
      else if (tg_ADKD t \<noteq> 12 \<and> \<not> have_nav_data_tag (d_nav_data_manager r) t) \<or>
              (tg_ADKD t = 12 \<and> tg_TOW t + 30 * 11 < get_TOW (d_last_verified_key_GST r))
      then True
      else False)"

fun remove_tags_loop :: "receiver \<Rightarrow> (u32, tag) std_map \<Rightarrow> (u32, tag) std_map" where
  "remove_tags_loop r [] = []"
| "remove_tags_loop r ((k, t) # it) =
     (if tag_is_removed r t then remove_tags_loop r it else (k, t) # remove_tags_loop r it)"

definition remove_verified_tags :: "receiver \<Rightarrow> receiver" where
  "remove_verified_tags r =
     r\<lparr>d_tags_awaiting_verify := remove_tags_loop r (d_tags_awaiting_verify r)\<rparr>"

fun control_size_loop :: "(u32, tag) std_map \<Rightarrow> (u32, tag) std_map" where
  "control_size_loop [] = []"
| "control_size_loop (x # m) = (if 500 < length (x # m) then control_size_loop m else x # m)"

definition control_tags_awaiting_verify_size :: "receiver \<Rightarrow> receiver" where
  "control_tags_awaiting_verify_size r =
     r\<lparr>d_tags_awaiting_verify := control_size_loop (d_tags_awaiting_verify r)\<rparr>"

section \<open>The message\<close>

lemma byte_bits_or_shift:
  "c AND mask 6 = 0 \<Longrightarrow> byte_bits (c OR drop_bit 2 b) = take 2 (byte_bits c) @ take 6 (byte_bits b)"
proof -
  assume c: "c AND mask 6 = 0"
  have "\<not> bit c n" if "n < 6" for n
  proof -
    have "bit (c AND mask 6) n = bit c n" using that by (simp add: bit_simps)
    with c show ?thesis by simp
  qed
  moreover have "\<not> bit b n" if "8 \<le> n" for n using that bit_imp_le_length[of b n] by auto
  ultimately show ?thesis by (simp add: byte_bits_def bit_simps)
qed

lemma byte_bits_push6: "byte_bits (push_bit 6 b) = drop 6 (byte_bits b) @ replicate 6 False"
proof -
  have "replicate 6 False = [False, False, False, False, False, False]"
    by (simp add: numeral_eq_Suc)
  then show ?thesis by (simp add: byte_bits_def bit_simps)
qed

lemma push6_low: "push_bit 6 b AND mask 6 = (0 :: u8)"
  by (rule bit_word_eqI) (simp add: bit_simps)

lemma fold_append_nav_bytes:
  assumes "c AND mask 6 = 0"
  shows "\<exists>m'. fold append_nav_byte bs (m @ [c]) = m @ m' \<and> m' \<noteq> [] \<and>
     last m' AND mask 6 = 0 \<and>
     bits_of m' = take 2 (byte_bits c) @ bits_of bs @ replicate 6 False \<and>
     (bs \<noteq> [] \<longrightarrow> last m' = push_bit 6 (last bs))"
  using assms
proof (induction bs arbitrary: m c)
  case Nil
  have "drop 2 (byte_bits c) = replicate 6 False"
  proof -
    have "\<not> bit c n" if "n < 6" for n
    proof -
      have "bit (c AND mask 6) n = bit c n" using that by (simp add: bit_simps)
      with Nil show ?thesis by simp
    qed
    then show ?thesis by (simp add: byte_bits_def numeral_eq_Suc)
  qed
  then have "byte_bits c = take 2 (byte_bits c) @ replicate 6 False"
    by (metis append_take_drop_id)
  with Nil show ?case by (intro exI[of _ "[c]"]) simp
next
  case (Cons b bs)
  let ?c1 = "c OR drop_bit 2 b" and ?c2 = "push_bit 6 b"
  have step: "fold append_nav_byte (b # bs) (m @ [c]) = fold append_nav_byte bs ((m @ [?c1]) @ [?c2])"
    by (simp add: append_nav_byte_def)
  from Cons.IH[OF push6_low, of "m @ [?c1]" b] obtain m' where m':
      "fold append_nav_byte bs ((m @ [?c1]) @ [?c2]) = (m @ [?c1]) @ m'" "m' \<noteq> []"
      "last m' AND mask 6 = 0"
      "bits_of m' = take 2 (byte_bits ?c2) @ bits_of bs @ replicate 6 False"
      "bs \<noteq> [] \<longrightarrow> last m' = push_bit 6 (last bs)"
    by blast
  have "take 2 (byte_bits ?c2) = drop 6 (byte_bits b)" by (simp add: byte_bits_push6)
  moreover have "byte_bits b = take 6 (byte_bits b) @ drop 6 (byte_bits b)" by simp
  ultimately have bits: "bits_of (?c1 # m') = take 2 (byte_bits c) @ bits_of (b # bs) @ replicate 6 False"
    using m'(4) byte_bits_or_shift[OF Cons.prems, of b] by simp
  have lst: "last (?c1 # m') = push_bit 6 (last (b # bs))"
  proof (cases "bs = []")
    case True
    then have "fold append_nav_byte bs ((m @ [?c1]) @ [?c2]) = (m @ [?c1]) @ [?c2]" by simp
    with m'(1) have "m' = [?c2]" by simp
    with True show ?thesis by simp
  next
    case False
    with m'(2,5) show ?thesis by simp
  qed
  show ?case
    using step m'(1,2,3) bits lst by (intro exI[of _ "?c1 # m'"]) simp
qed

text \<open>The bits of the message before the end: the satellite of the tag unless the tag is
  Tag0, the transmitting satellite, the time, the counter.\<close>

definition message_prefix :: "tag \<Rightarrow> u8 list" where
  "message_prefix t =
     (if tg_CTR t \<noteq> 1 then [tg_PRN_d t] else []) @ [ucast (tg_PRNa t)]
     @ gst_to_uint8 (compute_gst (tg_WN t) (tg_TOW t)) @ [tg_CTR t]"

lemma byte_bits_nmas:
  "take 2 (byte_bits (push_bit 6 (n AND 0x03))) = [bit n 1, bit n 0]"
  "push_bit 6 (n AND 0x03) AND mask 6 = (0 :: u8)"
proof -
  have m: "(0x03 :: u8) = mask 2" by (simp add: mask_eq_exp_minus_1)
  show "take 2 (byte_bits (push_bit 6 (n AND 0x03))) = [bit n 1, bit n 0]"
    unfolding m byte_bits_def by (simp add: bit_simps)
  show "push_bit 6 (n AND 0x03) AND mask 6 = (0 :: u8)" by (rule push6_low)
qed

lemma byte_bits_inject: "byte_bits a = byte_bits b \<longleftrightarrow> a = b"
  by (metis bit_val_byte_bits unsigned_word_eqI)

lemma byte_bits_zero: "byte_bits 0 = replicate 8 False"
  by (simp add: byte_bits_def numeral_eq_Suc)

lemma push6_eq_0_iff: "push_bit 6 b = (0 :: u8) \<longleftrightarrow> drop 6 (byte_bits b) = replicate 2 False"
proof -
  have "push_bit 6 b = 0 \<longleftrightarrow> byte_bits (push_bit 6 b) = byte_bits 0"
    by (simp only: byte_bits_inject)
  also have "\<dots> \<longleftrightarrow> drop 6 (byte_bits b) @ replicate 6 False = replicate 2 False @ replicate 6 False"
    by (simp only: byte_bits_push6 byte_bits_zero replicate_add[symmetric]) simp
  finally show ?thesis by simp
qed

lemma bits_of_butlast: "bs \<noteq> [] \<Longrightarrow> bits_of bs = bits_of (butlast bs) @ byte_bits (last bs)"
  by (metis append_butlast_last_id bits_of_Cons bits_of_Nil bits_of_append append_Nil2)

lemma build_message_spec:
  assumes s: "get_navigation_data (d_nav_data_manager r) t = s" "set s \<subseteq> {CHR ''0'', CHR ''1''}"
    and len: "length s mod 8 = 5"
  shows "\<exists>m. build_message r t = Some (m, t\<lparr>tg_nav_data := s\<rparr>) \<and>
    bits_of m = bits_of (message_prefix t) @ [bit (nmas (nma_of r)) 1, bit (nmas (nma_of r)) 0]
      @ string_bits s @ [False]"
proof -
  let ?nm = "push_bit 6 (nmas (nma_of r) AND 0x03)"
  have "pad8 (length s) = 3" using len by (simp add: pad8_def)
  with helper_bytes_bits[OF s(2)] obtain bs where bs: "helper_bytes s = Some bs"
      "bits_of bs = string_bits s @ replicate 3 False"
    by auto
  have "bs \<noteq> []" using bs(2) by auto
  from fold_append_nav_bytes[OF byte_bits_nmas(2), of bs "message_prefix t" "nmas (nma_of r)"]
  obtain m' where m': "fold append_nav_byte bs (message_prefix t @ [?nm]) = message_prefix t @ m'"
      "m' \<noteq> []" "bits_of m' = take 2 (byte_bits ?nm) @ bits_of bs @ replicate 6 False"
      "last m' = push_bit 6 (last bs)"
    using \<open>bs \<noteq> []\<close> by blast
  have "drop 6 (byte_bits (last bs)) = replicate 2 False"
  proof -
    have "bits_of (butlast bs) @ byte_bits (last bs) = string_bits s @ [False] @ replicate 2 False"
      using bs(2) bits_of_butlast[OF \<open>bs \<noteq> []\<close>] by (simp add: numeral_eq_Suc)
    then have "drop (length (bits_of (butlast bs)) + 6) (bits_of (butlast bs) @ byte_bits (last bs)) =
        drop (length (string_bits s) + 1) (string_bits s @ [False] @ replicate 2 False)"
    proof -
      assume eq: "bits_of (butlast bs) @ byte_bits (last bs) = string_bits s @ [False] @ replicate 2 False"
      then have "length (bits_of (butlast bs) @ byte_bits (last bs)) =
          length (string_bits s @ [False] @ replicate 2 False)" by (rule arg_cong)
      then have "length (bits_of (butlast bs)) + 6 = length (string_bits s) + 1" by simp
      then show ?thesis using eq by (simp only:)
    qed
    then show ?thesis by simp
  qed
  then have last0: "last m' = 0" using m'(4) push6_eq_0_iff by simp
  have "bits_of (butlast m') @ replicate 8 False =
      take 2 (byte_bits ?nm) @ string_bits s @ [False] @ replicate 8 False"
    using bits_of_butlast[OF m'(2)] m'(3) last0 bs(2)
    by (simp only: byte_bits_zero) (simp add: replicate_add[symmetric] numeral_eq_Suc)
  then have bits: "bits_of (butlast m') = take 2 (byte_bits ?nm) @ string_bits s @ [False]"
    by simp
  have pre: "(if tg_CTR t \<noteq> 1 then [tg_PRN_d t] else []) @ [ucast (tg_PRNa t)] = pa \<Longrightarrow>
     (pa @ gst_to_uint8 (compute_gst (tg_WN t) (tg_TOW t)) @ [tg_CTR t]) = message_prefix t" for pa
    by (simp add: message_prefix_def)
  have "build_message r t = Some (finish_message (message_prefix t @ m'), t\<lparr>tg_nav_data := s\<rparr>)"
    using m'(1) by (simp add: build_message_def Let_def s(1) bs(1) message_prefix_def)
  moreover have "finish_message (message_prefix t @ m') = message_prefix t @ butlast m'"
    using m'(2) last0 by (simp add: finish_message_def butlast_append)
  ultimately show ?thesis
    using bits by (simp add: byte_bits_nmas(1))
qed

section \<open>Truncation\<close>

lemma truncate_mac_spec:
  assumes lt: "lt \<in> {24, 28, 32, 40}" and len: "5 \<le> length mac"
  shows "truncate_mac lt mac = Some (of_nat (bit_field mac 0 lt))"
proof -
  have m0: "0 < length mac" using len by linarith
  note tr = truncate_mac_def Let_def vec_simps mack_word_simps
  consider "lt = 24" | "lt = 28" | "lt = 32" | "lt = 40" using lt by auto
  then show ?thesis
  proof cases
    case 1
    have f: "bit_field mac 0 24 = unat (mac ! 0) * 65536 + unat (mac ! 1) * 256 + unat (mac ! 2)"
      by (rule fld_whole24; use len in simp)
    show ?thesis unfolding 1 f using len m0 by (simp add: tr)
  next
    case 2
    have f: "bit_field mac 0 28 = unat (mac ! 0) * 1048576 + unat (mac ! 1) * 4096
        + unat (mac ! 2) * 16 + unat (mac ! 3) div 16"
      by (rule fld_head28; use len in simp)
    show ?thesis unfolding 2 f using len m0 by (simp add: tr)
  next
    case 3
    have f: "bit_field mac 0 32 = unat (mac ! 0) * 16777216 + unat (mac ! 1) * 65536
        + unat (mac ! 2) * 256 + unat (mac ! 3)"
      by (rule fld_whole32; use len in simp)
    show ?thesis unfolding 3 f using len m0 by (simp add: tr)
  next
    case 4
    have f: "bit_field mac 0 40 = unat (mac ! 0) * 4294967296 + unat (mac ! 1) * 16777216
        + unat (mac ! 2) * 65536 + unat (mac ! 3) * 256 + unat (mac ! 4)"
      by (rule fld_whole40; use len in simp)
    show ?thesis unfolding 4 f using len m0 by (simp add: tr)
  qed
qed

lemma truncate_mac_20:
  assumes len: "5 \<le> length mac"
  shows "truncate_mac 20 mac =
    Some (of_nat (unat (mac ! 0) * 4096 + unat (mac ! 1) * 16 + unat (mac ! 1) div 16))"
proof -
  have m0: "0 < length mac" using len by linarith
  show ?thesis using len m0
    by (simp add: truncate_mac_def Let_def vec_simps mack_word_simps)
qed

text \<open>With 20-bit tags the last four bits of the computed tag repeat the first four bits
  of the second byte of the MAC: the value is the truncation of the interface document exactly
  when the second and the third byte of the MAC start with the same four bits.\<close>

lemma truncation_20_bits_iff:
  assumes "5 \<le> length mac"
  shows "truncate_mac 20 mac = Some (of_nat (bit_field mac 0 20)) \<longleftrightarrow>
           bit_field mac 8 4 = bit_field mac 16 4"
proof -
  let ?a = "unat (mac ! 0) * 4096 + unat (mac ! 1) * 16"
  have f: "bit_field mac 0 20 = ?a + unat (mac ! 2) div 16"
    "bit_field mac 8 4 = unat (mac ! 1) div 16" "bit_field mac 16 4 = unat (mac ! 2) div 16"
    by (rule fld_head20 fld_hi[of 1] fld_hi[of 2]; use assms in simp)+
  have small: "?a + unat (mac ! i) div 16 < 2 ^ LENGTH(64)" for i
  proof -
    have "unat (mac ! i) div 16 \<le> 255" by (rule order_trans[OF div_le_dividend unat_u8_le])
    then have "?a + unat (mac ! i) div 16 < 18446744073709551616"
      using unat_u8_le[of "mac ! 0"] unat_u8_le[of "mac ! 1"] by linarith
    then show ?thesis by simp
  qed
  have "(of_nat (?a + unat (mac ! 1) div 16) :: u64) = of_nat (?a + unat (mac ! 2) div 16) \<longleftrightarrow>
      ?a + unat (mac ! 1) div 16 = ?a + unat (mac ! 2) div 16"
    using unat_of_nat_less[OF small[of 1]] unat_of_nat_less[OF small[of 2]] by metis
  then show ?thesis unfolding f by (simp only: truncate_mac_20[OF assms] option.inject) simp
qed

lemma truncation_20_bits_iff_witness:
  "truncate_mac 20 [0x12, 0x34, 0x56, 0x78, 0x9A] \<noteq>
     Some (of_nat (bit_field [0x12, 0x34, 0x56, 0x78, 0x9A] 0 20))"
proof -
  have f: "bit_field [0x12, 0x34, 0x56, 0x78, 0x9A] 8 4 = 3"
    "bit_field [0x12, 0x34, 0x56, 0x78, 0x9A] 16 4 = 5"
    using fld_hi[of 1 "[0x12, 0x34, 0x56, 0x78, 0x9A]" 8] fld_hi[of 2 "[0x12, 0x34, 0x56, 0x78, 0x9A]" 16]
    by simp_all
  show ?thesis using truncation_20_bits_iff[of "[0x12, 0x34, 0x56, 0x78, 0x9A]"] f by simp
qed

section \<open>Acceptance of a tag\<close>

lemma tag_mac_length: "crypto_ok L \<Longrightarrow> f < 2 \<Longrightarrow> 16 \<le> length (tag_mac L f key m)"
proof -
  assume ok: "crypto_ok L" and "f < 2"
  then have "unat f < 2" by (simp add: word_less_nat_alt)
  then have "unat f = 0 \<or> unat f = 1" by linarith
  then have "f = 0 \<or> f = 1" by (metis unat_0 unat_1 unsigned_word_eqI)
  with ok show ?thesis by (auto simp: tag_mac_def crypto_ok_def)
qed

text \<open>C17: A tag of 24 bits or more is accepted exactly when it equals the leading bits of the
  MAC, under the key of the right later subframe, of a message whose bits are those of the
  interface document: the satellites, the time, the counter, the two bits of the NMA status,
  the navigation data and one padding bit. No access leaves its container.\<close>

theorem tag_accepted_iff:
  assumes ok: "crypto_ok L" "mf (kroot_of r) < 2" "tag_length r \<in> {24, 28, 32, 40}"
    and key: "applicable_key r t = Some key"
    and s: "get_navigation_data (d_nav_data_manager r) t = s" "set s \<subseteq> {CHR ''0'', CHR ''1''}"
      "length s = 549 \<or> length s = 141"
  shows "\<exists>b t' m. verify_tag L r t = Some (b, t') \<and>
    bits_of m = bits_of (message_prefix t) @ [bit (nmas (nma_of r)) 1, bit (nmas (nma_of r)) 0]
      @ string_bits s @ [False] \<and>
    (b \<longleftrightarrow> received_tag t = of_nat (bit_field (tag_mac L (mf (kroot_of r)) key m) 0 (tag_length r))) \<and>
    tg_nav_data t' = s"
proof -
  have "length s mod 8 = 5" using s(3) by auto
  from build_message_spec[OF s(1,2) this] obtain m where
      m: "build_message r t = Some (m, t\<lparr>tg_nav_data := s\<rparr>)"
      "bits_of m = bits_of (message_prefix t) @ [bit (nmas (nma_of r)) 1, bit (nmas (nma_of r)) 0]
        @ string_bits s @ [False]"
    by blast
  have k: "applicable_key r (t\<lparr>tg_nav_data := s\<rparr>) = Some key"
    using key by (auto simp: applicable_key_def split: if_splits)
  have "5 \<le> length (tag_mac L (mf (kroot_of r)) key m)"
    using tag_mac_length[OF ok(1,2), of key m] by linarith
  from truncate_mac_spec[OF ok(3) this]
  have "verify_tag L r t = Some (received_tag t = of_nat (bit_field (tag_mac L (mf (kroot_of r)) key m) 0 (tag_length r)),
      t\<lparr>tg_nav_data := s, computed_tag := of_nat (bit_field (tag_mac L (mf (kroot_of r)) key m) 0 (tag_length r))\<rparr>)"
    using m(1) k ok(3) by (auto simp: verify_tag_def Let_def)
  with m(2) show ?thesis by force
qed

text \<open>The navigation data a witness uses: one data set of satellite 1, received at 0 s.\<close>

definition sample_nav_store :: nav_store where
  "sample_nav_store = [(1, [(0, default_navdata\<lparr>d_ephemeris_iono := replicate 549 (CHR ''1'')\<rparr>)])]"

definition sample_tag :: tag where
  "sample_tag = tag_of_info \<lparr>mti_tag = 0, mti_tag_info = \<lparr>ti_PRN_d = 1, ti_ADKD = 0, ti_cop = 1\<rparr>,
     mti_counter = 2\<rparr> 30 0 5 2"

definition sample_with_tag :: receiver where
  "sample_with_tag = sample_running
     \<lparr>d_tesla_keys := [(60, replicate 16 0xAB)], d_nav_data_manager := sample_nav_store,
      d_tags_awaiting_verify := [(30, sample_tag)]\<rparr>"

lemma sample_with_tag_facts:
  "tag_length sample_with_tag = 40" "mf (kroot_of sample_with_tag) = 0"
  "applicable_key sample_with_tag sample_tag = Some (replicate 16 0xAB)"
  "get_navigation_data (d_nav_data_manager sample_with_tag) sample_tag = replicate 549 (CHR ''1'')"
  by (simp_all add: tag_length_def sample_with_tag_def sample_running_def sample_defs table_lookup_def
      OSNMA_TABLE_11_def applicable_key_def sample_tag_def tag_of_info_def sample_nav_store_def
      get_navigation_data_def adkd_data_def default_navdata_def)

theorem tag_accepted_iff_witness:
  "\<exists>b t'. verify_tag sample_lib sample_with_tag sample_tag = Some (b, t') \<and>
     tg_nav_data t' = replicate 549 (CHR ''1'')"
  using tag_accepted_iff[OF crypto_ok_sample, of sample_with_tag sample_tag "replicate 16 0xAB"
      "replicate 549 (CHR ''1'')"]
  by (auto simp: sample_with_tag_facts)

section \<open>The queue\<close>

lemma remove_tags_loop_filter: "remove_tags_loop r m = filter (\<lambda>(_, t). \<not> tag_is_removed r t) m"
  by (induction r m rule: remove_tags_loop.induct) simp_all

lemma control_size_loop_drop: "control_size_loop m = drop (length m - 500) m"
proof (induction m)
  case Nil
  show ?case by simp
next
  case (Cons x m)
  show ?case
  proof (cases "500 < length (x # m)")
    case True
    then have "length (x # m) - 500 = Suc (length m - 500)" by simp
    with True Cons show ?thesis by simp
  next
    case False
    then show ?thesis by simp
  qed
qed

text \<open>The queue of waiting tags never keeps more than 500, and what it drops is the oldest:
  the time of every dropped tag is at most that of every kept one.\<close>

lemma queue_keeps_the_newest:
  assumes "mm_inv (d_tags_awaiting_verify r)"
  shows "let q = d_tags_awaiting_verify r;
             q' = d_tags_awaiting_verify (control_tags_awaiting_verify_size r);
             n = length q - 500
         in length q' = min 500 (length q) \<and> q = take n q @ q' \<and>
            list_all (\<lambda>d. list_all (\<lambda>k. fst d \<le> fst k) q') (take n q)"
proof -
  let ?q = "d_tags_awaiting_verify r"
  let ?n = "length ?q - 500"
  have q': "d_tags_awaiting_verify (control_tags_awaiting_verify_size r) = drop ?n ?q"
    by (simp add: control_tags_awaiting_verify_size_def control_size_loop_drop)
  have "map fst ?q = map fst (take ?n ?q) @ map fst (drop ?n ?q)"
    by (simp add: map_append[symmetric] del: map_append)
  then have "sorted (map fst (take ?n ?q) @ map fst (drop ?n ?q))"
    using assms by (simp add: mm_inv_def)
  then have "\<forall>d \<in> set (take ?n ?q). \<forall>k \<in> set (drop ?n ?q). fst d \<le> fst k"
    by (auto simp: sorted_append)
  then show ?thesis unfolding Let_def q' by (simp add: list_all_iff)
qed

lemma queue_keeps_the_newest_witness:
  "length (d_tags_awaiting_verify (control_tags_awaiting_verify_size sample_with_tag)) = 1"
proof -
  have "mm_inv (d_tags_awaiting_verify sample_with_tag)"
    by (simp add: mm_inv_def sample_with_tag_def)
  from queue_keeps_the_newest[OF this] show ?thesis
    by (simp add: Let_def sample_with_tag_def)
qed

end
