(* ===== verification/Osnma_Macseq.thy ===== *)
theory Osnma_Macseq
  imports Osnma_Tags
begin

text \<open>
  \<open>verify_macseq\<close> of \<open>core/libs/osnma_msg_receiver.cc\<close>: the tags of a MACK message against the
  sequence of the MAC look-up table (fixed entries by their ADKD) and against the MACSEQ field
  (the flexible entries).
\<close>

section \<open>Definitions\<close>

text \<open>\<open>std::stoi\<close>: white space, a sign, decimal digits; it throws without digits or when the
  number does not fit an \<open>int\<close>.\<close>

definition dec_value :: "char \<Rightarrow> nat option" where
  "dec_value c = (let n = of_char c :: nat in if 48 \<le> n \<and> n \<le> 57 then Some (n - 48) else None)"

fun dec_run :: "nat \<Rightarrow> string \<Rightarrow> nat" where
  "dec_run a [] = a"
| "dec_run a (c # cs) = (case dec_value c of None \<Rightarrow> a | Some d \<Rightarrow> dec_run (10 * a + d) cs)"

definition stoi :: "string \<Rightarrow> int option" where
  "stoi s =
     (let s1 = dropWhile is_space s;
          neg = (s1 \<noteq> [] \<and> hd s1 = CHR ''-'');
          s2 = (if s1 \<noteq> [] \<and> (hd s1 = CHR ''-'' \<or> hd s1 = CHR ''+'') then tl s1 else s1);
          v = (if neg then - int (dec_run 0 s2) else int (dec_run 0 s2))
      in if s2 = [] \<or> dec_value (hd s2) = None then None
         else if v < - 2147483648 \<or> 2147483647 < v then None
         else Some v)"

definition mack_sequence :: "receiver \<Rightarrow> mack_message \<Rightarrow> string list" where
  "mack_sequence r mack =
     (let sq = (case map_of OSNMA_TABLE_16 (maclt (kroot_of r)) of
                  Some e \<Rightarrow> (ml_sequence1 e, ml_sequence2 e)
                | None \<Rightarrow> ([], []))
      in if mk_TOW mack mod 60 < 30 then fst sq else snd sq)"

type_synonym macseq_acc = "u8 list \<times> mack_tag_and_info list \<times> u32"

definition macseq_step ::
  "string list \<Rightarrow> mack_tag_and_info list \<Rightarrow> nat \<Rightarrow> macseq_acc \<Rightarrow> macseq_acc option" where
  "macseq_step sq tags i acc =
     (case acc of (flx, verified, failed) \<Rightarrow>
        do { tempADKD \<leftarrow> vget sq (i + 1);
             ti \<leftarrow> vget tags i;
             if tempADKD = ''FLX'' then Some (flx @ [of_nat i], verified, failed)
             else do {
               a \<leftarrow> stoi tempADKD;
               if int (unat (ti_ADKD (mti_tag_info ti))) = a
               then Some (flx, verified @ [ti], failed)
               else Some (flx, verified, failed + 1) } })"

definition macseq_message ::
  "receiver \<Rightarrow> mack_message \<Rightarrow> u8 list \<Rightarrow> u8 list option" where
  "macseq_message r mack flxTags =
     do { let GST_Sfi = d_GST_Sf r - 30;
          infos \<leftarrow> mapM (\<lambda>f. do { ti \<leftarrow> vget (tag_and_info mack) (unat f);
                                 Some [ti_PRN_d (mti_tag_info ti),
                                       push_bit 4 (ti_ADKD (mti_tag_info ti)) OR ti_cop (mti_tag_info ti)] })
                       flxTags;
          Some ([ucast (mk_PRNa mack),
                 ucast (drop_bit 24 (GST_Sfi AND 0xFF000000)), ucast (drop_bit 16 (GST_Sfi AND 0x00FF0000)),
                 ucast (drop_bit 8 (GST_Sfi AND 0x0000FF00)), ucast (GST_Sfi AND 0x000000FF)]
                @ concat infos) }"

definition computed_macseq :: "u8 list \<Rightarrow> u16 option" where
  "computed_macseq mac =
     do { mac_msb \<leftarrow> (if mac \<noteq> [] then
                      do { m0 \<leftarrow> vget mac 0; m1 \<leftarrow> vget mac 1; Some (push_bit 8 (ucast m0) + ucast m1) }
                    else Some 0);
          Some (drop_bit 4 (mac_msb AND 0xFFF0)) }"

definition verify_macseq ::
  "crypto_lib \<Rightarrow> receiver \<Rightarrow> mack_message \<Rightarrow> (mack_tag_and_info list \<times> receiver) option" where
  "verify_macseq L r mack =
     (let key = (case map_of (d_tesla_keys r) (mk_TOW mack + 30) of Some k \<Rightarrow> k | None \<Rightarrow> []);
          sq = mack_sequence r mack;
          tags = tag_and_info mack
      in if length tags + 1 \<noteq> length sq
         then Some ([], r\<lparr>d_count_failed_macseq := d_count_failed_macseq r + of_nat (length tags)\<rparr>)
         else do {
           (flxTags, verified, failed) \<leftarrow>
             foldM (macseq_step sq tags) [0..<length tags] ([], [], d_count_failed_macseq r);
           let r1 = r\<lparr>d_count_failed_macseq := failed\<rparr>;
           if flxTags = [] then Some (verified, r1)
           else do {
             m \<leftarrow> macseq_message r mack flxTags;
             c \<leftarrow> computed_macseq (tag_mac L (mf (kroot_of r)) key m);
             if c = macseq (header mack)
             then do { flx \<leftarrow> mapM (\<lambda>f. vget tags (unat f)) flxTags; Some (verified @ flx, r1) }
             else Some (verified, r1\<lparr>d_count_failed_macseq := failed + of_nat (length flxTags)\<rparr>) } })"

section \<open>The entries of the look-up table\<close>

definition entry_ok :: "string \<Rightarrow> bool" where
  "entry_ok s \<longleftrightarrow> s = ''FLX'' \<or> stoi s \<in> {Some 0, Some 4, Some 12}"

lemma table_16_ok:
  "list_all (\<lambda>(_, e). list_all entry_ok (ml_sequence1 e) \<and> list_all entry_ok (ml_sequence2 e) \<and>
     length (ml_sequence1 e) = unat (ml_nt e) \<and> length (ml_sequence2 e) = unat (ml_nt e) \<and>
     length (ml_sequence1 e) \<le> 10) OSNMA_TABLE_16"
  by code_simp

lemma mack_sequence_ok:
  "list_all entry_ok (mack_sequence r mack) \<and> length (mack_sequence r mack) \<le> 10"
proof (cases "map_of OSNMA_TABLE_16 (maclt (kroot_of r))")
  case None
  then show ?thesis by (simp add: mack_sequence_def Let_def)
next
  case (Some e)
  then have "(maclt (kroot_of r), e) \<in> set OSNMA_TABLE_16" by (rule map_of_SomeD)
  with table_16_ok have "list_all entry_ok (ml_sequence1 e)" "list_all entry_ok (ml_sequence2 e)"
      "length (ml_sequence1 e) \<le> 10" "length (ml_sequence2 e) \<le> 10"
    by (force simp: list_all_iff)+
  with Some show ?thesis by (simp add: mack_sequence_def Let_def)
qed

section \<open>What is verified\<close>

definition fixed_match :: "string list \<Rightarrow> mack_tag_and_info list \<Rightarrow> nat \<Rightarrow> bool" where
  "fixed_match sq tags i \<longleftrightarrow>
     sq ! (i + 1) \<noteq> ''FLX'' \<and> stoi (sq ! (i + 1)) = Some (int (unat (ti_ADKD (mti_tag_info (tags ! i)))))"

lemma macseq_fold:
  assumes "length tags + 1 = length sq" and "list_all entry_ok sq" and "n \<le> length tags"
  shows "\<exists>failed'. foldM (macseq_step sq tags) [0..<n] ([], [], failed) =
    Some (map of_nat (filter (\<lambda>i. sq ! (i + 1) = ''FLX'') [0..<n]),
          map ((!) tags) (filter (fixed_match sq tags) [0..<n]), failed')"
  using assms(3)
proof (induction n)
  case 0
  show ?case by simp
next
  case (Suc n)
  then obtain failed' where ih: "foldM (macseq_step sq tags) [0..<n] ([], [], failed) =
    Some (map of_nat (filter (\<lambda>i. sq ! (i + 1) = ''FLX'') [0..<n]),
          map ((!) tags) (filter (fixed_match sq tags) [0..<n]), failed')"
    by auto
  have n: "n + 1 < length sq" "n < length tags" using Suc.prems assms(1) by auto
  then have ok: "entry_ok (sq ! (n + 1))" using assms(2) by (simp add: list_all_length)
  have up: "[0..<Suc n] = [0..<n] @ [n]" by simp
  show ?case
  proof (cases "sq ! (n + 1) = ''FLX''")
    case True
    then have "\<not> fixed_match sq tags n" by (simp add: fixed_match_def)
    with True show ?thesis using n
      unfolding up foldM_append ih by (simp add: macseq_step_def vec_simps)
  next
    case False
    with ok obtain a where a: "stoi (sq ! (n + 1)) = Some a" by (auto simp: entry_ok_def)
    with False have "fixed_match sq tags n \<longleftrightarrow> int (unat (ti_ADKD (mti_tag_info (tags ! n)))) = a"
      by (auto simp: fixed_match_def)
    then show ?thesis
      using False n a unfolding up foldM_append ih
      by (simp add: macseq_step_def vec_simps)
  qed
qed

lemma computed_macseq_spec:
  assumes "2 \<le> length mac"
  shows "computed_macseq mac = Some (of_nat (bit_field mac 0 12))"
proof -
  have f: "bit_field mac 0 12 = unat (mac ! 0) * 16 + unat (mac ! 1) div 16"
    by (rule fld_head12; use assms in simp)
  have m: "(0xFFF0 :: u16) = push_bit 4 (mask 12)" by (simp add: mask_eq_exp_minus_1)
  let ?v = "unat (mac ! 0) * 256 + unat (mac ! 1)"
  have lt: "?v < 65536" using unat_u8_le[of "mac ! 0"] unat_u8_le[of "mac ! 1"] by linarith
  have w: "push_bit 8 (ucast (mac ! 0)) + ucast (mac ! 1) = (of_nat ?v :: u16)"
    by (simp only: push_ucast_of_nat of_nat_add ucast_of_nat) simp
  have "unat (of_nat ?v :: u16) = ?v" using lt by (simp only: unat_of_nat) simp
  then have "unat (drop_bit 4 (of_nat ?v AND 0xFFF0) :: u16) = ?v div 16 mod 4096"
    unfolding m by (simp only: unat_masked_field) simp
  also have "\<dots> = unat (mac ! 0) * 16 + unat (mac ! 1) div 16"
  proof -
    have "?v div 16 < 4096" using lt by (simp add: less_mult_imp_div_less)
    then show ?thesis by (simp only: nib_div) simp
  qed
  finally have "drop_bit 4 (of_nat ?v AND 0xFFF0) = (of_nat (bit_field mac 0 12) :: u16)"
    unfolding f by (metis of_nat_unat ucast_id)
  moreover have "mac \<noteq> []" "0 < length mac" "1 < length mac" using assms by auto
  ultimately show ?thesis by (simp add: computed_macseq_def vec_simps push_bit_eq_mult)
qed

lemma macseq_message_total:
  assumes "list_all (\<lambda>f. unat f < length (tag_and_info mack)) flx"
  shows "\<exists>m. macseq_message r mack flx = Some m"
proof -
  have "mapM (\<lambda>f. do { ti \<leftarrow> vget (tag_and_info mack) (unat f);
        Some [ti_PRN_d (mti_tag_info ti), push_bit 4 (ti_ADKD (mti_tag_info ti)) OR ti_cop (mti_tag_info ti)] }) flx
      \<noteq> None"
    using assms by (auto simp: mapM_None_iff list_all_iff vec_simps)
  then show ?thesis by (auto simp: macseq_message_def Let_def)
qed

lemma macseq_answer:
  assumes "crypto_ok L" and "mf (kroot_of r) < 2"
  shows "\<exists>ts r' m. verify_macseq L r mack = Some (ts, r') \<and>
    (let sq = mack_sequence r mack; tags = tag_and_info mack; n = length tags;
         fixed = map ((!) tags) (filter (fixed_match sq tags) [0..<n]);
         flx = filter (\<lambda>i. sq ! (i + 1) = ''FLX'') [0..<n];
         key = (case map_of (d_tesla_keys r) (mk_TOW mack + 30) of Some k \<Rightarrow> k | None \<Rightarrow> []);
         mac = tag_mac L (mf (kroot_of r)) key m
     in ts = (if length sq \<noteq> n + 1 then []
              else fixed @ (if flx \<noteq> [] \<and> macseq (header mack) = of_nat (bit_field mac 0 12)
                            then map ((!) tags) flx else [])) \<and>
        (length sq = n + 1 \<and> flx \<noteq> [] \<longrightarrow> macseq_message r mack (map of_nat flx) = Some m))"
proof -
  let ?sq = "mack_sequence r mack" and ?tags = "tag_and_info mack"
  let ?n = "length ?tags"
  let ?flx = "filter (\<lambda>i. ?sq ! (i + 1) = ''FLX'') [0..<?n]"
  let ?fw = "map of_nat ?flx :: u8 list"
  show ?thesis
  proof (cases "length ?sq = ?n + 1")
    case False
    then show ?thesis by (auto simp: verify_macseq_def Let_def)
  next
    case len: True
    note ok = mack_sequence_ok[of r mack]
    obtain failed' where fold: "foldM (macseq_step ?sq ?tags) [0..<?n] ([], [], d_count_failed_macseq r) =
        Some (?fw, map ((!) ?tags) (filter (fixed_match ?sq ?tags) [0..<?n]), failed')"
      using macseq_fold[of ?tags ?sq ?n] len ok by auto
    have un: "unat (of_nat i :: u8) = i" if "i \<in> set ?flx" for i
    proof -
      have "i < 2 ^ LENGTH(8)" using that len ok by auto
      then show ?thesis by (rule unat_of_nat_less)
    qed
    then have "list_all (\<lambda>f. unat f < ?n) ?fw" by (auto simp: list_all_iff)
    then obtain m where m: "macseq_message r mack ?fw = Some m"
      using macseq_message_total by blast
    have flx_get: "mapM (\<lambda>f. vget ?tags (unat f)) ?fw = Some (map ((!) ?tags) ?flx)"
    proof -
      have "mapM (\<lambda>f. vget ?tags (unat f)) ?fw = Some (map (\<lambda>f. ?tags ! unat f) ?fw)"
        by (rule mapM_Some_map) (use un in \<open>auto simp: vget_def\<close>)
      then show ?thesis using un by simp
    qed
    let ?key = "case map_of (d_tesla_keys r) (mk_TOW mack + 30) of Some k \<Rightarrow> k | None \<Rightarrow> []"
    have "2 \<le> length (tag_mac L (mf (kroot_of r)) ?key m)"
      using tag_mac_length[OF assms, of ?key m] by linarith
    from computed_macseq_spec[OF this]
    have "\<exists>ts r'. verify_macseq L r mack = Some (ts, r') \<and>
      ts = map ((!) ?tags) (filter (fixed_match ?sq ?tags) [0..<?n]) @
        (if ?flx \<noteq> [] \<and> macseq (header mack) = of_nat (bit_field (tag_mac L (mf (kroot_of r)) ?key m) 0 12)
         then map ((!) ?tags) ?flx else [])"
      using len fold m flx_get by (auto simp: verify_macseq_def Let_def)
    with m len show ?thesis by (auto simp: Let_def)
  qed
qed

text \<open>C19: The answer of the MACSEQ check: when the number of tags is that of the look-up table,
  the tags at fixed positions whose ADKD is the one of the table, followed by all the tags at
  flexible positions exactly when the received MACSEQ is the first twelve bits of the MAC over
  them; with any other number of tags, none. The check never fails to return.\<close>

theorem macseq_verified_tags:
  assumes "crypto_ok L" and "mf (kroot_of r) < 2"
  shows "\<exists>ts r' m. verify_macseq L r mack = Some (ts, r') \<and>
    (let sq = mack_sequence r mack; tags = tag_and_info mack; n = length tags;
         fixed = map ((!) tags) (filter (fixed_match sq tags) [0..<n]);
         flx = filter (\<lambda>i. sq ! (i + 1) = ''FLX'') [0..<n];
         key = (case map_of (d_tesla_keys r) (mk_TOW mack + 30) of Some k \<Rightarrow> k | None \<Rightarrow> []);
         mac = tag_mac L (mf (kroot_of r)) key m
     in ts = (if length sq \<noteq> n + 1 then []
              else fixed @ (if flx \<noteq> [] \<and> macseq (header mack) = of_nat (bit_field mac 0 12)
                            then map ((!) tags) flx else [])) \<and>
        (length sq = n + 1 \<and> flx \<noteq> [] \<longrightarrow> macseq_message r mack (map of_nat flx) = Some m))"
  by (rule macseq_answer[OF assms])

definition sample_mack :: mack_message where
  "sample_mack = default_mack_message
     \<lparr>tag_and_info := map (\<lambda>a. \<lparr>mti_tag = 7, mti_tag_info = \<lparr>ti_PRN_d = 3, ti_ADKD = a, ti_cop = 1\<rparr>,
        mti_counter = 2\<rparr>) [0, 4, 0, 12, 4]\<rparr>"

theorem macseq_verified_tags_witness:
  "\<exists>ts r'. verify_macseq sample_lib sample_receiver sample_mack = Some (ts, r') \<and> length ts = 4"
proof -
  have sq: "mack_sequence sample_receiver sample_mack = [''00S'', ''00E'', ''04S'', ''00E'', ''12S'', ''00E'']"
    by (simp add: mack_sequence_def Let_def sample_mack_def sample_defs OSNMA_TABLE_16_def)
  have tags: "length (tag_and_info sample_mack) = 5" by (simp add: sample_mack_def)
  have st: "stoi ''00E'' = Some 0" "stoi ''04S'' = Some 4" "stoi ''12S'' = Some 12"
    by code_simp+
  have fx: "filter (fixed_match (mack_sequence sample_receiver sample_mack) (tag_and_info sample_mack)) [0..<5] = [0, 1, 2, 3]"
    unfolding sq by (simp add: fixed_match_def sample_mack_def st upt_rec)
  have fl: "filter (\<lambda>i. mack_sequence sample_receiver sample_mack ! (i + 1) = ''FLX'') [0..<5] = []"
    unfolding sq by (simp add: upt_rec)
  have mf: "mf (kroot_of sample_receiver) < 2" by (simp add: sample_defs)
  have len: "length (mack_sequence sample_receiver sample_mack) = 6" by (simp add: sq)
  from macseq_verified_tags[OF crypto_ok_sample mf, of sample_mack] obtain ts r' where
      "verify_macseq sample_lib sample_receiver sample_mack = Some (ts, r')"
      "length ts = length (filter (fixed_match (mack_sequence sample_receiver sample_mack)
         (tag_and_info sample_mack)) [0..<5])"
    unfolding Let_def tags fl len by auto
  then show ?thesis unfolding fx by auto
qed

end
