(* ===== verification/Osnma_Merkle.thy ===== *)
theory Osnma_Merkle
  imports Osnma_Macseq
begin

text \<open>
  The verification of a public key against the Merkle tree: \<open>get_merkle_tree_leaves\<close>,
  \<open>compute_merkle_root\<close> and \<open>verify_dsm_pkr\<close> of \<open>core/libs/osnma_msg_receiver.cc\<close>. The lemmas
  give both directions of the contract: every leaf of the tree with its sibling nodes is
  accepted, and two different accepted messages with one identifier exhibit a collision of the
  hash function.
\<close>

section \<open>Definitions\<close>

definition get_merkle_tree_leaves :: "dsm_pkr_message \<Rightarrow> u8 list" where
  "get_merkle_tree_leaves msg =
     (push_bit 4 (npkt msg AND 0x0F) OR (npktid msg AND 0x0F)) # npk msg"

text \<open>\<open>x_next\<close> of round \<open>i\<close>: the sibling of the message left or right of the current node.\<close>

definition merkle_next :: "dsm_pkr_message \<Rightarrow> nat \<Rightarrow> u8 list \<Rightarrow> u8 list" where
  "merkle_next msg i x_current =
     (let leaf_is_on_right = (drop_bit i (mid msg) AND 1 \<noteq> 0);
          sibling = take 32 (drop (32 * i) (itn msg))
      in if leaf_is_on_right then sibling @ x_current else x_current @ sibling)"

fun merkle_loop :: "crypto_lib \<Rightarrow> dsm_pkr_message \<Rightarrow> nat list \<Rightarrow> u8 list \<Rightarrow> u8 list" where
  "merkle_loop L msg [] x_current = x_current"
| "merkle_loop L msg (i # is) x_current =
     merkle_loop L msg is (lib_sha256 L (merkle_next msg i x_current))"

definition compute_merkle_root :: "crypto_lib \<Rightarrow> dsm_pkr_message \<Rightarrow> u8 list \<Rightarrow> u8 list" where
  "compute_merkle_root L msg m_i = merkle_loop L msg [0, 1, 2, 3] (lib_sha256 L m_i)"

definition verify_dsm_pkr :: "crypto_lib \<Rightarrow> receiver \<Rightarrow> dsm_pkr_message \<Rightarrow> bool" where
  "verify_dsm_pkr L r msg \<longleftrightarrow>
     compute_merkle_root L msg (get_merkle_tree_leaves msg) = get_merkle_root (d_crypto r)"

section \<open>Completeness\<close>

text \<open>The tree over the leaves of the Galileo service centre: level 0 has the hashes of the
  leaves, a node hashes its two children.\<close>

fun tree_node :: "crypto_lib \<Rightarrow> (nat \<Rightarrow> u8 list) \<Rightarrow> nat \<Rightarrow> nat \<Rightarrow> u8 list" where
  "tree_node L leaf 0 i = lib_sha256 L (leaf i)"
| "tree_node L leaf (Suc l) i = lib_sha256 L (tree_node L leaf l (2 * i) @ tree_node L leaf l (2 * i + 1))"

definition sibling :: "nat \<Rightarrow> nat" where
  "sibling i = (if i mod 2 = 0 then i + 1 else i - 1)"

lemma length_tree_node: "crypto_ok L \<Longrightarrow> length (tree_node L leaf l i) = 32"
  by (cases l) (simp_all add: crypto_ok_def)

declare tree_node.simps [simp del]

definition path_nodes :: "crypto_lib \<Rightarrow> (nat \<Rightarrow> u8 list) \<Rightarrow> nat \<Rightarrow> u8 list" where
  "path_nodes L leaf i =
     tree_node L leaf 0 (sibling i) @ tree_node L leaf 1 (sibling (i div 2)) @
     tree_node L leaf 2 (sibling (i div 4)) @ tree_node L leaf 3 (sibling (i div 8))"

lemma right_iff: "drop_bit k (w :: u8) AND 1 \<noteq> 0 \<longleftrightarrow> unat w div 2 ^ k mod 2 = 1"
proof -
  have "drop_bit k w AND 1 \<noteq> 0 \<longleftrightarrow> bit w k"
    by (simp add: and_one_eq bit_iff_odd_drop_bit odd_iff_mod_2_eq_one)
  also have "\<dots> \<longleftrightarrow> bit (unat w) k" by (auto simp: bit_unsigned_iff dest: bit_imp_le_length)
  finally show ?thesis by (simp add: bit_iff_odd odd_iff_mod_2_eq_one)
qed

lemma merkle_next_node:
  assumes "take 32 (drop (32 * k) (itn msg)) = tree_node L leaf k (sibling (unat (mid msg) div 2 ^ k))"
  shows "lib_sha256 L (merkle_next msg k (tree_node L leaf k (unat (mid msg) div 2 ^ k))) =
           tree_node L leaf (Suc k) (unat (mid msg) div 2 ^ Suc k)"
proof -
  let ?j = "unat (mid msg) div 2 ^ k"
  have half: "unat (mid msg) div 2 ^ Suc k = ?j div 2"
    using div_mult2_eq[of "unat (mid msg)" "2 ^ k" 2] by (simp add: mult.commute)
  show ?thesis
  proof (cases "?j mod 2 = 1")
    case True
    then have "sibling ?j = 2 * (?j div 2)" "?j = 2 * (?j div 2) + 1"
      using div_mult_mod_eq[of ?j 2] by (simp_all add: sibling_def)
    with True assms show ?thesis
      unfolding half by (simp add: merkle_next_def Let_def right_iff tree_node.simps)
  next
    case False
    then have m0: "?j mod 2 = 0" by simp
    then have "sibling ?j = 2 * (?j div 2) + 1" "?j = 2 * (?j div 2)"
      using div_mult_mod_eq[of ?j 2] by (simp_all add: sibling_def)
    with m0 assms show ?thesis
      unfolding half by (simp add: merkle_next_def Let_def right_iff tree_node.simps)
  qed
qed

lemma merkle_step:
  assumes "take 32 (drop (32 * k) (itn msg)) = tree_node L leaf k (sibling (unat (mid msg) div p))"
    and "p = 2 ^ k" and "k' = Suc k" and "p' = p * 2"
  shows "lib_sha256 L (merkle_next msg k (tree_node L leaf k (unat (mid msg) div p))) =
           tree_node L leaf k' (unat (mid msg) div p')"
  using merkle_next_node[of k msg L leaf] assms by (simp add: mult.commute)

text \<open>C11: Every key of the tree is accepted: a message that carries one of the sixteen leaves,
  its number and the four sibling nodes on the way to the root verifies against the root.\<close>

theorem merkle_complete:
  assumes "crypto_ok L" and "unat (mid msg) < 16"
    and "get_merkle_tree_leaves msg = leaf (unat (mid msg))"
    and "itn msg = path_nodes L leaf (unat (mid msg))"
    and "get_merkle_root (d_crypto r) = tree_node L leaf 4 0"
  shows "verify_dsm_pkr L r msg"
proof -
  let ?i = "unat (mid msg)"
  note len = length_tree_node[OF assms(1)]
  have path: "take 32 (drop (32 * k) (itn msg)) = tree_node L leaf k (sibling (?i div 2 ^ k))"
    if "k \<in> {0, 1, 2, 3}" for k
    using that by (auto simp: assms(4) path_nodes_def len)
  have r: "lib_sha256 L (merkle_next msg 0 (tree_node L leaf 0 (?i div 1))) = tree_node L leaf 1 (?i div 2)"
    "lib_sha256 L (merkle_next msg 1 (tree_node L leaf 1 (?i div 2))) = tree_node L leaf 2 (?i div 4)"
    "lib_sha256 L (merkle_next msg 2 (tree_node L leaf 2 (?i div 4))) = tree_node L leaf 3 (?i div 8)"
    "lib_sha256 L (merkle_next msg 3 (tree_node L leaf 3 (?i div 8))) = tree_node L leaf 4 (?i div 16)"
    by (rule merkle_step; use path[of 0] path[of 1] path[of 2] path[of 3] in simp)+
  have "?i div 16 = 0" using assms(2) by simp
  then have "compute_merkle_root L msg (get_merkle_tree_leaves msg) = tree_node L leaf 4 0"
    using r by (simp add: compute_merkle_root_def assms(3) tree_node.simps(1))
  with assms(5) show ?thesis by (simp add: verify_dsm_pkr_def)
qed

definition sample_pkr :: dsm_pkr_message where
  "sample_pkr = default_pkr_message
     \<lparr>npk := replicate 33 5, npkt := 1, npktid := 2, mid := 3, itn := replicate 128 0xAB\<rparr>"

theorem merkle_complete_witness:
  "verify_dsm_pkr sample_lib (sample_receiver\<lparr>d_crypto := set_merkle_root (replicate 32 0xAB) sample_crypto\<rparr>)
     sample_pkr"
proof -
  have node: "tree_node sample_lib leaf l i = replicate 32 0xAB" for leaf l i
    by (cases l) (simp_all add: sample_lib_def tree_node.simps)
  show ?thesis
    by (rule merkle_complete[OF crypto_ok_sample, where leaf = "\<lambda>_. get_merkle_tree_leaves sample_pkr"])
      (simp_all add: path_nodes_def node sample_pkr_def get_merkle_root_def set_merkle_root_def
        replicate_add[symmetric])
qed

section \<open>Binding\<close>

text \<open>The five inputs of the hash function on the way to the root.\<close>

fun merkle_inputs :: "crypto_lib \<Rightarrow> dsm_pkr_message \<Rightarrow> nat list \<Rightarrow> u8 list \<Rightarrow> u8 list list" where
  "merkle_inputs L msg [] x = [x]"
| "merkle_inputs L msg (i # is) x = x # merkle_inputs L msg is (merkle_next msg i (lib_sha256 L x))"

definition hash_inputs :: "crypto_lib \<Rightarrow> dsm_pkr_message \<Rightarrow> u8 list list" where
  "hash_inputs L msg = merkle_inputs L msg [0, 1, 2, 3] (get_merkle_tree_leaves msg)"

lemma merkle_next_inject:
  assumes "mid a = mid b" and "length x = length y" and "merkle_next a i x = merkle_next b i y"
    and "length (itn a) = length (itn b)"
  shows "x = y \<and> take 32 (drop (32 * i) (itn a)) = take 32 (drop (32 * i) (itn b))"
  using assms by (auto simp: merkle_next_def Let_def split: if_splits)

definition collides :: "crypto_lib \<Rightarrow> u8 list \<Rightarrow> u8 list \<Rightarrow> bool" where
  "collides L x y \<longleftrightarrow> x \<noteq> y \<and> lib_sha256 L x = lib_sha256 L y"

lemma merkle_inputs_bind:
  assumes "crypto_ok L" "mid a = mid b" "length (itn a) = length (itn b)"
    and "lib_sha256 L (last (merkle_inputs L a is x)) = lib_sha256 L (last (merkle_inputs L b is y))"
    and "list_all (\<lambda>(u, v). \<not> collides L u v) (zip (merkle_inputs L a is x) (merkle_inputs L b is y))"
  shows "x = y \<and> (\<forall>i \<in> set is. take 32 (drop (32 * i) (itn a)) = take 32 (drop (32 * i) (itn b)))"
  using assms(4,5)
proof (induction "is" arbitrary: x y)
  case Nil
  then show ?case by (simp add: collides_def)
next
  case (Cons i "is")
  have ne: "merkle_inputs L m is z \<noteq> []" for m z by (cases "is") simp_all
  have "merkle_next a i (lib_sha256 L x) = merkle_next b i (lib_sha256 L y) \<and>
      (\<forall>i \<in> set is. take 32 (drop (32 * i) (itn a)) = take 32 (drop (32 * i) (itn b)))"
    using Cons.prems ne by (intro Cons.IH) simp_all
  moreover have "length (lib_sha256 L x) = length (lib_sha256 L y)"
    using assms(1) by (simp add: crypto_ok_def)
  ultimately have "lib_sha256 L x = lib_sha256 L y" and
      "\<forall>i \<in> set (i # is). take 32 (drop (32 * i) (itn a)) = take 32 (drop (32 * i) (itn b))"
    using merkle_next_inject[OF assms(2) _ _ assms(3), of "lib_sha256 L x" "lib_sha256 L y" i] by auto
  with Cons.prems(2) show ?case by (auto simp: collides_def)
qed

lemma root_of_inputs:
  "compute_merkle_root L msg (get_merkle_tree_leaves msg) = lib_sha256 L (last (hash_inputs L msg))"
proof -
  have "merkle_loop L msg is (lib_sha256 L x) = lib_sha256 L (last (merkle_inputs L msg is x))" for "is" x
  proof (induction "is" arbitrary: x)
    case Nil
    show ?case by simp
  next
    case (Cons i "is")
    have "merkle_inputs L m is z \<noteq> []" for m z by (cases "is") simp_all
    with Cons show ?case by simp
  qed
  then show ?thesis by (simp add: compute_merkle_root_def hash_inputs_def)
qed

text \<open>C6: The root binds the key: if two messages with the same identifier are both accepted,
  they carry the same key type, key identifier, key and sibling nodes, or two of the five
  inputs hashed for them on the same level are a collision of SHA-256.\<close>

theorem merkle_binding:
  assumes "crypto_ok L" and "verify_dsm_pkr L r a" and "verify_dsm_pkr L r b"
    and "mid a = mid b" and "length (itn a) = 128" and "length (itn b) = 128"
    and "list_all (\<lambda>(u, v). \<not> collides L u v) (zip (hash_inputs L a) (hash_inputs L b))"
  shows "npk a = npk b \<and> npkt a AND 0x0F = npkt b AND 0x0F \<and>
         npktid a AND 0x0F = npktid b AND 0x0F \<and> itn a = itn b"
proof -
  have "lib_sha256 L (last (hash_inputs L a)) = lib_sha256 L (last (hash_inputs L b))"
    using assms(2,3) by (simp add: verify_dsm_pkr_def root_of_inputs)
  from merkle_inputs_bind[OF assms(1,4) _ this[unfolded hash_inputs_def] assms(7)[unfolded hash_inputs_def]]
  have leaf: "get_merkle_tree_leaves a = get_merkle_tree_leaves b"
    and sib: "\<forall>i \<in> set [0, 1, 2, 3]. take 32 (drop (32 * i) (itn a)) = take 32 (drop (32 * i) (itn b))"
    using assms(5,6) by auto
  let ?cat = "\<lambda>x :: u8 list. take 32 (drop (32 * 0) x) @ take 32 (drop (32 * 1) x) @
      take 32 (drop (32 * 2) x) @ take 32 (drop (32 * 3) x)"
  have cat: "?cat x = x" if "length x = 128" for x :: "u8 list"
    using that by (intro nth_equalityI) (auto simp: nth_append)
  have "?cat (itn a) = ?cat (itn b)" using sib by simp
  then have "itn a = itn b" using cat[OF assms(5)] cat[OF assms(6)] by (simp only:)
  moreover from leaf have "npk a = npk b" by (simp add: get_merkle_tree_leaves_def)
  moreover have "npkt a AND 0x0F = npkt b AND 0x0F \<and> npktid a AND 0x0F = npktid b AND 0x0F"
  proof -
    from leaf have w: "push_bit 4 (npkt a AND 0x0F) OR (npktid a AND 0x0F) =
        push_bit 4 (npkt b AND 0x0F) OR (npktid b AND 0x0F)"
      by (simp add: get_merkle_tree_leaves_def)
    have m: "(0x0F :: u8) = mask 4" by (simp add: mask_eq_exp_minus_1)
    have hi: "drop_bit 4 (push_bit 4 (p AND mask 4) OR (q AND mask 4)) = (p AND mask 4 :: u8)" for p q
      by (rule bit_word_eqI) (auto simp: bit_simps)
    have lo: "(push_bit 4 (p AND mask 4) OR (q AND mask 4)) AND mask 4 = (q AND mask 4 :: u8)" for p q
      by (rule bit_word_eqI) (auto simp: bit_simps)
    from w show ?thesis unfolding m by (metis hi lo)
  qed
  ultimately show ?thesis by simp
qed

theorem merkle_binding_witness:
  "npk sample_pkr = npk (sample_pkr\<lparr>npktid := 0x12\<rparr>)"
proof -
  let ?r = "sample_receiver\<lparr>d_crypto := set_merkle_root (replicate 32 0xAB) sample_crypto\<rparr>"
  have leaf: "get_merkle_tree_leaves (sample_pkr\<lparr>npktid := 0x12\<rparr>) = get_merkle_tree_leaves sample_pkr"
    by (simp add: get_merkle_tree_leaves_def sample_pkr_def)
  have same: "hash_inputs sample_lib (sample_pkr\<lparr>npktid := 0x12\<rparr>) = hash_inputs sample_lib sample_pkr"
    unfolding hash_inputs_def leaf by (simp add: merkle_next_def)
  have v: "verify_dsm_pkr sample_lib ?r m" for m
    by (simp add: verify_dsm_pkr_def compute_merkle_root_def get_merkle_root_def set_merkle_root_def sample_lib_def)
  have "list_all (\<lambda>(u, v). \<not> collides sample_lib u v)
      (zip (hash_inputs sample_lib sample_pkr) (hash_inputs sample_lib (sample_pkr\<lparr>npktid := 0x12\<rparr>)))"
    unfolding same by (simp add: hash_inputs_def collides_def)
  from merkle_binding[OF crypto_ok_sample v v _ _ _ this] show ?thesis
    by (simp add: sample_pkr_def)
qed

end
