(* ===== verification/Osnma_Dsm.thy ===== *)
theory Osnma_Dsm
  imports Osnma_Merkle
begin

text \<open>
  The DSM part of the receiver: headers, collection of blocks, and the processing of a complete
  DSM-KROOT or DSM-PKR message (\<open>read_nma_header\<close>, \<open>read_dsm_header\<close>, \<open>read_dsm_block\<close>,
  \<open>process_dsm_block\<close>, \<open>process_dsm_message\<close>, \<open>store_dsm_kroot\<close> of
  \<open>core/libs/osnma_msg_receiver.cc\<close>).
\<close>

section \<open>Headers\<close>

definition read_nma_header :: "u8 \<Rightarrow> receiver \<Rightarrow> receiver" where
  "read_nma_header h r =
     r\<lparr>d_osnma_data := (d_osnma_data r)\<lparr>d_nma_header :=
        \<lparr>nmas = get_nmas h, cid = get_cid h, cpks = get_cpks h,
         nma_reserved = get_nma_header_reserved h\<rparr>\<rparr>\<rparr>"

definition read_dsm_header :: "u8 \<Rightarrow> receiver \<Rightarrow> receiver" where
  "read_dsm_header h r =
     r\<lparr>d_osnma_data := (d_osnma_data r)\<lparr>d_dsm_header :=
        \<lparr>dsm_id = get_dsm_id h, dsm_block_id = get_dsm_block_id h\<rparr>\<rparr>\<rparr>"

section \<open>Blocks\<close>

text \<open>The copy loop; the flag tells whether it ran to its end.\<close>

fun copy_block :: "u8 list \<Rightarrow> nat \<Rightarrow> u8 list \<Rightarrow> bool \<times> u8 list" where
  "copy_block buf pos [] = (True, buf)"
| "copy_block buf pos (b # bs) =
     (if pos < length buf then copy_block (buf[pos := b]) (Suc pos) bs else (False, buf))"

definition blocks_of_message :: "u8 \<Rightarrow> u8 \<Rightarrow> u16" where
  "blocks_of_message dsmid nb =
     (if dsmid < 12 then fst (table_lookup (0, 0) OSNMA_TABLE_7 nb)
      else fst (table_lookup (0, 0) OSNMA_TABLE_3 nb))"

definition read_dsm_block :: "osnma_msg \<Rightarrow> receiver \<Rightarrow> receiver option" where
  "read_dsm_block msg r =
     (if length (om_hkroot msg) \<le> 2 then Some r
      else do {
        let did = unat (dsm_id (dsm_header_of r));
        let bid = unat (dsm_block_id (dsm_header_of r));
        let offset = SIZE_DSM_BLOCKS_BYTES * bid;
        dsm_buf \<leftarrow> vget (d_dsm_message r) did;
        let (finished, dsm_buf) = copy_block dsm_buf offset (drop 2 (om_hkroot msg));
        let r = r\<lparr>d_dsm_message := (d_dsm_message r)[did := dsm_buf]\<rparr>;
        if \<not> finished then Some r
        else if bid = 0 \<and> 16 \<le> did then Some r
        else do {
          r \<leftarrow> (if bid = 0 then
                  do { b0 \<leftarrow> vget dsm_buf 0;
                       let number_of_blocks =
                         blocks_of_message (dsm_id (dsm_header_of r)) (get_number_blocks_index b0);
                       nbs \<leftarrow> vput (d_number_of_blocks r) did number_of_blocks;
                       let r = r\<lparr>d_number_of_blocks := nbs\<rparr>;
                       if number_of_blocks = 0
                       then do { ids \<leftarrow> vput (d_dsm_id_received r) did (replicate 16 0);
                                 Some (r\<lparr>d_dsm_message := (d_dsm_message r)[did := replicate 256 0],
                                         d_dsm_id_received := ids\<rparr>) }
                       else Some r }
                else Some r);
          ids \<leftarrow> vget (d_dsm_id_received r) did;
          blocks \<leftarrow> vput ids bid 1;
          nb \<leftarrow> vget (d_number_of_blocks r) did;
          logged \<leftarrow> vread blocks 0 (if nb = 0 then length blocks else unat nb);
          Some (r\<lparr>d_dsm_id_received := (d_dsm_id_received r)[did := blocks]\<rparr>) } })"

section \<open>DSM-KROOT\<close>

text \<open>The chosen message is a reference in the code: this writes it back.\<close>

definition set_kroot :: "bool \<Rightarrow> dsm_kroot_message \<Rightarrow> receiver \<Rightarrow> receiver" where
  "set_kroot new_chain kr r =
     (if new_chain then r\<lparr>d_osnma_data := (d_osnma_data r)\<lparr>d_dsm_kroot_new_message := kr\<rparr>\<rparr>
      else r\<lparr>d_osnma_data := (d_osnma_data r)\<lparr>d_dsm_kroot_message := kr\<rparr>\<rparr>)"

definition kroot_ds_bits :: "receiver \<Rightarrow> u16" where
  "kroot_ds_bits r = table_lookup 0 OSNMA_TABLE_15 (get_public_key_type (d_crypto r))"

definition parse_kroot ::
  "receiver \<Rightarrow> u8 list \<Rightarrow> dsm_kroot_message \<Rightarrow> (dsm_kroot_message \<times> u16 \<times> u16 \<times> u16) option" where
  "parse_kroot r dsm_msg kr =
     do { b0 \<leftarrow> vget dsm_msg 0;
          v_pkid \<leftarrow> get_pkid dsm_msg;
          v_cidkr \<leftarrow> get_cidkr dsm_msg;
          v_res1 \<leftarrow> get_dsm_reserved1 dsm_msg;
          v_hf \<leftarrow> get_hf dsm_msg;
          v_mf \<leftarrow> get_mf dsm_msg;
          v_ks \<leftarrow> get_ks dsm_msg;
          v_ts \<leftarrow> get_ts dsm_msg;
          v_maclt \<leftarrow> get_maclt dsm_msg;
          v_res \<leftarrow> get_dsm_reserved dsm_msg;
          v_wn \<leftarrow> get_wn_k dsm_msg;
          v_towh \<leftarrow> get_towh_k dsm_msg;
          v_alpha \<leftarrow> get_alpha dsm_msg;
          let l_lk_bytes = get_lk_bits v_ks div 8;
          v_kroot \<leftarrow> get_kroot dsm_msg l_lk_bytes;
          let l_ds_bytes = kroot_ds_bits r div 8;
          v_ds \<leftarrow> vread dsm_msg (13 + unat l_lk_bytes) (unat l_ds_bytes);
          let l_dk_bytes = get_l_dk_bits (get_number_blocks_index b0) div 8;
          let l_pdk_bytes = l_dk_bytes - 13 - l_lk_bytes - l_ds_bytes;
          v_pdk \<leftarrow> vread dsm_msg (13 + unat l_lk_bytes + unat l_ds_bytes) (unat l_pdk_bytes);
          Some (kr\<lparr>nb_dk := get_number_blocks_index b0, pkid := v_pkid, cidkr := v_cidkr,
                   kr_reserved1 := v_res1, hf := v_hf, mf := v_mf, ks := v_ks, ts := v_ts,
                   maclt := v_maclt, kr_reserved := v_res, wn_k := v_wn, towh_k := v_towh,
                   alpha := v_alpha, kroot := v_kroot, ds := v_ds, p_dk := v_pdk\<rparr>,
                l_lk_bytes, l_ds_bytes, l_pdk_bytes) }"

text \<open>\<open>104 * ceil(1.0 + float(8 l_lk_bytes + l_ds_bits) / 104.0)\<close>; the floating-point value is
  exact for the sizes of the tables.\<close>

definition check_l_dk :: "u16 \<Rightarrow> u16 \<Rightarrow> u16" where
  "check_l_dk l_lk_bytes l_ds_bits =
     of_nat (104 * (1 + (unat l_lk_bytes * 8 + unat l_ds_bits + 103) div 104))"

text \<open>The file of the root key after a successful write.\<close>

definition store_dsm_kroot :: "u8 list \<Rightarrow> u8 \<Rightarrow> receiver \<Rightarrow> receiver" where
  "store_dsm_kroot dsm nma_header r = r\<lparr>kroot_file := Some (nma_header, dsm)\<rparr>"

text \<open>The result of \<open>parse_dsm_kroot\<close>: an empty message when there is no file.\<close>

definition parse_dsm_kroot :: "(u8 \<times> u8 list) option \<Rightarrow> u8 list \<times> u8" where
  "parse_dsm_kroot file = (case file of None \<Rightarrow> ([], 0) | Some (h, dsm) \<Rightarrow> (dsm, h))"

definition renew_public_key :: "crypto_lib \<Rightarrow> dsm_kroot_message \<Rightarrow> receiver \<Rightarrow> receiver" where
  "renew_public_key L kr r =
     (if d_flag_PK_renewal r \<and> pkid kr = d_new_public_key_id r \<and> \<not> d_flag_NPK_set r
      then let c = set_public_key L (d_new_public_key r) (d_crypto r) in
           r\<lparr>d_crypto := c, pem_file := store_public_key c (pem_file r), d_flag_NPK_set := True\<rparr>
      else r)"

text \<open>The part behind the padding check. The first result tells whether the code returned from
  the middle of the function.\<close>

definition authenticate_kroot ::
  "crypto_lib \<Rightarrow> bool \<Rightarrow> dsm_kroot_message \<Rightarrow> u16 \<Rightarrow> u8 list \<Rightarrow> u8 list \<Rightarrow> u8 \<Rightarrow> receiver \<Rightarrow> bool \<times> receiver" where
  "authenticate_kroot L new_chain kr l_ds_bits message dsm_msg nma_header r0 =
     (let r1 = renew_public_key L kr r0;
          r2 = (if l_ds_bits = 512
                then r1\<lparr>d_kroot_verified := verify_signature_ecdsa_p256 L (d_crypto r1) message (ds kr)\<rparr>
                else if l_ds_bits = 1056
                then r1\<lparr>d_kroot_verified := verify_signature_ecdsa_p521 L (d_crypto r1) message (ds kr)\<rparr>
                else r1)
      in if d_kroot_verified r2 then
           let r3 = set_kroot new_chain (kr\<lparr>kr_verified := True\<rparr>) r2 in
           if d_flag_hot_start r3 then (True, r3\<lparr>d_flag_hot_start := False\<rparr>)
           else (False, store_dsm_kroot dsm_msg nma_header r3)
         else (False, r2\<lparr>d_flag_alert_message := False,
                         d_count_failed_Kroot := d_count_failed_Kroot r2 + 1\<rparr>))"

definition count_failed_kroot :: "receiver \<Rightarrow> receiver" where
  "count_failed_kroot r = r\<lparr>d_count_failed_Kroot := d_count_failed_Kroot r + 1\<rparr>"

definition kroot_is_new_chain :: "receiver \<Rightarrow> u8 \<Rightarrow> bool" where
  "kroot_is_new_chain r c \<longleftrightarrow> c \<noteq> cid (nma_of r) \<and> d_flag_chain_renewal r"

definition applicable_kroot :: "receiver \<Rightarrow> bool \<Rightarrow> dsm_kroot_message" where
  "applicable_kroot r new_chain =
     (if new_chain then d_dsm_kroot_new_message (d_osnma_data r) else kroot_of r)"

definition process_dsm_kroot ::
  "crypto_lib \<Rightarrow> u8 list \<Rightarrow> u8 \<Rightarrow> receiver \<Rightarrow> (bool \<times> receiver) option" where
  "process_dsm_kroot L dsm_msg nma_header r =
     do { c \<leftarrow> get_cidkr dsm_msg;
          let new_chain = kroot_is_new_chain r c;
          let l_ds_bits = kroot_ds_bits r;
          (kr, l_lk_bytes, l_ds_bytes, l_pdk_bytes) \<leftarrow> parse_kroot r dsm_msg (applicable_kroot r new_chain);
          let r1 = set_kroot new_chain kr r;
          if get_l_dk_bits (nb_dk kr) \<noteq> check_l_dk l_lk_bytes l_ds_bits
          then Some (False, count_failed_kroot r1)
          else do {
            fields \<leftarrow> vread dsm_msg 1 (unat (13 + l_lk_bytes) - 1);
            let message = nma_header # fields;
            let hash = chain_hash L (hf kr) (message @ ds kr);
            p_dk_truncated \<leftarrow> vread hash 0 (unat l_pdk_bytes);
            if p_dk kr \<noteq> p_dk_truncated then Some (False, count_failed_kroot r1)
            else Some (authenticate_kroot L new_chain kr l_ds_bits message dsm_msg nma_header r1) } }"

section \<open>DSM-PKR\<close>

text \<open>The key type of a message, and its key length in bytes.\<close>

definition pkr_key_type :: "u8 \<Rightarrow> string" where
  "pkr_key_type t = table_lookup [] OSNMA_TABLE_5 t"

definition pkr_key_bytes :: "u8 \<Rightarrow> u32" where
  "pkr_key_bytes t = ucast (table_lookup 0 OSNMA_TABLE_6 (pkr_key_type t) div 8)"

text \<open>\<open>104 * ceil(float(1040 + 8 l_npk_bytes) / 104.0) / 8\<close>\<close>

definition check_l_dp_bytes :: "u32 \<Rightarrow> u32" where
  "check_l_dp_bytes l_npk_bytes = of_nat (13 * ((1040 + unat l_npk_bytes * 8 + 103) div 104))"

definition parse_pkr ::
  "u8 list \<Rightarrow> dsm_pkr_message \<Rightarrow> (dsm_pkr_message \<times> u32 \<times> u32) option" where
  "parse_pkr dsm_msg p =
     do { b0 \<leftarrow> vget dsm_msg 0;
          v_mid \<leftarrow> get_mid dsm_msg;
          v_itn \<leftarrow> vread dsm_msg 1 128;
          v_npkt \<leftarrow> get_npkt dsm_msg;
          v_npktid \<leftarrow> get_npktid dsm_msg;
          let l_dp_bytes = of_nat (length dsm_msg);
          let l_npk_bytes = (if v_npkt = 4 \<and> v_npktid = 0 then l_dp_bytes - 130
                             else pkr_key_bytes v_npkt);
          v_npk \<leftarrow> vread dsm_msg 130 (unat l_npk_bytes);
          Some (p\<lparr>nb_dp := get_number_blocks_index b0, mid := v_mid, itn := v_itn, npkt := v_npkt,
                  npktid := v_npktid, npk := v_npk\<rparr>, l_dp_bytes, l_npk_bytes) }"

definition set_pkr :: "dsm_pkr_message \<Rightarrow> receiver \<Rightarrow> receiver" where
  "set_pkr p r = r\<lparr>d_osnma_data := (d_osnma_data r)\<lparr>d_dsm_pkr_message := p\<rparr>\<rparr>"

definition accept_pkr :: "crypto_lib \<Rightarrow> dsm_pkr_message \<Rightarrow> receiver \<Rightarrow> receiver" where
  "accept_pkr L p r =
     (let r = r\<lparr>d_public_key_verified := True\<rparr> in
      if d_flag_PK_renewal r then r\<lparr>d_new_public_key := npk p\<rparr>
      else if d_flag_alert_message r then r
      else let c = set_public_key L (npk p) (set_public_key_type (pkr_key_type (npkt p)) (d_crypto r)) in
           r\<lparr>d_crypto := c, pem_file := store_public_key c (pem_file r)\<rparr>)"

definition process_dsm_pkr :: "crypto_lib \<Rightarrow> u8 list \<Rightarrow> receiver \<Rightarrow> receiver option" where
  "process_dsm_pkr L dsm_msg r =
     do { (p, l_dp_bytes, l_npk_bytes) \<leftarrow> parse_pkr dsm_msg (pkr_of r);
          let r = (if d_flag_PK_renewal r \<and> npktid p > npktid (pkr_of r)
                   then r\<lparr>d_new_public_key_id := npktid p\<rparr> else r);
          let r = set_pkr p r;
          let l_pd_bytes = l_dp_bytes - 130 - l_npk_bytes;
          if l_dp_bytes \<noteq> check_l_dp_bytes l_npk_bytes
          then Some (r\<lparr>d_flag_alert_message := False\<rparr>)
          else do {
            v_pdp \<leftarrow> vread dsm_msg (unat (l_dp_bytes - l_pd_bytes)) (unat l_pd_bytes);
            let p = p\<lparr>p_dp := v_pdp\<rparr>;
            let r = set_pkr p r;
            if verify_dsm_pkr L r p then Some (accept_pkr L p r)
            else Some (r\<lparr>d_public_key_verified := False,
                         d_count_failed_pubKey := d_count_failed_pubKey r + 1,
                         d_flag_alert_message := False\<rparr>) } }"

section \<open>A complete message\<close>

definition reset_number_of_blocks :: "receiver \<Rightarrow> receiver" where
  "reset_number_of_blocks r =
     (let did = unat (dsm_id (dsm_header_of r)) in
      if did < length (d_number_of_blocks r)
      then r\<lparr>d_number_of_blocks := (d_number_of_blocks r)[did := 0]\<rparr> else r)"

definition process_dsm_message :: "crypto_lib \<Rightarrow> u8 list \<Rightarrow> u8 \<Rightarrow> receiver \<Rightarrow> receiver option" where
  "process_dsm_message L dsm_msg nma_header r =
     (let did = dsm_id (dsm_header_of r) in
      if (did < 12 \<or> d_flag_hot_start r) \<and> d_public_key_verified r then
        do { (returned, r') \<leftarrow> process_dsm_kroot L dsm_msg nma_header r;
             Some (if returned then r' else reset_number_of_blocks r') }
      else if did \<ge> 12 \<and> did < 16 then
        do { r' \<leftarrow> process_dsm_pkr L dsm_msg r; Some (reset_number_of_blocks r') }
      else Some (reset_number_of_blocks r))"

definition process_dsm_block :: "crypto_lib \<Rightarrow> osnma_msg \<Rightarrow> receiver \<Rightarrow> receiver option" where
  "process_dsm_block L msg r =
     do { let did = unat (dsm_id (dsm_header_of r));
          nb \<leftarrow> vget (d_number_of_blocks r) did;
          received \<leftarrow> vget (d_dsm_id_received r) did;
          if nb \<noteq> 0 \<and> unat nb = sum_list (map unat received) then
            do { buf \<leftarrow> vget (d_dsm_message r) did;
                 dsm_msg \<leftarrow> vread buf 0 (unat nb * SIZE_DSM_BLOCKS_BYTES);
                 h0 \<leftarrow> vget (om_hkroot msg) 0;
                 process_dsm_message L dsm_msg h0
                   (r\<lparr>d_dsm_message := (d_dsm_message r)[did := replicate 256 0],
                      d_dsm_id_received := (d_dsm_id_received r)[did := replicate 16 0]\<rparr>) }
          else Some r }"

section \<open>What a DSM-KROOT message can do\<close>

lemma set_kroot_simps [simp]:
  "d_crypto (set_kroot nc kr r) = d_crypto r"
  "d_kroot_verified (set_kroot nc kr r) = d_kroot_verified r"
  "d_public_key_verified (set_kroot nc kr r) = d_public_key_verified r"
  "d_flag_hot_start (set_kroot nc kr r) = d_flag_hot_start r"
  "d_flag_PK_renewal (set_kroot nc kr r) = d_flag_PK_renewal r"
  "d_flag_NPK_set (set_kroot nc kr r) = d_flag_NPK_set r"
  "d_new_public_key_id (set_kroot nc kr r) = d_new_public_key_id r"
  "d_count_failed_Kroot (set_kroot nc kr r) = d_count_failed_Kroot r"
  "dsm_header_of (set_kroot nc kr r) = dsm_header_of r"
  "nma_of (set_kroot nc kr r) = nma_of r"
  "d_number_of_blocks (set_kroot nc kr r) = d_number_of_blocks r"
  "kroot_of (set_kroot nc kr r) = (if nc then kroot_of r else kr)"
  by (simp_all add: set_kroot_def)

lemma reset_number_simps [simp]:
  "d_crypto (reset_number_of_blocks r) = d_crypto r"
  "d_kroot_verified (reset_number_of_blocks r) = d_kroot_verified r"
  "d_public_key_verified (reset_number_of_blocks r) = d_public_key_verified r"
  "d_osnma_data (reset_number_of_blocks r) = d_osnma_data r"
  "kroot_file (reset_number_of_blocks r) = kroot_file r"
  by (simp_all add: reset_number_of_blocks_def Let_def)

lemma ds_bits_values: "kroot_ds_bits r \<in> {0, 512, 1056}"
  by (simp add: kroot_ds_bits_def table_lookup_def OSNMA_TABLE_15_def)

lemma parse_kroot_fields:
  assumes "parse_kroot r m kr0 = Some (kr, lk, dsb, pdk)"
  shows "get_ks m = Some (ks kr) \<and> lk = get_lk_bits (ks kr) div 8 \<and> dsb = kroot_ds_bits r div 8 \<and>
    vread m (13 + unat lk) (unat dsb) = Some (ds kr) \<and> kr_verified kr = kr_verified kr0 \<and>
    get_kroot m lk = Some (kroot kr) \<and>
    (\<exists>b0. vget m 0 = Some b0 \<and> nb_dk kr = get_number_blocks_index b0 \<and>
       pdk = get_l_dk_bits (nb_dk kr) div 8 - 13 - lk - dsb) \<and>
    vread m (13 + unat lk + unat dsb) (unat pdk) = Some (p_dk kr)"
  using assms by (auto simp: parse_kroot_def Let_def bind_eq_Some_conv)

text \<open>The three ways \<open>process_dsm_kroot\<close> ends.\<close>

lemma process_dsm_kroot_cases:
  assumes "process_dsm_kroot L m h r = Some (ret, r')"
  obtains (rejected) c nc kr lk dsb pdk where "get_cidkr m = Some c" "nc = kroot_is_new_chain r c"
      "parse_kroot r m (applicable_kroot r nc) = Some (kr, lk, dsb, pdk)"
      "ret = False" "r' = count_failed_kroot (set_kroot nc kr r)"
  | (checked) c nc kr lk dsb pdk fields where "get_cidkr m = Some c" "nc = kroot_is_new_chain r c"
      "parse_kroot r m (applicable_kroot r nc) = Some (kr, lk, dsb, pdk)"
      "get_l_dk_bits (nb_dk kr) = check_l_dk lk (kroot_ds_bits r)"
      "vread m 1 (unat (13 + lk) - 1) = Some fields"
      "vread (chain_hash L (hf kr) ((h # fields) @ ds kr)) 0 (unat pdk) = Some (p_dk kr)"
      "(ret, r') = authenticate_kroot L nc kr (kroot_ds_bits r) (h # fields) m h (set_kroot nc kr r)"
proof -
  from assms obtain c where c: "get_cidkr m = Some c"
    by (auto simp: process_dsm_kroot_def bind_eq_Some_conv)
  let ?nc = "kroot_is_new_chain r c"
  from assms c obtain kr lk dsb pdk where p: "parse_kroot r m (applicable_kroot r ?nc) = Some (kr, lk, dsb, pdk)"
    by (auto simp: process_dsm_kroot_def bind_eq_Some_conv Let_def)
  show ?thesis
  proof (cases "get_l_dk_bits (nb_dk kr) = check_l_dk lk (kroot_ds_bits r)")
    case False
    with assms c p rejected[OF c refl p] show ?thesis by (simp add: process_dsm_kroot_def Let_def)
  next
    case True
    with assms c p obtain fields where f: "vread m 1 (unat (13 + lk) - 1) = Some fields"
      by (auto simp: process_dsm_kroot_def Let_def bind_eq_Some_conv)
    with True assms c p obtain t where t: "vread (chain_hash L (hf kr) ((h # fields) @ ds kr)) 0 (unat pdk) = Some t"
      by (auto simp: process_dsm_kroot_def Let_def bind_eq_Some_conv)
    show ?thesis
    proof (cases "p_dk kr = t")
      case False
      with True f t assms c p rejected[OF c refl p] show ?thesis
        by (simp add: process_dsm_kroot_def Let_def)
    next
      case eq: True
      with True f t assms c p checked[OF c refl p True f] show ?thesis
        by (simp add: process_dsm_kroot_def Let_def)
    qed
  qed
qed

lemma renew_public_key_simps [simp]:
  "d_kroot_verified (renew_public_key L kr r) = d_kroot_verified r"
  "d_public_key_verified (renew_public_key L kr r) = d_public_key_verified r"
  "d_osnma_data (renew_public_key L kr r) = d_osnma_data r"
  by (simp_all add: renew_public_key_def Let_def)

lemma store_dsm_kroot_simps [simp]:
  "d_kroot_verified (store_dsm_kroot m h r) = d_kroot_verified r"
  "d_public_key_verified (store_dsm_kroot m h r) = d_public_key_verified r"
  "d_crypto (store_dsm_kroot m h r) = d_crypto r"
  "d_osnma_data (store_dsm_kroot m h r) = d_osnma_data r"
  by (simp_all add: store_dsm_kroot_def)

lemma authenticate_kroot_verified:
  assumes "authenticate_kroot L nc kr dsb msg m h r = (ret, r')" and "d_kroot_verified r'"
    and "\<not> d_kroot_verified r"
  shows "verify_signature_ecdsa_p256 L (d_crypto r') msg (ds kr) \<or>
         verify_signature_ecdsa_p521 L (d_crypto r') msg (ds kr)"
  using assms by (auto simp: authenticate_kroot_def Let_def split: if_splits)

lemma authenticate_kroot_public:
  "authenticate_kroot L nc kr dsb msg m h r = (ret, r') \<Longrightarrow>
     d_public_key_verified r' = d_public_key_verified r"
  by (auto simp: authenticate_kroot_def Let_def split: if_splits)

lemma kroot_verified_step:
  assumes "process_dsm_kroot L m h r = Some (ret, r')" and "d_kroot_verified r'" and "\<not> d_kroot_verified r"
  shows "\<exists>k lk fields sig. get_ks m = Some k \<and> lk = unat (get_lk_bits k div 8) \<and>
    vread m 1 (unat (13 + get_lk_bits k div 8) - 1) = Some fields \<and>
    vread m (13 + lk) (unat (kroot_ds_bits r div 8)) = Some sig \<and>
    (verify_signature_ecdsa_p256 L (d_crypto r') (h # fields) sig \<or>
     verify_signature_ecdsa_p521 L (d_crypto r') (h # fields) sig)"
  using assms(1)
proof (cases rule: process_dsm_kroot_cases)
  case (rejected c nc kr lk dsb pdk)
  with assms(2,3) show ?thesis by (simp add: count_failed_kroot_def)
next
  case (checked c nc kr lk dsb pdk fields)
  from authenticate_kroot_verified[OF checked(7)[symmetric] assms(2)] assms(3)
  have "verify_signature_ecdsa_p256 L (d_crypto r') (h # fields) (ds kr) \<or>
      verify_signature_ecdsa_p521 L (d_crypto r') (h # fields) (ds kr)" by simp
  then show ?thesis using parse_kroot_fields[OF checked(3)] checked(5) by blast
qed

lemma kroot_keeps_public_key_verified:
  assumes "process_dsm_kroot L m h r = Some (ret, r')"
  shows "d_public_key_verified r' = d_public_key_verified r"
  using assms
proof (cases rule: process_dsm_kroot_cases)
  case (rejected c nc kr lk dsb pdk)
  then show ?thesis by (simp add: count_failed_kroot_def)
next
  case (checked c nc kr lk dsb pdk fields)
  from authenticate_kroot_public[OF checked(7)[symmetric]] show ?thesis by simp
qed

lemma set_pkr_simps [simp]:
  "d_kroot_verified (set_pkr p r) = d_kroot_verified r"
  "d_public_key_verified (set_pkr p r) = d_public_key_verified r"
  "d_crypto (set_pkr p r) = d_crypto r"
  "pkr_of (set_pkr p r) = p"
  "kroot_of (set_pkr p r) = kroot_of r"
  "dsm_header_of (set_pkr p r) = dsm_header_of r"
  "nma_of (set_pkr p r) = nma_of r"
  by (simp_all add: set_pkr_def)

lemma set_public_key_root [simp]:
  "d_x_4_0 (set_public_key L k c) = d_x_4_0 c" "d_x_4_0 (set_public_key_type t c) = d_x_4_0 c"
  by (simp_all add: set_public_key_def set_public_key_type_def Let_def)

lemma accept_pkr_simps [simp]:
  "d_kroot_verified (accept_pkr L p r) = d_kroot_verified r"
  "d_public_key_verified (accept_pkr L p r) = True"
  "d_osnma_data (accept_pkr L p r) = d_osnma_data r"
  "get_merkle_root (d_crypto (accept_pkr L p r)) = get_merkle_root (d_crypto r)"
  by (simp_all add: accept_pkr_def Let_def get_merkle_root_def)

definition note_new_key_id :: "dsm_pkr_message \<Rightarrow> receiver \<Rightarrow> receiver" where
  "note_new_key_id p r =
     (if d_flag_PK_renewal r \<and> npktid p > npktid (pkr_of r)
      then r\<lparr>d_new_public_key_id := npktid p\<rparr> else r)"

lemma note_new_key_id_simps [simp]:
  "d_kroot_verified (note_new_key_id p r) = d_kroot_verified r"
  "d_public_key_verified (note_new_key_id p r) = d_public_key_verified r"
  "d_crypto (note_new_key_id p r) = d_crypto r"
  "d_osnma_data (note_new_key_id p r) = d_osnma_data r"
  by (simp_all add: note_new_key_id_def)

lemma process_dsm_pkr_cases:
  assumes "process_dsm_pkr L m r = Some r'"
  obtains (wrong_length) p dpl npkl where "parse_pkr m (pkr_of r) = Some (p, dpl, npkl)"
      "r' = (set_pkr p (note_new_key_id p r))\<lparr>d_flag_alert_message := False\<rparr>"
  | (accepted) p dpl npkl pdp where "parse_pkr m (pkr_of r) = Some (p, dpl, npkl)"
      "verify_dsm_pkr L r (p\<lparr>p_dp := pdp\<rparr>)"
      "r' = accept_pkr L (p\<lparr>p_dp := pdp\<rparr>) (set_pkr (p\<lparr>p_dp := pdp\<rparr>) (set_pkr p (note_new_key_id p r)))"
  | (refused) p dpl npkl pdp r1 where "parse_pkr m (pkr_of r) = Some (p, dpl, npkl)"
      "r1 = set_pkr (p\<lparr>p_dp := pdp\<rparr>) (set_pkr p (note_new_key_id p r))"
      "r' = r1\<lparr>d_public_key_verified := False, d_count_failed_pubKey := d_count_failed_pubKey r1 + 1,
               d_flag_alert_message := False\<rparr>"
proof -
  from assms obtain p dpl npkl where p: "parse_pkr m (pkr_of r) = Some (p, dpl, npkl)"
    by (auto simp: process_dsm_pkr_def bind_eq_Some_conv)
  show ?thesis
  proof (cases "dpl = check_l_dp_bytes npkl")
    case False
    with assms p wrong_length[OF p] show ?thesis
      by (simp add: process_dsm_pkr_def Let_def note_new_key_id_def)
  next
    case True
    with assms p obtain pdp where d: "vread m (unat (dpl - (dpl - 130 - npkl))) (unat (dpl - 130 - npkl)) = Some pdp"
      by (auto simp: process_dsm_pkr_def Let_def bind_eq_Some_conv)
    have v: "verify_dsm_pkr L (set_pkr q (set_pkr p (note_new_key_id p r))) = verify_dsm_pkr L r" for q
      by (rule ext) (simp add: verify_dsm_pkr_def)
    show ?thesis
    proof (cases "verify_dsm_pkr L r (p\<lparr>p_dp := pdp\<rparr>)")
      case acc: True
      with True assms p d v show ?thesis
        by (intro accepted[OF p acc])
          (simp add: process_dsm_pkr_def Let_def note_new_key_id_def[symmetric])
    next
      case False
      with True assms p d v show ?thesis
        by (intro refused[OF p refl, of pdp])
          (simp add: process_dsm_pkr_def Let_def note_new_key_id_def[symmetric])
    qed
  qed
qed

lemma pkr_keeps_kroot_verified:
  assumes "process_dsm_pkr L m r = Some r'" shows "d_kroot_verified r' = d_kroot_verified r"
  using assms by (cases rule: process_dsm_pkr_cases) simp_all

text \<open>C2: The root key becomes verified only through a signature: if a DSM message turns
  \<open>d_kroot_verified\<close> from false to true, a public key was verified and one of the two ECDSA
  checks accepted, under the key then in place, the signature field of the message over the NMA
  header followed by the message bytes from the second one to the end of the root key.\<close>

theorem kroot_verified_only_by_signature:
  assumes "process_dsm_message L m h r = Some r'" and "d_kroot_verified r'" and "\<not> d_kroot_verified r"
  shows "d_public_key_verified r \<and>
    (\<exists>k lk fields sig. get_ks m = Some k \<and> lk = unat (get_lk_bits k div 8) \<and>
      vread m 1 (unat (13 + get_lk_bits k div 8) - 1) = Some fields \<and>
      vread m (13 + lk) (unat (kroot_ds_bits r div 8)) = Some sig \<and>
      (verify_signature_ecdsa_p256 L (d_crypto r') (h # fields) sig \<or>
       verify_signature_ecdsa_p521 L (d_crypto r') (h # fields) sig))"
proof (cases "(dsm_id (dsm_header_of r) < 12 \<or> d_flag_hot_start r) \<and> d_public_key_verified r")
  case True
  with assms(1) obtain ret r1 where r1: "process_dsm_kroot L m h r = Some (ret, r1)"
      "r' = (if ret then r1 else reset_number_of_blocks r1)"
    by (auto simp: process_dsm_message_def Let_def bind_eq_Some_conv)
  have "d_kroot_verified r1" "d_crypto r' = d_crypto r1" using r1(2) assms(2) by (auto split: if_splits)
  with kroot_verified_step[OF r1(1) _ assms(3)] True show ?thesis by auto
next
  case False
  with assms have False
    by (auto simp: process_dsm_message_def Let_def bind_eq_Some_conv split: if_splits
        dest!: pkr_keeps_kroot_verified)
  then show ?thesis ..
qed

text \<open>A message of 104 bytes for a 128-bit root key signed with P-256, whose padding is the
  start of the sample hash.\<close>

definition sample_kroot_msg :: "u8 list" where
  "sample_kroot_msg = [0x20, 0, 0x49, 33, 0, 1, 1] @ replicate 6 0 @ replicate 16 0xAB
     @ replicate 64 3 @ replicate 11 0xAB"

lemma sample_msg_fields:
  "length sample_kroot_msg = 104" "get_cidkr sample_kroot_msg = Some 0" "get_ks sample_kroot_msg = Some 4"
  "vget sample_kroot_msg 0 = Some 0x20"
  by (simp_all add: sample_kroot_msg_def get_cidkr_def get_ks_def vget_def)

definition sample_cold :: receiver where
  "sample_cold = sample_receiver\<lparr>d_kroot_verified := False, d_GST_0 := 0\<rparr>"

lemma sample_ds_bits: "kroot_ds_bits sample_cold = 512" "kroot_ds_bits sample_receiver = 512"
  by (simp_all add: kroot_ds_bits_def get_public_key_type_def sample_cold_def sample_defs
      table_lookup_def OSNMA_TABLE_15_def)

theorem kroot_verified_only_by_signature_witness:
  "process_dsm_message sample_lib sample_kroot_msg 0x52 sample_cold \<noteq> None \<and>
   d_kroot_verified (the (process_dsm_message sample_lib sample_kroot_msg 0x52 sample_cold)) \<and>
   d_public_key_verified sample_cold"
proof -
  have run: "process_dsm_message sample_lib sample_kroot_msg 0x52 sample_cold \<noteq> None"
    "d_kroot_verified (the (process_dsm_message sample_lib sample_kroot_msg 0x52 sample_cold))"
    by code_simp+
  then obtain r' where r': "process_dsm_message sample_lib sample_kroot_msg 0x52 sample_cold = Some r'"
    "d_kroot_verified r'" by auto
  have "\<not> d_kroot_verified sample_cold" by (simp add: sample_cold_def)
  from kroot_verified_only_by_signature[OF r' this] run show ?thesis by (elim conjE) simp
qed

section \<open>Bounds of the reads\<close>

lemma l_dk_bits_values:
  "get_l_dk_bits nb \<in> {0, 728, 832, 936, 1040, 1144, 1248, 1352, 1456}"
  by (simp add: get_l_dk_bits_def table_lookup_def OSNMA_TABLE_7_def)

text \<open>C35: For a message as long as its number of blocks says, processing a DSM-KROOT stays inside
  the message exactly when the header, the root key of the announced key size and the signature
  of the current key type fit into it. The code reads the signature before it compares any
  length, so a message of seven blocks that announces a 256-bit key is read past its end.\<close>

theorem kroot_reads_in_bounds_iff:
  assumes ok: "crypto_ok L" and b0: "vget m 0 = Some b0"
    and len: "8 * length m = unat (get_l_dk_bits (get_number_blocks_index b0))" "m \<noteq> []"
    and ks: "get_ks m = Some k"
  shows "process_dsm_kroot L m h r \<noteq> None \<longleftrightarrow>
    13 + unat (get_lk_bits k) div 8 + unat (kroot_ds_bits r) div 8 \<le> length m"
proof -
  let ?lk = "get_lk_bits k div 8" and ?ds = "kroot_ds_bits r div 8"
  let ?dk = "get_l_dk_bits (get_number_blocks_index b0)"
  have dk: "?dk \<in> {728, 832, 936, 1040, 1144, 1248, 1352, 1456}"
    using l_dk_bits_values[of "get_number_blocks_index b0"] len by auto
  have lk: "unat ?lk = unat (get_lk_bits k) div 8" "unat ?lk \<le> 32"
    using table_10_values[of k] by auto
  have dsv: "unat ?ds = unat (kroot_ds_bits r) div 8" "unat ?ds \<in> {0, 64, 132}"
    using ds_bits_values[of r] by auto
  have long: "91 \<le> length m" "length m = unat (?dk div 8)" using dk len by auto
  obtain c where c: "get_cidkr m = Some c" using long by (simp add: get_cidkr_def vec_simps)
  obtain kr where kroot: "get_kroot m ?lk = Some kr" using get_kroot_total by blast
  let ?nc = "kroot_is_new_chain r c"
  have hdr: "\<exists>a. get_pkid m = Some a" "\<exists>a. get_dsm_reserved1 m = Some a" "\<exists>a. get_hf m = Some a"
    "\<exists>a. get_mf m = Some a" "\<exists>a. get_ts m = Some a" "\<exists>a. get_maclt m = Some a"
    "\<exists>a. get_dsm_reserved m = Some a" "\<exists>a. get_wn_k m = Some a" "\<exists>a. get_towh_k m = Some a"
    "\<exists>a. get_alpha m = Some a"
    using long(1) by (auto simp: dsm_getter_defs get_wn_k_def get_alpha_def vget_def)
  have parse: "parse_kroot r m kr0 \<noteq> None \<longleftrightarrow> 13 + unat ?lk + unat ?ds \<le> length m" for kr0
  proof (cases "13 + unat ?lk + unat ?ds \<le> length m")
    case True
    then have "unat (?dk div 8 - 13 - ?lk - ?ds) = length m - 13 - unat ?lk - unat ?ds"
      using long(2) by (simp add: unat_sub word_le_nat_alt)
    then have "\<exists>x. vread m (13 + unat ?lk + unat ?ds) (unat (?dk div 8 - 13 - ?lk - ?ds)) = Some x"
      using True by (simp add: vread_eq)
    moreover have "\<exists>x. vread m (13 + unat ?lk) (unat ?ds) = Some x" using True by (simp add: vread_eq)
    ultimately show ?thesis
      using True b0 ks c kroot hdr by (auto simp: parse_kroot_def Let_def)
  next
    case False
    then have "unat ?ds \<noteq> 0" using long(1) lk(2) by auto
    with False have "vread m (13 + unat ?lk) (unat ?ds) = None" by (simp add: vread_eq)
    with False ks show ?thesis by (auto simp: parse_kroot_def Let_def bind_eq_Some_conv)
  qed
  show ?thesis
  proof (cases "parse_kroot r m (applicable_kroot r ?nc)")
    case None
    with c parse[of "applicable_kroot r ?nc"] lk(1) dsv(1) show ?thesis
      by (simp add: process_dsm_kroot_def Let_def)
  next
    case (Some v)
    obtain q qlk qds qpd where v: "v = (q, qlk, qds, qpd)" by (cases v)
    with Some have p: "parse_kroot r m (applicable_kroot r ?nc) = Some (q, qlk, qds, qpd)" by simp
    note f = parse_kroot_fields[OF p]
    have q: "qlk = ?lk" "qds = ?ds" "ks q = k" using f ks by auto
    have fit: "13 + unat ?lk + unat ?ds \<le> length m" using parse Some by fastforce
    have q13: "unat (13 + ?lk) = 13 + unat ?lk" using lk(2) by (simp add: unat_plus_less)
    then have fields: "\<exists>x. vread m 1 (unat (13 + ?lk) - 1) = Some x" using fit by (simp add: vread_eq)
    have "process_dsm_kroot L m h r \<noteq> None"
    proof (cases "get_l_dk_bits (nb_dk q) = check_l_dk ?lk (kroot_ds_bits r)")
      case False
      with c p q show ?thesis by (simp add: process_dsm_kroot_def Let_def)
    next
      case True
      have "nb_dk q = get_number_blocks_index b0" using f b0 by auto
      with True have "length m = unat (check_l_dk ?lk (kroot_ds_bits r) div 8)" using long(2) by simp
      moreover have "get_lk_bits k \<in> {0, 96, 104, 112, 120, 128, 160, 192, 224, 256}"
        by (rule table_10_values)
      ultimately have "length m \<le> 13 + unat ?lk + unat ?ds + 32"
        using ds_bits_values[of r] by (auto simp: check_l_dk_def)
      moreover have "unat qpd = length m - 13 - unat ?lk - unat ?ds"
        using f b0 long(2) fit q by (auto simp: unat_sub word_le_nat_alt)
      ultimately have "unat qpd \<le> 32" by simp
      moreover obtain fl where fl: "vread m 1 (unat (13 + ?lk) - 1) = Some fl" using fields by blast
      ultimately obtain t where "vread (chain_hash L (hf q) ((h # fl) @ ds q)) 0 (unat qpd) = Some t"
        using chain_hash_length[OF ok] by (simp add: vread_eq)
      with True c p q fl show ?thesis by (auto simp: process_dsm_kroot_def Let_def)
    qed
    with fit lk(1) dsv(1) show ?thesis by simp
  qed
qed

definition sample_long_key_msg :: "u8 list" where
  "sample_long_key_msg = [0x10, 0, 0x89] @ replicate 88 0"

theorem kroot_reads_in_bounds_iff_witness:
  "process_dsm_kroot sample_lib sample_long_key_msg 0x52 sample_receiver = None"
proof -
  have b0: "vget sample_long_key_msg 0 = Some 0x10" and ks: "get_ks sample_long_key_msg = Some 8"
    by (simp_all add: sample_long_key_msg_def vget_def get_ks_def)
  have nb: "get_number_blocks_index 0x10 = 1" by (simp add: get_number_blocks_index_def)
  have t: "unat (get_l_dk_bits 1) = 728" "unat (get_lk_bits 8) = 256"
    by (simp_all add: get_l_dk_bits_def get_lk_bits_def table_lookup_def OSNMA_TABLE_7_def OSNMA_TABLE_10_def)
  have len: "length sample_long_key_msg = 91" by (simp add: sample_long_key_msg_def)
  have "8 * length sample_long_key_msg = unat (get_l_dk_bits (get_number_blocks_index 0x10))"
    "sample_long_key_msg \<noteq> []" using nb t len by auto
  from kroot_reads_in_bounds_iff[OF crypto_ok_sample b0 this ks, where h = "0x52" and r = sample_receiver]
  show ?thesis unfolding t len sample_ds_bits by (simp del: not_None_eq)
qed

section \<open>Accepted and rejected messages\<close>

text \<open>C36: The fields of a DSM-KROOT message replace those in use before anything is checked:
  a message whose length does not fit its contents is counted as failed, but the root key, the
  tag size, the MAC function and the look-up table of the chain in force are then its own,
  while the root key still counts as verified if it did before.\<close>

theorem failed_kroot_replaces_parameters:
  assumes "get_cidkr m = Some c" and "\<not> d_flag_chain_renewal r"
    and "parse_kroot r m (kroot_of r) = Some (kr, lk, dsb, pdk)"
    and "get_l_dk_bits (nb_dk kr) \<noteq> check_l_dk lk (kroot_ds_bits r)"
  shows "\<exists>r'. process_dsm_kroot L m h r = Some (False, r') \<and> kroot_of r' = kr \<and>
    d_kroot_verified r' = d_kroot_verified r \<and>
    d_count_failed_Kroot r' = d_count_failed_Kroot r + 1"
proof -
  have nc: "kroot_is_new_chain r c = False" using assms(2) by (simp add: kroot_is_new_chain_def)
  have "process_dsm_kroot L m h r = Some (False, count_failed_kroot (set_kroot False kr r))"
    using assms nc by (simp add: process_dsm_kroot_def Let_def applicable_kroot_def)
  then show ?thesis by (simp add: count_failed_kroot_def)
qed

definition sample_wrong_length_msg :: "u8 list" where
  "sample_wrong_length_msg = [0x30, 0, 0x49, 33] @ replicate 113 7"

theorem failed_kroot_replaces_parameters_witness:
  "\<exists>r'. process_dsm_kroot sample_lib sample_wrong_length_msg 0x52 sample_receiver = Some (False, r') \<and>
     kroot (kroot_of r') = replicate 16 7 \<and> d_kroot_verified r'"
proof -
  have c: "get_cidkr sample_wrong_length_msg = Some 0"
    by (simp add: sample_wrong_length_msg_def get_cidkr_def vget_def)
  have run: "parse_kroot sample_receiver sample_wrong_length_msg (kroot_of sample_receiver) \<noteq> None"
    "kroot (fst (the (parse_kroot sample_receiver sample_wrong_length_msg (kroot_of sample_receiver)))) = replicate 16 7"
    "get_l_dk_bits (nb_dk (fst (the (parse_kroot sample_receiver sample_wrong_length_msg (kroot_of sample_receiver)))))
       \<noteq> check_l_dk (fst (snd (the (parse_kroot sample_receiver sample_wrong_length_msg (kroot_of sample_receiver)))))
           (kroot_ds_bits sample_receiver)"
    by code_simp+
  then obtain kr lk dsb pdk where p: "parse_kroot sample_receiver sample_wrong_length_msg (kroot_of sample_receiver)
      = Some (kr, lk, dsb, pdk)" by auto
  have "\<not> d_flag_chain_renewal sample_receiver" "d_kroot_verified sample_receiver"
    by (simp_all add: sample_defs)
  with failed_kroot_replaces_parameters[OF c _ p, where L = sample_lib and h = "0x52"] run p show ?thesis by auto
qed

lemma checked_length_has_signature:
  assumes "get_l_dk_bits nb = check_l_dk (get_lk_bits k div 8) (kroot_ds_bits r)"
  shows "kroot_ds_bits r = 512 \<or> kroot_ds_bits r = 1056"
proof (rule ccontr)
  assume "\<not> ?thesis"
  then have "kroot_ds_bits r = 0" using ds_bits_values[of r] by auto
  with assms table_10_values[of k] l_dk_bits_values[of nb] show False
    by (auto simp: check_l_dk_def)
qed

lemma authenticate_kroot_signed:
  assumes "authenticate_kroot L nc kr dsb msg m h r = (ret, r')" and "dsb = 512 \<or> dsb = 1056"
    and "d_count_failed_Kroot r' = d_count_failed_Kroot r"
  shows "d_kroot_verified r' \<and> (verify_signature_ecdsa_p256 L (d_crypto r') msg (ds kr) \<or>
         verify_signature_ecdsa_p521 L (d_crypto r') msg (ds kr))"
proof -
  have "d_count_failed_Kroot (renew_public_key L kr r) = d_count_failed_Kroot r"
    by (simp add: renew_public_key_def Let_def)
  with assms show ?thesis
    by (auto simp: authenticate_kroot_def Let_def split: if_splits)
qed

text \<open>C1: A DSM-KROOT message that is not counted as failed was signed: whatever was verified
  before, and whatever the type of the public key, one of the ECDSA checks accepted the
  signature field of this message under the key then in place. A key of unknown type, for which
  no check is made, cannot pass: no message then has the length asked for.\<close>

theorem accepted_kroot_is_signed:
  assumes "process_dsm_kroot L m h r = Some (ret, r')"
    and "d_count_failed_Kroot r' = d_count_failed_Kroot r"
  shows "d_kroot_verified r' \<and>
    (\<exists>k fl sig. get_ks m = Some k \<and> vread m 1 (unat (13 + get_lk_bits k div 8) - 1) = Some fl \<and>
      vread m (13 + unat (get_lk_bits k div 8)) (unat (kroot_ds_bits r div 8)) = Some sig \<and>
      (verify_signature_ecdsa_p256 L (d_crypto r') (h # fl) sig \<or>
       verify_signature_ecdsa_p521 L (d_crypto r') (h # fl) sig))"
  using assms(1)
proof (cases rule: process_dsm_kroot_cases)
  case (rejected c nc kr lk dsb pdk)
  with assms(2) have "d_count_failed_Kroot r + 1 = d_count_failed_Kroot r"
    by (simp add: count_failed_kroot_def)
  then show ?thesis by simp
next
  case (checked c nc kr lk dsb pdk fl)
  note f = parse_kroot_fields[OF checked(3)]
  from f checked(4) have "kroot_ds_bits r = 512 \<or> kroot_ds_bits r = 1056"
    using checked_length_has_signature[of "nb_dk kr" "ks kr" r] by simp
  from authenticate_kroot_signed[OF checked(7)[symmetric] this] assms(2)
  have "d_kroot_verified r' \<and> (verify_signature_ecdsa_p256 L (d_crypto r') (h # fl) (ds kr) \<or>
      verify_signature_ecdsa_p521 L (d_crypto r') (h # fl) (ds kr))" by simp
  then show ?thesis using f checked(5) by blast
qed

theorem accepted_kroot_is_signed_witness:
  "\<exists>ret r'. process_dsm_kroot sample_lib sample_kroot_msg 0x52 sample_cold = Some (ret, r') \<and>
     d_kroot_verified r' \<and> get_ks sample_kroot_msg = Some 4"
proof -
  have run: "process_dsm_kroot sample_lib sample_kroot_msg 0x52 sample_cold \<noteq> None"
    "d_count_failed_Kroot (snd (the (process_dsm_kroot sample_lib sample_kroot_msg 0x52 sample_cold))) =
       d_count_failed_Kroot sample_cold"
    by code_simp+
  then obtain ret r' where r': "process_dsm_kroot sample_lib sample_kroot_msg 0x52 sample_cold = Some (ret, r')"
    "d_count_failed_Kroot r' = d_count_failed_Kroot sample_cold" by auto
  from accepted_kroot_is_signed[OF r'] r'(1) sample_msg_fields(3) show ?thesis by auto
qed

section \<open>What a DSM-PKR message can do\<close>

text \<open>C5: The public key becomes verified only through the Merkle tree: if a DSM message turns
  \<open>d_public_key_verified\<close> from false to true, the stored DSM-PKR message verifies against the
  Merkle root of the receiver.\<close>

theorem public_key_verified_only_by_merkle:
  assumes "process_dsm_message L m h r = Some r'" and "d_public_key_verified r'"
    and "\<not> d_public_key_verified r"
  shows "verify_dsm_pkr L r' (pkr_of r')"
proof -
  have not_kroot: "\<not> ((dsm_id (dsm_header_of r) < 12 \<or> d_flag_hot_start r) \<and> d_public_key_verified r)"
    using assms(3) by simp
  have "\<exists>r1. process_dsm_pkr L m r = Some r1 \<and> r' = reset_number_of_blocks r1"
    using assms(1,2,3) not_kroot
    by (auto simp: process_dsm_message_def Let_def bind_eq_Some_conv split: if_splits)
  then obtain r1 where r1: "process_dsm_pkr L m r = Some r1" "r' = reset_number_of_blocks r1" by blast
  from r1(1) have "verify_dsm_pkr L r1 (pkr_of r1)"
  proof (cases rule: process_dsm_pkr_cases)
    case (wrong_length p dpl npkl)
    with assms r1(2) show ?thesis by simp
  next
    case (accepted p dpl npkl pdp)
    then show ?thesis by (simp add: verify_dsm_pkr_def)
  next
    case (refused p dpl npkl pdp r2)
    with assms r1(2) show ?thesis by simp
  qed
  with r1(2) show ?thesis by (simp add: verify_dsm_pkr_def)
qed

text \<open>A DSM-PKR message of thirteen blocks with a P-256 key.\<close>

definition sample_pkr_msg :: "u8 list" where
  "sample_pkr_msg = [0x73] @ replicate 128 0xAB @ [0x12] @ replicate 33 5 @ replicate 6 0"

definition sample_no_key :: receiver where
  "sample_no_key = read_dsm_header 0xC0 (sample_cold\<lparr>d_public_key_verified := False,
     d_crypto := \<lparr>d_PublicKey = None, d_PublicKeyType = [], d_x_4_0 = replicate 32 0xAB\<rparr>\<rparr>)"

theorem public_key_verified_only_by_merkle_witness:
  "\<exists>r'. process_dsm_message sample_lib sample_pkr_msg 0x52 sample_no_key = Some r' \<and>
     d_public_key_verified r' \<and> verify_dsm_pkr sample_lib r' (pkr_of r')"
proof -
  have run: "process_dsm_message sample_lib sample_pkr_msg 0x52 sample_no_key \<noteq> None"
    "d_public_key_verified (the (process_dsm_message sample_lib sample_pkr_msg 0x52 sample_no_key))"
    "\<not> d_public_key_verified sample_no_key"
    by code_simp+
  then obtain r' where r': "process_dsm_message sample_lib sample_pkr_msg 0x52 sample_no_key = Some r'"
    "d_public_key_verified r'" by auto
  from public_key_verified_only_by_merkle[OF r' run(3)] r' show ?thesis by auto
qed

end
