(* ===== verification/Osnma_Dsm_Collect.thy ===== *)
theory Osnma_Dsm_Collect
  imports Osnma_Dsm
begin

text \<open>
  The collection of the blocks of one DSM message, on top of \<open>Osnma_Dsm\<close>: whatever the order
  and however often the blocks arrive, the message is processed when all of them are there, and
  it is then the message that was sent.
\<close>

section \<open>Shapes\<close>

definition dsm_shape :: "receiver \<Rightarrow> bool" where
  "dsm_shape r \<longleftrightarrow>
     length (d_dsm_message r) = 16 \<and> list_all (\<lambda>b. length b = 256) (d_dsm_message r) \<and>
     length (d_dsm_id_received r) = 16 \<and> list_all (\<lambda>b. length b = 16) (d_dsm_id_received r) \<and>
     length (d_number_of_blocks r) = 16 \<and> list_all (\<lambda>n. unat n \<le> 16) (d_number_of_blocks r)"

lemma copy_block_all:
  "pos + length bs \<le> length buf \<Longrightarrow>
     copy_block buf pos bs = (True, take pos buf @ bs @ drop (pos + length bs) buf)"
proof (induction buf pos bs rule: copy_block.induct)
  case (1 buf pos)
  then show ?case by simp
next
  case (2 buf pos b bs)
  then have "pos < length buf" by simp
  with 2 have "copy_block buf pos (b # bs) =
      (True, take (Suc pos) (buf[pos := b]) @ bs @ drop (Suc pos + length bs) (buf[pos := b]))"
    by simp
  moreover have "take (Suc pos) (buf[pos := b]) = take pos buf @ [b]"
    using \<open>pos < length buf\<close> by (simp add: take_Suc_conv_app_nth)
  ultimately show ?case by simp
qed

lemma blocks_of_message_le: "unat (blocks_of_message d nb) \<le> 16"
  by (simp add: blocks_of_message_def table_lookup_def OSNMA_TABLE_7_def OSNMA_TABLE_3_def)

section \<open>The blocks of one message\<close>

definition block_of :: "u8 list \<Rightarrow> nat \<Rightarrow> u8 list" where
  "block_of M b = take 13 (drop (13 * b) M)"

text \<open>What is collected of message \<open>M\<close> under the identifier \<open>did\<close>: the blocks in \<open>S\<close>.\<close>

definition collected :: "receiver \<Rightarrow> nat \<Rightarrow> u8 list \<Rightarrow> nat set \<Rightarrow> bool" where
  "collected r did M S \<longleftrightarrow>
     dsm_shape r \<and> did < 16 \<and>
     (\<forall>b \<in> S. block_of (d_dsm_message r ! did) b = block_of M b) \<and>
     d_dsm_id_received r ! did = map (\<lambda>b. if b \<in> S then 1 else 0) [0..<16]"

text \<open>The subframe that carries block \<open>b\<close> of \<open>M\<close>.\<close>

definition subframe_of :: "u8 \<Rightarrow> nat \<Rightarrow> u8 list \<Rightarrow> nat \<Rightarrow> osnma_msg" where
  "subframe_of h did M b =
     \<lparr>om_mack = replicate 15 0, om_hkroot = [h, of_nat (16 * did + b)] @ block_of M b,
      om_PRN = 0, om_WN_sf0 = 0, om_TOW_sf0 = 0\<rparr>"

definition collect :: "osnma_msg \<Rightarrow> receiver \<Rightarrow> receiver option" where
  "collect msg r =
     do { h \<leftarrow> vget (om_hkroot msg) 1;
          read_dsm_block msg (read_dsm_header h r) }"

lemma length_block_of: "13 * c + 13 \<le> length X \<Longrightarrow> length (block_of X c) = 13"
  by (simp add: block_of_def)

lemma length_block_of_le: "length (block_of X c) \<le> 13"
  by (simp add: block_of_def)

lemma block_of_patch:
  assumes "length buf = 256" and "length bl = 13" and "b < 16" and "c < 16"
  shows "block_of (take (13 * b) buf @ bl @ drop (13 * b + 13) buf) c =
           (if c = b then bl else block_of buf c)"
proof (rule nth_equalityI)
  have "length (take (13 * b) buf @ bl @ drop (13 * b + 13) buf) = 256" using assms by simp
  then show "length (block_of (take (13 * b) buf @ bl @ drop (13 * b + 13) buf) c) =
      length (if c = b then bl else block_of buf c)"
    using assms by (simp only: length_block_of split: if_splits) simp
  fix i assume "i < length (block_of (take (13 * b) buf @ bl @ drop (13 * b + 13) buf) c)"
  then have i: "i < 13" by (rule order_less_le_trans[OF _ length_block_of_le])
  have "13 * c + i < 13 * b \<or> 13 * b + 13 \<le> 13 * c + i" if "c \<noteq> b"
    using i that by (cases "c < b") auto
  then show "block_of (take (13 * b) buf @ bl @ drop (13 * b + 13) buf) c ! i =
      (if c = b then bl else block_of buf c) ! i"
    using assms i by (auto simp: block_of_def nth_append)
qed

lemma header_byte:
  assumes "did < 16" and "b < 16"
  shows "unat (get_dsm_id (of_nat (16 * did + b))) = did"
    and "unat (get_dsm_block_id (of_nat (16 * did + b))) = b"
proof -
  have "16 * did + b < 2 ^ LENGTH(8)" using assms by simp
  then have u: "unat (of_nat (16 * did + b) :: u8) = 16 * did + b" by (rule unat_of_nat_less)
  show "unat (get_dsm_id (of_nat (16 * did + b))) = did"
    unfolding get_dsm_id_def unat_high_nibble u using assms by simp
  show "unat (get_dsm_block_id (of_nat (16 * did + b))) = b"
    unfolding get_dsm_block_id_def unat_low_nibble u using assms by simp
qed

text \<open>Number of blocks announced by the first byte.\<close>

definition announced :: "nat \<Rightarrow> u8 list \<Rightarrow> u16" where
  "announced did M = blocks_of_message (of_nat did) (get_number_blocks_index (M ! 0))"

lemma read_block_other:
  assumes "2 < length (om_hkroot msg)" and "dsm_header_of r = \<lparr>dsm_id = di, dsm_block_id = bi\<rparr>"
    and "unat di = did" and "unat bi = bid" and "bid \<noteq> 0" and "did < length (d_dsm_message r)"
    and "copy_block (d_dsm_message r ! did) (13 * bid) (drop 2 (om_hkroot msg)) = (True, new)"
    and "did < length (d_dsm_id_received r)" and "bid < length (d_dsm_id_received r ! did)"
    and "did < length (d_number_of_blocks r)"
    and "unat (d_number_of_blocks r ! did) \<le> length (d_dsm_id_received r ! did)"
  shows "read_dsm_block msg r = Some (r\<lparr>d_dsm_message := (d_dsm_message r)[did := new],
     d_dsm_id_received := (d_dsm_id_received r)[did := (d_dsm_id_received r ! did)[bid := 1]]\<rparr>)"
  using assms by (simp add: read_dsm_block_def Let_def SIZE_DSM_BLOCKS_BYTES_def vget_def vput_def vread_eq)

lemma read_block_first:
  assumes "2 < length (om_hkroot msg)" and "dsm_header_of r = \<lparr>dsm_id = di, dsm_block_id = 0\<rparr>"
    and "unat di = did" and "did < 16" and "did < length (d_dsm_message r)"
    and "copy_block (d_dsm_message r ! did) 0 (drop 2 (om_hkroot msg)) = (True, b0 # new)"
    and "did < length (d_dsm_id_received r)" and "0 < length (d_dsm_id_received r ! did)"
    and "did < length (d_number_of_blocks r)"
    and "n = blocks_of_message di (get_number_blocks_index b0)" and "n \<noteq> 0"
    and "unat n \<le> length (d_dsm_id_received r ! did)"
  shows "read_dsm_block msg r = Some (r\<lparr>d_dsm_message := (d_dsm_message r)[did := b0 # new],
     d_number_of_blocks := (d_number_of_blocks r)[did := n],
     d_dsm_id_received := (d_dsm_id_received r)[did := (d_dsm_id_received r ! did)[0 := 1]]\<rparr>)"
  using assms by (simp add: read_dsm_block_def Let_def SIZE_DSM_BLOCKS_BYTES_def vget_def vput_def vread_eq)

lemma collect_block:
  assumes col: "collected r did M S" and M: "length M = 13 * unat (announced did M)"
    and b: "b < unat (announced did M)"
  shows "\<exists>r'. collect (subframe_of h did M b) r = Some r' \<and> collected r' did M (insert b S) \<and>
    d_number_of_blocks r' ! did = (if b = 0 then announced did M else d_number_of_blocks r ! did) \<and>
    unat (dsm_id (dsm_header_of r')) = did"
proof -
  let ?msg = "subframe_of h did M b" and ?hb = "of_nat (16 * did + b) :: u8"
  let ?r0 = "read_dsm_header ?hb r"
  have did: "did < 16" using col by (simp add: collected_def)
  have b16: "b < 16" using b blocks_of_message_le by (simp add: announced_def) (meson le_trans not_le)
  note hb = header_byte[OF did b16]
  have hdr: "dsm_header_of ?r0 = \<lparr>dsm_id = get_dsm_id ?hb, dsm_block_id = get_dsm_block_id ?hb\<rparr>"
    by (simp add: read_dsm_header_def)
  have did8: "get_dsm_id ?hb = of_nat did" using hb(1) by (metis of_nat_unat ucast_id)
  have same: "d_dsm_message ?r0 = d_dsm_message r" "d_dsm_id_received ?r0 = d_dsm_id_received r"
    "d_number_of_blocks ?r0 = d_number_of_blocks r"
    by (simp_all add: read_dsm_header_def)
  note sh = col[unfolded collected_def dsm_shape_def list_all_length]
  let ?buf = "d_dsm_message r ! did"
  have bl: "length (block_of M b) = 13" using M b by (simp add: block_of_def)
  have buf: "length ?buf = 256" using sh did by simp
  let ?new = "take (13 * b) ?buf @ block_of M b @ drop (13 * b + 13) ?buf"
  have hk: "drop 2 (om_hkroot ?msg) = block_of M b" "length (om_hkroot ?msg) = 15"
    using bl by (simp_all add: subframe_of_def)
  have cp: "copy_block ?buf (13 * b) (block_of M b) = (True, ?new)"
    using copy_block_all[of "13 * b" "block_of M b" ?buf] buf bl b16 by simp
  have first: "b = 0 \<Longrightarrow> ?new ! 0 = M ! 0" using M b by (simp add: block_of_def nth_append)
  have n0: "announced did M \<noteq> 0" using b by auto
  let ?nbs = "if b = 0 then (d_number_of_blocks r)[did := announced did M] else d_number_of_blocks r"
  let ?flags = "(d_dsm_id_received r ! did)[b := 1]"
  let ?r' = "?r0\<lparr>d_dsm_message := (d_dsm_message r)[did := ?new], d_number_of_blocks := ?nbs,
     d_dsm_id_received := (d_dsm_id_received r)[did := ?flags]\<rparr>"
  have len: "length (d_dsm_message r) = 16" "length (d_dsm_id_received r) = 16"
    "length (d_number_of_blocks r) = 16" "length (d_dsm_id_received r ! did) = 16" "length ?new = 256"
    using sh did buf bl b16 by auto
  have get: "collect ?msg r = read_dsm_block ?msg ?r0"
    by (simp add: collect_def subframe_of_def vget_def)
  have run: "collect ?msg r = Some ?r'"
  proof (cases "b = 0")
    case True
    obtain new' where new': "?new = M ! 0 # new'" using first[OF True] len(5) by (cases ?new) auto
    have "get_dsm_block_id ?hb = 0" using hb(2) True by (simp add: unat_eq_0)
    then have hdr0: "dsm_header_of ?r0 = \<lparr>dsm_id = get_dsm_id ?hb, dsm_block_id = 0\<rparr>"
      using hdr by simp
    have cp0: "copy_block (d_dsm_message ?r0 ! did) 0 (drop 2 (om_hkroot ?msg)) = (True, M ! 0 # new')"
      using cp new' True hk(1) same by simp
    have ann: "announced did M = blocks_of_message (get_dsm_id ?hb) (get_number_blocks_index (M ! 0))"
      unfolding announced_def did8 ..
    have "unat (announced did M) \<le> length (d_dsm_id_received ?r0 ! did)"
      using blocks_of_message_le same len by (simp add: announced_def)
    then have "read_dsm_block ?msg ?r0 = Some (?r0\<lparr>d_dsm_message := (d_dsm_message ?r0)[did := M ! 0 # new'],
     d_number_of_blocks := (d_number_of_blocks ?r0)[did := announced did M],
     d_dsm_id_received := (d_dsm_id_received ?r0)[did := (d_dsm_id_received ?r0 ! did)[0 := 1]]\<rparr>)"
      by (intro read_block_first[OF _ hdr0 hb(1) did _ cp0 _ _ _ ann n0])
        (use hk(2) same len did in simp_all)
    then show ?thesis unfolding get same using new' True by simp
  next
    case False
    then show ?thesis
      unfolding get
      using read_block_other[of ?msg ?r0 "get_dsm_id ?hb" "get_dsm_block_id ?hb" did b ?new]
        hdr hk same len did b16 hb cp sh by simp
  qed
  have "collected ?r' did M (insert b S)"
    unfolding collected_def
  proof (intro conjI ballI)
    show "dsm_shape ?r'"
      using sh did len blocks_of_message_le by (auto simp: dsm_shape_def list_all_length nth_list_update announced_def)
    show "did < 16" by (rule did)
    fix c assume c: "c \<in> insert b S"
    show "block_of (d_dsm_message ?r' ! did) c = block_of M c"
    proof (cases "c < 16")
      case True
      then show ?thesis using block_of_patch[OF buf bl b16 True] sh c len(1) did by auto
    next
      case False
      then have cS: "c \<in> S" "c \<noteq> b" using c b16 by auto
      then have "block_of ?buf c = block_of M c" using sh by blast
      moreover have "drop (13 * c) ?new = drop (13 * c) ?buf"
        using False b16 buf bl by simp
      ultimately show ?thesis using len(1) did by (simp add: block_of_def)
    qed
  next
    show "d_dsm_id_received ?r' ! did = map (\<lambda>c. if c \<in> insert b S then 1 else 0) [0..<16]"
      using sh len(2) did b16 by (auto simp: nth_list_update intro!: nth_equalityI)
  qed
  moreover have "d_number_of_blocks ?r' ! did = (if b = 0 then announced did M else d_number_of_blocks r ! did)"
    using len did by simp
  moreover have "unat (dsm_id (dsm_header_of ?r')) = did" using hdr hb(1) by simp
  ultimately show ?thesis using run by blast
qed

section \<open>Reassembly\<close>

lemma collect_blocks:
  assumes "collected r did M S" and "length M = 13 * unat (announced did M)"
    and "list_all (\<lambda>b. b < unat (announced did M)) bs"
    and "0 \<in> S \<Longrightarrow> d_number_of_blocks r ! did = announced did M"
  shows "\<exists>r'. foldM (\<lambda>b. collect (subframe_of h did M b)) bs r = Some r' \<and>
    collected r' did M (set bs \<union> S) \<and>
    (0 \<in> set bs \<union> S \<longrightarrow> d_number_of_blocks r' ! did = announced did M) \<and>
    (bs \<noteq> [] \<longrightarrow> unat (dsm_id (dsm_header_of r')) = did) \<and>
    (0 \<notin> set bs \<union> S \<longrightarrow> d_number_of_blocks r' ! did = d_number_of_blocks r ! did)"
  using assms(1,3,4)
proof (induction bs arbitrary: r S)
  case Nil
  then show ?case by simp
next
  case (Cons b bs)
  from Cons.prems(2) have b: "b < unat (announced did M)" by simp
  obtain r1 where r1: "collect (subframe_of h did M b) r = Some r1" "collected r1 did M (insert b S)"
      "d_number_of_blocks r1 ! did = (if b = 0 then announced did M else d_number_of_blocks r ! did)"
      "unat (dsm_id (dsm_header_of r1)) = did"
    using collect_block[OF Cons.prems(1) assms(2) b] by blast
  have "0 \<in> insert b S \<Longrightarrow> d_number_of_blocks r1 ! did = announced did M"
    using r1(3) Cons.prems(3) by (cases "b = 0") auto
  from Cons.IH[OF r1(2) _ this] Cons.prems(2) obtain r' where r':
      "foldM (\<lambda>b. collect (subframe_of h did M b)) bs r1 = Some r'"
      "collected r' did M (set bs \<union> insert b S)"
      "0 \<in> set bs \<union> insert b S \<longrightarrow> d_number_of_blocks r' ! did = announced did M"
      "bs \<noteq> [] \<longrightarrow> unat (dsm_id (dsm_header_of r')) = did"
      "0 \<notin> set bs \<union> insert b S \<longrightarrow> d_number_of_blocks r' ! did = d_number_of_blocks r1 ! did"
    by auto
  show ?case
  proof (intro exI[of _ r'] conjI impI)
    show "foldM (\<lambda>b. collect (subframe_of h did M b)) (b # bs) r = Some r'" using r1(1) r'(1) by simp
    show "collected r' did M (set (b # bs) \<union> S)" using r'(2) by (simp add: Un_commute insert_is_Un[symmetric])
    show "d_number_of_blocks r' ! did = announced did M" if "0 \<in> set (b # bs) \<union> S" using that r'(3) by auto
    show "unat (dsm_id (dsm_header_of r')) = did"
      using r'(1,4) r1(4) by (cases "bs = []") auto
    show "d_number_of_blocks r' ! did = d_number_of_blocks r ! did" if "0 \<notin> set (b # bs) \<union> S"
      using that r'(5) r1(3) by auto
  qed
qed

lemma sum_flags:
  assumes "S \<subseteq> {0..<n}" and "n \<le> 16"
  shows "sum_list (map unat (map (\<lambda>b. if b \<in> S then 1 else 0 :: u8) [0..<16])) = card S"
proof -
  have "sum_list (map unat (map (\<lambda>b. if b \<in> S then 1 else 0 :: u8) [0..<16])) =
      (\<Sum>b \<in> {0..<16}. if b \<in> S then 1 else 0)"
    by (simp add: interv_sum_list_conv_sum_set_nat o_def if_distrib cong: if_cong)
  also have "\<dots> = card ({0..<16} \<inter> S)" by (simp add: sum.If_cases)
  also have "{0..<16} \<inter> S = S" using assms by auto
  finally show ?thesis .
qed

lemma blocks_determine_message:
  assumes "length X = 256" and "length M = 13 * n" and "n \<le> 16"
    and "\<And>b. b < n \<Longrightarrow> block_of X b = block_of M b"
  shows "take (13 * n) X = M"
proof (rule nth_equalityI)
  show "length (take (13 * n) X) = length M" using assms(1-3) by simp
  fix i assume "i < length (take (13 * n) X)"
  then have i: "i < 13 * n" by simp
  then have b: "i div 13 < n" by (simp add: less_mult_imp_div_less mult.commute)
  have "i mod 13 < 13" by simp
  moreover have "13 * (i div 13) + i mod 13 = i" by simp
  ultimately have "block_of Y (i div 13) ! (i mod 13) = Y ! i" if "i < length Y" for Y :: "u8 list"
    using that by (simp add: block_of_def)
  with assms(4)[OF b] i assms(1-3) show "take (13 * n) X ! i = M ! i"
    by (metis nth_take order_less_le_trans mult_le_mono2 numeral_code(1) length_take min.strict_boundedE
        \<open>length (take (13 * n) X) = length M\<close> \<open>i < length (take (13 * n) X)\<close>)
qed

definition dsm_cleared :: "receiver \<Rightarrow> nat \<Rightarrow> receiver" where
  "dsm_cleared r did =
     r\<lparr>d_dsm_message := (d_dsm_message r)[did := replicate 256 0],
       d_dsm_id_received := (d_dsm_id_received r)[did := replicate 16 0]\<rparr>"

text \<open>C25: Reassembly of a DSM message: starting without any block of it, after its blocks arrived
  in any order and with any repetitions, the message is processed exactly when every block has
  arrived, with exactly the bytes sent and with the buffer cleared; before that nothing happens.\<close>

theorem dsm_reassembly:
  assumes fresh: "collected r did M {}" "d_number_of_blocks r ! did = 0"
    and M: "length M = 13 * unat (announced did M)"
    and bs: "bs \<noteq> []" "list_all (\<lambda>b. b < unat (announced did M)) bs"
    and msg: "vget (om_hkroot msg) 0 = Some h0"
  shows "\<exists>r'. foldM (\<lambda>b. collect (subframe_of h did M b)) bs r = Some r' \<and>
    process_dsm_block L msg r' =
      (if set bs = {0..<unat (announced did M)} then process_dsm_message L M h0 (dsm_cleared r' did)
       else Some r')"
proof -
  let ?n = "unat (announced did M)"
  from collect_blocks[OF fresh(1) M bs(2)] bs(1) obtain r' where r':
      "foldM (\<lambda>b. collect (subframe_of h did M b)) bs r = Some r'" "collected r' did M (set bs)"
      "0 \<in> set bs \<longrightarrow> d_number_of_blocks r' ! did = announced did M"
      "unat (dsm_id (dsm_header_of r')) = did"
      "0 \<notin> set bs \<longrightarrow> d_number_of_blocks r' ! did = 0"
    using fresh(2) by auto
  have n16: "?n \<le> 16" unfolding announced_def by (rule blocks_of_message_le)
  have sub: "set bs \<subseteq> {0..<?n}" using bs(2) by (auto simp: list_all_iff)
  note col = r'(2)[unfolded collected_def dsm_shape_def list_all_length]
  have get: "vget (d_number_of_blocks r') did = Some (d_number_of_blocks r' ! did)"
    "vget (d_dsm_id_received r') did = Some (d_dsm_id_received r' ! did)"
    "vget (d_dsm_message r') did = Some (d_dsm_message r' ! did)"
    using col by (simp_all add: vget_def)
  have sum: "sum_list (map unat (d_dsm_id_received r' ! did)) = card (set bs)"
    using sum_flags[OF sub n16] col by simp
  have n0: "announced did M \<noteq> 0"
    using bs by (cases bs) auto
  have "process_dsm_block L msg r' =
    (if set bs = {0..<?n} then process_dsm_message L M h0 (dsm_cleared r' did) else Some r')"
  proof (cases "set bs = {0..<?n}")
    case True
    have "0 < ?n" using n0 by (simp add: unat_gt_0)
    then have nb: "d_number_of_blocks r' ! did = announced did M" using True r'(3) by auto
    have "take (13 * ?n) (d_dsm_message r' ! did) = M"
      using col True n16 M by (intro blocks_determine_message) auto
    then have rd: "vread (d_dsm_message r' ! did) 0 (?n * SIZE_DSM_BLOCKS_BYTES) = Some M"
      using col n16 by (simp add: vread_eq SIZE_DSM_BLOCKS_BYTES_def mult.commute)
    show ?thesis
      using True get rd msg nb n0 sum r'(4)
      by (simp add: process_dsm_block_def Let_def dsm_cleared_def)
  next
    case False
    with sub have "card (set bs) < ?n"
      using psubset_card_mono[of "{0..<?n}" "set bs"] by auto
    moreover have "d_number_of_blocks r' ! did = announced did M \<or> d_number_of_blocks r' ! did = 0"
      using r'(3,5) by blast
    ultimately show ?thesis
      using False get sum r'(4) by (auto simp: process_dsm_block_def Let_def)
  qed
  with r'(1) show ?thesis by blast
qed

theorem dsm_reassembly_witness:
  "\<exists>r'. foldM (\<lambda>b. collect (subframe_of 0x52 0 sample_kroot_msg b)) [7, 6, 5, 5, 4, 3, 2, 1, 0] sample_cold = Some r' \<and>
     process_dsm_block sample_lib (subframe_of 0x52 0 sample_kroot_msg 0) r' =
       process_dsm_message sample_lib sample_kroot_msg 0x52 (dsm_cleared r' 0)"
proof -
  have ann: "unat (announced 0 sample_kroot_msg) = 8"
    by (simp add: announced_def sample_kroot_msg_def get_number_blocks_index_def blocks_of_message_def
        table_lookup_def OSNMA_TABLE_7_def)
  have fresh: "collected sample_cold 0 sample_kroot_msg {}" "d_number_of_blocks sample_cold ! 0 = 0"
    by (simp_all add: collected_def dsm_shape_def sample_cold_def sample_receiver_def initial_receiver_def
        list_all_iff map_replicate_const)
  have bs: "[7, 6, 5, 5, 4, 3, 2, 1, 0 :: nat] \<noteq> []"
    "list_all (\<lambda>b. b < unat (announced 0 sample_kroot_msg)) [7, 6, 5, 5, 4, 3, 2, 1, 0]"
    by (simp_all add: ann)
  have M: "length sample_kroot_msg = 13 * unat (announced 0 sample_kroot_msg)"
    by (simp add: ann sample_msg_fields)
  have msg: "vget (om_hkroot (subframe_of 0x52 0 sample_kroot_msg 0)) 0 = Some 0x52"
    by (simp add: subframe_of_def vget_def)
  have all: "set [7, 6, 5, 5, 4, 3, 2, 1, 0] = {0..<unat (announced 0 sample_kroot_msg)}"
    unfolding ann by auto
  from dsm_reassembly[OF fresh M bs msg, where h = "0x52" and L = sample_lib] show ?thesis
    unfolding all by (simp only: simp_thms if_True)
qed

end
