(* ===== verification/Osnma_Receiver.thy ===== *)
theory Osnma_Receiver
  imports Osnma_Dsm_Collect
begin

text \<open>
  The receiver as a whole: \<open>process_mack_message\<close>, \<open>read_and_process_mack_block\<close>,
  \<open>process_osnma_message\<close>, the message handler and the constructor of
  \<open>core/libs/osnma_msg_receiver.cc\<close>. A message of the telemetry decoders is a value of
  \<open>tlm_msg\<close>; the clock the handler reads in strict mode is an argument.
\<close>

section \<open>MACK messages\<close>

text \<open>The loop over the MACK messages that wait for their key: \<open>erase\<close> drops the handled ones.\<close>

definition release_mack :: "crypto_lib \<Rightarrow> mack_message \<Rightarrow> receiver \<Rightarrow> receiver option" where
  "release_mack L mack r =
     do { let r = r\<lparr>d_tags_awaiting_verify :=
                      mm_insert (mk_TOW mack) (tag0_of_mack mack) (d_tags_awaiting_verify r)\<rparr>;
          (verified, r) \<leftarrow> verify_macseq L r mack;
          Some (fold (\<lambda>ti r. r\<lparr>d_tags_awaiting_verify := mm_insert (mk_TOW mack)
                   (tag_of_info ti (mk_TOW mack) (mk_WN mack) (mk_PRNa mack) (ucast (mti_counter ti)))
                   (d_tags_awaiting_verify r)\<rparr>) verified r) }"

fun macseq_loop ::
  "crypto_lib \<Rightarrow> mack_message list \<Rightarrow> receiver \<Rightarrow> (mack_message list \<times> receiver) option" where
  "macseq_loop L [] r = Some ([], r)"
| "macseq_loop L (mack # macks) r =
     (if map_of (d_tesla_keys r) (mk_TOW mack + 30) \<noteq> None
      then do { r \<leftarrow> release_mack L mack r; macseq_loop L macks r }
      else do { (kept, r) \<leftarrow> macseq_loop L macks r; Some (mack # kept, r) })"

text \<open>The verification loop over the waiting tags. The loop never changes what its tests read.\<close>

definition check_tag :: "crypto_lib \<Rightarrow> receiver \<Rightarrow> tag \<Rightarrow> tag option" where
  "check_tag L r t =
     (if tag_has_key_available r t \<and> have_nav_data_tag (d_nav_data_manager r) t
      then do { (ret, t') \<leftarrow> verify_tag L r t;
                Some (t'\<lparr>tg_status := (if ret then SUCCESS else FAIL)\<rparr>) }
      else if tg_TOW t > tow_sf0_of r then Some (t\<lparr>skipped := skipped t + 1\<rparr>)
      else Some t)"

definition is_checked :: "receiver \<Rightarrow> tag \<Rightarrow> bool" where
  "is_checked r t \<longleftrightarrow> tag_has_key_available r t \<and> have_nav_data_tag (d_nav_data_manager r) t"

definition check_tags :: "crypto_lib \<Rightarrow> receiver \<Rightarrow> receiver option" where
  "check_tags L r =
     do { tags \<leftarrow> mapM (\<lambda>(k, t). do { t' \<leftarrow> check_tag L r t; Some (k, t') }) (d_tags_awaiting_verify r);
          let results = map snd (filter (\<lambda>((_, t), _). is_checked r t)
                          (zip (d_tags_awaiting_verify r) (map snd tags)));
          let ok = length (filter (\<lambda>t. tg_status t = SUCCESS) results);
          Some (r\<lparr>d_tags_awaiting_verify := tags,
                  d_count_successful_tags := d_count_successful_tags r + of_nat ok,
                  d_count_failed_tags := d_count_failed_tags r + of_nat (length results - ok)\<rparr>) }"

definition send_data_to_pvt :: "osnma_navdata list \<Rightarrow> receiver \<Rightarrow> receiver" where
  "send_data_to_pvt data r = r\<lparr>pvt_out := pvt_out r @ map Pvt_NavData data\<rparr>"

text \<open>The TESLA key of the message, unless one of its time of week is there already.\<close>

definition learn_tesla_key :: "crypto_lib \<Rightarrow> receiver \<Rightarrow> receiver option" where
  "learn_tesla_key L r =
     (let tow = tow_sf0_of r; key = mk_key (mack_of r) in
      if map_of (d_tesla_keys r) tow = None
      then do { (retV, r) \<leftarrow> verify_tesla_key L r key tow;
                Some (if retV then r\<lparr>d_tesla_keys := map_insert tow key (d_tesla_keys r)\<rparr> else r) }
      else Some r)"

definition process_mack_message :: "crypto_lib \<Rightarrow> receiver \<Rightarrow> receiver option" where
  "process_mack_message L r =
     (if \<not> d_kroot_verified r \<and> \<not> d_tesla_key_verified r then Some r
      else do {
        r \<leftarrow> learn_tesla_key L r;
        (kept, r) \<leftarrow> macseq_loop L (d_macks_awaiting_MACSEQ_verification r) r;
        let r = r\<lparr>d_macks_awaiting_MACSEQ_verification := kept @ [mack_of r]\<rparr>;
        r \<leftarrow> check_tags L r;
        let tag_size = table_lookup 0 OSNMA_TABLE_11 (ts (kroot_of r));
        let store = update_nav_data (d_tags_awaiting_verify r) tag_size (d_nav_data_manager r);
        let (data_to_send, store) = get_verified_data store;
        let r = send_data_to_pvt data_to_send (r\<lparr>d_nav_data_manager := store\<rparr>);
        Some (control_tags_awaiting_verify_size (remove_verified_tags r)) })"

text \<open>The fifteen words of the subframe, most significant byte first, into the 60 bytes.\<close>

definition word_bytes :: "u32 \<Rightarrow> u8 list" where
  "word_bytes value =
     [ucast (drop_bit 24 (value AND 0xFF000000)), ucast (drop_bit 16 (value AND 0x00FF0000)),
      ucast (drop_bit 8 (value AND 0x0000FF00)), ucast (value AND 0x000000FF)]"

definition load_mack :: "u32 list \<Rightarrow> u8 list \<Rightarrow> u8 list option" where
  "load_mack words buf =
     (let bytes = concat (map word_bytes words) in
      if length bytes \<le> length buf then Some (bytes @ drop (length bytes) buf) else None)"

definition read_and_process_mack_block :: "crypto_lib \<Rightarrow> osnma_msg \<Rightarrow> receiver \<Rightarrow> receiver option" where
  "read_and_process_mack_block L msg r =
     do { m \<leftarrow> load_mack (om_mack msg) (d_mack_message r);
          let r = r\<lparr>d_mack_message := m, d_osnma_data := (d_osnma_data r)
                     \<lparr>d_nav_data := (d_nav_data (d_osnma_data r))\<lparr>d_TOW_sf0 := om_TOW_sf0 msg\<rparr>\<rparr>\<rparr>;
          let can_process_mack_block = (nmas (nma_of r) \<noteq> 3 \<and> d_kroot_verified r) \<or>
                                       (nmas (nma_of r) = 3 \<and> \<not> d_kroot_verified r);
          let can_verify_tesla_key = d_kroot_verified r \<or> d_tesla_key_verified r;
          let can_parse_tag_fields = ts (kroot_of r) \<noteq> 0;
          if can_verify_tesla_key \<and> can_parse_tag_fields \<and> can_process_mack_block then
            do { r \<leftarrow> read_mack_header r;
                 let r = r\<lparr>d_osnma_data := (d_osnma_data r)\<lparr>d_mack_msg := (mack_of r)
                            \<lparr>mk_PRNa := om_PRN msg, mk_TOW := om_TOW_sf0 msg, mk_WN := om_WN_sf0 msg\<rparr>\<rparr>\<rparr>;
                 r \<leftarrow> read_mack_body r;
                 process_mack_message L r }
          else Some r }"

section \<open>The status of the service\<close>

text \<open>The blocks of \<open>process_osnma_message\<close> that react to the NMA header, in their order.\<close>

definition on_pk_renewal :: "u32 \<Rightarrow> receiver \<Rightarrow> receiver" where
  "on_pk_renewal GST r =
     (if nmas (nma_of r) = 2 \<and> cpks (nma_of r) = 4 \<and> d_GST_PKR_PKREV_start r = 0
      then r\<lparr>d_flag_PK_renewal := True, d_GST_PKR_PKREV_start := GST\<rparr> else r)"

definition on_pk_renewal_end :: "receiver \<Rightarrow> receiver" where
  "on_pk_renewal_end r =
     (if d_flag_PK_renewal r \<and> nmas (nma_of r) = 2 \<and> cpks (nma_of r) = 1
      then r\<lparr>d_flag_PK_renewal := False\<rparr> else r)"

definition on_pk_revocation :: "u32 \<Rightarrow> receiver \<Rightarrow> receiver option" where
  "on_pk_revocation GST r =
     (if nmas (nma_of r) = 3 \<and> cpks (nma_of r) = 5 \<and> d_GST_PKR_PKREV_start r = 0
      then do { nbs \<leftarrow> vput (d_number_of_blocks r) (unat (dsm_id (dsm_header_of r))) 0;
                Some (r\<lparr>d_flag_PK_revocation := True, d_number_of_blocks := nbs,
                        d_public_key_verified := False, d_kroot_verified := False,
                        d_tesla_key_verified := False, d_GST_PKR_PKREV_start := GST\<rparr>) }
      else Some r)"

definition on_pk_revocation_end :: "receiver \<Rightarrow> receiver" where
  "on_pk_revocation_end r =
     (if d_flag_PK_revocation r \<and> nmas (nma_of r) = 2 \<and> cpks (nma_of r) = 1
      then r\<lparr>d_flag_PK_revocation := False\<rparr> else r)"

definition on_alert_message :: "u32 \<Rightarrow> receiver \<Rightarrow> receiver" where
  "on_alert_message GST r =
     (if nmas (nma_of r) = 3 \<and> cpks (nma_of r) = 7 \<and> d_GST_PKR_AM_start r = 0
      then r\<lparr>d_flag_alert_message := True, d_GST_PKR_AM_start := GST,
             d_public_key_verified := False, d_kroot_verified := False\<rparr> else r)"

definition on_chain_renewal :: "u32 \<Rightarrow> receiver \<Rightarrow> receiver" where
  "on_chain_renewal GST r =
     (if nmas (nma_of r) = 2 \<and> cpks (nma_of r) = 2 \<and> d_GST_chain_renewal_start r = 0
      then r\<lparr>d_flag_chain_renewal := True, d_GST_chain_renewal_start := GST\<rparr> else r)"

definition on_chain_renewal_end :: "receiver \<Rightarrow> receiver" where
  "on_chain_renewal_end r =
     (if d_flag_chain_renewal r \<and> nmas (nma_of r) = 2 \<and> cpks (nma_of r) = 1
      then r\<lparr>d_flag_chain_renewal := False,
             d_osnma_data := (d_osnma_data r)\<lparr>d_dsm_kroot_message :=
               d_dsm_kroot_new_message (d_osnma_data r)\<rparr>,
             d_tesla_key_verified := False\<rparr> else r)"

definition on_chain_revocation :: "u32 \<Rightarrow> receiver \<Rightarrow> receiver option" where
  "on_chain_revocation GST r =
     (if nmas (nma_of r) = 3 \<and> cpks (nma_of r) = 3 \<and> d_GST_chain_revocation_start r = 0
      then do { nbs \<leftarrow> vput (d_number_of_blocks r) (unat (dsm_id (dsm_header_of r))) 0;
                Some (r\<lparr>d_flag_chain_revocation := True, d_number_of_blocks := nbs,
                        d_kroot_verified := False, d_tesla_key_verified := False,
                        d_GST_chain_revocation_start := GST\<rparr>) }
      else Some r)"

definition on_chain_revocation_end :: "receiver \<Rightarrow> receiver" where
  "on_chain_revocation_end r =
     (if d_flag_chain_revocation r \<and> nmas (nma_of r) = 2 \<and> cpks (nma_of r) = 1
      then r\<lparr>d_flag_chain_revocation := False\<rparr> else r)"

definition service_status :: "u32 \<Rightarrow> receiver \<Rightarrow> receiver option" where
  "service_status GST r =
     do { let r = on_pk_renewal_end (on_pk_renewal GST r);
          r \<leftarrow> on_pk_revocation GST r;
          let r = on_chain_renewal_end (on_chain_renewal GST (on_alert_message GST (on_pk_revocation_end r)));
          r \<leftarrow> on_chain_revocation GST r;
          Some (on_chain_revocation_end r) }"

text \<open>\<open>d_GST_Sf = d_GST_0 + 30 * std::floor((d_GST_SIS - d_GST_0) / 30)\<close>: the difference and its
  quotient are 32-bit unsigned, the product and the sum are exact in double, and the conversion
  back is undefined when the sum does not fit 32 bits.\<close>

definition update_subframe_time :: "receiver \<Rightarrow> receiver option" where
  "update_subframe_time r =
     (if towh_k (kroot_of r) \<noteq> 0 then
        let GST_0 = compute_gst (ucast (wn_k (kroot_of r))) (ucast (towh_k (kroot_of r)) * 3600);
            sf = unat GST_0 + 30 * unat ((d_GST_SIS r - GST_0) div 30)
        in if sf < 2 ^ 32 then Some (r\<lparr>d_GST_0 := GST_0, d_GST_Sf := of_nat sf\<rparr>) else None
      else Some r)"

definition process_osnma_message :: "crypto_lib \<Rightarrow> osnma_msg \<Rightarrow> receiver \<Rightarrow> receiver option" where
  "process_osnma_message L msg r =
     (if d_flag_alert_message r \<and> (d_public_key_verified r \<or> d_kroot_verified r) then Some r
      else do {
        h0 \<leftarrow> vget (om_hkroot msg) 0;
        let r = read_nma_header h0 r;
        if nmas (nma_of r) = 0 then Some r
        else do {
          r \<leftarrow> service_status (compute_gst (om_WN_sf0 msg) (om_TOW_sf0 msg)) r;
          h1 \<leftarrow> vget (om_hkroot msg) 1;
          let r = read_dsm_header h1 r;
          r \<leftarrow> read_dsm_block msg r;
          r \<leftarrow> process_dsm_block L msg r;
          r \<leftarrow> update_subframe_time r;
          read_and_process_mack_block L msg r } })"

section \<open>The handler\<close>

datatype tlm_msg =
  Tlm_Osnma osnma_msg
| Tlm_NavBits u32 string u32     \<comment> \<open>PRN, bits, TOW\<close>
| Tlm_Other                      \<comment> \<open>any other type: a warning\<close>

text \<open>\<open>std::abs(static_cast<int64_t>(d_GST_Rx - d_GST_SIS))\<close>: the difference is taken modulo
  \<open>2 ^ 32\<close> and is not negative in 64 bits.\<close>

definition delta_T :: "u32 \<Rightarrow> u32 \<Rightarrow> int" where
  "delta_T GST_Rx GST_SIS = abs (int (unat (GST_Rx - GST_SIS)))"

definition receiver_time :: "u32 \<Rightarrow> osnma_msg \<Rightarrow> receiver \<Rightarrow> receiver" where
  "receiver_time now msg r =
     (let sis = compute_gst (om_WN_sf0 msg) (om_TOW_sf0 msg);
          r = r\<lparr>d_GST_SIS := sis\<rparr>;
          r = (if d_last_verified_key_GST r = 0 then r\<lparr>d_last_received_GST := sis\<rparr>
               else if sis > d_last_received_GST r then r\<lparr>d_last_received_GST := sis\<rparr>
               else r)
      in if d_strict_mode r then r\<lparr>d_GST_Rx := now\<rparr> else r\<lparr>d_GST_Rx := d_last_received_GST r\<rparr>)"

definition publish_osnma_data :: "receiver \<Rightarrow> receiver" where
  "publish_osnma_data r =
     (if d_new_data r
      then r\<lparr>pvt_out := pvt_out r @ [Pvt_OsnmaData (d_osnma_data r)], d_new_data := False\<rparr>
      else r)"

definition msg_handler_osnma :: "crypto_lib \<Rightarrow> u32 \<Rightarrow> tlm_msg \<Rightarrow> receiver \<Rightarrow> receiver option" where
  "msg_handler_osnma L now m r =
     (case m of
        Tlm_Osnma msg \<Rightarrow>
          (let r = receiver_time now msg r;
               d = delta_T (d_GST_Rx r) (d_GST_SIS r);
               T_L = int (unat d_T_L)
           in if d \<le> T_L then
                do { r \<leftarrow> process_osnma_message L msg (r\<lparr>d_tags_to_verify := [0, 4, 12]\<rparr>);
                     Some (publish_osnma_data r) }
              else if d > T_L \<and> d \<le> 10 * T_L then
                do { r \<leftarrow> process_osnma_message L msg (r\<lparr>d_tags_to_verify := [12]\<rparr>);
                     Some (publish_osnma_data r) }
              else Some (r\<lparr>d_tags_to_verify := []\<rparr>))
      | Tlm_NavBits prn nav_data TOW \<Rightarrow>
          do { store \<leftarrow> add_navigation_data nav_data prn TOW (d_nav_data_manager r);
               Some (publish_osnma_data (r\<lparr>d_nav_data_manager := store\<rparr>)) }
      | Tlm_Other \<Rightarrow> Some (publish_osnma_data r))"

text \<open>The constructor; the crypto object is the one its files gave.\<close>

definition make_receiver ::
  "crypto_lib \<Rightarrow> gnss_crypto \<Rightarrow> (u8 \<times> u8 list) option \<Rightarrow> u8 list option \<Rightarrow> bool \<Rightarrow> u32 \<Rightarrow> receiver option" where
  "make_receiver L crypto kfile pfile strict_mode now =
     do { let r = initial_receiver crypto kfile pfile strict_mode;
          r \<leftarrow> (if have_public_key crypto then
                  (let r = r\<lparr>d_public_key_verified := True\<rparr>;
                       dsm_nmah = parse_dsm_kroot kfile
                   in if fst dsm_nmah \<noteq> []
                      then process_dsm_message L (fst dsm_nmah) (snd dsm_nmah) (r\<lparr>d_flag_hot_start := True\<rparr>)
                      else Some r)
                else Some r);
          Some (if strict_mode then r\<lparr>d_GST_Rx := now\<rparr> else r) }"

end
