(* ===== verification/Osnma_Invariant.thy ===== *)
theory Osnma_Invariant
  imports Osnma_Receiver
begin

text \<open>
  The invariant of the receiver and the properties of its handler: well-formed containers and
  bounded queues after every message, what may be sent to the PVT block, the effect of an
  authenticated alert message, and the check of the local time.
\<close>

section \<open>The invariant\<close>

definition kroot_wf :: "dsm_kroot_message \<Rightarrow> bool" where
  "kroot_wf kr \<longleftrightarrow> ts kr = 0 \<or> 8 * length (kroot kr) = unat (get_lk_bits (ks kr))"

text \<open>What was sent to the PVT block is navigation data, authenticated by enough tag bits: no
  statement sets \<open>d_new_data\<close>, so the OSNMA data themselves never go out.\<close>

definition pvt_ok :: "pvt_msg list \<Rightarrow> bool" where
  "pvt_ok out \<longleftrightarrow> list_all (\<lambda>m. case m of Pvt_NavData nd \<Rightarrow> verified_bits nd \<ge> L_t_min
                                     | Pvt_OsnmaData _ \<Rightarrow> False) out"

definition receiver_inv :: "receiver \<Rightarrow> bool" where
  "receiver_inv r \<longleftrightarrow>
     map_inv (d_tesla_keys r) \<and> mm_inv (d_tags_awaiting_verify r) \<and>
     length (d_tags_awaiting_verify r) \<le> 500 \<and> nav_inv (d_nav_data_manager r) \<and>
     dsm_shape r \<and> length (d_mack_message r) = 60 \<and>
     (d_tesla_key_verified r \<longrightarrow> d_tesla_keys r \<noteq> []) \<and> pvt_ok (pvt_out r) \<and> \<not> d_new_data r \<and>
     kroot_wf (kroot_of r) \<and> kroot_wf (d_dsm_kroot_new_message (d_osnma_data r)) \<and>
     length (itn (pkr_of r)) = 128"

text \<open>The part of the invariant that does not concern the queue of tags, and what it reads.\<close>

definition core_inv :: "receiver \<Rightarrow> bool" where
  "core_inv r \<longleftrightarrow>
     map_inv (d_tesla_keys r) \<and> nav_inv (d_nav_data_manager r) \<and> dsm_shape r \<and>
     length (d_mack_message r) = 60 \<and> (d_tesla_key_verified r \<longrightarrow> d_tesla_keys r \<noteq> []) \<and>
     pvt_ok (pvt_out r) \<and> \<not> d_new_data r \<and>
     kroot_wf (kroot_of r) \<and> kroot_wf (d_dsm_kroot_new_message (d_osnma_data r)) \<and>
     length (itn (pkr_of r)) = 128"

lemma receiver_inv_split:
  "receiver_inv r \<longleftrightarrow> core_inv r \<and> mm_inv (d_tags_awaiting_verify r) \<and>
     length (d_tags_awaiting_verify r) \<le> 500"
  by (auto simp: receiver_inv_def core_inv_def)

lemma kroot_wf_default: "kroot_wf default_kroot_message"
  by (simp add: kroot_wf_def default_kroot_message_def)

lemma core_inv_initial: "core_inv (initial_receiver c kf pf s)"
  by (simp add: core_inv_def initial_receiver_def default_osnma_data_def kroot_wf_default
      dsm_shape_def list_all_iff default_pkr_message_def pvt_ok_def)

section \<open>DSM processing keeps it\<close>

lemma dsm_shape_cong:
  "d_dsm_message r' = d_dsm_message r \<Longrightarrow> d_dsm_id_received r' = d_dsm_id_received r \<Longrightarrow>
   d_number_of_blocks r' = d_number_of_blocks r \<Longrightarrow> dsm_shape r' = dsm_shape r"
  by (simp add: dsm_shape_def)

lemma list_all_update: "list_all P xs \<Longrightarrow> P x \<Longrightarrow> list_all P (xs[i := x])"
  using set_update_subset_insert[of xs i x] by (auto simp: list_all_iff)

lemma list_all_nth_lt: "list_all P xs \<Longrightarrow> i < length xs \<Longrightarrow> P (xs ! i)"
  by (simp add: list_all_length)

text \<open>What the DSM operations leave alone.\<close>

definition dsm_frame :: "receiver \<Rightarrow> receiver \<Rightarrow> bool" where
  "dsm_frame r r' \<longleftrightarrow>
     d_tesla_keys r' = d_tesla_keys r \<and> d_tags_awaiting_verify r' = d_tags_awaiting_verify r \<and>
     d_nav_data_manager r' = d_nav_data_manager r \<and> d_mack_message r' = d_mack_message r \<and>
     d_tesla_key_verified r' = d_tesla_key_verified r \<and> pvt_out r' = pvt_out r \<and>
     d_new_data r' = d_new_data r \<and>
     d_macks_awaiting_MACSEQ_verification r' = d_macks_awaiting_MACSEQ_verification r"

lemma dsm_frame_refl [simp]: "dsm_frame r r"
  by (simp add: dsm_frame_def)

lemma dsm_frame_trans: "dsm_frame r s \<Longrightarrow> dsm_frame s t \<Longrightarrow> dsm_frame r t"
  by (simp add: dsm_frame_def)

lemma core_inv_frame:
  "core_inv r \<Longrightarrow> dsm_frame r r' \<Longrightarrow> dsm_shape r' \<Longrightarrow> kroot_wf (kroot_of r') \<Longrightarrow>
   kroot_wf (d_dsm_kroot_new_message (d_osnma_data r')) \<Longrightarrow> length (itn (pkr_of r')) = 128 \<Longrightarrow> core_inv r'"
  by (simp add: core_inv_def dsm_frame_def)

lemma parse_kroot_wf:
  assumes "parse_kroot r m kr0 = Some (kr, lk, dsb, pdk)"
  shows "kroot_wf kr" "kroot_wf (kr\<lparr>kr_verified := v\<rparr>)"
proof -
  note f = parse_kroot_fields[OF assms]
  have "length (kroot kr) = unat lk" using f get_kroot_total[of m lk] by auto
  moreover have "lk = get_lk_bits (ks kr) div 8" using f by simp
  ultimately have "8 * length (kroot kr) = unat (get_lk_bits (ks kr))"
    using table_10_values[of "ks kr"] by auto
  then show "kroot_wf kr" "kroot_wf (kr\<lparr>kr_verified := v\<rparr>)" by (simp_all add: kroot_wf_def)
qed

text \<open>The operations on the data of a message: frame, shape and the three messages.\<close>

definition dsm_data_inv :: "receiver \<Rightarrow> bool" where
  "dsm_data_inv r \<longleftrightarrow> dsm_shape r \<and> kroot_wf (kroot_of r) \<and>
     kroot_wf (d_dsm_kroot_new_message (d_osnma_data r)) \<and> length (itn (pkr_of r)) = 128"

lemma core_inv_data: "core_inv r \<Longrightarrow> dsm_data_inv r"
  by (simp add: core_inv_def dsm_data_inv_def)

lemma core_inv_dsm: "core_inv r \<Longrightarrow> dsm_frame r r' \<Longrightarrow> dsm_data_inv r' \<Longrightarrow> core_inv r'"
  by (auto simp: dsm_data_inv_def intro: core_inv_frame)

lemma set_kroot_inv:
  "dsm_data_inv r \<Longrightarrow> kroot_wf kr \<Longrightarrow> dsm_data_inv (set_kroot nc kr r) \<and> dsm_frame r (set_kroot nc kr r)"
  by (simp add: set_kroot_def dsm_data_inv_def dsm_shape_def dsm_frame_def)

lemma count_failed_inv: "dsm_data_inv r \<Longrightarrow> dsm_data_inv (count_failed_kroot r) \<and> dsm_frame r (count_failed_kroot r)"
  by (simp add: count_failed_kroot_def dsm_data_inv_def dsm_shape_def dsm_frame_def)

lemma renew_inv: "dsm_data_inv r \<Longrightarrow> dsm_data_inv (renew_public_key L kr r) \<and> dsm_frame r (renew_public_key L kr r)"
  by (simp add: renew_public_key_def Let_def dsm_data_inv_def dsm_shape_def dsm_frame_def)

lemma reset_inv: "dsm_data_inv r \<Longrightarrow> dsm_data_inv (reset_number_of_blocks r) \<and> dsm_frame r (reset_number_of_blocks r)"
  by (auto simp: reset_number_of_blocks_def Let_def dsm_data_inv_def dsm_shape_def dsm_frame_def
      intro: list_all_update)

lemma authenticate_inv:
  assumes "dsm_data_inv r" and "kroot_wf (kr\<lparr>kr_verified := True\<rparr>)"
    and "authenticate_kroot L nc kr dsb msg m h r = (ret, r')"
  shows "dsm_data_inv r' \<and> dsm_frame r r'"
proof -
  define r1 where "r1 = renew_public_key L kr r"
  have r1: "dsm_data_inv r1" "dsm_frame r r1" using renew_inv[OF assms(1)] by (simp_all add: r1_def)
  define r2 where "r2 = (if dsb = 512
                then r1\<lparr>d_kroot_verified := verify_signature_ecdsa_p256 L (d_crypto r1) msg (ds kr)\<rparr>
                else if dsb = 1056
                then r1\<lparr>d_kroot_verified := verify_signature_ecdsa_p521 L (d_crypto r1) msg (ds kr)\<rparr>
                else r1)"
  have r2: "dsm_data_inv r2" "dsm_frame r1 r2"
    using r1(1) by (simp_all add: r2_def dsm_data_inv_def dsm_shape_def dsm_frame_def)
  define r3 where "r3 = set_kroot nc (kr\<lparr>kr_verified := True\<rparr>) r2"
  have r3: "dsm_data_inv r3" "dsm_frame r2 r3" using set_kroot_inv[OF r2(1) assms(2)] by (simp_all add: r3_def)
  have "(ret, r') = (if d_kroot_verified r2 then
           (if d_flag_hot_start r3 then (True, r3\<lparr>d_flag_hot_start := False\<rparr>)
            else (False, store_dsm_kroot m h r3))
         else (False, r2\<lparr>d_flag_alert_message := False,
                         d_count_failed_Kroot := d_count_failed_Kroot r2 + 1\<rparr>))"
    using assms(3) unfolding authenticate_kroot_def Let_def r3_def r2_def r1_def by (rule sym)
  then have "dsm_data_inv r' \<and> (dsm_frame r2 r' \<or> dsm_frame r3 r')"
    using r2(1) r3(1)
    by (auto simp: store_dsm_kroot_def dsm_data_inv_def dsm_shape_def dsm_frame_def split: if_splits)
  with r1(2) r2(2) r3(2) show ?thesis by (blast intro: dsm_frame_trans)
qed

lemma process_dsm_kroot_inv:
  assumes "dsm_data_inv r" and "process_dsm_kroot L m h r = Some (ret, r')"
  shows "dsm_data_inv r' \<and> dsm_frame r r'"
  using assms(2)
proof (cases rule: process_dsm_kroot_cases)
  case (rejected c nc kr lk dsb pdk)
  with set_kroot_inv[OF assms(1) parse_kroot_wf(1)[OF rejected(3)], of nc] show ?thesis
    using count_failed_inv[of "set_kroot nc kr r"] by (auto intro: dsm_frame_trans)
next
  case (checked c nc kr lk dsb pdk fl)
  from set_kroot_inv[OF assms(1) parse_kroot_wf(1)[OF checked(3)], of nc]
  have s: "dsm_data_inv (set_kroot nc kr r)" "dsm_frame r (set_kroot nc kr r)" by auto
  from authenticate_inv[OF s(1) parse_kroot_wf(2)[OF checked(3)] checked(7)[symmetric]] s(2)
  show ?thesis by (auto intro: dsm_frame_trans)
qed

lemma process_dsm_pkr_inv:
  assumes "dsm_data_inv r" and "process_dsm_pkr L m r = Some r'"
  shows "dsm_data_inv r' \<and> dsm_frame r r'"
proof -
  have itn: "length (itn p) = 128" if "parse_pkr m p0 = Some (p, a, b)" for p p0 a b
    using that by (auto simp: parse_pkr_def Let_def bind_eq_Some_conv dest!: vread_length)
  have n: "dsm_data_inv (set_pkr p (note_new_key_id q r)) \<and> dsm_frame r (set_pkr p (note_new_key_id q r))"
    if "length (itn p) = 128" for p q
    using that assms(1) by (simp add: set_pkr_def note_new_key_id_def dsm_data_inv_def dsm_shape_def dsm_frame_def)
  have s: "dsm_data_inv (set_pkr p s) \<and> dsm_frame s (set_pkr p s)" if "length (itn p) = 128" "dsm_data_inv s" for p s
    using that by (simp add: set_pkr_def dsm_data_inv_def dsm_shape_def dsm_frame_def)
  have a: "dsm_data_inv (accept_pkr L p s) \<and> dsm_frame s (accept_pkr L p s)" if "dsm_data_inv s" for p s
    using that by (simp add: accept_pkr_def Let_def dsm_data_inv_def dsm_shape_def dsm_frame_def)
  from assms(2) show ?thesis
  proof (cases rule: process_dsm_pkr_cases)
    case (wrong_length p dpl npkl)
    with n[OF itn[OF wrong_length(1)], of p] show ?thesis
      by (simp add: dsm_data_inv_def dsm_shape_def dsm_frame_def)
  next
    case (accepted p dpl npkl pdp)
    note i = itn[OF accepted(1)]
    let ?p = "p\<lparr>p_dp := pdp\<rparr>" and ?s = "set_pkr p (note_new_key_id p r)"
    have "dsm_data_inv ?s" "dsm_frame r ?s" using n[OF i, of p] by auto
    moreover from this have "dsm_data_inv (set_pkr ?p ?s)" "dsm_frame ?s (set_pkr ?p ?s)"
      using s[of ?p ?s] i by auto
    ultimately show ?thesis using a[of "set_pkr ?p ?s" ?p] accepted(3) by (auto intro: dsm_frame_trans)
  next
    case (refused p dpl npkl pdp r1)
    note i = itn[OF refused(1)]
    let ?p = "p\<lparr>p_dp := pdp\<rparr>" and ?s = "set_pkr p (note_new_key_id p r)"
    have "dsm_data_inv ?s" "dsm_frame r ?s" using n[OF i, of p] by auto
    moreover from this have "dsm_data_inv r1" "dsm_frame ?s r1"
      using s[of ?p ?s] i refused(2) by auto
    ultimately show ?thesis using refused(3) by (simp add: dsm_data_inv_def dsm_shape_def dsm_frame_def)
  qed
qed

lemma process_dsm_message_inv:
  assumes "dsm_data_inv r" and "process_dsm_message L m h r = Some r'"
  shows "dsm_data_inv r' \<and> dsm_frame r r'"
proof -
  consider (kroot) ret r1 where "process_dsm_kroot L m h r = Some (ret, r1)"
      "r' = (if ret then r1 else reset_number_of_blocks r1)"
    | (pkr) r1 where "process_dsm_pkr L m r = Some r1" "r' = reset_number_of_blocks r1"
    | (none) "r' = reset_number_of_blocks r"
  proof (cases "(dsm_id (dsm_header_of r) < 12 \<or> d_flag_hot_start r) \<and> d_public_key_verified r")
    case True
    with assms(2) obtain ret r1 where "process_dsm_kroot L m h r = Some (ret, r1)"
      "r' = (if ret then r1 else reset_number_of_blocks r1)"
      unfolding process_dsm_message_def Let_def if_P[OF True] by (auto simp: bind_eq_Some_conv)
    then show ?thesis by (rule that(1))
  next
    case no_kroot: False
    show ?thesis
    proof (cases "dsm_id (dsm_header_of r) \<ge> 12 \<and> dsm_id (dsm_header_of r) < 16")
      case True
      with assms(2) obtain r1 where "process_dsm_pkr L m r = Some r1" "r' = reset_number_of_blocks r1"
        unfolding process_dsm_message_def Let_def if_not_P[OF no_kroot] if_P[OF True]
        by (auto simp: bind_eq_Some_conv)
      then show ?thesis by (rule that(2))
    next
      case False
      from assms(2) show ?thesis
        unfolding process_dsm_message_def Let_def if_not_P[OF no_kroot] if_not_P[OF False]
        by (intro that(3)) simp
    qed
  qed
  then show ?thesis
  proof cases
    case kroot
    with process_dsm_kroot_inv[OF assms(1) kroot(1)] reset_inv[of r1] show ?thesis
      by (auto intro: dsm_frame_trans)
  next
    case pkr
    with process_dsm_pkr_inv[OF assms(1) pkr(1)] reset_inv[of r1] show ?thesis
      by (auto intro: dsm_frame_trans)
  next
    case none
    with reset_inv[OF assms(1)] show ?thesis by simp
  qed
qed

lemma process_dsm_block_cases:
  assumes "process_dsm_block L msg r = Some r'"
  obtains (waiting) "r' = r"
  | (complete) did m h where "did = unat (dsm_id (dsm_header_of r))"
      "process_dsm_message L m h (r\<lparr>d_dsm_message := (d_dsm_message r)[did := replicate 256 0],
         d_dsm_id_received := (d_dsm_id_received r)[did := replicate 16 0]\<rparr>) = Some r'"
proof -
  let ?did = "unat (dsm_id (dsm_header_of r))"
  from assms obtain nb received where nb: "vget (d_number_of_blocks r) ?did = Some nb"
    "vget (d_dsm_id_received r) ?did = Some received"
    unfolding process_dsm_block_def Let_def bind_eq_Some_conv by blast
  show ?thesis
  proof (cases "nb \<noteq> 0 \<and> unat nb = sum_list (map unat received)")
    case False
    from assms nb have "r' = r"
      unfolding process_dsm_block_def Let_def by (simp only: bind.bind_lunit if_not_P[OF False]) simp
    then show ?thesis by (rule waiting)
  next
    case True
    from assms nb obtain buf m h where "process_dsm_message L m h
        (r\<lparr>d_dsm_message := (d_dsm_message r)[?did := replicate 256 0],
         d_dsm_id_received := (d_dsm_id_received r)[?did := replicate 16 0]\<rparr>) = Some r'"
      unfolding process_dsm_block_def Let_def
      by (simp only: bind.bind_lunit if_P[OF True]) (simp only: bind_eq_Some_conv, blast)
    then show ?thesis by (rule complete[OF refl])
  qed
qed

lemma process_dsm_block_inv:
  assumes "dsm_data_inv r" and "process_dsm_block L msg r = Some r'"
  shows "dsm_data_inv r' \<and> dsm_frame r r'"
  using assms(2)
proof (cases rule: process_dsm_block_cases)
  case waiting
  with assms(1) show ?thesis by simp
next
  case (complete did m h)
  have "dsm_data_inv (r\<lparr>d_dsm_message := (d_dsm_message r)[did := replicate 256 0],
      d_dsm_id_received := (d_dsm_id_received r)[did := replicate 16 0]\<rparr>)" (is "dsm_data_inv ?r1")
    using assms(1) by (simp add: dsm_data_inv_def dsm_shape_def list_all_update)
  moreover have "dsm_frame r ?r1" by (simp add: dsm_frame_def)
  ultimately show ?thesis
    using process_dsm_message_inv[of ?r1 L m h r'] complete(2) dsm_frame_trans by blast
qed

end
