(* ===== verification/Osnma_Run.thy ===== *)
theory Osnma_Run
  imports Osnma_Invariant
begin

text \<open>
  The invariant over the MACK messages, the service status and the handler, and over every
  sequence of messages the handler can receive.
\<close>

section \<open>Blocks and headers\<close>

lemma copy_block_length: "length (snd (copy_block buf pos bs)) = length buf"
  by (induction buf pos bs rule: copy_block.induct) simp_all

definition dsm_store :: "u8 list list \<Rightarrow> u16 list \<Rightarrow> u8 list list \<Rightarrow> receiver \<Rightarrow> receiver" where
  "dsm_store ms nbs ids r = r\<lparr>d_dsm_message := ms, d_number_of_blocks := nbs, d_dsm_id_received := ids\<rparr>"

text \<open>Everything a block writes are the three arrays, and their shapes stay.\<close>

definition shapes :: "u8 list list \<Rightarrow> u16 list \<Rightarrow> u8 list list \<Rightarrow> bool" where
  "shapes ms nbs ids \<longleftrightarrow>
     length ms = 16 \<and> list_all (\<lambda>b. length b = 256) ms \<and>
     length ids = 16 \<and> list_all (\<lambda>b. length b = 16) ids \<and>
     length nbs = 16 \<and> list_all (\<lambda>n. unat n \<le> 16) nbs"

lemma dsm_store_order:
  "r\<lparr>d_number_of_blocks := nbs, d_dsm_message := ms, d_dsm_id_received := ids\<rparr> = dsm_store ms nbs ids r"
  by (rule receiver.equality) (simp_all add: dsm_store_def)

lemma dsm_store_inv:
  "dsm_data_inv r \<Longrightarrow> shapes ms nbs ids \<Longrightarrow> dsm_data_inv (dsm_store ms nbs ids r) \<and> dsm_frame r (dsm_store ms nbs ids r)"
  by (simp add: dsm_store_def shapes_def dsm_data_inv_def dsm_shape_def dsm_frame_def)

lemma shapes_of: "dsm_data_inv r \<Longrightarrow> shapes (d_dsm_message r) (d_number_of_blocks r) (d_dsm_id_received r)"
  by (simp add: shapes_def dsm_data_inv_def dsm_shape_def)

lemma shapes_update:
  "shapes ms nbs ids \<Longrightarrow> length b = 256 \<Longrightarrow> shapes (ms[i := b]) nbs ids"
  "shapes ms nbs ids \<Longrightarrow> unat n \<le> 16 \<Longrightarrow> shapes ms (nbs[i := n]) ids"
  "shapes ms nbs ids \<Longrightarrow> length f = 16 \<Longrightarrow> shapes ms nbs (ids[i := f])"
  by (simp_all add: shapes_def list_all_update)

definition mark_block :: "nat \<Rightarrow> nat \<Rightarrow> receiver \<Rightarrow> receiver option" where
  "mark_block did bid r =
     do { ids \<leftarrow> vget (d_dsm_id_received r) did;
          blocks \<leftarrow> vput ids bid 1;
          nb \<leftarrow> vget (d_number_of_blocks r) did;
          logged \<leftarrow> vread blocks 0 (if nb = 0 then length blocks else unat nb);
          Some (r\<lparr>d_dsm_id_received := (d_dsm_id_received r)[did := blocks]\<rparr>) }"

lemma mark_block_inv:
  assumes "dsm_data_inv r" and "shapes ms nbs ids" and "did < 16"
    and "mark_block did bid (dsm_store ms nbs ids r) = Some r'"
  shows "dsm_data_inv r' \<and> dsm_frame r r'"
proof -
  have len: "length (ids ! did) = 16" "did < length ids" "did < length nbs"
    using assms(2,3) by (auto simp: shapes_def list_all_length)
  then have "r' = dsm_store ms nbs (ids[did := (ids ! did)[bid := 1]]) r"
    using assms(4) by (auto simp: mark_block_def dsm_store_def vec_simps vput_def bind_eq_Some_conv
        split: if_splits)
  then show ?thesis
    using dsm_store_inv[OF assms(1) shapes_update(3)[OF assms(2)], of "(ids ! did)[bid := 1]"] len
    by simp
qed

lemma read_dsm_block_inv:
  assumes "dsm_data_inv r" and "read_dsm_block msg r = Some r'"
  shows "dsm_data_inv r' \<and> dsm_frame r r'"
proof (cases "length (om_hkroot msg) \<le> 2")
  case True
  with assms show ?thesis by (simp add: read_dsm_block_def)
next
  case len: False
  let ?did = "unat (dsm_id (dsm_header_of r))" and ?bid = "unat (dsm_block_id (dsm_header_of r))"
  let ?ms = "d_dsm_message r" and ?nbs = "d_number_of_blocks r" and ?ids = "d_dsm_id_received r"
  note sh = shapes_of[OF assms(1)]
  have "?did < length ?ms"
    using assms(2) len by (cases "?did < length ?ms") (simp_all add: read_dsm_block_def Let_def vec_simps)
  then have did: "?did < 16" "?did < length ?nbs" "?did < length ?ids" using sh by (simp_all add: shapes_def)
  obtain fin nbuf where cb: "copy_block (?ms ! ?did) (SIZE_DSM_BLOCKS_BYTES * ?bid) (drop 2 (om_hkroot msg)) = (fin, nbuf)"
    by force
  have "length (?ms ! ?did) = 256"
    using sh \<open>?did < length ?ms\<close> by (auto simp: shapes_def list_all_length)
  then have nbuf: "length nbuf = 256" using copy_block_length[of "?ms ! ?did"] cb by (metis snd_conv)
  have sh1: "shapes (?ms[?did := nbuf]) ?nbs ?ids" using shapes_update(1)[OF sh nbuf] .
  let ?r1 = "dsm_store (?ms[?did := nbuf]) ?nbs ?ids r"
  have r1: "?r1 = r\<lparr>d_dsm_message := ?ms[?did := nbuf]\<rparr>" by (simp add: dsm_store_def)
  show ?thesis
  proof (cases fin)
    case False
    have "r' = ?r1"
      using assms(2) len \<open>?did < length ?ms\<close> cb False
      by (simp add: read_dsm_block_def Let_def vec_simps r1 case_prod_beta del: not_None_eq)
    then show ?thesis using dsm_store_inv[OF assms(1) sh1] by simp
  next
    case go: True
    show ?thesis
    proof (cases "?bid = 0")
      case False
      have "mark_block ?did ?bid ?r1 = Some r'"
        using assms(2) len \<open>?did < length ?ms\<close> cb go False did
        by (simp add: read_dsm_block_def mark_block_def Let_def vec_simps r1)
      from mark_block_inv[OF assms(1) sh1 did(1) this] show ?thesis .
    next
      case b0: True
      let ?n = "blocks_of_message (dsm_id (dsm_header_of r)) (get_number_blocks_index (nbuf ! 0))"
      let ?nbs1 = "?nbs[?did := ?n]"
      have sh3: "shapes (?ms[?did := nbuf]) ?nbs1 ?ids" by (rule shapes_update(2)[OF sh1 blocks_of_message_le])
      have sh4: "shapes (?ms[?did := replicate 256 0]) ?nbs1 (?ids[?did := replicate 16 0])"
        by (rule shapes_update(3)[OF shapes_update(1)[OF shapes_update(2)[OF sh blocks_of_message_le]]]) simp_all
      show ?thesis
      proof (cases "?n = 0")
        case True
        have "mark_block ?did ?bid (dsm_store (?ms[?did := replicate 256 0]) ?nbs1 (?ids[?did := replicate 16 0]) r) = Some r'"
          using assms(2) len \<open>?did < length ?ms\<close> cb go b0 did True nbuf
          by (simp add: read_dsm_block_def mark_block_def Let_def vec_simps dsm_store_order[symmetric])
        from mark_block_inv[OF assms(1) sh4 did(1) this] show ?thesis .
      next
        case False
        have "mark_block ?did ?bid (dsm_store (?ms[?did := nbuf]) ?nbs1 ?ids r) = Some r'"
          using assms(2) len \<open>?did < length ?ms\<close> cb go b0 did False nbuf
          by (simp add: read_dsm_block_def mark_block_def Let_def vec_simps dsm_store_def)
        from mark_block_inv[OF assms(1) sh3 did(1) this] show ?thesis .
      qed
    qed
  qed
qed

section \<open>MACK messages\<close>

text \<open>The invariant without the bound on the queue, which holds inside \<open>process_mack_message\<close>.\<close>

definition open_inv :: "receiver \<Rightarrow> bool" where
  "open_inv r \<longleftrightarrow> core_inv r \<and> mm_inv (d_tags_awaiting_verify r)"

lemma receiver_inv_open: "receiver_inv r \<Longrightarrow> open_inv r"
  by (simp add: receiver_inv_split open_inv_def)

lemma core_inv_mack: "core_inv (r\<lparr>d_osnma_data := (d_osnma_data r)\<lparr>d_mack_msg := mk\<rparr>\<rparr>) = core_inv r"
  and receiver_inv_mack: "receiver_inv (r\<lparr>d_osnma_data := (d_osnma_data r)\<lparr>d_mack_msg := mk\<rparr>\<rparr>) = receiver_inv r"
  by (simp_all add: core_inv_def receiver_inv_split dsm_shape_def)

lemma read_mack_header_frame:
  assumes "read_mack_header r = Some r'"
  shows "\<exists>mk. r' = r\<lparr>d_osnma_data := (d_osnma_data r)\<lparr>d_mack_msg := mk\<rparr>\<rparr>"
proof (cases "tag_length r < 16")
  case True
  with assms have "r' = r\<lparr>d_osnma_data := (d_osnma_data r)\<lparr>d_mack_msg := mack_of r\<rparr>\<rparr>"
    by (simp add: read_mack_header_def Let_def)
  then show ?thesis by blast
next
  case False
  with assms show ?thesis by (auto simp: read_mack_header_def Let_def bind_eq_Some_conv)
qed

lemma read_mack_body_frame:
  assumes "read_mack_body r = Some r'"
  shows "\<exists>mk. r' = r\<lparr>d_osnma_data := (d_osnma_data r)\<lparr>d_mack_msg := mk\<rparr>\<rparr>"
proof (cases "tag_length r = 0")
  case True
  with assms have "r' = r\<lparr>d_osnma_data := (d_osnma_data r)\<lparr>d_mack_msg := mack_of r\<rparr>\<rparr>"
    by (simp add: read_mack_body_def Let_def)
  then show ?thesis by blast
next
  case False
  with assms show ?thesis
    unfolding read_mack_body_def Let_def if_not_P[OF False] bind_eq_Some_conv option.inject by blast
qed

lemma core_inv_learned:
  "core_inv r \<Longrightarrow> core_inv (r\<lparr>d_tesla_keys := map_insert TOW key (d_tesla_keys r),
     d_tesla_key_verified := True, d_last_verified_key_GST := g\<rparr>)"
  "core_inv r \<Longrightarrow> core_inv (r\<lparr>d_tesla_keys := map_insert TOW key (d_tesla_keys r)\<rparr>)"
  by (simp_all add: core_inv_def dsm_shape_def om.inv_ins om.nonempty_ins)

lemma open_inv_learn:
  assumes "open_inv r" and "learn_tesla_key L r = Some r'"
  shows "open_inv r'"
proof (cases "map_of (d_tesla_keys r) (tow_sf0_of r) = None")
  case False
  with assms show ?thesis by (simp add: learn_tesla_key_def Let_def)
next
  case True
  with assms(2) obtain b r1 where v: "verify_tesla_key L r (mk_key (mack_of r)) (tow_sf0_of r) = Some (b, r1)"
    "r' = (if b then r1\<lparr>d_tesla_keys := map_insert (tow_sf0_of r) (mk_key (mack_of r)) (d_tesla_keys r1)\<rparr> else r1)"
    by (auto simp: learn_tesla_key_def Let_def bind_eq_Some_conv)
  from verify_tesla_key_state[OF v(1)] assms(1) have "open_inv r1"
    by (auto simp: open_inv_def core_inv_learned)
  with v(2) show ?thesis by (auto simp: open_inv_def core_inv_learned)
qed

lemma verify_macseq_state:
  assumes "verify_macseq L r mack = Some (vs, r')"
  shows "\<exists>n. r' = r\<lparr>d_count_failed_macseq := n\<rparr>"
  using assms unfolding verify_macseq_def Let_def
  by (auto simp: bind_eq_Some_conv split: if_splits)

lemma open_inv_count: "open_inv (r\<lparr>d_count_failed_macseq := n\<rparr>) = open_inv r"
  by (simp add: open_inv_def core_inv_def dsm_shape_def)

lemma open_inv_queue: "open_inv r \<Longrightarrow> open_inv (r\<lparr>d_tags_awaiting_verify := mm_insert k t (d_tags_awaiting_verify r)\<rparr>)"
  by (simp add: open_inv_def core_inv_def dsm_shape_def mm_inv_insert)

lemma open_inv_release:
  assumes "open_inv r" and "release_mack L mack r = Some r'"
  shows "open_inv r'"
proof -
  let ?r1 = "r\<lparr>d_tags_awaiting_verify := mm_insert (mk_TOW mack) (tag0_of_mack mack) (d_tags_awaiting_verify r)\<rparr>"
  from assms(2) obtain vs r2 where v: "verify_macseq L ?r1 mack = Some (vs, r2)"
    and r': "r' = fold (\<lambda>ti r. r\<lparr>d_tags_awaiting_verify := mm_insert (mk_TOW mack)
                   (tag_of_info ti (mk_TOW mack) (mk_WN mack) (mk_PRNa mack) (ucast (mti_counter ti)))
                   (d_tags_awaiting_verify r)\<rparr>) vs r2"
    by (auto simp: release_mack_def Let_def bind_eq_Some_conv)
  have "open_inv r2" using verify_macseq_state[OF v] open_inv_queue[OF assms(1)] by (auto simp: open_inv_count)
  then show ?thesis unfolding r' by (induction vs arbitrary: r2) (simp_all add: open_inv_queue)
qed

lemma open_inv_macseq_loop:
  "open_inv r \<Longrightarrow> macseq_loop L macks r = Some (kept, r') \<Longrightarrow> open_inv r'"
proof (induction macks arbitrary: r kept)
  case Nil
  then show ?case by simp
next
  case (Cons mack macks)
  show ?case
  proof (cases "map_of (d_tesla_keys r) (mk_TOW mack + 30) = None")
    case True
    with Cons.prems(2) obtain k where "macseq_loop L macks r = Some (k, r')"
      by (auto simp: bind_eq_Some_conv)
    with Cons show ?thesis by blast
  next
    case False
    with Cons.prems(2) obtain r1 where "release_mack L mack r = Some r1" "macseq_loop L macks r1 = Some (kept, r')"
      by (auto simp: bind_eq_Some_conv)
    with Cons open_inv_release show ?thesis by blast
  qed
qed

lemma check_tags_state:
  assumes "check_tags L r = Some r'"
  shows "\<exists>tags a b. r' = r\<lparr>d_tags_awaiting_verify := tags, d_count_successful_tags := a,
           d_count_failed_tags := b\<rparr> \<and> map fst tags = map fst (d_tags_awaiting_verify r)"
proof -
  from assms obtain tags a b where tags: "mapM (\<lambda>(k, t). do { t' \<leftarrow> check_tag L r t; Some (k, t') })
      (d_tags_awaiting_verify r) = Some tags"
    and r': "r' = r\<lparr>d_tags_awaiting_verify := tags, d_count_successful_tags := a, d_count_failed_tags := b\<rparr>"
    unfolding check_tags_def Let_def bind_eq_Some_conv option.inject by blast
  have "map fst tags = map fst (d_tags_awaiting_verify r)"
    if "mapM (\<lambda>(k, t). do { t' \<leftarrow> check_tag L r t; Some (k, t') }) q = Some tags"
      "q = d_tags_awaiting_verify r" for q
    using that(1) unfolding that(2)[symmetric]
    by (induction q arbitrary: tags) (auto simp: bind_eq_Some_conv split: prod.splits)
  with tags r' show ?thesis by blast
qed

lemma open_inv_check:
  assumes "open_inv r" and "check_tags L r = Some r'"
  shows "open_inv r'"
  using check_tags_state[OF assms(2)] assms(1)
  by (auto simp: open_inv_def core_inv_def dsm_shape_def mm_inv_def)

lemma pvt_ok_append: "pvt_ok (a @ b) \<longleftrightarrow> pvt_ok a \<and> pvt_ok b"
  by (auto simp: pvt_ok_def)

lemma verified_data_ok: "pvt_ok (map Pvt_NavData (fst (get_verified_data m)))"
  by (auto simp: pvt_ok_def list_all_iff get_verified_data_def L_t_min_def)

text \<open>The end of \<open>process_mack_message\<close>: navigation data out, old tags off.\<close>

definition finish_mack :: "receiver \<Rightarrow> receiver" where
  "finish_mack r =
     (let tag_size = table_lookup 0 OSNMA_TABLE_11 (ts (kroot_of r));
          store = update_nav_data (d_tags_awaiting_verify r) tag_size (d_nav_data_manager r);
          (data_to_send, store) = get_verified_data store;
          r = send_data_to_pvt data_to_send (r\<lparr>d_nav_data_manager := store\<rparr>)
      in control_tags_awaiting_verify_size (remove_verified_tags r))"

lemma core_inv_send:
  "core_inv r \<Longrightarrow> nav_inv store \<Longrightarrow> pvt_ok (map Pvt_NavData out) \<Longrightarrow>
   core_inv (send_data_to_pvt out (r\<lparr>d_nav_data_manager := store\<rparr>))"
  by (simp add: core_inv_def send_data_to_pvt_def dsm_shape_def pvt_ok_append)

lemma queue_steps:
  "core_inv (control_tags_awaiting_verify_size (remove_verified_tags r)) = core_inv r"
  "mm_inv (d_tags_awaiting_verify r) \<Longrightarrow>
     mm_inv (d_tags_awaiting_verify (control_tags_awaiting_verify_size (remove_verified_tags r)))"
  "length (d_tags_awaiting_verify (control_tags_awaiting_verify_size (remove_verified_tags r))) \<le> 500"
  by (simp_all add: core_inv_def dsm_shape_def control_tags_awaiting_verify_size_def
      remove_verified_tags_def control_size_loop_drop remove_tags_loop_filter mm_inv_drop mm_inv_filter)

lemma finish_mack_inv:
  assumes "open_inv r" shows "receiver_inv (finish_mack r)"
proof -
  define store where "store = update_nav_data (d_tags_awaiting_verify r)
    (table_lookup 0 OSNMA_TABLE_11 (ts (kroot_of r))) (d_nav_data_manager r)"
  have "nav_inv store" using assms by (simp add: store_def open_inv_def core_inv_def nav_inv_update)
  then have n: "nav_inv (snd (get_verified_data store))" by (rule nav_inv_get_verified)
  define r1 where "r1 = send_data_to_pvt (fst (get_verified_data store))
    (r\<lparr>d_nav_data_manager := snd (get_verified_data store)\<rparr>)"
  have "core_inv r1" using core_inv_send[OF _ n verified_data_ok] assms by (simp add: r1_def open_inv_def)
  moreover have "mm_inv (d_tags_awaiting_verify r1)"
    using assms by (simp add: r1_def send_data_to_pvt_def open_inv_def)
  moreover have "finish_mack r = control_tags_awaiting_verify_size (remove_verified_tags r1)"
    by (simp add: finish_mack_def r1_def store_def Let_def case_prod_beta)
  ultimately show ?thesis by (simp add: receiver_inv_split queue_steps)
qed

lemma open_inv_macks: "open_inv (r\<lparr>d_macks_awaiting_MACSEQ_verification := ms\<rparr>) = open_inv r"
  by (simp add: open_inv_def core_inv_def dsm_shape_def)

lemma process_mack_message_steps:
  assumes "process_mack_message L r = Some r'" and "d_kroot_verified r \<or> d_tesla_key_verified r"
  obtains r1 kept r2 r3 where "learn_tesla_key L r = Some r1"
    "macseq_loop L (d_macks_awaiting_MACSEQ_verification r1) r1 = Some (kept, r2)"
    "check_tags L (r2\<lparr>d_macks_awaiting_MACSEQ_verification := kept @ [mack_of r2]\<rparr>) = Some r3"
    "r' = finish_mack r3"
proof -
  have n: "\<not> (\<not> d_kroot_verified r \<and> \<not> d_tesla_key_verified r)" using assms(2) by simp
  have "process_mack_message L r = do {
      r \<leftarrow> learn_tesla_key L r;
      p \<leftarrow> macseq_loop L (d_macks_awaiting_MACSEQ_verification r) r;
      r \<leftarrow> check_tags L ((snd p)\<lparr>d_macks_awaiting_MACSEQ_verification := fst p @ [mack_of (snd p)]\<rparr>);
      Some (finish_mack r) }"
    unfolding process_mack_message_def Let_def if_not_P[OF n] finish_mack_def case_prod_beta by (rule refl)
  with assms(1) have "\<exists>r1. learn_tesla_key L r = Some r1 \<and>
      (\<exists>p. macseq_loop L (d_macks_awaiting_MACSEQ_verification r1) r1 = Some p \<and>
      (\<exists>r3. check_tags L ((snd p)\<lparr>d_macks_awaiting_MACSEQ_verification := fst p @ [mack_of (snd p)]\<rparr>) = Some r3 \<and>
        Some (finish_mack r3) = Some r'))"
    by (simp only: bind_eq_Some_conv)
  then obtain r1 p r3 where "learn_tesla_key L r = Some r1"
      "macseq_loop L (d_macks_awaiting_MACSEQ_verification r1) r1 = Some p"
      "check_tags L ((snd p)\<lparr>d_macks_awaiting_MACSEQ_verification := fst p @ [mack_of (snd p)]\<rparr>) = Some r3"
      "finish_mack r3 = r'"
    by (elim exE conjE) (simp only: option.inject)
  then show ?thesis by (intro that[of r1 "fst p" "snd p" r3]) simp_all
qed

lemma process_mack_message_inv:
  assumes "receiver_inv r" and "process_mack_message L r = Some r'"
  shows "receiver_inv r'"
proof (cases "d_kroot_verified r \<or> d_tesla_key_verified r")
  case False
  with assms show ?thesis by (simp add: process_mack_message_def)
next
  case True
  from process_mack_message_steps[OF assms(2) True] obtain r1 kept r2 r3 where
    s: "learn_tesla_key L r = Some r1"
      "macseq_loop L (d_macks_awaiting_MACSEQ_verification r1) r1 = Some (kept, r2)"
      "check_tags L (r2\<lparr>d_macks_awaiting_MACSEQ_verification := kept @ [mack_of r2]\<rparr>) = Some r3"
      "r' = finish_mack r3"
    by blast
  have "open_inv r1" by (rule open_inv_learn[OF receiver_inv_open[OF assms(1)] s(1)])
  then have "open_inv r2" by (rule open_inv_macseq_loop[OF _ s(2)])
  then have "open_inv r3" using open_inv_check[OF _ s(3)] by (simp add: open_inv_macks)
  then show ?thesis unfolding s(4) by (rule finish_mack_inv)
qed

lemma load_mack_length: "load_mack ws buf = Some m \<Longrightarrow> length m = length buf"
  by (auto simp: load_mack_def Let_def split: if_splits)

lemma receiver_inv_loaded:
  "receiver_inv r \<Longrightarrow> length m = 60 \<Longrightarrow> receiver_inv (r\<lparr>d_mack_message := m,
     d_osnma_data := (d_osnma_data r)\<lparr>d_nav_data := nd\<rparr>\<rparr>)"
  by (simp add: receiver_inv_def dsm_shape_def)

lemma receiver_inv_message: "receiver_inv r \<Longrightarrow> length (d_mack_message r) = 60"
  by (simp add: receiver_inv_def)

lemma read_and_process_mack_block_inv:
  assumes "receiver_inv r" and "read_and_process_mack_block L msg r = Some r'"
  shows "receiver_inv r'"
proof -
  obtain m where m: "load_mack (om_mack msg) (d_mack_message r) = Some m"
    using assms(2) unfolding read_and_process_mack_block_def bind_eq_Some_conv by blast
  define r1 where "r1 = r\<lparr>d_mack_message := m, d_osnma_data := (d_osnma_data r)
                     \<lparr>d_nav_data := (d_nav_data (d_osnma_data r))\<lparr>d_TOW_sf0 := om_TOW_sf0 msg\<rparr>\<rparr>\<rparr>"
  define go where "go = ((d_kroot_verified r1 \<or> d_tesla_key_verified r1) \<and> ts (kroot_of r1) \<noteq> 0 \<and>
    ((nmas (nma_of r1) \<noteq> 3 \<and> d_kroot_verified r1) \<or> (nmas (nma_of r1) = 3 \<and> \<not> d_kroot_verified r1)))"
  have r1: "receiver_inv r1"
    unfolding r1_def using load_mack_length[OF m] receiver_inv_message[OF assms(1)]
    by (intro receiver_inv_loaded[OF assms(1)]) simp
  have eq: "read_and_process_mack_block L msg r = (if go then
      do { r \<leftarrow> read_mack_header r1;
           r \<leftarrow> read_mack_body (r\<lparr>d_osnma_data := (d_osnma_data r)\<lparr>d_mack_msg := (mack_of r)
                      \<lparr>mk_PRNa := om_PRN msg, mk_TOW := om_TOW_sf0 msg, mk_WN := om_WN_sf0 msg\<rparr>\<rparr>\<rparr>);
           process_mack_message L r } else Some r1)"
    unfolding read_and_process_mack_block_def Let_def m bind.bind_lunit r1_def[symmetric] go_def
    by (rule refl)
  show ?thesis
  proof (cases go)
    case False
    with eq assms(2) r1 show ?thesis by simp
  next
    case True
    with assms(2) have "\<exists>r2. read_mack_header r1 = Some r2 \<and>
        (\<exists>r3. read_mack_body (r2\<lparr>d_osnma_data := (d_osnma_data r2)\<lparr>d_mack_msg := (mack_of r2)
           \<lparr>mk_PRNa := om_PRN msg, mk_TOW := om_TOW_sf0 msg, mk_WN := om_WN_sf0 msg\<rparr>\<rparr>\<rparr>) = Some r3 \<and>
          process_mack_message L r3 = Some r')"
      unfolding eq by (simp only: if_True bind_eq_Some_conv)
    then obtain r2 r3 where s: "read_mack_header r1 = Some r2"
        "read_mack_body (r2\<lparr>d_osnma_data := (d_osnma_data r2)\<lparr>d_mack_msg := (mack_of r2)
           \<lparr>mk_PRNa := om_PRN msg, mk_TOW := om_TOW_sf0 msg, mk_WN := om_WN_sf0 msg\<rparr>\<rparr>\<rparr>) = Some r3"
        "process_mack_message L r3 = Some r'"
      by blast
    have "receiver_inv r2" using read_mack_header_frame[OF s(1)] r1 by (auto simp: receiver_inv_mack)
    then have "receiver_inv r3" using read_mack_body_frame[OF s(2)] by (auto simp: receiver_inv_mack)
    then show ?thesis using s(3) by (rule process_mack_message_inv)
  qed
qed

section \<open>Status and time\<close>

lemma receiver_inv_dsm:
  "receiver_inv r \<Longrightarrow> dsm_data_inv r' \<and> dsm_frame r r' \<Longrightarrow> receiver_inv r'"
  using core_inv_dsm[of r r'] by (auto simp: receiver_inv_split dsm_frame_def)

lemma receiver_inv_dsm_data: "receiver_inv r \<Longrightarrow> dsm_data_inv r"
  by (simp add: receiver_inv_split core_inv_data)

lemma status_inv [simp]:
  "receiver_inv r \<Longrightarrow> receiver_inv (on_pk_renewal g r)"
  "receiver_inv r \<Longrightarrow> receiver_inv (on_pk_renewal_end r)"
  "receiver_inv r \<Longrightarrow> receiver_inv (on_pk_revocation_end r)"
  "receiver_inv r \<Longrightarrow> receiver_inv (on_alert_message g r)"
  "receiver_inv r \<Longrightarrow> receiver_inv (on_chain_renewal g r)"
  "receiver_inv r \<Longrightarrow> receiver_inv (on_chain_renewal_end r)"
  "receiver_inv r \<Longrightarrow> receiver_inv (on_chain_revocation_end r)"
  by (simp_all add: on_pk_renewal_def on_pk_renewal_end_def on_pk_revocation_end_def
      on_alert_message_def on_chain_renewal_def on_chain_renewal_end_def on_chain_revocation_end_def
      receiver_inv_def dsm_shape_def)

lemma revocation_inv:
  "receiver_inv r \<Longrightarrow> on_pk_revocation g r = Some r' \<Longrightarrow> receiver_inv r'"
  "receiver_inv r \<Longrightarrow> on_chain_revocation g r = Some r' \<Longrightarrow> receiver_inv r'"
  by (auto simp: on_pk_revocation_def on_chain_revocation_def bind_eq_Some_conv vput_def
      receiver_inv_def dsm_shape_def list_all_update split: if_splits)

lemma service_status_inv:
  assumes "receiver_inv r" and "service_status g r = Some r'"
  shows "receiver_inv r'"
proof -
  from assms(2) have "\<exists>r1. on_pk_revocation g (on_pk_renewal_end (on_pk_renewal g r)) = Some r1 \<and>
    (\<exists>r2. on_chain_revocation g (on_chain_renewal_end (on_chain_renewal g (on_alert_message g
      (on_pk_revocation_end r1)))) = Some r2 \<and> Some (on_chain_revocation_end r2) = Some r')"
    by (simp only: service_status_def Let_def bind_eq_Some_conv)
  then show ?thesis using assms(1) by (auto intro!: status_inv dest!: revocation_inv[rotated])
qed

lemma update_subframe_time_inv:
  "receiver_inv r \<Longrightarrow> update_subframe_time r = Some r' \<Longrightarrow> receiver_inv r'"
  by (auto simp: update_subframe_time_def Let_def receiver_inv_def dsm_shape_def split: if_splits)

lemma header_inv:
  "receiver_inv r \<Longrightarrow> receiver_inv (read_nma_header h r)"
  "receiver_inv r \<Longrightarrow> receiver_inv (read_dsm_header h r)"
  by (simp_all add: read_nma_header_def read_dsm_header_def receiver_inv_def dsm_shape_def)

section \<open>The handler\<close>

lemma process_osnma_message_steps:
  assumes "process_osnma_message L msg r = Some r'"
  obtains (idle) "r' = r" "d_flag_alert_message r \<and> (d_public_key_verified r \<or> d_kroot_verified r)"
  | (reserved) h0 where "r' = read_nma_header h0 r"
  | (full) h0 h1 r1 r2 r3 r4 where
      "service_status (compute_gst (om_WN_sf0 msg) (om_TOW_sf0 msg)) (read_nma_header h0 r) = Some r1"
      "read_dsm_block msg (read_dsm_header h1 r1) = Some r2" "process_dsm_block L msg r2 = Some r3"
      "update_subframe_time r3 = Some r4" "read_and_process_mack_block L msg r4 = Some r'"
proof (cases "d_flag_alert_message r \<and> (d_public_key_verified r \<or> d_kroot_verified r)")
  case True
  then show ?thesis using assms by (intro idle) (simp_all add: process_osnma_message_def)
next
  case alert: False
  have "\<exists>h0. vget (om_hkroot msg) 0 = Some h0 \<and>
      (if nmas (nma_of (read_nma_header h0 r)) = 0 then Some (read_nma_header h0 r)
       else do {
          r \<leftarrow> service_status (compute_gst (om_WN_sf0 msg) (om_TOW_sf0 msg)) (read_nma_header h0 r);
          h1 \<leftarrow> vget (om_hkroot msg) 1;
          r \<leftarrow> read_dsm_block msg (read_dsm_header h1 r);
          r \<leftarrow> process_dsm_block L msg r;
          r \<leftarrow> update_subframe_time r;
          read_and_process_mack_block L msg r }) = Some r'"
    using assms unfolding process_osnma_message_def if_not_P[OF alert] Let_def bind_eq_Some_conv[of "vget _ _"] .
  then obtain h0 where h0: "(if nmas (nma_of (read_nma_header h0 r)) = 0 then Some (read_nma_header h0 r)
       else do {
          r \<leftarrow> service_status (compute_gst (om_WN_sf0 msg) (om_TOW_sf0 msg)) (read_nma_header h0 r);
          h1 \<leftarrow> vget (om_hkroot msg) 1;
          r \<leftarrow> read_dsm_block msg (read_dsm_header h1 r);
          r \<leftarrow> process_dsm_block L msg r;
          r \<leftarrow> update_subframe_time r;
          read_and_process_mack_block L msg r }) = Some r'"
    by blast
  show ?thesis
  proof (cases "nmas (nma_of (read_nma_header h0 r)) = 0")
    case True
    with h0 show ?thesis by (intro reserved[of h0]) simp
  next
    case False
    from h0 obtain r1 h1 r2 r3 r4 where
      "service_status (compute_gst (om_WN_sf0 msg) (om_TOW_sf0 msg)) (read_nma_header h0 r) = Some r1"
      "read_dsm_block msg (read_dsm_header h1 r1) = Some r2" "process_dsm_block L msg r2 = Some r3"
      "update_subframe_time r3 = Some r4" "read_and_process_mack_block L msg r4 = Some r'"
      unfolding if_not_P[OF False] bind_eq_Some_conv by blast
    then show ?thesis by (rule full)
  qed
qed

lemma process_osnma_message_inv:
  assumes "receiver_inv r" and "process_osnma_message L msg r = Some r'"
  shows "receiver_inv r'"
  using assms(2)
proof (cases rule: process_osnma_message_steps)
  case idle
  with assms(1) show ?thesis by simp
next
  case (reserved h0)
  with assms(1) show ?thesis by (simp add: header_inv)
next
  case (full h0 h1 r1 r2 r3 r4)
  have "receiver_inv r1" by (rule service_status_inv[OF header_inv(1)[OF assms(1)] full(1)])
  then have h: "receiver_inv (read_dsm_header h1 r1)" by (rule header_inv(2))
  then have r2: "receiver_inv r2"
    using receiver_inv_dsm[OF h read_dsm_block_inv[OF receiver_inv_dsm_data[OF h] full(2)]] by simp
  then have "receiver_inv r3"
    using receiver_inv_dsm[OF r2 process_dsm_block_inv[OF receiver_inv_dsm_data[OF r2] full(3)]] by simp
  then have "receiver_inv r4" by (rule update_subframe_time_inv[OF _ full(4)])
  then show ?thesis using full(5) by (rule read_and_process_mack_block_inv)
qed

lemma publish_inv: "receiver_inv r \<Longrightarrow> publish_osnma_data r = r"
  by (simp add: publish_osnma_data_def receiver_inv_def)

lemma receiver_time_inv: "receiver_inv r \<Longrightarrow> receiver_inv (receiver_time now msg r)"
  by (simp add: receiver_time_def Let_def receiver_inv_def dsm_shape_def)

lemma tags_to_verify_inv: "receiver_inv (r\<lparr>d_tags_to_verify := adkds\<rparr>) = receiver_inv r"
  by (simp add: receiver_inv_def dsm_shape_def)

text \<open>What the handler does with a subframe, by the outcome of the check of the time.\<close>

lemma handler_osnma_cases:
  assumes "msg_handler_osnma L now (Tlm_Osnma msg) r = Some r'"
  obtains (violation) "delta_T (d_GST_Rx (receiver_time now msg r)) (d_GST_SIS (receiver_time now msg r)) > 300"
      "r' = (receiver_time now msg r)\<lparr>d_tags_to_verify := []\<rparr>"
  | (accepted) tags r1 where
      "delta_T (d_GST_Rx (receiver_time now msg r)) (d_GST_SIS (receiver_time now msg r)) \<le> 300"
      "process_osnma_message L msg ((receiver_time now msg r)\<lparr>d_tags_to_verify := tags\<rparr>) = Some r1"
      "r' = publish_osnma_data r1"
proof -
  let ?r = "receiver_time now msg r"
  let ?d = "delta_T (d_GST_Rx ?r) (d_GST_SIS ?r)"
  have TL: "uint d_T_L = 30" by (simp add: d_T_L_def)
  consider "?d \<le> 30" | "30 < ?d" "?d \<le> 300" | "300 < ?d" by linarith
  then show ?thesis
  proof cases
    case 1
    with assms that(2) show ?thesis
      by (auto simp: msg_handler_osnma_def Let_def TL bind_eq_Some_conv simp del: not_None_eq)
  next
    case 2
    with assms that(2) show ?thesis
      by (auto simp: msg_handler_osnma_def Let_def TL bind_eq_Some_conv simp del: not_None_eq)
  next
    case 3
    with assms that(1) show ?thesis
      by (simp add: msg_handler_osnma_def Let_def TL)
  qed
qed

lemma handler_inv:
  assumes "receiver_inv r" and "msg_handler_osnma L now m r = Some r'"
  shows "receiver_inv r'"
proof (cases m)
  case (Tlm_Osnma msg)
  from assms(2)[unfolded Tlm_Osnma] show ?thesis
  proof (cases rule: handler_osnma_cases)
    case violation
    then show ?thesis using receiver_time_inv[OF assms(1)] by (simp add: tags_to_verify_inv)
  next
    case (accepted tags r1)
    have "receiver_inv r1"
      by (rule process_osnma_message_inv[OF _ accepted(2)])
        (simp add: tags_to_verify_inv receiver_time_inv[OF assms(1)])
    then show ?thesis using accepted(3) by (simp add: publish_inv)
  qed
next
  case (Tlm_NavBits prn bs TOW)
  with assms(2) obtain store where s: "add_navigation_data bs prn TOW (d_nav_data_manager r) = Some store"
    "r' = publish_osnma_data (r\<lparr>d_nav_data_manager := store\<rparr>)"
    by (auto simp: msg_handler_osnma_def bind_eq_Some_conv)
  have "receiver_inv (r\<lparr>d_nav_data_manager := store\<rparr>)"
    using assms(1) nav_inv_add[OF _ s(1)] by (simp add: receiver_inv_def dsm_shape_def)
  with s(2) show ?thesis by (simp add: publish_inv)
next
  case Tlm_Other
  with assms show ?thesis by (simp add: msg_handler_osnma_def publish_inv)
qed

lemma initial_inv: "receiver_inv (initial_receiver c kf pf s)"
  by (simp add: receiver_inv_split core_inv_initial) (simp add: initial_receiver_def mm_inv_def)

lemma make_receiver_inv:
  assumes "make_receiver L c kf pf s now = Some r" shows "receiver_inv r"
proof -
  let ?i = "initial_receiver c kf pf s"
  have upd: "receiver_inv (r\<lparr>d_public_key_verified := True\<rparr>)" "receiver_inv (r\<lparr>d_flag_hot_start := True\<rparr>)"
    "receiver_inv (r\<lparr>d_GST_Rx := g\<rparr>)" if "receiver_inv r" for r g
    using that by (simp_all add: receiver_inv_def dsm_shape_def)
  define i1 where "i1 = ?i\<lparr>d_public_key_verified := True\<rparr>"
  have i1: "receiver_inv i1" "receiver_inv (i1\<lparr>d_flag_hot_start := True\<rparr>)"
    using upd(1)[OF initial_inv] upd(2) by (simp_all add: i1_def)
  from assms obtain r1 where r: "r = (if s then r1\<lparr>d_GST_Rx := now\<rparr> else r1)"
    and r1: "(if have_public_key c then
               (if fst (parse_dsm_kroot kf) \<noteq> []
                then process_dsm_message L (fst (parse_dsm_kroot kf)) (snd (parse_dsm_kroot kf)) (i1\<lparr>d_flag_hot_start := True\<rparr>)
                else Some i1) else Some ?i) = Some r1"
    unfolding make_receiver_def Let_def i1_def bind_eq_Some_conv option.inject by blast
  have "receiver_inv r1"
  proof (cases "have_public_key c \<and> fst (parse_dsm_kroot kf) \<noteq> []")
    case True
    with r1 have "process_dsm_message L (fst (parse_dsm_kroot kf)) (snd (parse_dsm_kroot kf)) (i1\<lparr>d_flag_hot_start := True\<rparr>) = Some r1"
      by simp
    from receiver_inv_dsm[OF i1(2) process_dsm_message_inv[OF receiver_inv_dsm_data[OF i1(2)] this]]
    show ?thesis .
  next
    case False
    with r1 i1(1) initial_inv show ?thesis by (auto split: if_splits)
  qed
  with r upd(3) show ?thesis by simp
qed

end
