(* ===== verification/Osnma_Safety.thy ===== *)
theory Osnma_Safety
  imports Osnma_Run
begin

text \<open>
  The properties of the receiver as a whole: the states it can reach, what it publishes, the
  effect of an authenticated alert message, the check of the local clock, and the time scale
  of the key chain across a change of the week.
\<close>

section \<open>Reachable states\<close>

text \<open>The states a receiver goes through: the constructor, then any messages, with any reading
  of the local clock.\<close>

inductive osnma_reachable :: "crypto_lib \<Rightarrow> receiver \<Rightarrow> bool" for L where
  made: "make_receiver L c kf pf strict now = Some r \<Longrightarrow> osnma_reachable L r"
| handled: "osnma_reachable L r \<Longrightarrow> msg_handler_osnma L now m r = Some r' \<Longrightarrow> osnma_reachable L r'"

inductive_cases osnma_reachable_cases: "osnma_reachable L r"

lemma reachable_inv: "osnma_reachable L r \<Longrightarrow> receiver_inv r"
  by (induction rule: osnma_reachable.induct) (auto intro: make_receiver_inv handler_inv)

lemma sample_made: "make_receiver sample_lib sample_crypto None None False 0 =
    Some ((initial_receiver sample_crypto None None False)\<lparr>d_public_key_verified := True\<rparr>)"
  by (simp add: make_receiver_def Let_def have_public_key_def sample_crypto_def parse_dsm_kroot_def)

definition sample_state :: receiver where
  "sample_state = (initial_receiver sample_crypto None None False)\<lparr>d_public_key_verified := True\<rparr>"

lemma sample_reachable: "osnma_reachable sample_lib sample_state"
  unfolding sample_state_def by (rule osnma_reachable.made[OF sample_made])

text \<open>C29: In every reachable state the containers keep their shape: TESLA keys ordered by time
  without duplicates, waiting tags ordered by time and at most 500, sixteen buffers of 256
  bytes, block counters of at most 16, a MACK buffer of 60 bytes; and a chain is only marked as
  verified when a key of it is stored.\<close>

theorem reachable_bounds:
  assumes "osnma_reachable L r"
  shows "map_inv (d_tesla_keys r) \<and> mm_inv (d_tags_awaiting_verify r) \<and>
    length (d_tags_awaiting_verify r) \<le> 500 \<and> nav_inv (d_nav_data_manager r) \<and>
    length (d_dsm_message r) = 16 \<and> list_all (\<lambda>b. length b = 256) (d_dsm_message r) \<and>
    list_all (\<lambda>n. unat n \<le> 16) (d_number_of_blocks r) \<and> length (d_mack_message r) = 60 \<and>
    (\<not> d_tesla_key_verified r \<or> d_tesla_keys r \<noteq> [])"
  using reachable_inv[OF assms] by (auto simp: receiver_inv_def dsm_shape_def)

theorem reachable_bounds_witness:
  "length (d_tags_awaiting_verify sample_state) \<le> 500 \<and> length (d_mack_message sample_state) = 60"
  using reachable_bounds[OF sample_reachable] by blast

text \<open>C28: Whatever messages arrive, the receiver hands to the PVT block only navigation data
  whose verified tags add up to at least 40 bits.\<close>

theorem published_data_is_authenticated:
  assumes "osnma_reachable L r"
  shows "list_all (\<lambda>m. case m of Pvt_NavData nd \<Rightarrow> verified_bits nd \<ge> 40 | Pvt_OsnmaData _ \<Rightarrow> False)
           (pvt_out r)"
  using reachable_inv[OF assms] unfolding receiver_inv_def pvt_ok_def L_t_min_def by blast

theorem published_data_is_authenticated_witness:
  "list_all (\<lambda>m. case m of Pvt_NavData nd \<Rightarrow> verified_bits nd \<ge> 40 | Pvt_OsnmaData _ \<Rightarrow> False)
     (pvt_out sample_state)"
  by (rule published_data_is_authenticated[OF sample_reachable])

section \<open>An authenticated alert\<close>

lemma alert_handler:
  assumes "d_flag_alert_message r" and "d_public_key_verified r \<or> d_kroot_verified r"
    and "\<not> d_new_data r"
  obtains r' where "msg_handler_osnma L now (Tlm_Osnma msg) r = Some r'"
    "r'\<lparr>d_GST_SIS := d_GST_SIS r, d_GST_Rx := d_GST_Rx r, d_last_received_GST := d_last_received_GST r,
        d_tags_to_verify := d_tags_to_verify r\<rparr> = r"
    "d_flag_alert_message r'" "d_public_key_verified r' \<or> d_kroot_verified r'" "\<not> d_new_data r'"
proof -
  have idle: "process_osnma_message L msg (s\<lparr>d_tags_to_verify := v\<rparr>) = Some (s\<lparr>d_tags_to_verify := v\<rparr>)"
    "publish_osnma_data (s\<lparr>d_tags_to_verify := v\<rparr>) = s\<lparr>d_tags_to_verify := v\<rparr>"
    if "s = receiver_time now msg r" for s v
    using assms by (auto simp: that process_osnma_message_def publish_osnma_data_def receiver_time_def Let_def)
  have "\<exists>v. msg_handler_osnma L now (Tlm_Osnma msg) r = Some ((receiver_time now msg r)\<lparr>d_tags_to_verify := v\<rparr>)"
    by (simp add: msg_handler_osnma_def Let_def idle[OF refl] del: not_None_eq) blast
  then obtain v where v: "msg_handler_osnma L now (Tlm_Osnma msg) r = Some ((receiver_time now msg r)\<lparr>d_tags_to_verify := v\<rparr>)" ..
  show ?thesis
    by (rule that[OF v], rule receiver.equality) (use assms in \<open>simp_all add: receiver_time_def Let_def\<close>)
qed

text \<open>C30: Once an alert message is flagged and a public or root key has been verified since,
  OSNMA messages change nothing but the receiver's notion of time: no key, tag, counter,
  parameter or file is touched and nothing is published, for any sequence of messages.\<close>

theorem alert_stops_osnma:
  assumes "d_flag_alert_message r" and "d_public_key_verified r \<or> d_kroot_verified r"
    and "\<not> d_new_data r"
  shows "\<exists>r'. foldM (\<lambda>(now, msg). msg_handler_osnma L now (Tlm_Osnma msg)) ms r = Some r' \<and>
    r'\<lparr>d_GST_SIS := d_GST_SIS r, d_GST_Rx := d_GST_Rx r, d_last_received_GST := d_last_received_GST r,
       d_tags_to_verify := d_tags_to_verify r\<rparr> = r"
  using assms
proof (induction ms arbitrary: r)
  case Nil
  then show ?case by simp
next
  case (Cons m ms)
  obtain now msg where m: "m = (now, msg)" by force
  obtain r1 where r1: "msg_handler_osnma L now (Tlm_Osnma msg) r = Some r1"
    "r1\<lparr>d_GST_SIS := d_GST_SIS r, d_GST_Rx := d_GST_Rx r, d_last_received_GST := d_last_received_GST r,
        d_tags_to_verify := d_tags_to_verify r\<rparr> = r"
    and st: "d_flag_alert_message r1" "d_public_key_verified r1 \<or> d_kroot_verified r1" "\<not> d_new_data r1"
    by (rule alert_handler[OF Cons.prems, of L now msg])
  obtain r2 where r2: "foldM (\<lambda>(now, msg). msg_handler_osnma L now (Tlm_Osnma msg)) ms r1 = Some r2"
    "r2\<lparr>d_GST_SIS := d_GST_SIS r1, d_GST_Rx := d_GST_Rx r1, d_last_received_GST := d_last_received_GST r1,
       d_tags_to_verify := d_tags_to_verify r1\<rparr> = r1"
    using Cons.IH[OF st] by blast
  have "r2\<lparr>d_GST_SIS := d_GST_SIS r, d_GST_Rx := d_GST_Rx r, d_last_received_GST := d_last_received_GST r,
       d_tags_to_verify := d_tags_to_verify r\<rparr> = r"
    using arg_cong[OF r2(2), of "\<lambda>s. s\<lparr>d_GST_SIS := d_GST_SIS r, d_GST_Rx := d_GST_Rx r,
       d_last_received_GST := d_last_received_GST r, d_tags_to_verify := d_tags_to_verify r\<rparr>"] r1(2)
    by simp
  with r1(1) r2(1) show ?case by (simp add: m)
qed

definition sample_alert :: receiver where
  "sample_alert = sample_state\<lparr>d_flag_alert_message := True\<rparr>"

theorem alert_stops_osnma_witness:
  "\<exists>r'. foldM (\<lambda>(now, msg). msg_handler_osnma sample_lib now (Tlm_Osnma msg))
      [(0, subframe_of 0x52 0 sample_kroot_msg 0), (9, subframe_of 0x52 0 sample_kroot_msg 1)] sample_alert = Some r' \<and>
    r'\<lparr>d_GST_SIS := d_GST_SIS sample_alert, d_GST_Rx := d_GST_Rx sample_alert,
       d_last_received_GST := d_last_received_GST sample_alert,
       d_tags_to_verify := d_tags_to_verify sample_alert\<rparr> = sample_alert"
  by (rule alert_stops_osnma)
    (simp_all add: sample_alert_def sample_state_def initial_receiver_def)

section \<open>The local clock\<close>

lemma late_delta: "0 < k \<Longrightarrow> k \<le> 2 ^ 32 - 301 \<Longrightarrow> delta_T (sis - of_nat k) sis = int (2 ^ 32 - k)"
proof -
  assume k: "0 < k" "k \<le> 2 ^ 32 - 301"
  have "sis - of_nat k - sis = (of_nat (2 ^ 32 - k) :: u32)"
  proof -
    have "(of_nat (2 ^ 32 - k) :: u32) = of_nat (2 ^ 32) - of_nat k" using k by (intro of_nat_diff) simp
    moreover have "(of_nat (2 ^ 32) :: u32) = 0" by simp
    ultimately show ?thesis by simp
  qed
  moreover have "unat (of_nat (2 ^ 32 - k) :: u32) = 2 ^ 32 - k" by (rule unat_of_nat_less) (use k in simp)
  ultimately show ?thesis by (simp only: delta_T_def)
qed

text \<open>C38: In strict mode a local clock that is behind the time of the signal, be it by one
  second, is handled like one that is far off: the difference is taken modulo \<open>2 ^ 32\<close>, and the
  message is dropped as a violation of the time constraint.\<close>

theorem clock_behind_drops_message:
  assumes "d_strict_mode r" and "0 < k" and "k \<le> 2 ^ 32 - 301"
    and "now = compute_gst (om_WN_sf0 msg) (om_TOW_sf0 msg) - of_nat k"
  shows "msg_handler_osnma L now (Tlm_Osnma msg) r =
           Some ((receiver_time now msg r)\<lparr>d_tags_to_verify := []\<rparr>)"
proof -
  let ?r = "receiver_time now msg r"
  have "d_GST_Rx ?r = now" "d_GST_SIS ?r = compute_gst (om_WN_sf0 msg) (om_TOW_sf0 msg)"
    using assms(1) by (simp_all add: receiver_time_def Let_def)
  with assms(4) have "delta_T (d_GST_Rx ?r) (d_GST_SIS ?r) = int (2 ^ 32 - k)"
    using late_delta[OF assms(2,3)] by simp
  then have "300 < delta_T (d_GST_Rx ?r) (d_GST_SIS ?r)" using assms(3) by simp
  then show ?thesis by (simp add: msg_handler_osnma_def Let_def d_T_L_def)
qed

theorem clock_behind_drops_message_witness:
  "msg_handler_osnma sample_lib (compute_gst 1 100 - of_nat 1)
      (Tlm_Osnma ((subframe_of 0x52 0 sample_kroot_msg 0)\<lparr>om_WN_sf0 := 1, om_TOW_sf0 := 100\<rparr>))
      (sample_state\<lparr>d_strict_mode := True\<rparr>) =
   Some ((receiver_time (compute_gst 1 100 - of_nat 1)
       ((subframe_of 0x52 0 sample_kroot_msg 0)\<lparr>om_WN_sf0 := 1, om_TOW_sf0 := 100\<rparr>)
       (sample_state\<lparr>d_strict_mode := True\<rparr>))\<lparr>d_tags_to_verify := []\<rparr>)"
  by (rule clock_behind_drops_message[where k = 1]) (simp_all add: subframe_of_def)

section \<open>The time scale of the chain\<close>

lemma unat_compute_gst:
  assumes "unat WN < 4096" and "unat TOW < 2 ^ 20"
  shows "unat (compute_gst WN TOW) = unat WN * 2 ^ 20 + unat TOW"
proof -
  have "compute_gst WN TOW = push_bit 20 (WN AND mask 12) + (TOW AND mask 20)"
    unfolding compute_gst_def mask_constants
    by (rule disjunctive_add[symmetric]) (auto simp: bit_simps)
  also have "\<dots> = push_bit 20 WN + TOW"
  proof -
    have "WN AND mask 12 = WN" "TOW AND mask 20 = TOW"
      using assms by (simp_all add: word_unat_eq_iff unat_low_field)
    then show ?thesis by simp
  qed
  finally have eq: "compute_gst WN TOW = push_bit 20 WN + TOW" .
  have p: "unat (push_bit 20 WN) = unat WN * 2 ^ 20" by (rule unat_push_bit_less) (use assms(1) in simp)
  show ?thesis unfolding eq using p assms by (subst unat_plus_less) simp_all
qed

text \<open>The number of hash steps is computed from the packed time, in which a week has
  \<open>2 ^ 20\<close> seconds: one week after the root key's time the code sees 34952 subframes instead of
  20160, so an honest key of the next week does not reach the root key in that many steps.\<close>

lemma week_counts_34952_subframes:
  assumes "towh_k (kroot_of r) \<noteq> 0" and "unat (towh_k (kroot_of r)) < 168"
    and "unat (wn_k (kroot_of r)) < 4095"
    and "d_GST_SIS r = compute_gst (ucast (wn_k (kroot_of r)) + 1) (ucast (towh_k (kroot_of r)) * 3600)"
  shows "\<exists>r'. update_subframe_time r = Some r' \<and> (d_GST_Sf r' - d_GST_0 r') div 30 = 34952"
proof -
  let ?wn = "ucast (wn_k (kroot_of r)) :: u32" and ?tow = "ucast (towh_k (kroot_of r)) * 3600 :: u32"
  have wn: "unat ?wn < 4095" using assms(3) by (simp add: unat_ucast_up)
  have tow: "unat ?tow < 604800"
  proof -
    have "unat (ucast (towh_k (kroot_of r)) :: u32) < 168" using assms(2) by (simp add: unat_ucast_up)
    then show ?thesis by (simp add: unat_word_ariths)
  qed
  have wn1: "unat (?wn + 1) = unat ?wn + 1" using wn by (subst unat_plus_less) simp_all
  have g0: "unat (compute_gst ?wn ?tow) = unat ?wn * 2 ^ 20 + unat ?tow"
    and g1: "unat (compute_gst (?wn + 1) ?tow) = (unat ?wn + 1) * 2 ^ 20 + unat ?tow"
    using unat_compute_gst[of ?wn ?tow] unat_compute_gst[of "?wn + 1" ?tow] wn wn1 tow by auto
  have diff: "compute_gst (?wn + 1) ?tow - compute_gst ?wn ?tow = 1048576"
  proof -
    have "compute_gst (?wn + 1) ?tow = compute_gst ?wn ?tow + 1048576"
    proof (rule word_unat_eq_iff[THEN iffD2])
      have "unat (compute_gst ?wn ?tow) + unat (1048576 :: u32) < 2 ^ 32" using g0 wn tow by simp
      then show "unat (compute_gst (?wn + 1) ?tow) = unat (compute_gst ?wn ?tow + 1048576)"
        using g0 g1 by (subst unat_plus_less) simp_all
    qed
    then show ?thesis by simp
  qed
  have q: "(1048576 :: u32) div 30 = 34952" by simp
  let ?sf = "unat (compute_gst ?wn ?tow) + 30 * unat ((d_GST_SIS r - compute_gst ?wn ?tow) div 30)"
  have sf: "?sf = unat (compute_gst ?wn ?tow) + 1048560" unfolding assms(4) diff q by simp
  moreover have "?sf < 2 ^ 32" unfolding sf using g0 wn tow by simp
  ultimately have "update_subframe_time r =
      Some (r\<lparr>d_GST_0 := compute_gst ?wn ?tow, d_GST_Sf := compute_gst ?wn ?tow + 1048560\<rparr>)"
    using assms(1) by (simp add: update_subframe_time_def Let_def)
  then show ?thesis by simp
qed

definition sample_next_week :: receiver where
  "sample_next_week = sample_receiver\<lparr>d_GST_SIS := compute_gst 2 3600\<rparr>"

lemma week_counts_34952_subframes_witness:
  "\<exists>r'. update_subframe_time sample_next_week = Some r' \<and> (d_GST_Sf r' - d_GST_0 r') div 30 = 34952"
  by (rule week_counts_34952_subframes) (simp_all add: sample_next_week_def sample_defs)

end
