(* ===== verification/Osnma_Total.thy ===== *)
theory Osnma_Total
  imports Osnma_Safety
begin

text \<open>
  The MACK part of the receiver never leaves the defined behaviour of the code: under the
  invariant, with navigation data made of zeros and ones and the lengths the cryptographic
  library promises, every read stays in its container and no exception escapes.
\<close>

section \<open>What is needed\<close>

definition bits_ok :: "string \<Rightarrow> bool" where
  "bits_ok s \<longleftrightarrow> set s \<subseteq> {CHR ''0'', CHR ''1''}"

definition store_bits_ok :: "nav_store \<Rightarrow> bool" where
  "store_bits_ok m \<longleftrightarrow> list_all (\<lambda>(_, tm). list_all (\<lambda>(_, nd).
      bits_ok (d_ephemeris_iono nd) \<and> bits_ok (d_utc nd)) tm) m"

definition mack_ready :: "crypto_lib \<Rightarrow> receiver \<Rightarrow> bool" where
  "mack_ready L r \<longleftrightarrow> crypto_ok L \<and> mf (kroot_of r) < 2 \<and> store_bits_ok (d_nav_data_manager r)"

text \<open>The steps before the end of \<open>process_mack_message\<close> keep what it depends on.\<close>

definition mack_frame :: "receiver \<Rightarrow> receiver \<Rightarrow> bool" where
  "mack_frame r r' \<longleftrightarrow> d_osnma_data r' = d_osnma_data r \<and> d_nav_data_manager r' = d_nav_data_manager r"

lemma mack_ready_frame: "mack_ready L r \<Longrightarrow> mack_frame r r' \<Longrightarrow> mack_ready L r'"
  by (simp add: mack_ready_def mack_frame_def)

lemma store_nd:
  "store_bits_ok m \<Longrightarrow> map_of m prn = Some tm \<Longrightarrow> (tow, nd) \<in> set tm \<Longrightarrow>
     bits_ok (d_ephemeris_iono nd) \<and> bits_ok (d_utc nd)"
  by (auto simp: store_bits_ok_def list_all_iff dest!: map_of_SomeD)

lemma adkd_bits: "bits_ok (d_ephemeris_iono nd) \<and> bits_ok (d_utc nd) \<Longrightarrow> bits_ok (adkd_data a nd)"
  by (auto simp: adkd_data_def bits_ok_def)

lemma rev_bits: "list_all (\<lambda>(_, nd). bits_ok (d_ephemeris_iono nd) \<and> bits_ok (d_utc nd)) tm \<Longrightarrow>
    bits_ok (nav_data_rev t tm)"
  by (induction t tm rule: nav_data_rev.induct) (auto simp: bits_ok_def adkd_data_def)

lemma get_navigation_bits:
  assumes "store_bits_ok m" shows "bits_ok (get_navigation_data m t)"
proof (cases "map_of m (ucast (tg_PRN_d t))")
  case None
  then show ?thesis by (simp add: get_navigation_data_def bits_ok_def)
next
  case (Some tm)
  have rev: "bits_ok (nav_data_rev t (rev tm))"
    by (rule rev_bits) (use store_nd[OF assms Some] in \<open>auto simp: list_all_iff\<close>)
  show ?thesis
  proof (cases "map_of tm (tg_TOW t - 30)")
    case None
    with Some rev show ?thesis by (simp add: get_navigation_data_def bits_ok_def)
  next
    case found: (Some nd)
    with adkd_bits[OF store_nd[OF assms Some map_of_SomeD[OF found]], of "tg_ADKD t"] Some show ?thesis
      by (auto simp: get_navigation_data_def bits_ok_def)
  qed
qed

section \<open>One tag\<close>

lemma build_message_total: "store_bits_ok (d_nav_data_manager r) \<Longrightarrow> \<exists>m t'. build_message r t = Some (m, t')"
proof -
  assume "store_bits_ok (d_nav_data_manager r)"
  then have "helper_bytes (get_navigation_data (d_nav_data_manager r) t) \<noteq> None"
    using get_navigation_bits[of "d_nav_data_manager r" t] by (simp add: helper_bytes_None_iff bits_ok_def)
  then show ?thesis by (auto simp: build_message_def Let_def)
qed

lemma truncate_mac_total: "5 \<le> length mac \<Longrightarrow> \<exists>c. truncate_mac lt mac = Some c"
proof -
  assume "5 \<le> length mac"
  then have "vget mac 0 = Some (mac ! 0)" "vget mac 1 = Some (mac ! 1)" "vget mac 2 = Some (mac ! 2)"
    "vget mac 3 = Some (mac ! 3)" "vget mac 4 = Some (mac ! 4)"
    by (auto simp: vget_def)
  then show ?thesis by (simp add: truncate_mac_def Let_def)
qed

lemma check_tag_total:
  assumes "mack_ready L r" shows "\<exists>t'. check_tag L r t = Some t'"
proof -
  obtain m t1 where b: "build_message r t = Some (m, t1)"
    using build_message_total assms unfolding mack_ready_def by blast
  have "\<exists>b t'. verify_tag L r t = Some (b, t')"
  proof (cases "applicable_key r t1")
    case None
    with b show ?thesis by (auto simp: verify_tag_def)
  next
    case (Some key)
    have "5 \<le> length (tag_mac L (mf (kroot_of r)) key m)"
      using tag_mac_length[of L "mf (kroot_of r)" key m] assms by (simp add: mack_ready_def)
    from truncate_mac_total[OF this] obtain c where
      "truncate_mac (tag_length r) (tag_mac L (mf (kroot_of r)) key m) = Some c" ..
    with b Some show ?thesis by (auto simp: verify_tag_def Let_def)
  qed
  then show ?thesis by (auto simp: check_tag_def)
qed

lemma check_tags_total:
  assumes "mack_ready L r" shows "\<exists>r'. check_tags L r = Some r'"
proof -
  have "(case x of (k, t) \<Rightarrow> do { t' \<leftarrow> check_tag L r t; Some (k, t') }) \<noteq> None" for x :: "u32 \<times> tag"
    using check_tag_total[OF assms, of "snd x"] by (auto simp: case_prod_beta)
  then have "mapM (\<lambda>(k, t). do { t' \<leftarrow> check_tag L r t; Some (k, t') }) (d_tags_awaiting_verify r) \<noteq> None"
    unfolding mapM_None_iff by blast
  then show ?thesis by (auto simp: check_tags_def Let_def)
qed

section \<open>One message\<close>

lemma verify_macseq_total:
  assumes "mack_ready L r" shows "\<exists>vs n. verify_macseq L r mack = Some (vs, r\<lparr>d_count_failed_macseq := n\<rparr>)"
proof -
  have "crypto_ok L" "mf (kroot_of r) < 2" using assms by (simp_all add: mack_ready_def)
  from macseq_answer[OF this, of mack] obtain vs r' where v: "verify_macseq L r mack = Some (vs, r')" by blast
  with verify_macseq_state[OF v] show ?thesis by blast
qed

lemma mack_frame_queue: "mack_frame r (r\<lparr>d_tags_awaiting_verify := q\<rparr>)"
  and mack_frame_count: "mack_frame r (r\<lparr>d_count_failed_macseq := n\<rparr>)"
  and mack_frame_trans: "mack_frame r s \<Longrightarrow> mack_frame s t \<Longrightarrow> mack_frame r t"
  by (simp_all add: mack_frame_def)

lemma release_total:
  assumes "mack_ready L r" shows "\<exists>r'. release_mack L mack r = Some r' \<and> mack_frame r r'"
proof -
  let ?r1 = "r\<lparr>d_tags_awaiting_verify := mm_insert (mk_TOW mack) (tag0_of_mack mack) (d_tags_awaiting_verify r)\<rparr>"
  let ?f = "\<lambda>ti r. r\<lparr>d_tags_awaiting_verify := mm_insert (mk_TOW mack)
                   (tag_of_info ti (mk_TOW mack) (mk_WN mack) (mk_PRNa mack) (ucast (mti_counter ti)))
                   (d_tags_awaiting_verify r)\<rparr>"
  obtain vs n where v: "verify_macseq L ?r1 mack = Some (vs, ?r1\<lparr>d_count_failed_macseq := n\<rparr>)"
    using verify_macseq_total[OF mack_ready_frame[OF assms mack_frame_queue]] by blast
  have "mack_frame s (fold ?f vs s)" for s
    by (induction vs arbitrary: s) (auto intro: mack_frame_trans simp: mack_frame_def)
  moreover have "mack_frame r (?r1\<lparr>d_count_failed_macseq := n\<rparr>)"
    by (simp add: mack_frame_def)
  ultimately show ?thesis using v
    by (auto simp: release_mack_def Let_def intro: mack_frame_trans)
qed

lemma macseq_loop_total:
  "mack_ready L r \<Longrightarrow> \<exists>kept r'. macseq_loop L macks r = Some (kept, r') \<and> mack_frame r r'"
proof (induction macks arbitrary: r)
  case Nil
  then show ?case by (simp add: mack_frame_def)
next
  case (Cons mack macks)
  show ?case
  proof (cases "map_of (d_tesla_keys r) (mk_TOW mack + 30) = None")
    case True
    with Cons show ?thesis by fastforce
  next
    case False
    obtain r1 where r1: "release_mack L mack r = Some r1" "mack_frame r r1"
      using release_total[OF Cons.prems] by blast
    from Cons.IH[OF mack_ready_frame[OF Cons.prems r1(2)]] r1 False show ?thesis
      by (auto intro: mack_frame_trans)
  qed
qed

lemma learn_total:
  assumes "crypto_ok L" and "length (mk_key (mack_of r)) = unat (chain_lk_bytes r)"
    and "d_tesla_key_verified r \<Longrightarrow> d_tesla_keys r \<noteq> []"
  shows "\<exists>r'. learn_tesla_key L r = Some r' \<and> mack_frame r r'"
proof (cases "map_of (d_tesla_keys r) (tow_sf0_of r) = None")
  case False
  then show ?thesis by (auto simp: learn_tesla_key_def Let_def mack_frame_def simp del: not_None_eq)
next
  case True
  obtain b r1 where v: "verify_tesla_key L r (mk_key (mack_of r)) (tow_sf0_of r) = Some (b, r1)"
    using verify_tesla_key_total[OF assms] by blast
  have "mack_frame r r1" using verify_tesla_key_state[OF v] by (auto simp: mack_frame_def)
  with v True show ?thesis by (auto simp: learn_tesla_key_def Let_def mack_frame_def)
qed

lemma process_mack_total:
  assumes "mack_ready L r" and "length (mk_key (mack_of r)) = unat (chain_lk_bytes r)"
    and "d_tesla_key_verified r \<Longrightarrow> d_tesla_keys r \<noteq> []"
  shows "\<exists>r'. process_mack_message L r = Some r'"
proof (cases "\<not> d_kroot_verified r \<and> \<not> d_tesla_key_verified r")
  case True
  then show ?thesis by (simp add: process_mack_message_def)
next
  case False
  obtain r1 where r1: "learn_tesla_key L r = Some r1" "mack_frame r r1"
    using learn_total[OF _ assms(2,3)] assms(1) unfolding mack_ready_def by blast
  note m1 = mack_ready_frame[OF assms(1) r1(2)]
  obtain kept r2 where r2: "macseq_loop L (d_macks_awaiting_MACSEQ_verification r1) r1 = Some (kept, r2)"
    "mack_frame r1 r2"
    using macseq_loop_total[OF m1] by blast
  let ?r2 = "r2\<lparr>d_macks_awaiting_MACSEQ_verification := kept @ [mack_of r2]\<rparr>"
  have "mack_ready L ?r2" using mack_ready_frame[OF m1 r2(2)] by (simp add: mack_ready_def)
  from check_tags_total[OF this] obtain r3 where "check_tags L ?r2 = Some r3" ..
  with r1 r2 False show ?thesis
    by (simp add: process_mack_message_def Let_def case_prod_beta del: not_None_eq)
qed

lemma mack_key_length:
  assumes "length (d_mack_message r) = 60" and "tag_length r \<noteq> 0"
    and "bits_of k = take (unat (get_lk_bits (ks (kroot_of r))))
         (drop ((tag_length r + 16) * number_of_tags (unat (get_lk_bits (ks (kroot_of r)))) (tag_length r))
           (bits_of (d_mack_message r)))"
  shows "length k = unat (get_lk_bits (ks (kroot_of r))) div 8"
proof -
  let ?lk = "unat (get_lk_bits (ks (kroot_of r)))"
  have "?lk \<le> 256" using table_10_values[of "ks (kroot_of r)"] by auto
  from number_of_tags_bounds(2)[OF this tag_length_set[OF assms(2)]]
  have "(tag_length r + 16) * number_of_tags ?lk (tag_length r) + ?lk \<le> 480" .
  then have "length (bits_of k) = ?lk" using assms(1) unfolding assms(3) by simp
  then show ?thesis by simp
qed

lemma load_mack_total: "length ws = 15 \<Longrightarrow> length buf = 60 \<Longrightarrow> \<exists>m. load_mack ws buf = Some m"
proof -
  assume len: "length ws = 15" "length buf = 60"
  have "length (concat (map word_bytes ws)) = 4 * length ws"
    by (induction ws) (simp_all add: word_bytes_def)
  with len show ?thesis by (simp add: load_mack_def Let_def)
qed

text \<open>The MAC function field of the root key message has two bits, and only the values 0 and 1 name a function;
  nothing in the receiver rejects the others. With them no MAC is computed, and as soon as the key of a tag is
  there, its verification reads an empty vector.\<close>

lemma reserved_mac_function_fails:
  assumes "2 \<le> mf (kroot_of r)" and "build_message r t = Some (m, t1)" and "applicable_key r t1 = Some key"
    and "16 \<le> tag_length r"
  shows "verify_tag L r t = None"
proof -
  have "mf (kroot_of r) \<noteq> 0" "mf (kroot_of r) \<noteq> 1" using assms(1) by (auto simp: word_le_nat_alt)
  then have "tag_mac L (mf (kroot_of r)) key m = []" by (simp add: tag_mac_def)
  then have "truncate_mac (tag_length r) (tag_mac L (mf (kroot_of r)) key m) = None"
    by (simp add: truncate_mac_def vget_def)
  then show ?thesis using assms by (simp add: verify_tag_def Let_def)
qed

text \<open>C26: The whole MACK part of a subframe returns normally when the root key message names an existing
  MAC function (\<open>mf\<close> is 0 or 1) and a tag length of the table: in a state that satisfies the invariant of the
  receiver, with navigation data made of zeros and ones and a cryptographic library whose results have
  the documented lengths, then for every content of the sixty bytes, reading the message, checking
  its key, releasing the waiting messages, verifying the waiting tags and sending the data to
  the PVT block leave no container and raise nothing. The condition on the MAC function is needed and
  not ensured by the code (\<open>reserved_mac_function_fails\<close>).\<close>

theorem mack_block_returns:
  assumes "receiver_inv r" and "crypto_ok L" and "store_bits_ok (d_nav_data_manager r)"
    and "mf (kroot_of r) < 2" and "tag_length r \<noteq> 0" and "length (om_mack msg) = 15"
  shows "\<exists>r'. read_and_process_mack_block L msg r = Some r'"
proof -
  have ready: "mack_ready L r" using assms(2-4) by (simp add: mack_ready_def)
  obtain m where m: "load_mack (om_mack msg) (d_mack_message r) = Some m"
    using load_mack_total[OF assms(6)] receiver_inv_message[OF assms(1)] by blast
  define r1 where "r1 = r\<lparr>d_mack_message := m, d_osnma_data := (d_osnma_data r)
                     \<lparr>d_nav_data := (d_nav_data (d_osnma_data r))\<lparr>d_TOW_sf0 := om_TOW_sf0 msg\<rparr>\<rparr>\<rparr>"
  define go where "go = ((d_kroot_verified r1 \<or> d_tesla_key_verified r1) \<and> ts (kroot_of r1) \<noteq> 0 \<and>
    ((nmas (nma_of r1) \<noteq> 3 \<and> d_kroot_verified r1) \<or> (nmas (nma_of r1) = 3 \<and> \<not> d_kroot_verified r1)))"
  have len: "length (d_mack_message r1) = 60" and lt: "tag_length r1 \<noteq> 0"
    using load_mack_length[OF m] receiver_inv_message[OF assms(1)] assms(5)
    by (simp_all add: r1_def tag_length_def)
  have eq: "read_and_process_mack_block L msg r = (if go then
      do { r \<leftarrow> read_mack_header r1;
           r \<leftarrow> read_mack_body (r\<lparr>d_osnma_data := (d_osnma_data r)\<lparr>d_mack_msg := (mack_of r)
                      \<lparr>mk_PRNa := om_PRN msg, mk_TOW := om_TOW_sf0 msg, mk_WN := om_WN_sf0 msg\<rparr>\<rparr>\<rparr>);
           process_mack_message L r } else Some r1)"
    unfolding read_and_process_mack_block_def Let_def m bind.bind_lunit r1_def[symmetric] go_def
    by (rule refl)
  show ?thesis
  proof (cases go)
    case False
    with eq show ?thesis by simp
  next
    case True
    obtain h where h: "read_mack_header r1 = Some (r1\<lparr>d_osnma_data := (d_osnma_data r1)\<lparr>d_mack_msg := h\<rparr>\<rparr>)"
      using read_mack_header_spec[OF len lt] by blast
    define r2 where "r2 = r1\<lparr>d_osnma_data := (d_osnma_data r1)\<lparr>d_mack_msg := h
      \<lparr>mk_PRNa := om_PRN msg, mk_TOW := om_TOW_sf0 msg, mk_WN := om_WN_sf0 msg\<rparr>\<rparr>\<rparr>"
    have kw: "8 * length (kroot (kroot_of r)) = unat (get_lk_bits (ks (kroot_of r)))"
      using True assms(1) by (simp add: go_def r1_def receiver_inv_def kroot_wf_def)
    then have kw2: "8 * length (kroot (kroot_of r2)) = unat (get_lk_bits (ks (kroot_of r2)))"
      by (simp add: r2_def r1_def)
    have "length (d_mack_message r2) = 60" "tag_length r2 \<noteq> 0"
      using len lt by (simp_all add: r2_def tag_length_def)
    from read_mack_body_spec[OF this kw2] obtain tags k where
      b: "read_mack_body r2 = Some (r2\<lparr>d_osnma_data := (d_osnma_data r2)\<lparr>d_mack_msg := (mack_of r2)
           \<lparr>tag_and_info := tags, mk_key := k\<rparr>\<rparr>\<rparr>)"
      and kb: "bits_of k = take (unat (get_lk_bits (ks (kroot_of r2))))
         (drop ((tag_length r2 + 16) * number_of_tags (unat (get_lk_bits (ks (kroot_of r2)))) (tag_length r2))
           (bits_of (d_mack_message r2)))"
      by blast
    define r3 where "r3 = r2\<lparr>d_osnma_data := (d_osnma_data r2)\<lparr>d_mack_msg := (mack_of r2)
           \<lparr>tag_and_info := tags, mk_key := k\<rparr>\<rparr>\<rparr>"
    have "length (mk_key (mack_of r3)) = unat (chain_lk_bytes r3)"
      using mack_key_length[OF \<open>length (d_mack_message r2) = 60\<close> \<open>tag_length r2 \<noteq> 0\<close> kb]
      by (simp add: r3_def chain_lk_bytes_eq)
    moreover have "mack_ready L r3" using ready by (simp add: r3_def r2_def r1_def mack_ready_def)
    moreover have "d_tesla_key_verified r3 \<Longrightarrow> d_tesla_keys r3 \<noteq> []"
      using assms(1) by (simp add: r3_def r2_def r1_def receiver_inv_def)
    ultimately obtain r' where "process_mack_message L r3 = Some r'"
      using process_mack_total by blast
    with eq True h b show ?thesis by (simp add: r2_def r3_def)
  qed
qed

theorem mack_block_returns_witness:
  "\<exists>r'. read_and_process_mack_block sample_lib (subframe_of 0x52 0 sample_kroot_msg 0) sample_receiver = Some r'"
proof (rule mack_block_returns)
  have k: "kroot_wf sample_kroot"
    by (simp add: kroot_wf_def sample_kroot_def default_kroot_message_def get_lk_bits_def table_lookup_def
        OSNMA_TABLE_10_def)
  have "receiver_inv ((initial_receiver sample_crypto None None False)
      \<lparr>d_osnma_data := default_osnma_data\<lparr>d_dsm_kroot_message := sample_kroot\<rparr>,
       d_kroot_verified := True, d_public_key_verified := True\<rparr>)"
    using initial_inv[of sample_crypto None None False] k
    by (simp add: receiver_inv_def dsm_shape_def initial_receiver_def)
  then show "receiver_inv sample_receiver" by (simp add: sample_receiver_def)
  show "crypto_ok sample_lib" by (rule crypto_ok_sample)
  show "store_bits_ok (d_nav_data_manager sample_receiver)" "mf (kroot_of sample_receiver) < 2"
    by (simp_all add: sample_defs store_bits_ok_def)
  show "tag_length sample_receiver \<noteq> 0"
    by (simp add: tag_length_def sample_defs table_lookup_def OSNMA_TABLE_11_def)
qed (simp add: subframe_of_def)

end
