(* ===== verification/Gnss_Satellite.thy ===== *)
theory Gnss_Satellite
  imports Prelude
begin

text \<open>
  Satellites and signals: \<open>gnss_satellite.cc\<close> and \<open>gnss_signal.cc\<close>. A satellite is built from
  the name of its system and a PRN number; the constructor checks both, and looks the block
  (and, for Glonass, the frequency channel \<open>rf_link\<close>) up in the tables of \<open>what_block\<close>.
\<close>

section \<open>The satellite\<close>

record gnss_satellite =
  sat_system :: string
  sat_block :: string
  sat_PRN :: u32
  sat_rf_link :: "32 word"

text \<open>The value of a default constructed object; \<open>reset\<close> goes back to it.\<close>

definition satellite_default :: gnss_satellite where
  "satellite_default = \<lparr> sat_system = [], sat_block = [], sat_PRN = 0, sat_rf_link = 0 \<rparr>"

definition sat_reset :: "gnss_satellite \<Rightarrow> gnss_satellite" where
  "sat_reset s = s\<lparr> sat_system := [], sat_block := [], sat_PRN := 0, sat_rf_link := 0 \<rparr>"

definition system_set :: "string list" where
  "system_set = [''GPS'', ''Glonass'', ''SBAS'', ''Galileo'', ''Beidou'', ''QZSS'']"

definition satelliteSystem :: "(string \<times> string) list" where
  "satelliteSystem = [(''GPS'', ''G''), (''Glonass'', ''R''), (''SBAS'', ''S''), (''Galileo'', ''E''),
     (''Beidou'', ''C''), (''QZSS'', ''J'')]"

definition set_system :: "string \<Rightarrow> gnss_satellite \<Rightarrow> gnss_satellite" where
  "set_system sys s = (if sys \<in> set system_set then s\<lparr> sat_system := sys \<rparr> else s\<lparr> sat_system := [] \<rparr>)"

text \<open>\<open>update_PRN\<close>: both branches of the range check store the number.\<close>

definition update_PRN :: "u32 \<Rightarrow> gnss_satellite \<Rightarrow> gnss_satellite" where
  "update_PRN p s =
     (if sat_system s \<noteq> ''Glonass'' then s\<lparr> sat_PRN := 0 \<rparr>
      else if p < 1 \<or> p > 24 then s\<lparr> sat_PRN := p \<rparr>
      else s\<lparr> sat_PRN := p \<rparr>)"

definition set_PRN :: "u32 \<Rightarrow> gnss_satellite \<Rightarrow> gnss_satellite" where
  "set_PRN p s0 =
    (let s = (if sat_system s0 = [] then s0\<lparr> sat_PRN := 0 \<rparr> else s0) in
     if sat_system s = ''GPS'' then
       (if p < 1 \<or> p > 32 then s\<lparr> sat_PRN := 0 \<rparr> else s\<lparr> sat_PRN := p \<rparr>)
     else if sat_system s = ''Glonass'' then
       (if p < 1 \<or> p > 24 then s\<lparr> sat_PRN := 0 \<rparr> else s\<lparr> sat_PRN := p \<rparr>)
     else if sat_system s = ''SBAS'' then
       (if p = 120 \<or> p = 123 \<or> p = 131 \<or> p = 135 \<or> p = 136 \<or> p = 138
        then s\<lparr> sat_PRN := p \<rparr> else s\<lparr> sat_PRN := 0 \<rparr>)
     else if sat_system s = ''Galileo'' then
       (if p < 1 \<or> p > 36 then s\<lparr> sat_PRN := 0 \<rparr> else s\<lparr> sat_PRN := p \<rparr>)
     else if sat_system s = ''Beidou'' then
       (if p < 1 \<or> p > 63 then s\<lparr> sat_PRN := 0 \<rparr> else s\<lparr> sat_PRN := p \<rparr>)
     else if sat_system s = ''QZSS'' then
       (if p < 193 \<or> p > 201 then s\<lparr> sat_PRN := 0 \<rparr> else s\<lparr> sat_PRN := p \<rparr>)
     else s\<lparr> sat_PRN := 0 \<rparr>)"

text \<open>\<open>satelliteSystem.at(system)\<close> throws for an unknown system.\<close>

definition get_system_short :: "gnss_satellite \<Rightarrow> string option" where
  "get_system_short s = map_of satelliteSystem (sat_system s)"

section \<open>The blocks of a constellation\<close>

definition gps_blocks :: "(u32 \<times> string) list" where
  "gps_blocks = [
     (1, ''IIF''), (2, ''IIR''), (3, ''IIF''), (4, ''III''), (5, ''IIR-M''), (6, ''IIF''),
     (7, ''IIR-M''), (8, ''IIF''), (9, ''IIF''), (10, ''IIF''), (11, ''III''),
     (12, ''IIR-M''), (13, ''IIR''), (14, ''III''), (15, ''IIR-M''), (16, ''IIR''),
     (17, ''IIR-M''), (18, ''III''), (19, ''IIR''), (20, ''IIR''), (21, ''IIR''),
     (22, ''IIR''), (23, ''III''), (24, ''IIF''), (25, ''IIF''), (26, ''IIF''), (27, ''IIF''),
     (28, ''III''), (29, ''IIR-M''), (30, ''IIF''), (31, ''IIR-M''), (32, ''IIF'')]"

definition glonass_blocks :: "(u32 \<times> string \<times> 32 word) list" where
  "glonass_blocks = [
     (1, ''1'', 1), (2, ''-4'', - 4), (3, ''5'', 5), (4, ''6'', 6), (5, ''1'', 1),
     (6, ''-4'', - 4), (7, ''5'', 5), (8, ''6'', 6), (9, ''-2'', - 2), (10, ''-7'', - 7),
     (11, ''0'', 0), (12, ''-1'', - 1), (13, ''-2'', - 2), (14, ''-7'', - 7), (15, ''0'', 0),
     (16, ''-1'', - 1), (17, ''4'', 4), (18, ''-3'', - 3), (19, ''3'', 3), (20, ''2'', 2),
     (21, ''4'', 4), (22, ''-3'', - 3), (23, ''3'', 3), (24, ''2'', 2)]"

definition sbas_blocks :: "(u32 \<times> string) list" where
  "sbas_blocks = [
     (120, ''EGNOS Test Platform''), (123, ''EGNOS''), (131, ''WAAS''), (135, ''WAAS''),
     (136, ''EGNOS''), (138, ''WAAS'')]"

definition galileo_blocks :: "(u32 \<times> string) list" where
  "galileo_blocks = [
     (1, ''FOC-FM10''), (2, ''FOC-FM11''), (3, ''FOC-FM12''), (4, ''FOC-FM13''),
     (5, ''FOC-FM14''), (6, ''FOC-FM27''), (7, ''FOC-FM7''), (8, ''FOC-FM8''),
     (9, ''FOC-FM9''), (10, ''FOC-FM24''), (11, ''IOV-PFM''), (12, ''IOV-FM2''),
     (13, ''FOC-FM20''), (14, ''FOC-FM2*''), (15, ''FOC-FM21''), (16, ''FOC-FM32''),
     (18, ''FOC-FM1*''), (19, ''IOV-FM3''), (20, ''IOV-FM4**''), (21, ''FOC-FM15''),
     (22, ''FOC-FM4**''), (23, ''FOC-FM26''), (24, ''FOC-FM5''), (25, ''FOC-FM16''),
     (26, ''FOC-FM3''), (27, ''FOC-FM17''), (29, ''FOC-FM25''), (30, ''FOC-FM6''),
     (31, ''FOC-FM18''), (33, ''FOC-FM22''), (34, ''FOC-FM23''), (36, ''FOC-FM19'')]"

definition beidou_blocks :: "(u32 \<times> string) list" where
  "beidou_blocks = [
     (1, ''BeiDou-2 GEO01*''), (2, ''BeiDou-2 GEO06''), (3, ''BeiDou-2 GEO07''),
     (4, ''BeiDou-2 GEO04''), (5, ''BeiDou-2 GEO05''), (6, ''BeiDou-2 IGSO01''),
     (7, ''BeiDou-2 IGSO02''), (8, ''BeiDou-2 IGSO03''), (9, ''BeiDou-2 IGSO04''),
     (10, ''BeiDou-2 IGSO05''), (11, ''BeiDou-2 MEO03*''), (12, ''BeiDou-2 MEO04*''),
     (13, ''BeiDou-2 IGSO06''), (14, ''BeiDou-2 MEO06*''), (16, ''BeiDou-2 IGSO07''),
     (18, ''BeiDou-3 GEOG8''), (19, ''BeiDou-3 MEO01''), (20, ''BeiDou-3 MEO02''),
     (21, ''BeiDou-3 MEO03''), (22, ''BeiDou-3 MEO04''), (23, ''BeiDou-3 MEO05''),
     (24, ''BeiDou-3 MEO06''), (25, ''BeiDou-3 MEO11''), (26, ''BeiDou-3 MEO12''),
     (27, ''BeiDou-3 3M3''), (28, ''BeiDou-3 3M4''), (29, ''BeiDou-3 3M7''),
     (30, ''BeiDou-3 3M8''), (32, ''BeiDou-3 MEO13''), (33, ''BeiDou-3 MEO14''),
     (34, ''BeiDou-3 MEO15''), (35, ''BeiDou-3 MEO16''), (36, ''BeiDou-3 MEO17''),
     (37, ''BeiDou-3 MEO18''), (38, ''BeiDou-3 IGSOI1''), (39, ''BeiDou-3 IGSOI2''),
     (40, ''BeiDou-3 IGSOI3''), (41, ''BeiDou-3 MEO19''), (42, ''BeiDou-3 MEO20''),
     (43, ''BeiDou-3 MEO21''), (44, ''BeiDou-3 MEO22''), (45, ''BeiDou-3 MEO23''),
     (46, ''BeiDou-3 MEO24''), (59, ''BeiDou-3 GEOG1''), (60, ''BeiDou-3 GEOG2''),
     (61, ''BeiDou-3 GEOG3'')]"

definition qzss_blocks :: "(u32 \<times> string) list" where
  "qzss_blocks = [
     (193, ''I''), (194, ''II-Q''), (195, ''II-Q''), (196, ''IIA-Q''), (197, ''III-Q''),
     (199, ''II-G''), (200, ''III-G''), (201, ''III-G''), (203, ''IIA-Q''), (204, ''III-Q''),
     (205, ''III-G''), (206, ''III-G'')]"

definition block_name :: "(u32 \<times> string) list \<Rightarrow> u32 \<Rightarrow> string" where
  "block_name t p = (case map_of t p of Some b \<Rightarrow> b | None \<Rightarrow> ''Unknown'')"

text \<open>\<open>what_block\<close> is a method: for a Glonass satellite it also stores the frequency channel.\<close>

definition what_block :: "string \<Rightarrow> u32 \<Rightarrow> gnss_satellite \<Rightarrow> string \<times> gnss_satellite" where
  "what_block sys p s =
    (if sys = ''GPS'' then (block_name gps_blocks p, s)
     else if sys = ''Glonass'' then
       (case map_of glonass_blocks p of
          Some (b, rf) \<Rightarrow> (b, s\<lparr> sat_rf_link := rf \<rparr>)
        | None \<Rightarrow> (''Unknown'', s))
     else if sys = ''SBAS'' then (block_name sbas_blocks p, s)
     else if sys = ''Galileo'' then (block_name galileo_blocks p, s)
     else if sys = ''Beidou'' then (block_name beidou_blocks p, s)
     else if sys = ''QZSS'' then (block_name qzss_blocks p, s)
     else (''Unknown'', s))"

definition set_block :: "string \<Rightarrow> u32 \<Rightarrow> gnss_satellite \<Rightarrow> gnss_satellite" where
  "set_block sys p s = (let (b, s') = what_block sys p s in s'\<lparr> sat_block := b \<rparr>)"

definition make_satellite :: "string \<Rightarrow> u32 \<Rightarrow> gnss_satellite" where
  "make_satellite sys p =
     set_block sys p (set_PRN p (set_system sys (sat_reset satellite_default)))"

text \<open>\<open>operator==\<close>: the block does not count.\<close>

definition sat_eq :: "gnss_satellite \<Rightarrow> gnss_satellite \<Rightarrow> bool" where
  "sat_eq a b = (if sat_system a = sat_system b then
     (if sat_PRN a = sat_PRN b then (if sat_rf_link a = sat_rf_link b then True else False) else False)
     else False)"

section \<open>The signal\<close>

record gnss_signal =
  gs_satellite :: gnss_satellite
  gs_signal :: string

definition signal_default :: gnss_signal where
  "signal_default = \<lparr> gs_satellite = satellite_default, gs_signal = [] \<rparr>"

definition make_signal :: "gnss_satellite \<Rightarrow> string \<Rightarrow> gnss_signal" where
  "make_signal sat str = \<lparr> gs_satellite = sat, gs_signal = str \<rparr>"

definition signal_of_str :: "string \<Rightarrow> gnss_signal" where
  "signal_of_str str = \<lparr> gs_satellite = satellite_default, gs_signal = str \<rparr>"

text \<open>\<open>operator==\<close> of two signals, with both sides of the inner comparison read from \<open>sig1\<close>.\<close>

definition signal_eq :: "gnss_signal \<Rightarrow> gnss_signal \<Rightarrow> bool" where
  "signal_eq sig1 sig2 = (if sat_eq (gs_satellite sig1) (gs_satellite sig2) then
     (if gs_signal sig1 = gs_signal sig1 then True else False) else False)"

section \<open>What the constructor builds\<close>

text \<open>The numbers a system assigns, and the frequency channel of a Glonass satellite.\<close>

fun prn_defined :: "string \<Rightarrow> u32 \<Rightarrow> bool" where
  "prn_defined sys p =
    (if sys = ''GPS'' then 1 \<le> p \<and> p \<le> 32
     else if sys = ''Glonass'' then 1 \<le> p \<and> p \<le> 24
     else if sys = ''SBAS'' then p \<in> {120, 123, 131, 135, 136, 138}
     else if sys = ''Galileo'' then 1 \<le> p \<and> p \<le> 36
     else if sys = ''Beidou'' then 1 \<le> p \<and> p \<le> 63
     else sys = ''QZSS'' \<and> 193 \<le> p \<and> p \<le> 201)"

definition glonass_channel :: "u32 \<Rightarrow> 32 word" where
  "glonass_channel p = (case map_of glonass_blocks p of Some (b, rf) \<Rightarrow> rf | None \<Rightarrow> 0)"

lemmas satellite_defs = make_satellite_def set_block_def what_block_def set_PRN_def set_system_def
  sat_reset_def satellite_default_def system_set_def

lemma set_PRN_eq:
  "sat_system s \<noteq> [] \<Longrightarrow> set_PRN p s = s\<lparr> sat_PRN := (if prn_defined (sat_system s) p then p else 0) \<rparr>"
proof -
  have outside: "(q < a \<or> b < q) = (\<not> (a \<le> q \<and> q \<le> b))" for q a b :: u32
    by auto
  assume "sat_system s \<noteq> []"
  then consider "sat_system s = ''GPS''" | "sat_system s = ''Glonass''" | "sat_system s = ''SBAS''"
    | "sat_system s = ''Galileo''" | "sat_system s = ''Beidou''" | "sat_system s = ''QZSS''"
    | "sat_system s \<notin> set system_set" "sat_system s \<noteq> []"
    by (auto simp: system_set_def)
  then show ?thesis
  proof cases
    case 7
    then show ?thesis by (simp add: set_PRN_def prn_defined.simps system_set_def)
  qed (simp_all only: set_PRN_def Let_def prn_defined.simps outside, simp_all)
qed

lemma set_PRN_empty: "sat_system s = [] \<Longrightarrow> set_PRN p s = s\<lparr> sat_PRN := 0 \<rparr>"
  by (simp add: set_PRN_def)

lemma prn_defined_system: "prn_defined sys p \<Longrightarrow> sys \<in> set system_set"
  by (simp add: system_set_def split: if_splits)

declare prn_defined.simps [simp del]

lemma system_set_nonempty: "sys \<in> set system_set \<Longrightarrow> sys \<noteq> []"
  by (auto simp: system_set_def)

lemma sat_block_fields [simp]:
  "sat_system (set_block sys p s) = sat_system s"
  "sat_PRN (set_block sys p s) = sat_PRN s"
  "sat_block (set_block sys p s) = fst (what_block sys p s)"
  by (auto simp: set_block_def what_block_def split: option.splits)

lemma rf_link_set_block:
  "sat_rf_link (set_block sys p s) =
    (if sys = ''Glonass'' \<and> map_of glonass_blocks p \<noteq> None then glonass_channel p else sat_rf_link s)"
  by (auto simp: set_block_def what_block_def glonass_channel_def split: option.splits)

lemma fst_what_block: "fst (what_block sys p s) = fst (what_block sys p s')"
  by (auto simp: what_block_def split: option.splits)

lemma satellite_fields:
  "make_satellite sys p =
    \<lparr> sat_system = (if sys \<in> set system_set then sys else []),
      sat_block = fst (what_block sys p satellite_default),
      sat_PRN = (if prn_defined sys p then p else 0),
      sat_rf_link = (if sys = ''Glonass'' then glonass_channel p else 0) \<rparr>" (is "_ = ?r")
proof (rule gnss_satellite.equality)
  let ?s = "sat_reset satellite_default"
  have "sat_PRN ?s = 0" and rf: "sat_rf_link ?s = 0"
    by (simp_all add: sat_reset_def satellite_default_def)
  then have p: "sat_PRN (set_PRN p (set_system sys ?s)) = (if prn_defined sys p then p else 0)"
    using prn_defined_system[of sys p] system_set_nonempty[of sys]
    by (cases "sys \<in> set system_set") (auto simp: set_PRN_eq set_PRN_empty set_system_def)
  have q: "sat_system (set_PRN p s) = sat_system s" "sat_rf_link (set_PRN p s) = sat_rf_link s" for s
    by (simp_all add: set_PRN_def Let_def)
  show "sat_system (make_satellite sys p) = sat_system ?r"
    by (simp add: make_satellite_def q set_system_def)
  show "sat_PRN (make_satellite sys p) = sat_PRN ?r"
    by (simp add: make_satellite_def p)
  show "sat_rf_link (make_satellite sys p) = sat_rf_link ?r"
    by (auto simp: make_satellite_def q rf_link_set_block set_system_def rf glonass_channel_def
        split: option.splits)
  show "sat_block (make_satellite sys p) = sat_block ?r"
    by (simp add: make_satellite_def) (rule fst_what_block)
qed simp

text \<open>A satellite is built exactly as asked for: an unknown system gives an object without
  a system, a PRN outside the numbers of the system (1 to 32 for GPS, 1 to 24 for Glonass, the
  six SBAS numbers, 1 to 36 for Galileo, 1 to 63 for Beidou, 193 to 201 for QZSS) becomes 0, the
  block is that of the number asked for, and only Glonass satellites get a frequency channel.\<close>

lemma make_satellite_fields:
  "make_satellite sys p =
    \<lparr> sat_system = (if sys \<in> set system_set then sys else []),
      sat_block = fst (what_block sys p satellite_default),
      sat_PRN = (if prn_defined sys p then p else 0),
      sat_rf_link = (if sys = ''Glonass'' then glonass_channel p else 0) \<rparr>"
  by (rule satellite_fields)

lemma sat_fields_make [simp]:
  "sat_system (make_satellite sys p) = (if sys \<in> set system_set then sys else [])"
  "sat_PRN (make_satellite sys p) = (if prn_defined sys p then p else 0)"
  "sat_rf_link (make_satellite sys p) = (if sys = ''Glonass'' then glonass_channel p else 0)"
proof -
  have f: "make_satellite sys p =
    \<lparr> sat_system = (if sys \<in> set system_set then sys else []),
      sat_block = fst (what_block sys p satellite_default),
      sat_PRN = (if prn_defined sys p then p else 0),
      sat_rf_link = (if sys = ''Glonass'' then glonass_channel p else 0) \<rparr>"
    by (rule satellite_fields)
  show "sat_system (make_satellite sys p) = (if sys \<in> set system_set then sys else [])"
    and "sat_PRN (make_satellite sys p) = (if prn_defined sys p then p else 0)"
    and "sat_rf_link (make_satellite sys p) = (if sys = ''Glonass'' then glonass_channel p else 0)"
    by (simp_all add: f)
qed

lemma sat_eq_iff:
  "sat_eq a b \<longleftrightarrow> sat_system a = sat_system b \<and> sat_PRN a = sat_PRN b \<and> sat_rf_link a = sat_rf_link b"
  by (simp add: sat_eq_def)

lemma sat_eq_refl [simp]: "sat_eq a a"
  by (simp add: sat_eq_iff)

lemma sat_eq_make:
  assumes "prn_defined sys p" "prn_defined sys' q"
  shows "sat_eq (make_satellite sys p) (make_satellite sys' q) \<longleftrightarrow> sys = sys' \<and> p = q"
  using assms prn_defined_system[of sys p] prn_defined_system[of sys' q] by (auto simp: sat_eq_iff)

lemma get_system_short_make:
  "sys \<in> set system_set \<Longrightarrow> \<exists>c. get_system_short (make_satellite sys p) = Some c"
  by (auto simp: get_system_short_def system_set_def satelliteSystem_def)

text \<open>Two Glonass satellites share a frequency channel exactly when they are antipodal: in
  the same orbital plane (numbers 1 to 8, 9 to 16, 17 to 24) and four slots apart.\<close>

lemma glonass_antipodal_channels:
  assumes "p \<in> set [1..<25]" and "q \<in> set [1..<25]"
  shows "sat_rf_link (make_satellite ''Glonass'' (of_nat p)) = sat_rf_link (make_satellite ''Glonass'' (of_nat q))
    \<longleftrightarrow> (p - 1) div 8 = (q - 1) div 8 \<and> p mod 4 = q mod 4"
proof -
  have tab: "map (\<lambda>p. (p, glonass_channel (of_nat p))) [1..<25] = zip [1..<25]
      ([1, - 4, 5, 6, 1, - 4, 5, 6, - 2, - 7, 0, - 1, - 2, - 7, 0, - 1, 4, - 3, 3, 2, 4, - 3, 3, 2] :: 32 word list)"
    by code_simp
  have "list_all (\<lambda>(p, a). list_all (\<lambda>(q, b). (a = b) = ((p - 1) div 8 = (q - 1) div 8 \<and> p mod 4 = q mod 4))
      (zip [1..<25] ([1, - 4, 5, 6, 1, - 4, 5, 6, - 2, - 7, 0, - 1, - 2, - 7, 0, - 1, 4, - 3, 3, 2, 4, - 3, 3, 2] :: 32 word list)))
      (zip [1..<25] ([1, - 4, 5, 6, 1, - 4, 5, 6, - 2, - 7, 0, - 1, - 2, - 7, 0, - 1, 4, - 3, 3, 2, 4, - 3, 3, 2] :: 32 word list))"
    by code_simp
  then have "list_all (\<lambda>p. list_all (\<lambda>q. (glonass_channel (of_nat p) = glonass_channel (of_nat q)) =
      ((p - 1) div 8 = (q - 1) div 8 \<and> p mod 4 = q mod 4)) [1..<25]) [1..<25]"
    unfolding tab[symmetric] list.pred_map by (simp add: comp_def)
  with assms show ?thesis by (simp add: list_all_iff)
qed

lemma glonass_antipodal_channels_witness:
  "sat_rf_link (make_satellite ''Glonass'' (of_nat 20)) = sat_rf_link (make_satellite ''Glonass'' (of_nat 24))"
  using glonass_antipodal_channels[of 20 24] by simp

lemma signal_eq_iff: "signal_eq a b \<longleftrightarrow> sat_eq (gs_satellite a) (gs_satellite b)"
  by (simp add: signal_eq_def)

text \<open>The comparison of two signals does not look at the signal: the L1 and the L5 signal of
  one satellite compare equal, although the objects differ.\<close>

lemma signal_comparison_ignores_the_signal:
  "signal_eq (make_signal s x) (make_signal t y) = sat_eq s t
    \<and> (make_signal s x = make_signal t y \<longleftrightarrow> s = t \<and> x = y)"
  by (simp add: signal_eq_iff make_signal_def)

text \<open>Signals of numbers that exist: on those with one signal name, the comparison is equality.\<close>

definition proper_signal :: "string \<Rightarrow> gnss_signal \<Rightarrow> bool" where
  "proper_signal str g \<longleftrightarrow> (\<exists>sys p. prn_defined sys p \<and> g = make_signal (make_satellite sys p) str)"

lemma proper_signal_str: "proper_signal str g \<Longrightarrow> gs_signal g = str"
  by (auto simp: proper_signal_def make_signal_def)

lemma proper_signal_short: "proper_signal str g \<Longrightarrow> \<exists>c. get_system_short (gs_satellite g) = Some c"
  unfolding proper_signal_def make_signal_def
  using get_system_short_make prn_defined_system by fastforce

lemma proper_signal_eq:
  "proper_signal str a \<Longrightarrow> proper_signal str b \<Longrightarrow> signal_eq a b \<longleftrightarrow> a = b"
  unfolding proper_signal_def signal_eq_iff make_signal_def using sat_eq_make by fastforce

end
