(* ===== verification/Rx_Queue.thy ===== *)
theory Rx_Queue
  imports Containers
begin

text \<open>
  The thread-safe containers between the threads of the receiver, \<open>concurrent_queue.h\<close> and
  \<open>concurrent_map.h\<close>. Every method holds the mutex for its whole body, so a method is one
  atomic step on the container; a caller that blocks on the condition variable takes its step
  once the queue is not empty.

  What the clients rely on is the locale \<open>message_queue\<close>: first in, first out, nothing lost
  and nothing invented.
\<close>

section \<open>Concurrent\_Queue\<close>

type_synonym 'a concurrent_queue = "'a list"

definition cq_push :: "'a \<Rightarrow> 'a concurrent_queue \<Rightarrow> 'a concurrent_queue" where
  "cq_push x q = q @ [x]"

definition cq_size :: "'a concurrent_queue \<Rightarrow> nat" where
  "cq_size q = length q"

definition cq_empty :: "'a concurrent_queue \<Rightarrow> bool" where
  "cq_empty q = (cq_size q = 0)"

definition cq_clear :: "'a concurrent_queue \<Rightarrow> 'a concurrent_queue" where
  "cq_clear q = []"

text \<open>\<open>try_pop\<close>: the result flag, the value of the reference argument, the queue.\<close>

definition cq_try_pop :: "'a \<Rightarrow> 'a concurrent_queue \<Rightarrow> bool \<times> 'a \<times> 'a concurrent_queue" where
  "cq_try_pop v q = (if q = [] then (False, v, q) else (True, hd q, tl q))"

text \<open>\<open>wait_and_pop\<close> does not return while the queue is empty.\<close>

definition cq_wait_and_pop :: "'a concurrent_queue \<Rightarrow> ('a \<times> 'a concurrent_queue) option" where
  "cq_wait_and_pop q = (if q = [] then None else Some (hd q, tl q))"

text \<open>\<open>timed_wait_and_pop\<close>: \<open>q\<close> is the queue when \<open>wait_for\<close> returns, which is with an empty
  queue only after the time has passed.\<close>

definition cq_timed_wait_and_pop :: "'a \<Rightarrow> 'a concurrent_queue \<Rightarrow> bool \<times> 'a \<times> 'a concurrent_queue" where
  "cq_timed_wait_and_pop v q = (let ready = (q \<noteq> []) in
     if \<not> ready then (False, v, q) else (True, hd q, tl q))"

locale message_queue =
  fixes push :: "'a \<Rightarrow> 'q \<Rightarrow> 'q"
    and pop :: "'a \<Rightarrow> 'q \<Rightarrow> bool \<times> 'a \<times> 'q"
    and contents :: "'q \<Rightarrow> 'a list"
  assumes contents_push: "contents (push x q) = contents q @ [x]"
    and pop_empty: "contents q = [] \<Longrightarrow> pop v q = (False, v, q)"
    and pop_head: "contents q = x # xs \<Longrightarrow> \<exists>q'. pop v q = (True, x, q') \<and> contents q' = xs"
begin

fun push_all :: "'a list \<Rightarrow> 'q \<Rightarrow> 'q" where
  "push_all [] q = q"
| "push_all (x # xs) q = push_all xs (push x q)"

fun pop_many :: "nat \<Rightarrow> 'a \<Rightarrow> 'q \<Rightarrow> 'a list \<times> 'q" where
  "pop_many 0 v q = ([], q)"
| "pop_many (Suc n) v q = (case pop v q of (False, _, q') \<Rightarrow> ([], q')
     | (True, x, q') \<Rightarrow> (case pop_many n v q' of (xs, r) \<Rightarrow> (x # xs, r)))"

lemma contents_push_all: "contents (push_all xs q) = contents q @ xs"
  by (induction xs arbitrary: q) (simp_all add: contents_push)

lemma pop_false_iff: "fst (pop v q) = False \<longleftrightarrow> contents q = []"
proof (cases "contents q")
  case Nil
  then show ?thesis by (simp add: pop_empty)
next
  case (Cons x xs)
  with pop_head[OF Cons, of v] show ?thesis by auto
qed

lemma pop_many_contents:
  "\<exists>q'. pop_many n v q = (take n (contents q), q') \<and> contents q' = drop n (contents q)"
proof (induction n arbitrary: q)
  case 0
  show ?case by simp
next
  case (Suc n)
  show ?case
  proof (cases "contents q")
    case Nil
    then show ?thesis by (simp add: pop_empty)
  next
    case (Cons x xs)
    then obtain q1 where q1: "pop v q = (True, x, q1)" "contents q1 = xs"
      using pop_head[OF Cons, of v] by blast
    from Suc.IH[of q1] obtain q2 where "pop_many n v q1 = (take n xs, q2)" "contents q2 = drop n xs"
      using q1(2) by auto
    then show ?thesis using q1(1) Cons by simp
  qed
qed

lemma fifo:
  "contents q = [] \<Longrightarrow> n = length xs \<Longrightarrow>
    \<exists>q'. pop_many n v (push_all xs q) = (xs, q') \<and> contents q' = []"
  using pop_many_contents[of n v "push_all xs q"] by (simp add: contents_push_all)

end

interpretation tq: message_queue cq_push cq_try_pop "\<lambda>q. q"
  by unfold_locales (auto simp: cq_push_def cq_try_pop_def)

interpretation wq: message_queue cq_push cq_timed_wait_and_pop "\<lambda>q. q"
  by unfold_locales (auto simp: cq_push_def cq_timed_wait_and_pop_def)

lemma cq_empty_iff: "cq_empty q \<longleftrightarrow> \<not> fst (cq_timed_wait_and_pop v q)"
  using wq.pop_false_iff[of v q] by (auto simp: cq_empty_def cq_size_def)

text \<open>The control queue is first in, first out: messages pushed into a cleared queue come
  out of as many timed waits complete and in the order they were pushed, and then the queue is
  empty again.\<close>

lemma concurrent_queue_fifo:
  "wq.pop_many (length xs) v (wq.push_all xs (cq_clear q)) = (xs, [])
    \<and> cq_empty (snd (wq.pop_many (length xs) v (wq.push_all xs (cq_clear q))))"
  using wq.fifo[of "cq_clear q" "length xs" xs v] by (auto simp: cq_clear_def cq_empty_def cq_size_def)

section \<open>Concurrent\_Map\<close>

type_synonym 'a concurrent_map = "(int, 'a) std_map"

definition cm_write :: "int \<Rightarrow> 'a \<Rightarrow> 'a concurrent_map \<Rightarrow> 'a concurrent_map" where
  "cm_write key data m =
     (case map_of m key of Some _ \<Rightarrow> map_assign key data m | None \<Rightarrow> map_insert key data m)"

definition cm_get_map_copy :: "'a concurrent_map \<Rightarrow> 'a concurrent_map" where
  "cm_get_map_copy m = m"

definition cm_size :: "'a concurrent_map \<Rightarrow> nat" where
  "cm_size m = length m"

definition cm_read :: "int \<Rightarrow> 'a \<Rightarrow> 'a concurrent_map \<Rightarrow> bool \<times> 'a" where
  "cm_read key v m = (case map_of m key of Some d \<Rightarrow> (True, d) | None \<Rightarrow> (False, v))"

lemma cm_write_eq: "cm_write key data m = map_assign key data m"
  by (simp add: cm_write_def map_insert_def split: option.split)

lemma cm_write_inv: "map_inv m \<Longrightarrow> map_inv (cm_write key data m)"
  by (simp add: cm_write_eq om.inv_assign)

lemma cm_read_write:
  "map_inv m \<Longrightarrow> cm_read k v (cm_write key data m) = (if k = key then (True, data) else cm_read k v m)"
  by (simp add: cm_read_def cm_write_eq om.find_assign)

lemma cm_size_write:
  "map_inv m \<Longrightarrow> cm_size (cm_write key data m) = (if fst (cm_read key v m) then cm_size m else Suc (cm_size m))"
proof (induction m)
  case Nil
  then show ?case by (simp add: cm_size_def cm_write_eq cm_read_def)
next
  case (Cons a m)
  obtain k w where a: "a = (k, w)" by (cases a)
  with Cons have "map_of m key = None" if "key < k"
    using that by (auto simp: map_of_eq_None_iff)
  with Cons a show ?case
    by (auto simp: cm_size_def cm_write_eq cm_read_def)
qed

end
