(* ===== verification/Channel.thy ===== *)
theory Channel
  imports Gnss_Satellite Rx_Queue
begin

text \<open>
  A receiver channel: the state machine of \<open>channel_fsm.cc\<close>, the handler of the messages the
  acquisition and tracking blocks send it (\<open>channel_msg_receiver_cc.cc\<close>), and the operations of
  \<open>channel.cc\<close> the flowgraph calls. The signal processing blocks themselves are not modelled;
  the calls made on them are recorded in the order they are made, with the Doppler values, which
  are floating-point numbers, as values of a type parameter.
\<close>

section \<open>Data\<close>

record channel_event =
  channel_id :: "32 word"
  event_type :: "32 word"

definition channel_event_make :: "32 word \<Rightarrow> 32 word \<Rightarrow> channel_event" where
  "channel_event_make c e = \<lparr> channel_id = c, event_type = e \<rparr>"

text \<open>The argument of \<open>assist_acquisition_doppler\<close>: 0, or the value \<open>project_doppler\<close> computes
  for a signal from the Doppler of its primary frequency.\<close>

datatype 'd doppler = Doppler_zero | Projected string 'd

datatype 'd block_call =
    Acq_stop_acquisition | Acq_reset | Acq_set_local_code | Acq_set_doppler_center "'d doppler"
  | Trk_stop_tracking | Trk_start_tracking | Trk_set_gnss_synchro
  | Nav_reset | Nav_set_satellite gnss_satellite

text \<open>\<open>has_acq\<close> and the other flags say that the pointer is not null, \<open>calls\<close> are the calls on
  the blocks so far.\<close>

record 'd channel_fsm =
  has_acq :: bool
  has_trk :: bool
  has_nav :: bool
  has_queue :: bool
  fsm_channel :: u32
  fsm_state :: u32
  calls :: "'d block_call list"

definition channel_fsm_default :: "'d channel_fsm" where
  "channel_fsm_default = \<lparr> has_acq = False, has_trk = False, has_nav = False, has_queue = False,
     fsm_channel = 0, fsm_state = 0, calls = [] \<rparr>"

definition fsm_set_acquisition :: "'d channel_fsm \<Rightarrow> 'd channel_fsm" where
  "fsm_set_acquisition f = f\<lparr> has_acq := True \<rparr>"

definition fsm_set_tracking :: "'d channel_fsm \<Rightarrow> 'd channel_fsm" where
  "fsm_set_tracking f = f\<lparr> has_trk := True \<rparr>"

definition fsm_set_telemetry :: "'d channel_fsm \<Rightarrow> 'd channel_fsm" where
  "fsm_set_telemetry f = f\<lparr> has_nav := True \<rparr>"

definition fsm_set_queue :: "'d channel_fsm \<Rightarrow> 'd channel_fsm" where
  "fsm_set_queue f = f\<lparr> has_queue := True \<rparr>"

definition fsm_set_channel :: "u32 \<Rightarrow> 'd channel_fsm \<Rightarrow> 'd channel_fsm" where
  "fsm_set_channel c f = f\<lparr> fsm_channel := c \<rparr>"

section \<open>Actions\<close>

text \<open>An action of the state machine: \<^const>\<open>None\<close> when it goes through a null pointer, otherwise
  the state machine and the events pushed on the control queue.\<close>

type_synonym 'd fsm_action = "('d channel_fsm \<times> channel_event list) option"

definition log_call :: "'d block_call \<Rightarrow> 'd channel_fsm \<Rightarrow> 'd channel_fsm" where
  "log_call c f = f\<lparr> calls := calls f @ [c] \<rparr>"

definition fsm_stop_acquisition :: "'d channel_fsm \<Rightarrow> 'd fsm_action" where
  "fsm_stop_acquisition f =
     (if has_acq f then Some (log_call Acq_stop_acquisition f, []) else None)"

definition fsm_stop_tracking :: "'d channel_fsm \<Rightarrow> 'd fsm_action" where
  "fsm_stop_tracking f =
     (if has_trk f then Some (log_call Trk_stop_tracking f, []) else None)"

definition fsm_start_acquisition :: "'d channel_fsm \<Rightarrow> 'd fsm_action" where
  "fsm_start_acquisition f =
     (if has_acq f \<and> has_nav f then Some (log_call Nav_reset (log_call Acq_reset f), []) else None)"

definition fsm_start_tracking :: "'d channel_fsm \<Rightarrow> 'd fsm_action" where
  "fsm_start_tracking f =
     (if has_trk f \<and> has_queue f
      then Some (log_call Trk_start_tracking f, [channel_event_make (fsm_channel f) 1]) else None)"

definition fsm_request_satellite :: "'d channel_fsm \<Rightarrow> 'd fsm_action" where
  "fsm_request_satellite f =
     (if has_queue f then Some (f, [channel_event_make (fsm_channel f) 0]) else None)"

definition fsm_notify_stop_tracking :: "'d channel_fsm \<Rightarrow> 'd fsm_action" where
  "fsm_notify_stop_tracking f =
     (if has_queue f then Some (f, [channel_event_make (fsm_channel f) 2]) else None)"

section \<open>Events\<close>

text \<open>An event: the value returned, the state machine, the events pushed.\<close>

type_synonym 'd fsm_result = "(bool \<times> 'd channel_fsm \<times> channel_event list) option"

definition accept_event :: "'d fsm_action \<Rightarrow> 'd fsm_result" where
  "accept_event a = map_option (Pair True) a"

definition Event_stop_channel :: "'d channel_fsm \<Rightarrow> 'd fsm_result" where
  "Event_stop_channel f =
    (if fsm_state f = 0 then Some (True, f, [])
     else if fsm_state f = 1 then accept_event (fsm_stop_acquisition (f\<lparr> fsm_state := 0 \<rparr>))
     else if fsm_state f = 2 then accept_event (fsm_stop_tracking (f\<lparr> fsm_state := 0 \<rparr>))
     else Some (True, f, []))"

definition Event_start_acquisition_fpga :: "'d channel_fsm \<Rightarrow> 'd fsm_result" where
  "Event_start_acquisition_fpga f =
    (if fsm_state f = 1 \<or> fsm_state f = 2 then Some (False, f, [])
     else Some (True, f\<lparr> fsm_state := 1 \<rparr>, []))"

definition Event_start_acquisition :: "'d channel_fsm \<Rightarrow> 'd fsm_result" where
  "Event_start_acquisition f =
    (if fsm_state f = 1 \<or> fsm_state f = 2 then Some (False, f, [])
     else accept_event (fsm_start_acquisition (f\<lparr> fsm_state := 1 \<rparr>)))"

definition Event_valid_acquisition :: "'d channel_fsm \<Rightarrow> 'd fsm_result" where
  "Event_valid_acquisition f =
    (if fsm_state f \<noteq> 1 then Some (False, f, [])
     else accept_event (fsm_start_tracking (f\<lparr> fsm_state := 2 \<rparr>)))"

definition Event_failed_acquisition_repeat :: "'d channel_fsm \<Rightarrow> 'd fsm_result" where
  "Event_failed_acquisition_repeat f =
    (if fsm_state f \<noteq> 1 then Some (False, f, [])
     else accept_event (fsm_start_acquisition (f\<lparr> fsm_state := 1 \<rparr>)))"

definition Event_failed_acquisition_no_repeat :: "'d channel_fsm \<Rightarrow> 'd fsm_result" where
  "Event_failed_acquisition_no_repeat f =
    (if fsm_state f \<noteq> 1 then Some (False, f, [])
     else accept_event (fsm_request_satellite (f\<lparr> fsm_state := 3 \<rparr>)))"

definition Event_failed_tracking_standby :: "'d channel_fsm \<Rightarrow> 'd fsm_result" where
  "Event_failed_tracking_standby f =
    (if fsm_state f \<noteq> 2 then Some (False, f, [])
     else accept_event (fsm_notify_stop_tracking (f\<lparr> fsm_state := 0 \<rparr>)))"

text \<open>The handler of the messages of the blocks; an unknown message is only logged.\<close>

definition msg_handler_channel_events :: "bool \<Rightarrow> int \<Rightarrow> 'd channel_fsm \<Rightarrow> 'd fsm_result" where
  "msg_handler_channel_events repeat message f =
    (if message = 1 then Event_valid_acquisition f
     else if message = 2 then
       (if repeat = True then Event_failed_acquisition_repeat f
        else Event_failed_acquisition_no_repeat f)
     else if message = 3 then Event_failed_tracking_standby f
     else Some (False, f, []))"

section \<open>The channel\<close>

text \<open>The members of \<open>Gnss_Synchro\<close> that the control of the receiver reads or writes.\<close>

record 'd gnss_synchro =
  syn_System :: char
  syn_Signal :: string
  syn_PRN :: u32
  syn_Channel_ID :: "32 word"
  syn_Carrier_Doppler_hz :: 'd
  syn_RX_time :: 'd
  syn_Flag_valid_pseudorange :: bool

record 'd channel =
  ch_signal :: gnss_signal
  ch_System :: char
  ch_Signal :: string
  ch_PRN :: u32
  ch_Channel_ID :: "32 word"
  ch_fsm :: "'d channel_fsm"
  ch_repeat :: bool
  ch_fpga :: bool

definition NUL :: char where
  "NUL = CHR 0x00"

text \<open>The constructor, for a channel number, the implicit signal, and the two properties it reads.\<close>

definition make_channel :: "u32 \<Rightarrow> string \<Rightarrow> bool \<Rightarrow> bool \<Rightarrow> 'd channel" where
  "make_channel c signal_str repeat fpga =
    \<lparr> ch_signal = signal_of_str signal_str, ch_System = NUL, ch_Signal = [NUL, NUL, NUL], ch_PRN = 0,
      ch_Channel_ID = c,
      ch_fsm = fsm_set_queue (fsm_set_channel c (fsm_set_telemetry (fsm_set_tracking
        (fsm_set_acquisition channel_fsm_default)))),
      ch_repeat = repeat, ch_fpga = fpga \<rparr>"

text \<open>\<open>str_aux[1]\<close> is past the terminator of an empty string; \<open>get_system_short\<close> throws when the
  satellite has no system.\<close>

definition set_signal :: "gnss_signal \<Rightarrow> 'd channel \<Rightarrow> 'd channel option" where
  "set_signal g ch =
    do { let str_aux = gs_signal g @ [NUL];
         s0 \<leftarrow> vget str_aux 0;
         s1 \<leftarrow> vget str_aux 1;
         short \<leftarrow> get_system_short (gs_satellite g);
         s \<leftarrow> vget (short @ [NUL]) 0;
         let f1 = log_call Acq_set_local_code (ch_fsm ch);
         let f2 = (if ch_fpga ch then log_call Trk_set_gnss_synchro f1 else f1);
         Some (ch\<lparr> ch_signal := g, ch_Signal := [s0, s1, NUL], ch_PRN := sat_PRN (gs_satellite g),
           ch_System := s, ch_fsm := log_call (Nav_set_satellite (gs_satellite g)) f2 \<rparr>) }"

definition stop_channel :: "'d channel \<Rightarrow> 'd channel option" where
  "stop_channel ch = do { (result, f, evs) \<leftarrow> Event_stop_channel (ch_fsm ch); Some (ch\<lparr> ch_fsm := f \<rparr>) }"

definition assist_acquisition_doppler :: "'d doppler \<Rightarrow> 'd channel \<Rightarrow> 'd channel" where
  "assist_acquisition_doppler d ch = ch\<lparr> ch_fsm := log_call (Acq_set_doppler_center d) (ch_fsm ch) \<rparr>"

definition start_acquisition :: "'d channel \<Rightarrow> 'd channel option" where
  "start_acquisition ch =
    (if \<not> ch_fpga ch then
       do { (result, f, evs) \<leftarrow> Event_start_acquisition (ch_fsm ch); Some (ch\<lparr> ch_fsm := f \<rparr>) }
     else
       do { (result, f, evs) \<leftarrow> Event_start_acquisition_fpga (ch_fsm ch);
            (f', evs') \<leftarrow> fsm_start_acquisition f;
            Some (ch\<lparr> ch_fsm := f' \<rparr>) })"

section \<open>The transition table\<close>

text \<open>The abstract machine: four states (0 standby, 1 acquisition, 2 tracking, 3 waiting for a
  satellite), and for each event whether it is accepted, the next state, the calls on the blocks
  and the event types pushed.\<close>

datatype fsm_event = Stop_channel | Start_acquisition_fpga | Start_acquisition | Valid_acquisition
  | Failed_acquisition_repeat | Failed_acquisition_no_repeat | Failed_tracking

fun fsm_dispatch :: "fsm_event \<Rightarrow> 'd channel_fsm \<Rightarrow> 'd fsm_result" where
  "fsm_dispatch Stop_channel f = Event_stop_channel f"
| "fsm_dispatch Start_acquisition_fpga f = Event_start_acquisition_fpga f"
| "fsm_dispatch Start_acquisition f = Event_start_acquisition f"
| "fsm_dispatch Valid_acquisition f = Event_valid_acquisition f"
| "fsm_dispatch Failed_acquisition_repeat f = Event_failed_acquisition_repeat f"
| "fsm_dispatch Failed_acquisition_no_repeat f = Event_failed_acquisition_no_repeat f"
| "fsm_dispatch Failed_tracking f = Event_failed_tracking_standby f"

fun fsm_table :: "fsm_event \<Rightarrow> u32 \<Rightarrow> bool \<times> u32 \<times> 'd block_call list \<times> 32 word list" where
  "fsm_table Stop_channel s =
     (True, if s = 1 \<or> s = 2 then 0 else s,
      if s = 1 then [Acq_stop_acquisition] else if s = 2 then [Trk_stop_tracking] else [], [])"
| "fsm_table Start_acquisition_fpga s =
     (if s = 1 \<or> s = 2 then (False, s, [], []) else (True, 1, [], []))"
| "fsm_table Start_acquisition s =
     (if s = 1 \<or> s = 2 then (False, s, [], []) else (True, 1, [Acq_reset, Nav_reset], []))"
| "fsm_table Valid_acquisition s =
     (if s = 1 then (True, 2, [Trk_start_tracking], [1]) else (False, s, [], []))"
| "fsm_table Failed_acquisition_repeat s =
     (if s = 1 then (True, 1, [Acq_reset, Nav_reset], []) else (False, s, [], []))"
| "fsm_table Failed_acquisition_no_repeat s =
     (if s = 1 then (True, 3, [], [0]) else (False, s, [], []))"
| "fsm_table Failed_tracking s =
     (if s = 2 then (True, 0, [], [2]) else (False, s, [], []))"

definition fsm_ready :: "'d channel_fsm \<Rightarrow> bool" where
  "fsm_ready f \<longleftrightarrow> has_acq f \<and> has_trk f \<and> has_nav f \<and> has_queue f"

lemmas fsm_event_defs = Event_stop_channel_def Event_start_acquisition_fpga_def
  Event_start_acquisition_def Event_valid_acquisition_def Event_failed_acquisition_repeat_def
  Event_failed_acquisition_no_repeat_def Event_failed_tracking_standby_def

lemmas fsm_action_defs = accept_event_def fsm_stop_acquisition_def fsm_stop_tracking_def
  fsm_start_acquisition_def fsm_start_tracking_def fsm_request_satellite_def
  fsm_notify_stop_tracking_def log_call_def

definition fsm_apply :: "fsm_event \<Rightarrow> 'd channel_fsm \<Rightarrow> bool \<times> 'd channel_fsm \<times> channel_event list" where
  "fsm_apply e f = (case fsm_table e (fsm_state f) of (ok, s, cs, ts) \<Rightarrow>
     (ok, f\<lparr> fsm_state := s, calls := calls f @ cs \<rparr>, map (channel_event_make (fsm_channel f)) ts))"

lemma fsm_dispatch_table: "fsm_ready f \<Longrightarrow> fsm_dispatch e f = Some (fsm_apply e f)"
  by (cases e) (auto simp: fsm_ready_def fsm_event_defs fsm_action_defs fsm_apply_def)

lemma fsm_apply_ready: "fsm_apply e f = (ok, f', evs) \<Longrightarrow> fsm_ready f' = fsm_ready f"
  by (auto simp: fsm_apply_def fsm_ready_def split: prod.splits)

section \<open>Runs of the state machine\<close>

inductive fsm_run :: "u32 \<Rightarrow> 'd channel_fsm \<Rightarrow> channel_event list \<Rightarrow> bool" for c where
  fsm_fresh: "fsm_run c (ch_fsm (make_channel c str rep fpga)) []"
| fsm_step: "fsm_run c f evs \<Longrightarrow> fsm_dispatch e f = Some (ok, f', new) \<Longrightarrow> fsm_run c f' (evs @ new)"

definition pushed :: "32 word \<Rightarrow> channel_event list \<Rightarrow> nat" where
  "pushed t evs = length (filter (\<lambda>e. event_type e = t) evs)"

definition called :: "'d block_call \<Rightarrow> 'd channel_fsm \<Rightarrow> nat" where
  "called k f = length (filter (\<lambda>c. c = k) (calls f))"

definition sessions_balanced :: "u32 \<Rightarrow> 'd channel_fsm \<Rightarrow> channel_event list \<Rightarrow> bool" where
  "sessions_balanced c f evs \<longleftrightarrow>
     fsm_ready f \<and> fsm_channel f = c \<and> fsm_state f \<in> {0, 1, 2, 3} \<and> (\<forall>e \<in> set evs. channel_id e = c) \<and>
     called Trk_start_tracking f = pushed 1 evs \<and>
     called Trk_start_tracking f =
       pushed 2 evs + called Trk_stop_tracking f + (if fsm_state f = 2 then 1 else 0)"

lemma sessions_balanced_step:
  assumes "sessions_balanced c f evs"
  shows "\<exists>ok f' new. fsm_dispatch e f = Some (ok, f', new) \<and> sessions_balanced c f' (evs @ new)"
proof -
  have r: "fsm_ready f" using assms by (simp add: sessions_balanced_def)
  obtain ok f' new where a: "fsm_apply e f = (ok, f', new)" by (cases "fsm_apply e f")
  have "sessions_balanced c f' (evs @ new)"
    using assms a fsm_apply_ready[OF a]
    by (cases e) (auto simp: sessions_balanced_def fsm_apply_def called_def pushed_def
        channel_event_make_def split: if_splits)
  with fsm_dispatch_table[OF r, of e] a show ?thesis by simp
qed

lemma fsm_run_balanced: "fsm_run c f evs \<Longrightarrow> sessions_balanced c f evs"
proof (induction rule: fsm_run.induct)
  case (fsm_fresh str rep fpga)
  show ?case
    by (simp add: sessions_balanced_def make_channel_def channel_fsm_default_def fsm_set_queue_def
        fsm_set_channel_def fsm_set_telemetry_def fsm_set_tracking_def fsm_set_acquisition_def
        fsm_ready_def called_def pushed_def)
next
  case (fsm_step f evs e ok f' new)
  from sessions_balanced_step[OF fsm_step.IH, of e] fsm_step.hyps(2) show ?case by simp
qed


text \<open>A loss of lock is only reported after the success it ends.\<close>

definition losses_follow :: "'d channel_fsm \<Rightarrow> channel_event list \<Rightarrow> bool" where
  "losses_follow f evs \<longleftrightarrow> (fsm_state f = 2 \<longrightarrow> evs \<noteq> [] \<and> event_type (last evs) = 1) \<and>
     (\<forall>i < length evs. event_type (evs ! i) = 2 \<longrightarrow> 0 < i \<and> event_type (evs ! (i - 1)) = 1)"

lemma losses_follow_push:
  assumes "losses_follow f evs" "fsm_state f' = 2 \<longrightarrow> event_type e = 1"
    "event_type e = 2 \<longrightarrow> fsm_state f = 2"
  shows "losses_follow f' (evs @ [e])"
proof -
  have "event_type ((evs @ [e]) ! i) = 2 \<longrightarrow> 0 < i \<and> event_type ((evs @ [e]) ! (i - 1)) = 1"
    if "i < length (evs @ [e])" for i
  proof (cases "i < length evs")
    case True
    then have "(evs @ [e]) ! (i - 1) = evs ! (i - 1)" by (simp add: nth_append)
    with assms(1) True show ?thesis by (auto simp: losses_follow_def nth_append)
  next
    case False
    with that have "i = length evs" by simp
    with assms(1,3) show ?thesis
      by (cases evs rule: rev_cases) (auto simp: losses_follow_def nth_append)
  qed
  with assms(2) show ?thesis by (simp add: losses_follow_def)
qed

lemma losses_follow_quiet: "losses_follow f evs \<Longrightarrow> fsm_state f' \<noteq> 2 \<or> fsm_state f = 2 \<Longrightarrow> losses_follow f' evs"
  by (auto simp: losses_follow_def)

lemma losses_follow_apply:
  assumes "losses_follow f evs" "fsm_apply e f = (ok, f', new)"
  shows "losses_follow f' (evs @ new)"
  using assms losses_follow_quiet[OF assms(1), of f']
  by (cases e) (auto simp: fsm_apply_def channel_event_make_def intro: losses_follow_push[OF assms(1)]
      split: if_splits)

lemma fsm_run_losses_follow: "fsm_run c f evs \<Longrightarrow> losses_follow f evs"
proof (induction rule: fsm_run.induct)
  case (fsm_fresh str rep fpga)
  show ?case by (simp add: losses_follow_def make_channel_def channel_fsm_default_def fsm_set_queue_def
        fsm_set_channel_def fsm_set_telemetry_def fsm_set_tracking_def fsm_set_acquisition_def)
next
  case (fsm_step f evs e ok f' new)
  have "fsm_ready f" using fsm_run_balanced[OF fsm_step.hyps(1)] by (simp add: sessions_balanced_def)
  from fsm_dispatch_table[OF this, of e] fsm_step.hyps(2) have "fsm_apply e f = (ok, f', new)" by simp
  with fsm_step.IH show ?case by (rule losses_follow_apply)
qed

text \<open>C10: Whatever events reach the state machine of a channel and in whatever order, it never
  fails, stays in its four states and keeps the books of the tracking sessions: tracking has been
  started once for each success reported to the receiver, and each session that was started has
  been reported lost, was stopped, or is the one running; a loss is reported only directly after
  the success it ends.\<close>

theorem channel_fsm_sessions:
  assumes "fsm_run c f evs"
  shows "fsm_state f \<in> {0, 1, 2, 3} \<and> fsm_dispatch e f \<noteq> None
    \<and> called Trk_start_tracking f = pushed 1 evs
    \<and> pushed 1 evs = pushed 2 evs + called Trk_stop_tracking f + (if fsm_state f = 2 then 1 else 0)
    \<and> (\<forall>i < length evs. event_type (evs ! i) = 2 \<longrightarrow> 0 < i \<and> event_type (evs ! (i - 1)) = 1)"
  using fsm_run_balanced[OF assms] fsm_run_losses_follow[OF assms]
  by (auto simp: sessions_balanced_def fsm_dispatch_table losses_follow_def)

theorem channel_fsm_sessions_witness:
  "\<exists>f :: unit channel_fsm. fsm_run 4 f [channel_event_make 4 1, channel_event_make 4 2]
    \<and> called Trk_start_tracking f = 1"
proof -
  let ?f0 = "ch_fsm (make_channel 4 ''1C'' False False) :: unit channel_fsm"
  note run = fsm_step[where c = 4]
  have s1: "fsm_run 4 (fst (snd (the (fsm_dispatch Start_acquisition ?f0)))) ([] @ [])"
    by (rule run[OF fsm_fresh, where e = Start_acquisition and ok = True]) code_simp
  let ?f1 = "fst (snd (the (fsm_dispatch Start_acquisition ?f0)))"
  let ?f2 = "fst (snd (the (fsm_dispatch Valid_acquisition ?f1)))"
  let ?f3 = "fst (snd (the (fsm_dispatch Failed_tracking ?f2)))"
  have s2: "fsm_run 4 ?f2 (([] @ []) @ [channel_event_make 4 1])"
    by (rule run[OF s1, where e = Valid_acquisition and ok = True]) code_simp
  have s3: "fsm_run 4 ?f3 ((([] @ []) @ [channel_event_make 4 1]) @ [channel_event_make 4 2])"
    by (rule run[OF s2, where e = Failed_tracking and ok = True]) code_simp
  have "fsm_run 4 ?f3 [channel_event_make 4 1, channel_event_make 4 2]" using s3 by simp
  moreover from channel_fsm_sessions[OF this, of Stop_channel] have "called Trk_start_tracking ?f3 = 1"
    by (simp add: pushed_def channel_event_make_def)
  ultimately show ?thesis by blast
qed


section \<open>What the flowgraph relies on\<close>

text \<open>The contract between a channel and the flowgraph: selecting a signal needs a satellite with
  a system and leaves the state machine alone; starting and stopping always succeed, keep the
  signal and have the effect the flowgraph counts on.\<close>

locale channel_control =
  fixes sel :: "gnss_signal \<Rightarrow> 'ch \<Rightarrow> 'ch option"
    and start :: "'ch \<Rightarrow> 'ch option"
    and stop :: "'ch \<Rightarrow> 'ch option"
    and assist :: "'d doppler \<Rightarrow> 'ch \<Rightarrow> 'ch"
    and signal :: "'ch \<Rightarrow> gnss_signal"
    and mode :: "'ch \<Rightarrow> u32"
    and ready :: "'ch \<Rightarrow> bool"
    and number :: "'ch \<Rightarrow> u32"
  assumes sel_ok: "gs_signal g \<noteq> [] \<Longrightarrow> get_system_short (gs_satellite g) \<noteq> None \<Longrightarrow>
      \<exists>ch'. sel g ch = Some ch' \<and> signal ch' = g \<and> mode ch' = mode ch \<and> ready ch' = ready ch \<and>
        number ch' = number ch"
    and start_ok: "ready ch \<Longrightarrow> \<exists>ch'. start ch = Some ch' \<and> signal ch' = signal ch \<and> ready ch' \<and>
      mode ch' = (if mode ch = 1 \<or> mode ch = 2 then mode ch else 1) \<and> number ch' = number ch"
    and stop_ok: "ready ch \<Longrightarrow> \<exists>ch'. stop ch = Some ch' \<and> signal ch' = signal ch \<and> ready ch' \<and>
      mode ch' = (if mode ch = 1 \<or> mode ch = 2 then 0 else mode ch) \<and> number ch' = number ch"
    and assist_ok: "signal (assist d ch) = signal ch \<and> mode (assist d ch) = mode ch \<and> ready (assist d ch) = ready ch
      \<and> number (assist d ch) = number ch"
begin

lemma stopped_channel_restarts:
  assumes "ready ch" "stop ch = Some c1" "start c1 = Some c2"
  shows "mode c2 = 1 \<and> signal c2 = signal ch \<and> ready c2"
  using stop_ok[OF assms(1)] start_ok[of c1] assms(2,3) by (auto split: if_splits)

lemma start_twice:
  assumes "ready ch" "start ch = Some c1" "start c1 = Some c2"
  shows "mode c2 = mode c1 \<and> signal c2 = signal c1"
  using start_ok[OF assms(1)] start_ok[of c1] assms(2,3) by (auto split: if_splits)

lemma sel_start:
  assumes "ready ch" "gs_signal g \<noteq> []" "get_system_short (gs_satellite g) \<noteq> None" "mode ch = 0 \<or> mode ch = 3"
  shows "\<exists>c1 c2. sel g ch = Some c1 \<and> start (assist d c1) = Some c2 \<and> signal c2 = g \<and> mode c2 = 1 \<and> ready c2
    \<and> number c2 = number ch"
proof -
  from sel_ok[OF assms(2,3), of ch] assms(1,4) obtain c1 where
    c1: "sel g ch = Some c1" "signal c1 = g" "mode c1 = 0 \<or> mode c1 = 3" "ready c1" "number c1 = number ch"
    by auto
  with assist_ok[of d c1] start_ok[of "assist d c1"] show ?thesis by auto
qed

end

definition ch_ready :: "'d channel \<Rightarrow> bool" where
  "ch_ready ch \<longleftrightarrow> fsm_ready (ch_fsm ch) \<and> \<not> ch_fpga ch"

definition ch_mode :: "'d channel \<Rightarrow> u32" where
  "ch_mode ch = fsm_state (ch_fsm ch)"

definition ch_number :: "'d channel \<Rightarrow> u32" where
  "ch_number ch = fsm_channel (ch_fsm ch)"

lemma fsm_ready_log [simp]: "fsm_ready (log_call c f) = fsm_ready f" "fsm_state (log_call c f) = fsm_state f"
  "fsm_channel (log_call c f) = fsm_channel f"
  by (simp_all add: fsm_ready_def log_call_def)

lemma set_signal_Some_iff:
  "(\<exists>ch'. set_signal g ch = Some ch') \<longleftrightarrow> gs_signal g \<noteq> [] \<and> get_system_short (gs_satellite g) \<noteq> None"
  by (auto simp: set_signal_def vget_def bind_eq_Some_conv Let_def)

lemma set_signal_fields:
  assumes "set_signal g ch = Some ch'"
  shows "ch_signal ch' = g" "ch_mode ch' = ch_mode ch" "ch_ready ch' = ch_ready ch"
    "ch_PRN ch' = sat_PRN (gs_satellite g)" "ch_repeat ch' = ch_repeat ch"
    "fsm_channel (ch_fsm ch') = fsm_channel (ch_fsm ch)" "ch_fpga ch' = ch_fpga ch"
  using assms by (auto simp: set_signal_def bind_eq_Some_conv ch_mode_def ch_ready_def log_call_def
      fsm_ready_def Let_def)

lemma fsm_start_eq:
  "fsm_ready f \<Longrightarrow> Event_start_acquisition f = Some (fsm_apply Start_acquisition f)"
  using fsm_dispatch_table[of f Start_acquisition] by simp

lemma start_acquisition_eq:
  assumes "ch_ready ch"
  shows "start_acquisition ch = Some (ch\<lparr> ch_fsm := fst (snd (fsm_apply Start_acquisition (ch_fsm ch))) \<rparr>)"
  using assms by (simp add: start_acquisition_def ch_ready_def fsm_start_eq split: prod.split)

lemma stop_channel_eq:
  assumes "ch_ready ch"
  shows "stop_channel ch = Some (ch\<lparr> ch_fsm := fst (snd (fsm_apply Stop_channel (ch_fsm ch))) \<rparr>)"
  using assms fsm_dispatch_table[of "ch_fsm ch" Stop_channel]
  by (simp add: stop_channel_def ch_ready_def split: prod.split)

interpretation cc: channel_control set_signal start_acquisition stop_channel
    assist_acquisition_doppler ch_signal ch_mode ch_ready ch_number
proof
  fix g :: gnss_signal and ch :: "'d channel"
  assume "gs_signal g \<noteq> []" "get_system_short (gs_satellite g) \<noteq> None"
  then obtain ch' where "set_signal g ch = Some ch'" using set_signal_Some_iff[of g ch] by auto
  with set_signal_fields[OF this] show "\<exists>ch'. set_signal g ch = Some ch' \<and> ch_signal ch' = g \<and>
      ch_mode ch' = ch_mode ch \<and> ch_ready ch' = ch_ready ch \<and> ch_number ch' = ch_number ch"
    unfolding ch_number_def by blast
next
  fix ch :: "'d channel"
  assume r: "ch_ready ch"
  from r show "\<exists>ch'. start_acquisition ch = Some ch' \<and> ch_signal ch' = ch_signal ch \<and> ch_ready ch' \<and>
      ch_mode ch' = (if ch_mode ch = 1 \<or> ch_mode ch = 2 then ch_mode ch else 1) \<and> ch_number ch' = ch_number ch"
    by (simp add: ch_number_def start_acquisition_eq ch_ready_def ch_mode_def fsm_apply_def fsm_ready_def)
  from r show "\<exists>ch'. stop_channel ch = Some ch' \<and> ch_signal ch' = ch_signal ch \<and> ch_ready ch' \<and>
      ch_mode ch' = (if ch_mode ch = 1 \<or> ch_mode ch = 2 then 0 else ch_mode ch) \<and> ch_number ch' = ch_number ch"
    by (simp add: ch_number_def stop_channel_eq ch_ready_def ch_mode_def fsm_apply_def fsm_ready_def)
next
  fix d :: "'d doppler" and ch :: "'d channel"
  show "ch_signal (assist_acquisition_doppler d ch) = ch_signal ch \<and>
      ch_mode (assist_acquisition_doppler d ch) = ch_mode ch \<and>
      ch_ready (assist_acquisition_doppler d ch) = ch_ready ch \<and>
      ch_number (assist_acquisition_doppler d ch) = ch_number ch"
    by (simp add: ch_number_def assist_acquisition_doppler_def ch_mode_def ch_ready_def)
qed

end
