(* ===== verification/Flowgraph.thy ===== *)
theory Flowgraph
  imports Channel
begin

text \<open>
  The control of the channels: the part of \<open>gnss_flowgraph.cc\<close> that decides which channel
  searches which satellite and when, with the creation of the channels in
  \<open>gnss_block_factory.cc\<close> and the status map of \<open>channel_status_msg_receiver.cc\<close>. The wiring of
  the signal processing blocks is not modelled.

  An exception, an access outside a container and the like are \<^const>\<open>None\<close>. The configuration is
  a parameter: for each property the code reads, its value, or \<^const>\<open>None\<close> when it is not set and
  the default of the call applies.
\<close>

section \<open>Configuration and state\<close>

record fg_config =
  fixed_satellite :: "nat \<Rightarrow> u32"                     \<comment> \<open>\<open>ChannelN.satellite\<close>, 0 when not set\<close>
  channel_count :: "string \<Rightarrow> nat"                    \<comment> \<open>\<open>Channels_X.count\<close>\<close>
  repeat_satellite :: "string \<Rightarrow> nat \<Rightarrow> bool"          \<comment> \<open>\<open>Acquisition_XN.repeat_satellite\<close>\<close>
  in_acquisition :: "int option"                      \<comment> \<open>\<open>Channels.in_acquisition\<close>\<close>
  assist_dual_frequency_acq :: "bool option"          \<comment> \<open>\<open>GNSS-SDR.assist_dual_frequency_acq\<close>\<close>
  prns :: "string \<Rightarrow> u32 list option"                 \<comment> \<open>\<open>X.prns\<close> as numbers, \<open>None\<close>: not numbers\<close>
  banned_prns :: "string \<Rightarrow> string"                   \<comment> \<open>\<open>GNSS-SDR.X_banned_prns\<close>\<close>

type_synonym signals_map = "(string \<times> gnss_signal list) list"

record 'd flowgraph =
  channels :: "'d channel list"
  channels_state :: "u32 list"                       \<comment> \<open>0 idle, 1 assigned, 2 acquisition, 3 tracking\<close>
  acq_channels_count :: int
  max_acq_channels :: int
  available_signals_map :: signals_map
  multiband :: bool

definition signal_mapping :: "(string \<times> string \<times> string) list" where
  "signal_mapping = [(''1C'', ''GPS'', ''L1''), (''2S'', ''GPS'', ''L2''), (''L5'', ''GPS'', ''L5''),
     (''1B'', ''Galileo'', ''E1''), (''5X'', ''Galileo'', ''E5a''), (''7X'', ''Galileo'', ''E5b''),
     (''E6'', ''Galileo'', ''E6''), (''B1'', ''Beidou'', ''B1''), (''B3'', ''Beidou'', ''B3''),
     (''1G'', ''Glonass'', ''L1''), (''2G'', ''Glonass'', ''L2''), (''J1'', ''QZSS'', ''L1''),
     (''J5'', ''QZSS'', ''L5'')]"

datatype string_value = EvGPS_1C | EvGPS_2S | EvGPS_L5 | EvSBAS_1C | EvGAL_1B | EvGAL_5X | EvGAL_7X
  | EvGAL_E6 | EvGLO_1G | EvGLO_2G | EvBDS_B1 | EvBDS_B3 | EvQZS_J1 | EvQZS_J5

definition mapStringValues :: "(string \<times> string_value) list" where
  "mapStringValues = [(''1C'', EvGPS_1C), (''2S'', EvGPS_2S), (''L5'', EvGPS_L5), (''1B'', EvGAL_1B),
     (''5X'', EvGAL_5X), (''7X'', EvGAL_7X), (''E6'', EvGAL_E6), (''1G'', EvGLO_1G), (''2G'', EvGLO_2G),
     (''B1'', EvBDS_B1), (''B3'', EvBDS_B3), (''J1'', EvQZS_J1), (''J5'', EvQZS_J5)]"

text \<open>\<open>mapStringValues[s]\<close>: an unknown key reads the first enumerator.\<close>

definition signal_value :: "string \<Rightarrow> string_value" where
  "signal_value s = (case map_of mapStringValues s of Some v \<Rightarrow> v | None \<Rightarrow> EvGPS_1C)"

section \<open>The lists of available signals\<close>

text \<open>\<open>std::list::remove\<close> takes out every element that compares equal.\<close>

definition list_remove :: "gnss_signal \<Rightarrow> gnss_signal list \<Rightarrow> gnss_signal list" where
  "list_remove g l = filter (\<lambda>x. \<not> signal_eq x g) l"

definition push_back_signal :: "gnss_signal \<Rightarrow> 'd flowgraph \<Rightarrow> 'd flowgraph option" where
  "push_back_signal g fg =
    do { l \<leftarrow> map_of (available_signals_map fg) (gs_signal g);
         Some (fg\<lparr> available_signals_map :=
           um_assign (gs_signal g) (list_remove g l @ [g]) (available_signals_map fg) \<rparr>) }"

definition remove_signal :: "gnss_signal \<Rightarrow> 'd flowgraph \<Rightarrow> 'd flowgraph option" where
  "remove_signal g fg =
    do { l \<leftarrow> map_of (available_signals_map fg) (gs_signal g);
         Some (fg\<lparr> available_signals_map :=
           um_assign (gs_signal g) (list_remove g l) (available_signals_map fg) \<rparr>) }"

section \<open>The status of the channels\<close>

type_synonym 'd status_map = "(int, 'd gnss_synchro) std_map"

text \<open>The message of the observables block; the PVT status is only stored and not modelled.\<close>

definition msg_handler_channel_status :: "'d gnss_synchro \<Rightarrow> 'd status_map \<Rightarrow> 'd status_map" where
  "msg_handler_channel_status syn m =
    (if syn_Flag_valid_pseudorange syn then map_assign (sint (syn_Channel_ID syn)) syn m
     else filter (\<lambda>(k, _). k \<noteq> sint (syn_Channel_ID syn)) m)"

definition c_str :: "string \<Rightarrow> string" where
  "c_str s = takeWhile (\<lambda>c. c \<noteq> NUL) s"

section \<open>Search of the next signal\<close>

text \<open>\<open>find_if\<close> by PRN and \<open>erase\<close>.\<close>

fun take_prn :: "u32 \<Rightarrow> gnss_signal list \<Rightarrow> (gnss_signal \<times> gnss_signal list) option" where
  "take_prn p [] = None"
| "take_prn p (g # l) =
    (if sat_PRN (gs_satellite g) = p then Some (g, l)
     else do { (g', l') \<leftarrow> take_prn p l; Some (g', g # l') })"

text \<open>The loop over the status map: the first entry of the assisting signal whose satellite is
  available.\<close>

fun assist_search :: "string \<Rightarrow> (int \<times> 'd gnss_synchro) list \<Rightarrow> gnss_signal list
    \<Rightarrow> (gnss_signal \<times> 'd \<times> 'd \<times> gnss_signal list) option" where
  "assist_search a [] l = None"
| "assist_search a ((c, st) # sts) l =
    (if c_str (syn_Signal st) = a then
       (case take_prn (syn_PRN st) l of
          Some (g, l') \<Rightarrow> Some (g, syn_Carrier_Doppler_hz st, syn_RX_time st, l')
        | None \<Rightarrow> assist_search a sts l)
     else assist_search a sts l)"

definition assist_signal :: "string \<Rightarrow> string" where
  "assist_signal s = (case signal_value s of
     EvGPS_2S \<Rightarrow> ''1C'' | EvGPS_L5 \<Rightarrow> ''1C''
   | EvGAL_5X \<Rightarrow> ''1B'' | EvGAL_7X \<Rightarrow> ''1B'' | EvGAL_E6 \<Rightarrow> ''1B''
   | EvQZS_J5 \<Rightarrow> ''J1''
   | _ \<Rightarrow> [])"

definition is_primary :: "string \<Rightarrow> bool" where
  "is_primary s = (case signal_value s of
     EvGPS_1C \<Rightarrow> True | EvGAL_1B \<Rightarrow> True | EvGLO_1G \<Rightarrow> True | EvBDS_B1 \<Rightarrow> True | EvQZS_J1 \<Rightarrow> True
   | _ \<Rightarrow> False)"

record 'd search_result =
  result :: gnss_signal
  is_primary_frequency :: bool
  assistance :: "('d \<times> 'd) option"    \<comment> \<open>\<open>estimated_doppler\<close> and \<open>RX_time\<close>, when available\<close>

definition assist_hit :: "fg_config \<Rightarrow> 'd status_map \<Rightarrow> string \<Rightarrow> gnss_signal list
    \<Rightarrow> (gnss_signal \<times> 'd \<times> 'd \<times> gnss_signal list) option" where
  "assist_hit cfg status searched l =
    (if assist_signal searched \<noteq> [] then
       (if channel_count cfg (assist_signal searched) > 0
        then assist_search (assist_signal searched) status l else None)
     else None)"

text \<open>The reference arguments are part of the result; an empty list is the exception "more
  acquisition channels than PRNs".\<close>

definition search_next_signal :: "fg_config \<Rightarrow> 'd status_map \<Rightarrow> string \<Rightarrow> signals_map
    \<Rightarrow> ('d search_result \<times> signals_map) option" where
  "search_next_signal cfg status searched avail =
    do { l \<leftarrow> map_of avail searched;
         if l = [] then None
         else
           (case assist_hit cfg status searched l of
                Some (g, dop, t, l') \<Rightarrow>
                  Some (\<lparr> result = g, is_primary_frequency = is_primary searched, assistance = Some (dop, t) \<rparr>,
                    um_assign searched l' avail)
              | None \<Rightarrow>
                  Some (\<lparr> result = hd l, is_primary_frequency = is_primary searched, assistance = None \<rparr>,
                    um_assign searched (tl l) avail)) }"

section \<open>The acquisition manager\<close>

definition assist_dual :: "fg_config \<Rightarrow> 'd flowgraph \<Rightarrow> bool" where
  "assist_dual cfg fg = (case assist_dual_frequency_acq cfg of Some b \<Rightarrow> b | None \<Rightarrow> multiband fg)"

definition begin_acquisition :: "nat \<Rightarrow> 'd doppler \<Rightarrow> 'd channel \<Rightarrow> 'd flowgraph \<Rightarrow> 'd flowgraph option" where
  "begin_acquisition cur dop ch fg =
    do { sts \<leftarrow> vput (channels_state fg) cur 2;
         ch' \<leftarrow> start_acquisition (assist_acquisition_doppler dop ch);
         chs \<leftarrow> vput (channels fg) cur ch';
         Some (fg\<lparr> channels_state := sts, acq_channels_count := acq_channels_count fg + 1,
           channels := chs \<rparr>) }"

text \<open>An idle channel without a fixed satellite takes the next signal; it starts on a secondary
  frequency only with assistance, unless the assistance is switched off, and gives the signal
  back otherwise.\<close>

definition acquire_next :: "fg_config \<Rightarrow> 'd status_map \<Rightarrow> nat \<Rightarrow> 'd channel \<Rightarrow> 'd flowgraph
    \<Rightarrow> 'd flowgraph option" where
  "acquire_next cfg status cur ch fg =
    do { (r, avail) \<leftarrow> search_next_signal cfg status (gs_signal (ch_signal ch)) (available_signals_map fg);
         ch' \<leftarrow> set_signal (result r) ch;
         chs \<leftarrow> vput (channels fg) cur ch';
         let fg' = fg\<lparr> available_signals_map := avail, channels := chs \<rparr>;
         if is_primary_frequency r \<or> assistance r \<noteq> None \<or> \<not> assist_dual cfg fg then
           (let dop = (case assistance r of
                         Some (d, _) \<Rightarrow> (if assist_dual cfg fg then Projected (gs_signal (ch_signal ch')) d
                                        else Doppler_zero)
                       | None \<Rightarrow> Doppler_zero)
            in begin_acquisition cur dop ch' fg')
         else push_back_signal (result r) fg' }"

definition acquire_own :: "nat \<Rightarrow> 'd channel \<Rightarrow> 'd flowgraph \<Rightarrow> 'd flowgraph option" where
  "acquire_own cur ch fg =
    do { ch' \<leftarrow> set_signal (ch_signal ch) ch;
         begin_acquisition cur Doppler_zero ch' fg }"

definition manage_channel :: "fg_config \<Rightarrow> 'd status_map \<Rightarrow> nat \<Rightarrow> 'd flowgraph \<Rightarrow> 'd flowgraph option" where
  "manage_channel cfg status cur fg =
    (if acq_channels_count fg < max_acq_channels fg then
       do { st \<leftarrow> vget (channels_state fg) cur;
            if st \<le> 1 then
              do { ch \<leftarrow> vget (channels fg) cur;
                   if fixed_satellite cfg cur = 0 \<and> st = 0 then acquire_next cfg status cur ch fg
                   else acquire_own cur ch fg }
            else Some fg }
     else Some fg)"

text \<open>The loop visits every channel once, starting behind \<open>who\<close>; \<open>who\<close> is a channel number.\<close>

definition acquisition_manager :: "fg_config \<Rightarrow> 'd status_map \<Rightarrow> nat \<Rightarrow> 'd flowgraph \<Rightarrow> 'd flowgraph option" where
  "acquisition_manager cfg status who fg =
    (let n = length (channels fg) in
     foldM (\<lambda>i. manage_channel cfg status ((i + who + 1) mod n)) [0..<n] fg)"

section \<open>Actions\<close>

definition release_slot :: "'d flowgraph \<Rightarrow> 'd flowgraph" where
  "release_slot fg =
    (if acq_channels_count fg > 0 then fg\<lparr> acq_channels_count := acq_channels_count fg - 1 \<rparr> else fg)"

definition set_state :: "nat \<Rightarrow> u32 \<Rightarrow> 'd flowgraph \<Rightarrow> 'd flowgraph option" where
  "set_state i s fg = do { sts \<leftarrow> vput (channels_state fg) i s; Some (fg\<lparr> channels_state := sts \<rparr>) }"

definition on_acquisition_failed :: "fg_config \<Rightarrow> 'd status_map \<Rightarrow> nat \<Rightarrow> u32 \<Rightarrow> 'd flowgraph
    \<Rightarrow> 'd flowgraph option" where
  "on_acquisition_failed cfg status who sat fg =
    do { ch \<leftarrow> vget (channels fg) who;
         let g = ch_signal ch;
         fg1 \<leftarrow> set_state who 0 fg;
         fg2 \<leftarrow> acquisition_manager cfg status who (release_slot fg1);
         if sat = 0 then push_back_signal g fg2 else Some fg2 }"

definition on_acquisition_success :: "fg_config \<Rightarrow> 'd status_map \<Rightarrow> nat \<Rightarrow> 'd flowgraph
    \<Rightarrow> 'd flowgraph option" where
  "on_acquisition_success cfg status who fg =
    do { ch \<leftarrow> vget (channels fg) who;
         fg1 \<leftarrow> remove_signal (ch_signal ch) fg;
         fg2 \<leftarrow> set_state who 3 fg1;
         acquisition_manager cfg status who (release_slot fg2) }"

definition on_tracking_lost :: "nat \<Rightarrow> u32 \<Rightarrow> 'd flowgraph \<Rightarrow> 'd flowgraph option" where
  "on_tracking_lost who sat fg =
    do { ch \<leftarrow> vget (channels fg) who;
         if acq_channels_count fg < max_acq_channels fg then
           do { fg1 \<leftarrow> set_state who 2 fg;
                ch1 \<leftarrow> set_signal (ch_signal ch) ch;
                ch2 \<leftarrow> start_acquisition ch1;
                chs \<leftarrow> vput (channels fg) who ch2;
                Some (fg1\<lparr> acq_channels_count := acq_channels_count fg + 1, channels := chs \<rparr>) }
         else
           do { fg1 \<leftarrow> set_state who 0 fg;
                if sat = 0 then push_back_signal (ch_signal ch) fg1 else Some fg1 } }"

definition standby_channel :: "nat \<Rightarrow> 'd flowgraph \<Rightarrow> 'd flowgraph option" where
  "standby_channel n fg =
    do { st \<leftarrow> vget (channels_state fg) n;
         if st = 2 \<or> st = 3 then
           do { ch \<leftarrow> vget (channels fg) n;
                fg1 \<leftarrow> push_back_signal (ch_signal ch) fg;
                ch' \<leftarrow> stop_channel ch;
                chs \<leftarrow> vput (channels fg1) n ch';
                set_state n 0 (fg1\<lparr> channels := chs \<rparr>) }
         else Some fg }"

definition on_standby :: "'d flowgraph \<Rightarrow> 'd flowgraph option" where
  "on_standby fg =
    do { fg' \<leftarrow> foldM standby_channel [0..<length (channels fg)] fg;
         Some (fg'\<lparr> acq_channels_count := 0 \<rparr>) }"

definition apply_action :: "fg_config \<Rightarrow> 'd status_map \<Rightarrow> u32 \<Rightarrow> u32 \<Rightarrow> 'd flowgraph \<Rightarrow> 'd flowgraph option" where
  "apply_action cfg status who what fg =
    (let sat = (if who < 200 then fixed_satellite cfg (unat who) else 0) in
     if what = 0 then on_acquisition_failed cfg status (unat who) sat fg
     else if what = 1 then on_acquisition_success cfg status (unat who) fg
     else if what = 2 then on_tracking_lost (unat who) sat fg
     else if what = 10 then on_standby fg
     else Some fg)"

section \<open>Priority of visible satellites\<close>

definition priority_signals :: "string \<Rightarrow> string list" where
  "priority_signals sys = (if sys = ''GPS'' then [''1C'', ''2S'', ''L5'']
     else if sys = ''Galileo'' then [''1B'', ''5X'', ''7X'', ''E6'']
     else if sys = ''QZSS'' then [''J1'', ''J5''] else [])"

definition priorize_signal :: "gnss_satellite \<Rightarrow> string \<Rightarrow> 'd flowgraph \<Rightarrow> 'd flowgraph option" where
  "priorize_signal sat str fg =
    do { l \<leftarrow> map_of (available_signals_map fg) str;
         let g = make_signal sat str;
         let l' = list_remove g l;
         let l'' = (if length l > length l' then g # l' else l');
         Some (fg\<lparr> available_signals_map := um_assign str l'' (available_signals_map fg) \<rparr>) }"

definition priorize_satellites :: "(int \<times> gnss_satellite) list \<Rightarrow> 'd flowgraph \<Rightarrow> 'd flowgraph option" where
  "priorize_satellites visible fg =
    foldM (\<lambda>(el, sat) fg1. foldM (priorize_signal sat) (priority_signals (sat_system sat)) fg1) visible fg"

end
