(* ===== verification/Flowgraph_Pool.thy ===== *)
theory Flowgraph_Pool
  imports Flowgraph
begin

text \<open>
  The abstract specification of the signals: for each signal name the list of available signals
  and, for each channel, the signal it holds, if any. \<open>pool\<close> says that the signals of a name are
  at every moment split into those available, those held by one channel each, and those in the
  hands of the running action; the operations of the flowgraph are steps of this machine.
\<close>

definition pool :: "(string \<Rightarrow> gnss_signal set) \<Rightarrow> (string \<Rightarrow> gnss_signal list option)
    \<Rightarrow> (nat \<Rightarrow> gnss_signal option) \<Rightarrow> gnss_signal set \<Rightarrow> bool" where
  "pool P A H L \<longleftrightarrow>
     (\<forall>s l. A s = Some l \<longrightarrow> distinct l \<and> set l \<inter> (ran H \<union> L) = {}
        \<and> set l \<union> {g \<in> ran H \<union> L. gs_signal g = s} = P s) \<and>
     (\<forall>i j g. H i = Some g \<longrightarrow> H j = Some g \<longrightarrow> i = j) \<and> ran H \<inter> L = {} \<and>
     (\<forall>g \<in> ran H \<union> L. A (gs_signal g) \<noteq> None)"

definition proper_pool :: "(string \<Rightarrow> gnss_signal set) \<Rightarrow> bool" where
  "proper_pool P \<longleftrightarrow> (\<forall>s. \<forall>g \<in> P s. proper_signal s g)"

lemma pool_list:
  "pool P A H L \<Longrightarrow> A s = Some l \<Longrightarrow> distinct l \<and> set l \<inter> (ran H \<union> L) = {}
     \<and> set l \<union> {g \<in> ran H \<union> L. gs_signal g = s} = P s"
  by (simp add: pool_def)

lemma pool_known: "pool P A H L \<Longrightarrow> g \<in> ran H \<union> L \<Longrightarrow> \<exists>l. A (gs_signal g) = Some l"
  by (auto simp: pool_def)

lemma pool_member: "pool P A H L \<Longrightarrow> g \<in> ran H \<union> L \<Longrightarrow> g \<in> P (gs_signal g)"
  using pool_known[of P A H L g] pool_list[of P A H L "gs_signal g"] by blast

lemma pool_held: "pool P A H L \<Longrightarrow> H i = Some g \<Longrightarrow> g \<in> P (gs_signal g) \<and> g \<notin> L"
  using pool_member[of P A H L g] by (auto simp: pool_def ran_def)

lemma proper_pool_str: "proper_pool P \<Longrightarrow> g \<in> P s \<Longrightarrow> gs_signal g = s"
  unfolding proper_pool_def using proper_signal_str by blast

lemma proper_pool_eq: "proper_pool P \<Longrightarrow> a \<in> P s \<Longrightarrow> b \<in> P s \<Longrightarrow> signal_eq a b \<longleftrightarrow> a = b"
  unfolding proper_pool_def using proper_signal_eq by blast

lemma list_remove_pool:
  assumes "proper_pool P" "set l \<subseteq> P s" "proper_signal s g"
  shows "list_remove g l = removeAll g l"
proof -
  have "signal_eq x g \<longleftrightarrow> x = g" if "x \<in> set l" for x
    using proper_signal_eq[of s x g] assms that by (auto simp: proper_pool_def)
  then have "filter (\<lambda>x. \<not> signal_eq x g) l = filter (\<lambda>x. g \<noteq> x) l"
    by (intro filter_cong) auto
  then show ?thesis by (simp add: list_remove_def removeAll_filter_not_eq)
qed

section \<open>Steps\<close>

text \<open>The split of one name, and the frame condition for the others.\<close>

lemma pool_upd:
  assumes "pool P A H L" "A s \<noteq> None" "proper_pool P"
    and "distinct l'" "set l' \<inter> (ran H' \<union> L') = {}"
    and "set l' \<union> {g \<in> ran H' \<union> L'. gs_signal g = s} = P s"
    and "\<And>g. gs_signal g \<noteq> s \<Longrightarrow> g \<in> ran H' \<union> L' \<longleftrightarrow> g \<in> ran H \<union> L"
    and "\<And>i j g. H' i = Some g \<Longrightarrow> H' j = Some g \<Longrightarrow> i = j" "ran H' \<inter> L' = {}"
  shows "pool P (A(s \<mapsto> l')) H' L'"
  unfolding pool_def
proof (intro conjI allI impI ballI)
  fix t l
  assume t: "(A(s \<mapsto> l')) t = Some l"
  have "distinct l \<and> set l \<inter> (ran H' \<union> L') = {} \<and> set l \<union> {g \<in> ran H' \<union> L'. gs_signal g = t} = P t"
  proof (cases "t = s")
    case True
    with t assms(4-6) show ?thesis by simp
  next
    case False
    with t have "A t = Some l" by simp
    note o = pool_list[OF assms(1) this]
    have "gs_signal g \<noteq> s" if "g \<in> P t" for g
      using proper_pool_str[OF assms(3) that] False by simp
    moreover have "{g \<in> ran H' \<union> L'. gs_signal g = t} = {g \<in> ran H \<union> L. gs_signal g = t}"
      using assms(7) False by auto
    moreover have "set l \<subseteq> P t" using o by blast
    ultimately have "\<And>x. x \<in> set l \<Longrightarrow> x \<in> ran H' \<union> L' \<longleftrightarrow> x \<in> ran H \<union> L"
      using assms(7) by blast
    then have "set l \<inter> (ran H' \<union> L') = {}" using o by blast
    with o \<open>{g \<in> ran H' \<union> L'. gs_signal g = t} = _\<close> show ?thesis by simp
  qed
  then show "distinct l" and "set l \<inter> (ran H' \<union> L') = {}"
    and "set l \<union> {g \<in> ran H' \<union> L'. gs_signal g = t} = P t" by blast+
next
  fix g
  assume g: "g \<in> ran H' \<union> L'"
  show "(A(s \<mapsto> l')) (gs_signal g) \<noteq> None"
  proof (cases "gs_signal g = s")
    case True
    then show ?thesis by simp
  next
    case False
    with g assms(7) have "g \<in> ran H \<union> L" by blast
    with pool_known[OF assms(1)] False show ?thesis by auto
  qed
qed (use assms(8,9) in blast)+

lemma pool_same:
  assumes "pool P A H L" "ran H' \<union> L' = ran H \<union> L"
    "\<And>i j g. H' i = Some g \<Longrightarrow> H' j = Some g \<Longrightarrow> i = j" "ran H' \<inter> L' = {}"
  shows "pool P A H' L'"
  using assms(1) unfolding pool_def assms(2) using assms(3,4) by blast

lemma pool_take:
  assumes "pool P A H L" "A s = Some (xs @ g # ys)" "proper_pool P"
  shows "pool P (A(s \<mapsto> xs @ ys)) H (insert g L)"
proof (rule pool_upd[OF assms(1) _ assms(3)])
  note o = pool_list[OF assms(1,2)]
  then have g: "g \<in> P s" by auto
  have gs: "gs_signal g = s" using proper_pool_str[OF assms(3) g] .
  show "A s \<noteq> None" using assms(2) by simp
  show "distinct (xs @ ys)" using o by simp
  show "set (xs @ ys) \<inter> (ran H \<union> insert g L) = {}" using o by auto
  show "set (xs @ ys) \<union> {g' \<in> ran H \<union> insert g L. gs_signal g' = s} = P s"
    using o gs by auto
  show "gs_signal g' \<noteq> s \<Longrightarrow> g' \<in> ran H \<union> insert g L \<longleftrightarrow> g' \<in> ran H \<union> L" for g' using gs by auto
  show "H i = Some g' \<Longrightarrow> H j = Some g' \<Longrightarrow> i = j" for i j g' using assms(1) by (auto simp: pool_def)
  show "ran H \<inter> insert g L = {}" using assms(1) o by (auto simp: pool_def)
qed

lemma pool_hold:
  assumes "pool P A H L" "g \<in> L" "H j = None"
  shows "pool P A (H(j \<mapsto> g)) (L - {g})"
proof (rule pool_same[OF assms(1)])
  have d: "ran H \<inter> L = {}" using assms(1) by (simp add: pool_def)
  have r: "ran (H(j \<mapsto> g)) = insert g (ran H)" using assms(3) by (simp add: ran_map_upd)
  show "ran (H(j \<mapsto> g)) \<union> (L - {g}) = ran H \<union> L" using assms(2) r by auto
  show "ran (H(j \<mapsto> g)) \<inter> (L - {g}) = {}" using d r by auto
  have "g \<notin> ran H" using d assms(2) by auto
  then show "(H(j \<mapsto> g)) i = Some g' \<Longrightarrow> (H(j \<mapsto> g)) k = Some g' \<Longrightarrow> i = k" for i k g'
    using assms(1) by (auto simp: pool_def ran_def split: if_splits)
qed

lemma pool_drop:
  assumes "pool P A H L" "H j = Some g"
  shows "pool P A (H(j := None)) (insert g L)"
proof (rule pool_same[OF assms(1)])
  have i: "H i = Some g' \<Longrightarrow> H k = Some g' \<Longrightarrow> i = k" for i k g' using assms(1) by (auto simp: pool_def)
  have r: "ran (H(j := None)) = ran H - {g}"
    using assms(2) i by (auto simp: ran_def) (metis option.inject)
  show "ran (H(j := None)) \<union> insert g L = ran H \<union> L"
    using assms(2) r by (auto simp: ran_def)
  show "ran (H(j := None)) \<inter> insert g L = {}" using r assms(1) by (auto simp: pool_def)
  show "(H(j := None)) i = Some g' \<Longrightarrow> (H(j := None)) k = Some g' \<Longrightarrow> i = k" for i k g'
    using i by (auto split: if_splits)
qed

lemma pool_give_back:
  assumes "pool P A H L" "g \<in> L" "A (gs_signal g) = Some l" "proper_pool P"
  shows "pool P (A(gs_signal g \<mapsto> list_remove g l @ [g])) H (L - {g})"
proof (rule pool_upd[OF assms(1) _ assms(4)])
  let ?s = "gs_signal g"
  note o = pool_list[OF assms(1,3)]
  have g: "g \<in> P ?s" "g \<notin> set l" using o assms(2) by auto
  have "set l \<subseteq> P ?s" using o by blast
  moreover have "proper_signal ?s g" using g(1) assms(4) by (auto simp: proper_pool_def)
  ultimately have l: "list_remove g l = l"
    using list_remove_pool[OF assms(4), of l ?s g] g(2) by simp
  have d: "ran H \<inter> L = {}" using assms(1) by (simp add: pool_def)
  show "A ?s \<noteq> None" using assms(3) by simp
  show "distinct (list_remove g l @ [g])" using o l g(2) by simp
  show "set (list_remove g l @ [g]) \<inter> (ran H \<union> (L - {g})) = {}" using o l d assms(2) by auto
  show "set (list_remove g l @ [g]) \<union> {g' \<in> ran H \<union> (L - {g}). gs_signal g' = ?s} = P ?s"
    using o l assms(2) by auto
  show "gs_signal g' \<noteq> ?s \<Longrightarrow> g' \<in> ran H \<union> (L - {g}) \<longleftrightarrow> g' \<in> ran H \<union> L" for g' by auto
  show "H i = Some g' \<Longrightarrow> H j = Some g' \<Longrightarrow> i = j" for i j g' using assms(1) by (auto simp: pool_def)
  show "ran H \<inter> (L - {g}) = {}" using d by auto
qed

lemma pool_reorder:
  assumes "pool P A H L" "A s = Some l" "proper_pool P" "set l' = set l" "distinct l'"
  shows "pool P (A(s \<mapsto> l')) H L"
  using pool_list[OF assms(1,2)] assms
  by (intro pool_upd[OF assms(1) _ assms(3)]) (auto simp: pool_def)

lemma pool_remove_held:
  assumes "pool P A H L" "H i = Some g" "A (gs_signal g) = Some l" "proper_pool P"
  shows "list_remove g l = l"
proof -
  note o = pool_list[OF assms(1,3)]
  have "g \<in> P (gs_signal g)" "g \<notin> set l" "set l \<subseteq> P (gs_signal g)"
    using o pool_held[OF assms(1,2)] assms(2) by (auto simp: ran_def)
  with list_remove_pool[OF assms(4), of l "gs_signal g" g] assms(4) show ?thesis
    by (auto simp: proper_pool_def)
qed

text \<open>Fewer holders than signals leave something available.\<close>

lemma pool_available:
  assumes "pool P A H L" "A s = Some l" "finite I"
    and "\<And>i g. H i = Some g \<Longrightarrow> gs_signal g = s \<Longrightarrow> i \<in> I"
    and "finite L" "card I + card L < card (P s)"
  shows "l \<noteq> []"
proof
  assume "l = []"
  with pool_list[OF assms(1,2)] have "P s = {g \<in> ran H \<union> L. gs_signal g = s}" by simp
  also have "\<dots> \<subseteq> (\<lambda>i. the (H i)) ` I \<union> L"
    using assms(4) by (force simp: ran_def image_iff)
  finally have "card (P s) \<le> card ((\<lambda>i. the (H i)) ` I \<union> L)"
    using assms(3,5) by (intro card_mono) auto
  also have "\<dots> \<le> card I + card L"
    using card_Un_le[of "(\<lambda>i. the (H i)) ` I" L] card_image_le[OF assms(3), of "\<lambda>i. the (H i)"] by linarith
  finally show False using assms(6) by simp
qed

section \<open>The search\<close>

lemma take_prn_split:
  "take_prn p l = Some (g, l') \<Longrightarrow> \<exists>xs ys. l = xs @ g # ys \<and> l' = xs @ ys \<and> sat_PRN (gs_satellite g) = p"
proof (induction l arbitrary: l')
  case Nil
  then show ?case by simp
next
  case (Cons a l)
  show ?case
  proof (cases "sat_PRN (gs_satellite a) = p")
    case True
    with Cons.prems have "a # l = [] @ g # l" "l' = [] @ l" "sat_PRN (gs_satellite g) = p" by auto
    then show ?thesis by blast
  next
    case False
    with Cons.prems obtain k where k: "take_prn p l = Some (g, k)" "l' = a # k"
      by (auto simp: bind_eq_Some_conv)
    from Cons.IH[OF k(1)] obtain xs ys where "l = xs @ g # ys" "k = xs @ ys" "sat_PRN (gs_satellite g) = p"
      by blast
    then have "a # l = (a # xs) @ g # ys" "l' = (a # xs) @ ys" "sat_PRN (gs_satellite g) = p" using k by auto
    then show ?thesis by blast
  qed
qed

lemma assist_search_split:
  "assist_search a sts l = Some (g, d, t, l') \<Longrightarrow> \<exists>xs ys. l = xs @ g # ys \<and> l' = xs @ ys"
proof (induction a sts l rule: assist_search.induct)
  case (1 a l)
  then show ?case by simp
next
  case (2 a c st sts l)
  show ?case
  proof (cases "c_str (syn_Signal st) = a \<and> take_prn (syn_PRN st) l \<noteq> None")
    case True
    with "2.prems" have "take_prn (syn_PRN st) l = Some (g, l')" by auto
    from take_prn_split[OF this] show ?thesis by blast
  next
    case False
    with "2.prems" have "assist_search a sts l = Some (g, d, t, l')"
      by (auto split: if_splits option.splits)
    with False "2.IH" show ?thesis
      by (cases "c_str (syn_Signal st) = a"; cases "take_prn (syn_PRN st) l") auto
  qed
qed

lemma search_next_signal_split:
  assumes "map_of avail s = Some l" "l \<noteq> []"
  shows "\<exists>r xs ys. search_next_signal cfg status s avail = Some (r, um_assign s (xs @ ys) avail)
    \<and> l = xs @ result r # ys"
proof (cases "assist_hit cfg status s l")
  case None
  with assms have "search_next_signal cfg status s avail = Some (\<lparr> result = hd l,
      is_primary_frequency = is_primary s, assistance = None \<rparr>, um_assign s ([] @ tl l) avail)"
    by (simp add: search_next_signal_def)
  moreover from assms(2) have "l = [] @ hd l # tl l" by simp
  ultimately show ?thesis by (metis search_result.select_convs(1))
next
  case (Some a)
  obtain g d t l' where a: "a = (g, d, t, l')" by (cases a)
  from Some a obtain xs ys where l: "l = xs @ g # ys" "l' = xs @ ys"
    using assist_search_split[of "assist_signal s" status l g d t l']
    by (auto simp: assist_hit_def split: if_splits)
  with Some a assms have "search_next_signal cfg status s avail = Some (\<lparr> result = g,
      is_primary_frequency = is_primary s, assistance = Some (d, t) \<rparr>, um_assign s (xs @ ys) avail)"
    by (simp add: search_next_signal_def)
  with l show ?thesis by (metis search_result.select_convs(1))
qed

end
