(* ===== verification/Flowgraph_Start.thy ===== *)
theory Flowgraph_Start
  imports Flowgraph
begin

text \<open>
  How the flowgraph is set up: the channels the block factory creates, the lists of signals to
  search (\<open>set_signals_list\<close>), the initial states (\<open>set_channels_state\<close>), the assignment of a
  satellite to every channel (\<open>assign_channels\<close>) and the first acquisitions (\<open>connect\<close>).
\<close>

section \<open>Parsing the list of banned satellites\<close>

text \<open>The loop \<open>while (ss.good()) getline(ss, substr, ',')\<close>: every piece, an empty last one too.\<close>

fun split_pieces :: "char \<Rightarrow> string \<Rightarrow> string list" where
  "split_pieces d [] = [[]]"
| "split_pieces d (c # s) =
    (if c = d then [] # split_pieces d s
     else (case split_pieces d s of p # ps \<Rightarrow> (c # p) # ps | [] \<Rightarrow> [[c]]))"

text \<open>\<open>split_string\<close>: the loop \<open>while (getline(ss, item, delim))\<close> does not see an empty last piece.\<close>

definition split_string :: "string \<Rightarrow> char \<Rightarrow> string list" where
  "split_string s delim = (let ps = split_pieces delim s in if last ps = [] then butlast ps else ps)"

text \<open>\<open>std::stoi\<close> in base 10: white space, a sign, at least one digit, the rest is ignored;
  \<^const>\<open>None\<close> is \<open>invalid_argument\<close> or \<open>out_of_range\<close>.\<close>

definition is_space :: "char \<Rightarrow> bool" where
  "is_space c \<longleftrightarrow> (of_char c :: nat) \<in> {9, 10, 11, 12, 13, 32}"

definition is_digit :: "char \<Rightarrow> bool" where
  "is_digit c \<longleftrightarrow> 48 \<le> (of_char c :: nat) \<and> (of_char c :: nat) \<le> 57"

definition digits_value :: "string \<Rightarrow> int" where
  "digits_value s = foldl (\<lambda>v c. 10 * v + (of_char c - 48)) 0 s"

definition stoi :: "string \<Rightarrow> int option" where
  "stoi s =
    (let s1 = dropWhile is_space s;
         neg = (s1 \<noteq> [] \<and> hd s1 = CHR ''-'');
         s2 = (if s1 \<noteq> [] \<and> (hd s1 = CHR ''-'' \<or> hd s1 = CHR ''+'') then tl s1 else s1);
         ds = takeWhile is_digit s2;
         v = (if neg then - digits_value ds else digits_value ds)
     in if ds = [] then None else if - 2147483648 \<le> v \<and> v \<le> 2147483647 then Some v else None)"

definition erase_banned :: "string \<Rightarrow> u32 list \<Rightarrow> u32 list" where
  "erase_banned substr ps =
    (case stoi substr of Some b \<Rightarrow> filter (\<lambda>p. p \<noteq> word_of_int b) ps | None \<Rightarrow> ps)"

section \<open>The signals to search\<close>

text \<open>Sets of numbers are ascending lists, as \<open>std::set\<close> iterates.\<close>

definition available_prn_map :: "(string \<times> u32 list) list" where
  "available_prn_map =
    [(''GPS'', map of_nat [1..<33]), (''SBAS'', [123, 131, 135, 136, 138]),
     (''Galileo'', map of_nat [1..<37]),
     (''Glonass'', [1, 2, 3, 4, 9, 10, 11, 12, 18, 19, 20, 21, 24]),
     (''Beidou'', map of_nat [1..<64]),
     (''QZSS'', [193, 194, 195, 196, 197, 199, 200, 201])]"

text \<open>\<open>prns cfg sys\<close> are the numbers \<open>boost::tokenizer\<close> and \<open>lexical_cast\<close> read from the property,
  \<open>[]\<close> for one that is not set.\<close>

definition configured_prns :: "fg_config \<Rightarrow> string \<Rightarrow> u32 list \<Rightarrow> u32 list option" where
  "configured_prns cfg sys defaults =
    do { toks \<leftarrow> prns cfg sys;
         let ps = (if toks \<noteq> [] then sort (remdups toks) else defaults);
         Some (if banned_prns cfg sys \<noteq> []
               then fold erase_banned (split_pieces (CHR '','') (banned_prns cfg sys)) ps else ps) }"

definition add_signals :: "string \<Rightarrow> string \<Rightarrow> u32 list \<Rightarrow> signals_map \<Rightarrow> signals_map" where
  "add_signals sys str ps avail =
    (let old = (case map_of avail str of Some l \<Rightarrow> l | None \<Rightarrow> []) in
     um_assign str (old @ map (\<lambda>p. make_signal (make_satellite sys p) str) ps) avail)"

fun list_signal :: "fg_config \<Rightarrow> (string \<times> u32 list) list \<Rightarrow> string \<times> string \<times> string \<Rightarrow> signals_map
    \<Rightarrow> signals_map option" where
  "list_signal cfg prn_map (str, sys, pretty) avail =
    (if channel_count cfg str > 0 then
       do { ps \<leftarrow> map_of prn_map sys; Some (add_signals sys str ps avail) }
     else Some avail)"

definition set_signals_list :: "fg_config \<Rightarrow> signals_map \<Rightarrow> signals_map option" where
  "set_signals_list cfg avail0 =
    do { prn_map \<leftarrow> mapM (\<lambda>(sys, ps). do { ps' \<leftarrow> configured_prns cfg sys ps; Some (sys, ps') }) available_prn_map;
         avail \<leftarrow> foldM (list_signal cfg prn_map) signal_mapping avail0;
         if channel_count cfg ''SBAS'' > 0 then
           do { ps \<leftarrow> map_of prn_map ''SBAS''; Some (add_signals ''SBAS'' ''1C'' ps avail) }
         else Some avail }"

section \<open>Channels\<close>

definition factory_signals :: "string list" where
  "factory_signals = [''1C'', ''2S'', ''L5'', ''1B'', ''5X'', ''E6'', ''1G'', ''2G'', ''B1'', ''B3'', ''7X'',
     ''J1'', ''J5'']"

definition get_channel_count :: "fg_config \<Rightarrow> nat" where
  "get_channel_count cfg = sum_list (map (channel_count cfg) factory_signals)"

text \<open>\<open>GetChannels\<close>, with channels that do not use an FPGA.\<close>

definition channel_signals :: "fg_config \<Rightarrow> string list" where
  "channel_signals cfg = concat (map (\<lambda>s. replicate (channel_count cfg s) s) factory_signals)"

definition GetChannels :: "fg_config \<Rightarrow> 'd channel list" where
  "GetChannels cfg =
    map (\<lambda>(i, s). make_channel (of_nat i) s (repeat_satellite cfg s i) False)
      (enumerate 0 (channel_signals cfg))"

definition is_multiband :: "fg_config \<Rightarrow> bool" where
  "is_multiband cfg =
    ((channel_count cfg ''1C'' > 0 \<and> (channel_count cfg ''2S'' > 0 \<or> channel_count cfg ''L5'' > 0)) \<or>
     (channel_count cfg ''1B'' > 0 \<and> (channel_count cfg ''5X'' > 0 \<or> channel_count cfg ''7X'' > 0
        \<or> channel_count cfg ''E6'' > 0)) \<or>
     (channel_count cfg ''1G'' > 0 \<and> channel_count cfg ''2G'' > 0) \<or>
     (channel_count cfg ''B1'' > 0 \<and> channel_count cfg ''B3'' > 0) \<or>
     (channel_count cfg ''J1'' > 0 \<and> channel_count cfg ''J5'' > 0))"

definition set_channels_state :: "fg_config \<Rightarrow> 'd flowgraph \<Rightarrow> 'd flowgraph" where
  "set_channels_state cfg fg =
    (let n = int (length (channels fg));
         m0 = (case in_acquisition cfg of Some m \<Rightarrow> m | None \<Rightarrow> n);
         m = (if m0 > n then n else m0)
     in fg\<lparr> max_acq_channels := m,
          channels_state := channels_state fg
            @ map (\<lambda>i. if int i < m then 2 else 1) [0..<length (channels fg)],
          acq_channels_count := m \<rparr>)"

text \<open>The part of the constructor and of \<open>init\<close> that concerns the channels.\<close>

definition init_flowgraph :: "fg_config \<Rightarrow> 'd flowgraph option" where
  "init_flowgraph cfg =
    do { avail \<leftarrow> set_signals_list cfg [];
         Some (set_channels_state cfg \<lparr> channels = GetChannels cfg, channels_state = [],
           acq_channels_count = 0, max_acq_channels = 0, available_signals_map = avail,
           multiband = is_multiband cfg \<rparr>) }"

section \<open>Assignment of satellites\<close>

text \<open>Channels with a fixed satellite first, each inserted at the front.\<close>

definition channel_order :: "fg_config \<Rightarrow> nat \<Rightarrow> nat list" where
  "channel_order cfg n =
    foldl (\<lambda>v i. if fixed_satellite cfg i = 0 then v @ [i] else i # v) [] [0..<n]"

text \<open>The check that there are fewer channels than satellites, in 64-bit unsigned arithmetic:
  \<open>max_sat_count - 1\<close> wraps when the list is empty.\<close>

definition too_many_channels :: "fg_config \<Rightarrow> string \<times> gnss_signal list \<Rightarrow> bool option" where
  "too_many_channels cfg entry = (case entry of (str, l) \<Rightarrow>
    do { (sys, pretty) \<leftarrow> map_of signal_mapping str;
         let max_sat_count = (of_nat (length l) :: u64) + (if sys = ''Glonass'' then 8 else 0);
         Some (of_nat (channel_count cfg str) > max_sat_count - 1) })"

definition assign_channel :: "fg_config \<Rightarrow> 'd status_map \<Rightarrow> nat \<Rightarrow> 'd flowgraph \<Rightarrow> 'd flowgraph option" where
  "assign_channel cfg status i fg =
    do { ch \<leftarrow> vget (channels fg) i;
         let str = gs_signal (ch_signal ch);
         let sat = fixed_satellite cfg i;
         if sat = 0 then
           do { (r, avail) \<leftarrow> search_next_signal cfg status str (available_signals_map fg);
                ch' \<leftarrow> set_signal (result r) ch;
                chs \<leftarrow> vput (channels fg) i ch';
                Some (fg\<lparr> available_signals_map := avail, channels := chs \<rparr>) }
         else
           do { (sys, pretty) \<leftarrow> map_of signal_mapping str;
                let g = make_signal (make_satellite sys sat) str;
                l \<leftarrow> map_of (available_signals_map fg) str;
                ch' \<leftarrow> set_signal g ch;
                chs \<leftarrow> vput (channels fg) i ch';
                Some (fg\<lparr> available_signals_map := um_assign str (list_remove g l) (available_signals_map fg),
                  channels := chs \<rparr>) } }"

text \<open>The value returned, 0 or 1, and the flowgraph.\<close>

definition assign_channels :: "fg_config \<Rightarrow> 'd status_map \<Rightarrow> 'd flowgraph \<Rightarrow> (int \<times> 'd flowgraph) option" where
  "assign_channels cfg status fg =
    do { checks \<leftarrow> mapM (too_many_channels cfg) (available_signals_map fg);
         if True \<in> set checks then Some (1, fg)
         else do { fg' \<leftarrow> foldM (assign_channel cfg status) (channel_order cfg (length (channels fg))) fg;
                   Some (0, fg') } }"

section \<open>First acquisitions\<close>

definition start_channel :: "nat \<Rightarrow> 'd flowgraph \<Rightarrow> 'd flowgraph option" where
  "start_channel i fg =
    do { st \<leftarrow> vget (channels_state fg) i;
         if st = 2 then
           do { ch \<leftarrow> vget (channels fg) i;
                ch' \<leftarrow> start_acquisition ch;
                chs \<leftarrow> vput (channels fg) i ch';
                Some (fg\<lparr> channels := chs \<rparr>) }
         else Some fg }"

definition start_channels :: "'d flowgraph \<Rightarrow> 'd flowgraph option" where
  "start_channels fg = foldM start_channel [0..<length (channels fg)] fg"

text \<open>From the configuration to the running receiver; \<^const>\<open>None\<close> also when \<open>assign_channels\<close>
  refuses the configuration.\<close>

definition start_flowgraph :: "fg_config \<Rightarrow> 'd status_map \<Rightarrow> 'd flowgraph option" where
  "start_flowgraph cfg status =
    do { fg0 \<leftarrow> init_flowgraph cfg;
         (rc, fg1) \<leftarrow> assign_channels cfg status fg0;
         if rc \<noteq> 0 then None else start_channels fg1 }"

end
