(* ===== verification/Flowgraph_Invariant.thy ===== *)
theory Flowgraph_Invariant
  imports Flowgraph_Pool Flowgraph_Start
begin

text \<open>
  The invariant of the channel control and its preservation: the channels and their states, the
  split of the signals (refinement of the abstract pool), and the number of acquisition slots.
\<close>

section \<open>The invariant\<close>

definition sig_at :: "'d flowgraph \<Rightarrow> nat \<Rightarrow> gnss_signal" where
  "sig_at fg i = ch_signal (channels fg ! i)"

definition mode_at :: "'d flowgraph \<Rightarrow> nat \<Rightarrow> u32" where
  "mode_at fg i = ch_mode (channels fg ! i)"

definition state_at :: "'d flowgraph \<Rightarrow> nat \<Rightarrow> u32" where
  "state_at fg i = channels_state fg ! i"

definition avail_of :: "'d flowgraph \<Rightarrow> string \<Rightarrow> gnss_signal list option" where
  "avail_of fg = map_of (available_signals_map fg)"

text \<open>A channel holds its signal unless it is idle or has a satellite of its own.\<close>

definition held_of :: "fg_config \<Rightarrow> 'd flowgraph \<Rightarrow> nat \<Rightarrow> gnss_signal option" where
  "held_of cfg fg i =
    (if i < length (channels fg) \<and> fixed_satellite cfg i = 0 \<and> state_at fg i \<noteq> 0
     then Some (sig_at fg i) else None)"

definition channels_ok :: "string list \<Rightarrow> 'd flowgraph \<Rightarrow> bool" where
  "channels_ok sigs fg \<longleftrightarrow> length (channels fg) = length sigs \<and> length (channels_state fg) = length sigs \<and>
     (\<forall>i < length sigs. gs_signal (sig_at fg i) = sigs ! i \<and> ch_ready (channels fg ! i) \<and>
        ch_number (channels fg ! i) = of_nat i \<and> state_at fg i \<in> {0, 1, 2, 3} \<and>
        (state_at fg i = 0 \<or> state_at fg i = 1 \<longrightarrow> mode_at fg i = 0 \<or> mode_at fg i = 3))"

definition signals_ok :: "fg_config \<Rightarrow> string list \<Rightarrow> (string \<Rightarrow> gnss_signal set) \<Rightarrow> gnss_signal set
    \<Rightarrow> 'd flowgraph \<Rightarrow> bool" where
  "signals_ok cfg sigs P L fg \<longleftrightarrow> pool P (avail_of fg) (held_of cfg fg) L \<and>
     (\<forall>s \<in> set sigs. avail_of fg s \<noteq> None) \<and>
     (\<forall>i < length sigs. fixed_satellite cfg i \<noteq> 0 \<longrightarrow>
        proper_signal (sigs ! i) (sig_at fg i) \<and> sig_at fg i \<notin> P (sigs ! i))"

definition slots_ok :: "'d flowgraph \<Rightarrow> bool" where
  "slots_ok fg \<longleftrightarrow> acq_channels_count fg = int (count_list (channels_state fg) 2) \<and>
     acq_channels_count fg \<le> max_acq_channels fg"

definition fg_inv :: "fg_config \<Rightarrow> string list \<Rightarrow> (string \<Rightarrow> gnss_signal set) \<Rightarrow> gnss_signal set
    \<Rightarrow> 'd flowgraph \<Rightarrow> bool" where
  "fg_inv cfg sigs P L fg \<longleftrightarrow> channels_ok sigs fg \<and> signals_ok cfg sigs P L fg \<and> slots_ok fg"

text \<open>What the configuration must provide: for every name more signals than channels that search
  it, which is what \<open>assign_channels\<close> checks.\<close>

definition free_channels :: "fg_config \<Rightarrow> string list \<Rightarrow> string \<Rightarrow> nat set" where
  "free_channels cfg sigs s = {i. i < length sigs \<and> fixed_satellite cfg i = 0 \<and> sigs ! i = s}"

definition supplied :: "fg_config \<Rightarrow> string list \<Rightarrow> (string \<Rightarrow> gnss_signal set) \<Rightarrow> bool" where
  "supplied cfg sigs P \<longleftrightarrow> proper_pool P \<and> [] \<notin> set sigs \<and>
     (\<forall>s \<in> set sigs. card (free_channels cfg sigs s) < card (P s))"

text \<open>The effect of an action on the states: a channel is left alone or starts an acquisition.\<close>

definition only_starts :: "'d flowgraph \<Rightarrow> 'd flowgraph \<Rightarrow> bool" where
  "only_starts fg fg' \<longleftrightarrow> length (channels fg') = length (channels fg) \<and>
     max_acq_channels fg' = max_acq_channels fg \<and>
     (\<forall>j < length (channels fg). (state_at fg' j = state_at fg j \<and> mode_at fg' j = mode_at fg j) \<or>
        ((state_at fg j = 0 \<or> state_at fg j = 1) \<and> state_at fg' j = 2 \<and> mode_at fg' j = 1))"

lemma only_starts_refl [simp]: "only_starts fg fg"
  by (simp add: only_starts_def)

lemma only_starts_trans: "only_starts a b \<Longrightarrow> only_starts b c \<Longrightarrow> only_starts a c"
  by (fastforce simp: only_starts_def)

section \<open>Updates of one channel\<close>

lemma count_list_update:
  "i < length xs \<Longrightarrow> count_list (xs[i := v]) a + of_bool (xs ! i = a) = count_list xs a + of_bool (v = a)"
proof (induction xs arbitrary: i)
  case Nil
  then show ?case by simp
next
  case (Cons x xs)
  show ?case
  proof (cases i)
    case 0
    then show ?thesis by simp
  next
    case (Suc k)
    with Cons.prems have "k < length xs" by simp
    from Cons.IH[OF this] Suc show ?thesis by auto
  qed
qed

definition upd :: "nat \<Rightarrow> 'd channel \<Rightarrow> u32 \<Rightarrow> int \<Rightarrow> signals_map \<Rightarrow> 'd flowgraph \<Rightarrow> 'd flowgraph" where
  "upd i c v k A fg = fg\<lparr> channels := (channels fg)[i := c], channels_state := (channels_state fg)[i := v],
     acq_channels_count := k, available_signals_map := A \<rparr>"

lemma upd_fields [simp]:
  "channels (upd i c v k A fg) = (channels fg)[i := c]"
  "channels_state (upd i c v k A fg) = (channels_state fg)[i := v]"
  "acq_channels_count (upd i c v k A fg) = k"
  "max_acq_channels (upd i c v k A fg) = max_acq_channels fg"
  "available_signals_map (upd i c v k A fg) = A"
  "avail_of (upd i c v k A fg) = map_of A"
  by (simp_all add: upd_def avail_of_def)

lemma upd_eqI:
  "channels g = (channels fg)[i := c] \<Longrightarrow> channels_state g = (channels_state fg)[i := v] \<Longrightarrow>
   acq_channels_count g = k \<Longrightarrow> max_acq_channels g = max_acq_channels fg \<Longrightarrow>
   available_signals_map g = A \<Longrightarrow> multiband g = multiband fg \<Longrightarrow> flowgraph.more g = flowgraph.more fg \<Longrightarrow>
   g = upd i c v k A fg"
  by (rule flowgraph.equality) (simp_all add: upd_def)

lemma at_upd:
  assumes "i < length (channels fg)" "length (channels_state fg) = length (channels fg)"
  shows "sig_at (upd i c v k A fg) j = (if j = i then ch_signal c else sig_at fg j)"
    and "mode_at (upd i c v k A fg) j = (if j = i then ch_mode c else mode_at fg j)"
    and "state_at (upd i c v k A fg) j = (if j = i then v else state_at fg j)"
  using assms by (auto simp: sig_at_def mode_at_def state_at_def)

lemma held_upd:
  assumes "i < length (channels fg)" "length (channels_state fg) = length (channels fg)"
  shows "held_of cfg (upd i c v k A fg) =
    (held_of cfg fg)(i := if fixed_satellite cfg i = 0 \<and> v \<noteq> 0 then Some (ch_signal c) else None)"
  using assms by (auto simp: held_of_def at_upd fun_eq_iff)

lemma channels_ok_lengths:
  "channels_ok sigs fg \<Longrightarrow> length (channels fg) = length sigs \<and> length (channels_state fg) = length sigs"
  by (simp add: channels_ok_def)

lemma channels_ok_at:
  assumes "channels_ok sigs fg" "i < length sigs"
  shows "gs_signal (sig_at fg i) = sigs ! i" "ch_ready (channels fg ! i)"
    "ch_number (channels fg ! i) = of_nat i" "state_at fg i \<in> {0, 1, 2, 3}"
    "state_at fg i = 0 \<or> state_at fg i = 1 \<Longrightarrow> mode_at fg i = 0 \<or> mode_at fg i = 3"
  using assms unfolding channels_ok_def by blast+

lemma channels_ok_upd:
  assumes "channels_ok sigs fg" "i < length sigs" "gs_signal (ch_signal c) = sigs ! i" "ch_ready c"
    "ch_number c = of_nat i" "v \<in> {0, 1, 2, 3}" "v = 0 \<or> v = 1 \<longrightarrow> ch_mode c = 0 \<or> ch_mode c = 3"
  shows "channels_ok sigs (upd i c v k A fg)"
proof -
  have l: "i < length (channels fg)" "length (channels_state fg) = length (channels fg)"
    using channels_ok_lengths[OF assms(1)] assms(2) by auto
  show ?thesis
    using assms by (auto simp: channels_ok_def at_upd[OF l] nth_list_update)
qed

lemma slots_upd:
  assumes "slots_ok fg" "i < length (channels_state fg)" "k \<le> max_acq_channels fg"
    "k + of_bool (state_at fg i = 2) = acq_channels_count fg + of_bool (v = 2)"
  shows "slots_ok (upd i c v k A fg)"
proof -
  have "int (count_list ((channels_state fg)[i := v]) 2 + of_bool (state_at fg i = 2))
      = int (count_list (channels_state fg) 2 + of_bool (v = 2))"
    by (simp only: state_at_def count_list_update[OF assms(2)])
  then have "int (count_list ((channels_state fg)[i := v]) 2) + of_bool (state_at fg i = 2)
      = int (count_list (channels_state fg) 2) + of_bool (v = 2)"
    by (simp only: of_nat_add of_nat_of_bool)
  with assms show ?thesis by (simp add: slots_ok_def)
qed

lemma only_starts_upd:
  assumes "i < length (channels fg)" "length (channels_state fg) = length (channels fg)"
    "(v = state_at fg i \<and> ch_mode c = mode_at fg i) \<or>
     ((state_at fg i = 0 \<or> state_at fg i = 1) \<and> v = 2 \<and> ch_mode c = 1)"
  shows "only_starts fg (upd i c v k A fg)"
  using assms(3) by (auto simp: only_starts_def at_upd[OF assms(1,2)])

lemma vget_channel: "channels_ok sigs fg \<Longrightarrow> i < length sigs \<Longrightarrow> vget (channels fg) i = Some (channels fg ! i)"
  by (simp add: channels_ok_def vget_def)

lemma vget_state: "channels_ok sigs fg \<Longrightarrow> i < length sigs \<Longrightarrow> vget (channels_state fg) i = Some (state_at fg i)"
  by (simp add: channels_ok_def vget_def state_at_def)


lemma upd_quiet: "upd i c (state_at fg i) (acq_channels_count fg) A fg =
    fg\<lparr> available_signals_map := A, channels := (channels fg)[i := c] \<rparr>"
  by (rule sym, rule upd_eqI) (simp_all add: state_at_def)

lemma upd_upd: "upd i c' v' k' A' (upd i c v k A fg) = upd i c' v' k' A' fg"
  by (simp add: upd_def)

lemma fg_inv_lengths:
  assumes "fg_inv cfg sigs P L fg" "i < length sigs"
  shows "i < length (channels fg)" "length (channels_state fg) = length (channels fg)"
    "i < length (channels_state fg)"
  using assms channels_ok_lengths[of sigs fg] by (auto simp: fg_inv_def)

text \<open>Preservation by an update of one channel, with what has to be shown of the pool.\<close>

lemma fg_inv_upd:
  assumes inv: "fg_inv cfg sigs P L fg" and i: "i < length sigs"
    and c: "gs_signal (ch_signal c) = sigs ! i" "ch_ready c" "ch_number c = of_nat i"
    and v: "v \<in> {0, 1, 2, 3}" "v = 0 \<or> v = 1 \<longrightarrow> ch_mode c = 0 \<or> ch_mode c = 3"
    and k: "k \<le> max_acq_channels fg"
      "k + of_bool (state_at fg i = 2) = acq_channels_count fg + of_bool (v = 2)"
    and fixed: "fixed_satellite cfg i \<noteq> 0 \<Longrightarrow> ch_signal c = sig_at fg i"
    and dom: "\<And>s. avail_of fg s \<noteq> None \<Longrightarrow> map_of A s \<noteq> None"
    and pool: "pool P (map_of A) ((held_of cfg fg)(i := if fixed_satellite cfg i = 0 \<and> v \<noteq> 0
      then Some (ch_signal c) else None)) L'"
  shows "fg_inv cfg sigs P L' (upd i c v k A fg)"
  unfolding fg_inv_def
proof (intro conjI)
  note l = fg_inv_lengths[OF inv i]
  show "channels_ok sigs (upd i c v k A fg)"
    using inv i c v by (intro channels_ok_upd) (auto simp: fg_inv_def)
  show "slots_ok (upd i c v k A fg)"
    using inv l(3) k by (intro slots_upd) (auto simp: fg_inv_def)
  show "signals_ok cfg sigs P L' (upd i c v k A fg)"
    using inv pool fixed dom
    by (auto simp: signals_ok_def fg_inv_def held_upd[OF l(1,2)] at_upd[OF l(1,2)])
qed

lemma held_iff:
  assumes "fg_inv cfg sigs P L fg" "i < length sigs"
  shows "held_of cfg fg i =
    (if fixed_satellite cfg i = 0 \<and> state_at fg i \<noteq> 0 then Some (sig_at fg i) else None)"
  using fg_inv_lengths[OF assms] by (simp add: held_of_def)

lemma own_signal:
  assumes "supplied cfg sigs P" "fg_inv cfg sigs P L fg" "i < length sigs"
    "fixed_satellite cfg i \<noteq> 0 \<or> state_at fg i \<noteq> 0"
  shows "proper_signal (sigs ! i) (sig_at fg i)"
proof (cases "fixed_satellite cfg i = 0")
  case True
  with assms have "held_of cfg fg i = Some (sig_at fg i)" by (simp add: held_iff)
  with assms(2) have "sig_at fg i \<in> P (gs_signal (sig_at fg i))"
    using pool_held by (auto simp: fg_inv_def signals_ok_def)
  moreover have "gs_signal (sig_at fg i) = sigs ! i"
    using assms(2,3) channels_ok_at(1) by (auto simp: fg_inv_def)
  ultimately show ?thesis using assms(1) by (auto simp: supplied_def proper_pool_def)
next
  case False
  with assms(2,3) show ?thesis by (auto simp: fg_inv_def signals_ok_def)
qed

lemma settable:
  assumes "supplied cfg sigs P" "i < length sigs" "proper_signal (sigs ! i) g"
  shows "gs_signal g = sigs ! i" "gs_signal g \<noteq> []" "get_system_short (gs_satellite g) \<noteq> None"
proof -
  show g: "gs_signal g = sigs ! i" using proper_signal_str[OF assms(3)] .
  have "sigs ! i \<in> set sigs" using assms(2) by simp
  then show "gs_signal g \<noteq> []" using assms(1) g by (auto simp: supplied_def)
  show "get_system_short (gs_satellite g) \<noteq> None" using proper_signal_short[OF assms(3)] by auto
qed

section \<open>Acquisitions\<close>

lemma begin_acquisition_ok:
  assumes "i < length (channels fg)" "length (channels_state fg) = length (channels fg)"
    "ch_ready c" "ch_mode c = 0 \<or> ch_mode c = 3"
  shows "\<exists>c2. begin_acquisition i d c fg = Some (upd i c2 2 (acq_channels_count fg + 1)
      (available_signals_map fg) fg) \<and> ch_signal c2 = ch_signal c \<and> ch_mode c2 = 1 \<and> ch_ready c2
      \<and> ch_number c2 = ch_number c"
proof -
  note a = cc.assist_ok[of d c]
  from a assms(3) have "ch_ready (assist_acquisition_doppler d c)" by simp
  from cc.start_ok[OF this] a assms(4) obtain c2 where
    "start_acquisition (assist_acquisition_doppler d c) = Some c2" "ch_signal c2 = ch_signal c"
    "ch_mode c2 = 1" "ch_ready c2" "ch_number c2 = ch_number c" by auto
  moreover from this(1) have "begin_acquisition i d c fg = Some (upd i c2 2 (acq_channels_count fg + 1)
      (available_signals_map fg) fg)"
    using assms(1,2) by (simp add: begin_acquisition_def vput_def) (rule upd_eqI, simp_all)
  ultimately show ?thesis by blast
qed

lemma acquire_own_ok:
  assumes sup: "supplied cfg sigs P" and inv: "fg_inv cfg sigs P L fg" and i: "i < length sigs"
    and room: "acq_channels_count fg < max_acq_channels fg"
    and st: "state_at fg i = 0 \<or> state_at fg i = 1" "fixed_satellite cfg i \<noteq> 0 \<or> state_at fg i \<noteq> 0"
  shows "\<exists>fg'. acquire_own i (channels fg ! i) fg = Some fg' \<and> fg_inv cfg sigs P L fg' \<and> only_starts fg fg'"
proof -
  note l = fg_inv_lengths[OF inv i]
  have ok: "channels_ok sigs fg" using inv by (simp add: fg_inv_def)
  note at = channels_ok_at[OF ok i]
  let ?g = "sig_at fg i"
  note set = settable[OF sup i own_signal[OF sup inv i st(2)]]
  from cc.sel_ok[OF set(2,3), of "channels fg ! i"] at(2,3) obtain c1 where
    c1: "set_signal ?g (channels fg ! i) = Some c1" "ch_signal c1 = ?g"
      "ch_mode c1 = mode_at fg i" "ch_ready c1" "ch_number c1 = of_nat i"
    by (auto simp: mode_at_def)
  from begin_acquisition_ok[OF l(1,2) c1(4), of Doppler_zero] c1(3) at(5)[OF st(1)] obtain c2 where
    c2: "begin_acquisition i Doppler_zero c1 fg = Some (upd i c2 2 (acq_channels_count fg + 1)
      (available_signals_map fg) fg)" "ch_signal c2 = ?g" "ch_mode c2 = 1" "ch_ready c2"
      "ch_number c2 = of_nat i"
    using c1(2,5) by auto
  have "fg_inv cfg sigs P L (upd i c2 2 (acq_channels_count fg + 1) (available_signals_map fg) fg)"
  proof (rule fg_inv_upd[OF inv i])
    have "(held_of cfg fg)(i := if fixed_satellite cfg i = 0 \<and> (2 :: u32) \<noteq> 0 then Some (ch_signal c2) else None)
        = held_of cfg fg"
      using st(2) c2(2) by (auto simp: held_iff[OF inv i] fun_eq_iff)
    then show "pool P (map_of (available_signals_map fg)) ((held_of cfg fg)(i := if fixed_satellite cfg i = 0
        \<and> (2 :: u32) \<noteq> 0 then Some (ch_signal c2) else None)) L"
      using inv by (simp add: fg_inv_def signals_ok_def avail_of_def)
    show "acq_channels_count fg + 1 + of_bool (state_at fg i = 2) = acq_channels_count fg + of_bool ((2 :: u32) = 2)"
      using st(1) by auto
  qed (use c2 set room in \<open>auto simp: avail_of_def\<close>)
  moreover have "only_starts fg (upd i c2 2 (acq_channels_count fg + 1) (available_signals_map fg) fg)"
    using st(1) c2(3) by (intro only_starts_upd l) auto
  ultimately show ?thesis
    using c1(1) c2(1) by (simp add: acquire_own_def sig_at_def[symmetric])
qed


lemma signals_available:
  assumes sup: "supplied cfg sigs P" and inv: "fg_inv cfg sigs P L fg" and i: "i < length sigs"
    and idle: "state_at fg i = 0" "fixed_satellite cfg i = 0" and L: "finite L" "card L \<le> 1"
  shows "\<exists>l. avail_of fg (sigs ! i) = Some l \<and> l \<noteq> []"
proof -
  let ?s = "sigs ! i" and ?F = "free_channels cfg sigs (sigs ! i)"
  have s: "?s \<in> set sigs" using i by simp
  with inv obtain l where l: "avail_of fg ?s = Some l" by (auto simp: fg_inv_def signals_ok_def)
  have fin: "finite ?F" "i \<in> ?F" using i idle(2) by (auto simp: free_channels_def)
  have "j \<in> ?F - {i}" if "held_of cfg fg j = Some g" "gs_signal g = ?s" for j g
    using that inv idle(1) channels_ok_at(1)[of sigs fg j]
    by (auto simp: held_of_def free_channels_def fg_inv_def channels_ok_def split: if_splits)
  moreover have "card (?F - {i}) + card L < card (P ?s)"
  proof -
    have "card ?F < card (P ?s)" using sup s by (auto simp: supplied_def)
    moreover have "card (?F - {i}) = card ?F - 1" "card ?F \<ge> 1"
      using fin by (simp, metis One_nat_def Suc_leI card_gt_0_iff empty_iff)
    ultimately show ?thesis using L(2) by linarith
  qed
  moreover have pl: "pool P (avail_of fg) (held_of cfg fg) L" using inv by (simp add: fg_inv_def signals_ok_def)
  ultimately have "l \<noteq> []" using fin(1) L(1) by (intro pool_available[OF pl l, of "?F - {i}"]) auto
  with l show ?thesis by blast
qed

lemma acquire_next_ok:
  assumes sup: "supplied cfg sigs P" and inv: "fg_inv cfg sigs P L fg" and i: "i < length sigs"
    and room: "acq_channels_count fg < max_acq_channels fg"
    and idle: "state_at fg i = 0" "fixed_satellite cfg i = 0" and L: "finite L" "card L \<le> 1"
  shows "\<exists>fg'. acquire_next cfg status i (channels fg ! i) fg = Some fg' \<and> fg_inv cfg sigs P L fg'
    \<and> only_starts fg fg'"
proof -
  note len = fg_inv_lengths[OF inv i]
  have ok: "channels_ok sigs fg" and pl: "pool P (avail_of fg) (held_of cfg fg) L"
    using inv by (simp_all add: fg_inv_def signals_ok_def)
  note at = channels_ok_at[OF ok i]
  let ?s = "sigs ! i" and ?A = "available_signals_map fg" and ?H = "held_of cfg fg"
  have pp: "proper_pool P" using sup by (simp add: supplied_def)
  have Hi: "?H i = None" using idle by (simp add: held_iff[OF inv i])
  from signals_available[OF sup inv i idle L] obtain l where l: "map_of ?A ?s = Some l" "l \<noteq> []"
    by (auto simp: avail_of_def)
  from search_next_signal_split[OF l, of cfg status] obtain r xs ys where
    r: "search_next_signal cfg status ?s ?A = Some (r, um_assign ?s (xs @ ys) ?A)" "l = xs @ result r # ys"
    by blast
  let ?g = "result r" and ?A1 = "um_assign ?s (xs @ ys) ?A"
  have A1: "map_of ?A1 = (avail_of fg)(?s \<mapsto> xs @ ys)" by (simp add: map_of_um_assign avail_of_def)
  have p1: "pool P (map_of ?A1) ?H (insert ?g L)"
    unfolding A1 using pl pp l(1) r(2) by (intro pool_take) (auto simp: avail_of_def)
  have "avail_of fg ?s = Some l" using l(1) by (simp add: avail_of_def)
  note o = pool_list[OF pl this]
  have gP: "?g \<in> P ?s" and gL: "?g \<notin> L" using o r(2) by auto
  then have gp: "proper_signal ?s ?g" using pp by (auto simp: proper_pool_def)
  note set = settable[OF sup i gp]
  from cc.sel_ok[OF set(2,3), of "channels fg ! i"] at(2,3) obtain c1 where
    c1: "set_signal ?g (channels fg ! i) = Some c1" "ch_signal c1 = ?g"
      "ch_mode c1 = mode_at fg i" "ch_ready c1" "ch_number c1 = of_nat i"
    by (auto simp: mode_at_def)
  let ?fg1 = "upd i c1 (state_at fg i) (acq_channels_count fg) ?A1 fg"
  have len1: "i < length (channels ?fg1)" "length (channels_state ?fg1) = length (channels ?fg1)"
    using len by simp_all
  have mode: "ch_mode c1 = 0 \<or> ch_mode c1 = 3" using c1(3) at(5) idle(1) by simp
  have dom: "avail_of fg t \<noteq> None \<Longrightarrow> map_of ?A1 t \<noteq> None" for t by (simp add: A1)
  let ?d = "case assistance r of Some (d, _) \<Rightarrow>
      (if assist_dual cfg fg then Projected (gs_signal (ch_signal c1)) d else Doppler_zero)
    | None \<Rightarrow> Doppler_zero"
  let ?go = "is_primary_frequency r \<or> assistance r \<noteq> None \<or> \<not> assist_dual cfg fg"
  have eq: "acquire_next cfg status i (channels fg ! i) fg =
      (if ?go then begin_acquisition i ?d c1 ?fg1 else push_back_signal ?g ?fg1)"
    using at(1) r(1) c1(1) len(1)
    by (simp add: acquire_next_def sig_at_def[symmetric] vput_def upd_quiet Let_def)
  show ?thesis
  proof (cases ?go)
    case True
    from begin_acquisition_ok[OF len1 c1(4) mode, of ?d] obtain c2 where
      c2: "begin_acquisition i ?d c1 ?fg1 = Some (upd i c2 2 (acq_channels_count fg + 1) ?A1 fg)"
        "ch_signal c2 = ?g" "ch_mode c2 = 1" "ch_ready c2" "ch_number c2 = of_nat i"
      using c1(2,5) by (auto simp: upd_upd)
    have "fg_inv cfg sigs P L (upd i c2 2 (acq_channels_count fg + 1) ?A1 fg)"
    proof (rule fg_inv_upd[OF inv i])
      have "pool P (map_of ?A1) (?H(i \<mapsto> ?g)) (insert ?g L - {?g})"
        by (rule pool_hold[OF p1]) (simp_all add: Hi)
      then show "pool P (map_of ?A1) (?H(i := if fixed_satellite cfg i = 0 \<and> (2 :: u32) \<noteq> 0
          then Some (ch_signal c2) else None)) L"
        using gL idle(2) c2(2) by simp
      show "acq_channels_count fg + 1 + of_bool (state_at fg i = 2) = acq_channels_count fg + of_bool ((2 :: u32) = 2)"
        using idle(1) by simp
    qed (use c2 set(1) room idle(2) dom in auto)
    moreover have "only_starts fg (upd i c2 2 (acq_channels_count fg + 1) ?A1 fg)"
      using idle(1) c2(3) by (intro only_starts_upd len) auto
    ultimately show ?thesis using True eq c2(1) by simp
  next
    case False
    let ?A2 = "um_assign ?s (list_remove ?g (xs @ ys) @ [?g]) ?A1"
    have push: "push_back_signal ?g ?fg1 = Some (upd i c1 (state_at fg i) (acq_channels_count fg) ?A2 fg)"
      using set(1) by (simp add: push_back_signal_def map_of_um_assign) (rule upd_eqI, simp_all add: upd_def)
    have "fg_inv cfg sigs P L (upd i c1 (state_at fg i) (acq_channels_count fg) ?A2 fg)"
    proof (rule fg_inv_upd[OF inv i])
      have "pool P ((map_of ?A1)(gs_signal ?g \<mapsto> list_remove ?g (xs @ ys) @ [?g])) ?H (insert ?g L - {?g})"
        using set(1) by (intro pool_give_back[OF p1 _ _ pp]) (simp_all add: map_of_um_assign)
      then show "pool P (map_of ?A2) (?H(i := if fixed_satellite cfg i = 0 \<and> state_at fg i \<noteq> 0
          then Some (ch_signal c1) else None)) L"
        using gL set(1) idle(1) Hi by (simp add: map_of_um_assign[of _ "list_remove ?g (xs @ ys) @ [?g]"] fun_upd_idem)
      show "acq_channels_count fg \<le> max_acq_channels fg" using room by simp
      show "avail_of fg t \<noteq> None \<Longrightarrow> map_of ?A2 t \<noteq> None" for t
        using dom[of t] by (simp add: map_of_um_assign[of _ "list_remove ?g (xs @ ys) @ [?g]"])
    qed (use c1 set(1) idle mode at in auto)
    moreover have "only_starts fg (upd i c1 (state_at fg i) (acq_channels_count fg) ?A2 fg)"
      using c1(3) by (intro only_starts_upd len) auto
    ultimately show ?thesis using False eq push by simp
  qed
qed

end
