(* ===== verification/Flowgraph_Actions.thy ===== *)
theory Flowgraph_Actions
  imports Flowgraph_Invariant
begin

text \<open>
  The acquisition manager and the actions of the channels return normally and keep the
  invariant, provided the action fits the state of the channel.
\<close>

section \<open>The acquisition manager\<close>

lemma manage_channel_ok:
  assumes sup: "supplied cfg sigs P" and inv: "fg_inv cfg sigs P L fg" and i: "i < length sigs"
    and L: "finite L" "card L \<le> 1"
  shows "\<exists>fg'. manage_channel cfg status i fg = Some fg' \<and> fg_inv cfg sigs P L fg' \<and> only_starts fg fg'"
proof -
  have ok: "channels_ok sigs fg" using inv by (simp add: fg_inv_def)
  note v = vget_state[OF ok i] vget_channel[OF ok i]
  have le1: "state_at fg i \<le> 1 \<longleftrightarrow> state_at fg i = 0 \<or> state_at fg i = 1"
    using channels_ok_at(4)[OF ok i] by (auto simp: word_le_nat_alt)
  consider "\<not> acq_channels_count fg < max_acq_channels fg \<or> \<not> state_at fg i \<le> 1"
    | "acq_channels_count fg < max_acq_channels fg" "state_at fg i = 0" "fixed_satellite cfg i = 0"
    | "acq_channels_count fg < max_acq_channels fg" "state_at fg i \<le> 1"
      "fixed_satellite cfg i \<noteq> 0 \<or> state_at fg i \<noteq> 0"
    by blast
  then show ?thesis
  proof cases
    case 1
    with v inv show ?thesis by (auto simp: manage_channel_def)
  next
    case 2
    from acquire_next_ok[OF sup inv i 2 L, of status] show ?thesis
      using 2 v by (simp add: manage_channel_def)
  next
    case 3
    from acquire_own_ok[OF sup inv i 3(1) _ 3(3)] 3(2) le1 show ?thesis
      using 3 v by (auto simp: manage_channel_def)
  qed
qed

lemma acquisition_manager_ok:
  assumes sup: "supplied cfg sigs P" and inv: "fg_inv cfg sigs P L fg" and L: "finite L" "card L \<le> 1"
  shows "\<exists>fg'. acquisition_manager cfg status who fg = Some fg' \<and> fg_inv cfg sigs P L fg' \<and> only_starts fg fg'"
proof -
  have n: "length (channels fg) = length sigs" using inv by (simp add: fg_inv_def channels_ok_def)
  have "\<exists>fg'. foldM (\<lambda>i. manage_channel cfg status ((i + who + 1) mod length sigs)) [0..<length sigs] fg = Some fg'
    \<and> (fg_inv cfg sigs P L fg' \<and> only_starts fg fg')"
  proof (rule foldM_total)
    fix i and h :: "'a flowgraph"
    assume i: "i \<in> set [0..<length sigs]" and h: "fg_inv cfg sigs P L h \<and> only_starts fg h"
    then have "(i + who + 1) mod length sigs < length sigs"
      by (intro mod_less_divisor) auto
    from manage_channel_ok[OF sup _ this L, of h status] h only_starts_trans[of fg h]
    show "\<exists>h'. manage_channel cfg status ((i + who + 1) mod length sigs) h = Some h' \<and>
        fg_inv cfg sigs P L h' \<and> only_starts fg h'" by blast
  qed (use inv in simp)
  with n show ?thesis by (simp add: acquisition_manager_def Let_def)
qed

section \<open>Actions\<close>

text \<open>Channel \<open>who\<close> goes to state \<open>v\<close>, and then acquisitions may start.\<close>

definition released :: "nat \<Rightarrow> u32 \<Rightarrow> 'd flowgraph \<Rightarrow> 'd flowgraph \<Rightarrow> bool" where
  "released who v fg fg' \<longleftrightarrow> only_starts (fg\<lparr> channels_state := (channels_state fg)[who := v] \<rparr>) fg'"

lemma only_starts_cong:
  "only_starts a b \<Longrightarrow> channels a' = channels a \<Longrightarrow> channels_state a' = channels_state a \<Longrightarrow>
   max_acq_channels a' = max_acq_channels a \<Longrightarrow> channels b' = channels b \<Longrightarrow>
   channels_state b' = channels_state b \<Longrightarrow> max_acq_channels b' = max_acq_channels b \<Longrightarrow> only_starts a' b'"
  by (simp add: only_starts_def state_at_def mode_at_def)

text \<open>The common part of success and failure: the channel leaves the acquisition state.\<close>

lemma leave_acquisition:
  assumes inv: "fg_inv cfg sigs P {} fg" and i: "who < length sigs" and st: "state_at fg who = 2"
    and v: "v = 0 \<or> v = 3" "v = 0 \<longrightarrow> mode_at fg who = 0 \<or> mode_at fg who = 3"
  shows "fg_inv cfg sigs P (if v = 0 \<and> fixed_satellite cfg who = 0 then {sig_at fg who} else {})
    (release_slot (fg\<lparr> channels_state := (channels_state fg)[who := v] \<rparr>))"
proof -
  note len = fg_inv_lengths[OF inv i]
  have ok: "channels_ok sigs fg" and pl: "pool P (avail_of fg) (held_of cfg fg) {}"
    and slots: "slots_ok fg" using inv by (simp_all add: fg_inv_def signals_ok_def)
  note at = channels_ok_at[OF ok i]
  have "count_list (channels_state fg) 2 > 0"
    using st len(3) by (metis count_list_0_iff gr0I nth_mem state_at_def)
  with slots have pos: "acq_channels_count fg > 0" by (simp add: slots_ok_def)
  have eq: "release_slot (fg\<lparr> channels_state := (channels_state fg)[who := v] \<rparr>) =
      upd who (channels fg ! who) v (acq_channels_count fg - 1) (available_signals_map fg) fg"
    using pos len(1) by (intro upd_eqI) (simp_all add: release_slot_def)
  let ?H = "held_of cfg fg" and ?g = "sig_at fg who"
  have "fg_inv cfg sigs P (if v = 0 \<and> fixed_satellite cfg who = 0 then {?g} else {})
    (upd who (channels fg ! who) v (acq_channels_count fg - 1) (available_signals_map fg) fg)"
  proof (rule fg_inv_upd[OF inv i])
    show "pool P (map_of (available_signals_map fg)) (?H(who := if fixed_satellite cfg who = 0 \<and> v \<noteq> 0
        then Some (ch_signal (channels fg ! who)) else None)) (if v = 0 \<and> fixed_satellite cfg who = 0 then {?g} else {})"
    proof (cases "v = 0 \<and> fixed_satellite cfg who = 0")
      case True
      with st have "?H who = Some ?g" by (simp add: held_iff[OF inv i])
      from pool_drop[OF pl this] True show ?thesis by (simp add: avail_of_def)
    next
      case False
      then have "?H(who := if fixed_satellite cfg who = 0 \<and> v \<noteq> 0 then Some (ch_signal (channels fg ! who)) else None)
          = ?H" using st v(1) by (auto simp: fun_eq_iff held_iff[OF inv i] sig_at_def)
      with False pl show ?thesis by (auto simp: avail_of_def)
    qed
    show "acq_channels_count fg - 1 \<le> max_acq_channels fg" using slots by (simp add: slots_ok_def)
    show "acq_channels_count fg - 1 + of_bool (state_at fg who = 2) = acq_channels_count fg + of_bool (v = 2)"
      using st v(1) by auto
  qed (use at v in \<open>auto simp: sig_at_def mode_at_def avail_of_def\<close>)
  then show ?thesis by (simp only: eq)
qed

lemma release_slot_fields [simp]:
  "channels (release_slot fg) = channels fg" "channels_state (release_slot fg) = channels_state fg"
  "max_acq_channels (release_slot fg) = max_acq_channels fg"
  "available_signals_map (release_slot fg) = available_signals_map fg"
  by (simp_all add: release_slot_def)

lemma push_back_ok:
  assumes sup: "supplied cfg sigs P" and inv: "fg_inv cfg sigs P {g} fg"
  shows "\<exists>fg'. push_back_signal g fg = Some fg' \<and> fg_inv cfg sigs P {} fg' \<and>
    channels fg' = channels fg \<and> channels_state fg' = channels_state fg \<and>
    max_acq_channels fg' = max_acq_channels fg"
proof -
  have pl: "pool P (avail_of fg) (held_of cfg fg) {g}" using inv by (simp add: fg_inv_def signals_ok_def)
  from pool_known[OF pl, of g] obtain l where l: "avail_of fg (gs_signal g) = Some l" by auto
  have "proper_pool P" using sup by (simp add: supplied_def)
  from pool_give_back[OF pl _ l this] have p: "pool P ((avail_of fg)(gs_signal g \<mapsto> list_remove g l @ [g])) (held_of cfg fg) {}"
    by simp
  let ?fg' = "fg\<lparr> available_signals_map := um_assign (gs_signal g) (list_remove g l @ [g]) (available_signals_map fg) \<rparr>"
  have "avail_of ?fg' = (avail_of fg)(gs_signal g \<mapsto> list_remove g l @ [g])"
    by (simp add: avail_of_def map_of_um_assign)
  moreover have "held_of cfg ?fg' = held_of cfg fg"
    by (simp add: held_of_def fun_eq_iff state_at_def sig_at_def)
  ultimately have "fg_inv cfg sigs P {} ?fg'"
    using inv p by (auto simp: fg_inv_def signals_ok_def channels_ok_def slots_ok_def
        sig_at_def state_at_def mode_at_def)
  moreover have "push_back_signal g fg = Some ?fg'" using l by (simp add: push_back_signal_def avail_of_def)
  ultimately show ?thesis by simp
qed

lemma acquisition_failed_ok:
  assumes sup: "supplied cfg sigs P" and inv: "fg_inv cfg sigs P {} fg" and i: "who < length sigs"
    and st: "state_at fg who = 2" "mode_at fg who = 0 \<or> mode_at fg who = 3"
  shows "\<exists>fg'. on_acquisition_failed cfg status who (fixed_satellite cfg who) fg = Some fg' \<and>
    fg_inv cfg sigs P {} fg' \<and> released who 0 fg fg'"
proof -
  note len = fg_inv_lengths[OF inv i]
  have ok: "channels_ok sigs fg" using inv by (simp add: fg_inv_def)
  let ?fg1 = "fg\<lparr> channels_state := (channels_state fg)[who := 0] \<rparr>" and ?g = "sig_at fg who"
  let ?L = "if fixed_satellite cfg who = 0 then {?g} else {}"
  have "fg_inv cfg sigs P ?L (release_slot ?fg1)"
    using leave_acquisition[OF inv i st(1), of 0] st(2) by simp
  moreover have "finite ?L" "card ?L \<le> 1" by simp_all
  ultimately obtain fg2 where
    fg2: "acquisition_manager cfg status who (release_slot ?fg1) = Some fg2" "fg_inv cfg sigs P ?L fg2"
      "only_starts (release_slot ?fg1) fg2"
    using acquisition_manager_ok[OF sup, of ?L "release_slot ?fg1" status who] by blast
  from fg2(3) have rel: "released who 0 fg fg2"
    unfolding released_def by (rule only_starts_cong) simp_all
  have eq: "on_acquisition_failed cfg status who (fixed_satellite cfg who) fg =
      (if fixed_satellite cfg who = 0 then push_back_signal ?g fg2 else Some fg2)"
    using vget_channel[OF ok i] len(3) fg2(1)
    by (simp add: on_acquisition_failed_def set_state_def vput_def sig_at_def)
  show ?thesis
  proof (cases "fixed_satellite cfg who = 0")
    case True
    with fg2(2) have "fg_inv cfg sigs P {?g} fg2" by simp
    from push_back_ok[OF sup this] obtain fg3 where fg3: "push_back_signal ?g fg2 = Some fg3"
      "fg_inv cfg sigs P {} fg3" "channels fg3 = channels fg2" "channels_state fg3 = channels_state fg2"
      "max_acq_channels fg3 = max_acq_channels fg2" by blast
    from rel have "released who 0 fg fg3"
      unfolding released_def by (rule only_starts_cong) (simp_all add: fg3)
    with fg3(1,2) eq True show ?thesis by simp
  next
    case False
    with fg2 rel eq show ?thesis by simp
  qed
qed

lemma remove_own_signal:
  assumes sup: "supplied cfg sigs P" and inv: "fg_inv cfg sigs P {} fg" and i: "i < length sigs"
    and st: "state_at fg i \<noteq> 0"
  shows "remove_signal (sig_at fg i) fg = Some fg"
proof -
  have ok: "channels_ok sigs fg" and pl: "pool P (avail_of fg) (held_of cfg fg) {}"
    using inv by (simp_all add: fg_inv_def signals_ok_def)
  let ?g = "sig_at fg i" and ?s = "sigs ! i"
  have pp: "proper_pool P" using sup by (simp add: supplied_def)
  have gs: "gs_signal ?g = ?s" using channels_ok_at(1)[OF ok i] .
  have "?s \<in> set sigs" using i by simp
  with inv obtain l where l: "avail_of fg ?s = Some l" by (auto simp: fg_inv_def signals_ok_def)
  have "list_remove ?g l = l"
  proof (cases "fixed_satellite cfg i = 0")
    case True
    with st have "held_of cfg fg i = Some ?g" by (simp add: held_iff[OF inv i])
    from pool_remove_held[OF pl this _ pp] l gs show ?thesis by simp
  next
    case False
    with inv i have "proper_signal ?s ?g" "?g \<notin> P ?s" by (auto simp: fg_inv_def signals_ok_def)
    moreover have "set l \<subseteq> P ?s" using pool_list[OF pl l] by blast
    ultimately show ?thesis
      using list_remove_pool[OF pp, of l ?s ?g] removeAll_id[of ?g l] by (metis subsetD)
  qed
  with l gs show ?thesis by (simp add: remove_signal_def avail_of_def um_assign_id)
qed

lemma acquisition_success_ok:
  assumes sup: "supplied cfg sigs P" and inv: "fg_inv cfg sigs P {} fg" and i: "who < length sigs"
    and st: "state_at fg who = 2"
  shows "\<exists>fg'. on_acquisition_success cfg status who fg = Some fg' \<and>
    fg_inv cfg sigs P {} fg' \<and> released who 3 fg fg'"
proof -
  note len = fg_inv_lengths[OF inv i]
  have ok: "channels_ok sigs fg" using inv by (simp add: fg_inv_def)
  let ?fg1 = "fg\<lparr> channels_state := (channels_state fg)[who := 3] \<rparr>"
  have "fg_inv cfg sigs P {} (release_slot ?fg1)"
    using leave_acquisition[OF inv i st, of 3] by simp
  from acquisition_manager_ok[OF sup this, of status who] obtain fg2 where
    fg2: "acquisition_manager cfg status who (release_slot ?fg1) = Some fg2" "fg_inv cfg sigs P {} fg2"
      "only_starts (release_slot ?fg1) fg2" by auto
  from fg2(3) have rel: "released who 3 fg fg2"
    unfolding released_def by (rule only_starts_cong) simp_all
  have "remove_signal (sig_at fg who) fg = Some fg" using remove_own_signal[OF sup inv i] st by simp
  then have "on_acquisition_success cfg status who fg = Some fg2"
    using vget_channel[OF ok i] len(3) fg2(1)
    by (simp add: on_acquisition_success_def set_state_def vput_def sig_at_def)
  with fg2(2) rel show ?thesis by simp
qed


lemma tracking_lost_ok:
  assumes sup: "supplied cfg sigs P" and inv: "fg_inv cfg sigs P {} fg" and i: "who < length sigs"
    and st: "state_at fg who = 3" "mode_at fg who = 0 \<or> mode_at fg who = 3"
  shows "\<exists>fg'. on_tracking_lost who (fixed_satellite cfg who) fg = Some fg' \<and>
    fg_inv cfg sigs P {} fg' \<and> released who 0 fg fg'"
proof -
  note len = fg_inv_lengths[OF inv i]
  have ok: "channels_ok sigs fg" and pl: "pool P (avail_of fg) (held_of cfg fg) {}"
    and slots: "slots_ok fg" using inv by (simp_all add: fg_inv_def signals_ok_def)
  note at = channels_ok_at[OF ok i]
  let ?g = "sig_at fg who" and ?A = "available_signals_map fg"
  let ?fg1 = "fg\<lparr> channels_state := (channels_state fg)[who := 0] \<rparr>"
  show ?thesis
  proof (cases "acq_channels_count fg < max_acq_channels fg")
    case True
    have own: "proper_signal (sigs ! who) ?g" using own_signal[OF sup inv i] st(1) by simp
    note set = settable[OF sup i own]
    from cc.sel_ok[OF set(2,3), of "channels fg ! who"] at(2,3) obtain c1 where
      c1: "set_signal ?g (channels fg ! who) = Some c1" "ch_signal c1 = ?g"
        "ch_mode c1 = mode_at fg who" "ch_ready c1" "ch_number c1 = of_nat who"
      by (auto simp: mode_at_def)
    from cc.start_ok[OF c1(4)] c1 st(2) obtain c2 where
      c2: "start_acquisition c1 = Some c2" "ch_signal c2 = ?g" "ch_mode c2 = 1" "ch_ready c2"
        "ch_number c2 = of_nat who" by auto
    let ?fg2 = "upd who c2 2 (acq_channels_count fg + 1) ?A fg"
    have "on_tracking_lost who (fixed_satellite cfg who) fg = Some ?fg2"
      using True vget_channel[OF ok i] len c1(1) c2(1)
      by (simp add: on_tracking_lost_def set_state_def vput_def sig_at_def) (rule upd_eqI, simp_all)
    moreover have "fg_inv cfg sigs P {} ?fg2"
    proof (rule fg_inv_upd[OF inv i])
      have "(held_of cfg fg)(who := if fixed_satellite cfg who = 0 \<and> (2 :: u32) \<noteq> 0
          then Some (ch_signal c2) else None) = held_of cfg fg"
        using st(1) c2(2) by (auto simp: held_iff[OF inv i] fun_eq_iff)
      then show "pool P (map_of ?A) ((held_of cfg fg)(who := if fixed_satellite cfg who = 0
          \<and> (2 :: u32) \<noteq> 0 then Some (ch_signal c2) else None)) {}"
        using pl by (simp add: avail_of_def)
      show "acq_channels_count fg + 1 + of_bool (state_at fg who = 2) = acq_channels_count fg + of_bool ((2 :: u32) = 2)"
        using st(1) by simp
    qed (use c2 set(1) True in \<open>auto simp: avail_of_def\<close>)
    moreover have "released who 0 fg ?fg2"
      using c2(3) len by (auto simp: released_def only_starts_def state_at_def mode_at_def nth_list_update)
    ultimately show ?thesis by blast
  next
    case False
    have eq1: "?fg1 = upd who (channels fg ! who) 0 (acq_channels_count fg) ?A fg"
      by (rule upd_eqI) simp_all
    let ?L = "if fixed_satellite cfg who = 0 then {?g} else {}"
    have inv1: "fg_inv cfg sigs P ?L ?fg1"
      unfolding eq1
    proof (rule fg_inv_upd[OF inv i])
      show "pool P (map_of ?A) ((held_of cfg fg)(who := if fixed_satellite cfg who = 0 \<and> (0 :: u32) \<noteq> 0
          then Some (ch_signal (channels fg ! who)) else None)) ?L"
      proof (cases "fixed_satellite cfg who = 0")
        case True
        with st(1) have "held_of cfg fg who = Some ?g" by (simp add: held_iff[OF inv i])
        from pool_drop[OF pl this] True show ?thesis by (simp add: avail_of_def)
      next
        case False
        then have "(held_of cfg fg)(who := None) = held_of cfg fg"
          by (auto simp: held_iff[OF inv i] fun_eq_iff)
        with False pl show ?thesis by (simp add: avail_of_def)
      qed
      show "acq_channels_count fg \<le> max_acq_channels fg" using slots by (simp add: slots_ok_def)
    qed (use at st in \<open>auto simp: sig_at_def mode_at_def avail_of_def\<close>)
    have eq: "on_tracking_lost who (fixed_satellite cfg who) fg =
        (if fixed_satellite cfg who = 0 then push_back_signal ?g ?fg1 else Some ?fg1)"
      using False vget_channel[OF ok i] len(3)
      by (simp add: on_tracking_lost_def set_state_def vput_def sig_at_def)
    have rel: "released who 0 fg ?fg1" by (simp add: released_def)
    show ?thesis
    proof (cases "fixed_satellite cfg who = 0")
      case True
      with inv1 have "fg_inv cfg sigs P {?g} ?fg1" by simp
      from push_back_ok[OF sup this] obtain fg3 where fg3: "push_back_signal ?g ?fg1 = Some fg3"
        "fg_inv cfg sigs P {} fg3" "channels fg3 = channels ?fg1" "channels_state fg3 = channels_state ?fg1"
        "max_acq_channels fg3 = max_acq_channels ?fg1" by blast
      from rel have "released who 0 fg fg3"
        unfolding released_def by (rule only_starts_cong) (simp_all add: fg3(3-5))
      with fg3(1,2) eq True show ?thesis by simp
    next
      case False
      with inv1 rel eq show ?thesis by simp
    qed
  qed
qed

section \<open>Dispatch\<close>

text \<open>A channel event fits: it reports the end of an acquisition of a channel that acquires, or a
  loss of lock of one that tracks.\<close>

definition action_fits :: "'d flowgraph \<Rightarrow> nat \<Rightarrow> u32 \<Rightarrow> bool" where
  "action_fits fg who what \<longleftrightarrow>
     (what = 0 \<and> state_at fg who = 2 \<and> (mode_at fg who = 0 \<or> mode_at fg who = 3)) \<or>
     (what = 1 \<and> state_at fg who = 2) \<or>
     (what = 2 \<and> state_at fg who = 3 \<and> (mode_at fg who = 0 \<or> mode_at fg who = 3))"

lemma apply_action_ok:
  assumes sup: "supplied cfg sigs P" and inv: "fg_inv cfg sigs P {} fg" and n: "length sigs \<le> 200"
    and i: "unat who < length sigs" and fits: "action_fits fg (unat who) what"
  shows "\<exists>fg'. apply_action cfg status who what fg = Some fg' \<and> fg_inv cfg sigs P {} fg' \<and>
    released (unat who) (if what = 1 then 3 else 0) fg fg'"
proof -
  have "who < 200" using i n by (simp add: word_less_nat_alt)
  with fits acquisition_failed_ok[OF sup inv i, of status] acquisition_success_ok[OF sup inv i, of status]
    tracking_lost_ok[OF sup inv i]
  show ?thesis by (auto simp: apply_action_def action_fits_def)
qed

lemma released_at:
  assumes "released who v fg fg'" "j < length (channels fg)" "length (channels_state fg) = length (channels fg)"
  shows "(state_at fg' j = (if j = who then v else state_at fg j) \<and> mode_at fg' j = mode_at fg j) \<or>
    (((if j = who then v else state_at fg j) = 0 \<or> (if j = who then v else state_at fg j) = 1)
      \<and> state_at fg' j = 2 \<and> mode_at fg' j = 1)"
  using assms by (auto simp: released_def only_starts_def state_at_def mode_at_def nth_list_update split: if_splits)

end
