(* ===== verification/Control_Thread.thy ===== *)
theory Control_Thread
  imports Flowgraph_Actions
begin

text \<open>
  The control thread (\<open>control_thread.cc\<close>): it takes the messages of the channels and of the
  telecommands from the control queue, one at a time, and applies them; when nothing arrives in
  time it starts pending acquisitions. Reading assistance files, clearing ephemerides in the PVT
  block and computing the visible satellites are recorded as calls; the list of visible
  satellites is a parameter.
\<close>

section \<open>Messages and state\<close>

record command_event =
  command_id :: "32 word"
  command_type :: "32 word"

definition command_event_make :: "32 word \<Rightarrow> 32 word \<Rightarrow> command_event" where
  "command_event_make c e = \<lparr> command_id = c, command_type = e \<rparr>"

datatype control_msg = Channel_msg channel_event | Command_msg command_event | Other_msg

datatype control_call = Clear_ephemeris | Read_assistance_from_XML | Get_visible_sats

record 'd control_thread =
  flowgraph :: "'d flowgraph"
  receiver_on_standby :: bool
  stop_flag :: bool
  restart_flag :: bool
  applied_actions :: u32
  processed_control_messages :: u32
  control_calls :: "control_call list"

text \<open>The part of the constructors and of \<open>init\<close> that concerns these members.\<close>

definition make_control_thread :: "'d flowgraph \<Rightarrow> 'd control_thread" where
  "make_control_thread fg = \<lparr> flowgraph = fg, receiver_on_standby = False, stop_flag = False,
     restart_flag = False, applied_actions = 0, processed_control_messages = 0, control_calls = [] \<rparr>"

definition control_call :: "control_call \<Rightarrow> 'd control_thread \<Rightarrow> 'd control_thread" where
  "control_call c ct = ct\<lparr> control_calls := control_calls ct @ [c] \<rparr>"

section \<open>Actions of the receiver\<close>

text \<open>In the warm start the satellites \<open>get_visible_sats\<close> returns are dropped, and the list that
  is prioritized is the empty one.\<close>

definition control_apply_action :: "(int \<times> gnss_satellite) list \<Rightarrow> u32 \<Rightarrow> 'd control_thread
    \<Rightarrow> 'd control_thread option" where
  "control_apply_action visible what ct0 =
    (let ct = ct0\<lparr> applied_actions := applied_actions ct0 + 1 \<rparr> in
     if what = 0 then Some (ct\<lparr> stop_flag := True \<rparr>)
     else if what = 1 then Some (ct\<lparr> stop_flag := True, restart_flag := True \<rparr>)
     else if what = 10 then Some (ct\<lparr> receiver_on_standby := True \<rparr>)
     else if what = 11 then Some ((control_call Clear_ephemeris ct)\<lparr> receiver_on_standby := False \<rparr>)
     else if what = 12 then
       do { let ct1 = control_call Get_visible_sats ct;
            fg \<leftarrow> priorize_satellites visible (flowgraph ct1);
            Some (ct1\<lparr> flowgraph := fg, receiver_on_standby := False \<rparr>) }
     else if what = 13 then
       do { let ct1 = control_call Get_visible_sats (control_call Read_assistance_from_XML
              (control_call Clear_ephemeris ct));
            fg \<leftarrow> priorize_satellites [] (flowgraph ct1);
            Some (ct1\<lparr> flowgraph := fg, receiver_on_standby := False \<rparr>) }
     else Some ct)"

section \<open>The dispatcher\<close>

definition with_flowgraph :: "('d flowgraph \<Rightarrow> 'd flowgraph option) \<Rightarrow> 'd control_thread \<Rightarrow> 'd control_thread option" where
  "with_flowgraph f ct = do { fg \<leftarrow> f (flowgraph ct); Some (ct\<lparr> flowgraph := fg \<rparr>) }"

definition event_dispatcher :: "fg_config \<Rightarrow> 'd status_map \<Rightarrow> (int \<times> gnss_satellite) list \<Rightarrow> bool
    \<Rightarrow> control_msg \<Rightarrow> 'd control_thread \<Rightarrow> 'd control_thread option" where
  "event_dispatcher cfg status visible valid_event msg ct0 =
    (if valid_event then
       (let ct = ct0\<lparr> processed_control_messages := processed_control_messages ct0 + 1 \<rparr> in
        case msg of
          Channel_msg e \<Rightarrow>
            if receiver_on_standby ct = False then
              with_flowgraph (apply_action cfg status (channel_id e) (event_type e)) ct
            else Some ct
        | Command_msg c \<Rightarrow>
            if command_id c = 200 then control_apply_action visible (command_type c) ct
            else do { ct1 \<leftarrow> (if command_id c = 300 then control_apply_action visible (command_type c) ct else Some ct);
                      with_flowgraph (apply_action cfg status (command_id c) (command_type c)) ct1 }
        | Other_msg \<Rightarrow> Some ct)
     else
       (if receiver_on_standby ct0 = False
        then with_flowgraph (acquisition_manager cfg status 0) ct0
        else Some ct0))"

text \<open>One round of the main loop of \<open>run\<close>: wait for a message, dispatch it.\<close>

definition control_round :: "fg_config \<Rightarrow> 'd status_map \<Rightarrow> (int \<times> gnss_satellite) list
    \<Rightarrow> 'd control_thread \<times> control_msg concurrent_queue
    \<Rightarrow> ('d control_thread \<times> control_msg concurrent_queue) option" where
  "control_round cfg status visible s = (case s of (ct, q) \<Rightarrow>
    (case cq_timed_wait_and_pop Other_msg q of (valid_event, msg, q') \<Rightarrow>
      do { ct' \<leftarrow> event_dispatcher cfg status visible valid_event msg ct; Some (ct', q') }))"

text \<open>The end of \<open>assist_GNSS\<close>, which runs after the flowgraph is started and before the main
  loop: standby, priority for the visible satellites, hot start, all directly on the flowgraph.\<close>

definition assist_visible :: "fg_config \<Rightarrow> 'd status_map \<Rightarrow> (int \<times> gnss_satellite) list \<Rightarrow> 'd control_thread
    \<Rightarrow> 'd control_thread option" where
  "assist_visible cfg status visible ct =
    do { ct1 \<leftarrow> with_flowgraph (apply_action cfg status 0 10) ct;
         ct2 \<leftarrow> with_flowgraph (priorize_satellites visible) ct1;
         with_flowgraph (apply_action cfg status 0 12) ct2 }"

section \<open>Telecommands\<close>

text \<open>The commands of \<open>tcp_cmd_interface.cc\<close> without arguments: the response and the queue. The
  flag says that the queue has been set.\<close>

definition send_command :: "32 word \<Rightarrow> 32 word \<Rightarrow> bool \<Rightarrow> control_msg concurrent_queue
    \<Rightarrow> string \<times> control_msg concurrent_queue" where
  "send_command who what connected q =
    (if connected then (''OK'' @ [CHR 0x0A], cq_push (Command_msg (command_event_make who what)) q)
     else (''ERROR'' @ [CHR 0x0A], q))"

definition tcp_reset :: "bool \<Rightarrow> control_msg concurrent_queue \<Rightarrow> string \<times> control_msg concurrent_queue" where
  "tcp_reset = send_command 200 1"

definition tcp_standby :: "bool \<Rightarrow> control_msg concurrent_queue \<Rightarrow> string \<times> control_msg concurrent_queue" where
  "tcp_standby = send_command 300 10"

definition tcp_coldstart :: "bool \<Rightarrow> control_msg concurrent_queue \<Rightarrow> string \<times> control_msg concurrent_queue" where
  "tcp_coldstart = send_command 300 11"

section \<open>The receiver as a transition system\<close>

text \<open>The signal processing blocks of a channel send messages to its state machine, whose events
  go to the control queue; telecommands are pushed; the control thread takes its rounds. The
  status of the channels and the visible satellites are arbitrary in every round.\<close>

type_synonym 'd system = "'d control_thread \<times> control_msg concurrent_queue"

definition block_message :: "nat \<Rightarrow> int \<Rightarrow> 'd system \<Rightarrow> 'd system option" where
  "block_message i m s = (case s of (ct, q) \<Rightarrow>
    do { ch \<leftarrow> vget (channels (flowgraph ct)) i;
         (ok, f, evs) \<leftarrow> msg_handler_channel_events (ch_repeat ch) m (ch_fsm ch);
         let fg = (flowgraph ct)\<lparr> channels := (channels (flowgraph ct))[i := ch\<lparr> ch_fsm := f \<rparr>] \<rparr>;
         Some (ct\<lparr> flowgraph := fg \<rparr>, fold (\<lambda>e. cq_push (Channel_msg e)) evs q) })"

inductive system_step :: "fg_config \<Rightarrow> (command_event \<Rightarrow> bool) \<Rightarrow> 'd system \<Rightarrow> 'd system \<Rightarrow> bool"
  for cfg allowed where
  block_msg: "i < length (channels (flowgraph (fst s))) \<Longrightarrow> block_message i m s = Some s'
    \<Longrightarrow> system_step cfg allowed s s'"
| telecommand: "allowed c \<Longrightarrow> system_step cfg allowed (ct, q) (ct, cq_push (Command_msg c) q)"
| round: "control_round cfg status visible s = Some s' \<Longrightarrow> system_step cfg allowed s s'"

inductive system_reachable :: "fg_config \<Rightarrow> (command_event \<Rightarrow> bool) \<Rightarrow> 'd system \<Rightarrow> 'd system \<Rightarrow> bool"
  for cfg allowed s0 where
  start: "system_reachable cfg allowed s0 s0"
| step: "system_reachable cfg allowed s0 s \<Longrightarrow> system_step cfg allowed s s' \<Longrightarrow> system_reachable cfg allowed s0 s'"

text \<open>Commands that neither put the receiver on standby nor reorder the lists.\<close>

definition plain_command :: "command_event \<Rightarrow> bool" where
  "plain_command c \<longleftrightarrow> (command_id c = 200 \<and> command_type c \<noteq> 10 \<and> command_type c \<noteq> 12) \<or>
     (command_id c = 300 \<and> (command_type c = 11 \<or> command_type c = 13))"

section \<open>The invariant of the system\<close>

text \<open>The events of channel \<open>i\<close> that wait in the queue.\<close>

fun pending :: "nat \<Rightarrow> control_msg list \<Rightarrow> 32 word list" where
  "pending i [] = []"
| "pending i (Channel_msg e # q) = (if channel_id e = of_nat i then event_type e # pending i q else pending i q)"
| "pending i (Command_msg c # q) = pending i q"
| "pending i (Other_msg # q) = pending i q"

lemma pending_append [simp]: "pending i (p @ q) = pending i p @ pending i q"
  by (induction i p rule: pending.induct) auto

text \<open>State of the flowgraph, state of the state machine, and what is between them.\<close>

definition link :: "u32 \<Rightarrow> u32 \<Rightarrow> 32 word list \<Rightarrow> bool" where
  "link c m p \<longleftrightarrow>
     ((c = 0 \<or> c = 1) \<and> (m = 0 \<or> m = 3) \<and> p = []) \<or>
     (c = 2 \<and> ((m = 1 \<and> p = []) \<or> (m = 2 \<and> p = [1]) \<or> (m = 0 \<and> p = [1, 2]) \<or> (m = 3 \<and> p = [0]))) \<or>
     (c = 3 \<and> ((m = 2 \<and> p = []) \<or> (m = 0 \<and> p = [2])))"

definition msg_ok :: "nat \<Rightarrow> control_msg \<Rightarrow> bool" where
  "msg_ok n msg = (case msg of Channel_msg e \<Rightarrow> unat (channel_id e) < n
     | Command_msg c \<Rightarrow> plain_command c | Other_msg \<Rightarrow> True)"

definition system_inv :: "fg_config \<Rightarrow> string list \<Rightarrow> (string \<Rightarrow> gnss_signal set) \<Rightarrow> 'd system \<Rightarrow> bool" where
  "system_inv cfg sigs P s = (case s of (ct, q) \<Rightarrow>
     fg_inv cfg sigs P {} (flowgraph ct) \<and> receiver_on_standby ct = False \<and>
     (\<forall>msg \<in> set q. msg_ok (length sigs) msg) \<and>
     (\<forall>i < length sigs. link (state_at (flowgraph ct) i) (mode_at (flowgraph ct) i) (pending i q)))"

end
