(* ===== verification/Control_Safety.thy ===== *)
theory Control_Safety
  imports Control_Thread
begin

text \<open>
  The system invariant is preserved by every step of the receiver without standby and hot start
  commands, and what follows from it: no exception, no satellite searched twice, no satellite
  lost, the bound on simultaneous acquisitions, agreement of flowgraph and channels.
\<close>

section \<open>Messages of the blocks\<close>

lemma link_idle: "link c m p \<Longrightarrow> c = 0 \<or> c = 1 \<Longrightarrow> p = []"
  by (auto simp: link_def)

lemma link_valid: "link c 1 p \<Longrightarrow> link c 2 (p @ [1])"
  by (simp add: link_def)

lemma link_failed: "link c 1 p \<Longrightarrow> link c 3 (p @ [0])"
  by (simp add: link_def)

lemma link_lost: "link c 2 p \<Longrightarrow> link c 0 (p @ [2])"
  by (auto simp: link_def)

lemma link_start: "link c m p \<Longrightarrow> (c' = c \<and> m' = m) \<or> ((c = 0 \<or> c = 1) \<and> c' = 2 \<and> m' = 1) \<Longrightarrow> link c' m' p"
proof (erule disjE, simp)
  assume "link c m p" "(c = 0 \<or> c = 1) \<and> c' = 2 \<and> m' = 1"
  then have "p = []" "c' = 2" "m' = 1" using link_idle[of c m p] by blast+
  then show "link c' m' p" by (simp add: link_def)
qed

lemma handler_ok:
  assumes "fsm_ready f"
  shows "\<exists>ok f' evs. msg_handler_channel_events rep m f = Some (ok, f', evs) \<and> fsm_ready f' \<and>
    fsm_channel f' = fsm_channel f \<and>
    ((fsm_state f' = fsm_state f \<and> evs = []) \<or>
     (fsm_state f = 1 \<and> fsm_state f' = 2 \<and> evs = [channel_event_make (fsm_channel f) 1]) \<or>
     (fsm_state f = 1 \<and> fsm_state f' = 3 \<and> evs = [channel_event_make (fsm_channel f) 0]) \<or>
     (fsm_state f = 2 \<and> fsm_state f' = 0 \<and> evs = [channel_event_make (fsm_channel f) 2]))"
proof -
  have d: "fsm_dispatch e f = Some (fsm_apply e f)" for e using fsm_dispatch_table[OF assms] .
  have "msg_handler_channel_events rep m f = Some (if m = 1 then fsm_apply Valid_acquisition f
      else if m = 2 then fsm_apply (if rep then Failed_acquisition_repeat else Failed_acquisition_no_repeat) f
      else if m = 3 then fsm_apply Failed_tracking f else (False, f, []))"
    using d[of Valid_acquisition] d[of Failed_acquisition_repeat] d[of Failed_acquisition_no_repeat]
      d[of Failed_tracking] by (simp add: msg_handler_channel_events_def)
  with assms show ?thesis by (auto simp: fsm_apply_def fsm_ready_def)
qed

lemma of_nat_channel: "i < 200 \<Longrightarrow> j < 200 \<Longrightarrow> (of_nat i :: u32) = of_nat j \<longleftrightarrow> i = j"
  by (simp add: word_unat_eq_iff unat_of_nat)

lemma unat_channel: "i < 200 \<Longrightarrow> unat (of_nat i :: u32) = i"
  by (simp add: unat_of_nat)

lemma fg_inv_fsm:
  assumes inv: "fg_inv cfg sigs P L fg" and i: "i < length sigs" and f: "fsm_ready f"
    "fsm_channel f = of_nat i" and m: "state_at fg i = 0 \<or> state_at fg i = 1 \<Longrightarrow> fsm_state f = 0 \<or> fsm_state f = 3"
  shows "fg_inv cfg sigs P L (fg\<lparr> channels := (channels fg)[i := (channels fg ! i)\<lparr> ch_fsm := f \<rparr>] \<rparr>)"
proof -
  note len = fg_inv_lengths[OF inv i]
  have ok: "channels_ok sigs fg" using inv by (simp add: fg_inv_def)
  note at = channels_ok_at[OF ok i]
  let ?c = "(channels fg ! i)\<lparr> ch_fsm := f \<rparr>"
  have "fg_inv cfg sigs P L (upd i ?c (state_at fg i) (acq_channels_count fg) (available_signals_map fg) fg)"
  proof (rule fg_inv_upd[OF inv i])
    have "(held_of cfg fg)(i := if fixed_satellite cfg i = 0 \<and> state_at fg i \<noteq> 0 then Some (ch_signal ?c) else None)
        = held_of cfg fg"
      by (auto simp: held_iff[OF inv i] fun_eq_iff sig_at_def)
    then show "pool P (map_of (available_signals_map fg)) ((held_of cfg fg)(i := if fixed_satellite cfg i = 0
        \<and> state_at fg i \<noteq> 0 then Some (ch_signal ?c) else None)) L"
      using inv by (simp add: fg_inv_def signals_ok_def avail_of_def)
    show "acq_channels_count fg \<le> max_acq_channels fg" using inv by (simp add: fg_inv_def slots_ok_def)
  qed (use at f m in \<open>auto simp: sig_at_def avail_of_def ch_ready_def ch_number_def ch_mode_def\<close>)
  moreover have "fg\<lparr> channels := (channels fg)[i := ?c] \<rparr> =
      upd i ?c (state_at fg i) (acq_channels_count fg) (available_signals_map fg) fg"
    by (rule upd_eqI) (simp_all add: state_at_def)
  ultimately show ?thesis by simp
qed

lemma fold_push: "fold (\<lambda>e. cq_push (Channel_msg e)) evs q = q @ map Channel_msg evs"
  by (induction evs arbitrary: q) (simp_all add: cq_push_def)

lemma block_message_ok:
  assumes inv: "system_inv cfg sigs P (ct, q)" and i: "i < length sigs" and n: "length sigs \<le> 200"
  shows "\<exists>s'. block_message i m (ct, q) = Some s' \<and> system_inv cfg sigs P s'"
proof -
  let ?fg = "flowgraph ct" and ?ch = "channels (flowgraph ct) ! i"
  have fi: "fg_inv cfg sigs P {} ?fg" and l: "link (state_at ?fg i) (mode_at ?fg i) (pending i q)"
    using inv i by (simp_all add: system_inv_def)
  have ok: "channels_ok sigs ?fg" using fi by (simp add: fg_inv_def)
  note at = channels_ok_at[OF ok i] and len = fg_inv_lengths[OF fi i]
  have ready: "fsm_ready (ch_fsm ?ch)" and num: "fsm_channel (ch_fsm ?ch) = of_nat i"
    using at(2,3) by (simp_all add: ch_ready_def ch_number_def)
  from handler_ok[OF ready, of "ch_repeat ?ch" m] obtain r f evs where
    h: "msg_handler_channel_events (ch_repeat ?ch) m (ch_fsm ?ch) = Some (r, f, evs)"
    and f: "fsm_ready f" "fsm_channel f = of_nat i"
    and tr: "(fsm_state f = mode_at ?fg i \<and> evs = []) \<or>
     (mode_at ?fg i = 1 \<and> fsm_state f = 2 \<and> evs = [channel_event_make (of_nat i) 1]) \<or>
     (mode_at ?fg i = 1 \<and> fsm_state f = 3 \<and> evs = [channel_event_make (of_nat i) 0]) \<or>
     (mode_at ?fg i = 2 \<and> fsm_state f = 0 \<and> evs = [channel_event_make (of_nat i) 2])"
    using num by (auto simp: mode_at_def ch_mode_def)
  let ?fg' = "?fg\<lparr> channels := (channels ?fg)[i := ?ch\<lparr> ch_fsm := f \<rparr>] \<rparr>"
  let ?q' = "q @ map Channel_msg evs"
  have "fg_inv cfg sigs P {} ?fg'"
    using at(5) tr by (intro fg_inv_fsm[OF fi i f]) auto
  moreover have "\<forall>msg \<in> set ?q'. msg_ok (length sigs) msg"
    using inv tr i n by (auto simp: system_inv_def msg_ok_def channel_event_make_def unat_channel)
  moreover have "link (state_at ?fg' j) (mode_at ?fg' j) (pending j ?q')" if j: "j < length sigs" for j
  proof (cases "j = i")
    case True
    have "mode_at ?fg' i = fsm_state f" "state_at ?fg' i = state_at ?fg i"
      using len by (simp_all add: mode_at_def ch_mode_def state_at_def)
    with True l tr show ?thesis
      by (elim disjE conjE) (simp_all add: channel_event_make_def link_valid link_failed link_lost)
  next
    case False
    then have "pending j (map Channel_msg evs) = []"
      using tr i j n by (auto simp: channel_event_make_def of_nat_channel)
    moreover have "mode_at ?fg' j = mode_at ?fg j" "state_at ?fg' j = state_at ?fg j"
      using False by (simp_all add: mode_at_def state_at_def)
    ultimately show ?thesis using inv j by (simp add: system_inv_def)
  qed
  ultimately have "system_inv cfg sigs P (ct\<lparr> flowgraph := ?fg' \<rparr>, ?q')"
    using inv by (simp add: system_inv_def)
  moreover have "block_message i m (ct, q) = Some (ct\<lparr> flowgraph := ?fg' \<rparr>, ?q')"
    using vget_channel[OF ok i] h by (simp add: block_message_def fold_push)
  ultimately show ?thesis by blast
qed

section \<open>Rounds of the control thread\<close>

lemma link_only_starts:
  assumes "only_starts fg fg'" "j < length (channels fg)" "link (state_at fg j) (mode_at fg j) p"
  shows "link (state_at fg' j) (mode_at fg' j) p"
  using assms(1,2) by (intro link_start[OF assms(3)]) (auto simp: only_starts_def)

lemma system_inv_same:
  assumes "system_inv cfg sigs P (ct, q)" "flowgraph ct' = flowgraph ct"
    "receiver_on_standby ct' = receiver_on_standby ct"
  shows "system_inv cfg sigs P (ct', q)"
  using assms by (simp add: system_inv_def)

lemma idle_round_ok:
  assumes sup: "supplied cfg sigs P" and inv: "system_inv cfg sigs P (ct, q)"
  shows "\<exists>ct'. event_dispatcher cfg status visible False msg ct = Some ct' \<and> system_inv cfg sigs P (ct', q)"
proof -
  have fi: "fg_inv cfg sigs P {} (flowgraph ct)" and sb: "receiver_on_standby ct = False"
    using inv by (simp_all add: system_inv_def)
  from acquisition_manager_ok[OF sup fi, of status 0] obtain fg' where
    fg': "acquisition_manager cfg status 0 (flowgraph ct) = Some fg'" "fg_inv cfg sigs P {} fg'"
      "only_starts (flowgraph ct) fg'" by auto
  have "length (channels (flowgraph ct)) = length sigs"
    using fi by (simp add: fg_inv_def channels_ok_def)
  with inv fg'(2,3) have "system_inv cfg sigs P (ct\<lparr> flowgraph := fg' \<rparr>, q)"
    by (auto simp: system_inv_def intro: link_only_starts)
  with fg'(1) sb show ?thesis by (simp add: event_dispatcher_def with_flowgraph_def)
qed

lemma priorize_nothing [simp]: "priorize_satellites [] fg = Some fg"
  by (simp add: priorize_satellites_def)

lemma command_round_ok:
  assumes inv: "system_inv cfg sigs P (ct, Command_msg c # q)"
  shows "\<exists>ct'. event_dispatcher cfg status visible True (Command_msg c) ct = Some ct' \<and>
    system_inv cfg sigs P (ct', q)"
proof -
  have pc: "plain_command c" and inv': "system_inv cfg sigs P (ct, q)"
    and sb: "receiver_on_standby ct = False"
    using inv by (simp_all add: system_inv_def msg_ok_def)
  let ?ct = "ct\<lparr> processed_control_messages := processed_control_messages ct + 1 \<rparr>"
  have act: "\<exists>ct'. control_apply_action visible w ?ct = Some ct' \<and> flowgraph ct' = flowgraph ct \<and>
      receiver_on_standby ct' = False" if "w \<noteq> 10" "w \<noteq> 12" for w
    using that sb by (auto simp: control_apply_action_def Let_def control_call_def)
  show ?thesis
  proof (cases "command_id c = 200")
    case True
    with pc act[of "command_type c"] obtain ct' where ct': "control_apply_action visible (command_type c) ?ct = Some ct'"
      "flowgraph ct' = flowgraph ct" "receiver_on_standby ct' = False"
      by (auto simp: plain_command_def)
    have "system_inv cfg sigs P (ct', q)" using inv' ct'(2,3) sb by (intro system_inv_same[OF inv']) simp_all
    with ct'(1) True show ?thesis by (simp add: event_dispatcher_def Let_def)
  next
    case False
    with pc have c: "command_id c = 300" "command_type c = 11 \<or> command_type c = 13"
      by (auto simp: plain_command_def)
    with act[of "command_type c"] obtain ct' where ct': "control_apply_action visible (command_type c) ?ct = Some ct'"
      "flowgraph ct' = flowgraph ct" "receiver_on_standby ct' = False" by auto
    have "apply_action cfg status (command_id c) (command_type c) (flowgraph ct') = Some (flowgraph ct')"
      using c by (auto simp: apply_action_def)
    moreover have "system_inv cfg sigs P (ct', q)"
      using inv' ct'(2,3) sb by (intro system_inv_same[OF inv']) simp_all
    ultimately show ?thesis using ct'(1) c(1) by (simp add: event_dispatcher_def Let_def with_flowgraph_def)
  qed
qed

lemma link_fits:
  assumes "link (state_at fg i) (mode_at fg i) (t # p)"
  shows "action_fits fg i t"
  using assms by (auto simp: link_def action_fits_def)

lemma link_next:
  assumes "link c m (t # p)" "v = (if t = 1 then 3 else 0)"
    "(c' = v \<and> m' = m) \<or> ((v = 0 \<or> v = 1) \<and> c' = 2 \<and> m' = 1)"
  shows "link c' m' p"
  using assms by (auto simp: link_def)

lemma channel_round_ok:
  assumes sup: "supplied cfg sigs P" and inv: "system_inv cfg sigs P (ct, Channel_msg e # q)"
    and n: "length sigs \<le> 200"
  shows "\<exists>ct'. event_dispatcher cfg status visible True (Channel_msg e) ct = Some ct' \<and>
    system_inv cfg sigs P (ct', q)"
proof -
  let ?i = "unat (channel_id e)" and ?fg = "flowgraph ct"
  have fi: "fg_inv cfg sigs P {} ?fg" and sb: "receiver_on_standby ct = False"
    and i: "?i < length sigs" using inv by (simp_all add: system_inv_def msg_ok_def)
  have p: "pending ?i (Channel_msg e # q) = event_type e # pending ?i q" by simp
  have li: "link (state_at ?fg ?i) (mode_at ?fg ?i) (event_type e # pending ?i q)"
    using inv i p unfolding system_inv_def by (metis (no_types, lifting) case_prod_conv)
  from apply_action_ok[OF sup fi n i link_fits[OF li], of status] obtain fg' where
    fg': "apply_action cfg status (channel_id e) (event_type e) ?fg = Some fg'" "fg_inv cfg sigs P {} fg'"
      "released ?i (if event_type e = 1 then 3 else 0) ?fg fg'" by blast
  have len: "length (channels ?fg) = length sigs" "length (channels_state ?fg) = length (channels ?fg)"
    using fi by (simp_all add: fg_inv_def channels_ok_def)
  have "link (state_at fg' j) (mode_at fg' j) (pending j q)" if j: "j < length sigs" for j
  proof -
    have jl: "j < length (channels ?fg)" using j len by simp
    note rel = released_at[OF fg'(3) jl len(2)]
    show ?thesis
    proof (cases "j = ?i")
      case True
      with rel show ?thesis by (intro link_next[OF li[folded True] refl]) auto
    next
      case False
      then have "channel_id e \<noteq> of_nat j"
        using j i n by (metis unat_channel order_less_le_trans)
      then have "link (state_at ?fg j) (mode_at ?fg j) (pending j q)"
        using inv j by (auto simp: system_inv_def)
      then show ?thesis using rel False by (rule_tac link_start) simp_all
    qed
  qed
  with inv fg'(2) have "system_inv cfg sigs P (ct\<lparr> processed_control_messages := processed_control_messages ct + 1,
      flowgraph := fg' \<rparr>, q)"
    by (simp add: system_inv_def)
  moreover have "event_dispatcher cfg status visible True (Channel_msg e) ct =
      Some (ct\<lparr> processed_control_messages := processed_control_messages ct + 1, flowgraph := fg' \<rparr>)"
    using fg'(1) sb by (simp add: event_dispatcher_def Let_def with_flowgraph_def)
  ultimately show ?thesis by simp
qed

lemma control_round_ok:
  assumes sup: "supplied cfg sigs P" and inv: "system_inv cfg sigs P s" and n: "length sigs \<le> 200"
  shows "\<exists>s'. control_round cfg status visible s = Some s' \<and> system_inv cfg sigs P s'"
proof -
  obtain ct q where s: "s = (ct, q)" by (cases s)
  show ?thesis
  proof (cases q)
    case Nil
    with idle_round_ok[OF sup inv[unfolded s], of status visible Other_msg] s show ?thesis
      by (auto simp: control_round_def cq_timed_wait_and_pop_def)
  next
    case (Cons msg q')
    have "\<exists>ct'. event_dispatcher cfg status visible True msg ct = Some ct' \<and> system_inv cfg sigs P (ct', q')"
    proof (cases msg)
      case (Channel_msg e)
      with channel_round_ok[OF sup _ n] inv s Cons show ?thesis by simp
    next
      case (Command_msg c)
      with command_round_ok inv s Cons show ?thesis by simp
    next
      case Other_msg
      with inv s Cons show ?thesis by (simp add: event_dispatcher_def system_inv_def)
    qed
    with s Cons show ?thesis by (auto simp: control_round_def cq_timed_wait_and_pop_def)
  qed
qed

lemma system_step_inv:
  assumes sup: "supplied cfg sigs P" and n: "length sigs \<le> 200"
    and st: "system_step cfg plain_command s s'" and inv: "system_inv cfg sigs P s"
  shows "system_inv cfg sigs P s'"
  using st
proof cases
  case (block_msg i m)
  obtain ct q where s: "s = (ct, q)" by (cases s)
  have "i < length sigs" using block_msg(1) inv s by (simp add: system_inv_def fg_inv_def channels_ok_def)
  from block_message_ok[OF inv[unfolded s] this n, of m] block_msg(2) s show ?thesis by force
next
  case (telecommand c ct q)
  with inv show ?thesis by (auto simp: system_inv_def cq_push_def msg_ok_def)
next
  case (round status visible)
  with control_round_ok[OF sup inv n, of status visible] show ?thesis by simp
qed

lemma system_reachable_inv:
  assumes "system_reachable cfg plain_command s0 s" "supplied cfg sigs P" "length sigs \<le> 200"
    "system_inv cfg sigs P s0"
  shows "system_inv cfg sigs P s"
  using assms by (induction rule: system_reachable.induct) (auto intro: system_step_inv)

end
