(* ===== verification/Flowgraph_Init.thy ===== *)
theory Flowgraph_Init
  imports Control_Safety
begin

text \<open>
  The start of the receiver establishes the invariant: the lists of signals, the assignment of
  satellites and the first acquisitions, for a configuration without fixed satellites.
\<close>

section \<open>The lists of signals\<close>

lemma keys_add_signals: "dom (map_of (add_signals sys str ps avail)) = insert str (dom (map_of avail))"
  by (simp add: add_signals_def map_of_um_assign)

lemma signal_fold_keys:
  assumes "foldM (list_signal cfg prn_map) xs a = Some b"
  shows "dom (map_of a) \<subseteq> dom (map_of b) \<and> (\<forall>str sys pretty. (str, sys, pretty) \<in> set xs \<longrightarrow>
    channel_count cfg str > 0 \<longrightarrow> str \<in> dom (map_of b))"
  using assms
proof (induction xs arbitrary: a)
  case Nil
  then show ?case by simp
next
  case (Cons x xs)
  obtain str sys pretty where x: "x = (str, sys, pretty)" by (cases x)
  from Cons.prems obtain a' where a': "list_signal cfg prn_map x a = Some a'"
    "foldM (list_signal cfg prn_map) xs a' = Some b" by (auto simp: bind_eq_Some_conv)
  have "dom (map_of a) \<subseteq> dom (map_of a') \<and> (channel_count cfg str > 0 \<longrightarrow> str \<in> dom (map_of a'))"
  proof (cases "channel_count cfg str > 0")
    case True
    with a'(1) x obtain ps where "a' = add_signals sys str ps a" by (auto simp: bind_eq_Some_conv)
    then show ?thesis using keys_add_signals[of sys str ps a] by blast
  next
    case False
    with a'(1) x show ?thesis by simp
  qed
  with Cons.IH[OF a'(2)] show ?case unfolding x list.set insert_iff prod.inject by blast
qed

lemma factory_mapped: "s \<in> set factory_signals \<Longrightarrow> s \<in> fst ` set signal_mapping"
proof -
  have "list_all (\<lambda>s. s \<in> fst ` set signal_mapping) factory_signals" by code_simp
  then show "s \<in> set factory_signals \<Longrightarrow> s \<in> fst ` set signal_mapping" by (simp add: list_all_iff)
qed

lemma signals_list_keys:
  assumes "set_signals_list cfg [] = Some avail" "s \<in> set factory_signals" "channel_count cfg s > 0"
  shows "map_of avail s \<noteq> None"
proof -
  obtain sys pretty where m: "(s, sys, pretty) \<in> set signal_mapping"
    using factory_mapped[OF assms(2)] by force
  from assms(1) obtain prn_map avail1 where f: "foldM (list_signal cfg prn_map) signal_mapping [] = Some avail1"
    and a: "avail = avail1 \<or> (\<exists>ps. avail = add_signals ''SBAS'' ''1C'' ps avail1)"
    unfolding set_signals_list_def bind_eq_Some_conv by (auto simp: bind_eq_Some_conv split: if_splits)
  from signal_fold_keys[OF f] m assms(3) have "s \<in> dom (map_of avail1)" by blast
  with a have "s \<in> dom (map_of avail)" using keys_add_signals[of "''SBAS''" "''1C''" _ avail1] by auto
  then show ?thesis by auto
qed

section \<open>Channels\<close>

lemma count_channel_signals:
  "count_list (concat (map (\<lambda>s. replicate (c s) s) names)) s = (if s \<in> set names then c s * count_list names s else 0)"
proof (induction names)
  case Nil
  show ?case by simp
next
  case (Cons a names)
  have "count_list (replicate k a) s = (if a = s then k else 0)" for k by (induction k) auto
  with Cons show ?case by (auto simp: algebra_simps)
qed

lemma card_positions: "card {i. i < length xs \<and> xs ! i = s} = count_list xs s"
proof -
  have "length (filter (\<lambda>x. x = s) xs) = card {i. i < length xs \<and> xs ! i = s}"
    by (rule length_filter_conv_card)
  moreover have "length (filter (\<lambda>x. x = s) xs) = count_list xs s" by (induction xs) auto
  ultimately show ?thesis by simp
qed

lemma factory_distinct: "distinct factory_signals" "[] \<notin> set factory_signals"
  by (simp_all add: factory_signals_def)

lemma count_list_distinct: "distinct xs \<Longrightarrow> s \<in> set xs \<Longrightarrow> count_list xs s = 1"
  by (induction xs) (auto simp: count_list_0_iff)

lemma factory_count: "s \<in> set factory_signals \<Longrightarrow> count_list factory_signals s = 1"
  using factory_distinct(1) by (rule count_list_distinct)

lemma set_channel_signals: "set (channel_signals cfg) = {s \<in> set factory_signals. channel_count cfg s > 0}"
  by (auto simp: channel_signals_def)

lemma free_channels_count:
  assumes "\<forall>i < length (channel_signals cfg). fixed_satellite cfg i = 0" "s \<in> set (channel_signals cfg)"
  shows "card (free_channels cfg (channel_signals cfg) s) = channel_count cfg s"
proof -
  have "free_channels cfg (channel_signals cfg) s =
      {i. i < length (channel_signals cfg) \<and> channel_signals cfg ! i = s}"
    using assms(1) by (auto simp: free_channels_def)
  moreover have "count_list factory_signals s = 1"
    using assms(2) by (simp add: set_channel_signals factory_count)
  ultimately show ?thesis using assms(2)
    by (simp add: card_positions channel_signals_def count_channel_signals set_channel_signals)
qed

lemma GetChannels_nth:
  assumes "i < length (channel_signals cfg)"
  shows "(GetChannels cfg :: 'd channel list) ! i =
    make_channel (of_nat i) (channel_signals cfg ! i) (repeat_satellite cfg (channel_signals cfg ! i) i) False"
  using assms by (simp add: GetChannels_def nth_enumerate_eq)

lemma length_GetChannels [simp]: "length (GetChannels cfg) = length (channel_signals cfg)"
  by (simp add: GetChannels_def)

lemma make_channel_fields:
  "ch_signal (make_channel c s r False) = signal_of_str s" "ch_ready (make_channel c s r False)"
  "ch_mode (make_channel c s r False) = 0" "ch_number (make_channel c s r False) = c"
  by (simp_all add: make_channel_def ch_ready_def ch_mode_def ch_number_def fsm_ready_def fsm_set_queue_def
      fsm_set_channel_def fsm_set_telemetry_def fsm_set_tracking_def fsm_set_acquisition_def channel_fsm_default_def)

section \<open>The check of the number of channels\<close>

lemma proper_list_length:
  assumes "distinct l" "\<forall>g \<in> set l. proper_signal s g"
  shows "length l < 2 ^ 35"
proof -
  let ?f = "\<lambda>(sys, p :: u32). make_signal (make_satellite sys p) s"
  have "set l \<subseteq> ?f ` (set system_set \<times> UNIV)"
  proof
    fix g assume "g \<in> set l"
    with assms(2) obtain sys p where g: "prn_defined sys p" "g = make_signal (make_satellite sys p) s"
      by (auto simp: proper_signal_def)
    then have "sys \<in> set system_set" by (simp add: prn_defined_system)
    with g(2) show "g \<in> ?f ` (set system_set \<times> UNIV)" by force
  qed
  then have "card (set l) \<le> card (?f ` (set system_set \<times> UNIV))" by (intro card_mono) auto
  also have "\<dots> \<le> card (set system_set \<times> (UNIV :: u32 set))" by (intro card_image_le) auto
  also have "\<dots> = card (set system_set) * 2 ^ 32" by (simp add: card_cartesian_product card_word)
  also have "card (set system_set) \<le> 6"
    using card_length[of system_set] by (simp add: system_set_def)
  finally have "card (set l) \<le> 6 * 2 ^ 32" by simp
  then show ?thesis using distinct_card[OF assms(1)] by simp
qed

lemma check_passed:
  assumes "too_many_channels cfg (s, l) = Some False" "l \<noteq> []" "length l < 2 ^ 35" "channel_count cfg s < 2 ^ 63"
    "\<forall>pretty. map_of signal_mapping s \<noteq> Some (''Glonass'', pretty)"
  shows "channel_count cfg s < length l"
proof -
  from assms(1,5) have "\<not> (of_nat (channel_count cfg s) :: u64) > of_nat (length l) - 1"
    by (auto simp: too_many_channels_def bind_eq_Some_conv Let_def split: if_splits)
  moreover have "of_nat (length l) - 1 = (of_nat (length l - 1) :: u64)"
    using assms(2) by (cases l) simp_all
  ultimately have "(of_nat (channel_count cfg s) :: u64) \<le> of_nat (length l - 1)" by simp
  then have "channel_count cfg s \<le> length l - 1"
    using assms(3,4) by (simp add: word_le_nat_alt unat_of_nat)
  with assms(2) show ?thesis by (cases l) auto
qed


section \<open>Assignment\<close>

text \<open>After the first \<open>k\<close> channels have their satellite.\<close>

definition assigned :: "string list \<Rightarrow> (string \<Rightarrow> gnss_signal set) \<Rightarrow> 'd flowgraph \<Rightarrow> nat \<Rightarrow> 'd flowgraph \<Rightarrow> bool" where
  "assigned sigs P fg0 k fg \<longleftrightarrow> length (channels fg) = length sigs \<and>
     channels_state fg = channels_state fg0 \<and> acq_channels_count fg = acq_channels_count fg0 \<and>
     max_acq_channels fg = max_acq_channels fg0 \<and>
     (\<forall>i < length sigs. gs_signal (sig_at fg i) = sigs ! i \<and> ch_ready (channels fg ! i) \<and>
        ch_number (channels fg ! i) = of_nat i \<and> mode_at fg i = 0) \<and>
     pool P (avail_of fg) (\<lambda>i. if i < k then Some (sig_at fg i) else None) {} \<and>
     (\<forall>s \<in> set sigs. avail_of fg s \<noteq> None)"

lemma assign_channel_ok:
  assumes sup: "supplied cfg sigs P" and inv: "assigned sigs P fg0 k fg" and k: "k < length sigs"
    and free: "\<forall>i < length sigs. fixed_satellite cfg i = 0"
  shows "\<exists>fg'. assign_channel cfg status k fg = Some fg' \<and> assigned sigs P fg0 (Suc k) fg'"
proof -
  let ?H = "\<lambda>i. if i < k then Some (sig_at fg i) else None" and ?s = "sigs ! k"
  let ?A = "available_signals_map fg" and ?F = "free_channels cfg sigs (sigs ! k)"
  have pl: "pool P (avail_of fg) ?H {}" and len: "length (channels fg) = length sigs"
    and at: "gs_signal (sig_at fg k) = ?s" "ch_ready (channels fg ! k)"
      "ch_number (channels fg ! k) = of_nat k" "mode_at fg k = 0"
    using inv k by (simp_all add: assigned_def)
  have pp: "proper_pool P" using sup by (simp add: supplied_def)
  have s: "?s \<in> set sigs" using k by simp
  then obtain l where l: "avail_of fg ?s = Some l" using inv by (auto simp: assigned_def)
  have "l \<noteq> []"
  proof (rule pool_available[OF pl l, of "?F - {k}"])
    show "finite (?F - {k})" by (simp add: free_channels_def)
    show "i \<in> ?F - {k}" if "?H i = Some g" "gs_signal g = ?s" for i g
      using that inv k free by (auto simp: free_channels_def assigned_def split: if_splits)
    have "card (?F - {k}) \<le> card ?F" by (intro card_mono) (auto simp: free_channels_def)
    then show "card (?F - {k}) + card {} < card (P ?s)" using sup s by (auto simp: supplied_def)
  qed simp
  with l search_next_signal_split[of ?A ?s l cfg status] obtain r xs ys where
    r: "search_next_signal cfg status ?s ?A = Some (r, um_assign ?s (xs @ ys) ?A)" "l = xs @ result r # ys"
    by (auto simp: avail_of_def)
  let ?g = "result r" and ?A1 = "um_assign ?s (xs @ ys) ?A"
  have "pool P ((avail_of fg)(?s \<mapsto> xs @ ys)) ?H (insert ?g {})"
    using pl pp l r(2) by (intro pool_take) auto
  then have "pool P ((avail_of fg)(?s \<mapsto> xs @ ys)) (?H(k \<mapsto> ?g)) (insert ?g {} - {?g})"
    by (rule pool_hold) simp_all
  then have p1: "pool P (map_of ?A1) (?H(k \<mapsto> ?g)) {}" by (simp add: map_of_um_assign avail_of_def)
  have "?g \<in> P ?s" using pool_list[OF pl l] r(2) by auto
  then have gp: "proper_signal ?s ?g" using pp by (auto simp: proper_pool_def)
  note set = settable[OF sup k gp]
  from cc.sel_ok[OF set(2,3), of "channels fg ! k"] at obtain c1 where
    c1: "set_signal ?g (channels fg ! k) = Some c1" "ch_signal c1 = ?g" "ch_mode c1 = 0"
      "ch_ready c1" "ch_number c1 = of_nat k" by (auto simp: mode_at_def)
  let ?fg' = "fg\<lparr> available_signals_map := ?A1, channels := (channels fg)[k := c1] \<rparr>"
  have "assign_channel cfg status k fg = Some ?fg'"
    using k len at(1) free r(1) c1(1)
    by (simp add: assign_channel_def vget_def vput_def sig_at_def)
  moreover have "(\<lambda>i. if i < Suc k then Some (sig_at ?fg' i) else None) = ?H(k \<mapsto> ?g)"
    using k len c1(2) by (auto simp: fun_eq_iff sig_at_def less_Suc_eq nth_list_update)
  then have "assigned sigs P fg0 (Suc k) ?fg'"
    using inv p1 c1 set(1) k len
    by (auto simp: assigned_def sig_at_def mode_at_def nth_list_update avail_of_def map_of_um_assign)
  ultimately show ?thesis by blast
qed

lemma channel_order_free:
  "\<forall>i < n. fixed_satellite cfg i = 0 \<Longrightarrow> channel_order cfg n = [0..<n]"
proof (induction n)
  case 0
  show ?case by (simp add: channel_order_def)
next
  case (Suc n)
  then have "channel_order cfg n = [0..<n]" by simp
  with Suc.prems show ?case by (simp add: channel_order_def)
qed

lemma assign_all:
  assumes sup: "supplied cfg sigs P" and inv: "assigned sigs P fg0 0 fg0"
    and free: "\<forall>i < length sigs. fixed_satellite cfg i = 0" and k: "k \<le> length sigs"
  shows "\<exists>fg. foldM (assign_channel cfg status) [0..<k] fg0 = Some fg \<and> assigned sigs P fg0 k fg"
  using k
proof (induction k)
  case 0
  with inv show ?case by simp
next
  case (Suc k)
  then obtain fg where fg: "foldM (assign_channel cfg status) [0..<k] fg0 = Some fg" "assigned sigs P fg0 k fg"
    by auto
  from assign_channel_ok[OF sup fg(2) _ free, of status] Suc.prems fg(1) show ?case
    by (auto simp: foldM_append)
qed

section \<open>First acquisitions\<close>

definition started :: "'d flowgraph \<Rightarrow> nat \<Rightarrow> 'd flowgraph \<Rightarrow> bool" where
  "started fg0 k fg \<longleftrightarrow> length (channels fg) = length (channels fg0) \<and>
     channels_state fg = channels_state fg0 \<and> acq_channels_count fg = acq_channels_count fg0 \<and>
     max_acq_channels fg = max_acq_channels fg0 \<and> available_signals_map fg = available_signals_map fg0 \<and>
     (\<forall>i < length (channels fg0). sig_at fg i = sig_at fg0 i \<and> ch_ready (channels fg ! i) \<and>
        ch_number (channels fg ! i) = ch_number (channels fg0 ! i) \<and>
        mode_at fg i = (if i < k \<and> state_at fg0 i = 2 then 1 else mode_at fg0 i))"

lemma start_channel_ok:
  assumes inv: "started fg0 k fg" and k: "k < length (channels fg0)"
    and len: "length (channels_state fg0) = length (channels fg0)" and m: "mode_at fg0 k = 0"
  shows "\<exists>fg'. start_channel k fg = Some fg' \<and> started fg0 (Suc k) fg'"
proof (cases "state_at fg0 k = 2")
  case True
  have c: "ch_ready (channels fg ! k)" "ch_mode (channels fg ! k) = 0" "vget (channels fg) k = Some (channels fg ! k)"
    "vget (channels_state fg) k = Some 2" "k < length (channels fg)"
    using inv k len m True by (auto simp: started_def mode_at_def state_at_def vget_def)
  from cc.start_ok[OF c(1)] c(2) obtain c2 where c2: "start_acquisition (channels fg ! k) = Some c2"
    "ch_signal c2 = sig_at fg k" "ch_ready c2" "ch_mode c2 = 1" "ch_number c2 = ch_number (channels fg ! k)"
    by (auto simp: sig_at_def)
  have "start_channel k fg = Some (fg\<lparr> channels := (channels fg)[k := c2] \<rparr>)"
    using c c2(1) by (simp add: start_channel_def vput_def)
  moreover have "started fg0 (Suc k) (fg\<lparr> channels := (channels fg)[k := c2] \<rparr>)"
    using inv c2 c(5) True by (auto simp: started_def sig_at_def mode_at_def nth_list_update)
  ultimately show ?thesis by blast
next
  case False
  then have "start_channel k fg = Some fg"
    using inv k len by (simp add: start_channel_def started_def state_at_def vget_def)
  moreover have "started fg0 (Suc k) fg" using inv False by (auto simp: started_def less_Suc_eq)
  ultimately show ?thesis by blast
qed

lemma start_all:
  assumes "started fg0 0 fg0" "length (channels_state fg0) = length (channels fg0)"
    "\<forall>i < length (channels fg0). mode_at fg0 i = 0" "k \<le> length (channels fg0)"
  shows "\<exists>fg. foldM start_channel [0..<k] fg0 = Some fg \<and> started fg0 k fg"
  using assms(4)
proof (induction k)
  case 0
  with assms(1) show ?case by simp
next
  case (Suc k)
  then obtain fg where fg: "foldM start_channel [0..<k] fg0 = Some fg" "started fg0 k fg" by auto
  from start_channel_ok[OF fg(2) _ assms(2)] Suc.prems assms(3) fg(1) show ?case
    by (auto simp: foldM_append)
qed

end
