(* ===== verification/Control_Frames.thy ===== *)
theory Control_Frames
  imports Control_Thread
begin

text \<open>
  What the operations of the flowgraph leave alone, whether or not the receiver satisfies its invariant: the
  number of channels, their numbers, the limit on simultaneous acquisitions, and a channel in tracking that
  the operation is not about.
\<close>

section \<open>Channels\<close>

lemma log_call_fields [simp]:
  "fsm_channel (log_call c f) = fsm_channel f" "fsm_state (log_call c f) = fsm_state f"
  by (simp_all add: log_call_def)

lemma set_signal_keeps:
  "set_signal g ch = Some ch' \<Longrightarrow> ch_number ch' = ch_number ch \<and> ch_mode ch' = ch_mode ch"
  by (auto simp: set_signal_def bind_eq_Some_conv ch_number_def ch_mode_def Let_def)

lemma assist_keeps [simp]:
  "ch_number (assist_acquisition_doppler d ch) = ch_number ch" "ch_mode (assist_acquisition_doppler d ch) = ch_mode ch"
  by (simp_all add: assist_acquisition_doppler_def ch_number_def ch_mode_def)

lemma start_keeps: "start_acquisition ch = Some ch' \<Longrightarrow> ch_number ch' = ch_number ch"
  by (auto simp: start_acquisition_def bind_eq_Some_conv ch_number_def accept_event_def fsm_event_defs
      fsm_start_acquisition_def split: if_splits)

lemma stop_keeps:
  "stop_channel ch = Some ch' \<Longrightarrow> ch_number ch' = ch_number ch \<and>
     ch_mode ch' = (if ch_mode ch = 1 \<or> ch_mode ch = 2 then 0 else ch_mode ch)"
  by (auto simp: stop_channel_def bind_eq_Some_conv ch_number_def ch_mode_def accept_event_def fsm_event_defs
      fsm_stop_acquisition_def fsm_stop_tracking_def split: if_splits)

text \<open>The messages of the blocks: the events pushed carry the number of the channel and are not actions of the
  receiver, and a channel in standby ignores them all.\<close>

lemma handler_keeps:
  assumes "msg_handler_channel_events r m f = Some (ok, f', evs)"
  shows "fsm_channel f' = fsm_channel f" "\<forall>e \<in> set evs. channel_id e = fsm_channel f \<and> event_type e \<noteq> 10"
    "fsm_state f = 0 \<Longrightarrow> f' = f \<and> evs = []"
  using assms
  by (auto simp: msg_handler_channel_events_def accept_event_def fsm_event_defs fsm_start_tracking_def
      fsm_start_acquisition_def fsm_request_satellite_def fsm_notify_stop_tracking_def channel_event_make_def
      split: if_splits)

section \<open>The flowgraph\<close>

definition shape :: "'d flowgraph \<Rightarrow> int \<times> nat \<times> u32 list" where
  "shape fg = (max_acq_channels fg, length (channels_state fg), map ch_number (channels fg))"

definition undisturbed :: "nat \<Rightarrow> 'd flowgraph \<Rightarrow> 'd flowgraph \<Rightarrow> bool" where
  "undisturbed i fg fg' \<longleftrightarrow> shape fg' = shape fg \<and>
     (state_at fg i = 3 \<longrightarrow> state_at fg' i = 3 \<and> mode_at fg' i = mode_at fg i)"

lemma undisturbed_refl [simp]: "undisturbed i fg fg"
  by (simp add: undisturbed_def)

lemma undisturbed_trans: "undisturbed i fg fg' \<Longrightarrow> undisturbed i fg' fg'' \<Longrightarrow> undisturbed i fg fg''"
  by (auto simp: undisturbed_def)

lemma undisturbed_same:
  "channels fg' = channels fg \<Longrightarrow> channels_state fg' = channels_state fg \<Longrightarrow> max_acq_channels fg' = max_acq_channels fg
    \<Longrightarrow> undisturbed i fg fg'"
  by (simp add: undisturbed_def shape_def state_at_def mode_at_def)

lemma undisturbed_foldM:
  assumes "foldM f xs fg = Some fg'" "\<And>x h h'. f x h = Some h' \<Longrightarrow> undisturbed i h h'"
  shows "undisturbed i fg fg'"
  using assms(1)
proof (induction xs arbitrary: fg)
  case (Cons x xs)
  then obtain h where "f x fg = Some h" "foldM f xs h = Some fg'" by (auto simp: bind_eq_Some_conv)
  then show ?case using Cons.IH assms(2) undisturbed_trans by blast
qed simp

lemma map_update_same: "k < length xs \<Longrightarrow> f y = f (xs ! k) \<Longrightarrow> map f (xs[k := y]) = map f xs"
  by (metis list_update_id map_update)

text \<open>An update of another channel.\<close>

lemma undisturbed_other:
  assumes "k \<noteq> i \<or> state_at fg i \<noteq> 3" "k < length (channels fg)" "ch_number ch = ch_number (channels fg ! k)"
    and "channels fg' = (channels fg)[k := ch]" "max_acq_channels fg' = max_acq_channels fg"
    and "channels_state fg' = (channels_state fg)[k := s] \<or> channels_state fg' = channels_state fg"
  shows "undisturbed i fg fg'"
  using assms by (auto simp: undisturbed_def shape_def state_at_def mode_at_def map_update_same)

lemma push_back_undisturbed: "push_back_signal g fg = Some fg' \<Longrightarrow> undisturbed i fg fg'"
  by (auto simp: push_back_signal_def bind_eq_Some_conv intro!: undisturbed_same)

lemma remove_undisturbed: "remove_signal g fg = Some fg' \<Longrightarrow> undisturbed i fg fg'"
  by (auto simp: remove_signal_def bind_eq_Some_conv intro!: undisturbed_same)

lemma release_undisturbed [simp]: "undisturbed i fg (release_slot fg)"
  by (intro undisturbed_same) simp_all

lemma set_state_undisturbed: "set_state k v fg = Some fg' \<Longrightarrow> k \<noteq> i \<Longrightarrow> undisturbed i fg fg'"
  by (auto simp: set_state_def bind_eq_Some_conv vput_def undisturbed_def shape_def state_at_def mode_at_def split: if_splits)

lemma priorize_undisturbed: "priorize_satellites visible fg = Some fg' \<Longrightarrow> undisturbed i fg fg'"
  unfolding priorize_satellites_def
proof (erule undisturbed_foldM)
  fix x :: "int \<times> gnss_satellite" and h h' :: "'a flowgraph"
  assume "(case x of (el, sat) \<Rightarrow> foldM (priorize_signal sat) (priority_signals (sat_system sat))) h = Some h'"
  then have "foldM (priorize_signal (snd x)) (priority_signals (sat_system (snd x))) h = Some h'" by (cases x) simp
  then show "undisturbed i h h'"
    by (rule undisturbed_foldM) (auto simp: priorize_signal_def bind_eq_Some_conv Let_def intro!: undisturbed_same)
qed

lemma priorize_channels: "priorize_satellites visible fg = Some fg' \<Longrightarrow> channels fg' = channels fg"
proof -
  have one: "channels h' = channels h" if "priorize_signal sat str h = Some h'" for sat str and h h' :: "'a flowgraph"
    using that by (auto simp: priorize_signal_def bind_eq_Some_conv Let_def)
  have all: "foldM (priorize_signal sat) strs h = Some h' \<Longrightarrow> channels h' = channels h" for sat strs and h h' :: "'a flowgraph"
    by (induction strs arbitrary: h) (auto simp: bind_eq_Some_conv dest: one)
  show "priorize_satellites visible fg = Some fg' \<Longrightarrow> channels fg' = channels fg"
    unfolding priorize_satellites_def
    by (induction visible arbitrary: fg) (auto simp: bind_eq_Some_conv dest: all)
qed

section \<open>The acquisition manager\<close>

lemma begin_undisturbed:
  assumes "begin_acquisition k d ch fg = Some fg'" "ch_number ch = ch_number (channels fg ! k)"
    "k \<noteq> i \<or> state_at fg i \<noteq> 3"
  shows "undisturbed i fg fg'"
proof -
  from assms(1) obtain ch' where ch': "start_acquisition (assist_acquisition_doppler d ch) = Some ch'"
    "channels fg' = (channels fg)[k := ch']" "channels_state fg' = (channels_state fg)[k := 2]"
    "max_acq_channels fg' = max_acq_channels fg" "k < length (channels fg)"
    by (auto simp: begin_acquisition_def bind_eq_Some_conv vput_def split: if_splits)
  show ?thesis
    by (rule undisturbed_other[OF assms(3) ch'(5) _ ch'(2,4)]) (use start_keeps[OF ch'(1)] assms(2) ch'(3) in auto)
qed

lemma manage_undisturbed: "manage_channel cfg status k fg = Some fg' \<Longrightarrow> undisturbed i fg fg'"
proof (cases "acq_channels_count fg < max_acq_channels fg \<and> state_at fg k \<le> 1")
  case False
  then show "manage_channel cfg status k fg = Some fg' \<Longrightarrow> undisturbed i fg fg'"
    by (auto simp: manage_channel_def bind_eq_Some_conv vget_def state_at_def split: if_splits)
next
  case True
  have free: "k \<noteq> i \<or> state_at fg i \<noteq> 3" using True by (auto simp: word_le_nat_alt)
  assume m: "manage_channel cfg status k fg = Some fg'"
  then have k: "k < length (channels fg)"
    and how: "acquire_next cfg status k (channels fg ! k) fg = Some fg' \<or> acquire_own k (channels fg ! k) fg = Some fg'"
    using True by (auto simp: manage_channel_def bind_eq_Some_conv vget_def state_at_def split: if_splits)
  from how show "undisturbed i fg fg'"
  proof
    assume "acquire_own k (channels fg ! k) fg = Some fg'"
    then obtain ch where ch: "set_signal (ch_signal (channels fg ! k)) (channels fg ! k) = Some ch"
      "begin_acquisition k Doppler_zero ch fg = Some fg'"
      by (auto simp: acquire_own_def bind_eq_Some_conv)
    show ?thesis by (rule begin_undisturbed[OF ch(2) _ free]) (use set_signal_keeps[OF ch(1)] in simp)
  next
    assume "acquire_next cfg status k (channels fg ! k) fg = Some fg'"
    then obtain g avail ch where ch: "set_signal g (channels fg ! k) = Some ch"
      and later: "(\<exists>d. begin_acquisition k d ch (fg\<lparr> available_signals_map := avail, channels := (channels fg)[k := ch] \<rparr>) = Some fg')
        \<or> push_back_signal g (fg\<lparr> available_signals_map := avail, channels := (channels fg)[k := ch] \<rparr>) = Some fg'"
      using k by (simp add: acquire_next_def bind_eq_Some_conv vput_def Let_def split: if_splits) blast+
    let ?h = "fg\<lparr> available_signals_map := avail, channels := (channels fg)[k := ch] \<rparr>"
    have h: "undisturbed i fg ?h" by (rule undisturbed_other[OF free k]) (use set_signal_keeps[OF ch] in simp_all)
    have "undisturbed i ?h fg'" using later
    proof
      assume "\<exists>d. begin_acquisition k d ch ?h = Some fg'"
      then obtain d where "begin_acquisition k d ch ?h = Some fg'" ..
      then show ?thesis by (rule begin_undisturbed) (use free k in \<open>simp_all add: state_at_def\<close>)
    qed (rule push_back_undisturbed)
    with h show ?thesis by (rule undisturbed_trans)
  qed
qed

lemma manager_undisturbed: "acquisition_manager cfg status who fg = Some fg' \<Longrightarrow> undisturbed i fg fg'"
  unfolding acquisition_manager_def Let_def by (erule undisturbed_foldM) (rule manage_undisturbed)

section \<open>Actions\<close>

text \<open>An action other than a standby, of another channel.\<close>

lemma apply_action_undisturbed:
  assumes "apply_action cfg status who what fg = Some fg'" "what \<noteq> 10" "unat who \<noteq> i"
  shows "undisturbed i fg fg'"
proof -
  let ?k = "unat who"
  consider (failed) sat where "what = 0" "on_acquisition_failed cfg status ?k sat fg = Some fg'"
    | (found) "what = 1" "on_acquisition_success cfg status ?k fg = Some fg'"
    | (lost) sat where "what = 2" "on_tracking_lost ?k sat fg = Some fg'"
    | (other) "fg' = fg"
    using assms(1,2) by (auto simp: apply_action_def Let_def split: if_splits)
  then show ?thesis
  proof cases
    case failed
    then obtain g h1 h2 where h: "set_state ?k 0 fg = Some h1" "acquisition_manager cfg status ?k (release_slot h1) = Some h2"
      "push_back_signal g h2 = Some fg' \<or> fg' = h2"
      by (auto simp: on_acquisition_failed_def bind_eq_Some_conv Let_def split: if_splits)
    have "undisturbed i fg h2"
      by (rule undisturbed_trans[OF set_state_undisturbed[OF h(1) assms(3)] undisturbed_trans[OF release_undisturbed manager_undisturbed[OF h(2)]]])
    moreover have "undisturbed i h2 fg'" using h(3) push_back_undisturbed[of g h2 fg' i] by auto
    ultimately show ?thesis by (rule undisturbed_trans)
  next
    case found
    then obtain g h1 h2 where h: "remove_signal g fg = Some h1" "set_state ?k 3 h1 = Some h2"
      "acquisition_manager cfg status ?k (release_slot h2) = Some fg'"
      by (auto simp: on_acquisition_success_def bind_eq_Some_conv)
    show ?thesis
      by (rule undisturbed_trans[OF remove_undisturbed[OF h(1)]
          undisturbed_trans[OF set_state_undisturbed[OF h(2) assms(3)] undisturbed_trans[OF release_undisturbed manager_undisturbed[OF h(3)]]]])
  next
    case lost
    show ?thesis
    proof (cases "acq_channels_count fg < max_acq_channels fg")
      case True
      then obtain ch1 ch2 where c: "set_signal (ch_signal (channels fg ! ?k)) (channels fg ! ?k) = Some ch1" "start_acquisition ch1 = Some ch2"
        "?k < length (channels fg)" "channels fg' = (channels fg)[?k := ch2]" "channels_state fg' = (channels_state fg)[?k := 2]"
        "max_acq_channels fg' = max_acq_channels fg"
        using lost by (auto simp: on_tracking_lost_def bind_eq_Some_conv set_state_def vput_def vget_def split: if_splits)
      show ?thesis
        by (rule undisturbed_other[OF _ c(3) _ c(4,6)]) (use assms(3) c(5) set_signal_keeps[OF c(1)] start_keeps[OF c(2)] in auto)
    next
      case False
      then obtain g h where h: "set_state ?k 0 fg = Some h" "push_back_signal g h = Some fg' \<or> fg' = h"
        using lost by (auto simp: on_tracking_lost_def bind_eq_Some_conv split: if_splits)
      have "undisturbed i h fg'" using h(2) push_back_undisturbed[of g h fg' i] by auto
      with set_state_undisturbed[OF h(1) assms(3)] show ?thesis by (rule undisturbed_trans)
    qed
  qed simp
qed

section \<open>Standby\<close>

lemma standby_channel_keeps:
  assumes "standby_channel n fg = Some fg'"
  shows "shape fg' = shape fg" "n \<noteq> i \<Longrightarrow> state_at fg' i = state_at fg i \<and> mode_at fg' i = mode_at fg i"
    "state_at fg n = 2 \<Longrightarrow> mode_at fg n = 2 \<Longrightarrow> mode_at fg' n = 0" "mode_at fg n = 0 \<Longrightarrow> mode_at fg' n = 0"
proof -
  consider (idle) "fg' = fg" "state_at fg n \<noteq> 2"
    | (stop) g fg1 ch where "push_back_signal g fg = Some fg1" "stop_channel (channels fg ! n) = Some ch"
      "n < length (channels fg)" "n < length (channels fg1)" "channels fg' = (channels fg1)[n := ch]"
      "channels_state fg' = (channels_state fg1)[n := 0]" "max_acq_channels fg' = max_acq_channels fg1"
    using assms
    by (fastforce simp: standby_channel_def bind_eq_Some_conv vget_def vput_def set_state_def state_at_def split: if_splits)
  then have "shape fg' = shape fg \<and> (n \<noteq> i \<longrightarrow> state_at fg' i = state_at fg i \<and> mode_at fg' i = mode_at fg i)
      \<and> (state_at fg n = 2 \<longrightarrow> mode_at fg n = 2 \<longrightarrow> mode_at fg' n = 0) \<and> (mode_at fg n = 0 \<longrightarrow> mode_at fg' n = 0)"
  proof cases
    case stop
    have "channels fg1 = channels fg" "channels_state fg1 = channels_state fg" "max_acq_channels fg1 = max_acq_channels fg"
      using stop(1) by (auto simp: push_back_signal_def bind_eq_Some_conv)
    then show ?thesis
      using stop stop_keeps[OF stop(2)] by (auto simp: shape_def state_at_def mode_at_def map_update_same)
  qed simp
  then show "shape fg' = shape fg" "n \<noteq> i \<Longrightarrow> state_at fg' i = state_at fg i \<and> mode_at fg' i = mode_at fg i"
    "state_at fg n = 2 \<Longrightarrow> mode_at fg n = 2 \<Longrightarrow> mode_at fg' n = 0" "mode_at fg n = 0 \<Longrightarrow> mode_at fg' n = 0"
    by blast+
qed

lemma on_standby_keeps:
  assumes "on_standby fg = Some fg'"
  shows "shape fg' = shape fg"
    "i < length (channels fg) \<Longrightarrow> state_at fg i = 2 \<Longrightarrow> mode_at fg i = 2 \<Longrightarrow> mode_at fg' i = 0"
proof -
  obtain h where h: "foldM standby_channel [0..<length (channels fg)] fg = Some h" "fg' = h\<lparr> acq_channels_count := 0 \<rparr>"
    using assms by (auto simp: on_standby_def bind_eq_Some_conv)
  have "shape h = shape fg \<and> (mode_at fg i = 0 \<or> i \<in> set xs \<and> state_at fg i = 2 \<and> mode_at fg i = 2 \<longrightarrow> mode_at h i = 0)"
    if "foldM standby_channel xs fg = Some h" for xs
    using that
  proof (induction xs arbitrary: fg)
    case (Cons n xs)
    then obtain k where k: "standby_channel n fg = Some k" "foldM standby_channel xs k = Some h"
      by (auto simp: bind_eq_Some_conv)
    show ?case using standby_channel_keeps[OF k(1)] Cons.IH[OF k(2)] by (cases "n = i") auto
  qed simp
  from this[OF h(1)] h(2) show "shape fg' = shape fg"
    "i < length (channels fg) \<Longrightarrow> state_at fg i = 2 \<Longrightarrow> mode_at fg i = 2 \<Longrightarrow> mode_at fg' i = 0"
    by (auto simp: shape_def mode_at_def)
qed

section \<open>The whole receiver\<close>

lemma apply_action_shape: "apply_action cfg status who what fg = Some fg' \<Longrightarrow> shape fg' = shape fg"
proof (cases "what = 10")
  case True
  then show "apply_action cfg status who what fg = Some fg' \<Longrightarrow> shape fg' = shape fg"
    by (simp add: apply_action_def Let_def on_standby_keeps(1))
next
  case False
  then show "apply_action cfg status who what fg = Some fg' \<Longrightarrow> shape fg' = shape fg"
    using apply_action_undisturbed[of cfg status who what fg fg' "Suc (unat who)"] by (simp add: undisturbed_def)
qed

lemma control_action_undisturbed: "control_apply_action visible what ct = Some ct' \<Longrightarrow> undisturbed i (flowgraph ct) (flowgraph ct')"
  by (auto simp: control_apply_action_def Let_def control_call_def bind_eq_Some_conv split: if_splits dest: priorize_undisturbed)

lemma dispatcher_shape:
  assumes "event_dispatcher cfg status visible valid msg ct = Some ct'"
  shows "shape (flowgraph ct') = shape (flowgraph ct)"
proof -
  have act: "shape (flowgraph c') = shape (flowgraph c)" if "control_apply_action visible what c = Some c'" for what and c c' :: "'a control_thread"
    using control_action_undisturbed[OF that, of 0] by (simp add: undisturbed_def)
  have man: "shape fg' = shape fg" if "acquisition_manager cfg status who fg = Some fg'" for who and fg fg' :: "'a flowgraph"
    using manager_undisturbed[OF that, of 0] by (simp add: undisturbed_def)
  show ?thesis
    using assms
    by (fastforce simp: event_dispatcher_def with_flowgraph_def Let_def bind_eq_Some_conv
        split: if_splits control_msg.splits dest: act man apply_action_shape)
qed

lemma block_message_form:
  assumes "block_message i m (ct, q) = Some s'"
  obtains ok f evs where "i < length (channels (flowgraph ct))"
    "msg_handler_channel_events (ch_repeat (channels (flowgraph ct) ! i)) m (ch_fsm (channels (flowgraph ct) ! i)) = Some (ok, f, evs)"
    "s' = (ct\<lparr> flowgraph := (flowgraph ct)\<lparr> channels := (channels (flowgraph ct))[i := (channels (flowgraph ct) ! i)\<lparr> ch_fsm := f \<rparr>] \<rparr> \<rparr>,
      q @ map Channel_msg evs)"
proof -
  have push: "fold (\<lambda>e. cq_push (Channel_msg e)) evs q = q @ map Channel_msg evs" for evs q
    by (induction evs arbitrary: q) (simp_all add: cq_push_def)
  show thesis
    using assms that by (auto simp: block_message_def bind_eq_Some_conv vget_def push split: if_splits)
qed

lemma block_message_shape:
  assumes "block_message i m s = Some s'"
  shows "shape (flowgraph (fst s')) = shape (flowgraph (fst s))"
proof -
  obtain ct q where s: "s = (ct, q)" by (cases s)
  obtain ok f evs where b: "i < length (channels (flowgraph ct))"
    "msg_handler_channel_events (ch_repeat (channels (flowgraph ct) ! i)) m (ch_fsm (channels (flowgraph ct) ! i)) = Some (ok, f, evs)"
    "s' = (ct\<lparr> flowgraph := (flowgraph ct)\<lparr> channels := (channels (flowgraph ct))[i := (channels (flowgraph ct) ! i)\<lparr> ch_fsm := f \<rparr>] \<rparr> \<rparr>,
      q @ map Channel_msg evs)"
    by (rule block_message_form[OF assms[unfolded s]])
  show ?thesis using b(1,3) s handler_keeps(1)[OF b(2)] by (simp add: shape_def ch_number_def map_update_same)
qed

lemma reachable_shape:
  assumes "system_reachable cfg allowed s s'"
  shows "shape (flowgraph (fst s')) = shape (flowgraph (fst s))"
  using assms
proof (induction rule: system_reachable.induct)
  case (step s' s'')
  from step.hyps(2) have "shape (flowgraph (fst s'')) = shape (flowgraph (fst s'))"
  proof cases
    case (round status visible)
    then show ?thesis
      by (cases s') (auto simp: control_round_def bind_eq_Some_conv dest: dispatcher_shape split: prod.splits)
  qed (auto dest: block_message_shape)
  with step.IH show ?case by simp
qed simp

end
