(* ===== verification/Control_Properties.thy ===== *)
theory Control_Properties
  imports Flowgraph_Init Control_Frames
begin

text \<open>
  The receiver from its start on: a startable configuration gives a running flowgraph that
  satisfies the system invariant, and the properties of the states it reaches as long as no
  telecommand puts it on standby or starts it hot.
\<close>

section \<open>Start\<close>

definition pool_of :: "signals_map \<Rightarrow> string \<Rightarrow> gnss_signal set" where
  "pool_of avail s = (case map_of avail s of Some l \<Rightarrow> set l | None \<Rightarrow> {})"

text \<open>The list of one name: signals of numbers that exist, none twice, and the check of
  \<open>assign_channels\<close> passed; for Glonass, whose check allows eight more, enough signals.\<close>

definition list_ok :: "fg_config \<Rightarrow> string \<times> gnss_signal list \<Rightarrow> bool" where
  "list_ok cfg e \<longleftrightarrow> (case e of (s, l) \<Rightarrow> l \<noteq> [] \<and> distinct l \<and> (\<forall>g \<in> set l. proper_signal s g) \<and>
     too_many_channels cfg (s, l) = Some False \<and>
     ((\<exists>pretty. map_of signal_mapping s = Some (''Glonass'', pretty)) \<longrightarrow> channel_count cfg s < length l))"

text \<open>No channel has a fixed satellite, there are at most 200 channels (the numbers below which
  \<open>apply_action\<close> reads the fixed satellite of a channel), \<open>Channels.in_acquisition\<close> is absent or not
  negative, and every list of signals is in order.\<close>

definition startable :: "fg_config \<Rightarrow> bool" where
  "startable cfg \<longleftrightarrow> (\<forall>i < length (channel_signals cfg). fixed_satellite cfg i = 0) \<and>
     length (channel_signals cfg) \<le> 200 \<and> (case in_acquisition cfg of None \<Rightarrow> True | Some m \<Rightarrow> 0 \<le> m) \<and>
     (case set_signals_list cfg [] of None \<Rightarrow> False | Some avail \<Rightarrow> (\<forall>e \<in> set avail. list_ok cfg e))"

text \<open>The limit on simultaneous acquisitions that the configuration asks for:
  \<open>Channels.in_acquisition\<close>, at most the number of channels, which is also the default.\<close>

definition acquisition_limit :: "fg_config \<Rightarrow> int" where
  "acquisition_limit cfg = (case in_acquisition cfg of None \<Rightarrow> int (length (channel_signals cfg))
     | Some m \<Rightarrow> min m (int (length (channel_signals cfg))))"

lemma count_initial:
  "0 \<le> m \<Longrightarrow> m \<le> int n \<Longrightarrow> int (count_list (map (\<lambda>i. if int i < m then 2 else (1 :: u32)) [0..<n]) 2) = m"
proof -
  have "int (count_list (map (\<lambda>i. if int i < m then 2 else (1 :: u32)) [0..<n]) 2) = min m (int n)" if "0 \<le> m"
    using that by (induction n) auto
  then show "0 \<le> m \<Longrightarrow> m \<le> int n \<Longrightarrow> ?thesis" by simp
qed

lemma startable_supplied:
  assumes st: "startable cfg" and avail: "set_signals_list cfg [] = Some avail"
  shows "supplied cfg (channel_signals cfg) (pool_of avail)"
proof -
  let ?sigs = "channel_signals cfg"
  have ok: "list_ok cfg e" if "e \<in> set avail" for e using st avail that by (simp add: startable_def)
  have free: "\<forall>i < length ?sigs. fixed_satellite cfg i = 0" using st by (simp add: startable_def)
  have "proper_pool (pool_of avail)"
    unfolding proper_pool_def pool_of_def using ok by (fastforce simp: list_ok_def split: option.splits dest: map_of_SomeD)
  moreover have "[] \<notin> set ?sigs" using factory_distinct(2) by (auto simp: set_channel_signals)
  moreover have "card (free_channels cfg ?sigs s) < card (pool_of avail s)" if s: "s \<in> set ?sigs" for s
  proof -
    from s have "s \<in> set factory_signals" "channel_count cfg s > 0" by (auto simp: set_channel_signals)
    from signals_list_keys[OF avail this] obtain l where l: "map_of avail s = Some l" by auto
    then have "(s, l) \<in> set avail" by (rule map_of_SomeD)
    from ok[OF this] have lo: "l \<noteq> []" "distinct l" "\<forall>g \<in> set l. proper_signal s g"
      "too_many_channels cfg (s, l) = Some False"
      "(\<exists>pretty. map_of signal_mapping s = Some (''Glonass'', pretty)) \<longrightarrow> channel_count cfg s < length l"
      by (auto simp: list_ok_def)
    have cnt: "card (free_channels cfg ?sigs s) = channel_count cfg s" by (rule free_channels_count[OF free s])
    have "card (free_channels cfg ?sigs s) \<le> card {..<length ?sigs}"
      by (intro card_mono) (auto simp: free_channels_def)
    then have "channel_count cfg s < 2 ^ 63" using cnt st by (simp add: startable_def)
    then have "channel_count cfg s < length l"
      using lo check_passed[OF lo(4,1) proper_list_length[OF lo(2,3)]] by blast
    then show ?thesis using cnt l lo(2) by (simp add: pool_of_def distinct_card)
  qed
  ultimately show ?thesis by (simp add: supplied_def)
qed

lemma startup_ok:
  assumes st: "startable cfg" and avail: "set_signals_list cfg [] = Some avail"
  shows "\<exists>fg. start_flowgraph cfg status = Some fg \<and>
    system_inv cfg (channel_signals cfg) (pool_of avail) (make_control_thread fg, []) \<and>
    acq_channels_count fg = acquisition_limit cfg \<and> max_acq_channels fg = acquisition_limit cfg \<and>
    (\<forall>i < length (channel_signals cfg). state_at fg i = (if int i < acquisition_limit cfg then 2 else 1) \<and>
      mode_at fg i = (if int i < acquisition_limit cfg then 1 else 0))"
proof -
  let ?sigs = "channel_signals cfg" and ?P = "pool_of avail" and ?n = "length (channel_signals cfg)"
  note sup = startable_supplied[OF st avail]
  have ok: "list_ok cfg e" if "e \<in> set avail" for e using st avail that by (simp add: startable_def)
  have free: "\<forall>i < length ?sigs. fixed_satellite cfg i = 0" using st by (simp add: startable_def)
  let ?m0 = "case in_acquisition cfg of Some m \<Rightarrow> m | None \<Rightarrow> int ?n"
  let ?m = "if ?m0 > int ?n then int ?n else ?m0"
  have m: "0 \<le> ?m" "?m \<le> int ?n" using st by (auto simp: startable_def split: option.splits)
  define fg0 :: "'a flowgraph" where "fg0 = set_channels_state cfg \<lparr> channels = GetChannels cfg, channels_state = [],
      acq_channels_count = 0, max_acq_channels = 0, available_signals_map = avail, multiband = is_multiband cfg \<rparr>"
  have f0: "channels fg0 = GetChannels cfg" "acq_channels_count fg0 = ?m" "max_acq_channels fg0 = ?m"
    "available_signals_map fg0 = avail"
    "channels_state fg0 = map (\<lambda>i. if int i < ?m then 2 else 1) [0..<?n]"
    by (simp_all add: fg0_def set_channels_state_def Let_def)
  have init: "init_flowgraph cfg = Some fg0" using avail by (simp add: init_flowgraph_def fg0_def)
  have "pool ?P (avail_of fg0) (\<lambda>i. if i < 0 then Some (sig_at fg0 i) else None) {}"
  proof -
    have "distinct l \<and> set l = pool_of avail s" if "map_of avail s = Some l" for s l
      using ok[OF map_of_SomeD[OF that]] that by (simp add: list_ok_def pool_of_def)
    then show ?thesis by (simp add: pool_def avail_of_def f0)
  qed
  moreover have "avail_of fg0 s \<noteq> None" if "s \<in> set ?sigs" for s
    using that signals_list_keys[OF avail, of s] by (auto simp: set_channel_signals avail_of_def f0)
  ultimately have a0: "assigned ?sigs ?P fg0 0 fg0"
    by (simp add: assigned_def f0 sig_at_def mode_at_def GetChannels_nth make_channel_fields signal_of_str_def)
  from assign_all[OF sup a0 free le_refl, of status] obtain fg1 where
    fg1: "foldM (assign_channel cfg status) [0..<?n] fg0 = Some fg1" "assigned ?sigs ?P fg0 ?n fg1" by blast
  have "mapM (too_many_channels cfg) avail = Some (map (\<lambda>_. False) avail)"
    using ok by (intro mapM_Some_map) (auto simp: list_ok_def split: prod.splits)
  then have as: "assign_channels cfg status fg0 = Some (0, fg1)"
    using fg1(1) channel_order_free[OF free] by (simp add: assign_channels_def f0)
  have n1: "length (channels fg1) = ?n" "length (channels_state fg1) = ?n"
    using fg1(2) by (simp_all add: assigned_def f0)
  have "started fg1 0 fg1" using fg1(2) n1 by (simp add: started_def assigned_def)
  moreover have "\<forall>i < length (channels fg1). mode_at fg1 i = 0" using fg1(2) n1 by (simp add: assigned_def)
  ultimately obtain fg2 where fg2: "foldM start_channel [0..<?n] fg1 = Some fg2" "started fg1 ?n fg2"
    using start_all[of fg1 ?n] n1 by auto
  have run: "start_flowgraph cfg status = Some fg2"
    using init as fg2(1) n1 by (simp add: start_flowgraph_def start_channels_def)
  have n2: "length (channels fg2) = ?n" "channels_state fg2 = channels_state fg0"
    using fg1(2) fg2(2) n1 by (simp_all add: started_def assigned_def)
  have st2: "state_at fg2 i = (if int i < ?m then 2 else 1)" if "i < ?n" for i
    using that n2 by (simp add: state_at_def f0)
  have st1: "state_at fg1 i = state_at fg2 i" for i
    using fg2(2) by (simp add: state_at_def started_def)
  have at2: "sig_at fg2 i = sig_at fg1 i \<and> ch_ready (channels fg2 ! i) \<and> ch_number (channels fg2 ! i) = of_nat i
      \<and> mode_at fg2 i = (if int i < ?m then 1 else 0) \<and> gs_signal (sig_at fg1 i) = ?sigs ! i" if "i < ?n" for i
    using that fg2(2) fg1(2) n1 st1[of i] st2[OF that] by (auto simp: started_def assigned_def)
  have "channels_ok ?sigs fg2"
    using n2 at2 st2 by (auto simp: channels_ok_def f0)
  moreover have "signals_ok cfg ?sigs ?P {} fg2"
  proof -
    have "held_of cfg fg2 = (\<lambda>i. if i < ?n then Some (sig_at fg1 i) else None)"
      using n2 st2 at2 free by (auto simp: held_of_def fun_eq_iff)
    moreover have "avail_of fg2 = avail_of fg1" using fg2(2) by (simp add: avail_of_def started_def)
    ultimately show ?thesis using fg1(2) free by (simp add: signals_ok_def assigned_def)
  qed
  moreover have "slots_ok fg2"
  proof -
    have "acq_channels_count fg2 = ?m" "max_acq_channels fg2 = ?m"
      using fg2(2) fg1(2) f0(2,3) by (simp_all add: started_def assigned_def)
    then show ?thesis using count_initial[OF m] n2(2) f0(5) by (simp add: slots_ok_def)
  qed
  ultimately have "system_inv cfg ?sigs ?P (make_control_thread fg2, [])"
    using st2 at2 by (auto simp: system_inv_def make_control_thread_def fg_inv_def link_def)
  moreover have "max_acq_channels fg2 = ?m" "acq_channels_count fg2 = ?m"
    using fg2(2) fg1(2) f0(2,3) by (simp_all add: started_def assigned_def)
  moreover have "?m = acquisition_limit cfg" by (simp add: acquisition_limit_def split: option.split)
  ultimately show ?thesis using run st2 at2 by auto
qed


section \<open>Reachable states\<close>

definition receiver_reachable :: "fg_config \<Rightarrow> 'd system \<Rightarrow> bool" where
  "receiver_reachable cfg s \<longleftrightarrow> startable cfg \<and> (\<exists>status fg0. start_flowgraph cfg status = Some fg0 \<and>
     system_reachable cfg plain_command (make_control_thread fg0, []) s)"

lemma startable_list: "startable cfg \<Longrightarrow> \<exists>avail. set_signals_list cfg [] = Some avail"
  by (auto simp: startable_def split: option.splits)

lemma receiver_reachable_inv:
  assumes "receiver_reachable cfg s" "set_signals_list cfg [] = Some avail"
  shows "supplied cfg (channel_signals cfg) (pool_of avail) \<and>
    system_inv cfg (channel_signals cfg) (pool_of avail) s"
proof -
  from assms(1) obtain status fg0 where st: "startable cfg" "start_flowgraph cfg status = Some fg0"
    "system_reachable cfg plain_command (make_control_thread fg0, []) s"
    by (auto simp: receiver_reachable_def)
  note sup = startable_supplied[OF st(1) assms(2)]
  from startup_ok[OF st(1) assms(2), of status] st(2)
  have "system_inv cfg (channel_signals cfg) (pool_of avail) (make_control_thread fg0, [])" by force
  with system_reachable_inv[OF st(3) sup] st(1) sup show ?thesis by (simp add: startable_def)
qed

lemma receiver_reachable_size: "receiver_reachable cfg s \<Longrightarrow> length (channel_signals cfg) \<le> 200"
  by (simp add: receiver_reachable_def startable_def)

section \<open>A concrete receiver\<close>

text \<open>Two GPS L1 channels, one of them in acquisition, and three satellites.\<close>

definition sample_config :: fg_config where
  "sample_config = \<lparr> fixed_satellite = (\<lambda>_. 0), channel_count = (\<lambda>s. if s = ''1C'' then 2 else 0),
     repeat_satellite = (\<lambda>_ _. False), in_acquisition = Some 1, assist_dual_frequency_acq = None,
     prns = (\<lambda>s. if s = ''GPS'' then Some [7, 3, 11] else Some []), banned_prns = (\<lambda>_. []) \<rparr>"

abbreviation gps :: "u32 \<Rightarrow> gnss_signal" where
  "gps p \<equiv> make_signal (make_satellite ''GPS'' p) ''1C''"

lemma sample_signals: "channel_signals sample_config = [''1C'', ''1C'']"
  by (simp add: channel_signals_def factory_signals_def sample_config_def numeral_2_eq_2)

lemma sample_list: "set_signals_list sample_config [] = Some [(''1C'', [gps 3, gps 7, gps 11])]"
  by (simp add: set_signals_list_def available_prn_map_def signal_mapping_def configured_prns_def
      sample_config_def add_signals_def)

lemma sample_startable: "startable sample_config"
proof -
  have "prn_defined ''GPS'' 3" "prn_defined ''GPS'' 7" "prn_defined ''GPS'' 11"
    by (simp_all add: prn_defined.simps)
  then have "proper_signal ''1C'' (gps 3)" "proper_signal ''1C'' (gps 7)" "proper_signal ''1C'' (gps 11)"
    by (auto simp: proper_signal_def)
  moreover have "distinct [gps 3, gps 7, gps 11]"
    by (simp add: make_signal_def satellite_fields prn_defined.simps)
  moreover have "too_many_channels sample_config (''1C'', [gps 3, gps 7, gps 11]) = Some False"
    by (simp add: too_many_channels_def signal_mapping_def sample_config_def)
  moreover have "map_of signal_mapping ''1C'' = Some (''GPS'', ''L1'')" by (simp add: signal_mapping_def)
  ultimately have "list_ok sample_config (''1C'', [gps 3, gps 7, gps 11])" by (simp add: list_ok_def)
  moreover have "fixed_satellite sample_config = (\<lambda>_. 0)" "in_acquisition sample_config = Some 1"
    by (simp_all add: sample_config_def)
  ultimately show ?thesis by (simp add: startable_def sample_list sample_signals)
qed

lemma sample_limit: "acquisition_limit sample_config = 1"
proof -
  have "in_acquisition sample_config = Some 1" by (simp add: sample_config_def)
  then show ?thesis by (simp add: acquisition_limit_def sample_signals)
qed

definition sample_fg :: "unit flowgraph" where
  "sample_fg = the (start_flowgraph sample_config [])"

lemma sample_started: "start_flowgraph sample_config [] = Some sample_fg"
  using startup_ok[OF sample_startable sample_list, of "[] :: unit status_map"] by (auto simp: sample_fg_def)

lemma sample_receiver_reachable: "receiver_reachable sample_config (make_control_thread sample_fg, [])"
  unfolding receiver_reachable_def using sample_startable sample_started system_reachable.start by blast

section \<open>Properties\<close>

text \<open>C24: The receiver starts as configured. When no channel has a fixed satellite, there are at most 200
  channels, \<open>Channels.in_acquisition\<close> is not negative, and every list of signals has proper,
  distinct entries and passes the check of \<open>assign_channels\<close> (for Glonass: has more entries than
  channels), then the flowgraph starts without an exception and every channel has a satellite that no
  other channel has. As many channels as \<open>Channels.in_acquisition\<close> says, all of them when it is absent
  or too large, are the first ones and in acquisition, in the books of the flowgraph and in the
  state machines; the others wait with their satellites.\<close>

theorem receiver_starts:
  assumes "startable cfg"
  shows "\<exists>fg. start_flowgraph cfg status = Some fg \<and> length (channels fg) = length (channel_signals cfg) \<and>
    inj_on (sig_at fg) {..<length (channels fg)} \<and>
    acq_channels_count fg = acquisition_limit cfg \<and> max_acq_channels fg = acquisition_limit cfg \<and>
    (\<forall>i < length (channels fg). gs_signal (sig_at fg i) = channel_signals cfg ! i \<and>
      state_at fg i = (if int i < acquisition_limit cfg then 2 else 1) \<and>
      mode_at fg i = (if int i < acquisition_limit cfg then 1 else 0))"
proof -
  from startable_list[OF assms] obtain avail where avail: "set_signals_list cfg [] = Some avail" ..
  from startup_ok[OF assms avail, of status] obtain fg where
    fg: "start_flowgraph cfg status = Some fg" "fg_inv cfg (channel_signals cfg) (pool_of avail) {} fg"
    "acq_channels_count fg = acquisition_limit cfg" "max_acq_channels fg = acquisition_limit cfg"
    "\<forall>i < length (channel_signals cfg). state_at fg i = (if int i < acquisition_limit cfg then 2 else 1) \<and>
      mode_at fg i = (if int i < acquisition_limit cfg then 1 else 0)"
    by (auto simp: system_inv_def make_control_thread_def)
  have ok: "channels_ok (channel_signals cfg) fg" and pl: "pool (pool_of avail) (avail_of fg) (held_of cfg fg) {}"
    using fg(2) by (simp_all add: fg_inv_def signals_ok_def)
  have n: "length (channels fg) = length (channel_signals cfg)" using channels_ok_lengths[OF ok] by simp
  have "held_of cfg fg i = Some (sig_at fg i)" if "i < length (channels fg)" for i
    using that n fg(5) assms by (simp add: held_of_def startable_def)
  then have "inj_on (sig_at fg) {..<length (channels fg)}"
    using pl unfolding pool_def inj_on_def by (metis lessThan_iff)
  with fg(1,3-5) n channels_ok_at(1)[OF ok] show ?thesis by auto
qed

theorem receiver_starts_witness:
  "\<exists>fg. start_flowgraph sample_config ([] :: unit status_map) = Some fg \<and> length (channels fg) = 2 \<and>
    sig_at fg 0 \<noteq> sig_at fg 1 \<and> state_at fg 0 = 2 \<and> state_at fg 1 = 1 \<and> acq_channels_count fg = 1"
proof -
  obtain fg where fg: "start_flowgraph sample_config ([] :: unit status_map) = Some fg" "length (channels fg) = 2"
    "inj_on (sig_at fg) {..<2}" "acq_channels_count fg = 1" "\<forall>i < 2. state_at fg i = (if int i < 1 then 2 else 1)"
    using receiver_starts[OF sample_startable, of "[] :: unit status_map"] by (auto simp: sample_signals sample_limit numeral_2_eq_2)
  have "sig_at fg 0 \<noteq> sig_at fg 1" using inj_onD[OF fg(3), of 0 1] by auto
  then show ?thesis using fg by auto
qed


text \<open>
  The scope of the properties of the running receiver, which each of them states in full: a startable
  configuration; the flowgraph as started from it; then any messages of the channels, any rounds of the
  control thread with any status of the channels, and telecommands that stop or restart the receiver or
  start it cold or warm. Left out are the telecommands for standby and hot start and the assistance with
  visible satellites before the first round, after which the properties can fail: a hot start throws on a
  signal that is not configured (\<open>priorize_returns_iff\<close>), a standby hands out a fixed satellite
  a second time (\<open>standby_shares_fixed_satellite\<close>), and a report that is older than a standby is booked
  for a channel that was stopped (\<open>stale_success_wedges_channel\<close>).
\<close>

lemma reachableI:
  "startable cfg \<Longrightarrow> start_flowgraph cfg status0 = Some fg0 \<Longrightarrow>
     system_reachable cfg plain_command (make_control_thread fg0, []) s \<Longrightarrow> receiver_reachable cfg s"
  by (auto simp: receiver_reachable_def)

text \<open>C7: Without standby and hot start the control of the receiver cannot fail. Scope: no channel has a fixed
  satellite, there are at most 200 channels, the lists of signals are in order (\<open>startable\<close>), no
  satellites are prioritized, and the only telecommands are stop, restart, cold start and warm start.
  In every state the receiver then reaches from its start, with any status of the channels, any
  visible satellites and any message of a channel, the round of the control thread and the handlers of
  the channels return normally; in particular the exception for more acquisition channels than
  satellites is never thrown.\<close>

theorem control_never_throws:
  assumes "startable cfg" "start_flowgraph cfg status0 = Some fg0"
    and "system_reachable cfg plain_command (make_control_thread fg0, []) (ct, q)"
  shows "control_round cfg status visible (ct, q) \<noteq> None \<and>
    (i < length (channels (flowgraph ct)) \<longrightarrow> block_message i m (ct, q) \<noteq> None)"
proof -
  note reach = reachableI[OF assms]
  from startable_list[OF assms(1)] obtain avail where avail: "set_signals_list cfg [] = Some avail" ..
  note inv = receiver_reachable_inv[OF reach avail] and n = receiver_reachable_size[OF reach]
  from inv have c: "length (channels (flowgraph ct)) = length (channel_signals cfg)"
    by (simp add: system_inv_def fg_inv_def channels_ok_def)
  from control_round_ok[of cfg _ _ "(ct, q)" status visible] inv n have "control_round cfg status visible (ct, q) \<noteq> None"
    by blast
  moreover have "block_message i m (ct, q) \<noteq> None" if "i < length (channels (flowgraph ct))"
  proof -
    have "system_inv cfg (channel_signals cfg) (pool_of avail) (ct, q)" "i < length (channel_signals cfg)"
      using inv c that by simp_all
    from block_message_ok[OF this n, of m] show ?thesis by blast
  qed
  ultimately show ?thesis by simp
qed

theorem control_never_throws_witness:
  "control_round sample_config [] [] (make_control_thread sample_fg, []) \<noteq> None"
  using control_never_throws[OF sample_startable sample_started system_reachable.start] by blast

definition held_signals :: "string \<Rightarrow> 'd flowgraph \<Rightarrow> gnss_signal list" where
  "held_signals str fg = map (sig_at fg)
     (filter (\<lambda>i. state_at fg i \<noteq> 0 \<and> gs_signal (sig_at fg i) = str) [0..<length (channels fg)])"

lemma held_signals_pool:
  assumes free: "\<forall>i < length sigs. fixed_satellite cfg i = 0" and inv: "fg_inv cfg sigs P {} fg"
    and l: "avail_of fg str = Some l"
  shows "distinct (l @ held_signals str fg) \<and> set (l @ held_signals str fg) = P str"
proof -
  have pl: "pool P (avail_of fg) (held_of cfg fg) {}" and n: "length (channels fg) = length sigs"
    using inv by (simp_all add: fg_inv_def signals_ok_def channels_ok_def)
  note o = pool_list[OF pl l]
  have h: "held_of cfg fg i = Some (sig_at fg i)" if "i < length (channels fg)" "state_at fg i \<noteq> 0" for i
    using that n free by (simp add: held_of_def)
  have hs: "set (held_signals str fg) = {g \<in> ran (held_of cfg fg). gs_signal g = str}"
  proof (intro equalityI subsetI)
    fix g assume "g \<in> set (held_signals str fg)"
    then obtain i where "i < length (channels fg)" "state_at fg i \<noteq> 0" "gs_signal g = str" "g = sig_at fg i"
      by (auto simp: held_signals_def)
    with h show "g \<in> {g \<in> ran (held_of cfg fg). gs_signal g = str}" by (auto intro: ranI)
  next
    fix g assume "g \<in> {g \<in> ran (held_of cfg fg). gs_signal g = str}"
    then obtain i where "held_of cfg fg i = Some g" "gs_signal g = str" by (auto simp: ran_def)
    then have "i < length (channels fg)" "state_at fg i \<noteq> 0" "gs_signal (sig_at fg i) = str" "g = sig_at fg i"
      by (auto simp: held_of_def split: if_splits)
    then show "g \<in> set (held_signals str fg)" by (auto simp: held_signals_def)
  qed
  have "inj_on (sig_at fg) (set (filter (\<lambda>i. state_at fg i \<noteq> 0 \<and> gs_signal (sig_at fg i) = str) [0..<length (channels fg)]))"
  proof (rule inj_onI)
    fix i j
    assume "i \<in> set (filter (\<lambda>i. state_at fg i \<noteq> 0 \<and> gs_signal (sig_at fg i) = str) [0..<length (channels fg)])"
      "j \<in> set (filter (\<lambda>i. state_at fg i \<noteq> 0 \<and> gs_signal (sig_at fg i) = str) [0..<length (channels fg)])"
      "sig_at fg i = sig_at fg j"
    then have "held_of cfg fg i = Some (sig_at fg i)" "held_of cfg fg j = Some (sig_at fg i)"
      using h[of i] h[of j] by auto
    then show "i = j" using pl unfolding pool_def by blast
  qed
  then have "distinct (held_signals str fg)" by (simp add: held_signals_def distinct_map)
  with o hs show ?thesis by auto
qed

text \<open>C8: Without standby and hot start no satellite is lost and none is searched or tracked twice. Scope: no
  channel has a fixed satellite, there are at most 200 channels, the lists of signals are in order
  (\<open>startable\<close>), no satellites are prioritized, and the only telecommands are stop, restart, cold
  start and warm start. In every state the receiver then reaches and for every signal, the available
  satellites together with those of the channels that are not idle are exactly the satellites listed
  at the start, each of them once.\<close>

theorem signals_are_conserved:
  assumes "startable cfg" "start_flowgraph cfg status0 = Some fg0"
    and "system_reachable cfg plain_command (make_control_thread fg0, []) (ct, q)"
    and "set_signals_list cfg [] = Some avail" "str \<in> set (channel_signals cfg)"
  shows "\<exists>l0 l. map_of avail str = Some l0 \<and> map_of (available_signals_map (flowgraph ct)) str = Some l \<and>
    distinct (l @ held_signals str (flowgraph ct)) \<and> set (l @ held_signals str (flowgraph ct)) = set l0"
proof -
  have inv: "fg_inv cfg (channel_signals cfg) (pool_of avail) {} (flowgraph ct)"
    using receiver_reachable_inv[OF reachableI[OF assms(1-3)] assms(4)] by (simp add: system_inv_def)
  have free: "\<forall>i < length (channel_signals cfg). fixed_satellite cfg i = 0"
    using assms(1) by (simp add: startable_def)
  from inv assms(5) obtain l where l: "avail_of (flowgraph ct) str = Some l"
    by (auto simp: fg_inv_def signals_ok_def)
  from signals_list_keys[OF assms(4), of str] assms(5) obtain l0 where l0: "map_of avail str = Some l0"
    by (auto simp: set_channel_signals)
  from held_signals_pool[OF free inv l] l l0 show ?thesis by (auto simp: avail_of_def pool_of_def)
qed

theorem signals_are_conserved_witness:
  "\<exists>l. map_of (available_signals_map sample_fg) ''1C'' = Some l \<and>
    set (l @ held_signals ''1C'' sample_fg) = {gps 3, gps 7, gps 11}"
  using signals_are_conserved[OF sample_startable sample_started system_reachable.start sample_list, of "''1C''"]
  by (auto simp: sample_signals make_control_thread_def)

text \<open>C23: Without standby and hot start the number of simultaneous acquisitions is bounded as configured.
  Scope: no channel has a fixed satellite, there are at most 200 channels, the lists of signals are in
  order (\<open>startable\<close>), no satellites are prioritized, and the only telecommands are stop, restart,
  cold start and warm start. In every state the receiver then reaches, the counter of the flowgraph is
  the number of channels in acquisition, and it is at most \<open>Channels.in_acquisition\<close>, when that is
  given, and at most the number of channels.\<close>

theorem acquisition_slots_bounded:
  assumes "startable cfg" "start_flowgraph cfg status0 = Some fg0"
    and "system_reachable cfg plain_command (make_control_thread fg0, []) (ct, q)"
  shows "acq_channels_count (flowgraph ct) = int (count_list (channels_state (flowgraph ct)) 2) \<and>
    acq_channels_count (flowgraph ct) \<le> acquisition_limit cfg"
proof -
  from startable_list[OF assms(1)] obtain avail where avail: "set_signals_list cfg [] = Some avail" ..
  have "fg_inv cfg (channel_signals cfg) (pool_of avail) {} (flowgraph ct)"
    using receiver_reachable_inv[OF reachableI[OF assms] avail] by (simp add: system_inv_def)
  moreover have "max_acq_channels (flowgraph ct) = max_acq_channels fg0"
    using reachable_shape[OF assms(3)] by (simp add: shape_def make_control_thread_def)
  moreover have "max_acq_channels fg0 = acquisition_limit cfg"
    using startup_ok[OF assms(1) avail, of status0] assms(2) by auto
  ultimately show ?thesis by (simp add: fg_inv_def slots_ok_def)
qed

theorem acquisition_slots_bounded_witness:
  "acq_channels_count sample_fg \<le> 1"
  using acquisition_slots_bounded[OF sample_startable sample_started system_reachable.start]
  by (simp add: make_control_thread_def sample_limit)

text \<open>C9: Without standby and hot start the flowgraph and the state machines of the channels agree. Scope: no
  channel has a fixed satellite, there are at most 200 channels, the lists of signals are in order
  (\<open>startable\<close>), no satellites are prioritized, and the only telecommands are stop, restart, cold
  start and warm start. In every state the receiver then reaches, a channel of which the queue holds
  no event is in acquisition, in tracking or neither in the books of the flowgraph exactly when its
  state machine is.\<close>

theorem flowgraph_agrees_with_channels:
  assumes "startable cfg" "start_flowgraph cfg status0 = Some fg0"
    and "system_reachable cfg plain_command (make_control_thread fg0, []) (ct, q)"
    and "i < length (channels (flowgraph ct))" "pending i q = []"
  shows "(state_at (flowgraph ct) i = 2 \<longleftrightarrow> mode_at (flowgraph ct) i = 1) \<and>
    (state_at (flowgraph ct) i = 3 \<longleftrightarrow> mode_at (flowgraph ct) i = 2) \<and>
    (state_at (flowgraph ct) i = 0 \<or> state_at (flowgraph ct) i = 1 \<longleftrightarrow>
     mode_at (flowgraph ct) i = 0 \<or> mode_at (flowgraph ct) i = 3)"
proof -
  from startable_list[OF assms(1)] obtain avail where avail: "set_signals_list cfg [] = Some avail" ..
  have "link (state_at (flowgraph ct) i) (mode_at (flowgraph ct) i) []"
    using receiver_reachable_inv[OF reachableI[OF assms(1-3)] avail] assms(4,5)
    by (auto simp: system_inv_def fg_inv_def channels_ok_def)
  then show ?thesis by (auto simp: link_def)
qed

theorem flowgraph_agrees_with_channels_witness:
  "0 < length (channels sample_fg) \<and> (state_at sample_fg 0 = 2 \<longleftrightarrow> mode_at sample_fg 0 = 1)"
proof -
  have "0 < length (channels sample_fg)"
    using startup_ok[OF sample_startable sample_list, of "[] :: unit status_map"] sample_started
    by (auto simp: system_inv_def make_control_thread_def fg_inv_def channels_ok_def sample_signals)
  with flowgraph_agrees_with_channels[OF sample_startable sample_started system_reachable.start, of 0] show ?thesis
    by (simp add: make_control_thread_def)
qed

end
