(* ===== verification/Control_Liveness.thy ===== *)
theory Control_Liveness
  imports Control_Properties
begin

text \<open>
  What the acquisition manager achieves: no acquisition slot is left unused. And a concrete run of the
  receiver, evaluated step by step.
\<close>

section \<open>The manager leaves no slot unused\<close>

definition settled :: "string list \<Rightarrow> 'd flowgraph \<Rightarrow> nat \<Rightarrow> bool" where
  "settled sigs fg i \<longleftrightarrow> (acq_channels_count fg < max_acq_channels fg \<longrightarrow>
     state_at fg i = 2 \<or> state_at fg i = 3 \<or> (state_at fg i = 0 \<and> \<not> is_primary (sigs ! i)))"

lemma only_starts_count:
  assumes "only_starts fg fg'" "fg_inv cfg sigs P L fg" "fg_inv cfg sigs P L' fg'"
  shows "acq_channels_count fg \<le> acq_channels_count fg'"
proof -
  have n: "length (channels_state fg) = length sigs" "length (channels_state fg') = length sigs"
    "length (channels fg) = length sigs"
    using assms(2,3) by (simp_all add: fg_inv_def channels_ok_def)
  have "{i. i < length (channels_state fg) \<and> channels_state fg ! i = 2} \<subseteq>
      {i. i < length (channels_state fg') \<and> channels_state fg' ! i = 2}"
    using assms(1) n by (auto simp: only_starts_def state_at_def)
  then have "card {i. i < length (channels_state fg) \<and> channels_state fg ! i = 2} \<le>
      card {i. i < length (channels_state fg') \<and> channels_state fg' ! i = 2}"
    by (intro card_mono) auto
  then show ?thesis using assms(2,3) by (simp add: card_positions fg_inv_def slots_ok_def)
qed

lemma settled_only_starts:
  assumes "settled sigs fg i" "only_starts fg fg'" "fg_inv cfg sigs P L fg" "fg_inv cfg sigs P L' fg'"
    "i < length sigs"
  shows "settled sigs fg' i"
proof -
  have "max_acq_channels fg' = max_acq_channels fg" "i < length (channels fg)"
    using assms by (auto simp: only_starts_def fg_inv_def channels_ok_def)
  moreover from this(2) have "(state_at fg' i = state_at fg i) \<or> state_at fg' i = 2"
    using assms(2) by (auto simp: only_starts_def)
  ultimately show ?thesis using assms(1) only_starts_count[OF assms(2-4)] by (auto simp: settled_def)
qed

lemma search_primary:
  "search_next_signal cfg status s avail = Some (r, avail') \<Longrightarrow> is_primary_frequency r = is_primary s"
  by (auto simp: search_next_signal_def bind_eq_Some_conv split: if_splits option.splits)

lemma begin_state: "begin_acquisition i d c fg = Some fg' \<Longrightarrow> state_at fg' i = 2"
  by (auto simp: begin_acquisition_def bind_eq_Some_conv state_at_def vput_def split: if_splits)

lemma acquire_next_state:
  assumes "acquire_next cfg status i c fg = Some fg'" "is_primary (gs_signal (ch_signal c))"
  shows "state_at fg' i = 2"
  using assms search_primary[of cfg status "gs_signal (ch_signal c)" "available_signals_map fg"]
  by (auto simp: acquire_next_def bind_eq_Some_conv Let_def intro: begin_state)

lemma manage_channel_settles:
  assumes sup: "supplied cfg sigs P" and inv: "fg_inv cfg sigs P L fg" and i: "i < length sigs"
    and L: "finite L" "card L \<le> 1" and m: "manage_channel cfg status i fg = Some fg'"
  shows "settled sigs fg' i"
proof -
  from manage_channel_ok[OF sup inv i L, of status] m
  have inv': "fg_inv cfg sigs P L fg'" and rel: "only_starts fg fg'" by auto
  have ok: "channels_ok sigs fg" using inv by (simp add: fg_inv_def)
  note v = vget_state[OF ok i] vget_channel[OF ok i]
  have mono: "acq_channels_count fg \<le> acq_channels_count fg'" by (rule only_starts_count[OF rel inv inv'])
  have max: "max_acq_channels fg' = max_acq_channels fg" using rel by (simp add: only_starts_def)
  have st: "state_at fg i = 0 \<or> state_at fg i = 1 \<or> state_at fg i = 2 \<or> state_at fg i = 3"
    using channels_ok_at(4)[OF ok i] by auto
  consider "\<not> acq_channels_count fg < max_acq_channels fg"
    | "acq_channels_count fg < max_acq_channels fg" "\<not> state_at fg i \<le> 1"
    | "acq_channels_count fg < max_acq_channels fg" "state_at fg i \<le> 1" by blast
  then show ?thesis
  proof cases
    case 1
    with mono max show ?thesis by (simp add: settled_def)
  next
    case 2
    with m v st have "fg' = fg" "state_at fg i = 2 \<or> state_at fg i = 3"
      by (auto simp: manage_channel_def)
    then show ?thesis by (auto simp: settled_def)
  next
    case 3
    show ?thesis
    proof (cases "fixed_satellite cfg i = 0 \<and> state_at fg i = 0")
      case True
      with 3 m v have a: "acquire_next cfg status i (channels fg ! i) fg = Some fg'"
        by (simp add: manage_channel_def)
      have g: "gs_signal (ch_signal (channels fg ! i)) = sigs ! i"
        using channels_ok_at(1)[OF ok i] by (simp add: sig_at_def)
      have "state_at fg' i = state_at fg i \<or> state_at fg' i = 2"
        using rel i ok by (auto simp: only_starts_def channels_ok_def)
      with acquire_next_state[OF a] g True show ?thesis by (auto simp: settled_def)
    next
      case False
      with 3 m v have "acquire_own i (channels fg ! i) fg = Some fg'" by (simp add: manage_channel_def)
      then have "state_at fg' i = 2"
        by (auto simp: acquire_own_def bind_eq_Some_conv intro: begin_state)
      then show ?thesis by (simp add: settled_def)
    qed
  qed
qed

lemma manager_settles:
  assumes sup: "supplied cfg sigs P" and L: "finite L" "card L \<le> 1" and n: "0 < length sigs"
  shows "fg_inv cfg sigs P L fg \<Longrightarrow>
    foldM (\<lambda>i. manage_channel cfg status ((i + who + 1) mod length sigs)) [0..<k] fg = Some fg' \<Longrightarrow>
    fg_inv cfg sigs P L fg' \<and> (\<forall>i < k. settled sigs fg' ((i + who + 1) mod length sigs))"
proof (induction k arbitrary: fg')
  case 0
  then show ?case by simp
next
  case (Suc k)
  let ?j = "(k + who + 1) mod length sigs"
  from Suc.prems(2) obtain h where h: "foldM (\<lambda>i. manage_channel cfg status ((i + who + 1) mod length sigs)) [0..<k] fg = Some h"
    "manage_channel cfg status ?j h = Some fg'"
    by (auto simp: foldM_append bind_eq_Some_conv)
  from Suc.IH[OF Suc.prems(1) h(1)] have ih: "fg_inv cfg sigs P L h"
    "\<forall>i < k. settled sigs h ((i + who + 1) mod length sigs)" by auto
  have j: "?j < length sigs" using n by (rule mod_less_divisor)
  from manage_channel_ok[OF sup ih(1) j L, of status] h(2)
  have inv': "fg_inv cfg sigs P L fg'" and rel: "only_starts h fg'" by auto
  have "settled sigs fg' ((i + who + 1) mod length sigs)" if "i < k" for i
    using that n by (intro settled_only_starts[OF _ rel ih(1) inv'] mod_less_divisor) (use ih(2) in auto)
  with manage_channel_settles[OF sup ih(1) j L h(2)] inv' show ?case by (auto simp: less_Suc_eq)
qed

lemma rotation_hits: "j < n \<Longrightarrow> \<exists>i < n. (i + who + 1) mod n = (j :: nat)"
proof -
  assume j: "j < n"
  let ?i = "(j + (n - (who + 1) mod n)) mod n"
  have "(?i + who + 1) mod n = (j + (n - (who + 1) mod n) + (who + 1)) mod n"
    by (metis add.assoc mod_add_left_eq)
  also have "\<dots> = (j + (n - (who + 1) mod n) + (who + 1) mod n) mod n" by (metis mod_add_right_eq)
  also have "j + (n - (who + 1) mod n) + (who + 1) mod n = j + n"
  proof -
    have "(who + 1) mod n < n" using j by (intro mod_less_divisor) auto
    then show ?thesis by linarith
  qed
  finally have "(?i + who + 1) mod n = j" using j by simp
  moreover have "?i < n" using j by simp
  ultimately show ?thesis by blast
qed

text \<open>C22: The acquisition manager leaves no acquisition slot unused: when slots are free after it has
  run, every channel acquires or tracks, except idle channels of secondary frequencies, which
  wait for assistance. As above, the manager starts in a state that a startable receiver reaches
  without standby and hot start (\<open>receiver_reachable\<close>).\<close>

theorem manager_uses_all_slots:
  assumes "receiver_reachable cfg (ct, q)"
    and "acquisition_manager cfg status who (flowgraph ct) = Some fg'"
    and "acq_channels_count fg' < max_acq_channels fg'" and "i < length (channels fg')"
  shows "state_at fg' i = 2 \<or> state_at fg' i = 3 \<or>
    (state_at fg' i = 0 \<and> \<not> is_primary (gs_signal (sig_at fg' i)))"
proof -
  from assms(1) startable_list obtain avail where avail: "set_signals_list cfg [] = Some avail"
    by (auto simp: receiver_reachable_def)
  let ?sigs = "channel_signals cfg" and ?P = "pool_of avail"
  have sup: "supplied cfg ?sigs ?P" and inv: "fg_inv cfg ?sigs ?P {} (flowgraph ct)"
    using receiver_reachable_inv[OF assms(1) avail] by (simp_all add: system_inv_def)
  from acquisition_manager_ok[OF sup inv, of status who] assms(2)
  have inv': "fg_inv cfg ?sigs ?P {} fg'" by simp
  then have i: "i < length ?sigs" and sig: "gs_signal (sig_at fg' i) = ?sigs ! i"
    using assms(4) by (auto simp: fg_inv_def channels_ok_def)
  have "length (channels (flowgraph ct)) = length ?sigs" using inv by (simp add: fg_inv_def channels_ok_def)
  with assms(2) have f: "foldM (\<lambda>i. manage_channel cfg status ((i + who + 1) mod length ?sigs)) [0..<length ?sigs]
      (flowgraph ct) = Some fg'"
    by (simp add: acquisition_manager_def Let_def)
  from rotation_hits[OF i, of who] obtain k where "k < length ?sigs" "(k + who + 1) mod length ?sigs = i" by blast
  moreover have "0 < length ?sigs" using i by (cases "length ?sigs") auto
  ultimately have "settled ?sigs fg' i"
    using manager_settles[OF sup _ _ _ inv f] by (metis card.empty finite.emptyI zero_le)
  with assms(3) sig show ?thesis by (simp add: settled_def)
qed


section \<open>Concrete runs\<close>

datatype action = Block nat int | Telecommand command_event | Round

fun act :: "fg_config \<Rightarrow> action \<Rightarrow> 'd system \<Rightarrow> 'd system option" where
  "act cfg (Block i m) s = (if i < length (channels (flowgraph (fst s))) then block_message i m s else None)"
| "act cfg (Telecommand c) s = Some (fst s, cq_push (Command_msg c) (snd s))"
| "act cfg Round s = control_round cfg [] [] s"

definition allowed_action :: "(command_event \<Rightarrow> bool) \<Rightarrow> action \<Rightarrow> bool" where
  "allowed_action P a = (case a of Telecommand c \<Rightarrow> P c | _ \<Rightarrow> True)"

lemma act_step: "act cfg a s = Some s' \<Longrightarrow> allowed_action P a \<Longrightarrow> system_step cfg P s s'"
  by (cases a) (auto simp: allowed_action_def split: if_splits
      intro: system_step.block_msg system_step.round system_step.telecommand[of P _ cfg "fst s" "snd s", simplified])

lemma acts_reachable:
  "foldM (act cfg) as s = Some s' \<Longrightarrow> list_all (allowed_action P) as \<Longrightarrow> system_reachable cfg P s0 s
    \<Longrightarrow> system_reachable cfg P s0 s'"
proof (induction as arbitrary: s)
  case Nil
  then show ?case by simp
next
  case (Cons a as)
  then obtain t where t: "act cfg a s = Some t" "foldM (act cfg) as t = Some s'"
    by (auto simp: bind_eq_Some_conv)
  with Cons.prems act_step[of cfg a s t P] have "system_reachable cfg P s0 t"
    by (auto intro: system_reachable.step)
  with Cons.IH[OF t(2)] Cons.prems show ?case by simp
qed

text \<open>The sample receiver after a success of its first channel and with the second one tracking
  too: one slot, and a third satellite that nobody needs.\<close>

definition sample_tracking :: "unit system" where
  "sample_tracking = the (foldM (act sample_config) [Block 0 1, Round, Block 1 1, Round] (make_control_thread sample_fg, []))"

lemma sample_fg_run: "foldM (act sample_config) [Block 0 1, Round, Block 1 1, Round] (make_control_thread sample_fg, [])
    = Some sample_tracking"
proof -
  have "foldM (act sample_config) [Block 0 1, Round, Block 1 1, Round]
      (make_control_thread (the (start_flowgraph sample_config ([] :: unit status_map))), []) \<noteq> None"
    by code_simp
  then show ?thesis by (auto simp: sample_tracking_def sample_fg_def)
qed

lemma sample_tracking_reachable: "receiver_reachable sample_config sample_tracking"
proof -
  have "system_reachable sample_config plain_command (make_control_thread sample_fg, []) sample_tracking"
    by (rule acts_reachable[OF sample_fg_run _ system_reachable.start]) (simp add: allowed_action_def)
  then show ?thesis
    unfolding receiver_reachable_def using sample_startable sample_started by blast
qed

lemma sample_tracking_manager:
  "\<exists>fg'. acquisition_manager sample_config [] 0 (flowgraph (fst sample_tracking)) = Some fg' \<and>
    acq_channels_count fg' < max_acq_channels fg' \<and> length (channels fg') = 2"
proof -
  have "(case foldM (act sample_config) [Block 0 1, Round, Block 1 1, Round]
      (make_control_thread (the (start_flowgraph sample_config ([] :: unit status_map))), []) of
      None \<Rightarrow> False
    | Some s \<Rightarrow> (case acquisition_manager sample_config [] 0 (flowgraph (fst s)) of
        None \<Rightarrow> False
      | Some fg' \<Rightarrow> acq_channels_count fg' < max_acq_channels fg' \<and> length (channels fg') = 2))"
    by code_simp
  with sample_fg_run show ?thesis by (auto simp: sample_fg_def split: option.splits)
qed

theorem manager_uses_all_slots_witness:
  "\<exists>fg'. acquisition_manager sample_config [] 0 (flowgraph (fst sample_tracking)) = Some fg' \<and>
    (state_at fg' 1 = 2 \<or> state_at fg' 1 = 3)"
proof -
  obtain ct q where s: "sample_tracking = (ct, q)" by (cases sample_tracking)
  from sample_tracking_manager[unfolded s] obtain fg' where f: "acquisition_manager sample_config [] 0 (flowgraph ct) = Some fg'"
    "acq_channels_count fg' < max_acq_channels fg'" "1 < length (channels fg')" by auto
  from manager_uses_all_slots[OF sample_tracking_reachable[unfolded s] f]
  have "state_at fg' 1 = 2 \<or> state_at fg' 1 = 3 \<or> (state_at fg' 1 = 0 \<and> \<not> is_primary (gs_signal (sig_at fg' 1)))" .
  moreover have "gs_signal (sig_at fg' 1) = ''1C''"
  proof -
    have "fg_inv sample_config (channel_signals sample_config) (pool_of [(''1C'', [gps 3, gps 7, gps 11])]) {} fg'"
      using acquisition_manager_ok[of sample_config _ _ "{}" "flowgraph ct" "[]" 0] f(1)
        receiver_reachable_inv[OF sample_tracking_reachable[unfolded s] sample_list]
      by (fastforce simp: system_inv_def)
    then show ?thesis by (auto simp: fg_inv_def channels_ok_def sample_signals)
  qed
  ultimately show ?thesis unfolding s using f(1) by (auto simp: is_primary_def signal_value_def mapStringValues_def)
qed

end
