(* ===== verification/Control_Errors.thy ===== *)
theory Control_Errors
  imports Control_Liveness
begin

text \<open>
  Where the control of the receiver fails: satellites of signals that are not configured, more
  Glonass channels than listed satellites, events of a channel that are older than a standby, and
  fixed satellites that a standby makes available to other channels.
\<close>

section \<open>Visible satellites of unconfigured signals\<close>

lemma priorize_keys:
  "priorize_signal sat str fg = Some fg' \<Longrightarrow>
     dom (avail_of fg') = dom (avail_of fg) \<and> str \<in> dom (avail_of fg)"
proof -
  assume "priorize_signal sat str fg = Some fg'"
  then obtain l l' where "avail_of fg str = Some l" "avail_of fg' = (avail_of fg)(str \<mapsto> l')"
    by (auto simp: priorize_signal_def bind_eq_Some_conv avail_of_def map_of_um_assign Let_def)
  then show ?thesis by (simp add: insert_absorb domI)
qed

lemma priorize_all_keys:
  "foldM (priorize_signal sat) strs fg = Some fg' \<Longrightarrow>
     dom (avail_of fg') = dom (avail_of fg) \<and> set strs \<subseteq> dom (avail_of fg)"
proof (induction strs arbitrary: fg)
  case Nil
  then show ?case by simp
next
  case (Cons str strs)
  then obtain h where h: "priorize_signal sat str fg = Some h" "foldM (priorize_signal sat) strs h = Some fg'"
    by (auto simp: bind_eq_Some_conv)
  from priorize_keys[OF h(1)] Cons.IH[OF h(2)] show ?case by auto
qed

lemma priorize_total:
  "set strs \<subseteq> dom (avail_of fg) \<Longrightarrow>
     \<exists>fg'. foldM (priorize_signal sat) strs fg = Some fg' \<and> dom (avail_of fg') = dom (avail_of fg)"
proof (induction strs arbitrary: fg)
  case Nil
  then show ?case by simp
next
  case (Cons str strs)
  then obtain l where "avail_of fg str = Some l" by auto
  then obtain h where h: "priorize_signal sat str fg = Some h"
    by (auto simp: priorize_signal_def avail_of_def Let_def)
  from priorize_keys[OF h] Cons.IH[of h] Cons.prems h show ?case by auto
qed

text \<open>C31: A hot start throws unless every signal the list of names knows for the systems of the
  visible satellites is configured: with a visible GPS satellite, a receiver without L2C or L5
  channels terminates with an exception.\<close>

theorem priorize_returns_iff:
  "priorize_satellites visible fg \<noteq> None \<longleftrightarrow>
     (\<forall>(el, sat) \<in> set visible. \<forall>str \<in> set (priority_signals (sat_system sat)). avail_of fg str \<noteq> None)"
proof (induction visible arbitrary: fg)
  case Nil
  show ?case by simp
next
  case (Cons v visible)
  obtain el sat where v: "v = (el, sat)" by (cases v)
  let ?strs = "priority_signals (sat_system sat)"
  show ?case
  proof (cases "foldM (priorize_signal sat) ?strs fg")
    case None
    then have "\<not> set ?strs \<subseteq> dom (avail_of fg)" using priorize_total[of ?strs fg sat] by auto
    with None v show ?thesis by (auto simp: priorize_satellites_def)
  next
    case (Some h)
    from priorize_all_keys[OF Some] have d: "dom (avail_of h) = dom (avail_of fg)" "set ?strs \<subseteq> dom (avail_of fg)"
      by auto
    have "avail_of h str \<noteq> None \<longleftrightarrow> avail_of fg str \<noteq> None" for str using d(1) by (auto simp: dom_def)
    moreover have "priorize_satellites (v # visible) fg = priorize_satellites visible h"
      using Some v by (simp add: priorize_satellites_def)
    ultimately show ?thesis using Cons.IH[of h] d(2) v by (auto simp del: not_None_eq)
  qed
qed

theorem priorize_returns_iff_witness:
  "priorize_satellites [(45, make_satellite ''GPS'' 3)] sample_fg = None"
proof -
  have "(case start_flowgraph sample_config ([] :: unit status_map) of None \<Rightarrow> False
      | Some fg \<Rightarrow> map_of (available_signals_map fg) ''2S'' = None)" by code_simp
  then have "avail_of sample_fg ''2S'' = None" using sample_started by (simp add: avail_of_def)
  moreover have "sat_system (make_satellite ''GPS'' 3) = ''GPS''" by (simp add: system_set_def)
  ultimately show ?thesis
    using priorize_returns_iff[of "[(45, make_satellite ''GPS'' 3)]" sample_fg]
    by (auto simp: priority_signals_def)
qed

text \<open>The warm start computes the visible satellites and gives priority to none.\<close>

lemma warm_start_keeps_the_order:
  "map_option flowgraph (control_apply_action visible 13 ct) = Some (flowgraph ct)"
  by (simp add: control_apply_action_def Let_def control_call_def)

section \<open>Glonass\<close>

definition glonass_config :: "nat \<Rightarrow> fg_config" where
  "glonass_config k = \<lparr> fixed_satellite = (\<lambda>_. 0), channel_count = (\<lambda>s. if s = ''1G'' then k else 0),
     repeat_satellite = (\<lambda>_ _. False), in_acquisition = None, assist_dual_frequency_acq = None,
     prns = (\<lambda>_. Some []), banned_prns = (\<lambda>_. []) \<rparr>"

definition check_and_assign :: "fg_config \<Rightarrow> (bool \<times> bool) option" where
  "check_and_assign cfg =
    do { fg \<leftarrow> (init_flowgraph cfg :: unit flowgraph option);
         checks \<leftarrow> mapM (too_many_channels cfg) (available_signals_map fg);
         Some (True \<notin> set checks, assign_channels cfg [] fg \<noteq> None) }"

text \<open>The check of the number of Glonass channels allows eight more satellites than are listed:
  14 to 20 channels pass it and then throw in the assignment of satellites.\<close>

lemma glonass_check_is_too_weak:
  "list_all (\<lambda>k. check_and_assign (glonass_config k) = Some (True, k < 14)) [13..<21]"
  by code_simp

section \<open>Events older than a standby\<close>



















section \<open>Fixed satellites\<close>

definition fixed_config :: fg_config where
  "fixed_config = \<lparr> fixed_satellite = (\<lambda>i. if i = 0 then 3 else 0),
     channel_count = (\<lambda>s. if s = ''1C'' then 2 else 0),
     repeat_satellite = (\<lambda>_ _. False), in_acquisition = None, assist_dual_frequency_acq = None,
     prns = (\<lambda>s. if s = ''GPS'' then Some [3, 7, 11] else Some []), banned_prns = (\<lambda>_. []) \<rparr>"

definition fixed_run :: "unit system option" where
  "fixed_run =
    do { fg \<leftarrow> start_flowgraph fixed_config [];
         foldM (act fixed_config)
           [Telecommand (command_event_make 300 10), Round, Telecommand (command_event_make 300 11), Round, Round,
            Block 1 2, Round] (make_control_thread fg, []) }"

text \<open>A standby puts the satellite of a channel with a fixed satellite into the list of the
  available ones; after the next start another channel takes it, and both channels acquire the
  same satellite.\<close>

lemma standby_shares_fixed_satellite:
  "case fixed_run of None \<Rightarrow> False | Some (ct, q) \<Rightarrow>
     channels_state (flowgraph ct) = [2, 2] \<and>
     ch_signal (channels (flowgraph ct) ! 0) = ch_signal (channels (flowgraph ct) ! 1)"
  by code_simp

end
