(* ===== verification/Galois_Field.thy ===== *)
theory Galois_Field
  imports Prelude
begin

text \<open>
  The Galois field of 256 elements the Reed-Solomon codes of the receiver work in, as an
  instance of the class of fields, so that the library's facts about sums, products and powers
  apply to it. Nothing here models code; \<open>Reed_Solomon\<close> relates the tables of the decoder to it.
\<close>

section \<open>Multiplication by the primitive element\<close>

definition xtime :: "u8 \<Rightarrow> u8" where
  "xtime b = push_bit 1 b XOR (if bit b 7 then 29 else 0)"

lemma xtime_xor: "xtime (a XOR b) = xtime a XOR xtime b"
  by (simp add: xtime_def push_bit_xor bit_xor_iff xor.assoc xor.left_commute)

lemma xtime_0 [simp]: "xtime 0 = 0"
  by (simp add: xtime_def)

lemma xtime_pow_xor: "(xtime ^^ n) (a XOR b) = (xtime ^^ n) a XOR (xtime ^^ n) b"
  by (induction n) (simp_all add: xtime_xor)

lemma xtime_pow_0 [simp]: "(xtime ^^ n) 0 = 0"
  by (induction n) simp_all

definition alpha :: "nat \<Rightarrow> u8" where
  "alpha n = (xtime ^^ n) 1"

lemma alpha_0 [simp]: "alpha 0 = 1"
  by (simp add: alpha_def)

lemma alpha_Suc: "alpha (Suc n) = xtime (alpha n)"
  by (simp add: alpha_def)

lemma alpha_add: "alpha (n + k) = (xtime ^^ k) (alpha n)"
  by (simp add: alpha_def funpow_add add.commute)

text \<open>The order of \<open>\<alpha>\<close> divides 255 and none of 85, 51 and 15, so it is 255.\<close>

lemma funpow_numeral_start: "(f ^^ numeral k) a = (f ^^ pred_numeral k) (f a)"
  by (simp add: numeral_eq_Suc funpow_swap1)

lemma alpha_15: "alpha 15 = 38"
  by (simp add: alpha_def xtime_def funpow_numeral_start)

lemma alpha_51: "alpha 51 = 10"
  using alpha_add[of 15 36] by (simp add: alpha_15 xtime_def funpow_numeral_start)

lemma alpha_85: "alpha 85 = 214"
  using alpha_add[of 51 34] by (simp add: alpha_51 xtime_def funpow_numeral_start)

lemma alpha_170: "alpha 170 = 215"
  using alpha_add[of 85 85] by (simp add: alpha_85 xtime_def funpow_numeral_start)

lemma alpha_255: "alpha 255 = 1"
  using alpha_add[of 170 85] by (simp add: alpha_170 xtime_def funpow_numeral_start)

lemma alpha_period: "alpha (n + 255) = alpha n"
  using alpha_add[of 255 n] by (simp add: alpha_255 add.commute flip: alpha_def)

lemma alpha_periods: "alpha (n + 255 * k) = alpha n"
proof (induction k)
  case (Suc k)
  have "alpha (n + 255 * Suc k) = alpha ((n + 255 * k) + 255)" by (simp add: algebra_simps)
  with Suc show ?case by (simp only: alpha_period)
qed simp

lemma alpha_mod: "alpha (n mod 255) = alpha n"
  using alpha_periods[of "n mod 255" "n div 255"] by simp

lemma alpha_nonzero [simp]: "alpha n \<noteq> 0"
proof
  assume z: "alpha n = 0"
  have "alpha (n mod 255 + (255 - n mod 255)) = (xtime ^^ (255 - n mod 255)) (alpha (n mod 255))"
    by (rule alpha_add)
  moreover have "n mod 255 + (255 - n mod 255) = 255" by simp
  ultimately show False using z by (simp add: alpha_mod alpha_255)
qed

lemma alpha_mult_one: "alpha d = 1 \<Longrightarrow> alpha (d * k) = 1"
  by (induction k) (simp_all add: alpha_add[of d] flip: alpha_def)

lemma proper_divisors_255: "\<forall>g \<in> set [0..<255]. g dvd 255 \<longrightarrow> g dvd 85 \<or> g dvd 51 \<or> g dvd (15 :: nat)"
  by code_simp

lemma alpha_order:
  assumes "alpha d = 1" "0 < d"
  shows "255 \<le> d"
proof (rule ccontr)
  assume "\<not> 255 \<le> d"
  with assms(2) have d: "0 < d" "d < 255" by simp_all
  then obtain x y where "d * x = 255 * y + gcd d 255" using bezout_nat[of d 255] by auto
  then have "alpha (gcd d 255) = alpha (d * x)" by (simp add: alpha_periods add.commute)
  then have one: "alpha (gcd d 255) = 1" using assms(1) by (simp add: alpha_mult_one)
  have "gcd d 255 < 255" using d gcd_le1_nat[of d 255] by linarith
  then have "gcd d 255 dvd 85 \<or> gcd d 255 dvd 51 \<or> gcd d 255 dvd (15 :: nat)"
    using proper_divisors_255 by simp
  then have "alpha 85 = 1 \<or> alpha 51 = 1 \<or> alpha 15 = 1"
    using alpha_mult_one[OF one] by (metis dvd_def)
  then show False by (simp add: alpha_85 alpha_51 alpha_15)
qed

lemma alpha_inj:
  assumes "alpha i = alpha j" "i < 255" "j < 255"
  shows "i = j"
proof -
  have "i = j" if e: "alpha i = alpha j" and l: "i \<le> j" "j < 255" for i j
  proof -
    have "alpha (i + (255 - i)) = alpha (j + (255 - i))" by (simp only: alpha_add e)
    moreover have "i + (255 - i) = 255" "j + (255 - i) = (j - i) + 255" using l by simp_all
    ultimately have "alpha (j - i) = 1" by (metis alpha_255 alpha_period)
    then show ?thesis using alpha_order[of "j - i"] l by fastforce
  qed
  then show ?thesis using assms by (metis nat_le_linear)
qed

lemma alpha_eq_iff: "alpha i = alpha j \<longleftrightarrow> i mod 255 = j mod 255"
proof
  assume "alpha i = alpha j"
  then show "i mod 255 = j mod 255" using alpha_inj[of "i mod 255" "j mod 255"] by (simp add: alpha_mod)
next
  assume "i mod 255 = j mod 255"
  then show "alpha i = alpha j" by (metis alpha_mod)
qed

lemma alpha_surj:
  assumes "b \<noteq> 0"
  obtains i where "i < 255" "alpha i = b"
proof -
  have "inj_on alpha {..<255}" by (rule inj_onI) (auto dest: alpha_inj)
  then have "card (alpha ` {..<255}) = 255" by (simp add: card_image)
  moreover have "card (UNIV - {0 :: u8}) = 255" by (simp add: card_Diff_subset card_word)
  moreover have "alpha ` {..<255} \<subseteq> UNIV - {0}" by auto
  ultimately have "alpha ` {..<255} = UNIV - {0}" by (metis card_subset_eq finite)
  with assms have "b \<in> alpha ` {..<255}" by simp
  then show thesis using that by (elim imageE) (simp only: lessThan_iff)
qed

section \<open>Multiplication\<close>

definition gmul :: "u8 \<Rightarrow> u8 \<Rightarrow> u8" where
  "gmul a b = foldr (\<lambda>i s. (if bit b i then (xtime ^^ i) a else 0) XOR s) [0..<8] 0"

lemma upt_8: "[0..<8] = [0, 1, 2, 3, 4, 5, 6, 7]"
  by code_simp

lemma gmul_terms:
  "gmul a b = (if bit b 0 then a else 0) XOR (if bit b 1 then xtime a else 0)
     XOR (if bit b 2 then (xtime ^^ 2) a else 0) XOR (if bit b 3 then (xtime ^^ 3) a else 0)
     XOR (if bit b 4 then (xtime ^^ 4) a else 0) XOR (if bit b 5 then (xtime ^^ 5) a else 0)
     XOR (if bit b 6 then (xtime ^^ 6) a else 0) XOR (if bit b 7 then (xtime ^^ 7) a else 0)"
  by (simp add: gmul_def upt_8 xor.assoc split del: if_split cong: if_cong)

lemma gmul_0_left [simp]: "gmul 0 b = 0"
  by (simp add: gmul_terms)

lemma gmul_0_right [simp]: "gmul a 0 = 0"
  by (simp add: gmul_terms)

lemma foldr_xor_split:
  "foldr (\<lambda>i s. (f i XOR g i) XOR s) xs (a XOR b) =
     foldr (\<lambda>i s. f i XOR s) xs a XOR foldr (\<lambda>i s. g i XOR s) xs (b :: u8)"
  by (induction xs) (simp_all add: xor.assoc xor.left_commute)

lemma gmul_xor_right: "gmul a (b XOR c) = gmul a b XOR gmul a c"
proof -
  have "gmul a (b XOR c) = foldr (\<lambda>i s. ((if bit b i then (xtime ^^ i) a else 0) XOR
      (if bit c i then (xtime ^^ i) a else 0)) XOR s) [0..<8] (0 XOR 0)"
    unfolding gmul_def by (rule arg_cong2[where f = "\<lambda>f z. foldr f [0..<8] z"])
      (auto simp: fun_eq_iff bit_xor_iff)
  then show ?thesis by (simp only: foldr_xor_split gmul_def)
qed

lemma gmul_xor_left: "gmul (a XOR b) c = gmul a c XOR gmul b c"
proof -
  have "gmul (a XOR b) c = foldr (\<lambda>i s. ((if bit c i then (xtime ^^ i) a else 0) XOR
      (if bit c i then (xtime ^^ i) b else 0)) XOR s) [0..<8] (0 XOR 0)"
    unfolding gmul_def by (rule arg_cong2[where f = "\<lambda>f z. foldr f [0..<8] z"])
      (auto simp: fun_eq_iff xtime_pow_xor)
  then show ?thesis by (simp only: foldr_xor_split gmul_def)
qed

lemma xtime_foldr:
  "foldr (\<lambda>i s. (if P i then (xtime ^^ i) (xtime a) else 0) XOR s) xs (xtime z) =
     xtime (foldr (\<lambda>i s. (if P i then (xtime ^^ i) a else 0) XOR s) xs z)"
  by (induction xs) (simp_all add: xtime_xor funpow_swap1)

lemma gmul_xtime: "gmul (xtime a) b = xtime (gmul a b)"
  using xtime_foldr[of "bit b" a "[0..<8]" 0] by (simp only: gmul_def xtime_0)

lemma gmul_one_left [simp]: "gmul 1 b = b"
proof (rule bit_word_eqI)
  fix n assume "n < LENGTH(8)"
  then have "n = 0 \<or> n = 1 \<or> n = 2 \<or> n = 3 \<or> n = 4 \<or> n = 5 \<or> n = 6 \<or> n = 7" by auto
  moreover have "(xtime ^^ 2) 1 = 4" "(xtime ^^ 3) 1 = 8" "(xtime ^^ 4) 1 = 16" "(xtime ^^ 5) 1 = 32"
    "(xtime ^^ 6) 1 = 64" "(xtime ^^ 7) 1 = 128" "xtime 1 = 2"
    by (simp_all add: xtime_def funpow_numeral_start)
  ultimately show "bit (gmul 1 b) n = bit b n"
    by (elim disjE) (simp_all add: gmul_terms bit_xor_iff)
qed

lemma gmul_alpha_left: "gmul (alpha i) b = (xtime ^^ i) b"
  by (induction i) (simp_all add: alpha_Suc gmul_xtime)

lemma gmul_alpha: "gmul (alpha i) (alpha j) = alpha (i + j)"
  using alpha_add[of j i] by (simp add: gmul_alpha_left add.commute)

lemma gmul_commute: "gmul a b = gmul b a"
proof (cases "a = 0 \<or> b = 0")
  case False
  then obtain i j where "alpha i = a" "alpha j = b" using alpha_surj by metis
  then show ?thesis using gmul_alpha by (metis add.commute)
qed auto

lemma gmul_assoc: "gmul (gmul a b) c = gmul a (gmul b c)"
proof (cases "a = 0 \<or> b = 0 \<or> c = 0")
  case False
  then obtain i j k where "alpha i = a" "alpha j = b" "alpha k = c" using alpha_surj by metis
  then show ?thesis using gmul_alpha by (metis add.assoc)
qed auto

lemma gmul_power: "(gmul (alpha k) ^^ n) 1 = alpha (k * n)"
  by (induction n) (simp_all add: gmul_alpha flip: alpha_0)

lemma gmul_power_0: "0 < n \<Longrightarrow> (gmul 0 ^^ n) 1 = 0"
  by (cases n) simp_all

section \<open>The field\<close>

datatype gf = Gf (byte: u8)

instantiation gf :: field
begin

definition zero_gf :: gf where "0 = Gf 0"
definition one_gf :: gf where "1 = Gf 1"
definition plus_gf :: "gf \<Rightarrow> gf \<Rightarrow> gf" where "x + y = Gf (byte x XOR byte y)"
definition minus_gf :: "gf \<Rightarrow> gf \<Rightarrow> gf" where "x - y = Gf (byte x XOR byte y)"
definition uminus_gf :: "gf \<Rightarrow> gf" where "- x = (x :: gf)"
definition times_gf :: "gf \<Rightarrow> gf \<Rightarrow> gf" where "x * y = Gf (gmul (byte x) (byte y))"
definition inverse_gf :: "gf \<Rightarrow> gf" where "inverse x = Gf ((gmul (byte x) ^^ 254) 1)"
definition divide_gf :: "gf \<Rightarrow> gf \<Rightarrow> gf" where "x div y = (x * inverse y :: gf)"

lemmas gf_defs = zero_gf_def one_gf_def plus_gf_def minus_gf_def uminus_gf_def times_gf_def
  inverse_gf_def divide_gf_def

instance
proof
  fix a b c :: gf
  show "a * b * c = a * (b * c)" by (simp add: gf_defs gmul_assoc)
  show "a * b = b * a" by (simp add: gf_defs gmul_commute)
  show "1 * a = a" by (simp add: gf_defs)
  show "a + b + c = a + (b + c)" by (simp add: gf_defs xor.assoc)
  show "a + b = b + a" by (simp add: gf_defs xor.commute)
  show "0 + a = a" by (simp add: gf_defs)
  show "- a + a = 0" by (simp add: gf_defs)
  show "a - b = a + - b" by (simp add: gf_defs)
  show "(a + b) * c = a * c + b * c" by (simp add: gf_defs gmul_xor_left)
  show "(0 :: gf) \<noteq> 1" by (simp add: gf_defs)
  show "a div b = a * inverse b" by (simp add: gf_defs)
  show "inverse (0 :: gf) = 0" by (simp add: gf_defs gmul_power_0)
  show "inverse a * a = 1" if "a \<noteq> 0"
  proof -
    have "byte a \<noteq> 0" using that by (cases a) (simp add: zero_gf_def)
    then obtain i where i: "alpha i = byte a" by (rule alpha_surj)
    have "i * 254 + i = 0 + 255 * i" by simp
    then have "alpha (i * 254 + i) = 1" by (simp only: alpha_periods alpha_0)
    then show ?thesis by (simp only: gf_defs gf.sel gmul_power gmul_alpha i[symmetric])
  qed
qed

end

lemma byte_eq_0_iff [simp]: "byte x = 0 \<longleftrightarrow> x = 0"
  by (cases x) (simp add: zero_gf_def)

lemma Gf_eq_0_iff [simp]: "Gf b = 0 \<longleftrightarrow> b = 0"
  by (simp add: zero_gf_def)

lemma Gf_xor: "Gf (a XOR b) = Gf a + Gf b"
  by (simp add: plus_gf_def)

lemma Gf_gmul: "Gf (gmul a b) = Gf a * Gf b"
  by (simp add: times_gf_def)

lemma byte_0 [simp]: "byte 0 = 0"
  by (simp add: zero_gf_def)

text \<open>Addition and subtraction are the same.\<close>

lemma gf_double [simp]: "x + x = (0 :: gf)"
  by (simp add: plus_gf_def zero_gf_def)

lemma gf_two: "(2 :: gf) = 0"
  by (metis gf_double one_add_one)

lemma gf_uminus [simp]: "- x = (x :: gf)"
  by (simp add: uminus_gf_def)

lemma gf_minus [simp]: "x - y = x + (y :: gf)"
  by (simp add: minus_gf_def plus_gf_def)

lemma gf_add_eq_0_iff: "x + y = 0 \<longleftrightarrow> x = (y :: gf)"
  by (metis add_eq_0_iff gf_uminus)

text \<open>The primitive element.\<close>

definition gen :: gf where "gen = Gf 2"

lemma gen_power: "gen ^ n = Gf (alpha n)"
proof (induction n)
  case (Suc n)
  have "gen = Gf (alpha 1)" by (simp add: gen_def alpha_def xtime_def)
  then have "gen * Gf (alpha n) = Gf (alpha (1 + n))" by (metis Gf_gmul gmul_alpha)
  with Suc show ?case by simp
qed (simp add: one_gf_def)

lemma gen_nonzero [simp]: "gen \<noteq> 0"
  by (simp add: gen_def)

lemma gen_power_eq_iff: "gen ^ i = gen ^ j \<longleftrightarrow> i mod 255 = j mod 255"
  by (simp add: gen_power alpha_eq_iff)

lemma gen_power_255 [simp]: "gen ^ 255 = 1"
  by (simp add: gen_power alpha_255 one_gf_def)

lemma gen_surj:
  assumes "x \<noteq> 0"
  obtains i where "i < 255" "gen ^ i = x"
  using assms alpha_surj[of "byte x"] by (metis byte_eq_0_iff gen_power gf.collapse)

end
