(* ===== verification/Reed_Solomon.thy ===== *)
theory Reed_Solomon
  imports Galois_Field Reed_Solomon_Matrices
begin

text \<open>
  The Reed-Solomon encoder and decoder of \<open>reed_solomon.cc\<close>: its tables, its constructors, the
  encoders and the decoder of errors and erasures (Berlekamp-Massey, Chien and Forney), which the
  receiver of the High Accuracy Service and the I/NAV message use.

  The sizes and exponents \<open>d_nroots\<close>, \<open>d_prim\<close> and the like are \<open>int\<close> members that the
  constructors keep non-negative; they are natural numbers here. Loops over the index of an array
  are loops over the list. \<^const>\<open>None\<close> is an access outside an array or a loop that does
  not end.
\<close>

section \<open>State\<close>

record reed_solomon =
  d_alpha_to :: "u8 list"
  d_index_of :: "u8 list"
  d_log_table :: "u8 list"
  d_antilog :: "u8 list"
  d_genmatrix :: "u8 list list"
  d_genpoly_coeff :: "u8 list"
  d_genpoly_index :: "u8 list"
  d_data_in_block :: nat
  d_rows_G :: nat
  d_columns_G :: nat
  d_info_symbols_shortened :: nat
  d_data_symbols_shortened :: nat
  d_nroots :: nat
  d_prim :: nat
  d_pad :: nat
  d_iprim :: nat
  d_fcr :: nat
  d_shortening :: nat
  d_min_poly :: u8
  d_a0 :: u8

definition reed_solomon_blank :: reed_solomon where
  "reed_solomon_blank = \<lparr> d_alpha_to = replicate 256 0, d_index_of = replicate 256 0,
     d_log_table = replicate 256 0, d_antilog = replicate 255 0, d_genmatrix = [],
     d_genpoly_coeff = [], d_genpoly_index = [], d_data_in_block = 0, d_rows_G = 0, d_columns_G = 0,
     d_info_symbols_shortened = 0, d_data_symbols_shortened = 0, d_nroots = 0, d_prim = 0,
     d_pad = 0, d_iprim = 0, d_fcr = 0, d_shortening = 0, d_min_poly = 0, d_a0 = 0 \<rparr>"

section \<open>Arithmetic\<close>

text \<open>\<open>x >> 8\<close> and \<open>x & 255\<close> of a non-negative \<open>int\<close>.\<close>

function mod255 :: "int \<Rightarrow> int" where
  "mod255 x = (if x \<ge> 255 then mod255 ((x - 255) div 256 + (x - 255) mod 256) else x)"
  by pat_completeness auto
termination
proof (relation "measure nat")
  fix x :: int assume "x \<ge> 255"
  then have "0 \<le> (x - 255) div 256" by (simp add: pos_imp_zdiv_nonneg_iff)
  then have "(x - 255) div 256 + (x - 255) mod 256 < x" using mult_div_mod_eq[of 256 "x - 255"] by linarith
  with \<open>x \<ge> 255\<close> show "((x - 255) div 256 + (x - 255) mod 256, x) \<in> measure nat" by simp
qed simp

declare mod255.simps [simp del]

fun galois_mul_loop :: "u8 \<Rightarrow> nat \<Rightarrow> u8 \<Rightarrow> u8 \<Rightarrow> u8 \<Rightarrow> u8" where
  "galois_mul_loop min_poly 0 p a b = p"
| "galois_mul_loop min_poly (Suc i) p a b =
    (let p' = (if b AND 1 \<noteq> 0 then p XOR a else p);
         carry = a AND 0x80;
         a' = push_bit 1 a;
         a'' = (if carry \<noteq> 0 then a' XOR min_poly else a')
     in galois_mul_loop min_poly i p' a'' (drop_bit 1 b))"

definition galois_mul :: "u8 \<Rightarrow> u8 \<Rightarrow> u8 \<Rightarrow> u8" where
  "galois_mul min_poly a b = galois_mul_loop min_poly 8 0 a b"

definition galois_add :: "u8 \<Rightarrow> u8 \<Rightarrow> u8" where
  "galois_add a b = a XOR b"

definition galois_mul_table :: "reed_solomon \<Rightarrow> u8 \<Rightarrow> u8 \<Rightarrow> u8" where
  "galois_mul_table rs a b =
    (if a = 0 \<or> b = 0 then 0
     else
       (let x = d_log_table rs ! unat a; y = d_log_table rs ! unat b;
            log_mult = (unat x + unat y) mod 255
        in d_antilog rs ! log_mult))"

section \<open>Tables\<close>

fun log_loop :: "u8 \<Rightarrow> nat \<Rightarrow> nat \<Rightarrow> u8 \<Rightarrow> u8 list \<Rightarrow> u8 list \<Rightarrow> u8 list \<times> u8 list" where
  "log_loop min_poly 0 i x lg antilog = (lg, antilog)"
| "log_loop min_poly (Suc n) i x lg antilog =
    log_loop min_poly n (Suc i) (galois_mul min_poly x min_poly)
      (lg[unat x := of_nat i]) (antilog[i := x])"

definition init_log_tables :: "reed_solomon \<Rightarrow> reed_solomon" where
  "init_log_tables rs =
    (let (lg, antilog) = log_loop (d_min_poly rs) 255 0 1 ((d_log_table rs)[0 := 0]) (d_antilog rs)
     in rs\<lparr> d_log_table := lg, d_antilog := antilog \<rparr>)"

definition shift_register :: "u8 \<Rightarrow> u32 \<Rightarrow> u32" where
  "shift_register min_poly sr =
    (let sr = push_bit 1 sr; sr = (if sr AND 256 \<noteq> 0 then sr XOR ucast min_poly else sr)
     in sr AND 255)"

fun alpha_loop :: "u8 \<Rightarrow> nat \<Rightarrow> nat \<Rightarrow> u32 \<Rightarrow> u8 list \<Rightarrow> u8 list \<Rightarrow> u8 list \<times> u8 list \<times> u32" where
  "alpha_loop min_poly 0 i sr index_of alpha_to = (index_of, alpha_to, sr)"
| "alpha_loop min_poly (Suc n) i sr index_of alpha_to =
    alpha_loop min_poly n (Suc i) (shift_register min_poly sr)
      (index_of[unat sr := of_nat i]) (alpha_to[i := ucast sr])"

text \<open>The search for the \<open>prim\<close>-th root of one: \<open>iprim\<close> runs through \<open>1 + 255 k\<close>; all residues
  modulo \<open>prim\<close> that occur do so for \<open>k < prim\<close>, so a search beyond does not end.\<close>

definition find_iprim :: "nat \<Rightarrow> nat option" where
  "find_iprim prim = map_option (\<lambda>k. (1 + 255 * k) div prim)
     (List.find (\<lambda>k. (1 + 255 * k) mod prim = 0) [0..<prim])"

definition init_alpha_tables :: "reed_solomon \<Rightarrow> reed_solomon option" where
  "init_alpha_tables rs =
    (let (index_of, alpha_to, sr) = alpha_loop (d_min_poly rs) 255 0 1
           ((d_index_of rs)[0 := d_a0 rs]) ((d_alpha_to rs)[unat (d_a0 rs) := 0]);
         rs = rs\<lparr> d_index_of := index_of, d_alpha_to := alpha_to \<rparr>
     in if sr \<noteq> 1 then Some rs
        else
          do { iprim \<leftarrow> find_iprim (d_prim rs);
               indices \<leftarrow> mapM (\<lambda>i. map_option (\<lambda>c. index_of ! unat c) (vget (d_genpoly_coeff rs) i))
                 [0..<d_nroots rs + 1];
               Some (rs\<lparr> d_iprim := iprim, d_genpoly_index := indices \<rparr>) })"

section \<open>Constructors\<close>

text \<open>The common end of the constructors.\<close>

definition finish_tables :: "reed_solomon \<Rightarrow> reed_solomon option" where
  "finish_tables rs =
    init_alpha_tables (init_log_tables (rs\<lparr> d_a0 := 255, d_genpoly_index := replicate (d_nroots rs + 1) 0 \<rparr>))"

definition with_sizes :: "nat \<Rightarrow> nat \<Rightarrow> reed_solomon \<Rightarrow> reed_solomon" where
  "with_sizes nroots shortening rs = rs\<lparr> d_nroots := nroots, d_shortening := shortening,
     d_data_in_block := 255 - nroots, d_info_symbols_shortened := 255 - nroots - shortening,
     d_data_symbols_shortened := 255 - shortening \<rparr>"

definition rejects_configuration :: "int \<Rightarrow> int \<Rightarrow> int \<Rightarrow> int \<Rightarrow> int \<Rightarrow> bool" where
  "rejects_configuration nroots prim fcr pad shortening \<longleftrightarrow>
     fcr < 0 \<or> fcr \<ge> 256 \<or> prim \<le> 0 \<or> prim \<ge> 256 \<or> nroots < 0 \<or> nroots \<ge> 256
     \<or> pad < 0 \<or> pad \<ge> 255 - nroots \<or> shortening < 0 \<or> shortening \<ge> 255 - nroots"

text \<open>A rejected configuration leaves the object with its default members.\<close>

definition reed_solomon_custom :: "int \<Rightarrow> int \<Rightarrow> int \<Rightarrow> int \<Rightarrow> int \<Rightarrow> int \<Rightarrow> u8 list \<Rightarrow> u8 list list
    \<Rightarrow> reed_solomon option" where
  "reed_solomon_custom nroots minpoly prim fcr pad shortening genpoly gen_matrix =
    (if rejects_configuration nroots prim fcr pad shortening then Some reed_solomon_blank
     else
       (let rs = (with_sizes (nat nroots) (nat shortening) reed_solomon_blank)
              \<lparr> d_min_poly := word_of_int minpoly, d_prim := nat prim, d_pad := nat pad, d_fcr := nat fcr,
                d_genpoly_coeff := (if genpoly \<noteq> [] \<and> length genpoly = nat nroots + 1 then genpoly
                  else replicate (nat nroots + 1) 0) \<rparr>;
            rs = (if gen_matrix \<noteq> [] \<and> length gen_matrix = d_data_symbols_shortened rs
                    \<and> length (hd gen_matrix) = d_info_symbols_shortened rs
                  then rs\<lparr> d_rows_G := length gen_matrix, d_columns_G := length (hd gen_matrix),
                    d_genmatrix := gen_matrix \<rparr>
                  else rs)
        in finish_tables rs))"

text \<open>The default constructor. An unknown signal gets the parameters of E6-B without the matrix.\<close>

definition reed_solomon_default :: "string \<Rightarrow> reed_solomon option" where
  "reed_solomon_default gnss_signal = finish_tables
    (if gnss_signal = [] \<or> gnss_signal = ''E6B'' then
       (with_sizes 223 0 reed_solomon_blank)\<lparr> d_min_poly := 29, d_prim := 1, d_fcr := 1, d_pad := 0,
         d_rows_G := 255, d_columns_G := 32, d_genmatrix := genmatrix_E6B, d_genpoly_coeff := genpoly_E6B \<rparr>
     else if gnss_signal = ''E1B'' then
       (with_sizes 60 137 reed_solomon_blank)\<lparr> d_min_poly := 29, d_prim := 1, d_fcr := 195, d_pad := 0,
         d_rows_G := 118, d_columns_G := 58, d_genmatrix := genmatrix_E1B, d_genpoly_coeff := genpoly_E1B \<rparr>
     else
       (with_sizes 223 0 reed_solomon_blank)\<lparr> d_min_poly := 29, d_prim := 1, d_fcr := 1, d_pad := 0,
         d_rows_G := 0, d_columns_G := 0, d_genpoly_coeff := genpoly_E6B \<rparr>)"

section \<open>Encoders\<close>

definition encode_with_generator_matrix :: "reed_solomon \<Rightarrow> u8 list \<Rightarrow> u8 list option" where
  "encode_with_generator_matrix rs data =
    (if d_rows_G rs = 0 \<or> length data \<noteq> d_columns_G rs then Some (replicate (d_data_symbols_shortened rs) 0)
     else
       foldM (\<lambda>i out. foldM (\<lambda>k out.
           do { row \<leftarrow> vget (d_genmatrix rs) i;
                g \<leftarrow> vget row k;
                d \<leftarrow> vget data k;
                x \<leftarrow> vget out i;
                vput out i (galois_add x (galois_mul_table rs g d)) })
         [0..<d_columns_G rs] out) [0..<d_rows_G rs] (replicate (d_data_symbols_shortened rs) 0))"

abbreviation alpha_of :: "reed_solomon \<Rightarrow> int \<Rightarrow> u8" where
  "alpha_of rs i \<equiv> d_alpha_to rs ! nat (mod255 i)"

abbreviation index_in :: "reed_solomon \<Rightarrow> u8 \<Rightarrow> u8" where
  "index_in rs b \<equiv> d_index_of rs ! unat b"

text \<open>One data symbol: the loop over \<open>j\<close> with the exclusive or, the shift, the new last symbol.\<close>

definition encode_symbol :: "reed_solomon \<Rightarrow> u8 \<Rightarrow> u8 list \<Rightarrow> u8 list" where
  "encode_symbol rs d parity =
    (let feedback = index_in rs (d XOR hd parity)
     in if feedback \<noteq> d_a0 rs then
          (let f = mod255 (255 - uint (d_genpoly_index rs ! d_nroots rs) + uint feedback);
               parity = map (\<lambda>j. if j = 0 then parity ! j
                   else parity ! j XOR alpha_of rs (f + uint (d_genpoly_index rs ! (d_nroots rs - j))))
                 [0..<d_nroots rs]
           in tl parity @ [alpha_of rs (f + uint (d_genpoly_index rs ! 0))])
        else tl parity @ [0])"

text \<open>Without parity symbols \<open>parity[0]\<close> is beyond the buffer.\<close>

definition encode_rs_8 :: "reed_solomon \<Rightarrow> u8 list \<Rightarrow> u8 list option" where
  "encode_rs_8 rs data =
    (if d_nroots rs = 0 \<or> length data < 255 - d_nroots rs - d_pad rs then None
     else Some (foldl (\<lambda>parity d. encode_symbol rs d parity) (replicate (d_nroots rs) 0)
       (take (255 - d_nroots rs - d_pad rs) data)))"

definition encode_with_generator_poly :: "reed_solomon \<Rightarrow> u8 list \<Rightarrow> u8 list option" where
  "encode_with_generator_poly rs data =
    (if length data \<noteq> d_info_symbols_shortened rs then Some (replicate (d_data_symbols_shortened rs) 0)
     else if d_shortening rs = 0 then
       do { parity \<leftarrow> encode_rs_8 rs data; Some (data @ parity) }
     else
       do { parity \<leftarrow> encode_rs_8 rs (data @ replicate (d_data_in_block rs - length data) 0);
            Some (data @ parity) })"

section \<open>Decoder\<close>

text \<open>The syndromes, one Horner step of all of them per symbol.\<close>

definition syndrome_step :: "reed_solomon \<Rightarrow> u8 list \<Rightarrow> u8 \<Rightarrow> u8 list" where
  "syndrome_step rs s d = map (\<lambda>i. if s ! i = 0 then d
      else d XOR alpha_of rs (uint (index_in rs (s ! i)) + int ((d_fcr rs + i) * d_prim rs)))
    [0..<d_nroots rs]"

definition syndromes :: "reed_solomon \<Rightarrow> u8 list \<Rightarrow> u8 list" where
  "syndromes rs data = foldl (syndrome_step rs) (replicate (d_nroots rs) (data ! 0))
     (take (255 - d_pad rs - 1) (tl data))"

text \<open>The erasure locator. A position above 254 is not checked: the first one reads \<open>d_alpha_to\<close>
  at a negative index.\<close>

definition multiply_locator :: "reed_solomon \<Rightarrow> u8 \<Rightarrow> nat \<Rightarrow> u8 list \<Rightarrow> u8 list" where
  "multiply_locator rs u i lambda = foldl (\<lambda>l j.
      let tmp = index_in rs (l ! (j - 1))
      in if tmp \<noteq> d_a0 rs then l[j := l ! j XOR alpha_of rs (uint u + uint tmp)] else l)
    lambda (rev [1..<i + 2])"

definition eras_index :: "reed_solomon \<Rightarrow> int \<Rightarrow> int" where
  "eras_index rs pos = mod255 (int (d_prim rs) * (254 - pos))"

definition erasure_locator :: "reed_solomon \<Rightarrow> int list \<Rightarrow> u8 list option" where
  "erasure_locator rs eras_pos =
    (let lambda = 1 # replicate (d_nroots rs) 0
     in case eras_pos of
          [] \<Rightarrow> Some lambda
        | e0 # rest \<Rightarrow>
            (if eras_index rs e0 < 0 then None
             else
               (let lambda = lambda[1 := d_alpha_to rs ! nat (eras_index rs e0)]
                in Some (foldl (\<lambda>l (i, e). multiply_locator rs (word_of_int (eras_index rs e)) i l)
                     lambda (enumerate 1 rest)))))"

text \<open>The Berlekamp-Massey iteration; \<open>s\<close> and \<open>b\<close> are in index form, \<open>lambda\<close> is not.\<close>

definition discrepancy :: "reed_solomon \<Rightarrow> u8 list \<Rightarrow> u8 list \<Rightarrow> nat \<Rightarrow> u8" where
  "discrepancy rs s lambda r = foldl (\<lambda>d i.
      if lambda ! i \<noteq> 0 \<and> s ! (r - i - 1) \<noteq> d_a0 rs
      then d XOR alpha_of rs (uint (index_in rs (lambda ! i)) + uint (s ! (r - i - 1))) else d)
    0 [0..<r]"

definition corrected_locator :: "reed_solomon \<Rightarrow> u8 \<Rightarrow> u8 list \<Rightarrow> u8 list \<Rightarrow> u8 list" where
  "corrected_locator rs discr lambda b =
    lambda ! 0 # map (\<lambda>i. if b ! i \<noteq> d_a0 rs
        then lambda ! (i + 1) XOR alpha_of rs (uint discr + uint (b ! i)) else lambda ! (i + 1))
      [0..<d_nroots rs]"

definition scaled_locator :: "reed_solomon \<Rightarrow> u8 \<Rightarrow> u8 list \<Rightarrow> u8 list" where
  "scaled_locator rs discr lambda = map (\<lambda>l. if l = 0 then d_a0 rs
      else word_of_int (mod255 (uint (index_in rs l) - uint discr + 255))) lambda"

definition bm_step :: "reed_solomon \<Rightarrow> nat \<Rightarrow> u8 list \<Rightarrow> u8 list \<times> u8 list \<times> nat \<Rightarrow> nat
    \<Rightarrow> u8 list \<times> u8 list \<times> nat" where
  "bm_step rs no_eras s st r =
    (let (lambda, b, el) = st;
         discr = index_in rs (discrepancy rs s lambda r)
     in if discr = d_a0 rs then (lambda, d_a0 rs # b, el)
        else
          (let t = corrected_locator rs discr lambda b
           in if 2 * int el \<le> int r + int no_eras - 1
              then (t, scaled_locator rs discr lambda @ drop (d_nroots rs + 1) b, r + no_eras - el)
              else (t, d_a0 rs # b, el)))"

definition berlekamp_massey :: "reed_solomon \<Rightarrow> nat \<Rightarrow> u8 list \<Rightarrow> u8 list \<Rightarrow> u8 list" where
  "berlekamp_massey rs no_eras s lambda =
    fst (foldl (bm_step rs no_eras s) (lambda, map (index_in rs) lambda, no_eras)
      [no_eras + 1..<d_nroots rs + 1])"

definition degree_of :: "reed_solomon \<Rightarrow> u8 list \<Rightarrow> nat" where
  "degree_of rs lambda = foldl (\<lambda>d i. if lambda ! i \<noteq> d_a0 rs then i else d) 0 [0..<d_nroots rs + 1]"

text \<open>One step of the Chien search: the registers advance and their sum is \<open>q\<close>.\<close>

definition chien_step :: "reed_solomon \<Rightarrow> nat \<Rightarrow> u8 list \<Rightarrow> u8 list \<times> u8" where
  "chien_step rs deg reg = foldl (\<lambda>(reg, q) j.
      if reg ! j \<noteq> d_a0 rs then
        (let v = mod255 (uint (reg ! j) + int j) in (reg[j := word_of_int v], q XOR d_alpha_to rs ! nat v))
      else (reg, q))
    (reg, 1) (rev [1..<deg + 1])"

text \<open>The search over all 255 field elements, left as soon as \<open>deg\<close> roots are found; the roots
  and locations are in the order found.\<close>

fun chien_loop :: "reed_solomon \<Rightarrow> nat \<Rightarrow> nat \<Rightarrow> nat \<Rightarrow> int \<Rightarrow> u8 list \<Rightarrow> (u8 \<times> u8) list \<Rightarrow> (u8 \<times> u8) list" where
  "chien_loop rs deg 0 i k reg found = found"
| "chien_loop rs deg (Suc n) i k reg found =
    (let (reg, q) = chien_step rs deg reg; k' = mod255 (k + int (d_iprim rs))
     in if q \<noteq> 0 then chien_loop rs deg n (i + 1) k' reg found
        else
          (let found = found @ [(of_nat i, word_of_int k)]
           in if length found = deg then found else chien_loop rs deg n (i + 1) k' reg found))"

definition chien_search :: "reed_solomon \<Rightarrow> nat \<Rightarrow> u8 list \<Rightarrow> (u8 \<times> u8) list" where
  "chien_search rs deg lambda = chien_loop rs deg 255 1 (int (d_iprim rs) - 1) (0 # tl lambda) []"

text \<open>The evaluator polynomial, in index form.\<close>

definition omega_coeff :: "reed_solomon \<Rightarrow> u8 list \<Rightarrow> u8 list \<Rightarrow> nat \<Rightarrow> u8" where
  "omega_coeff rs s lambda i = index_in rs (foldl (\<lambda>tmp j.
      if s ! (i - j) \<noteq> d_a0 rs \<and> lambda ! j \<noteq> d_a0 rs
      then tmp XOR alpha_of rs (uint (s ! (i - j)) + uint (lambda ! j)) else tmp)
    0 (rev [0..<i + 1]))"

definition forney_num1 :: "reed_solomon \<Rightarrow> u8 list \<Rightarrow> u8 \<Rightarrow> u8" where
  "forney_num1 rs omega root = foldl (\<lambda>num i.
      if omega ! i \<noteq> d_a0 rs then num XOR alpha_of rs (uint (omega ! i) + int i * uint root) else num)
    0 (rev [0..<length omega])"

definition forney_num2 :: "reed_solomon \<Rightarrow> u8 \<Rightarrow> u8" where
  "forney_num2 rs root = alpha_of rs (uint root * (int (d_fcr rs) - 1) + 255)"

text \<open>\<open>i\<close> runs through the even numbers from \<open>min(deg_lambda, d_nroots - 1)\<close> down.\<close>

definition forney_den :: "reed_solomon \<Rightarrow> nat \<Rightarrow> u8 list \<Rightarrow> u8 \<Rightarrow> u8" where
  "forney_den rs deg lambda root = foldl (\<lambda>den i.
      if lambda ! (i + 1) \<noteq> d_a0 rs then den XOR alpha_of rs (uint (lambda ! (i + 1)) + int i * uint root) else den)
    0 (rev (filter even [0..<min deg (d_nroots rs - 1) + 1]))"

definition apply_correction :: "reed_solomon \<Rightarrow> nat \<Rightarrow> u8 list \<Rightarrow> u8 list \<Rightarrow> u8 list \<Rightarrow> u8 \<times> u8 \<Rightarrow> u8 list" where
  "apply_correction rs deg lambda omega data entry =
    (let (root, loc) = entry;
         num1 = forney_num1 rs omega root;
         num2 = forney_num2 rs root;
         den = forney_den rs deg lambda root
     in if num1 \<noteq> 0 \<and> unat loc \<ge> d_pad rs then
          (let p = unat loc - d_pad rs
           in data[p := data ! p XOR alpha_of rs (uint (index_in rs num1) + uint (index_in rs num2) + 255
                - uint (index_in rs den))])
        else data)"

definition decode_rs_8 :: "reed_solomon \<Rightarrow> u8 list \<Rightarrow> int list \<Rightarrow> (int \<times> u8 list) option" where
  "decode_rs_8 rs data eras_pos =
    (let s = syndromes rs data
     in if list_all (\<lambda>x. x = 0) s then Some (0, data)
        else
          do { lambda \<leftarrow> erasure_locator rs eras_pos;
               let s = map (index_in rs) s;
               let lambda = map (index_in rs) (berlekamp_massey rs (length eras_pos) s lambda);
               let deg = degree_of rs lambda;
               let found = chien_search rs deg lambda;
               if deg \<noteq> length found then Some (- 1, data)
               else
                 (let omega = map (omega_coeff rs s lambda) [0..<deg]
                  in Some (int (length found),
                       foldl (apply_correction rs deg lambda omega) data (rev found))) })"

definition decode :: "reed_solomon \<Rightarrow> u8 list \<Rightarrow> int list \<Rightarrow> (int \<times> u8 list) option" where
  "decode rs data erasure_positions =
    (if length erasure_positions > d_nroots rs then Some (- 1, data)
     else if length data \<noteq> d_data_symbols_shortened rs \<and> length data \<noteq> 255 then Some (- 1, data)
     else if d_shortening rs = 0 \<or> length data = 255 then decode_rs_8 rs data erasure_positions
     else
       (let info = d_info_symbols_shortened rs;
            unshortened = take info data @ replicate (d_data_in_block rs - info) 0 @ drop info data
        in do { (r, code) \<leftarrow> decode_rs_8 rs unshortened erasure_positions;
                Some (r, if r \<ge> 0 then take info code @ drop (d_data_in_block rs) code else data) }))"

end
