(* ===== verification/Reed_Solomon_Tables.thy ===== *)
theory Reed_Solomon_Tables
  imports Reed_Solomon
begin

text \<open>
  What the tables of the constructors hold: the powers of the primitive element and their
  logarithms, for the primitive polynomial 29 that both users of the class configure. The two
  ways the code multiplies, by shifts and by the logarithm tables, agree with the field.
\<close>

section \<open>Reduction modulo 255\<close>

lemma mod255_eq: "0 \<le> x \<Longrightarrow> mod255 x = x mod 255"
proof (induction x rule: mod255.induct)
  case (1 x)
  show ?case
  proof (cases "x \<ge> 255")
    case True
    define q where "q = (x - 255) div 256"
    define r where "r = (x - 255) mod 256"
    have x: "x = (q + r) + 255 * (q + 1)"
      using mult_div_mod_eq[of 256 "x - 255", folded q_def r_def] by presburger
    have "0 \<le> q" "0 \<le> r" using True by (simp_all add: q_def r_def pos_imp_zdiv_nonneg_iff)
    then have "mod255 (q + r) = (q + r) mod 255" using 1(1)[OF True] by (simp add: q_def r_def)
    moreover have "mod255 x = mod255 (q + r)"
      using True by (subst mod255.simps) (simp add: q_def r_def)
    moreover have "x mod 255 = (q + r) mod 255" by (subst x) (rule mod_mult_self2)
    ultimately show ?thesis by simp
  qed (use 1(2) in \<open>simp add: mod255.simps[of x]\<close>)
qed

lemma mod255_bounds: "0 \<le> x \<Longrightarrow> 0 \<le> mod255 x \<and> mod255 x < 255"
  by (simp add: mod255_eq)

lemma mod255_int: "mod255 (int m) = int (m mod 255)"
  by (simp add: mod255_eq zmod_int)

section \<open>Updates of tables\<close>

definition fill :: "('a \<Rightarrow> nat) \<Rightarrow> ('a \<Rightarrow> 'b) \<Rightarrow> 'a list \<Rightarrow> 'b list \<Rightarrow> 'b list" where
  "fill p v ks t = foldl (\<lambda>t k. t[p k := v k]) t ks"

lemma length_fill [simp]: "length (fill p v ks t) = length t"
  by (induction ks arbitrary: t) (simp_all add: fill_def)

lemma fill_other: "j \<notin> p ` set ks \<Longrightarrow> fill p v ks t ! j = t ! j"
  by (induction ks arbitrary: t) (simp_all add: fill_def)

lemma fill_at: "inj_on p (set ks) \<Longrightarrow> k \<in> set ks \<Longrightarrow> p k < length t \<Longrightarrow> fill p v ks t ! p k = v k"
proof (induction ks arbitrary: t)
  case (Cons x ks)
  show ?case
  proof (cases "k \<in> set ks")
    case True
    with Cons show ?thesis by (simp add: fill_def)
  next
    case False
    with Cons.prems have "k = x" "p x \<notin> p ` set ks" by (auto simp: inj_on_def)
    with Cons.prems fill_other[of "p x" p ks v "t[p x := v x]"] show ?thesis by (simp add: fill_def)
  qed
qed simp

lemma fill_Cons: "fill p v (k # ks) t = fill p v ks (t[p k := v k])"
  by (simp add: fill_def)

section \<open>Multiplication by shifts\<close>

lemma and_1_iff: "b AND 1 \<noteq> 0 \<longleftrightarrow> bit b 0" for b :: u8
  by (simp add: bit_0 and_one_eq odd_iff_mod_2_eq_one)

lemma and_128_iff: "a AND 0x80 \<noteq> 0 \<longleftrightarrow> bit a 7" for a :: u8
  using and_exp_eq_0_iff_not_bit[of a 7] by simp

lemma galois_shift:
  "(if a AND 0x80 \<noteq> 0 then push_bit 1 a XOR 29 else push_bit 1 a) = xtime a"
  by (simp add: and_128_iff xtime_def)

lemma galois_mul_loop_eq:
  "galois_mul_loop 29 n p a b = p XOR foldr (\<lambda>i s. (if bit b i then (xtime ^^ i) a else 0) XOR s) [0..<n] 0"
proof (induction n arbitrary: p a b)
  case (Suc n)
  have "galois_mul_loop 29 (Suc n) p a b = galois_mul_loop 29 n (if bit b 0 then p XOR a else p) (xtime a) (drop_bit 1 b)"
    by (simp only: galois_mul_loop.simps Let_def galois_shift and_1_iff)
  also have "\<dots> = (if bit b 0 then p XOR a else p) XOR
      foldr (\<lambda>i s. (if bit b (Suc i) then (xtime ^^ Suc i) a else 0) XOR s) [0..<n] 0"
    by (simp add: Suc bit_drop_bit_eq funpow_Suc_right del: funpow.simps cong: if_cong)
  also have "foldr (\<lambda>i s. (if bit b (Suc i) then (xtime ^^ Suc i) a else 0) XOR s) [0..<n] 0 =
      foldr (\<lambda>i s. (if bit b i then (xtime ^^ i) a else 0) XOR s) (map Suc [0..<n]) 0"
    by (simp only: foldr_map o_def)
  finally show ?case by (simp add: upt_conv_Cons map_Suc_upt xor.assoc del: upt_Suc)
qed simp

lemma galois_mul_eq: "galois_mul 29 a b = gmul a b"
  by (simp add: galois_mul_def galois_mul_loop_eq gmul_def)

section \<open>The logarithm tables of the encoder\<close>

lemma alpha_8: "alpha 8 = 29"
  by (simp add: alpha_def xtime_def funpow_numeral_start)

lemma galois_mul_29: "galois_mul 29 (alpha (8 * i)) 29 = alpha (8 * Suc i)"
  using gmul_alpha[of "8 * i" 8] by (simp add: galois_mul_eq alpha_8 algebra_simps)

lemma log_loop_eq:
  "log_loop 29 n i (alpha (8 * i)) lg antilog =
    (fill (\<lambda>k. unat (alpha (8 * k))) of_nat [i..<i + n] lg, fill id (\<lambda>k. alpha (8 * k)) [i..<i + n] antilog)"
proof (induction n arbitrary: i lg antilog)
  case (Suc n)
  then show ?case by (simp add: galois_mul_29 upt_conv_Cons fill_Cons del: mult_Suc_right upt_Suc)
qed (simp add: fill_def)

lemma mod_8_cancel:
  assumes "(8 * i) mod 255 = (8 * j) mod (255 :: nat)"
  shows "i mod 255 = j mod 255"
proof -
  have "(32 * (8 * i)) mod 255 = (32 * (8 * j)) mod 255" using assms by (metis mod_mult_right_eq)
  moreover have "(32 * (8 * i)) mod 255 = i mod 255" for i :: nat
  proof -
    have "32 * (8 * i) = i + 255 * i" by simp
    then show ?thesis by (simp only: mod_mult_self2)
  qed
  ultimately show ?thesis by simp
qed

lemma alpha_8_inj: "inj_on (\<lambda>k. unat (alpha (8 * k))) {0..<255}"
proof (rule inj_onI)
  fix i j :: nat
  assume ij: "i \<in> {0..<255}" "j \<in> {0..<255}" "unat (alpha (8 * i)) = unat (alpha (8 * j))"
  then have "alpha (8 * i) = alpha (8 * j)" by (simp only: word_unat_eq_iff)
  then have "(8 * i) mod 255 = (8 * j) mod 255" by (simp only: alpha_eq_iff)
  from mod_8_cancel[OF this] ij(1,2) show "i = j" by (simp only: atLeastLessThan_iff mod_less)
qed

section \<open>The tables of the decoder\<close>

lemma take_bit_push_ucast: "take_bit 8 (push_bit k (ucast b :: u32)) = ucast (push_bit k b :: u8)"
  by (rule bit_word_eqI) (auto simp: bit_take_bit_iff bit_push_bit_iff bit_unsigned_iff)

lemma take_bit_xor_29: "take_bit 8 (v XOR ucast (29 :: u8)) = take_bit 8 v XOR ucast (29 :: u8)" for v :: u32
  by (rule bit_word_eqI) (auto simp: bit_take_bit_iff bit_xor_iff bit_unsigned_iff simp del: unsigned_numeral)

lemma ucast_xor_8: "(ucast (a XOR b) :: u32) = ucast a XOR ucast b" for a b :: u8
  by (rule bit_word_eqI) (auto simp: bit_xor_iff bit_unsigned_iff)

lemma high_bit_out: "bit (push_bit k (ucast b :: u32)) 8 = bit (b :: u8) (8 - k)" if "0 < k" "k \<le> 8"
  using that by (auto simp: bit_push_bit_iff bit_unsigned_iff)

lemma shift_register_eq: "shift_register 29 (ucast b) = ucast (xtime b)"
proof -
  have "(push_bit 1 (ucast b :: u32) AND 256 \<noteq> 0) = bit b 7"
  proof -
    have "bit (push_bit 1 (ucast b :: u32)) 8 = bit b (8 - 1)" by (rule high_bit_out) simp_all
    moreover have "(2 :: u32) ^ 8 = 256" "8 - 1 = (7 :: nat)" by simp_all
    ultimately show ?thesis
      using and_exp_eq_0_iff_not_bit[of "push_bit 1 (ucast b :: u32)" 8] by (simp only: not_not)
  qed
  moreover have "v AND 255 = take_bit 8 v" for v :: u32
    by (simp add: take_bit_eq_mask mask_eq_exp_minus_1)
  ultimately show ?thesis
    by (simp only: shift_register_def xtime_def Let_def take_bit_push_ucast take_bit_xor_29 ucast_xor_8
      if_distrib[of "take_bit 8"] if_distrib[of "\<lambda>x. _ XOR x"] if_distrib[of ucast] unsigned_0 xor.right_neutral split: if_split)
qed

lemma alpha_loop_eq:
  "alpha_loop 29 n i (ucast (alpha i)) index_of alpha_to =
    (fill (\<lambda>k. unat (alpha k)) of_nat [i..<i + n] index_of, fill id alpha [i..<i + n] alpha_to, ucast (alpha (i + n)))"
proof (induction n arbitrary: i index_of alpha_to)
  case (Suc n)
  have "unat (ucast (alpha i) :: u32) = unat (alpha i)" "(ucast (ucast (alpha i) :: u32) :: u8) = alpha i"
    by (simp_all add: unat_ucast_up ucast_up_ucast_id is_up)
  then show ?case using Suc[of "Suc i"]
    by (simp add: shift_register_eq upt_conv_Cons fill_Cons flip: alpha_Suc del: upt_Suc)
qed (simp add: fill_def)

text \<open>The tables of an object for the polynomial 29.\<close>

definition field_tables :: "reed_solomon \<Rightarrow> bool" where
  "field_tables rs \<longleftrightarrow> length (d_alpha_to rs) = 256 \<and> (\<forall>i < 255. d_alpha_to rs ! i = alpha i)
     \<and> d_alpha_to rs ! 255 = 0 \<and> length (d_index_of rs) = 256 \<and> d_index_of rs ! 0 = 255
     \<and> (\<forall>i < 255. d_index_of rs ! unat (alpha i) = of_nat i) \<and> d_a0 rs = 255"

definition log_tables :: "reed_solomon \<Rightarrow> bool" where
  "log_tables rs \<longleftrightarrow> (\<forall>i < 255. d_antilog rs ! i = alpha (8 * i))
     \<and> (\<forall>i < 255. d_log_table rs ! unat (alpha (8 * i)) = of_nat i)"

lemma inj_on_alpha: "inj_on (\<lambda>k. unat (alpha k)) {0..<255}"
proof (rule inj_onI)
  fix i j :: nat
  assume ij: "i \<in> {0..<255}" "j \<in> {0..<255}" "unat (alpha i) = unat (alpha j)"
  then have "alpha i = alpha j" by (simp only: word_unat_eq_iff)
  with ij(1,2) show "i = j" by (intro alpha_inj) (simp_all only: atLeastLessThan_iff)
qed

lemma alpha_not_index_0: "0 \<notin> (\<lambda>k. unat (alpha k)) ` A"
  by (auto simp: unat_eq_0)

lemma find_iprim_1: "find_iprim 1 = Some 1"
  by (simp add: find_iprim_def upt_rec)

lemma init_alpha_tables_eq:
  assumes "d_min_poly rs = 29" "d_a0 rs = 255" "length (d_alpha_to rs) = 256" "length (d_index_of rs) = 256"
    "d_prim rs = 1" "d_nroots rs < length (d_genpoly_coeff rs)"
  obtains io al gi where "init_alpha_tables rs = Some (rs\<lparr> d_index_of := io, d_alpha_to := al, d_iprim := 1,
      d_genpoly_index := map (\<lambda>i. io ! unat (d_genpoly_coeff rs ! i)) [0..<d_nroots rs + 1] \<rparr>)"
    "field_tables (rs\<lparr> d_index_of := io, d_alpha_to := al \<rparr>)"
proof -
  define io where "io = fill (\<lambda>k. unat (alpha k)) of_nat [0..<255] ((d_index_of rs)[0 := 255])"
  define al where "al = fill id alpha [0..<255] ((d_alpha_to rs)[255 := 0])"
  have loop: "alpha_loop 29 255 0 1 ((d_index_of rs)[0 := d_a0 rs]) ((d_alpha_to rs)[unat (d_a0 rs) := 0]) = (io, al, 1)"
    using alpha_loop_eq[of 255 0 "(d_index_of rs)[0 := 255]" "(d_alpha_to rs)[255 := 0]"]
    by (simp add: io_def al_def assms(2) alpha_255)
  have gi: "mapM (\<lambda>i. map_option (\<lambda>c. io ! unat c) (vget (d_genpoly_coeff rs) i)) [0..<d_nroots rs + 1] =
      Some (map (\<lambda>i. io ! unat (d_genpoly_coeff rs ! i)) [0..<d_nroots rs + 1])"
    using assms(6) by (intro mapM_Some_map) (auto simp: vget_def)
  have "init_alpha_tables rs = Some (rs\<lparr> d_index_of := io, d_alpha_to := al, d_iprim := 1,
      d_genpoly_index := map (\<lambda>i. io ! unat (d_genpoly_coeff rs ! i)) [0..<d_nroots rs + 1] \<rparr>)"
    unfolding init_alpha_tables_def assms(1) loop prod.case Let_def assms(5)
    by (simp add: find_iprim_1[simplified] gi[unfolded Suc_eq_plus1[symmetric]] assms(5) del: upt_Suc)
  moreover have "unat (alpha i) < 256" for i by (rule unat_u8)
  then have "io ! unat (alpha i) = of_nat i" if "i < 255" for i
    using that assms(4) fill_at[of "\<lambda>k. unat (alpha k)" "[0..<255]" i "(d_index_of rs)[0 := 255]" of_nat] inj_on_alpha
    by (simp add: io_def)
  moreover have "io ! 0 = 255" using assms(4) by (simp add: io_def fill_other alpha_not_index_0)
  moreover have "al ! i = alpha i" if "i < 255" for i
    using that assms(3) fill_at[of id "[0..<255]" i "(d_alpha_to rs)[255 := 0]" alpha] by (simp add: al_def)
  moreover have "al ! 255 = 0" using assms(3) by (simp add: al_def fill_other)
  ultimately show thesis using that assms(2-4) by (simp add: field_tables_def io_def al_def)
qed

lemma init_log_tables_eq:
  assumes "d_min_poly rs = 29" "length (d_log_table rs) = 256" "length (d_antilog rs) = 255"
  obtains lg an where "init_log_tables rs = rs\<lparr> d_log_table := lg, d_antilog := an \<rparr>"
    "log_tables (rs\<lparr> d_log_table := lg, d_antilog := an \<rparr>)"
proof -
  define lg where "lg = fill (\<lambda>k. unat (alpha (8 * k))) of_nat [0..<255] ((d_log_table rs)[0 := 0])"
  define an where "an = fill id (\<lambda>k. alpha (8 * k)) [0..<255] (d_antilog rs)"
  have "init_log_tables rs = rs\<lparr> d_log_table := lg, d_antilog := an \<rparr>"
    using log_loop_eq[of 255 0 "(d_log_table rs)[0 := 0]" "d_antilog rs"]
    by (simp add: init_log_tables_def assms(1) lg_def an_def)
  moreover have "unat (alpha (8 * i)) < 256" for i by (rule unat_u8)
  then have "lg ! unat (alpha (8 * i)) = of_nat i" if "i < 255" for i
    using that assms(2) alpha_8_inj
      fill_at[of "\<lambda>k. unat (alpha (8 * k))" "[0..<255]" i "(d_log_table rs)[0 := 0]" of_nat]
    by (simp add: lg_def)
  moreover have "an ! i = alpha (8 * i)" if "i < 255" for i
    using that assms(3) fill_at[of id "[0..<255]" i "d_antilog rs" "\<lambda>k. alpha (8 * k)"] by (simp add: an_def)
  ultimately show thesis using that by (simp add: log_tables_def)
qed

text \<open>What a constructor leaves for the polynomial 29 and the primitive element itself.\<close>

definition standard_code :: "nat \<Rightarrow> nat \<Rightarrow> nat \<Rightarrow> nat \<Rightarrow> reed_solomon \<Rightarrow> bool" where
  "standard_code nroots fcr pad shortening rs \<longleftrightarrow> field_tables rs \<and> log_tables rs \<and> d_min_poly rs = 29
     \<and> d_prim rs = 1 \<and> d_iprim rs = 1 \<and> d_nroots rs = nroots \<and> d_fcr rs = fcr \<and> d_pad rs = pad
     \<and> d_shortening rs = shortening \<and> d_data_in_block rs = 255 - nroots
     \<and> d_info_symbols_shortened rs = 255 - nroots - shortening \<and> d_data_symbols_shortened rs = 255 - shortening
     \<and> d_genpoly_index rs = map (\<lambda>i. d_index_of rs ! unat (d_genpoly_coeff rs ! i)) [0..<nroots + 1]"

lemma finish_tables_standard:
  assumes "d_min_poly rs = 29" "length (d_alpha_to rs) = 256" "length (d_index_of rs) = 256"
    "length (d_log_table rs) = 256" "length (d_antilog rs) = 255" "d_prim rs = 1"
    "d_nroots rs < length (d_genpoly_coeff rs)" "d_data_in_block rs = 255 - d_nroots rs"
    "d_info_symbols_shortened rs = 255 - d_nroots rs - d_shortening rs"
    "d_data_symbols_shortened rs = 255 - d_shortening rs"
  obtains rs' where "finish_tables rs = Some rs'"
    "standard_code (d_nroots rs) (d_fcr rs) (d_pad rs) (d_shortening rs) rs'"
    "d_genpoly_coeff rs' = d_genpoly_coeff rs" "d_genmatrix rs' = d_genmatrix rs"
    "d_rows_G rs' = d_rows_G rs" "d_columns_G rs' = d_columns_G rs"
proof -
  let ?r0 = "rs\<lparr> d_a0 := 255, d_genpoly_index := replicate (d_nroots rs + 1) 0 \<rparr>"
  obtain lg an where l: "init_log_tables ?r0 = ?r0\<lparr> d_log_table := lg, d_antilog := an \<rparr>"
    "log_tables (?r0\<lparr> d_log_table := lg, d_antilog := an \<rparr>)"
    by (rule init_log_tables_eq[of ?r0]) (use assms in simp_all)
  let ?r1 = "?r0\<lparr> d_log_table := lg, d_antilog := an \<rparr>"
  obtain io al gi where a: "init_alpha_tables ?r1 = Some (?r1\<lparr> d_index_of := io, d_alpha_to := al, d_iprim := 1,
      d_genpoly_index := map (\<lambda>i. io ! unat (d_genpoly_coeff ?r1 ! i)) [0..<d_nroots ?r1 + 1] \<rparr>)"
    "field_tables (?r1\<lparr> d_index_of := io, d_alpha_to := al \<rparr>)"
    by (rule init_alpha_tables_eq[of ?r1]) (use assms in simp_all)
  have "finish_tables rs = Some (?r1\<lparr> d_index_of := io, d_alpha_to := al, d_iprim := 1,
      d_genpoly_index := map (\<lambda>i. io ! unat (d_genpoly_coeff ?r1 ! i)) [0..<d_nroots ?r1 + 1] \<rparr>)"
    by (simp only: finish_tables_def l(1) a(1))
  then show thesis
    by (rule that) (use assms l(2) a(2) in \<open>simp_all add: standard_code_def field_tables_def log_tables_def\<close>)
qed

section \<open>The tables and the field\<close>

lemma field_tablesD:
  assumes "field_tables rs"
  shows "i < 255 \<Longrightarrow> d_alpha_to rs ! i = alpha i" "d_alpha_to rs ! 255 = 0" "d_index_of rs ! 0 = 255"
    "i < 255 \<Longrightarrow> d_index_of rs ! unat (alpha i) = of_nat i" "d_a0 rs = 255"
  using assms by (simp_all add: field_tables_def)

lemma alpha_of_eq:
  assumes "field_tables rs" "0 \<le> x"
  shows "alpha_of rs x = alpha (nat x)"
proof -
  have "nat (x mod 255) = nat x mod 255" using assms(2) by (simp add: nat_mod_distrib)
  moreover have "nat (x mod 255) < 255" by simp
  ultimately show ?thesis using assms by (simp add: mod255_eq field_tablesD alpha_mod)
qed

lemma Gf_alpha_of: "field_tables rs \<Longrightarrow> 0 \<le> x \<Longrightarrow> Gf (alpha_of rs x) = gen ^ nat x"
  by (simp add: alpha_of_eq gen_power)

lemma index_nonzero:
  assumes "field_tables rs" "b \<noteq> 0"
  shows "unat (index_in rs b) < 255" "gen ^ unat (index_in rs b) = Gf b"
proof -
  obtain i where i: "i < 255" "alpha i = b" using assms(2) by (rule alpha_surj)
  then have "index_in rs b = of_nat i" using field_tablesD(4)[OF assms(1) i(1)] by simp
  moreover have "unat (of_nat i :: u8) = i" using i(1) by (simp add: unat_of_nat)
  ultimately show "unat (index_in rs b) < 255" "gen ^ unat (index_in rs b) = Gf b"
    using i by (simp_all add: gen_power)
qed

lemma index_eq_a0_iff:
  assumes "field_tables rs"
  shows "index_in rs b = d_a0 rs \<longleftrightarrow> b = 0"
proof (cases "b = 0")
  case False
  have "unat (255 :: u8) = 255" by simp
  with index_nonzero(1)[OF assms False] False show ?thesis by (auto simp: field_tablesD[OF assms])
qed (simp add: field_tablesD[OF assms])

text \<open>A value in index form.\<close>

definition unlog :: "u8 \<Rightarrow> gf" where
  "unlog v = (if v = 255 then 0 else gen ^ unat v)"

lemma unlog_index: "field_tables rs \<Longrightarrow> unlog (index_in rs b) = Gf b"
  using index_nonzero(2)[of rs b] index_eq_a0_iff[of rs b]
  by (cases "b = 0") (simp_all add: unlog_def field_tablesD)

lemma unlog_255 [simp]: "unlog 255 = 0"
  by (simp add: unlog_def)

lemma unlog_eq_0_iff [simp]: "unlog v = 0 \<longleftrightarrow> v = 255"
  by (simp add: unlog_def)

lemma Gf_alpha_sum:
  "field_tables rs \<Longrightarrow> v \<noteq> 255 \<Longrightarrow> w \<noteq> 255 \<Longrightarrow> Gf (alpha_of rs (uint v + uint w)) = unlog v * unlog w"
  by (simp add: Gf_alpha_of unlog_def nat_add_distrib flip: power_add)

lemma Gf_alpha_power:
  "field_tables rs \<Longrightarrow> v \<noteq> 255 \<Longrightarrow> Gf (alpha_of rs (uint v + int k)) = unlog v * gen ^ k"
  by (simp add: Gf_alpha_of unlog_def nat_add_distrib flip: power_add)

end
