(* ===== verification/Reed_Solomon_Algebra.thy ===== *)
theory Reed_Solomon_Algebra
  imports Galois_Field
begin

text \<open>
  The algebra of erasure decoding: locator polynomials, their product with the syndromes and the
  formula of Forney, over the field of 256 elements. Polynomials are their coefficient functions.
\<close>

section \<open>Locator polynomials\<close>

text \<open>Multiplication by \<open>1 + X y\<close>.\<close>

definition mul_lin :: "gf \<Rightarrow> (nat \<Rightarrow> gf) \<Rightarrow> nat \<Rightarrow> gf" where
  "mul_lin X f i = f i + (if i = 0 then 0 else X * f (i - 1))"

fun locator :: "gf list \<Rightarrow> nat \<Rightarrow> gf" where
  "locator [] = (\<lambda>i. if i = 0 then 1 else 0)"
| "locator (X # Xs) = mul_lin X (locator Xs)"

lemma mul_lin_simps [simp]:
  "mul_lin X f 0 = f 0"
  "mul_lin X f (Suc i) = f (Suc i) + X * f i"
  by (simp_all add: mul_lin_def)

lemma mul_lin_commute: "mul_lin X (mul_lin Y f) = mul_lin Y (mul_lin X f)"
proof
  fix i show "mul_lin X (mul_lin Y f) i = mul_lin Y (mul_lin X f) i"
  proof (cases i)
    case (Suc j)
    then show ?thesis by (cases j) (simp_all add: algebra_simps)
  qed simp
qed

lemma locator_0 [simp]: "locator Xs 0 = 1"
  by (induction Xs) simp_all

lemma locator_beyond: "length Xs < i \<Longrightarrow> locator Xs i = 0"
proof (induction Xs arbitrary: i)
  case (Cons X Xs)
  then show ?case by (cases i) simp_all
qed simp

lemma locator_lead: "locator Xs (length Xs) = prod_list Xs"
  by (induction Xs) (simp_all add: locator_beyond)

lemma locator_remove1: "X \<in> set Xs \<Longrightarrow> locator Xs = mul_lin X (locator (remove1 X Xs))"
  by (induction Xs) (auto simp: mul_lin_commute)

text \<open>The order of the factors does not matter.\<close>

lemma locator_snoc: "locator (Xs @ [X]) = mul_lin X (locator Xs)"
  by (induction Xs) (simp_all add: mul_lin_commute)

section \<open>Values\<close>

definition peval :: "nat \<Rightarrow> (nat \<Rightarrow> gf) \<Rightarrow> gf \<Rightarrow> gf" where
  "peval n f y = (\<Sum>i<n. f i * y ^ i)"

lemma peval_Suc: "peval (Suc n) f y = peval n f y + f n * y ^ n"
  by (simp add: peval_def)

lemma peval_mul_lin:
  "peval (Suc n) (mul_lin X f) y = (1 + X * y) * peval n f y + f n * y ^ n"
proof (induction n)
  case 0
  show ?case by (simp add: peval_def)
next
  case (Suc n)
  have "peval (Suc (Suc n)) (mul_lin X f) y =
      peval (Suc n) (mul_lin X f) y + mul_lin X f (Suc n) * y ^ Suc n"
    by (rule peval_Suc)
  also have "\<dots> = (1 + X * y) * peval (Suc n) f y + f (Suc n) * y ^ Suc n"
    unfolding Suc peval_Suc[of n f] mul_lin_simps by (simp add: algebra_simps)
  finally show ?case .
qed

lemma peval_extend:
  assumes "\<And>i. m \<le> i \<Longrightarrow> f i = 0" "m \<le> n"
  shows "peval n f y = peval m f y"
  unfolding peval_def using assms by (intro sum.mono_neutral_right) (auto simp: not_less)

lemma peval_locator:
  "length Xs < n \<Longrightarrow> peval n (locator Xs) y = (\<Prod>X\<leftarrow>Xs. 1 + X * y)"
proof (induction Xs arbitrary: n)
  case Nil
  then have "peval n (locator []) y = peval 1 (locator []) y" by (intro peval_extend) auto
  then show ?case by (simp add: peval_def)
next
  case (Cons X Xs)
  then obtain m where n: "n = Suc m" "length Xs < m" by (cases n) auto
  then show ?case using Cons.IH[of m] by (simp add: peval_mul_lin locator_beyond)
qed

lemma locator_root_iff:
  "length Xs < n \<Longrightarrow> peval n (locator Xs) y = 0 \<longleftrightarrow> (\<exists>X \<in> set Xs. X * y = 1)"
  by (auto simp: peval_locator prod_list_zero_iff image_iff gf_add_eq_0_iff)

section \<open>Product with the syndromes\<close>

lemma power_series_mul_lin:
  "(\<Sum>j\<le>i. X ^ (i - j) * mul_lin X f j) = f i"
proof (induction i)
  case 0
  show ?case by simp
next
  case (Suc i)
  have "(\<Sum>j\<le>Suc i. X ^ (Suc i - j) * mul_lin X f j) =
      X * (\<Sum>j\<le>i. X ^ (i - j) * mul_lin X f j) + mul_lin X f (Suc i)"
    by (simp add: sum_distrib_left Suc_diff_le mult.assoc)
  also have "\<dots> = X * f i + (f (Suc i) + X * f i)" by (simp only: Suc mul_lin_simps)
  also have "\<dots> = f (Suc i)" by (simp add: algebra_simps)
  finally show ?case .
qed

text \<open>The coefficients of the evaluator: \<open>E p\<close> is the error at location \<open>p\<close>, scaled.\<close>

lemma evaluator_coeff:
  assumes S: "\<And>i. i < n \<Longrightarrow> S i = (\<Sum>X \<in> set Xs. E X * X ^ i)" and "i < n"
  shows "(\<Sum>j\<le>i. S (i - j) * locator Xs j) = (\<Sum>X \<in> set Xs. E X * locator (remove1 X Xs) i)"
proof -
  have "(\<Sum>j\<le>i. S (i - j) * locator Xs j) =
      (\<Sum>j\<le>i. \<Sum>X \<in> set Xs. E X * (X ^ (i - j) * locator Xs j))"
    using assms by (intro sum.cong) (simp_all add: sum_distrib_right mult.assoc)
  also have "\<dots> = (\<Sum>X \<in> set Xs. E X * (\<Sum>j\<le>i. X ^ (i - j) * locator Xs j))"
    by (simp add: sum.swap[of _ "{..i}"] sum_distrib_left)
  also have "\<dots> = (\<Sum>X \<in> set Xs. E X * locator (remove1 X Xs) i)"
    by (intro sum.cong refl) (simp add: locator_remove1 power_series_mul_lin)
  finally show ?thesis .
qed

lemma evaluator_high:
  assumes "\<And>i. i < n \<Longrightarrow> S i = (\<Sum>X \<in> set Xs. E X * X ^ i)" "i < n" "length Xs \<le> i"
  shows "(\<Sum>j\<le>i. S (i - j) * locator Xs j) = 0"
proof -
  have "locator (remove1 X Xs) i = 0" if "X \<in> set Xs" for X
    using assms(3) that by (intro locator_beyond) (metis One_nat_def Suc_pred length_pos_if_in_set
      length_remove1 less_eq_Suc_le)
  then show ?thesis by (simp add: evaluator_coeff[OF assms(1,2)])
qed

section \<open>Forney's formula\<close>

text \<open>The product of the other factors at the root of \<open>X\<close>.\<close>

definition others :: "gf list \<Rightarrow> gf \<Rightarrow> gf" where
  "others Xs X = (\<Prod>Y\<leftarrow>remove1 X Xs. 1 + Y * inverse X)"

lemma others_nonzero:
  assumes "distinct Xs" "0 \<notin> set Xs" "X \<in> set Xs"
  shows "others Xs X \<noteq> 0"
proof -
  have "1 + Y * inverse X \<noteq> 0" if "Y \<in> set (remove1 X Xs)" for Y
  proof
    assume "1 + Y * inverse X = 0"
    then have "Y * inverse X = 1" by (simp add: gf_add_eq_0_iff)
    then have "Y = X" using assms(2,3) by (metis inverse_inverse_eq inverse_unique mult.commute nonzero_imp_inverse_nonzero)
    with that assms(1) show False by simp
  qed
  then show ?thesis by (auto simp: others_def prod_list_zero_iff)
qed

lemma length_remove1_less: "X \<in> set Xs \<Longrightarrow> length (remove1 X Xs) < length Xs"
  by (frule length_pos_if_in_set) (simp add: length_remove1)

lemma evaluator_at_root:
  assumes "distinct Xs" "0 \<notin> set Xs" "X \<in> set Xs"
  shows "(\<Sum>i<length Xs. (\<Sum>Y \<in> set Xs. E Y * locator (remove1 Y Xs) i) * inverse X ^ i) = E X * others Xs X"
proof -
  have "(\<Sum>i<length Xs. (\<Sum>Y \<in> set Xs. E Y * locator (remove1 Y Xs) i) * inverse X ^ i) =
      (\<Sum>i<length Xs. \<Sum>Y \<in> set Xs. E Y * (locator (remove1 Y Xs) i * inverse X ^ i))"
    by (simp add: sum_distrib_right mult.assoc)
  also have "\<dots> = (\<Sum>Y \<in> set Xs. E Y * peval (length Xs) (locator (remove1 Y Xs)) (inverse X))"
    by (simp add: sum.swap[of _ "{..<length Xs}"] sum_distrib_left peval_def)
  also have "\<dots> = (\<Sum>Y \<in> set Xs. if Y = X then E X * others Xs X else 0)"
  proof (rule sum.cong[OF refl])
    fix Y assume Y: "Y \<in> set Xs"
    show "E Y * peval (length Xs) (locator (remove1 Y Xs)) (inverse X) = (if Y = X then E X * others Xs X else 0)"
    proof (cases "Y = X")
      case True
      with assms show ?thesis by (simp add: peval_locator length_remove1_less others_def)
    next
      case False
      have "X \<noteq> 0" using assms(2,3) by auto
      with assms False have "X \<in> set (remove1 Y Xs)" "X * inverse X = 1" by auto
      with Y False show ?thesis using locator_root_iff[of "remove1 Y Xs" "length Xs" "inverse X"]
        by (auto simp: length_remove1_less)
    qed
  qed
  also have "\<dots> = E X * others Xs X" using assms(3) by simp
  finally show ?thesis .
qed

text \<open>The formal derivative: the odd coefficients.\<close>

lemma even_terms:
  "(\<Sum>i<2 * n. f i * y ^ i) = (\<Sum>i<n. (f (2 * i) + f (2 * i + 1) * y) * y ^ (2 * i :: nat))" for y :: gf
  by (induction n) (simp_all add: algebra_simps)

lemma derivative_at_root:
  assumes "X \<in> set Xs" "X \<noteq> 0" "length Xs \<le> 2 * n"
  shows "(\<Sum>i<n. locator Xs (2 * i + 1) * inverse X ^ (2 * i)) = X * others Xs X"
proof -
  let ?m = "locator (remove1 X Xs)" and ?y = "inverse X"
  have l: "locator Xs (2 * i + 1) = X * (?m (2 * i) + ?m (2 * i + 1) * ?y)" for i
    using assms(1,2) by (simp add: locator_remove1 algebra_simps)
  have "(\<Sum>i<n. locator Xs (2 * i + 1) * ?y ^ (2 * i)) = X * (\<Sum>i<2 * n. ?m i * ?y ^ i)"
    by (simp only: l even_terms sum_distrib_left mult.assoc)
  also have "(\<Sum>i<2 * n. ?m i * ?y ^ i) = others Xs X"
    using peval_locator[of "remove1 X Xs" "2 * n" ?y] length_remove1_less[OF assms(1)] assms(3)
    by (simp add: peval_def others_def)
  finally show ?thesis .
qed

end
