(* ===== verification/Reed_Solomon_Decode.thy ===== *)
theory Reed_Solomon_Decode
  imports Reed_Solomon_Tables Reed_Solomon_Algebra
begin

text \<open>
  The decoder corrects erasures: when at most \<open>d_nroots\<close> symbols of a codeword are erased and
  their positions are given, \<open>decode\<close> restores the codeword.
\<close>

section \<open>Sums\<close>

lemma Gf_foldl_xor:
  "Gf (foldl (\<lambda>d i. if P i then d XOR f i else d) a xs) = Gf a + (\<Sum>i\<leftarrow>xs. if P i then Gf (f i) else 0)"
  by (induction xs arbitrary: a) (simp_all add: Gf_xor add.assoc)

lemma sum_list_rev_upt: "(\<Sum>i\<leftarrow>rev [0..<n]. f i) = (\<Sum>i<n. f i :: gf)"
  by (induction n) (simp_all add: add.commute)

lemma sum_list_upt: "(\<Sum>i\<leftarrow>[0..<n]. f i) = (\<Sum>i<n. f i :: gf)"
  by (induction n) simp_all

section \<open>Syndromes\<close>

text \<open>The value of a symbol's position.\<close>

definition loc :: "nat \<Rightarrow> gf" where
  "loc p = gen ^ (254 - p)"

lemma loc_nonzero [simp]: "loc p \<noteq> 0"
  by (simp add: loc_def)

lemma loc_inj: "p < 255 \<Longrightarrow> q < 255 \<Longrightarrow> loc p = loc q \<longleftrightarrow> p = q"
  by (auto simp: loc_def gen_power_eq_iff)

lemma inj_loc: "A \<subseteq> {..<255} \<Longrightarrow> inj_on loc A"
  by (auto simp: inj_on_def loc_inj subset_iff)

definition syndrome :: "nat \<Rightarrow> u8 list \<Rightarrow> nat \<Rightarrow> gf" where
  "syndrome fcr data i = (\<Sum>j<255. Gf (data ! j) * loc j ^ (fcr + i))"

definition codeword :: "nat \<Rightarrow> nat \<Rightarrow> u8 list \<Rightarrow> bool" where
  "codeword nroots fcr c \<longleftrightarrow> length c = 255 \<and> (\<forall>i < nroots. syndrome fcr c i = 0)"

lemma syndrome_step_nth:
  assumes "field_tables rs" "d_prim rs = 1" "i < d_nroots rs"
  shows "Gf (syndrome_step rs s d ! i) = Gf d + Gf (s ! i) * gen ^ (d_fcr rs + i)"
proof (cases "s ! i = 0")
  case True
  then show ?thesis using assms by (simp add: syndrome_step_def flip: zero_gf_def)
next
  case False
  with assms(1) have "index_in rs (s ! i) \<noteq> 255" by (metis field_tablesD(5) index_eq_a0_iff)
  then have "Gf (alpha_of rs (uint (index_in rs (s ! i)) + int (d_fcr rs + i))) = Gf (s ! i) * gen ^ (d_fcr rs + i)"
    using Gf_alpha_power[OF assms(1), of "index_in rs (s ! i)" "d_fcr rs + i"]
    by (simp only: unlog_index[OF assms(1)] simp_thms)
  with False assms show ?thesis by (simp add: syndrome_step_def Gf_xor)
qed

lemma syndrome_fold:
  assumes "field_tables rs" "d_prim rs = 1" "i < d_nroots rs" "length s = d_nroots rs"
  shows "Gf (foldl (syndrome_step rs) s xs ! i) = Gf (s ! i) * (gen ^ (d_fcr rs + i)) ^ length xs +
    (\<Sum>j<length xs. Gf (xs ! j) * (gen ^ (d_fcr rs + i)) ^ (length xs - 1 - j))"
proof (induction xs rule: rev_induct)
  case (snoc x xs)
  let ?b = "gen ^ (d_fcr rs + i)"
  have "(\<Sum>j<length xs. Gf ((xs @ [x]) ! j) * ?b ^ (length xs - j)) =
      (\<Sum>j<length xs. Gf (xs ! j) * ?b ^ (length xs - 1 - j)) * ?b"
    unfolding sum_distrib_right
    by (intro sum.cong refl) (simp add: nth_append mult.assoc Suc_diff_Suc flip: power_Suc2)
  then show ?case
    by (simp add: syndrome_step_nth[OF assms(1-3)] snoc algebra_simps flip: power_Suc2)
qed simp

lemma length_syndromes [simp]:
  "length (syndromes rs data) = d_nroots rs"
proof -
  have "length (foldl (syndrome_step rs) s xs) = d_nroots rs" if "length s = d_nroots rs" for s xs
    using that by (induction xs arbitrary: s) (simp_all add: syndrome_step_def)
  then show ?thesis by (simp add: syndromes_def)
qed

lemma power_swap: "(gen ^ a) ^ b = (gen ^ b) ^ a"
  by (simp add: mult.commute flip: power_mult)

lemma Gf_syndromes:
  assumes "field_tables rs" "d_prim rs = 1" "d_pad rs = 0" "i < d_nroots rs" "length data = 255"
  shows "Gf (syndromes rs data ! i) = syndrome (d_fcr rs) data i"
proof -
  obtain x xs where d: "data = x # xs" "length xs = 254" using assms(5) by (cases data) auto
  then have "syndromes rs data = foldl (syndrome_step rs) (replicate (d_nroots rs) x) xs"
    by (simp add: syndromes_def assms(3))
  then have "Gf (syndromes rs data ! i) = Gf x * (gen ^ (d_fcr rs + i)) ^ 254 +
      (\<Sum>j<254. Gf (xs ! j) * (gen ^ (d_fcr rs + i)) ^ (253 - j))"
    using syndrome_fold[OF assms(1,2,4), of "replicate (d_nroots rs) x" xs] assms(4) d(2) by simp
  also have "\<dots> = (\<Sum>j<Suc 254. Gf (data ! j) * loc j ^ (d_fcr rs + i))"
    unfolding sum.lessThan_Suc_shift loc_def d(1)
    by (simp add: power_swap[of "d_fcr rs + i"])
  finally show ?thesis by (simp add: syndrome_def)
qed

lemma syndrome_xor:
  "length a = 255 \<Longrightarrow> length b = 255 \<Longrightarrow> syndrome fcr (map2 (XOR) a b) i = syndrome fcr a i + syndrome fcr b i"
  by (simp add: syndrome_def Gf_xor algebra_simps flip: sum.distrib)

section \<open>The erasure locator\<close>

definition coeffs :: "u8 list \<Rightarrow> (nat \<Rightarrow> gf) \<Rightarrow> bool" where
  "coeffs l f \<longleftrightarrow> (\<forall>j < length l. Gf (l ! j) = f j)"

lemma multiply_step:
  assumes "field_tables rs" "u \<noteq> 255"
  shows "Gf (if index_in rs b \<noteq> d_a0 rs then a XOR alpha_of rs (uint u + uint (index_in rs b)) else a) =
    Gf a + unlog u * Gf b"
proof (cases "b = 0")
  case False
  then have "index_in rs b \<noteq> 255" using assms(1) by (metis field_tablesD(5) index_eq_a0_iff)
  then show ?thesis using assms False
    by (simp add: index_eq_a0_iff Gf_xor Gf_alpha_sum unlog_index)
qed (use assms field_tablesD(3,5) in \<open>simp flip: zero_gf_def\<close>)

lemma multiply_loop:
  assumes "field_tables rs" "u \<noteq> 255" "m < length l"
  defines "step \<equiv> \<lambda>l j. let tmp = index_in rs (l ! (j - 1))
      in if tmp \<noteq> d_a0 rs then l[j := l ! j XOR alpha_of rs (uint u + uint tmp)] else l"
  shows "length (foldl step l (rev [1..<Suc m])) = length l \<and>
    (\<forall>j < length l. Gf (foldl step l (rev [1..<Suc m]) ! j) =
      Gf (l ! j) + (if 1 \<le> j \<and> j \<le> m then unlog u * Gf (l ! (j - 1)) else 0))"
  using assms(3)
proof (induction m arbitrary: l)
  case (Suc m)
  have step: "step l (Suc m) = l[Suc m := if index_in rs (l ! m) \<noteq> d_a0 rs
      then l ! Suc m XOR alpha_of rs (uint u + uint (index_in rs (l ! m))) else l ! Suc m]"
    by (simp add: step_def Let_def)
  then have "Gf (step l (Suc m) ! j) = Gf (l ! j) + (if j = Suc m then unlog u * Gf (l ! m) else 0)"
    if "j < length l" for j
    using multiply_step[OF assms(1,2), of "l ! m" "l ! Suc m"] that Suc.prems by (simp add: nth_list_update)
  moreover have "length (step l (Suc m)) = length l" by (simp add: step)
  ultimately have ih: "length (foldl step (step l (Suc m)) (rev [1..<Suc m])) = length l"
    "\<And>j. j < length l \<Longrightarrow> Gf (foldl step (step l (Suc m)) (rev [1..<Suc m]) ! j) =
      Gf (l ! j) + (if j = Suc m then unlog u * Gf (l ! m) else 0) +
      (if 1 \<le> j \<and> j \<le> m then unlog u * Gf (l ! (j - 1)) else 0)"
    using Suc.IH[of "step l (Suc m)"] Suc.prems by (auto simp del: upt_Suc)
  have "rev [1..<Suc (Suc m)] = Suc m # rev [1..<Suc m]" by simp
  then show ?case using ih by (auto simp: le_Suc_eq simp del: upt_Suc)
qed simp

lemma multiply_locator_coeffs:
  assumes "field_tables rs" "u \<noteq> 255" "coeffs l f" "i + 1 < length l" "\<And>j. i < j \<Longrightarrow> f j = 0"
  shows "length (multiply_locator rs u i l) = length l \<and> coeffs (multiply_locator rs u i l) (mul_lin (unlog u) f)"
proof -
  have "Gf (l ! j) + (if 1 \<le> j \<and> j \<le> i + 1 then unlog u * Gf (l ! (j - 1)) else 0) = mul_lin (unlog u) f j"
    if "j < length l" for j
    using assms(3,5) that by (cases j) (auto simp: coeffs_def)
  then show ?thesis using multiply_loop[OF assms(1,2,4)] by (simp add: multiply_locator_def coeffs_def)
qed

lemma eras_index_eq:
  assumes "d_prim rs = 1" "p < 255"
  shows "eras_index rs (int p) = int (254 - p)"
  using assms by (simp add: eras_index_def mod255_eq of_nat_diff)

lemma unlog_position:
  "p < 255 \<Longrightarrow> (word_of_int (int (254 - p)) :: u8) \<noteq> 255 \<and> unlog (word_of_int (int (254 - p))) = loc p"
proof -
  assume "p < 255"
  then have u: "unat (of_nat (254 - p) :: u8) = 254 - p" by (intro unat_of_nat_less) simp
  have "(of_nat (254 - p) :: u8) \<noteq> 255"
  proof
    assume "(of_nat (254 - p) :: u8) = 255"
    from arg_cong[OF this, of unat] u show False by simp
  qed
  with u show ?thesis by (simp add: unlog_def loc_def)
qed


lemma locators_coeffs:
  assumes "field_tables rs" "d_prim rs = 1" "\<forall>p \<in> set qs. p < 255" "coeffs l (locator Xs)"
    "length Xs = k" "k + length qs < length l"
  shows "length (foldl (\<lambda>l (i, e). multiply_locator rs (word_of_int (eras_index rs e)) i l) l
      (enumerate k (map int qs))) = length l \<and>
    coeffs (foldl (\<lambda>l (i, e). multiply_locator rs (word_of_int (eras_index rs e)) i l) l
      (enumerate k (map int qs))) (locator (Xs @ map loc qs))"
  using assms(3-)
proof (induction qs arbitrary: l Xs k)
  case (Cons q qs)
  let ?u = "word_of_int (eras_index rs (int q)) :: u8"
  have u: "?u \<noteq> 255" "unlog ?u = loc q"
    using unlog_position[of q] eras_index_eq[OF assms(2), of q] Cons.prems(1) by simp_all
  have "length (multiply_locator rs ?u k l) = length l \<and> coeffs (multiply_locator rs ?u k l) (locator (Xs @ [loc q]))"
    unfolding locator_snoc u(2)[symmetric]
    by (intro multiply_locator_coeffs assms(1) u Cons.prems(2)) (use Cons.prems in \<open>auto simp: locator_beyond\<close>)
  then show ?case using Cons.IH[of "multiply_locator rs ?u k l" "Xs @ [loc q]" "Suc k"] Cons.prems by simp
qed simp

lemma erasure_locator_coeffs:
  assumes "field_tables rs" "d_prim rs = 1" "\<forall>p \<in> set ps. p < 255" "length ps \<le> d_nroots rs"
  obtains l where "erasure_locator rs (map int ps) = Some l" "length l = d_nroots rs + 1"
    "coeffs l (locator (map loc ps))"
proof (cases ps)
  case Nil
  have "coeffs (1 # replicate (d_nroots rs) 0) (locator [])"
    by (auto simp: coeffs_def nth_Cons' one_gf_def)
  with Nil show thesis using that by (simp add: erasure_locator_def)
next
  case (Cons p qs)
  let ?l = "(1 # replicate (d_nroots rs) 0)[1 := alpha (254 - p)]"
  have e: "nat (eras_index rs (int p)) = 254 - p" "0 \<le> eras_index rs (int p)" "d_nroots rs \<noteq> 0"
    using eras_index_eq[OF assms(2)] assms(3,4) Cons by auto
  have "coeffs ?l (locator [loc p])"
    using e(3) by (auto simp: coeffs_def nth_list_update nth_Cons' mul_lin_def loc_def gen_power simp flip: one_gf_def)
  then have "length (foldl (\<lambda>l (i, e). multiply_locator rs (word_of_int (eras_index rs e)) i l) ?l
        (enumerate 1 (map int qs))) = length ?l \<and>
      coeffs (foldl (\<lambda>l (i, e). multiply_locator rs (word_of_int (eras_index rs e)) i l) ?l
        (enumerate 1 (map int qs))) (locator ([loc p] @ map loc qs))"
    using assms Cons by (intro locators_coeffs) simp_all
  moreover have "erasure_locator rs (map int ps) = Some (foldl (\<lambda>l (i, e).
      multiply_locator rs (word_of_int (eras_index rs e)) i l) ?l (enumerate 1 (map int qs)))"
    using Cons e by (simp add: erasure_locator_def field_tablesD(1)[OF assms(1)] not_less)
  ultimately show thesis using Cons that by simp
qed

section \<open>The Berlekamp-Massey iteration on erasures\<close>

lemma Gf_discrepancy:
  assumes "field_tables rs" "\<And>i. i < r \<Longrightarrow> Gf (l ! i) = f i" "\<And>i. i < r \<Longrightarrow> unlog (s ! i) = S i"
  shows "Gf (discrepancy rs s l r) = (\<Sum>i<r. S (r - 1 - i) * f i)"
proof -
  have "(if l ! i \<noteq> 0 \<and> s ! (r - i - 1) \<noteq> d_a0 rs
      then Gf (alpha_of rs (uint (index_in rs (l ! i)) + uint (s ! (r - i - 1)))) else 0) = S (r - 1 - i) * f i"
    if "i < r" for i
  proof -
    have "l ! i = 0 \<or> s ! (r - i - 1) = 255 \<Longrightarrow> S (r - 1 - i) * f i = 0"
      using assms(2)[OF that] assms(3)[of "r - i - 1"] that
      by (auto simp: diff_commute unlog_def simp flip: zero_gf_def)
    moreover have "Gf (alpha_of rs (uint (index_in rs (l ! i)) + uint (s ! (r - i - 1)))) = S (r - 1 - i) * f i"
      if "l ! i \<noteq> 0" "s ! (r - i - 1) \<noteq> 255"
    proof -
      have "index_in rs (l ! i) \<noteq> 255" using that(1) assms(1) by (metis field_tablesD(5) index_eq_a0_iff)
      with that assms(1) \<open>i < r\<close> assms(2)[OF \<open>i < r\<close>] assms(3)[of "r - i - 1"] show ?thesis
        by (simp add: Gf_alpha_sum unlog_index diff_commute mult.commute)
    qed
    ultimately show ?thesis using field_tablesD(5)[OF assms(1)] by auto
  qed
  then show ?thesis
    by (simp add: discrepancy_def Gf_foldl_xor sum_list_upt flip: zero_gf_def)
qed

lemma bm_no_errors:
  assumes "\<And>r. r \<in> set rs' \<Longrightarrow> index_in rs (discrepancy rs s l r) = d_a0 rs"
  shows "fst (foldl (bm_step rs k s) (l, b, el) rs') = l"
  using assms by (induction rs' arbitrary: b) (simp_all add: bm_step_def Let_def)

lemma berlekamp_massey_erasures:
  assumes "field_tables rs" "length l = d_nroots rs + 1" "coeffs l (locator Xs)"
    "\<And>i. i < d_nroots rs \<Longrightarrow> unlog (s ! i) = S i"
    "\<And>i. i < d_nroots rs \<Longrightarrow> S i = (\<Sum>X \<in> set Xs. E X * X ^ i)"
  shows "berlekamp_massey rs (length Xs) s l = l"
proof -
  have "index_in rs (discrepancy rs s l r) = d_a0 rs" if r: "r \<in> set [length Xs + 1..<d_nroots rs + 1]" for r
  proof -
    have "Gf (discrepancy rs s l r) = (\<Sum>i<r. S (r - 1 - i) * locator Xs i)"
      using r assms(2,3,4) by (intro Gf_discrepancy assms(1)) (auto simp: coeffs_def)
    also have "\<dots> = (\<Sum>i\<le>r - 1. S (r - 1 - i) * locator Xs i)" using r by (intro sum.cong) auto
    also have "\<dots> = 0" using r assms(5) by (intro evaluator_high[of "d_nroots rs"]) auto
    finally show ?thesis by (simp add: field_tablesD(3,5)[OF assms(1)])
  qed
  then show ?thesis unfolding berlekamp_massey_def by (rule bm_no_errors)
qed

lemma degree_of_eq:
  assumes "lambda ! k \<noteq> d_a0 rs" "k \<le> d_nroots rs" "\<And>i. k < i \<Longrightarrow> i \<le> d_nroots rs \<Longrightarrow> lambda ! i = d_a0 rs"
  shows "degree_of rs lambda = k"
proof -
  have "foldl (\<lambda>d i. if lambda ! i \<noteq> d_a0 rs then i else d) 0 [0..<m + 1] = k" if "k \<le> m" "m \<le> d_nroots rs" for m
    using that
  proof (induction m rule: dec_induct)
    case base
    then show ?case using assms(1) by simp
  next
    case (step m)
    then show ?case using assms(3)[of "Suc m"] by simp
  qed
  from this[OF assms(2)] show ?thesis by (simp add: degree_of_def)
qed

section \<open>The Chien search\<close>

text \<open>The registers hold the terms of the locator at \<open>gen ^ i\<close>.\<close>

definition registers :: "nat \<Rightarrow> (nat \<Rightarrow> gf) \<Rightarrow> nat \<Rightarrow> u8 list \<Rightarrow> bool" where
  "registers deg f i reg \<longleftrightarrow> deg < length reg \<and> (\<forall>j. 1 \<le> j \<longrightarrow> j \<le> deg \<longrightarrow> unlog (reg ! j) = f j * gen ^ (i * j))"

lemma unlog_advance:
  assumes "field_tables rs" "v \<noteq> 255"
  shows "word_of_int (mod255 (uint v + int j)) \<noteq> (255 :: u8)"
    "unlog (word_of_int (mod255 (uint v + int j))) = unlog v * gen ^ j"
    "Gf (d_alpha_to rs ! nat (mod255 (uint v + int j))) = unlog v * gen ^ j"
proof -
  define m where "m = nat (mod255 (uint v + int j))"
  have "uint v + int j = int (unat v + j)" by simp
  then have "mod255 (uint v + int j) = int ((unat v + j) mod 255)" by (simp only: mod255_eq) (simp only: zmod_int of_nat_numeral of_nat_0_le_iff if_True)
  then have m: "mod255 (uint v + int j) = int m" "m < 255" "m = (unat v + j) mod 255"
    by (simp_all add: m_def)
  have u: "unat (of_nat m :: u8) = m" using m(2) by (intro unat_of_nat_less) simp
  have n: "(of_nat m :: u8) \<noteq> 255"
  proof
    assume "(of_nat m :: u8) = 255"
    from arg_cong[OF this, of unat] u m(2) show False by simp
  qed
  have g: "gen ^ m = unlog v * gen ^ j"
    using assms(2) m(3) by (simp add: unlog_def gen_power_eq_iff flip: power_add)
  show "word_of_int (mod255 (uint v + int j)) \<noteq> (255 :: u8)"
    "unlog (word_of_int (mod255 (uint v + int j))) = unlog v * gen ^ j"
    using u n g by (simp_all add: m(1) unlog_def)
  show "Gf (d_alpha_to rs ! nat (mod255 (uint v + int j))) = unlog v * gen ^ j"
    using g m(2) by (simp add: m(1) field_tablesD(1)[OF assms(1)] gen_power)
qed

lemma chien_loop_terms:
  assumes "field_tables rs"
  defines "step \<equiv> \<lambda>(reg, q) j. if reg ! j \<noteq> d_a0 rs then
        (let v = mod255 (uint (reg ! j) + int j) in (reg[j := word_of_int v], q XOR d_alpha_to rs ! nat v))
      else (reg, q)"
  shows "m < length reg \<Longrightarrow> \<exists>reg' q'. foldl step (reg, q) (rev [1..<Suc m]) = (reg', q') \<and> length reg' = length reg \<and>
    (\<forall>j. 1 \<le> j \<longrightarrow> j \<le> m \<longrightarrow> unlog (reg' ! j) = unlog (reg ! j) * gen ^ j) \<and>
    (\<forall>j > m. reg' ! j = reg ! j) \<and> Gf q' = Gf q + (\<Sum>j = 1..m. unlog (reg ! j) * gen ^ j)"
proof (induction m arbitrary: reg q)
  case (Suc m)
  have "rev [1..<Suc (Suc m)] = Suc m # rev [1..<Suc m]" by simp
  then have f: "foldl step (reg, q) (rev [1..<Suc (Suc m)]) = foldl step (step (reg, q) (Suc m)) (rev [1..<Suc m])"
    by (simp only: foldl.simps)
  obtain reg1 q1 where s: "step (reg, q) (Suc m) = (reg1, q1)" by (cases "step (reg, q) (Suc m)")
  have s1: "length reg1 = length reg" "\<forall>j. j \<noteq> Suc m \<longrightarrow> reg1 ! j = reg ! j"
    "unlog (reg1 ! Suc m) = unlog (reg ! Suc m) * gen ^ Suc m"
    "Gf q1 = Gf q + unlog (reg ! Suc m) * gen ^ Suc m"
    using s Suc.prems unlog_advance[OF assms(1), of "reg ! Suc m" "Suc m"] field_tablesD(5)[OF assms(1)]
    by (auto simp: step_def Let_def Gf_xor unlog_def split: if_splits)
  obtain reg' q' where r: "foldl step (reg1, q1) (rev [1..<Suc m]) = (reg', q')" "length reg' = length reg1"
    "\<forall>j. 1 \<le> j \<longrightarrow> j \<le> m \<longrightarrow> unlog (reg' ! j) = unlog (reg1 ! j) * gen ^ j"
    "\<forall>j > m. reg' ! j = reg1 ! j" "Gf q' = Gf q1 + (\<Sum>j = 1..m. unlog (reg1 ! j) * gen ^ j)"
    using Suc.IH[of reg1 q1] Suc.prems s1(1) by auto
  have "(\<Sum>j = 1..m. unlog (reg1 ! j) * gen ^ j) = (\<Sum>j = 1..m. unlog (reg ! j) * gen ^ j)"
    using s1(2) by (intro sum.cong) auto
  then have "Gf q' = Gf q + (\<Sum>j = 1..Suc m. unlog (reg ! j) * gen ^ j)"
    using r(5) s1(4) by (simp add: add.commute add.left_commute)
  moreover have "unlog (reg' ! j) = unlog (reg ! j) * gen ^ j" if "1 \<le> j" "j \<le> Suc m" for j
    using that r(3,4) s1(2,3) by (cases "j = Suc m") auto
  ultimately show ?case using f s r(1,2,4) s1(1,2) by auto
qed simp

lemma chien_step_registers:
  assumes "field_tables rs" "registers deg f i reg" "f 0 = 1"
  obtains reg' q where "chien_step rs deg reg = (reg', q)" "registers deg f (Suc i) reg'"
    "Gf q = peval (Suc deg) f (gen ^ Suc i)"
proof -
  obtain reg' q where c: "chien_step rs deg reg = (reg', q)" "length reg' = length reg"
    "\<forall>j. 1 \<le> j \<longrightarrow> j \<le> deg \<longrightarrow> unlog (reg' ! j) = unlog (reg ! j) * gen ^ j"
    "Gf q = 1 + (\<Sum>j = 1..deg. unlog (reg ! j) * gen ^ j)"
    using chien_loop_terms[OF assms(1), of deg reg 1] assms(2)
    by (auto simp: chien_step_def registers_def one_gf_def)
  have t: "unlog (reg ! j) * gen ^ j = f j * gen ^ (Suc i * j)" if "1 \<le> j" "j \<le> deg" for j
    using assms(2) that by (simp add: registers_def power_add mult.assoc mult.commute)
  have "peval (Suc deg) f (gen ^ Suc i) = f 0 + (\<Sum>j = 1..deg. f j * gen ^ (Suc i * j))"
    unfolding peval_def by (simp add: sum.lessThan_Suc_shift sum.atLeast1_atMost_eq
      flip: power_mult del: power_Suc sum.lessThan_Suc mult_Suc)
  also have "(\<Sum>j = 1..deg. f j * gen ^ (Suc i * j)) = (\<Sum>j = 1..deg. unlog (reg ! j) * gen ^ j)"
    using t by (intro sum.cong) auto
  finally have "Gf q = peval (Suc deg) f (gen ^ Suc i)" using c(4) assms(3) by simp
  moreover have "registers deg f (Suc i) reg'"
    using assms(2) c(2,3) t by (auto simp: registers_def)
  ultimately show thesis using that c(1) by blast
qed

lemma chien_loop_found:
  fixes deg :: nat
  assumes "field_tables rs" "d_iprim rs = 1" "f 0 = 1"
  defines "root \<equiv> \<lambda>i. peval (Suc deg) f (gen ^ i) = 0"
  shows "i + n = 256 \<Longrightarrow> 1 \<le> i \<Longrightarrow> k = int ((i - 1) mod 255) \<Longrightarrow> registers deg f (i - 1) reg \<Longrightarrow>
    length found < deg \<Longrightarrow> length found + length (filter root [i..<256]) = deg \<Longrightarrow>
    chien_loop rs deg n i k reg found =
      found @ map (\<lambda>i. (of_nat i, of_nat (i - 1))) (filter root [i..<256])"
proof (induction n arbitrary: i k reg found)
  case (Suc n)
  obtain reg' q where c: "chien_step rs deg reg = (reg', q)" "registers deg f i reg'"
    "Gf q = peval (Suc deg) f (gen ^ i)"
    using chien_step_registers[OF assms(1) Suc.prems(4) assms(3)] Suc.prems(2) by auto
  have q: "q = 0 \<longleftrightarrow> root i" using c(3) by (metis Gf_eq_0_iff root_def)
  have k: "(of_nat (i - 1) :: u8) = word_of_int k"
    using Suc.prems(1,2,3) by simp
  have "((i - 1) mod 255 + 1) mod 255 = i mod 255" using Suc.prems(2) by (simp add: mod_Suc_eq)
  moreover have "k + int (d_iprim rs) = int ((i - 1) mod 255 + 1)" using Suc.prems(3) assms(2) by simp
  ultimately have k': "mod255 (k + int (d_iprim rs)) = int ((Suc i - 1) mod 255)"
    by (simp only: mod255_int diff_Suc_1)
  have up: "[i..<256] = i # [Suc i..<256]" using Suc.prems(1) by (simp add: upt_conv_Cons)
  have reg': "registers deg f (Suc i - 1) reg'" using c(2) by simp
  show ?case
  proof (cases "root i")
    case False
    then show ?thesis using Suc.IH[of "Suc i" _ reg' found] Suc.prems q c(1) k' reg' up by (simp add: Let_def)
  next
    case True
    show ?thesis
    proof (cases "Suc (length found) = deg")
      case True
      have "length found + Suc (length (filter root [Suc i..<256])) = deg"
        using Suc.prems(6) up \<open>root i\<close> by simp
      with True have "length (filter root [Suc i..<256]) = 0" by linarith
      then have "filter root [Suc i..<256] = []" by (simp only: length_0_conv)
      with True \<open>root i\<close> q c(1) k up show ?thesis by (simp add: Let_def)
    next
      case False
      with \<open>root i\<close> show ?thesis
        using Suc.IH[of "Suc i" _ reg' "found @ [(of_nat i, word_of_int k)]"] Suc.prems q c(1) k k' reg' up
        by (simp add: Let_def)
    qed
  qed
qed simp

lemma locator_roots:
  assumes "\<forall>p \<in> set ps. p < 255" "1 \<le> i" "i \<le> 255"
  shows "peval (Suc (length ps)) (locator (map loc ps)) (gen ^ i) = 0 \<longleftrightarrow> i - 1 \<in> set ps"
proof -
  have "loc p * gen ^ i = 1 \<longleftrightarrow> p = i - 1" if "p < 255" for p
  proof -
    have "loc p * gen ^ i = 1 \<longleftrightarrow> gen ^ (254 - p + i) = gen ^ 0" by (simp add: loc_def power_add)
    also have "\<dots> \<longleftrightarrow> (254 - p + i) mod 255 = 0" by (simp only: gen_power_eq_iff) simp
    also have "\<dots> \<longleftrightarrow> p = i - 1"
    proof
      assume "(254 - p + i) mod 255 = 0"
      then obtain c where "254 - p + i = 255 * c" by (auto simp: mod_eq_0_iff_dvd)
      moreover have "1 \<le> 254 - p + i" "254 - p + i \<le> 509" using that assms(2,3) by simp_all
      ultimately have "c = 1" by linarith
      with \<open>254 - p + i = 255 * c\<close> that assms(2) show "p = i - 1" by simp
    qed (use that assms(2,3) in simp)
    finally show ?thesis .
  qed
  then show ?thesis using assms(1) locator_root_iff[of "map loc ps" "Suc (length ps)" "gen ^ i"] by auto
qed

lemma chien_search_erasures:
  assumes "field_tables rs" "d_iprim rs = 1" "\<forall>p \<in> set ps. p < 255" "distinct ps" "ps \<noteq> []"
    "length ps < length lambda" "\<And>j. 1 \<le> j \<Longrightarrow> j \<le> length ps \<Longrightarrow> unlog (lambda ! j) = locator (map loc ps) j"
  shows "chien_search rs (length ps) lambda =
    map (\<lambda>p. (of_nat (p + 1), of_nat p)) (filter (\<lambda>p. p \<in> set ps) [0..<255])"
proof -
  let ?root = "\<lambda>i. peval (Suc (length ps)) (locator (map loc ps)) (gen ^ i) = 0"
  have "[1..<256] = map Suc [0..<255]" by (simp only: map_Suc_upt) simp
  moreover have "?root (Suc x) \<longleftrightarrow> x \<in> set ps" if "x < 255" for x
    using locator_roots[OF assms(3), of "Suc x"] that by (simp del: power_Suc)
  ultimately have r: "filter ?root [1..<256] = map Suc (filter (\<lambda>p. p \<in> set ps) [0..<255])"
    by (simp add: filter_map o_def del: power_Suc) (rule filter_cong[OF refl], simp del: power_Suc)
  have "set (filter (\<lambda>p. p \<in> set ps) [0..<255]) = set ps" using assms(3) by auto
  then have "length (filter (\<lambda>p. p \<in> set ps) [0..<255]) = length ps"
    using assms(4) by (metis distinct_card distinct_filter distinct_upt)
  moreover have "registers (length ps) (locator (map loc ps)) 0 (0 # tl lambda)"
    using assms(6,7) by (auto simp: registers_def nth_Cons' nth_tl)
  ultimately show ?thesis
    using chien_loop_found[OF assms(1,2), of "locator (map loc ps)" 1 255 0 "length ps" "0 # tl lambda" "[]"] r assms(2,5)
    by (simp add: chien_search_def o_def)
qed

section \<open>Forney's corrections\<close>

lemma Gf_product:
  assumes "field_tables rs" "v \<noteq> d_a0 rs" "w \<noteq> d_a0 rs"
  shows "Gf (alpha_of rs (uint v + uint w)) = unlog v * unlog w"
  using assms by (simp add: field_tablesD(5) Gf_alpha_sum)

lemma unlog_a0: "field_tables rs \<Longrightarrow> v = d_a0 rs \<Longrightarrow> unlog v = 0"
  by (simp add: field_tablesD(5))

lemma unlog_omega_coeff:
  assumes "field_tables rs" "\<And>k. k \<le> i \<Longrightarrow> unlog (s ! k) = S k" "\<And>k. k \<le> i \<Longrightarrow> unlog (l ! k) = f k"
  shows "unlog (omega_coeff rs s l i) = (\<Sum>j\<le>i. S (i - j) * f j)"
proof -
  have "(if s ! (i - j) \<noteq> d_a0 rs \<and> l ! j \<noteq> d_a0 rs then Gf (alpha_of rs (uint (s ! (i - j)) + uint (l ! j))) else 0) =
      S (i - j) * f j" if "j < i + 1" for j
    using assms(2)[of "i - j"] assms(3)[of j] that Gf_product[OF assms(1), of "s ! (i - j)" "l ! j"]
      unlog_a0[OF assms(1), of "s ! (i - j)"] unlog_a0[OF assms(1), of "l ! j"] by auto
  then have "(\<Sum>j<i + 1. if s ! (i - j) \<noteq> d_a0 rs \<and> l ! j \<noteq> d_a0 rs
      then Gf (alpha_of rs (uint (s ! (i - j)) + uint (l ! j))) else 0) = (\<Sum>j<i + 1. S (i - j) * f j)"
    by (intro sum.cong) auto
  then show ?thesis
    by (simp add: omega_coeff_def unlog_index[OF assms(1)] Gf_foldl_xor sum_list_rev_upt lessThan_Suc_atMost
      del: upt_Suc sum.lessThan_Suc flip: zero_gf_def)
qed

lemma Gf_term:
  assumes "field_tables rs"
  shows "(if v \<noteq> d_a0 rs then Gf (alpha_of rs (uint v + int i * uint root)) else 0) = unlog v * gen ^ (i * unat root)"
  using Gf_alpha_power[OF assms, of v "i * unat root"] unlog_a0[OF assms, of v] by (auto simp: field_tablesD(5)[OF assms])

lemma Gf_num1:
  assumes "field_tables rs"
  shows "Gf (forney_num1 rs omega root) = (\<Sum>i<length omega. unlog (omega ! i) * gen ^ (i * unat root))"
  by (simp only: forney_num1_def Gf_foldl_xor Gf_term[OF assms] sum_list_rev_upt flip: zero_gf_def) simp

lemma sum_list_even: "(\<Sum>i\<leftarrow>rev (filter even [0..<n]). g i) = (\<Sum>k<(n + 1) div 2. g (2 * k) :: gf)"
proof (induction n)
  case (Suc n)
  then show ?case by (cases "even n") (auto elim!: evenE oddE simp: add.commute)
qed simp

lemma Gf_den:
  assumes "field_tables rs"
  shows "Gf (forney_den rs deg lambda root) =
    (\<Sum>k<(min deg (d_nroots rs - 1) + 2) div 2. unlog (lambda ! (2 * k + 1)) * gen ^ (2 * k * unat root))"
  by (simp only: forney_den_def Gf_foldl_xor Gf_term[OF assms] sum_list_even flip: zero_gf_def) simp

text \<open>The root found for position \<open>p\<close> is the inverse of its location.\<close>

lemma root_of_position: "p < 255 \<Longrightarrow> unat (of_nat (p + 1) :: u8) = p + 1"
  by (intro unat_of_nat_less) simp

lemma gen_root: "p < 255 \<Longrightarrow> gen ^ (p + 1) = inverse (loc p)"
proof -
  assume p: "p < 255"
  then have "gen ^ (p + 1) * loc p = gen ^ 255" by (simp add: loc_def flip: power_Suc power_add)
  then show ?thesis by (metis gen_power_255 inverse_unique inverse_inverse_eq)
qed

lemma gen_root_power: "p < 255 \<Longrightarrow> gen ^ (k * (p + 1)) = inverse (loc p) ^ k"
  by (simp only: mult.commute[of k] power_mult gen_root)

lemma Gf_num2:
  assumes "field_tables rs" "p < 255"
  shows "Gf (forney_num2 rs (of_nat (p + 1))) * loc p ^ d_fcr rs = loc p"
proof -
  have u: "uint (of_nat (p + 1) :: u8) = int (p + 1)" using root_of_position[OF assms(2)] by (metis uint_nat)
  define e where "e = nat (int (p + 1) * (int (d_fcr rs) - 1) + 255)"
  have nonneg: "int (p + 1) * (int (d_fcr rs) - 1) + 255 \<ge> 0"
    using assms(2) by (cases "d_fcr rs") (simp_all add: algebra_simps)
  then have "int e + int ((254 - p) * d_fcr rs) = int (255 * d_fcr rs + (254 - p))"
    using assms(2) by (simp add: e_def of_nat_diff algebra_simps)
  then have "e + (254 - p) * d_fcr rs = 255 * d_fcr rs + (254 - p)"
    by (simp only: of_nat_add[symmetric] of_nat_eq_iff)
  moreover have "Gf (forney_num2 rs (of_nat (p + 1))) = gen ^ e"
    unfolding forney_num2_def u e_def using Gf_alpha_of[OF assms(1)] nonneg by simp
  ultimately  have "Gf (forney_num2 rs (of_nat (p + 1))) * loc p ^ d_fcr rs = gen ^ (255 * d_fcr rs + (254 - p))"
    by (simp add: loc_def flip: power_mult power_add)
  then show ?thesis by (simp add: loc_def power_add power_mult)
qed

text \<open>The correction of one position, and of all of them.\<close>

lemma Gf_quotient:
  assumes "field_tables rs" "a \<noteq> 0" "b \<noteq> 0" "d \<noteq> 0"
  shows "Gf (alpha_of rs (uint (index_in rs a) + uint (index_in rs b) + 255 - uint (index_in rs d))) * Gf d = Gf a * Gf b"
proof -
  define i j k where "i = unat (index_in rs a)" and "j = unat (index_in rs b)" and "k = unat (index_in rs d)"
  have k: "k < 255" using index_nonzero(1)[OF assms(1,4)] by (simp add: k_def)
  have "uint (index_in rs a) + uint (index_in rs b) + 255 - uint (index_in rs d) = int (i + j + 255 - k)"
    using k by (simp add: i_def j_def k_def of_nat_diff)
  then have "Gf (alpha_of rs (uint (index_in rs a) + uint (index_in rs b) + 255 - uint (index_in rs d))) * Gf d =
      gen ^ (i + j + 255 - k) * gen ^ k"
    using Gf_alpha_of[OF assms(1)] index_nonzero(2)[OF assms(1,4)] by (simp add: k_def)
  also have "\<dots> = gen ^ (i + j + 255)" using k by (simp flip: power_add)
  also have "\<dots> = Gf a * Gf b"
    using index_nonzero(2)[OF assms(1,2)] index_nonzero(2)[OF assms(1,3)] by (simp add: i_def j_def power_add)
  finally show ?thesis .
qed

end
