(* ===== verification/Reed_Solomon_Erasures.thy ===== *)
theory Reed_Solomon_Erasures
  imports Reed_Solomon_Decode
begin

text \<open>
  The correctness of the decoder for erasures: with the positions of at most \<open>d_nroots\<close> erased
  symbols, \<open>decode_rs_8\<close> and \<open>decode\<close> restore the codeword, whatever the erased symbols hold.
\<close>

section \<open>The errors and their syndromes\<close>

definition position :: "gf \<Rightarrow> nat" where
  "position X = the_inv_into {..<255} loc X"

lemma position_loc [simp]: "p < 255 \<Longrightarrow> position (loc p) = p"
  by (simp add: position_def the_inv_into_f_f inj_loc)

definition error_at :: "u8 list \<Rightarrow> u8 list \<Rightarrow> nat \<Rightarrow> gf" where
  "error_at data c p = Gf (data ! p) + Gf (c ! p)"

lemma error_at_eq_0_iff: "error_at data c p = 0 \<longleftrightarrow> data ! p = c ! p"
  by (simp add: error_at_def gf_add_eq_0_iff)

text \<open>The error scaled by its location, as a function of the location.\<close>

definition scaled_error :: "nat \<Rightarrow> u8 list \<Rightarrow> u8 list \<Rightarrow> gf \<Rightarrow> gf" where
  "scaled_error fcr data c X = error_at data c (position X) * X ^ fcr"

text \<open>What holds when a codeword was received with the symbols at \<open>ps\<close> erased.\<close>

definition erased :: "nat \<Rightarrow> nat \<Rightarrow> u8 list \<Rightarrow> nat list \<Rightarrow> u8 list \<Rightarrow> bool" where
  "erased nroots fcr c ps data \<longleftrightarrow> codeword nroots fcr c \<and> length data = 255 \<and> distinct ps \<and> length ps \<le> nroots
     \<and> (\<forall>p \<in> set ps. p < 255) \<and> (\<forall>j < 255. j \<notin> set ps \<longrightarrow> data ! j = c ! j)"

lemma syndrome_of_errors:
  assumes "erased n fcr c ps data" "i < n"
  shows "syndrome fcr data i = (\<Sum>X \<in> set (map loc ps). scaled_error fcr data c X * X ^ i)"
proof -
  have ps: "set ps \<subseteq> {..<255}" "inj_on loc (set ps)" using assms(1) inj_loc[of "set ps"] by (auto simp: erased_def)
  have "syndrome fcr data i = syndrome fcr data i + syndrome fcr c i"
    using assms by (simp add: erased_def codeword_def)
  also have "\<dots> = (\<Sum>j<255. error_at data c j * loc j ^ (fcr + i))"
    by (simp add: syndrome_def error_at_def algebra_simps flip: sum.distrib)
  also have "\<dots> = (\<Sum>j \<in> set ps. error_at data c j * loc j ^ (fcr + i))"
    using assms(1) ps(1) by (intro sum.mono_neutral_right) (auto simp: erased_def error_at_eq_0_iff)
  also have "\<dots> = (\<Sum>j \<in> set ps. scaled_error fcr data c (loc j) * loc j ^ i)"
    using assms(1) by (intro sum.cong) (auto simp: erased_def scaled_error_def power_add mult.assoc)
  finally show ?thesis by (simp add: sum.reindex[OF ps(2)])
qed

lemma locations:
  assumes "erased n fcr c ps data"
  shows "distinct (map loc ps)" "0 \<notin> set (map loc ps)" "length (map loc ps) \<le> n"
  using assms inj_loc[of "set ps"] by (auto simp: erased_def distinct_map)

lemma scaled_error_at:
  assumes "erased n fcr c ps data" "p \<in> set ps"
  shows "scaled_error fcr data c (loc p) = error_at data c p * loc p ^ fcr"
  using assms by (simp add: scaled_error_def erased_def)

section \<open>One correction\<close>

lemma correction_value:
  assumes rs: "standard_code n fcr 0 sh rs" and er: "erased n fcr c ps data" and p: "p \<in> set ps"
    and omega: "length omega = length ps" "\<And>i. i < length ps \<Longrightarrow> unlog (omega ! i) =
      (\<Sum>Y \<in> set (map loc ps). scaled_error fcr data c Y * locator (remove1 Y (map loc ps)) i)"
    and lambda: "\<And>i. i \<le> n \<Longrightarrow> unlog (lambda ! i) = locator (map loc ps) i"
    and d: "d ! p = data ! p" "length d = 255"
  shows "apply_correction rs (length ps) lambda omega d (of_nat (p + 1), of_nat p) = d[p := c ! p]"
proof -
  let ?root = "of_nat (p + 1) :: u8" and ?X = "loc p" and ?Xs = "map loc ps"
  let ?num1 = "forney_num1 rs omega ?root" and ?num2 = "forney_num2 rs ?root"
    and ?den = "forney_den rs (length ps) lambda ?root"
  have t: "field_tables rs" and par: "d_pad rs = 0" "d_fcr rs = fcr" "d_nroots rs = n"
    using rs by (simp_all add: standard_code_def)
  have p255: "p < 255" using er p by (simp add: erased_def)
  then have root: "unat ?root = p + 1" and up: "unat (of_nat p :: u8) = p"
    by (rule root_of_position, intro unat_of_nat_less, simp)
  have X: "?X \<in> set ?Xs" using p by simp
  note o = others_nonzero[OF locations(1,2)[OF er] X]
  have num1: "Gf ?num1 = error_at data c p * ?X ^ fcr * others ?Xs ?X"
  proof -
    have "Gf ?num1 = (\<Sum>i<length ?Xs. (\<Sum>Y \<in> set ?Xs. scaled_error fcr data c Y * locator (remove1 Y ?Xs) i) * inverse ?X ^ i)"
      unfolding Gf_num1[OF t] root omega(1) gen_root_power[OF p255] using omega(2) by (simp del: set_map)
    also have "\<dots> = scaled_error fcr data c ?X * others ?Xs ?X"
      by (rule evaluator_at_root[OF locations(1,2)[OF er] X])
    finally show ?thesis by (simp only: scaled_error_at[OF er p])
  qed
  have den: "Gf ?den = ?X * others ?Xs ?X"
  proof -
    have n: "length ps \<le> n" "1 \<le> n" using er p by (auto simp: erased_def Suc_le_eq intro: Nat.gr0I)
    let ?m = "(min (length ps) (n - 1) + 2) div 2"
    have m: "length ?Xs \<le> 2 * ?m" "\<And>k. k < ?m \<Longrightarrow> 2 * k + 1 \<le> n" using n by auto
    have "Gf ?den = (\<Sum>k<?m. unlog (lambda ! (2 * k + 1)) * gen ^ (2 * k * (p + 1)))"
      unfolding Gf_den[OF t] root par(3) ..
    also have "\<dots> = (\<Sum>k<?m. locator ?Xs (2 * k + 1) * inverse ?X ^ (2 * k))"
      unfolding gen_root_power[OF p255] using lambda m(2) by (intro sum.cong) auto
    also have "\<dots> = ?X * others ?Xs ?X" by (rule derivative_at_root[OF X loc_nonzero m(1)])
    finally show ?thesis .
  qed
  have num2: "Gf ?num2 * ?X ^ fcr = ?X" using Gf_num2[OF t p255] par(2) by simp
  show ?thesis
  proof (cases "error_at data c p = 0")
    case True
    then have "?num1 = 0" using num1 by simp
    moreover have "d[p := c ! p] = d" using True d(1) by (metis error_at_eq_0_iff list_update_id)
    ultimately show ?thesis by (simp add: apply_correction_def Let_def)
  next
    case False
    let ?v = "alpha_of rs (uint (index_in rs ?num1) + uint (index_in rs ?num2) + 255 - uint (index_in rs ?den))"
    have nz: "?num1 \<noteq> 0" "?num2 \<noteq> 0" "?den \<noteq> 0"
      using num1 num2 den False o by (auto simp flip: Gf_eq_0_iff)
    have "Gf ?v * (?X * others ?Xs ?X) = error_at data c p * ?X ^ fcr * others ?Xs ?X * Gf ?num2"
      using Gf_quotient[OF t nz] by (simp only: num1 den)
    also have "\<dots> = error_at data c p * (Gf ?num2 * ?X ^ fcr) * others ?Xs ?X" by (simp only: mult_ac)
    also have "\<dots> = error_at data c p * (?X * others ?Xs ?X)" by (simp only: num2 mult.assoc)
    finally have "Gf ?v * (?X * others ?Xs ?X) = error_at data c p * (?X * others ?Xs ?X)" .
    then have "Gf ?v = error_at data c p" using o by simp
    then have "Gf (d ! p XOR ?v) = Gf (c ! p)" by (simp add: Gf_xor error_at_def d(1) flip: add.assoc)
    then have "d ! p XOR ?v = c ! p" by simp
    then show ?thesis using nz(1) by (simp add: apply_correction_def Let_def par(1) up)
  qed
qed

section \<open>All corrections\<close>

lemma corrections:
  assumes rs: "standard_code n fcr 0 sh rs" and er: "erased n fcr c ps data"
    and omega: "length omega = length ps" "\<And>i. i < length ps \<Longrightarrow> unlog (omega ! i) =
      (\<Sum>Y \<in> set (map loc ps). scaled_error fcr data c Y * locator (remove1 Y (map loc ps)) i)"
    and lambda: "\<And>i. i \<le> n \<Longrightarrow> unlog (lambda ! i) = locator (map loc ps) i"
    and qs: "distinct qs" "set qs \<subseteq> set ps"
  shows "length d = 255 \<Longrightarrow> \<forall>q \<in> set qs. d ! q = data ! q \<Longrightarrow>
    foldl (apply_correction rs (length ps) lambda omega) d (map (\<lambda>p. (of_nat (p + 1), of_nat p)) qs) =
      fill id (\<lambda>p. c ! p) qs d"
  using qs
proof (induction qs arbitrary: d)
  case (Cons q qs)
  have "apply_correction rs (length ps) lambda omega d (of_nat (q + 1), of_nat q) = d[q := c ! q]"
    using Cons.prems by (intro correction_value[OF rs er _ omega lambda]) auto
  moreover have "\<forall>p \<in> set qs. d[q := c ! q] ! p = data ! p"
  proof
    fix p assume "p \<in> set qs"
    with Cons.prems have "q \<noteq> p" "d ! p = data ! p" by auto
    then show "d[q := c ! q] ! p = data ! p" by simp
  qed
  ultimately show ?case using Cons.IH[of "d[q := c ! q]"] Cons.prems by (simp add: fill_Cons)
qed (simp add: fill_def)

lemma filled:
  assumes "erased n fcr c ps data" "set qs = set ps" "distinct qs"
  shows "fill id (\<lambda>p. c ! p) qs data = c"
proof (rule nth_equalityI)
  show "length (fill id (\<lambda>p. c ! p) qs data) = length c" using assms(1) by (simp add: erased_def codeword_def)
next
  fix j assume "j < length (fill id (\<lambda>p. c ! p) qs data)"
  then have j: "j < 255" using assms(1) by (simp add: erased_def)
  show "fill id (\<lambda>p. c ! p) qs data ! j = c ! j"
  proof (cases "j \<in> set qs")
    case True
    then show ?thesis using fill_at[of id qs j data "\<lambda>p. c ! p"] j assms(1) by (simp add: erased_def)
  next
    case False
    then show ?thesis using fill_other[of j id qs "\<lambda>p. c ! p" data] j assms by (simp add: erased_def)
  qed
qed

text \<open>Zero syndromes mean no errors: the erasures are fewer than the parity symbols.\<close>

lemma no_syndromes_no_errors:
  assumes "erased n fcr c ps data" "\<And>i. i < n \<Longrightarrow> syndrome fcr data i = 0"
  shows "data = c"
proof (rule nth_equalityI)
  show "length data = length c" using assms(1) by (simp add: erased_def codeword_def)
next
  fix j assume "j < length data"
  then have j: "j < 255" using assms(1) by (simp add: erased_def)
  show "data ! j = c ! j"
  proof (cases "j \<in> set ps")
    case False
    then show ?thesis using assms(1) j by (simp add: erased_def)
  next
    case True
    let ?Xs = "map loc ps" and ?E = "scaled_error fcr data c"
    note l = locations[OF assms(1)]
    have X: "loc j \<in> set ?Xs" using True by simp
    have "(\<Sum>Y \<in> set ?Xs. ?E Y * locator (remove1 Y ?Xs) i) = 0" if "i < length ?Xs" for i
    proof -
      have "(\<Sum>k\<le>i. syndrome fcr data (i - k) * locator ?Xs k) = (\<Sum>Y \<in> set ?Xs. ?E Y * locator (remove1 Y ?Xs) i)"
        using that l(3) syndrome_of_errors[OF assms(1)] by (intro evaluator_coeff[of n]) auto
      then show ?thesis using that l(3) assms(2) by simp
    qed
    then have "?E (loc j) * others ?Xs (loc j) = 0"
      using evaluator_at_root[OF l(1,2) X, of ?E] by simp
    then have "?E (loc j) = 0" using others_nonzero[OF l(1,2) X] by simp
    then show ?thesis by (simp add: scaled_error_at[OF assms(1) True] error_at_eq_0_iff)
  qed
qed

lemma decode_rs_8_erasures:
  assumes rs: "standard_code n fcr 0 sh rs" and er: "erased n fcr c ps data"
  shows "decode_rs_8 rs data (map int ps) = Some (if data = c then 0 else int (length ps), c)"
proof -
  have t: "field_tables rs" and par: "d_pad rs = 0" "d_fcr rs = fcr" "d_nroots rs = n" "d_prim rs = 1" "d_iprim rs = 1"
    using rs by (simp_all add: standard_code_def)
  have er': "length data = 255" "length ps \<le> n" "\<forall>p \<in> set ps. p < 255" "distinct ps"
    using er by (simp_all add: erased_def)
  define s where "s = syndromes rs data"
  have s: "length s = n" "\<And>i. i < n \<Longrightarrow> Gf (s ! i) = syndrome fcr data i"
    using Gf_syndromes[OF t par(4,1)] er'(1) par by (simp_all add: s_def)
  show ?thesis
  proof (cases "list_all (\<lambda>x. x = 0) s")
    case True
    then have "s ! i = 0" if "i < n" for i using that s(1) by (simp add: list_all_length)
    then have "data = c" using s(2) by (intro no_syndromes_no_errors[OF er]) (metis Gf_eq_0_iff)
    with True show ?thesis by (simp add: decode_rs_8_def s_def)
  next
    case False
    have ne: "data \<noteq> c"
    proof
      assume "data = c"
      then have "Gf (s ! i) = 0" if "i < n" for i using that s(2) er by (simp add: erased_def codeword_def)
      then have "s ! i = 0" if "i < n" for i using that by simp
      with False s(1) show False by (auto simp: list_all_length)
    qed
    have "ps \<noteq> []"
    proof
      assume "ps = []"
      with er have "length data = length c" "\<forall>j < 255. data ! j = c ! j" by (auto simp: erased_def codeword_def)
      then have "data = c" using er'(1) by (intro nth_equalityI) simp_all
      with ne show False ..
    qed
    let ?Xs = "map loc ps" and ?E = "scaled_error fcr data c"
    obtain l where l: "erasure_locator rs (map int ps) = Some l" "length l = n + 1" "coeffs l (locator ?Xs)"
      using erasure_locator_coeffs[OF t par(4) er'(3)] er'(2) par(3) by metis
    let ?s = "map (index_in rs) s" and ?lambda = "map (index_in rs) l"
    have us: "unlog (?s ! i) = syndrome fcr data i" if "i < n" for i
      using that s unlog_index[OF t] by simp
    have ul: "unlog (?lambda ! i) = locator ?Xs i" if "i \<le> n" for i
      using that l(2,3) unlog_index[OF t] by (simp add: coeffs_def)
    have bm: "berlekamp_massey rs (length (map int ps)) ?s l = l"
      using berlekamp_massey_erasures[OF t, of l ?Xs ?s "syndrome fcr data" ?E] l(2,3) us par(3)
        syndrome_of_errors[OF er] by simp
    have deg: "degree_of rs ?lambda = length ps"
    proof (rule degree_of_eq)
      have "locator ?Xs (length ps) \<noteq> 0"
        using locator_lead[of ?Xs] locations(2)[OF er] by (auto simp: prod_list_zero_iff)
      then have "unlog (?lambda ! length ps) \<noteq> 0" using ul[OF er'(2)] by simp
      then show "?lambda ! length ps \<noteq> d_a0 rs" using unlog_a0[OF t] by metis
      show "length ps \<le> d_nroots rs" using er'(2) par(3) by simp
      fix i assume "length ps < i" "i \<le> d_nroots rs"
      then have "unlog (?lambda ! i) = 0" using ul[of i] par(3) by (simp add: locator_beyond)
      then show "?lambda ! i = d_a0 rs" using field_tablesD(5)[OF t] by simp
    qed
    let ?qs = "filter (\<lambda>p. p \<in> set ps) [0..<255]"
    have qs: "set ?qs = set ps" "distinct ?qs" using er'(3) by auto
    have len: "length ?qs = length ps" using qs er'(4) by (metis distinct_card)
    have chien: "chien_search rs (length ps) ?lambda = map (\<lambda>p. (of_nat (p + 1), of_nat p)) ?qs"
      using er' l(2) ul \<open>ps \<noteq> []\<close> by (intro chien_search_erasures t par(5)) auto
    let ?omega = "map (omega_coeff rs ?s ?lambda) [0..<length ps]"
    have omega: "unlog (?omega ! i) = (\<Sum>Y \<in> set ?Xs. ?E Y * locator (remove1 Y ?Xs) i)" if "i < length ps" for i
    proof -
      have "unlog (?omega ! i) = (\<Sum>k\<le>i. syndrome fcr data (i - k) * locator ?Xs k)"
        using that er'(2) us ul by (simp add: unlog_omega_coeff[OF t])
      also have "\<dots> = (\<Sum>Y \<in> set ?Xs. ?E Y * locator (remove1 Y ?Xs) i)"
        using that er'(2) syndrome_of_errors[OF er] by (intro evaluator_coeff[of n]) auto
      finally show ?thesis .
    qed
    have corr: "foldl (apply_correction rs (length ps) ?lambda ?omega) data
        (map (\<lambda>p. (of_nat (p + 1), of_nat p)) (rev ?qs)) = fill id (\<lambda>p. c ! p) (rev ?qs) data"
      using qs er'(1) omega ul by (intro corrections[OF rs er]) auto
    have "decode_rs_8 rs data (map int ps) = Some (int (length ps), fill id (\<lambda>p. c ! p) (rev ?qs) data)"
      using False l(1) bm deg chien len corr by (simp add: decode_rs_8_def s_def rev_map)
    also have "fill id (\<lambda>p. c ! p) (rev ?qs) data = c" using qs by (intro filled[OF er]) simp_all
    finally show ?thesis using ne by simp
  qed
qed

end
