(* ===== verification/Reed_Solomon_Codec.thy ===== *)
theory Reed_Solomon_Codec
  imports Reed_Solomon_Erasures
begin

text \<open>
  The whole codec: the encoder with the generator polynomial makes codewords, \<open>decode\<close> with its
  shortened codes gives them back, and the two multiplications of the code agree.
\<close>

section \<open>The two multiplications\<close>

lemma log_table_at:
  assumes "log_tables rs" "b \<noteq> 0"
  obtains i where "i < 255" "b = alpha (8 * i)" "unat (d_log_table rs ! unat b) = i"
proof -
  obtain k where k: "k < 255" "alpha k = b" using assms(2) by (rule alpha_surj)
  define i where "i = (32 * k) mod 255"
  have "8 * i mod 255 = (8 * (32 * k)) mod 255" by (simp add: i_def mod_mult_right_eq)
  also have "8 * (32 * k) = k + 255 * k" by simp
  finally have "8 * i mod 255 = k mod 255" by (simp only: mod_mult_self2)
  then have "alpha (8 * i) = b" using k(2) by (simp only: alpha_eq_iff flip: k(2))
  moreover have "i < 255" by (simp add: i_def)
  moreover from this have "unat (of_nat i :: u8) = i" by (intro unat_of_nat_less) simp
  ultimately show thesis using that[of i] assms(1) by (auto simp: log_tables_def)
qed

lemma galois_mul_table_eq:
  assumes "log_tables rs"
  shows "galois_mul_table rs a b = gmul a b"
proof (cases "a = 0 \<or> b = 0")
  case False
  obtain i where i: "i < 255" "a = alpha (8 * i)" "unat (d_log_table rs ! unat a) = i"
    using log_table_at[OF assms] False by blast
  obtain j where j: "j < 255" "b = alpha (8 * j)" "unat (d_log_table rs ! unat b) = j"
    using log_table_at[OF assms] False by blast
  have "galois_mul_table rs a b = d_antilog rs ! ((i + j) mod 255)"
    using False i(3) j(3) by (simp add: galois_mul_table_def Let_def)
  also have "\<dots> = alpha (8 * ((i + j) mod 255))" using assms by (simp add: log_tables_def)
  also have "\<dots> = alpha (8 * i + 8 * j)" by (simp only: alpha_eq_iff) (simp add: mod_mult_right_eq algebra_simps)
  finally show ?thesis using i(2) j(2) by (simp add: gmul_alpha)
qed (auto simp: galois_mul_table_def)

section \<open>The encoder\<close>

text \<open>The value of a buffer of symbols, the first symbol with the highest power.\<close>

definition word_value :: "u8 list \<Rightarrow> gf \<Rightarrow> gf" where
  "word_value xs b = (\<Sum>j<length xs. Gf (xs ! j) * b ^ (length xs - 1 - j))"

lemma word_value_Nil [simp]: "word_value [] b = 0"
  by (simp add: word_value_def)

lemma word_value_Cons: "word_value (x # xs) b = Gf x * b ^ length xs + word_value xs b"
  by (simp add: word_value_def sum.lessThan_Suc_shift del: sum.lessThan_Suc)

lemma word_value_snoc: "word_value (xs @ [x]) b = word_value xs b * b + Gf x"
  by (induction xs) (simp_all add: word_value_Cons algebra_simps)

lemma word_value_append: "word_value (xs @ ys) b = word_value xs b * b ^ length ys + word_value ys b"
  by (induction xs) (simp_all add: word_value_Cons algebra_simps power_add)

lemma word_value_zeros: "word_value (replicate n 0) b = 0"
  by (induction n) (simp_all add: word_value_Cons flip: zero_gf_def)

lemma word_value_syndrome:
  assumes "length c = 255"
  shows "word_value c (gen ^ (fcr + i)) = syndrome fcr c i"
  using assms by (auto simp: word_value_def syndrome_def loc_def power_swap[of "fcr + i"] intro!: sum.cong)

lemma codeword_iff_value:
  "codeword n fcr c \<longleftrightarrow> length c = 255 \<and> (\<forall>i < n. word_value c (gen ^ (fcr + i)) = 0)"
  by (auto simp: codeword_def word_value_syndrome)

text \<open>A generator polynomial without zero coefficients, whose roots are the code's.\<close>

definition generator :: "reed_solomon \<Rightarrow> bool" where
  "generator rs \<longleftrightarrow> length (d_genpoly_coeff rs) = d_nroots rs + 1 \<and> 0 \<notin> set (d_genpoly_coeff rs)
     \<and> (\<forall>i < d_nroots rs. (\<Sum>k<d_nroots rs + 1. Gf (d_genpoly_coeff rs ! k) * (gen ^ (d_fcr rs + i)) ^ k) = 0)"

lemma generator_index:
  assumes "standard_code n fcr pad sh rs" "generator rs" "k \<le> n"
  shows "d_genpoly_index rs ! k \<noteq> 255" "unlog (d_genpoly_index rs ! k) = Gf (d_genpoly_coeff rs ! k)"
proof -
  have t: "field_tables rs" and n: "d_nroots rs = n" using assms(1) by (simp_all add: standard_code_def)
  have i: "d_genpoly_index rs ! k = index_in rs (d_genpoly_coeff rs ! k)"
    using assms(1,3) by (simp add: standard_code_def del: upt_Suc)
  then show u: "unlog (d_genpoly_index rs ! k) = Gf (d_genpoly_coeff rs ! k)" by (simp add: unlog_index[OF t])
  have "d_genpoly_coeff rs ! k \<in> set (d_genpoly_coeff rs)" using assms(2,3) n by (simp add: generator_def)
  then have "d_genpoly_coeff rs ! k \<noteq> 0" using assms(2) by (metis generator_def)
  then show "d_genpoly_index rs ! k \<noteq> 255" using u by (metis Gf_eq_0_iff unlog_255)
qed

text \<open>One symbol: the register is multiplied by \<open>y\<close> and reduced by the generator.\<close>

lemma encode_symbol_terms:
  assumes rs: "standard_code n fcr pad sh rs" and g: "generator rs" and p: "length parity = n" "0 < n"
  obtains F where "length (encode_symbol rs d parity) = n"
    "F * Gf (d_genpoly_coeff rs ! n) = Gf (d XOR hd parity)"
    "\<And>j. j < n \<Longrightarrow> Gf (encode_symbol rs d parity ! j) =
      (if j < n - 1 then Gf (parity ! (j + 1)) else 0) + F * Gf (d_genpoly_coeff rs ! (n - 1 - j))"
proof -
  have t: "field_tables rs" and n: "d_nroots rs = n" using rs by (simp_all add: standard_code_def)
  note gi = generator_index[OF rs g]
  show thesis
  proof (cases "d XOR hd parity = 0")
    case True
    then have "encode_symbol rs d parity = tl parity @ [0]"
      by (simp add: encode_symbol_def Let_def field_tablesD[OF t])
    then show thesis using that[of 0] True p by (auto simp: nth_append nth_tl simp flip: zero_gf_def)
  next
    case False
    let ?fb = "index_in rs (d XOR hd parity)"
    let ?f = "mod255 (255 - uint (d_genpoly_index rs ! n) + uint ?fb)"
    define F where "F = gen ^ nat ?f"
    have fb: "?fb \<noteq> d_a0 rs" using False by (simp add: index_eq_a0_iff[OF t])
    have le: "unat (d_genpoly_index rs ! n) \<le> 255" by simp
    have "255 - int a + int b = int (255 - a + b)" if "a \<le> 255" for a b using that by linarith
    from this[OF le] have "255 - uint (d_genpoly_index rs ! n) + uint ?fb = int (255 - unat (d_genpoly_index rs ! n) + unat ?fb)"
      by (simp only: uint_nat)
    then have f: "nat ?f = (255 - unat (d_genpoly_index rs ! n) + unat ?fb) mod 255" "0 \<le> ?f"
      by (simp_all only: mod255_int nat_int of_nat_0_le_iff)
    have "F = gen ^ (255 - unat (d_genpoly_index rs ! n) + unat ?fb)"
      unfolding F_def f(1) gen_power_eq_iff by (rule mod_mod_trivial)
    moreover have "255 - unat (d_genpoly_index rs ! n) + unat ?fb + unat (d_genpoly_index rs ! n) = 255 + unat ?fb"
      using le by linarith
    ultimately have "F * gen ^ unat (d_genpoly_index rs ! n) = gen ^ (255 + unat ?fb)"
      by (simp only: power_add[symmetric])
    also have "\<dots> = Gf (d XOR hd parity)" using index_nonzero(2)[OF t False] by (simp add: power_add)
    finally have F: "F * Gf (d_genpoly_coeff rs ! n) = Gf (d XOR hd parity)"
      using gi[of n] by (simp add: unlog_def)
    have summand: "Gf (alpha_of rs (?f + uint (d_genpoly_index rs ! k))) = F * Gf (d_genpoly_coeff rs ! k)" if "k \<le> n" for k
      using gi[OF that] f(2) by (simp add: Gf_alpha_of[OF t] F_def unlog_def nat_add_distrib power_add)
    let ?m = "map (\<lambda>j. if j = 0 then parity ! j
        else parity ! j XOR alpha_of rs (?f + uint (d_genpoly_index rs ! (n - j)))) [0..<n]"
    have e: "encode_symbol rs d parity = tl ?m @ [alpha_of rs (?f + uint (d_genpoly_index rs ! 0))]"
      unfolding encode_symbol_def Let_def n by (simp only: fb not_False_eq_True if_True)
    have "Gf (encode_symbol rs d parity ! j) =
        (if j < n - 1 then Gf (parity ! (j + 1)) else 0) + F * Gf (d_genpoly_coeff rs ! (n - 1 - j))" if "j < n" for j
    proof (cases "j < n - 1")
      case True
      then have "encode_symbol rs d parity ! j = parity ! (j + 1) XOR alpha_of rs (?f + uint (d_genpoly_index rs ! (n - 1 - j)))"
        unfolding e by (simp add: nth_append nth_tl)
      then show ?thesis using True summand[of "n - 1 - j"] by (simp add: Gf_xor)
    next
      case False
      with that have "j = n - 1" by simp
      then have "encode_symbol rs d parity ! j = alpha_of rs (?f + uint (d_genpoly_index rs ! 0))"
        unfolding e by (simp add: nth_append)
      then show ?thesis using False \<open>j = n - 1\<close> summand[of 0] by simp
    qed
    moreover have "length (encode_symbol rs d parity) = n" using p by (simp add: e)
    ultimately show thesis using that F by blast
  qed
qed

lemma encode_symbol_value:
  assumes rs: "standard_code n fcr pad sh rs" and g: "generator rs" and p: "length parity = n" "0 < n" and i: "i < n"
  shows "length (encode_symbol rs d parity) = n"
    "word_value (encode_symbol rs d parity) (gen ^ (fcr + i)) =
      gen ^ (fcr + i) * word_value parity (gen ^ (fcr + i)) + Gf d * (gen ^ (fcr + i)) ^ n"
proof -
  let ?b = "gen ^ (fcr + i)" and ?g = "\<lambda>k. Gf (d_genpoly_coeff rs ! k)"
  obtain F where F: "length (encode_symbol rs d parity) = n" "F * ?g n = Gf (d XOR hd parity)"
    "\<And>j. j < n \<Longrightarrow> Gf (encode_symbol rs d parity ! j) = (if j < n - 1 then Gf (parity ! (j + 1)) else 0) + F * ?g (n - 1 - j)"
    using encode_symbol_terms[OF rs g p] by blast
  show "length (encode_symbol rs d parity) = n" by (rule F)
  obtain x xs where x: "parity = x # xs" "length xs = n - 1" using p by (cases parity) auto
  have root: "(\<Sum>k<n + 1. ?g k * ?b ^ k) = 0"
    using g rs i by (simp add: generator_def standard_code_def)
  have "word_value (encode_symbol rs d parity) ?b =
      (\<Sum>j<n. ((if j < n - 1 then Gf (parity ! (j + 1)) else 0) + F * ?g (n - 1 - j)) * ?b ^ (n - 1 - j))"
    using F(1,3) by (simp add: word_value_def)
  also have "\<dots> = (\<Sum>j<n. (if j < n - 1 then Gf (parity ! (j + 1)) else 0) * ?b ^ (n - 1 - j)) +
      (\<Sum>j<n. F * ?g (n - 1 - j) * ?b ^ (n - 1 - j))"
    by (simp only: distrib_right sum.distrib)
  also have "(\<Sum>j<n. F * ?g (n - 1 - j) * ?b ^ (n - 1 - j)) = (\<Sum>k<n. F * (?g k * ?b ^ k))"
    using sum.nat_diff_reindex[of "\<lambda>k. F * ?g k * ?b ^ k" n] by (simp add: mult.assoc)
  also have "\<dots> = F * (\<Sum>k<n. ?g k * ?b ^ k)" by (simp only: sum_distrib_left)
  also have "(\<Sum>k<n. ?g k * ?b ^ k) = ?g n * ?b ^ n"
    using root by (simp add: gf_add_eq_0_iff)
  also have "(\<Sum>j<n. (if j < n - 1 then Gf (parity ! (j + 1)) else 0) * ?b ^ (n - 1 - j)) = ?b * word_value xs ?b"
  proof -
    have "(\<Sum>j<n. (if j < n - 1 then Gf (parity ! (j + 1)) else 0) * ?b ^ (n - 1 - j)) =
        (\<Sum>j<n - 1. Gf (xs ! j) * ?b ^ (n - 1 - j))"
      using p(2) by (cases n) (simp_all add: x(1))
    also have "\<dots> = (\<Sum>j<n - 1. ?b * (Gf (xs ! j) * ?b ^ (n - 1 - 1 - j)))"
    proof (rule sum.cong[OF refl])
      fix j assume "j \<in> {..<n - 1}"
      then have "n - 1 - j = Suc (n - 1 - 1 - j)" by auto
      then show "Gf (xs ! j) * ?b ^ (n - 1 - j) = ?b * (Gf (xs ! j) * ?b ^ (n - 1 - 1 - j))" by (simp add: algebra_simps)
    qed
    finally show ?thesis by (simp add: word_value_def x(2) sum_distrib_left)
  qed
  also have "?b * word_value xs ?b + F * (?g n * ?b ^ n) = ?b * word_value xs ?b + Gf d * ?b ^ n + Gf x * ?b ^ n"
    using F(2) x(1) by (simp add: Gf_xor algebra_simps flip: mult.assoc)
  also have "\<dots> = ?b * word_value parity ?b + Gf d * ?b ^ n"
    using p(2) x by (cases n) (simp_all add: word_value_Cons algebra_simps)
  finally show "word_value (encode_symbol rs d parity) ?b = ?b * word_value parity ?b + Gf d * ?b ^ n" .
qed

lemma encode_symbols_value:
  assumes rs: "standard_code n fcr pad sh rs" and g: "generator rs" and "0 < n" and i: "i < n"
  shows "length parity = n \<Longrightarrow> length (foldl (\<lambda>p d. encode_symbol rs d p) parity ds) = n \<and>
    word_value (foldl (\<lambda>p d. encode_symbol rs d p) parity ds) (gen ^ (fcr + i)) =
      word_value parity (gen ^ (fcr + i)) * (gen ^ (fcr + i)) ^ length ds +
      word_value ds (gen ^ (fcr + i)) * (gen ^ (fcr + i)) ^ n"
proof (induction ds rule: rev_induct)
  case (snoc d ds)
  then show ?case
    using encode_symbol_value[OF rs g, of "foldl (\<lambda>p d. encode_symbol rs d p) parity ds" i d] assms(3,4)
    by (simp add: word_value_snoc algebra_simps)
qed simp

text \<open>The encoder puts the parity behind the data, and the result is a codeword.\<close>

lemma encode_rs_8_codeword:
  assumes rs: "standard_code n fcr 0 sh rs" and g: "generator rs" and n: "0 < n" "n \<le> 255" and l: "length ds = 255 - n"
  obtains parity where "encode_rs_8 rs ds = Some parity" "length parity = n" "codeword n fcr (ds @ parity)"
proof -
  let ?p = "foldl (\<lambda>p d. encode_symbol rs d p) (replicate n 0) ds"
  have v: "length ?p = n" "word_value ?p (gen ^ (fcr + i)) = word_value ds (gen ^ (fcr + i)) * (gen ^ (fcr + i)) ^ n"
    if "i < n" for i
    using encode_symbols_value[OF rs g n(1) that, of "replicate n 0" ds] by (simp_all add: word_value_zeros)
  then have len: "length ?p = n" using n(1) by blast
  have "codeword n fcr (ds @ ?p)"
    using v(2) len l n by (simp add: codeword_iff_value word_value_append)
  moreover have "encode_rs_8 rs ds = Some ?p" using rs l n by (simp add: encode_rs_8_def standard_code_def)
  ultimately show thesis using that len by blast
qed

section \<open>The constructors\<close>

lemma custom_standard:
  assumes "\<not> rejects_configuration (int n) 1 (int fcr) (int pad) (int sh)" "length genpoly = n + 1"
  obtains rs where "reed_solomon_custom (int n) 29 1 (int fcr) (int pad) (int sh) genpoly gm = Some rs"
    "standard_code n fcr pad sh rs" "d_genpoly_coeff rs = genpoly"
proof -
  let ?r0 = "(with_sizes n sh reed_solomon_blank)\<lparr> d_min_poly := 29, d_prim := 1, d_pad := pad, d_fcr := fcr,
    d_genpoly_coeff := genpoly \<rparr>"
  let ?r = "if gm \<noteq> [] \<and> length gm = d_data_symbols_shortened ?r0 \<and> length (hd gm) = d_info_symbols_shortened ?r0
    then ?r0\<lparr> d_rows_G := length gm, d_columns_G := length (hd gm), d_genmatrix := gm \<rparr> else ?r0"
  have c: "reed_solomon_custom (int n) 29 1 (int fcr) (int pad) (int sh) genpoly gm = finish_tables ?r"
    using assms by (auto simp: reed_solomon_custom_def Let_def)
  have f: "d_nroots ?r = n" "d_fcr ?r = fcr" "d_pad ?r = pad" "d_shortening ?r = sh" "d_genpoly_coeff ?r = genpoly"
    by (simp_all add: with_sizes_def)
  obtain rs where "finish_tables ?r = Some rs" "standard_code (d_nroots ?r) (d_fcr ?r) (d_pad ?r) (d_shortening ?r) rs"
    "d_genpoly_coeff rs = d_genpoly_coeff ?r"
    by (rule finish_tables_standard[of ?r])
      (use assms(2) in \<open>simp_all add: with_sizes_def reed_solomon_blank_def\<close>)
  then show thesis using that c by (simp only: f)
qed

lemma length_genpoly: "length genpoly_E6B = 224" "length genpoly_E1B = 61"
  by (simp_all add: genpoly_E6B_def genpoly_E1B_def)

lemma default_E6B_standard:
  assumes "gnss_signal = [] \<or> gnss_signal = ''E6B''"
  obtains rs where "reed_solomon_default gnss_signal = Some rs" "standard_code 223 1 0 0 rs"
proof -
  let ?r = "(with_sizes 223 0 reed_solomon_blank)\<lparr> d_min_poly := 29, d_prim := 1, d_fcr := 1, d_pad := 0,
         d_rows_G := 255, d_columns_G := 32, d_genmatrix := genmatrix_E6B, d_genpoly_coeff := genpoly_E6B \<rparr>"
  obtain rs where "finish_tables ?r = Some rs" "standard_code (d_nroots ?r) (d_fcr ?r) (d_pad ?r) (d_shortening ?r) rs"
    by (rule finish_tables_standard[of ?r]) (simp_all add: with_sizes_def reed_solomon_blank_def length_genpoly)
  then show thesis using that assms by (auto simp: reed_solomon_default_def with_sizes_def)
qed

section \<open>Shortened codes\<close>

text \<open>The position in the unshortened code of symbol \<open>j\<close> of a shortened one.\<close>

definition unshortened :: "nat \<Rightarrow> nat \<Rightarrow> nat \<Rightarrow> nat" where
  "unshortened info sh j = (if j < info then j else j + sh)"

definition insert_padding :: "nat \<Rightarrow> nat \<Rightarrow> u8 list \<Rightarrow> u8 list" where
  "insert_padding info sh xs = take info xs @ replicate sh 0 @ drop info xs"

lemma length_insert_padding: "info \<le> length xs \<Longrightarrow> length (insert_padding info sh xs) = length xs + sh"
  by (simp add: insert_padding_def)

lemma insert_padding_nth:
  assumes "info \<le> length xs" "k < length xs + sh"
  shows "insert_padding info sh xs ! k =
    (if k < info then xs ! k else if k < info + sh then 0 else xs ! (k - sh))"
  using assms by (auto simp: insert_padding_def nth_append min_def)

lemma remove_padding:
  "info \<le> length xs \<Longrightarrow> take info (insert_padding info sh xs) @ drop (info + sh) (insert_padding info sh xs) = xs"
  by (simp add: insert_padding_def)

lemma decode_erasures:
  assumes rs: "standard_code n fcr 0 sh rs" and n: "n + sh \<le> 255" and c: "length code = 255 - sh"
    "codeword n fcr (insert_padding (255 - n - sh) sh code)"
    and ps: "distinct ps" "length ps \<le> n" "\<forall>p \<in> set ps. p < 255"
    and data: "length data = 255 - sh" "\<And>j. j < 255 - sh \<Longrightarrow> unshortened (255 - n - sh) sh j \<notin> set ps \<Longrightarrow> data ! j = code ! j"
  shows "\<exists>r \<ge> 0. decode rs data (map int ps) = Some (r, code)"
proof -
  let ?info = "255 - n - sh" and ?d = "insert_padding (255 - n - sh) sh data" and ?c = "insert_padding (255 - n - sh) sh code"
  have par: "d_nroots rs = n" "d_shortening rs = sh" "d_info_symbols_shortened rs = ?info"
    "d_data_symbols_shortened rs = 255 - sh" "d_data_in_block rs = 255 - n"
    using rs by (simp_all add: standard_code_def)
  have "?d ! k = ?c ! k" if "k < 255" "k \<notin> set ps" for k
  proof -
    consider "k < ?info" | "?info \<le> k" "k < ?info + sh" | "?info + sh \<le> k" by linarith
    then show ?thesis
    proof cases
      case 1
      then show ?thesis using that n c(1) data(1) data(2)[of k]
        by (simp add: insert_padding_nth unshortened_def)
    next
      case 3
      then have "\<not> k - sh < ?info" "k - sh + sh = k" using n by linarith+
      then have "unshortened ?info sh (k - sh) = k" by (simp only: unshortened_def if_False)
      moreover have "\<not> k < ?info" "\<not> k < ?info + sh" using 3 by linarith+
      moreover have "k - sh < 255 - sh" using 3 n that by linarith
      ultimately have "data ! (k - sh) = code ! (k - sh)" using data(2)[of "k - sh"] that by simp
      moreover have "?info \<le> length data" "k < length data + sh" "?info \<le> length code" "k < length code + sh"
        using n that c(1) data(1) by linarith+
      ultimately show ?thesis using \<open>\<not> k < ?info\<close> \<open>\<not> k < ?info + sh\<close>
        by (simp only: insert_padding_nth if_False)
    qed (use that n c(1) data(1) in \<open>simp add: insert_padding_nth\<close>)
  qed
  then have er: "erased n fcr ?c ps ?d"
    using c ps data(1) n by (simp add: erased_def length_insert_padding)
  define r where "r = (if ?d = ?c then 0 else int (length ps))"
  have r: "r \<ge> 0" "decode_rs_8 rs ?d (map int ps) = Some (r, ?c)"
    using decode_rs_8_erasures[OF rs er] by (simp_all add: r_def)
  show ?thesis
  proof (cases "sh = 0")
    case True
    then have "?d = data" "?c = code" by (simp_all add: insert_padding_def)
    then show ?thesis using r True data(1) ps(2) par by (auto simp: decode_def)
  next
    case False
    have "255 - n - ?info = sh" "255 - n = ?info + sh" using n by simp_all
    then have "take ?info ?c @ drop (255 - n) ?c = code" using remove_padding[of ?info code sh] c(1) n by simp
    moreover have "d_data_in_block rs - ?info = sh" using par(5) n by simp
    moreover have "255 - sh \<noteq> 255" using False n by linarith
    ultimately have "decode rs data (map int ps) = Some (r, code)"
      using False r data(1) ps(2) n by (simp add: decode_def par insert_padding_def Let_def)
    then show ?thesis using r(1) by blast
  qed
qed

lemma encode_codeword:
  assumes rs: "standard_code n fcr 0 sh rs" and g: "generator rs" and n: "0 < n" "n + sh \<le> 255"
    and msg: "length msg = 255 - n - sh"
  obtains parity where "encode_with_generator_poly rs msg = Some (msg @ parity)" "length parity = n"
    "codeword n fcr (insert_padding (255 - n - sh) sh (msg @ parity))"
proof -
  have par: "d_shortening rs = sh" "d_info_symbols_shortened rs = 255 - n - sh" "d_data_in_block rs = 255 - n"
    using rs by (simp_all add: standard_code_def)
  obtain parity where p: "encode_rs_8 rs (msg @ replicate sh 0) = Some parity" "length parity = n"
    "codeword n fcr ((msg @ replicate sh 0) @ parity)"
    by (rule encode_rs_8_codeword[OF rs g n(1), of "msg @ replicate sh 0"]) (use n msg in simp_all)
  have "insert_padding (255 - n - sh) sh (msg @ parity) = (msg @ replicate sh 0) @ parity"
    using msg by (simp add: insert_padding_def)
  moreover have "255 - n - (255 - n - sh) = sh" using n by simp
  then have "encode_with_generator_poly rs msg = Some (msg @ parity)"
    using p(1) msg by (cases "sh = 0") (simp_all add: encode_with_generator_poly_def par)
  ultimately show thesis using that p by simp
qed

text \<open>C12: Encoding with the generator polynomial and decoding with erasures is the identity: the
  code starts with the message, and from any buffer that agrees with the code outside at most
  \<open>nroots\<close> erased positions \<open>decode\<close> gives the code back. In a shortened code the erasures are
  positions of the unshortened one.\<close>

theorem encode_erase_decode:
  assumes "standard_code n fcr 0 sh rs" "generator rs" "0 < n" "n + sh \<le> 255" "length msg = 255 - n - sh"
  shows "\<exists>code. encode_with_generator_poly rs msg = Some code \<and> take (length msg) code = msg \<and>
    (\<forall>ps data. distinct ps \<longrightarrow> length ps \<le> n \<longrightarrow> (\<forall>p \<in> set ps. p < 255) \<longrightarrow> length data = length code \<longrightarrow>
      (\<forall>j < length code. unshortened (length msg) sh j \<notin> set ps \<longrightarrow> data ! j = code ! j) \<longrightarrow>
      (\<exists>r \<ge> 0. decode rs data (map int ps) = Some (r, code)))"
proof -
  obtain parity where p: "encode_with_generator_poly rs msg = Some (msg @ parity)" "length parity = n"
    "codeword n fcr (insert_padding (255 - n - sh) sh (msg @ parity))"
    using encode_codeword[OF assms] by blast
  have l: "length (msg @ parity) = 255 - sh" using assms(4,5) p(2) by simp
  have "\<exists>r \<ge> 0. decode rs data (map int ps) = Some (r, msg @ parity)"
    if "distinct ps" "length ps \<le> n" "\<forall>p \<in> set ps. p < 255" "length data = length (msg @ parity)"
      "\<forall>j < length (msg @ parity). unshortened (length msg) sh j \<notin> set ps \<longrightarrow> data ! j = (msg @ parity) ! j"
    for ps data
    using that l assms(5) by (intro decode_erasures[OF assms(1,4) l p(3)]) auto
  with p(1) show ?thesis by (intro exI[of _ "msg @ parity"]) simp
qed

text \<open>A shortened code with two parity symbols, for which 1 and the square of the primitive
  element are not roots: \<open>(y + \<alpha>) (y + \<alpha>\<^sup>2) = \<alpha>\<^sup>3 + (\<alpha> + \<alpha>\<^sup>2) y + y\<^sup>2\<close>.\<close>

lemma sample_generator:
  assumes "d_nroots rs = 2" "d_fcr rs = 1" "d_genpoly_coeff rs = [8, 6, 1]"
  shows "generator rs"
proof -
  have "gen ^ 3 = Gf 8" "gen ^ 2 = Gf 4"
    unfolding gen_power by (simp_all add: alpha_def xtime_def funpow_numeral_start)
  then have b: "Gf 8 = gen ^ 3" "Gf 6 = gen + gen ^ 2" "Gf 1 = 1"
    by (simp_all add: gen_def plus_gf_def one_gf_def)
  have "(\<Sum>k<3. Gf ([8, 6, 1] ! k) * (gen ^ (1 + i)) ^ k) = 0" if "i < 2" for i
  proof -
    have "i = 0 \<or> i = 1" using that by auto
    then show ?thesis
      by (elim disjE) (simp_all add: numeral_3_eq_3 b algebra_simps power2_eq_square gf_two)
  qed
  then show ?thesis using assms by (simp add: generator_def numeral_3_eq_3)
qed

theorem encode_erase_decode_witness:
  "\<exists>rs code. reed_solomon_custom 2 29 1 1 0 250 [8, 6, 1] [] = Some rs
     \<and> encode_with_generator_poly rs [1, 2, 3] = Some code \<and> take 3 code = [1, 2, 3]
     \<and> (\<exists>r \<ge> 0. decode rs ([0, 0] @ drop 2 code) [0, 1] = Some (r, code))"
proof -
  obtain rs where rs: "reed_solomon_custom (int 2) 29 1 (int 1) (int 0) (int 250) [8, 6, 1] [] = Some rs"
    "standard_code 2 1 0 250 rs" "d_genpoly_coeff rs = [8, 6, 1]"
    by (rule custom_standard[of 2 1 0 250 "[8, 6, 1]" "[]"]) (simp_all add: rejects_configuration_def)
  then have g: "generator rs" by (intro sample_generator) (simp_all add: standard_code_def)
  have three: "length [1, 2, 3 :: u8] = 3" by simp
  obtain code where c: "encode_with_generator_poly rs [1, 2, 3] = Some code" "take 3 code = [1, 2, 3]"
    "\<And>ps data. distinct ps \<Longrightarrow> length ps \<le> 2 \<Longrightarrow> \<forall>p \<in> set ps. p < 255 \<Longrightarrow> length data = length code \<Longrightarrow>
      \<forall>j < length code. unshortened 3 250 j \<notin> set ps \<longrightarrow> data ! j = code ! j \<Longrightarrow>
      \<exists>r \<ge> 0. decode rs data (map int ps) = Some (r, code)"
    using encode_erase_decode[OF rs(2) g, of "[1, 2, 3]", unfolded three] by auto
  have l: "3 \<le> length code" using arg_cong[OF c(2), of length] by simp
  then have "length ([0, 0] @ drop 2 code) = length code" by simp
  moreover have "\<forall>j < length code. unshortened 3 250 j \<notin> set [0, 1] \<longrightarrow> ([0, 0] @ drop 2 code) ! j = code ! j"
  proof (intro allI impI)
    fix j assume j: "j < length code" "unshortened 3 250 j \<notin> set [0, 1]"
    then have "j \<noteq> 0" "j \<noteq> 1" by (auto simp: unshortened_def split: if_splits)
    then have "2 \<le> j" by linarith
    then obtain k where "j = 2 + k" by (rule le_Suc_ex[THEN exE])
    with j(1) show "([0, 0] @ drop 2 code) ! j = code ! j" by (simp add: nth_append)
  qed
  ultimately have "\<exists>r \<ge> 0. decode rs ([0, 0] @ drop 2 code) (map int [0, 1]) = Some (r, code)"
    by (intro c(3)) simp_all
  then show ?thesis using rs(1) c(1,2) by auto
qed

section \<open>Systematic codes\<close>

text \<open>
  The code is systematic: every message is the start of a codeword. The parity of a codeword of zeros is
  determined by its syndromes, and there are as many parities as syndromes.
\<close>

definition parity_syndromes :: "nat \<Rightarrow> nat \<Rightarrow> u8 list \<Rightarrow> u8 list" where
  "parity_syndromes n fcr parity = map (\<lambda>i. byte (syndrome fcr (replicate (255 - n) 0 @ parity) i)) [0..<n]"

lemma xor_zeros: "map2 (XOR) (replicate (length xs) 0) xs = (xs :: 'a::len word list)" "map2 (XOR) xs (replicate (length xs) 0) = xs"
  by (induction xs) simp_all

lemma byte_eq_iff: "byte x = byte y \<longleftrightarrow> x = y"
  by (metis gf.collapse)

lemma parity_syndromes_eq:
  "parity_syndromes n fcr p = map (\<lambda>i. byte (g i)) [0..<n] \<longleftrightarrow> (\<forall>i < n. syndrome fcr (replicate (255 - n) 0 @ p) i = g i)"
  by (auto simp: parity_syndromes_def byte_eq_iff)

lemma xor_eq_0_iff: "a XOR b = 0 \<longleftrightarrow> a = b" for a b :: u8
  by (metis xor.assoc xor.left_neutral xor_self_eq)

lemma gf_self_sum: "x + x = (0 :: gf)"
  by (simp add: plus_gf_def zero_gf_def)

lemma inj_parity_syndromes:
  assumes "n \<le> 255"
  shows "inj_on (parity_syndromes n fcr) {p. length p = n}"
proof (rule inj_onI)
  fix p q assume l: "p \<in> {p. length p = n}" "q \<in> {p. length p = n}" and e: "parity_syndromes n fcr p = parity_syndromes n fcr q"
  let ?z = "replicate (255 - n) (0 :: u8)"
  let ?d = "map2 (XOR) (?z @ p) (?z @ q)"
  have s: "syndrome fcr (?z @ p) i = syndrome fcr (?z @ q) i" if "i < n" for i
    using e that unfolding parity_syndromes_def by (simp add: byte_eq_iff)
  have d: "syndrome fcr ?d i = 0" if "i < n" for i
    using s[OF that] l assms by (subst syndrome_xor) (simp_all add: gf_self_sum)
  have "erased n fcr (replicate 255 0) [255 - n..<255] ?d"
    using l assms by (auto simp: erased_def codeword_def syndrome_def nth_append zero_gf_def[symmetric])
  then have "?d = replicate 255 0" using d by (rule no_syndromes_no_errors)
  then have "drop (255 - n) ?d = replicate n 0" using assms by simp
  then have z: "map2 (XOR) p q = replicate n 0" by (simp add: drop_zip flip: drop_map)
  have "p ! k = q ! k" if "k < n" for k
    using arg_cong[OF z, of "\<lambda>xs. xs ! k"] that l by (simp add: xor_eq_0_iff)
  then show "p = q" using l by (intro nth_equalityI) simp_all
qed

lemma systematic:
  assumes "n \<le> 255" "length msg = 255 - n"
  obtains parity where "length parity = n" "codeword n fcr (msg @ parity)"
proof -
  let ?A = "{p :: u8 list. length p = n}"
  have "finite ?A" using finite_lists_length_eq[of "UNIV :: u8 set" n] by simp
  moreover have "parity_syndromes n fcr ` ?A \<subseteq> ?A" by (auto simp: parity_syndromes_def)
  ultimately have "parity_syndromes n fcr ` ?A = ?A" using inj_parity_syndromes[OF assms(1)] by (rule endo_inj_surj)
  moreover have "map (\<lambda>i. byte (syndrome fcr (msg @ replicate n 0) i)) [0..<n] \<in> ?A" by simp
  ultimately obtain p where p: "length p = n"
    "parity_syndromes n fcr p = map (\<lambda>i. byte (syndrome fcr (msg @ replicate n 0) i)) [0..<n]"
    by (metis (mono_tags, lifting) imageE mem_Collect_eq)
  let ?a = "replicate (255 - n) 0 @ p" and ?b = "msg @ replicate n 0"
  have x: "map2 (XOR) ?a ?b = msg @ p"
    using assms(2) p(1) xor_zeros(1)[of msg] xor_zeros(2)[of p] by simp
  have "syndrome fcr (msg @ p) i = 0" if "i < n" for i
  proof -
    have "syndrome fcr (map2 (XOR) ?a ?b) i = syndrome fcr ?a i + syndrome fcr ?b i"
      by (rule syndrome_xor) (use assms p(1) in simp_all)
    then show ?thesis using p(2) that unfolding x parity_syndromes_eq by (simp add: gf_self_sum)
  qed
  then have "codeword n fcr (msg @ p)" using assms p(1) by (simp add: codeword_def)
  with p(1) show thesis by (rule that)
qed

end
