(* ===== verification/Bit_Strings.thy ===== *)
theory Bit_Strings
  imports Prelude
begin

text \<open>
  Navigation messages as the code handles them: strings of the characters \<open>0\<close> and \<open>1\<close>, cut with
  \<open>substr\<close>, turned into a \<open>std::bitset\<close> or read as a number character by character. A bit set is
  the list of its bits, the lowest first. The lemmas relate every reader to \<^const>\<open>bit_val\<close> of
  the bits of the string.
\<close>

section \<open>Strings and bit sets\<close>

abbreviation is_one :: "char \<Rightarrow> bool" where
  "is_one c \<equiv> c = CHR ''1''"

definition binary :: "string \<Rightarrow> bool" where
  "binary s \<longleftrightarrow> set s \<subseteq> {CHR ''0'', CHR ''1''}"

definition char_of_bit :: "bool \<Rightarrow> char" where
  "char_of_bit b = (if b then CHR ''1'' else CHR ''0'')"

text \<open>\<open>substr\<close> throws \<open>std::out_of_range\<close> when it starts beyond the end.\<close>

definition substr :: "string \<Rightarrow> nat \<Rightarrow> nat \<Rightarrow> string option" where
  "substr s pos n = (if pos \<le> length s then Some (take n (drop pos s)) else None)"

text \<open>\<open>std::bitset<n>(s)\<close> takes the first \<open>n\<close> characters, the last of them as bit 0, and throws
  \<open>std::invalid_argument\<close> at any character but zero and one.\<close>

definition bitset :: "nat \<Rightarrow> string \<Rightarrow> bool list option" where
  "bitset n s =
    (let t = take n s
     in if binary t then Some (rev (map is_one t) @ replicate (n - length t) False) else None)"

definition bitset_of_word :: "nat \<Rightarrow> 'a::len word \<Rightarrow> bool list" where
  "bitset_of_word n w = map (bit w) [0..<n]"

definition bitset_to_string :: "bool list \<Rightarrow> string" where
  "bitset_to_string bs = map char_of_bit (rev bs)"

definition bitset_to_ulong :: "bool list \<Rightarrow> nat" where
  "bitset_to_ulong bs = bit_val (rev bs)"

text \<open>The loop \<open>value <<= 1; if (c == '1') value += 1;\<close> over the characters of a string.\<close>

definition read_bits :: "string \<Rightarrow> 'a::len word" where
  "read_bits s = foldl (\<lambda>v c. push_bit 1 v + (if c = CHR ''1'' then 1 else 0)) 0 s"

text \<open>The same loop over a bit set of \<open>sz\<close> bits, from position \<open>first\<close> counted from one.\<close>

definition read_parameter :: "nat \<Rightarrow> bool list \<Rightarrow> nat \<times> nat \<Rightarrow> 'a::len word" where
  "read_parameter sz bits parameter =
    (let (first, len) = parameter
     in foldl (\<lambda>v j. push_bit 1 v + (if bits ! (sz - first - j) then 1 else 0)) 0 [0..<len])"

section \<open>Properties\<close>

definition bits_in :: "string \<Rightarrow> bool list" where
  "bits_in s = map is_one s"

lemma length_bits_in [simp]: "length (bits_in s) = length s"
  by (simp add: bits_in_def)

lemma bits_in_append [simp]: "bits_in (s @ t) = bits_in s @ bits_in t"
  by (simp add: bits_in_def)

lemma bits_in_take: "bits_in (take n s) = take n (bits_in s)"
  by (simp add: bits_in_def take_map)

lemma bits_in_drop: "bits_in (drop n s) = drop n (bits_in s)"
  by (simp add: bits_in_def drop_map)

lemma binary_Nil [simp]: "binary []"
  by (simp add: binary_def)

lemma binary_append [simp]: "binary (s @ t) \<longleftrightarrow> binary s \<and> binary t"
  by (auto simp: binary_def)

lemma binary_take: "binary s \<Longrightarrow> binary (take n s)"
  using set_take_subset[of n s] by (auto simp: binary_def)

lemma binary_drop: "binary s \<Longrightarrow> binary (drop n s)"
  using set_drop_subset[of n s] by (auto simp: binary_def)

lemma binary_map_char_of_bit [simp]: "binary (map char_of_bit bs)"
  by (auto simp: binary_def char_of_bit_def)

lemma bits_in_map_char_of_bit [simp]: "bits_in (map char_of_bit bs) = bs"
  by (induction bs) (simp_all add: bits_in_def char_of_bit_def)

lemma bits_in_bitset_to_string [simp]: "bits_in (bitset_to_string bs) = rev bs"
  by (simp add: bitset_to_string_def)

lemma length_bitset_to_string [simp]: "length (bitset_to_string bs) = length bs"
  by (simp add: bitset_to_string_def)

lemma binary_bitset_to_string [simp]: "binary (bitset_to_string bs)"
  by (simp add: bitset_to_string_def)

lemma map_char_of_bits_in: "binary s \<Longrightarrow> map char_of_bit (bits_in s) = s"
  by (induction s) (auto simp: bits_in_def binary_def char_of_bit_def)

lemma substr_Some: "pos \<le> length s \<Longrightarrow> substr s pos n = Some (take n (drop pos s))"
  by (simp add: substr_def)

lemma bitset_Some:
  "binary s \<Longrightarrow> length s = n \<Longrightarrow> bitset n s = Some (rev (bits_in s))"
  by (simp add: bitset_def bits_in_def)

lemma bitset_to_ulong_bitset:
  "binary s \<Longrightarrow> length s = n \<Longrightarrow> map_option bitset_to_ulong (bitset n s) = Some (bit_val (bits_in s))"
  by (simp add: bitset_Some bitset_to_ulong_def)

lemma read_bits_acc:
  fixes v :: "'a::len word"
  shows "foldl (\<lambda>v c. push_bit 1 v + (if c = CHR ''1'' then 1 else 0)) v s
    = of_nat (unat v * 2 ^ length s + bit_val (bits_in s))"
proof (induction s arbitrary: v)
  case Nil
  show ?case by (simp add: bits_in_def)
next
  case (Cons c s)
  have "of_nat (unat (push_bit 1 v + (if c = CHR ''1'' then 1 else 0)) * 2 ^ length s + bit_val (bits_in s))
      = (of_nat (unat v * 2 ^ length (c # s) + bit_val (bits_in (c # s))) :: 'a word)"
    by (simp add: bits_in_def bit_val_Cons push_bit_eq_mult algebra_simps)
  then show ?case by (simp only: foldl_Cons Cons.IH)
qed

lemma read_bits_eq: "(read_bits s :: 'a::len word) = of_nat (bit_val (bits_in s))"
  using read_bits_acc[of 0 s] by (simp add: read_bits_def)

lemma unat_read_bits:
  assumes "length s \<le> LENGTH('a::len)"
  shows "unat (read_bits s :: 'a word) = bit_val (bits_in s)"
proof -
  have "bit_val (bits_in s) < 2 ^ length s" using bit_val_bound[of "bits_in s"] by simp
  also have "\<dots> \<le> 2 ^ LENGTH('a)" using assms by (rule power_increasing) simp
  finally show ?thesis by (simp add: read_bits_eq unat_of_nat_less)
qed

text \<open>A parameter of a header is the number at its place in the string.\<close>

lemma read_parameter_eq:
  assumes "length s = sz" "0 < first" "first + len \<le> sz + 1"
  shows "(read_parameter sz (rev (bits_in s)) (first, len) :: 'a::len word)
    = of_nat (bit_val (take len (drop (first - 1) (bits_in s))))"
proof -
  let ?t = "take len (drop (first - 1) s)"
  have t: "?t = map (\<lambda>j. s ! (first - 1 + j)) [0..<len]"
    using assms by (intro nth_equalityI) simp_all
  have "rev (bits_in s) ! (sz - first - j) = (s ! (first - 1 + j) = CHR ''1'')" if "j < len" for j
  proof -
    have "sz - first - j < length s" using assms that by linarith
    moreover have "length s - Suc (sz - first - j) = first - 1 + j" using assms that by linarith
    ultimately show ?thesis using assms that by (simp add: rev_nth bits_in_def)
  qed
  then have "(read_parameter sz (rev (bits_in s)) (first, len) :: 'a word)
      = foldl (\<lambda>v j. push_bit 1 v + (if s ! (first - 1 + j) = CHR ''1'' then 1 else 0)) 0 [0..<len]"
    unfolding read_parameter_def prod.case Let_def by (intro foldl_cong) simp_all
  also have "\<dots> = read_bits ?t" unfolding t read_bits_def foldl_map by simp
  also have "\<dots> = of_nat (bit_val (take len (drop (first - 1) (bits_in s))))"
    by (simp add: read_bits_eq bits_in_take bits_in_drop)
  finally show ?thesis .
qed

section \<open>Numbers as strings\<close>

text \<open>The \<open>n\<close> low bits of a number, the highest first: how a sender writes a field.\<close>

definition field_of :: "nat \<Rightarrow> nat \<Rightarrow> string" where
  "field_of n k = map char_of_bit (rev (map (bit k) [0..<n]))"

lemma length_field_of [simp]: "length (field_of n k) = n"
  by (simp add: field_of_def)

lemma binary_field_of [simp]: "binary (field_of n k)"
  by (simp add: field_of_def)

lemma bit_val_field_of [simp]: "bit_val (bits_in (field_of n k)) = k mod 2 ^ n"
proof -
  have "bit_val (rev (map (bit k) [0..<n])) = horner_sum of_bool 2 (map (bit k) [0..<n])"
    by (simp add: bit_val_horner)
  then show ?thesis
    by (simp add: field_of_def horner_sum_bit_eq_take_bit take_bit_eq_mod)
qed

lemma read_bits_field_of:
  "n \<le> LENGTH('a::len) \<Longrightarrow> unat (read_bits (field_of n k) :: 'a word) = k mod 2 ^ n"
  by (simp add: unat_read_bits)

end
