(* ===== verification/Has_Data.thy ===== *)
theory Has_Data
  imports Bit_Strings
begin

text \<open>
  The contents of a message of the High Accuracy Service and their getters:
  \<open>core/system_parameters/galileo_has_data.cc\<close>.

  An \<open>int16_t\<close> is a word of 16 bits read with \<^const>\<open>sint\<close>. The floating-point type is a type
  variable: \<open>to_f\<close> is the conversion of an integer, \<open>scale\<close> the constant of
  \<open>Galileo_CNAV.h\<close>. \<^const>\<open>None\<close> is an access beyond the end of a vector.
\<close>

section \<open>Data\<close>

record mt1_header =
  toh :: u16
  mask_id :: u8
  iod_set_id :: u8
  header_reserved :: u8
  mask_flag :: bool
  orbit_correction_flag :: bool
  clock_fullset_flag :: bool
  clock_subset_flag :: bool
  code_bias_flag :: bool
  phase_bias_flag :: bool

record has_data =
  gnss_id_mask :: "u8 list"
  satellite_mask :: "u64 list"
  signal_mask :: "u16 list"
  cell_mask_availability_flag :: "bool list"
  cell_mask :: "bool list list list"
  nav_message :: "u8 list"
  gnss_iod :: "u16 list"
  delta_radial :: "16 word list"
  delta_in_track :: "16 word list"
  delta_cross_track :: "16 word list"
  delta_clock_multiplier :: "u8 list"
  delta_clock_correction :: "16 word list"
  gnss_id_clock_subset :: "u8 list"
  delta_clock_multiplier_clock_subset :: "u8 list"
  satellite_submask :: "u64 list"
  delta_clock_correction_clock_subset :: "16 word list list"
  code_bias :: "16 word list list"
  phase_bias :: "16 word list list"
  phase_discontinuity_indicator :: "u8 list list"
  has_tow :: u32
  mt1_header :: mt1_header
  has_status :: u8
  message_id :: u8
  Nsys :: u8
  Nsys_sub :: u8
  validity_interval_index_orbit_corrections :: u8
  validity_interval_index_clock_fullset_corrections :: u8
  validity_interval_index_clock_subset_corrections :: u8
  validity_interval_index_code_bias_corrections :: u8
  validity_interval_index_phase_bias_corrections :: u8

text \<open>\<open>Galileo_HAS_data()\<close> initializes every member to zero.\<close>

definition mt1_header_blank :: mt1_header where
  "mt1_header_blank = \<lparr> toh = 0, mask_id = 0, iod_set_id = 0, header_reserved = 0, mask_flag = False,
     orbit_correction_flag = False, clock_fullset_flag = False, clock_subset_flag = False,
     code_bias_flag = False, phase_bias_flag = False \<rparr>"

definition has_data_blank :: has_data where
  "has_data_blank = \<lparr> gnss_id_mask = [], satellite_mask = [], signal_mask = [],
     cell_mask_availability_flag = [], cell_mask = [], nav_message = [], gnss_iod = [], delta_radial = [],
     delta_in_track = [], delta_cross_track = [], delta_clock_multiplier = [], delta_clock_correction = [],
     gnss_id_clock_subset = [], delta_clock_multiplier_clock_subset = [], satellite_submask = [],
     delta_clock_correction_clock_subset = [], code_bias = [], phase_bias = [],
     phase_discontinuity_indicator = [], has_tow = 0, mt1_header = mt1_header_blank, has_status = 0,
     message_id = 0, Nsys = 0, Nsys_sub = 0, validity_interval_index_orbit_corrections = 0,
     validity_interval_index_clock_fullset_corrections = 0,
     validity_interval_index_clock_subset_corrections = 0,
     validity_interval_index_code_bias_corrections = 0,
     validity_interval_index_phase_bias_corrections = 0 \<rparr>"

section \<open>Tables of the interface document\<close>

definition gps_signals :: "string list" where
  "gps_signals = [''L1 C/A'', ''Reserved'', ''Reserved'', ''L1C(D)'', ''L1C(P)'', ''L1C(D+P)'', ''L2 CM'',
     ''L2 CL'', ''L2 CM+CL'', ''L2 P'', ''Reserved'', ''L5 I'', ''L5 Q'', ''L5 I + L5 Q'', ''Reserved'',
     ''Reserved'']"

definition galileo_signals :: "string list" where
  "galileo_signals = [''E1-B I/NAV OS'', ''E1-C'', ''E1-B + E1-C'', ''E5a-I F/NAV OS'', ''E5a-Q'',
     ''E5a-I+E5a-Q'', ''E5b-I I/NAV OS'', ''E5b-Q'', ''E5b-I+E5b-Q'', ''E5-I'', ''E5-Q'', ''E5-I + E5-Q'',
     ''E6-B C/NAV HAS'', ''E6-C'', ''E6-B + E6-C'', ''Reserved'']"

definition HAS_SIGNAL_INDEX_TABLE :: "u8 \<rightharpoonup> string list" where
  "HAS_SIGNAL_INDEX_TABLE = [0 \<mapsto> gps_signals, 2 \<mapsto> galileo_signals]"

definition HAS_VALIDITY_INTERVALS :: "nat list" where
  "HAS_VALIDITY_INTERVALS = [5, 10, 15, 20, 30, 60, 90, 120, 180, 240, 300, 600, 900, 1800, 3600]"

section \<open>Masks\<close>

text \<open>The loop \<open>while (n) { count += n & 1; n >>= 1; }\<close>.\<close>

function count_ones :: "'a::len word \<Rightarrow> nat" where
  "count_ones n = (if n = 0 then 0 else unat (n AND 1) + count_ones (drop_bit 1 n))"
  by pat_completeness auto
termination
proof (relation "measure unat")
  fix n :: "'a word" assume "n \<noteq> 0"
  then have "0 < unat n" by (simp add: unat_gt_0)
  moreover have "unat (drop_bit 1 n) = unat n div 2" by (subst unat_drop_bit_eq) (simp only: drop_bit_eq_div power_one_right)
  ultimately show "(drop_bit 1 n, n) \<in> measure unat" by simp
qed simp

declare count_ones.simps [simp del]

definition get_num_satellites :: "has_data \<Rightarrow> u8 list option" where
  "get_num_satellites d =
    mapM (\<lambda>i. map_option (\<lambda>m. of_nat (count_ones m)) (vget (satellite_mask d) i)) [0..<unat (Nsys d)]"

definition get_num_subset_satellites :: "has_data \<Rightarrow> u8 list option" where
  "get_num_subset_satellites d =
    mapM (\<lambda>i. map_option (\<lambda>m. of_nat (count_ones m)) (vget (satellite_submask d) i)) [0..<unat (Nsys_sub d)]"

definition get_PRNs_in_mask :: "nat \<Rightarrow> has_data \<Rightarrow> nat list" where
  "get_PRNs_in_mask nsys d =
    (if nsys \<ge> length (satellite_mask d) then []
     else map Suc (filter (\<lambda>i. bit (satellite_mask d ! nsys) (40 - i - 1)) [0..<40]))"

definition name_of_system :: "u8 \<Rightarrow> string" where
  "name_of_system i = (if i = 0 then ''GPS'' else if i = 2 then ''Galileo'' else ''Reserved'')"

definition get_systems_string :: "has_data \<Rightarrow> string list option" where
  "get_systems_string d =
    (if gnss_id_mask d = [] then Some []
     else mapM (\<lambda>i. map_option name_of_system (vget (gnss_id_mask d) i)) [0..<unat (Nsys d)])"

definition get_systems_subset_string :: "has_data \<Rightarrow> string list option" where
  "get_systems_subset_string d =
    (if gnss_id_clock_subset d = [] then Some []
     else mapM (\<lambda>i. map_option name_of_system (vget (gnss_id_clock_subset d) i)) [0..<unat (Nsys_sub d)])"

text \<open>\<open>std::find\<close> and the distance from the beginning.\<close>

fun find_index :: "'a \<Rightarrow> 'a list \<Rightarrow> nat option" where
  "find_index x [] = None"
| "find_index x (y # ys) = (if x = y then Some 0 else map_option Suc (find_index x ys))"

definition get_PRNs_in_mask_of :: "string \<Rightarrow> has_data \<Rightarrow> nat list option" where
  "get_PRNs_in_mask_of system d =
    do { systems \<leftarrow> get_systems_string d;
         Some (case find_index system systems of None \<Rightarrow> [] | Some i \<Rightarrow> get_PRNs_in_mask i d) }"

definition get_signals_in_mask :: "nat \<Rightarrow> has_data \<Rightarrow> string list option" where
  "get_signals_in_mask nsys d =
    (if length (signal_mask d) \<le> nsys then Some []
     else
       do { system \<leftarrow> vget (gnss_id_mask d) nsys;
            let sig = signal_mask d ! nsys;
            Some (map (\<lambda>k. case HAS_SIGNAL_INDEX_TABLE system of None \<Rightarrow> ''Unknown'' | Some names \<Rightarrow> names ! k)
              (filter (\<lambda>k. bit sig (16 - k - 1)) [0..<16])) })"

definition get_signals_in_mask_of :: "string \<Rightarrow> has_data \<Rightarrow> string list option" where
  "get_signals_in_mask_of system d =
    do { systems \<leftarrow> get_systems_string d;
         case find_index system systems of None \<Rightarrow> Some [] | Some i \<Rightarrow> get_signals_in_mask i d }"

fun gnss_id_loop :: "nat \<Rightarrow> nat list \<Rightarrow> nat \<Rightarrow> has_data \<Rightarrow> u8 option" where
  "gnss_id_loop nsat [] number_sats d = Some 255"
| "gnss_id_loop nsat (i # is) number_sats d =
    (let number_sats = number_sats + length (get_PRNs_in_mask i d)
     in if nsat < number_sats then vget (gnss_id_mask d) i else gnss_id_loop nsat is number_sats d)"

definition get_gnss_id :: "nat \<Rightarrow> has_data \<Rightarrow> u8 option" where
  "get_gnss_id nsat d = gnss_id_loop nsat [0..<unat (Nsys d)] 0 d"

definition get_nsat :: "has_data \<Rightarrow> u16 option" where
  "get_nsat d = map_option (\<lambda>ns. of_nat (sum_list (map unat ns))) (get_num_satellites d)"

definition get_nsat_sub :: "has_data \<Rightarrow> u16" where
  "get_nsat_sub d = of_nat (length (delta_clock_correction_clock_subset d))"

definition get_validity_interval_s :: "u8 \<Rightarrow> u16" where
  "get_validity_interval_s i =
    (if unat i < length HAS_VALIDITY_INTERVALS then of_nat (HAS_VALIDITY_INTERVALS ! unat i) else 0)"

section \<open>Values of one system\<close>

text \<open>The loop over the systems that skips the satellites of the earlier ones and copies those of
  system \<open>nsys\<close>.\<close>

definition system_slice :: "u8 list \<Rightarrow> nat \<Rightarrow> 'a list \<Rightarrow> 'a list option" where
  "system_slice num_satellites nsys v =
    map_option snd (foldM (\<lambda>sys (index, out).
        do { n \<leftarrow> vget num_satellites sys;
             if sys \<noteq> nsys then Some (index + unat n, out)
             else map_option (\<lambda>xs. (index + unat n, out @ xs)) (vread v index (unat n)) })
      [0..<nsys + 1] (0, []))"

definition get_gnss_iod_sys :: "nat \<Rightarrow> has_data \<Rightarrow> u16 list option" where
  "get_gnss_iod_sys nsys d =
    (if nsys \<ge> unat (Nsys d) then Some []
     else do { num_satellites \<leftarrow> get_num_satellites d; system_slice num_satellites nsys (gnss_iod d) })"

definition get_gnss_iod :: "string \<Rightarrow> nat \<Rightarrow> has_data \<Rightarrow> u16 option" where
  "get_gnss_iod system prn d =
    (if gnss_iod d = [] then Some 65535
     else
       do { systems \<leftarrow> get_systems_string d;
            case find_index system systems of None \<Rightarrow> Some 65535
            | Some i \<Rightarrow>
                (case find_index prn (get_PRNs_in_mask i d) of None \<Rightarrow> Some 65535
                 | Some j \<Rightarrow> do { iods \<leftarrow> get_gnss_iod_sys i d; vget iods j }) })"

section \<open>Corrections in metres\<close>

definition get_delta_radial_m :: "(int \<Rightarrow> 'f::times) \<Rightarrow> 'f \<Rightarrow> has_data \<Rightarrow> 'f list" where
  "get_delta_radial_m to_f scale d = map (\<lambda>x. to_f (sint x) * scale) (delta_radial d)"

definition get_delta_in_track_m :: "(int \<Rightarrow> 'f::times) \<Rightarrow> 'f \<Rightarrow> has_data \<Rightarrow> 'f list" where
  "get_delta_in_track_m to_f scale d = map (\<lambda>x. to_f (sint x) * scale) (delta_in_track d)"

definition get_delta_cross_track_m :: "(int \<Rightarrow> 'f::times) \<Rightarrow> 'f \<Rightarrow> has_data \<Rightarrow> 'f list" where
  "get_delta_cross_track_m to_f scale d = map (\<lambda>x. to_f (sint x) * scale) (delta_cross_track d)"

definition get_delta_clock_correction_m :: "(int \<Rightarrow> 'f::times) \<Rightarrow> 'f \<Rightarrow> has_data \<Rightarrow> 'f list" where
  "get_delta_clock_correction_m to_f scale d = map (\<lambda>x. to_f (sint x) * scale) (delta_clock_correction d)"

definition get_delta_clock_subset_correction_m :: "(int \<Rightarrow> 'f::times) \<Rightarrow> 'f \<Rightarrow> has_data \<Rightarrow> 'f list list" where
  "get_delta_clock_subset_correction_m to_f scale d =
    map (map (\<lambda>x. to_f (sint x) * scale)) (delta_clock_correction_clock_subset d)"

definition get_delta_radial_m_sys :: "(int \<Rightarrow> 'f::times) \<Rightarrow> 'f \<Rightarrow> nat \<Rightarrow> has_data \<Rightarrow> 'f list option" where
  "get_delta_radial_m_sys to_f scale nsys d =
    (if nsys \<ge> unat (Nsys d) then Some []
     else do { num_satellites \<leftarrow> get_num_satellites d;
               system_slice num_satellites nsys (get_delta_radial_m to_f scale d) })"

definition get_delta_in_track_m_sys :: "(int \<Rightarrow> 'f::times) \<Rightarrow> 'f \<Rightarrow> nat \<Rightarrow> has_data \<Rightarrow> 'f list option" where
  "get_delta_in_track_m_sys to_f scale nsys d =
    (if nsys \<ge> unat (Nsys d) then Some []
     else do { num_satellites \<leftarrow> get_num_satellites d;
               system_slice num_satellites nsys (get_delta_in_track_m to_f scale d) })"

definition get_delta_cross_track_m_sys :: "(int \<Rightarrow> 'f::times) \<Rightarrow> 'f \<Rightarrow> nat \<Rightarrow> has_data \<Rightarrow> 'f list option" where
  "get_delta_cross_track_m_sys to_f scale nsys d =
    (if nsys \<ge> unat (Nsys d) then Some []
     else do { num_satellites \<leftarrow> get_num_satellites d;
               system_slice num_satellites nsys (get_delta_cross_track_m to_f scale d) })"

definition get_delta_clock_correction_m_sys :: "(int \<Rightarrow> 'f::times) \<Rightarrow> 'f \<Rightarrow> nat \<Rightarrow> has_data \<Rightarrow> 'f list option" where
  "get_delta_clock_correction_m_sys to_f scale nsys d =
    (if nsys \<ge> unat (Nsys d) then Some []
     else do { num_satellites \<leftarrow> get_num_satellites d;
               system_slice num_satellites nsys (get_delta_clock_correction_m to_f scale d) })"

text \<open>The position of system \<open>nsys\<close> in the clock subset, \<open>Some None\<close> when it is not there.\<close>

definition subset_index :: "nat \<Rightarrow> has_data \<Rightarrow> nat option option" where
  "subset_index nsys d =
    (if nsys \<ge> unat (Nsys d) then Some None
     else
       do { gnss_id \<leftarrow> vget (gnss_id_mask d) nsys;
            Some (case find_index gnss_id (gnss_id_clock_subset d) of None \<Rightarrow> None
                  | Some i \<Rightarrow> (if i \<ge> length (satellite_submask d) then None else Some i)) })"

text \<open>The loop over the systems of the main mask runs over the satellite numbers of the subset and
  over the corrections of one of its systems.\<close>

definition get_delta_clock_subset_correction_m_sys :: "(int \<Rightarrow> 'f::times) \<Rightarrow> 'f \<Rightarrow> nat \<Rightarrow> has_data \<Rightarrow> 'f list option" where
  "get_delta_clock_subset_correction_m_sys to_f scale nsys d =
    do { sub \<leftarrow> subset_index nsys d;
         case sub of None \<Rightarrow> Some []
         | Some nsys_sub_index \<Rightarrow>
             do { v \<leftarrow> vget (get_delta_clock_subset_correction_m to_f scale d) nsys_sub_index;
                  num_satellites_subset \<leftarrow> get_num_subset_satellites d;
                  _ \<leftarrow> vget num_satellites_subset nsys_sub_index;
                  system_slice num_satellites_subset nsys v } }"

text \<open>The satellites of the submask: \<open>count\<close> counts the bits that are set, from the lowest.\<close>

fun submask_loop :: "nat \<Rightarrow> u64 \<Rightarrow> nat list \<Rightarrow> nat \<Rightarrow> nat list option" where
  "submask_loop 0 m prns count = Some []"
| "submask_loop (Suc n) m prns count =
    (if m = 0 then Some []
     else if bit m 0 then
       do { p \<leftarrow> vget prns count; ps \<leftarrow> submask_loop n (drop_bit 1 m) prns (count + 1); Some (p # ps) }
     else submask_loop n (drop_bit 1 m) prns count)"

definition get_PRNs_in_submask :: "nat \<Rightarrow> has_data \<Rightarrow> nat list option" where
  "get_PRNs_in_submask nsys d =
    do { sub \<leftarrow> subset_index nsys d;
         case sub of None \<Rightarrow> Some []
         | Some i \<Rightarrow> submask_loop 64 (satellite_submask d ! i) (get_PRNs_in_mask nsys d) 0 }"

text \<open>The getters by system name and satellite number: zero when either is not in the mask.\<close>

definition value_of_satellite :: "(nat \<Rightarrow> 'f list option) \<Rightarrow> string \<Rightarrow> nat \<Rightarrow> has_data \<Rightarrow> 'f::zero option" where
  "value_of_satellite values system prn d =
    do { systems \<leftarrow> get_systems_string d;
         case find_index system systems of None \<Rightarrow> Some 0
         | Some i \<Rightarrow>
             (case find_index prn (get_PRNs_in_mask i d) of None \<Rightarrow> Some 0
              | Some j \<Rightarrow> do { v \<leftarrow> values i; vget v j }) }"

definition get_delta_radial_m_of :: "(int \<Rightarrow> 'f::{zero,times}) \<Rightarrow> 'f \<Rightarrow> string \<Rightarrow> nat \<Rightarrow> has_data \<Rightarrow> 'f option" where
  "get_delta_radial_m_of to_f scale system prn d =
    (if delta_radial d = [] then Some 0
     else value_of_satellite (\<lambda>i. get_delta_radial_m_sys to_f scale i d) system prn d)"

definition get_delta_in_track_m_of :: "(int \<Rightarrow> 'f::{zero,times}) \<Rightarrow> 'f \<Rightarrow> string \<Rightarrow> nat \<Rightarrow> has_data \<Rightarrow> 'f option" where
  "get_delta_in_track_m_of to_f scale system prn d =
    (if delta_in_track d = [] then Some 0
     else value_of_satellite (\<lambda>i. get_delta_in_track_m_sys to_f scale i d) system prn d)"

definition get_delta_cross_track_m_of :: "(int \<Rightarrow> 'f::{zero,times}) \<Rightarrow> 'f \<Rightarrow> string \<Rightarrow> nat \<Rightarrow> has_data \<Rightarrow> 'f option" where
  "get_delta_cross_track_m_of to_f scale system prn d =
    (if delta_cross_track d = [] then Some 0
     else value_of_satellite (\<lambda>i. get_delta_cross_track_m_sys to_f scale i d) system prn d)"

definition get_clock_correction_mult_m :: "(int \<Rightarrow> 'f::{zero,times}) \<Rightarrow> 'f \<Rightarrow> string \<Rightarrow> nat \<Rightarrow> has_data \<Rightarrow> 'f option" where
  "get_clock_correction_mult_m to_f scale system prn d =
    (if delta_clock_correction d = [] then Some 0
     else value_of_satellite (\<lambda>i.
         do { v \<leftarrow> get_delta_clock_correction_m_sys to_f scale i d;
              dcm \<leftarrow> vget (delta_clock_multiplier d) i;
              Some (map (\<lambda>x. x * to_f (uint dcm)) v) }) system prn d)"

definition get_clock_subset_correction_mult_m :: "(int \<Rightarrow> 'f::{zero,times}) \<Rightarrow> 'f \<Rightarrow> string \<Rightarrow> nat \<Rightarrow> has_data
    \<Rightarrow> 'f option" where
  "get_clock_subset_correction_mult_m to_f scale system prn d =
    (if gnss_id_clock_subset d = [] then Some 0
     else
       do { systems \<leftarrow> get_systems_string d;
            case find_index system systems of None \<Rightarrow> Some 0
            | Some i \<Rightarrow>
                do { prns_subset \<leftarrow> get_PRNs_in_submask i d;
                     case find_index prn prns_subset of None \<Rightarrow> Some 0
                     | Some j \<Rightarrow>
                         do { v \<leftarrow> get_delta_clock_subset_correction_m_sys to_f scale i d;
                              dcm \<leftarrow> vget (delta_clock_multiplier_clock_subset d) i;
                              if v = [] then Some 0
                              else do { x \<leftarrow> vget v j; Some (x * to_f (uint dcm)) } } } })"

section \<open>Biases\<close>

definition scaled_matrix :: "(int \<Rightarrow> 'f::times) \<Rightarrow> 'f \<Rightarrow> 16 word list list \<Rightarrow> 'f list list option" where
  "scaled_matrix to_f scale m =
    (case m of [] \<Rightarrow> Some []
     | row0 # _ \<Rightarrow> mapM (\<lambda>row. mapM (\<lambda>j. map_option (\<lambda>x. to_f (sint x) * scale) (vget row j)) [0..<length row0]) m)"

definition get_code_bias_m :: "(int \<Rightarrow> 'f::times) \<Rightarrow> 'f \<Rightarrow> has_data \<Rightarrow> 'f list list option" where
  "get_code_bias_m to_f scale d = scaled_matrix to_f scale (code_bias d)"

definition get_phase_bias_cycle :: "(int \<Rightarrow> 'f::times) \<Rightarrow> 'f \<Rightarrow> has_data \<Rightarrow> 'f list list option" where
  "get_phase_bias_cycle to_f scale d = scaled_matrix to_f scale (phase_bias d)"

text \<open>The system a signal name belongs to, from the two lists of names in the code.\<close>

definition targeted_system :: "string \<Rightarrow> string" where
  "targeted_system signal =
    (if signal \<in> set [''E1-B I/NAV OS'', ''E1-C'', ''E1-B + E1-C'', ''E5a-I F/NAV OS'', ''E5a-Q'',
         ''E5a-I+E5a-Q'', ''E5b-I I/NAV OS'', ''E5b-Q'', ''E5b-I+E5b-Q'', ''E5-I'', ''E5-Q'',
         ''E5-I + E5-Q'', ''E6-B C/NAV HAS'', ''E6-C'', ''E6-B + E6-C''] then ''Galileo''
     else if signal \<in> set [''L1 C/A'', ''L1C(D)'', ''L1C(P)'', ''L1C(D+P)'', ''L2 CM'', ''L2 CL'',
         ''L2 CM+CL'', ''L2 P'', ''L5 I'', ''L5 Q'', ''L5 I + L5 Q''] then ''GPS''
     else [])"

text \<open>The row of a satellite: the loop adds up the satellites of the systems before its own and
  goes on past it when the satellite is not there.\<close>

fun satellite_row :: "nat list \<Rightarrow> nat \<Rightarrow> nat \<Rightarrow> nat \<Rightarrow> has_data \<Rightarrow> nat option" where
  "satellite_row [] nsys_index prn sat_index d = None"
| "satellite_row (s # rest) nsys_index prn sat_index d =
    (let prns = get_PRNs_in_mask s d
     in if s = nsys_index then
          (case find_index prn prns of Some j \<Rightarrow> Some (sat_index + j)
           | None \<Rightarrow> satellite_row rest nsys_index prn sat_index d)
        else satellite_row rest nsys_index prn (sat_index + length prns) d)"

definition bias_of :: "(int \<Rightarrow> 'f::{zero,times}) \<Rightarrow> 'f \<Rightarrow> 16 word list list \<Rightarrow> string \<Rightarrow> nat \<Rightarrow> has_data \<Rightarrow> 'f option" where
  "bias_of to_f scale m signal prn d =
    (if m = [] \<or> hd m = [] \<or> targeted_system signal = [] then Some 0
     else
       do { systems \<leftarrow> get_systems_string d;
            case find_index (targeted_system signal) systems of None \<Rightarrow> Some 0
            | Some nsys_index \<Rightarrow>
                do { signals \<leftarrow> get_signals_in_mask nsys_index d;
                     case find_index signal signals of None \<Rightarrow> Some 0
                     | Some sig_index \<Rightarrow>
                         (case satellite_row [0..<unat (Nsys d)] nsys_index prn 0 d of None \<Rightarrow> Some 0
                          | Some sat_index \<Rightarrow>
                              do { row \<leftarrow> vget m sat_index; x \<leftarrow> vget row sig_index; Some (to_f (sint x) * scale) }) } })"

definition get_code_bias_m_of :: "(int \<Rightarrow> 'f::{zero,times}) \<Rightarrow> 'f \<Rightarrow> string \<Rightarrow> nat \<Rightarrow> has_data \<Rightarrow> 'f option" where
  "get_code_bias_m_of to_f scale signal prn d = bias_of to_f scale (code_bias d) signal prn d"

definition get_phase_bias_cycle_of :: "(int \<Rightarrow> 'f::{zero,times}) \<Rightarrow> 'f \<Rightarrow> string \<Rightarrow> nat \<Rightarrow> has_data \<Rightarrow> 'f option" where
  "get_phase_bias_cycle_of to_f scale signal prn d = bias_of to_f scale (phase_bias d) signal prn d"

end
