(* ===== verification/Has_Body.thy ===== *)
theory Has_Body
  imports Has_Data Reed_Solomon
begin

text \<open>
  The receiver of the High Accuracy Service, \<open>core/libs/galileo_e6_has_msg_receiver.cc\<close>: its
  state, and \<open>read_MT1_header\<close> and \<open>read_MT1_body\<close>, which read the contents of a decoded message.

  The body is read by cutting fields off the front of a string. Every cut builds a string from
  \<open>begin() + n\<close> to \<open>end()\<close>; when fewer than \<open>n\<close> characters are left the library throws
  \<open>std::length_error\<close>, which \<open>decode_message_type1\<close> catches: the changes made so far remain.
  Hence three outcomes of a step: it continues, it throws in some state, or it leaves the defined
  behaviour. Masks are stored at the mask identifier (five bits, below 32) and the number of the
  system (four bits, below 16), always inside the arrays the constructor makes.
\<close>

section \<open>State\<close>

record has_receiver =
  d_rs :: reed_solomon
  d_HAS_data :: has_data
  d_received_timestamps :: "u64 list list"
  d_C_matrix :: "u8 list list list"
  d_M_matrix :: "u8 list list"
  d_received_pids :: "u8 list list"
  d_printed_timestamps :: "u64 list"
  d_printed_mids :: "bool list"
  d_nsat_in_mask_id :: "nat list"
  d_gnss_id_in_mask :: "u8 list list"
  d_satellite_mask :: "u64 list list"
  d_signal_mask :: "u16 list list"
  d_cell_mask_availability_flag :: "bool list list"
  d_cell_mask :: "bool list list list list"
  d_nsys_in_mask :: "u8 list"
  d_nav_message_mask :: "u8 list list"
  d_iod_ref_map :: "u8 \<times> u8 \<rightharpoonup> u16 list"
  d_current_has_status :: u8
  d_current_message_id :: u8
  d_new_message :: bool
  d_enable_navdata_monitor :: bool
  E6_HAS_to_PVT :: "has_data list"
  Nav_msg_from_TLM :: "string list"

text \<open>The constructor, with the Reed-Solomon decoder as the argument.\<close>

definition make_has_receiver :: "reed_solomon \<Rightarrow> has_receiver" where
  "make_has_receiver rs = \<lparr> d_rs = rs, d_HAS_data = has_data_blank,
     d_received_timestamps = replicate 32 [],
     d_C_matrix = replicate 32 (replicate 255 (replicate 53 0)),
     d_M_matrix = replicate 32 (replicate 53 0),
     d_received_pids = replicate 32 [], d_printed_timestamps = replicate 32 (- 1),
     d_printed_mids = replicate 32 False, d_nsat_in_mask_id = replicate 32 0,
     d_gnss_id_in_mask = replicate 32 (replicate 16 0), d_satellite_mask = replicate 32 (replicate 16 0),
     d_signal_mask = replicate 32 (replicate 16 0),
     d_cell_mask_availability_flag = replicate 32 (replicate 16 False),
     d_cell_mask = replicate 32 (replicate 16 (replicate 40 (replicate 16 False))),
     d_nsys_in_mask = replicate 32 0, d_nav_message_mask = replicate 32 (replicate 16 0),
     d_iod_ref_map = Map.empty, d_current_has_status = 0, d_current_message_id = 0,
     d_new_message = False, d_enable_navdata_monitor = False, E6_HAS_to_PVT = [], Nav_msg_from_TLM = [] \<rparr>"

section \<open>Header\<close>

definition GALILEO_MT1_HEADER_TOH :: "nat \<times> nat" where "GALILEO_MT1_HEADER_TOH = (1, 12)"
definition GALILEO_MT1_HEADER_MASK_FLAG :: "nat \<times> nat" where "GALILEO_MT1_HEADER_MASK_FLAG = (13, 1)"
definition GALILEO_MT1_HEADER_ORBIT_CORRECTION_FLAG :: "nat \<times> nat" where
  "GALILEO_MT1_HEADER_ORBIT_CORRECTION_FLAG = (14, 1)"
definition GALILEO_MT1_HEADER_CLOCK_FULLSET_FLAG :: "nat \<times> nat" where
  "GALILEO_MT1_HEADER_CLOCK_FULLSET_FLAG = (15, 1)"
definition GALILEO_MT1_HEADER_CLOCK_SUBSET_FLAG :: "nat \<times> nat" where
  "GALILEO_MT1_HEADER_CLOCK_SUBSET_FLAG = (16, 1)"
definition GALILEO_MT1_HEADER_CODE_BIAS_FLAG :: "nat \<times> nat" where
  "GALILEO_MT1_HEADER_CODE_BIAS_FLAG = (17, 1)"
definition GALILEO_MT1_HEADER_PHASE_BIAS_FLAG :: "nat \<times> nat" where
  "GALILEO_MT1_HEADER_PHASE_BIAS_FLAG = (18, 1)"
definition GALILEO_MT1_HEADER_RESERVED :: "nat \<times> nat" where "GALILEO_MT1_HEADER_RESERVED = (19, 4)"
definition GALILEO_MT1_HEADER_MASK_ID :: "nat \<times> nat" where "GALILEO_MT1_HEADER_MASK_ID = (23, 5)"
definition GALILEO_MT1_HEADER_IOD_SET_ID :: "nat \<times> nat" where "GALILEO_MT1_HEADER_IOD_SET_ID = (28, 5)"

lemmas mt1_header_places = GALILEO_MT1_HEADER_TOH_def GALILEO_MT1_HEADER_MASK_FLAG_def
  GALILEO_MT1_HEADER_ORBIT_CORRECTION_FLAG_def GALILEO_MT1_HEADER_CLOCK_FULLSET_FLAG_def
  GALILEO_MT1_HEADER_CLOCK_SUBSET_FLAG_def GALILEO_MT1_HEADER_CODE_BIAS_FLAG_def
  GALILEO_MT1_HEADER_PHASE_BIAS_FLAG_def GALILEO_MT1_HEADER_RESERVED_def
  GALILEO_MT1_HEADER_MASK_ID_def GALILEO_MT1_HEADER_IOD_SET_ID_def

definition read_has_message_header_parameter_uint16 :: "bool list \<Rightarrow> nat \<times> nat \<Rightarrow> u16" where
  "read_has_message_header_parameter_uint16 bits parameter = read_parameter 32 bits parameter"

definition read_has_message_header_parameter_uint8 :: "bool list \<Rightarrow> nat \<times> nat \<Rightarrow> u8" where
  "read_has_message_header_parameter_uint8 bits parameter = read_parameter 32 bits parameter"

definition read_has_message_header_parameter_bool :: "bool list \<Rightarrow> nat \<times> nat \<Rightarrow> bool" where
  "read_has_message_header_parameter_bool bits parameter = bits ! (32 - fst parameter)"

definition read_MT1_header :: "string \<Rightarrow> has_data \<Rightarrow> has_data option" where
  "read_MT1_header message_header d =
    do { bits \<leftarrow> bitset 32 message_header;
         let flag = read_has_message_header_parameter_bool bits;
         Some (d\<lparr> mt1_header := \<lparr>
           toh = read_has_message_header_parameter_uint16 bits GALILEO_MT1_HEADER_TOH,
           mask_id = read_has_message_header_parameter_uint8 bits GALILEO_MT1_HEADER_MASK_ID,
           iod_set_id = read_has_message_header_parameter_uint8 bits GALILEO_MT1_HEADER_IOD_SET_ID,
           header_reserved = read_has_message_header_parameter_uint8 bits GALILEO_MT1_HEADER_RESERVED,
           mask_flag = flag GALILEO_MT1_HEADER_MASK_FLAG,
           orbit_correction_flag = flag GALILEO_MT1_HEADER_ORBIT_CORRECTION_FLAG,
           clock_fullset_flag = flag GALILEO_MT1_HEADER_CLOCK_FULLSET_FLAG,
           clock_subset_flag = flag GALILEO_MT1_HEADER_CLOCK_SUBSET_FLAG,
           code_bias_flag = flag GALILEO_MT1_HEADER_CODE_BIAS_FLAG,
           phase_bias_flag = flag GALILEO_MT1_HEADER_PHASE_BIAS_FLAG \<rparr> \<rparr>) }"

section \<open>Fields\<close>

definition read_has_message_body_uint8 :: "string \<Rightarrow> u8" where
  "read_has_message_body_uint8 bits = read_bits bits"

definition read_has_message_body_uint16 :: "string \<Rightarrow> u16" where
  "read_has_message_body_uint16 bits = read_bits bits"

definition read_has_message_body_uint64 :: "string \<Rightarrow> u64" where
  "read_has_message_body_uint64 bits = read_bits bits"

definition read_has_message_body_int16 :: "string \<Rightarrow> 16 word" where
  "read_has_message_body_int16 bits =
    (if bits = [] \<or> length bits > 16 then 0
     else if \<not> binary bits then 0
     else
       (let v = foldl (\<lambda>v c. push_bit 1 v OR (if c = CHR ''1'' then 1 else 0)) 0 bits
        in if hd bits = CHR ''1'' then v OR ucast (push_bit (length bits) 0xFFFF :: u32) else v))"

section \<open>Steps\<close>

datatype 's outcome = Continues 's | Throws 's | Undefined

text \<open>The first argument one after the other, up to the first that does not continue.\<close>

fun run_steps :: "('s \<Rightarrow> 's outcome) list \<Rightarrow> 's \<Rightarrow> 's outcome" where
  "run_steps [] s = Continues s"
| "run_steps (f # fs) s =
    (case f s of Continues s' \<Rightarrow> run_steps fs s' | Throws s' \<Rightarrow> Throws s' | Undefined \<Rightarrow> Undefined)"

text \<open>The rest of the message, the receiver and the local variables of \<open>read_MT1_body\<close>.\<close>

record body_reader =
  body_message :: string
  body_receiver :: has_receiver
  Nsat :: nat
  have_mask :: bool
  ones_in_satellite_mask :: nat
  ones_in_signal_mask :: nat

abbreviation on_receiver :: "(has_receiver \<Rightarrow> has_receiver) \<Rightarrow> body_reader \<Rightarrow> body_reader" where
  "on_receiver f st \<equiv> st\<lparr> body_receiver := f (body_receiver st) \<rparr>"

abbreviation on_data :: "(has_data \<Rightarrow> has_data) \<Rightarrow> body_reader \<Rightarrow> body_reader" where
  "on_data f st \<equiv> on_receiver (\<lambda>rx. rx\<lparr> d_HAS_data := f (d_HAS_data rx) \<rparr>) st"

abbreviation data_of :: "body_reader \<Rightarrow> has_data" where
  "data_of st \<equiv> d_HAS_data (body_receiver st)"

abbreviation header_of :: "body_reader \<Rightarrow> mt1_header" where
  "header_of st \<equiv> mt1_header (data_of st)"

abbreviation mid_of :: "body_reader \<Rightarrow> nat" where
  "mid_of st \<equiv> unat (mask_id (header_of st))"

definition store_at :: "nat \<Rightarrow> nat \<Rightarrow> 'a \<Rightarrow> 'a list list \<Rightarrow> 'a list list" where
  "store_at m i v xs = xs[m := (xs ! m)[i := v]]"

text \<open>Read a field of \<open>n\<close> characters, assign it, cut it off.\<close>

definition take_field :: "nat \<Rightarrow> (string \<Rightarrow> body_reader \<Rightarrow> body_reader) \<Rightarrow> body_reader \<Rightarrow> body_reader outcome" where
  "take_field n assign st =
    (let msg = body_message st; st = assign (take n msg) st
     in if n \<le> length msg then Continues (st\<lparr> body_message := drop n msg \<rparr>) else Throws st)"

section \<open>Mask\<close>

definition read_cell_mask :: "nat \<Rightarrow> body_reader \<Rightarrow> body_reader outcome" where
  "read_cell_mask i st =
    (let nsat = ones_in_satellite_mask st; nsig = ones_in_signal_mask st; size_cell = nsat * nsig
     in if \<not> cell_mask_availability_flag (data_of st) ! i then Continues st
        else if size_cell > length (body_message st) + 1 then Undefined
        else take_field size_cell (\<lambda>f. on_data (\<lambda>d. d\<lparr> cell_mask := (cell_mask d)[i :=
               map (\<lambda>s. map (\<lambda>sig. s * nsig + sig < length f \<and> f ! (s * nsig + sig) = CHR ''1'') [0..<nsig])
                 [0..<nsat]] \<rparr>)) st)"

definition read_mask_system :: "nat \<Rightarrow> body_reader \<Rightarrow> body_reader outcome" where
  "read_mask_system i = run_steps [
     take_field 4 (\<lambda>f st. let v = read_has_message_body_uint8 f in on_receiver (\<lambda>rx. rx\<lparr>
       d_HAS_data := (d_HAS_data rx)\<lparr> gnss_id_mask := (gnss_id_mask (d_HAS_data rx))[i := v] \<rparr>,
       d_gnss_id_in_mask := store_at (mid_of st) i v (d_gnss_id_in_mask rx) \<rparr>) st),
     take_field 40 (\<lambda>f st. let v = read_has_message_body_uint64 f; n = length (filter is_one f) in
       (on_receiver (\<lambda>rx. rx\<lparr>
         d_HAS_data := (d_HAS_data rx)\<lparr> satellite_mask := (satellite_mask (d_HAS_data rx))[i := v] \<rparr>,
         d_satellite_mask := store_at (mid_of st) i v (d_satellite_mask rx) \<rparr>) st)
       \<lparr> ones_in_satellite_mask := n, Nsat := Nsat st + n \<rparr>),
     take_field 16 (\<lambda>f st. let v = read_has_message_body_uint16 f in
       (on_receiver (\<lambda>rx. rx\<lparr>
         d_HAS_data := (d_HAS_data rx)\<lparr> signal_mask := (signal_mask (d_HAS_data rx))[i := v] \<rparr>,
         d_signal_mask := store_at (mid_of st) i v (d_signal_mask rx) \<rparr>) st)
       \<lparr> ones_in_signal_mask := length (filter is_one f) \<rparr>),
     (\<lambda>st. Continues (on_data (\<lambda>d. d\<lparr> cell_mask := (cell_mask d)[i :=
       replicate (ones_in_satellite_mask st) (replicate (ones_in_signal_mask st) False)] \<rparr>) st)),
     take_field 1 (\<lambda>f st. let v = (f = ''1'') in on_receiver (\<lambda>rx. rx\<lparr>
       d_HAS_data := (d_HAS_data rx)\<lparr> cell_mask_availability_flag := (cell_mask_availability_flag (d_HAS_data rx))[i := v] \<rparr>,
       d_cell_mask_availability_flag := store_at (mid_of st) i v (d_cell_mask_availability_flag rx) \<rparr>) st),
     read_cell_mask i,
     take_field 3 (\<lambda>f st. let v = read_has_message_body_uint8 f in on_receiver (\<lambda>rx. rx\<lparr>
       d_HAS_data := (d_HAS_data rx)\<lparr> nav_message := (nav_message (d_HAS_data rx))[i := v] \<rparr>,
       d_nav_message_mask := store_at (mid_of st) i v (d_nav_message_mask rx) \<rparr>) st)]"

text \<open>The vectors of a new mask, and its totals in the store.\<close>

definition allocate_mask :: "nat \<Rightarrow> body_reader \<Rightarrow> body_reader outcome" where
  "allocate_mask n st = Continues (on_data (\<lambda>d. d\<lparr> gnss_id_mask := replicate n 0,
     cell_mask := replicate n (replicate 40 (replicate 16 False)),
     cell_mask_availability_flag := replicate n False, nav_message := replicate n 0,
     satellite_mask := replicate n 0, signal_mask := replicate n 0 \<rparr>) st)"

definition store_mask_totals :: "body_reader \<Rightarrow> body_reader outcome" where
  "store_mask_totals st = Continues (on_receiver (\<lambda>rx. rx\<lparr>
     d_nsat_in_mask_id := (d_nsat_in_mask_id rx)[mid_of st := Nsat st],
     d_cell_mask := (d_cell_mask rx)[mid_of st := cell_mask (d_HAS_data rx)] \<rparr>) st)"

definition set_have_mask :: "body_reader \<Rightarrow> body_reader outcome" where
  "set_have_mask st = Continues (st\<lparr> have_mask := Nsat st \<noteq> 0 \<rparr>)"

definition read_mask :: "body_reader \<Rightarrow> body_reader outcome" where
  "read_mask st =
    (let n = read_has_message_body_uint8 (take 4 (body_message st));
         st = on_receiver (\<lambda>rx. rx\<lparr> d_HAS_data := (d_HAS_data rx)\<lparr> Nsys := n \<rparr>,
           d_nsys_in_mask := (d_nsys_in_mask rx)[mid_of st := n] \<rparr>) st
     in run_steps ((if n = 0 then [] else
          [take_field 4 (\<lambda>f st. st), allocate_mask (unat n), run_steps (map read_mask_system [0..<unat n]),
           store_mask_totals, take_field 6 (\<lambda>f st. st)])
        @ [set_have_mask]) st)"

text \<open>Without the flag the mask is taken from an earlier message with the same mask identifier.\<close>

definition use_stored_mask :: "body_reader \<Rightarrow> body_reader" where
  "use_stored_mask st =
    (let m = mid_of st; rx = body_receiver st; nsat = d_nsat_in_mask_id rx ! m; n = d_nsys_in_mask rx ! m
     in if nsat = 0 then st\<lparr> Nsat := 0 \<rparr>
        else (on_data (\<lambda>d. d\<lparr> Nsys := n,
            gnss_id_mask := gnss_id_mask d @ take (unat n) (d_gnss_id_in_mask rx ! m),
            satellite_mask := satellite_mask d @ take (unat n) (d_satellite_mask rx ! m),
            signal_mask := signal_mask d @ take (unat n) (d_signal_mask rx ! m),
            cell_mask_availability_flag := cell_mask_availability_flag d
              @ take (unat n) (d_cell_mask_availability_flag rx ! m),
            cell_mask := d_cell_mask rx ! m,
            nav_message := nav_message d @ take (unat n) (d_nav_message_mask rx ! m) \<rparr>) st)
          \<lparr> Nsat := nsat, have_mask := True \<rparr>)"

definition read_or_use_mask :: "body_reader \<Rightarrow> body_reader outcome" where
  "read_or_use_mask st = (if mask_flag (header_of st) then read_mask st else Continues (use_stored_mask st))"

definition discard_crazy :: "body_reader \<Rightarrow> body_reader outcome" where
  "discard_crazy st = Continues
    (if toh (header_of st) > 3599
     then (on_receiver (\<lambda>rx. rx\<lparr> d_nsat_in_mask_id := (d_nsat_in_mask_id rx)[mid_of st := 0] \<rparr>) st)\<lparr> have_mask := False \<rparr>
     else st)"

section \<open>Orbit and clock corrections\<close>

definition read_iod :: "u8 \<Rightarrow> nat \<Rightarrow> body_reader \<Rightarrow> body_reader outcome" where
  "read_iod g i =
    (if g = 0 then take_field 8 (\<lambda>f. on_data (\<lambda>d. d\<lparr> gnss_iod := (gnss_iod d)[i := read_has_message_body_uint16 f] \<rparr>))
     else if g = 2 then take_field 10 (\<lambda>f. on_data (\<lambda>d. d\<lparr> gnss_iod := (gnss_iod d)[i := read_has_message_body_uint16 f] \<rparr>))
     else (\<lambda>st. Continues (st\<lparr> have_mask := False \<rparr>)))"

definition read_deltas :: "nat \<Rightarrow> body_reader \<Rightarrow> body_reader outcome" where
  "read_deltas i st =
    (if \<not> have_mask st then Continues st
     else run_steps [
       take_field 13 (\<lambda>f. on_data (\<lambda>d. d\<lparr> delta_radial := (delta_radial d)[i := read_has_message_body_int16 f] \<rparr>)),
       take_field 12 (\<lambda>f. on_data (\<lambda>d. d\<lparr> delta_in_track := (delta_in_track d)[i := read_has_message_body_int16 f] \<rparr>)),
       take_field 12 (\<lambda>f. on_data (\<lambda>d. d\<lparr> delta_cross_track := (delta_cross_track d)[i := read_has_message_body_int16 f] \<rparr>))] st)"

definition read_orbit_satellite :: "nat \<Rightarrow> body_reader \<Rightarrow> body_reader outcome" where
  "read_orbit_satellite i st =
    (case get_gnss_id i (data_of st) of None \<Rightarrow> Undefined | Some g \<Rightarrow> run_steps [read_iod g i, read_deltas i] st)"

definition allocate_orbits :: "body_reader \<Rightarrow> body_reader outcome" where
  "allocate_orbits st = Continues (on_data (\<lambda>d. d\<lparr> gnss_iod := replicate (Nsat st) 0,
     delta_radial := replicate (Nsat st) 0, delta_in_track := replicate (Nsat st) 0,
     delta_cross_track := replicate (Nsat st) 0 \<rparr>) st)"

definition remember_iods :: "body_reader \<Rightarrow> body_reader outcome" where
  "remember_iods st = Continues (on_receiver (\<lambda>rx. rx\<lparr> d_iod_ref_map := (d_iod_ref_map rx)
     ((iod_set_id (header_of st), mask_id (header_of st)) \<mapsto> gnss_iod (data_of st)) \<rparr>) st)"

definition read_orbit_corrections :: "body_reader \<Rightarrow> body_reader outcome" where
  "read_orbit_corrections st =
    (if \<not> (orbit_correction_flag (header_of st) \<and> have_mask st) then Continues st
     else run_steps [
       take_field 4 (\<lambda>f. on_data (\<lambda>d. d\<lparr> validity_interval_index_orbit_corrections := read_has_message_body_uint8 f \<rparr>)),
       allocate_orbits, run_steps (map read_orbit_satellite [0..<Nsat st]), remember_iods] st)"

definition read_clock_multiplier :: "nat \<Rightarrow> body_reader \<Rightarrow> body_reader outcome" where
  "read_clock_multiplier i = take_field 2 (\<lambda>f. on_data (\<lambda>d. d\<lparr> delta_clock_multiplier :=
     (delta_clock_multiplier d)[i := read_has_message_body_uint8 f + 1] \<rparr>))"

definition read_clock_correction :: "nat \<Rightarrow> body_reader \<Rightarrow> body_reader outcome" where
  "read_clock_correction i = take_field 13 (\<lambda>f. on_data (\<lambda>d. d\<lparr> delta_clock_correction :=
     (delta_clock_correction d)[i := read_has_message_body_int16 f] \<rparr>))"

definition allocate_clock_multipliers :: "body_reader \<Rightarrow> body_reader outcome" where
  "allocate_clock_multipliers st = Continues (on_data (\<lambda>d. d\<lparr> delta_clock_multiplier := replicate (unat (Nsys d)) 0 \<rparr>) st)"

definition allocate_clock_corrections :: "body_reader \<Rightarrow> body_reader outcome" where
  "allocate_clock_corrections st = Continues (on_data (\<lambda>d. d\<lparr> delta_clock_correction := replicate (Nsat st) 0 \<rparr>) st)"

definition recall_iods :: "body_reader \<Rightarrow> body_reader outcome" where
  "recall_iods st = Continues (case d_iod_ref_map (body_receiver st) (iod_set_id (header_of st), mask_id (header_of st)) of
     None \<Rightarrow> st | Some iods \<Rightarrow> on_data (\<lambda>d. d\<lparr> gnss_iod := iods \<rparr>) st)"

definition read_clock_fullset :: "body_reader \<Rightarrow> body_reader outcome" where
  "read_clock_fullset st =
    (if \<not> (clock_fullset_flag (header_of st) \<and> have_mask st) then Continues st
     else run_steps [
       take_field 4 (\<lambda>f. on_data (\<lambda>d. d\<lparr> validity_interval_index_clock_fullset_corrections := read_has_message_body_uint8 f \<rparr>)),
       allocate_clock_multipliers, run_steps (map read_clock_multiplier [0..<unat (Nsys (data_of st))]),
       allocate_clock_corrections, run_steps (map read_clock_correction [0..<Nsat st]), recall_iods] st)"

text \<open>The satellites of the submask are counted over one bit less than there are, and the
  corrections are assigned to elements of a vector for which memory is reserved but which has no
  elements.\<close>

definition read_subset_correction :: "nat \<Rightarrow> nat \<Rightarrow> body_reader \<Rightarrow> body_reader outcome" where
  "read_subset_correction i j = take_field 13 (\<lambda>f. on_data (\<lambda>d. d\<lparr> delta_clock_correction_clock_subset :=
     store_at i j (read_has_message_body_int16 f) (delta_clock_correction_clock_subset d) \<rparr>))"

definition read_subset_corrections :: "nat \<Rightarrow> nat \<Rightarrow> body_reader \<Rightarrow> body_reader outcome" where
  "read_subset_corrections i number_sats st =
    (let Nsat_sub = length (filter (bit (satellite_submask (data_of st) ! i)) [0..<number_sats - 1])
     in if Nsat_sub > length (delta_clock_correction_clock_subset (data_of st) ! i) then Undefined
        else run_steps (map (read_subset_correction i) [0..<Nsat_sub]) st)"

definition read_submask :: "nat \<Rightarrow> body_reader \<Rightarrow> body_reader outcome" where
  "read_submask i st =
    (case find_index (gnss_id_clock_subset (data_of st) ! i) (gnss_id_mask (data_of st)) of
       None \<Rightarrow> Undefined
     | Some index \<Rightarrow>
         (let number_sats = length (filter (bit (satellite_mask (data_of st) ! index)) [0..<40])
          in run_steps [
            take_field number_sats (\<lambda>f. on_data (\<lambda>d. d\<lparr> satellite_submask :=
              (satellite_submask d)[i := read_has_message_body_uint64 f] \<rparr>)),
            read_subset_corrections i number_sats] st))"

definition read_subset_system :: "nat \<Rightarrow> body_reader \<Rightarrow> body_reader outcome" where
  "read_subset_system i = run_steps [
     take_field 4 (\<lambda>f. on_data (\<lambda>d. d\<lparr> gnss_id_clock_subset := (gnss_id_clock_subset d)[i := read_has_message_body_uint8 f] \<rparr>)),
     take_field 2 (\<lambda>f. on_data (\<lambda>d. d\<lparr> delta_clock_multiplier_clock_subset :=
       (delta_clock_multiplier_clock_subset d)[i := read_has_message_body_uint8 f + 1] \<rparr>)),
     read_submask i]"

definition allocate_subset :: "body_reader \<Rightarrow> body_reader outcome" where
  "allocate_subset st =
    (let n = unat (Nsys_sub (data_of st));
         st = (if n = 0 then (on_receiver (\<lambda>rx. rx\<lparr> d_nsat_in_mask_id :=
             (d_nsat_in_mask_id rx)[mid_of st := 0] \<rparr>) st)\<lparr> have_mask := False \<rparr> else st)
     in Continues (on_data (\<lambda>d. d\<lparr> gnss_id_clock_subset := replicate n 0,
          delta_clock_multiplier_clock_subset := replicate n 0, satellite_submask := replicate n 0,
          delta_clock_correction_clock_subset := replicate n [] \<rparr>) st))"

definition read_subset_systems :: "body_reader \<Rightarrow> body_reader outcome" where
  "read_subset_systems st = run_steps (map read_subset_system [0..<unat (Nsys_sub (data_of st))]) st"

definition read_clock_subset :: "body_reader \<Rightarrow> body_reader outcome" where
  "read_clock_subset st =
    (if \<not> (clock_subset_flag (header_of st) \<and> have_mask st) then Continues st
     else run_steps [
       take_field 4 (\<lambda>f. on_data (\<lambda>d. d\<lparr> validity_interval_index_clock_subset_corrections := read_has_message_body_uint8 f \<rparr>)),
       take_field 4 (\<lambda>f. on_data (\<lambda>d. d\<lparr> Nsys_sub := read_has_message_body_uint8 f \<rparr>)),
       allocate_subset, read_subset_systems] st)"

section \<open>Biases\<close>

text \<open>The numbers of satellites and signals of a system: the sizes of its cell mask when it has one,
  else the bits of its masks.\<close>

definition system_cells :: "has_data \<Rightarrow> nat \<Rightarrow> (nat \<times> nat) option" where
  "system_cells d sys =
    do { flag \<leftarrow> vget (cell_mask_availability_flag d) sys;
         if flag then
           do { cells \<leftarrow> vget (cell_mask d) sys; row \<leftarrow> vget cells 0; Some (length cells, length row) }
         else
           do { sats \<leftarrow> vget (satellite_mask d) sys; sigs \<leftarrow> vget (signal_mask d) sys;
                Some (count_ones sats, count_ones sigs) } }"

text \<open>The cells in the order of the message, as row, column and whether the message has a value.\<close>

definition cell_rows :: "has_data \<Rightarrow> nat \<Rightarrow> nat \<times> nat \<Rightarrow> (nat \<times> bool) list list" where
  "cell_rows d sys numbers =
    map (\<lambda>s. map (\<lambda>c. (c, \<not> cell_mask_availability_flag d ! sys \<or> cell_mask d ! sys ! s ! c)) [0..<snd numbers])
      [0..<fst numbers]"

definition cell_list :: "has_data \<Rightarrow> (nat \<times> nat) list \<Rightarrow> (nat \<times> nat) list" where
  "cell_list d numbers =
    concat (map (\<lambda>(sat, row). map (\<lambda>(c, _). (sat, c)) (filter snd row))
      (enumerate 0 (concat (map (\<lambda>(sys, ns). cell_rows d sys ns) (enumerate 0 numbers)))))"

definition all_system_cells :: "has_data \<Rightarrow> (nat \<times> nat) list option" where
  "all_system_cells d = mapM (system_cells d) [0..<unat (Nsys d)]"

definition zero_matrix :: "nat \<Rightarrow> (nat \<times> nat) list \<Rightarrow> 'a::zero list list" where
  "zero_matrix nsat numbers = replicate nsat (replicate (foldr max (map snd numbers) 0) 0)"

definition read_code_bias_cell :: "nat \<times> nat \<Rightarrow> body_reader \<Rightarrow> body_reader outcome" where
  "read_code_bias_cell cell st =
    (let (sat, c) = cell
     in if sat \<ge> Nsat st then Undefined
        else take_field 11 (\<lambda>f. on_data (\<lambda>d. d\<lparr> code_bias :=
          store_at sat c (read_has_message_body_int16 f) (code_bias d) \<rparr>)) st)"

definition read_code_bias_cells :: "body_reader \<Rightarrow> body_reader outcome" where
  "read_code_bias_cells st =
    (case all_system_cells (data_of st) of None \<Rightarrow> Undefined
     | Some numbers \<Rightarrow> run_steps (map read_code_bias_cell (cell_list (data_of st) numbers))
         (on_data (\<lambda>d. d\<lparr> code_bias := zero_matrix (Nsat st) numbers \<rparr>) st))"

definition read_code_bias :: "body_reader \<Rightarrow> body_reader outcome" where
  "read_code_bias st =
    (if \<not> (code_bias_flag (header_of st) \<and> have_mask st) then Continues st
     else run_steps [
       take_field 4 (\<lambda>f. on_data (\<lambda>d. d\<lparr> validity_interval_index_code_bias_corrections := read_has_message_body_uint8 f \<rparr>)),
       read_code_bias_cells] st)"

definition read_phase_bias_cell :: "nat \<times> nat \<Rightarrow> body_reader \<Rightarrow> body_reader outcome" where
  "read_phase_bias_cell cell st =
    (let (sat, p) = cell
     in if sat \<ge> Nsat st then Undefined
        else run_steps [
          take_field 11 (\<lambda>f. on_data (\<lambda>d. d\<lparr> phase_bias :=
            store_at sat p (read_has_message_body_int16 f) (phase_bias d) \<rparr>)),
          take_field 2 (\<lambda>f. on_data (\<lambda>d. d\<lparr> phase_discontinuity_indicator :=
            store_at sat p (read_has_message_body_uint8 f) (phase_discontinuity_indicator d) \<rparr>))] st)"

definition read_phase_bias_cells :: "body_reader \<Rightarrow> body_reader outcome" where
  "read_phase_bias_cells st =
    (case all_system_cells (data_of st) of None \<Rightarrow> Undefined
     | Some numbers \<Rightarrow> run_steps (map read_phase_bias_cell (cell_list (data_of st) numbers))
         (on_data (\<lambda>d. d\<lparr> phase_bias := zero_matrix (Nsat st) numbers,
            phase_discontinuity_indicator := zero_matrix (Nsat st) numbers \<rparr>) st))"

definition read_phase_bias :: "body_reader \<Rightarrow> body_reader outcome" where
  "read_phase_bias st =
    (if \<not> (phase_bias_flag (header_of st) \<and> have_mask st) then Continues st
     else run_steps [
       take_field 4 (\<lambda>f. on_data (\<lambda>d. d\<lparr> validity_interval_index_phase_bias_corrections := read_has_message_body_uint8 f \<rparr>)),
       read_phase_bias_cells] st)"

section \<open>Body\<close>

definition read_MT1_body :: "string \<Rightarrow> has_receiver \<Rightarrow> body_reader outcome" where
  "read_MT1_body message_body rx = run_steps
     [read_or_use_mask, discard_crazy, read_orbit_corrections, read_clock_fullset, read_clock_subset,
      read_code_bias, read_phase_bias]
     \<lparr> body_message = message_body, body_receiver = rx, Nsat = 0, have_mask = False,
       ones_in_satellite_mask = 0, ones_in_signal_mask = 0 \<rparr>"

end
