(* ===== verification/Cnav_Message.thy ===== *)
theory Cnav_Message
  imports Bit_Strings
begin

text \<open>
  The pages of the Galileo C/NAV message: \<open>Galileo_HAS_page\<close>, the class
  \<open>Galileo_Cnav_Message\<close> (\<open>galileo_cnav_message.cc\<close>) and the end of
  \<open>decode_CNAV_word\<close> in \<open>galileo_telemetry_decoder_gs.cc\<close>, which hands the pages to the
  receiver of the High Accuracy Service.

  The CRC-24 of \<open>boost::crc_optimal\<close> is the parameter \<open>crc\<close>, a function of the 58 bytes the code
  passes it. \<^const>\<open>None\<close> is an exception that leaves the function.
\<close>

section \<open>Data\<close>

record has_page =
  has_message_string :: string
  time_stamp :: u64
  page_tow :: u32
  page_has_status :: u8
  page_reserved :: u8
  message_type :: u8
  page_message_id :: u8
  message_size :: u8
  message_page_id :: u8

definition has_page_blank :: has_page where
  "has_page_blank = \<lparr> has_message_string = [], time_stamp = 0, page_tow = 0, page_has_status = 0,
     page_reserved = 0, message_type = 0, page_message_id = 0, message_size = 0, message_page_id = 0 \<rparr>"

record cnav_message =
  cnav_page :: has_page
  d_has_page_status :: u8
  d_has_reserved :: u8
  d_received_message_page_id :: u8
  d_received_message_type :: u8
  d_received_message_id :: u8
  d_received_message_size :: u8
  d_test_mode :: bool
  d_flag_CRC_test :: bool
  d_page_dummy :: bool
  d_new_HAS_page :: bool

definition cnav_message_blank :: cnav_message where
  "cnav_message_blank = \<lparr> cnav_page = has_page_blank, d_has_page_status = 0, d_has_reserved = 0,
     d_received_message_page_id = 0, d_received_message_type = 0, d_received_message_id = 0,
     d_received_message_size = 0, d_test_mode = False, d_flag_CRC_test = False, d_page_dummy = False,
     d_new_HAS_page = False \<rparr>"

definition GALILEO_HAS_STATUS :: "nat \<times> nat" where "GALILEO_HAS_STATUS = (1, 2)"
definition GALILEO_HAS_RESERVED :: "nat \<times> nat" where "GALILEO_HAS_RESERVED = (3, 2)"
definition GALILEO_HAS_MESSAGE_TYPE :: "nat \<times> nat" where "GALILEO_HAS_MESSAGE_TYPE = (5, 2)"
definition GALILEO_HAS_MESSAGE_ID :: "nat \<times> nat" where "GALILEO_HAS_MESSAGE_ID = (7, 5)"
definition GALILEO_HAS_MESSAGE_SIZE :: "nat \<times> nat" where "GALILEO_HAS_MESSAGE_SIZE = (12, 5)"
definition GALILEO_HAS_MESSAGE_PAGE_ID :: "nat \<times> nat" where "GALILEO_HAS_MESSAGE_PAGE_ID = (17, 8)"

lemmas page_header_places = GALILEO_HAS_STATUS_def GALILEO_HAS_RESERVED_def
  GALILEO_HAS_MESSAGE_TYPE_def GALILEO_HAS_MESSAGE_ID_def GALILEO_HAS_MESSAGE_SIZE_def
  GALILEO_HAS_MESSAGE_PAGE_ID_def

section \<open>Checksum\<close>

text \<open>\<open>boost::dynamic_bitset<uint8_t>\<close> cuts the bits into bytes from the lowest; the bytes are
  then reversed, so that the first one is filled with zeros at its start.\<close>

definition frame_bytes :: "nat \<Rightarrow> bool list \<Rightarrow> u8 list" where
  "frame_bytes n bits =
    rev (map (\<lambda>k. horner_sum of_bool 2 (take 8 (drop (8 * k) bits))) [0..<n])"

definition CRC_test :: "(u8 list \<Rightarrow> u32) \<Rightarrow> bool list \<Rightarrow> nat \<Rightarrow> bool" where
  "CRC_test crc bits checksum \<longleftrightarrow> of_nat checksum = crc (frame_bytes 58 bits)"

section \<open>Pages\<close>

definition read_has_page_header_parameter :: "bool list \<Rightarrow> nat \<times> nat \<Rightarrow> u8" where
  "read_has_page_header_parameter bits parameter = read_parameter 24 bits parameter"

definition dummy_header :: string where
  "dummy_header = ''101011110011101111000011''"

definition read_HAS_page_header :: "string \<Rightarrow> cnav_message \<Rightarrow> cnav_message option" where
  "read_HAS_page_header page_string cnav =
    (if page_string = dummy_header then Some (cnav\<lparr> d_page_dummy := True \<rparr>)
     else
       do { header \<leftarrow> bitset 24 page_string;
            Some (cnav\<lparr> d_page_dummy := False,
              d_has_page_status := read_has_page_header_parameter header GALILEO_HAS_STATUS,
              d_has_reserved := read_has_page_header_parameter header GALILEO_HAS_RESERVED,
              d_received_message_type := read_has_page_header_parameter header GALILEO_HAS_MESSAGE_TYPE,
              d_received_message_id := read_has_page_header_parameter header GALILEO_HAS_MESSAGE_ID,
              d_received_message_size := read_has_page_header_parameter header GALILEO_HAS_MESSAGE_SIZE + 1,
              d_received_message_page_id := read_has_page_header_parameter header GALILEO_HAS_MESSAGE_PAGE_ID \<rparr>) })"

definition read_HAS_page :: "(u8 list \<Rightarrow> u32) \<Rightarrow> string \<Rightarrow> cnav_message \<Rightarrow> cnav_message option" where
  "read_HAS_page crc page_string cnav =
    do { has_page_bits \<leftarrow> substr page_string 0 462;
         CRC_data \<leftarrow> substr page_string 462 24;
         Word_for_CRC_bits \<leftarrow> bitset 462 has_page_bits;
         checksum \<leftarrow> bitset 24 CRC_data;
         let cnav = cnav\<lparr> d_new_HAS_page := False, cnav_page := has_page_blank\<lparr> page_tow := - 1 \<rparr>,
           d_flag_CRC_test := CRC_test crc Word_for_CRC_bits (bitset_to_ulong checksum) \<rparr>;
         if \<not> d_flag_CRC_test cnav then Some cnav
         else
           do { header \<leftarrow> substr page_string 14 24;
                cnav \<leftarrow> read_HAS_page_header header cnav;
                let status = d_has_page_status cnav;
                let test = (\<not> d_page_dummy cnav \<and> status = 0);
                let use_has = (\<not> d_page_dummy cnav \<and> (status = 0 \<or> status = 1));
                let cnav = cnav\<lparr> d_test_mode := test \<rparr>;
                if use_has \<or> d_page_dummy cnav then
                  do { message \<leftarrow> substr page_string 38 424;
                       let page = (cnav_page cnav)\<lparr> has_message_string := message \<rparr>;
                       let page = (if d_page_dummy cnav then page
                         else page\<lparr> page_has_status := d_has_page_status cnav, page_reserved := d_has_reserved cnav,
                           message_type := d_received_message_type cnav, page_message_id := d_received_message_id cnav,
                           message_size := d_received_message_size cnav,
                           message_page_id := d_received_message_page_id cnav \<rparr>);
                       Some (cnav\<lparr> cnav_page := page, d_new_HAS_page := True \<rparr>) }
                else Some cnav } }"

definition is_HAS_in_test_mode :: "cnav_message \<Rightarrow> bool" where
  "is_HAS_in_test_mode cnav = d_test_mode cnav"

definition is_HAS_page_dummy :: "cnav_message \<Rightarrow> bool" where
  "is_HAS_page_dummy cnav = d_page_dummy cnav"

definition have_new_HAS_page :: "cnav_message \<Rightarrow> bool" where
  "have_new_HAS_page cnav = d_new_HAS_page cnav"

definition get_HAS_encoded_page :: "cnav_message \<Rightarrow> has_page" where
  "get_HAS_encoded_page cnav = cnav_page cnav"

definition get_flag_CRC_test :: "cnav_message \<Rightarrow> bool" where
  "get_flag_CRC_test cnav = d_flag_CRC_test cnav"

definition set_time_stamp :: "u64 \<Rightarrow> cnav_message \<Rightarrow> cnav_message" where
  "set_time_stamp t cnav = cnav\<lparr> cnav_page := (cnav_page cnav)\<lparr> time_stamp := t \<rparr> \<rparr>"

definition set_tow :: "u32 \<Rightarrow> cnav_message \<Rightarrow> cnav_message" where
  "set_tow t cnav = cnav\<lparr> cnav_page := (cnav_page cnav)\<lparr> page_tow := t \<rparr> \<rparr>"

section \<open>Telemetry decoder\<close>

text \<open>The part of the telemetry decoder of a channel that C/NAV pages use, after de-interleaving
  and Viterbi decoding: from the bits of a page to the page sent to the port
  \<open>E6_HAS_from_TLM\<close>, the last element of \<open>E6_HAS_from_TLM\<close>.\<close>

record cnav_decoder =
  d_cnav_nav :: cnav_message
  d_E6_TOW_set :: bool
  d_TOW_at_Preamble_ms :: u32
  d_cnav_dummy_page :: bool
  d_print_cnav_page :: bool
  E6_HAS_from_TLM :: "has_page list"

definition page_string_of :: "int list \<Rightarrow> string" where
  "page_string_of page_bits = map (\<lambda>b. if b > 0 then CHR ''1'' else CHR ''0'') page_bits"

definition decode_CNAV_bits :: "(u8 list \<Rightarrow> u32) \<Rightarrow> u64 \<Rightarrow> int list \<Rightarrow> cnav_decoder \<Rightarrow> cnav_decoder option" where
  "decode_CNAV_bits crc ts page_bits dec =
    do { cnav \<leftarrow> read_HAS_page crc (page_string_of page_bits) (d_cnav_nav dec);
         let dec = dec\<lparr> d_cnav_nav := set_time_stamp ts cnav \<rparr>;
         if \<not> have_new_HAS_page (d_cnav_nav dec) then Some dec
         else if is_HAS_page_dummy (d_cnav_nav dec) then
           Some (dec\<lparr> d_print_cnav_page := True, d_cnav_dummy_page := True \<rparr>)
         else
           (let dec = (if d_E6_TOW_set dec
              then dec\<lparr> d_cnav_nav := set_tow (d_TOW_at_Preamble_ms dec div 1000) (d_cnav_nav dec) \<rparr> else dec)
            in Some (dec\<lparr> E6_HAS_from_TLM := E6_HAS_from_TLM dec @ [get_HAS_encoded_page (d_cnav_nav dec)],
                 d_print_cnav_page := False \<rparr>)) }"

end
