(* ===== verification/Has_Receiver.thy ===== *)
theory Has_Receiver
  imports Has_Body Cnav_Message
begin

text \<open>
  The rest of \<open>galileo_e6_has_msg_receiver.cc\<close>: collecting the pages of a message, decoding it
  column by column with the Reed-Solomon decoder, the time-outs, and the handler of the messages
  from the telemetry decoders. \<^const>\<open>None\<close> is an access outside a container or an exception that
  leaves the handler.
\<close>

section \<open>Time-outs\<close>

definition MAX_SECONDS_REMEMBERING_MID :: u64 where
  "MAX_SECONDS_REMEMBERING_MID = 150"

text \<open>The oldest time stamp among the first \<open>n\<close>, zeros left out.\<close>

definition oldest_time_stamp :: "nat \<Rightarrow> u64 list \<Rightarrow> u64 option" where
  "oldest_time_stamp n stamps = foldM (\<lambda>j oldest.
      map_option (\<lambda>t. if t > 0 \<and> t < oldest then t else oldest) (vget stamps j)) [0..<n] (- 1)"

definition delete_outdated_pages :: "u64 \<Rightarrow> nat \<Rightarrow> has_receiver \<Rightarrow> has_receiver option" where
  "delete_outdated_pages now i rx =
    do { stamps \<leftarrow> vget (d_received_timestamps rx) i;
         oldest \<leftarrow> oldest_time_stamp (length (d_received_pids rx ! i)) stamps;
         Some (if now > oldest \<and> now - oldest > MAX_SECONDS_REMEMBERING_MID
           then rx\<lparr> d_received_pids := (d_received_pids rx)[i := []],
             d_received_timestamps := (d_received_timestamps rx)[i := []],
             d_C_matrix := (d_C_matrix rx)[i := replicate 255 (replicate 53 0)] \<rparr>
           else rx) }"

definition forget_printed :: "u64 \<Rightarrow> nat \<Rightarrow> has_receiver \<Rightarrow> has_receiver" where
  "forget_printed now mid rx =
    (if d_printed_mids rx ! mid \<and> now > d_printed_timestamps rx ! mid
        \<and> now - d_printed_timestamps rx ! mid > MAX_SECONDS_REMEMBERING_MID
     then rx\<lparr> d_printed_timestamps := (d_printed_timestamps rx)[mid := - 1],
       d_printed_mids := (d_printed_mids rx)[mid := False] \<rparr>
     else rx)"

definition delete_outdated_data :: "has_page \<Rightarrow> has_receiver \<Rightarrow> has_receiver option" where
  "delete_outdated_data page rx =
    do { rx \<leftarrow> foldM (delete_outdated_pages (time_stamp page)) [0..<length (d_received_pids rx)] rx;
         Some (foldl (\<lambda>rx mid. forget_printed (time_stamp page) mid rx) rx [0..<32]) }"

section \<open>Decoding\<close>

definition erasure_positions :: "u8 list \<Rightarrow> u8 \<Rightarrow> nat list" where
  "erasure_positions pids ms =
    map (\<lambda>i. i - 1) (filter (\<lambda>i. of_nat i \<notin> set pids) [1..<unat ms + 1]
      @ filter (\<lambda>i. of_nat i \<notin> set pids) [33..<256])"

text \<open>A column of the received pages; the positions that were not received are zero.\<close>

definition received_column :: "u8 list \<Rightarrow> u8 list list \<Rightarrow> nat \<Rightarrow> u8 list option" where
  "received_column pids C col = foldM (\<lambda>pid column.
      if pid = 0 then None
      else do { row \<leftarrow> vget C (unat pid - 1); b \<leftarrow> vget row col; vput column (unat pid - 1) b })
    pids (replicate 255 0)"

text \<open>The loop over the columns: whether all of them were decoded, and the message matrix.\<close>

fun decode_columns :: "reed_solomon \<Rightarrow> u8 list \<Rightarrow> u8 list list \<Rightarrow> nat list \<Rightarrow> nat list \<Rightarrow> u8 list list
    \<Rightarrow> (bool \<times> u8 list list) option" where
  "decode_columns rs pids C erasures [] M = Some (True, M)"
| "decode_columns rs pids C erasures (col # cols) M =
    do { column \<leftarrow> received_column pids C col;
         (r, code) \<leftarrow> decode rs column (map int erasures);
         if r < 0 then Some (False, M)
         else decode_columns rs pids C erasures cols (map (\<lambda>i. (M ! i)[col := code ! i]) [0..<32]) }"

definition decoded_message :: "u8 \<Rightarrow> u8 list list \<Rightarrow> string option" where
  "decoded_message ms M = map_option concat (mapM (\<lambda>row.
      map_option (\<lambda>r. concat (map (\<lambda>col. bitset_to_string (bitset_of_word 8 (r ! col))) [0..<53])) (vget M row))
    [0..<unat ms])"

text \<open>The outcome of reading the body: 0 when it was read, \<open>-1\<close> when an exception was caught.\<close>

definition read_decoded_message :: "string \<Rightarrow> has_receiver \<Rightarrow> (int \<times> has_receiver) option" where
  "read_decoded_message text rx =
    do { header \<leftarrow> substr text 0 32;
         d \<leftarrow> read_MT1_header header (has_data_blank\<lparr> has_tow := - 1 \<rparr>);
         if length text < 32 then None
         else (case read_MT1_body (drop 32 text) (rx\<lparr> d_HAS_data := d \<rparr>) of
                 Continues st \<Rightarrow> Some (0, body_receiver st)
               | Throws st \<Rightarrow> Some (- 1, body_receiver st)
               | Undefined \<Rightarrow> None) }"

text \<open>With a message size of 255 the loop over an \<open>uint8_t\<close> counter would not end; the size field
  gives at most 32.\<close>

definition decode_message_type1 :: "u8 \<Rightarrow> u8 \<Rightarrow> has_receiver \<Rightarrow> (int \<times> has_receiver) option" where
  "decode_message_type1 mid ms rx =
    do { pids \<leftarrow> vget (d_received_pids rx) (unat mid);
         C \<leftarrow> vget (d_C_matrix rx) (unat mid);
         _ \<leftarrow> (if ms = 255 then None else Some ());
         let erasures = erasure_positions pids ms;
         let reset = (\<lambda>rx. rx\<lparr> d_received_pids := (d_received_pids rx)[unat mid := []],
           d_C_matrix := (d_C_matrix rx)[unat mid := replicate 255 (replicate 53 0)] \<rparr>);
         if length erasures > 223 then Some (- 1, reset rx)
         else
           do { (ok, M) \<leftarrow> decode_columns (d_rs rx) pids C erasures [0..<53] (replicate 32 (replicate 53 0));
                let rx = rx\<lparr> d_M_matrix := M \<rparr>;
                if \<not> ok then Some (- 1, rx)
                else
                  do { text \<leftarrow> decoded_message ms M;
                       let rx = (if d_enable_navdata_monitor rx
                         then rx\<lparr> Nav_msg_from_TLM := Nav_msg_from_TLM rx @ [text] \<rparr> else rx);
                       read_decoded_message text (reset rx) } } }"

section \<open>Pages\<close>

text \<open>The octets of a page.\<close>

definition page_octets :: "string \<Rightarrow> u8 list option" where
  "page_octets page_string = mapM (\<lambda>k.
      do { bits8 \<leftarrow> substr page_string (k * 8) 8;
           bs \<leftarrow> bitset 8 bits8;
           Some (of_nat (bitset_to_ulong bs)) }) [0..<53]"

definition store_page :: "has_page \<Rightarrow> has_receiver \<Rightarrow> has_receiver option" where
  "store_page page rx =
    (let mid = unat (page_message_id page); pid = message_page_id page
     in if mid \<ge> 32 then Some rx
        else
          do { pids \<leftarrow> vget (d_received_pids rx) mid;
               if pid \<in> set pids then Some rx
               else
                 do { stamps \<leftarrow> vget (d_received_timestamps rx) mid;
                      octets \<leftarrow> page_octets (has_message_string page);
                      C \<leftarrow> vget (d_C_matrix rx) mid;
                      C \<leftarrow> vput C (unat pid - 1) octets;
                      Some (rx\<lparr> d_received_pids := (d_received_pids rx)[mid := pids @ [pid]],
                        d_received_timestamps := (d_received_timestamps rx)[mid := stamps @ [time_stamp page]],
                        d_C_matrix := (d_C_matrix rx)[mid := C] \<rparr>) } })"

definition process_HAS_page :: "has_page \<Rightarrow> has_receiver \<Rightarrow> has_receiver option" where
  "process_HAS_page page rx =
    do { rx \<leftarrow> (if (page_has_status page = 0 \<or> page_has_status page = 1) \<and> message_page_id page \<noteq> 0
                \<and> message_type page = 1
              then do { rx \<leftarrow> delete_outdated_data page rx; store_page page rx }
              else Some rx);
         let rx = rx\<lparr> d_new_message := False \<rparr>;
         pids \<leftarrow> vget (d_received_pids rx) (unat (page_message_id page));
         if length pids \<noteq> unat (message_size page) then Some rx
         else
           do { (res, rx) \<leftarrow> decode_message_type1 (page_message_id page) (message_size page) rx;
                Some (if res = 0 \<and> d_nsat_in_mask_id rx ! unat (mask_id (mt1_header (d_HAS_data rx))) \<noteq> 0
                  then rx\<lparr> d_new_message := True \<rparr> else rx) } }"

section \<open>Handler\<close>

definition set_enable_navdata_monitor :: "bool \<Rightarrow> has_receiver \<Rightarrow> has_receiver" where
  "set_enable_navdata_monitor enable rx = rx\<lparr> d_enable_navdata_monitor := enable \<rparr>"

text \<open>The part the handler and its variant for tests share: the data to hand on, if any.\<close>

definition receive_page :: "has_page \<Rightarrow> has_receiver \<Rightarrow> (has_data option \<times> has_receiver) option" where
  "receive_page page rx =
    do { let mid = page_message_id page;
         let rx = rx\<lparr> d_current_has_status := page_has_status page, d_current_message_id := mid \<rparr>;
         printed \<leftarrow> vget (d_printed_mids rx) (unat mid);
         rx \<leftarrow> (if \<not> printed then process_HAS_page page rx else Some rx);
         if \<not> d_new_message rx then Some (None, rx)
         else
           (let d = (d_HAS_data rx)\<lparr> has_status := page_has_status page, message_id := mid, has_tow := page_tow page \<rparr>
            in Some (Some d, rx\<lparr> d_HAS_data := d, d_printed_mids := (d_printed_mids rx)[unat mid := True],
                 d_printed_timestamps := (d_printed_timestamps rx)[unat mid := time_stamp page],
                 d_new_message := False \<rparr>)) }"

definition process_test_page :: "has_page \<Rightarrow> has_receiver \<Rightarrow> (has_data option \<times> has_receiver) option" where
  "process_test_page page rx = receive_page page rx"

definition msg_handler_galileo_e6_has :: "has_page \<Rightarrow> has_receiver \<Rightarrow> has_receiver option" where
  "msg_handler_galileo_e6_has page rx =
    do { (out, rx) \<leftarrow> receive_page page rx;
         Some (case out of None \<Rightarrow> rx | Some d \<Rightarrow> rx\<lparr> E6_HAS_to_PVT := E6_HAS_to_PVT rx @ [d] \<rparr>) }"

end
