(* ===== verification/Has_Columns.thy ===== *)
theory Has_Columns
  imports Has_Receiver Reed_Solomon_Codec
begin

text \<open>
  From the pages of a message to its text. What the receiver needs of the Reed-Solomon code is the
  interface of an erasure code; the default decoder provides it.
\<close>

section \<open>Erasure codes\<close>

locale erasure_code =
  fixes rs :: reed_solomon and is_code :: "u8 list \<Rightarrow> bool" and parity :: nat
  assumes restores: "is_code c \<Longrightarrow> length c = 255 \<Longrightarrow> distinct ps \<Longrightarrow> length ps \<le> parity \<Longrightarrow> \<forall>p \<in> set ps. p < 255 \<Longrightarrow>
      length data = 255 \<Longrightarrow> (\<And>j. j < 255 \<Longrightarrow> j \<notin> set ps \<Longrightarrow> data ! j = c ! j) \<Longrightarrow>
      \<exists>r \<ge> 0. decode rs data (map int ps) = Some (r, c)"

definition e6b_decoder :: reed_solomon where
  "e6b_decoder = the (reed_solomon_default [])"

interpretation e6b: erasure_code e6b_decoder "codeword 223 1" 223
proof
  fix c ps data
  assume c: "codeword 223 1 c" "length c = 255"
    and ps: "distinct ps" "length ps \<le> 223" "\<forall>p \<in> set ps. p < 255"
    and data: "length data = 255" "\<And>j. j < 255 \<Longrightarrow> j \<notin> set ps \<Longrightarrow> data ! j = c ! j"
  obtain rs where rs: "reed_solomon_default [] = Some rs" "standard_code 223 1 0 0 rs"
    by (rule default_E6B_standard[of "[]"]) simp_all
  then have e: "standard_code 223 1 0 0 e6b_decoder" by (simp add: e6b_decoder_def)
  show "\<exists>r \<ge> 0. decode e6b_decoder data (map int ps) = Some (r, c)"
    using c ps data
    by (intro decode_erasures[OF e]) (simp_all add: insert_padding_def unshortened_def split: if_splits)
qed

section \<open>Columns\<close>

definition matrix_shape :: "u8 list list \<Rightarrow> bool" where
  "matrix_shape C \<longleftrightarrow> length C = 255 \<and> (\<forall>r \<in> set C. length r = 53)"

lemma matrix_shapeD: "matrix_shape C \<Longrightarrow> j < 255 \<Longrightarrow> length (C ! j) = 53"
  by (simp add: matrix_shape_def)

lemma unat_pred: "(pid :: u8) \<noteq> 0 \<Longrightarrow> unat pid - 1 < 255"
  using unat_u8[of pid] unat_gt_0[of pid] by linarith

lemma pid_of_position:
  assumes "(pid :: u8) \<noteq> 0" "j < 255"
  shows "of_nat (Suc j) = pid \<longleftrightarrow> j = unat pid - 1"
proof -
  have "unat (of_nat (Suc j) :: u8) = Suc j" using assms(2) by (intro unat_of_nat_less) simp
  moreover have "0 < unat pid" using assms(1) by (simp add: unat_gt_0)
  ultimately have "of_nat (Suc j) = pid \<longleftrightarrow> Suc j = unat pid" by (metis byte_word)
  then show ?thesis using \<open>0 < unat pid\<close> by linarith
qed

lemma received_column_acc:
  fixes pids :: "u8 list"
  assumes "matrix_shape C" "col < 53" "0 \<notin> set pids" "length column = 255"
  shows "\<exists>out. foldM (\<lambda>pid column. if pid = 0 then None
        else do { row \<leftarrow> vget C (unat pid - 1); b \<leftarrow> vget row col; vput column (unat pid - 1) b }) pids column = Some out
      \<and> length out = 255
      \<and> (\<forall>j < 255. out ! j = (if of_nat (Suc j) \<in> set pids then C ! j ! col else column ! j))"
  using assms(3,4)
proof (induction pids arbitrary: column)
  case Nil
  then show ?case by simp
next
  case (Cons pid pids)
  have p: "pid \<noteq> 0" "0 \<notin> set pids" using Cons.prems by auto
  let ?i = "unat pid - 1"
  have i: "?i < 255" by (rule unat_pred[OF p(1)])
  have step: "(if pid = 0 then None
        else do { row \<leftarrow> vget C ?i; b \<leftarrow> vget row col; vput column ?i b }) = Some (column[?i := C ! ?i ! col])"
    using p(1) i assms(1,2) Cons.prems(2) matrix_shapeD[OF assms(1) i]
    by (simp add: vec_simps matrix_shape_def)
  obtain out where out: "foldM (\<lambda>pid column. if pid = 0 then None
        else do { row \<leftarrow> vget C (unat pid - 1); b \<leftarrow> vget row col; vput column (unat pid - 1) b }) pids
        (column[?i := C ! ?i ! col]) = Some out" "length out = 255"
    "\<forall>j < 255. out ! j = (if of_nat (Suc j) \<in> set pids then C ! j ! col else column[?i := C ! ?i ! col] ! j)"
    using Cons.IH[OF p(2), of "column[?i := C ! ?i ! col]"] Cons.prems(2) by auto
  have "out ! j = (if of_nat (Suc j) \<in> set (pid # pids) then C ! j ! col else column ! j)" if "j < 255" for j
    using out(3) that pid_of_position[OF p(1) that] Cons.prems(2) by (auto simp: nth_list_update)
  then show ?case using step out by simp
qed

lemma received_column_eq:
  assumes "matrix_shape C" "col < 53" "0 \<notin> set pids"
  obtains out where "received_column pids C col = Some out" "length out = 255"
    "\<And>j. j < 255 \<Longrightarrow> out ! j = (if of_nat (Suc j) \<in> set pids then C ! j ! col else 0)"
  using received_column_acc[OF assms, of "replicate 255 0"] that by (auto simp: received_column_def)

lemma erasure_positions_props:
  assumes "unat ms \<le> 32" "distinct pids" "\<forall>pid \<in> set pids. (0 < unat pid \<and> unat pid \<le> unat ms) \<or> 32 < unat pid"
    and "length pids = unat ms"
  shows "distinct (erasure_positions pids ms)" "length (erasure_positions pids ms) = 223"
    "\<forall>p \<in> set (erasure_positions pids ms). p < 255"
    "\<And>j. j < 255 \<Longrightarrow> j \<notin> set (erasure_positions pids ms) \<Longrightarrow> of_nat (Suc j) \<in> set pids \<or> (unat ms \<le> j \<and> j < 32)"
proof -
  obtain U where U_def: "U = [1..<unat ms + 1] @ [33..<256]" by blast
  have e: "erasure_positions pids ms = map (\<lambda>i. i - 1) (filter (\<lambda>i. of_nat i \<notin> set pids) U)"
    unfolding erasure_positions_def U_def filter_append by (rule refl)
  have set_U: "i \<in> set U \<longleftrightarrow> (0 < i \<and> i \<le> unat ms) \<or> (32 < i \<and> i < 256)" for i
    unfolding U_def set_append set_upt by auto
  have range_U: "\<forall>i \<in> set U. 0 < i \<and> i < 256" using assms(1) set_U by fastforce
  have "{1..<unat ms + 1} \<inter> {33..<256} = {}" using assms(1) by auto
  then have distinct_U: "distinct U" unfolding U_def distinct_append set_upt by (intro conjI distinct_upt)
  have length_U: "length U = unat ms + 223" unfolding U_def length_append length_upt by simp
  note U = distinct_U range_U length_U
  have inj: "inj_on (\<lambda>i. i - 1) (set U)" 
  proof (rule inj_onI)
    fix x y assume "x \<in> set U" "y \<in> set U" "x - 1 = y - 1"
    moreover from this have "0 < x" "0 < y" using U(2) by blast+
    ultimately show "x = y" by linarith
  qed
  show "distinct (erasure_positions pids ms)"
    unfolding e distinct_map
    by (intro conjI distinct_filter[OF U(1)] inj_on_subset[OF inj filter_is_subset])
  show "\<forall>p \<in> set (erasure_positions pids ms). p < 255"
    using U(2) by (auto simp: e)
  have "unat ` set pids = set (filter (\<lambda>i. of_nat i \<in> set pids) U)"
  proof (intro equalityI subsetI)
    fix i assume "i \<in> unat ` set pids"
    then obtain pid where pid: "pid \<in> set pids" "i = unat pid" by auto
    with assms(3) have "(0 < i \<and> i \<le> unat ms) \<or> 32 < i" by blast
    moreover have "i < 256" using pid(2) by simp
    ultimately show "i \<in> set (filter (\<lambda>i. of_nat i \<in> set pids) U)" using pid set_U by auto
  next
    fix i assume i: "i \<in> set (filter (\<lambda>i. of_nat i \<in> set pids) U)"
    then have "i < 256" using U(2) by simp
    then have "i = unat (of_nat i :: u8)" by (intro unat_of_nat_less[symmetric]) simp
    moreover have "of_nat i \<in> set pids" using i by simp
    ultimately show "i \<in> unat ` set pids" by (rule image_eqI)
  qed
  then have "length (filter (\<lambda>i. of_nat i \<in> set pids) U) = card (unat ` set pids)"
    using U(1) by (metis distinct_card distinct_filter)
  also have "\<dots> = length pids"
  proof -
    have "inj_on unat (set pids)" by (rule inj_onI) (metis byte_word)
    then show ?thesis using distinct_card[OF assms(2)] by (simp add: card_image)
  qed
  finally have "length (filter (\<lambda>i. of_nat i \<notin> set pids) U) + unat ms = length U"
    using sum_length_filter_compl[of "\<lambda>i. of_nat i \<in> set pids" U] assms(4) U(3) by linarith
  then show "length (erasure_positions pids ms) = 223" using U(3) by (simp add: e)
  fix j assume j: "j < 255" "j \<notin> set (erasure_positions pids ms)"
  have "Suc j \<notin> set (filter (\<lambda>i. of_nat i \<notin> set pids) U)"
  proof
    assume "Suc j \<in> set (filter (\<lambda>i. of_nat i \<notin> set pids) U)"
    then have "Suc j - 1 \<in> (\<lambda>i. i - 1) ` set (filter (\<lambda>i. of_nat i \<notin> set pids) U)" by (rule imageI)
    then show False using j(2) unfolding e set_map by simp
  qed
  then show "of_nat (Suc j) \<in> set pids \<or> (unat ms \<le> j \<and> j < 32)"
    using j(1) set_U[of "Suc j"] by (simp del: of_nat_Suc) linarith
qed

section \<open>Encoded messages\<close>

text \<open>What the satellites send of a message: 255 rows of 53 octets, of which every column is a word of
  the code; the rows \<open>1..ms\<close> are the message itself and the rest of the first 32 are zero.\<close>

definition column_of :: "u8 list list \<Rightarrow> nat \<Rightarrow> u8 list" where
  "column_of E col = map (\<lambda>row. row ! col) E"

definition encoded_message :: "(u8 list \<Rightarrow> bool) \<Rightarrow> nat \<Rightarrow> u8 list list \<Rightarrow> bool" where
  "encoded_message is_code ms E \<longleftrightarrow> matrix_shape E \<and> (\<forall>col < 53. is_code (column_of E col))
     \<and> (\<forall>j. ms \<le> j \<and> j < 32 \<longrightarrow> E ! j = replicate 53 0)"

definition received_rows :: "u8 list \<Rightarrow> u8 list list \<Rightarrow> u8 list list \<Rightarrow> bool" where
  "received_rows pids C E \<longleftrightarrow> (\<forall>pid \<in> set pids. C ! (unat pid - 1) = E ! (unat pid - 1))"

definition enough_pages :: "u8 list \<Rightarrow> u8 \<Rightarrow> bool" where
  "enough_pages pids ms \<longleftrightarrow> unat ms \<le> 32 \<and> distinct pids \<and> length pids = unat ms
     \<and> (\<forall>pid \<in> set pids. (0 < unat pid \<and> unat pid \<le> unat ms) \<or> 32 < unat pid)"

lemma enough_pages_nonzero: "enough_pages pids ms \<Longrightarrow> 0 \<notin> set pids"
  by (fastforce simp: enough_pages_def)

lemma column_of_nth [simp]: "j < length E \<Longrightarrow> column_of E col ! j = E ! j ! col"
  and length_column_of [simp]: "length (column_of E col) = length E"
  by (simp_all add: column_of_def)

lemma matrix_shape_ext:
  assumes "length M = n" "\<And>i. i < n \<Longrightarrow> length (M ! i) = m" "\<And>i j. i < n \<Longrightarrow> j < m \<Longrightarrow> M ! i ! j = f i j"
  shows "M = map (\<lambda>i. map (f i) [0..<m]) [0..<n]"
  using assms by (auto intro!: nth_equalityI)

fun put_columns :: "u8 list list \<Rightarrow> nat list \<Rightarrow> u8 list list \<Rightarrow> u8 list list" where
  "put_columns E [] M = M"
| "put_columns E (col # cols) M = put_columns E cols (map (\<lambda>i. (M ! i)[col := column_of E col ! i]) [0..<32])"

lemma put_columns_shape:
  "length M = 32 \<Longrightarrow> \<forall>i < 32. length (M ! i) = 53 \<Longrightarrow>
   length (put_columns E cols M) = 32 \<and> (\<forall>i < 32. length (put_columns E cols M ! i) = 53)"
  by (induction E cols M rule: put_columns.induct) simp_all

lemma put_columns_nth:
  "length M = 32 \<Longrightarrow> \<forall>i < 32. length (M ! i) = 53 \<Longrightarrow> length E = 255 \<Longrightarrow> i < 32 \<Longrightarrow> col < 53 \<Longrightarrow>
   put_columns E cols M ! i ! col = (if col \<in> set cols then E ! i ! col else M ! i ! col)"
  by (induction E cols M rule: put_columns.induct) (auto simp: nth_list_update)

lemma put_all_columns:
  assumes "matrix_shape E"
  shows "put_columns E [0..<53] (replicate 32 (replicate 53 0)) = take 32 E"
proof -
  let ?M = "replicate 32 (replicate 53 (0 :: u8))"
  have M: "length ?M = 32" "\<forall>i < 32. length (?M ! i) = 53" by simp_all
  have E: "length E = 255" "\<And>i. i < 255 \<Longrightarrow> length (E ! i) = 53" using assms by (simp_all add: matrix_shape_def)
  show ?thesis
  proof (rule nth_equalityI)
    fix i assume "i < length (put_columns E [0..<53] ?M)"
    then have i: "i < 32" using put_columns_shape[OF M] by simp
    show "put_columns E [0..<53] ?M ! i = take 32 E ! i"
      using put_columns_shape[OF M] E i put_columns_nth[OF M E(1) i, of _ "[0..<53]"]
      by (intro nth_equalityI) simp_all
  qed (use put_columns_shape[OF M] E in simp)
qed

context erasure_code
begin

lemma decode_column:
  assumes E: "encoded_message is_code (unat ms) E" and C: "matrix_shape C" "received_rows pids C E"
    and enough: "enough_pages pids ms" "parity = 223" and col: "col < 53"
  obtains column r where "received_column pids C col = Some column" "0 \<le> r"
    "decode rs column (map int (erasure_positions pids ms)) = Some (r, column_of E col)"
proof -
  have sh: "matrix_shape E" "length E = 255" using E by (simp_all add: encoded_message_def matrix_shape_def)
  obtain column where column: "received_column pids C col = Some column" "length column = 255"
    "\<And>j. j < 255 \<Longrightarrow> column ! j = (if of_nat (Suc j) \<in> set pids then C ! j ! col else 0)"
    using received_column_eq[OF C(1) col enough_pages_nonzero[OF enough(1)]] by blast
  note ep = erasure_positions_props[of ms pids, OF enough(1)[unfolded enough_pages_def, THEN conjunct1]]
  have pos: "distinct (erasure_positions pids ms)" "length (erasure_positions pids ms) = 223"
    "\<forall>p \<in> set (erasure_positions pids ms). p < 255"
    "\<And>j. j < 255 \<Longrightarrow> j \<notin> set (erasure_positions pids ms) \<Longrightarrow> of_nat (Suc j) \<in> set pids \<or> (unat ms \<le> j \<and> j < 32)"
    using enough(1) ep by (simp_all only: enough_pages_def) blast+
  have "column ! j = column_of E col ! j" if j: "j < 255" "j \<notin> set (erasure_positions pids ms)" for j
  proof (cases "of_nat (Suc j) \<in> set pids")
    case True
    have "unat (of_nat (Suc j) :: u8) = Suc j" using j(1) by (intro unat_of_nat_less) simp
    then have "C ! j = E ! j" using C(2) True unfolding received_rows_def by fastforce
    then show ?thesis using True column(3)[OF j(1)] j(1) sh(2) by simp
  next
    case False
    then have "E ! j = replicate 53 0" using pos(4)[OF j] E by (simp add: encoded_message_def)
    then show ?thesis using False column(3)[OF j(1)] j(1) sh(2) col by simp
  qed
  moreover have "is_code (column_of E col)" using E col by (simp add: encoded_message_def)
  ultimately obtain r where "0 \<le> r" "decode rs column (map int (erasure_positions pids ms)) = Some (r, column_of E col)"
    using restores[of "column_of E col" "erasure_positions pids ms" column] pos sh(2) column(2) enough(2) by auto
  then show thesis using that column(1) by blast
qed

lemma decode_columns_code:
  assumes E: "encoded_message is_code (unat ms) E" and C: "matrix_shape C" "received_rows pids C E"
    and enough: "enough_pages pids ms" "parity = 223" and cols: "\<forall>col \<in> set cols. col < 53"
  shows "decode_columns rs pids C (erasure_positions pids ms) cols M = Some (True, put_columns E cols M)"
  using cols
proof (induction cols arbitrary: M)
  case (Cons col cols)
  obtain column r where "received_column pids C col = Some column" "0 \<le> r"
    "decode rs column (map int (erasure_positions pids ms)) = Some (r, column_of E col)"
    using decode_column[OF E C enough, of col] Cons.prems by auto
  then show ?case using Cons by simp
qed simp

end

end
