(* ===== verification/Has_Steps.thy ===== *)
theory Has_Steps
  imports Has_Body
begin

text \<open>
  Proof tools for the reader of the message body: sequences and loops of steps, the effect of
  cutting a field off, the fields of a sender, and what every step leaves alone.
\<close>

section \<open>Sequences\<close>

named_theorems step_simps
  \<comment> \<open>symbolic execution of the steps of the reader\<close>

lemma run_steps_append:
  "run_steps (fs @ gs) s =
    (case run_steps fs s of Continues s' \<Rightarrow> run_steps gs s' | Throws s' \<Rightarrow> Throws s' | Undefined \<Rightarrow> Undefined)"
  by (induction fs arbitrary: s) (simp_all split: outcome.splits)

text \<open>A loop along a known sequence of states.\<close>

lemma run_steps_loop:
  assumes "\<And>i. i < n \<Longrightarrow> f i (S i) = Continues (S (Suc i))"
  shows "run_steps (map f [0..<n]) (S 0) = Continues (S n)"
  using assms
proof (induction n)
  case 0
  show ?case by simp
next
  case (Suc n)
  then show ?case by (simp add: run_steps_append)
qed

definition fold_states :: "(nat \<Rightarrow> 's \<Rightarrow> 's) \<Rightarrow> nat \<Rightarrow> 's \<Rightarrow> 's" where
  "fold_states g n s = foldl (\<lambda>s i. g i s) s [0..<n]"

lemma fold_states_simps [simp]:
  "fold_states g 0 s = s" "fold_states g (Suc n) s = g n (fold_states g n s)"
  by (simp_all add: fold_states_def)

lemma run_steps_fold:
  assumes "\<And>i. i < n \<Longrightarrow> f i (fold_states g i s) = Continues (g i (fold_states g i s))"
  shows "run_steps (map f [0..<n]) s = Continues (fold_states g n s)"
  using run_steps_loop[of n f "\<lambda>i. fold_states g i s"] assms by simp

lemma take_field_Continues [step_simps]:
  assumes "body_message st = f @ rest" "length f = n"
  shows "take_field n assign st = Continues ((assign f st)\<lparr> body_message := rest \<rparr>)"
  using assms by (simp add: take_field_def)

section \<open>Filling an array in order\<close>

definition filled :: "nat \<Rightarrow> 'a list \<Rightarrow> 'a list \<Rightarrow> 'a list" where
  "filled i xs old = take i xs @ drop i old"

lemma filled_0 [simp]: "filled 0 xs old = old"
  by (simp add: filled_def)

lemma filled_update: "i < length xs \<Longrightarrow> i < length old \<Longrightarrow> (filled i xs old)[i := xs ! i] = filled (Suc i) xs old"
  by (simp add: filled_def list_update_append take_Suc_conv_app_nth Cons_nth_drop_Suc[symmetric] min_def)

lemma filled_all: "length old = length xs \<Longrightarrow> filled (length xs) xs old = xs"
  by (simp add: filled_def)

lemma filled_take: "n = length xs \<Longrightarrow> n \<le> length old \<Longrightarrow> take n (filled n xs old) = xs"
  by (simp add: filled_def)

lemma length_filled [simp]: "i \<le> length xs \<Longrightarrow> i \<le> length old \<Longrightarrow> length (filled i xs old) = length old"
  by (simp add: filled_def)

lemma store_at_update:
  "m < length xs \<Longrightarrow> store_at m i v (xs[m := ys]) = xs[m := ys[i := v]]"
  by (simp add: store_at_def)

section \<open>Signed fields\<close>

definition signed_field_of :: "nat \<Rightarrow> int \<Rightarrow> string" where
  "signed_field_of n x = field_of n (nat (x mod 2 ^ n))"

lemma length_signed_field_of [simp]: "length (signed_field_of n x) = n"
  by (simp add: signed_field_of_def)

lemma binary_signed_field_of [simp]: "binary (signed_field_of n x)"
  by (simp add: signed_field_of_def)

lemma or_shift_acc:
  fixes v :: "'a::len word"
  shows "foldl (\<lambda>v c. push_bit 1 v OR (if c = CHR ''1'' then 1 else 0)) v s
    = foldl (\<lambda>v c. push_bit 1 v + (if c = CHR ''1'' then 1 else 0)) v s"
proof (induction s arbitrary: v)
  case Nil
  show ?case by simp
next
  case (Cons c s)
  have "push_bit k w OR 1 = (push_bit k w + 1 :: 'a word)" if "0 < k" for w k
    using that by (intro disjunctive_add[symmetric]) (auto simp: bit_simps)
  from this[of 1] have "push_bit 1 v OR (if c = CHR ''1'' then 1 else 0)
      = (push_bit 1 v + (if c = CHR ''1'' then 1 else 0) :: 'a word)"
    by simp
  then show ?case by (simp only: foldl_Cons Cons.IH)
qed

lemma sign_extension:
  assumes "0 < n" "n \<le> 16" "bit (x :: int) (n - 1)"
  shows "(of_nat (nat (x mod 2 ^ n)) OR ucast (push_bit n 0xFFFF :: u32) :: 16 word)
    = word_of_int (signed_take_bit (n - 1) x)"
proof (rule bit_word_eqI)
  fix i assume "i < LENGTH(16)"
  then have i: "i < 16" by simp
  have "(of_nat (nat (x mod 2 ^ n)) :: 16 word) = word_of_int (take_bit n x)"
    by (simp add: take_bit_eq_mod of_nat_nat)
  then have l: "bit (of_nat (nat (x mod 2 ^ n)) :: 16 word) i \<longleftrightarrow> i < n \<and> bit x i"
    using i by (simp only: bit_simps) auto
  have m: "(0xFFFF :: u32) = mask 16" by (simp add: mask_eq_exp_minus_1)
  have u: "bit (ucast (push_bit n 0xFFFF :: u32) :: 16 word) i \<longleftrightarrow> n \<le> i"
    unfolding m using i by (auto simp: bit_simps simp del: mask_numeral)
  have r: "bit (word_of_int (signed_take_bit (n - 1) x) :: 16 word) i \<longleftrightarrow> bit x (min i (n - 1))"
    using i by (simp add: bit_simps min.commute)
  show "bit (of_nat (nat (x mod 2 ^ n)) OR ucast (push_bit n 0xFFFF :: u32) :: 16 word) i
      = bit (word_of_int (signed_take_bit (n - 1) x) :: 16 word) i"
  proof (cases "n \<le> i")
    case True
    then have "min i (n - 1) = n - 1" by simp
    with True show ?thesis unfolding bit_or_iff l u r using assms(3) by simp
  next
    case False
    then have "min i (n - 1) = i" by simp
    with False show ?thesis unfolding bit_or_iff l u r by simp
  qed
qed

lemma hd_field_of: "0 < n \<Longrightarrow> hd (field_of n k) = char_of_bit (bit k (n - 1))"
  by (simp add: field_of_def hd_map hd_rev last_map)

lemma read_has_message_body_int16_field:
  assumes "0 < n" "n \<le> 16"
  shows "read_has_message_body_int16 (signed_field_of n x) = word_of_int (signed_take_bit (n - 1) x)"
proof -
  let ?s = "signed_field_of n x"
  have "?s \<noteq> []" using assms(1) by (metis length_signed_field_of length_greater_0_conv)
  moreover have "foldl (\<lambda>v c. push_bit 1 v OR (if c = CHR ''1'' then 1 else 0)) 0 ?s
      = (of_nat (nat (x mod 2 ^ n)) :: 16 word)"
  proof -
    have "nat (x mod 2 ^ n) mod 2 ^ n = nat (x mod 2 ^ n)" by (simp add: nat_less_iff)
    then show ?thesis
      unfolding or_shift_acc using read_bits_eq[of ?s]
      by (simp add: read_bits_def signed_field_of_def)
  qed
  moreover have "hd ?s = CHR ''1'' \<longleftrightarrow> bit x (n - 1)"
  proof -
    have "bit (nat (x mod 2 ^ n)) (n - 1) = bit (take_bit n x) (n - 1)"
      by (simp add: take_bit_eq_mod bit_nat_iff)
    then show ?thesis using assms(1) by (simp add: signed_field_of_def hd_field_of char_of_bit_def bit_take_bit_iff)
  qed
  moreover have "(of_nat (nat (x mod 2 ^ n)) :: 16 word) = word_of_int (signed_take_bit (n - 1) x)" if "\<not> bit x (n - 1)"
  proof -
    obtain k where k: "n = Suc k" using assms(1) by (cases n) simp_all
    have "take_bit (Suc k) x = take_bit k x"
      using that k by (intro bit_eqI) (auto simp: bit_simps less_Suc_eq)
    then have "signed_take_bit (n - 1) x = take_bit n x"
      using that k by (simp add: signed_take_bit_eq_if_positive)
    then show ?thesis by (simp add: take_bit_eq_mod of_nat_nat)
  qed
  ultimately show ?thesis
    using assms(2) sign_extension[OF assms]
    by (cases "bit x (n - 1)") (simp_all add: read_has_message_body_int16_def Let_def del: One_nat_def)
qed

lemma signed_field_in_range:
  assumes "0 < n" "n \<le> 16" "- (2 ^ (n - 1)) \<le> x" "x < 2 ^ (n - 1)"
  shows "read_has_message_body_int16 (signed_field_of n x) = word_of_int x"
  using assms by (simp add: read_has_message_body_int16_field signed_take_bit_int_eq_self)

section \<open>What the reader leaves alone\<close>

definition preserves :: "('s \<Rightarrow> bool) \<Rightarrow> ('s \<Rightarrow> 's outcome) \<Rightarrow> bool" where
  "preserves P f \<longleftrightarrow> (\<forall>s. P s \<longrightarrow> (case f s of Continues s' \<Rightarrow> P s' | Throws s' \<Rightarrow> P s' | Undefined \<Rightarrow> True))"

named_theorems frame_rules
  \<comment> \<open>introduction rules for what steps preserve\<close>

lemma preservesI:
  assumes "\<And>s s'. P s \<Longrightarrow> f s = Continues s' \<Longrightarrow> P s'" "\<And>s s'. P s \<Longrightarrow> f s = Throws s' \<Longrightarrow> P s'"
  shows "preserves P f"
  unfolding preserves_def
proof (intro allI impI)
  fix s assume s: "P s"
  show "case f s of Continues s' \<Rightarrow> P s' | Throws s' \<Rightarrow> P s' | Undefined \<Rightarrow> True"
  proof (cases "f s")
    case (Continues t)
    show ?thesis unfolding Continues outcome.case by (rule assms(1)[OF s Continues])
  next
    case (Throws t)
    show ?thesis unfolding Throws outcome.case by (rule assms(2)[OF s Throws])
  next
    case Undefined
    show ?thesis unfolding Undefined outcome.case ..
  qed
qed

lemma preservesD:
  assumes "preserves P f" "P s"
  shows "f s = Continues s' \<Longrightarrow> P s'" "f s = Throws s' \<Longrightarrow> P s'"
proof -
  have "case f s of Continues s' \<Rightarrow> P s' | Throws s' \<Rightarrow> P s' | Undefined \<Rightarrow> True"
    using assms by (simp add: preserves_def)
  then show "f s = Continues s' \<Longrightarrow> P s'" "f s = Throws s' \<Longrightarrow> P s'" by simp_all
qed

lemma preserves_Nil [frame_rules]: "preserves P (run_steps [])"
  by (simp add: preserves_def)

lemma preserves_Cons [frame_rules]:
  assumes "preserves P f" "preserves P (run_steps fs)"
  shows "preserves P (run_steps (f # fs))"
  unfolding preserves_def
proof (intro allI impI)
  fix s assume s: "P s"
  show "case run_steps (f # fs) s of Continues s' \<Rightarrow> P s' | Throws s' \<Rightarrow> P s' | Undefined \<Rightarrow> True"
  proof (cases "f s")
    case (Continues t)
    have "P t" by (rule preservesD(1)[OF assms(1) s Continues])
    then show ?thesis unfolding run_steps.simps(2) Continues outcome.case using assms(2)
      unfolding preserves_def by blast
  next
    case (Throws t)
    show ?thesis unfolding run_steps.simps(2) Throws outcome.case by (rule preservesD(2)[OF assms(1) s Throws])
  next
    case Undefined
    show ?thesis unfolding run_steps.simps(2) Undefined outcome.case ..
  qed
qed

lemma preserves_run_steps: "(\<And>f. f \<in> set fs \<Longrightarrow> preserves P f) \<Longrightarrow> preserves P (run_steps fs)"
  by (induction fs) (simp_all add: frame_rules del: run_steps.simps)

lemma preserves_map [frame_rules]:
  "(\<And>x. x \<in> set xs \<Longrightarrow> preserves P (f x)) \<Longrightarrow> preserves P (run_steps (map f xs))"
  by (rule preserves_run_steps) auto

lemma preserves_comp:
  "(\<And>s. P s \<Longrightarrow> P (g s)) \<Longrightarrow> (\<And>s. preserves P (f s)) \<Longrightarrow> preserves P (\<lambda>s. f s (g s))"
  unfolding preserves_def by blast

lemma preserves_Continues: "(\<And>s. P s \<Longrightarrow> P (g s)) \<Longrightarrow> preserves P (\<lambda>s. Continues (g s))"
  by (simp add: preserves_def)

lemma preserves_take_field:
  assumes "\<And>f st. P st \<Longrightarrow> P (assign f st)" "\<And>st m. P st \<Longrightarrow> P (st\<lparr> body_message := m \<rparr>)"
  shows "preserves P (take_field n assign)"
  using assms by (simp add: preserves_def take_field_def Let_def)

lemma preserves_if:
  "(\<And>s. b s \<Longrightarrow> preserves P f) \<Longrightarrow> (\<And>s. \<not> b s \<Longrightarrow> preserves P g) \<Longrightarrow> preserves P (\<lambda>s. if b s then f s else g s)"
  by (auto simp: preserves_def)

lemma preserves_at: "(\<And>s. P s \<Longrightarrow> preserves P (f s)) \<Longrightarrow> preserves P (\<lambda>s. f s s)"
  by (auto simp: preserves_def)

end
