(* ===== verification/Has_Mask.thy ===== *)
theory Has_Mask
  imports Has_Steps
begin

text \<open>
  What a sender puts into the mask block of a message, and that the reader takes it out again:
  into the data of the message and into the store of masks.
\<close>

section \<open>Total correctness of steps\<close>

definition reads :: "('s \<Rightarrow> bool) \<Rightarrow> ('s \<Rightarrow> 's outcome) \<Rightarrow> ('s \<Rightarrow> bool) \<Rightarrow> bool" where
  "reads P f Q \<longleftrightarrow> (\<forall>s. P s \<longrightarrow> (\<exists>s'. f s = Continues s' \<and> Q s'))"

lemma reads_Nil: "(\<And>s. P s \<Longrightarrow> Q s) \<Longrightarrow> reads P (run_steps []) Q"
  by (simp add: reads_def)

lemma reads_Cons: "reads P f R \<Longrightarrow> reads R (run_steps fs) Q \<Longrightarrow> reads P (run_steps (f # fs)) Q"
  unfolding reads_def by fastforce

lemma reads_loop:
  assumes "\<And>i. i < n \<Longrightarrow> reads (I i) (f i) (I (Suc i))"
  shows "reads (I 0) (run_steps (map f [0..<n])) (I n)"
  using assms
proof (induction n)
  case 0
  show ?case by (simp add: reads_def)
next
  case (Suc n)
  then have "reads (I 0) (run_steps (map f [0..<n])) (I n)" "reads (I n) (f n) (I (Suc n))" by simp_all
  then show ?case unfolding reads_def by (fastforce simp: run_steps_append)
qed

lemma reads_mono: "reads P f Q \<Longrightarrow> (\<And>s. P' s \<Longrightarrow> P s) \<Longrightarrow> (\<And>s. Q s \<Longrightarrow> Q' s) \<Longrightarrow> reads P' f Q'"
  unfolding reads_def by meson

lemma readsE:
  assumes "reads P f Q" "P s"
  obtains s' where "f s = Continues s'" "Q s'"
  using assms unfolding reads_def by blast

section \<open>Contents\<close>

definition ones :: "nat \<Rightarrow> nat \<Rightarrow> nat" where
  "ones n k = length (filter (bit k) [0..<n])"

lemma ones_field_of: "length (filter is_one (field_of n k)) = ones n k"
proof -
  have "filter is_one (map char_of_bit bs) = map char_of_bit (filter (\<lambda>b. b) bs)" for bs
    by (induction bs) (simp_all add: char_of_bit_def)
  then have "length (filter is_one (field_of n k)) = length (filter (\<lambda>b. b) (map (bit k) [0..<n]))"
    by (simp add: field_of_def rev_filter[symmetric])
  also have "\<dots> = ones n k" by (simp add: ones_def filter_map comp_def)
  finally show ?thesis .
qed

record has_system =
  sys_gnss :: nat
  sys_satellites :: nat
  sys_signals :: nat
  sys_cells :: "bool list list option"
  sys_nav :: nat

definition well_formed_system :: "has_system \<Rightarrow> bool" where
  "well_formed_system s \<longleftrightarrow> (sys_gnss s = 0 \<or> sys_gnss s = 2) \<and> sys_satellites s < 2 ^ 40
     \<and> sys_signals s < 2 ^ 16 \<and> sys_nav s < 2 ^ 3
     \<and> (case sys_cells s of None \<Rightarrow> True
        | Some c \<Rightarrow> length c = ones 40 (sys_satellites s) \<and> (\<forall>r \<in> set c. length r = ones 16 (sys_signals s)))"

definition send_system :: "has_system \<Rightarrow> string" where
  "send_system s = field_of 4 (sys_gnss s) @ field_of 40 (sys_satellites s) @ field_of 16 (sys_signals s)
     @ (case sys_cells s of None \<Rightarrow> ''0'' | Some c \<Rightarrow> ''1'' @ map char_of_bit (concat c)) @ field_of 3 (sys_nav s)"

definition send_mask :: "has_system list \<Rightarrow> string" where
  "send_mask ss = field_of 4 (length ss) @ concat (map send_system ss) @ field_of 6 0"

definition cells_of :: "has_system \<Rightarrow> bool list list" where
  "cells_of s = (case sys_cells s of Some c \<Rightarrow> c
     | None \<Rightarrow> replicate (ones 40 (sys_satellites s)) (replicate (ones 16 (sys_signals s)) False))"

section \<open>Reading a field\<close>

lemma read_small_fields [step_simps]:
  "k < 2 ^ n \<Longrightarrow> n \<le> 8 \<Longrightarrow> read_has_message_body_uint8 (field_of n k) = of_nat k"
  "k < 2 ^ n \<Longrightarrow> n \<le> 16 \<Longrightarrow> read_has_message_body_uint16 (field_of n k) = of_nat k"
  "k < 2 ^ n \<Longrightarrow> n \<le> 64 \<Longrightarrow> read_has_message_body_uint64 (field_of n k) = of_nat k"
  by (simp_all add: read_has_message_body_uint8_def read_has_message_body_uint16_def
      read_has_message_body_uint64_def read_bits_eq)

lemma take_field_char [step_simps]:
  "body_message st = c # rest \<Longrightarrow> take_field (Suc 0) assign st = Continues ((assign [c] st)\<lparr> body_message := rest \<rparr>)"
  by (simp add: take_field_def)

lemma concat_rows_nth:
  assumes "\<And>r. r \<in> set c \<Longrightarrow> length r = k" "i < length c" "j < k"
  shows "concat c ! (i * k + j) = c ! i ! j"
  using assms
proof (induction c arbitrary: i)
  case Nil
  then show ?case by simp
next
  case (Cons r c)
  then show ?case by (cases i) (simp_all add: nth_append algebra_simps)
qed

lemma cells_read_back:
  assumes "\<And>r. r \<in> set c \<Longrightarrow> length r = k"
  shows "map (\<lambda>s. map (\<lambda>g. s * k + g < length (map char_of_bit (concat c))
      \<and> map char_of_bit (concat c) ! (s * k + g) = CHR ''1'') [0..<k]) [0..<length c] = c"
proof (rule nth_equalityI)
  fix i assume i: "i < length (map (\<lambda>s. map (\<lambda>g. s * k + g < length (map char_of_bit (concat c))
      \<and> map char_of_bit (concat c) ! (s * k + g) = CHR ''1'') [0..<k]) [0..<length c])"
  then have i: "i < length c" by simp
  have len: "length (concat c) = length c * k"
    using assms by (induction c) simp_all
  have "i * k + j < length (concat c)" if "j < k" for j
  proof -
    have "i * k + j < (i + 1) * k" using that by simp
    also have "\<dots> \<le> length c * k" using i by (intro mult_right_mono) simp_all
    finally show ?thesis using len by simp
  qed
  moreover have "length (c ! i) = k" using assms i by simp
  ultimately show "map (\<lambda>s. map (\<lambda>g. s * k + g < length (map char_of_bit (concat c))
      \<and> map char_of_bit (concat c) ! (s * k + g) = CHR ''1'') [0..<k]) [0..<length c] ! i = c ! i"
    using assms i by (intro nth_equalityI) (simp_all add: concat_rows_nth char_of_bit_def)
qed simp

section \<open>Reading a mask\<close>

text \<open>The first \<open>i\<close> systems as they stand in the data of a message and in the store of masks.\<close>

definition systems_in_data :: "has_system list \<Rightarrow> nat \<Rightarrow> has_data \<Rightarrow> bool" where
  "systems_in_data ss i d \<longleftrightarrow>
     length (gnss_id_mask d) = length ss \<and> take i (gnss_id_mask d) = map (of_nat \<circ> sys_gnss) (take i ss)
   \<and> length (satellite_mask d) = length ss \<and> take i (satellite_mask d) = map (of_nat \<circ> sys_satellites) (take i ss)
   \<and> length (signal_mask d) = length ss \<and> take i (signal_mask d) = map (of_nat \<circ> sys_signals) (take i ss)
   \<and> length (cell_mask d) = length ss \<and> take i (cell_mask d) = map cells_of (take i ss)
   \<and> length (cell_mask_availability_flag d) = length ss
   \<and> take i (cell_mask_availability_flag d) = map (\<lambda>s. sys_cells s \<noteq> None) (take i ss)
   \<and> length (nav_message d) = length ss \<and> take i (nav_message d) = map (of_nat \<circ> sys_nav) (take i ss)"

definition row_starts :: "nat \<Rightarrow> 'a list \<Rightarrow> 'a list list \<Rightarrow> bool" where
  "row_starts m ys xs \<longleftrightarrow> length xs = 32 \<and> length (xs ! m) = 16 \<and> take (length ys) (xs ! m) = ys"

definition systems_stored :: "has_system list \<Rightarrow> nat \<Rightarrow> nat \<Rightarrow> has_receiver \<Rightarrow> bool" where
  "systems_stored ss i m rx \<longleftrightarrow> m < 32 \<and> i \<le> length ss
   \<and> row_starts m (map (of_nat \<circ> sys_gnss) (take i ss)) (d_gnss_id_in_mask rx)
   \<and> row_starts m (map (of_nat \<circ> sys_satellites) (take i ss)) (d_satellite_mask rx)
   \<and> row_starts m (map (of_nat \<circ> sys_signals) (take i ss)) (d_signal_mask rx)
   \<and> row_starts m (map (\<lambda>s. sys_cells s \<noteq> None) (take i ss)) (d_cell_mask_availability_flag rx)
   \<and> row_starts m (map (of_nat \<circ> sys_nav) (take i ss)) (d_nav_message_mask rx)"

definition total_satellites :: "has_system list \<Rightarrow> nat" where
  "total_satellites ss = sum_list (map (\<lambda>s. ones 40 (sys_satellites s)) ss)"

definition mask_read :: "mt1_header \<Rightarrow> has_system list \<Rightarrow> string \<Rightarrow> nat \<Rightarrow> body_reader \<Rightarrow> bool" where
  "mask_read h ss rest i st \<longleftrightarrow>
     body_message st = concat (map send_system (drop i ss)) @ rest \<and> header_of st = h
   \<and> length (d_nsat_in_mask_id (body_receiver st)) = 32 \<and> length (d_cell_mask (body_receiver st)) = 32
   \<and> d_nsys_in_mask (body_receiver st) ! unat (mask_id h) = of_nat (length ss)
   \<and> Nsys (data_of st) = of_nat (length ss) \<and> Nsat st = total_satellites (take i ss)
   \<and> systems_in_data ss i (data_of st) \<and> systems_stored ss i (unat (mask_id h)) (body_receiver st)"

lemma row_starts_update [step_simps]:
  assumes "row_starts m ys xs" "m < 32" "length ys = i" "i < 16"
  shows "row_starts m (ys @ [v]) (store_at m i v xs)"
proof -
  have "take (Suc i) ((xs ! m)[i := v]) = take i (xs ! m) @ [v]"
    using assms by (simp add: row_starts_def take_Suc_conv_app_nth list_update_append)
  then show ?thesis using assms by (simp add: row_starts_def store_at_def)
qed

lemma take_Suc_update:
  "length xs = n \<Longrightarrow> i < n \<Longrightarrow> take i xs = ys \<Longrightarrow> take (Suc i) (xs[i := v]) = ys @ [v]"
  by (auto simp: take_Suc_conv_app_nth list_update_append)

lemma read_cell_mask_None [step_simps]:
  "\<not> cell_mask_availability_flag (data_of st) ! i \<Longrightarrow> read_cell_mask i st = Continues st"
  by (simp add: read_cell_mask_def)

lemma read_cell_mask_Some [step_simps]:
  assumes "cell_mask_availability_flag (data_of st) ! i" "body_message st = map char_of_bit (concat c) @ rest"
    and "ones_in_satellite_mask st = length c" "\<forall>r \<in> set c. length r = ones_in_signal_mask st"
  shows "read_cell_mask i st = Continues ((on_data (\<lambda>d. d\<lparr> cell_mask := (cell_mask d)[i := c] \<rparr>) st)\<lparr> body_message := rest \<rparr>)"
proof -
  have len: "length (concat c) = length c * ones_in_signal_mask st"
    using assms(4) by (induction c) simp_all
  show ?thesis
    using assms len cells_read_back[of c "ones_in_signal_mask st"]
    by (simp add: read_cell_mask_def Let_def take_field_Continues[of _ "map char_of_bit (concat c)" rest])
qed

lemma reads_mask_system:
  assumes "\<forall>s \<in> set ss. well_formed_system s" "i < length ss" "length ss < 16"
  shows "reads (mask_read h ss rest i) (read_mask_system i) (mask_read h ss rest (Suc i))"
  unfolding reads_def
proof (intro allI impI)
  fix st assume st: "mask_read h ss rest i st"
  let ?s = "ss ! i"
  have wf: "well_formed_system ?s" using assms by simp
  have d: "drop i ss = ?s # drop (Suc i) ss" using assms(2) by (simp add: Cons_nth_drop_Suc)
  have t: "take (Suc i) ss = take i ss @ [?s]" using assms(2) by (simp add: take_Suc_conv_app_nth)
  have l: "length (take i ss) = i" using assms(2) by simp
  have g: "sys_gnss ?s < 2 ^ 4" using wf by (auto simp: well_formed_system_def)
  note defs = mask_read_def systems_in_data_def systems_stored_def read_mask_system_def
  show "\<exists>st'. read_mask_system i st = Continues st' \<and> mask_read h ss rest (Suc i) st'"
  proof (cases "sys_cells ?s")
    case None
    then show ?thesis
      using st wf g assms(2,3) l unfolding defs
      by (simp add: step_simps d t send_system_def well_formed_system_def ones_field_of
          take_Suc_update cells_of_def total_satellites_def Let_def)
  next
    case (Some c)
    then show ?thesis
      using st wf g assms(2,3) l unfolding defs
      by (simp add: step_simps d t send_system_def well_formed_system_def ones_field_of
          take_Suc_update cells_of_def total_satellites_def Let_def)
  qed
qed

text \<open>A mask as a whole, in the data and in the store.\<close>

definition mask_in_data :: "has_system list \<Rightarrow> has_data \<Rightarrow> bool" where
  "mask_in_data ss d \<longleftrightarrow> Nsys d = of_nat (length ss) \<and> gnss_id_mask d = map (of_nat \<circ> sys_gnss) ss
     \<and> satellite_mask d = map (of_nat \<circ> sys_satellites) ss \<and> signal_mask d = map (of_nat \<circ> sys_signals) ss
     \<and> cell_mask_availability_flag d = map (\<lambda>s. sys_cells s \<noteq> None) ss \<and> cell_mask d = map cells_of ss
     \<and> nav_message d = map (of_nat \<circ> sys_nav) ss"

definition mask_stored :: "has_system list \<Rightarrow> nat \<Rightarrow> has_receiver \<Rightarrow> bool" where
  "mask_stored ss m rx \<longleftrightarrow> systems_stored ss (length ss) m rx \<and> d_nsys_in_mask rx ! m = of_nat (length ss)
     \<and> length (d_nsat_in_mask_id rx) = 32 \<and> d_nsat_in_mask_id rx ! m = total_satellites ss
     \<and> d_cell_mask rx ! m = map cells_of ss"

text \<open>The state after the mask: what is left of the message, and the mask.\<close>

definition after_mask :: "mt1_header \<Rightarrow> has_system list \<Rightarrow> string \<Rightarrow> body_reader \<Rightarrow> bool" where
  "after_mask h ss rest st \<longleftrightarrow> body_message st = rest \<and> header_of st = h \<and> have_mask st
     \<and> Nsat st = total_satellites ss \<and> mask_in_data ss (data_of st)
     \<and> mask_stored ss (unat (mask_id h)) (body_receiver st)"

definition rows_of_16 :: "'a list list \<Rightarrow> bool" where
  "rows_of_16 xs \<longleftrightarrow> length xs = 32 \<and> (\<forall>r \<in> set xs. length r = 16)"

lemma row_starts_Nil: "rows_of_16 xs \<Longrightarrow> m < 32 \<Longrightarrow> row_starts m [] xs"
  by (simp add: rows_of_16_def row_starts_def)

definition store_shape :: "has_receiver \<Rightarrow> bool" where
  "store_shape rx \<longleftrightarrow> length (d_nsat_in_mask_id rx) = 32 \<and> length (d_nsys_in_mask rx) = 32
     \<and> length (d_cell_mask rx) = 32 \<and> rows_of_16 (d_gnss_id_in_mask rx) \<and> rows_of_16 (d_satellite_mask rx)
     \<and> rows_of_16 (d_signal_mask rx) \<and> rows_of_16 (d_cell_mask_availability_flag rx)
     \<and> rows_of_16 (d_nav_message_mask rx)"

lemma systems_in_data_all:
  "systems_in_data ss (length ss) d \<Longrightarrow> Nsys d = of_nat (length ss) \<Longrightarrow> mask_in_data ss d"
  unfolding systems_in_data_def mask_in_data_def by (elim conjE) simp

lemma reads_mask_end:
  "reads (mask_read h ss (field_of 6 0 @ rest) (length ss))
     (run_steps [store_mask_totals, take_field 6 (\<lambda>f st. st), set_have_mask])
     (\<lambda>st. 0 < total_satellites ss \<longrightarrow> after_mask h ss rest st)"
  unfolding reads_def
proof (intro allI impI)
  fix st assume st: "mask_read h ss (field_of 6 0 @ rest) (length ss) st"
  then have d: "mask_in_data ss (data_of st)" "cell_mask (data_of st) = map cells_of ss"
    by (auto simp: mask_read_def mask_in_data_def dest: systems_in_data_all)
  show "\<exists>s'. run_steps [store_mask_totals, take_field 6 (\<lambda>f st. st), set_have_mask] st = Continues s'
      \<and> (0 < total_satellites ss \<longrightarrow> after_mask h ss rest s')"
    using st d
    by (simp add: step_simps store_mask_totals_def set_have_mask_def mask_read_def after_mask_def
        mask_stored_def systems_stored_def)
qed

lemma reads_mask_start:
  assumes "length ss < 16" "unat (mask_id h) < 32" "body_message st = send_mask ss @ rest"
    and "header_of st = h" "store_shape (body_receiver st)" "Nsat st = 0"
  shows "\<exists>st'. run_steps [take_field 4 (\<lambda>f st. st), allocate_mask (length ss)]
       (on_receiver (\<lambda>rx. rx\<lparr> d_HAS_data := (d_HAS_data rx)\<lparr> Nsys := of_nat (length ss) \<rparr>,
           d_nsys_in_mask := (d_nsys_in_mask rx)[mid_of st := of_nat (length ss)] \<rparr>) st) = Continues st'
     \<and> mask_read h ss (field_of 6 0 @ rest) 0 st'"
  using assms
  by (simp add: step_simps allocate_mask_def mask_read_def send_mask_def store_shape_def systems_in_data_def
      systems_stored_def row_starts_Nil total_satellites_def)

lemma reads_mask:
  assumes ss: "\<forall>s \<in> set ss. well_formed_system s" "length ss < 16" "0 < total_satellites ss"
    and m: "unat (mask_id h) < 32"
  shows "reads (\<lambda>st. body_message st = send_mask ss @ rest \<and> header_of st = h \<and> store_shape (body_receiver st)
      \<and> Nsat st = 0) read_mask (after_mask h ss rest)"
  unfolding reads_def
proof (intro allI impI, elim conjE)
  fix st assume st: "body_message st = send_mask ss @ rest" "header_of st = h" "store_shape (body_receiver st)"
    "Nsat st = 0"
  let ?n = "of_nat (length ss) :: u8"
  let ?st = "on_receiver (\<lambda>rx. rx\<lparr> d_HAS_data := (d_HAS_data rx)\<lparr> Nsys := ?n \<rparr>,
           d_nsys_in_mask := (d_nsys_in_mask rx)[mid_of st := ?n] \<rparr>) st"
  have n: "unat ?n = length ss" using ss(2) by (simp add: unat_of_nat_less)
  have "ss \<noteq> []" using ss(3) by (auto simp: total_satellites_def)
  then have n0: "?n \<noteq> 0" using n by (metis length_0_conv unat_0)
  have rd: "read_has_message_body_uint8 (take 4 (body_message st)) = ?n"
    using st(1) ss(2) by (simp add: send_mask_def step_simps)
  let ?A = "[take_field 4 (\<lambda>f st. st), allocate_mask (length ss)]"
    and ?B = "[store_mask_totals, take_field 6 (\<lambda>f st. st), set_have_mask]"
    and ?C = "run_steps (map read_mask_system [0..<length ss])"
    and ?rest = "field_of 6 0 @ rest"
  obtain st1 where 1: "run_steps ?A ?st = Continues st1" "mask_read h ss ?rest 0 st1"
    using reads_mask_start[OF ss(2) m st] by blast
  have "reads (mask_read h ss ?rest 0) ?C (mask_read h ss ?rest (length ss))"
    by (rule reads_loop) (rule reads_mask_system[OF ss(1) _ ss(2)])
  then obtain st2 where 2: "?C st1 = Continues st2" "mask_read h ss ?rest (length ss) st2"
    using 1(2) unfolding reads_def by blast
  obtain st3 where 3: "run_steps ?B st2 = Continues st3" "after_mask h ss rest st3"
    using reads_mask_end[of h ss rest] 2(2) ss(3) unfolding reads_def by blast
  have "read_mask st = run_steps (?A @ ?C # ?B) ?st"
    unfolding read_mask_def rd Let_def using n0 by (simp only: n if_False append_Cons append_Nil)
  also have "\<dots> = Continues st3"
    unfolding run_steps_append 1(1) outcome.case run_steps.simps(2)[of ?C] 2(1) by (rule 3(1))
  finally show "\<exists>s'. read_mask st = Continues s' \<and> after_mask h ss rest s'" using 3(2) by blast
qed

text \<open>A stored mask serves as well as one in the message.\<close>

lemma use_stored_mask_read:
  assumes "mask_stored ss (mid_of st) (body_receiver st)" "length ss < 16" "0 < total_satellites ss"
    and "gnss_id_mask (data_of st) = []" "satellite_mask (data_of st) = []" "signal_mask (data_of st) = []"
    and "cell_mask_availability_flag (data_of st) = []" "nav_message (data_of st) = []"
  shows "after_mask (header_of st) ss (body_message st) (use_stored_mask st)"
proof -
  have "unat (of_nat (length ss) :: u8) = length ss" using assms(2) by (simp add: unat_of_nat_less)
  then show ?thesis
    using assms
    by (simp add: use_stored_mask_def after_mask_def mask_in_data_def mask_stored_def systems_stored_def
        row_starts_def Let_def)
qed

end
