(* ===== verification/Has_Corrections.thy ===== *)
theory Has_Corrections
  imports Has_Mask
begin

text \<open>
  The blocks of orbit corrections and of clock corrections for the full set, from the side of the
  sender and of the reader.
\<close>

section \<open>Which system a satellite belongs to\<close>

definition satellite_systems :: "has_system list \<Rightarrow> nat list" where
  "satellite_systems ss = concat (map (\<lambda>s. replicate (ones 40 (sys_satellites s)) (sys_gnss s)) ss)"

lemma length_satellite_systems [simp]: "length (satellite_systems ss) = total_satellites ss"
  by (simp add: satellite_systems_def total_satellites_def length_concat comp_def)

lemma satellite_systems_append: "satellite_systems (xs @ ys) = satellite_systems xs @ satellite_systems ys"
  by (simp add: satellite_systems_def)

lemma nth_replicate_middle:
  "length xs \<le> k \<Longrightarrow> k < length xs + n \<Longrightarrow> (xs @ replicate n x @ ys) ! k = x"
  by (auto simp: nth_append)

lemma bit_of_nat_word: "n \<le> LENGTH('a::len) \<Longrightarrow> i < n \<Longrightarrow> bit (of_nat k :: 'a word) i = bit k i"
  by (simp add: bit_simps)

lemma length_get_PRNs_in_mask:
  assumes "mask_in_data ss d" "i < length ss"
  shows "length (get_PRNs_in_mask i d) = ones 40 (sys_satellites (ss ! i))"
proof -
  let ?k = "sys_satellites (ss ! i)"
  have m: "satellite_mask d ! i = of_nat ?k" "i < length (satellite_mask d)"
    using assms by (simp_all add: mask_in_data_def)
  have "map (\<lambda>j. 40 - j - 1) [0..<40] = rev [0..<40 :: nat]"
    by (rule nth_equalityI) (simp_all add: rev_nth)
  then have "length (filter (\<lambda>j. bit ?k (40 - j - 1)) [0..<40]) = length (filter (bit ?k) (rev [0..<40]))"
    by (metis (no_types, lifting) comp_apply filter_cong filter_map length_map)
  also have "\<dots> = ones 40 ?k" by (simp add: ones_def rev_filter[symmetric])
  also have "filter (\<lambda>j. bit ?k (40 - j - 1)) [0..<40] = filter (\<lambda>j. bit (of_nat ?k :: u64) (40 - j - 1)) [0..<40]"
    by (intro filter_cong) (auto simp: bit_simps)
  finally show ?thesis using m by (simp add: get_PRNs_in_mask_def)
qed

lemma gnss_id_loop_eq:
  assumes "mask_in_data ss d" "i \<le> length ss" "number = total_satellites (take i ss)" "number \<le> nsat"
    and "nsat < total_satellites ss"
  shows "gnss_id_loop nsat [i..<length ss] number d = Some (of_nat (satellite_systems ss ! nsat))"
  using assms(2-4)
proof (induction "length ss - i" arbitrary: i number)
  case 0
  then show ?case using assms(5) by simp
next
  case (Suc k)
  then have i: "i < length ss" by simp
  then have l: "[i..<length ss] = i # [Suc i..<length ss]" by (simp add: upt_conv_Cons)
  let ?n = "ones 40 (sys_satellites (ss ! i))"
  have t: "take (Suc i) ss = take i ss @ [ss ! i]" using i by (simp add: take_Suc_conv_app_nth)
  then have t': "total_satellites (take (Suc i) ss) = number + ?n"
    using Suc.prems by (simp add: total_satellites_def)
  show ?case
  proof (cases "nsat < number + ?n")
    case True
    have "satellite_systems ss = satellite_systems (take i ss) @ satellite_systems (drop i ss)"
      using satellite_systems_append[of "take i ss" "drop i ss"] by simp
    moreover have "drop i ss = ss ! i # drop (Suc i) ss" using i by (simp add: Cons_nth_drop_Suc)
    ultimately have "satellite_systems ss = satellite_systems (take i ss) @ replicate ?n (sys_gnss (ss ! i))
        @ satellite_systems (drop (Suc i) ss)"
      by (simp add: satellite_systems_def)
    moreover have "length (satellite_systems (take i ss)) = number" using Suc.prems by simp
    ultimately have "satellite_systems ss ! nsat = sys_gnss (ss ! i)"
      using True Suc.prems nth_replicate_middle[of "satellite_systems (take i ss)" nsat ?n] by simp
    moreover have "vget (gnss_id_mask d) i = Some (of_nat (sys_gnss (ss ! i)))"
      using assms(1) i by (simp add: mask_in_data_def vec_simps)
    ultimately show ?thesis
      using True i l length_get_PRNs_in_mask[OF assms(1) i] by simp
  next
    case False
    have "gnss_id_loop nsat [Suc i..<length ss] (number + ?n) d = Some (of_nat (satellite_systems ss ! nsat))"
      using Suc.hyps(1)[of "Suc i" "number + ?n"] Suc.hyps(2) i False t' by simp
    then show ?thesis using False l length_get_PRNs_in_mask[OF assms(1) i] by simp
  qed
qed

lemma get_gnss_id_eq:
  assumes "mask_in_data ss d" "length ss < 256" "nsat < total_satellites ss"
  shows "get_gnss_id nsat d = Some (of_nat (satellite_systems ss ! nsat))"
proof -
  have "unat (Nsys d) = length ss" using assms by (simp add: mask_in_data_def unat_of_nat_less)
  then show ?thesis
    using gnss_id_loop_eq[OF assms(1), of 0 0 nsat] assms(3) by (simp add: get_gnss_id_def total_satellites_def)
qed

lemma satellite_systems_nth:
  assumes "\<forall>s \<in> set ss. well_formed_system s" "i < total_satellites ss"
  shows "satellite_systems ss ! i = 0 \<or> satellite_systems ss ! i = 2"
proof -
  have "satellite_systems ss ! i \<in> set (satellite_systems ss)" using assms(2) by simp
  then show ?thesis using assms(1) by (auto simp: satellite_systems_def well_formed_system_def)
qed

section \<open>Orbit corrections\<close>

record orbit_correction =
  orbit_iod :: nat
  orbit_radial :: int
  orbit_in_track :: int
  orbit_cross_track :: int

definition iod_length :: "nat \<Rightarrow> nat" where
  "iod_length g = (if g = 0 then 8 else 10)"

definition well_formed_orbit :: "nat \<Rightarrow> orbit_correction \<Rightarrow> bool" where
  "well_formed_orbit g c \<longleftrightarrow> orbit_iod c < 2 ^ iod_length g
     \<and> - (2 ^ 12) \<le> orbit_radial c \<and> orbit_radial c < 2 ^ 12
     \<and> - (2 ^ 11) \<le> orbit_in_track c \<and> orbit_in_track c < 2 ^ 11
     \<and> - (2 ^ 11) \<le> orbit_cross_track c \<and> orbit_cross_track c < 2 ^ 11"

definition send_orbit :: "nat \<Rightarrow> orbit_correction \<Rightarrow> string" where
  "send_orbit g c = field_of (iod_length g) (orbit_iod c) @ signed_field_of 13 (orbit_radial c)
     @ signed_field_of 12 (orbit_in_track c) @ signed_field_of 12 (orbit_cross_track c)"

definition send_orbits :: "has_system list \<Rightarrow> nat \<times> orbit_correction list \<Rightarrow> string" where
  "send_orbits ss ob = field_of 4 (fst ob) @ concat (map (\<lambda>(g, c). send_orbit g c) (zip (satellite_systems ss) (snd ob)))"

definition well_formed_orbits :: "has_system list \<Rightarrow> nat \<times> orbit_correction list \<Rightarrow> bool" where
  "well_formed_orbits ss ob \<longleftrightarrow> fst ob < 2 ^ 4 \<and> length (snd ob) = total_satellites ss
     \<and> list_all2 well_formed_orbit (satellite_systems ss) (snd ob)"

definition orbits_in_data :: "nat \<times> orbit_correction list \<Rightarrow> has_data \<Rightarrow> bool" where
  "orbits_in_data ob d \<longleftrightarrow> validity_interval_index_orbit_corrections d = of_nat (fst ob)
     \<and> delta_radial d = map (word_of_int \<circ> orbit_radial) (snd ob)
     \<and> delta_in_track d = map (word_of_int \<circ> orbit_in_track) (snd ob)
     \<and> delta_cross_track d = map (word_of_int \<circ> orbit_cross_track) (snd ob)"

definition iods_of :: "nat \<times> orbit_correction list \<Rightarrow> u16 list" where
  "iods_of ob = map (of_nat \<circ> orbit_iod) (snd ob)"

lemma mask_in_data_frame [step_simps]:
  "mask_in_data ss (d\<lparr> validity_interval_index_orbit_corrections := v1 \<rparr>) = mask_in_data ss d"
  "mask_in_data ss (d\<lparr> gnss_iod := v2 \<rparr>) = mask_in_data ss d"
  "mask_in_data ss (d\<lparr> delta_radial := v3 \<rparr>) = mask_in_data ss d"
  "mask_in_data ss (d\<lparr> delta_in_track := v3 \<rparr>) = mask_in_data ss d"
  "mask_in_data ss (d\<lparr> delta_cross_track := v3 \<rparr>) = mask_in_data ss d"
  "mask_in_data ss (d\<lparr> validity_interval_index_clock_fullset_corrections := v4 \<rparr>) = mask_in_data ss d"
  "mask_in_data ss (d\<lparr> delta_clock_multiplier := v5 \<rparr>) = mask_in_data ss d"
  "mask_in_data ss (d\<lparr> delta_clock_correction := v3 \<rparr>) = mask_in_data ss d"
  by (simp_all add: mask_in_data_def)

lemma mask_stored_frame [step_simps]:
  "mask_stored ss m (rx\<lparr> d_HAS_data := d \<rparr>) = mask_stored ss m rx"
  "mask_stored ss m (rx\<lparr> d_iod_ref_map := r \<rparr>) = mask_stored ss m rx"
  by (simp_all add: mask_stored_def systems_stored_def)

definition orbits_read :: "mt1_header \<Rightarrow> has_system list \<Rightarrow> nat \<times> orbit_correction list
    \<Rightarrow> (u8 \<times> u8 \<rightharpoonup> u16 list) \<Rightarrow> string \<Rightarrow> nat \<Rightarrow> body_reader \<Rightarrow> bool" where
  "orbits_read h ss ob r rest i st \<longleftrightarrow>
     after_mask h ss (concat (map (\<lambda>(g, c). send_orbit g c) (drop i (zip (satellite_systems ss) (snd ob)))) @ rest) st
   \<and> d_iod_ref_map (body_receiver st) = r
   \<and> validity_interval_index_orbit_corrections (data_of st) = of_nat (fst ob)
   \<and> length (gnss_iod (data_of st)) = total_satellites ss \<and> take i (gnss_iod (data_of st)) = take i (iods_of ob)
   \<and> length (delta_radial (data_of st)) = total_satellites ss
   \<and> take i (delta_radial (data_of st)) = take i (map (word_of_int \<circ> orbit_radial) (snd ob))
   \<and> length (delta_in_track (data_of st)) = total_satellites ss
   \<and> take i (delta_in_track (data_of st)) = take i (map (word_of_int \<circ> orbit_in_track) (snd ob))
   \<and> length (delta_cross_track (data_of st)) = total_satellites ss
   \<and> take i (delta_cross_track (data_of st)) = take i (map (word_of_int \<circ> orbit_cross_track) (snd ob))"

lemma read_signed_fields [step_simps]:
  "- 4096 \<le> x \<Longrightarrow> x < 4096 \<Longrightarrow> read_has_message_body_int16 (signed_field_of 13 x) = word_of_int x"
  "- 2048 \<le> x \<Longrightarrow> x < 2048 \<Longrightarrow> read_has_message_body_int16 (signed_field_of 12 x) = word_of_int x"
  by (simp_all add: signed_field_in_range)

lemma take_Suc_nth_update:
  "length xs = n \<Longrightarrow> length ys = n \<Longrightarrow> i < n \<Longrightarrow> take i xs = take i ys \<Longrightarrow> ys ! i = v
    \<Longrightarrow> take (Suc i) (xs[i := v]) = take (Suc i) ys"
  by (simp add: take_Suc_conv_app_nth list_update_append)

lemma reads_orbit_satellite:
  assumes ss: "\<forall>s \<in> set ss. well_formed_system s" "length ss < 16" and ob: "well_formed_orbits ss ob"
    and i: "i < total_satellites ss"
  shows "reads (orbits_read h ss ob r rest i) (read_orbit_satellite i) (orbits_read h ss ob r rest (Suc i))"
  unfolding reads_def
proof (intro allI impI)
  fix st assume st: "orbits_read h ss ob r rest i st"
  let ?g = "satellite_systems ss ! i" and ?c = "snd ob ! i"
  have len: "length (snd ob) = total_satellites ss" using ob by (simp add: well_formed_orbits_def)
  have d: "drop i (zip (satellite_systems ss) (snd ob)) = (?g, ?c) # drop (Suc i) (zip (satellite_systems ss) (snd ob))"
    using i len Cons_nth_drop_Suc[of i "zip (satellite_systems ss) (snd ob)"] by simp
  have wf: "well_formed_orbit ?g ?c"
    using ob i list_all2_nthD[of well_formed_orbit "satellite_systems ss" "snd ob" i]
    by (simp add: well_formed_orbits_def)
  have "mask_in_data ss (data_of st)" using st by (simp add: orbits_read_def after_mask_def)
  then have g: "get_gnss_id i (data_of st) = Some (of_nat ?g)"
    using get_gnss_id_eq i ss(2) by simp
  have "?g = 0 \<or> ?g = 2" by (rule satellite_systems_nth[OF ss(1) i])
  then show "\<exists>st'. read_orbit_satellite i st = Continues st' \<and> orbits_read h ss ob r rest (Suc i) st'"
    using st wf i g d len unfolding read_orbit_satellite_def read_iod_def read_deltas_def orbits_read_def after_mask_def
    by (elim disjE) (simp_all add: step_simps send_orbit_def well_formed_orbit_def iod_length_def
        take_Suc_nth_update iods_of_def)
qed

text \<open>The corrections so far and the table of the issues of data.\<close>

definition orbits_done :: "(nat \<times> orbit_correction list) option \<Rightarrow> (u8 \<times> u8 \<rightharpoonup> u16 list) \<Rightarrow> u16 list
    \<Rightarrow> has_receiver \<Rightarrow> bool" where
  "orbits_done ob r iods rx \<longleftrightarrow> (case ob of None \<Rightarrow> True | Some b \<Rightarrow> orbits_in_data b (d_HAS_data rx))
     \<and> d_iod_ref_map rx = r \<and> gnss_iod (d_HAS_data rx) = iods"

lemma orbits_read_all:
  assumes "orbits_read h ss ob r rest (total_satellites ss) st" "well_formed_orbits ss ob"
  shows "after_mask h ss rest st" "orbits_done (Some ob) r (iods_of ob) (body_receiver st)"
proof -
  have n: "length (snd ob) = total_satellites ss" "length (iods_of ob) = total_satellites ss"
    using assms(2) by (simp_all add: well_formed_orbits_def iods_of_def)
  show "after_mask h ss rest st" using assms(1) n by (simp add: orbits_read_def)
  show "orbits_done (Some ob) r (iods_of ob) (body_receiver st)"
    using assms(1) n unfolding orbits_read_def orbits_done_def orbits_in_data_def by (elim conjE) simp
qed

lemma reads_orbits:
  assumes ss: "\<forall>s \<in> set ss. well_formed_system s" "length ss < 16" and ob: "well_formed_orbits ss ob"
    and h: "orbit_correction_flag h"
  shows "reads (\<lambda>st. after_mask h ss (send_orbits ss ob @ rest) st \<and> d_iod_ref_map (body_receiver st) = r)
    read_orbit_corrections
    (\<lambda>st. after_mask h ss rest st
      \<and> orbits_done (Some ob) (r((iod_set_id h, mask_id h) \<mapsto> iods_of ob)) (iods_of ob) (body_receiver st))"
  unfolding reads_def
proof (intro allI impI, elim conjE)
  fix st assume st: "after_mask h ss (send_orbits ss ob @ rest) st" "d_iod_ref_map (body_receiver st) = r"
  let ?A = "take_field 4 (\<lambda>f. on_data (\<lambda>d. d\<lparr> validity_interval_index_orbit_corrections := read_has_message_body_uint8 f \<rparr>))"
    and ?loop = "run_steps (map read_orbit_satellite [0..<total_satellites ss])"
  have flags: "orbit_correction_flag (header_of st) \<and> have_mask st" "Nsat st = total_satellites ss"
    using st(1) h by (auto simp: after_mask_def)
  have "fst ob < 2 ^ 4" using ob by (simp add: well_formed_orbits_def)
  then obtain st1 where 1: "run_steps [?A, allocate_orbits] st = Continues st1" "orbits_read h ss ob r rest 0 st1"
    using st unfolding orbits_read_def after_mask_def
    by (simp add: step_simps send_orbits_def allocate_orbits_def)
  have "reads (orbits_read h ss ob r rest 0) ?loop (orbits_read h ss ob r rest (total_satellites ss))"
    by (rule reads_loop) (rule reads_orbit_satellite[OF ss ob])
  then obtain st2 where 2: "?loop st1 = Continues st2" "orbits_read h ss ob r rest (total_satellites ss) st2"
    using 1(2) unfolding reads_def by blast
  have "read_orbit_corrections st = run_steps ([?A, allocate_orbits] @ [?loop, remember_iods]) st"
    unfolding read_orbit_corrections_def using flags by simp
  also have "\<dots> = remember_iods st2"
    unfolding run_steps_append 1(1) outcome.case by (simp add: 2(1) remember_iods_def)
  finally show "\<exists>s'. read_orbit_corrections st = Continues s' \<and> after_mask h ss rest s'
      \<and> orbits_done (Some ob) (r((iod_set_id h, mask_id h) \<mapsto> iods_of ob)) (iods_of ob) (body_receiver s')"
    using orbits_read_all[OF 2(2) ob] by (auto simp: remember_iods_def after_mask_def orbits_done_def step_simps)
qed

end
