(* ===== verification/Has_Frame.thy ===== *)
theory Has_Frame
  imports Has_Mask
begin

text \<open>
  What reading a body leaves alone, whatever the message holds and wherever it breaks off: the
  collected pages, the outputs and the shape of the store of masks.
\<close>

definition outside :: "has_receiver \<Rightarrow> reed_solomon \<times> u64 list list \<times> u8 list list list \<times> u8 list list
    \<times> u8 list list \<times> u64 list \<times> bool list \<times> (u8 \<times> u8 \<times> bool \<times> bool) \<times> has_data list \<times> string list" where
  "outside rx = (d_rs rx, d_received_timestamps rx, d_C_matrix rx, d_M_matrix rx, d_received_pids rx,
     d_printed_timestamps rx, d_printed_mids rx,
     (d_current_has_status rx, d_current_message_id rx, d_new_message rx, d_enable_navdata_monitor rx),
     E6_HAS_to_PVT rx, Nav_msg_from_TLM rx)"

lemma outside_frame [simp]:
  "outside (rx\<lparr> d_HAS_data := a \<rparr>) = outside rx" "outside (rx\<lparr> d_nsat_in_mask_id := b \<rparr>) = outside rx"
  "outside (rx\<lparr> d_gnss_id_in_mask := c \<rparr>) = outside rx" "outside (rx\<lparr> d_satellite_mask := d \<rparr>) = outside rx"
  "outside (rx\<lparr> d_signal_mask := e \<rparr>) = outside rx" "outside (rx\<lparr> d_cell_mask_availability_flag := f \<rparr>) = outside rx"
  "outside (rx\<lparr> d_cell_mask := g \<rparr>) = outside rx" "outside (rx\<lparr> d_nsys_in_mask := h \<rparr>) = outside rx"
  "outside (rx\<lparr> d_nav_message_mask := i \<rparr>) = outside rx" "outside (rx\<lparr> d_iod_ref_map := j \<rparr>) = outside rx"
  by (simp_all add: outside_def)

lemma length_store_at [simp]: "length (store_at m i v xs) = length xs"
  by (simp add: store_at_def)

lemma rows_of_16_store_at [simp]:
  assumes "rows_of_16 xs"
  shows "rows_of_16 (store_at m i v xs)"
proof (cases "m < length xs")
  case True
  then have "length ((xs ! m)[i := v]) = 16" using assms by (simp add: rows_of_16_def)
  then show ?thesis
    using assms set_update_subset_insert[of xs m "(xs ! m)[i := v]"] by (auto simp: rows_of_16_def store_at_def)
next
  case False
  then show ?thesis using assms by (simp add: store_at_def list_update_beyond not_less)
qed

lemma store_shape_frame [simp]:
  "store_shape (rx\<lparr> d_HAS_data := a \<rparr>) = store_shape rx" "store_shape (rx\<lparr> d_iod_ref_map := j \<rparr>) = store_shape rx"
  by (simp_all add: store_shape_def)

lemma store_shape_updates [simp]:
  assumes "store_shape rx"
  shows "store_shape (rx\<lparr> d_nsat_in_mask_id := (d_nsat_in_mask_id rx)[m := n] \<rparr>)"
    "store_shape (rx\<lparr> d_HAS_data := a, d_nsys_in_mask := (d_nsys_in_mask rx)[m := s] \<rparr>)"
    "store_shape (rx\<lparr> d_nsat_in_mask_id := (d_nsat_in_mask_id rx)[m := n], d_cell_mask := (d_cell_mask rx)[m := c] \<rparr>)"
    "store_shape (rx\<lparr> d_HAS_data := a, d_gnss_id_in_mask := store_at m i v1 (d_gnss_id_in_mask rx) \<rparr>)"
    "store_shape (rx\<lparr> d_HAS_data := a, d_satellite_mask := store_at m i v2 (d_satellite_mask rx) \<rparr>)"
    "store_shape (rx\<lparr> d_HAS_data := a, d_signal_mask := store_at m i v3 (d_signal_mask rx) \<rparr>)"
    "store_shape (rx\<lparr> d_HAS_data := a, d_cell_mask_availability_flag := store_at m i v4 (d_cell_mask_availability_flag rx) \<rparr>)"
    "store_shape (rx\<lparr> d_HAS_data := a, d_nav_message_mask := store_at m i v5 (d_nav_message_mask rx) \<rparr>)"
  using assms unfolding store_shape_def by simp_all

section \<open>Rules\<close>

text \<open>The invariants: what is outside the body, and with it the issues of data while the mask is read.\<close>

definition frame :: "has_receiver \<Rightarrow> body_reader \<Rightarrow> bool" where
  "frame rx st \<longleftrightarrow> outside (body_receiver st) = outside rx \<and> store_shape (body_receiver st)"

definition mask_frame :: "has_receiver \<Rightarrow> body_reader \<Rightarrow> bool" where
  "mask_frame rx st \<longleftrightarrow> frame rx st \<and> d_iod_ref_map (body_receiver st) = d_iod_ref_map rx
     \<and> gnss_iod (data_of st) = gnss_iod (d_HAS_data rx)"

lemma frame_field:
  "(\<And>f st. frame rx st \<Longrightarrow> frame rx (assign f st)) \<Longrightarrow> preserves (frame rx) (take_field n assign)"
  by (rule preserves_take_field) (simp_all add: frame_def)

lemma mask_frame_field:
  "(\<And>f st. mask_frame rx st \<Longrightarrow> mask_frame rx (assign f st)) \<Longrightarrow> preserves (mask_frame rx) (take_field n assign)"
  by (rule preserves_take_field) (simp_all add: mask_frame_def frame_def)

lemma frame_read_cell_mask: "preserves (mask_frame rx) (read_cell_mask i)"
  by (auto simp: preserves_def read_cell_mask_def take_field_def mask_frame_def frame_def Let_def)

lemma frame_read_mask_system: "preserves (mask_frame rx) (read_mask_system i)"
  unfolding read_mask_system_def
  by (intro frame_rules mask_frame_field frame_read_cell_mask preserves_Continues)
    (simp_all add: mask_frame_def frame_def Let_def)

lemma frame_allocate_mask: "preserves (mask_frame rx) (allocate_mask n)"
  unfolding allocate_mask_def by (rule preserves_Continues) (simp add: mask_frame_def frame_def)

lemma frame_store_mask_totals: "preserves (mask_frame rx) store_mask_totals"
  unfolding store_mask_totals_def by (rule preserves_Continues) (simp add: mask_frame_def frame_def)

lemma frame_set_have_mask: "preserves (mask_frame rx) set_have_mask"
  unfolding set_have_mask_def by (rule preserves_Continues) (simp add: mask_frame_def frame_def)

lemma frame_skip: "preserves (mask_frame rx) (take_field n (\<lambda>f st. st))"
  by (rule mask_frame_field)

lemma frame_read_mask: "preserves (mask_frame rx) read_mask"
  unfolding read_mask_def Let_def
proof (rule preserves_comp)
  fix st
  let ?n = "read_has_message_body_uint8 (take 4 (body_message st))"
  show "preserves (mask_frame rx) (run_steps ((if ?n = 0 then [] else
          [take_field 4 (\<lambda>f st. st), allocate_mask (unat ?n), run_steps (map read_mask_system [0..<unat ?n]),
           store_mask_totals, take_field 6 (\<lambda>f st. st)]) @ [set_have_mask]))"
    by (rule preserves_run_steps)
      (auto split: if_splits intro: frame_allocate_mask frame_store_mask_totals frame_set_have_mask frame_skip
        frame_read_mask_system preserves_map)
qed (simp add: mask_frame_def frame_def)

lemma frame_read_or_use_mask: "preserves (mask_frame rx) read_or_use_mask"
  unfolding read_or_use_mask_def
proof (rule preserves_if)
  show "preserves (mask_frame rx) (\<lambda>st. Continues (use_stored_mask st))"
    by (rule preserves_Continues) (simp add: mask_frame_def frame_def use_stored_mask_def Let_def)
qed (rule frame_read_mask)

section \<open>Corrections and biases\<close>

lemma frame_data [frame_rules]: "preserves (frame rx) (take_field n (\<lambda>f. on_data (g f)))"
  by (rule frame_field) (simp add: frame_def)

lemma frame_on_data: "preserves (frame rx) (\<lambda>st. Continues (on_data (g st) st))"
  by (rule preserves_Continues) (simp add: frame_def)

lemma preserves_Undefined [frame_rules]: "preserves P (\<lambda>st. Undefined)"
  by (simp add: preserves_def)

lemma preserves_skip [frame_rules]: "preserves P Continues"
  by (simp add: preserves_def)

text \<open>Steps that depend on the state.\<close>

lemma preserves_run_on:
  "(\<And>s. P s \<Longrightarrow> P (g s)) \<Longrightarrow> (\<And>s. preserves P (run_steps (fs s))) \<Longrightarrow> preserves P (\<lambda>s. run_steps (fs s) (g s))"
  unfolding preserves_def by blast

lemma preserves_run_at: "(\<And>s. preserves P (run_steps (fs s))) \<Longrightarrow> preserves P (\<lambda>s. run_steps (fs s) s)"
  unfolding preserves_def by blast

lemma preserves_case:
  "(\<And>x. preserves P (f x)) \<Longrightarrow> preserves P (\<lambda>s. case y s of None \<Rightarrow> Undefined | Some x \<Rightarrow> f x s)"
  unfolding preserves_def by (simp split: option.split)

lemma frame_discard_crazy: "preserves (frame rx) discard_crazy"
  unfolding discard_crazy_def by (rule preserves_Continues) (simp add: frame_def)

lemma frame_iod: "preserves (frame rx) (read_iod g i)"
proof -
  have "preserves (frame rx) (\<lambda>st. Continues (st\<lparr> have_mask := False \<rparr>))"
    by (rule preserves_Continues) (simp add: frame_def)
  then show ?thesis unfolding read_iod_def by (simp only: split: if_split) (intro conjI impI frame_data TrueI; assumption)
qed

lemma frame_deltas: "preserves (frame rx) (read_deltas i)"
  unfolding read_deltas_def by (intro preserves_if frame_rules)

lemma frame_orbit_satellite: "preserves (frame rx) (read_orbit_satellite i)"
  unfolding read_orbit_satellite_def
  by (rule preserves_case) (intro frame_rules frame_iod frame_deltas)

lemma frame_orbit_corrections: "preserves (frame rx) read_orbit_corrections"
proof -
  have s: "preserves (frame rx) allocate_orbits" "preserves (frame rx) remember_iods"
    unfolding allocate_orbits_def remember_iods_def
    by (rule preserves_Continues, simp add: frame_def)+
  show ?thesis
    unfolding read_orbit_corrections_def
    by (rule preserves_if, rule preserves_skip, rule preserves_run_at) (intro frame_rules frame_orbit_satellite s)
qed

lemma frame_clock_fullset: "preserves (frame rx) read_clock_fullset"
proof -
  have s: "preserves (frame rx) allocate_clock_multipliers" "preserves (frame rx) allocate_clock_corrections"
    unfolding allocate_clock_multipliers_def allocate_clock_corrections_def
    by (rule preserves_Continues, simp add: frame_def)+
  have r: "preserves (frame rx) recall_iods"
    unfolding recall_iods_def
    by (rule preserves_Continues) (simp add: frame_def split: option.split)
  show ?thesis
    unfolding read_clock_fullset_def read_clock_multiplier_def read_clock_correction_def
    by (rule preserves_if, rule preserves_skip, rule preserves_run_at) (intro frame_rules s r)
qed

lemma frame_subset_corrections: "preserves (frame rx) (read_subset_corrections i n)"
  unfolding read_subset_corrections_def read_subset_correction_def Let_def
  by (rule preserves_if, rule preserves_Undefined, rule preserves_run_at) (intro frame_rules)

lemma frame_submask: "preserves (frame rx) (read_submask i)"
  unfolding read_submask_def Let_def
  by (rule preserves_case, rule preserves_run_at) (intro frame_rules frame_subset_corrections)

lemma frame_clock_subset: "preserves (frame rx) read_clock_subset"
proof -
  have a: "preserves (frame rx) allocate_subset"
    unfolding allocate_subset_def Let_def by (rule preserves_Continues) (simp add: frame_def)
  have "preserves (frame rx) (read_subset_system i)" for i
    unfolding read_subset_system_def by (intro frame_rules frame_submask)
  then have s: "preserves (frame rx) read_subset_systems"
    unfolding read_subset_systems_def by (rule preserves_run_at[OF preserves_map])
  show ?thesis
    unfolding read_clock_subset_def by (rule preserves_if, rule preserves_skip) (intro frame_rules a s)
qed

lemma frame_code_bias: "preserves (frame rx) read_code_bias"
proof -
  have c: "preserves (frame rx) (read_code_bias_cell x)" for x
    unfolding read_code_bias_cell_def Let_def case_prod_unfold
    by (rule preserves_if) (rule preserves_Undefined, rule frame_data)
  have b: "preserves (frame rx) read_code_bias_cells"
    unfolding read_code_bias_cells_def
    by (rule preserves_case, rule preserves_run_on, simp add: frame_def, rule preserves_map, rule c)
  show ?thesis
    unfolding read_code_bias_def by (rule preserves_if, rule preserves_skip) (intro frame_rules b)
qed

lemma frame_phase_bias: "preserves (frame rx) read_phase_bias"
proof -
  have c: "preserves (frame rx) (read_phase_bias_cell x)" for x
    unfolding read_phase_bias_cell_def Let_def case_prod_unfold
    by (rule preserves_if, rule preserves_Undefined) (intro frame_rules)
  have b: "preserves (frame rx) read_phase_bias_cells"
    unfolding read_phase_bias_cells_def
    by (rule preserves_case, rule preserves_run_on, simp add: frame_def, rule preserves_map, rule c)
  show ?thesis
    unfolding read_phase_bias_def by (rule preserves_if, rule preserves_skip) (intro frame_rules b)
qed

text \<open>The body as a whole.\<close>

lemma read_MT1_body_frame:
  assumes "store_shape rx"
  shows "read_MT1_body m rx = Continues st \<Longrightarrow> frame rx st" "read_MT1_body m rx = Throws st \<Longrightarrow> frame rx st"
proof -
  let ?st = "\<lparr> body_message = m, body_receiver = rx, Nsat = 0, have_mask = False, ones_in_satellite_mask = 0,
      ones_in_signal_mask = 0 \<rparr>"
  let ?rest = "[discard_crazy, read_orbit_corrections, read_clock_fullset, read_clock_subset, read_code_bias, read_phase_bias]"
  have start: "mask_frame rx ?st" using assms by (simp add: mask_frame_def frame_def)
  have rest: "preserves (frame rx) (run_steps ?rest)"
    by (intro frame_rules frame_discard_crazy frame_orbit_corrections frame_clock_fullset frame_clock_subset
        frame_code_bias frame_phase_bias)
  show "frame rx st" if "read_MT1_body m rx = Continues st"
  proof (cases "read_or_use_mask ?st")
    case (Continues s1)
    then have "frame rx s1" using preservesD(1)[OF frame_read_or_use_mask start] by (simp add: mask_frame_def)
    moreover have "run_steps ?rest s1 = Continues st" using that Continues unfolding read_MT1_body_def by (simp only: run_steps.simps(2)[of read_or_use_mask] outcome.case)
    ultimately show ?thesis by (rule preservesD(1)[OF rest])
  qed (use that in \<open>simp_all add: read_MT1_body_def\<close>)
  show "frame rx st" if "read_MT1_body m rx = Throws st"
  proof (cases "read_or_use_mask ?st")
    case (Continues s1)
    then have "frame rx s1" using preservesD(1)[OF frame_read_or_use_mask start] by (simp add: mask_frame_def)
    moreover have "run_steps ?rest s1 = Throws st" using that Continues unfolding read_MT1_body_def by (simp only: run_steps.simps(2)[of read_or_use_mask] outcome.case)
    ultimately show ?thesis by (rule preservesD(2)[OF rest])
  next
    case (Throws s1)
    then show ?thesis using that preservesD(2)[OF frame_read_or_use_mask start] by (simp add: read_MT1_body_def mask_frame_def)
  qed (use that in \<open>simp_all add: read_MT1_body_def\<close>)
qed

end
