(* ===== verification/Has_Contents.thy ===== *)
theory Has_Contents
  imports Has_Corrections Has_Frame
begin

text \<open>
  Clock corrections, and the round trip of a whole message: what a sender encodes into header, mask,
  orbit and clock blocks is what the reader stores.
\<close>

section \<open>Clock corrections\<close>

record clock_corrections =
  clock_validity :: nat
  clock_multipliers :: "nat list"
  clock_values :: "int list"

definition well_formed_clocks :: "has_system list \<Rightarrow> clock_corrections \<Rightarrow> bool" where
  "well_formed_clocks ss c \<longleftrightarrow> clock_validity c < 2 ^ 4 \<and> length (clock_multipliers c) = length ss
     \<and> (\<forall>m \<in> set (clock_multipliers c). 1 \<le> m \<and> m \<le> 4) \<and> length (clock_values c) = total_satellites ss
     \<and> (\<forall>v \<in> set (clock_values c). - (2 ^ 12) \<le> v \<and> v < 2 ^ 12)"

definition send_clocks :: "clock_corrections \<Rightarrow> string" where
  "send_clocks c = field_of 4 (clock_validity c) @ concat (map (\<lambda>m. field_of 2 (m - 1)) (clock_multipliers c))
     @ concat (map (signed_field_of 13) (clock_values c))"

definition clocks_in_data :: "clock_corrections \<Rightarrow> has_data \<Rightarrow> bool" where
  "clocks_in_data c d \<longleftrightarrow> validity_interval_index_clock_fullset_corrections d = of_nat (clock_validity c)
     \<and> delta_clock_multiplier d = map of_nat (clock_multipliers c)
     \<and> delta_clock_correction d = map word_of_int (clock_values c)"

lemma orbits_in_data_frame [step_simps]:
  "orbits_in_data b (d\<lparr> validity_interval_index_clock_fullset_corrections := v4 \<rparr>) = orbits_in_data b d"
  "orbits_in_data b (d\<lparr> delta_clock_multiplier := v5 \<rparr>) = orbits_in_data b d"
  "orbits_in_data b (d\<lparr> delta_clock_correction := v3 \<rparr>) = orbits_in_data b d"
  "orbits_in_data b (d\<lparr> gnss_iod := v2 \<rparr>) = orbits_in_data b d"
  by (simp_all add: orbits_in_data_def)

lemma clocks_in_data_frame [step_simps]:
  "clocks_in_data b (d\<lparr> gnss_iod := v2 \<rparr>) = clocks_in_data b d"
  by (simp_all add: clocks_in_data_def)

definition clocks_read :: "mt1_header \<Rightarrow> has_system list \<Rightarrow> (nat \<times> orbit_correction list) option
    \<Rightarrow> (u8 \<times> u8 \<rightharpoonup> u16 list) \<Rightarrow> u16 list \<Rightarrow> clock_corrections \<Rightarrow> string \<Rightarrow> nat \<Rightarrow> nat \<Rightarrow> body_reader \<Rightarrow> bool" where
  "clocks_read h ss ob r iods c rest i j st \<longleftrightarrow>
     after_mask h ss (concat (map (\<lambda>m. field_of 2 (m - 1)) (drop i (clock_multipliers c)))
       @ concat (map (signed_field_of 13) (drop j (clock_values c))) @ rest) st
   \<and> orbits_done ob r iods (body_receiver st)
   \<and> validity_interval_index_clock_fullset_corrections (data_of st) = of_nat (clock_validity c)
   \<and> length (delta_clock_multiplier (data_of st)) = length ss
   \<and> take i (delta_clock_multiplier (data_of st)) = take i (map of_nat (clock_multipliers c))
   \<and> (0 < j \<longrightarrow> length (delta_clock_correction (data_of st)) = total_satellites ss
       \<and> take j (delta_clock_correction (data_of st)) = take j (map word_of_int (clock_values c)))"

lemma reads_clock_multiplier:
  assumes "well_formed_clocks ss c" "i < length ss"
  shows "reads (clocks_read h ss ob r iods c rest i 0) (read_clock_multiplier i) (clocks_read h ss ob r iods c rest (Suc i) 0)"
  unfolding reads_def
proof (intro allI impI)
  fix st assume st: "clocks_read h ss ob r iods c rest i 0 st"
  let ?m = "clock_multipliers c ! i"
  have len: "length (clock_multipliers c) = length ss" using assms(1) by (simp add: well_formed_clocks_def)
  then have "?m \<in> set (clock_multipliers c)" using assms(2) by simp
  then have m: "1 \<le> ?m" "?m - 1 < 2 ^ 2" using assms(1) by (auto simp: well_formed_clocks_def)
  have rd: "read_has_message_body_uint8 (field_of 2 (?m - 1)) + 1 = of_nat ?m"
    using m read_small_fields(1)[of "?m - 1" 2] by (simp add: of_nat_diff)
  have d: "drop i (clock_multipliers c) = ?m # drop (Suc i) (clock_multipliers c)"
    using assms(2) len Cons_nth_drop_Suc[of i "clock_multipliers c"] by simp
  show "\<exists>st'. read_clock_multiplier i st = Continues st' \<and> clocks_read h ss ob r iods c rest (Suc i) 0 st'"
    using st assms(2) d len rd
    unfolding read_clock_multiplier_def clocks_read_def after_mask_def orbits_done_def
    by (cases ob) (simp_all add: step_simps take_Suc_nth_update)
qed

lemma reads_clock_correction:
  assumes "well_formed_clocks ss c" "j < total_satellites ss"
  shows "reads (\<lambda>st. clocks_read h ss ob r iods c rest (length ss) j st
      \<and> length (delta_clock_correction (data_of st)) = total_satellites ss)
    (read_clock_correction j)
    (\<lambda>st. clocks_read h ss ob r iods c rest (length ss) (Suc j) st
      \<and> length (delta_clock_correction (data_of st)) = total_satellites ss)"
  unfolding reads_def
proof (intro allI impI, elim conjE)
  fix st assume st: "clocks_read h ss ob r iods c rest (length ss) j st"
    and l: "length (delta_clock_correction (data_of st)) = total_satellites ss"
  let ?v = "clock_values c ! j"
  have len: "length (clock_values c) = total_satellites ss" "length (clock_multipliers c) = length ss"
    using assms(1) by (simp_all add: well_formed_clocks_def)
  then have "?v \<in> set (clock_values c)" using assms(2) by simp
  then have v: "- 4096 \<le> ?v" "?v < 4096" using assms(1) by (auto simp: well_formed_clocks_def)
  have d: "drop j (clock_values c) = ?v # drop (Suc j) (clock_values c)"
    using assms(2) len Cons_nth_drop_Suc[of j "clock_values c"] by simp
  have t: "take j (delta_clock_correction (data_of st)) = take j (map word_of_int (clock_values c))"
    using st by (cases "j = 0") (simp_all add: clocks_read_def)
  show "\<exists>st'. read_clock_correction j st = Continues st'
      \<and> clocks_read h ss ob r iods c rest (length ss) (Suc j) st'
      \<and> length (delta_clock_correction (data_of st')) = total_satellites ss"
    using st assms(2) d len v l t
    unfolding read_clock_correction_def clocks_read_def after_mask_def orbits_done_def
    by (cases ob) (simp_all add: step_simps take_Suc_nth_update)
qed

lemma reads_clocks:
  assumes c: "well_formed_clocks ss c" "length ss < 16" and h: "clock_fullset_flag h"
  shows "reads (\<lambda>st. after_mask h ss (send_clocks c @ rest) st \<and> orbits_done ob r iods (body_receiver st))
    read_clock_fullset
    (\<lambda>st. after_mask h ss rest st \<and> clocks_in_data c (data_of st)
      \<and> orbits_done ob r (case r (iod_set_id h, mask_id h) of None \<Rightarrow> iods | Some v \<Rightarrow> v) (body_receiver st))"
  unfolding reads_def
proof (intro allI impI, elim conjE)
  fix st assume st: "after_mask h ss (send_clocks c @ rest) st" "orbits_done ob r iods (body_receiver st)"
  let ?A = "take_field 4 (\<lambda>f. on_data (\<lambda>d. d\<lparr> validity_interval_index_clock_fullset_corrections := read_has_message_body_uint8 f \<rparr>))"
    and ?B = "run_steps (map read_clock_multiplier [0..<length ss])"
    and ?C = "run_steps (map read_clock_correction [0..<total_satellites ss])"
  have len: "length (clock_values c) = total_satellites ss" "length (clock_multipliers c) = length ss"
    using c(1) by (simp_all add: well_formed_clocks_def)
  have n: "Nsys (data_of st) = of_nat (length ss)" using st(1) by (simp add: after_mask_def mask_in_data_def)
  then have n: "unat (Nsys (data_of st)) = length ss" using c(2) by (simp add: unat_of_nat_less)
  have flags: "clock_fullset_flag (header_of st) \<and> have_mask st" "Nsat st = total_satellites ss"
    using st(1) h by (auto simp: after_mask_def)
  have "clock_validity c < 2 ^ 4" using c(1) by (simp add: well_formed_clocks_def)
  then obtain st1 where 1: "run_steps [?A, allocate_clock_multipliers] st = Continues st1"
    "clocks_read h ss ob r iods c rest 0 0 st1"
    using st n unfolding clocks_read_def after_mask_def orbits_done_def
    by (cases ob) (simp_all add: step_simps send_clocks_def allocate_clock_multipliers_def)
  have "reads (clocks_read h ss ob r iods c rest 0 0) ?B (clocks_read h ss ob r iods c rest (length ss) 0)"
    by (rule reads_loop) (rule reads_clock_multiplier[OF c(1)])
  then obtain st2 where 2: "?B st1 = Continues st2" "clocks_read h ss ob r iods c rest (length ss) 0 st2"
    using 1(2) unfolding reads_def by blast
  obtain st3 where 3: "allocate_clock_corrections st2 = Continues st3"
    "clocks_read h ss ob r iods c rest (length ss) 0 st3"
    "length (delta_clock_correction (data_of st3)) = total_satellites ss"
    using 2(2) unfolding clocks_read_def after_mask_def orbits_done_def allocate_clock_corrections_def
    by (cases ob) (simp_all add: step_simps)
  have "reads (\<lambda>st. clocks_read h ss ob r iods c rest (length ss) 0 st
      \<and> length (delta_clock_correction (data_of st)) = total_satellites ss) ?C
    (\<lambda>st. clocks_read h ss ob r iods c rest (length ss) (total_satellites ss) st
      \<and> length (delta_clock_correction (data_of st)) = total_satellites ss)"
    by (rule reads_loop) (rule reads_clock_correction[OF c(1)])
  then obtain st4 where 4: "?C st3 = Continues st4"
    "clocks_read h ss ob r iods c rest (length ss) (total_satellites ss) st4"
    "length (delta_clock_correction (data_of st4)) = total_satellites ss"
    using 3(2,3) unfolding reads_def by blast
  have d: "after_mask h ss rest st4" "orbits_done ob r iods (body_receiver st4)" "clocks_in_data c (data_of st4)"
  proof -
    show "after_mask h ss rest st4" "orbits_done ob r iods (body_receiver st4)"
      using 4(2) len by (simp_all add: clocks_read_def)
    have "length (delta_clock_multiplier (data_of st4)) = length ss"
      "take (length ss) (delta_clock_multiplier (data_of st4)) = map of_nat (clock_multipliers c)"
      using 4(2) len(2) by (simp_all add: clocks_read_def)
    then have "delta_clock_multiplier (data_of st4) = map of_nat (clock_multipliers c)" by simp
    then show "clocks_in_data c (data_of st4)"
      using 4(2,3) len by (cases "total_satellites ss = 0") (simp_all add: clocks_read_def clocks_in_data_def)
  qed
  have "read_clock_fullset st = run_steps ([?A, allocate_clock_multipliers]
      @ [?B, allocate_clock_corrections, ?C, recall_iods]) st"
    unfolding read_clock_fullset_def using flags n by simp
  also have "\<dots> = recall_iods st4"
    unfolding run_steps_append 1(1) outcome.case by (simp add: 2(1) 3(1) 4(1) recall_iods_def)
  finally have e: "read_clock_fullset st = recall_iods st4" .
  have r: "d_iod_ref_map (body_receiver st4) = r" "header_of st4 = h" "gnss_iod (data_of st4) = iods"
    using d(1,2) by (simp_all add: after_mask_def orbits_done_def)
  show "\<exists>s'. read_clock_fullset st = Continues s' \<and> after_mask h ss rest s' \<and> clocks_in_data c (data_of s')
      \<and> orbits_done ob r (case r (iod_set_id h, mask_id h) of None \<Rightarrow> iods | Some v \<Rightarrow> v) (body_receiver s')"
    using d r unfolding e recall_iods_def after_mask_def orbits_done_def
    by (cases "r (iod_set_id h, mask_id h)"; cases ob) (simp_all add: step_simps)
qed

section \<open>Header\<close>

definition well_formed_header :: "mt1_header \<Rightarrow> bool" where
  "well_formed_header h \<longleftrightarrow> unat (toh h) < 2 ^ 12 \<and> unat (header_reserved h) < 2 ^ 4
     \<and> unat (mask_id h) < 2 ^ 5 \<and> unat (iod_set_id h) < 2 ^ 5"

definition send_header :: "mt1_header \<Rightarrow> string" where
  "send_header h = field_of 12 (unat (toh h)) @ map char_of_bit [mask_flag h, orbit_correction_flag h,
     clock_fullset_flag h, clock_subset_flag h, code_bias_flag h, phase_bias_flag h]
     @ field_of 4 (unat (header_reserved h)) @ field_of 5 (unat (mask_id h)) @ field_of 5 (unat (iod_set_id h))"

lemma length_send_header [simp]: "length (send_header h) = 32"
  by (simp add: send_header_def)

lemma binary_send_header [simp]: "binary (send_header h)"
  unfolding send_header_def by (intro binary_append[THEN iffD2] conjI binary_field_of binary_map_char_of_bit)

lemma read_MT1_header_send:
  assumes "well_formed_header h"
  shows "read_MT1_header (send_header h) d = Some (d\<lparr> mt1_header := h \<rparr>)"
proof -
  define b where "b = bits_in (send_header h)"
  have b: "b = bits_in (field_of 12 (unat (toh h))) @ [mask_flag h, orbit_correction_flag h, clock_fullset_flag h,
      clock_subset_flag h, code_bias_flag h, phase_bias_flag h] @ bits_in (field_of 4 (unat (header_reserved h)))
      @ bits_in (field_of 5 (unat (mask_id h))) @ bits_in (field_of 5 (unat (iod_set_id h)))"
    unfolding b_def send_header_def bits_in_append bits_in_map_char_of_bit ..
  have flags: "rev b ! 19 = mask_flag h" "rev b ! 18 = orbit_correction_flag h" "rev b ! 17 = clock_fullset_flag h"
    "rev b ! 16 = clock_subset_flag h" "rev b ! 15 = code_bias_flag h" "rev b ! 14 = phase_bias_flag h"
    unfolding b by (simp_all add: nth_append)
  have p: "(read_parameter 32 (rev b) (first, len) :: 'a::len word)
      = of_nat (bit_val (take len (drop (first - 1) b)))" if "0 < first" "first + len \<le> 33" for first len
    using read_parameter_eq[of "send_header h" 32 first len] that by (simp add: b_def)
  have v: "bit_val (take 12 b) = unat (toh h)" "bit_val (take 4 (drop 18 b)) = unat (header_reserved h)"
    "bit_val (take 5 (drop 22 b)) = unat (mask_id h)" "bit_val (take 5 (drop 27 b)) = unat (iod_set_id h)"
    using assms unfolding b well_formed_header_def by simp_all
  have "bitset 32 (send_header h) = Some (rev b)" by (simp add: bitset_Some b_def)
  then show ?thesis
    by (simp add: read_MT1_header_def mt1_header_places read_has_message_header_parameter_uint16_def
        read_has_message_header_parameter_uint8_def read_has_message_header_parameter_bool_def Let_def
        p flags v)
qed

section \<open>Messages\<close>

record has_contents =
  con_header :: mt1_header
  con_systems :: "has_system list"
  con_orbits :: "(nat \<times> orbit_correction list) option"
  con_clocks :: "clock_corrections option"

text \<open>Messages with a mask, or after one with the same mask identifier; orbit and clock corrections
  as they come. The blocks that are not there have their flags cleared.\<close>

definition well_formed_contents :: "has_contents \<Rightarrow> bool" where
  "well_formed_contents c \<longleftrightarrow> well_formed_header (con_header c) \<and> unat (toh (con_header c)) \<le> 3599
     \<and> (\<forall>s \<in> set (con_systems c). well_formed_system s) \<and> length (con_systems c) < 16
     \<and> 0 < total_satellites (con_systems c)
     \<and> (orbit_correction_flag (con_header c) \<longleftrightarrow> con_orbits c \<noteq> None)
     \<and> (clock_fullset_flag (con_header c) \<longleftrightarrow> con_clocks c \<noteq> None)
     \<and> \<not> clock_subset_flag (con_header c) \<and> \<not> code_bias_flag (con_header c) \<and> \<not> phase_bias_flag (con_header c)
     \<and> (case con_orbits c of None \<Rightarrow> True | Some ob \<Rightarrow> well_formed_orbits (con_systems c) ob)
     \<and> (case con_clocks c of None \<Rightarrow> True | Some ck \<Rightarrow> well_formed_clocks (con_systems c) ck)"

definition send_body :: "has_contents \<Rightarrow> string" where
  "send_body c = (if mask_flag (con_header c) then send_mask (con_systems c) else [])
     @ (case con_orbits c of None \<Rightarrow> [] | Some ob \<Rightarrow> send_orbits (con_systems c) ob)
     @ (case con_clocks c of None \<Rightarrow> [] | Some ck \<Rightarrow> send_clocks ck)"

text \<open>The reference issues of data a receiver has for the contents: those of the orbit corrections,
  else those kept from an earlier message when clock corrections refer to them.\<close>

definition iod_key :: "has_contents \<Rightarrow> u8 \<times> u8" where
  "iod_key c = (iod_set_id (con_header c), mask_id (con_header c))"

definition iods_for :: "has_contents \<Rightarrow> (u8 \<times> u8 \<rightharpoonup> u16 list) \<Rightarrow> u16 list" where
  "iods_for c r = (case con_orbits c of Some ob \<Rightarrow> iods_of ob
     | None \<Rightarrow> (if con_clocks c = None then [] else case r (iod_key c) of None \<Rightarrow> [] | Some v \<Rightarrow> v))"

definition contents_in_data :: "has_contents \<Rightarrow> (u8 \<times> u8 \<rightharpoonup> u16 list) \<Rightarrow> has_data \<Rightarrow> bool" where
  "contents_in_data c r d \<longleftrightarrow> mt1_header d = con_header c \<and> mask_in_data (con_systems c) d
     \<and> (case con_orbits c of None \<Rightarrow> True | Some ob \<Rightarrow> orbits_in_data ob d)
     \<and> gnss_iod d = iods_for c r
     \<and> (case con_clocks c of None \<Rightarrow> True | Some ck \<Rightarrow> clocks_in_data ck d)"

text \<open>A receiver can read contents without a mask after one that had it.\<close>

definition mask_known :: "has_contents \<Rightarrow> has_receiver \<Rightarrow> bool" where
  "mask_known c rx \<longleftrightarrow> mask_flag (con_header c) \<or> mask_stored (con_systems c) (unat (mask_id (con_header c))) rx"

definition blank_with :: "mt1_header \<Rightarrow> has_data" where
  "blank_with h = has_data_blank\<lparr> has_tow := - 1, mt1_header := h \<rparr>"

lemma read_mask_part:
  assumes c: "well_formed_contents c" and rx: "store_shape rx" "mask_known c rx" "d_HAS_data rx = blank_with (con_header c)"
  obtains st where "read_or_use_mask \<lparr> body_message = (if mask_flag (con_header c) then send_mask (con_systems c) else []) @ rest,
      body_receiver = rx, Nsat = 0, have_mask = False, ones_in_satellite_mask = 0, ones_in_signal_mask = 0 \<rparr> = Continues st"
    "after_mask (con_header c) (con_systems c) rest st"
proof -
  let ?h = "con_header c" and ?ss = "con_systems c"
  let ?st = "\<lparr> body_message = (if mask_flag ?h then send_mask ?ss else []) @ rest,
      body_receiver = rx, Nsat = 0, have_mask = False, ones_in_satellite_mask = 0, ones_in_signal_mask = 0 \<rparr>"
  have h: "header_of ?st = ?h" using rx(3) by (simp add: blank_with_def)
  show thesis
  proof (cases "mask_flag ?h")
    case True
    have "reads (\<lambda>st. body_message st = send_mask ?ss @ rest \<and> header_of st = ?h \<and> store_shape (body_receiver st)
        \<and> Nsat st = 0) read_mask (after_mask ?h ?ss rest)"
      using c by (intro reads_mask) (simp_all add: well_formed_contents_def well_formed_header_def)
    moreover have "body_message ?st = send_mask ?ss @ rest \<and> header_of ?st = ?h
        \<and> store_shape (body_receiver ?st) \<and> Nsat ?st = 0"
      using True h rx(1) by simp
    ultimately obtain st where "read_mask ?st = Continues st" "after_mask ?h ?ss rest st"
      by (rule readsE)
    then show thesis using that True h by (simp add: read_or_use_mask_def)
  next
    case False
    then have "mask_stored ?ss (unat (mask_id ?h)) rx" using rx(2) by (simp add: mask_known_def)
    then have "after_mask (header_of ?st) ?ss (body_message ?st) (use_stored_mask ?st)"
      using c rx(3) by (intro use_stored_mask_read)
        (simp_all add: well_formed_contents_def blank_with_def has_data_blank_def)
    then show thesis using that[of "use_stored_mask ?st"] False h by (simp add: read_or_use_mask_def)
  qed
qed

lemma read_orbit_part:
  assumes c: "well_formed_contents c" and st: "after_mask (con_header c) (con_systems c)
      ((case con_orbits c of None \<Rightarrow> [] | Some ob \<Rightarrow> send_orbits (con_systems c) ob) @ rest) st"
    "orbits_done None r [] (body_receiver st)"
  obtains st' where "read_orbit_corrections st = Continues st'" "after_mask (con_header c) (con_systems c) rest st'"
    "orbits_done (con_orbits c)
       (case con_orbits c of None \<Rightarrow> r | Some ob \<Rightarrow> r(iod_key c \<mapsto> iods_of ob))
       (case con_orbits c of None \<Rightarrow> [] | Some ob \<Rightarrow> iods_of ob) (body_receiver st')"
proof (cases "con_orbits c")
  case None
  then have "\<not> orbit_correction_flag (header_of st)"
    using c st(1) by (simp add: well_formed_contents_def after_mask_def)
  then show thesis using that[of st] None st by (simp add: read_orbit_corrections_def)
next
  case (Some ob)
  have "reads (\<lambda>st. after_mask (con_header c) (con_systems c) (send_orbits (con_systems c) ob @ rest) st
        \<and> d_iod_ref_map (body_receiver st) = r) read_orbit_corrections
      (\<lambda>st. after_mask (con_header c) (con_systems c) rest st
        \<and> orbits_done (Some ob) (r((iod_set_id (con_header c), mask_id (con_header c)) \<mapsto> iods_of ob))
            (iods_of ob) (body_receiver st))"
    using c Some by (intro reads_orbits) (simp_all add: well_formed_contents_def)
  moreover have "after_mask (con_header c) (con_systems c) (send_orbits (con_systems c) ob @ rest) st
      \<and> d_iod_ref_map (body_receiver st) = r"
    using st Some by (simp add: orbits_done_def)
  ultimately obtain st' where "read_orbit_corrections st = Continues st'"
    "after_mask (con_header c) (con_systems c) rest st'
     \<and> orbits_done (Some ob) (r((iod_set_id (con_header c), mask_id (con_header c)) \<mapsto> iods_of ob))
            (iods_of ob) (body_receiver st')" by (rule readsE)
  then show thesis using that[of st'] Some by (simp add: iod_key_def)
qed

lemma read_clock_part:
  assumes c: "well_formed_contents c" and st: "after_mask (con_header c) (con_systems c)
      ((case con_clocks c of None \<Rightarrow> [] | Some ck \<Rightarrow> send_clocks ck) @ rest) st"
    "orbits_done ob r iods (body_receiver st)"
  obtains st' where "read_clock_fullset st = Continues st'" "after_mask (con_header c) (con_systems c) rest st'"
    "case con_clocks c of None \<Rightarrow> True | Some ck \<Rightarrow> clocks_in_data ck (data_of st')"
    "orbits_done ob r (if con_clocks c = None then iods else case r (iod_key c) of None \<Rightarrow> iods | Some v \<Rightarrow> v)
       (body_receiver st')"
proof (cases "con_clocks c")
  case None
  then have "\<not> clock_fullset_flag (header_of st)"
    using c st(1) by (simp add: well_formed_contents_def after_mask_def)
  then show thesis using that[of st] None st by (simp add: read_clock_fullset_def)
next
  case (Some ck)
  have "reads (\<lambda>st. after_mask (con_header c) (con_systems c) (send_clocks ck @ rest) st
        \<and> orbits_done ob r iods (body_receiver st)) read_clock_fullset
      (\<lambda>st. after_mask (con_header c) (con_systems c) rest st \<and> clocks_in_data ck (data_of st)
        \<and> orbits_done ob r (case r (iod_set_id (con_header c), mask_id (con_header c)) of None \<Rightarrow> iods | Some v \<Rightarrow> v)
            (body_receiver st))"
    using c Some by (intro reads_clocks) (simp_all add: well_formed_contents_def)
  moreover have "after_mask (con_header c) (con_systems c) (send_clocks ck @ rest) st
      \<and> orbits_done ob r iods (body_receiver st)"
    using st Some by simp
  ultimately obtain st' where "read_clock_fullset st = Continues st'"
    "after_mask (con_header c) (con_systems c) rest st' \<and> clocks_in_data ck (data_of st')
        \<and> orbits_done ob r (case r (iod_set_id (con_header c), mask_id (con_header c)) of None \<Rightarrow> iods | Some v \<Rightarrow> v)
            (body_receiver st')" by (rule readsE)
  then show thesis using that[of st'] Some by (simp add: iod_key_def)
qed

lemma read_MT1_body_send:
  assumes c: "well_formed_contents c" and rx: "store_shape rx" "mask_known c rx" "d_HAS_data rx = blank_with (con_header c)"
  obtains st where "read_MT1_body (send_body c @ rest) rx = Continues st"
    "contents_in_data c (d_iod_ref_map rx) (data_of st)"
    "mask_stored (con_systems c) (unat (mask_id (con_header c))) (body_receiver st)"
    "d_iod_ref_map (body_receiver st) = (case con_orbits c of None \<Rightarrow> d_iod_ref_map rx
       | Some ob \<Rightarrow> (d_iod_ref_map rx)(iod_key c \<mapsto> iods_of ob))"
proof -
  let ?h = "con_header c" and ?ss = "con_systems c" and ?r = "d_iod_ref_map rx"
  let ?clocks = "(case con_clocks c of None \<Rightarrow> [] | Some ck \<Rightarrow> send_clocks ck) @ rest"
  let ?orbits = "(case con_orbits c of None \<Rightarrow> [] | Some ob \<Rightarrow> send_orbits ?ss ob) @ ?clocks"
  let ?r' = "case con_orbits c of None \<Rightarrow> ?r | Some ob \<Rightarrow> ?r(iod_key c \<mapsto> iods_of ob)"
  let ?iods = "case con_orbits c of None \<Rightarrow> [] | Some ob \<Rightarrow> iods_of ob"
  define start where "start = \<lparr> body_message = send_body c @ rest, body_receiver = rx, Nsat = 0, have_mask = False,
       ones_in_satellite_mask = 0, ones_in_signal_mask = 0 \<rparr>"
  obtain st1 where 1: "read_or_use_mask start = Continues st1" "after_mask ?h ?ss ?orbits st1"
    using read_mask_part[OF c rx, of ?orbits] by (auto simp: start_def send_body_def)
  have "mask_frame rx start" using rx(1) by (simp add: start_def mask_frame_def frame_def)
  then have "mask_frame rx st1" by (rule preservesD(1)[OF frame_read_or_use_mask _ 1(1)])
  then have o1: "orbits_done None ?r [] (body_receiver st1)"
    using rx(3) by (simp add: mask_frame_def orbits_done_def blank_with_def has_data_blank_def)
  have h: "header_of st1 = ?h" using 1(2) by (simp add: after_mask_def)
  have crazy: "discard_crazy st1 = Continues st1"
    using c h by (simp add: discard_crazy_def well_formed_contents_def word_less_nat_alt)
  obtain st2 where 2: "read_orbit_corrections st1 = Continues st2" "after_mask ?h ?ss ?clocks st2"
    "orbits_done (con_orbits c) ?r' ?iods (body_receiver st2)"
    by (rule read_orbit_part[OF c 1(2) o1])
  obtain st3 where 3: "read_clock_fullset st2 = Continues st3" "after_mask ?h ?ss rest st3"
    "case con_clocks c of None \<Rightarrow> True | Some ck \<Rightarrow> clocks_in_data ck (data_of st3)"
    "orbits_done (con_orbits c) ?r' (if con_clocks c = None then ?iods
       else case ?r' (iod_key c) of None \<Rightarrow> ?iods | Some v \<Rightarrow> v) (body_receiver st3)"
    by (rule read_clock_part[OF c 2(2,3)])
  have "header_of st3 = ?h" using 3(2) by (simp add: after_mask_def)
  then have "read_clock_subset st3 = Continues st3" "read_code_bias st3 = Continues st3" "read_phase_bias st3 = Continues st3"
    using c by (simp_all add: read_clock_subset_def read_code_bias_def read_phase_bias_def well_formed_contents_def)
  then have body: "read_MT1_body (send_body c @ rest) rx = Continues st3"
    using 1(1) crazy 2(1) 3(1) by (simp add: read_MT1_body_def start_def[symmetric])
  have iods: "(if con_clocks c = None then ?iods else case ?r' (iod_key c) of None \<Rightarrow> ?iods | Some v \<Rightarrow> v) = iods_for c ?r"
    by (cases "con_orbits c") (simp_all add: iods_for_def split: option.split)
  have "contents_in_data c ?r (data_of st3)"
    using 3 unfolding iods contents_in_data_def after_mask_def orbits_done_def by simp
  moreover have "mask_stored ?ss (unat (mask_id ?h)) (body_receiver st3)" using 3(2) by (simp add: after_mask_def)
  moreover have "d_iod_ref_map (body_receiver st3) = ?r'" using 3(4) by (simp add: orbits_done_def)
  ultimately show thesis using that body by blast
qed

end
