(* ===== verification/Has_Text.thy ===== *)
theory Has_Text
  imports Has_Columns Has_Contents
begin

text \<open>
  Pages as octets, and a decoded message as a string of bits: what a sender writes is what
  \<open>process_HAS_page\<close> stores and what \<open>decode_message_type1\<close> hands to the readers of the contents.
\<close>

definition row_text :: "u8 list \<Rightarrow> string" where
  "row_text row = concat (map (\<lambda>b. bitset_to_string (bitset_of_word 8 b)) row)"

definition rows_text :: "u8 list list \<Rightarrow> string" where
  "rows_text rows = concat (map row_text rows)"

lemma binary_Cons: "binary (ch # s) \<longleftrightarrow> (ch = CHR ''0'' \<or> ch = CHR ''1'') \<and> binary s"
  by (auto simp: binary_def)

lemma take_drop_concat:
  "\<forall>x \<in> set xs. length (f x) = n \<Longrightarrow> k < length xs \<Longrightarrow> take n (drop (k * n) (concat (map f xs))) = f (xs ! k)"
proof (induction xs arbitrary: k)
  case (Cons x xs)
  then show ?case by (cases k) (simp_all add: drop_append)
qed simp

lemma length_bitset_of_word [simp]: "length (bitset_of_word n b) = n"
  by (simp add: bitset_of_word_def)

lemma length_row_text [simp]: "length (row_text row) = length row * 8"
  by (induction row) (simp_all add: row_text_def)

lemma bitset_octet: "bitset 8 (bitset_to_string (bitset_of_word 8 b)) = Some (bitset_of_word 8 b)"
  by (simp add: bitset_Some)

lemma octet_of_bitset: "(of_nat (bitset_to_ulong (bitset_of_word 8 b)) :: u8) = b"
proof -
  have "map (bit b) [0..<8] = map (bit (unat b)) [0..<8]"
    by (rule map_cong) (simp_all add: bit_unsigned_iff)
  then have "bitset_to_ulong (bitset_of_word 8 b) = take_bit 8 (unat b)"
    unfolding bitset_to_ulong_def bitset_of_word_def bit_val_horner rev_rev_ident
    by (simp only: horner_sum_bit_eq_take_bit)
  also have "\<dots> = unat b" using unat_u8[of b] by (simp add: take_bit_eq_mod)
  finally show ?thesis by (simp add: byte_word[symmetric])
qed

lemma page_octets_row_text:
  assumes "length row = 53"
  shows "page_octets (row_text row) = Some row"
proof -
  have "do { bits8 \<leftarrow> substr (row_text row) (k * 8) 8; bs \<leftarrow> bitset 8 bits8; Some (of_nat (bitset_to_ulong bs)) }
      = Some (row ! k)" if "k \<in> set [0..<53]" for k
  proof -
    have k: "k < 53" using that by simp
    have "take 8 (drop (k * 8) (row_text row)) = bitset_to_string (bitset_of_word 8 (row ! k))"
      unfolding row_text_def using assms k by (intro take_drop_concat) simp_all
    then show ?thesis using assms k by (simp add: substr_def bitset_octet octet_of_bitset)
  qed
  then have "page_octets (row_text row) = Some (map ((!) row) [0..<53])"
    unfolding page_octets_def by (rule mapM_Some_map)
  also have "map ((!) row) [0..<53] = row" using assms by (metis map_nth)
  finally show ?thesis .
qed

text \<open>The octets of a string of 424 bits.\<close>

definition text_row :: "string \<Rightarrow> u8 list" where
  "text_row s = map (\<lambda>k. of_nat (bit_val (bits_in (take 8 (drop (8 * k) s))))) [0..<53]"

lemma length_text_row [simp]: "length (text_row s) = 53"
  by (simp add: text_row_def)

lemma octet_string:
  assumes "binary s" "length s = 8"
  shows "bitset_to_string (bitset_of_word 8 (of_nat (bit_val (bits_in s)) :: u8)) = s"
proof -
  have "rev (bitset_of_word 8 (of_nat (bit_val (bits_in s)) :: u8)) = bits_in s"
  proof (rule nth_equalityI)
    fix i assume "i < length (rev (bitset_of_word 8 (of_nat (bit_val (bits_in s)) :: u8)))"
    then have i: "i < 8" "7 - i < 8" by simp_all
    then show "rev (bitset_of_word 8 (of_nat (bit_val (bits_in s)) :: u8)) ! i = bits_in s ! i"
      using assms(2)
      by (simp add: rev_nth bitset_of_word_def bit_of_nat_iff bit_val_horner bit_horner_sum_bit_iff)
  qed (simp add: assms(2))
  then show ?thesis using map_char_of_bits_in[OF assms(1)] by (simp add: bitset_to_string_def)
qed

lemma concat_chunks: "concat (map (\<lambda>k. take m (drop (m * k) s)) [0..<n]) = take (m * n) s"
proof (induction n)
  case (Suc n)
  then show ?case using take_add[of "m * n" m s] by (simp add: add.commute)
qed simp

lemma row_text_text_row:
  assumes "binary s" "length s = 424"
  shows "row_text (text_row s) = s"
proof -
  have "row_text (text_row s) = concat (map (\<lambda>k. take 8 (drop (8 * k) s)) [0..<53])"
    unfolding row_text_def text_row_def map_map comp_def
    using assms by (intro arg_cong[where f = concat] map_cong refl octet_string binary_take binary_drop) simp_all
  then show ?thesis using assms(2) by (simp add: concat_chunks)
qed

lemma decoded_message_rows:
  assumes "matrix_shape E" "unat ms \<le> 32"
  shows "decoded_message ms (take 32 E) = Some (rows_text (take (unat ms) E))"
proof -
  have E: "length E = 255" using assms(1) by (simp add: matrix_shape_def)
  have "map_option (\<lambda>r. concat (map (\<lambda>col. bitset_to_string (bitset_of_word 8 (r ! col))) [0..<53]))
      (vget (take 32 E) row) = Some (row_text (E ! row))" if "row \<in> set [0..<unat ms]" for row
  proof -
    have row: "row < 32" "row < unat ms" using that assms(2) by auto
    have "length (E ! row) = 53" using assms(1) row by (intro matrix_shapeD) simp_all
    then have "map (\<lambda>col. bitset_to_string (bitset_of_word 8 (E ! row ! col))) [0..<53]
        = map (\<lambda>b. bitset_to_string (bitset_of_word 8 b)) (E ! row)"
      by (intro nth_equalityI) simp_all
    then show ?thesis using row E by (simp add: vget_def row_text_def)
  qed
  then have "decoded_message ms (take 32 E) = Some (concat (map (\<lambda>row. row_text (E ! row)) [0..<unat ms]))"
    unfolding decoded_message_def by (subst mapM_Some_map) simp_all
  also have "map (\<lambda>row. row_text (E ! row)) [0..<unat ms] = map row_text (take (unat ms) E)"
    using assms(2) E by (intro nth_equalityI) simp_all
  finally show ?thesis by (simp add: rows_text_def)
qed

lemma read_decoded_message_send:
  assumes c: "well_formed_contents c" and rx: "store_shape rx" "mask_known c rx"
  obtains rx' where "read_decoded_message (send_header (con_header c) @ send_body c @ rest) rx = Some (0, rx')"
    "contents_in_data c (d_iod_ref_map rx) (d_HAS_data rx')" "outside rx' = outside rx" "store_shape rx'"
    "mask_stored (con_systems c) (unat (mask_id (con_header c))) rx'"
    "d_iod_ref_map rx' = (case con_orbits c of None \<Rightarrow> d_iod_ref_map rx
       | Some ob \<Rightarrow> (d_iod_ref_map rx)(iod_key c \<mapsto> iods_of ob))"
proof -
  let ?rx = "rx\<lparr> d_HAS_data := blank_with (con_header c) \<rparr>"
  have rx': "store_shape ?rx" "mask_known c ?rx" "d_HAS_data ?rx = blank_with (con_header c)"
    using rx by (simp_all add: mask_known_def mask_stored_def systems_stored_def)
  obtain st where st: "read_MT1_body (send_body c @ rest) ?rx = Continues st"
    "contents_in_data c (d_iod_ref_map ?rx) (data_of st)"
    "mask_stored (con_systems c) (unat (mask_id (con_header c))) (body_receiver st)"
    "d_iod_ref_map (body_receiver st) = (case con_orbits c of None \<Rightarrow> d_iod_ref_map ?rx
       | Some ob \<Rightarrow> (d_iod_ref_map ?rx)(iod_key c \<mapsto> iods_of ob))"
    by (rule read_MT1_body_send[OF c rx', of rest])
  have "frame ?rx st" by (rule read_MT1_body_frame(1)[OF rx'(1) st(1)])
  then have f: "outside (body_receiver st) = outside rx" "store_shape (body_receiver st)"
    by (simp_all add: frame_def)
  have "read_MT1_header (send_header (con_header c)) (has_data_blank\<lparr> has_tow := - 1 \<rparr>) = Some (blank_with (con_header c))"
    using c read_MT1_header_send[of "con_header c" "has_data_blank\<lparr> has_tow := - 1 \<rparr>"]
    by (simp add: well_formed_contents_def blank_with_def)
  then have "read_decoded_message (send_header (con_header c) @ send_body c @ rest) rx = Some (0, body_receiver st)"
    by (simp add: read_decoded_message_def substr_def st(1))
  then show thesis using that[of "body_receiver st"] st f by (cases "con_orbits c") simp_all
qed

end
