(* ===== verification/Has_Shape.thy ===== *)
theory Has_Shape
  imports Has_Text Has_Frame
begin

text \<open>
  The shape of the receiver's state, which every page keeps whatever it holds: the containers the
  constructor makes keep their sizes, the page identifiers of a message are distinct and not zero,
  and there is a time stamp for each.
\<close>

definition message_shape :: "u8 list \<Rightarrow> u64 list \<Rightarrow> bool" where
  "message_shape pids stamps \<longleftrightarrow> distinct pids \<and> 0 \<notin> set pids \<and> length pids \<le> length stamps"

definition matrices_shape :: "u8 list list list \<Rightarrow> bool" where
  "matrices_shape Cs \<longleftrightarrow> length Cs = 32 \<and> (\<forall>i < 32. matrix_shape (Cs ! i))"

definition messages_shape :: "u8 list list \<Rightarrow> u64 list list \<Rightarrow> bool" where
  "messages_shape pids stamps \<longleftrightarrow> length pids = 32 \<and> length stamps = 32 \<and> (\<forall>i < 32. message_shape (pids ! i) (stamps ! i))"

definition has_shape :: "has_receiver \<Rightarrow> bool" where
  "has_shape rx \<longleftrightarrow> store_shape rx
     \<and> matrices_shape (d_C_matrix rx) \<and> messages_shape (d_received_pids rx) (d_received_timestamps rx)
     \<and> length (d_printed_timestamps rx) = 32 \<and> length (d_printed_mids rx) = 32
     \<and> length (d_M_matrix rx) = 32 \<and> (\<forall>i < 32. length (d_M_matrix rx ! i) = 53)"

lemma matrices_shapeD: "matrices_shape Cs \<Longrightarrow> length Cs = 32" "matrices_shape Cs \<Longrightarrow> i < 32 \<Longrightarrow> matrix_shape (Cs ! i)"
  by (simp_all add: matrices_shape_def)

lemma messages_shapeD:
  "messages_shape pids stamps \<Longrightarrow> length pids = 32" "messages_shape pids stamps \<Longrightarrow> length stamps = 32"
  "messages_shape pids stamps \<Longrightarrow> i < 32 \<Longrightarrow> message_shape (pids ! i) (stamps ! i)"
  by (simp_all add: messages_shape_def)

lemma has_shapeD:
  assumes "has_shape rx"
  shows "length (d_received_pids rx) = 32" "length (d_received_timestamps rx) = 32" "length (d_C_matrix rx) = 32"
    "length (d_printed_timestamps rx) = 32" "length (d_printed_mids rx) = 32" "store_shape rx"
    "i < 32 \<Longrightarrow> message_shape (d_received_pids rx ! i) (d_received_timestamps rx ! i)"
    "i < 32 \<Longrightarrow> matrix_shape (d_C_matrix rx ! i)"
  using assms messages_shapeD[of "d_received_pids rx" "d_received_timestamps rx"] matrices_shapeD[of "d_C_matrix rx"]
  unfolding has_shape_def by blast+

lemma message_shape_Nil [simp]: "message_shape [] stamps"
  by (simp add: message_shape_def)

lemma matrix_shape_zero [simp]: "matrix_shape (replicate 255 (replicate 53 0))"
  by (simp add: matrix_shape_def)

lemma matrix_shape_update:
  "matrix_shape C \<Longrightarrow> length row = 53 \<Longrightarrow> matrix_shape (C[i := row])"
  using set_update_subset_insert[of C i row] by (auto simp: matrix_shape_def)

lemma has_shape_make: "has_shape (make_has_receiver rs)"
  by (simp add: has_shape_def matrices_shape_def messages_shape_def store_shape_def make_has_receiver_def rows_of_16_def)

text \<open>The receiver's parts that the collection of pages does not change.\<close>

definition kept :: "has_receiver \<Rightarrow> has_receiver \<Rightarrow> bool" where
  "kept rx rx' \<longleftrightarrow> rx' = rx\<lparr> d_received_timestamps := d_received_timestamps rx', d_received_pids := d_received_pids rx',
     d_C_matrix := d_C_matrix rx', d_printed_timestamps := d_printed_timestamps rx', d_printed_mids := d_printed_mids rx' \<rparr>"

lemma kept_refl [simp]: "kept rx rx"
  by (simp add: kept_def)

lemma kept_trans: "kept a b \<Longrightarrow> kept b c \<Longrightarrow> kept a c"
  unfolding kept_def by (cases a; cases b; cases c) simp

lemma kept_updates [simp]:
  "kept rx (rx\<lparr> d_received_pids := p, d_received_timestamps := t, d_C_matrix := C \<rparr>)"
  "kept rx (rx\<lparr> d_received_pids := p, d_C_matrix := C \<rparr>)"
  "kept rx (rx\<lparr> d_printed_timestamps := q, d_printed_mids := m \<rparr>)"
  by (simp_all add: kept_def)

lemma store_shape_collect [simp]:
  "store_shape (rx\<lparr> d_received_pids := p, d_received_timestamps := t, d_C_matrix := C \<rparr>) = store_shape rx"
  "store_shape (rx\<lparr> d_received_pids := p, d_C_matrix := C \<rparr>) = store_shape rx"
  "store_shape (rx\<lparr> d_printed_timestamps := q, d_printed_mids := m \<rparr>) = store_shape rx"
  "store_shape (rx\<lparr> d_M_matrix := M \<rparr>) = store_shape rx"
  "store_shape (rx\<lparr> Nav_msg_from_TLM := n \<rparr>) = store_shape rx"
  "store_shape (rx\<lparr> d_new_message := b \<rparr>) = store_shape rx"
  by (simp_all add: store_shape_def)

lemma matrices_shape_update [simp]:
  "matrices_shape Cs \<Longrightarrow> matrix_shape C \<Longrightarrow> matrices_shape (Cs[i := C])"
  unfolding matrices_shape_def by (metis length_list_update nth_list_update_eq nth_list_update_neq)

lemma messages_shape_update [simp]:
  "messages_shape xs ys \<Longrightarrow> message_shape v w \<Longrightarrow> messages_shape (xs[i := v]) (ys[i := w])"
  unfolding messages_shape_def by (metis length_list_update nth_list_update_eq nth_list_update_neq)

lemma messages_shape_clear [simp]: "messages_shape xs ys \<Longrightarrow> messages_shape (xs[i := []]) ys"
  using messages_shape_update[of xs ys "[]" "ys ! i" i] by simp

lemma has_shape_clear:
  assumes "has_shape rx"
  shows "has_shape (rx\<lparr> d_received_pids := (d_received_pids rx)[i := []],
      d_received_timestamps := (d_received_timestamps rx)[i := []],
      d_C_matrix := (d_C_matrix rx)[i := replicate 255 (replicate 53 0)] \<rparr>)"
    "has_shape (rx\<lparr> d_received_pids := (d_received_pids rx)[i := []],
      d_C_matrix := (d_C_matrix rx)[i := replicate 255 (replicate 53 0)] \<rparr>)"
  using assms unfolding has_shape_def by simp_all

section \<open>Time-outs\<close>

lemma oldest_acc:
  assumes "n \<le> length stamps"
  shows "foldM (\<lambda>j oldest. map_option (\<lambda>t. if t > 0 \<and> t < oldest then t else oldest) (vget stamps j)) [0..<n] m
    = Some (foldl (\<lambda>oldest t. if t > 0 \<and> t < oldest then t else oldest) m (take n stamps))"
  using assms
proof (induction n)
  case (Suc n)
  then show ?case by (simp add: foldM_append take_Suc_conv_app_nth vget_Some)
qed simp

lemma oldest_time_stamp_eq:
  "n \<le> length stamps \<Longrightarrow> oldest_time_stamp n stamps
    = Some (foldl (\<lambda>oldest t. if t > 0 \<and> t < oldest then t else oldest) (- 1) (take n stamps))"
  unfolding oldest_time_stamp_def by (rule oldest_acc)

lemma delete_outdated_pages_cases:
  assumes "has_shape rx" "i < 32"
  obtains "delete_outdated_pages now i rx = Some rx"
  | "delete_outdated_pages now i rx = Some (rx\<lparr> d_received_pids := (d_received_pids rx)[i := []],
      d_received_timestamps := (d_received_timestamps rx)[i := []],
      d_C_matrix := (d_C_matrix rx)[i := replicate 255 (replicate 53 0)] \<rparr>)"
proof -
  have n: "length (d_received_pids rx ! i) \<le> length (d_received_timestamps rx ! i)" "i < length (d_received_timestamps rx)"
    using has_shapeD[OF assms(1)] assms(2) by (simp_all add: message_shape_def)
  obtain oldest where "oldest_time_stamp (length (d_received_pids rx ! i)) (d_received_timestamps rx ! i) = Some oldest"
    using oldest_time_stamp_eq[OF n(1)] by blast
  then show thesis
    using that n(2)
    by (cases "now > oldest \<and> now - oldest > MAX_SECONDS_REMEMBERING_MID") (simp_all add: delete_outdated_pages_def vget_Some)
qed

text \<open>What holds after every step of the clearing holds after it.\<close>

lemma delete_outdated_data_rule:
  assumes rx: "has_shape rx" "P rx"
    and pages: "\<And>rx i rx'. has_shape rx \<Longrightarrow> P rx \<Longrightarrow> i < 32 \<Longrightarrow> delete_outdated_pages (time_stamp page) i rx = Some rx' \<Longrightarrow> P rx'"
    and printed: "\<And>rx i. has_shape rx \<Longrightarrow> P rx \<Longrightarrow> P (forget_printed (time_stamp page) i rx)"
  obtains rx' where "delete_outdated_data page rx = Some rx'" "has_shape rx'" "kept rx rx'" "P rx'"
proof -
  let ?Q = "\<lambda>r. has_shape r \<and> kept rx r \<and> P r"
  have "\<exists>rx'. foldM (delete_outdated_pages (time_stamp page)) [0..<length (d_received_pids rx)] rx = Some rx' \<and> ?Q rx'"
  proof (rule foldM_total)
    fix i r assume i: "i \<in> set [0..<length (d_received_pids rx)]" and r: "?Q r"
    have i: "i < 32" using i has_shapeD(1)[OF rx(1)] by simp
    have hr: "has_shape r" using r by simp
    show "\<exists>r'. delete_outdated_pages (time_stamp page) i r = Some r' \<and> ?Q r'"
    proof (cases rule: delete_outdated_pages_cases[OF hr i, where now = "time_stamp page"])
      case 1
      then show ?thesis using r by simp
    next
      case 2
      then show ?thesis using r pages[OF _ _ i 2] has_shape_clear(1)[of r i] kept_trans[of rx r] by auto
    qed
  qed (use rx in simp)
  then obtain r where r: "foldM (delete_outdated_pages (time_stamp page)) [0..<length (d_received_pids rx)] rx = Some r" "?Q r"
    by blast
  have step: "?Q (forget_printed (time_stamp page) i r)" if "?Q r" for i r
    using that printed[of r i] kept_trans[of rx r] by (auto simp: forget_printed_def has_shape_def)
  have "?Q (foldl (\<lambda>rx mid. forget_printed (time_stamp page) mid rx) r is)" for "is"
    using r(2)
  proof (induction "is" arbitrary: r)
    case (Cons i "is")
    then show ?case using step[of r i] by simp
  qed simp
  then show thesis using that r(1) by (simp add: delete_outdated_data_def)
qed

section \<open>Pages\<close>

lemma page_octets_length: "page_octets s = Some octets \<Longrightarrow> length octets = 53"
  unfolding page_octets_def by (drule mapM_length) simp

lemma store_page_shape:
  assumes "has_shape rx" "message_page_id page \<noteq> 0" "store_page page rx = Some rx'"
  shows "has_shape rx'" "kept rx rx'"
proof -
  let ?mid = "unat (page_message_id page)"
  have "has_shape rx' \<and> kept rx rx'"
  proof (cases "?mid < 32 \<and> message_page_id page \<notin> set (d_received_pids rx ! ?mid)")
    case True
    then have mid: "?mid < length (d_received_pids rx)" "?mid < length (d_received_timestamps rx)"
      "?mid < length (d_C_matrix rx)" "matrix_shape (d_C_matrix rx ! ?mid)"
      "message_shape (d_received_pids rx ! ?mid) (d_received_timestamps rx ! ?mid)"
      using has_shapeD[OF assms(1)] True by simp_all
    obtain octets where o8: "page_octets (has_message_string page) = Some octets"
      using assms(3) True mid by (auto simp: store_page_def Let_def vget_Some bind_eq_Some_conv)
    have len: "unat (message_page_id page) - 1 < length (d_C_matrix rx ! ?mid)"
      using unat_pred[OF assms(2)] mid(4) by (simp add: matrix_shape_def)
    have "rx' = rx\<lparr> d_received_pids := (d_received_pids rx)[?mid := d_received_pids rx ! ?mid @ [message_page_id page]],
        d_received_timestamps := (d_received_timestamps rx)[?mid := d_received_timestamps rx ! ?mid @ [time_stamp page]],
        d_C_matrix := (d_C_matrix rx)[?mid := (d_C_matrix rx ! ?mid)[unat (message_page_id page) - 1 := octets]] \<rparr>"
      using assms(3) True mid o8 len by (simp add: store_page_def Let_def vec_simps)
    moreover have "message_shape (d_received_pids rx ! ?mid @ [message_page_id page])
        (d_received_timestamps rx ! ?mid @ [time_stamp page])"
      using mid(5) True assms(2) by (simp add: message_shape_def)
    moreover have "matrix_shape ((d_C_matrix rx ! ?mid)[unat (message_page_id page) - 1 := octets])"
      using mid(4) page_octets_length[OF o8] by (rule matrix_shape_update)
    ultimately show ?thesis using assms(1) unfolding has_shape_def by simp
  next
    case False
    then show ?thesis using assms by (auto simp: store_page_def Let_def vget_def has_shape_def split: if_splits)
  qed
  then show "has_shape rx'" "kept rx rx'" by simp_all
qed

section \<open>Decoding and the handler\<close>

lemma has_shape_outside:
  "outside rx' = outside rx \<Longrightarrow> store_shape rx' \<Longrightarrow> has_shape rx \<Longrightarrow> has_shape rx'"
  by (simp add: outside_def has_shape_def)

lemma decode_columns_shape:
  assumes "decode_columns rs pids C er cols M = Some (ok, M')" "length M = 32" "\<forall>i < 32. length (M ! i) = 53"
  shows "length M' = 32 \<and> (\<forall>i < 32. length (M' ! i) = 53)"
  using assms
proof (induction rs pids C er cols M rule: decode_columns.induct)
  case (2 rs pids C er col cols M)
  from 2(2) obtain column r code where a: "received_column pids C col = Some column"
    "decode rs column (map int er) = Some (r, code)"
    by (auto simp: bind_eq_Some_conv)
  show ?case
  proof (cases "r < 0")
    case True
    then show ?thesis using 2 a by simp
  next
    case False
    then show ?thesis using 2(1)[OF a(1) a(2), of r code] 2(2-4) a by simp
  qed
qed simp

lemma read_decoded_message_frame:
  assumes "read_decoded_message text rx = Some (res, rx')" "store_shape rx"
  shows "outside rx' = outside rx" "store_shape rx'"
proof -
  obtain d where "(case read_MT1_body (drop 32 text) (rx\<lparr> d_HAS_data := d \<rparr>) of
      Continues st \<Rightarrow> Some (0, body_receiver st) | Throws st \<Rightarrow> Some (- 1, body_receiver st) | Undefined \<Rightarrow> None)
    = Some (res, rx')"
    using assms(1) by (auto simp: read_decoded_message_def bind_eq_Some_conv split: if_splits)
  then have "(\<exists>st. read_MT1_body (drop 32 text) (rx\<lparr> d_HAS_data := d \<rparr>) = Continues st \<and> rx' = body_receiver st)
      \<or> (\<exists>st. read_MT1_body (drop 32 text) (rx\<lparr> d_HAS_data := d \<rparr>) = Throws st \<and> rx' = body_receiver st)"
    by (auto split: outcome.splits)
  moreover have "store_shape (rx\<lparr> d_HAS_data := d \<rparr>)" using assms(2) by simp
  ultimately have "\<exists>st. frame (rx\<lparr> d_HAS_data := d \<rparr>) st \<and> rx' = body_receiver st"
    using read_MT1_body_frame by blast
  then show "outside rx' = outside rx" "store_shape rx'" by (auto simp: frame_def)
qed

lemma decode_message_type1_shape:
  assumes "has_shape rx" "decode_message_type1 mid ms rx = Some (res, rx')"
  shows "has_shape rx'"
proof -
  let ?pids = "d_received_pids rx ! unat mid" and ?C = "d_C_matrix rx ! unat mid"
  let ?er = "erasure_positions ?pids ms"
  have mid: "unat mid < 32" using assms has_shapeD[OF assms(1)]
    by (auto simp: decode_message_type1_def vget_def split: if_splits)
  have get: "vget (d_received_pids rx) (unat mid) = Some ?pids" "vget (d_C_matrix rx) (unat mid) = Some ?C"
    using mid has_shapeD[OF assms(1)] by (simp_all add: vget_Some)
  have ms: "ms \<noteq> 255" using assms(2) get by (auto simp: decode_message_type1_def)
  show ?thesis
  proof (cases "length ?er > 223")
    case True
    then have "rx' = rx\<lparr> d_received_pids := (d_received_pids rx)[unat mid := []],
        d_C_matrix := (d_C_matrix rx)[unat mid := replicate 255 (replicate 53 0)] \<rparr>"
      using assms(2) get ms by (simp add: decode_message_type1_def Let_def)
    then show ?thesis using has_shape_clear(2)[OF assms(1)] by simp
  next
    case False
    then obtain ok M where M: "decode_columns (d_rs rx) ?pids ?C ?er [0..<53] (replicate 32 (replicate 53 0)) = Some (ok, M)"
      using assms(2) get ms by (auto simp: decode_message_type1_def Let_def bind_eq_Some_conv)
    have shM: "has_shape (rx\<lparr> d_M_matrix := M \<rparr>)"
      using assms(1) decode_columns_shape[OF M] unfolding has_shape_def by simp
    show ?thesis
    proof (cases ok)
      case True
      define rx1 where "rx1 = (if d_enable_navdata_monitor rx
        then rx\<lparr> d_M_matrix := M, Nav_msg_from_TLM := Nav_msg_from_TLM rx @ [the (decoded_message ms M)] \<rparr>
        else rx\<lparr> d_M_matrix := M \<rparr>)"
      define rx2 where "rx2 = rx1\<lparr> d_received_pids := (d_received_pids rx1)[unat mid := []],
        d_C_matrix := (d_C_matrix rx1)[unat mid := replicate 255 (replicate 53 0)] \<rparr>"
      have "has_shape rx1" using shM unfolding rx1_def has_shape_def by simp
      then have rx2: "has_shape rx2" unfolding rx2_def by (rule has_shape_clear(2))
      obtain m where "read_decoded_message m rx2 = Some (res, rx')"
        using assms(2) get ms False M True
        by (cases "d_enable_navdata_monitor rx")
          (auto simp: decode_message_type1_def Let_def bind_eq_Some_conv rx1_def rx2_def)
      then show ?thesis using read_decoded_message_frame has_shapeD(6)[OF rx2] has_shape_outside rx2 by blast
    next
      case False
      then have "rx' = rx\<lparr> d_M_matrix := M \<rparr>"
        using assms(2) get ms \<open>\<not> length ?er > 223\<close> M by (simp add: decode_message_type1_def Let_def)
      then show ?thesis using shM by simp
    qed
  qed
qed

lemma delete_outdated_data_shape:
  assumes "has_shape rx"
  obtains rx' where "delete_outdated_data page rx = Some rx'" "has_shape rx'" "kept rx rx'"
  using delete_outdated_data_rule[of rx "\<lambda>_. True" page] assms by auto

lemma has_shape_new_message [simp]: "has_shape (rx\<lparr> d_new_message := b \<rparr>) = has_shape rx"
  by (simp add: has_shape_def)

lemma process_HAS_page_shape:
  assumes "has_shape rx" "process_HAS_page page rx = Some rx'"
  shows "has_shape rx'"
proof -
  let ?use = "(page_has_status page = 0 \<or> page_has_status page = 1) \<and> message_page_id page \<noteq> 0 \<and> message_type page = 1"
  obtain rx1 where rx1: "(if ?use then do { rx \<leftarrow> delete_outdated_data page rx; store_page page rx } else Some rx) = Some rx1"
    using assms(2) unfolding process_HAS_page_def by (auto simp: bind_eq_Some_conv)
  have "has_shape rx1"
  proof (cases ?use)
    case True
    obtain r where "delete_outdated_data page rx = Some r" "has_shape r" using delete_outdated_data_shape[OF assms(1)] by blast
    then show ?thesis using rx1 True store_page_shape(1)[of r page rx1] by simp
  next
    case False
    then have "rx1 = rx" using rx1 unfolding if_not_P[OF False] by simp
    then show ?thesis using assms(1) by simp
  qed
  then have s: "has_shape (rx1\<lparr> d_new_message := False \<rparr>)" by simp
  obtain pids where "vget (d_received_pids rx1) (unat (page_message_id page)) = Some pids"
    using assms(2) rx1 unfolding process_HAS_page_def Let_def by (auto simp: bind_eq_Some_conv)
  then show ?thesis
    using assms(2) rx1 s decode_message_type1_shape[OF s] unfolding process_HAS_page_def Let_def
    by (auto simp: bind_eq_Some_conv split: if_splits)
qed

lemma receive_page_shape:
  assumes "has_shape rx" "receive_page page rx = Some (out, rx')"
  shows "has_shape rx'"
proof -
  let ?rx = "rx\<lparr> d_current_has_status := page_has_status page, d_current_message_id := page_message_id page \<rparr>"
  have s: "has_shape ?rx" using assms(1) by (simp add: has_shape_def store_shape_def)
  obtain printed where p: "vget (d_printed_mids rx) (unat (page_message_id page)) = Some printed"
    using assms(2) by (auto simp: receive_page_def Let_def bind_eq_Some_conv)
  obtain rx1 where rx1: "(if \<not> printed then process_HAS_page page ?rx else Some ?rx) = Some rx1"
    using assms(2) p unfolding receive_page_def Let_def by (auto simp: bind_eq_Some_conv)
  have "has_shape rx1" using rx1 s process_HAS_page_shape[OF s] by (auto split: if_splits)
  moreover have "rx' = rx1 \<or> (\<exists>d i t. rx' = rx1\<lparr> d_HAS_data := d, d_printed_mids := (d_printed_mids rx1)[i := True],
      d_printed_timestamps := (d_printed_timestamps rx1)[i := t], d_new_message := False \<rparr>)"
    using assms(2) p rx1 unfolding receive_page_def Let_def by (auto split: if_splits)
  ultimately show ?thesis unfolding has_shape_def store_shape_def by (elim disjE exE) simp_all
qed

lemma handler_shape:
  "has_shape rx \<Longrightarrow> msg_handler_galileo_e6_has page rx = Some rx' \<Longrightarrow> has_shape rx'"
  using receive_page_shape[of rx page]
  by (auto simp: msg_handler_galileo_e6_has_def bind_eq_Some_conv has_shape_def store_shape_def split: option.splits)

end
