(* ===== verification/Has_Reassembly.thy ===== *)
theory Has_Reassembly
  imports Has_Shape
begin

text \<open>
  Reassembly: the pages of a message, in any order and with repetitions, within the time the
  receiver remembers them, make it hand on the contents once.
\<close>

section \<open>Pages of a message\<close>

definition page_of_message :: "u8 list list \<Rightarrow> u8 \<Rightarrow> u8 \<Rightarrow> u64 \<Rightarrow> has_page \<Rightarrow> bool" where
  "page_of_message E mid ms t0 page \<longleftrightarrow> (page_has_status page = 0 \<or> page_has_status page = 1)
     \<and> message_type page = 1 \<and> page_message_id page = mid \<and> message_size page = ms
     \<and> ((0 < unat (message_page_id page) \<and> unat (message_page_id page) \<le> unat ms) \<or> 32 < unat (message_page_id page))
     \<and> has_message_string page = row_text (E ! (unat (message_page_id page) - 1))
     \<and> unat t0 \<le> unat (time_stamp page) \<and> unat (time_stamp page) \<le> unat t0 + 150"

text \<open>The receiver while it collects: what it has of the message, all of it recent.\<close>

definition collects :: "u8 list list \<Rightarrow> u8 \<Rightarrow> u64 \<Rightarrow> u8 set \<Rightarrow> has_receiver \<Rightarrow> bool" where
  "collects E mid t0 seen rx \<longleftrightarrow> has_shape rx \<and> \<not> d_printed_mids rx ! unat mid
     \<and> set (d_received_pids rx ! unat mid) = seen
     \<and> received_rows (d_received_pids rx ! unat mid) (d_C_matrix rx ! unat mid) E
     \<and> length (d_received_timestamps rx ! unat mid) = length (d_received_pids rx ! unat mid)
     \<and> (\<forall>t \<in> set (d_received_timestamps rx ! unat mid). unat t0 \<le> unat t)"

lemma oldest_lower:
  "\<forall>t \<in> set stamps. unat t0 \<le> unat t \<Longrightarrow> unat (t0 :: u64) \<le> unat m \<Longrightarrow>
   unat t0 \<le> unat (foldl (\<lambda>oldest t. if t > 0 \<and> t < oldest then t else oldest) m stamps)"
  by (induction stamps arbitrary: m) simp_all

lemma delete_recent_pages:
  assumes c: "collects E mid t0 seen rx" "unat mid < 32" and now: "unat now \<le> unat t0 + 150"
  shows "delete_outdated_pages now (unat mid) rx = Some rx"
proof -
  let ?stamps = "d_received_timestamps rx ! unat mid"
  define oldest where "oldest = foldl (\<lambda>oldest t. if t > 0 \<and> t < oldest then t else oldest) (- 1) ?stamps"
  have "unat t0 \<le> unat (- 1 :: u64)" using word_order.extremum[of t0] by (simp add: word_le_nat_alt)
  then have "unat t0 \<le> unat oldest"
    using c(1) unfolding oldest_def by (intro oldest_lower) (simp_all add: collects_def)
  then have "\<not> (now > oldest \<and> now - oldest > MAX_SECONDS_REMEMBERING_MID)"
    using now unat_sub[of oldest now]
    by (auto simp: MAX_SECONDS_REMEMBERING_MID_def word_less_nat_alt word_le_nat_alt)
  moreover have "oldest_time_stamp (length (d_received_pids rx ! unat mid)) ?stamps = Some oldest"
    using c(1) by (simp add: oldest_time_stamp_eq collects_def oldest_def)
  moreover have "unat mid < length (d_received_timestamps rx)"
    using c has_shapeD(2)[of rx] by (simp add: collects_def)
  ultimately show ?thesis by (auto simp: delete_outdated_pages_def vget_Some)
qed

lemma delete_outdated_data_collects:
  assumes "collects E mid t0 seen rx" "unat mid < 32" "unat (time_stamp page) \<le> unat t0 + 150"
  obtains rx' where "delete_outdated_data page rx = Some rx'" "collects E mid t0 seen rx'" "kept rx rx'"
proof (rule delete_outdated_data_rule[of rx "collects E mid t0 seen" page])
  show "has_shape rx" "collects E mid t0 seen rx" using assms(1) by (simp_all add: collects_def)
next
  fix r i r' assume r: "has_shape r" "collects E mid t0 seen r" "i < 32"
    and d: "delete_outdated_pages (time_stamp page) i r = Some r'"
  show "collects E mid t0 seen r'"
  proof (cases "i = unat mid")
    case True
    then show ?thesis using d delete_recent_pages[OF r(2) assms(2,3)] r(2) by simp
  next
    case False
    have "r' = r \<or> r' = r\<lparr> d_received_pids := (d_received_pids r)[i := []],
        d_received_timestamps := (d_received_timestamps r)[i := []],
        d_C_matrix := (d_C_matrix r)[i := replicate 255 (replicate 53 0)] \<rparr>"
      using d by (cases rule: delete_outdated_pages_cases[OF r(1,3), where now = "time_stamp page"]) simp_all
    then show ?thesis using r(2) False has_shape_clear(1)[OF r(1), of i] unfolding collects_def
      by (elim disjE) simp_all
  qed
next
  fix r i assume "has_shape r" "collects E mid t0 seen r"
  then show "collects E mid t0 seen (forget_printed (time_stamp page) i r)"
    by (cases "i = unat mid") (auto simp: forget_printed_def collects_def has_shape_def)
qed (use that in blast)

lemma store_page_collects:
  assumes c: "collects E mid t0 seen rx" "unat mid < 32" and E: "matrix_shape E"
    and page: "page_of_message E mid ms t0 page"
  obtains rx' where "store_page page rx = Some rx'" "collects E mid t0 (insert (message_page_id page) seen) rx'" "kept rx rx'"
proof (cases "message_page_id page \<in> seen")
  case True
  have "store_page page rx = Some rx"
    using c page True has_shapeD(1)[of rx]
    by (simp add: store_page_def Let_def vget_Some collects_def page_of_message_def)
  then show thesis using that[of rx] c True by (simp add: insert_absorb)
next
  case False
  let ?i = "unat (message_page_id page) - 1" and ?pids = "d_received_pids rx ! unat mid" and ?C = "d_C_matrix rx ! unat mid"
  have sh: "has_shape rx" using c(1) by (simp add: collects_def)
  note len = has_shapeD[OF sh]
  have nz: "message_page_id page \<noteq> 0" using page by (auto simp: page_of_message_def)
  have i: "?i < 255" by (rule unat_pred[OF nz])
  have octets: "page_octets (has_message_string page) = Some (E ! ?i)"
    using page matrix_shapeD[OF E i] by (simp add: page_of_message_def page_octets_row_text)
  define rx' where "rx' = rx\<lparr> d_received_pids := (d_received_pids rx)[unat mid := ?pids @ [message_page_id page]],
      d_received_timestamps := (d_received_timestamps rx)[unat mid := d_received_timestamps rx ! unat mid @ [time_stamp page]],
      d_C_matrix := (d_C_matrix rx)[unat mid := ?C[?i := E ! ?i]] \<rparr>"
  have C: "length ?C = 255" using len(8)[OF c(2)] by (simp add: matrix_shape_def)
  have s: "store_page page rx = Some rx'"
    using c page False len i octets C by (simp add: store_page_def Let_def vec_simps collects_def page_of_message_def rx'_def)
  have sh': "has_shape rx'" "kept rx rx'" by (rule store_page_shape[OF sh nz s])+
  have "?C[?i := E ! ?i] ! (unat pid - 1) = E ! (unat pid - 1)" if "pid \<in> insert (message_page_id page) (set ?pids)" for pid
  proof (cases "unat pid - 1 = ?i")
    case True
    then show ?thesis using C i by simp
  next
    case False
    then have "pid \<in> set ?pids" using that by auto
    then show ?thesis using False c(1) by (simp add: collects_def received_rows_def)
  qed
  then have "received_rows (d_received_pids rx' ! unat mid) (d_C_matrix rx' ! unat mid) E"
    using len c(2) by (simp add: rx'_def received_rows_def)
  then have "collects E mid t0 (insert (message_page_id page) seen) rx'"
    using c page sh'(1) len by (auto simp: collects_def rx'_def page_of_message_def)
  then show thesis using that s sh'(2) by blast
qed

section \<open>The handler\<close>

text \<open>What the collection of pages does not touch.\<close>

definition rest_of :: "has_receiver \<Rightarrow> has_receiver" where
  "rest_of rx = rx\<lparr> d_received_timestamps := [], d_received_pids := [], d_C_matrix := [], d_printed_timestamps := [],
     d_printed_mids := [], d_current_has_status := 0, d_current_message_id := 0, d_new_message := False \<rparr>"

lemma kept_rest: "kept rx rx' \<Longrightarrow> rest_of rx' = rest_of rx"
  unfolding kept_def by (cases rx; cases rx') (simp add: rest_of_def)

lemma rest_of_simps [simp]:
  "rest_of (rx\<lparr> d_current_has_status := a, d_current_message_id := b \<rparr>) = rest_of rx"
  "rest_of (rx\<lparr> d_new_message := c \<rparr>) = rest_of rx"
  by (simp_all add: rest_of_def)

lemma rest_ofD:
  assumes "rest_of rx = rest_of rx'"
  shows "d_rs rx = d_rs rx'" "d_iod_ref_map rx = d_iod_ref_map rx'" "E6_HAS_to_PVT rx = E6_HAS_to_PVT rx'"
    "mask_known c rx = mask_known c rx'"
proof -
  have "d_rs (rest_of r) = d_rs r" "d_iod_ref_map (rest_of r) = d_iod_ref_map r"
    "E6_HAS_to_PVT (rest_of r) = E6_HAS_to_PVT r" "mask_known c (rest_of r) = mask_known c r" for r
    by (simp_all add: rest_of_def mask_known_def mask_stored_def systems_stored_def)
  then show "d_rs rx = d_rs rx'" "d_iod_ref_map rx = d_iod_ref_map rx'" "E6_HAS_to_PVT rx = E6_HAS_to_PVT rx'"
    "mask_known c rx = mask_known c rx'" using assms by metis+
qed

lemma collects_simps [simp]:
  "collects E mid t0 seen (rx\<lparr> d_current_has_status := a, d_current_message_id := b \<rparr>) = collects E mid t0 seen rx"
  "collects E mid t0 seen (rx\<lparr> d_new_message := c \<rparr>) = collects E mid t0 seen rx"
  by (simp_all add: collects_def has_shape_def store_shape_def)

text \<open>A page of the message is stored; then the message is decoded when all its pages are there.\<close>

lemma process_page_collects:
  assumes c: "collects E mid t0 seen rx" "unat mid < 32" and E: "matrix_shape E"
    and page: "page_of_message E mid ms t0 page"
  obtains rx1 where "collects E mid t0 (insert (message_page_id page) seen) rx1" "rest_of rx1 = rest_of rx" "\<not> d_new_message rx1"
    "process_HAS_page page rx = (if card (insert (message_page_id page) seen) \<noteq> unat ms then Some rx1
       else do { (res, rx) \<leftarrow> decode_message_type1 mid ms rx1;
                 Some (if res = 0 \<and> d_nsat_in_mask_id rx ! unat (mask_id (mt1_header (d_HAS_data rx))) \<noteq> 0
                   then rx\<lparr> d_new_message := True \<rparr> else rx) })"
proof -
  have use: "(page_has_status page = 0 \<or> page_has_status page = 1) \<and> message_page_id page \<noteq> 0 \<and> message_type page = 1"
    using page by (auto simp: page_of_message_def)
  have "unat (time_stamp page) \<le> unat t0 + 150" using page by (simp add: page_of_message_def)
  then obtain ra where ra: "delete_outdated_data page rx = Some ra" "collects E mid t0 seen ra" "kept rx ra"
    using delete_outdated_data_collects[OF c] by blast
  obtain rb where rb: "store_page page ra = Some rb" "collects E mid t0 (insert (message_page_id page) seen) rb" "kept ra rb"
    using store_page_collects[OF ra(2) c(2) E page] by blast
  let ?rx1 = "rb\<lparr> d_new_message := False \<rparr>"
  have sh: "has_shape rb" using rb(2) by (simp add: collects_def)
  have "distinct (d_received_pids rb ! unat mid)"
    using has_shapeD(7)[OF sh c(2)] by (simp add: message_shape_def)
  then have n: "length (d_received_pids rb ! unat mid) = card (insert (message_page_id page) seen)"
    using rb(2) distinct_card unfolding collects_def by fastforce
  have get: "vget (d_received_pids rb) (unat mid) = Some (d_received_pids rb ! unat mid)"
    using has_shapeD(1)[OF sh] c(2) by (simp add: vget_Some)
  have "process_HAS_page page rx = (if card (insert (message_page_id page) seen) \<noteq> unat ms then Some ?rx1
       else do { (res, rx) \<leftarrow> decode_message_type1 mid ms ?rx1;
                 Some (if res = 0 \<and> d_nsat_in_mask_id rx ! unat (mask_id (mt1_header (d_HAS_data rx))) \<noteq> 0
                   then rx\<lparr> d_new_message := True \<rparr> else rx) })"
    unfolding process_HAS_page_def if_P[OF use] using ra(1) rb(1) n get page
    by (simp add: Let_def page_of_message_def)
  then show thesis
    using that[of ?rx1] rb(2) kept_rest[OF kept_trans[OF ra(3) rb(3)]] by simp
qed

lemma handler_collects:
  assumes c: "collects E mid t0 seen rx" "unat mid < 32" and E: "matrix_shape E"
    and page: "page_of_message E mid ms t0 page" and n: "card (insert (message_page_id page) seen) \<noteq> unat ms"
  obtains rx' where "msg_handler_galileo_e6_has page rx = Some rx'"
    "collects E mid t0 (insert (message_page_id page) seen) rx'" "rest_of rx' = rest_of rx"
proof -
  let ?rx = "rx\<lparr> d_current_has_status := page_has_status page, d_current_message_id := page_message_id page \<rparr>"
  have "collects E mid t0 seen ?rx" using c(1) by simp
  then obtain rx1 where rx1: "collects E mid t0 (insert (message_page_id page) seen) rx1" "rest_of rx1 = rest_of ?rx"
    "\<not> d_new_message rx1" "process_HAS_page page ?rx = Some rx1"
    using process_page_collects[OF _ c(2) E page, of seen ?rx] n by (metis (no_types, lifting))
  have "vget (d_printed_mids rx) (unat mid) = Some False"
    using c has_shapeD(5)[of rx] by (simp add: vget_Some collects_def)
  then have "msg_handler_galileo_e6_has page rx = Some rx1"
    using page rx1(3,4) by (simp add: msg_handler_galileo_e6_has_def receive_page_def Let_def page_of_message_def)
  then show thesis using that rx1(1,2) by simp
qed

section \<open>Complete messages\<close>

text \<open>A message of \<open>ms\<close> pages with the given contents; bits after them are not looked at.\<close>

definition message_carries :: "u8 list list \<Rightarrow> u8 \<Rightarrow> has_contents \<Rightarrow> bool" where
  "message_carries E ms c \<longleftrightarrow> unat ms \<le> 32 \<and> encoded_message (codeword 223 1) (unat ms) E \<and> well_formed_contents c
     \<and> take (32 + length (send_body c)) (rows_text (take (unat ms) E)) = send_header (con_header c) @ send_body c"

definition allowed_pids :: "u8 \<Rightarrow> u8 set \<Rightarrow> bool" where
  "allowed_pids ms seen \<longleftrightarrow> (\<forall>pid \<in> seen. (0 < unat pid \<and> unat pid \<le> unat ms) \<or> 32 < unat pid)"

lemma outsideD:
  assumes "outside rx' = outside rx"
  shows "d_received_pids rx' = d_received_pids rx" "d_received_timestamps rx' = d_received_timestamps rx"
    "E6_HAS_to_PVT rx' = E6_HAS_to_PVT rx"
    "d_printed_mids rx' = d_printed_mids rx" "d_printed_timestamps rx' = d_printed_timestamps rx"
  using assms by (simp_all add: outside_def)

lemma decode_complete_message:
  assumes m: "message_carries E ms c" and rx: "collects E mid t0 seen rx" "unat mid < 32" "d_rs rx = e6b_decoder"
    and seen: "card seen = unat ms" "allowed_pids ms seen" and known: "mask_known c rx"
  obtains rx' where "decode_message_type1 mid ms rx = Some (0, rx')" "contents_in_data c (d_iod_ref_map rx) (d_HAS_data rx')"
    "has_shape rx'" "E6_HAS_to_PVT rx' = E6_HAS_to_PVT rx"
    "d_nsat_in_mask_id rx' ! unat (mask_id (mt1_header (d_HAS_data rx'))) \<noteq> 0"
proof -
  let ?pids = "d_received_pids rx ! unat mid" and ?C = "d_C_matrix rx ! unat mid"
  let ?er = "erasure_positions ?pids ms"
  have sh: "has_shape rx" using rx(1) by (simp add: collects_def)
  note len = has_shapeD[OF sh]
  have E: "encoded_message (codeword 223 1) (unat ms) E" "matrix_shape E" "unat ms \<le> 32" "well_formed_contents c"
    using m by (simp_all add: message_carries_def encoded_message_def)
  have d: "distinct ?pids" "set ?pids = seen" using len(7)[OF rx(2)] rx(1) by (simp_all add: message_shape_def collects_def)
  then have enough: "enough_pages ?pids ms"
    using seen E(3) distinct_card[OF d(1)] by (simp add: enough_pages_def allowed_pids_def)
  have er: "length ?er = 223"
    using enough by (intro erasure_positions_props(2)) (simp_all add: enough_pages_def)
  have "received_rows ?pids ?C E" using rx(1) by (simp add: collects_def)
  then have cols: "decode_columns (d_rs rx) ?pids ?C ?er [0..<53] (replicate 32 (replicate 53 0)) = Some (True, take 32 E)"
    unfolding rx(3) put_all_columns[OF E(2), symmetric]
    by (intro e6b.decode_columns_code[OF E(1) len(8)[OF rx(2)] _ enough]) simp_all
  define msg where "msg = rows_text (take (unat ms) E)"
  have decoded: "decoded_message ms (take 32 E) = Some msg"
    using decoded_message_rows[OF E(2,3)] by (simp add: msg_def)
  have msg: "msg = send_header (con_header c) @ send_body c @ drop (32 + length (send_body c)) msg"
    using m append_take_drop_id[of "32 + length (send_body c)" msg] by (simp add: message_carries_def msg_def)
  define rx1 where "rx1 = (if d_enable_navdata_monitor rx
    then rx\<lparr> d_M_matrix := take 32 E, Nav_msg_from_TLM := Nav_msg_from_TLM rx @ [msg] \<rparr> else rx\<lparr> d_M_matrix := take 32 E \<rparr>)"
  define rx2 where "rx2 = rx1\<lparr> d_received_pids := (d_received_pids rx1)[unat mid := []],
    d_C_matrix := (d_C_matrix rx1)[unat mid := replicate 255 (replicate 53 0)] \<rparr>"
  have "has_shape rx1"
    using sh E(2) unfolding rx1_def has_shape_def matrix_shape_def by simp
  then have sh2: "has_shape rx2" unfolding rx2_def by (rule has_shape_clear(2))
  have known2: "mask_known c rx2" "d_iod_ref_map rx2 = d_iod_ref_map rx" "E6_HAS_to_PVT rx2 = E6_HAS_to_PVT rx"
    using known by (simp_all add: rx2_def rx1_def mask_known_def mask_stored_def systems_stored_def)
  obtain rx' where rx': "read_decoded_message msg rx2 = Some (0, rx')"
    "contents_in_data c (d_iod_ref_map rx2) (d_HAS_data rx')" "outside rx' = outside rx2" "store_shape rx'"
    "mask_stored (con_systems c) (unat (mask_id (con_header c))) rx'"
    using read_decoded_message_send[OF E(4) has_shapeD(6)[OF sh2] known2(1), of "drop (32 + length (send_body c)) msg"]
    unfolding msg[symmetric] by metis
  have "ms \<noteq> 255" using E(3) by auto
  then have "decode_message_type1 mid ms rx = read_decoded_message msg rx2"
    using len rx(2) er cols decoded by (simp add: decode_message_type1_def Let_def vget_Some rx1_def rx2_def)
  moreover have "d_nsat_in_mask_id rx' ! unat (mask_id (mt1_header (d_HAS_data rx'))) \<noteq> 0"
    using rx'(2,5) E(4) by (simp add: contents_in_data_def mask_stored_def well_formed_contents_def)
  ultimately show thesis
    using that rx' has_shape_outside[OF rx'(3,4) sh2] outsideD(3)[OF rx'(3)] known2 by simp
qed

text \<open>The page that completes a message makes the receiver hand on its contents.\<close>

definition handed_on :: "has_contents \<Rightarrow> (u8 \<times> u8 \<rightharpoonup> u16 list) \<Rightarrow> has_page \<Rightarrow> has_data \<Rightarrow> bool" where
  "handed_on c iods page d \<longleftrightarrow> contents_in_data c iods d \<and> has_tow d = page_tow page
     \<and> message_id d = page_message_id page \<and> has_status d = page_has_status page"

lemma contents_in_data_outer [simp]:
  "contents_in_data c r (d\<lparr> has_status := a, message_id := b, has_tow := e \<rparr>) = contents_in_data c r d"
  by (simp add: contents_in_data_def mask_in_data_def orbits_in_data_def clocks_in_data_def split: option.split)

lemma handler_completes:
  assumes m: "message_carries E ms c" and rx: "collects E mid t0 seen rx" "unat mid < 32" "d_rs rx = e6b_decoder"
    and page: "page_of_message E mid ms t0 page" and seen: "card (insert (message_page_id page) seen) = unat ms"
    "allowed_pids ms seen" and known: "mask_known c rx"
  obtains rx' d where "msg_handler_galileo_e6_has page rx = Some rx'" "handed_on c (d_iod_ref_map rx) page d"
    "has_shape rx'" "E6_HAS_to_PVT rx' = E6_HAS_to_PVT rx @ [d]" "d_printed_mids rx' ! unat mid" "\<not> d_new_message rx'"
proof -
  let ?rx = "rx\<lparr> d_current_has_status := page_has_status page, d_current_message_id := page_message_id page \<rparr>"
  have E: "matrix_shape E" using m by (simp add: message_carries_def encoded_message_def)
  have "collects E mid t0 seen ?rx" using rx(1) by simp
  then obtain rx1 where rx1: "collects E mid t0 (insert (message_page_id page) seen) rx1" "rest_of rx1 = rest_of ?rx"
    "\<not> d_new_message rx1"
    "process_HAS_page page ?rx = do { (res, rx) \<leftarrow> decode_message_type1 mid ms rx1;
       Some (if res = 0 \<and> d_nsat_in_mask_id rx ! unat (mask_id (mt1_header (d_HAS_data rx))) \<noteq> 0
         then rx\<lparr> d_new_message := True \<rparr> else rx) }"
    using process_page_collects[OF _ rx(2) E page, of seen ?rx] seen(1) by (metis (no_types, lifting))
  have rest: "rest_of rx1 = rest_of rx" using rx1(2) by simp
  have allowed: "allowed_pids ms (insert (message_page_id page) seen)"
    using seen(2) page by (auto simp: allowed_pids_def page_of_message_def)
  obtain rx2 where rx2: "decode_message_type1 mid ms rx1 = Some (0, rx2)"
    "contents_in_data c (d_iod_ref_map rx1) (d_HAS_data rx2)" "has_shape rx2" "E6_HAS_to_PVT rx2 = E6_HAS_to_PVT rx1"
    "d_nsat_in_mask_id rx2 ! unat (mask_id (mt1_header (d_HAS_data rx2))) \<noteq> 0"
    by (rule decode_complete_message[OF m rx1(1) rx(2) _ seen(1) allowed])
      (use rest_ofD[OF rest] rx(3) known in simp_all)
  have "vget (d_printed_mids rx) (unat mid) = Some False"
    using rx has_shapeD(5)[of rx] by (simp add: vget_Some collects_def)
  then have h: "\<exists>d rx'. msg_handler_galileo_e6_has page rx = Some rx' \<and> d = (d_HAS_data rx2)\<lparr> has_status := page_has_status page,
      message_id := page_message_id page, has_tow := page_tow page \<rparr> \<and>
      rx' = rx2\<lparr> d_HAS_data := d, d_printed_mids := (d_printed_mids rx2)[unat mid := True],
        d_printed_timestamps := (d_printed_timestamps rx2)[unat mid := time_stamp page], d_new_message := False,
        E6_HAS_to_PVT := E6_HAS_to_PVT rx2 @ [d] \<rparr>"
    using page rx1(4) rx2(1,5) by (simp add: msg_handler_galileo_e6_has_def receive_page_def Let_def page_of_message_def)
  then obtain d rx' where d: "msg_handler_galileo_e6_has page rx = Some rx'" "d = (d_HAS_data rx2)\<lparr> has_status := page_has_status page,
      message_id := page_message_id page, has_tow := page_tow page \<rparr>"
      "rx' = rx2\<lparr> d_HAS_data := d, d_printed_mids := (d_printed_mids rx2)[unat mid := True],
        d_printed_timestamps := (d_printed_timestamps rx2)[unat mid := time_stamp page], d_new_message := False,
        E6_HAS_to_PVT := E6_HAS_to_PVT rx2 @ [d] \<rparr>" by blast
  show thesis
    using that[of rx' d] d rx2(2-4) rest_ofD[OF rest] rx(2) has_shapeD(5)[OF rx2(3)]
    by (simp add: handed_on_def has_shape_def store_shape_def)
qed

end
