(* ===== verification/Has_Run.thy ===== *)
theory Has_Run
  imports Has_Reassembly
begin

text \<open>
  The receiver of the High Accuracy Service over a sequence of pages: a message is handed on once,
  whatever the order of its pages; the state keeps its shape; what is left over from an earlier
  message.
\<close>

section \<open>Sequences of pages\<close>

abbreviation handle_pages :: "has_page list \<Rightarrow> has_receiver \<Rightarrow> has_receiver option" where
  "handle_pages \<equiv> foldM msg_handler_galileo_e6_has"

lemma collect_pages:
  assumes E: "matrix_shape E" and mid: "unat mid < 32"
    and "collects E mid t0 seen rx" "\<forall>p \<in> set ps. page_of_message E mid ms t0 p"
    and "finite seen" "card (seen \<union> message_page_id ` set ps) < unat ms"
  shows "\<exists>rx'. handle_pages ps rx = Some rx' \<and> collects E mid t0 (seen \<union> message_page_id ` set ps) rx'
    \<and> rest_of rx' = rest_of rx"
  using assms(3-)
proof (induction ps arbitrary: seen rx)
  case (Cons p ps)
  let ?seen = "insert (message_page_id p) seen"
  have "card ?seen \<le> card (seen \<union> message_page_id ` set (p # ps))"
    using Cons.prems(3) by (intro card_mono) auto
  then have n: "card ?seen \<noteq> unat ms" using Cons.prems(4) by linarith
  obtain rx1 where rx1: "msg_handler_galileo_e6_has p rx = Some rx1" "collects E mid t0 ?seen rx1" "rest_of rx1 = rest_of rx"
    using handler_collects[OF Cons.prems(1) mid E _ n] Cons.prems(2) by auto
  have "\<exists>rx'. handle_pages ps rx1 = Some rx' \<and> collects E mid t0 (?seen \<union> message_page_id ` set ps) rx'
    \<and> rest_of rx' = rest_of rx1"
    using Cons.prems by (intro Cons.IH rx1(2)) simp_all
  then show ?case using rx1 by auto
qed simp

text \<open>A page of a message that was already handed on changes nothing but the current status.\<close>

lemma handler_printed:
  assumes "unat (page_message_id page) < length (d_printed_mids rx)" "d_printed_mids rx ! unat (page_message_id page)"
    "\<not> d_new_message rx"
  shows "msg_handler_galileo_e6_has page rx = Some (rx\<lparr> d_current_has_status := page_has_status page,
    d_current_message_id := page_message_id page \<rparr>)"
  using assms by (simp add: msg_handler_galileo_e6_has_def receive_page_def Let_def vget_Some)

lemma handle_printed:
  assumes "unat mid < length (d_printed_mids rx)" "d_printed_mids rx ! unat mid" "\<not> d_new_message rx"
    "\<forall>q \<in> set qs. page_message_id q = mid"
  shows "\<exists>rx'. handle_pages qs rx = Some rx' \<and> E6_HAS_to_PVT rx' = E6_HAS_to_PVT rx"
  using assms
proof (induction qs arbitrary: rx)
  case (Cons q qs)
  let ?rx = "rx\<lparr> d_current_has_status := page_has_status q, d_current_message_id := page_message_id q \<rparr>"
  have "msg_handler_galileo_e6_has q rx = Some ?rx" using Cons.prems by (intro handler_printed) simp_all
  moreover have "\<exists>rx'. handle_pages qs ?rx = Some rx' \<and> E6_HAS_to_PVT rx' = E6_HAS_to_PVT ?rx"
    using Cons.prems by (intro Cons.IH) simp_all
  ultimately show ?case by simp
qed simp

definition ready_for :: "u8 \<Rightarrow> has_contents \<Rightarrow> has_receiver \<Rightarrow> bool" where
  "ready_for mid c rx \<longleftrightarrow> has_shape rx \<and> d_rs rx = e6b_decoder \<and> unat mid < 32 \<and> \<not> d_printed_mids rx ! unat mid
     \<and> d_received_pids rx ! unat mid = [] \<and> d_received_timestamps rx ! unat mid = [] \<and> mask_known c rx"

lemma message_handed_on:
  assumes m: "message_carries E ms c" and rx: "ready_for mid c rx"
    and pages: "\<forall>p \<in> set (ps @ [p]). page_of_message E mid ms t0 p"
    and n: "Suc (card (message_page_id ` set ps)) = unat ms" "message_page_id p \<notin> message_page_id ` set ps"
  obtains rx' d where "handle_pages (ps @ [p]) rx = Some rx'" "has_shape rx'" "d_printed_mids rx' ! unat mid"
    "\<not> d_new_message rx'" "E6_HAS_to_PVT rx' = E6_HAS_to_PVT rx @ [d]" "handed_on c (d_iod_ref_map rx) p d"
proof -
  have E: "matrix_shape E" using m by (simp add: message_carries_def encoded_message_def)
  have mid: "unat mid < 32" and rs: "d_rs rx = e6b_decoder" and known: "mask_known c rx"
    using rx by (simp_all add: ready_for_def)
  have "collects E mid t0 {} rx" using rx by (simp add: ready_for_def collects_def received_rows_def)
  then obtain rx1 where rx1: "handle_pages ps rx = Some rx1" "collects E mid t0 (message_page_id ` set ps) rx1"
    "rest_of rx1 = rest_of rx"
    using collect_pages[OF E mid, of t0 "{}" rx ps ms] pages n(1) by auto
  have "allowed_pids ms (message_page_id ` set ps)"
    using pages by (auto simp: allowed_pids_def page_of_message_def)
  moreover have "card (insert (message_page_id p) (message_page_id ` set ps)) = unat ms" using n by simp
  ultimately obtain rx2 d where rx2: "msg_handler_galileo_e6_has p rx1 = Some rx2" "handed_on c (d_iod_ref_map rx1) p d"
    "has_shape rx2" "E6_HAS_to_PVT rx2 = E6_HAS_to_PVT rx1 @ [d]" "d_printed_mids rx2 ! unat mid" "\<not> d_new_message rx2"
    using handler_completes[OF m rx1(2) mid, of p] pages rest_ofD[OF rx1(3)] rs known by auto
  show thesis using that[of rx2 d] rx1(1) rx2 rest_ofD[OF rx1(3)] by (simp add: foldM_append)
qed

text \<open>C4: The pages of a message of the High Accuracy Service make the receiver hand on its contents,
  whatever their order and repetitions: when the receiver has nothing stored for the message
  identifier and knows its mask (or the message brings one), and \<open>ms\<close> distinct pages of an encoded
  message of \<open>ms\<close> pages arrive within 150 seconds, data pages or parity pages, then the handler
  sends to the position solver exactly one set of corrections, with the header, mask, orbit and
  clock corrections of the message and the time, identifier and status of the page that completed
  it; pages of the same message that follow add nothing.
\<close>
theorem message_handed_on_once:
  assumes m: "message_carries E ms c" and rx: "ready_for mid c rx"
    and pages: "\<forall>p \<in> set (ps @ [p]). page_of_message E mid ms t0 p"
    and n: "Suc (card (message_page_id ` set ps)) = unat ms" "message_page_id p \<notin> message_page_id ` set ps"
    and more: "\<forall>q \<in> set qs. page_message_id q = mid"
  shows "\<exists>rx' d. handle_pages (ps @ p # qs) rx = Some rx' \<and> E6_HAS_to_PVT rx' = E6_HAS_to_PVT rx @ [d]
    \<and> handed_on c (d_iod_ref_map rx) p d"
proof -
  obtain rx' d where rx': "handle_pages (ps @ [p]) rx = Some rx'" "has_shape rx'" "d_printed_mids rx' ! unat mid"
    "\<not> d_new_message rx'" "E6_HAS_to_PVT rx' = E6_HAS_to_PVT rx @ [d]" "handed_on c (d_iod_ref_map rx) p d"
    by (rule message_handed_on[OF m rx pages n])
  have "unat mid < 32" using rx by (simp add: ready_for_def)
  then obtain rx3 where "handle_pages qs rx' = Some rx3" "E6_HAS_to_PVT rx3 = E6_HAS_to_PVT rx'"
    using handle_printed[of mid rx' qs] rx'(3,4) has_shapeD(5)[OF rx'(2)] more by auto
  then show ?thesis using rx' foldM_append[of msg_handler_galileo_e6_has "ps @ [p]" qs rx] by simp
qed

section \<open>A message\<close>

lemma constant_codeword: "codeword 223 1 (replicate 255 v)"
proof -
  have "syndrome 1 (replicate 255 v) i = 0" if "i < 223" for i
  proof -
    let ?x = "gen ^ (1 + i)"
    have "?x \<noteq> 1" using gen_power_eq_iff[of "1 + i" 0] that by simp
    have "?x ^ 255 = (gen ^ 255) ^ (1 + i)" by (simp only: power_mult[symmetric] mult.commute)
    then have x: "?x ^ 255 = 1" by (simp only: gen_power_255 power_one)
    have "(\<Sum>j<255. loc j ^ (1 + i)) = (\<Sum>j<255. ?x ^ (255 - Suc j))"
    proof (intro sum.cong refl)
      fix j :: nat
      have "255 - Suc j = 254 - j" by simp
      then show "loc j ^ (1 + i) = ?x ^ (255 - Suc j)"
        by (simp only: loc_def power_mult[symmetric] mult.commute)
    qed
    also have "\<dots> = (\<Sum>j<255. ?x ^ j)" by (rule sum.nat_diff_reindex)
    also have "\<dots> = 0" using \<open>?x \<noteq> 1\<close> x unfolding geometric_sum[OF \<open>?x \<noteq> 1\<close>] x by simp
    finally show ?thesis
      unfolding syndrome_def by (simp add: sum_distrib_left[symmetric] del: power_Suc)
  qed
  then show ?thesis by (simp add: codeword_def)
qed

definition sample_contents :: has_contents where
  "sample_contents = \<lparr> con_header = \<lparr> toh = 100, mask_id = 3, iod_set_id = 7, header_reserved = 0, mask_flag = True,
       orbit_correction_flag = True, clock_fullset_flag = False, clock_subset_flag = False, code_bias_flag = False,
       phase_bias_flag = False \<rparr>,
     con_systems = [\<lparr> sys_gnss = 0, sys_satellites = 2 ^ 39, sys_signals = 2 ^ 15, sys_cells = None, sys_nav = 0 \<rparr>],
     con_orbits = Some (5, [\<lparr> orbit_iod = 42, orbit_radial = - 100, orbit_in_track = 7, orbit_cross_track = - 8 \<rparr>]),
     con_clocks = None \<rparr>"

definition sample_row :: "u8 list" where
  "sample_row = text_row (send_header (con_header sample_contents) @ send_body sample_contents @ replicate 269 CHR ''0'')"

definition sample_message :: "u8 list list" where
  "sample_message = replicate 255 sample_row"

definition sample_page :: "nat \<Rightarrow> has_page" where
  "sample_page pid = \<lparr> has_message_string = row_text sample_row, time_stamp = 1000, page_tow = 7,
     page_has_status = 1, page_reserved = 0, message_type = 1, page_message_id = 9, message_size = 32,
     message_page_id = of_nat pid \<rparr>"

lemma ones_power: "k < n \<Longrightarrow> ones n (2 ^ k) = 1"
proof -
  have "bit (2 ^ k :: nat) = (\<lambda>i. i = k)" by (auto simp: bit_exp_iff)
  then have "ones n (2 ^ k) = length (filter (\<lambda>i. i = k) [0..<n])" unfolding ones_def by simp
  moreover have "length (filter (\<lambda>i. i = k) [0..<n]) = (if k < n then 1 else 0)" by (induction n) auto
  ultimately show "k < n \<Longrightarrow> ones n (2 ^ k) = 1" by simp
qed

lemma ones_sample: "ones 40 549755813888 = 1" "ones 16 32768 = 1"
  using ones_power[of 39 40] ones_power[of 15 16] by simp_all

lemmas sample_contents_defs = sample_contents_def send_body_def send_mask_def send_system_def send_orbits_def send_orbit_def
  satellite_systems_def total_satellites_def iod_length_def ones_sample

lemma length_send_sample: "length (send_body sample_contents) = 123"
  by (simp add: sample_contents_defs)

lemma sample_well_formed: "well_formed_contents sample_contents"
  by (simp add: sample_contents_defs well_formed_contents_def well_formed_header_def well_formed_system_def
      well_formed_orbits_def well_formed_orbit_def)

lemma sample_row_text:
  "row_text sample_row = send_header (con_header sample_contents) @ send_body sample_contents @ replicate 269 CHR ''0''"
proof -
  have "binary (send_body sample_contents)"
    by (simp add: sample_contents_defs signed_field_of_def binary_Cons)
  moreover have "binary (replicate 269 CHR ''0'')" by (simp add: binary_def)
  ultimately show ?thesis
    unfolding sample_row_def by (intro row_text_text_row) (simp_all add: length_send_sample)
qed

lemma sample_shape: "matrix_shape sample_message"
  by (simp add: sample_message_def matrix_shape_def sample_row_def)

lemma sample_carried: "message_carries sample_message 32 sample_contents"
proof -
  have col: "column_of sample_message col = replicate 255 (sample_row ! col)" for col
    by (simp add: column_of_def sample_message_def map_replicate)
  have "take 32 sample_message = sample_row # replicate 31 sample_row"
    by (simp add: sample_message_def take_replicate flip: replicate_Suc)
  then have "take 155 (rows_text (take 32 sample_message)) = take 155 (row_text sample_row)"
    by (simp add: rows_text_def sample_row_def)
  also have "\<dots> = send_header (con_header sample_contents) @ send_body sample_contents"
    by (simp add: sample_row_text length_send_sample)
  finally show ?thesis
    using sample_well_formed sample_shape
    by (auto simp: message_carries_def encoded_message_def length_send_sample col constant_codeword simp del: One_nat_def)
qed

definition sample_has_receiver :: has_receiver where
  "sample_has_receiver = make_has_receiver e6b_decoder"

lemma sample_ready: "ready_for 9 sample_contents sample_has_receiver"
  using has_shape_make[of e6b_decoder]
  by (simp add: ready_for_def sample_has_receiver_def make_has_receiver_def mask_known_def sample_contents_def)

lemma sample_page_fits:
  assumes "0 < pid" "pid < 256" "pid \<le> 32 \<or> 32 < pid"
  shows "page_of_message sample_message 9 32 1000 (sample_page pid)"
proof -
  have "unat (of_nat pid :: u8) = pid" using assms(2) by (intro unat_of_nat_less) simp
  moreover have "sample_message ! (pid - 1) = sample_row" using assms by (simp add: sample_message_def)
  ultimately show ?thesis using assms by (auto simp: page_of_message_def sample_page_def)
qed

lemma sample_pids: "card ((of_nat :: nat \<Rightarrow> u8) ` {40..<71}) = 31" "(3 :: u8) \<notin> of_nat ` {40..<71}"
proof -
  have inj: "inj_on (of_nat :: nat \<Rightarrow> u8) {1..<256}"
  proof (rule inj_onI)
    fix i j :: nat assume ij: "i \<in> {1..<256}" "j \<in> {1..<256}" and e: "(of_nat i :: u8) = of_nat j"
    have "unat (of_nat i :: u8) = i" "unat (of_nat j :: u8) = j"
      using ij by (intro unat_of_nat_less; simp)+
    then show "i = j" using e by metis
  qed
  have "inj_on (of_nat :: nat \<Rightarrow> u8) {40..<71}" by (rule inj_on_subset[OF inj]) auto
  then show "card ((of_nat :: nat \<Rightarrow> u8) ` {40..<71}) = 31" by (simp add: card_image)
  have "(of_nat 3 :: u8) \<notin> of_nat ` {40..<71}" by (subst inj_on_image_mem_iff[OF inj]) auto
  then show "(3 :: u8) \<notin> of_nat ` {40..<71}" by simp
qed

theorem message_handed_on_once_witness:
  "\<exists>rx' d. handle_pages (map sample_page (rev [40..<71]) @ sample_page 3 # [sample_page 40, sample_page 1]) sample_has_receiver = Some rx'
    \<and> E6_HAS_to_PVT rx' = [d] \<and> handed_on sample_contents (d_iod_ref_map sample_has_receiver) (sample_page 3) d"
proof -
  have pids: "message_page_id ` set (map sample_page (rev [40..<71])) = of_nat ` {40..<71}"
    unfolding set_map set_rev set_upt image_image by (simp add: sample_page_def)
  have n: "Suc (card (message_page_id ` set (map sample_page (rev [40..<71])))) = unat (32 :: u8)"
    "message_page_id (sample_page 3) \<notin> message_page_id ` set (map sample_page (rev [40..<71]))"
    unfolding pids using sample_pids by (simp_all add: sample_page_def)
  have "\<forall>p \<in> set (map sample_page (rev [40..<71]) @ [sample_page 3]). page_of_message sample_message 9 32 1000 p"
    unfolding set_append set_map set_rev set_upt using sample_page_fits by auto
  from message_handed_on_once[OF sample_carried sample_ready this n, of "[sample_page 40, sample_page 1]"]
  show ?thesis by (simp add: sample_page_def sample_has_receiver_def make_has_receiver_def)
qed

end
