(* ===== verification/Cnav_Pages.thy ===== *)
theory Cnav_Pages
  imports Cnav_Message
begin

text \<open>
  Pages of the C/NAV message: what a satellite sends as one page, and that the telemetry decoder
  passes on those pages, with their fields, and no page whose checksum fails.
\<close>

section \<open>Sending a page\<close>

definition send_page_header :: "has_page \<Rightarrow> string" where
  "send_page_header p = field_of 2 (unat (page_has_status p)) @ field_of 2 (unat (page_reserved p))
     @ field_of 2 (unat (message_type p)) @ field_of 5 (unat (page_message_id p))
     @ field_of 5 (unat (message_size p) - 1) @ field_of 8 (unat (message_page_id p))"

definition well_formed_page :: "has_page \<Rightarrow> bool" where
  "well_formed_page p \<longleftrightarrow> (page_has_status p = 0 \<or> page_has_status p = 1) \<and> unat (page_reserved p) < 4
     \<and> unat (message_type p) < 4 \<and> unat (page_message_id p) < 32
     \<and> 1 \<le> unat (message_size p) \<and> unat (message_size p) \<le> 32
     \<and> binary (has_message_string p) \<and> length (has_message_string p) = 424"

text \<open>Soft bits that carry a page: 14 bits that are not used, the header, 424 bits of the message,
  the checksum of all that, and whatever follows.\<close>

definition transmits :: "(u8 list \<Rightarrow> u32) \<Rightarrow> int list \<Rightarrow> has_page \<Rightarrow> bool" where
  "transmits crc page_bits p \<longleftrightarrow> well_formed_page p \<and> (\<exists>unused k rest. binary unused \<and> length unused = 14 \<and> k < 2 ^ 24
     \<and> of_nat k = crc (frame_bytes 58 (rev (bits_in (unused @ send_page_header p @ has_message_string p))))
     \<and> page_string_of page_bits = unused @ send_page_header p @ has_message_string p @ field_of 24 k @ rest)"

text \<open>A frame with a given checksum function, unused bits and tail zero.\<close>

definition frame_bits :: "(u8 list \<Rightarrow> u32) \<Rightarrow> has_page \<Rightarrow> int list" where
  "frame_bits crc p =
    (let s = replicate 14 CHR ''0'' @ send_page_header p @ has_message_string p
     in map (\<lambda>ch. if is_one ch then 1 else - 1) (s @ field_of 24 (unat (crc (frame_bytes 58 (rev (bits_in s)))))
       @ replicate 6 CHR ''0''))"

text \<open>The checksum the code takes from \<open>boost::crc_optimal\<close>: 24 bits, the polynomial \<open>0x1864CFB\<close>.\<close>

definition crc24q :: "u8 list \<Rightarrow> u32" where
  "crc24q = foldl (\<lambda>r b. take_bit 24 (((\<lambda>r. if bit r 23 then push_bit 1 r XOR 0x1864CFB else push_bit 1 r) ^^ 8)
     (r XOR push_bit 16 (ucast b)))) 0"

lemma crc24q_bound: "unat (crc24q bs) < 2 ^ 24"
proof -
  have "take_bit 24 (crc24q bs) = crc24q bs"
    by (induction bs rule: rev_induct) (simp_all add: crc24q_def)
  then have "unat (crc24q bs) = take_bit 24 (unat (crc24q bs))" by (metis unsigned_take_bit_eq)
  then show ?thesis by (metis take_bit_nat_less_exp)
qed

lemma length_send_page_header [simp]: "length (send_page_header p) = 24"
  by (simp add: send_page_header_def)

lemma binary_send_page_header [simp]: "binary (send_page_header p)"
  by (simp add: send_page_header_def)

lemma send_page_header_not_dummy:
  assumes "page_has_status p = 0 \<or> page_has_status p = 1"
  shows "send_page_header p \<noteq> dummy_header"
proof -
  have "hd (send_page_header p) = CHR ''0''"
    using assms by (auto simp: send_page_header_def field_of_def char_of_bit_def upt_rec numeral_2_eq_2 bit_1_iff)
  moreover have "hd dummy_header = CHR ''1''" by (simp add: dummy_header_def)
  ultimately show ?thesis by auto
qed

lemma read_HAS_page_header_send:
  assumes "well_formed_page p"
  shows "read_HAS_page_header (send_page_header p) cnav = Some (cnav\<lparr> d_page_dummy := False,
    d_has_page_status := page_has_status p, d_has_reserved := page_reserved p, d_received_message_type := message_type p,
    d_received_message_id := page_message_id p, d_received_message_size := message_size p,
    d_received_message_page_id := message_page_id p \<rparr>)"
proof -
  define b where "b = bits_in (send_page_header p)"
  have b: "b = bits_in (field_of 2 (unat (page_has_status p))) @ bits_in (field_of 2 (unat (page_reserved p)))
      @ bits_in (field_of 2 (unat (message_type p))) @ bits_in (field_of 5 (unat (page_message_id p)))
      @ bits_in (field_of 5 (unat (message_size p) - 1)) @ bits_in (field_of 8 (unat (message_page_id p)))"
    unfolding b_def send_page_header_def bits_in_append ..
  have r: "(read_has_page_header_parameter (rev b) (first, len)) = of_nat (bit_val (take len (drop (first - 1) b)))"
    if "0 < first" "first + len \<le> 25" for first len
    using read_parameter_eq[of "send_page_header p" 24 first len] that
    by (simp add: b_def read_has_page_header_parameter_def)
  have status: "unat (page_has_status p) < 4" using assms by (auto simp: well_formed_page_def)
  have size32: "unat (message_size p) - 1 < 32" using assms by (auto simp: well_formed_page_def)
  have v: "bit_val (take 2 b) = unat (page_has_status p)" "bit_val (take 2 (drop 2 b)) = unat (page_reserved p)"
    "bit_val (take 2 (drop 4 b)) = unat (message_type p)" "bit_val (take 5 (drop 6 b)) = unat (page_message_id p)"
    "bit_val (take 5 (drop 11 b)) = unat (message_size p) - 1" "bit_val (take 8 (drop 16 b)) = unat (message_page_id p)"
    using assms status size32 unat_u8[of "message_page_id p"] unfolding b well_formed_page_def by simp_all
  have "of_nat (unat (message_size p) - 1) + 1 = (of_nat (unat (message_size p) - 1 + 1) :: u8)" by simp
  also have "\<dots> = message_size p" using assms by (simp add: well_formed_page_def byte_word[symmetric] del: of_nat_add)
  finally have size: "of_nat (unat (message_size p) - 1) + 1 = message_size p" .
  have "bitset 24 (send_page_header p) = Some (rev b)" by (simp add: bitset_Some b_def)
  then show ?thesis
    using send_page_header_not_dummy[of p] assms size
    by (simp add: read_HAS_page_header_def page_header_places r v well_formed_page_def)
qed

lemma read_HAS_page_send:
  assumes "transmits crc page_bits p"
  obtains cnav' where "read_HAS_page crc (page_string_of page_bits) cnav = Some cnav'" "d_new_HAS_page cnav'" "\<not> d_page_dummy cnav'"
    "cnav_page cnav' = p\<lparr> time_stamp := 0, page_tow := - 1 \<rparr>"
proof -
  obtain unused k rest where t: "binary unused" "length unused = 14" "k < 2 ^ 24"
    "of_nat k = crc (frame_bytes 58 (rev (bits_in (unused @ send_page_header p @ has_message_string p))))"
    "page_string_of page_bits = unused @ send_page_header p @ has_message_string p @ field_of 24 k @ rest"
    and p: "well_formed_page p"
    using assms by (auto simp: transmits_def)
  have len: "length (has_message_string p) = 424" "binary (has_message_string p)" using p by (simp_all add: well_formed_page_def)
  let ?s = "unused @ send_page_header p @ has_message_string p @ field_of 24 k @ rest"
  let ?frame = "unused @ send_page_header p @ has_message_string p"
  have cut: "substr ?s 0 462 = Some ?frame" "substr ?s 462 24 = Some (field_of 24 k)"
    "substr ?s 14 24 = Some (send_page_header p)" "substr ?s 38 424 = Some (has_message_string p)"
    using t(2) len by (simp_all add: substr_def)
  define frame where "frame = ?frame"
  define check where "check = field_of 24 k"
  define FB where "FB = rev (bits_in frame)"
  define KB where "KB = rev (bits_in check)"
  have bits: "bitset 462 frame = Some FB" "bitset 24 check = Some KB"
    unfolding FB_def KB_def using t(1,2) len by (intro bitset_Some; simp add: frame_def check_def)+
  have "bitset_to_ulong KB = k" using t(3) by (simp add: bitset_to_ulong_def KB_def check_def)
  then have ok: "CRC_test crc FB (bitset_to_ulong KB)"
    using t(4) by (simp add: CRC_test_def FB_def frame_def)
  have status: "page_has_status p = 0 \<or> page_has_status p = 1" using p by (simp add: well_formed_page_def)
  note cut' = cut[folded t(5), folded frame_def check_def]
  show thesis
    using that status
    by (simp add: read_HAS_page_def cut' bits Let_def ok read_HAS_page_header_send[OF p] has_page_blank_def)
qed

lemma word_unat_id: "of_nat (unat w) = w"
  by simp

lemma page_string_of_map: "binary s \<Longrightarrow> page_string_of (map (\<lambda>ch. if is_one ch then 1 else - 1) s) = s"
  by (induction s) (auto simp: page_string_of_def binary_def)

lemma transmits_frame_bits:
  assumes "well_formed_page p" "\<And>bs. unat (crc bs) < 2 ^ 24"
  shows "transmits crc (frame_bits crc p) p"
proof -
  let ?u = "replicate 14 CHR ''0''" and ?r = "replicate 6 CHR ''0''"
  let ?k = "unat (crc (frame_bytes 58 (rev (bits_in (?u @ send_page_header p @ has_message_string p)))))"
  have b: "binary ?u" "binary ?r" "binary (has_message_string p)" using assms(1) by (simp_all add: binary_def well_formed_page_def)
  then have "page_string_of (frame_bits crc p) = ?u @ send_page_header p @ has_message_string p @ field_of 24 ?k @ ?r"
    unfolding frame_bits_def Let_def by (subst page_string_of_map) simp_all
  moreover have "length ?u = 14" "?k < 2 ^ 24" using assms(2) by simp_all
  moreover have "of_nat ?k = crc (frame_bytes 58 (rev (bits_in (?u @ send_page_header p @ has_message_string p))))"
    by (rule word_unat_id)
  ultimately show ?thesis using assms(1) b(1) unfolding transmits_def by blast
qed

definition stamped :: "cnav_decoder \<Rightarrow> u64 \<Rightarrow> has_page \<Rightarrow> has_page" where
  "stamped dec ts p = p\<lparr> time_stamp := ts,
     page_tow := (if d_E6_TOW_set dec then d_TOW_at_Preamble_ms dec div 1000 else - 1) \<rparr>"

lemma decode_CNAV_bits_send:
  assumes "transmits crc page_bits p"
  obtains dec' where "decode_CNAV_bits crc ts page_bits dec = Some dec'"
    "E6_HAS_from_TLM dec' = E6_HAS_from_TLM dec @ [stamped dec ts p]"
    "d_E6_TOW_set dec' = d_E6_TOW_set dec" "d_TOW_at_Preamble_ms dec' = d_TOW_at_Preamble_ms dec"
proof -
  obtain cnav where "read_HAS_page crc (page_string_of page_bits) (d_cnav_nav dec) = Some cnav" "d_new_HAS_page cnav"
    "\<not> d_page_dummy cnav" "cnav_page cnav = p\<lparr> time_stamp := 0, page_tow := - 1 \<rparr>"
    by (rule read_HAS_page_send[OF assms])
  then show thesis
    using that by (cases "d_E6_TOW_set dec") (simp_all add: Let_def decode_CNAV_bits_def set_time_stamp_def set_tow_def have_new_HAS_page_def
        is_HAS_page_dummy_def get_HAS_encoded_page_def stamped_def)
qed

section \<open>Only checked pages\<close>

lemma read_HAS_page_header_new: "read_HAS_page_header h cnav = Some y \<Longrightarrow> d_new_HAS_page y = d_new_HAS_page cnav"
  by (auto simp: read_HAS_page_header_def bind_eq_Some_conv split: if_splits)

lemma read_HAS_page_new:
  assumes "read_HAS_page crc s cnav = Some cnav'" "d_new_HAS_page cnav'"
  obtains bits k where "bitset 462 (take 462 s) = Some bits" "bitset 24 (take 24 (drop 462 s)) = Some k"
    "of_nat (bitset_to_ulong k) = crc (frame_bytes 58 bits)"
    "\<not> d_page_dummy cnav' \<Longrightarrow> page_has_status (cnav_page cnav') = 0 \<or> page_has_status (cnav_page cnav') = 1"
    "has_message_string (cnav_page cnav') = take 424 (drop 38 s)"
proof -
  obtain bits k where bits: "bitset 462 (take 462 s) = Some bits" "bitset 24 (take 24 (drop 462 s)) = Some k"
    using assms(1) by (auto simp: read_HAS_page_def bind_eq_Some_conv substr_def split: if_splits)
  have ok: "CRC_test crc bits (bitset_to_ulong k)"
    using assms bits by (auto simp: read_HAS_page_def Let_def bind_eq_Some_conv substr_def split: if_splits)
  have "(d_page_dummy cnav' \<or> page_has_status (cnav_page cnav') = 0 \<or> page_has_status (cnav_page cnav') = 1)
      \<and> has_message_string (cnav_page cnav') = take 424 (drop 38 s)"
    using assms bits ok
    by (auto simp: read_HAS_page_def Let_def bind_eq_Some_conv substr_def dest!: read_HAS_page_header_new split: if_splits)
  then show thesis using that[OF bits] ok by (auto simp: CRC_test_def)
qed

text \<open>C27: A telemetry decoder passes a page on to the receiver of the High Accuracy Service only when the
  24 bits after its first 462 are the checksum of those, when the status in its header is one of the two
  in which the service can be used, and with the 424 bits after the header as its message; every other
  frame, dummy pages included, leaves the port as it was.
\<close>
theorem only_checked_pages_passed_on:
  assumes "decode_CNAV_bits crc ts page_bits dec = Some dec'"
  shows "E6_HAS_from_TLM dec' = E6_HAS_from_TLM dec \<or>
    (\<exists>p bits k. E6_HAS_from_TLM dec' = E6_HAS_from_TLM dec @ [p]
      \<and> bitset 462 (take 462 (page_string_of page_bits)) = Some bits
      \<and> bitset 24 (take 24 (drop 462 (page_string_of page_bits))) = Some k
      \<and> of_nat (bitset_to_ulong k) = crc (frame_bytes 58 bits)
      \<and> (page_has_status p = 0 \<or> page_has_status p = 1) \<and> time_stamp p = ts
      \<and> has_message_string p = take 424 (drop 38 (page_string_of page_bits)))"
proof -
  obtain cnav where cnav: "read_HAS_page crc (page_string_of page_bits) (d_cnav_nav dec) = Some cnav"
    using assms by (auto simp: decode_CNAV_bits_def bind_eq_Some_conv)
  show ?thesis
  proof (cases "d_new_HAS_page cnav \<and> \<not> d_page_dummy cnav")
    case True
    let ?p = "(cnav_page cnav)\<lparr> time_stamp := ts, page_tow := (if d_E6_TOW_set dec then d_TOW_at_Preamble_ms dec div 1000
        else page_tow (cnav_page cnav)) \<rparr>"
    have "E6_HAS_from_TLM dec' = E6_HAS_from_TLM dec @ [?p]"
      using assms cnav True by (auto simp: decode_CNAV_bits_def set_time_stamp_def set_tow_def have_new_HAS_page_def
        is_HAS_page_dummy_def get_HAS_encoded_page_def Let_def)
    moreover obtain bits k where "bitset 462 (take 462 (page_string_of page_bits)) = Some bits"
      "bitset 24 (take 24 (drop 462 (page_string_of page_bits))) = Some k" "of_nat (bitset_to_ulong k) = crc (frame_bytes 58 bits)"
      "page_has_status (cnav_page cnav) = 0 \<or> page_has_status (cnav_page cnav) = 1"
      "has_message_string (cnav_page cnav) = take 424 (drop 38 (page_string_of page_bits))"
      using read_HAS_page_new[OF cnav] True by metis
    ultimately show ?thesis by (intro disjI2 exI[of _ ?p] exI[of _ bits] exI[of _ k]) simp
  next
    case False
    then show ?thesis
      using assms cnav by (auto simp: decode_CNAV_bits_def set_time_stamp_def have_new_HAS_page_def
        is_HAS_page_dummy_def Let_def split: if_splits)
  qed
qed

definition sample_cnav_page :: has_page where
  "sample_cnav_page = \<lparr> has_message_string = replicate 424 CHR ''1'', time_stamp = 0, page_tow = 0, page_has_status = 1,
     page_reserved = 0, message_type = 1, page_message_id = 9, message_size = 2, message_page_id = 3 \<rparr>"

definition sample_decoder :: cnav_decoder where
  "sample_decoder = \<lparr> d_cnav_nav = cnav_message_blank, d_E6_TOW_set = True, d_TOW_at_Preamble_ms = 345600000,
     d_cnav_dummy_page = False, d_print_cnav_page = False, E6_HAS_from_TLM = [] \<rparr>"

theorem only_checked_pages_passed_on_witness:
  "\<exists>dec' p k. decode_CNAV_bits crc24q 77 (frame_bits crc24q sample_cnav_page) sample_decoder = Some dec'
     \<and> E6_HAS_from_TLM dec' = [p] \<and> page_has_status p = 1 \<and> page_tow p = 345600
     \<and> bitset 24 (take 24 (drop 462 (page_string_of (frame_bits crc24q sample_cnav_page)))) = Some k"
proof -
  have "well_formed_page sample_cnav_page" by (simp add: sample_cnav_page_def well_formed_page_def binary_def)
  then have "transmits crc24q (frame_bits crc24q sample_cnav_page) sample_cnav_page"
    by (rule transmits_frame_bits) (rule crc24q_bound)
  then obtain dec' where dec': "decode_CNAV_bits crc24q 77 (frame_bits crc24q sample_cnav_page) sample_decoder = Some dec'"
    "E6_HAS_from_TLM dec' = E6_HAS_from_TLM sample_decoder @ [stamped sample_decoder 77 sample_cnav_page]"
    by (rule decode_CNAV_bits_send)
  from only_checked_pages_passed_on[OF dec'(1)] obtain k where
    "bitset 24 (take 24 (drop 462 (page_string_of (frame_bits crc24q sample_cnav_page)))) = Some k"
    using dec'(2) by auto
  then show ?thesis using dec' by (simp add: sample_decoder_def stamped_def sample_cnav_page_def)
qed

end
