(* ===== verification/Has_Link.thy ===== *)
theory Has_Link
  imports Has_Run Cnav_Pages
begin

text \<open>
  From the frames a channel receives to the corrections: the telemetry decoder and the receiver of the
  High Accuracy Service together.
\<close>

text \<open>A frame: when it arrives, its soft bits, and the page they carry.\<close>

type_synonym sent_frame = "u64 \<times> int list \<times> has_page"

abbreviation decode_frames :: "(u8 list \<Rightarrow> u32) \<Rightarrow> sent_frame list \<Rightarrow> cnav_decoder \<Rightarrow> cnav_decoder option" where
  "decode_frames crc \<equiv> foldM (\<lambda>(ts, page_bits, _). decode_CNAV_bits crc ts page_bits)"

lemma stamped_cong:
  "d_E6_TOW_set dec' = d_E6_TOW_set dec \<Longrightarrow> d_TOW_at_Preamble_ms dec' = d_TOW_at_Preamble_ms dec \<Longrightarrow>
   stamped dec' = stamped dec"
  by (rule ext)+ (simp add: stamped_def)

lemma decode_frames_send:
  assumes "\<forall>(ts, page_bits, p) \<in> set frames. transmits crc page_bits p"
  shows "\<exists>dec'. decode_frames crc frames dec = Some dec'
    \<and> E6_HAS_from_TLM dec' = E6_HAS_from_TLM dec @ map (\<lambda>(ts, _, p). stamped dec ts p) frames"
  using assms
proof (induction frames arbitrary: dec)
  case (Cons f frames)
  obtain ts page_bits p where f: "f = (ts, page_bits, p)" by (cases f)
  have "transmits crc page_bits p" using Cons.prems f by simp
  then obtain dec1 where dec1: "decode_CNAV_bits crc ts page_bits dec = Some dec1"
    "E6_HAS_from_TLM dec1 = E6_HAS_from_TLM dec @ [stamped dec ts p]"
    "d_E6_TOW_set dec1 = d_E6_TOW_set dec" "d_TOW_at_Preamble_ms dec1 = d_TOW_at_Preamble_ms dec"
    by (rule decode_CNAV_bits_send)
  obtain dec' where "decode_frames crc frames dec1 = Some dec'"
    "E6_HAS_from_TLM dec' = E6_HAS_from_TLM dec1 @ map (\<lambda>(ts, _, p). stamped dec1 ts p) frames"
    using Cons.IH[of dec1] Cons.prems by auto
  then show ?case using dec1(1,2) stamped_cong[OF dec1(3,4)] by (simp add: f)
qed simp

definition page_of_frame :: "cnav_decoder \<Rightarrow> sent_frame \<Rightarrow> has_page" where
  "page_of_frame dec f = (case f of (ts, _, p) \<Rightarrow> stamped dec ts p)"

text \<open>The whole path of a correction message: when the frames a channel receives carry pages of an
  encoded message with right checksums, in any order and with repetitions, and the last of them completes
  it, the telemetry decoder passes all of them to its port, and the receiver fed from the port hands on
  exactly one set of corrections, those the message was built from.
\<close>
lemma message_through_channel:
  assumes m: "message_carries E ms c" and rx: "ready_for mid c rx"
    and frames: "\<forall>(ts, page_bits, p) \<in> set (fs @ [f]). transmits crc page_bits p"
      "\<forall>g \<in> set (fs @ [f]). page_of_message E mid ms t0 (page_of_frame dec g)"
    and n: "Suc (card ((\<lambda>(_, _, p). message_page_id p) ` set fs)) = unat ms"
      "(case f of (_, _, p) \<Rightarrow> message_page_id p) \<notin> (\<lambda>(_, _, p). message_page_id p) ` set fs"
    and dec: "E6_HAS_from_TLM dec = []"
  shows "\<exists>dec' rx' d. decode_frames crc (fs @ [f]) dec = Some dec' \<and> handle_pages (E6_HAS_from_TLM dec') rx = Some rx'
    \<and> E6_HAS_to_PVT rx' = E6_HAS_to_PVT rx @ [d] \<and> contents_in_data c (d_iod_ref_map rx) d"
proof -
  have pid: "message_page_id (page_of_frame dec g) = (case g of (_, _, p) \<Rightarrow> message_page_id p)" for g
    by (cases g) (simp add: page_of_frame_def stamped_def)
  have pids: "message_page_id ` set (map (page_of_frame dec) fs) = (\<lambda>(_, _, p). message_page_id p) ` set fs"
    unfolding set_map image_image by (intro image_cong refl pid)
  obtain dec' where dec': "decode_frames crc (fs @ [f]) dec = Some dec'"
    "E6_HAS_from_TLM dec' = map (page_of_frame dec) fs @ [page_of_frame dec f]"
    using decode_frames_send[OF frames(1), of dec] dec by (auto simp: page_of_frame_def)
  obtain rx' d where "handle_pages (map (page_of_frame dec) fs @ [page_of_frame dec f]) rx = Some rx'"
    "E6_HAS_to_PVT rx' = E6_HAS_to_PVT rx @ [d]" "handed_on c (d_iod_ref_map rx) (page_of_frame dec f) d"
    by (rule message_handed_on[OF m rx, of "map (page_of_frame dec) fs" "page_of_frame dec f" t0])
      (use frames(2) n pids pid in simp_all)
  then show ?thesis using dec' by (auto simp: handed_on_def)
qed

definition sample_frame :: "nat \<Rightarrow> sent_frame" where
  "sample_frame pid = (1000, frame_bits crc24q (sample_page pid), sample_page pid)"

lemma sample_frame_sent:
  assumes "0 < pid" "pid < 256"
  shows "transmits crc24q (frame_bits crc24q (sample_page pid)) (sample_page pid)"
    "page_of_message sample_message 9 32 1000 (page_of_frame dec (sample_frame pid))"
proof -
  have "binary (row_text sample_row)"
    unfolding sample_row_def by (simp add: row_text_def binary_def[of "concat _"])
      (auto simp: bitset_to_string_def char_of_bit_def)
  then have "well_formed_page (sample_page pid)"
    by (simp add: well_formed_page_def sample_page_def sample_row_def)
  then show "transmits crc24q (frame_bits crc24q (sample_page pid)) (sample_page pid)"
    by (rule transmits_frame_bits) (rule crc24q_bound)
  show "page_of_message sample_message 9 32 1000 (page_of_frame dec (sample_frame pid))"
    using sample_page_fits[OF assms le_less_linear] by (simp add: sample_frame_def page_of_frame_def stamped_def page_of_message_def sample_page_def)
qed

lemma message_through_channel_witness:
  "\<exists>dec' rx' d. decode_frames crc24q (map sample_frame (rev [40..<71]) @ [sample_frame 3]) sample_decoder = Some dec'
    \<and> handle_pages (E6_HAS_from_TLM dec') sample_has_receiver = Some rx'
    \<and> E6_HAS_to_PVT rx' = [d] \<and> contents_in_data sample_contents (d_iod_ref_map sample_has_receiver) d"
proof -
  have pids: "(\<lambda>(_, _, p). message_page_id p) ` set (map sample_frame (rev [40..<71])) = of_nat ` {40..<71}"
    unfolding set_map set_rev set_upt image_image by (simp add: sample_frame_def sample_page_def)
  have f: "\<forall>(ts, page_bits, p) \<in> set (map sample_frame (rev [40..<71]) @ [sample_frame 3]). transmits crc24q page_bits p"
    "\<forall>g \<in> set (map sample_frame (rev [40..<71]) @ [sample_frame 3]).
       page_of_message sample_message 9 32 1000 (page_of_frame sample_decoder g)"
    unfolding set_append set_map set_rev set_upt using sample_frame_sent by (auto simp: sample_frame_def[symmetric]) (simp_all add: sample_frame_def sample_frame_sent)
  have n: "Suc (card ((\<lambda>(_, _, p). message_page_id p) ` set (map sample_frame (rev [40..<71])))) = unat (32 :: u8)"
    "(case sample_frame 3 of (_, _, p) \<Rightarrow> message_page_id p) \<notin> (\<lambda>(_, _, p). message_page_id p) ` set (map sample_frame (rev [40..<71]))"
    unfolding pids using sample_pids by (simp_all add: sample_frame_def sample_page_def)
  from message_through_channel[OF sample_carried sample_ready f n]
  show ?thesis by (simp add: sample_decoder_def sample_has_receiver_def make_has_receiver_def)
qed

end
