(* ===== verification/Has_Timeouts.thy ===== *)
theory Has_Timeouts
  imports Has_Run
begin

text \<open>
  The time-outs of the receiver: which messages in collection a page clears, and what the time
  stamps left over from a decoded message do to the next one with its identifier.
\<close>

section \<open>Clearing by rows\<close>

definition message_row :: "has_receiver \<Rightarrow> nat \<Rightarrow> u8 list \<times> u64 list \<times> u8 list list" where
  "message_row rx i = (d_received_pids rx ! i, d_received_timestamps rx ! i, d_C_matrix rx ! i)"

text \<open>A message is outdated when the earliest of the time stamps that count, the first as many as
  it has pages, is more than 150 seconds back.\<close>

definition outdated :: "u64 \<Rightarrow> u8 list \<Rightarrow> u64 list \<Rightarrow> bool" where
  "outdated now pids stamps \<longleftrightarrow> (\<exists>t \<in> set (take (length pids) stamps). 0 < t \<and> unat t + 150 < unat now)"

definition cleared_row :: "u64 \<Rightarrow> u8 list \<times> u64 list \<times> u8 list list \<Rightarrow> u8 list \<times> u64 list \<times> u8 list list" where
  "cleared_row now row = (case row of (pids, stamps, C) \<Rightarrow>
     if outdated now pids stamps then ([], [], replicate 255 (replicate 53 0)) else row)"

lemma oldest_in:
  fixes m :: u64
  shows "unat (foldl (\<lambda>oldest t. if t > 0 \<and> t < oldest then t else oldest) m stamps) + 150 < n
    \<longleftrightarrow> unat m + 150 < n \<or> (\<exists>t \<in> set stamps. 0 < t \<and> unat t + 150 < n)"
  by (induction stamps arbitrary: m) (auto simp: word_less_nat_alt)

lemma outdated_iff:
  fixes stamps :: "u64 list"
  assumes "oldest = foldl (\<lambda>oldest t. if t > 0 \<and> t < oldest then t else oldest) (- 1) (take n stamps)"
  shows "(now > oldest \<and> now - oldest > MAX_SECONDS_REMEMBERING_MID)
    \<longleftrightarrow> (\<exists>t \<in> set (take n stamps). 0 < t \<and> unat t + 150 < unat now)"
proof -
  have "now \<le> - 1" by (rule word_order.extremum)
  then have "\<not> unat (- 1 :: u64) + 150 < unat now" by (simp add: word_le_nat_alt)
  moreover have "(now > oldest \<and> now - oldest > MAX_SECONDS_REMEMBERING_MID) \<longleftrightarrow> unat oldest + 150 < unat now"
    using unat_sub[of oldest now]
    by (auto simp: MAX_SECONDS_REMEMBERING_MID_def word_less_nat_alt word_le_nat_alt)
  ultimately show ?thesis unfolding assms oldest_in by blast
qed

lemma delete_outdated_pages_row:
  assumes "has_shape rx" "i < 32" "delete_outdated_pages now i rx = Some rx'" "j < 32"
  shows "message_row rx' j = (if j = i then cleared_row now (message_row rx j) else message_row rx j)"
proof -
  note len = has_shapeD[OF assms(1)]
  have n: "length (d_received_pids rx ! i) \<le> length (d_received_timestamps rx ! i)"
    using len(7)[OF assms(2)] by (simp add: message_shape_def)
  show ?thesis
    using assms(2-4) len(1-3)
    by (auto simp: delete_outdated_pages_def vget_Some oldest_time_stamp_eq[OF n] outdated_iff[OF refl] outdated_def[symmetric]
        message_row_def cleared_row_def nth_list_update split: if_splits)
qed

lemma delete_outdated_rows:
  assumes "has_shape rx" "n \<le> 32"
  shows "\<exists>rx'. foldM (delete_outdated_pages now) [0..<n] rx = Some rx' \<and> has_shape rx' \<and> kept rx rx'
    \<and> d_printed_mids rx' = d_printed_mids rx
    \<and> (\<forall>j < 32. message_row rx' j = (if j < n then cleared_row now (message_row rx j) else message_row rx j))"
  using assms(2)
proof (induction n)
  case 0
  then show ?case using assms(1) by simp
next
  case (Suc n)
  then obtain r where r: "foldM (delete_outdated_pages now) [0..<n] rx = Some r" "has_shape r" "kept rx r"
    "d_printed_mids r = d_printed_mids rx"
    "\<forall>j < 32. message_row r j = (if j < n then cleared_row now (message_row rx j) else message_row rx j)"
    by auto
  have n: "n < 32" using Suc.prems by simp
  obtain r' where r': "delete_outdated_pages now n r = Some r'" "has_shape r'" "kept r r'" "d_printed_mids r' = d_printed_mids r"
    by (cases rule: delete_outdated_pages_cases[OF r(2) n, of now]) (use r(2) has_shape_clear(1)[OF r(2), of n] in auto)
  have "message_row r' j = (if j < Suc n then cleared_row now (message_row rx j) else message_row rx j)" if "j < 32" for j
    using delete_outdated_pages_row[OF r(2) n r'(1) that] r(5) that by (auto simp: less_Suc_eq)
  then show ?case using r r' kept_trans[OF r(3) r'(3)] by (simp add: foldM_append)
qed

lemma forget_printed_fold:
  "message_row (foldl (\<lambda>rx mid. forget_printed now mid rx) rx is) j = message_row rx j"
  "kept rx (foldl (\<lambda>rx mid. forget_printed now mid rx) rx is)"
  "\<not> d_printed_mids rx ! j \<Longrightarrow> \<not> d_printed_mids (foldl (\<lambda>rx mid. forget_printed now mid rx) rx is) ! j"
proof (induction "is" arbitrary: rx)
  case (Cons i "is")
  { case 1 show ?case using Cons(1)[of "forget_printed now i rx"] by (simp add: forget_printed_def message_row_def) }
  { case 2 show ?case using Cons(2)[of "forget_printed now i rx"] kept_trans[of rx "forget_printed now i rx"]
      by (simp add: forget_printed_def) }
  { case 3 then show ?case using Cons(3)[of "forget_printed now i rx"]
      by (cases "i = j"; cases "i < length (d_printed_mids rx)") (simp_all add: forget_printed_def list_update_beyond) }
qed simp_all

text \<open>C37: The clearing before a page is stored is total and exact: it empties the messages in collection of
  which one of the time stamps that count is more than 150 seconds before the page and leaves all the
  others as they are; whatever it does, the rest of the receiver is kept.
\<close>
theorem outdated_messages_cleared:
  assumes "has_shape rx"
  shows "\<exists>rx'. delete_outdated_data page rx = Some rx' \<and> has_shape rx' \<and> kept rx rx'
    \<and> (\<forall>j < 32. message_row rx' j = cleared_row (time_stamp page) (message_row rx j))"
proof -
  obtain r where r: "foldM (delete_outdated_pages (time_stamp page)) [0..<32] rx = Some r" "has_shape r" "kept rx r"
    "\<forall>j < 32. message_row r j = (if j < 32 then cleared_row (time_stamp page) (message_row rx j) else message_row rx j)"
    using delete_outdated_rows[OF assms, of 32 "time_stamp page"] by auto
  obtain rx' where rx': "delete_outdated_data page rx = Some rx'" "has_shape rx'"
    by (rule delete_outdated_data_shape[OF assms])
  have "rx' = foldl (\<lambda>rx mid. forget_printed (time_stamp page) mid rx) r [0..<32]"
    using rx'(1) r(1) has_shapeD(1)[OF assms] by (simp add: delete_outdated_data_def)
  then show ?thesis
    using rx' r kept_trans[OF r(3) forget_printed_fold(2)] by (simp add: forget_printed_fold(1))
qed

definition late_receiver :: "u64 \<Rightarrow> u8 list \<Rightarrow> has_receiver" where
  "late_receiver t pids = sample_has_receiver\<lparr> d_received_timestamps := (replicate 32 [])[9 := [t]],
     d_received_pids := (replicate 32 [])[9 := pids] \<rparr>"

lemma late_receiver_shape: "length pids \<le> 1 \<Longrightarrow> 0 \<notin> set pids \<Longrightarrow> has_shape (late_receiver t pids)"
proof -
  assume pids: "length pids \<le> 1" "0 \<notin> set pids"
  then have "distinct pids" by (cases pids) auto
  then have "message_shape pids [t]" using pids by (simp add: message_shape_def)
  moreover have "messages_shape (replicate 32 []) (replicate 32 [])" by (simp add: messages_shape_def)
  ultimately have "messages_shape ((replicate 32 [])[9 := pids]) ((replicate 32 [])[9 := [t]])" by simp
  moreover have "has_shape sample_has_receiver" by (simp add: sample_has_receiver_def has_shape_make)
  ultimately show ?thesis by (simp add: late_receiver_def has_shape_def store_shape_def)
qed

theorem outdated_messages_cleared_witness:
  "(\<exists>rx'. delete_outdated_data (sample_page 1) (late_receiver 700 [4]) = Some rx' \<and> d_received_pids rx' ! 9 = [])
   \<and> (\<exists>rx'. delete_outdated_data (sample_page 1) (late_receiver 900 [4]) = Some rx' \<and> d_received_pids rx' ! 9 = [4])"
proof -
  have "\<exists>rx'. delete_outdated_data (sample_page 1) (late_receiver t [4]) = Some rx'
      \<and> d_received_pids rx' ! 9 = (if 0 < t \<and> unat t + 150 < 1000 then [] else [4])" for t
  proof -
    obtain rx' where rx': "delete_outdated_data (sample_page 1) (late_receiver t [4]) = Some rx'"
      "\<forall>j < 32. message_row rx' j = cleared_row (time_stamp (sample_page 1)) (message_row (late_receiver t [4]) j)"
      using outdated_messages_cleared[OF late_receiver_shape[of "[4]" t], of "sample_page 1"] by auto
    have "d_received_pids rx' ! 9 = fst (message_row rx' 9)" by (simp add: message_row_def)
    also have "\<dots> = fst (cleared_row 1000 (message_row (late_receiver t [4]) 9))" using rx'(2) by (simp add: sample_page_def)
    also have "\<dots> = (if 0 < t \<and> unat t + 150 < 1000 then [] else [4])"
      by (simp add: late_receiver_def message_row_def cleared_row_def outdated_def)
    finally show ?thesis using rx'(1) by blast
  qed
  from this[of 700] this[of 900] show ?thesis by simp
qed

section \<open>Left-over time stamps\<close>

definition usable_page :: "u8 \<Rightarrow> has_page \<Rightarrow> bool" where
  "usable_page mid page \<longleftrightarrow> (page_has_status page = 0 \<or> page_has_status page = 1) \<and> message_type page = 1
     \<and> page_message_id page = mid \<and> message_page_id page \<noteq> 0 \<and> page_octets (has_message_string page) \<noteq> None"

definition collecting_row :: "u8 \<Rightarrow> u8 list \<Rightarrow> u64 list \<Rightarrow> has_receiver \<Rightarrow> bool" where
  "collecting_row mid pids stamps rx \<longleftrightarrow> has_shape rx \<and> \<not> d_printed_mids rx ! unat mid
     \<and> d_received_pids rx ! unat mid = pids \<and> d_received_timestamps rx ! unat mid = stamps"

lemma store_usable_page:
  assumes rx: "collecting_row mid pids stamps rx" and mid: "unat mid < 32" and page: "usable_page mid page"
    and new: "message_page_id page \<notin> set pids"
  obtains rx' where "store_page page rx = Some rx'"
    "collecting_row mid (pids @ [message_page_id page]) (stamps @ [time_stamp page]) rx'"
proof -
  let ?i = "unat (message_page_id page) - 1"
  have sh: "has_shape rx" using rx by (simp add: collecting_row_def)
  note len = has_shapeD[OF sh]
  have nz: "message_page_id page \<noteq> 0" using page by (simp add: usable_page_def)
  obtain octets where octets: "page_octets (has_message_string page) = Some octets" using page by (auto simp: usable_page_def)
  have C: "?i < length (d_C_matrix rx ! unat mid)" using unat_pred[OF nz] len(8)[OF mid] by (simp add: matrix_shape_def)
  define rx' where "rx' = rx\<lparr> d_received_pids := (d_received_pids rx)[unat mid := pids @ [message_page_id page]],
      d_received_timestamps := (d_received_timestamps rx)[unat mid := stamps @ [time_stamp page]],
      d_C_matrix := (d_C_matrix rx)[unat mid := (d_C_matrix rx ! unat mid)[?i := octets]] \<rparr>"
  have s: "store_page page rx = Some rx'"
    using rx page new mid len octets C
    by (simp add: store_page_def Let_def vec_simps usable_page_def collecting_row_def rx'_def)
  have "has_shape rx'" by (rule store_page_shape(1)[OF sh nz s])
  then show thesis
    using that[OF s] rx mid len by (simp add: collecting_row_def rx'_def)
qed

lemma handle_incomplete:
  assumes rx: "collecting_row mid pids stamps rx" and mid: "unat mid < 32" and page: "usable_page mid page"
    and row: "pids' = (if outdated (time_stamp page) pids stamps then [] else pids)"
      "stamps' = (if outdated (time_stamp page) pids stamps then [] else stamps)"
    and new: "message_page_id page \<notin> set pids'" "Suc (length pids') \<noteq> unat (message_size page)"
  obtains rx' where "msg_handler_galileo_e6_has page rx = Some rx'"
    "collecting_row mid (pids' @ [message_page_id page]) (stamps' @ [time_stamp page]) rx'"
proof -
  let ?rx = "rx\<lparr> d_current_has_status := page_has_status page, d_current_message_id := page_message_id page \<rparr>"
  have rx1: "collecting_row mid pids stamps ?rx"
    using rx by (simp add: collecting_row_def has_shape_def store_shape_def)
  then have sh: "has_shape ?rx" "d_received_pids ?rx ! unat mid = pids" "d_received_timestamps ?rx ! unat mid = stamps"
    by (simp_all add: collecting_row_def)
  obtain r where r: "foldM (delete_outdated_pages (time_stamp page)) [0..<32] ?rx = Some r" "has_shape r"
    "d_printed_mids r = d_printed_mids ?rx"
    "\<forall>j < 32. message_row r j = (if j < 32 then cleared_row (time_stamp page) (message_row ?rx j) else message_row ?rx j)"
    using delete_outdated_rows[OF sh(1), of 32 "time_stamp page"] by auto
  define ra where "ra = foldl (\<lambda>rx mid. forget_printed (time_stamp page) mid rx) r [0..<32]"
  obtain rb where rb: "delete_outdated_data page ?rx = Some rb" "has_shape rb"
    by (rule delete_outdated_data_shape[OF sh(1)])
  have "rb = ra" using rb(1) r(1) has_shapeD(1)[OF sh(1)] by (simp add: delete_outdated_data_def ra_def)
  moreover have "message_row ra (unat mid) = cleared_row (time_stamp page) (message_row ?rx (unat mid))"
    using r(4) mid by (simp add: ra_def forget_printed_fold(1))
  moreover have "\<not> d_printed_mids ra ! unat mid"
    using r(3) rx unfolding ra_def by (intro forget_printed_fold(3)) (simp add: collecting_row_def)
  ultimately have rc: "collecting_row mid pids' stamps' rb"
    using rb(2) sh row by (simp add: collecting_row_def message_row_def cleared_row_def split: if_splits)
  obtain rd where rd: "store_page page rb = Some rd"
    "collecting_row mid (pids' @ [message_page_id page]) (stamps' @ [time_stamp page]) rd"
    using store_usable_page[OF rc mid page new(1)] by blast
  have use: "(page_has_status page = 0 \<or> page_has_status page = 1) \<and> message_page_id page \<noteq> 0 \<and> message_type page = 1"
    using page by (simp add: usable_page_def)
  have "vget (d_received_pids rd) (unat mid) = Some (pids' @ [message_page_id page])"
    using rd(2) mid has_shapeD(1)[of rd] by (simp add: collecting_row_def vget_Some)
  then have "process_HAS_page page ?rx = Some (rd\<lparr> d_new_message := False \<rparr>)"
    unfolding process_HAS_page_def if_P[OF use] using rb(1) rd(1) new(2) page by (simp add: Let_def usable_page_def)
  moreover have "vget (d_printed_mids rx) (unat mid) = Some False"
    using rx mid has_shapeD(5)[of rx] by (simp add: collecting_row_def vget_Some)
  ultimately have "msg_handler_galileo_e6_has page rx = Some (rd\<lparr> d_new_message := False \<rparr>)"
    using page by (simp add: msg_handler_galileo_e6_has_def receive_page_def Let_def usable_page_def)
  then show thesis using that rd(2) by (simp add: collecting_row_def)
qed

text \<open>Time stamps that are left over from an earlier message stand for the pages of the next one: in a state
  with such time stamps and no pages, when two pages of a message with more than one page come more than
  150 seconds after the first of those time stamps, the second page makes the receiver throw the first
  away. (\<open>decode_message_type1\<close> empties the list of pages and leaves the time stamps.)\<close>

lemma stale_time_stamps_drop_a_page:
  assumes rx: "has_shape rx" "unat mid < 32" "\<not> d_printed_mids rx ! unat mid" "d_received_pids rx ! unat mid = []"
    and old: "d_received_timestamps rx ! unat mid = s # ss" "0 < s" "unat s + 150 < unat (time_stamp p2)"
    and pages: "usable_page mid p1" "usable_page mid p2" "message_size p1 \<noteq> 1" "message_size p2 \<noteq> 1"
  shows "\<exists>rx'. handle_pages [p1, p2] rx = Some rx' \<and> d_received_pids rx' ! unat mid = [message_page_id p2]"
proof -
  have size: "unat (message_size p1) \<noteq> 1" "unat (message_size p2) \<noteq> 1"
    using pages(3,4) by (metis unat_1 byte_word)+
  have row: "collecting_row mid [] (s # ss) rx" using rx old(1) by (simp add: collecting_row_def)
  obtain rx1 where rx1: "msg_handler_galileo_e6_has p1 rx = Some rx1"
    "collecting_row mid [message_page_id p1] (s # ss @ [time_stamp p1]) rx1"
    by (rule handle_incomplete[OF row rx(2) pages(1), of "[]" "s # ss"]) (use size in \<open>simp_all add: outdated_def\<close>)
  have "outdated (time_stamp p2) [message_page_id p1] (s # ss @ [time_stamp p1])"
    using old(2,3) by (simp add: outdated_def)
  then obtain rx2 where "msg_handler_galileo_e6_has p2 rx1 = Some rx2"
    "collecting_row mid [message_page_id p2] [time_stamp p2] rx2"
    using handle_incomplete[OF rx1(2) rx(2) pages(2), of "[]" "[]"] size by auto
  then show ?thesis using rx1(1) by (auto simp: collecting_row_def)
qed

section \<open>The shape of the state\<close>

text \<open>C18: Whatever pages arrive, from the receiver as it is constructed, the state stays well typed: every
  container keeps the size the constructor gave it, every matrix of octets its 255 rows of 53 octets,
  the decoded message its 32 rows; the page identifiers stored for a message are distinct and not zero,
  so that their rows exist, and there is a time stamp for each of them.
\<close>
theorem has_state_well_typed:
  assumes "handle_pages pages (make_has_receiver rs) = Some rx"
  shows "has_shape rx"
  using assms by (rule foldM_invariant[where P = has_shape, rotated 2]) (auto intro: handler_shape has_shape_make)

theorem has_state_well_typed_witness:
  "\<exists>rx. handle_pages [sample_page 1, sample_page 2] sample_has_receiver = Some rx \<and> has_shape rx
    \<and> length (d_received_pids rx ! 9) = 2"
proof -
  have row: "collecting_row 9 [] [] sample_has_receiver"
    using has_shape_make[of e6b_decoder] by (simp add: collecting_row_def sample_has_receiver_def make_has_receiver_def)
  have "page_octets (row_text sample_row) = Some sample_row"
    by (rule page_octets_row_text) (simp add: sample_row_def)
  then have p: "usable_page 9 (sample_page 1)" "usable_page 9 (sample_page 2)"
    by (simp_all add: usable_page_def sample_page_def)
  obtain rx1 where rx1: "msg_handler_galileo_e6_has (sample_page 1) sample_has_receiver = Some rx1" "collecting_row 9 [1] [1000] rx1"
    by (rule handle_incomplete[OF row _ p(1), of "[]" "[]"]) (simp_all add: outdated_def sample_page_def)
  obtain rx2 where rx2: "msg_handler_galileo_e6_has (sample_page 2) rx1 = Some rx2" "collecting_row 9 [1, 2] [1000, 1000] rx2"
    by (rule handle_incomplete[OF rx1(2) _ p(2), of "[1]" "[1000]"]) (simp_all add: outdated_def sample_page_def)
  have h: "handle_pages [sample_page 1, sample_page 2] (make_has_receiver e6b_decoder) = Some rx2"
    using rx1(1) rx2(1) by (simp add: sample_has_receiver_def)
  show ?thesis using has_state_well_typed[OF h] h rx2(2) by (simp add: sample_has_receiver_def collecting_row_def)
qed

end
