(* ===== verification/Binary32.thy ===== *)
theory Binary32
  imports Prelude "HOL-Library.Log_Nat"
begin

text \<open>
  The finite numbers of the type \<open>float\<close> (IEEE 754 binary32) as multiples of the smallest positive one,
  \<open>2\<^sup>-\<^sup>1\<^sup>4\<^sup>9\<close>: integers of at most 24 significant bits. A sum or a difference is the exact one rounded to
  the nearest number, ties to even. The largest exponent is not modelled: the sums of the decoder are far
  from \<open>2\<^sup>1\<^sup>2\<^sup>8\<close>, which is \<open>2\<^sup>2\<^sup>7\<^sup>7\<close> here. The two zeros compare equal and are one number.
\<close>

section \<open>Rounding\<close>

text \<open>The distance of the numbers of the size of \<open>n\<close>, and the nearest of its multiples.\<close>

definition ulp :: "nat \<Rightarrow> nat" where
  "ulp n = 2 ^ (floorlog 2 n - 24)"

definition nearest :: "nat \<Rightarrow> nat \<Rightarrow> nat" where
  "nearest u n = (let q = n div u; r = n mod u in if 2 * r < u \<or> 2 * r = u \<and> even q then q * u else (q + 1) * u)"

definition round_nat :: "nat \<Rightarrow> nat" where
  "round_nat n = nearest (ulp n) n"

definition rnd :: "int \<Rightarrow> int" where
  "rnd k = (if k < 0 then - int (round_nat (nat (- k))) else int (round_nat (nat k)))"

lemma ulp_pos [simp]: "0 < ulp n"
  by (simp add: ulp_def)

lemma nearest_mono:
  assumes "a \<le> b" "0 < u"
  shows "nearest u a \<le> nearest u b"
proof (cases "a div u = b div u")
  case True
  then have "b div u * u + a mod u \<le> b div u * u + b mod u" using assms(1) by (metis div_mult_mod_eq)
  then have "a mod u \<le> b mod u" by (simp only: add_le_cancel_left)
  then show ?thesis using True by (auto simp: nearest_def Let_def)
next
  case False
  then have "a div u + 1 \<le> b div u" using div_le_mono[OF assms(1), of u] by simp
  then have "(a div u + 1) * u \<le> b div u * u" by (rule mult_le_mono1)
  moreover have "nearest u a \<le> (a div u + 1) * u" "b div u * u \<le> nearest u b" by (simp_all add: nearest_def Let_def)
  ultimately show ?thesis by linarith
qed

lemma nearest_multiple: "u dvd n \<Longrightarrow> 0 < u \<Longrightarrow> nearest u n = n"
  by (simp add: nearest_def Let_def)

lemma floorlog_bound: "n < 2 ^ floorlog 2 n"
  using floorlog_leD[of 2 n "floorlog 2 n"] by simp

lemma round_nat_mono:
  assumes "a \<le> b"
  shows "round_nat a \<le> round_nat b"
proof (cases "floorlog 2 a = floorlog 2 b")
  case True
  then show ?thesis using nearest_mono[OF assms] by (simp add: round_nat_def ulp_def)
next
  case False
  let ?l = "floorlog 2 a" and ?m = "floorlog 2 b"
  have "?l \<le> ?m" using assms by (intro floorlog_mono) simp_all
  then have m: "?l < ?m" using False by simp
  have "round_nat a \<le> nearest (ulp a) (2 ^ ?l)"
    unfolding round_nat_def by (rule nearest_mono) (use floorlog_bound[of a] in simp_all)
  also have "\<dots> = 2 ^ ?l" by (rule nearest_multiple) (simp_all add: ulp_def le_imp_power_dvd)
  also have "\<dots> \<le> 2 ^ (?m - 1)" using m by (intro power_increasing) simp_all
  also have "\<dots> = nearest (ulp b) (2 ^ (?m - 1))"
    by (rule nearest_multiple[symmetric]) (simp_all add: ulp_def le_imp_power_dvd)
  also have "\<dots> \<le> round_nat b"
    unfolding round_nat_def
  proof (rule nearest_mono)
    show "2 ^ (?m - 1) \<le> b"
    proof (rule ccontr)
      assume "\<not> ?thesis"
      then have "floorlog 2 b \<le> ?m - 1" by (intro floorlog_leI) simp_all
      then show False using m by simp
    qed
  qed simp
  finally show ?thesis .
qed

lemma rnd_mono: "a \<le> b \<Longrightarrow> rnd a \<le> rnd b"
proof -
  assume ab: "a \<le> b"
  have z: "0 \<le> int (round_nat n)" for n by simp
  show ?thesis
    using ab round_nat_mono[of "nat (- b)" "nat (- a)"] round_nat_mono[of "nat a" "nat b"]
    by (auto simp: rnd_def intro: order_trans[of _ 0])
qed

lemma rnd_minus: "rnd (- k) = - rnd k"
  by (auto simp: rnd_def round_nat_def nearest_def)

section \<open>Numbers of 24 bits\<close>

lemma round_nat_significand:
  assumes "c < 2 ^ 24"
  shows "round_nat (c * 2 ^ e) = c * 2 ^ e"
  unfolding round_nat_def
proof (rule nearest_multiple)
  have "c * 2 ^ e < 2 ^ (24 + e)" using assms by (simp add: power_add)
  then have "floorlog 2 (c * 2 ^ e) \<le> 24 + e" by (intro floorlog_leI) simp_all
  then show "ulp (c * 2 ^ e) dvd c * 2 ^ e" unfolding ulp_def by (intro dvd_mult le_imp_power_dvd) simp
qed simp

lemma round_nat_form: "\<exists>c e. c < 2 ^ 24 \<and> round_nat n = c * 2 ^ e"
proof -
  let ?e = "floorlog 2 n - 24"
  have "round_nat n = n div 2 ^ ?e * 2 ^ ?e \<or> round_nat n = (n div 2 ^ ?e + 1) * 2 ^ ?e"
    by (simp add: round_nat_def nearest_def ulp_def Let_def)
  moreover have "n < 2 ^ (24 + ?e)"
    by (rule less_le_trans[OF floorlog_bound[of n]]) (simp add: power_increasing)
  then have "n div 2 ^ ?e < 2 ^ 24" by (simp add: less_mult_imp_div_less power_add)
  moreover have "2 ^ 24 * 2 ^ ?e = (1 :: nat) * 2 ^ (24 + ?e)" by (simp add: power_add)
  ultimately show ?thesis
    by (metis Suc_eq_plus1 Suc_lessI one_less_numeral_iff one_less_power semiring_norm(76) zero_less_numeral)
qed

definition float_number :: "int \<Rightarrow> bool" where
  "float_number k \<longleftrightarrow> (\<exists>c e. c < 2 ^ 24 \<and> \<bar>k\<bar> = int (c * 2 ^ e))"

lemma rnd_number:
  assumes "float_number k"
  shows "rnd k = k"
proof -
  obtain c e where c: "c < (2 ^ 24 :: nat)" "\<bar>k\<bar> = int (c * 2 ^ e)" using assms by (auto simp: float_number_def)
  then have n: "nat \<bar>k\<bar> = c * 2 ^ e" by (simp only: nat_int)
  then have "int (round_nat (nat \<bar>k\<bar>)) = \<bar>k\<bar>" using round_nat_significand[OF c(1), of e] c(2) by (simp only:)
  then show ?thesis by (auto simp: rnd_def abs_if split: if_splits)
qed

lemma float_number_rnd [simp]: "float_number (rnd k)"
proof -
  obtain c e where c: "c < 2 ^ 24" "round_nat (nat \<bar>k\<bar>) = c * 2 ^ e" using round_nat_form by blast
  have "\<bar>rnd k\<bar> = int (round_nat (nat \<bar>k\<bar>))" by (simp add: rnd_def)
  then show ?thesis unfolding float_number_def c(2) using c(1) by blast
qed

lemma rnd_rnd [simp]: "rnd (rnd k) = rnd k"
  by (simp add: rnd_number)

section \<open>The type\<close>

typedef binary32 = "{k. rnd k = k}"
  by (rule exI[of _ "rnd 0"]) simp

setup_lifting type_definition_binary32

lift_definition units :: "int \<Rightarrow> binary32" is rnd by simp

instantiation binary32 :: "{zero, plus, minus, uminus, linorder}"
begin

lift_definition zero_binary32 :: binary32 is 0 by (simp add: rnd_def round_nat_def nearest_def)
lift_definition plus_binary32 :: "binary32 \<Rightarrow> binary32 \<Rightarrow> binary32" is "\<lambda>a b. rnd (a + b)" by simp
lift_definition minus_binary32 :: "binary32 \<Rightarrow> binary32 \<Rightarrow> binary32" is "\<lambda>a b. rnd (a - b)" by simp
lift_definition uminus_binary32 :: "binary32 \<Rightarrow> binary32" is "\<lambda>a. - a" by (simp add: rnd_minus)
lift_definition less_eq_binary32 :: "binary32 \<Rightarrow> binary32 \<Rightarrow> bool" is "\<lambda>a b. a \<le> b" .
lift_definition less_binary32 :: "binary32 \<Rightarrow> binary32 \<Rightarrow> bool" is "\<lambda>a b. a < b" .

instance by standard (transfer; auto)+

end

text \<open>Absorption: adding a number to a much larger one can leave it as it is.\<close>

lemma sum_absorbed: "units 300000000 + units (- 1) = units 300000000"
proof -
  have l: "floorlog 2 n = 29" if "2 ^ 28 \<le> n" "n < 2 ^ 29" for n :: nat
    using floorlog_leI[of n 2 29] floorlog_geI[of 2 29 n] that by simp
  have "ulp 300000000 = 32" "ulp 299999999 = 32" by (simp_all add: ulp_def l)
  then have "round_nat 300000000 = 300000000" "round_nat 299999999 = 300000000"
    by (simp_all add: round_nat_def nearest_def Let_def)
  moreover have "round_nat 1 = 1" using round_nat_significand[of 1 0] by simp
  ultimately show ?thesis by transfer (simp add: rnd_def)
qed

end
