(* ===== verification/Viterbi.thy ===== *)
theory Viterbi
  imports Prelude
begin

text \<open>
  The Viterbi decoder of the telemetry decoders, \<open>viterbi_decoder.cc\<close>, and the de-interleaver of
  \<open>galileo_telemetry_decoder_gs.cc\<close>. The type of the metrics is a variable, with the constant
  \<open>d_MAXLOG\<close> as the argument \<open>maxlog\<close>. Integers are natural numbers: constraint lengths and
  frames are far from the bounds of \<open>int32_t\<close>. \<^const>\<open>None\<close> is an access outside a vector.
\<close>

section \<open>State\<close>

record 'f viterbi =
  d_g :: "nat list"
  d_KK :: nat
  d_nn :: nat
  d_LL :: nat
  d_mm :: nat
  d_states :: nat
  d_number_symbols :: nat
  d_MAXLOG :: 'f
  d_prev_section :: "'f list"
  d_next_section :: "'f list"
  d_rec_array :: "'f list"
  d_metric_c :: "'f list"
  d_prev_bit :: "nat list"
  d_prev_state :: "nat list"
  d_out0 :: "nat list"
  d_out1 :: "nat list"
  d_state0 :: "nat list"
  d_state1 :: "nat list"

section \<open>Convolutional encoder\<close>

fun parity_loop :: "nat \<Rightarrow> nat \<Rightarrow> nat \<Rightarrow> nat" where
  "parity_loop 0 symbol temp_parity = temp_parity"
| "parity_loop (Suc n) symbol temp_parity = parity_loop n (drop_bit 1 symbol) (temp_parity XOR (symbol AND 1))"

definition parity_counter :: "nat \<Rightarrow> nat \<Rightarrow> nat" where
  "parity_counter symbol n = parity_loop n symbol 0"

text \<open>The symbols for an input bit in a state, and the next state.\<close>

definition nsc_enc_bit :: "nat list \<Rightarrow> nat \<Rightarrow> nat \<Rightarrow> nat \<Rightarrow> nat \<Rightarrow> nat \<times> nat" where
  "nsc_enc_bit g KK nn input state_in =
    (let state = push_bit (KK - 1) input XOR state_in
     in (foldl (\<lambda>out i. push_bit 1 out + parity_counter (state AND g ! i) KK) 0 [0..<nn], drop_bit 1 state))"

definition nsc_transit :: "nat list \<Rightarrow> nat \<Rightarrow> nat \<Rightarrow> nat \<Rightarrow> nat list \<times> nat list" where
  "nsc_transit g KK nn input =
    (map (\<lambda>state. fst (nsc_enc_bit g KK nn input state)) [0..<2 ^ (KK - 1)],
     map (\<lambda>state. snd (nsc_enc_bit g KK nn input state)) [0..<2 ^ (KK - 1)])"

section \<open>Construction\<close>

text \<open>The polynomials are an array of two; a constraint length of zero is a negative shift.\<close>

definition Viterbi_Decoder :: "'f::{zero,uminus} \<Rightarrow> nat \<Rightarrow> nat \<Rightarrow> nat \<Rightarrow> nat list \<Rightarrow> 'f viterbi option" where
  "Viterbi_Decoder maxlog KK nn LL g =
    (if KK = 0 \<or> nn > length g then None
     else Some \<lparr> d_g = g, d_KK = KK, d_nn = nn, d_LL = LL, d_mm = KK - 1, d_states = 2 ^ (KK - 1),
       d_number_symbols = 2 ^ nn, d_MAXLOG = maxlog,
       d_prev_section = replicate (2 ^ (KK - 1)) (- maxlog), d_next_section = replicate (2 ^ (KK - 1)) (- maxlog),
       d_rec_array = replicate nn 0, d_metric_c = replicate (2 ^ nn) 0,
       d_prev_bit = replicate (2 ^ (KK - 1) * (LL + (KK - 1))) 0,
       d_prev_state = replicate (2 ^ (KK - 1) * (LL + (KK - 1))) 0,
       d_out0 = fst (nsc_transit g KK nn 0), d_out1 = fst (nsc_transit g KK nn 1),
       d_state0 = snd (nsc_transit g KK nn 0), d_state1 = snd (nsc_transit g KK nn 1) \<rparr>)"

definition viterbi_reset :: "'f viterbi \<Rightarrow> 'f viterbi" where
  "viterbi_reset dec = dec\<lparr> d_out0 := fst (nsc_transit (d_g dec) (d_KK dec) (d_nn dec) 0),
     d_state0 := snd (nsc_transit (d_g dec) (d_KK dec) (d_nn dec) 0),
     d_out1 := fst (nsc_transit (d_g dec) (d_KK dec) (d_nn dec) 1),
     d_state1 := snd (nsc_transit (d_g dec) (d_KK dec) (d_nn dec) 1) \<rparr>"

section \<open>Decoding\<close>

definition Gamma :: "'f::{zero,plus} viterbi \<Rightarrow> nat \<Rightarrow> 'f" where
  "Gamma dec symbol = foldl (\<lambda>rm i. if bit symbol i then rm + d_rec_array dec ! (d_nn dec - i - 1) else rm) 0
     [0..<d_nn dec]"

text \<open>\<open>std::copy(input + nn * t, input + nn * t + (nn - 1), d_rec_array)\<close>: the end of the range is not
  copied.\<close>

definition receive_symbols :: "'f list \<Rightarrow> nat \<Rightarrow> 'f viterbi \<Rightarrow> 'f viterbi option" where
  "receive_symbols input_c t dec =
    (if d_nn dec = 0 then None
     else map_option (\<lambda>xs. dec\<lparr> d_rec_array := xs @ drop (d_nn dec - 1) (d_rec_array dec) \<rparr>)
       (vread input_c (d_nn dec * t) (d_nn dec - 1)))"

definition branch_metrics :: "'f::{zero,plus} viterbi \<Rightarrow> 'f viterbi" where
  "branch_metrics dec = dec\<lparr> d_metric_c := map (Gamma dec) [0..<d_number_symbols dec] \<rparr>"

text \<open>The hypothesis that the information bit is \<open>b\<close>.\<close>

definition try_branch :: "nat \<Rightarrow> nat \<Rightarrow> nat \<Rightarrow> 'f::{plus,ord} viterbi \<Rightarrow> 'f viterbi" where
  "try_branch t state b dec =
    (let out = (if b = 0 then d_out0 dec else d_out1 dec) ! state;
         target = (if b = 0 then d_state0 dec else d_state1 dec) ! state;
         metric = d_prev_section dec ! state + d_metric_c dec ! out
     in if metric > d_next_section dec ! target
        then dec\<lparr> d_next_section := (d_next_section dec)[target := metric],
          d_prev_state := (d_prev_state dec)[t * d_states dec + target := state],
          d_prev_bit := (d_prev_bit dec)[t * d_states dec + target := b] \<rparr>
        else dec)"

definition try_branches :: "nat \<Rightarrow> 'f::{plus,ord} viterbi \<Rightarrow> 'f viterbi" where
  "try_branches t dec = foldl (\<lambda>dec state. try_branch t state 1 (try_branch t state 0 dec)) dec [0..<d_states dec]"

text \<open>The value at the index of the maximum.\<close>

definition max_metric :: "'f::ord list \<Rightarrow> 'f" where
  "max_metric xs = foldl (\<lambda>m x. if x > m then x else m) (hd xs) (tl xs)"

definition normalize :: "'f::{minus,uminus,ord} viterbi \<Rightarrow> 'f viterbi" where
  "normalize dec = (let max_val = max_metric (d_next_section dec) in
     dec\<lparr> d_prev_section := map (\<lambda>x. x - max_val) (d_next_section dec),
       d_next_section := replicate (d_states dec) (- d_MAXLOG dec) \<rparr>)"

definition trellis_step :: "'f::{zero,plus,minus,uminus,ord} list \<Rightarrow> nat \<Rightarrow> 'f viterbi \<Rightarrow> 'f viterbi option" where
  "trellis_step input_c t dec =
    map_option (\<lambda>dec. normalize (try_branches t (branch_metrics dec))) (receive_symbols input_c t dec)"

definition trace_back :: "'f viterbi \<Rightarrow> nat list \<Rightarrow> nat list" where
  "trace_back dec output =
    (let n = d_states dec; back = (\<lambda>state t. d_prev_state dec ! (t * n + state));
         state = foldl back 0 (rev [d_LL dec..<d_LL dec + d_mm dec])
     in fst (foldl (\<lambda>(output, state) t. (output[t := d_prev_bit dec ! (t * n + state)], back state t))
       (output, state) (rev [0..<d_LL dec])))"

definition viterbi_decode :: "nat list \<Rightarrow> 'f::{zero,plus,minus,uminus,ord} list \<Rightarrow> 'f viterbi
    \<Rightarrow> (nat list \<times> 'f viterbi) option" where
  "viterbi_decode output input_c dec =
    (if length output < d_LL dec then None
     else
       do { dec \<leftarrow> foldM (trellis_step input_c) [0..<d_LL dec + d_mm dec]
              (dec\<lparr> d_prev_section := (d_prev_section dec)[0 := 0] \<rparr>);
            Some (trace_back dec output, dec) })"

section \<open>Before the decoder\<close>

text \<open>\<open>deinterleaver(rows, cols, in, out)\<close> writes \<open>out[c * rows + r] = in[r * cols + c]\<close>.\<close>

definition deinterleaver :: "nat \<Rightarrow> nat \<Rightarrow> 'f list \<Rightarrow> 'f list \<Rightarrow> 'f list option" where
  "deinterleaver rows cols input out =
    foldM (\<lambda>(r, c) out. do { x \<leftarrow> vget input (r * cols + c); vput out (c * rows + r) x })
      (concat (map (\<lambda>r. map (Pair r) [0..<cols]) [0..<rows])) out"

text \<open>The inverter behind the second polynomial.\<close>

definition undo_not_gate :: "'f::uminus list \<Rightarrow> 'f list" where
  "undo_not_gate xs = map (\<lambda>i. if (i + 1) mod 2 = 0 then - (xs ! i) else xs ! i) [0..<length xs]"

end
