(* ===== verification/Viterbi_Path.thy ===== *)
theory Viterbi_Path
  imports Binary32 Viterbi
begin

text \<open>
  The survivor of the decoder when the symbols fit a path through the trellis. What the proof needs of
  the arithmetic of the metrics is stated as a locale; exact arithmetic and the rounded one of \<open>float\<close>
  interpret it. As the second symbol of a pair is never copied, a branch has the metric of its first
  symbol.
\<close>

section \<open>The code\<close>

lemma parity_loop_eq: "p < 2 \<Longrightarrow> parity_loop n symbol p = (p + (\<Sum>i<n. of_bool (bit symbol i))) mod 2"
proof (induction n symbol p rule: parity_loop.induct)
  case (2 n symbol p)
  have one: "symbol AND 1 = of_bool (bit symbol 0)" by (simp add: and_one_eq bit_0 mod_2_eq_odd)
  have p: "p XOR (symbol AND 1) = (p + of_bool (bit symbol 0)) mod 2"
    unfolding one using 2(2) by (cases "bit symbol 0"; cases "p = 0") (auto simp: less_2_cases_iff)
  have "(\<Sum>i<Suc n. of_bool (bit symbol i) :: nat) = of_bool (bit symbol 0) + (\<Sum>i<n. of_bool (bit (drop_bit 1 symbol) i))"
    by (simp add: sum.lessThan_Suc_shift bit_drop_bit_eq del: sum.lessThan_Suc)
  then show ?case using 2 p by (simp add: mod_simps add.assoc)
qed simp

lemma parity_counter_eq: "parity_counter symbol n = (\<Sum>i<n. of_bool (bit symbol i)) mod 2"
  by (simp add: parity_counter_def parity_loop_eq)

definition first_symbol :: "nat list \<Rightarrow> nat \<Rightarrow> nat \<Rightarrow> nat \<Rightarrow> nat" where
  "first_symbol g mm b s = parity_counter ((push_bit mm b XOR s) AND g ! 0) (Suc mm)"

definition next_state :: "nat \<Rightarrow> nat \<Rightarrow> nat \<Rightarrow> nat" where
  "next_state mm b s = drop_bit 1 (push_bit mm b XOR s)"

lemma not_bit_beyond: "(s :: nat) < 2 ^ m \<Longrightarrow> m \<le> i \<Longrightarrow> \<not> bit s i"
  by (metis bit_take_bit_iff linorder_not_less take_bit_nat_eq_self)

lemma first_symbol_differs:
  assumes "bit (g ! 0) mm" "s < 2 ^ mm" "b < 2" "c < 2" "b \<noteq> c"
  shows "first_symbol g mm b s \<noteq> first_symbol g mm c s"
proof -
  have "first_symbol g mm d s = ((\<Sum>i<mm. of_bool (bit s i \<and> bit (g ! 0) i)) + d) mod 2" if "d < 2" for d
  proof -
    have "bit ((push_bit mm d XOR s) AND g ! 0) mm \<longleftrightarrow> d = 1"
      using assms(1,2) that not_bit_beyond[of s mm mm]
      by (auto simp: bit_and_iff bit_xor_iff bit_push_bit_iff bit_0 less_2_cases_iff)
    moreover have "bit ((push_bit mm d XOR s) AND g ! 0) i \<longleftrightarrow> bit s i \<and> bit (g ! 0) i" if "i < mm" for i
      using that by (auto simp: bit_and_iff bit_xor_iff bit_push_bit_iff)
    ultimately show ?thesis
      using \<open>d < 2\<close> by (auto simp: first_symbol_def parity_counter_eq less_2_cases_iff)
  qed
  then show ?thesis using assms(3-5) by (auto simp: less_2_cases_iff) presburger+
qed

lemma first_symbol_bound: "first_symbol g mm b s < 2"
  by (simp add: first_symbol_def parity_counter_eq)

lemma next_state_bound: "s < 2 ^ mm \<Longrightarrow> b < 2 \<Longrightarrow> next_state mm b s < 2 ^ mm"
proof -
  assume s: "s < 2 ^ mm" "b < 2"
  have "push_bit mm b XOR s < 2 ^ Suc mm"
  proof (rule ccontr)
    assume "\<not> ?thesis"
    then obtain i where "Suc mm \<le> i" "bit (push_bit mm b XOR s) i"
      by (metis bit_take_bit_iff bit_eqI linorder_not_less take_bit_nat_less_exp)
    then have "bit b (i - mm)" using not_bit_beyond[OF s(1), of i] by (auto simp: bit_xor_iff bit_push_bit_iff)
    moreover have "b < 2 ^ 1" using s(2) by simp
    moreover have "1 \<le> i - mm" using \<open>Suc mm \<le> i\<close> by simp
    ultimately show False using not_bit_beyond[of b 1 "i - mm"] by blast
  qed
  then show ?thesis by (simp add: next_state_def drop_bit_eq_div less_mult_imp_div_less)
qed

text \<open>The state of the encoder after some bits.\<close>

definition state_after :: "nat \<Rightarrow> nat list \<Rightarrow> nat" where
  "state_after mm us = foldl (\<lambda>s b. next_state mm b s) 0 us"

lemma state_after_snoc: "state_after mm (us @ [b]) = next_state mm b (state_after mm us)"
  by (simp add: state_after_def)

lemma state_after_bound: "\<forall>b \<in> set us. b < 2 \<Longrightarrow> state_after mm us < 2 ^ mm"
proof (induction us rule: rev_induct)
  case Nil
  then show ?case by (simp add: state_after_def)
next
  case (snoc b us)
  then show ?case by (simp add: state_after_snoc next_state_bound)
qed

lemma nsc_enc_bit_two:
  assumes "0 < KK"
  shows "snd (nsc_enc_bit g KK 2 b s) = next_state (KK - 1) b s"
    "bit (fst (nsc_enc_bit g KK 2 b s)) 1 \<longleftrightarrow> first_symbol g (KK - 1) b s = 1"
    "fst (nsc_enc_bit g KK 2 b s) < 4"
proof -
  let ?s = "push_bit (KK - 1) b XOR s"
  define p where "p = parity_counter (?s AND g ! 0) KK"
  define q where "q = parity_counter (?s AND g ! Suc 0) KK"
  have pq: "p < 2" "q < 2" by (simp_all add: p_def q_def parity_counter_eq)
  have e: "fst (nsc_enc_bit g KK 2 b s) = 2 * p + q"
    by (simp add: nsc_enc_bit_def Let_def upt_rec numeral_2_eq_2 p_def q_def)
  have "first_symbol g (KK - 1) b s = p" using assms by (simp add: first_symbol_def p_def)
  moreover have "bit (2 * p + q) 1 \<longleftrightarrow> p = 1" using pq by (auto simp: less_2_cases_iff bit_iff_odd)
  ultimately show "bit (fst (nsc_enc_bit g KK 2 b s)) 1 \<longleftrightarrow> first_symbol g (KK - 1) b s = 1" using e by simp
  show "snd (nsc_enc_bit g KK 2 b s) = next_state (KK - 1) b s" by (simp add: nsc_enc_bit_def Let_def next_state_def)
  show "fst (nsc_enc_bit g KK 2 b s) < 4" using pq e by simp
qed

section \<open>One column of the trellis\<close>

definition branch_out :: "'f viterbi \<Rightarrow> nat \<Rightarrow> nat \<Rightarrow> nat" where
  "branch_out dec s b = (if b = 0 then d_out0 dec else d_out1 dec) ! s"

definition branch_target :: "'f viterbi \<Rightarrow> nat \<Rightarrow> nat \<Rightarrow> nat" where
  "branch_target dec s b = (if b = 0 then d_state0 dec else d_state1 dec) ! s"

definition branch_metric :: "'f::plus viterbi \<Rightarrow> nat \<Rightarrow> nat \<Rightarrow> 'f" where
  "branch_metric dec s b = d_prev_section dec ! s + d_metric_c dec ! branch_out dec s b"

text \<open>What trying a branch does not change.\<close>

definition same_trellis :: "'f viterbi \<Rightarrow> 'f viterbi \<Rightarrow> bool" where
  "same_trellis dec dec' \<longleftrightarrow> dec' = dec\<lparr> d_next_section := d_next_section dec', d_prev_state := d_prev_state dec',
     d_prev_bit := d_prev_bit dec' \<rparr>"

lemma same_trellisD:
  assumes "same_trellis dec dec'"
  shows "branch_metric dec' s b = branch_metric dec s b" "branch_target dec' s b = branch_target dec s b"
    "d_states dec' = d_states dec" "d_prev_section dec' = d_prev_section dec"
  using assms unfolding same_trellis_def
  by (cases dec; cases dec'; simp add: branch_metric_def branch_target_def branch_out_def)+

lemma same_trellis_refl: "same_trellis dec dec"
  by (simp add: same_trellis_def)

lemma same_trellis_trans: "same_trellis a b \<Longrightarrow> same_trellis b c \<Longrightarrow> same_trellis a c"
  unfolding same_trellis_def by (cases a; cases b; cases c) simp

lemma try_branch_eq: "try_branch t s b dec =
  (if branch_metric dec s b > d_next_section dec ! branch_target dec s b
   then dec\<lparr> d_next_section := (d_next_section dec)[branch_target dec s b := branch_metric dec s b],
     d_prev_state := (d_prev_state dec)[t * d_states dec + branch_target dec s b := s],
     d_prev_bit := (d_prev_bit dec)[t * d_states dec + branch_target dec s b := b] \<rparr>
   else dec)"
  by (simp add: try_branch_def Let_def branch_metric_def branch_target_def branch_out_def)

lemma same_trellis_try: "same_trellis dec (try_branch t s b dec)"
  by (simp add: try_branch_eq same_trellis_def)

text \<open>The true branch leads to \<open>w\<close> from \<open>v\<close> with bit \<open>u\<close> and has the metric \<open>m\<close>; it has
  been tried when \<open>hit\<close>. All other metrics are low, which means at least below \<open>m\<close>.\<close>

definition survives :: "('f \<Rightarrow> bool) \<Rightarrow> nat \<Rightarrow> nat \<Rightarrow> nat \<Rightarrow> nat \<Rightarrow> 'f::linorder \<Rightarrow> bool \<Rightarrow> 'f viterbi \<Rightarrow> 'f viterbi \<Rightarrow> bool" where
  "survives low t v w u m hit dec0 dec \<longleftrightarrow> same_trellis dec0 dec
     \<and> length (d_next_section dec) = d_states dec0
     \<and> length (d_prev_state dec) = length (d_prev_state dec0) \<and> length (d_prev_bit dec) = length (d_prev_bit dec0)
     \<and> (\<forall>i < t * d_states dec0. d_prev_state dec ! i = d_prev_state dec0 ! i \<and> d_prev_bit dec ! i = d_prev_bit dec0 ! i)
     \<and> (\<forall>s < d_states dec0. s \<noteq> w \<longrightarrow> low (d_next_section dec ! s))
     \<and> (if hit then d_next_section dec ! w = m \<and> d_prev_state dec ! (t * d_states dec0 + w) = v
          \<and> d_prev_bit dec ! (t * d_states dec0 + w) = u
        else low (d_next_section dec ! w))"

lemma survives_try:
  assumes low: "\<And>x. low x \<Longrightarrow> x < m" and inv: "survives low t v w u m hit dec0 dec" and s: "branch_target dec0 s b < d_states dec0"
    and w: "w < d_states dec0" "t * d_states dec0 + w < length (d_prev_state dec0)"
      "t * d_states dec0 + w < length (d_prev_bit dec0)"
    and branch: "if (s, b) = (v, u) then branch_target dec0 s b = w \<and> branch_metric dec0 s b = m
      else low (branch_metric dec0 s b)"
  shows "survives low t v w u m (hit \<or> (s, b) = (v, u)) dec0 (try_branch t s b dec)"
proof -
  have same: "same_trellis dec0 dec" using inv by (simp add: survives_def)
  note e = same_trellisD[OF same]
  have same': "same_trellis dec0 (try_branch t s b dec)"
    by (rule same_trellis_trans[OF same same_trellis_try])
  let ?q = "branch_target dec0 s b" and ?x = "branch_metric dec0 s b"
  show ?thesis
  proof (cases "?x > d_next_section dec ! ?q")
    case False
    then have "try_branch t s b dec = dec" by (simp add: try_branch_eq e)
    moreover have "hit" if "(s, b) = (v, u)"
    proof (rule ccontr)
      assume "\<not> hit"
      then have "d_next_section dec ! w < m" using inv low by (simp add: survives_def)
      moreover have "?x = m" "?q = w" using branch that by simp_all
      ultimately show False using False by simp
    qed
    ultimately have "try_branch t s b dec = dec" "(hit \<or> (s, b) = (v, u)) = hit" by blast+
    then show ?thesis using inv by (simp only:)
  next
    case True
    let ?dec = "try_branch t s b dec"
    have d: "d_next_section ?dec = (d_next_section dec)[?q := ?x]"
      "d_prev_state ?dec = (d_prev_state dec)[t * d_states dec0 + ?q := s]"
      "d_prev_bit ?dec = (d_prev_bit dec)[t * d_states dec0 + ?q := b]"
      using True by (simp_all add: try_branch_eq e)
    show ?thesis
    proof (cases "low ?x")
      case less: True
      have "\<not> (hit \<and> ?q = w)" using inv True low[OF less] by (auto simp: survives_def)
      moreover have "(s, b) \<noteq> (v, u)" using branch low[OF less] by auto
      ultimately show ?thesis
        using inv same' s less w unfolding survives_def d
        by (auto simp: nth_list_update)
    next
      case False
      then have "(s, b) = (v, u)" "?q = w" "?x = m" using branch by (auto split: if_splits)
      then show ?thesis
        using inv same' s w unfolding survives_def d by (auto simp: nth_list_update)
    qed
  qed
qed

lemma survives_foldl:
  assumes low: "\<And>x. low x \<Longrightarrow> x < m" and "survives low t v w u m hit dec0 dec"
    and w: "w < d_states dec0" "t * d_states dec0 + w < length (d_prev_state dec0)"
      "t * d_states dec0 + w < length (d_prev_bit dec0)"
    and "\<forall>(s, b) \<in> set bs. branch_target dec0 s b < d_states dec0 \<and>
      (if (s, b) = (v, u) then branch_target dec0 s b = w \<and> branch_metric dec0 s b = m else low (branch_metric dec0 s b))"
  shows "survives low t v w u m (hit \<or> (v, u) \<in> set bs) dec0 (foldl (\<lambda>dec (s, b). try_branch t s b dec) dec bs)"
  using assms(2,6)
proof (induction bs arbitrary: hit dec)
  case (Cons br bs)
  obtain s b where br: "br = (s, b)" by (cases br)
  have "survives low t v w u m (hit \<or> (s, b) = (v, u)) dec0 (try_branch t s b dec)"
    using Cons.prems br by (intro survives_try[OF low Cons.prems(1) _ w]) auto
  then have "survives low t v w u m ((hit \<or> (s, b) = (v, u)) \<or> (v, u) \<in> set bs) dec0
      (foldl (\<lambda>dec (s, b). try_branch t s b dec) (try_branch t s b dec) bs)"
    using Cons.prems by (intro Cons.IH) auto
  moreover have "((hit \<or> (s, b) = (v, u)) \<or> (v, u) \<in> set bs) = (hit \<or> (v, u) \<in> set (br # bs))" using br by auto
  ultimately show ?case using br by simp
qed simp

definition branches :: "nat \<Rightarrow> (nat \<times> nat) list" where
  "branches n = concat (map (\<lambda>s. [(s, 0), (s, 1)]) [0..<n])"

lemma set_branches: "(s, b) \<in> set (branches n) \<longleftrightarrow> s < n \<and> b < 2"
  by (auto simp: branches_def less_2_cases_iff)

lemma try_branches_eq: "try_branches t dec = foldl (\<lambda>dec (s, b). try_branch t s b dec) dec (branches (d_states dec))"
proof -
  have "foldl (\<lambda>dec s. try_branch t s 1 (try_branch t s 0 dec)) d xs
      = foldl (\<lambda>dec (s, b). try_branch t s b dec) d (concat (map (\<lambda>s. [(s, 0), (s, 1)]) xs))" for d xs
    by (induction xs arbitrary: d) simp_all
  then show ?thesis by (simp add: try_branches_def branches_def)
qed

lemma max_metric_eq:
  fixes m :: "'a::linorder"
  assumes "m \<in> set xs" "\<forall>x \<in> set xs. x \<le> m"
  shows "max_metric xs = m"
proof -
  have up: "foldl (\<lambda>m x. if x > m then x else m) a ys = m" if "m \<in> insert a (set ys)" "\<forall>x \<in> insert a (set ys). x \<le> m" for a ys
    using that
  proof (induction ys arbitrary: a)
    case (Cons y ys)
    have "foldl (\<lambda>m x. if x > m then x else m) (if y > a then y else a) ys = m"
      using Cons.prems by (intro Cons.IH) (auto simp: not_less dest: antisym)
    then show ?case by simp
  qed simp
  show ?thesis using assms up[of "hd xs" "tl xs"] by (cases xs) (simp_all add: max_metric_def)
qed

section \<open>The arithmetic of the metrics\<close>

text \<open>\<open>gain m\<close>: \<open>m\<close> can be the metric of the true branch at a step, zero or a symbol that is large
  enough. \<open>behind y\<close>: \<open>y\<close> is so far below zero that a branch that starts from it stays below the
  true one, also after the largest metric has been subtracted.\<close>

locale metrics =
  fixes behind gain :: "'f::{zero,plus,minus,uminus,linorder} \<Rightarrow> bool"
  assumes zero_add: "0 + x = (x :: 'f)"
    and sub_self: "x - x = (0 :: 'f)"
    and gain_zero: "gain 0"
    and behind_neg: "behind y \<Longrightarrow> y < 0"
    and behind_add: "behind y \<Longrightarrow> gain m \<Longrightarrow> 0 \<le> m \<Longrightarrow> g \<le> m \<Longrightarrow> y + g < m \<and> behind (y + g - m)"
    and behind_sub: "behind y \<Longrightarrow> gain m \<Longrightarrow> 0 \<le> m \<Longrightarrow> behind (y - m)"
    and behind_gain: "gain m \<Longrightarrow> 0 < m \<Longrightarrow> behind (0 - m)"

text \<open>Exact arithmetic.\<close>

interpretation exact: metrics "\<lambda>y. y < (0 :: 'f::linordered_ab_group_add)" "\<lambda>m. 0 \<le> m"
proof
  fix y m g :: 'f
  assume "y < 0" "g \<le> m"
  then have "y + g < 0 + m" by (rule add_less_le_mono)
  then show "y + g < m \<and> y + g - m < 0" by simp
qed (simp_all add: less_le_trans)

text \<open>Arithmetic of \<open>float\<close>, for symbols whose absolute values are at least \<open>2\<^sup>k\<close> and, where they are
  positive, at most \<open>2\<^sup>k\<^sup>+\<^sup>2\<^sup>4\<close>: what is behind by the least amplitude stays behind by it, because the
  numbers that come up are in the range where that amplitude is not lost.\<close>

lift_definition float_behind :: "nat \<Rightarrow> binary32 \<Rightarrow> bool" is "\<lambda>k y. y \<le> - (2 ^ k)" .

lift_definition float_gain :: "nat \<Rightarrow> binary32 \<Rightarrow> bool" is "\<lambda>k m. m = 0 \<or> 2 ^ k \<le> m \<and> m \<le> 2 ^ (k + 24)" .

lemma float_number_power: "float_number (2 ^ k)" "float_number (- (2 ^ k))"
proof -
  have "\<bar>(2 :: int) ^ k\<bar> = int (1 * 2 ^ k)" "\<bar>- ((2 :: int) ^ k)\<bar> = int (1 * 2 ^ k)" by simp_all
  moreover have "(1 :: nat) < 2 ^ 24" by simp
  ultimately show "float_number (2 ^ k)" "float_number (- (2 ^ k))" unfolding float_number_def by blast+
qed

lemma float_number_less_power:
  assumes m: "rnd m = m" "2 ^ k \<le> m" "m \<le> 2 ^ (k + 24)"
  shows "float_number (m - 2 ^ k)"
proof (cases "m = 2 ^ (k + 24)")
  case True
  then have "m - 2 ^ k = (2 ^ 24 - 1) * 2 ^ k" by (simp add: power_add)
  moreover have "(0 :: int) \<le> (2 ^ 24 - 1) * 2 ^ k" by simp
  ultimately have "\<bar>m - 2 ^ k\<bar> = int ((2 ^ 24 - 1) * 2 ^ k)" by simp
  moreover have "(2 :: nat) ^ 24 - 1 < 2 ^ 24" by simp
  ultimately show ?thesis unfolding float_number_def by blast
next
  case False
  obtain c e where c: "c < (2 ^ 24 :: nat)" "\<bar>m\<bar> = int (c * 2 ^ e)"
    using float_number_rnd[of m] m(1) by (auto simp: float_number_def)
  have pos: "0 < m" using m(2) by (rule less_le_trans[rotated]) simp
  then have mc: "m = int c * 2 ^ e" using c(2) by simp
  show ?thesis
  proof (cases "e \<le> k")
    case True
    then have k: "(2 :: int) ^ k = 2 ^ (k - e) * 2 ^ e" by (simp flip: power_add)
    have "2 ^ (k - e) * 2 ^ e \<le> int c * 2 ^ e" using m(2) mc k by simp
    then have "2 ^ (k - e) \<le> int c" by simp
    then have le: "2 ^ (k - e) \<le> c" by (simp flip: of_nat_le_iff)
    have "m - 2 ^ k = (int c - 2 ^ (k - e)) * 2 ^ e" by (simp add: mc k algebra_simps)
    also have "\<dots> = int ((c - 2 ^ (k - e)) * 2 ^ e)" using le by (simp add: of_nat_diff)
    finally have "\<bar>m - 2 ^ k\<bar> = int ((c - 2 ^ (k - e)) * 2 ^ e)" by simp
    moreover have "c - 2 ^ (k - e) < 2 ^ 24" using c(1) by simp
    ultimately show ?thesis unfolding float_number_def by blast
  next
    case False
    then have e: "(2 :: int) ^ e = 2 ^ (e - k) * 2 ^ k" by (simp flip: power_add)
    define q where "q = c * 2 ^ (e - k)"
    have mq: "m = int q * 2 ^ k" by (simp add: mc e q_def)
    have "m < 2 ^ 24 * 2 ^ k" using m(3) \<open>m \<noteq> 2 ^ (k + 24)\<close> by (simp add: power_add mult.commute)
    then have "int q < 2 ^ 24" by (simp add: mq)
    then have q: "q < 2 ^ 24" by (simp flip: of_nat_less_iff)
    have "1 \<le> q" using pos mq by (cases q) simp_all
    then have "\<bar>m - 2 ^ k\<bar> = int ((q - 1) * 2 ^ k)" by (simp add: mq of_nat_diff algebra_simps)
    moreover have "q - 1 < 2 ^ 24" using q by simp
    ultimately show ?thesis unfolding float_number_def by blast
  qed
qed

lemma rnd_zero [simp]: "rnd 0 = 0"
  by (simp add: rnd_number float_number_def)

lemma float_step:
  assumes "rnd m = m" "y \<le> - (2 ^ k)" "m = 0 \<or> 2 ^ k \<le> m \<and> m \<le> 2 ^ (k + 24)" "g \<le> m"
  shows "rnd (y + g) < m \<and> rnd (rnd (y + g) - m) \<le> - (2 ^ k)"
proof -
  have "float_number (m - 2 ^ k)"
    using assms(1,3) float_number_less_power[of m k] float_number_power(2)[of k] by auto
  then have r: "rnd (m - 2 ^ k) = m - 2 ^ k" by (rule rnd_number)
  have "rnd (y + g) \<le> rnd (m - 2 ^ k)" by (rule rnd_mono) (use assms(2,4) in linarith)
  then have le: "rnd (y + g) \<le> m - 2 ^ k" by (simp only: r)
  then have "rnd (rnd (y + g) - m) \<le> rnd (- (2 ^ k))" by (intro rnd_mono) simp
  also have "\<dots> = - (2 ^ k)" by (rule rnd_number[OF float_number_power(2)])
  finally have b: "rnd (rnd (y + g) - m) \<le> - (2 ^ k)" .
  have "(0 :: int) < 2 ^ k" by simp
  with le b show ?thesis by linarith
qed

interpretation rounded: metrics "float_behind k" "float_gain k" for k
proof
  fix x y m g :: binary32
  show "0 + x = x" "x - x = 0" by (transfer; simp)+
  show "float_gain k 0" by transfer simp
  show "y < 0" if "float_behind k y"
    using that by transfer (metis le_less_trans neg_less_0_iff_less zero_less_numeral zero_less_power)
  show "y + g < m \<and> float_behind k (y + g - m)" if "float_behind k y" "float_gain k m" "0 \<le> m" "g \<le> m"
    using that by transfer (rule float_step)
  show "float_behind k (y - m)" if "float_behind k y" "float_gain k m" "0 \<le> m"
    using that
  proof transfer
    fix k y m assume "rnd y = y" "rnd m = m" "y \<le> - (2 ^ k)" "m = 0 \<or> 2 ^ k \<le> m \<and> m \<le> 2 ^ (k + 24)" "0 \<le> m"
    then show "rnd (y - m) \<le> - (2 ^ k)" using float_step[of m y k 0] by simp
  qed
  show "float_behind k (0 - m)" if "float_gain k m" "0 < m"
    using that
  proof transfer
    fix k m assume "rnd m = m" "m = 0 \<or> 2 ^ k \<le> m \<and> m \<le> 2 ^ (k + 24)" "0 < m"
    then show "rnd (0 - m) \<le> - (2 ^ k)" by (auto simp: rnd_minus)
  qed
qed

section \<open>Steps along a path\<close>

definition decoder_ready :: "('f \<Rightarrow> bool) \<Rightarrow> nat list \<Rightarrow> nat \<Rightarrow> nat \<Rightarrow> 'f::{zero,uminus} viterbi \<Rightarrow> bool" where
  "decoder_ready behind g mm n dec \<longleftrightarrow> d_nn dec = 2 \<and> d_states dec = 2 ^ mm \<and> d_mm dec = mm \<and> d_LL dec = n \<and> d_number_symbols dec = 4
     \<and> d_out0 dec = fst (nsc_transit g (Suc mm) 2 0) \<and> d_out1 dec = fst (nsc_transit g (Suc mm) 2 1)
     \<and> d_state0 dec = snd (nsc_transit g (Suc mm) 2 0) \<and> d_state1 dec = snd (nsc_transit g (Suc mm) 2 1)
     \<and> d_next_section dec = replicate (2 ^ mm) (- d_MAXLOG dec) \<and> behind (- d_MAXLOG dec)
     \<and> length (d_prev_section dec) = 2 ^ mm \<and> length (d_rec_array dec) = 2 \<and> d_rec_array dec ! 1 = 0
     \<and> length (d_prev_state dec) = 2 ^ mm * (n + mm) \<and> length (d_prev_bit dec) = 2 ^ mm * (n + mm)"

text \<open>The metrics single out state \<open>v\<close>.\<close>

definition leads :: "('f \<Rightarrow> bool) \<Rightarrow> nat \<Rightarrow> nat \<Rightarrow> 'f::zero viterbi \<Rightarrow> bool" where
  "leads behind mm v dec \<longleftrightarrow> d_prev_section dec ! v = 0 \<and> (\<forall>s < 2 ^ mm. s \<noteq> v \<longrightarrow> behind (d_prev_section dec ! s))"

text \<open>The symbol \<open>x\<close> is the first one of the branch with bit \<open>u\<close> from state \<open>v\<close>.\<close>

definition symbol_fits :: "('f \<Rightarrow> bool) \<Rightarrow> ('f \<Rightarrow> bool) \<Rightarrow> nat list \<Rightarrow> nat \<Rightarrow> nat \<Rightarrow> nat \<Rightarrow> 'f::{zero,ord} \<Rightarrow> bool" where
  "symbol_fits behind gain g mm u v x \<longleftrightarrow> (if first_symbol g mm u v = 1 then 0 < x \<and> gain x else behind x)"

context metrics
begin

lemma Gamma_two:
  fixes dec :: "'f viterbi"
  assumes "d_nn dec = 2" "d_rec_array dec ! 1 = 0"
  shows "Gamma dec symbol = (if bit symbol 1 then d_rec_array dec ! 0 else 0)"
proof -
  have "[0..<2] = [0, 1 :: nat]" by (simp add: upt_rec)
  then show ?thesis using assms by (simp add: Gamma_def zero_add)
qed

lemma trellis_step_along:
  fixes dec :: "'f viterbi"
  assumes dec: "decoder_ready behind g mm n dec" "leads behind mm v dec" and v: "v < 2 ^ mm" "u < 2" and g: "bit (g ! 0) mm"
    and t: "t < n + mm" "2 * t < length input" "symbol_fits behind gain g mm u v (input ! (2 * t))"
  defines "w \<equiv> next_state mm u v"
  obtains dec' where "trellis_step input t dec = Some dec'" "decoder_ready behind g mm n dec'" "leads behind mm w dec'"
    "d_prev_state dec' ! (t * 2 ^ mm + w) = v" "d_prev_bit dec' ! (t * 2 ^ mm + w) = u"
    "\<forall>i < t * 2 ^ mm. d_prev_state dec' ! i = d_prev_state dec ! i \<and> d_prev_bit dec' ! i = d_prev_bit dec ! i"
proof -
  let ?S = "2 ^ mm :: nat"
  define x where "x = input ! (2 * t)"
  define dec1 where "dec1 = dec\<lparr> d_rec_array := [x, 0] \<rparr>"
  define dec2 where "dec2 = branch_metrics dec1"
  note r = dec(1)[unfolded decoder_ready_def]
  have rec: "drop 1 (d_rec_array dec) = [0]"
    using r by (cases "d_rec_array dec"; cases "tl (d_rec_array dec)") auto
  have "vread input (2 * t) 1 = Some [x]"
    using t(2) by (simp add: vget_Some x_def)
  then have recv: "receive_symbols input t dec = Some dec1" using r rec by (simp add: receive_symbols_def dec1_def)
  have gamma: "Gamma dec1 symbol = (if bit symbol 1 then x else 0)" for symbol
    using r by (subst Gamma_two) (simp_all add: dec1_def)
  have st: "d_states dec2 = ?S" "d_next_section dec2 = replicate ?S (- d_MAXLOG dec)" "d_prev_state dec2 = d_prev_state dec"
    "d_prev_bit dec2 = d_prev_bit dec" "d_MAXLOG dec2 = d_MAXLOG dec"
    using r by (simp_all add: dec2_def branch_metrics_def dec1_def)
  have target: "branch_target dec2 s b = next_state mm b s" if "s < ?S" "b < 2" for s b
    using r that by (auto simp: branch_target_def dec2_def branch_metrics_def dec1_def nsc_transit_def nsc_enc_bit_two less_2_cases_iff)
  have metric: "branch_metric dec2 s b = d_prev_section dec ! s + (if first_symbol g mm b s = 1 then x else 0)"
    if "s < ?S" "b < 2" for s b
    using r that nsc_enc_bit_two(2,3)[of "Suc mm" g b s] gamma
    by (auto simp: branch_metric_def branch_out_def dec2_def branch_metrics_def dec1_def nsc_transit_def less_2_cases_iff)
  define m where "m = (if first_symbol g mm u v = 1 then x else 0)"
  have x: "if first_symbol g mm u v = 1 then 0 < x \<and> gain x else behind x" using t(3) by (simp add: symbol_fits_def x_def)
  then have m: "0 \<le> m" "x \<le> m" "gain m" using behind_neg[of x] gain_zero by (auto simp: m_def)
  have lead: "d_prev_section dec ! v = 0" "\<And>s. s < ?S \<Longrightarrow> s \<noteq> v \<Longrightarrow> behind (d_prev_section dec ! s)"
    using dec(2) by (simp_all add: leads_def)
  define low where "low = (\<lambda>y. y < m \<and> behind (y - m))"
  have low: "\<And>y. low y \<Longrightarrow> y < m" by (simp add: low_def)
  have w: "w < ?S" using v by (simp add: w_def next_state_bound)
  have br: "branch_target dec2 s b < d_states dec2 \<and> (if (s, b) = (v, u) then branch_target dec2 s b = w \<and> branch_metric dec2 s b = m
      else low (branch_metric dec2 s b))" if "s < ?S" "b < 2" for s b
  proof -
    have "low (branch_metric dec2 s b)" if ne: "(s, b) \<noteq> (v, u)"
    proof (cases "s = v")
      case True
      then have "first_symbol g mm b v \<noteq> first_symbol g mm u v"
        using ne v g \<open>b < 2\<close> by (intro first_symbol_differs) auto
      then have "branch_metric dec2 s b = (if first_symbol g mm u v = 1 then 0 else x)"
        using metric[OF \<open>s < ?S\<close> \<open>b < 2\<close>] True lead(1) first_symbol_bound[of g mm b v] first_symbol_bound[of g mm u v]
        by (auto simp: zero_add less_2_cases_iff)
      then show ?thesis
        using x m(3) behind_gain[of x] behind_neg[of x] behind_sub[of x 0] gain_zero by (auto simp: low_def m_def)
    next
      case False
      then have "low (d_prev_section dec ! s + (if first_symbol g mm b s = 1 then x else 0))"
        using behind_add[OF lead(2)[OF \<open>s < ?S\<close>] m(3,1)] m by (simp add: low_def)
      then show ?thesis using metric[OF \<open>s < ?S\<close> \<open>b < 2\<close>] by simp
    qed
    then show ?thesis
      using that target[OF that] metric[OF v] lead(1) next_state_bound[of s mm b] st(1) by (auto simp: w_def m_def zero_add)
  qed
  have ml: "behind (- d_MAXLOG dec)" using r by blast
  have "low (- d_MAXLOG dec)"
    using behind_neg[OF ml] m(1) behind_sub[OF ml m(3,1)] by (simp add: low_def)
  then have "survives low t v w u m False dec2 dec2" using st w by (simp add: survives_def same_trellis_refl)
  moreover have len: "t * ?S + w < ?S * (n + mm)"
  proof -
    have "t * ?S + w < Suc t * ?S" using w by simp
    also have "\<dots> \<le> (n + mm) * ?S" using t(1) by (intro mult_le_mono1) simp
    finally show ?thesis by (simp add: mult.commute)
  qed
  ultimately have "survives low t v w u m (False \<or> (v, u) \<in> set (branches ?S)) dec2
      (foldl (\<lambda>dec (s, b). try_branch t s b dec) dec2 (branches ?S))"
    using br w r st by (intro survives_foldl low) (auto simp: set_branches)
  then have "survives low t v w u m True dec2 (try_branches t dec2)"
    using v st(1) by (simp add: try_branches_eq set_branches)
  define dec3 where "dec3 = try_branches t dec2"
  note sv = \<open>survives low t v w u m True dec2 (try_branches t dec2)\<close>[folded dec3_def, unfolded survives_def if_True st]
  have len3: "length (d_next_section dec3) = ?S" using sv by simp
  have "max_metric (d_next_section dec3) = m"
  proof (rule max_metric_eq)
    show "m \<in> set (d_next_section dec3)" using sv w len3 by (metis nth_mem)
    show "\<forall>y \<in> set (d_next_section dec3). y \<le> m"
      using sv len3 low by (metis in_set_conv_nth less_imp_le order_refl)
  qed
  then have nrm: "normalize dec3 = dec3\<lparr> d_prev_section := map (\<lambda>y. y - m) (d_next_section dec3),
      d_next_section := replicate (d_states dec3) (- d_MAXLOG dec3) \<rparr>"
    by (simp add: normalize_def)
  have same: "same_trellis dec2 dec3" using sv by simp
  show thesis
  proof (rule that)
    show "trellis_step input t dec = Some (normalize dec3)"
      using recv by (simp add: trellis_step_def dec3_def dec2_def)
    show "decoder_ready behind g mm n (normalize dec3)"
      using same r len3 sv unfolding nrm same_trellis_def decoder_ready_def
      by (cases dec3) (auto simp: dec2_def branch_metrics_def dec1_def)
    show "leads behind mm w (normalize dec3)" using sv len3 w by (simp add: leads_def nrm sub_self low_def)
  qed (use sv in \<open>simp_all add: nrm\<close>)
qed

end

section \<open>Whole frames\<close>

text \<open>The bits of a frame with the tail that leads the encoder back to state zero.\<close>

definition with_tail :: "nat \<Rightarrow> nat list \<Rightarrow> nat list" where
  "with_tail mm us = us @ replicate mm 0"

definition path_state :: "nat \<Rightarrow> nat list \<Rightarrow> nat \<Rightarrow> nat" where
  "path_state mm us t = state_after mm (take t (with_tail mm us))"

lemma length_with_tail [simp]: "length (with_tail mm us) = length us + mm"
  by (simp add: with_tail_def)

lemma path_state_0 [simp]: "path_state mm us 0 = 0"
  by (simp add: path_state_def state_after_def)

lemma path_state_Suc:
  "t < length us + mm \<Longrightarrow> path_state mm us (Suc t) = next_state mm (with_tail mm us ! t) (path_state mm us t)"
  by (simp add: path_state_def take_Suc_conv_app_nth state_after_snoc)

lemma with_tail_bits: "\<forall>u \<in> set us. u < 2 \<Longrightarrow> t < length us + mm \<Longrightarrow> with_tail mm us ! t < 2"
  by (simp add: with_tail_def nth_append)

lemma path_state_bound: "\<forall>u \<in> set us. u < 2 \<Longrightarrow> path_state mm us t < 2 ^ mm"
  unfolding path_state_def using set_take_subset[of t "with_tail mm us"]
  by (intro state_after_bound) (auto simp: with_tail_def)

lemma path_state_end:
  assumes "\<forall>u \<in> set us. u < 2"
  shows "path_state mm us (length us + mm) = 0"
proof -
  have "state_after mm (us @ replicate k 0) = state_after mm us div 2 ^ k" for k
  proof (induction k)
    case (Suc k)
    have "us @ replicate (Suc k) 0 = (us @ replicate k 0) @ [0]" by (simp add: replicate_append_same)
    then have "state_after mm (us @ replicate (Suc k) 0) = state_after mm us div 2 ^ k div 2"
      using Suc by (simp only: state_after_snoc) (simp add: next_state_def drop_bit_eq_div)
    then show ?case by (simp add: div_mult2_eq[symmetric] mult.commute)
  qed simp
  then show ?thesis using state_after_bound[OF assms, of mm] by (simp add: path_state_def with_tail_def)
qed

context metrics
begin

lemma trellis_along:
  fixes dec :: "'f viterbi"
  assumes dec: "decoder_ready behind g mm (length us) dec" "leads behind mm 0 dec" and g: "bit (g ! 0) mm" and us: "\<forall>u \<in> set us. u < 2"
    and input: "2 * (length us + mm) \<le> length input + 1"
      "\<forall>t < length us + mm. symbol_fits behind gain g mm (with_tail mm us ! t) (path_state mm us t) (input ! (2 * t))"
    and "k \<le> length us + mm"
  shows "\<exists>dec'. foldM (trellis_step input) [0..<k] dec = Some dec' \<and> decoder_ready behind g mm (length us) dec'
    \<and> leads behind mm (path_state mm us k) dec'
    \<and> (\<forall>t < k. d_prev_state dec' ! (t * 2 ^ mm + path_state mm us (Suc t)) = path_state mm us t
        \<and> d_prev_bit dec' ! (t * 2 ^ mm + path_state mm us (Suc t)) = with_tail mm us ! t)"
  using assms(7)
proof (induction k)
  case 0
  then show ?case using dec by simp
next
  case (Suc k)
  then obtain dec' where dec': "foldM (trellis_step input) [0..<k] dec = Some dec'" "decoder_ready behind g mm (length us) dec'"
    "leads behind mm (path_state mm us k) dec'"
    "\<forall>t < k. d_prev_state dec' ! (t * 2 ^ mm + path_state mm us (Suc t)) = path_state mm us t
        \<and> d_prev_bit dec' ! (t * 2 ^ mm + path_state mm us (Suc t)) = with_tail mm us ! t" by auto
  have k: "k < length us + mm" "2 * k < length input" using Suc.prems input(1) by simp_all
  obtain dec'' where d: "trellis_step input k dec' = Some dec''" "decoder_ready behind g mm (length us) dec''"
    "leads behind mm (path_state mm us (Suc k)) dec''"
    "d_prev_state dec'' ! (k * 2 ^ mm + path_state mm us (Suc k)) = path_state mm us k"
    "d_prev_bit dec'' ! (k * 2 ^ mm + path_state mm us (Suc k)) = with_tail mm us ! k"
    "\<forall>i < k * 2 ^ mm. d_prev_state dec'' ! i = d_prev_state dec' ! i \<and> d_prev_bit dec'' ! i = d_prev_bit dec' ! i"
    unfolding path_state_Suc[OF k(1)]
    by (rule trellis_step_along[OF dec'(2,3) path_state_bound[OF us] with_tail_bits[OF us k(1)] g k(1,2)])
      (use input(2) k(1) in blast)
  have "d_prev_state dec'' ! (t * 2 ^ mm + path_state mm us (Suc t)) = path_state mm us t
      \<and> d_prev_bit dec'' ! (t * 2 ^ mm + path_state mm us (Suc t)) = with_tail mm us ! t" if "t < Suc k" for t
  proof (cases "t = k")
    case False
    then have "t < k" using that by simp
    have "t * 2 ^ mm + path_state mm us (Suc t) < Suc t * 2 ^ mm" using path_state_bound[OF us] by simp
    also have "\<dots> \<le> k * 2 ^ mm" using \<open>t < k\<close> by (intro mult_le_mono1) simp
    finally show ?thesis using d(6) dec'(4) \<open>t < k\<close> by simp
  qed (use d(4,5) in simp)
  then show ?case using dec'(1) d(1-3) by (simp add: foldM_append)
qed

end

lemma trace_back_states:
  assumes "\<forall>t < b. back (p (Suc t)) t = p t" "a \<le> b"
  shows "foldl back (p b) (rev [a..<b]) = p a"
  using assms
proof (induction b)
  case (Suc b)
  then show ?case by (cases "a = Suc b") simp_all
qed simp

lemma trace_back_bits:
  assumes "\<forall>t < k. back (p (Suc t)) t = p t \<and> bits (p (Suc t)) t = us ! t" "k \<le> length outs" "k \<le> length us"
  shows "fst (foldl (\<lambda>(output, state) t. (output[t := bits state t], back state t)) (outs, p k) (rev [0..<k]))
    = take k us @ drop k outs"
  using assms
proof (induction k arbitrary: outs)
  case (Suc k)
  then have "fst (foldl (\<lambda>(output, state) t. (output[t := bits state t], back state t)) (outs[k := us ! k], p k) (rev [0..<k]))
      = take k us @ drop k (outs[k := us ! k])" by (intro Suc.IH) simp_all
  moreover have "take k us @ drop k (outs[k := us ! k]) = take (Suc k) us @ drop (Suc k) outs"
    using Suc.prems by (simp add: take_Suc_conv_app_nth drop_update_swap Cons_nth_drop_Suc[symmetric])
  ultimately show ?case using Suc.prems by simp
qed simp

end
