(* ===== verification/Viterbi_Frames.thy ===== *)
theory Viterbi_Frames
  imports Viterbi_Path
begin

text \<open>
  Decoding a frame: the bits come back when the first symbol of each pair has the right sign and, in the
  arithmetic of \<open>float\<close>, an amplitude in a range where it is not lost in a sum, whatever the second symbols
  are; and the decoder is again as it was before the frame.
\<close>

text \<open>Between frames state zero leads by the metric zero that \<open>decode\<close> starts with.\<close>

definition decoder_settled :: "('f \<Rightarrow> bool) \<Rightarrow> nat list \<Rightarrow> nat \<Rightarrow> nat \<Rightarrow> 'f::{zero,uminus} viterbi \<Rightarrow> bool" where
  "decoder_settled behind g mm n dec \<longleftrightarrow> decoder_ready behind g mm n dec
     \<and> (\<forall>s < 2 ^ mm. s \<noteq> 0 \<longrightarrow> behind (d_prev_section dec ! s))"

abbreviation settled_decoder :: "nat list \<Rightarrow> nat \<Rightarrow> nat \<Rightarrow> 'f::linordered_ab_group_add viterbi \<Rightarrow> bool" where
  "settled_decoder \<equiv> decoder_settled (\<lambda>y. y < 0)"

lemma made_settled:
  assumes "behind (- maxlog)" "2 \<le> length g" "Viterbi_Decoder maxlog (Suc mm) 2 n g = Some dec"
  shows "decoder_settled behind g mm n dec"
  using assms(3)[symmetric] assms(1,2) by (simp add: decoder_settled_def decoder_ready_def Viterbi_Decoder_def)

lemma constructor_settled:
  fixes maxlog :: "'f::linordered_ab_group_add"
  assumes "0 < maxlog" "2 \<le> length g" "Viterbi_Decoder maxlog (Suc mm) 2 n g = Some dec"
  shows "settled_decoder g mm n dec"
  by (rule made_settled[OF _ assms(2,3)]) (use assms(1) in simp)

lemma settled_start: "decoder_settled behind g mm n dec
    \<Longrightarrow> decoder_ready behind g mm n (dec\<lparr> d_prev_section := (d_prev_section dec)[0 := 0] \<rparr>)
      \<and> leads behind mm 0 (dec\<lparr> d_prev_section := (d_prev_section dec)[0 := 0] \<rparr>)"
  by (simp add: decoder_settled_def decoder_ready_def leads_def)

text \<open>The symbols sent for a frame.\<close>

definition frame_fits :: "('f \<Rightarrow> bool) \<Rightarrow> ('f \<Rightarrow> bool) \<Rightarrow> nat list \<Rightarrow> nat \<Rightarrow> nat list \<Rightarrow> 'f::{zero,ord} list \<Rightarrow> bool" where
  "frame_fits behind gain g mm us input \<longleftrightarrow>
     (\<forall>t < length us + mm. symbol_fits behind gain g mm (with_tail mm us ! t) (path_state mm us t) (input ! (2 * t)))"

context metrics
begin

lemma frame_decoded:
  fixes dec :: "'f viterbi"
  assumes dec: "decoder_settled behind g mm (length us) dec" and g: "bit (g ! 0) mm" and us: "\<forall>u \<in> set us. u < 2"
    and input: "2 * (length us + mm) \<le> length input + 1" "frame_fits behind gain g mm us input" and outs: "length us \<le> length outs"
  shows "\<exists>dec'. viterbi_decode outs input dec = Some (us @ drop (length us) outs, dec') \<and> decoder_settled behind g mm (length us) dec'"
proof -
  let ?n = "length us" and ?p = "path_state mm us" and ?S = "2 ^ mm :: nat"
  obtain dec' where d: "foldM (trellis_step input) [0..<?n + mm] (dec\<lparr> d_prev_section := (d_prev_section dec)[0 := 0] \<rparr>) = Some dec'"
    "decoder_ready behind g mm ?n dec'" "leads behind mm (?p (?n + mm)) dec'"
    "\<forall>t < ?n + mm. d_prev_state dec' ! (t * ?S + ?p (Suc t)) = ?p t \<and> d_prev_bit dec' ! (t * ?S + ?p (Suc t)) = with_tail mm us ! t"
    using trellis_along[OF conjunct1[OF settled_start[OF dec]] conjunct2[OF settled_start[OF dec]] g us input(1)
        input(2)[unfolded frame_fits_def] order_refl] by blast
  note r = d(2)[unfolded decoder_ready_def]
  define pred_state where "pred_state = (\<lambda>state t. d_prev_state dec' ! (t * ?S + state))"
  have "foldl pred_state (?p (?n + mm)) (rev [?n..<?n + mm]) = ?p ?n"
    using d(4) by (intro trace_back_states) (simp_all add: pred_state_def)
  then have start: "foldl pred_state 0 (rev [?n..<?n + mm]) = ?p ?n" by (simp only: path_state_end[OF us])
  have "fst (foldl (\<lambda>(output, state) t. (output[t := d_prev_bit dec' ! (t * ?S + state)], pred_state state t)) (outs, ?p ?n) (rev [0..<?n]))
      = take ?n us @ drop ?n outs"
    using d(4) outs by (intro trace_back_bits) (simp_all add: pred_state_def with_tail_def nth_append)
  then have "trace_back dec' outs = us @ drop ?n outs"
    using r start by (simp add: trace_back_def Let_def pred_state_def)
  moreover have "decoder_settled behind g mm ?n dec'"
    using d(2,3) by (simp add: decoder_settled_def leads_def path_state_end[OF us])
  moreover have "d_LL dec = ?n" "d_mm dec = mm" using dec by (simp_all add: decoder_settled_def decoder_ready_def)
  ultimately show ?thesis using d(1) outs by (simp add: viterbi_decode_def)
qed

end

section \<open>Frames in sequence\<close>

text \<open>The symbols of a frame before the interleaver, true for a positive one.\<close>

definition coded_symbols :: "nat list \<Rightarrow> nat \<Rightarrow> nat list \<Rightarrow> bool list" where
  "coded_symbols g mm us = concat (map (\<lambda>t. case nsc_enc_bit g (Suc mm) 2 (with_tail mm us ! t) (path_state mm us t) of
     (out, _) \<Rightarrow> [bit out 1, \<not> bit out 0]) [0..<length us + mm])"

lemma nth_concat_pairs: "k < 2 * n \<Longrightarrow> concat (map (\<lambda>t. [p t, q t]) [0..<n]) ! k = (if even k then p (k div 2) else q (k div 2))"
proof (induction n)
  case (Suc n)
  have len: "length (concat (map (\<lambda>t. [p t, q t]) [0..<n])) = 2 * n" by (induction n) simp_all
  show ?case
  proof (cases "k < 2 * n")
    case False
    then have "k = 2 * n \<or> k = 2 * n + 1" using Suc.prems by auto
    then show ?thesis using len by (auto simp: nth_append)
  qed (use Suc len in \<open>simp add: nth_append\<close>)
qed simp

lemma coded_symbols_nth:
  "k < length us + mm \<Longrightarrow> coded_symbols g mm us ! (2 * k)
    \<longleftrightarrow> first_symbol g mm (with_tail mm us ! k) (path_state mm us k) = 1"
  unfolding coded_symbols_def case_prod_beta by (subst nth_concat_pairs) (simp_all add: nsc_enc_bit_two(2)[unfolded One_nat_def])

text \<open>Soft symbols that fit at the first place of each pair.\<close>

definition symbols_right :: "('f \<Rightarrow> bool) \<Rightarrow> ('f \<Rightarrow> bool) \<Rightarrow> bool list \<Rightarrow> 'f::{zero,ord} list \<Rightarrow> bool" where
  "symbols_right behind gain sent input \<longleftrightarrow> length input = length sent
     \<and> (\<forall>k < length sent. even k \<longrightarrow> (if sent ! k then 0 < input ! k \<and> gain (input ! k) else behind (input ! k)))"

fun decode_all :: "nat \<Rightarrow> 'f::{zero,plus,minus,uminus,ord} list list \<Rightarrow> 'f viterbi \<Rightarrow> nat list list option" where
  "decode_all n [] dec = Some []"
| "decode_all n (input # inputs) dec =
    do { (out, dec) \<leftarrow> viterbi_decode (replicate n 0) input dec; outs \<leftarrow> decode_all n inputs dec; Some (out # outs) }"

lemma length_coded_symbols: "length (coded_symbols g mm us) = 2 * (length us + mm)"
proof -
  have "length (concat (map (\<lambda>t. [p t, q t]) [0..<k])) = 2 * k" for p q :: "nat \<Rightarrow> bool" and k by (induction k) simp_all
  then show ?thesis by (simp add: coded_symbols_def case_prod_beta)
qed

lemma symbols_right_fits: "symbols_right behind gain (coded_symbols g mm us) input \<Longrightarrow> frame_fits behind gain g mm us input"
  unfolding frame_fits_def symbols_right_def symbol_fits_def length_coded_symbols
  by (metis coded_symbols_nth even_mult_iff even_numeral mult_less_cancel1 zero_less_numeral)

context metrics
begin

lemma settled_frames_decoded:
  fixes dec :: "'f viterbi"
  assumes "decoder_settled behind g mm n dec" "bit (g ! 0) mm"
    and "\<forall>(us, input) \<in> set frames. length us = n \<and> (\<forall>u \<in> set us. u < 2) \<and> symbols_right behind gain (coded_symbols g mm us) input"
  shows "decode_all n (map snd frames) dec = Some (map fst frames)"
  using assms(1,3)
proof (induction frames arbitrary: dec)
  case (Cons f frames)
  obtain us input where f: "f = (us, input)" by (cases f)
  have u: "length us = n" "\<forall>u \<in> set us. u < 2" "symbols_right behind gain (coded_symbols g mm us) input" using Cons.prems(2) f by simp_all
  have "2 * (length us + mm) \<le> length input + 1" using u(3) by (simp add: symbols_right_def length_coded_symbols)
  then obtain dec' where "viterbi_decode (replicate n 0) input dec = Some (us, dec')" "decoder_settled behind g mm n dec'"
    using frame_decoded[of g mm us dec input "replicate n 0"] Cons.prems(1) assms(2) u symbols_right_fits[OF u(3)] by auto
  then show ?case using Cons.IH[of dec'] Cons.prems(2) f by simp
qed simp

end

lemma pairs_mono: "\<forall>(a, b) \<in> S. P a b \<Longrightarrow> (\<And>a b. P a b \<Longrightarrow> Q a b) \<Longrightarrow> \<forall>(a, b) \<in> S. Q a b"
  by auto

text \<open>With exact arithmetic the signs are enough.\<close>

definition signs_right :: "bool list \<Rightarrow> 'f::{zero,ord} list \<Rightarrow> bool" where
  "signs_right sent input \<longleftrightarrow> length input = length sent
     \<and> (\<forall>k < length sent. even k \<longrightarrow> (if sent ! k then 0 < input ! k else input ! k < 0))"

lemma exact_frames_decoded:
  fixes maxlog :: "'f::linordered_ab_group_add"
  assumes "Viterbi_Decoder maxlog (Suc mm) 2 n g = Some dec" "0 < maxlog" "2 \<le> length g" "bit (g ! 0) mm"
    and "\<forall>(us, input) \<in> set frames. length us = n \<and> (\<forall>u \<in> set us. u < 2) \<and> signs_right (coded_symbols g mm us) input"
  shows "decode_all n (map snd frames) dec = Some (map fst frames)"
proof (rule exact.settled_frames_decoded[OF constructor_settled[OF assms(2,3,1)] assms(4)])
  have r: "symbols_right (\<lambda>y. y < 0) (\<lambda>m. 0 \<le> m) sent input" if "signs_right sent input" for sent and input :: "'f list"
    using that unfolding signs_right_def symbols_right_def by (metis less_imp_le)
  show "\<forall>(us, input) \<in> set frames. length us = n \<and> (\<forall>u \<in> set us. u < 2)
      \<and> symbols_right (\<lambda>y. y < 0) (\<lambda>m. 0 \<le> m) (coded_symbols g mm us) input"
    by (rule pairs_mono[OF assms(5)]) (simp add: r)
qed

text \<open>Symbols of type \<open>float\<close> with the right sign and an amplitude of at least \<open>2\<^sup>k\<close> units at the first place of
  each pair, the positive ones not above \<open>2\<^sup>k\<^sup>+\<^sup>2\<^sup>4\<close>.\<close>

definition heard :: "nat \<Rightarrow> bool list \<Rightarrow> binary32 list \<Rightarrow> bool" where
  "heard k sent input \<longleftrightarrow> length input = length sent
     \<and> (\<forall>j < length sent. even j \<longrightarrow>
          (if sent ! j then units (2 ^ k) \<le> input ! j \<and> input ! j \<le> units (2 ^ (k + 24)) else input ! j \<le> - units (2 ^ k)))"

lemma heard_float:
  "units (2 ^ k) \<le> x \<Longrightarrow> x \<le> units (2 ^ (k + 24)) \<Longrightarrow> 0 < x \<and> float_gain k x"
  "x \<le> - units (2 ^ k) \<Longrightarrow> float_behind k x"
proof -
  have u: "rnd (2 ^ j) = 2 ^ j" for j by (rule rnd_number[OF float_number_power(1)])
  have pos: "(0 :: int) < 2 ^ k" by simp
  show "units (2 ^ k) \<le> x \<Longrightarrow> x \<le> units (2 ^ (k + 24)) \<Longrightarrow> 0 < x \<and> float_gain k x"
  proof (transfer fixing: k)
    fix x assume "rnd (2 ^ k) \<le> x" "x \<le> rnd (2 ^ (k + 24))"
    then show "0 < x \<and> (x = 0 \<or> 2 ^ k \<le> x \<and> x \<le> 2 ^ (k + 24))" unfolding u using pos by linarith
  qed
  show "x \<le> - units (2 ^ k) \<Longrightarrow> float_behind k x"
  proof (transfer fixing: k)
    fix x assume "x \<le> - rnd (2 ^ k)"
    then show "x \<le> - (2 ^ k)" unfolding u .
  qed
qed

lemma heard_units:
  assumes "2 ^ k \<le> n" "n \<le> 2 ^ (k + 24)"
  shows "0 < units n" "float_gain k (units n)" "float_behind k (- units n)"
proof -
  have mono: "units a \<le> units b" if "a \<le> b" for a b using that by transfer (rule rnd_mono)
  show "0 < units n" "float_gain k (units n)" using heard_float(1)[OF mono mono, OF assms] by blast+
  have "- units n \<le> - units (2 ^ k)" using mono[OF assms(1)] by transfer simp
  then show "float_behind k (- units n)" by (rule heard_float(2))
qed

lemma heard_right:
  assumes "heard k sent input"
  shows "symbols_right (float_behind k) (float_gain k) sent input"
  unfolding symbols_right_def
proof (intro conjI allI impI)
  fix j assume "j < length sent" "even j"
  then have "if sent ! j then units (2 ^ k) \<le> input ! j \<and> input ! j \<le> units (2 ^ (k + 24)) else input ! j \<le> - units (2 ^ k)"
    using assms unfolding heard_def by blast
  then show "if sent ! j then 0 < input ! j \<and> float_gain k (input ! j) else float_behind k (input ! j)"
    using heard_float[where k = k and x = "input ! j"] by (cases "sent ! j") simp_all
qed (use assms in \<open>simp add: heard_def\<close>)

text \<open>C14: The Viterbi decoder inverts the convolutional encoder, with the additions of its metrics rounded as
  those of \<open>float\<close> are: a decoder made for a constraint length, a frame length and two polynomials, the first
  of which has its highest coefficient, returns the bits of every frame of a sequence, when in the symbols it
  is given the first one of each pair has the sign of the symbol that the encoder sent and an amplitude from
  some power of two \<open>2\<^sup>k\<close> on (in units of \<open>2\<^sup>-\<^sup>1\<^sup>4\<^sup>9\<close>), the positive ones up to \<open>2\<^sup>2\<^sup>4\<close> times that, and the constant
  \<open>d_MAXLOG\<close> is not smaller. The second symbols do not matter. Outside that range a sum can absorb a
  symbol, as \<open>sum_absorbed\<close> shows.
\<close>
theorem frames_decoded:
  fixes maxlog :: binary32
  assumes "Viterbi_Decoder maxlog (Suc mm) 2 n g = Some dec" "units (2 ^ k) \<le> maxlog" "2 \<le> length g" "bit (g ! 0) mm"
    and "\<forall>(us, input) \<in> set frames. length us = n \<and> (\<forall>u \<in> set us. u < 2) \<and> heard k (coded_symbols g mm us) input"
  shows "decode_all n (map snd frames) dec = Some (map fst frames)"
proof (rule rounded.settled_frames_decoded[OF made_settled[OF _ assms(3,1)] assms(4)])
  show "float_behind k (- maxlog)"
    using assms(2) by (transfer fixing: k) (simp add: rnd_number[OF float_number_power(1)])
  show "\<forall>(us, input) \<in> set frames. length us = n \<and> (\<forall>u \<in> set us. u < 2)
      \<and> symbols_right (float_behind k) (float_gain k) (coded_symbols g mm us) input"
    by (rule pairs_mono[OF assms(5)]) (simp add: heard_right)
qed

text \<open>The code with constraint length 3 and polynomials 111 and 101.\<close>

lemma sample_code:
  "first_symbol [7, 5] 2 0 0 = 0" "first_symbol [7, 5] 2 1 0 = 1" "first_symbol [7, 5] 2 0 2 = 1" "first_symbol [7, 5] 2 1 1 = 0"
  "first_symbol [7, 5] 2 0 1 = 1" "next_state 2 0 0 = 0" "next_state 2 1 0 = 2" "next_state 2 0 2 = 1" "next_state 2 1 1 = 2"
  "next_state 2 0 1 = 0"
  by (simp_all add: first_symbol_def parity_counter_def next_state_def numeral_3_eq_3[symmetric] parity_loop_eq push_bit_eq_mult drop_bit_eq_div
      bit_iff_odd lessThan_nat_numeral lessThan_Suc)

lemma heardI:
  assumes "length input = 2 * (length us + mm)" "\<forall>x \<in> set input. \<bar>x\<bar> \<le> 2 ^ 24"
    and "\<forall>t < length us + mm. if first_symbol g mm (with_tail mm us ! t) (path_state mm us t) = 1
      then 0 < input ! (2 * t) else input ! (2 * t) < 0"
  shows "heard 0 (coded_symbols g mm us) (map units input)"
  unfolding heard_def length_coded_symbols
proof (intro conjI allI impI)
  fix j assume "j < 2 * (length us + mm)" "even j"
  then obtain t where t: "j = 2 * t" "t < length us + mm" by auto
  then have b: "\<bar>input ! (2 * t)\<bar> \<le> 2 ^ 24" using assms(1,2) by simp
  have mono: "units a \<le> units b" if "a \<le> b" for a b using that by transfer (rule rnd_mono)
  have minus: "- units 1 = units (- 1)" by transfer (simp add: rnd_minus)
  show "if coded_symbols g mm us ! j then units (2 ^ 0) \<le> map units input ! j \<and> map units input ! j \<le> units (2 ^ (0 + 24))
      else map units input ! j \<le> - units (2 ^ 0)"
    using assms(3) t b mono[of 1 "input ! (2 * t)"] mono[of "input ! (2 * t)" "2 ^ 24"] mono[of "input ! (2 * t)" "- 1"] assms(1) minus
    by (auto simp: coded_symbols_nth)
qed (use assms(1) in simp)

theorem frames_decoded_witness:
  "\<exists>dec. Viterbi_Decoder (units 1000) 3 2 3 [7, 5] = Some dec
    \<and> decode_all 3 (map (map units) [[5, 0, 2, - 1, - 1, 9, 3, 3, 8, - 7], [- 1, 4, - 2, 4, - 3, 4, - 4, 4, - 5, 4]]) dec
      = Some [[1, 0, 1], [0, 0, 0]]"
proof -
  let ?frames = "[([1, 0, 1], map units [5, 0, 2, - 1, - 1, 9, 3, 3, 8, - 7]), ([0, 0, 0], map units [- 1, 4, - 2, 4, - 3, 4, - 4, 4, - 5, 4])]"
  obtain dec where dec: "Viterbi_Decoder (units 1000) (Suc 2) 2 3 [7, 5] = Some dec" by (simp add: Viterbi_Decoder_def)
  have tail: "with_tail 2 [a, b, c] = [a, b, c, 0, 0]" for a b c by (simp add: with_tail_def numeral_2_eq_2)
  have path: "path_state 2 [a, b, c] 1 = next_state 2 a 0" "path_state 2 [a, b, c] 2 = next_state 2 b (next_state 2 a 0)"
    "path_state 2 [a, b, c] 3 = next_state 2 c (next_state 2 b (next_state 2 a 0))"
    "path_state 2 [a, b, c] 4 = next_state 2 0 (next_state 2 c (next_state 2 b (next_state 2 a 0)))" for a b c
    by (simp_all add: path_state_def tail state_after_def)
  have five: "(\<forall>t < 5. P t) \<longleftrightarrow> P 0 \<and> P 1 \<and> P 2 \<and> P 3 \<and> P (4 :: nat)" for P
    by (auto simp: less_Suc_eq numeral_eq_Suc)
  have right: "heard 0 (coded_symbols [7, 5] 2 [a, b, c]) (map units input)"
    if "length input = 10" "\<forall>x \<in> set input. \<bar>x\<bar> \<le> 2 ^ 24"
      "\<forall>t < 5. if first_symbol [7, 5] 2 (with_tail 2 [a, b, c] ! t) (path_state 2 [a, b, c] t) = 1
        then 0 < input ! (2 * t) else input ! (2 * t) < 0"
    for a b c and input :: "int list"
    using that by (intro heardI) (simp_all add: eval_nat_numeral)
  note s = tail path path[unfolded One_nat_def] sample_code sample_code[unfolded One_nat_def]
  have "heard 0 (coded_symbols [7, 5] 2 [1, 0, 1]) (map units [5, 0, 2, - 1, - 1, 9, 3, 3, 8, - 7])"
    by (rule right) (simp, simp, simp only: five, simp add: s)
  moreover have "heard 0 (coded_symbols [7, 5] 2 [0, 0, 0]) (map units [- 1, 4, - 2, 4, - 3, 4, - 4, 4, - 5, 4])"
    by (rule right) (simp, simp, simp only: five, simp add: s)
  ultimately have f: "\<forall>(us, input) \<in> set ?frames. length us = 3 \<and> (\<forall>u \<in> set us. u < 2) \<and> heard 0 (coded_symbols [7, 5] 2 us) input"
    by simp
  have "units (2 ^ 0) \<le> units 1000" by transfer (simp add: rnd_mono)
  from frames_decoded[OF dec this _ _ f] show ?thesis using dec by (simp add: bit_iff_odd)
qed

section \<open>Symbols that do not matter\<close>

lemma vread_agree:
  assumes "length xs = length ys" "\<forall>i. a \<le> i \<and> i < a + n \<and> i < length xs \<longrightarrow> xs ! i = ys ! i"
  shows "vread xs a n = vread ys a n"
  using assms by (auto simp: vread_eq list_eq_iff_nth_eq)

lemma trellis_step_parts:
  assumes "trellis_step input t dec = Some dec'"
  shows "d_nn dec' = d_nn dec"
proof -
  have branch: "d_nn (try_branch t s b d) = d_nn d" for s b and d :: "'a viterbi"
    by (simp add: try_branch_def Let_def)
  have "d_nn (foldl (\<lambda>dec state. try_branch t state 1 (try_branch t state 0 dec)) d xs) = d_nn d" for xs and d :: "'a viterbi"
    by (induction xs arbitrary: d) (simp_all add: branch)
  then show ?thesis
    using assms
    by (auto simp: trellis_step_def normalize_def Let_def try_branches_def branch_metrics_def receive_symbols_def split: if_splits)
qed

lemma receive_symbols_agree:
  assumes "length input = length input'" "\<forall>i < length input. Suc i mod d_nn dec \<noteq> 0 \<longrightarrow> input ! i = input' ! i"
  shows "receive_symbols input t dec = receive_symbols input' t dec"
proof -
  have "input ! i = input' ! i"
    if "d_nn dec \<noteq> 0" "d_nn dec * t \<le> i" "i < d_nn dec * t + (d_nn dec - 1)" "i < length input" for i
  proof -
    have "Suc i = Suc (i - d_nn dec * t) + d_nn dec * t" using that(2) by simp
    then have "Suc i mod d_nn dec = Suc (i - d_nn dec * t) mod d_nn dec" by (metis mod_mult_self2)
    also have "\<dots> = Suc (i - d_nn dec * t)" using that by simp
    finally show ?thesis using assms(2) that(4) by simp
  qed
  then have "d_nn dec \<noteq> 0 \<Longrightarrow> vread input (d_nn dec * t) (d_nn dec - 1) = vread input' (d_nn dec * t) (d_nn dec - 1)"
    using assms(1) by (intro vread_agree) auto
  then show ?thesis by (auto simp: receive_symbols_def)
qed

text \<open>C32: The decoder does not use all symbols: of each group of \<open>nn\<close> symbols it never sees the last one, so that
  with a code of rate one half its decisions and its state afterwards are the same whatever all the symbols
  of the second polynomial are. For \<open>decode\<close> copies a group up to, but not including, its last symbol.
\<close>
theorem last_symbols_ignored:
  fixes dec :: "'f::{zero,plus,minus,uminus,ord} viterbi"
  assumes "length input = length input'" "\<forall>i < length input. Suc i mod d_nn dec \<noteq> 0 \<longrightarrow> input ! i = input' ! i"
  shows "viterbi_decode output input dec = viterbi_decode output input' dec"
proof -
  have "foldM (trellis_step input) xs d = foldM (trellis_step input') xs d" if "d_nn d = d_nn dec" for xs and d :: "'f viterbi"
    using that
  proof (induction xs arbitrary: d)
    case (Cons t xs)
    have "trellis_step input t d = trellis_step input' t d"
      using receive_symbols_agree[of input input' d t] assms Cons.prems by (simp add: trellis_step_def)
    moreover have "foldM (trellis_step input) xs d' = foldM (trellis_step input') xs d'"
      if "trellis_step input' t d = Some d'" for d'
      using Cons.IH[of d'] trellis_step_parts[OF that] Cons.prems by simp
    ultimately show ?case by (cases "trellis_step input' t d") simp_all
  qed simp
  then show ?thesis by (simp add: viterbi_decode_def)
qed

theorem last_symbols_ignored_witness:
  "\<exists>dec. Viterbi_Decoder (1000 :: int) 3 2 3 [7, 5] = Some dec
    \<and> viterbi_decode [0, 0, 0] [5, 3, - 2, 4, - 1, 9, 3, 3, 8, - 7] dec = viterbi_decode [0, 0, 0] [5, - 3, - 2, - 4, - 1, - 9, 3, 0, 8, 7] dec"
proof -
  obtain dec where dec: "Viterbi_Decoder (1000 :: int) 3 2 3 [7, 5] = Some dec" by (simp add: Viterbi_Decoder_def)
  then have nn: "d_nn dec = 2" by (auto simp: Viterbi_Decoder_def)
  let ?a = "[5, 3, - 2, 4, - 1, 9, 3, 3, 8, - 7 :: int]" and ?b = "[5, - 3, - 2, - 4, - 1, - 9, 3, 0, 8, 7 :: int]"
  have "\<forall>t < 5. ?a ! (2 * t) = ?b ! (2 * t)" by (simp add: eval_nat_numeral All_less_Suc)
  moreover have "\<exists>t < 5. i = 2 * t" if "i < length ?a" "Suc i mod 2 \<noteq> 0" for i
  proof -
    have "even i" using that(2) by (simp add: mod_2_eq_odd split: if_splits)
    moreover have "i < 10" using that(1) by simp
    ultimately show ?thesis by (auto elim!: evenE)
  qed
  ultimately have "\<forall>i < length ?a. Suc i mod d_nn dec \<noteq> 0 \<longrightarrow> ?a ! i = ?b ! i" unfolding nn by metis
  from last_symbols_ignored[OF _ this, of "[0, 0, 0]"] dec show ?thesis by simp
qed

end
