(* ===== verification/Cnav_Telemetry.thy ===== *)
theory Cnav_Telemetry
  imports Viterbi Cnav_Message
begin

text \<open>
  The telemetry decoder of a Galileo E6 channel: \<open>galileo_telemetry_decoder_gs.cc\<close> with frame type 3
  (C/NAV). One call of \<open>general_work\<close> takes one symbol of the tracking block. Messages to other
  blocks are appended to lists, the last one at the end.

  Symbols have the type of the metrics of the Viterbi decoder. Counters of symbols are natural numbers; their
  difference is cut to \<open>int32_t\<close> where the code does so. Parameters stand for what the code takes from
  elsewhere: \<open>push_back\<close> for \<open>boost::circular_buffer\<close> (a function of the capacity, the contents
  and the new element), \<open>crc\<close> for \<open>boost::crc_optimal\<close> and \<open>elapsed\<close> for a time in
  milliseconds computed in \<open>double\<close> from a number of samples and a rate. Logging, dump files and the
  monitor of navigation data are left out.
\<close>

section \<open>Data\<close>

record gnss_time =
  gt_week :: int
  gt_tow_ms :: int

text \<open>A symbol of \<open>Gnss_Synchro\<close> with the tags of the stream at it; \<^const>\<open>None\<close> is a tag of
  another type.\<close>

record 'f tracked_symbol =
  Prompt_I :: 'f
  Tracking_sample_counter :: u64
  sampling_rate :: int
  Flag_valid_word :: bool
  tags_vec :: "gnss_time option list"

record timed_symbol =
  TOW_at_current_symbol_ms :: u32
  sample_counter :: u64
  Flag_PLL_180_deg_phase_locked :: bool

datatype trk_message = Bad_telemetry | TOW_to_trk u32 u64

record 'f cnav_tlm =
  d_cnav :: cnav_decoder
  d_viterbi :: "'f viterbi"
  d_symbol_history :: "'f list"
  d_symbol_counter :: nat
  d_preamble_index :: nat
  d_last_valid_preamble :: nat
  d_received_sample_counter :: u64
  d_CRC_error_counter :: nat
  d_stat :: nat
  d_TOW_at_current_symbol_ms :: u32
  d_received_tow_ms :: u32
  d_current_timetag :: gnss_time
  d_valid_timetag :: bool
  d_sent_tlm_failed_msg :: bool
  d_flag_frame_sync :: bool
  d_flag_PLL_180_deg_phase_locked :: bool
  d_flag_preamble :: bool
  d_there_are_e6_channels :: bool
  d_tow_to_trk :: bool
  tlm_PRN :: u32
  telemetry_to_trk :: "trk_message list"
  TOW_from_TLM :: "(u32 \<times> u32 \<times> u64) list"

definition GALILEO_CNAV_PREAMBLE :: string where
  "GALILEO_CNAV_PREAMBLE = ''1011011101110000''"

definition d_preamble_samples :: "int list" where
  "d_preamble_samples = map (\<lambda>ch. if ch = CHR ''1'' then 1 else - 1) GALILEO_CNAV_PREAMBLE"

abbreviation (input) samples_per_preamble :: nat where "samples_per_preamble \<equiv> 16"
abbreviation (input) preamble_period_symbols :: nat where "preamble_period_symbols \<equiv> 1000"
abbreviation (input) required_symbols :: nat where "required_symbols \<equiv> 1016"
abbreviation (input) frame_length_symbols :: nat where "frame_length_symbols \<equiv> 984"
abbreviation (input) max_symbols_without_valid_frame :: nat where "max_symbols_without_valid_frame \<equiv> 60000"
abbreviation (input) PRN_code_period_ms :: nat where "PRN_code_period_ms \<equiv> 1"
abbreviation (input) CRC_ERROR_LIMIT :: nat where "CRC_ERROR_LIMIT \<equiv> 6"
abbreviation (input) no_tow :: u32 where "no_tow \<equiv> - 1"
abbreviation (input) week_ms :: nat where "week_ms \<equiv> 604800000"

definition make_cnav_tlm :: "'f::{zero,uminus} \<Rightarrow> bool \<Rightarrow> bool \<Rightarrow> u32 \<Rightarrow> 'f cnav_tlm option" where
  "make_cnav_tlm maxlog there_are_e6_channels tow_to_trk prn =
    map_option (\<lambda>vit. \<lparr> d_cnav = \<lparr> d_cnav_nav = cnav_message_blank, d_E6_TOW_set = False, d_TOW_at_Preamble_ms = 0,
        d_cnav_dummy_page = False, d_print_cnav_page = True, E6_HAS_from_TLM = [] \<rparr>,
      d_viterbi = vit, d_symbol_history = [], d_symbol_counter = 0, d_preamble_index = 0, d_last_valid_preamble = 0,
      d_received_sample_counter = 0, d_CRC_error_counter = 0, d_stat = 0, d_TOW_at_current_symbol_ms = 0,
      d_received_tow_ms = no_tow, d_current_timetag = \<lparr> gt_week = 0, gt_tow_ms = 0 \<rparr>, d_valid_timetag = False,
      d_sent_tlm_failed_msg = False, d_flag_frame_sync = False, d_flag_PLL_180_deg_phase_locked = False,
      d_flag_preamble = False, d_there_are_e6_channels = there_are_e6_channels, d_tow_to_trk = tow_to_trk, tlm_PRN = prn,
      telemetry_to_trk = [], TOW_from_TLM = [] \<rparr>)
    (Viterbi_Decoder maxlog 7 2 (frame_length_symbols div 2 - 6) [121, 91])"

section \<open>Pages\<close>

definition decode_CNAV_word :: "(u8 list \<Rightarrow> u32) \<Rightarrow> u64 \<Rightarrow> 'f::{zero,plus,minus,uminus,ord} list \<Rightarrow> nat \<Rightarrow> 'f cnav_tlm
    \<Rightarrow> 'f cnav_tlm option" where
  "decode_CNAV_word crc ts page_symbols page_length tlm =
    do { soft \<leftarrow> deinterleaver 8 123 page_symbols (replicate page_length 0);
         (page_bits, vit) \<leftarrow> viterbi_decode (replicate (page_length div 2) 0) (undo_not_gate soft) (d_viterbi tlm);
         dec \<leftarrow> decode_CNAV_bits crc ts (map int page_bits) (d_cnav tlm);
         Some (tlm\<lparr> d_viterbi := vit, d_cnav := dec \<rparr>) }"

section \<open>Messages\<close>

definition publish_tow :: "u32 \<Rightarrow> u64 \<Rightarrow> 'f cnav_tlm \<Rightarrow> 'f cnav_tlm" where
  "publish_tow tow sample tlm =
    (if d_there_are_e6_channels tlm then tlm\<lparr> TOW_from_TLM := TOW_from_TLM tlm @ [(tlm_PRN tlm, tow, sample)] \<rparr> else tlm)"

text \<open>A key that the map does not have is an exception, caught.\<close>

definition msg_handler_read_galileo_tow_map :: "(u32 \<rightharpoonup> u32 \<times> u64) \<Rightarrow> 'f cnav_tlm \<Rightarrow> 'f cnav_tlm" where
  "msg_handler_read_galileo_tow_map received_tow_map tlm =
    (case received_tow_map (tlm_PRN tlm) of None \<Rightarrow> tlm
     | Some (tow, sample) \<Rightarrow>
         if tow < of_nat week_ms then tlm\<lparr> d_received_tow_ms := tow, d_received_sample_counter := sample \<rparr> else tlm)"

definition tlm_set_satellite :: "u32 \<Rightarrow> 'f cnav_tlm \<Rightarrow> 'f cnav_tlm" where
  "tlm_set_satellite prn tlm =
    (let tlm = tlm\<lparr> tlm_PRN := prn, d_last_valid_preamble := d_symbol_counter tlm, d_sent_tlm_failed_msg := False,
       d_received_tow_ms := no_tow, d_cnav := (d_cnav tlm)\<lparr> d_E6_TOW_set := False \<rparr>, d_valid_timetag := False \<rparr>
     in publish_tow (d_received_tow_ms tlm) 0 tlm)"

definition tlm_reset :: "'f cnav_tlm \<Rightarrow> 'f cnav_tlm" where
  "tlm_reset tlm =
    (let tlm = tlm\<lparr> d_flag_frame_sync := False, d_TOW_at_current_symbol_ms := 0,
       d_cnav := (d_cnav tlm)\<lparr> d_TOW_at_Preamble_ms := 0, d_E6_TOW_set := False \<rparr>,
       d_last_valid_preamble := d_symbol_counter tlm, d_sent_tlm_failed_msg := False, d_stat := 0,
       d_received_tow_ms := no_tow, d_viterbi := viterbi_reset (d_viterbi tlm), d_valid_timetag := False \<rparr>
     in publish_tow (d_received_tow_ms tlm) 0 tlm)"

definition check_tlm_separation :: "'f cnav_tlm \<Rightarrow> 'f cnav_tlm" where
  "check_tlm_separation tlm =
    (if \<not> d_sent_tlm_failed_msg tlm \<and> d_symbol_counter tlm - d_last_valid_preamble tlm > max_symbols_without_valid_frame
     then tlm\<lparr> telemetry_to_trk := telemetry_to_trk tlm @ [Bad_telemetry], d_sent_tlm_failed_msg := True \<rparr>
     else tlm)"

section \<open>One symbol\<close>

definition update_timetag :: "gnss_time option list \<Rightarrow> 'f cnav_tlm \<Rightarrow> 'f cnav_tlm" where
  "update_timetag tags tlm =
    (if tags \<noteq> [] then foldl (\<lambda>tlm tag. case tag of None \<Rightarrow> tlm
       | Some time \<Rightarrow> tlm\<lparr> d_current_timetag := time, d_valid_timetag := True \<rparr>) tlm tags
     else if d_valid_timetag tlm then
       (let time = d_current_timetag tlm; tow = gt_tow_ms time + int PRN_code_period_ms
        in tlm\<lparr> d_current_timetag := (if tow \<ge> int week_ms
             then \<lparr> gt_week = gt_week time + 1, gt_tow_ms = tow - int week_ms \<rparr> else time\<lparr> gt_tow_ms := tow \<rparr>) \<rparr>)
     else tlm)"

definition receive_symbol :: "(nat \<Rightarrow> 'f list \<Rightarrow> 'f \<Rightarrow> 'f list) \<Rightarrow> 'f tracked_symbol \<Rightarrow> 'f cnav_tlm \<Rightarrow> 'f cnav_tlm" where
  "receive_symbol push_back cur tlm =
    (update_timetag (tags_vec cur) (tlm\<lparr>
       d_symbol_history := push_back (required_symbols + 1) (d_symbol_history tlm) (Prompt_I cur),
       d_symbol_counter := d_symbol_counter tlm + 1 \<rparr>))\<lparr> d_flag_preamble := False \<rparr>"

definition preamble_correlation :: "'f::{zero,ord} list \<Rightarrow> int" where
  "preamble_correlation history =
    foldl (\<lambda>corr_value i. if history ! i < 0 then corr_value - d_preamble_samples ! i else corr_value + d_preamble_samples ! i)
      0 [0..<samples_per_preamble]"

definition search_preamble :: "'f::{zero,ord} cnav_tlm \<Rightarrow> 'f cnav_tlm" where
  "search_preamble tlm =
    (if length (d_symbol_history tlm) > required_symbols
        \<and> \<bar>preamble_correlation (d_symbol_history tlm)\<bar> \<ge> int samples_per_preamble
     then tlm\<lparr> d_preamble_index := d_symbol_counter tlm, d_stat := 1 \<rparr> else tlm)"

definition confirm_preamble :: "'f::{zero,ord} cnav_tlm \<Rightarrow> 'f cnav_tlm" where
  "confirm_preamble tlm =
    (let corr_value = preamble_correlation (d_symbol_history tlm) in
     if length (d_symbol_history tlm) > required_symbols \<and> \<bar>corr_value\<bar> \<ge> int samples_per_preamble then
       (let preamble_diff = signed_take_bit 31 (int (d_symbol_counter tlm) - int (d_preamble_index tlm)) in
        if \<bar>preamble_diff - int preamble_period_symbols\<bar> = 0
        then tlm\<lparr> d_preamble_index := d_symbol_counter tlm, d_CRC_error_counter := 0,
          d_flag_PLL_180_deg_phase_locked := corr_value < 0, d_stat := 2 \<rparr>
        else if preamble_diff > int preamble_period_symbols then tlm\<lparr> d_stat := 0 \<rparr> else tlm)
     else tlm)"

definition page_checked :: "'f cnav_tlm \<Rightarrow> 'f cnav_tlm" where
  "page_checked tlm = tlm\<lparr> d_CRC_error_counter := 0, d_flag_preamble := True,
     d_last_valid_preamble := d_symbol_counter tlm, d_flag_frame_sync := True \<rparr>"

definition page_failed :: "'f cnav_tlm \<Rightarrow> 'f cnav_tlm" where
  "page_failed tlm =
    (let tlm = tlm\<lparr> d_CRC_error_counter := d_CRC_error_counter tlm + 1 \<rparr> in
     if d_CRC_error_counter tlm > CRC_ERROR_LIMIT
     then publish_tow no_tow 0 (tlm\<lparr> d_flag_frame_sync := False, d_stat := 0, d_TOW_at_current_symbol_ms := 0,
       d_cnav := (d_cnav tlm)\<lparr> d_TOW_at_Preamble_ms := 0, d_E6_TOW_set := False \<rparr>, d_valid_timetag := False \<rparr>)
     else tlm)"

text \<open>The checksum flags of the other two kinds of messages stay false in a channel of this frame type.\<close>

definition complete_page :: "(u8 list \<Rightarrow> u32) \<Rightarrow> 'f::{zero,plus,minus,uminus,ord} tracked_symbol \<Rightarrow> 'f cnav_tlm
    \<Rightarrow> 'f cnav_tlm option" where
  "complete_page crc cur tlm =
    (if d_symbol_counter tlm \<noteq> d_preamble_index tlm + preamble_period_symbols then Some tlm
     else
       do { symbols \<leftarrow> vread (d_symbol_history tlm) samples_per_preamble frame_length_symbols;
            let page_part_symbols = (if d_flag_PLL_180_deg_phase_locked tlm then map uminus symbols else symbols);
            tlm \<leftarrow> (if sampling_rate cur \<noteq> 0
              then decode_CNAV_word crc (Tracking_sample_counter cur div of_int (sampling_rate cur)) page_part_symbols
                frame_length_symbols tlm
              else Some tlm);
            let tlm = tlm\<lparr> d_preamble_index := d_symbol_counter tlm \<rparr>;
            Some (if get_flag_CRC_test (d_cnav_nav (d_cnav tlm)) then page_checked tlm else page_failed tlm) })"

definition frame_sync :: "(u8 list \<Rightarrow> u32) \<Rightarrow> 'f::{zero,plus,minus,uminus,ord} tracked_symbol \<Rightarrow> 'f cnav_tlm
    \<Rightarrow> 'f cnav_tlm option" where
  "frame_sync crc cur tlm =
    (if d_stat tlm = 0 then Some (search_preamble tlm)
     else if d_stat tlm = 1 then Some (confirm_preamble tlm)
     else if d_stat tlm = 2 then complete_page crc cur tlm
     else Some tlm)"

definition update_tow :: "(int \<Rightarrow> int \<Rightarrow> u32) \<Rightarrow> 'f tracked_symbol \<Rightarrow> 'f cnav_tlm \<Rightarrow> 'f cnav_tlm" where
  "update_tow elapsed cur tlm =
    (if d_flag_preamble tlm then
       if d_valid_timetag tlm then
         (let predicted_tow = of_int (1000 * (gt_tow_ms (d_current_timetag tlm) sdiv 1000))
          in tlm\<lparr> d_cnav := (d_cnav tlm)\<lparr> d_TOW_at_Preamble_ms := predicted_tow, d_E6_TOW_set := True \<rparr>,
            d_TOW_at_current_symbol_ms := predicted_tow + of_nat ((required_symbols + 1) * PRN_code_period_ms) \<rparr>)
       else if d_received_tow_ms tlm < of_nat week_ms then
         (let diff = sint (Tracking_sample_counter cur - d_received_sample_counter tlm);
              tow = d_received_tow_ms tlm + elapsed diff (sampling_rate cur) + of_nat PRN_code_period_ms
          in tlm\<lparr> d_TOW_at_current_symbol_ms := tow,
            d_cnav := (d_cnav tlm)\<lparr> d_TOW_at_Preamble_ms := tow div 1000 * 1000, d_E6_TOW_set := True \<rparr> \<rparr>)
       else tlm
     else if d_E6_TOW_set (d_cnav tlm)
       then tlm\<lparr> d_TOW_at_current_symbol_ms := d_TOW_at_current_symbol_ms tlm + of_nat PRN_code_period_ms \<rparr>
     else tlm)"

definition send_symbol :: "'f tracked_symbol \<Rightarrow> 'f cnav_tlm \<Rightarrow> timed_symbol option \<times> 'f cnav_tlm" where
  "send_symbol cur tlm =
    (if Flag_valid_word cur \<or> d_E6_TOW_set (d_cnav tlm) then
       (Some \<lparr> TOW_at_current_symbol_ms = d_TOW_at_current_symbol_ms tlm, sample_counter = Tracking_sample_counter cur,
          Flag_PLL_180_deg_phase_locked = d_flag_PLL_180_deg_phase_locked tlm \<rparr>,
        if d_tow_to_trk tlm
        then tlm\<lparr> telemetry_to_trk := telemetry_to_trk tlm @ [TOW_to_trk (d_TOW_at_current_symbol_ms tlm) (Tracking_sample_counter cur)] \<rparr>
        else tlm)
     else (None, tlm))"

definition general_work :: "(nat \<Rightarrow> 'f list \<Rightarrow> 'f \<Rightarrow> 'f list) \<Rightarrow> (u8 list \<Rightarrow> u32) \<Rightarrow> (int \<Rightarrow> int \<Rightarrow> u32)
    \<Rightarrow> 'f::{zero,plus,minus,uminus,ord} tracked_symbol \<Rightarrow> 'f cnav_tlm \<Rightarrow> (timed_symbol option \<times> 'f cnav_tlm) option" where
  "general_work push_back crc elapsed cur tlm =
    do { tlm \<leftarrow> frame_sync crc cur (check_tlm_separation (receive_symbol push_back cur tlm));
         Some (send_symbol cur (update_tow elapsed cur tlm)) }"

text \<open>The symbols of a channel, one after the other.\<close>

definition run_tlm :: "(nat \<Rightarrow> 'f list \<Rightarrow> 'f \<Rightarrow> 'f list) \<Rightarrow> (u8 list \<Rightarrow> u32) \<Rightarrow> (int \<Rightarrow> int \<Rightarrow> u32)
    \<Rightarrow> 'f::{zero,plus,minus,uminus,ord} tracked_symbol list \<Rightarrow> 'f cnav_tlm \<Rightarrow> 'f cnav_tlm option" where
  "run_tlm push_back crc elapsed = foldM (\<lambda>cur tlm. map_option snd (general_work push_back crc elapsed cur tlm))"

end
