(* ===== verification/Cnav_Fec.thy ===== *)
theory Cnav_Fec
  imports Viterbi_Frames Cnav_Telemetry Cnav_Pages
begin

text \<open>
  From the bits of a page to symbols and back: the encoder of the satellite (convolutional code with an
  inverter behind the second polynomial, then the interleaver), and that the telemetry decoder returns the
  page.
\<close>

section \<open>De-interleaver\<close>

lemma foldM_put:
  assumes "\<forall>x \<in> set xs. \<forall>out. length out = n \<longrightarrow> step x out = Some (out[slot x := f (slot x)])"
    and "length out = n"
  shows "\<exists>out'. foldM step xs out = Some out' \<and> length out' = n
    \<and> (\<forall>j < n. out' ! j = (if j \<in> slot ` set xs then f j else out ! j))"
  using assms
proof (induction xs arbitrary: out)
  case (Cons x xs)
  have "length (out[slot x := f (slot x)]) = n" "\<forall>x \<in> set xs. \<forall>out. length out = n \<longrightarrow> step x out = Some (out[slot x := f (slot x)])"
    using Cons.prems by simp_all
  then obtain out' where "foldM step xs (out[slot x := f (slot x)]) = Some out'" "length out' = n"
    "\<forall>j < n. out' ! j = (if j \<in> slot ` set xs then f j else out[slot x := f (slot x)] ! j)"
    using Cons.IH by blast
  then show ?case using Cons.prems by (auto simp: nth_list_update)
qed simp

definition deinterleaved :: "nat \<Rightarrow> nat \<Rightarrow> 'f list \<Rightarrow> 'f list" where
  "deinterleaved rows cols input = map (\<lambda>k. input ! (k mod rows * cols + k div rows)) [0..<rows * cols]"

lemma deinterleaver_eq:
  assumes "length input = rows * cols" "length out = rows * cols"
  shows "deinterleaver rows cols input out = Some (deinterleaved rows cols input)"
proof -
  define slot where "slot = (\<lambda>(r, c). c * rows + r :: nat)"
  define f where "f = (\<lambda>k. input ! (k mod rows * cols + k div rows))"
  define cells where "cells = concat (map (\<lambda>r. map (Pair r) [0..<cols]) [0..<rows])"
  have cells: "(r, c) \<in> set cells \<longleftrightarrow> r < rows \<and> c < cols" for r c by (auto simp: cells_def image_iff)
  have src: "r * cols + c < rows * cols" "c * rows + r < rows * cols" if "r < rows" "c < cols" for r c
  proof -
    have "r * cols + c < Suc r * cols" using that by simp
    also have "\<dots> \<le> rows * cols" using that by (intro mult_le_mono1) simp
    finally show "r * cols + c < rows * cols" .
    have "c * rows + r < Suc c * rows" using that by simp
    also have "\<dots> \<le> cols * rows" using that by (intro mult_le_mono1) simp
    finally show "c * rows + r < rows * cols" by (simp add: mult.commute)
  qed
  define move where "move = (\<lambda>(r, c) out. do { x \<leftarrow> vget input (r * cols + c); vput out (c * rows + r) x })"
  have step: "move x out
      = Some (out[slot x := f (slot x)])" if "x \<in> set cells" "length out = rows * cols" for x and out :: "'a list"
  proof -
    obtain r c where x: "x = (r, c)" by (cases x)
    then have "r < rows" "c < cols" using that(1) cells by auto
    then show ?thesis using that(2) src assms by (simp add: move_def x vget_Some vput_Some slot_def f_def)
  qed
  obtain out' where out': "deinterleaver rows cols input out = Some out'" "length out' = rows * cols"
    "\<forall>j < rows * cols. out' ! j = (if j \<in> slot ` set cells then f j else out ! j)"
    using foldM_put[of cells "rows * cols" move slot f out] step assms(2)
    unfolding deinterleaver_def cells_def[symmetric] move_def[symmetric] by blast
  have "j \<in> slot ` set cells" if "j < rows * cols" for j
  proof -
    have "0 < rows" using that by (cases rows) auto
    then have "j mod rows < rows" by simp
    moreover have "j div rows < cols" using that by (simp add: less_mult_imp_div_less mult.commute)
    moreover have "slot (j mod rows, j div rows) = j" by (simp add: slot_def)
    ultimately show ?thesis using cells by (intro image_eqI[of _ _ "(j mod rows, j div rows)"]) auto
  qed
  then have "out' = deinterleaved rows cols input"
    using out'(2,3) by (intro nth_equalityI) (simp_all add: deinterleaved_def f_def)
  then show ?thesis using out'(1) by simp
qed

section \<open>Encoder\<close>

definition on_air :: "nat list \<Rightarrow> bool list" where
  "on_air us = map (\<lambda>i. coded_symbols [121, 91] 6 us ! (i mod 123 * 8 + i div 123)) [0..<984]"

definition air_position :: "nat \<Rightarrow> nat" where
  "air_position k = k mod 8 * 123 + k div 8"

text \<open>Soft symbols that fit those sent, as far as the first symbol of each pair goes: with the right sign and, where
  the arithmetic rounds, with an amplitude that is neither too small nor too large.\<close>

definition first_symbols_heard :: "('f \<Rightarrow> bool) \<Rightarrow> ('f \<Rightarrow> bool) \<Rightarrow> bool list \<Rightarrow> 'f::{zero,ord} list \<Rightarrow> bool" where
  "first_symbols_heard behind gain sent xs \<longleftrightarrow> length xs = length sent
     \<and> (\<forall>k < length sent. even k \<longrightarrow> (if sent ! air_position k
          then 0 < xs ! air_position k \<and> gain (xs ! air_position k) else behind (xs ! air_position k)))"

lemma on_air_nth: "k < 984 \<Longrightarrow> on_air us ! air_position k = coded_symbols [121, 91] 6 us ! k"
proof -
  assume "k < 984"
  then have k: "k div 8 < 123" "k mod 8 < 8" by auto
  then have "air_position k < 984" "air_position k mod 123 = k div 8" "air_position k div 123 = k mod 8"
    by (simp_all add: air_position_def)
  then show ?thesis by (simp add: on_air_def)
qed

context metrics
begin

lemma page_through_fec:
  fixes xs :: "'f list"
  assumes "decoder_settled behind [121, 91] 6 486 dec" "length us = 486" "\<forall>u \<in> set us. u < 2"
    and heard: "first_symbols_heard behind gain (on_air us) xs"
  shows "\<exists>dec'. viterbi_decode (replicate 492 0) (undo_not_gate (deinterleaved 8 123 xs)) dec = Some (us @ replicate 6 0, dec')
    \<and> decoder_settled behind [121, 91] 6 486 dec'"
proof -
  have len: "length xs = 984" using heard by (simp add: first_symbols_heard_def on_air_def)
  have "frame_fits behind gain [121, 91] 6 us (undo_not_gate (deinterleaved 8 123 xs))"
    unfolding frame_fits_def
  proof (intro allI impI)
    fix t assume "t < length us + 6"
    then have t: "t < 492" "2 * t < 984" using assms(2) by simp_all
    have "undo_not_gate (deinterleaved 8 123 xs) ! (2 * t) = xs ! air_position (2 * t)"
      using t by (simp add: undo_not_gate_def deinterleaved_def air_position_def)
    moreover have "coded_symbols [121, 91] 6 us ! (2 * t) \<longleftrightarrow> first_symbol [121, 91] 6 (with_tail 6 us ! t) (path_state 6 us t) = 1"
      using t assms(2) by (intro coded_symbols_nth) simp
    ultimately show "symbol_fits behind gain [121, 91] 6 (with_tail 6 us ! t) (path_state 6 us t) (undo_not_gate (deinterleaved 8 123 xs) ! (2 * t))"
      using heard t on_air_nth[OF t(2), of us] len by (simp add: first_symbols_heard_def symbol_fits_def)
  qed
  moreover have "bit ([121, 91] ! 0 :: nat) 6" by (simp add: bit_iff_odd)
  moreover have "length (undo_not_gate (deinterleaved 8 123 xs)) = 984" by (simp add: undo_not_gate_def deinterleaved_def)
  ultimately show ?thesis
    using frame_decoded[of "[121, 91]" 6 us dec "undo_not_gate (deinterleaved 8 123 xs)" "replicate 492 0"] assms(1-3)
    by simp
qed

end

end
