(* ===== verification/Cnav_Stream.thy ===== *)
theory Cnav_Stream
  imports Cnav_Fec
begin

text \<open>
  The stream of symbols of a channel: from synchronisation to pages.
\<close>

section \<open>The circular buffer\<close>

text \<open>What \<open>boost::circular_buffer\<close> documents for \<open>push_back\<close>: the first element leaves when the
  buffer is full.\<close>

definition circular_buffer :: "(nat \<Rightarrow> 'f list \<Rightarrow> 'f \<Rightarrow> 'f list) \<Rightarrow> bool" where
  "circular_buffer push_back \<longleftrightarrow> (\<forall>cap xs x. 0 < cap \<longrightarrow> length xs \<le> cap \<longrightarrow>
     push_back cap xs x = (if length xs = cap then tl xs else xs) @ [x])"

definition ring_push :: "nat \<Rightarrow> 'f list \<Rightarrow> 'f \<Rightarrow> 'f list" where
  "ring_push cap xs x = (let ys = xs @ [x] in drop (length ys - cap) ys)"

lemma ring_push_circular: "circular_buffer ring_push"
  by (auto simp: circular_buffer_def ring_push_def Let_def drop_Suc tl_append2)

text \<open>The last symbols of a stream.\<close>

definition latest :: "nat \<Rightarrow> 'f list \<Rightarrow> 'f list" where
  "latest n xs = drop (length xs - n) xs"

lemma length_latest [simp]: "length (latest n xs) = min n (length xs)"
  by (auto simp: latest_def)

lemma push_latest:
  assumes "circular_buffer push_back" "0 < n"
  shows "push_back n (latest n xs) x = latest n (xs @ [x])"
proof -
  have "push_back n (latest n xs) x = (if length (latest n xs) = n then tl (latest n xs) else latest n xs) @ [x]"
    using assms unfolding circular_buffer_def by (metis length_latest min.cobounded1)
  moreover have "tl (drop (length xs - n) xs) = drop (Suc (length xs) - n) xs" if "n \<le> length xs"
    using that by (metis Suc_diff_le drop_Suc tl_drop)
  ultimately show ?thesis using assms(2) by (auto simp: latest_def)
qed

lemma latest_latest: "n \<le> length xs \<Longrightarrow> latest n (latest n xs @ ys) = latest n (xs @ ys)"
  by (simp add: latest_def add.commute)

section \<open>One symbol\<close>

text \<open>What the state machine of the synchronisation works on.\<close>

definition sync_state :: "'f cnav_tlm \<Rightarrow> nat \<times> nat \<times> nat" where
  "sync_state tlm = (d_stat tlm, d_preamble_index tlm, d_symbol_counter tlm)"

definition detected :: "'f::{zero,ord} list \<Rightarrow> bool" where
  "detected history \<longleftrightarrow> 1016 < length history \<and> 16 \<le> \<bar>preamble_correlation history\<bar>"

text \<open>The parts of the state that only the decoder of pages changes.\<close>

definition page_state :: "'f cnav_tlm \<Rightarrow> 'f viterbi \<times> has_page list" where
  "page_state tlm = (d_viterbi tlm, E6_HAS_from_TLM (d_cnav tlm))"

lemma update_timetag_parts:
  "d_symbol_history (update_timetag tags tlm) = d_symbol_history tlm" "sync_state (update_timetag tags tlm) = sync_state tlm"
  "page_state (update_timetag tags tlm) = page_state tlm"
  "d_flag_PLL_180_deg_phase_locked (update_timetag tags tlm) = d_flag_PLL_180_deg_phase_locked tlm"
proof -
  have "d_symbol_history (foldl (\<lambda>tlm tag. case tag of None \<Rightarrow> tlm
       | Some time \<Rightarrow> tlm\<lparr> d_current_timetag := time, d_valid_timetag := True \<rparr>) tlm tags) = d_symbol_history tlm
     \<and> sync_state (foldl (\<lambda>tlm tag. case tag of None \<Rightarrow> tlm
       | Some time \<Rightarrow> tlm\<lparr> d_current_timetag := time, d_valid_timetag := True \<rparr>) tlm tags) = sync_state tlm
     \<and> page_state (foldl (\<lambda>tlm tag. case tag of None \<Rightarrow> tlm
       | Some time \<Rightarrow> tlm\<lparr> d_current_timetag := time, d_valid_timetag := True \<rparr>) tlm tags) = page_state tlm
     \<and> d_flag_PLL_180_deg_phase_locked (foldl (\<lambda>tlm tag. case tag of None \<Rightarrow> tlm
       | Some time \<Rightarrow> tlm\<lparr> d_current_timetag := time, d_valid_timetag := True \<rparr>) tlm tags) = d_flag_PLL_180_deg_phase_locked tlm"
    by (induction tags arbitrary: tlm) (simp_all add: sync_state_def page_state_def split: option.split)
  then show "d_symbol_history (update_timetag tags tlm) = d_symbol_history tlm" "sync_state (update_timetag tags tlm) = sync_state tlm"
    "page_state (update_timetag tags tlm) = page_state tlm"
    "d_flag_PLL_180_deg_phase_locked (update_timetag tags tlm) = d_flag_PLL_180_deg_phase_locked tlm"
    by (simp_all add: update_timetag_def Let_def sync_state_def page_state_def)
qed

text \<open>The state in which the synchronisation sees a symbol.\<close>

definition taken :: "(nat \<Rightarrow> 'f list \<Rightarrow> 'f \<Rightarrow> 'f list) \<Rightarrow> 'f tracked_symbol \<Rightarrow> 'f cnav_tlm \<Rightarrow> 'f cnav_tlm" where
  "taken push_back cur tlm = check_tlm_separation (receive_symbol push_back cur tlm)"

lemma taken_parts:
  "d_symbol_history (taken push_back cur tlm) = push_back 1017 (d_symbol_history tlm) (Prompt_I cur)"
  "sync_state (taken push_back cur tlm) = (d_stat tlm, d_preamble_index tlm, Suc (d_symbol_counter tlm))"
  "page_state (taken push_back cur tlm) = page_state tlm"
  "d_flag_PLL_180_deg_phase_locked (taken push_back cur tlm) = d_flag_PLL_180_deg_phase_locked tlm"
proof -
  have c: "d_symbol_history (check_tlm_separation t) = d_symbol_history t \<and> sync_state (check_tlm_separation t) = sync_state t
    \<and> page_state (check_tlm_separation t) = page_state t
    \<and> d_flag_PLL_180_deg_phase_locked (check_tlm_separation t) = d_flag_PLL_180_deg_phase_locked t" for t :: "'a cnav_tlm"
    by (simp add: check_tlm_separation_def sync_state_def page_state_def)
  have f: "sync_state (t\<lparr> d_flag_preamble := False \<rparr>) = sync_state t \<and> page_state (t\<lparr> d_flag_preamble := False \<rparr>) = page_state t"
    for t :: "'a cnav_tlm" by (simp add: sync_state_def page_state_def)
  show "d_symbol_history (taken push_back cur tlm) = push_back 1017 (d_symbol_history tlm) (Prompt_I cur)"
    "sync_state (taken push_back cur tlm) = (d_stat tlm, d_preamble_index tlm, Suc (d_symbol_counter tlm))"
    "page_state (taken push_back cur tlm) = page_state tlm"
    "d_flag_PLL_180_deg_phase_locked (taken push_back cur tlm) = d_flag_PLL_180_deg_phase_locked tlm"
    unfolding taken_def receive_symbol_def by (simp_all add: c f update_timetag_parts) (simp_all add: sync_state_def page_state_def)
qed

text \<open>What is done after the synchronisation.\<close>

lemma rest_of_work:
  assumes "general_work push_back crc elapsed cur tlm = Some (out, tlm')"
    and "frame_sync crc cur (taken push_back cur tlm) = Some tlm1"
  shows "d_symbol_history tlm' = d_symbol_history tlm1" "sync_state tlm' = sync_state tlm1" "page_state tlm' = page_state tlm1"
    "d_flag_PLL_180_deg_phase_locked tlm' = d_flag_PLL_180_deg_phase_locked tlm1"
  using assms by (auto simp: general_work_def taken_def[symmetric] send_symbol_def update_tow_def Let_def sync_state_def
      page_state_def split: if_splits)

lemma general_work_Some:
  assumes "frame_sync crc cur (taken push_back cur tlm) = Some tlm1"
  obtains out tlm' where "general_work push_back crc elapsed cur tlm = Some (out, tlm')"
    "d_symbol_history tlm' = d_symbol_history tlm1" "sync_state tlm' = sync_state tlm1" "page_state tlm' = page_state tlm1"
    "d_flag_PLL_180_deg_phase_locked tlm' = d_flag_PLL_180_deg_phase_locked tlm1"
proof -
  obtain out tlm' where w: "general_work push_back crc elapsed cur tlm = Some (out, tlm')"
    using assms by (cases "general_work push_back crc elapsed cur tlm") (auto simp: general_work_def taken_def[symmetric])
  show thesis by (rule that[OF w rest_of_work[OF w assms]])
qed

section \<open>Searching\<close>

definition sync_next :: "bool \<Rightarrow> nat \<times> nat \<times> nat \<Rightarrow> nat \<times> nat \<times> nat" where
  "sync_next det s =
    (case s of (st, idx, c) \<Rightarrow>
       if \<not> det then (st, idx, Suc c)
       else if st = 0 then (1, Suc c, Suc c)
       else (let diff = signed_take_bit 31 (int (Suc c) - int idx) in
         if diff = 1000 then (2, Suc c, Suc c) else (if diff > 1000 then 0 else st, idx, Suc c)))"

text \<open>A decoder that has seen \<open>past\<close>.\<close>

definition has_seen :: "'f list \<Rightarrow> 'f cnav_tlm \<Rightarrow> bool" where
  "has_seen past tlm \<longleftrightarrow> d_symbol_history tlm = latest 1017 past"

lemma taken_seen:
  assumes "circular_buffer push_back" "has_seen past tlm"
  shows "has_seen (past @ [Prompt_I cur]) (taken push_back cur tlm)"
  using assms push_latest[of push_back 1017 past] by (simp add: has_seen_def taken_parts)

lemma step_search:
  assumes "circular_buffer push_back" "has_seen past tlm" "d_stat tlm < 2"
  obtains out tlm' where "general_work push_back crc elapsed cur tlm = Some (out, tlm')" "has_seen (past @ [Prompt_I cur]) tlm'"
    "sync_state tlm' = sync_next (detected (latest 1017 (past @ [Prompt_I cur]))) (sync_state tlm)" "page_state tlm' = page_state tlm"
    "d_stat tlm' = 2 \<longrightarrow> d_flag_PLL_180_deg_phase_locked tlm' = (preamble_correlation (latest 1017 (past @ [Prompt_I cur])) < 0)"
proof -
  let ?t = "taken push_back cur tlm"
  have h: "d_symbol_history ?t = latest 1017 (past @ [Prompt_I cur])"
    using taken_seen[OF assms(1,2), of cur] by (simp add: has_seen_def)
  have st: "d_stat ?t = d_stat tlm" "d_preamble_index ?t = d_preamble_index tlm" "d_symbol_counter ?t = Suc (d_symbol_counter tlm)"
    using taken_parts(2)[of push_back cur tlm] by (simp_all add: sync_state_def)
  have step: "\<exists>tlm1. frame_sync crc cur ?t = Some tlm1 \<and> d_symbol_history tlm1 = d_symbol_history ?t \<and> page_state tlm1 = page_state ?t
      \<and> sync_state tlm1 = sync_next (detected (d_symbol_history ?t)) (sync_state tlm)
      \<and> (d_stat tlm1 = 2 \<longrightarrow> d_flag_PLL_180_deg_phase_locked tlm1 = (preamble_correlation (d_symbol_history ?t) < 0))"
  proof (cases "d_stat tlm = 0")
    case True
    then show ?thesis
      using st by (auto simp: frame_sync_def search_preamble_def detected_def sync_state_def sync_next_def page_state_def)
  next
    case False
    then have "d_stat tlm = 1" using assms(3) by simp
    then show ?thesis
      using st by (auto simp: frame_sync_def confirm_preamble_def detected_def sync_state_def sync_next_def page_state_def Let_def)
  qed
  then obtain tlm1 where t1: "frame_sync crc cur ?t = Some tlm1" "d_symbol_history tlm1 = latest 1017 (past @ [Prompt_I cur])"
    "page_state tlm1 = page_state tlm" "sync_state tlm1 = sync_next (detected (latest 1017 (past @ [Prompt_I cur]))) (sync_state tlm)"
    "d_stat tlm1 = 2 \<longrightarrow> d_flag_PLL_180_deg_phase_locked tlm1 = (preamble_correlation (latest 1017 (past @ [Prompt_I cur])) < 0)"
    unfolding h taken_parts(3) by blast
  obtain out tlm' where w: "general_work push_back crc elapsed cur tlm = Some (out, tlm')" "d_symbol_history tlm' = d_symbol_history tlm1"
    "sync_state tlm' = sync_state tlm1" "page_state tlm' = page_state tlm1"
    "d_flag_PLL_180_deg_phase_locked tlm' = d_flag_PLL_180_deg_phase_locked tlm1"
    by (rule general_work_Some[OF t1(1)])
  then show thesis using that[of out tlm'] t1 by (simp add: has_seen_def sync_state_def)
qed

section \<open>Waiting for the end of a page\<close>

lemma step_wait:
  assumes "circular_buffer push_back" "has_seen past tlm" "sync_state tlm = (2, idx, c)" "Suc c \<noteq> idx + 1000"
  obtains out tlm' where "general_work push_back crc elapsed cur tlm = Some (out, tlm')" "has_seen (past @ [Prompt_I cur]) tlm'"
    "sync_state tlm' = (2, idx, Suc c)" "page_state tlm' = page_state tlm"
    "d_flag_PLL_180_deg_phase_locked tlm' = d_flag_PLL_180_deg_phase_locked tlm"
proof -
  have t: "sync_state (taken push_back cur tlm) = (2, idx, Suc c)"
    using assms(3) by (simp add: taken_parts) (simp add: sync_state_def)
  then have "frame_sync crc cur (taken push_back cur tlm) = Some (taken push_back cur tlm)"
    using assms(4) by (simp add: frame_sync_def complete_page_def sync_state_def)
  then obtain out tlm' where "general_work push_back crc elapsed cur tlm = Some (out, tlm')"
    "d_symbol_history tlm' = d_symbol_history (taken push_back cur tlm)" "sync_state tlm' = sync_state (taken push_back cur tlm)"
    "page_state tlm' = page_state (taken push_back cur tlm)"
    "d_flag_PLL_180_deg_phase_locked tlm' = d_flag_PLL_180_deg_phase_locked (taken push_back cur tlm)"
    by (rule general_work_Some)
  then show thesis
    using that[of out tlm'] t taken_parts[of push_back cur tlm] taken_seen[OF assms(1,2), of cur] by (simp add: has_seen_def)
qed

lemma run_tlm_Cons: "general_work push_back crc elapsed cur tlm = Some (out, tlm') \<Longrightarrow>
    run_tlm push_back crc elapsed (cur # syms) tlm = run_tlm push_back crc elapsed syms tlm'"
  by (simp add: run_tlm_def)

lemma run_tlm_append: "run_tlm push_back crc elapsed (xs @ ys) tlm
    = do { tlm \<leftarrow> run_tlm push_back crc elapsed xs tlm; run_tlm push_back crc elapsed ys tlm }"
  by (simp add: run_tlm_def foldM_append)

lemma run_wait:
  assumes "circular_buffer push_back" "has_seen past tlm" "sync_state tlm = (2, idx, c)" "c + length syms < idx + 1000"
  shows "\<exists>tlm'. run_tlm push_back crc elapsed syms tlm = Some tlm' \<and> has_seen (past @ map Prompt_I syms) tlm'
    \<and> sync_state tlm' = (2, idx, c + length syms) \<and> page_state tlm' = page_state tlm
    \<and> d_flag_PLL_180_deg_phase_locked tlm' = d_flag_PLL_180_deg_phase_locked tlm"
  using assms(2-)
proof (induction syms arbitrary: past tlm c)
  case (Cons cur syms)
  have "Suc c \<noteq> idx + 1000" using Cons.prems(3) by simp
  then obtain out t where t: "general_work push_back crc elapsed cur tlm = Some (out, t)" "has_seen (past @ [Prompt_I cur]) t"
    "sync_state t = (2, idx, Suc c)" "page_state t = page_state tlm"
    "d_flag_PLL_180_deg_phase_locked t = d_flag_PLL_180_deg_phase_locked tlm"
    by (rule step_wait[OF assms(1) Cons.prems(1,2)])
  show ?case using Cons.IH[OF t(2,3)] Cons.prems(3) t by (simp add: run_tlm_Cons)
qed (simp add: run_tlm_def)

section \<open>Pages\<close>

text \<open>The decoder is between two pages: it has just taken the first symbol of one.\<close>

definition locked_on :: "('f \<Rightarrow> bool) \<Rightarrow> bool \<Rightarrow> 'f::{zero,uminus} list \<Rightarrow> 'f cnav_tlm \<Rightarrow> bool" where
  "locked_on behind inverted past tlm \<longleftrightarrow> has_seen past tlm \<and> 1017 \<le> length past \<and> d_stat tlm = 2
     \<and> d_symbol_counter tlm = d_preamble_index tlm \<and> (d_flag_PLL_180_deg_phase_locked tlm \<longleftrightarrow> inverted)
     \<and> decoder_settled behind [121, 91] 6 486 (d_viterbi tlm)"

text \<open>The symbols of a page as sent, or all inverted.\<close>

definition page_heard :: "('f \<Rightarrow> bool) \<Rightarrow> ('f \<Rightarrow> bool) \<Rightarrow> (u8 list \<Rightarrow> u32) \<Rightarrow> bool \<Rightarrow> has_page \<Rightarrow> 'f::{zero,uminus,ord} list \<Rightarrow> bool" where
  "page_heard behind gain crc inverted p xs \<longleftrightarrow> (\<exists>us. length us = 486 \<and> (\<forall>u \<in> set us. u < 2)
     \<and> transmits crc (map int (us @ replicate 6 0)) p
     \<and> first_symbols_heard behind gain (on_air us) (if inverted then map uminus xs else xs))"

definition same_page :: "u64 \<Rightarrow> has_page \<Rightarrow> has_page \<Rightarrow> bool" where
  "same_page ts p q \<longleftrightarrow> q = p\<lparr> time_stamp := ts, page_tow := page_tow q \<rparr>"

lemma read_HAS_page_flag:
  assumes "read_HAS_page crc s cnav = Some cnav'" "d_new_HAS_page cnav'"
  shows "d_flag_CRC_test cnav'"
proof -
  have h: "read_HAS_page_header h x = Some y \<Longrightarrow> d_flag_CRC_test y = d_flag_CRC_test x" for h x y
    by (auto simp: read_HAS_page_header_def bind_eq_Some_conv split: if_splits)
  show ?thesis
    using assms by (auto simp: read_HAS_page_def Let_def bind_eq_Some_conv dest!: h split: if_splits)
qed

lemma decode_CNAV_bits_flag:
  assumes "decode_CNAV_bits crc ts page_bits dec = Some dec'" "E6_HAS_from_TLM dec' \<noteq> E6_HAS_from_TLM dec"
  shows "get_flag_CRC_test (d_cnav_nav dec')"
proof -
  obtain cnav where cnav: "read_HAS_page crc (page_string_of page_bits) (d_cnav_nav dec) = Some cnav"
    using assms(1) by (auto simp: decode_CNAV_bits_def bind_eq_Some_conv)
  have new: "d_new_HAS_page cnav" using assms cnav
    by (auto simp: decode_CNAV_bits_def Let_def have_new_HAS_page_def set_time_stamp_def split: if_splits)
  show ?thesis
    using assms(1) cnav read_HAS_page_flag[OF cnav new]
    by (auto simp: decode_CNAV_bits_def set_time_stamp_def set_tow_def Let_def get_flag_CRC_test_def split: if_splits)
qed

text \<open>The symbols of the page that a decoder at the end of a page sees in its buffer.\<close>

definition page_window :: "'f list \<Rightarrow> 'f list" where
  "page_window past = take 984 (latest 1001 past)"

lemma read_page_window: "1017 \<le> length past \<Longrightarrow> vread (latest 1017 past) 16 984 = Some (page_window past)"
  by (simp add: vread_eq page_window_def latest_def)

lemma page_heard_inverted: "page_heard behind gain crc inverted p xs = page_heard behind gain crc False p (if inverted then map uminus xs else xs)"
  by (simp add: page_heard_def)

context metrics
begin

lemma decode_CNAV_word_heard:
  fixes tlm :: "'f cnav_tlm"
  assumes "decoder_settled behind [121, 91] 6 486 (d_viterbi tlm)" "page_heard behind gain crc False p xs"
  obtains vit dec where "decode_CNAV_word crc ts xs 984 tlm = Some (tlm\<lparr> d_viterbi := vit, d_cnav := dec \<rparr>)"
    "decoder_settled behind [121, 91] 6 486 vit" "E6_HAS_from_TLM dec = E6_HAS_from_TLM (d_cnav tlm) @ [stamped (d_cnav tlm) ts p]"
    "get_flag_CRC_test (d_cnav_nav dec)"
proof -
  obtain us where us: "length us = 486" "\<forall>u \<in> set us. u < 2" "transmits crc (map int (us @ replicate 6 0)) p"
    "first_symbols_heard behind gain (on_air us) xs"
    using assms(2) by (auto simp: page_heard_def)
  have len: "length xs = 984" using us(4) by (simp add: first_symbols_heard_def on_air_def)
  obtain vit where vit: "viterbi_decode (replicate 492 0) (undo_not_gate (deinterleaved 8 123 xs)) (d_viterbi tlm)
      = Some (us @ replicate 6 0, vit)" "decoder_settled behind [121, 91] 6 486 vit"
    using page_through_fec[OF assms(1) us(1,2,4)] by blast
  obtain dec where dec: "decode_CNAV_bits crc ts (map int (us @ replicate 6 0)) (d_cnav tlm) = Some dec"
    "E6_HAS_from_TLM dec = E6_HAS_from_TLM (d_cnav tlm) @ [stamped (d_cnav tlm) ts p]"
    by (rule decode_CNAV_bits_send[OF us(3)])
  have "deinterleaver 8 123 xs (replicate 984 0) = Some (deinterleaved 8 123 xs)"
    using len by (intro deinterleaver_eq) simp_all
  then have "decode_CNAV_word crc ts xs 984 tlm = Some (tlm\<lparr> d_viterbi := vit, d_cnav := dec \<rparr>)"
    using vit(1) dec(1) by (simp add: decode_CNAV_word_def del: replicate.simps map_append)
  moreover have "get_flag_CRC_test (d_cnav_nav dec)" using dec by (intro decode_CNAV_bits_flag[OF dec(1)]) simp
  ultimately show thesis using that vit(2) dec(2) by blast
qed

lemma step_page:
  fixes tlm :: "'f cnav_tlm"
  assumes buf: "circular_buffer push_back" and tlm: "has_seen past tlm" "1016 \<le> length past" "sync_state tlm = (2, idx, c)" "Suc c = idx + 1000"
      "decoder_settled behind [121, 91] 6 486 (d_viterbi tlm)"
    and page: "page_heard behind gain crc (d_flag_PLL_180_deg_phase_locked tlm) p (page_window (past @ [Prompt_I cur]))" "sampling_rate cur \<noteq> 0"
  obtains out tlm' q where "general_work push_back crc elapsed cur tlm = Some (out, tlm')"
    "locked_on behind (d_flag_PLL_180_deg_phase_locked tlm) (past @ [Prompt_I cur]) tlm'"
    "E6_HAS_from_TLM (d_cnav tlm') = E6_HAS_from_TLM (d_cnav tlm) @ [q]"
    "same_page (Tracking_sample_counter cur div of_int (sampling_rate cur)) p q"
proof -
  let ?t = "taken push_back cur tlm" and ?past = "past @ [Prompt_I cur]"
  let ?xs = "page_window ?past" and ?ts = "Tracking_sample_counter cur div of_int (sampling_rate cur)"
  have h: "d_symbol_history ?t = latest 1017 ?past" using taken_seen[OF buf tlm(1), of cur] by (simp add: has_seen_def)
  have st: "d_stat ?t = 2" "d_preamble_index ?t = idx" "d_symbol_counter ?t = Suc c"
    using taken_parts(2)[of push_back cur tlm] tlm(3) by (simp_all add: sync_state_def)
  have parts: "d_viterbi ?t = d_viterbi tlm" "E6_HAS_from_TLM (d_cnav ?t) = E6_HAS_from_TLM (d_cnav tlm)"
    "d_flag_PLL_180_deg_phase_locked ?t = d_flag_PLL_180_deg_phase_locked tlm"
    using taken_parts(3,4)[of push_back cur tlm] by (simp_all add: page_state_def)
  obtain vit dec where d: "decode_CNAV_word crc ?ts (if d_flag_PLL_180_deg_phase_locked tlm then map uminus ?xs else ?xs) 984 ?t
      = Some (?t\<lparr> d_viterbi := vit, d_cnav := dec \<rparr>)" "decoder_settled behind [121, 91] 6 486 vit"
    "E6_HAS_from_TLM dec = E6_HAS_from_TLM (d_cnav ?t) @ [stamped (d_cnav ?t) ?ts p]" "get_flag_CRC_test (d_cnav_nav dec)"
    by (rule decode_CNAV_word_heard[of ?t crc p _ ?ts, unfolded parts(1), OF tlm(5) iffD1[OF page_heard_inverted page(1)]])
  have "vread (d_symbol_history ?t) 16 984 = Some ?xs" using tlm(2) by (simp add: h read_page_window)
  moreover have "frame_sync crc cur ?t = complete_page crc cur ?t" by (simp add: frame_sync_def st(1))
  moreover have "d_symbol_counter ?t = d_preamble_index ?t + 1000" using st(2,3) tlm(4) by simp
  ultimately have "frame_sync crc cur ?t = Some (page_checked (?t\<lparr> d_viterbi := vit, d_cnav := dec, d_preamble_index := Suc c \<rparr>))"
    using d(1,4) page(2) by (simp add: complete_page_def Let_def parts(3) st(3)[symmetric])
  then obtain out tlm' where w: "general_work push_back crc elapsed cur tlm = Some (out, tlm')"
    "d_symbol_history tlm' = latest 1017 ?past" "sync_state tlm' = (2, Suc c, Suc c)"
    "page_state tlm' = (vit, E6_HAS_from_TLM dec)" "d_flag_PLL_180_deg_phase_locked tlm' = d_flag_PLL_180_deg_phase_locked tlm"
    by (rule general_work_Some) (simp add: page_checked_def sync_state_def page_state_def h st parts)
  have "locked_on behind (d_flag_PLL_180_deg_phase_locked tlm) ?past tlm'"
    using w(2-5) d(2) tlm(2) by (simp add: locked_on_def has_seen_def sync_state_def page_state_def)
  moreover have "same_page ?ts p (stamped (d_cnav ?t) ?ts p)" by (simp add: same_page_def stamped_def)
  ultimately show thesis using that[OF w(1)] w(4) d(3) parts(2) by (simp add: page_state_def)
qed

lemma run_page:
  fixes tlm :: "'f cnav_tlm"
  assumes buf: "circular_buffer push_back" and tlm: "locked_on behind inverted past tlm" and n: "length syms = 1000"
    and page: "page_heard behind gain crc inverted p (page_window (past @ map Prompt_I syms))" "sampling_rate (last syms) \<noteq> 0"
  shows "\<exists>tlm' q. run_tlm push_back crc elapsed syms tlm = Some tlm' \<and> locked_on behind inverted (past @ map Prompt_I syms) tlm'
    \<and> E6_HAS_from_TLM (d_cnav tlm') = E6_HAS_from_TLM (d_cnav tlm) @ [q]
    \<and> same_page (Tracking_sample_counter (last syms) div of_int (sampling_rate (last syms))) p q"
proof -
  let ?c = "d_symbol_counter tlm"
  obtain first cur where s: "syms = first @ [cur]" "length first = 999"
    using n by (cases syms rule: rev_cases) auto
  have seen: "has_seen past tlm" "sync_state tlm = (2, ?c, ?c)" "?c + length first < ?c + 1000"
    using tlm s(2) by (simp_all add: locked_on_def sync_state_def)
  obtain t where t: "run_tlm push_back crc elapsed first tlm = Some t" "has_seen (past @ map Prompt_I first) t"
    "sync_state t = (2, ?c, ?c + 999)" "page_state t = page_state tlm"
    "d_flag_PLL_180_deg_phase_locked t = d_flag_PLL_180_deg_phase_locked tlm"
    using run_wait[OF buf seen, of crc elapsed] s(2) by auto
  have pos: "1016 \<le> length (past @ map Prompt_I first)" "Suc (?c + 999) = ?c + 1000"
    "decoder_settled behind [121, 91] 6 486 (d_viterbi t)" "d_flag_PLL_180_deg_phase_locked t = inverted" "E6_HAS_from_TLM (d_cnav t) = E6_HAS_from_TLM (d_cnav tlm)"
    using tlm t(4,5) by (simp_all add: locked_on_def page_state_def)
  have heard: "page_heard behind gain crc (d_flag_PLL_180_deg_phase_locked t) p (page_window ((past @ map Prompt_I first) @ [Prompt_I cur]))"
    "sampling_rate cur \<noteq> 0" using page s(1) pos(4) by simp_all
  obtain out tlm' q where "general_work push_back crc elapsed cur t = Some (out, tlm')"
    "locked_on behind inverted (past @ map Prompt_I syms) tlm'" "E6_HAS_from_TLM (d_cnav tlm') = E6_HAS_from_TLM (d_cnav tlm) @ [q]"
    "same_page (Tracking_sample_counter cur div of_int (sampling_rate cur)) p q"
    by (rule step_page[OF buf t(2) pos(1) t(3) pos(2,3) heard, of elapsed]) (simp add: s(1) pos(4,5))
  then show ?thesis using t(1) s(1) by (auto simp: run_tlm_def foldM_append)
qed

end

end
