(* ===== verification/Cnav_Acquisition.thy ===== *)
theory Cnav_Acquisition
  imports Cnav_Stream
begin

text \<open>
  How a decoder of a C/NAV channel locks on to a stream of symbols, and the pages it then passes on.
\<close>

section \<open>Preambles\<close>

text \<open>Sixteen symbols with the signs of the preamble, or all inverted.\<close>

definition preamble_heard :: "bool \<Rightarrow> 'f::{zero,ord} list \<Rightarrow> bool" where
  "preamble_heard inverted xs \<longleftrightarrow> (\<forall>i < 16. xs ! i < 0 \<longleftrightarrow> (d_preamble_samples ! i = - 1) \<noteq> inverted)"

lemma preamble_samples: "i < 16 \<Longrightarrow> d_preamble_samples ! i = 1 \<or> d_preamble_samples ! i = - 1"
proof -
  assume i: "i < 16"
  have "length GALILEO_CNAV_PREAMBLE = 16" by (simp add: GALILEO_CNAV_PREAMBLE_def)
  then show ?thesis using i by (simp add: d_preamble_samples_def)
qed

lemma preamble_correlation_heard:
  assumes "preamble_heard inverted xs"
  shows "preamble_correlation xs = (if inverted then - 16 else 16)"
proof -
  let ?s = "if inverted then - 1 else 1 :: int"
  define tm where "tm = (\<lambda>i. if xs ! i < 0 then - (d_preamble_samples ! i) else d_preamble_samples ! i)"
  have t: "tm i = ?s" if "i < 16" for i
    using assms that preamble_samples[OF that] by (auto simp: tm_def preamble_heard_def)
  have "foldl (\<lambda>corr i. if xs ! i < 0 then corr - d_preamble_samples ! i else corr + d_preamble_samples ! i) a [0..<n]
      = a + int n * ?s" if "n \<le> 16" for n a
    using that
  proof (induction n)
    case (Suc n)
    then have "tm n = ?s" using t by simp
    then show ?case using Suc by (auto simp: tm_def algebra_simps split: if_splits)
  qed simp
  from this[of 16 0] show ?thesis by (simp add: preamble_correlation_def)
qed

lemma preamble_detected: "preamble_heard inverted xs \<Longrightarrow> 1016 < length xs \<Longrightarrow> detected xs"
  by (simp add: detected_def preamble_correlation_heard)

lemma preamble_heard_take: "preamble_heard inverted (take 16 xs) = preamble_heard inverted xs"
  by (simp add: preamble_heard_def)

section \<open>Runs of the search\<close>

lemma run_idle:
  assumes buf: "circular_buffer push_back" and st: "st < 2"
    and tlm: "has_seen past tlm" "sync_state tlm = (st, idx, c)"
    and idle: "\<forall>k < length syms. sync_next (detected (latest 1017 (past @ map Prompt_I (take (Suc k) syms)))) (st, idx, c + k)
      = (st, idx, Suc (c + k))"
  shows "\<exists>tlm'. run_tlm push_back crc elapsed syms tlm = Some tlm' \<and> has_seen (past @ map Prompt_I syms) tlm'
    \<and> sync_state tlm' = (st, idx, c + length syms) \<and> page_state tlm' = page_state tlm"
  using tlm idle
proof (induction syms arbitrary: past tlm c)
  case (Cons cur syms)
  have "d_stat tlm < 2" using Cons.prems(2) st by (simp add: sync_state_def)
  then obtain out t where t: "general_work push_back crc elapsed cur tlm = Some (out, t)" "has_seen (past @ [Prompt_I cur]) t"
    "sync_state t = sync_next (detected (latest 1017 (past @ [Prompt_I cur]))) (sync_state tlm)" "page_state t = page_state tlm"
    by (rule step_search[OF buf Cons.prems(1)])
  have "sync_state t = (st, idx, Suc c)" using t(3) Cons.prems(2,3) by auto
  moreover have "\<forall>k < length syms. sync_next (detected (latest 1017 ((past @ [Prompt_I cur]) @ map Prompt_I (take (Suc k) syms)))) (st, idx, Suc c + k)
      = (st, idx, Suc (Suc c + k))"
    using Cons.prems(3) by auto
  ultimately show ?case using Cons.IH[OF t(2)] t(1,4) by (simp add: run_tlm_Cons)
qed (simp add: run_tlm_def)

text \<open>A preamble that is too near to the last one changes nothing.\<close>

lemma sync_next_near:
  assumes "idx \<le> c" "Suc c < idx + 1000"
  shows "sync_next det (1, idx, c) = (1, idx, Suc c)"
proof -
  have "signed_take_bit 31 (int (Suc c) - int idx) = int (Suc c) - int idx"
    using assms by (intro signed_take_bit_int_eq_self) simp_all
  then show ?thesis using assms by (simp add: sync_next_def Let_def)
qed

lemma sync_next_period: "sync_next True (1, idx, idx + 999) = (2, idx + 1000, idx + 1000)"
  by (simp add: sync_next_def Let_def signed_take_bit_int_eq_self)

section \<open>A fresh decoder\<close>

lemma latest_all: "length xs \<le> n \<Longrightarrow> latest n xs = xs"
  by (simp add: latest_def)

lemma fresh_cnav_tlm:
  assumes "make_cnav_tlm maxlog e6 trk prn = Some tlm" "behind (- maxlog)"
  shows "has_seen [] tlm" "sync_state tlm = (0, 0, 0)" "decoder_settled behind [121, 91] 6 486 (d_viterbi tlm)" "E6_HAS_from_TLM (d_cnav tlm) = []"
proof -
  obtain vit where vit: "Viterbi_Decoder maxlog 7 2 486 [121, 91] = Some vit" "d_viterbi tlm = vit"
    using assms(1) by (auto simp: make_cnav_tlm_def)
  then show "decoder_settled behind [121, 91] 6 486 (d_viterbi tlm)"
    using made_settled[of behind maxlog "[121, 91]" 6 486 vit] assms(2) by simp
  show "has_seen [] tlm" "sync_state tlm = (0, 0, 0)" "E6_HAS_from_TLM (d_cnav tlm) = []"
    using assms(1) by (auto simp: make_cnav_tlm_def has_seen_def latest_def sync_state_def)
qed

lemma fresh_decoder_locks:
  fixes maxlog :: "'f::{zero,plus,minus,uminus,linorder}"
  assumes buf: "circular_buffer push_back" and tlm: "make_cnav_tlm maxlog e6 trk prn = Some tlm" "behind (- maxlog)"
    and n: "length syms = 2017"
    and pre: "preamble_heard inverted' (map Prompt_I syms)" "preamble_heard inverted (drop 1000 (map Prompt_I syms))"
  shows "\<exists>tlm'. run_tlm push_back crc elapsed syms tlm = Some tlm' \<and> locked_on behind inverted (map Prompt_I syms) tlm'
    \<and> E6_HAS_from_TLM (d_cnav tlm') = []"
proof -
  note fresh = fresh_cnav_tlm[of maxlog e6 trk prn tlm behind, OF tlm]
  define vals where "vals = map Prompt_I syms"
  define s1 where "s1 = take 1016 syms"
  define s2 where "s2 = syms ! 1016"
  define s3 where "s3 = take 999 (drop 1017 syms)"
  define s4 where "s4 = syms ! 2016"
  have syms: "syms = s1 @ s2 # s3 @ [s4]"
  proof -
    have "drop 2016 syms = [s4]" using n by (simp add: s4_def Cons_nth_drop_Suc[symmetric])
    moreover have "drop 1017 syms = s3 @ drop 2016 syms"
      using append_take_drop_id[of 999 "drop 1017 syms"] by (simp add: s3_def)
    moreover have "drop 1016 syms = s2 # drop 1017 syms" using n by (simp add: s2_def Cons_nth_drop_Suc[symmetric])
    ultimately show ?thesis using append_take_drop_id[of 1016 syms] by (simp add: s1_def)
  qed
  have len: "length s1 = 1016" "length s3 = 999" using n by (simp_all add: s1_def s3_def)
  have "\<exists>t. run_tlm push_back crc elapsed s1 tlm = Some t \<and> has_seen ([] @ map Prompt_I s1) t
      \<and> sync_state t = (0, 0, 0 + length s1) \<and> page_state t = page_state tlm"
    by (rule run_idle[OF buf _ fresh(1,2)]) (use len in \<open>auto simp: sync_next_def detected_def\<close>)
  then obtain t1 where t1: "run_tlm push_back crc elapsed s1 tlm = Some t1" "has_seen (map Prompt_I s1) t1"
    "sync_state t1 = (0, 0, 1016)" "page_state t1 = page_state tlm" using len by auto
  have v1: "latest 1017 (map Prompt_I s1 @ [Prompt_I s2]) = take 1017 vals"
    using len by (simp add: latest_all vals_def syms)
  have det1: "detected (take 1017 vals)"
  proof (rule preamble_detected)
    show "preamble_heard inverted' (take 1017 vals)" using pre(1) by (simp add: preamble_heard_def vals_def)
    show "1016 < length (take 1017 vals)" using n by (simp add: vals_def)
  qed
  have "d_stat t1 < 2" using t1(3) by (simp add: sync_state_def)
  then obtain out2 t2 where t2: "general_work push_back crc elapsed s2 t1 = Some (out2, t2)" "has_seen (map Prompt_I s1 @ [Prompt_I s2]) t2"
    "sync_state t2 = (1, 1017, 1017)" "page_state t2 = page_state t1"
    by (rule step_search[OF buf t1(2), of crc elapsed s2]) (simp add: v1 det1 t1(3) sync_next_def)
  have "\<exists>t. run_tlm push_back crc elapsed s3 t2 = Some t \<and> has_seen ((map Prompt_I s1 @ [Prompt_I s2]) @ map Prompt_I s3) t
      \<and> sync_state t = (1, 1017, 1017 + length s3) \<and> page_state t = page_state t2"
    by (rule run_idle[OF buf _ t2(2,3)]) (use len sync_next_near[of 1017 "1017 + _"] in \<open>auto simp: add.commute\<close>)
  then obtain t3 where t3: "run_tlm push_back crc elapsed s3 t2 = Some t3"
    "has_seen (map Prompt_I s1 @ Prompt_I s2 # map Prompt_I s3) t3" "sync_state t3 = (1, 1017, 2016)" "page_state t3 = page_state t2"
    using len by auto
  have all: "(map Prompt_I s1 @ Prompt_I s2 # map Prompt_I s3) @ [Prompt_I s4] = vals" by (simp add: vals_def syms)
  have v4: "latest 1017 vals = drop 1000 vals" using n by (simp add: latest_def vals_def)
  have det4: "detected (drop 1000 vals)" using n pre(2) by (intro preamble_detected[of inverted]) (simp_all add: vals_def)
  have "d_stat t3 < 2" using t3(3) by (simp add: sync_state_def)
  then obtain out4 t4 where t4: "general_work push_back crc elapsed s4 t3 = Some (out4, t4)" "has_seen vals t4"
    "sync_state t4 = sync_next (detected (drop 1000 vals)) (sync_state t3)" "page_state t4 = page_state t3"
    "d_stat t4 = 2 \<longrightarrow> d_flag_PLL_180_deg_phase_locked t4 = (preamble_correlation (drop 1000 vals) < 0)"
    by (rule step_search[OF buf t3(2), of crc elapsed s4, unfolded all v4])
  have s4: "sync_state t4 = (2, 2017, 2017)" using t4(3) det4 t3(3) sync_next_period[of 1017] by simp
  have flag: "d_flag_PLL_180_deg_phase_locked t4 \<longleftrightarrow> inverted"
    using s4 t4(5) preamble_correlation_heard[OF pre(2)] by (simp add: sync_state_def vals_def)
  have ps: "d_viterbi t4 = d_viterbi tlm" "E6_HAS_from_TLM (d_cnav t4) = []"
    using t4(4) t3(4) t2(4) t1(4) fresh(4) by (simp_all add: page_state_def)
  have "run_tlm push_back crc elapsed syms tlm = Some t4"
    using t1(1) t2(1) t3(1) t4(1) unfolding syms by (simp add: run_tlm_append run_tlm_Cons) (simp add: run_tlm_def)
  moreover have "locked_on behind inverted vals t4"
    using t4(2) s4 flag ps(1) fresh(3) n by (simp add: locked_on_def sync_state_def vals_def)
  ultimately show ?thesis using ps(2) by (simp add: vals_def)
qed

section \<open>After a loss\<close>

text \<open>The symbols up to the next preamble.\<close>

definition to_preamble :: "'f::{zero,ord} list \<Rightarrow> 'f tracked_symbol list \<Rightarrow> bool" where
  "to_preamble past syms \<longleftrightarrow> syms \<noteq> []
     \<and> (\<forall>k < length syms. detected (latest 1017 (past @ map Prompt_I (take (Suc k) syms))) \<longleftrightarrow> Suc k = length syms)"

lemma run_to_preamble:
  assumes buf: "circular_buffer push_back" and st: "st < 2"
    and tlm: "has_seen past tlm" "sync_state tlm = (st, idx, c)" and syms: "to_preamble past syms"
  shows "\<exists>tlm'. run_tlm push_back crc elapsed syms tlm = Some tlm' \<and> has_seen (past @ map Prompt_I syms) tlm'
    \<and> sync_state tlm' = sync_next True (st, idx, c + length syms - 1)"
proof -
  obtain xs cur where s: "syms = xs @ [cur]" using syms by (cases syms rule: rev_cases) (auto simp: to_preamble_def)
  have "\<forall>k < length xs. sync_next (detected (latest 1017 (past @ map Prompt_I (take (Suc k) xs)))) (st, idx, c + k) = (st, idx, Suc (c + k))"
  proof (intro allI impI)
    fix k assume k: "k < length xs"
    then have "k < length syms" using s by simp
    then have "detected (latest 1017 (past @ map Prompt_I (take (Suc k) syms))) \<longleftrightarrow> Suc k = length syms"
      using syms unfolding to_preamble_def by blast
    moreover have "take (Suc k) syms = take (Suc k) xs" "Suc k \<noteq> length syms" using k s by simp_all
    ultimately show "sync_next (detected (latest 1017 (past @ map Prompt_I (take (Suc k) xs)))) (st, idx, c + k) = (st, idx, Suc (c + k))"
      by (simp add: sync_next_def)
  qed
  then obtain t where t: "run_tlm push_back crc elapsed xs tlm = Some t" "has_seen (past @ map Prompt_I xs) t"
    "sync_state t = (st, idx, c + length xs)"
    using run_idle[OF buf st tlm] by blast
  have "detected (latest 1017 ((past @ map Prompt_I xs) @ [Prompt_I cur]))"
  proof -
    have "length xs < length syms" using s by simp
    then have "detected (latest 1017 (past @ map Prompt_I (take (Suc (length xs)) syms)))"
      using syms s unfolding to_preamble_def by auto
    then show ?thesis using s by simp
  qed
  moreover have "d_stat t < 2" using t(3) st by (simp add: sync_state_def)
  then obtain out tlm' where "general_work push_back crc elapsed cur t = Some (out, tlm')"
    "has_seen ((past @ map Prompt_I xs) @ [Prompt_I cur]) tlm'"
    "sync_state tlm' = sync_next (detected (latest 1017 ((past @ map Prompt_I xs) @ [Prompt_I cur]))) (sync_state t)"
    by (rule step_search[OF buf t(2)])
  ultimately show ?thesis using t s by (auto simp: run_tlm_def foldM_append)
qed

text \<open>Four preambles in sequence, 1000 symbols apart, and nothing else that looks like one.\<close>

definition four_preambles :: "'f::{zero,ord} list \<Rightarrow> 'f tracked_symbol list list \<Rightarrow> bool" where
  "four_preambles past segs \<longleftrightarrow> length segs = 4 \<and> (\<forall>j < 4. to_preamble (past @ map Prompt_I (concat (take j segs))) (segs ! j)
     \<and> (0 < j \<longrightarrow> length (segs ! j) = 1000))"

lemma run_two_preambles:
  assumes buf: "circular_buffer push_back" and tlm: "has_seen past tlm" "sync_state tlm = (st, idx, c)"
    and segs: "\<forall>j < length segs. to_preamble (past @ map Prompt_I (concat (take j segs))) (segs ! j) \<and> length (segs ! j) = 1000"
    and st: "st = 0 \<and> 2 \<le> length segs \<or> st = 1 \<and> idx = c \<and> 1 \<le> length segs"
  shows "\<exists>j tlm'. j \<le> length segs \<and> run_tlm push_back crc elapsed (concat (take j segs)) tlm = Some tlm'
    \<and> d_stat tlm' = 2 \<and> d_preamble_index tlm' = d_symbol_counter tlm'"
proof -
  have final: "\<exists>t. run_tlm push_back crc elapsed seg tlm = Some t \<and> d_stat t = 2 \<and> d_preamble_index t = d_symbol_counter t"
    if "has_seen past tlm" "sync_state tlm = (1, c, c)" "to_preamble past seg" "length seg = 1000" for past tlm c seg
    using run_to_preamble[OF buf _ that(1-3), of crc elapsed] that(4) sync_next_period[of c] by (auto simp: sync_state_def add.commute)
  consider "st = 1" "idx = c" "1 \<le> length segs" | "st = 0" "2 \<le> length segs" using st by blast
  then show ?thesis
  proof cases
    case 1
    then obtain seg segs' where s: "segs = seg # segs'" by (cases segs) auto
    have "to_preamble past seg" "length seg = 1000" using segs[rule_format, of 0] s by simp_all
    then show ?thesis using final[OF tlm(1), of c seg] tlm(2) 1 s by (intro exI[of _ 1]) simp
  next
    case 2
    then obtain seg seg' segs' where s: "segs = seg # seg' # segs'" by (cases segs; cases "tl segs") auto
    have seg: "to_preamble past seg" "length seg = 1000" "to_preamble (past @ map Prompt_I seg) seg'" "length seg' = 1000"
      using segs[rule_format, of 0] segs[rule_format, of 1] s by simp_all
    have "st < 2" using 2 by simp
    then obtain t where t: "run_tlm push_back crc elapsed seg tlm = Some t" "has_seen (past @ map Prompt_I seg) t"
      "sync_state t = (1, c + 1000, c + 1000)"
      using run_to_preamble[OF buf _ tlm seg(1), of crc elapsed] seg(2) 2 by (auto simp: sync_next_def)
    then show ?thesis
      using final[OF t(2,3) seg(3,4)] s by (intro exI[of _ 2]) (auto simp: run_tlm_append)
  qed
qed

lemma run_preambles:
  assumes buf: "circular_buffer push_back" and tlm: "has_seen past tlm" "sync_state tlm = (st, idx, c)"
    and segs: "\<forall>j < length segs. to_preamble (past @ map Prompt_I (concat (take j segs))) (segs ! j) \<and> length (segs ! j) = 1000"
    and st: "length segs = 3" "st = 0 \<or> st = 1 \<and> (idx = c \<or> idx < c \<and> c < idx + 1000)"
  shows "\<exists>j tlm'. j \<le> 3 \<and> run_tlm push_back crc elapsed (concat (take j segs)) tlm = Some tlm'
    \<and> d_stat tlm' = 2 \<and> d_preamble_index tlm' = d_symbol_counter tlm'"
proof (cases "st = 0 \<or> idx = c")
  case True
  moreover have "st = 0 \<and> 2 \<le> length segs \<or> st = 1 \<and> idx = c \<and> 1 \<le> length segs" using calculation st by auto
  ultimately show ?thesis using run_two_preambles[OF buf tlm segs, of crc elapsed] st(1) by simp
next
  case False
  obtain seg segs' where s: "segs = seg # segs'" "length segs' = 2" using st(1) by (cases segs) auto
  have seg: "to_preamble past seg" "length seg = 1000" using segs[rule_format, of 0] s by simp_all
  have idx: "idx < c" "c < idx + 1000" "st = 1" using False st by auto
  have "signed_take_bit 31 (1000 + int c - int idx) = 1000 + int c - int idx"
    using idx by (intro signed_take_bit_int_eq_self) simp_all
  then have "sync_next True (1, idx, c + 1000 - 1) = (0, idx, c + 1000)"
    using idx by (simp add: sync_next_def Let_def)
  then obtain t where t: "run_tlm push_back crc elapsed seg tlm = Some t" "has_seen (past @ map Prompt_I seg) t"
    "sync_state t = (0, idx, c + 1000)"
    using run_to_preamble[OF buf _ tlm seg(1), of crc elapsed] seg(2) idx(3) by auto
  have "\<forall>j < length segs'. to_preamble ((past @ map Prompt_I seg) @ map Prompt_I (concat (take j segs'))) (segs' ! j)
      \<and> length (segs' ! j) = 1000"
    using segs s by (auto dest: spec[of _ "Suc _"])
  then obtain j t' where "j \<le> 2" "run_tlm push_back crc elapsed (concat (take j segs')) t = Some t'"
    "d_stat t' = 2" "d_preamble_index t' = d_symbol_counter t'"
    using run_two_preambles[OF buf t(2,3), of segs' crc elapsed] s(2) by auto
  then show ?thesis using t(1) s(1) by (intro exI[of _ "Suc j"] exI[of _ t']) (simp add: run_tlm_append)
qed

text \<open>C20: A decoder that is not in sync, be it without a preamble or with one that it has taken for the
  start of a page by mistake, is in sync, at the start of a page, at the latest when the fourth preamble of an
  undisturbed stream has arrived, that is within 4000 symbols. The bound on the age of the mistaken preamble
  is the range of the 32-bit difference, about 24 days.
\<close>
theorem in_sync_after_four_preambles:
  assumes "circular_buffer push_back" "has_seen past tlm" "d_stat tlm < 2" "four_preambles past segs" "length (segs ! 0) \<le> 1000"
    and "d_preamble_index tlm \<le> d_symbol_counter tlm" "d_symbol_counter tlm < d_preamble_index tlm + 2147480000"
  shows "\<exists>j tlm'. j \<le> 4 \<and> length (concat (take j segs)) \<le> 4000 \<and> run_tlm push_back crc elapsed (concat (take j segs)) tlm = Some tlm'
    \<and> d_stat tlm' = 2 \<and> d_preamble_index tlm' = d_symbol_counter tlm'"
proof -
  obtain a segs' where s: "segs = a # segs'" "length segs' = 3"
    using assms(4) by (cases segs) (auto simp: four_preambles_def)
  have len: "length (segs ! j) \<le> 1000" if "j < 4" for j
    using assms(4,5) that by (cases j) (auto simp: four_preambles_def)
  have short: "length (concat (take j segs)) \<le> 4000" for j
  proof -
    have "length (concat xss) \<le> 1000 * length xss" if "\<forall>x \<in> set xss. length x \<le> 1000" for xss :: "'a tracked_symbol list list"
      using that by (induction xss) auto
    moreover have "length segs = 4" using s by simp
    then have "\<forall>x \<in> set segs. length x \<le> 1000" using len by (metis in_set_conv_nth)
    then have "\<forall>x \<in> set (take j segs). length x \<le> 1000" by (meson in_set_takeD)
    ultimately have "length (concat (take j segs)) \<le> 1000 * length (take j segs)" by blast
    then show ?thesis using s by simp
  qed
  let ?st = "d_stat tlm" and ?idx = "d_preamble_index tlm" and ?c = "d_symbol_counter tlm"
  have sync: "sync_state tlm = (?st, ?idx, ?c)" by (simp add: sync_state_def)
  have a: "to_preamble past a" using assms(4) s by (auto simp: four_preambles_def dest: spec[of _ 0])
  have rest: "to_preamble (past @ map Prompt_I a @ map Prompt_I (concat (take j segs'))) (segs' ! j) \<and> length (segs' ! j) = 1000"
    if "j < 3" for j
    using assms(4) that s by (auto simp: four_preambles_def dest: spec[of _ "Suc j"])
  have a1: "a \<noteq> []" using a by (simp add: to_preamble_def)
  have a2: "length a \<le> 1000" using assms(5) s by simp
  obtain t where t: "run_tlm push_back crc elapsed a tlm = Some t" "has_seen (past @ map Prompt_I a) t"
    "sync_state t = sync_next True (?st, ?idx, ?c + length a - 1)"
    using run_to_preamble[OF assms(1,3,2) sync a, of crc elapsed] by blast
  have c: "Suc (?c + length a - 1) = ?c + length a" using a1 by (cases a) simp_all
  have more: ?thesis if ex: "\<exists>j tlm'. j \<le> 3 \<and> run_tlm push_back crc elapsed (concat (take j segs')) t = Some tlm'
      \<and> d_stat tlm' = 2 \<and> d_preamble_index tlm' = d_symbol_counter tlm'"
  proof -
    obtain j tlm' where "j \<le> 3" "run_tlm push_back crc elapsed (concat (take j segs')) t = Some tlm'" "d_stat tlm' = 2"
      "d_preamble_index tlm' = d_symbol_counter tlm'" using ex by blast
    then show ?thesis using short[of "Suc j"] s t(1) by (intro exI[of _ "Suc j"] exI[of _ tlm']) (simp add: run_tlm_append)
  qed
  have diff: "signed_take_bit 31 (int (?c + n) - int ?idx) = int (?c + n) - int ?idx" if "n \<le> 2000" for n
    using assms(6,7) that by (intro signed_take_bit_int_eq_self) simp_all
  define c' where "c' = ?c + length a"
  have c': "?idx < c'" "Suc (?c + length a - 1) = c'" using assms(6) a1 by (cases a; simp add: c'_def)+
  have segs': "\<forall>j < length segs'. to_preamble ((past @ map Prompt_I a) @ map Prompt_I (concat (take j segs'))) (segs' ! j)
      \<and> length (segs' ! j) = 1000" using rest s by simp
  note run = run_preambles[OF assms(1) t(2) _ segs', of _ _ c' crc elapsed]
  have d: "signed_take_bit 31 (int c' - int ?idx) = int c' - int ?idx" using diff[of "length a"] a2 by (simp add: c'_def)
  have next_state: "sync_state t = (if ?st = 0 then (1, c', c') else if int c' - int ?idx = 1000 then (2, c', c')
      else (if 1000 < int c' - int ?idx then 0 else ?st, ?idx, c'))"
    unfolding t(3) sync_next_def prod.case c'(2) d Let_def by simp
  consider "?st = 0" | "?st = 1" "c' = ?idx + 1000" | "?st = 1" "c' < ?idx + 1000" | "?st = 1" "?idx + 1000 < c'"
    using assms(3) by linarith
  then show ?thesis
  proof cases
    case 1
    then have "sync_state t = (1, c', c')" using next_state by simp
    then show ?thesis using run s(2) by (intro more) auto
  next
    case 2
    then have "sync_state t = (2, c', c')" using next_state by simp
    then show ?thesis using t(1) short[of 1] s by (intro exI[of _ 1] exI[of _ t]) (simp add: sync_state_def)
  next
    case 3
    then have "sync_state t = (1, ?idx, c')" using next_state by simp
    then show ?thesis using run 3 c'(1) s(2) by (intro more) auto
  next
    case 4
    then have "sync_state t = (0, ?idx, c')" using next_state by simp
    then show ?thesis using run s(2) by (intro more) auto
  qed
qed

text \<open>A stream with positive symbols between preambles.\<close>

definition beacon :: "nat \<Rightarrow> int" where
  "beacon i = (let r = i mod 1000 in if r < 16 then d_preamble_samples ! r else 1)"

lemma d_preamble_samples_eq: "d_preamble_samples = [1, - 1, 1, 1, - 1, 1, 1, 1, - 1, 1, 1, 1, - 1, - 1, - 1, - 1]"
  by (simp add: d_preamble_samples_def GALILEO_CNAV_PREAMBLE_def)

lemma sum_of_signs:
  fixes e :: "nat \<Rightarrow> int"
  assumes "\<forall>i < n. e i = 1 \<or> e i = - 1" "i < n" "e i = 1" "j < n" "e j = - 1"
  shows "\<bar>\<Sum>i<n. e i\<bar> < int n"
proof -
  have "(\<Sum>k<n. e k) < (\<Sum>k<n. 1)" using assms by (intro sum_strict_mono_ex1) (auto intro!: bexI[of _ j])
  moreover have "(\<Sum>k<n. - 1) < (\<Sum>k<n. e k)" using assms by (intro sum_strict_mono_ex1) (auto intro!: bexI[of _ i])
  ultimately show ?thesis by simp
qed

lemma not_detected:
  assumes "i < 16" "(xs ! i < 0) = (d_preamble_samples ! i = - 1)" "j < 16" "(xs ! j < 0) \<noteq> (d_preamble_samples ! j = - 1)"
  shows "\<not> detected xs"
proof -
  define e where "e = (\<lambda>i. if xs ! i < 0 then - (d_preamble_samples ! i) else d_preamble_samples ! i)"
  have "foldl (\<lambda>corr i. if xs ! i < 0 then corr - d_preamble_samples ! i else corr + d_preamble_samples ! i) a [0..<n]
      = a + (\<Sum>i<n. e i)" for a n
    by (induction n) (simp_all add: e_def)
  from this[of 0 16] have "preamble_correlation xs = (\<Sum>i<16. e i)" by (simp add: preamble_correlation_def)
  moreover have "\<bar>\<Sum>i<16. e i\<bar> < int 16"
    by (rule sum_of_signs[of _ e i j]) (use assms preamble_samples in \<open>auto simp: e_def\<close>)
  ultimately show ?thesis by (simp add: detected_def)
qed

lemma beacon_mismatch_near:
  "\<forall>r \<in> set ([1..<16] @ [985..<1000]). (\<exists>i \<in> set [0..<16]. (beacon (r + i) < 0) = (d_preamble_samples ! i = - 1))
    \<and> (\<exists>i \<in> set [0..<16]. (beacon (r + i) < 0) \<noteq> (d_preamble_samples ! i = - 1))"
  by code_simp

lemma beacon_mismatch:
  assumes "0 < r" "r < 1000"
  shows "(\<exists>i < 16. (beacon (r + i) < 0) = (d_preamble_samples ! i = - 1))
    \<and> (\<exists>i < 16. (beacon (r + i) < 0) \<noteq> (d_preamble_samples ! i = - 1))"
proof (cases "16 \<le> r \<and> r < 985")
  case True
  then have "beacon (r + 0) = 1" "beacon (r + 1) = 1" by (simp_all add: beacon_def Let_def)
  moreover have "d_preamble_samples ! 0 = 1" "d_preamble_samples ! 1 = - 1" by (simp_all add: d_preamble_samples_eq)
  ultimately show ?thesis by (intro conjI exI[of _ 0] exI[of _ 1]) simp_all
next
  case False
  then have "r \<in> set ([1..<16] @ [985..<1000])" using assms by (simp only: set_append set_upt Un_iff atLeastLessThan_iff simp_thms) linarith
  from beacon_mismatch_near[rule_format, OF this] show ?thesis by (simp only: Bex_def set_upt atLeastLessThan_iff) blast
qed

definition beacon_symbol :: "nat \<Rightarrow> int tracked_symbol" where
  "beacon_symbol i = \<lparr> Prompt_I = beacon i, Tracking_sample_counter = 0, sampling_rate = 1, Flag_valid_word = False, tags_vec = [] \<rparr>"

lemma preamble_sample_negative: "i < 16 \<Longrightarrow> d_preamble_samples ! i < 0 \<longleftrightarrow> d_preamble_samples ! i = - 1"
  using preamble_samples[of i] by auto

lemma shift_mod: "e < 1000 \<Longrightarrow> (17 + e) mod 1000 = 17 \<longleftrightarrow> e = (0 :: nat)"
  by (cases "17 + e < 1000") (simp_all add: le_mod_geq)

lemma beacon_detected:
  assumes "1017 \<le> n"
  shows "detected (latest 1017 (map beacon [0..<n])) \<longleftrightarrow> n mod 1000 = 17"
proof -
  let ?xs = "latest 1017 (map beacon [0..<n])" and ?r = "(n - 1017) mod 1000"
  have at: "?xs ! i = beacon (?r + i)" if "i < 16" for i
  proof -
    have "?xs ! i = beacon (n - 1017 + i)" using assms that by (simp add: latest_def)
    also have "\<dots> = beacon (?r + i)" by (simp add: beacon_def mod_simps)
    finally show ?thesis .
  qed
  obtain x where x: "n = 1017 + x" using assms by (auto simp: le_iff_add)
  have "1017 + x = 1000 + (17 + x)" by simp
  then have "n mod 1000 = (17 + x mod 1000) mod 1000" unfolding x by (simp only: mod_add_self1 mod_add_right_eq)
  then have "n mod 1000 = (17 + ?r) mod 1000" by (simp only: x diff_add_inverse)
  then have r: "?r = 0 \<longleftrightarrow> n mod 1000 = 17" using shift_mod[of ?r] by simp
  show ?thesis
  proof (cases "?r = 0")
    case True
    have "preamble_heard False ?xs"
      using at True preamble_sample_negative by (simp add: preamble_heard_def beacon_def)
    then show ?thesis using True r assms by (auto intro: preamble_detected)
  next
    case False
    then have "0 < ?r" "?r < 1000" by simp_all
    then obtain i j where "i < 16" "(beacon (?r + i) < 0) = (d_preamble_samples ! i = - 1)"
      "j < 16" "(beacon (?r + j) < 0) \<noteq> (d_preamble_samples ! j = - 1)" using beacon_mismatch by metis
    then have "\<not> detected ?xs" using not_detected[of i ?xs j] at by simp
    then show ?thesis using False r by simp
  qed
qed

lemma beacon_to_preamble:
  assumes "1017 \<le> n" "0 < m" "m \<le> 1000" "(n + m) mod 1000 = 17"
  shows "to_preamble (map beacon [0..<n]) (map beacon_symbol [n..<n + m])"
  unfolding to_preamble_def
proof (intro conjI allI impI)
  show "map beacon_symbol [n..<n + m] \<noteq> []" using assms(2) by simp
  fix k assume "k < length (map beacon_symbol [n..<n + m])"
  then have k: "k < m" by simp
  have "map Prompt_I (take (Suc k) (map beacon_symbol [n..<n + m])) = map beacon [n..<n + Suc k]"
    using k by (simp add: take_map beacon_symbol_def o_def min_def)
  then have "map beacon [0..<n] @ map Prompt_I (take (Suc k) (map beacon_symbol [n..<n + m])) = map beacon [0..<n + Suc k]"
    by (simp only: map_append[symmetric] upt_add_eq_append[symmetric] le0)
  moreover have same: "(n + Suc k) mod 1000 = 17 \<longleftrightarrow> Suc k = m"
  proof
    assume "(n + Suc k) mod 1000 = 17"
    then have "(n + m) mod 1000 = (n + Suc k) mod 1000" using assms(4) by simp
    then have "1000 dvd n + m - (n + Suc k)" using k by (subst (asm) mod_eq_dvd_iff_nat) simp_all
    then have "1000 dvd m - Suc k" by simp
    then show "Suc k = m" using k assms(3) dvd_imp_le[of 1000 "m - Suc k"] by (cases "m = Suc k") simp_all
  qed (use assms(4) in simp)
  ultimately show "detected (latest 1017 (map beacon [0..<n] @ map Prompt_I (take (Suc k) (map beacon_symbol [n..<n + m]))))
      \<longleftrightarrow> Suc k = length (map beacon_symbol [n..<n + m])"
    using beacon_detected[of "n + Suc k"] same assms(1) by (simp del: upt_Suc)
qed

text \<open>A decoder with a mistaken preamble 300 symbols ago.\<close>

definition lost_decoder :: "int list \<Rightarrow> int cnav_tlm \<Rightarrow> int cnav_tlm" where
  "lost_decoder past tlm = tlm\<lparr> d_symbol_history := latest 1017 past, d_symbol_counter := 1500, d_preamble_index := 1200, d_stat := 1 \<rparr>"

definition beacon_segment :: "nat \<Rightarrow> nat \<Rightarrow> int tracked_symbol list" where
  "beacon_segment n m = map beacon_symbol [n..<n + m]"

definition beacon_past :: "nat \<Rightarrow> int list" where
  "beacon_past n = map beacon [0..<n]"

theorem in_sync_after_four_preambles_witness:
  "\<exists>tlm j tlm'. make_cnav_tlm (10000000 :: int) True False 11 = Some tlm \<and> j \<le> 4
    \<and> run_tlm ring_push (\<lambda>_. 0) (\<lambda>_ _. 0) (concat (take j [beacon_segment 1500 517, beacon_segment 2017 1000,
        beacon_segment 3017 1000, beacon_segment 4017 1000])) (lost_decoder (beacon_past 1500) tlm) = Some tlm' \<and> d_stat tlm' = 2"
proof -
  obtain tlm where tlm: "make_cnav_tlm (10000000 :: int) True False 11 = Some tlm"
    by (cases "make_cnav_tlm (10000000 :: int) True False 11") (simp_all add: make_cnav_tlm_def Viterbi_Decoder_def)
  let ?segs = "[beacon_segment 1500 517, beacon_segment 2017 1000, beacon_segment 3017 1000, beacon_segment 4017 1000]"
  have p: "to_preamble (beacon_past n) (beacon_segment n m)" "length (beacon_segment n m) = m"
    if "1017 \<le> n" "0 < m" "m \<le> 1000" "(n + m) mod 1000 = 17" for n m
    using beacon_to_preamble[OF that] by (simp_all add: beacon_segment_def beacon_past_def)
  have ap: "beacon_past n @ map Prompt_I (beacon_segment n m @ xs) = beacon_past (n + m) @ map Prompt_I xs" for n m xs
  proof -
    have "map Prompt_I (beacon_segment n m) = map beacon [n..<n + m]" by (simp add: beacon_segment_def beacon_symbol_def)
    then show ?thesis
      using upt_add_eq_append[of 0 n m] by (simp add: beacon_past_def)
  qed
  have four: "four_preambles (beacon_past 1500) ?segs"
    unfolding four_preambles_def
  proof (intro conjI allI impI)
    fix j :: nat assume "j < 4"
    then consider (0) "j = 0" | (1) "j = 1" | (2) "j = 2" | (3) "j = 3" by linarith
    note j = this
    show "to_preamble (beacon_past 1500 @ map Prompt_I (concat (take j ?segs))) (?segs ! j)"
      using j
    proof cases
      case 0
      then show ?thesis using p(1)[of 1500 517] by simp
    next
      case 1
      then show ?thesis using p(1)[of 2017 1000] ap[of 1500 517 "[]"] by simp
    next
      case 2
      then show ?thesis using p(1)[of 3017 1000] ap[of 1500 517 "[]"] ap[of 2017 1000 "[]"]
        by (simp add: numeral_2_eq_2 flip: append_assoc)
    next
      case 3
      then show ?thesis using p(1)[of 4017 1000] ap[of 1500 517 "[]"] ap[of 2017 1000 "[]"] ap[of 3017 1000 "[]"]
        by (simp add: numeral_3_eq_3 flip: append_assoc)
    qed
    show "length (?segs ! j) = 1000" if "0 < j"
      using j that p(2)[of 2017 1000] p(2)[of 3017 1000] p(2)[of 4017 1000] by cases (simp_all add: numeral_2_eq_2 numeral_3_eq_3)
  qed simp
  have "has_seen (beacon_past 1500) (lost_decoder (beacon_past 1500) tlm)" "d_stat (lost_decoder (beacon_past 1500) tlm) < 2"
    "length (?segs ! 0) \<le> 1000"
    "d_preamble_index (lost_decoder (beacon_past 1500) tlm) \<le> d_symbol_counter (lost_decoder (beacon_past 1500) tlm)"
    "d_symbol_counter (lost_decoder (beacon_past 1500) tlm) < d_preamble_index (lost_decoder (beacon_past 1500) tlm) + 2147480000"
    using p(2)[of 1500 517] by (simp_all add: has_seen_def lost_decoder_def)
  from in_sync_after_four_preambles[OF ring_push_circular this(1,2) four this(3-5), of "\<lambda>_. 0" "\<lambda>_ _. 0"] tlm
  show ?thesis by blast
qed

end
