(* ===== verification/Cnav_Link.thy ===== *)
theory Cnav_Link
  imports Cnav_Acquisition Has_Link
begin

text \<open>
  From the symbols of a channel to the corrections: tracking, telemetry decoder and receiver of the High
  Accuracy Service together.
\<close>

section \<open>A stream of pages\<close>

definition symbol_time :: "'f tracked_symbol \<Rightarrow> u64" where
  "symbol_time cur = Tracking_sample_counter cur div of_int (sampling_rate cur)"

context metrics
begin

lemma run_pages:
  fixes tlm :: "'f cnav_tlm"
  assumes buf: "circular_buffer push_back" and "locked_on behind inverted past tlm" "length syms = 1000 * length ps"
    and "\<forall>k < length ps. page_heard behind gain crc inverted (ps ! k) (page_window (past @ map Prompt_I (take (1000 * Suc k) syms)))
      \<and> sampling_rate (syms ! (1000 * k + 999)) \<noteq> 0"
  shows "\<exists>tlm' qs. run_tlm push_back crc elapsed syms tlm = Some tlm' \<and> locked_on behind inverted (past @ map Prompt_I syms) tlm'
    \<and> E6_HAS_from_TLM (d_cnav tlm') = E6_HAS_from_TLM (d_cnav tlm) @ qs \<and> length qs = length ps
    \<and> (\<forall>k < length ps. same_page (symbol_time (syms ! (1000 * k + 999))) (ps ! k) (qs ! k))"
  using assms(2-)
proof (induction ps arbitrary: past tlm syms)
  case Nil
  then show ?case by (simp add: run_tlm_def)
next
  case (Cons p ps)
  define xs where "xs = take 1000 syms"
  define ys where "ys = drop 1000 syms"
  have syms: "syms = xs @ ys" and len: "length xs = 1000" "length ys = 1000 * length ps"
    using Cons.prems(2) by (simp_all add: xs_def ys_def)
  have "xs \<noteq> []" using len(1) by auto
  then have l: "last xs = syms ! 999" using len by (simp add: last_conv_nth syms nth_append)
  have h: "page_heard behind gain crc inverted p (page_window (past @ map Prompt_I xs))" "sampling_rate (last xs) \<noteq> 0"
    using Cons.prems(3)[rule_format, of 0] len l by (simp_all add: syms)
  obtain t q where t: "run_tlm push_back crc elapsed xs tlm = Some t" "locked_on behind inverted (past @ map Prompt_I xs) t"
    "E6_HAS_from_TLM (d_cnav t) = E6_HAS_from_TLM (d_cnav tlm) @ [q]" "same_page (symbol_time (last xs)) p q"
    using run_page[OF buf Cons.prems(1) len(1) h, of elapsed] by (auto simp: symbol_time_def)
  have rest: "page_heard behind gain crc inverted (ps ! k) (page_window ((past @ map Prompt_I xs) @ map Prompt_I (take (1000 * Suc k) ys)))
      \<and> sampling_rate (ys ! (1000 * k + 999)) \<noteq> 0" if "k < length ps" for k
  proof -
    have "take (1000 * Suc (Suc k)) syms = xs @ take (1000 * Suc k) ys" using len by (simp add: syms)
    moreover have "syms ! (1000 * Suc k + 999) = ys ! (1000 * k + 999)" using len by (simp add: syms nth_append add.commute)
    ultimately show ?thesis using Cons.prems(3)[rule_format, of "Suc k"] that by simp
  qed
  obtain t' qs where t': "run_tlm push_back crc elapsed ys t = Some t'"
    "locked_on behind inverted ((past @ map Prompt_I xs) @ map Prompt_I ys) t'" "E6_HAS_from_TLM (d_cnav t') = E6_HAS_from_TLM (d_cnav t) @ qs"
    "length qs = length ps" "\<forall>k < length ps. same_page (symbol_time (ys ! (1000 * k + 999))) (ps ! k) (qs ! k)"
    using Cons.IH[OF t(2) len(2)] rest by blast
  have "same_page (symbol_time (syms ! (1000 * k + 999))) ((p # ps) ! k) ((q # qs) ! k)" if "k < Suc (length ps)" for k
  proof (cases k)
    case (Suc j)
    have "syms ! (1000 * Suc j + 999) = ys ! (1000 * j + 999)" using len by (simp add: syms nth_append add.commute)
    then show ?thesis using t'(5) that Suc by simp
  qed (use t(4) l in simp)
  then show ?case
    using t(1,3) t'(1-4) by (intro exI[of _ t'] exI[of _ "q # qs"]) (simp add: syms run_tlm_append)
qed

end

text \<open>The symbols of a stream: preambles of 16 symbols, pages of 984. The first two preambles are
  used to lock on, the pages after the third one are the first to be decoded.\<close>

definition stream_carries :: "('f \<Rightarrow> bool) \<Rightarrow> ('f \<Rightarrow> bool) \<Rightarrow> (u8 list \<Rightarrow> u32) \<Rightarrow> bool \<Rightarrow> has_page list
    \<Rightarrow> 'f::{zero,uminus,ord} tracked_symbol list \<Rightarrow> bool" where
  "stream_carries behind gain crc inverted ps syms \<longleftrightarrow> length syms = 2017 + 1000 * length ps
     \<and> preamble_heard inverted (map Prompt_I syms) \<and> preamble_heard inverted (drop 1000 (map Prompt_I syms))
     \<and> (\<forall>k < length ps. page_heard behind gain crc inverted (ps ! k) (take 984 (drop (2016 + 1000 * k) (map Prompt_I syms)))
          \<and> sampling_rate (syms ! (3016 + 1000 * k)) \<noteq> 0)"

context metrics
begin

lemma stream_decoded:
  assumes buf: "circular_buffer push_back" and tlm: "make_cnav_tlm maxlog e6 trk prn = Some tlm" "behind (- maxlog)"
    and s: "stream_carries behind gain crc inverted ps syms"
  shows "\<exists>tlm' qs. run_tlm push_back crc elapsed syms tlm = Some tlm' \<and> locked_on behind inverted (map Prompt_I syms) tlm'
    \<and> E6_HAS_from_TLM (d_cnav tlm') = qs \<and> length qs = length ps
    \<and> (\<forall>k < length ps. same_page (symbol_time (syms ! (3016 + 1000 * k))) (ps ! k) (qs ! k))"
proof -
  define xs where "xs = take 2017 syms"
  define ys where "ys = drop 2017 syms"
  have n: "length syms = 2017 + 1000 * length ps" using s by (simp add: stream_carries_def)
  have syms: "syms = xs @ ys" and len: "length xs = 2017" "length ys = 1000 * length ps"
    using n by (simp_all add: xs_def ys_def)
  have pre: "preamble_heard inverted (map Prompt_I xs)" "preamble_heard inverted (drop 1000 (map Prompt_I xs))"
  proof -
    have "map Prompt_I xs ! i = map Prompt_I syms ! i" "drop 1000 (map Prompt_I xs) ! i = drop 1000 (map Prompt_I syms) ! i"
      if "i < 16" for i
      using that len by (simp_all add: syms nth_append)
    then have "preamble_heard inverted (map Prompt_I xs) = preamble_heard inverted (map Prompt_I syms)"
      "preamble_heard inverted (drop 1000 (map Prompt_I xs)) = preamble_heard inverted (drop 1000 (map Prompt_I syms))"
      unfolding preamble_heard_def by metis+
    then show "preamble_heard inverted (map Prompt_I xs)" "preamble_heard inverted (drop 1000 (map Prompt_I xs))"
      using s by (simp_all add: stream_carries_def)
  qed
  obtain t where t: "run_tlm push_back crc elapsed xs tlm = Some t" "locked_on behind inverted (map Prompt_I xs) t"
    "E6_HAS_from_TLM (d_cnav t) = []"
    using fresh_decoder_locks[where behind = behind, OF buf tlm len(1) pre, of crc elapsed] by blast
  have at: "ys ! (1000 * k + 999) = syms ! (3016 + 1000 * k)" for k
    using len by (simp add: syms nth_append add.commute)
  have h: "page_heard behind gain crc inverted (ps ! k) (page_window (map Prompt_I xs @ map Prompt_I (take (1000 * Suc k) ys)))
      \<and> sampling_rate (ys ! (1000 * k + 999)) \<noteq> 0" if "k < length ps" for k
  proof -
    have "map Prompt_I xs @ map Prompt_I (take (1000 * Suc k) ys) = map Prompt_I (take (3017 + 1000 * k) syms)"
      using len by (simp add: syms)
    moreover have "take 984 (drop (2016 + 1000 * k) (map Prompt_I (take (3017 + 1000 * k) syms)))
        = take 984 (drop (2016 + 1000 * k) (map Prompt_I syms))"
      by (simp add: take_map[symmetric] take_drop[symmetric] drop_map drop_take)
    moreover have "length (map Prompt_I (take (3017 + 1000 * k) syms)) = 3017 + 1000 * k" using n that by simp
    ultimately have "page_window (map Prompt_I xs @ map Prompt_I (take (1000 * Suc k) ys))
        = take 984 (drop (2016 + 1000 * k) (map Prompt_I syms))"
      by (simp add: page_window_def latest_def)
    then show ?thesis using s that by (simp add: stream_carries_def at)
  qed
  obtain t' qs where "run_tlm push_back crc elapsed ys t = Some t'" "locked_on behind inverted (map Prompt_I xs @ map Prompt_I ys) t'"
    "E6_HAS_from_TLM (d_cnav t') = E6_HAS_from_TLM (d_cnav t) @ qs" "length qs = length ps"
    "\<forall>k < length ps. same_page (symbol_time (ys ! (1000 * k + 999))) (ps ! k) (qs ! k)"
    using run_pages[OF buf t(2) len(2), of crc] h by blast
  then show ?thesis using t at by (simp add: syms run_tlm_append)
qed

end

lemma same_pageD:
  assumes "same_page ts p q"
  shows "message_page_id q = message_page_id p"
    "page_of_message E mid ms t0 q = page_of_message E mid ms t0 (p\<lparr> time_stamp := ts \<rparr>)"
  using assms by (cases p; cases q; simp add: same_page_def page_of_message_def)+

text \<open>C3: From symbols to corrections: when a decoder that was just made receives a stream of symbols whose first
  two preambles have the right signs, or all the wrong ones, and whose pages, in the first symbol of each
  pair of the code, too, then it locks on to the stream and sends the pages to its port, and the receiver
  fed from the port hands on exactly one set of corrections, those that the pages were built from, when
  the last of the pages completes the message. The metrics of the Viterbi decoder are added in any
  arithmetic with the laws of the locale \<open>metrics\<close>: in exact arithmetic, for a positive \<open>d_MAXLOG\<close>, the
  amplitudes do not matter; in that of \<open>float\<close> the symbols of the pages have amplitudes from some \<open>2\<^sup>k\<close> on, the
  positive ones up to \<open>2\<^sup>k\<^sup>+\<^sup>2\<^sup>4\<close>. Neither the second symbols of the pairs matter nor what is received before the
  third page.
\<close>
theorem symbols_to_corrections:
  fixes maxlog :: "'f::{zero,plus,minus,uminus,linorder}"
  assumes "circular_buffer push_back" "make_cnav_tlm maxlog e6 trk prn = Some tlm" "metrics behind gain" "behind (- maxlog)"
    and "stream_carries behind gain crc inverted (ps @ [p]) syms"
    and "message_carries E ms c" "ready_for mid c rx"
    and "\<forall>k < length (ps @ [p]). page_of_message E mid ms t0 (((ps @ [p]) ! k)\<lparr> time_stamp := symbol_time (syms ! (3016 + 1000 * k)) \<rparr>)"
    and "Suc (card (message_page_id ` set ps)) = unat ms" "message_page_id p \<notin> message_page_id ` set ps"
  shows "\<exists>tlm' rx' d. run_tlm push_back crc elapsed syms tlm = Some tlm' \<and> handle_pages (E6_HAS_from_TLM (d_cnav tlm')) rx = Some rx'
    \<and> E6_HAS_to_PVT rx' = E6_HAS_to_PVT rx @ [d] \<and> contents_in_data c (d_iod_ref_map rx) d"
proof -
  obtain tlm' qs' where r: "run_tlm push_back crc elapsed syms tlm = Some tlm'" "E6_HAS_from_TLM (d_cnav tlm') = qs'"
    "length qs' = Suc (length ps)"
    "\<forall>k < Suc (length ps). same_page (symbol_time (syms ! (3016 + 1000 * k))) ((ps @ [p]) ! k) (qs' ! k)"
    using metrics.stream_decoded[OF assms(3,1,2,4,5), of elapsed] by auto
  obtain qs q where qs: "qs' = qs @ [q]" "length qs = length ps"
    using r(3) by (cases qs' rule: rev_cases) auto
  have same: "message_page_id (qs' ! k) = message_page_id ((ps @ [p]) ! k) \<and> page_of_message E mid ms t0 (qs' ! k)" if "k < Suc (length ps)" for k
  proof -
    have "same_page (symbol_time (syms ! (3016 + 1000 * k))) ((ps @ [p]) ! k) (qs' ! k)" using r(4) that by blast
    note same_pageD[OF this]
    moreover have "page_of_message E mid ms t0 (((ps @ [p]) ! k)\<lparr> time_stamp := symbol_time (syms ! (3016 + 1000 * k)) \<rparr>)"
      using assms(8) that by simp
    ultimately show ?thesis by simp
  qed
  have pids: "map message_page_id (qs @ [q]) = map message_page_id (ps @ [p])"
    using same qs by (intro nth_equalityI) (simp_all del: map_append)
  then have set_pids: "message_page_id ` set qs = message_page_id ` set ps" "message_page_id q = message_page_id p"
    using qs(2) by (metis append_eq_append_conv length_map map_append set_map, simp)
  have pages: "\<forall>x \<in> set (qs @ [q]). page_of_message E mid ms t0 x"
    using same r(3) qs(1) by (metis in_set_conv_nth)
  obtain rx' d where "handle_pages (qs @ [q]) rx = Some rx'" "E6_HAS_to_PVT rx' = E6_HAS_to_PVT rx @ [d]" "handed_on c (d_iod_ref_map rx) q d"
    by (rule message_handed_on[OF assms(6,7) pages]) (use assms(9,10) set_pids in simp_all)
  then show ?thesis using r(1,2) qs(1) by (auto simp: handed_on_def)
qed

section \<open>A transmitter\<close>

definition sent_bits :: "(u8 list \<Rightarrow> u32) \<Rightarrow> has_page \<Rightarrow> nat list" where
  "sent_bits crc p = map (\<lambda>b. if b > 0 then 1 else 0) (take 486 (frame_bits crc p))"

definition sent_page :: "'f::uminus \<Rightarrow> (u8 list \<Rightarrow> u32) \<Rightarrow> has_page \<Rightarrow> 'f list" where
  "sent_page a crc p = map (\<lambda>b. if b then a else - a) (on_air (sent_bits crc p))"

definition sent_preamble :: "'f::uminus \<Rightarrow> 'f list" where
  "sent_preamble a = map (\<lambda>s. if s = - 1 then - a else a) d_preamble_samples"

definition sent_stream :: "'f::uminus \<Rightarrow> (u8 list \<Rightarrow> u32) \<Rightarrow> has_page list \<Rightarrow> 'f tracked_symbol list" where
  "sent_stream a crc ps = map (\<lambda>x. \<lparr> Prompt_I = x, Tracking_sample_counter = 1000, sampling_rate = 1, Flag_valid_word = False, tags_vec = [] \<rparr>)
     (concat (map (\<lambda>xs. sent_preamble a @ xs) (replicate 2 (replicate 984 a) @ map (sent_page a crc) ps)) @ replicate 17 a)"

lemma length_sent_preamble: "length (sent_preamble a) = 16"
  by (simp add: sent_preamble_def d_preamble_samples_def GALILEO_CNAV_PREAMBLE_def)

lemma sent_preamble_heard:
  fixes a :: "'f::{zero,uminus,linorder}"
  assumes "0 < a" "- a < 0" "i < 16"
  shows "sent_preamble a ! i < 0 \<longleftrightarrow> d_preamble_samples ! i = - 1"
  using assms length_sent_preamble[of a] by (auto simp: sent_preamble_def)

lemma page_string_of_append: "page_string_of (xs @ ys) = page_string_of xs @ page_string_of ys"
  by (simp add: page_string_of_def)

lemma page_string_of_zeros: "page_string_of (replicate n (- 1)) = replicate n CHR ''0''"
  by (simp add: page_string_of_def)

lemma sent_symbols_heard:
  "\<forall>k < length s. air_position k < length s \<Longrightarrow> 0 < a \<Longrightarrow> gain a \<Longrightarrow> behind (- a)
    \<Longrightarrow> first_symbols_heard behind gain s (map (\<lambda>b. if b then a else - a) s)"
  by (simp add: first_symbols_heard_def)

lemma sent_page_heard:
  assumes "well_formed_page p" "\<And>bs. unat (crc bs) < 2 ^ 24" and a: "0 < a" "gain a" "behind (- a)"
  shows "page_heard behind gain crc False p (sent_page a crc p)"
proof -
  have t: "transmits crc (frame_bits crc p) p" by (rule transmits_frame_bits[OF assms(1,2)])
  have len: "length (frame_bits crc p) = 492" using assms(1) by (simp add: frame_bits_def Let_def well_formed_page_def)
  have tail: "drop 486 (frame_bits crc p) = replicate 6 (- 1)"
    using assms(1) by (simp add: frame_bits_def Let_def well_formed_page_def)
  have "frame_bits crc p = take 486 (frame_bits crc p) @ replicate 6 (- 1)"
    using append_take_drop_id[of 486 "frame_bits crc p"] tail by simp
  then have "page_string_of (frame_bits crc p) = page_string_of (take 486 (frame_bits crc p)) @ replicate 6 CHR ''0''"
    by (metis page_string_of_append page_string_of_zeros)
  moreover have "page_string_of (map int (sent_bits crc p @ replicate 6 0)) = page_string_of (take 486 (frame_bits crc p)) @ replicate 6 CHR ''0''"
    by (simp add: page_string_of_def sent_bits_def o_def)
  ultimately have "transmits crc (map int (sent_bits crc p @ replicate 6 0)) p" using t by (simp add: transmits_def)
  moreover have "length (sent_bits crc p) = 486" "\<forall>u \<in> set (sent_bits crc p). u < 2" using len by (auto simp: sent_bits_def)
  moreover have "first_symbols_heard behind gain (on_air (sent_bits crc p)) (sent_page a crc p)"
  proof -
    have "\<forall>k < length (on_air us). air_position k < length (on_air us)" for us by (auto simp: air_position_def on_air_def)
    then show ?thesis unfolding sent_page_def using a by (intro sent_symbols_heard)
  qed
  ultimately show ?thesis unfolding page_heard_def by auto
qed

lemma drop_concat_blocks:
  assumes "\<forall>b \<in> set bs. length b = n"
  shows "drop (n * j) (concat bs @ r) = concat (drop j bs) @ drop (n * (j - length bs)) r"
  using assms
proof (induction bs arbitrary: j)
  case (Cons b bs)
  then show ?case by (cases j) simp_all
qed simp

context metrics
begin

lemma sent_stream_carries:
  assumes "\<forall>p \<in> set ps. well_formed_page p" "\<And>bs. unat (crc bs) < 2 ^ 24" and a: "0 < a" "gain a" "behind (- a)"
  shows "stream_carries behind gain crc False ps (sent_stream a crc ps)"
proof -
  define bs where "bs = map (\<lambda>xs. sent_preamble a @ xs) (replicate 2 (replicate 984 a) @ map (sent_page a crc) ps)"
  have bs: "\<forall>b \<in> set bs. length b = 1000" "length bs = length ps + 2"
    by (auto simp: bs_def length_sent_preamble sent_page_def on_air_def)
  have vals: "map Prompt_I (sent_stream a crc ps) = concat bs @ replicate 17 a"
    unfolding bs_def by (simp add: sent_stream_def o_def del: replicate.simps)
  have "length (concat bs) = 1000 * length bs"
    using bs(1) by (induction bs) auto
  then have n: "length (sent_stream a crc ps) = 2017 + 1000 * length ps"
    using arg_cong[OF vals, of length] bs(2) by simp
  have block: "drop (1000 * j) (map Prompt_I (sent_stream a crc ps)) = bs ! j @ concat (drop (Suc j) bs) @ replicate 17 a"
    if "j < length bs" for j
    using that drop_concat_blocks[OF bs(1), of j "replicate 17 a"] by (simp add: vals Cons_nth_drop_Suc[symmetric])
  have pre: "preamble_heard False (drop (1000 * j) (map Prompt_I (sent_stream a crc ps)))" if "j < 2" for j
  proof -
    have "bs ! j = sent_preamble a @ replicate 984 a"
      using that by (auto simp: bs_def nth_append less_2_cases_iff simp del: replicate.simps)
    then show ?thesis
      using block[of j] that bs(2) sent_preamble_heard[OF a(1) behind_neg[OF a(3)]] length_sent_preamble[of a]
      by (simp add: preamble_heard_def nth_append)
  qed
  have "page_heard behind gain crc False (ps ! k) (take 984 (drop (2016 + 1000 * k) (map Prompt_I (sent_stream a crc ps))))
      \<and> sampling_rate (sent_stream a crc ps ! (3016 + 1000 * k)) \<noteq> 0" if k: "k < length ps" for k
  proof -
    have b: "bs ! (k + 2) = sent_preamble a @ sent_page a crc (ps ! k)"
      using k by (simp add: bs_def nth_append del: replicate.simps)
    have "drop (2016 + 1000 * k) (map Prompt_I (sent_stream a crc ps)) = drop 16 (drop (1000 * (k + 2)) (map Prompt_I (sent_stream a crc ps)))"
      by simp
    also have "\<dots> = sent_page a crc (ps ! k) @ concat (drop (Suc (k + 2)) bs) @ replicate 17 a"
      using block[of "k + 2"] k bs(2) by (simp only: b) (simp add: length_sent_preamble)
    finally have "take 984 (drop (2016 + 1000 * k) (map Prompt_I (sent_stream a crc ps))) = sent_page a crc (ps ! k)"
      by (simp add: sent_page_def on_air_def)
    moreover have "sampling_rate (sent_stream a crc ps ! i) = 1" if "i < length (sent_stream a crc ps)" for i
      using that by (simp add: sent_stream_def del: map_append replicate.simps concat_append concat.simps)
    ultimately show ?thesis using sent_page_heard[of "ps ! k" crc a gain behind] assms k n by simp
  qed
  then show ?thesis using n pre[of 0] pre[of 1] by (simp add: stream_carries_def)
qed

end

text \<open>In the arithmetic of \<open>float\<close>, with symbols of amplitude one and the \<open>d_MAXLOG\<close> of the code, ten
  millions.\<close>

theorem symbols_to_corrections_witness:
  "\<exists>tlm tlm' rx' d. make_cnav_tlm (units (10000000 * 2 ^ 149)) True False 11 = Some tlm
    \<and> run_tlm ring_push crc24q (\<lambda>_ _. 0) (sent_stream (units (2 ^ 149)) crc24q (map sample_page (rev [40..<71]) @ [sample_page 3])) tlm = Some tlm'
    \<and> handle_pages (E6_HAS_from_TLM (d_cnav tlm')) sample_has_receiver = Some rx'
    \<and> E6_HAS_to_PVT rx' = [d] \<and> contents_in_data sample_contents (d_iod_ref_map sample_has_receiver) d"
proof -
  let ?ps = "map sample_page (rev [40..<71])" and ?p = "sample_page 3"
  let ?syms = "sent_stream (units (2 ^ 149)) crc24q (?ps @ [?p])"
  obtain tlm where tlm: "make_cnav_tlm (units (10000000 * 2 ^ 149)) True False 11 = Some tlm"
    by (cases "make_cnav_tlm (units (10000000 * 2 ^ 149)) True False 11") (simp_all add: make_cnav_tlm_def Viterbi_Decoder_def)
  have range: "\<exists>pid. q = sample_page pid \<and> 0 < pid \<and> pid < 256 \<and> (pid \<le> 32 \<or> 32 < pid)" if "q \<in> set (?ps @ [?p])" for q
    using that by (auto intro: exI[of _ 3])
  have wf: "\<forall>q \<in> set (?ps @ [?p]). well_formed_page q"
  proof
    fix q assume "q \<in> set (?ps @ [?p])"
    then obtain pid where "q = sample_page pid" "0 < pid" "pid < 256" using range by blast
    then show "well_formed_page q" using sample_frame_sent(1)[of pid] by (simp add: transmits_def)
  qed
  have maxlog: "float_behind 149 (- units (10000000 * 2 ^ 149))" by (rule heard_units(3)) simp_all
  have stream: "stream_carries (float_behind 149) (float_gain 149) crc24q False (?ps @ [?p]) ?syms"
    by (rule rounded.sent_stream_carries[OF wf crc24q_bound heard_units[where k = 149 and n = "2 ^ 149"]]) simp_all
  have pids: "message_page_id ` set ?ps = of_nat ` {40..<71}"
    unfolding set_map set_rev set_upt image_image by (simp add: sample_page_def)
  have n: "Suc (card (message_page_id ` set ?ps)) = unat (32 :: u8)" "message_page_id ?p \<notin> message_page_id ` set ?ps"
    unfolding pids using sample_pids by (simp_all add: sample_page_def)
  have time: "symbol_time (sent_stream a crc24q qs ! i) = 1000" if "i < length (sent_stream a crc24q qs)" for a :: binary32 and qs i
    using that by (simp add: sent_stream_def symbol_time_def del: map_append replicate.simps concat_append concat.simps)
  have "page_of_message sample_message 9 32 1000
      (((?ps @ [?p]) ! k)\<lparr> time_stamp := symbol_time (?syms ! (3016 + 1000 * k)) \<rparr>)"
    if k: "k < length (?ps @ [?p])" for k
  proof -
    obtain pid where pid: "(?ps @ [?p]) ! k = sample_page pid" "0 < pid" "pid < 256" using range nth_mem[OF k] by blast
    have "3016 + 1000 * k < length (?syms)" using stream k by (simp only: stream_carries_def)
    then show ?thesis using sample_page_fits[OF pid(2,3) le_less_linear] by (simp only: time pid(1)) (simp add: page_of_message_def)
  qed
  then have pages: "\<forall>k < length (?ps @ [?p]). page_of_message sample_message 9 32 1000
      (((?ps @ [?p]) ! k)\<lparr> time_stamp := symbol_time (?syms ! (3016 + 1000 * k)) \<rparr>)" by blast
  have "E6_HAS_to_PVT sample_has_receiver = []" by (simp add: sample_has_receiver_def make_has_receiver_def)
  then show ?thesis
    using tlm symbols_to_corrections[OF ring_push_circular tlm rounded.metrics_axioms maxlog stream sample_carried sample_ready pages n, of "\<lambda>_ _. 0"] by auto
qed

end
