(* ===== verification/Cnav_Safety.thy ===== *)
theory Cnav_Safety
  imports Cnav_Acquisition
begin

text \<open>
  What holds in every state of a decoder of a C/NAV channel, whatever it receives, and that no symbol makes
  it fail: no access outside a container in the Viterbi decoder, no exception in the parser of pages.
\<close>

section \<open>The Viterbi decoder\<close>

text \<open>Sizes of the tables, and their entries as indices.\<close>

definition viterbi_shape :: "nat \<Rightarrow> nat \<Rightarrow> 'f viterbi \<Rightarrow> bool" where
  "viterbi_shape mm n dec \<longleftrightarrow> d_nn dec = 2 \<and> d_KK dec = Suc mm \<and> d_mm dec = mm \<and> d_LL dec = n \<and> d_states dec = 2 ^ mm \<and> d_number_symbols dec = 4
     \<and> length (d_rec_array dec) = 2 \<and> length (d_prev_section dec) = 2 ^ mm \<and> length (d_next_section dec) = 2 ^ mm
     \<and> length (d_prev_state dec) = 2 ^ mm * (n + mm) \<and> length (d_prev_bit dec) = 2 ^ mm * (n + mm)
     \<and> length (d_out0 dec) = 2 ^ mm \<and> length (d_out1 dec) = 2 ^ mm \<and> length (d_state0 dec) = 2 ^ mm \<and> length (d_state1 dec) = 2 ^ mm
     \<and> (\<forall>x \<in> set (d_out0 dec @ d_out1 dec). x < 4) \<and> (\<forall>x \<in> set (d_state0 dec @ d_state1 dec @ d_prev_state dec). x < 2 ^ mm)
     \<and> (\<forall>x \<in> set (d_prev_bit dec). x < 2)"

lemma nsc_transit_shape:
  "length (fst (nsc_transit g (Suc mm) 2 b)) = 2 ^ mm" "length (snd (nsc_transit g (Suc mm) 2 b)) = 2 ^ mm"
  "x \<in> set (fst (nsc_transit g (Suc mm) 2 b)) \<Longrightarrow> x < 4"
  "b < 2 \<Longrightarrow> x \<in> set (snd (nsc_transit g (Suc mm) 2 b)) \<Longrightarrow> x < 2 ^ mm"
  using nsc_enc_bit_two(3)[of "Suc mm" g b] next_state_bound[of _ mm b] by (auto simp: nsc_transit_def nsc_enc_bit_two)

lemma viterbi_shape_made:
  assumes "Viterbi_Decoder maxlog (Suc mm) 2 n g = Some dec"
  shows "viterbi_shape mm n dec"
  using assms nsc_transit_shape(1-3)[where g = g and mm = mm] nsc_transit_shape(4)[where b = 0 and g = g and mm = mm]
    nsc_transit_shape(4)[where b = 1 and g = g and mm = mm] by (auto simp: Viterbi_Decoder_def viterbi_shape_def split: if_splits)

lemma viterbi_shape_reset: "viterbi_shape mm n dec \<Longrightarrow> viterbi_shape mm n (viterbi_reset dec)"
  using nsc_transit_shape(1-3)[where g = "d_g dec" and mm = mm] nsc_transit_shape(4)[where b = 0 and g = "d_g dec" and mm = mm]
    nsc_transit_shape(4)[where b = 1 and g = "d_g dec" and mm = mm] by (auto simp: viterbi_shape_def viterbi_reset_def)

lemma viterbi_shape_symbols:
  "viterbi_shape mm n dec \<Longrightarrow> length r = 2 \<Longrightarrow> viterbi_shape mm n (dec\<lparr> d_rec_array := r, d_metric_c := m \<rparr>)"
  by (simp add: viterbi_shape_def)

lemma viterbi_shape_sections:
  "viterbi_shape mm n dec \<Longrightarrow> length p = 2 ^ mm \<Longrightarrow> length q = 2 ^ mm
    \<Longrightarrow> viterbi_shape mm n (dec\<lparr> d_prev_section := p, d_next_section := q \<rparr>)"
  by (simp add: viterbi_shape_def)

lemma try_branch_shape:
  assumes "viterbi_shape mm n dec" "s < 2 ^ mm" "b < 2"
  shows "viterbi_shape mm n (try_branch t s b dec)"
  using assms unfolding viterbi_shape_def
  by (auto simp: try_branch_def Let_def dest!: set_update_subset_insert[THEN subsetD])

lemma try_branches_shape:
  assumes "viterbi_shape mm n dec"
  shows "viterbi_shape mm n (try_branches t dec)"
proof -
  have "viterbi_shape mm n (foldl (\<lambda>dec (s, b). try_branch t s b dec) d bs)"
    if "\<forall>(s, b) \<in> set bs. s < 2 ^ mm \<and> b < 2" "viterbi_shape mm n d" for d and bs
    using that by (induction bs arbitrary: d) (auto intro: try_branch_shape)
  moreover have "d_states dec = 2 ^ mm" using assms by (simp add: viterbi_shape_def)
  then have "\<forall>(s, b) \<in> set (branches (d_states dec)). s < 2 ^ mm \<and> b < 2" by (auto simp: set_branches)
  ultimately show ?thesis using assms unfolding try_branches_eq by blast
qed

lemma trellis_step_total:
  assumes "viterbi_shape mm n dec" "2 * t < length input"
  shows "\<exists>dec'. trellis_step input t dec = Some dec' \<and> viterbi_shape mm n dec'"
proof -
  have nn: "d_nn dec = 2" "length (d_rec_array dec) = 2" using assms(1) by (simp_all add: viterbi_shape_def)
  then have "receive_symbols input t dec = Some (dec\<lparr> d_rec_array := [input ! (2 * t)] @ drop 1 (d_rec_array dec) \<rparr>)"
    using assms(2) by (simp add: receive_symbols_def vget_Some)
  moreover define dec1 where "dec1 = branch_metrics (dec\<lparr> d_rec_array := [input ! (2 * t)] @ drop 1 (d_rec_array dec) \<rparr>)"
  ultimately have "trellis_step input t dec = Some (normalize (try_branches t dec1))"
    by (simp add: trellis_step_def)
  moreover have "viterbi_shape mm n dec1"
    using viterbi_shape_symbols[OF assms(1)] nn(2) by (simp add: dec1_def branch_metrics_def)
  then have b: "viterbi_shape mm n (try_branches t dec1)" by (rule try_branches_shape)
  then have "length (d_next_section (try_branches t dec1)) = 2 ^ mm" "d_states (try_branches t dec1) = 2 ^ mm"
    by (simp_all add: viterbi_shape_def)
  then have "viterbi_shape mm n (normalize (try_branches t dec1))"
    using viterbi_shape_sections[OF b] by (simp add: normalize_def Let_def)
  ultimately show ?thesis by blast
qed

lemma trace_back_length: "length (trace_back dec out) = length out"
proof -
  have "length (fst (foldl (\<lambda>(out, state) t. (out[t := f state t], g state t)) (out, s) ks)) = length out" for f :: "'x \<Rightarrow> nat \<Rightarrow> nat" and g s ks
    by (induction ks arbitrary: out s) simp_all
  then show ?thesis by (simp add: trace_back_def Let_def)
qed

lemma viterbi_decode_total:
  assumes "viterbi_shape mm n dec" "n \<le> length out" "2 * (n + mm) \<le> length input"
  shows "\<exists>bits dec'. viterbi_decode out input dec = Some (bits, dec') \<and> length bits = length out \<and> viterbi_shape mm n dec'"
proof -
  have "\<exists>dec'. foldM (trellis_step input) [0..<n + mm] (dec\<lparr> d_prev_section := (d_prev_section dec)[0 := 0] \<rparr>) = Some dec'
      \<and> viterbi_shape mm n dec'"
  proof (rule foldM_total)
    show "viterbi_shape mm n (dec\<lparr> d_prev_section := (d_prev_section dec)[0 := 0] \<rparr>)"
      using assms(1) by (simp add: viterbi_shape_def)
    show "\<exists>dec'. trellis_step input t d = Some dec' \<and> viterbi_shape mm n dec'" if "t \<in> set [0..<n + mm]" "viterbi_shape mm n d" for t d
      using that assms(3) by (intro trellis_step_total) auto
  qed
  moreover have "d_LL dec = n" "d_mm dec = mm" using assms(1) by (simp_all add: viterbi_shape_def)
  ultimately show ?thesis using assms(2) by (auto simp: viterbi_decode_def trace_back_length)
qed

section \<open>The parser of pages\<close>

lemma read_HAS_page_total:
  assumes "binary s" "486 \<le> length s"
  shows "\<exists>cnav'. read_HAS_page crc s cnav = Some cnav'"
proof -
  have sub: "substr s pos n = Some (take n (drop pos s))" "binary (take n (drop pos s))" if "pos \<le> 462" for pos n
    using that assms by (simp_all add: substr_Some binary_take binary_drop)
  have set: "bitset n (take n (drop pos s)) = Some (rev (bits_in (take n (drop pos s))))" if "pos + n \<le> 486" "pos \<le> 462" for pos n
    using that assms sub(2)[of pos n] by (intro bitset_Some) simp_all
  have header: "read_HAS_page_header (take 24 (drop 14 s)) c \<noteq> None" for c
    using set[of 14 24] by (simp add: read_HAS_page_header_def)
  have "read_HAS_page crc s cnav \<noteq> None"
    using sub(1)[of 0 462] sub(1)[of 462 24] sub(1)[of 14 24] sub(1)[of 38 424] set[of 0 462] set[of 462 24] header
    by (simp add: read_HAS_page_def Let_def bind_eq_None_conv del: not_None_eq)
  then show ?thesis by simp
qed

lemma decode_CNAV_bits_total:
  assumes "486 \<le> length page_bits"
  shows "\<exists>dec'. decode_CNAV_bits crc ts page_bits dec = Some dec'"
proof -
  have "binary (page_string_of page_bits)" "486 \<le> length (page_string_of page_bits)"
    using assms by (auto simp: page_string_of_def binary_def)
  then obtain cnav where "read_HAS_page crc (page_string_of page_bits) (d_cnav_nav dec) = Some cnav"
    using read_HAS_page_total by blast
  then show ?thesis by (simp add: decode_CNAV_bits_def Let_def)
qed

section \<open>Every state of the decoder\<close>

text \<open>In state 2 the end of the page is ahead, and fewer than seven pages in sequence have failed.\<close>

definition tlm_ok :: "'f cnav_tlm \<Rightarrow> bool" where
  "tlm_ok tlm \<longleftrightarrow> viterbi_shape 6 486 (d_viterbi tlm) \<and> d_stat tlm \<le> 2
     \<and> length (d_symbol_history tlm) = min (d_symbol_counter tlm) 1017
     \<and> d_preamble_index tlm \<le> d_symbol_counter tlm \<and> d_last_valid_preamble tlm \<le> d_symbol_counter tlm
     \<and> (d_stat tlm = 2 \<longrightarrow> d_symbol_counter tlm < d_preamble_index tlm + 1000 \<and> 1017 \<le> d_symbol_counter tlm
         \<and> d_CRC_error_counter tlm \<le> 6)
     \<and> (d_E6_TOW_set (d_cnav tlm) \<longrightarrow> d_stat tlm = 2)"

text \<open>The fields of the invariant, and the invariant between the intake of a symbol and the synchronisation.\<close>

definition core_state :: "'f cnav_tlm \<Rightarrow> 'f viterbi \<times> nat \<times> nat \<times> nat \<times> nat \<times> nat \<times> bool \<times> nat" where
  "core_state tlm = (d_viterbi tlm, d_stat tlm, d_preamble_index tlm, d_symbol_counter tlm, d_last_valid_preamble tlm,
     d_CRC_error_counter tlm, d_E6_TOW_set (d_cnav tlm), length (d_symbol_history tlm))"

lemma tlm_ok_cong: "core_state tlm = core_state tlm' \<Longrightarrow> tlm_ok tlm = tlm_ok tlm'"
  unfolding tlm_ok_def core_state_def by simp

definition tlm_ok_within :: "'f cnav_tlm \<Rightarrow> bool" where
  "tlm_ok_within tlm \<longleftrightarrow> viterbi_shape 6 486 (d_viterbi tlm) \<and> d_stat tlm \<le> 2
     \<and> length (d_symbol_history tlm) = min (d_symbol_counter tlm) 1017
     \<and> d_preamble_index tlm \<le> d_symbol_counter tlm \<and> d_last_valid_preamble tlm \<le> d_symbol_counter tlm
     \<and> (d_stat tlm = 2 \<longrightarrow> d_symbol_counter tlm \<le> d_preamble_index tlm + 1000 \<and> 1017 \<le> d_symbol_counter tlm
         \<and> d_CRC_error_counter tlm \<le> 6)
     \<and> (d_E6_TOW_set (d_cnav tlm) \<longrightarrow> d_stat tlm = 2) \<and> \<not> d_flag_preamble tlm"

lemma core_state_timetag: "core_state (update_timetag tags tlm) = core_state tlm"
proof -
  have "core_state (foldl (\<lambda>tlm tag. case tag of None \<Rightarrow> tlm
       | Some time \<Rightarrow> tlm\<lparr> d_current_timetag := time, d_valid_timetag := True \<rparr>) tlm tags) = core_state tlm"
    by (induction tags arbitrary: tlm) (simp_all add: core_state_def split: option.split)
  then show ?thesis by (simp add: update_timetag_def Let_def core_state_def)
qed

lemma taken_ok:
  assumes "circular_buffer push_back" "tlm_ok tlm"
  shows "tlm_ok_within (taken push_back cur tlm)"
proof -
  have push: "length (push_back 1017 (d_symbol_history tlm) x) = min (Suc (d_symbol_counter tlm)) 1017" for x
  proof -
    have l: "length (d_symbol_history tlm) = min (d_symbol_counter tlm) 1017" using assms(2) by (simp add: tlm_ok_def)
    then have "push_back 1017 (d_symbol_history tlm) x
        = (if length (d_symbol_history tlm) = 1017 then tl (d_symbol_history tlm) else d_symbol_history tlm) @ [x]"
      using assms(1) by (simp add: circular_buffer_def)
    then show ?thesis using l by auto
  qed
  have "core_state (taken push_back cur tlm) = (d_viterbi tlm, d_stat tlm, d_preamble_index tlm, Suc (d_symbol_counter tlm),
      d_last_valid_preamble tlm, d_CRC_error_counter tlm, d_E6_TOW_set (d_cnav tlm), min (Suc (d_symbol_counter tlm)) 1017)"
    and "\<not> d_flag_preamble (taken push_back cur tlm)"
  proof -
    have c: "core_state (check_tlm_separation t) = core_state t \<and> d_flag_preamble (check_tlm_separation t) = d_flag_preamble t" for t :: "'a cnav_tlm"
      by (simp add: check_tlm_separation_def core_state_def)
    have f: "core_state (t\<lparr> d_flag_preamble := False \<rparr>) = core_state t" for t :: "'a cnav_tlm" by (simp add: core_state_def)
    show "core_state (taken push_back cur tlm) = (d_viterbi tlm, d_stat tlm, d_preamble_index tlm, Suc (d_symbol_counter tlm),
        d_last_valid_preamble tlm, d_CRC_error_counter tlm, d_E6_TOW_set (d_cnav tlm), min (Suc (d_symbol_counter tlm)) 1017)"
      unfolding taken_def receive_symbol_def by (simp add: c f core_state_timetag) (simp add: core_state_def push)
    show "\<not> d_flag_preamble (taken push_back cur tlm)" by (simp add: taken_def receive_symbol_def c)
  qed
  then show ?thesis using assms(2) by (simp add: tlm_ok_within_def tlm_ok_def core_state_def) arith
qed

lemma decode_CNAV_word_total:
  assumes "viterbi_shape 6 486 (d_viterbi tlm)" "length xs = 984"
  obtains vit dec where "decode_CNAV_word crc ts xs 984 tlm = Some (tlm\<lparr> d_viterbi := vit, d_cnav := dec \<rparr>)"
    "viterbi_shape 6 486 vit" "d_E6_TOW_set dec = d_E6_TOW_set (d_cnav tlm)"
proof -
  have d: "deinterleaver 8 123 xs (replicate 984 0) = Some (deinterleaved 8 123 xs)" using assms(2) by (intro deinterleaver_eq) simp_all
  obtain bits vit where v: "viterbi_decode (replicate 492 0) (undo_not_gate (deinterleaved 8 123 xs)) (d_viterbi tlm) = Some (bits, vit)"
    "length bits = 492" "viterbi_shape 6 486 vit"
    using viterbi_decode_total[OF assms(1), of "replicate 492 0" "undo_not_gate (deinterleaved 8 123 xs)"]
    by (auto simp: undo_not_gate_def deinterleaved_def)
  obtain dec where dec: "decode_CNAV_bits crc ts (map int bits) (d_cnav tlm) = Some dec"
    using decode_CNAV_bits_total[of "map int bits" crc ts "d_cnav tlm"] v(2) by auto
  then have "d_E6_TOW_set dec = d_E6_TOW_set (d_cnav tlm)"
    by (auto simp: decode_CNAV_bits_def Let_def bind_eq_Some_conv split: if_splits)
  moreover have "decode_CNAV_word crc ts xs 984 tlm = Some (tlm\<lparr> d_viterbi := vit, d_cnav := dec \<rparr>)"
    using d v(1) dec by (simp add: decode_CNAV_word_def del: replicate.simps)
  ultimately show thesis using that v(3) by blast
qed

text \<open>After the synchronisation: a checked page is only found in state 2.\<close>

definition tlm_ok_synced :: "'f cnav_tlm \<Rightarrow> bool" where
  "tlm_ok_synced tlm \<longleftrightarrow> tlm_ok tlm \<and> (d_flag_preamble tlm \<longrightarrow> d_stat tlm = 2)"

lemma page_failed_ok:
  assumes "tlm_ok_within tlm" "d_stat tlm = 2" "d_preamble_index tlm = d_symbol_counter tlm"
  shows "tlm_ok_synced (page_failed tlm)"
  using assms by (auto simp: tlm_ok_synced_def tlm_ok_def tlm_ok_within_def page_failed_def publish_tow_def Let_def)

lemma complete_page_ok:
  assumes "tlm_ok_within tlm" "d_stat tlm = 2"
  shows "\<exists>tlm'. complete_page crc cur tlm = Some tlm' \<and> tlm_ok_synced tlm'"
proof (cases "d_symbol_counter tlm = d_preamble_index tlm + 1000")
  case False
  then have "complete_page crc cur tlm = Some tlm" by (simp add: complete_page_def)
  moreover have "tlm_ok_synced tlm"
    using assms False by (auto simp: tlm_ok_synced_def tlm_ok_def tlm_ok_within_def)
  ultimately show ?thesis by blast
next
  case True
  let ?xs = "take 984 (drop 16 (d_symbol_history tlm))"
  let ?ys = "if d_flag_PLL_180_deg_phase_locked tlm then map uminus ?xs else ?xs"
  have hist: "length (d_symbol_history tlm) = 1017" using assms by (simp add: tlm_ok_within_def)
  then have read: "vread (d_symbol_history tlm) 16 984 = Some ?xs" "length ?ys = 984" by (simp_all add: vread_eq)
  have shape: "viterbi_shape 6 486 (d_viterbi tlm)" using assms(1) by (simp add: tlm_ok_within_def)
  obtain vit dec where d: "(if sampling_rate cur \<noteq> 0
      then decode_CNAV_word crc (Tracking_sample_counter cur div of_int (sampling_rate cur)) ?ys 984 tlm else Some tlm)
      = Some (tlm\<lparr> d_viterbi := vit, d_cnav := dec \<rparr>)" "viterbi_shape 6 486 vit" "d_E6_TOW_set dec = d_E6_TOW_set (d_cnav tlm)"
  proof (cases "sampling_rate cur = 0")
    case True
    then show ?thesis using that[where vit = "d_viterbi tlm" and dec = "d_cnav tlm"] shape by simp
  next
    case False
    obtain vit dec where "decode_CNAV_word crc (Tracking_sample_counter cur div of_int (sampling_rate cur)) ?ys 984 tlm
        = Some (tlm\<lparr> d_viterbi := vit, d_cnav := dec \<rparr>)" "viterbi_shape 6 486 vit" "d_E6_TOW_set dec = d_E6_TOW_set (d_cnav tlm)"
      by (rule decode_CNAV_word_total[OF shape read(2)])
    then show ?thesis using that False by simp
  qed
  define tlm1 where "tlm1 = tlm\<lparr> d_viterbi := vit, d_cnav := dec, d_preamble_index := d_symbol_counter tlm \<rparr>"
  have "complete_page crc cur tlm = Some (if get_flag_CRC_test (d_cnav_nav (d_cnav tlm1)) then page_checked tlm1 else page_failed tlm1)"
    unfolding complete_page_def using True read(1) d(1) by (simp add: Let_def tlm1_def)
  moreover have "tlm_ok_within tlm1" "d_stat tlm1 = 2" "d_preamble_index tlm1 = d_symbol_counter tlm1"
    using assms d(2,3) by (simp_all add: tlm_ok_within_def tlm1_def)
  moreover have "tlm_ok_synced (page_checked tlm1)"
    using calculation(2-4) by (simp add: tlm_ok_synced_def tlm_ok_def tlm_ok_within_def page_checked_def)
  ultimately show ?thesis using page_failed_ok[of tlm1] by simp
qed

lemma frame_sync_ok:
  assumes "tlm_ok_within tlm"
  shows "\<exists>tlm'. frame_sync crc cur tlm = Some tlm' \<and> tlm_ok_synced tlm'"
proof -
  have "d_stat tlm = 0 \<or> d_stat tlm = 1 \<or> d_stat tlm = 2" using assms by (auto simp: tlm_ok_within_def)
  then show ?thesis
  proof (elim disjE)
    assume "d_stat tlm = 2"
    then show ?thesis using complete_page_ok[OF assms] by (simp add: frame_sync_def)
  next
    assume "d_stat tlm = 0"
    then show ?thesis
      using assms by (auto simp: frame_sync_def search_preamble_def tlm_ok_synced_def tlm_ok_def tlm_ok_within_def)
  next
    assume "d_stat tlm = 1"
    then show ?thesis
      using assms by (auto simp: frame_sync_def confirm_preamble_def Let_def tlm_ok_synced_def tlm_ok_def tlm_ok_within_def)
  qed
qed

lemma general_work_ok:
  assumes "circular_buffer push_back" "tlm_ok tlm"
  shows "\<exists>out tlm'. general_work push_back crc elapsed cur tlm = Some (out, tlm') \<and> tlm_ok tlm'"
proof -
  obtain tlm1 where s: "frame_sync crc cur (taken push_back cur tlm) = Some tlm1" "tlm_ok_synced tlm1"
    using frame_sync_ok[OF taken_ok[OF assms]] by blast
  have tow: "tlm_ok (update_tow elapsed cur tlm1)"
    using s(2) by (auto simp: update_tow_def Let_def tlm_ok_synced_def tlm_ok_def)
  have "core_state (snd (send_symbol cur t)) = core_state t" for t :: "'a cnav_tlm"
    by (simp add: send_symbol_def core_state_def)
  then have "tlm_ok (snd (send_symbol cur (update_tow elapsed cur tlm1)))" using tlm_ok_cong tow by blast
  then show ?thesis using s(1)
    by (cases "send_symbol cur (update_tow elapsed cur tlm1)") (simp add: general_work_def taken_def[symmetric])
qed

lemma make_cnav_tlm_ok: "make_cnav_tlm maxlog e6 trk prn = Some tlm \<Longrightarrow> tlm_ok tlm"
  using viterbi_shape_made[of maxlog 6 486 "[121, 91]"] by (auto simp: make_cnav_tlm_def tlm_ok_def)

section \<open>Events\<close>

datatype 'f tlm_event = Symbol "'f tracked_symbol" | Tow_map "u32 \<rightharpoonup> u32 \<times> u64" | New_satellite u32 | Reset_decoder

definition handle_event :: "(nat \<Rightarrow> 'f list \<Rightarrow> 'f \<Rightarrow> 'f list) \<Rightarrow> (u8 list \<Rightarrow> u32) \<Rightarrow> (int \<Rightarrow> int \<Rightarrow> u32)
    \<Rightarrow> 'f::{zero,plus,minus,uminus,linorder} tlm_event \<Rightarrow> 'f cnav_tlm \<Rightarrow> 'f cnav_tlm option" where
  "handle_event push_back crc elapsed ev tlm =
    (case ev of Symbol cur \<Rightarrow> map_option snd (general_work push_back crc elapsed cur tlm)
     | Tow_map m \<Rightarrow> Some (msg_handler_read_galileo_tow_map m tlm)
     | New_satellite prn \<Rightarrow> Some (tlm_set_satellite prn tlm)
     | Reset_decoder \<Rightarrow> Some (tlm_reset tlm))"

lemma handle_event_ok:
  assumes "circular_buffer push_back" "tlm_ok tlm"
  shows "\<exists>tlm'. handle_event push_back crc elapsed ev tlm = Some tlm' \<and> tlm_ok tlm'"
proof (cases ev)
  case (Symbol cur)
  then show ?thesis using general_work_ok[OF assms, of crc elapsed cur] by (auto simp: handle_event_def)
next
  case (Tow_map m)
  have "tlm_ok (msg_handler_read_galileo_tow_map m tlm)"
    using assms(2) by (auto simp: msg_handler_read_galileo_tow_map_def tlm_ok_def split: option.split)
  then show ?thesis using Tow_map by (simp add: handle_event_def)
next
  case (New_satellite prn)
  have "tlm_ok (tlm_set_satellite prn tlm)"
    using assms(2) by (simp add: tlm_set_satellite_def publish_tow_def tlm_ok_def Let_def)
  then show ?thesis using New_satellite by (simp add: handle_event_def)
next
  case Reset_decoder
  have "tlm_ok (tlm_reset tlm)"
    using assms(2) viterbi_shape_reset[of 6 486 "d_viterbi tlm"] by (simp add: tlm_reset_def publish_tow_def tlm_ok_def Let_def)
  then show ?thesis using Reset_decoder by (simp add: handle_event_def)
qed

text \<open>C16: A decoder of a C/NAV channel does not fail, whatever the symbols it receives and whenever it is given
  a new satellite, reset or sent a time of week: it reads no element outside its containers and no exception
  leaves it. It stays in one of three states; in the last of them, in sync, the end of the current page is
  always ahead, at most six pages in sequence have failed and only then does it give symbols a time; and the
  entries of the tables of the Viterbi decoder stay valid states and bits.
\<close>
theorem telemetry_never_fails:
  fixes maxlog :: "'f::{zero,plus,minus,uminus,linorder}"
  assumes "circular_buffer push_back" "make_cnav_tlm maxlog e6 trk prn = Some tlm"
  shows "\<exists>tlm'. foldM (handle_event push_back crc elapsed) events tlm = Some tlm' \<and> tlm_ok tlm'"
  using make_cnav_tlm_ok[OF assms(2)] handle_event_ok[OF assms(1)] by (intro foldM_total) blast+

theorem telemetry_never_fails_witness:
  "\<exists>tlm tlm'. make_cnav_tlm (10000000 :: int) True False 11 = Some tlm \<and>
    foldM (handle_event ring_push (\<lambda>_. 0) (\<lambda>_ _. 0))
      (New_satellite 12 # replicate 3000 (Symbol \<lparr> Prompt_I = - 7, Tracking_sample_counter = 5, sampling_rate = 0,
         Flag_valid_word = False, tags_vec = [None] \<rparr>) @ [Tow_map Map.empty, Reset_decoder]) tlm = Some tlm' \<and> tlm_ok tlm'"
proof -
  obtain tlm where tlm: "make_cnav_tlm (10000000 :: int) True False 11 = Some tlm"
    by (cases "make_cnav_tlm (10000000 :: int) True False 11") (simp_all add: make_cnav_tlm_def Viterbi_Decoder_def)
  show ?thesis using telemetry_never_fails[OF ring_push_circular tlm] tlm by blast
qed

end
