(* ===== verification/Inav_Fields.thy ===== *)
theory Inav_Fields
  imports Complex_Main Bit_Strings
begin

text \<open>
  The places of the fields in the words of the Galileo I/NAV message and their scale factors
  (\<open>Galileo_INAV.h\<close>, with the powers of two of \<open>MATH_CONSTANTS.h\<close>), and the readers of
  \<open>galileo_inav_message.cc\<close>. A place is a list of first bits, counted from one, and lengths. A
  \<open>double\<close> constant is the rational number that the source writes.
\<close>

type_synonym i32 = "32 word"
type_synonym places = "(nat \<times> nat) list"

section \<open>Scale factors\<close>

definition TWO_P8 :: rat where "TWO_P8 = 256.0"
definition TWO_N2 :: rat where "TWO_N2 = 0.25"
definition TWO_N5 :: rat where "TWO_N5 = 0.03125"
definition TWO_N8 :: rat where "TWO_N8 = 0.00390625"
definition TWO_N9 :: rat where "TWO_N9 = 0.001953125"
definition TWO_N14 :: rat where "TWO_N14 = 0.00006103515625"
definition TWO_N15 :: rat where "TWO_N15 = 3.0517578125 / 10 ^ 5"
definition TWO_N16 :: rat where "TWO_N16 = 1.52587890625 / 10 ^ 5"
definition TWO_N19 :: rat where "TWO_N19 = 1.9073486328125 / 10 ^ 6"
definition TWO_N22 :: rat where "TWO_N22 = 2.384185791015625 / 10 ^ 7"
definition TWO_N26 :: rat where "TWO_N26 = 1.490116119384765 / 10 ^ 9"
definition TWO_N29 :: rat where "TWO_N29 = 1.862645149230957 / 10 ^ 9"
definition TWO_N30 :: rat where "TWO_N30 = 9.313225746154785 / 10 ^ 10"
definition TWO_N32 :: rat where "TWO_N32 = 2.328306436538696 / 10 ^ 10"
definition TWO_N33 :: rat where "TWO_N33 = 1.164153218269348 / 10 ^ 10"
definition TWO_N34 :: rat where "TWO_N34 = 5.82076609134674 / 10 ^ 11"
definition TWO_N35 :: rat where "TWO_N35 = 2.91038304567337 / 10 ^ 11"
definition TWO_N38 :: rat where "TWO_N38 = 3.637978807091713 / 10 ^ 12"
definition TWO_N46 :: rat where "TWO_N46 = 1.4210854715202 / 10 ^ 14"
definition TWO_N50 :: rat where "TWO_N50 = 8.881784197001252 / 10 ^ 16"
definition TWO_N51 :: rat where "TWO_N51 = 4.44089209850063 / 10 ^ 16"
definition TWO_N59 :: rat where "TWO_N59 = 1.73472347597681 / 10 ^ 18"
definition PI_TWO_N43 :: rat where "PI_TWO_N43 = 3.571577341960839 / 10 ^ 13"
definition PI_TWO_N31 :: rat where "PI_TWO_N31 = 1.46291807926716 / 10 ^ 9"

section \<open>Sizes and the word type\<close>

definition GALILEO_PAGE_TYPE_BITS :: nat where "GALILEO_PAGE_TYPE_BITS = 6"
definition GALILEO_DATA_JK_BITS :: nat where "GALILEO_DATA_JK_BITS = 128"
definition GALILEO_DATA_FRAME_BITS :: nat where "GALILEO_DATA_FRAME_BITS = 196"
definition GALILEO_DATA_FRAME_BYTES :: nat where "GALILEO_DATA_FRAME_BYTES = 25"
definition PAGE_TYPE_BIT :: places where "PAGE_TYPE_BIT = [(1, 6)]"

section \<open>Word type 1\<close>

definition IOD_NAV_1_BIT :: places where "IOD_NAV_1_BIT = [(7, 10)]"
definition T0_E_1_BIT :: places where "T0_E_1_BIT = [(17, 14)]"
definition T0E_1_LSB :: i32 where "T0E_1_LSB = 60"
definition M0_1_BIT :: places where "M0_1_BIT = [(31, 32)]"
definition M0_1_LSB :: rat where "M0_1_LSB = PI_TWO_N31"
definition E_1_BIT :: places where "E_1_BIT = [(63, 32)]"
definition E_1_LSB :: rat where "E_1_LSB = TWO_N33"
definition A_1_BIT :: places where "A_1_BIT = [(95, 32)]"
definition A_1_LSB_GAL :: rat where "A_1_LSB_GAL = TWO_N19"

section \<open>Word type 2\<close>

definition IOD_NAV_2_BIT :: places where "IOD_NAV_2_BIT = [(7, 10)]"
definition OMEGA_0_2_BIT :: places where "OMEGA_0_2_BIT = [(17, 32)]"
definition OMEGA_0_2_LSB :: rat where "OMEGA_0_2_LSB = PI_TWO_N31"
definition I_0_2_BIT :: places where "I_0_2_BIT = [(49, 32)]"
definition I_0_2_LSB :: rat where "I_0_2_LSB = PI_TWO_N31"
definition OMEGA_2_BIT :: places where "OMEGA_2_BIT = [(81, 32)]"
definition OMEGA_2_LSB :: rat where "OMEGA_2_LSB = PI_TWO_N31"
definition I_DOT_2_BIT :: places where "I_DOT_2_BIT = [(113, 14)]"
definition I_DOT_2_LSB :: rat where "I_DOT_2_LSB = PI_TWO_N43"

section \<open>Word type 3\<close>

definition IOD_NAV_3_BIT :: places where "IOD_NAV_3_BIT = [(7, 10)]"
definition OMEGA_DOT_3_BIT :: places where "OMEGA_DOT_3_BIT = [(17, 24)]"
definition OMEGA_DOT_3_LSB :: rat where "OMEGA_DOT_3_LSB = PI_TWO_N43"
definition DELTA_N_3_BIT :: places where "DELTA_N_3_BIT = [(41, 16)]"
definition DELTA_N_3_LSB :: rat where "DELTA_N_3_LSB = PI_TWO_N43"
definition C_UC_3_BIT :: places where "C_UC_3_BIT = [(57, 16)]"
definition C_UC_3_LSB :: rat where "C_UC_3_LSB = TWO_N29"
definition C_US_3_BIT :: places where "C_US_3_BIT = [(73, 16)]"
definition C_US_3_LSB :: rat where "C_US_3_LSB = TWO_N29"
definition C_RC_3_BIT :: places where "C_RC_3_BIT = [(89, 16)]"
definition C_RC_3_LSB :: rat where "C_RC_3_LSB = TWO_N5"
definition C_RS_3_BIT :: places where "C_RS_3_BIT = [(105, 16)]"
definition C_RS_3_LSB :: rat where "C_RS_3_LSB = TWO_N5"
definition SISA_3_BIT :: places where "SISA_3_BIT = [(121, 8)]"

section \<open>Word type 4\<close>

definition IOD_NAV_4_BIT :: places where "IOD_NAV_4_BIT = [(7, 10)]"
definition SV_ID_PRN_4_BIT :: places where "SV_ID_PRN_4_BIT = [(17, 6)]"
definition C_IC_4_BIT :: places where "C_IC_4_BIT = [(23, 16)]"
definition C_IC_4_LSB :: rat where "C_IC_4_LSB = TWO_N29"
definition C_IS_4_BIT :: places where "C_IS_4_BIT = [(39, 16)]"
definition C_IS_4_LSB :: rat where "C_IS_4_LSB = TWO_N29"
definition T0C_4_BIT :: places where "T0C_4_BIT = [(55, 14)]"
definition T0C_4_LSB :: i32 where "T0C_4_LSB = 60"
definition AF0_4_BIT :: places where "AF0_4_BIT = [(69, 31)]"
definition AF0_4_LSB :: rat where "AF0_4_LSB = TWO_N34"
definition AF1_4_BIT :: places where "AF1_4_BIT = [(100, 21)]"
definition AF1_4_LSB :: rat where "AF1_4_LSB = TWO_N46"
definition AF2_4_BIT :: places where "AF2_4_BIT = [(121, 6)]"
definition AF2_4_LSB :: rat where "AF2_4_LSB = TWO_N59"
definition SPARE_4_BIT :: places where "SPARE_4_BIT = [(127, 2)]"

section \<open>Word type 5\<close>

definition AI0_5_BIT :: places where "AI0_5_BIT = [(7, 11)]"
definition AI0_5_LSB :: rat where "AI0_5_LSB = TWO_N2"
definition AI1_5_BIT :: places where "AI1_5_BIT = [(18, 11)]"
definition AI1_5_LSB :: rat where "AI1_5_LSB = TWO_N8"
definition AI2_5_BIT :: places where "AI2_5_BIT = [(29, 14)]"
definition AI2_5_LSB :: rat where "AI2_5_LSB = TWO_N15"
definition REGION1_5_BIT :: places where "REGION1_5_BIT = [(43, 1)]"
definition REGION2_5_BIT :: places where "REGION2_5_BIT = [(44, 1)]"
definition REGION3_5_BIT :: places where "REGION3_5_BIT = [(45, 1)]"
definition REGION4_5_BIT :: places where "REGION4_5_BIT = [(46, 1)]"
definition REGION5_5_BIT :: places where "REGION5_5_BIT = [(47, 1)]"
definition BGD_E1_E5A_5_BIT :: places where "BGD_E1_E5A_5_BIT = [(48, 10)]"
definition BGD_E1_E5A_5_LSB :: rat where "BGD_E1_E5A_5_LSB = TWO_N32"
definition BGD_E1_E5B_5_BIT :: places where "BGD_E1_E5B_5_BIT = [(58, 10)]"
definition BGD_E1_E5B_5_LSB :: rat where "BGD_E1_E5B_5_LSB = TWO_N32"
definition E5B_HS_5_BIT :: places where "E5B_HS_5_BIT = [(68, 2)]"
definition E1_B_HS_5_BIT :: places where "E1_B_HS_5_BIT = [(70, 2)]"
definition E5B_DVS_5_BIT :: places where "E5B_DVS_5_BIT = [(72, 1)]"
definition E1_B_DVS_5_BIT :: places where "E1_B_DVS_5_BIT = [(73, 1)]"
definition WN_5_BIT :: places where "WN_5_BIT = [(74, 12)]"
definition TOW_5_BIT :: places where "TOW_5_BIT = [(86, 20)]"
definition SPARE_5_BIT :: places where "SPARE_5_BIT = [(106, 23)]"

section \<open>Word type 6\<close>

definition A0_6_BIT :: places where "A0_6_BIT = [(7, 32)]"
definition A0_6_LSB :: rat where "A0_6_LSB = TWO_N30"
definition A1_6_BIT :: places where "A1_6_BIT = [(39, 24)]"
definition A1_6_LSB :: rat where "A1_6_LSB = TWO_N50"
definition DELTA_T_LS_6_BIT :: places where "DELTA_T_LS_6_BIT = [(63, 8)]"
definition T0T_6_BIT :: places where "T0T_6_BIT = [(71, 8)]"
definition T0T_6_LSB :: i32 where "T0T_6_LSB = 3600"
definition W_NOT_6_BIT :: places where "W_NOT_6_BIT = [(79, 8)]"
definition WN_LSF_6_BIT :: places where "WN_LSF_6_BIT = [(87, 8)]"
definition DN_6_BIT :: places where "DN_6_BIT = [(95, 3)]"
definition DELTA_T_LSF_6_BIT :: places where "DELTA_T_LSF_6_BIT = [(98, 8)]"
definition TOW_6_BIT :: places where "TOW_6_BIT = [(106, 20)]"

section \<open>Word type 7\<close>

definition IOD_A_7_BIT :: places where "IOD_A_7_BIT = [(7, 4)]"
definition WN_A_7_BIT :: places where "WN_A_7_BIT = [(11, 2)]"
definition T0A_7_BIT :: places where "T0A_7_BIT = [(13, 10)]"
definition T0A_7_LSB :: i32 where "T0A_7_LSB = 600"
definition SVI_D1_7_BIT :: places where "SVI_D1_7_BIT = [(23, 6)]"
definition DELTA_A_7_BIT :: places where "DELTA_A_7_BIT = [(29, 13)]"
definition DELTA_A_7_LSB :: rat where "DELTA_A_7_LSB = TWO_N9"
definition E_7_BIT :: places where "E_7_BIT = [(42, 11)]"
definition E_7_LSB :: rat where "E_7_LSB = TWO_N16"
definition OMEGA_7_BIT :: places where "OMEGA_7_BIT = [(53, 16)]"
definition OMEGA_7_LSB :: rat where "OMEGA_7_LSB = TWO_N15"
definition DELTA_I_7_BIT :: places where "DELTA_I_7_BIT = [(69, 11)]"
definition DELTA_I_7_LSB :: rat where "DELTA_I_7_LSB = TWO_N14"
definition OMEGA0_7_BIT :: places where "OMEGA0_7_BIT = [(80, 16)]"
definition OMEGA0_7_LSB :: rat where "OMEGA0_7_LSB = TWO_N15"
definition OMEGA_DOT_7_BIT :: places where "OMEGA_DOT_7_BIT = [(96, 11)]"
definition OMEGA_DOT_7_LSB :: rat where "OMEGA_DOT_7_LSB = TWO_N33"
definition M0_7_BIT :: places where "M0_7_BIT = [(107, 16)]"
definition M0_7_LSB :: rat where "M0_7_LSB = TWO_N15"
definition IOD_A_8_BIT :: places where "IOD_A_8_BIT = [(7, 4)]"

section \<open>Word type 8\<close>

definition AF0_8_BIT :: places where "AF0_8_BIT = [(11, 16)]"
definition AF0_8_LSB :: rat where "AF0_8_LSB = TWO_N19"
definition AF1_8_BIT :: places where "AF1_8_BIT = [(27, 13)]"
definition AF1_8_LSB :: rat where "AF1_8_LSB = TWO_N38"
definition E5B_HS_8_BIT :: places where "E5B_HS_8_BIT = [(40, 2)]"
definition E1_B_HS_8_BIT :: places where "E1_B_HS_8_BIT = [(42, 2)]"
definition SVI_D2_8_BIT :: places where "SVI_D2_8_BIT = [(44, 6)]"
definition DELTA_A_8_BIT :: places where "DELTA_A_8_BIT = [(50, 13)]"
definition DELTA_A_8_LSB :: rat where "DELTA_A_8_LSB = TWO_N9"
definition E_8_BIT :: places where "E_8_BIT = [(63, 11)]"
definition E_8_LSB :: rat where "E_8_LSB = TWO_N16"
definition OMEGA_8_BIT :: places where "OMEGA_8_BIT = [(74, 16)]"
definition OMEGA_8_LSB :: rat where "OMEGA_8_LSB = TWO_N15"
definition DELTA_I_8_BIT :: places where "DELTA_I_8_BIT = [(90, 11)]"
definition DELTA_I_8_LSB :: rat where "DELTA_I_8_LSB = TWO_N14"
definition OMEGA0_8_BIT :: places where "OMEGA0_8_BIT = [(101, 16)]"
definition OMEGA0_8_LSB :: rat where "OMEGA0_8_LSB = TWO_N15"
definition OMEGA_DOT_8_BIT :: places where "OMEGA_DOT_8_BIT = [(117, 11)]"
definition OMEGA_DOT_8_LSB :: rat where "OMEGA_DOT_8_LSB = TWO_N33"

section \<open>Word type 9\<close>

definition IOD_A_9_BIT :: places where "IOD_A_9_BIT = [(7, 4)]"
definition WN_A_9_BIT :: places where "WN_A_9_BIT = [(11, 2)]"
definition T0A_9_BIT :: places where "T0A_9_BIT = [(13, 10)]"
definition T0A_9_LSB :: i32 where "T0A_9_LSB = 600"
definition M0_9_BIT :: places where "M0_9_BIT = [(23, 16)]"
definition M0_9_LSB :: rat where "M0_9_LSB = TWO_N15"
definition AF0_9_BIT :: places where "AF0_9_BIT = [(39, 16)]"
definition AF0_9_LSB :: rat where "AF0_9_LSB = TWO_N19"
definition AF1_9_BIT :: places where "AF1_9_BIT = [(55, 13)]"
definition AF1_9_LSB :: rat where "AF1_9_LSB = TWO_N38"
definition E5B_HS_9_BIT :: places where "E5B_HS_9_BIT = [(68, 2)]"
definition E1_B_HS_9_BIT :: places where "E1_B_HS_9_BIT = [(70, 2)]"
definition SVI_D3_9_BIT :: places where "SVI_D3_9_BIT = [(72, 6)]"
definition DELTA_A_9_BIT :: places where "DELTA_A_9_BIT = [(78, 13)]"
definition DELTA_A_9_LSB :: rat where "DELTA_A_9_LSB = TWO_N9"
definition E_9_BIT :: places where "E_9_BIT = [(91, 11)]"
definition E_9_LSB :: rat where "E_9_LSB = TWO_N16"
definition OMEGA_9_BIT :: places where "OMEGA_9_BIT = [(102, 16)]"
definition OMEGA_9_LSB :: rat where "OMEGA_9_LSB = TWO_N15"
definition DELTA_I_9_BIT :: places where "DELTA_I_9_BIT = [(118, 11)]"
definition DELTA_I_9_LSB :: rat where "DELTA_I_9_LSB = TWO_N14"

section \<open>Word type 10\<close>

definition IOD_A_10_BIT :: places where "IOD_A_10_BIT = [(7, 4)]"
definition OMEGA0_10_BIT :: places where "OMEGA0_10_BIT = [(11, 16)]"
definition OMEGA0_10_LSB :: rat where "OMEGA0_10_LSB = TWO_N15"
definition OMEGA_DOT_10_BIT :: places where "OMEGA_DOT_10_BIT = [(27, 11)]"
definition OMEGA_DOT_10_LSB :: rat where "OMEGA_DOT_10_LSB = TWO_N33"
definition M0_10_BIT :: places where "M0_10_BIT = [(38, 16)]"
definition M0_10_LSB :: rat where "M0_10_LSB = TWO_N15"
definition AF0_10_BIT :: places where "AF0_10_BIT = [(54, 16)]"
definition AF0_10_LSB :: rat where "AF0_10_LSB = TWO_N19"
definition AF1_10_BIT :: places where "AF1_10_BIT = [(70, 13)]"
definition AF1_10_LSB :: rat where "AF1_10_LSB = TWO_N38"
definition E5B_HS_10_BIT :: places where "E5B_HS_10_BIT = [(83, 2)]"
definition E1_B_HS_10_BIT :: places where "E1_B_HS_10_BIT = [(85, 2)]"
definition A_0_G_10_BIT :: places where "A_0_G_10_BIT = [(87, 16)]"
definition A_0G_10_LSB :: rat where "A_0G_10_LSB = TWO_N35"
definition A_1_G_10_BIT :: places where "A_1_G_10_BIT = [(103, 12)]"
definition A_1G_10_LSB :: rat where "A_1G_10_LSB = TWO_N51"
definition T_0_G_10_BIT :: places where "T_0_G_10_BIT = [(115, 8)]"
definition T_0_G_10_LSB :: i32 where "T_0_G_10_LSB = 3600"
definition WN_0_G_10_BIT :: places where "WN_0_G_10_BIT = [(123, 6)]"

section \<open>Word type 16\<close>

definition CED_DeltaAred_LSB :: rat where "CED_DeltaAred_LSB = TWO_P8"
definition CED_DeltaAred_BIT :: places where "CED_DeltaAred_BIT = [(7, 5)]"
definition CED_exred_LSB :: rat where "CED_exred_LSB = TWO_N22"
definition CED_exred_BIT :: places where "CED_exred_BIT = [(12, 13)]"
definition CED_eyred_LSB :: rat where "CED_eyred_LSB = TWO_N22"
definition CED_eyred_BIT :: places where "CED_eyred_BIT = [(25, 13)]"
definition CED_Deltai0red_LSB :: rat where "CED_Deltai0red_LSB = TWO_N22"
definition CED_Deltai0red_BIT :: places where "CED_Deltai0red_BIT = [(38, 17)]"
definition CED_Omega0red_LSB :: rat where "CED_Omega0red_LSB = TWO_N22"
definition CED_Omega0red_BIT :: places where "CED_Omega0red_BIT = [(55, 23)]"
definition CED_lambda0red_LSB :: rat where "CED_lambda0red_LSB = TWO_N22"
definition CED_lambda0red_BIT :: places where "CED_lambda0red_BIT = [(78, 23)]"
definition CED_af0red_LSB :: rat where "CED_af0red_LSB = TWO_N26"
definition CED_af0red_BIT :: places where "CED_af0red_BIT = [(101, 22)]"
definition CED_af1red_LSB :: rat where "CED_af1red_LSB = TWO_N35"
definition CED_af1red_BIT :: places where "CED_af1red_BIT = [(123, 6)]"

section \<open>Word types 17 to 20\<close>

definition RS_IODNAV_LSBS :: places where "RS_IODNAV_LSBS = [(15, 2)]"
definition INAV_RS_SUBVECTOR_LENGTH :: nat where "INAV_RS_SUBVECTOR_LENGTH = 15"
definition INAV_RS_INFO_VECTOR_LENGTH :: nat where "INAV_RS_INFO_VECTOR_LENGTH = 58"
definition INAV_RS_BUFFER_LENGTH :: nat where "INAV_RS_BUFFER_LENGTH = 118"
definition BITS_IN_OCTET :: nat where "BITS_IN_OCTET = 8"
definition FIRST_RS_BIT :: nat where "FIRST_RS_BIT = 7"
definition FIRST_RS_BIT_AFTER_IODNAV :: nat where "FIRST_RS_BIT_AFTER_IODNAV = 17"

section \<open>Word type 22\<close>

definition ISM_CONSTELLATION_ID_BIT :: places where "ISM_CONSTELLATION_ID_BIT = [(7, 3)]"
definition ISM_SERVICE_LEVEL_ID_BIT :: places where "ISM_SERVICE_LEVEL_ID_BIT = [(10, 3)]"
definition ISM_WN_BIT :: places where "ISM_WN_BIT = [(13, 12)]"
definition ISM_T0_BIT :: places where "ISM_T0_BIT = [(25, 9)]"
definition ISM_MASK_MSB_BIT :: places where "ISM_MASK_MSB_BIT = [(34, 1)]"
definition ISM_MASK_BIT :: places where "ISM_MASK_BIT = [(35, 32)]"
definition ISM_PCONST_BIT :: places where "ISM_PCONST_BIT = [(67, 4)]"
definition ISM_PSAT_BIT :: places where "ISM_PSAT_BIT = [(71, 4)]"
definition ISM_URA_BIT :: places where "ISM_URA_BIT = [(75, 4)]"
definition ISM_URE_BIT :: places where "ISM_URE_BIT = [(79, 4)]"
definition ISM_BNOM_BIT :: places where "ISM_BNOM_BIT = [(83, 4)]"
definition ISM_TVALIDITY_BIT :: places where "ISM_TVALIDITY_BIT = [(87, 4)]"
definition GALILEO_ISM_CRC_DATA_BITS :: nat where "GALILEO_ISM_CRC_DATA_BITS = 96"
definition GALILEO_ISM_CRC_DATA_BYTES :: nat where "GALILEO_ISM_CRC_DATA_BYTES = 12"

section \<open>Word type 0\<close>

definition TIME_0_BIT :: places where "TIME_0_BIT = [(7, 2)]"
definition WN_0_BIT :: places where "WN_0_BIT = [(97, 12)]"
definition TOW_0_BIT :: places where "TOW_0_BIT = [(109, 20)]"

lemmas inav_sizes = GALILEO_DATA_JK_BITS_def GALILEO_DATA_FRAME_BITS_def GALILEO_DATA_FRAME_BYTES_def
  INAV_RS_SUBVECTOR_LENGTH_def INAV_RS_INFO_VECTOR_LENGTH_def INAV_RS_BUFFER_LENGTH_def BITS_IN_OCTET_def
  FIRST_RS_BIT_def FIRST_RS_BIT_AFTER_IODNAV_def

section \<open>Readers\<close>

text \<open>\<open>value <<= 1; value |= bits[size - first - j]\<close> for every bit of every piece.\<close>

definition shift_in :: "nat \<Rightarrow> bool list \<Rightarrow> places \<Rightarrow> 'a::len word \<Rightarrow> 'a word" where
  "shift_in sz bits parameter value =
    foldl (\<lambda>value (first, len). foldl (\<lambda>value j. push_bit 1 value OR of_bool (bits ! (sz - first - j)))
      value [0..<len]) value parameter"

definition read_navigation_unsigned :: "bool list \<Rightarrow> places \<Rightarrow> u64" where
  "read_navigation_unsigned bits parameter = shift_in GALILEO_DATA_JK_BITS bits parameter 0"

definition read_octet_unsigned :: "bool list \<Rightarrow> places \<Rightarrow> u8" where
  "read_octet_unsigned bits parameter = shift_in GALILEO_DATA_JK_BITS bits parameter 0"

definition read_page_type_unsigned :: "bool list \<Rightarrow> places \<Rightarrow> u64" where
  "read_page_type_unsigned bits parameter = shift_in GALILEO_PAGE_TYPE_BITS bits parameter 0"

definition read_navigation_signed :: "bool list \<Rightarrow> places \<Rightarrow> u64" where
  "read_navigation_signed bits parameter = shift_in GALILEO_DATA_JK_BITS bits parameter
    (if bits ! (GALILEO_DATA_JK_BITS - fst (hd parameter)) then - 1 else 0)"

definition read_navigation_bool :: "bool list \<Rightarrow> places \<Rightarrow> bool" where
  "read_navigation_bool bits parameter = bits ! (GALILEO_DATA_JK_BITS - fst (hd parameter))"

text \<open>\<open>static_cast<int32_t>\<close> and \<open>static_cast<double>\<close> of a value, the latter times a scale factor.
  \<open>num\<close> is the number of type \<open>double\<close> that stands for a rational one.\<close>

definition read_int32 :: "bool list \<Rightarrow> places \<Rightarrow> i32" where
  "read_int32 bits parameter = ucast (read_navigation_unsigned bits parameter)"

definition scaled_unsigned :: "(rat \<Rightarrow> 'f::times) \<Rightarrow> bool list \<Rightarrow> places \<Rightarrow> rat \<Rightarrow> 'f" where
  "scaled_unsigned num bits parameter lsb =
    num (of_int (uint (read_navigation_unsigned bits parameter))) * num lsb"

definition scaled_signed :: "(rat \<Rightarrow> 'f::times) \<Rightarrow> bool list \<Rightarrow> places \<Rightarrow> rat \<Rightarrow> 'f" where
  "scaled_signed num bits parameter lsb =
    num (of_int (sint (read_navigation_signed bits parameter))) * num lsb"

section \<open>The words\<close>

text \<open>
  The contents of the words of the Galileo I/NAV message as \<open>Galileo_Inav_Message\<close> keeps them, one
  record per word type, and how they are read from the 128 bits of a word. A reader sets every member of
  its record, so it is a function of the bits alone. The type of \<open>double\<close> is the variable \<open>'f\<close>.
\<close>

section \<open>Word type 1: Ephemeris (1/4)\<close>

record 'f word_1 =
  IOD_nav_1 :: i32
  t0e_1 :: i32
  M0_1 :: 'f
  e_1 :: 'f
  A_1 :: 'f

definition word_1_blank :: "(rat \<Rightarrow> 'f) \<Rightarrow> 'f word_1" where
  "word_1_blank num = \<lparr>
     IOD_nav_1 = 0, t0e_1 = 0, M0_1 = num 0, e_1 = num 0, A_1 = num 0 \<rparr>"

definition read_word_1 :: "(rat \<Rightarrow> 'f::times) \<Rightarrow> bool list \<Rightarrow> 'f word_1" where
  "read_word_1 num bits = \<lparr>
     IOD_nav_1 = read_int32 bits IOD_NAV_1_BIT, t0e_1 = read_int32 bits T0_E_1_BIT * T0E_1_LSB,
     M0_1 = scaled_signed num bits M0_1_BIT M0_1_LSB, e_1 = scaled_unsigned num bits E_1_BIT E_1_LSB,
     A_1 = scaled_unsigned num bits A_1_BIT A_1_LSB_GAL \<rparr>"

section \<open>Word type 2: Ephemeris (2/4)\<close>

record 'f word_2 =
  IOD_nav_2 :: i32
  OMEGA_0_2 :: 'f
  i_0_2 :: 'f
  omega_2 :: 'f
  iDot_2 :: 'f

definition word_2_blank :: "(rat \<Rightarrow> 'f) \<Rightarrow> 'f word_2" where
  "word_2_blank num = \<lparr>
     IOD_nav_2 = 0, OMEGA_0_2 = num 0, i_0_2 = num 0, omega_2 = num 0, iDot_2 = num 0 \<rparr>"

definition read_word_2 :: "(rat \<Rightarrow> 'f::times) \<Rightarrow> bool list \<Rightarrow> 'f word_2" where
  "read_word_2 num bits = \<lparr>
     IOD_nav_2 = read_int32 bits IOD_NAV_2_BIT,
     OMEGA_0_2 = scaled_signed num bits OMEGA_0_2_BIT OMEGA_0_2_LSB,
     i_0_2 = scaled_signed num bits I_0_2_BIT I_0_2_LSB,
     omega_2 = scaled_signed num bits OMEGA_2_BIT OMEGA_2_LSB,
     iDot_2 = scaled_signed num bits I_DOT_2_BIT I_DOT_2_LSB \<rparr>"

section \<open>Word type 3: Ephemeris (3/4) and SISA\<close>

record 'f word_3 =
  IOD_nav_3 :: i32
  OMEGA_dot_3 :: 'f
  delta_n_3 :: 'f
  C_uc_3 :: 'f
  C_us_3 :: 'f
  C_rc_3 :: 'f
  C_rs_3 :: 'f
  SISA_3 :: i32

definition word_3_blank :: "(rat \<Rightarrow> 'f) \<Rightarrow> 'f word_3" where
  "word_3_blank num = \<lparr>
     IOD_nav_3 = 0, OMEGA_dot_3 = num 0, delta_n_3 = num 0, C_uc_3 = num 0, C_us_3 = num 0, C_rc_3 = num 0,
     C_rs_3 = num 0, SISA_3 = 0 \<rparr>"

definition read_word_3 :: "(rat \<Rightarrow> 'f::times) \<Rightarrow> bool list \<Rightarrow> 'f word_3" where
  "read_word_3 num bits = \<lparr>
     IOD_nav_3 = read_int32 bits IOD_NAV_3_BIT,
     OMEGA_dot_3 = scaled_signed num bits OMEGA_DOT_3_BIT OMEGA_DOT_3_LSB,
     delta_n_3 = scaled_signed num bits DELTA_N_3_BIT DELTA_N_3_LSB,
     C_uc_3 = scaled_signed num bits C_UC_3_BIT C_UC_3_LSB,
     C_us_3 = scaled_signed num bits C_US_3_BIT C_US_3_LSB,
     C_rc_3 = scaled_signed num bits C_RC_3_BIT C_RC_3_LSB,
     C_rs_3 = scaled_signed num bits C_RS_3_BIT C_RS_3_LSB, SISA_3 = read_int32 bits SISA_3_BIT \<rparr>"

section \<open>Word type 4: Ephemeris (4/4) and clock correction\<close>

record 'f word_4 =
  IOD_nav_4 :: i32
  SV_ID_PRN_4 :: i32
  C_ic_4 :: 'f
  C_is_4 :: 'f
  t0c_4 :: i32
  af0_4 :: 'f
  af1_4 :: 'f
  af2_4 :: 'f
  spare_4 :: 'f

definition word_4_blank :: "(rat \<Rightarrow> 'f) \<Rightarrow> 'f word_4" where
  "word_4_blank num = \<lparr>
     IOD_nav_4 = 0, SV_ID_PRN_4 = 0, C_ic_4 = num 0, C_is_4 = num 0, t0c_4 = 0, af0_4 = num 0,
     af1_4 = num 0, af2_4 = num 0, spare_4 = num 0 \<rparr>"

definition read_word_4 :: "(rat \<Rightarrow> 'f::times) \<Rightarrow> bool list \<Rightarrow> 'f word_4" where
  "read_word_4 num bits = \<lparr>
     IOD_nav_4 = read_int32 bits IOD_NAV_4_BIT, SV_ID_PRN_4 = read_int32 bits SV_ID_PRN_4_BIT,
     C_ic_4 = scaled_signed num bits C_IC_4_BIT C_IC_4_LSB,
     C_is_4 = scaled_signed num bits C_IS_4_BIT C_IS_4_LSB, t0c_4 = read_int32 bits T0C_4_BIT * T0C_4_LSB,
     af0_4 = scaled_signed num bits AF0_4_BIT AF0_4_LSB,
     af1_4 = scaled_signed num bits AF1_4_BIT AF1_4_LSB,
     af2_4 = scaled_signed num bits AF2_4_BIT AF2_4_LSB,
     spare_4 = num (of_int (uint (read_navigation_unsigned bits SPARE_4_BIT))) \<rparr>"

section \<open>Word type 5: Ionospheric correction, group delays, signal health and GST\<close>

record 'f word_5 =
  ai0_5 :: 'f
  ai1_5 :: 'f
  ai2_5 :: 'f
  Region1_flag_5 :: bool
  Region2_flag_5 :: bool
  Region3_flag_5 :: bool
  Region4_flag_5 :: bool
  Region5_flag_5 :: bool
  BGD_E1E5a_5 :: 'f
  BGD_E1E5b_5 :: 'f
  E5b_HS_5 :: i32
  E1B_HS_5 :: i32
  E5b_DVS_5 :: bool
  E1B_DVS_5 :: bool
  WN_5 :: i32
  TOW_5 :: i32
  spare_5 :: 'f

definition word_5_blank :: "(rat \<Rightarrow> 'f) \<Rightarrow> 'f word_5" where
  "word_5_blank num = \<lparr>
     ai0_5 = num 0, ai1_5 = num 0, ai2_5 = num 0, Region1_flag_5 = False, Region2_flag_5 = False,
     Region3_flag_5 = False, Region4_flag_5 = False, Region5_flag_5 = False, BGD_E1E5a_5 = num 0,
     BGD_E1E5b_5 = num 0, E5b_HS_5 = 0, E1B_HS_5 = 0, E5b_DVS_5 = False, E1B_DVS_5 = False, WN_5 = 0,
     TOW_5 = 0, spare_5 = num 0 \<rparr>"

definition read_word_5 :: "(rat \<Rightarrow> 'f::times) \<Rightarrow> bool list \<Rightarrow> 'f word_5" where
  "read_word_5 num bits = \<lparr>
     ai0_5 = scaled_unsigned num bits AI0_5_BIT AI0_5_LSB,
     ai1_5 = scaled_signed num bits AI1_5_BIT AI1_5_LSB,
     ai2_5 = scaled_signed num bits AI2_5_BIT AI2_5_LSB,
     Region1_flag_5 = read_navigation_bool bits REGION1_5_BIT,
     Region2_flag_5 = read_navigation_bool bits REGION2_5_BIT,
     Region3_flag_5 = read_navigation_bool bits REGION3_5_BIT,
     Region4_flag_5 = read_navigation_bool bits REGION4_5_BIT,
     Region5_flag_5 = read_navigation_bool bits REGION5_5_BIT,
     BGD_E1E5a_5 = scaled_signed num bits BGD_E1_E5A_5_BIT BGD_E1_E5A_5_LSB,
     BGD_E1E5b_5 = scaled_signed num bits BGD_E1_E5B_5_BIT BGD_E1_E5B_5_LSB,
     E5b_HS_5 = read_int32 bits E5B_HS_5_BIT, E1B_HS_5 = read_int32 bits E1_B_HS_5_BIT,
     E5b_DVS_5 = read_navigation_unsigned bits E5B_DVS_5_BIT \<noteq> 0,
     E1B_DVS_5 = read_navigation_unsigned bits E1_B_DVS_5_BIT \<noteq> 0, WN_5 = read_int32 bits WN_5_BIT,
     TOW_5 = read_int32 bits TOW_5_BIT,
     spare_5 = num (of_int (uint (read_navigation_unsigned bits SPARE_5_BIT))) \<rparr>"

section \<open>Word type 6: GST-UTC conversion\<close>

record 'f word_6 =
  A0_6 :: 'f
  A1_6 :: 'f
  Delta_tLS_6 :: i32
  t0t_6 :: i32
  WNot_6 :: i32
  WN_LSF_6 :: i32
  DN_6 :: i32
  Delta_tLSF_6 :: i32
  TOW_6 :: i32

definition word_6_blank :: "(rat \<Rightarrow> 'f) \<Rightarrow> 'f word_6" where
  "word_6_blank num = \<lparr>
     A0_6 = num 0, A1_6 = num 0, Delta_tLS_6 = 0, t0t_6 = 0, WNot_6 = 0, WN_LSF_6 = 0, DN_6 = 0,
     Delta_tLSF_6 = 0, TOW_6 = 0 \<rparr>"

definition read_word_6 :: "(rat \<Rightarrow> 'f::times) \<Rightarrow> bool list \<Rightarrow> 'f word_6" where
  "read_word_6 num bits = \<lparr>
     A0_6 = scaled_signed num bits A0_6_BIT A0_6_LSB, A1_6 = scaled_signed num bits A1_6_BIT A1_6_LSB,
     Delta_tLS_6 = ucast (read_navigation_signed bits DELTA_T_LS_6_BIT),
     t0t_6 = read_int32 bits T0T_6_BIT * T0T_6_LSB, WNot_6 = read_int32 bits W_NOT_6_BIT,
     WN_LSF_6 = read_int32 bits WN_LSF_6_BIT, DN_6 = read_int32 bits DN_6_BIT,
     Delta_tLSF_6 = ucast (read_navigation_signed bits DELTA_T_LSF_6_BIT),
     TOW_6 = read_int32 bits TOW_6_BIT \<rparr>"

section \<open>Word type 7: Almanac for SVID1 (1/2)\<close>

record 'f word_7 =
  IOD_a_7 :: i32
  WN_a_7 :: i32
  t0a_7 :: i32
  SVID1_7 :: i32
  DELTA_A_7 :: 'f
  e_7 :: 'f
  omega_7 :: 'f
  delta_i_7 :: 'f
  Omega0_7 :: 'f
  Omega_dot_7 :: 'f
  M0_7 :: 'f

definition word_7_blank :: "(rat \<Rightarrow> 'f) \<Rightarrow> 'f word_7" where
  "word_7_blank num = \<lparr>
     IOD_a_7 = 0, WN_a_7 = 0, t0a_7 = 0, SVID1_7 = 0, DELTA_A_7 = num 0, e_7 = num 0, omega_7 = num 0,
     delta_i_7 = num 0, Omega0_7 = num 0, Omega_dot_7 = num 0, M0_7 = num 0 \<rparr>"

definition read_word_7 :: "(rat \<Rightarrow> 'f::times) \<Rightarrow> bool list \<Rightarrow> 'f word_7" where
  "read_word_7 num bits = \<lparr>
     IOD_a_7 = read_int32 bits IOD_A_7_BIT, WN_a_7 = read_int32 bits WN_A_7_BIT,
     t0a_7 = read_int32 bits T0A_7_BIT * T0A_7_LSB, SVID1_7 = read_int32 bits SVI_D1_7_BIT,
     DELTA_A_7 = scaled_signed num bits DELTA_A_7_BIT DELTA_A_7_LSB,
     e_7 = scaled_unsigned num bits E_7_BIT E_7_LSB,
     omega_7 = scaled_signed num bits OMEGA_7_BIT OMEGA_7_LSB,
     delta_i_7 = scaled_signed num bits DELTA_I_7_BIT DELTA_I_7_LSB,
     Omega0_7 = scaled_signed num bits OMEGA0_7_BIT OMEGA0_7_LSB,
     Omega_dot_7 = scaled_signed num bits OMEGA_DOT_7_BIT OMEGA_DOT_7_LSB,
     M0_7 = scaled_signed num bits M0_7_BIT M0_7_LSB \<rparr>"

section \<open>Word type 8: Almanac for SVID1 (2/2) and SVID2 (1/2)\<close>

record 'f word_8 =
  IOD_a_8 :: i32
  af0_8 :: 'f
  af1_8 :: 'f
  E5b_HS_8 :: i32
  E1B_HS_8 :: i32
  SVID2_8 :: i32
  DELTA_A_8 :: 'f
  e_8 :: 'f
  omega_8 :: 'f
  delta_i_8 :: 'f
  Omega0_8 :: 'f
  Omega_dot_8 :: 'f

definition word_8_blank :: "(rat \<Rightarrow> 'f) \<Rightarrow> 'f word_8" where
  "word_8_blank num = \<lparr>
     IOD_a_8 = 0, af0_8 = num 0, af1_8 = num 0, E5b_HS_8 = 0, E1B_HS_8 = 0, SVID2_8 = 0, DELTA_A_8 = num 0,
     e_8 = num 0, omega_8 = num 0, delta_i_8 = num 0, Omega0_8 = num 0, Omega_dot_8 = num 0 \<rparr>"

definition read_word_8 :: "(rat \<Rightarrow> 'f::times) \<Rightarrow> bool list \<Rightarrow> 'f word_8" where
  "read_word_8 num bits = \<lparr>
     IOD_a_8 = read_int32 bits IOD_A_8_BIT, af0_8 = scaled_signed num bits AF0_8_BIT AF0_8_LSB,
     af1_8 = scaled_signed num bits AF1_8_BIT AF1_8_LSB, E5b_HS_8 = read_int32 bits E5B_HS_8_BIT,
     E1B_HS_8 = read_int32 bits E1_B_HS_8_BIT, SVID2_8 = read_int32 bits SVI_D2_8_BIT,
     DELTA_A_8 = scaled_signed num bits DELTA_A_8_BIT DELTA_A_8_LSB,
     e_8 = scaled_unsigned num bits E_8_BIT E_8_LSB,
     omega_8 = scaled_signed num bits OMEGA_8_BIT OMEGA_8_LSB,
     delta_i_8 = scaled_signed num bits DELTA_I_8_BIT DELTA_I_8_LSB,
     Omega0_8 = scaled_signed num bits OMEGA0_8_BIT OMEGA0_8_LSB,
     Omega_dot_8 = scaled_signed num bits OMEGA_DOT_8_BIT OMEGA_DOT_8_LSB \<rparr>"

section \<open>Word type 9: Almanac for SVID2 (2/2) and SVID3 (1/2)\<close>

record 'f word_9 =
  IOD_a_9 :: i32
  WN_a_9 :: i32
  t0a_9 :: i32
  M0_9 :: 'f
  af0_9 :: 'f
  af1_9 :: 'f
  E5b_HS_9 :: i32
  E1B_HS_9 :: i32
  SVID3_9 :: i32
  DELTA_A_9 :: 'f
  e_9 :: 'f
  omega_9 :: 'f
  delta_i_9 :: 'f

definition word_9_blank :: "(rat \<Rightarrow> 'f) \<Rightarrow> 'f word_9" where
  "word_9_blank num = \<lparr>
     IOD_a_9 = 0, WN_a_9 = 0, t0a_9 = 0, M0_9 = num 0, af0_9 = num 0, af1_9 = num 0, E5b_HS_9 = 0,
     E1B_HS_9 = 0, SVID3_9 = 0, DELTA_A_9 = num 0, e_9 = num 0, omega_9 = num 0,
     delta_i_9 = num 0 \<rparr>"

definition read_word_9 :: "(rat \<Rightarrow> 'f::times) \<Rightarrow> bool list \<Rightarrow> 'f word_9" where
  "read_word_9 num bits = \<lparr>
     IOD_a_9 = read_int32 bits IOD_A_9_BIT, WN_a_9 = read_int32 bits WN_A_9_BIT,
     t0a_9 = read_int32 bits T0A_9_BIT * T0A_9_LSB, M0_9 = scaled_signed num bits M0_9_BIT M0_9_LSB,
     af0_9 = scaled_signed num bits AF0_9_BIT AF0_9_LSB,
     af1_9 = scaled_signed num bits AF1_9_BIT AF1_9_LSB, E5b_HS_9 = read_int32 bits E5B_HS_9_BIT,
     E1B_HS_9 = read_int32 bits E1_B_HS_9_BIT, SVID3_9 = read_int32 bits SVI_D3_9_BIT,
     DELTA_A_9 = scaled_signed num bits DELTA_A_9_BIT DELTA_A_9_LSB,
     e_9 = scaled_unsigned num bits E_9_BIT E_9_LSB,
     omega_9 = scaled_signed num bits OMEGA_9_BIT OMEGA_9_LSB,
     delta_i_9 = scaled_signed num bits DELTA_I_9_BIT DELTA_I_9_LSB \<rparr>"

section \<open>Word type 10: Almanac for SVID3 (2/2) and GST-GPS conversion\<close>

record 'f word_10 =
  IOD_a_10 :: i32
  Omega0_10 :: 'f
  Omega_dot_10 :: 'f
  M0_10 :: 'f
  af0_10 :: 'f
  af1_10 :: 'f
  E5b_HS_10 :: i32
  E1B_HS_10 :: i32

definition word_10_blank :: "(rat \<Rightarrow> 'f) \<Rightarrow> 'f word_10" where
  "word_10_blank num = \<lparr>
     IOD_a_10 = 0, Omega0_10 = num 0, Omega_dot_10 = num 0, M0_10 = num 0, af0_10 = num 0, af1_10 = num 0,
     E5b_HS_10 = 0, E1B_HS_10 = 0 \<rparr>"

definition read_word_10 :: "(rat \<Rightarrow> 'f::times) \<Rightarrow> bool list \<Rightarrow> 'f word_10" where
  "read_word_10 num bits = \<lparr>
     IOD_a_10 = read_int32 bits IOD_A_10_BIT,
     Omega0_10 = scaled_signed num bits OMEGA0_10_BIT OMEGA0_10_LSB,
     Omega_dot_10 = scaled_signed num bits OMEGA_DOT_10_BIT OMEGA_DOT_10_LSB,
     M0_10 = scaled_signed num bits M0_10_BIT M0_10_LSB,
     af0_10 = scaled_signed num bits AF0_10_BIT AF0_10_LSB,
     af1_10 = scaled_signed num bits AF1_10_BIT AF1_10_LSB, E5b_HS_10 = read_int32 bits E5B_HS_10_BIT,
     E1B_HS_10 = read_int32 bits E1_B_HS_10_BIT \<rparr>"

record 'f ggto =
  A_0G_10 :: 'f
  A_1G_10 :: 'f
  t_0G_10 :: i32
  WN_0G_10 :: i32

definition ggto_blank :: "(rat \<Rightarrow> 'f) \<Rightarrow> 'f ggto" where
  "ggto_blank num = \<lparr>
     A_0G_10 = num 0, A_1G_10 = num 0, t_0G_10 = 0, WN_0G_10 = 0 \<rparr>"

definition read_ggto :: "(rat \<Rightarrow> 'f::times) \<Rightarrow> bool list \<Rightarrow> 'f ggto" where
  "read_ggto num bits = \<lparr>
     A_0G_10 = scaled_signed num bits A_0_G_10_BIT A_0G_10_LSB,
     A_1G_10 = scaled_signed num bits A_1_G_10_BIT A_1G_10_LSB,
     t_0G_10 = read_int32 bits T_0_G_10_BIT * T_0_G_10_LSB,
     WN_0G_10 = read_int32 bits WN_0_G_10_BIT \<rparr>"

section \<open>Word type 16: Reduced clock and ephemeris data\<close>

record 'f word_16 =
  ced_DeltaAred :: 'f
  ced_exred :: 'f
  ced_eyred :: 'f
  ced_Deltai0red :: 'f
  ced_Omega0red :: 'f
  ced_lambda0red :: 'f
  ced_af0red :: 'f
  ced_af1red :: 'f

definition word_16_blank :: "(rat \<Rightarrow> 'f) \<Rightarrow> 'f word_16" where
  "word_16_blank num = \<lparr>
     ced_DeltaAred = num 0, ced_exred = num 0, ced_eyred = num 0, ced_Deltai0red = num 0,
     ced_Omega0red = num 0, ced_lambda0red = num 0, ced_af0red = num 0, ced_af1red = num 0 \<rparr>"

definition read_word_16 :: "(rat \<Rightarrow> 'f::times) \<Rightarrow> bool list \<Rightarrow> 'f word_16" where
  "read_word_16 num bits = \<lparr>
     ced_DeltaAred = scaled_signed num bits CED_DeltaAred_BIT CED_DeltaAred_LSB,
     ced_exred = scaled_signed num bits CED_exred_BIT CED_exred_LSB,
     ced_eyred = scaled_signed num bits CED_eyred_BIT CED_eyred_LSB,
     ced_Deltai0red = scaled_signed num bits CED_Deltai0red_BIT CED_Deltai0red_LSB,
     ced_Omega0red = scaled_signed num bits CED_Omega0red_BIT CED_Omega0red_LSB,
     ced_lambda0red = scaled_signed num bits CED_lambda0red_BIT CED_lambda0red_LSB,
     ced_af0red = scaled_signed num bits CED_af0red_BIT CED_af0red_LSB,
     ced_af1red = scaled_signed num bits CED_af1red_BIT CED_af1red_LSB \<rparr>"

end
