(* ===== verification/Galileo_Ism.thy ===== *)
theory Galileo_Ism
  imports Inav_Fields Cnav_Message
begin

text \<open>
  The Integrity Support Message of Galileo, \<open>galileo_ism.cc\<close>. The values of the tables are the rational
  numbers the source writes; \<open>crc\<close> is the CRC-32 of \<open>boost::crc_optimal\<close>, a function of the bytes.
  The map look-ups of the source find every value of four bits.
\<close>

section \<open>Data\<close>

record galileo_ism =
  d_ism_crc :: u32
  d_ism_mask :: u32
  d_ism_wn :: u16
  d_ism_t0 :: u16
  d_ism_constellation_id :: u8
  d_ism_service_level_id :: u8
  d_ism_pconst :: u8
  d_ism_psat :: u8
  d_ism_ura :: u8
  d_ism_ure :: u8
  d_ism_bnom :: u8
  d_ism_Tvalidity :: u8
  d_ism_mask_msb :: bool

definition galileo_ism_blank :: galileo_ism where
  "galileo_ism_blank = \<lparr> d_ism_crc = 0, d_ism_mask = 0, d_ism_wn = 0, d_ism_t0 = 0,
     d_ism_constellation_id = 0, d_ism_service_level_id = 0, d_ism_pconst = 0, d_ism_psat = 0, d_ism_ura = 0,
     d_ism_ure = 0, d_ism_bnom = 0, d_ism_Tvalidity = 0, d_ism_mask_msb = False \<rparr>"

definition d_ISM_PCONST_MAP :: "rat list" where
  "d_ISM_PCONST_MAP = [1 / 10 ^ 8, 1 / 10 ^ 7, 1 / 10 ^ 6, 3 / 10 ^ 6, 6 / 10 ^ 6, 8 / 10 ^ 6, 1 / 10 ^ 5,
     2 / 10 ^ 5, 4 / 10 ^ 5, 6 / 10 ^ 5, 8 / 10 ^ 5, 1 / 10 ^ 4, 1.25 / 10 ^ 4, 1.5 / 10 ^ 4, 1.75 / 10 ^ 4,
     2 / 10 ^ 4]"

definition d_ISM_PSAT_MAP :: "rat list" where
  "d_ISM_PSAT_MAP = [1 / 10 ^ 7, 3 / 10 ^ 7, 6 / 10 ^ 7, 1 / 10 ^ 6, 2 / 10 ^ 6, 3 / 10 ^ 6, 5 / 10 ^ 6,
     7 / 10 ^ 6, 1 / 10 ^ 5, 1.2 / 10 ^ 5, 1.4 / 10 ^ 5, 1.7 / 10 ^ 5, 2.05 / 10 ^ 5, 2.4 / 10 ^ 5,
     2.8 / 10 ^ 5, 3 / 10 ^ 5]"

definition d_ISM_URA_MAP :: "rat list" where
  "d_ISM_URA_MAP = [0.75, 1, 1.5, 2, 2.25, 2.5, 2.75, 3, 3.25, 3.5, 3.75, 4, 4.5, 5, 5.5, 6]"

definition d_ISM_URE_MAP :: "rat list" where
  "d_ISM_URE_MAP = [0.25, 0.5, 0.75, 1, 1.25, 1.5, 1.75, 2, 2.25, 2.5, 2.75, 3, 3.25, 3.5, 3.75, 4]"

definition d_ISM_BNOM_MAP :: "rat list" where
  "d_ISM_BNOM_MAP = [0, 0.1, 0.2, 0.3, 0.4, 0.5, 0.6, 0.75, 0.85, 1, 1.2, 1.4, 1.6, 1.8, 2, 2.4]"

definition d_ISM_TVALIDITY_MAP :: "u16 list" where
  "d_ISM_TVALIDITY_MAP = [1, 2, 3, 4, 6, 8, 12, 18, 24, 36, 48, 72, 120, 168, 720, 1440]"

section \<open>Setters and getters\<close>

definition set_ism_constellation_id :: "u8 \<Rightarrow> galileo_ism \<Rightarrow> galileo_ism" where
  "set_ism_constellation_id v ism = ism\<lparr> d_ism_constellation_id := v \<rparr>"

definition set_ism_service_level_id :: "u8 \<Rightarrow> galileo_ism \<Rightarrow> galileo_ism" where
  "set_ism_service_level_id v ism = ism\<lparr> d_ism_service_level_id := v \<rparr>"

text \<open>The ten setters that the telemetry decoder calls together.\<close>

definition set_ism_parameters :: "u16 \<Rightarrow> u16 \<Rightarrow> bool \<Rightarrow> u32 \<Rightarrow> u8 \<Rightarrow> u8 \<Rightarrow> u8 \<Rightarrow> u8 \<Rightarrow> u8 \<Rightarrow> u8
    \<Rightarrow> galileo_ism \<Rightarrow> galileo_ism" where
  "set_ism_parameters wn t0 msb msk pconst psat ura ure bnom tvalidity ism = ism\<lparr> d_ism_wn := wn,
     d_ism_t0 := t0, d_ism_mask_msb := msb, d_ism_mask := msk, d_ism_pconst := pconst,
     d_ism_psat := psat, d_ism_ura := ura, d_ism_ure := ure, d_ism_bnom := bnom, d_ism_Tvalidity := tvalidity \<rparr>"

definition find_or :: "'a \<Rightarrow> 'a list \<Rightarrow> u8 \<Rightarrow> 'a" where
  "find_or other table k = (case vget table (unat k) of None \<Rightarrow> other | Some x \<Rightarrow> x)"

definition get_WN_ISM :: "galileo_ism \<Rightarrow> u16" where "get_WN_ISM ism = d_ism_wn ism"

text \<open>The product of \<open>int\<close> is cut to \<open>uint16_t\<close>.\<close>

definition get_t0_ISM :: "galileo_ism \<Rightarrow> u16" where
  "get_t0_ISM ism = of_int (uint (d_ism_t0 ism) * 1800)"

definition get_pconst_value :: "galileo_ism \<Rightarrow> rat" where
  "get_pconst_value ism = find_or 0 d_ISM_PCONST_MAP (d_ism_pconst ism)"

definition get_psat_value :: "galileo_ism \<Rightarrow> rat" where
  "get_psat_value ism = find_or 0 d_ISM_PSAT_MAP (d_ism_psat ism)"

definition get_ism_mask_msb :: "galileo_ism \<Rightarrow> bool" where "get_ism_mask_msb ism = d_ism_mask_msb ism"

definition get_ura_m :: "galileo_ism \<Rightarrow> rat" where "get_ura_m ism = find_or 0 d_ISM_URA_MAP (d_ism_ura ism)"

definition get_ure_m :: "galileo_ism \<Rightarrow> rat" where "get_ure_m ism = find_or 0 d_ISM_URE_MAP (d_ism_ure ism)"

definition get_mask_ISM :: "galileo_ism \<Rightarrow> u32" where "get_mask_ISM ism = d_ism_mask ism"

definition get_bnom_m :: "galileo_ism \<Rightarrow> rat" where "get_bnom_m ism = find_or 5 d_ISM_BNOM_MAP (d_ism_bnom ism)"

definition get_Tvalidity_hours :: "galileo_ism \<Rightarrow> u16" where
  "get_Tvalidity_hours ism = find_or 0 d_ISM_TVALIDITY_MAP (d_ism_Tvalidity ism)"

section \<open>Checksum and satellites\<close>

text \<open>The lowest 32 bits of the word are the checksum of the other 96.\<close>

definition check_ism_crc :: "(u8 list \<Rightarrow> u32) \<Rightarrow> bool list \<Rightarrow> galileo_ism \<Rightarrow> bool \<times> galileo_ism" where
  "check_ism_crc crc bits ism =
    (let received = of_nat (bitset_to_ulong (take 32 bits))
     in (received = crc (frame_bytes GALILEO_ISM_CRC_DATA_BYTES (take GALILEO_ISM_CRC_DATA_BITS (drop 32 bits))),
         ism\<lparr> d_ism_crc := received \<rparr>))"

definition ism_parameters_apply :: "u32 \<Rightarrow> galileo_ism \<Rightarrow> bool" where
  "ism_parameters_apply prn ism =
    (if prn = 0 \<or> prn > 63 \<or> d_ism_service_level_id ism \<noteq> 2 \<or> d_ism_constellation_id ism \<noteq> 1 then False
     else if \<not> d_ism_mask_msb ism then
       (if prn > 32 then False else bit (d_ism_mask ism) (32 - unat prn))
     else
       (if prn \<le> 32 then False else bit (d_ism_mask ism) (64 - unat prn)))"

end
