(* ===== verification/Inav_Message.thy ===== *)
theory Inav_Message
  imports Inav_Fields Galileo_Ism Osnma_Data Reed_Solomon
begin

text \<open>
  The class \<open>Galileo_Inav_Message\<close> (\<open>galileo_inav_message.cc\<close>): the words of the I/NAV message, the
  recovery of missing ephemeris words with the Reed-Solomon code (FEC2), and the bits of the
  authentication service OSNMA that come with every page.

  The members are grouped as the comments of the class group them. Flags kept as \<open>int8_t\<close> or
  \<open>int\<close> that are 0 or 1 are numbers. \<open>num\<close> is the \<open>double\<close> for a rational number; \<open>crc24\<close> and
  \<open>crc32\<close> are the checksums of \<open>boost::crc_optimal\<close>. \<^const>\<open>None\<close> is an exception that leaves the
  function, an access outside a container, or an overflow of \<open>int32_t\<close>.
\<close>

section \<open>State\<close>

record inav_fec =
  rs_buffer :: "u8 list"
  rs_decoder :: reed_solomon
  inav_rs_pages :: "nat list"
  current_IODnav :: i32
  IODnav_LSB17 :: u8
  IODnav_LSB18 :: u8
  IODnav_LSB19 :: u8
  IODnav_LSB20 :: u8
  enable_rs :: bool

record inav_osnma =
  mack_sis :: u32
  hkroot_sis :: u8
  page_position_in_inav_subframe :: u8
  nma_position_filled :: "nat list"
  nma_msg :: osnma_msg
  nav_bits_word_1 :: string
  nav_bits_word_2 :: string
  nav_bits_word_3 :: string
  nav_bits_word_4 :: string
  nav_bits_word_5 :: string
  nav_bits_word_6 :: string
  nav_bits_word_10 :: string
  nav_bits_adkd_0_12 :: string
  nav_bits_adkd_4 :: string

record inav_flags =
  flag_CRC_test :: bool
  flag_all_ephemeris :: bool
  flag_ephemeris_1 :: bool
  flag_ephemeris_2 :: bool
  flag_ephemeris_3 :: bool
  flag_ephemeris_4 :: bool
  flag_iono_and_GST :: bool
  flag_TOW_5 :: bool
  flag_TOW_6 :: bool
  flag_TOW_0 :: bool
  flag_TOW_set :: bool
  flag_utc_model :: bool
  flag_all_almanac :: bool
  flag_almanac_1 :: bool
  flag_almanac_2 :: bool
  flag_almanac_3 :: bool
  flag_almanac_4 :: bool
  flag_GGTO_1 :: bool
  flag_GGTO_2 :: bool
  flag_GGTO_3 :: bool
  flag_GGTO_4 :: bool
  flag_CED :: bool
  have_ISM :: bool

record 'f inav =
  w1 :: "'f word_1"
  w2 :: "'f word_2"
  w3 :: "'f word_3"
  w4 :: "'f word_4"
  w5 :: "'f word_5"
  w6 :: "'f word_6"
  w7 :: "'f word_7"
  w8 :: "'f word_8"
  w9 :: "'f word_9"
  w10 :: "'f word_10"
  ggto_10 :: "'f ggto"
  ced_16 :: "'f word_16"
  Time_0 :: i32
  WN_0 :: i32
  TOW_0 :: i32
  IOD_ephemeris :: i32
  page_Even :: string
  gal_ism :: galileo_ism
  ism_constellation_id :: u8
  ism_service_level_id :: u8
  fec :: inav_fec
  osnma :: inav_osnma
  flags :: inav_flags

section \<open>Construction\<close>

definition inav_fec_blank :: "reed_solomon \<Rightarrow> inav_fec" where
  "inav_fec_blank decoder = \<lparr> rs_buffer = replicate INAV_RS_BUFFER_LENGTH 0, rs_decoder = decoder,
     inav_rs_pages = replicate 8 0, current_IODnav = 0, IODnav_LSB17 = 0, IODnav_LSB18 = 0, IODnav_LSB19 = 0,
     IODnav_LSB20 = 0, enable_rs = False \<rparr>"

definition osnma_msg_blank :: osnma_msg where
  "osnma_msg_blank = \<lparr> om_mack = replicate 15 0, om_hkroot = replicate 15 0, om_PRN = 0, om_WN_sf0 = 0,
     om_TOW_sf0 = 0 \<rparr>"

definition inav_osnma_blank :: inav_osnma where
  "inav_osnma_blank = \<lparr> mack_sis = 0, hkroot_sis = 0, page_position_in_inav_subframe = 255,
     nma_position_filled = replicate 15 0, nma_msg = osnma_msg_blank, nav_bits_word_1 = [], nav_bits_word_2 = [],
     nav_bits_word_3 = [], nav_bits_word_4 = [], nav_bits_word_5 = [], nav_bits_word_6 = [],
     nav_bits_word_10 = [], nav_bits_adkd_0_12 = [], nav_bits_adkd_4 = [] \<rparr>"

definition inav_flags_blank :: inav_flags where
  "inav_flags_blank = \<lparr> flag_CRC_test = False, flag_all_ephemeris = False, flag_ephemeris_1 = False,
     flag_ephemeris_2 = False, flag_ephemeris_3 = False, flag_ephemeris_4 = False, flag_iono_and_GST = False,
     flag_TOW_5 = False, flag_TOW_6 = False, flag_TOW_0 = False, flag_TOW_set = False, flag_utc_model = False,
     flag_all_almanac = False, flag_almanac_1 = False, flag_almanac_2 = False, flag_almanac_3 = False,
     flag_almanac_4 = False, flag_GGTO_1 = False, flag_GGTO_2 = False, flag_GGTO_3 = False, flag_GGTO_4 = False,
     flag_CED = False, have_ISM = False \<rparr>"

definition Galileo_Inav_Message :: "(rat \<Rightarrow> 'f) \<Rightarrow> 'f inav option" where
  "Galileo_Inav_Message num =
    map_option (\<lambda>decoder. \<lparr> w1 = word_1_blank num, w2 = word_2_blank num, w3 = word_3_blank num,
      w4 = word_4_blank num, w5 = word_5_blank num, w6 = word_6_blank num, w7 = word_7_blank num,
      w8 = word_8_blank num, w9 = word_9_blank num, w10 = word_10_blank num, ggto_10 = ggto_blank num,
      ced_16 = word_16_blank num, Time_0 = 0, WN_0 = 0, TOW_0 = 0, IOD_ephemeris = 0, page_Even = [],
      gal_ism = galileo_ism_blank, ism_constellation_id = 0, ism_service_level_id = 0,
      fec = inav_fec_blank decoder, osnma = inav_osnma_blank, flags = inav_flags_blank \<rparr>)
    (reed_solomon_custom 60 29 1 195 0 137 [] [])"

section \<open>OSNMA: positions and navigation bits\<close>

definition clear_nma :: "inav_osnma \<Rightarrow> inav_osnma" where
  "clear_nma os = os\<lparr> nma_position_filled := replicate 15 0,
     nma_msg := (nma_msg os)\<lparr> om_mack := replicate 15 0, om_hkroot := replicate 15 0 \<rparr> \<rparr>"

definition reset_osnma_nav_bits_adkd0_12 :: "inav_osnma \<Rightarrow> inav_osnma" where
  "reset_osnma_nav_bits_adkd0_12 os = os\<lparr> nav_bits_word_1 := [], nav_bits_word_2 := [], nav_bits_word_3 := [],
     nav_bits_word_4 := [], nav_bits_word_5 := [] \<rparr>"

definition reset_osnma_nav_bits_adkd4 :: "inav_osnma \<Rightarrow> inav_osnma" where
  "reset_osnma_nav_bits_adkd4 os = os\<lparr> nav_bits_word_6 := [], nav_bits_word_10 := [] \<rparr>"

definition init_PRN :: "u32 \<Rightarrow> 'f inav \<Rightarrow> 'f inav" where
  "init_PRN prn st = st\<lparr> w4 := (w4 st)\<lparr> SV_ID_PRN_4 := prn \<rparr>,
     osnma := clear_nma ((osnma st)\<lparr> nma_msg := (nma_msg (osnma st))\<lparr> om_PRN := prn \<rparr>,
       page_position_in_inav_subframe := 255 \<rparr>) \<rparr>"

definition enable_reed_solomon :: "'f inav \<Rightarrow> 'f inav" where
  "enable_reed_solomon st = st\<lparr> fec := (fec st)\<lparr> enable_rs := True \<rparr> \<rparr>"

definition page_position :: "u8 \<Rightarrow> 'f inav \<Rightarrow> 'f inav" where
  "page_position k st = st\<lparr> osnma := (osnma st)\<lparr> page_position_in_inav_subframe := k \<rparr> \<rparr>"

section \<open>Words 1 to 4\<close>

text \<open>\<open>data_bits.to_string().substr(first, n)\<close> of the bits of a word, which are always 128.\<close>

definition nav_bits :: "bool list \<Rightarrow> nat \<Rightarrow> nat \<Rightarrow> string" where
  "nav_bits bits first n = take n (drop first (bitset_to_string bits))"

definition read_page_1 :: "(rat \<Rightarrow> 'f::times) \<Rightarrow> bool list \<Rightarrow> 'f inav \<Rightarrow> 'f inav" where
  "read_page_1 num bits st = st\<lparr> w1 := read_word_1 num bits,
     flags := (flags st)\<lparr> flag_ephemeris_1 := True \<rparr>,
     osnma := (osnma st)\<lparr> nav_bits_word_1 := nav_bits bits 6 120 \<rparr> \<rparr>"

definition read_page_2 :: "(rat \<Rightarrow> 'f::times) \<Rightarrow> bool list \<Rightarrow> 'f inav \<Rightarrow> 'f inav" where
  "read_page_2 num bits st = st\<lparr> w2 := read_word_2 num bits,
     flags := (flags st)\<lparr> flag_ephemeris_2 := True \<rparr>,
     osnma := (osnma st)\<lparr> nav_bits_word_2 := nav_bits bits 6 120 \<rparr> \<rparr>"

definition read_page_3 :: "(rat \<Rightarrow> 'f::times) \<Rightarrow> bool list \<Rightarrow> 'f inav \<Rightarrow> 'f inav" where
  "read_page_3 num bits st = st\<lparr> w3 := read_word_3 num bits,
     flags := (flags st)\<lparr> flag_ephemeris_3 := True \<rparr>,
     osnma := (osnma st)\<lparr> nav_bits_word_3 := nav_bits bits 6 122 \<rparr> \<rparr>"

definition read_page_4 :: "(rat \<Rightarrow> 'f::times) \<Rightarrow> bool list \<Rightarrow> 'f inav \<Rightarrow> 'f inav" where
  "read_page_4 num bits st = st\<lparr> w4 := read_word_4 num bits,
     flags := (flags st)\<lparr> flag_ephemeris_4 := True \<rparr>,
     osnma := (osnma st)\<lparr> nma_msg := (nma_msg (osnma st))\<lparr> om_PRN := SV_ID_PRN_4 (read_word_4 num bits) \<rparr>,
       nav_bits_word_4 := nav_bits bits 6 120 \<rparr> \<rparr>"

section \<open>FEC2: collecting\<close>

definition octet_at :: "bool list \<Rightarrow> nat \<Rightarrow> u8" where
  "octet_at bits start = read_octet_unsigned bits [(start, BITS_IN_OCTET)]"

text \<open>\<open>n\<close> octets from bit \<open>FIRST_RS_BIT_AFTER_IODNAV\<close> on, into the buffer from \<open>first\<close> on.\<close>

definition store_octets :: "bool list \<Rightarrow> nat \<Rightarrow> nat \<Rightarrow> u8 list \<Rightarrow> u8 list option" where
  "store_octets bits first n buf =
    foldM (\<lambda>k buf. vput buf (first + k) (octet_at bits (FIRST_RS_BIT_AFTER_IODNAV + k * BITS_IN_OCTET))) [0..<n] buf"

text \<open>The issue of data of a word: the first one is taken over, another one resets the buffer.\<close>

definition check_IODnav :: "i32 \<Rightarrow> inav_fec \<Rightarrow> inav_fec" where
  "check_IODnav iod f =
    (let f = (if current_IODnav f = 0 then f\<lparr> current_IODnav := iod \<rparr> else f)
     in if current_IODnav f \<noteq> iod
        then f\<lparr> current_IODnav := iod, rs_buffer := replicate INAV_RS_BUFFER_LENGTH 0, inav_rs_pages := replicate 8 0 \<rparr>
        else f)"

definition fec_word_1 :: "bool list \<Rightarrow> i32 \<Rightarrow> inav_fec \<Rightarrow> inav_fec option" where
  "fec_word_1 bits iod f =
    (if \<not> enable_rs f then Some f
     else
       do { let f = check_IODnav iod f;
            buf \<leftarrow> vput (rs_buffer f) 0 (read_octet_unsigned bits [(1, 6), (15, 2)]);
            buf \<leftarrow> vput buf 1 (octet_at bits 7);
            buf \<leftarrow> store_octets bits 2 14 buf;
            pages \<leftarrow> vput (inav_rs_pages f) 0 1;
            Some (f\<lparr> rs_buffer := buf, inav_rs_pages := pages \<rparr>) })"

text \<open>Words 2, 3 and 4 with \<open>i\<close> one, two and three: the issue of data is not negative, and the first
  octet of the code follows from it.\<close>

definition fec_info_word :: "nat \<Rightarrow> bool list \<Rightarrow> i32 \<Rightarrow> inav_fec \<Rightarrow> inav_fec option" where
  "fec_info_word i bits iod f =
    (if \<not> enable_rs f then Some f
     else
       do { let f = check_IODnav iod f;
            buf \<leftarrow> vput (rs_buffer f) 0 (ucast (4 + current_IODnav f mod 4));
            buf \<leftarrow> store_octets bits (2 + 14 * i) 14 buf;
            pages \<leftarrow> vput (inav_rs_pages f) i 1;
            Some (f\<lparr> rs_buffer := buf, inav_rs_pages := pages \<rparr>) })"

text \<open>Words 17 to 20 with \<open>i\<close> from 0 to 3. Other bits of the issue of data make the information words
  invalid, not the other parity words.\<close>

definition fec_parity_word :: "nat \<Rightarrow> bool list \<Rightarrow> inav_fec \<Rightarrow> inav_fec option" where
  "fec_parity_word i bits f =
    (if \<not> enable_rs f then Some f
     else
       do { let lsb = read_octet_unsigned bits RS_IODNAV_LSBS;
            let f = (if i = 0 then f\<lparr> IODnav_LSB17 := lsb \<rparr> else if i = 1 then f\<lparr> IODnav_LSB18 := lsb \<rparr>
              else if i = 2 then f\<lparr> IODnav_LSB19 := lsb \<rparr> else f\<lparr> IODnav_LSB20 := lsb \<rparr>);
            pages \<leftarrow> (if lsb \<noteq> ucast (current_IODnav f mod 4)
              then foldM (\<lambda>k pages. vput pages k 0) [0..<4] (inav_rs_pages f) else Some (inav_rs_pages f));
            let first = INAV_RS_INFO_VECTOR_LENGTH + i * INAV_RS_SUBVECTOR_LENGTH;
            buf \<leftarrow> vput (rs_buffer f) first (octet_at bits FIRST_RS_BIT);
            buf \<leftarrow> store_octets bits (first + 1) (INAV_RS_SUBVECTOR_LENGTH - 1) buf;
            pages \<leftarrow> vput pages (4 + i) 1;
            Some (f\<lparr> rs_buffer := buf, inav_rs_pages := pages \<rparr>) })"

section \<open>FEC2: missing words\<close>

text \<open>The bits of an octet at a position of a word, the highest first.\<close>

definition write_octet :: "nat \<Rightarrow> u8 \<Rightarrow> bool list \<Rightarrow> bool list" where
  "write_octet first octet data_bits =
    foldl (\<lambda>data_bits i. data_bits[first + i := bit octet (8 - i - 1)]) data_bits [0..<8]"

definition write_iodnav :: "i32 \<Rightarrow> bool list \<Rightarrow> bool list" where
  "write_iodnav iod data_bits =
    foldl (\<lambda>data_bits i. data_bits[6 + i := bit iod (10 - i - 1)]) data_bits [0..<10]"

text \<open>The last loop of the functions reverses the bits.\<close>

definition regenerate_page_1 :: "u8 list \<Rightarrow> bool list option" where
  "regenerate_page_1 decoded =
    do { c0 \<leftarrow> vget decoded 0;
         c1 \<leftarrow> vget decoded 1;
         let data_bits = write_octet 6 c1 ((replicate GALILEO_DATA_JK_BITS False)[5 := True]);
         let data_bits = data_bits[14 := bit c0 1, 15 := bit c0 0];
         data_bits \<leftarrow> foldM (\<lambda>k data_bits. map_option (\<lambda>octet. write_octet (k * 8) octet data_bits) (vget decoded k))
           [2..<16] data_bits;
         Some (rev data_bits) }"

definition regenerate_info :: "bool list \<Rightarrow> nat \<Rightarrow> i32 \<Rightarrow> u8 list \<Rightarrow> bool list option" where
  "regenerate_info page_type first iod decoded =
    do { let data_bits = write_iodnav iod (page_type @ replicate (GALILEO_DATA_JK_BITS - length page_type) False);
         data_bits \<leftarrow> foldM (\<lambda>k data_bits. map_option (\<lambda>octet. write_octet (16 + k * 8) octet data_bits)
             (vget decoded (k + first))) [0..<14] data_bits;
         Some (rev data_bits) }"

definition regenerate_page_2 :: "i32 \<Rightarrow> u8 list \<Rightarrow> bool list option" where
  "regenerate_page_2 iod decoded = regenerate_info [False, False, False, False, True, False] 16 iod decoded"

definition regenerate_page_3 :: "i32 \<Rightarrow> u8 list \<Rightarrow> bool list option" where
  "regenerate_page_3 iod decoded = regenerate_info [False, False, False, False, True, True] 30 iod decoded"

definition regenerate_page_4 :: "i32 \<Rightarrow> u8 list \<Rightarrow> bool list option" where
  "regenerate_page_4 iod decoded = regenerate_info [False, False, False, True, False, False] 44 iod decoded"

text \<open>The positions of the octets of the missing words; those of the parity words refer to the code
  that is not shortened.\<close>

definition inav_erasure_positions :: "nat list \<Rightarrow> int list" where
  "inav_erasure_positions pages =
    concat (map (\<lambda>(k, first, last, offset). if pages ! k = 0 then map (\<lambda>i. int (i + offset)) [first..<last] else [])
      [(0, 1, 16, 0), (1, 16, 30, 0), (2, 30, 44, 0), (3, 44, 58, 0), (4, 58, 73, 137), (5, 73, 88, 137),
       (6, 88, 103, 137), (7, 103, 118, 137)])"

definition recover_page :: "nat \<Rightarrow> (inav_fec \<Rightarrow> bool list option) \<Rightarrow> (bool list \<Rightarrow> 'f inav \<Rightarrow> 'f inav) \<Rightarrow> 'f inav
    \<Rightarrow> 'f inav option" where
  "recover_page k regenerate read_page st =
    (if inav_rs_pages (fec st) ! k = 0
     then map_option (\<lambda>missing_bits. read_page missing_bits st) (regenerate (fec st)) else Some st)"

definition recover_pages :: "(rat \<Rightarrow> 'f::times) \<Rightarrow> 'f inav \<Rightarrow> 'f inav option" where
  "recover_pages num st =
    do { st \<leftarrow> recover_page 0 (\<lambda>f. regenerate_page_1 (rs_buffer f)) (read_page_1 num) st;
         st \<leftarrow> recover_page 1 (\<lambda>f. regenerate_page_2 (current_IODnav f) (rs_buffer f)) (read_page_2 num) st;
         st \<leftarrow> recover_page 2 (\<lambda>f. regenerate_page_3 (current_IODnav f) (rs_buffer f)) (read_page_3 num) st;
         recover_page 3 (\<lambda>f. regenerate_page_4 (current_IODnav f) (rs_buffer f)) (read_page_4 num) st }"

definition ephemeris_complete :: "'f inav \<Rightarrow> 'f inav" where
  "ephemeris_complete st = st\<lparr> flags := (flags st)\<lparr> flag_ephemeris_1 := False, flag_ephemeris_2 := False,
       flag_ephemeris_3 := False, flag_ephemeris_4 := False, flag_all_ephemeris := True \<rparr>,
     IOD_ephemeris := IOD_nav_1 (w1 st), fec := (fec st)\<lparr> enable_rs := False \<rparr> \<rparr>"

definition have_new_ephemeris :: "(rat \<Rightarrow> 'f::times) \<Rightarrow> 'f inav \<Rightarrow> (bool \<times> 'f inav) option" where
  "have_new_ephemeris num st =
    (let fl = flags st in
     if flag_ephemeris_1 fl \<and> flag_ephemeris_2 fl \<and> flag_ephemeris_3 fl \<and> flag_ephemeris_4 fl \<and> flag_iono_and_GST fl
       \<and> IOD_nav_1 (w1 st) = IOD_nav_2 (w2 st) \<and> IOD_nav_3 (w3 st) = IOD_nav_4 (w4 st)
       \<and> IOD_nav_1 (w1 st) = IOD_nav_3 (w3 st)
     then Some (True, ephemeris_complete st)
     else if enable_rs (fec st) \<and> sum_list (inav_rs_pages (fec st)) = 4 then
       do { (r, buf) \<leftarrow> decode (rs_decoder (fec st)) (rs_buffer (fec st)) (inav_erasure_positions (inav_rs_pages (fec st)));
            let st = st\<lparr> fec := (fec st)\<lparr> rs_buffer := buf \<rparr> \<rparr>;
            if r \<ge> 0 then
              do { st \<leftarrow> recover_pages num st;
                   Some (True, ephemeris_complete (st\<lparr> fec := (fec st)\<lparr> inav_rs_pages := replicate 8 0 \<rparr> \<rparr>)) }
            else Some (False, st) }
     else Some (False, st))"

end
