(* ===== verification/Inav_Pages.thy ===== *)
theory Inav_Pages
  imports Inav_Message
begin

text \<open>
  The rest of \<open>galileo_inav_message.cc\<close>: the words 5 to 22, the decoder of a word, the pages with their
  checksum and the bits of OSNMA, and what the telemetry decoder takes out.
\<close>

section \<open>Words 5 to 22\<close>

definition read_page_5 :: "(rat \<Rightarrow> 'f::times) \<Rightarrow> bool list \<Rightarrow> 'f inav \<Rightarrow> 'f inav" where
  "read_page_5 num bits st =
    (let w = read_word_5 num bits in st\<lparr> w5 := w, WN_0 := WN_5 w,
       flags := (flags st)\<lparr> flag_TOW_5 := True, flag_iono_and_GST := True, flag_TOW_set := True \<rparr>,
       osnma := (osnma st)\<lparr> nav_bits_word_5 := nav_bits bits 6 67 \<rparr> \<rparr>)"

definition read_page_6 :: "(rat \<Rightarrow> 'f::times) \<Rightarrow> bool list \<Rightarrow> 'f inav \<Rightarrow> 'f inav" where
  "read_page_6 num bits st = st\<lparr> w6 := read_word_6 num bits,
     flags := (flags st)\<lparr> flag_TOW_6 := True, flag_utc_model := True, flag_TOW_set := True \<rparr>,
     osnma := (osnma st)\<lparr> nav_bits_word_6 := nav_bits bits 6 99 \<rparr> \<rparr>"

definition read_page_10 :: "(rat \<Rightarrow> 'f::times) \<Rightarrow> bool list \<Rightarrow> 'f inav \<Rightarrow> 'f inav" where
  "read_page_10 num bits st = st\<lparr> w10 := read_word_10 num bits, ggto_10 := read_ggto num bits,
     flags := (flags st)\<lparr> flag_GGTO_1 := True, flag_GGTO_2 := True, flag_GGTO_3 := True, flag_GGTO_4 := True,
       flag_almanac_4 := True \<rparr>,
     osnma := (osnma st)\<lparr> nav_bits_word_10 := nav_bits bits 86 42 \<rparr> \<rparr>"

definition read_page_22 :: "(u8 list \<Rightarrow> u32) \<Rightarrow> bool list \<Rightarrow> 'f inav \<Rightarrow> 'f inav" where
  "read_page_22 crc32 bits st =
    (let cid = read_octet_unsigned bits ISM_CONSTELLATION_ID_BIT;
         sid = read_octet_unsigned bits ISM_SERVICE_LEVEL_ID_BIT;
         (ok, ism) = check_ism_crc crc32 bits (gal_ism st);
         st = st\<lparr> ism_constellation_id := cid, ism_service_level_id := sid, gal_ism := ism \<rparr>
     in if \<not> ok then st
        else
          (let ism = set_ism_service_level_id sid (set_ism_constellation_id cid ism);
               ism = (if cid = 1 \<and> sid = 2
                 then set_ism_parameters (ucast (read_navigation_unsigned bits ISM_WN_BIT))
                   (ucast (read_navigation_unsigned bits ISM_T0_BIT)) (read_navigation_bool bits ISM_MASK_MSB_BIT)
                   (ucast (read_navigation_unsigned bits ISM_MASK_BIT)) (read_octet_unsigned bits ISM_PCONST_BIT)
                   (read_octet_unsigned bits ISM_PSAT_BIT) (read_octet_unsigned bits ISM_URA_BIT)
                   (read_octet_unsigned bits ISM_URE_BIT) (read_octet_unsigned bits ISM_BNOM_BIT)
                   (read_octet_unsigned bits ISM_TVALIDITY_BIT) ism
                 else ism)
           in st\<lparr> gal_ism := ism, flags := (flags st)\<lparr> have_ISM := True \<rparr> \<rparr>))"

definition read_page_0 :: "bool list \<Rightarrow> 'f inav \<Rightarrow> 'f inav" where
  "read_page_0 bits st =
    (let st = st\<lparr> Time_0 := read_int32 bits TIME_0_BIT \<rparr>
     in if Time_0 st = 2
        then st\<lparr> WN_0 := read_int32 bits WN_0_BIT, w5 := (w5 st)\<lparr> WN_5 := read_int32 bits WN_0_BIT \<rparr>,
          TOW_0 := read_int32 bits TOW_0_BIT, flags := (flags st)\<lparr> flag_TOW_set := True, flag_TOW_0 := True \<rparr> \<rparr>
        else st)"

section \<open>Decoder of a word\<close>

definition with_fec :: "(inav_fec \<Rightarrow> inav_fec option) \<Rightarrow> 'f inav \<Rightarrow> 'f inav option" where
  "with_fec g st = map_option (\<lambda>f. st\<lparr> fec := f \<rparr>) (g (fec st))"

text \<open>The start of a subframe.\<close>

definition start_subframe :: "'f inav \<Rightarrow> 'f inav" where
  "start_subframe st = st\<lparr> osnma := reset_osnma_nav_bits_adkd0_12 (reset_osnma_nav_bits_adkd4
     (clear_nma ((osnma st)\<lparr> page_position_in_inav_subframe := 0 \<rparr>))) \<rparr>"

definition decode_word :: "(u8 list \<Rightarrow> u32) \<Rightarrow> (rat \<Rightarrow> 'f::times) \<Rightarrow> i32 \<Rightarrow> bool list \<Rightarrow> 'f inav \<Rightarrow> 'f inav option" where
  "decode_word crc32 num page_number bits st =
    (if page_number = 1 then
       (let st = read_page_1 num bits (page_position 10 st) in with_fec (fec_word_1 bits (IOD_nav_1 (w1 st))) st)
     else if page_number = 2 then
       (let st = read_page_2 num bits (start_subframe st) in with_fec (fec_info_word 1 bits (IOD_nav_2 (w2 st))) st)
     else if page_number = 3 then
       (let st = read_page_3 num bits (page_position 11 st) in with_fec (fec_info_word 2 bits (IOD_nav_3 (w3 st))) st)
     else if page_number = 4 then
       (let st = read_page_4 num bits (page_position 1 st) in with_fec (fec_info_word 3 bits (IOD_nav_4 (w4 st))) st)
     else if page_number = 5 then Some (read_page_5 num bits (page_position 12 st))
     else if page_number = 6 then Some (read_page_6 num bits (page_position 2 st))
     else if page_number = 7 then
       (let st = page_position 3 st
        in Some (st\<lparr> w7 := read_word_7 num bits, flags := (flags st)\<lparr> flag_almanac_1 := True \<rparr> \<rparr>))
     else if page_number = 8 then
       (let st = page_position 4 st
        in Some (st\<lparr> w8 := read_word_8 num bits, flags := (flags st)\<lparr> flag_almanac_2 := True \<rparr> \<rparr>))
     else if page_number = 9 then
       (let st = page_position 3 st
        in Some (st\<lparr> w9 := read_word_9 num bits, flags := (flags st)\<lparr> flag_almanac_3 := True \<rparr> \<rparr>))
     else if page_number = 10 then Some (read_page_10 num bits (page_position 4 st))
     else if page_number = 16 then
       Some (st\<lparr> ced_16 := read_word_16 num bits, flags := (flags st)\<lparr> flag_CED := True \<rparr> \<rparr>)
     else if page_number = 17 then with_fec (fec_parity_word 0 bits) (page_position 5 st)
     else if page_number = 18 then with_fec (fec_parity_word 1 bits) (page_position 5 st)
     else if page_number = 19 then with_fec (fec_parity_word 2 bits) (page_position 6 st)
     else if page_number = 20 then with_fec (fec_parity_word 3 bits) (page_position 6 st)
     else if page_number = 22 then Some (read_page_22 crc32 bits st)
     else if page_number = 0 then Some (read_page_0 bits st)
     else Some st)"

definition check_position :: "'f inav \<Rightarrow> 'f inav" where
  "check_position st =
    (let pos = page_position_in_inav_subframe (osnma st) in
     if pos > 14 \<and> pos \<noteq> 255
     then st\<lparr> osnma := reset_osnma_nav_bits_adkd0_12 (reset_osnma_nav_bits_adkd4
       (clear_nma ((osnma st)\<lparr> page_position_in_inav_subframe := 255 \<rparr>))) \<rparr>
     else st)"

definition page_jk_decoder :: "(u8 list \<Rightarrow> u32) \<Rightarrow> (rat \<Rightarrow> 'f::times) \<Rightarrow> string \<Rightarrow> 'f inav
    \<Rightarrow> (i32 \<times> 'f inav) option" where
  "page_jk_decoder crc32 num data_jk st =
    do { data_jk_bits \<leftarrow> bitset GALILEO_DATA_JK_BITS data_jk;
         let page_number = read_int32 data_jk_bits PAGE_TYPE_BIT;
         st \<leftarrow> decode_word crc32 num page_number data_jk_bits st;
         Some (page_number, check_position st) }"

section \<open>Pages\<close>

text \<open>\<open>CRC_test\<close> of this class: 196 bits in 25 bytes, the first one filled with zeros at its start.\<close>

definition inav_CRC_test :: "(u8 list \<Rightarrow> u32) \<Rightarrow> bool list \<Rightarrow> nat \<Rightarrow> bool" where
  "inav_CRC_test crc24 bits checksum \<longleftrightarrow> of_nat checksum = crc24 (frame_bytes GALILEO_DATA_FRAME_BYTES bits)"

definition next_position :: "'f inav \<Rightarrow> 'f inav" where
  "next_position st =
    (let pos = page_position_in_inav_subframe (osnma st) in if pos \<noteq> 255 then page_position (pos + 1) st else st)"

text \<open>The bits of OSNMA of a page, at its position in the subframe; pages where the first or the second
  part is zero are left out.\<close>

definition fill_osnma :: "string \<Rightarrow> inav_osnma \<Rightarrow> inav_osnma option" where
  "fill_osnma osnma_sis os =
    (let pos = page_position_in_inav_subframe os in
     if pos = 255 then Some os
     else
       do { let os = (if pos = 0 then clear_nma os else os);
            hkroot_str \<leftarrow> substr osnma_sis 0 8;
            hkroot_bs \<leftarrow> bitset 8 hkroot_str;
            mack_str \<leftarrow> substr osnma_sis 8 32;
            mack_bs \<leftarrow> bitset 32 mack_str;
            if True \<in> set hkroot_bs \<and> True \<in> set mack_bs then
              do { let os = os\<lparr> hkroot_sis := of_nat (bitset_to_ulong hkroot_bs),
                     mack_sis := of_nat (bitset_to_ulong mack_bs) \<rparr>;
                   mack \<leftarrow> vput (om_mack (nma_msg os)) (unat pos) (mack_sis os);
                   hkroot \<leftarrow> vput (om_hkroot (nma_msg os)) (unat pos) (hkroot_sis os);
                   filled \<leftarrow> vput (nma_position_filled os) (unat pos) 1;
                   Some (os\<lparr> nma_msg := (nma_msg os)\<lparr> om_mack := mack, om_hkroot := hkroot \<rparr>,
                     nma_position_filled := filled \<rparr>) }
            else Some os })"

definition split_page :: "(u8 list \<Rightarrow> u32) \<Rightarrow> (u8 list \<Rightarrow> u32) \<Rightarrow> (rat \<Rightarrow> 'f::times) \<Rightarrow> string \<Rightarrow> nat \<Rightarrow> 'f inav
    \<Rightarrow> 'f inav option" where
  "split_page crc24 crc32 num page_string flag_even_word st =
    do { first \<leftarrow> vget page_string 0;
         if is_one first then
           (if flag_even_word \<noteq> 1 then Some st
            else
              do { let page_INAV = page_Even st @ page_string;
                   Data_k \<leftarrow> substr page_INAV 2 112;
                   Data_j \<leftarrow> substr page_INAV 116 16;
                   osnma_sis \<leftarrow> substr page_INAV 132 40;
                   CRC_data \<leftarrow> substr page_INAV 196 24;
                   let st = next_position st;
                   TLM_word_for_CRC \<leftarrow> substr page_INAV 0 GALILEO_DATA_FRAME_BITS;
                   TLM_word_for_CRC_bits \<leftarrow> bitset GALILEO_DATA_FRAME_BITS TLM_word_for_CRC;
                   checksum \<leftarrow> bitset 24 CRC_data;
                   if inav_CRC_test crc24 TLM_word_for_CRC_bits (bitset_to_ulong checksum) then
                     do { let st = st\<lparr> flags := (flags st)\<lparr> flag_CRC_test := True \<rparr> \<rparr>;
                          (page_number, st) \<leftarrow> page_jk_decoder crc32 num (Data_k @ Data_j) st;
                          os \<leftarrow> fill_osnma osnma_sis (osnma st);
                          Some (st\<lparr> osnma := os \<rparr>) }
                   else Some (st\<lparr> flags := (flags st)\<lparr> flag_CRC_test := False \<rparr> \<rparr>) })
         else
           do { even \<leftarrow> substr page_string 0 114;
                Some (st\<lparr> page_Even := even \<rparr>) } }"

section \<open>What has arrived\<close>

definition have_new_iono_and_GST :: "'f inav \<Rightarrow> bool \<times> 'f inav" where
  "have_new_iono_and_GST st =
    (if flag_iono_and_GST (flags st) \<and> flag_utc_model (flags st)
     then (True, st\<lparr> flags := (flags st)\<lparr> flag_iono_and_GST := False \<rparr> \<rparr>) else (False, st))"

definition have_new_utc_model :: "'f inav \<Rightarrow> bool \<times> 'f inav" where
  "have_new_utc_model st =
    (if flag_utc_model (flags st) then (True, st\<lparr> flags := (flags st)\<lparr> flag_utc_model := False \<rparr> \<rparr>) else (False, st))"

definition have_new_almanac :: "'f inav \<Rightarrow> bool \<times> 'f inav" where
  "have_new_almanac st =
    (let fl = flags st in
     if flag_almanac_1 fl \<and> flag_almanac_2 fl \<and> flag_almanac_3 fl \<and> flag_almanac_4 fl
     then (True, st\<lparr> flags := fl\<lparr> flag_almanac_1 := False, flag_almanac_2 := False, flag_almanac_3 := False,
       flag_almanac_4 := False, flag_all_almanac := True \<rparr> \<rparr>)
     else (False, st))"

definition have_new_reduced_ced :: "'f inav \<Rightarrow> bool \<times> 'f inav" where
  "have_new_reduced_ced st =
    (if flag_CED (flags st) \<and> sint (WN_5 (w5 st)) > 0
     then (True, st\<lparr> flags := (flags st)\<lparr> flag_CED := False \<rparr> \<rparr>) else (False, st))"

definition have_new_ism :: "'f inav \<Rightarrow> bool \<times> 'f inav" where
  "have_new_ism st =
    (if have_ISM (flags st) then (True, st\<lparr> flags := (flags st)\<lparr> have_ISM := False \<rparr> \<rparr>) else (False, st))"

definition have_new_nma :: "'f inav \<Rightarrow> bool" where
  "have_new_nma st = list_all (\<lambda>element. element = 1) (nma_position_filled (osnma st))"

text \<open>The time of the subframe. The difference of \<open>int32_t\<close> is not negative without a carry: the time of
  week of word 5 has 20 bits.\<close>

definition get_osnma_msg :: "'f inav \<Rightarrow> osnma_msg \<times> 'f inav" where
  "get_osnma_msg st =
    (let tow = TOW_5 (w5 st) - 25;
         tow = (if sint tow < 0 then tow + 604800 else tow);
         msg = (nma_msg (osnma st))\<lparr> om_WN_sf0 := WN_0 st, om_TOW_sf0 := tow \<rparr>
     in (msg, st\<lparr> osnma := (osnma st)\<lparr> nma_position_filled := replicate 15 0, nma_msg := msg \<rparr> \<rparr>))"

definition get_osnma_adkd_4_nav_bits :: "'f inav \<Rightarrow> string \<times> 'f inav" where
  "get_osnma_adkd_4_nav_bits st =
    (let bits = nav_bits_word_6 (osnma st) @ nav_bits_word_10 (osnma st)
     in (bits, st\<lparr> osnma := (osnma st)\<lparr> nav_bits_adkd_4 := bits \<rparr> \<rparr>))"

definition get_osnma_adkd_0_12_nav_bits :: "'f inav \<Rightarrow> string \<times> 'f inav" where
  "get_osnma_adkd_0_12_nav_bits st =
    (let os = osnma st;
         bits = nav_bits_word_1 os @ nav_bits_word_2 os @ nav_bits_word_3 os @ nav_bits_word_4 os @ nav_bits_word_5 os
     in (bits, st\<lparr> osnma := os\<lparr> nav_bits_adkd_0_12 := bits \<rparr> \<rparr>))"

section \<open>Contents\<close>

record 'f galileo_ephemeris =
  eph_flag_all_ephemeris :: bool
  eph_IOD_ephemeris :: i32
  eph_IOD_nav :: i32
  eph_PRN :: u32
  eph_M_0 :: 'f
  eph_delta_n :: 'f
  eph_ecc :: 'f
  eph_sqrtA :: 'f
  eph_OMEGA_0 :: 'f
  eph_i_0 :: 'f
  eph_omega :: 'f
  eph_OMEGAdot :: 'f
  eph_idot :: 'f
  eph_Cuc :: 'f
  eph_Cus :: 'f
  eph_Crc :: 'f
  eph_Crs :: 'f
  eph_Cic :: 'f
  eph_Cis :: 'f
  eph_toe :: i32
  eph_toc :: i32
  eph_af0 :: 'f
  eph_af1 :: 'f
  eph_af2 :: 'f
  eph_WN :: i32
  eph_tow :: i32
  eph_SISA :: i32
  eph_E5b_HS :: i32
  eph_E1B_HS :: i32
  eph_E5b_DVS :: bool
  eph_E1B_DVS :: bool
  eph_BGD_E1E5a :: 'f
  eph_BGD_E1E5b :: 'f

definition get_ephemeris :: "'f inav \<Rightarrow> 'f galileo_ephemeris" where
  "get_ephemeris st = \<lparr>
     eph_flag_all_ephemeris = flag_all_ephemeris (flags st), eph_IOD_ephemeris = IOD_ephemeris st,
     eph_IOD_nav = IOD_nav_1 (w1 st), eph_PRN = SV_ID_PRN_4 (w4 st), eph_M_0 = M0_1 (w1 st),
     eph_delta_n = delta_n_3 (w3 st), eph_ecc = e_1 (w1 st), eph_sqrtA = A_1 (w1 st),
     eph_OMEGA_0 = OMEGA_0_2 (w2 st), eph_i_0 = i_0_2 (w2 st), eph_omega = omega_2 (w2 st),
     eph_OMEGAdot = OMEGA_dot_3 (w3 st), eph_idot = iDot_2 (w2 st), eph_Cuc = C_uc_3 (w3 st),
     eph_Cus = C_us_3 (w3 st), eph_Crc = C_rc_3 (w3 st), eph_Crs = C_rs_3 (w3 st),
     eph_Cic = C_ic_4 (w4 st), eph_Cis = C_is_4 (w4 st), eph_toe = t0e_1 (w1 st), eph_toc = t0c_4 (w4 st),
     eph_af0 = af0_4 (w4 st), eph_af1 = af1_4 (w4 st), eph_af2 = af2_4 (w4 st), eph_WN = WN_5 (w5 st),
     eph_tow = TOW_5 (w5 st), eph_SISA = SISA_3 (w3 st), eph_E5b_HS = E5b_HS_5 (w5 st),
     eph_E1B_HS = E1B_HS_5 (w5 st), eph_E5b_DVS = E5b_DVS_5 (w5 st), eph_E1B_DVS = E1B_DVS_5 (w5 st),
     eph_BGD_E1E5a = BGD_E1E5a_5 (w5 st), eph_BGD_E1E5b = BGD_E1E5b_5 (w5 st) \<rparr>"

record 'f galileo_iono =
  iono_ai0 :: 'f
  iono_ai1 :: 'f
  iono_ai2 :: 'f
  iono_tow :: i32
  iono_WN :: i32
  iono_Region1_flag :: bool
  iono_Region2_flag :: bool
  iono_Region3_flag :: bool
  iono_Region4_flag :: bool
  iono_Region5_flag :: bool

definition get_iono :: "'f inav \<Rightarrow> 'f galileo_iono" where
  "get_iono st = \<lparr>
     iono_ai0 = ai0_5 (w5 st), iono_ai1 = ai1_5 (w5 st), iono_ai2 = ai2_5 (w5 st),
     iono_tow = TOW_5 (w5 st), iono_WN = WN_5 (w5 st), iono_Region1_flag = Region1_flag_5 (w5 st),
     iono_Region2_flag = Region2_flag_5 (w5 st), iono_Region3_flag = Region3_flag_5 (w5 st),
     iono_Region4_flag = Region4_flag_5 (w5 st), iono_Region5_flag = Region5_flag_5 (w5 st) \<rparr>"

record 'f galileo_utc_model =
  utc_A0 :: 'f
  utc_A1 :: 'f
  utc_Delta_tLS :: i32
  utc_tot :: i32
  utc_WNot :: i32
  utc_WN_LSF :: i32
  utc_DN :: i32
  utc_Delta_tLSF :: i32
  utc_flag_utc_model :: bool
  utc_A_0G :: 'f
  utc_A_1G :: 'f
  utc_t_0G :: i32
  utc_WN_0G :: i32

definition get_utc_model :: "'f inav \<Rightarrow> 'f galileo_utc_model" where
  "get_utc_model st = \<lparr>
     utc_A0 = A0_6 (w6 st), utc_A1 = A1_6 (w6 st), utc_Delta_tLS = Delta_tLS_6 (w6 st),
     utc_tot = t0t_6 (w6 st), utc_WNot = WNot_6 (w6 st), utc_WN_LSF = WN_LSF_6 (w6 st),
     utc_DN = DN_6 (w6 st), utc_Delta_tLSF = Delta_tLSF_6 (w6 st),
     utc_flag_utc_model = flag_utc_model (flags st), utc_A_0G = A_0G_10 (ggto_10 st),
     utc_A_1G = A_1G_10 (ggto_10 st), utc_t_0G = t_0G_10 (ggto_10 st),
     utc_WN_0G = WN_0G_10 (ggto_10 st) \<rparr>"

text \<open>\<open>get_almanac\<close> copies the members of the words 7 to 10, except those of the conversion to GPS time.\<close>

type_synonym 'f almanac_helper = "'f word_7 \<times> 'f word_8 \<times> 'f word_9 \<times> 'f word_10"

definition get_almanac :: "'f inav \<Rightarrow> 'f almanac_helper" where
  "get_almanac st = (w7 st, w8 st, w9 st, w10 st)"

text \<open>The reduced data as \<open>get_reduced_ced\<close> hands them to \<open>compute_eph\<close>, which is floating-point
  arithmetic with transcendental functions. The time of transmission is computed in \<open>int32_t\<close>.\<close>

record 'f reduced_ced =
  ced_PRN :: u32
  TOTRedCED :: i32
  ced_IODnav :: i32
  ced_data :: "'f word_16"

definition int32_of :: "int \<Rightarrow> i32 option" where
  "int32_of k = (if - (2 ^ 31) \<le> k \<and> k < 2 ^ 31 then Some (word_of_int k) else None)"

definition max_IOD_nav :: "'f inav \<Rightarrow> i32" where
  "max_IOD_nav st = foldl (\<lambda>m iod. if sint iod > sint m then iod else m) (IOD_nav_1 (w1 st))
     [IOD_nav_2 (w2 st), IOD_nav_3 (w3 st), IOD_nav_4 (w4 st)]"

definition reduced_ced_data :: "'f inav \<Rightarrow> 'f reduced_ced option" where
  "reduced_ced_data st =
    do { let tow5 = sint (TOW_5 (w5 st));
         let tow6 = sint (TOW_6 (w6 st));
         tot \<leftarrow> int32_of (sint (WN_5 (w5 st)) * 604800 + (if tow5 > tow6 then tow5 + 4 else tow6 + 10));
         Some \<lparr> ced_PRN = SV_ID_PRN_4 (w4 st), TOTRedCED = tot, ced_IODnav = max_IOD_nav st, ced_data = ced_16 st \<rparr> }"

definition get_galileo_ism :: "'f inav \<Rightarrow> galileo_ism" where
  "get_galileo_ism st = gal_ism st"

definition get_flag_GGTO :: "'f inav \<Rightarrow> bool" where
  "get_flag_GGTO st =
    (flag_GGTO_1 (flags st) \<and> flag_GGTO_2 (flags st) \<and> flag_GGTO_3 (flags st) \<and> flag_GGTO_4 (flags st))"

end
