(* ===== verification/Inav_Telemetry.thy ===== *)
theory Inav_Telemetry
  imports Inav_Pages Viterbi Osnma_Receiver
begin

text \<open>
  The telemetry decoder of a channel of Galileo E1 or E5b, from the symbols of half a page to the messages
  for other blocks: \<open>decode_INAV_word\<close> of \<open>galileo_telemetry_decoder_gs.cc\<close>, and the parts of its
  constructor, of \<open>set_satellite\<close> and of \<open>reset\<close> that concern the I/NAV message. The messages of
  the port \<open>OSNMA_from_TLM\<close> are those the receiver of OSNMA takes. The clock difference to GPS time, the
  monitor of navigation data and printing are left out.
\<close>

section \<open>State\<close>

datatype 'f nav_object =
  Nav_Ephemeris "'f galileo_ephemeris"
| Nav_Reduced_CED "'f reduced_ced"
| Nav_Iono "'f galileo_iono"
| Nav_Utc "'f galileo_utc_model"
| Nav_Almanac "'f almanac_helper"

record ('m, 'f) inav_tlm =
  d_inav_nav :: "'f inav"
  d_inav_viterbi :: "'m viterbi"
  d_flag_even_word_arrived :: nat
  d_band :: char
  d_use_ced :: bool
  d_first_eph_sent :: bool
  d_enable_reed_solomon_inav :: bool
  d_satellite_PRN :: u32
  OSNMA_from_TLM :: "tlm_msg list"
  inav_telemetry :: "'f nav_object list"

definition GALILEO_INAV_FRAME_SYMBOLS :: nat where
  "GALILEO_INAV_FRAME_SYMBOLS = 250 - 10"

definition make_inav_tlm :: "'m::{zero,uminus} \<Rightarrow> (rat \<Rightarrow> 'f) \<Rightarrow> char \<Rightarrow> bool \<Rightarrow> bool \<Rightarrow> u32 \<Rightarrow> ('m, 'f) inav_tlm option" where
  "make_inav_tlm maxlog num band use_ced with_rs prn =
    do { nav \<leftarrow> Galileo_Inav_Message num;
         let nav = init_PRN prn (if with_rs then enable_reed_solomon nav else nav);
         vit \<leftarrow> Viterbi_Decoder maxlog 7 2 (GALILEO_INAV_FRAME_SYMBOLS div 2 - 6) [121, 91];
         Some \<lparr> d_inav_nav = nav, d_inav_viterbi = vit, d_flag_even_word_arrived = 0, d_band = band,
           d_use_ced = use_ced, d_first_eph_sent = False, d_enable_reed_solomon_inav = with_rs,
           d_satellite_PRN = prn, OSNMA_from_TLM = [], inav_telemetry = [] \<rparr> }"

definition inav_set_satellite :: "u32 \<Rightarrow> ('m, 'f) inav_tlm \<Rightarrow> ('m, 'f) inav_tlm" where
  "inav_set_satellite prn tlm = tlm\<lparr> d_satellite_PRN := prn, d_inav_nav := init_PRN prn (d_inav_nav tlm) \<rparr>"

definition inav_reset :: "('m, 'f) inav_tlm \<Rightarrow> ('m, 'f) inav_tlm" where
  "inav_reset tlm =
    (let nav = d_inav_nav tlm;
         nav = init_PRN (d_satellite_PRN tlm)
           (nav\<lparr> flags := (flags nav)\<lparr> flag_TOW_set := False, flag_TOW_0 := False \<rparr> \<rparr>)
     in tlm\<lparr> d_inav_viterbi := viterbi_reset (d_inav_viterbi tlm),
       d_inav_nav := (if d_enable_reed_solomon_inav tlm then enable_reed_solomon nav else nav) \<rparr>)"

section \<open>Messages\<close>

definition publish_nav :: "'f nav_object \<Rightarrow> ('m, 'f) inav_tlm \<Rightarrow> ('m, 'f) inav_tlm" where
  "publish_nav msg tlm = tlm\<lparr> inav_telemetry := inav_telemetry tlm @ [msg] \<rparr>"

definition publish_osnma :: "tlm_msg \<Rightarrow> ('m, 'f) inav_tlm \<Rightarrow> ('m, 'f) inav_tlm" where
  "publish_osnma msg tlm = tlm\<lparr> OSNMA_from_TLM := OSNMA_from_TLM tlm @ [msg] \<rparr>"

text \<open>The navigation data that tags authenticate, with the time of week at the start of the subframe.\<close>

definition send_adkd_0_12 :: "('m, 'f) inav_tlm \<Rightarrow> ('m, 'f) inav_tlm" where
  "send_adkd_0_12 tlm =
    (let (bits, nav) = get_osnma_adkd_0_12_nav_bits (d_inav_nav tlm) in
     if length bits = 549 \<and> d_band tlm = CHR ''1''
     then publish_osnma (Tlm_NavBits (d_satellite_PRN tlm) bits (TOW_5 (w5 nav) - 25))
       (tlm\<lparr> d_inav_nav := nav\<lparr> osnma := reset_osnma_nav_bits_adkd0_12 (osnma nav) \<rparr> \<rparr>)
     else tlm\<lparr> d_inav_nav := nav \<rparr>)"

definition send_adkd_4 :: "('m, 'f) inav_tlm \<Rightarrow> ('m, 'f) inav_tlm" where
  "send_adkd_4 tlm =
    (let (bits, nav) = get_osnma_adkd_4_nav_bits (d_inav_nav tlm) in
     if length bits = 141 \<and> d_band tlm = CHR ''1''
     then publish_osnma (Tlm_NavBits (d_satellite_PRN tlm) bits (TOW_6 (w6 nav) - 5))
       (tlm\<lparr> d_inav_nav := nav\<lparr> osnma := reset_osnma_nav_bits_adkd4 (osnma nav) \<rparr> \<rparr>)
     else tlm\<lparr> d_inav_nav := nav \<rparr>)"

text \<open>The ephemeris, or without one the reduced data.\<close>

definition send_ephemeris :: "(rat \<Rightarrow> 'f::times) \<Rightarrow> ('m, 'f) inav_tlm \<Rightarrow> ('m, 'f) inav_tlm option" where
  "send_ephemeris num tlm =
    do { (new_eph, nav) \<leftarrow> have_new_ephemeris num (d_inav_nav tlm);
         let tlm = tlm\<lparr> d_inav_nav := nav \<rparr>;
         if new_eph then Some ((publish_nav (Nav_Ephemeris (get_ephemeris nav)) tlm)\<lparr> d_first_eph_sent := True \<rparr>)
         else if d_band tlm = CHR ''1'' \<and> d_use_ced tlm \<and> \<not> d_first_eph_sent tlm then
           (let (new_ced, nav) = have_new_reduced_ced nav; tlm = tlm\<lparr> d_inav_nav := nav \<rparr> in
            if new_ced then map_option (\<lambda>ced. publish_nav (Nav_Reduced_CED ced) tlm) (reduced_ced_data nav)
            else Some tlm)
         else Some tlm }"

definition send_if_new :: "('f inav \<Rightarrow> bool \<times> 'f inav) \<Rightarrow> ('f inav \<Rightarrow> 'f nav_object) \<Rightarrow> ('m, 'f) inav_tlm
    \<Rightarrow> ('m, 'f) inav_tlm" where
  "send_if_new have_new object_of tlm =
    (let (new_obj, nav) = have_new (d_inav_nav tlm); tlm = tlm\<lparr> d_inav_nav := nav \<rparr>
     in if new_obj then publish_nav (object_of nav) tlm else tlm)"

definition send_nma :: "('m, 'f) inav_tlm \<Rightarrow> ('m, 'f) inav_tlm" where
  "send_nma tlm =
    (if d_band tlm = CHR ''1'' \<and> have_new_nma (d_inav_nav tlm)
     then (let (msg, nav) = get_osnma_msg (d_inav_nav tlm)
           in publish_osnma (Tlm_Osnma msg) (tlm\<lparr> d_inav_nav := nav \<rparr>))
     else tlm)"

definition push_navigation_data :: "(rat \<Rightarrow> 'f::times) \<Rightarrow> ('m, 'f) inav_tlm \<Rightarrow> ('m, 'f) inav_tlm option" where
  "push_navigation_data num tlm =
    map_option (\<lambda>tlm. send_nma (send_if_new have_new_almanac (\<lambda>nav. Nav_Almanac (get_almanac nav))
      (send_if_new have_new_utc_model (\<lambda>nav. Nav_Utc (get_utc_model nav))
        (send_if_new have_new_iono_and_GST (\<lambda>nav. Nav_Iono (get_iono nav)) tlm))))
    (send_ephemeris num (send_adkd_4 (send_adkd_0_12 tlm)))"

section \<open>Half a page\<close>

text \<open>The bits of half a page; the first one tells the odd half.\<close>

definition decode_INAV_bits :: "(u8 list \<Rightarrow> u32) \<Rightarrow> (u8 list \<Rightarrow> u32) \<Rightarrow> (rat \<Rightarrow> 'f::times) \<Rightarrow> nat list
    \<Rightarrow> ('m, 'f) inav_tlm \<Rightarrow> ('m, 'f) inav_tlm option" where
  "decode_INAV_bits crc24 crc32 num page_part_bits tlm =
    do { let page_String = map (\<lambda>b. if b > 0 then CHR ''1'' else CHR ''0'') page_part_bits;
         first \<leftarrow> vget page_part_bits 0;
         nav \<leftarrow> split_page crc24 crc32 num page_String (d_flag_even_word_arrived tlm) (d_inav_nav tlm);
         push_navigation_data num (tlm\<lparr> d_inav_nav := nav,
           d_flag_even_word_arrived := (if first = 1 then 0 else 1) \<rparr>) }"

definition decode_INAV_word :: "(u8 list \<Rightarrow> u32) \<Rightarrow> (u8 list \<Rightarrow> u32) \<Rightarrow> (rat \<Rightarrow> 'f::times)
    \<Rightarrow> 'm::{zero,plus,minus,uminus,ord} list \<Rightarrow> nat \<Rightarrow> ('m, 'f) inav_tlm \<Rightarrow> ('m, 'f) inav_tlm option" where
  "decode_INAV_word crc24 crc32 num page_part_symbols frame_length tlm =
    do { soft \<leftarrow> deinterleaver 8 30 page_part_symbols (replicate frame_length 0);
         (page_part_bits, vit) \<leftarrow> viterbi_decode (replicate (frame_length div 2) 0) (undo_not_gate soft)
           (d_inav_viterbi tlm);
         decode_INAV_bits crc24 crc32 num page_part_bits (tlm\<lparr> d_inav_viterbi := vit \<rparr>) }"

end
