(* ===== verification/Inav_Fec2.thy ===== *)
theory Inav_Fec2
  imports Inav_Pages Reed_Solomon_Codec
begin

text \<open>
  The words of the ephemeris and of its Reed-Solomon code, as a satellite sends them, and what the receiver
  makes of each: the readers return the octets of the code, and the functions for missing words return
  the words.
\<close>

section \<open>Reading and writing bits\<close>

lemma shift_in_bit: "v * 2 OR of_bool b = (v * 2 + of_bool b :: 'a::len word)"
proof -
  have "2 * v AND of_bool b = (0 :: 'a word)" by (rule bit_word_eqI) (auto simp: bit_simps)
  then have "2 * v + of_bool b = (2 * v OR of_bool b :: 'a word)" by (rule disjunctive_add_eq_or)
  then show ?thesis by (simp only: mult.commute)
qed

lemma foldl_shift_in:
  "foldl (\<lambda>value b. push_bit 1 value OR of_bool b) v bs = (v * 2 ^ length bs + of_nat (bit_val bs) :: 'a::len word)"
proof (induction bs arbitrary: v)
  case Nil
  show ?case by simp
next
  case (Cons b bs)
  have "(v * 2 + of_bool b) * 2 ^ length bs + of_nat (bit_val bs)
      = v * 2 ^ length (b # bs) + (of_nat (bit_val (b # bs)) :: 'a word)"
    by (simp add: bit_val_Cons algebra_simps)
  with Cons[of "v * 2 + of_bool b"] show ?case by (simp only: foldl_Cons push_bit_eq_mult power_one_right shift_in_bit)
qed

definition at_places :: "places \<Rightarrow> bool list \<Rightarrow> bool list" where
  "at_places ps ws = concat (map (\<lambda>(first, len). take len (drop (first - 1) ws)) ps)"

lemma shift_in_places:
  assumes "length ws = sz" "\<forall>(first, len) \<in> set ps. 0 < first \<and> first + len \<le> sz + 1"
  shows "shift_in sz (rev ws) ps v = (v * 2 ^ length (at_places ps ws) + of_nat (bit_val (at_places ps ws)) :: 'a::len word)"
  using assms(2)
proof (induction ps arbitrary: v)
  case Nil
  show ?case by (simp add: shift_in_def at_places_def)
next
  case (Cons p ps)
  obtain first len where p: "p = (first, len)" by (cases p)
  with Cons.prems have b: "0 < first" "first + len \<le> sz + 1" by simp_all
  let ?t = "take len (drop (first - 1) ws)"
  have "?t = map (\<lambda>j. rev ws ! (sz - first - j)) [0..<len]"
  proof (rule nth_equalityI)
    show "length ?t = length (map (\<lambda>j. rev ws ! (sz - first - j)) [0..<len])" using assms(1) b by simp
    fix j assume "j < length ?t"
    then have j: "j < len" by simp
    then have "sz - first - j < length ws" "length ws - Suc (sz - first - j) = first - 1 + j"
      using assms(1) b by linarith+
    then show "?t ! j = map (\<lambda>j. rev ws ! (sz - first - j)) [0..<len] ! j"
      using j assms(1) b by (simp add: rev_nth)
  qed
  then have "foldl (\<lambda>value j. push_bit 1 value OR of_bool (rev ws ! (sz - first - j))) v [0..<len]
      = foldl (\<lambda>value b. push_bit 1 value OR of_bool b) v ?t"
    by (simp only: foldl_map)
  also have "\<dots> = v * 2 ^ length ?t + of_nat (bit_val ?t)" by (rule foldl_shift_in)
  finally have "shift_in sz (rev ws) (p # ps) v = shift_in sz (rev ws) ps (v * 2 ^ length ?t + of_nat (bit_val ?t))"
    by (simp only: shift_in_def p foldl_Cons prod.case)
  also have "\<dots> = v * 2 ^ length (at_places (p # ps) ws) + of_nat (bit_val (at_places (p # ps) ws))"
    using Cons.IH[of "v * 2 ^ length ?t + of_nat (bit_val ?t)"] Cons.prems
    by (simp add: at_places_def p bit_val_append power_add algebra_simps)
  finally show ?case .
qed

text \<open>The readers of a word of 128 bits, in the order in which they are sent.\<close>

definition fits :: "places \<Rightarrow> bool" where
  "fits ps = list_all (\<lambda>(first, len). 0 < first \<and> first + len \<le> 129) ps"

lemma read_unsigned:
  assumes "length ws = 128" "fits ps"
  shows "read_navigation_unsigned (rev ws) ps = of_nat (bit_val (at_places ps ws))"
    "read_octet_unsigned (rev ws) ps = of_nat (bit_val (at_places ps ws))"
  using assms shift_in_places[of ws 128 ps 0]
  by (simp_all add: read_navigation_unsigned_def read_octet_unsigned_def GALILEO_DATA_JK_BITS_def fits_def list_all_iff)

lemma read_octet:
  assumes "length ws = 128" "fits ps" "at_places ps ws = byte_bits b"
  shows "read_octet_unsigned (rev ws) ps = b"
  using assms by (simp add: read_unsigned bit_val_byte_bits)

lemma foldl_update:
  "p + n \<le> length d \<Longrightarrow> foldl (\<lambda>d i. d[p + i := f i]) d [0..<n] = take p d @ map f [0..<n] @ drop (p + n) d"
proof (induction n)
  case 0
  show ?case by simp
next
  case (Suc n)
  then have "drop (p + n) d = d ! (p + n) # drop (p + Suc n) d" by (simp add: Cons_nth_drop_Suc)
  with Suc show ?case by (simp add: list_update_append)
qed

lemma write_octet_eq:
  "p + 8 \<le> length d \<Longrightarrow> write_octet p octet d = take p d @ byte_bits octet @ drop (p + 8) d"
proof -
  have "map (\<lambda>i. bit octet (8 - i - 1)) [0..<8] = byte_bits octet" by (simp add: byte_bits_def upt_rec)
  then show "p + 8 \<le> length d \<Longrightarrow> ?thesis" using foldl_update[of p 8 d] by (simp add: write_octet_def)
qed

lemma write_octets:
  assumes "a + 8 * (m + n) \<le> length d" "m + n + first \<le> length decoded"
  shows "foldM (\<lambda>k d. map_option (\<lambda>octet. write_octet (a + k * 8) octet d) (vget decoded (k + first))) [m..<m + n] d
    = Some (take (a + 8 * m) d @ bits_of (take n (drop (m + first) decoded)) @ drop (a + 8 * (m + n)) d)"
  using assms
proof (induction n)
  case 0
  show ?case by simp
next
  case (Suc n)
  let ?d = "take (a + 8 * m) d @ bits_of (take n (drop (m + first) decoded)) @ drop (a + 8 * (m + n)) d"
  have l: "length (take n (drop (m + first) decoded)) = n" "length (take (a + 8 * m) d) = a + 8 * m"
    using Suc.prems by simp_all
  then have t: "take (a + (m + n) * 8) ?d = take (a + 8 * m) d @ bits_of (take n (drop (m + first) decoded))"
    "drop (a + (m + n) * 8 + 8) ?d = drop (a + 8 * (m + Suc n)) d"
    by (simp_all add: algebra_simps)
  have u: "a + (m + n) * 8 = a + 8 * (m + n)" by simp
  have "take (Suc n) (drop (m + first) decoded) = take n (drop (m + first) decoded) @ [decoded ! (m + n + first)]"
    using Suc.prems by (simp add: take_Suc_conv_app_nth ac_simps)
  moreover have "a + (m + n) * 8 + 8 \<le> length ?d" using l Suc.prems by simp
  then have "write_octet (a + (m + n) * 8) (decoded ! (m + n + first)) ?d
      = take (a + (m + n) * 8) ?d @ byte_bits (decoded ! (m + n + first)) @ drop (a + (m + n) * 8 + 8) ?d"
    by (rule write_octet_eq)
  moreover have "m + n + first < length decoded" using Suc.prems by simp
  moreover have "foldM (\<lambda>k d. map_option (\<lambda>octet. write_octet (a + k * 8) octet d) (vget decoded (k + first)))
      [m..<m + n] d = Some ?d"
    using Suc by simp
  moreover have "[m..<m + Suc n] = [m..<m + n] @ [m + n]" by simp
  ultimately show ?case by (simp only: foldM_append foldM.simps vget_Some option.map bind.simps t bits_of_append
      bits_of_Cons bits_of_Nil append_assoc append_Nil2)
qed

section \<open>What a satellite sends\<close>

text \<open>The words 1 to 4 and 17 to 20, here 0 to 7, that carry a code of 118 octets: 58 of information, 60 of
  parity. The first octet has the type of word 1 and the last two bits of the issue of data.\<close>

definition type_bits :: "nat \<Rightarrow> bool list" where
  "type_bits k = rev (map (bit k) [0..<6])"

definition iod_bits :: "u8 list \<Rightarrow> bool list" where
  "iod_bits code = byte_bits (code ! 1) @ drop 6 (byte_bits (code ! 0))"

definition sent_iod :: "u8 list \<Rightarrow> i32" where
  "sent_iod code = of_nat (bit_val (iod_bits code))"

definition sent_word :: "u8 list \<Rightarrow> nat \<Rightarrow> bool list" where
  "sent_word code j =
    (if j < 4 then type_bits (j + 1) @ iod_bits code @ bits_of (take 14 (drop (2 + 14 * j) code))
     else type_bits (13 + j) @ byte_bits (code ! (58 + 15 * (j - 4))) @ drop 6 (byte_bits (code ! 0))
       @ bits_of (take 14 (drop (59 + 15 * (j - 4)) code)))"

definition sender :: "u8 list \<Rightarrow> bool" where
  "sender code \<longleftrightarrow> length code = 118 \<and> take 6 (byte_bits (code ! 0)) = type_bits 1
     \<and> codeword 60 195 (insert_padding 58 137 code)"

lemma length_type_bits [simp]: "length (type_bits k) = 6"
  by (simp add: type_bits_def)

lemma length_iod_bits [simp]: "length (iod_bits code) = 10"
  by (simp add: iod_bits_def)

lemma bit_val_type_bits: "k < 64 \<Longrightarrow> bit_val (type_bits k) = k"
proof -
  assume "k < 64"
  then have "take_bit 6 k = k" by (simp add: take_bit_eq_mod)
  then show ?thesis by (simp add: type_bits_def bit_val_horner horner_sum_bit_eq_take_bit)
qed

lemma length_sent_word [simp]: "length code = 118 \<Longrightarrow> j < 8 \<Longrightarrow> length (sent_word code j) = 128"
  by (auto simp: sent_word_def min_def)

text \<open>The parts of a word at the places where the code looks for them.\<close>

lemma sent_parts:
  assumes "length code = 118" "j < 8"
  shows "take 6 (sent_word code j) = type_bits (if j < 4 then j + 1 else 13 + j)"
    "j < 4 \<Longrightarrow> take 10 (drop 6 (sent_word code j)) = iod_bits code"
    "4 \<le> j \<Longrightarrow> take 8 (drop 6 (sent_word code j)) = byte_bits (code ! (58 + 15 * (j - 4)))"
    "take 2 (drop 14 (sent_word code j)) = drop 6 (byte_bits (code ! 0))"
    "drop 16 (sent_word code j) = bits_of (take 14 (drop (if j < 4 then 2 + 14 * j else 59 + 15 * (j - 4)) code))"
  using assms by (auto simp: sent_word_def iod_bits_def)

lemma octets_of_word:
  assumes "length ws = 128" "drop 16 ws = bits_of bs" "k < 14"
  shows "octet_at (rev ws) (FIRST_RS_BIT_AFTER_IODNAV + k * BITS_IN_OCTET) = bs ! k"
proof -
  have l: "8 * length bs = 112" using arg_cong[OF assms(2), of length] assms(1) by simp
  then have "drop (8 * k) (bits_of bs) = byte_bits (bs ! k) @ bits_of (drop (Suc k) bs)"
    using assms(3) by (simp add: drop_bits_of Cons_nth_drop_Suc[symmetric])
  moreover have "drop (16 + 8 * k) ws = drop (8 * k) (drop 16 ws)" by (simp add: add.commute)
  ultimately have "take 8 (drop (16 + 8 * k) ws) = byte_bits (bs ! k)" using assms(2) by simp
  then have "at_places [(17 + k * 8, 8)] ws = byte_bits (bs ! k)" by (simp add: at_places_def mult.commute)
  moreover have "fits [(17 + k * 8, 8)]" using assms(3) by (simp add: fits_def)
  ultimately show ?thesis using assms(1)
    by (simp add: octet_at_def inav_sizes read_octet)
qed

lemma foldM_vput:
  "p + n \<le> length d \<Longrightarrow> foldM (\<lambda>k d. vput d (p + k) (f k)) [0..<n] d = Some (take p d @ map f [0..<n] @ drop (p + n) d)"
proof (induction n)
  case 0
  show ?case by simp
next
  case (Suc n)
  then have "drop (p + n) d = d ! (p + n) # drop (p + Suc n) d" by (simp add: Cons_nth_drop_Suc)
  with Suc show ?case by (simp add: foldM_append vput_Some list_update_append)
qed

lemma store_sent:
  assumes "length ws = 128" "drop 16 ws = bits_of bs" "n \<le> 14" "first + n \<le> length buf"
  shows "store_octets (rev ws) first n buf = Some (take first buf @ take n bs @ drop (first + n) buf)"
proof -
  have "8 * length bs = 112" using arg_cong[OF assms(2), of length] assms(1) by simp
  then have "map (\<lambda>k. octet_at (rev ws) (FIRST_RS_BIT_AFTER_IODNAV + k * BITS_IN_OCTET)) [0..<n] = take n bs"
    using assms octets_of_word[OF assms(1,2)] by (intro nth_equalityI) simp_all
  then show ?thesis using foldM_vput[OF assms(4)] by (simp only: store_octets_def)
qed

section \<open>Missing words\<close>

lemma bits_of_bit_val:
  assumes "length bs = n" "n \<le> LENGTH('a::len)"
  shows "map (\<lambda>i. bit (of_nat (bit_val bs) :: 'a word) (n - i - 1)) [0..<n] = bs"
proof (rule nth_equalityI)
  show "length (map (\<lambda>i. bit (of_nat (bit_val bs) :: 'a word) (n - i - 1)) [0..<n]) = length bs"
    using assms(1) by simp
  fix i assume "i < length (map (\<lambda>i. bit (of_nat (bit_val bs) :: 'a word) (n - i - 1)) [0..<n])"
  then have i: "i < n" "n - Suc i < LENGTH('a)" using assms(2) by simp_all
  then show "map (\<lambda>i. bit (of_nat (bit_val bs) :: 'a word) (n - i - 1)) [0..<n] ! i = bs ! i"
    using assms by (simp add: bit_val_horner bit_of_nat_iff bit_horner_sum_bit_iff rev_nth)
qed

lemma write_iodnav_eq:
  assumes "16 \<le> length d" "length bs = 10"
  shows "write_iodnav (of_nat (bit_val bs)) d = take 6 d @ bs @ drop 16 d"
proof -
  have "map (\<lambda>i. bit (of_nat (bit_val bs) :: i32) (10 - i - 1)) [0..<10] = bs"
    by (rule bits_of_bit_val) (use assms in simp_all)
  then show ?thesis using foldl_update[of 6 10 d "\<lambda>i. bit (of_nat (bit_val bs) :: i32) (10 - i - 1)"] assms(1)
    by (simp only: write_iodnav_def) simp
qed

lemma regenerate_info_sent:
  assumes "length code = 118" "0 < i" "i < 4"
  shows "regenerate_info (type_bits (i + 1)) (2 + 14 * i) (sent_iod code) code = Some (rev (sent_word code i))"
proof -
  let ?d = "type_bits (i + 1) @ replicate 122 False"
  have "write_iodnav (sent_iod code) ?d = take 6 ?d @ iod_bits code @ drop 16 ?d"
    unfolding sent_iod_def by (rule write_iodnav_eq) simp_all
  then have w: "write_iodnav (sent_iod code) ?d = type_bits (i + 1) @ iod_bits code @ replicate 112 False" by simp
  have "foldM (\<lambda>k d. map_option (\<lambda>octet. write_octet (16 + k * 8) octet d) (vget code (k + (2 + 14 * i)))) [0..<0 + 14]
      (type_bits (i + 1) @ iod_bits code @ replicate 112 False)
    = Some (type_bits (i + 1) @ iod_bits code @ bits_of (take 14 (drop (2 + 14 * i) code)))"
    by (subst write_octets) (use assms in simp_all)
  then show ?thesis using assms(3) w
    by (simp only: regenerate_info_def Let_def GALILEO_DATA_JK_BITS_def length_type_bits) (simp add: sent_word_def)
qed

lemma regenerate_sent:
  assumes "sender code"
  shows "regenerate_page_1 code = Some (rev (sent_word code 0))"
    "regenerate_page_2 (sent_iod code) code = Some (rev (sent_word code 1))"
    "regenerate_page_3 (sent_iod code) code = Some (rev (sent_word code 2))"
    "regenerate_page_4 (sent_iod code) code = Some (rev (sent_word code 3))"
proof -
  have len: "length code = 118" and t: "take 6 (byte_bits (code ! 0)) = type_bits 1"
    using assms by (simp_all add: sender_def)
  let ?d = "(replicate 128 False)[5 := True]"
  have d: "?d = type_bits 1 @ replicate 122 False"
    by (simp add: type_bits_def numeral_eq_Suc upt_rec bit_0)
  have w: "write_octet 6 (code ! 1) ?d = type_bits 1 @ byte_bits (code ! 1) @ replicate 114 False"
    by (simp add: d write_octet_eq)
  have b: "drop 6 (byte_bits c) = [bit c 1, bit c 0]" for c by (simp add: byte_bits_def)
  have u: "(write_octet 6 (code ! 1) ?d)[14 := bit (code ! 0) 1, 15 := bit (code ! 0) 0]
      = type_bits 1 @ iod_bits code @ replicate 112 False"
  proof -
    have "replicate 114 False = False # False # replicate 112 False" by (simp add: numeral_eq_Suc)
    then show ?thesis unfolding w by (simp add: iod_bits_def b list_update_append)
  qed
  have "foldM (\<lambda>k d. map_option (\<lambda>octet. write_octet (0 + k * 8) octet d) (vget code (k + 0))) [2..<2 + 14]
      (type_bits 1 @ iod_bits code @ replicate 112 False)
    = Some (type_bits 1 @ iod_bits code @ bits_of (take 14 (drop 2 code)))"
    by (subst write_octets) (use len in simp_all)
  then show "regenerate_page_1 code = Some (rev (sent_word code 0))"
    using len by (simp add: regenerate_page_1_def GALILEO_DATA_JK_BITS_def vget_Some u sent_word_def del: upt_rec_numeral One_nat_def)
  have "type_bits 2 = [False, False, False, False, True, False]" "type_bits 3 = [False, False, False, False, True, True]"
    "type_bits 4 = [False, False, False, True, False, False]"
    by (simp_all add: type_bits_def upt_rec bit_0)
  then show "regenerate_page_2 (sent_iod code) code = Some (rev (sent_word code 1))"
    "regenerate_page_3 (sent_iod code) code = Some (rev (sent_word code 2))"
    "regenerate_page_4 (sent_iod code) code = Some (rev (sent_word code 3))"
    using regenerate_info_sent[OF len, of 1] regenerate_info_sent[OF len, of 2] regenerate_info_sent[OF len, of 3]
    by (simp_all add: regenerate_page_2_def regenerate_page_3_def regenerate_page_4_def flip: numeral_2_eq_2)
qed

section \<open>Recovery\<close>

text \<open>
  FEC2: any four of the eight words give the ephemeris.
\<close>

section \<open>What has been received\<close>

definition slice :: "nat \<Rightarrow> nat set" where
  "slice j = (if j = 0 then {0..<16} else if j < 4 then {2 + 14 * j..<16 + 14 * j}
     else {58 + 15 * (j - 4)..<73 + 15 * (j - 4)})"

definition known :: "nat set \<Rightarrow> nat set" where
  "known rcv = (\<Union>j \<in> rcv. slice j) \<union> (if rcv \<inter> {..<4} = {} then {} else {0})"

text \<open>The words \<open>rcv\<close> of the code have arrived and no other one.\<close>

definition has_words :: "u8 list \<Rightarrow> nat set \<Rightarrow> inav_fec \<Rightarrow> bool" where
  "has_words code rcv f \<longleftrightarrow> rcv \<subseteq> {..<8} \<and> enable_rs f \<and> standard_code 60 195 0 137 (rs_decoder f) \<and> length (rs_buffer f) = 118
     \<and> length (inav_rs_pages f) = 8 \<and> (\<forall>j < 8. inav_rs_pages f ! j = of_bool (j \<in> rcv))
     \<and> current_IODnav f = (if rcv \<inter> {..<4} = {} then 0 else sent_iod code)
     \<and> (\<forall>p \<in> known rcv. rs_buffer f ! p = code ! p)"

lemma bit_val_last_bits: "bit_val (drop 6 (byte_bits c)) < 4"
  using bit_val_bound[of "drop 6 (byte_bits c)"] by simp

lemma unat_sent_iod:
  "unat (sent_iod code) = unat (code ! 1) * 4 + bit_val (drop 6 (byte_bits (code ! 0)))"
proof -
  have "bit_val (iod_bits code) < 2 ^ LENGTH(32)" using bit_val_bound[of "iod_bits code"] by simp
  then have "unat (sent_iod code) = bit_val (iod_bits code)" unfolding sent_iod_def by (rule unat_of_nat_less)
  then show ?thesis by (simp add: iod_bits_def bit_val_append)
qed

lemma last_bits_of_iod:
  "sent_iod code mod 4 = of_nat (bit_val (drop 6 (byte_bits (code ! 0))))" (is "_ = of_nat ?r")
  "ucast (sent_iod code mod 4) = (of_nat (bit_val (drop 6 (byte_bits (code ! 0)))) :: u8)"
proof -
  have "unat (sent_iod code mod 4) = ?r"
    using bit_val_last_bits[of "code ! 0"] by (simp add: unat_mod_distrib unat_sent_iod)
  then have "of_nat (unat (sent_iod code mod 4)) = (of_nat ?r :: i32)" by (simp only:)
  then show m: "sent_iod code mod 4 = of_nat ?r" by simp
  have "take_bit LENGTH(32) ?r = ?r" using bit_val_last_bits[of "code ! 0"] by (simp add: take_bit_nat_eq_self)
  then show "ucast (sent_iod code mod 4) = (of_nat ?r :: u8)" by (simp only: m unsigned_of_nat)
qed

lemma first_octet:
  assumes "sender code"
  shows "ucast (4 + sent_iod code mod 4) = code ! 0"
proof -
  let ?r = "bit_val (drop 6 (byte_bits (code ! 0)))"
  have "unat (code ! 0) = bit_val (take 6 (byte_bits (code ! 0)) @ drop 6 (byte_bits (code ! 0)))"
    by (simp only: append_take_drop_id bit_val_byte_bits)
  also have "\<dots> = 4 + ?r" using assms by (simp only: sender_def bit_val_append) (simp add: bit_val_type_bits)
  finally have "of_nat (unat (code ! 0)) = (of_nat (4 + ?r) :: u8)" by (simp only:)
  then have "code ! 0 = of_nat (4 + ?r)" by simp
  moreover have "take_bit LENGTH(32) (4 + ?r) = 4 + ?r"
    using bit_val_last_bits[of "code ! 0"] by (simp add: take_bit_nat_eq_self)
  then have "ucast (of_nat (4 + ?r) :: i32) = (of_nat (4 + ?r) :: u8)" by (simp only: unsigned_of_nat)
  moreover have "4 + sent_iod code mod 4 = of_nat (4 + ?r)" by (simp add: last_bits_of_iod(1))
  ultimately show ?thesis by (simp only:)
qed

text \<open>The effect of a word on the buffer: its slice.\<close>

lemma known_insert:
  "known (insert j rcv) = known rcv \<union> slice j \<union> (if j < 4 then {0} else {})"
  by (auto simp: known_def)

lemma has_words_store:
  assumes f: "has_words code rcv f" and j: "j < 8"
    and buf: "length buf = 118" "\<forall>p < 118. buf ! p = (if p \<in> slice j \<or> j < 4 \<and> p = 0 then code ! p else rs_buffer f ! p)"
    and g: "enable_rs g" "rs_decoder g = rs_decoder f" "rs_buffer g = buf" "inav_rs_pages g = (inav_rs_pages f)[j := 1]"
      "current_IODnav g = (if j < 4 then sent_iod code else current_IODnav f)"
  shows "has_words code (insert j rcv) g"
proof -
  have "p < 118" if "p \<in> known (insert j rcv)" for p
    using that j f by (auto simp: has_words_def known_def slice_def subset_iff split: if_splits)
  then have "buf ! p = code ! p" if "p \<in> known (insert j rcv)" for p
    using that buf(2) f by (auto simp: known_insert has_words_def split: if_splits)
  then show ?thesis using f j buf(1) g by (auto simp: has_words_def nth_list_update)
qed

text \<open>A word of the satellite's message leaves the words that have arrived and itself.\<close>

lemma check_IODnav_sent:
  assumes "has_words code rcv f" "sent_iod code \<noteq> 0"
  shows "check_IODnav (sent_iod code) f = f\<lparr> current_IODnav := sent_iod code \<rparr>"
  using assms by (auto simp: check_IODnav_def has_words_def split: if_splits)

lemma nth_stored:
  assumes "first + length bs \<le> length buf" "p < length buf"
  shows "(take first buf @ bs @ drop (first + length bs) buf) ! p
    = (if first \<le> p \<and> p < first + length bs then bs ! (p - first) else buf ! p)"
  using assms by (auto simp: nth_append min_def)

lemma fec_info_sent:
  assumes "has_words code rcv f" "sender code" "sent_iod code \<noteq> 0" "0 < j" "j < 4"
  shows "\<exists>g. fec_info_word j (rev (sent_word code j)) (sent_iod code) f = Some g \<and> has_words code (insert j rcv) g"
proof -
  have len: "length code = 118" using assms(2) by (simp add: sender_def)
  let ?bs = "take 14 (drop (2 + 14 * j) code)" and ?b0 = "(rs_buffer f)[0 := code ! 0]"
  define buf where "buf = take (2 + 14 * j) ?b0 @ ?bs @ drop (2 + 14 * j + 14) ?b0"
  have bl: "length (rs_buffer f) = 118" "length (inav_rs_pages f) = 8" "enable_rs f"
    using assms(1) by (simp_all add: has_words_def)
  have d: "drop 16 (sent_word code j) = bits_of ?bs" using sent_parts(5)[OF len, of j] assms(5) by simp
  have st: "store_octets (rev (sent_word code j)) (2 + 14 * j) 14 ?b0 = Some buf"
    using store_sent[OF _ d, of 14 "2 + 14 * j" ?b0] bl(1) len assms(5) by (simp add: buf_def)
  let ?g = "f\<lparr> current_IODnav := sent_iod code, rs_buffer := buf, inav_rs_pages := (inav_rs_pages f)[j := 1] \<rparr>"
  have "fec_info_word j (rev (sent_word code j)) (sent_iod code) f = Some ?g"
    using bl assms(5) st check_IODnav_sent[OF assms(1,3)] first_octet[OF assms(2)]
    by (simp add: fec_info_word_def vput_Some)
  moreover have "has_words code (insert j rcv) ?g"
  proof (rule has_words_store[OF assms(1)])
    have lb: "length ?bs = 14" using len assms(5) by simp
    show "length buf = 118" using bl(1) lb assms(5) by (simp add: buf_def)
    show "\<forall>p<118. buf ! p = (if p \<in> slice j \<or> j < 4 \<and> p = 0 then code ! p else rs_buffer f ! p)"
    proof (intro allI impI)
      fix p :: nat assume p: "p < 118"
      have "buf ! p = (if 2 + 14 * j \<le> p \<and> p < 2 + 14 * j + 14 then ?bs ! (p - (2 + 14 * j)) else ?b0 ! p)"
        using nth_stored[of "2 + 14 * j" ?bs ?b0 p] lb bl(1) p assms(5) by (simp only: buf_def) simp
      moreover have "2 + 14 * j \<le> p \<Longrightarrow> Suc (Suc (p - 2)) = p" by simp
      ultimately show "buf ! p = (if p \<in> slice j \<or> j < 4 \<and> p = 0 then code ! p else rs_buffer f ! p)"
        using assms(4,5) len bl(1) p by (auto simp: slice_def nth_list_update)
    qed
  qed (use assms(5) bl(3) in simp_all)
  ultimately show ?thesis by blast
qed

lemma fec_word_1_sent:
  assumes "has_words code rcv f" "sender code" "sent_iod code \<noteq> 0"
  shows "\<exists>g. fec_word_1 (rev (sent_word code 0)) (sent_iod code) f = Some g \<and> has_words code (insert 0 rcv) g"
proof -
  have len: "length code = 118" and t: "take 6 (byte_bits (code ! 0)) = type_bits 1"
    using assms(2) by (simp_all add: sender_def)
  let ?ws = "sent_word code 0" and ?bs = "take 14 (drop 2 code)"
  let ?b0 = "(rs_buffer f)[0 := code ! 0, 1 := code ! 1]"
  define buf where "buf = take 2 ?b0 @ ?bs @ drop (2 + 14) ?b0"
  have bl: "length (rs_buffer f) = 118" "length (inav_rs_pages f) = 8" "enable_rs f"
    using assms(1) by (simp_all add: has_words_def)
  have l: "length ?ws = 128" using len by simp
  have d: "drop 16 ?ws = bits_of ?bs" using sent_parts(5)[OF len, of 0] by simp
  have "at_places [(1, 6), (15, 2)] ?ws = byte_bits (code ! 0)"
    using sent_parts(1,4)[OF len, of 0] t append_take_drop_id[of 6 "byte_bits (code ! 0)"] by (simp add: at_places_def)
  then have o0: "read_octet_unsigned (rev ?ws) [(1, 6), (15, 2)] = code ! 0"
    by (intro read_octet[OF l]) (simp_all add: fits_def)
  have "take 8 (drop 6 ?ws) = byte_bits (code ! 1)"
    using arg_cong[OF sent_parts(2)[OF len, of 0], of "take 8"] by (simp add: iod_bits_def)
  then have o1: "octet_at (rev ?ws) 7 = code ! 1"
    unfolding octet_at_def by (intro read_octet[OF l]) (simp_all add: fits_def at_places_def inav_sizes)
  have st: "store_octets (rev ?ws) 2 14 ?b0 = Some buf"
    using store_sent[OF l d, of 14 2 ?b0] bl(1) len by (simp add: buf_def)
  let ?g = "f\<lparr> current_IODnav := sent_iod code, rs_buffer := buf, inav_rs_pages := (inav_rs_pages f)[0 := 1] \<rparr>"
  have "fec_word_1 (rev ?ws) (sent_iod code) f = Some ?g"
    using bl st check_IODnav_sent[OF assms(1,3)] by (simp add: fec_word_1_def vput_Some o0[unfolded One_nat_def] o1)
  moreover have "has_words code (insert 0 rcv) ?g"
  proof (rule has_words_store[OF assms(1)])
    have lb: "length ?bs = 14" using len by simp
    show "length buf = 118" using bl(1) lb by (simp add: buf_def)
    show "\<forall>p<118. buf ! p = (if p \<in> slice 0 \<or> 0 < (4 :: nat) \<and> p = 0 then code ! p else rs_buffer f ! p)"
    proof (intro allI impI)
      fix p :: nat assume p: "p < 118"
      have "buf ! p = (if 2 \<le> p \<and> p < 2 + 14 then ?bs ! (p - 2) else ?b0 ! p)"
        using nth_stored[of 2 ?bs ?b0 p] lb bl(1) p by (simp only: buf_def) simp
      moreover have "2 \<le> p \<Longrightarrow> Suc (Suc (p - 2)) = p" "\<not> 2 \<le> p \<Longrightarrow> p = 0 \<or> p = 1" by auto
      ultimately show "buf ! p = (if p \<in> slice 0 \<or> 0 < (4 :: nat) \<and> p = 0 then code ! p else rs_buffer f ! p)"
        using len bl(1) p by (auto simp: slice_def nth_list_update)
    qed
  qed (use bl(3) in simp_all)
  ultimately show ?thesis by blast
qed

lemma fec_parity_sent:
  assumes "has_words code rcv f" "sender code" "i < 4"
  shows "\<exists>g. fec_parity_word i (rev (sent_word code (4 + i))) f = Some g \<and> has_words code (insert (4 + i) rcv) g"
proof -
  have len: "length code = 118" using assms(2) by (simp add: sender_def)
  let ?ws = "sent_word code (4 + i)" and ?bs = "take 14 (drop (59 + 15 * i) code)"
  let ?b0 = "(rs_buffer f)[58 + i * 15 := code ! (58 + 15 * i)]"
  define buf where "buf = take (59 + i * 15) ?b0 @ ?bs @ drop (59 + i * 15 + 14) ?b0"
  have bl: "length (rs_buffer f) = 118" "length (inav_rs_pages f) = 8" "enable_rs f"
    using assms(1) by (simp_all add: has_words_def)
  have l: "length ?ws = 128" using len assms(3) by simp
  have d: "drop 16 ?ws = bits_of ?bs" using sent_parts(5)[OF len, of "4 + i"] assms(3) by simp
  have "at_places [(7, 8)] ?ws = byte_bits (code ! (58 + 15 * i))"
    using sent_parts(3)[OF len, of "4 + i"] assms(3) by (simp add: at_places_def)
  then have o: "octet_at (rev ?ws) 7 = code ! (58 + 15 * i)"
    unfolding octet_at_def by (intro read_octet[OF l]) (simp_all add: fits_def inav_sizes)
  define lsb where "lsb = read_octet_unsigned (rev ?ws) RS_IODNAV_LSBS"
  have st: "store_octets (rev ?ws) (59 + i * 15) 14 ?b0 = Some buf"
    using store_sent[OF l d, of 14 "59 + i * 15" ?b0] bl(1) len assms(3) by (simp add: buf_def)
  have "at_places RS_IODNAV_LSBS ?ws = drop 6 (byte_bits (code ! 0))"
    using sent_parts(4)[OF len, of "4 + i"] assms(3) by (simp add: RS_IODNAV_LSBS_def at_places_def)
  then have lsb: "lsb = ucast (sent_iod code mod 4)"
    using l by (simp add: lsb_def read_unsigned RS_IODNAV_LSBS_def fits_def last_bits_of_iod(2))
  define h where "h = (if i = 0 then f\<lparr> IODnav_LSB17 := lsb \<rparr> else if i = 1 then f\<lparr> IODnav_LSB18 := lsb \<rparr>
    else if i = 2 then f\<lparr> IODnav_LSB19 := lsb \<rparr> else f\<lparr> IODnav_LSB20 := lsb \<rparr>)"
  have h: "enable_rs h = enable_rs f" "rs_decoder h = rs_decoder f" "rs_buffer h = rs_buffer f"
    "inav_rs_pages h = inav_rs_pages f" "current_IODnav h = current_IODnav f"
    by (simp_all add: h_def)
  have p: "(if lsb \<noteq> ucast (current_IODnav h mod 4) then foldM (\<lambda>k pages. vput pages k 0) [0..<4] (inav_rs_pages h)
      else Some (inav_rs_pages h)) = Some (inav_rs_pages f)"
  proof (cases "rcv \<inter> {..<4} = {}")
    case True
    then have z: "\<forall>k < 4. inav_rs_pages f ! k = 0" using assms(1) by (auto simp: has_words_def)
    have "take 0 (inav_rs_pages f) @ map (\<lambda>k. 0) [0..<4] @ drop (0 + 4) (inav_rs_pages f) = inav_rs_pages f"
      by (rule nth_equalityI) (use z bl(2) in \<open>auto simp: nth_append\<close>)
    then show ?thesis using foldM_vput[of 0 4 "inav_rs_pages f" "\<lambda>k. 0"] bl(2) by (simp only: h) simp
  next
    case False
    then show ?thesis using assms(1) by (simp add: h lsb has_words_def)
  qed
  let ?g = "h\<lparr> rs_buffer := buf, inav_rs_pages := (inav_rs_pages f)[4 + i := 1] \<rparr>"
  have "fec_parity_word i (rev ?ws) f = Some ?g"
    using bl st assms(3) p o unfolding fec_parity_word_def lsb_def[symmetric] Let_def h_def[symmetric]
    by (simp add: vput_Some h inav_sizes ac_simps)
  moreover have "has_words code (insert (4 + i) rcv) ?g"
  proof (rule has_words_store[OF assms(1)])
    have lb: "length ?bs = 14" using len assms(3) by simp
    show "length buf = 118" using bl(1) lb assms(3) by (simp add: buf_def)
    show "\<forall>p<118. buf ! p = (if p \<in> slice (4 + i) \<or> 4 + i < 4 \<and> p = 0 then code ! p else rs_buffer f ! p)"
    proof (intro allI impI)
      fix p :: nat assume p: "p < 118"
      have "buf ! p = (if 59 + i * 15 \<le> p \<and> p < 59 + i * 15 + 14 then ?bs ! (p - (59 + i * 15)) else ?b0 ! p)"
        using nth_stored[of "59 + i * 15" ?bs ?b0 p] lb bl(1) p assms(3) by (simp only: buf_def) simp
      moreover have "59 + i * 15 \<le> p \<Longrightarrow> 59 + 15 * i + (p - (59 + i * 15)) = p" "code ! (58 + 15 * i) = code ! (58 + i * 15)"
        by (simp_all add: mult.commute)
      ultimately show "buf ! p = (if p \<in> slice (4 + i) \<or> 4 + i < 4 \<and> p = 0 then code ! p else rs_buffer f ! p)"
        using assms(3) len bl(1) p by (auto simp: slice_def nth_list_update)
    qed
  qed (use assms(3) bl(3) h in simp_all)
  ultimately show ?thesis by blast
qed

section \<open>Decoding\<close>

definition missing_part :: "nat list \<Rightarrow> nat \<Rightarrow> nat \<Rightarrow> nat \<Rightarrow> nat list" where
  "missing_part pages k first stop = (if pages ! k = 0 then [first..<stop] else [])"

definition missing :: "nat list \<Rightarrow> nat list" where
  "missing pages = missing_part pages 0 1 16 @ missing_part pages 1 16 30 @ missing_part pages 2 30 44
     @ missing_part pages 3 44 58 @ missing_part pages 4 195 210 @ missing_part pages 5 210 225
     @ missing_part pages 6 225 240 @ missing_part pages 7 240 255 @ []"

lemma missing_part_int:
  "(if pages ! k = 0 then map (\<lambda>i. int (i + offset)) [first..<stop] else [])
    = map int (missing_part pages k (first + offset) (stop + offset))"
  by (auto simp: missing_part_def intro!: nth_equalityI)

lemma erasure_positions_missing: "inav_erasure_positions pages = map int (missing pages)"
  unfolding inav_erasure_positions_def missing_def list.map prod.case missing_part_int by simp

lemma set_missing_part: "set (missing_part pages k first stop) = (if pages ! k = 0 then {first..<stop} else {})"
  by (auto simp: missing_part_def)

lemma sorted_missing_part:
  "\<forall>x \<in> set xs. stop \<le> x \<Longrightarrow> sorted_wrt (<) xs \<Longrightarrow> sorted_wrt (<) (missing_part pages k first stop @ xs)"
  by (auto simp: sorted_wrt_append missing_part_def)

lemma missing_part_above:
  "\<forall>x \<in> set xs. stop \<le> x \<Longrightarrow> bound \<le> first \<Longrightarrow> first \<le> stop
    \<Longrightarrow> \<forall>x \<in> set (missing_part pages k first stop @ xs). bound \<le> x"
  by (auto simp: missing_part_def)

lemma missing_part_below:
  "\<forall>x \<in> set xs. x < bound \<Longrightarrow> stop \<le> bound \<Longrightarrow> \<forall>x \<in> set (missing_part pages k first stop @ xs). x < bound"
  by (auto simp: missing_part_def)

lemma length_missing_part:
  "pages ! k \<le> 1 \<Longrightarrow> stop \<le> first + 15 \<Longrightarrow> length (missing_part pages k first stop) \<le> 15 - 15 * pages ! k"
  by (auto simp: missing_part_def)

lemma missing_erasures:
  assumes "length pages = 8" "\<forall>k < 8. pages ! k \<le> 1" "sum_list pages = 4"
  shows "distinct (missing pages)" "length (missing pages) \<le> 60" "\<forall>p \<in> set (missing pages). p < 255"
proof -
  show "distinct (missing pages)"
  proof -
    have "sorted_wrt (<) (missing pages)"
      unfolding missing_def
      by (intro sorted_missing_part missing_part_above) simp_all
    then show ?thesis by (simp add: strict_sorted_iff)
  qed
  have "sum_list pages = (\<Sum>k<8. pages ! k)"
    using assms(1) by (simp add: sum_list_sum_nth atLeast0LessThan)
  then have "pages ! 0 + pages ! 1 + pages ! 2 + pages ! 3 + pages ! 4 + pages ! 5 + pages ! 6 + pages ! 7 = 4"
    using assms(3) by (simp add: eval_nat_numeral)
  moreover have "length (missing_part pages k first stop) + 15 * pages ! k \<le> 15"
    if "k < 8" "stop \<le> first + 15" for k first stop
    using that assms(2) length_missing_part[of pages k stop first] by (auto simp: le_Suc_eq)
  from this[of 0 16 1] this[of 1 30 16] this[of 2 44 30] this[of 3 58 44] this[of 4 210 195]
    this[of 5 225 210] this[of 6 240 225] this[of 7 255 240]
  have "length (missing pages) + 15 * (pages ! 0 + pages ! 1 + pages ! 2 + pages ! 3 + pages ! 4 + pages ! 5
      + pages ! 6 + pages ! 7) \<le> 120"
    unfolding missing_def length_append by simp
  ultimately show "length (missing pages) \<le> 60" by simp
  show "\<forall>p \<in> set (missing pages). p < 255"
    unfolding missing_def by (intro missing_part_below) simp_all
qed

lemma sum_of_received:
  assumes "has_words code rcv f"
  shows "sum_list (inav_rs_pages f) = card rcv"
proof -
  have "sum_list (inav_rs_pages f) = (\<Sum>k<8. inav_rs_pages f ! k)"
    using assms by (simp add: has_words_def sum_list_sum_nth atLeast0LessThan)
  also have "\<dots> = (\<Sum>k<8. of_bool (k \<in> rcv))" using assms by (intro sum.cong) (auto simp: has_words_def)
  also have "\<dots> = card ({..<8} \<inter> rcv)" by (simp add: sum_of_bool_eq)
  also have "{..<8} \<inter> rcv = rcv" using assms by (auto simp: has_words_def)
  finally show ?thesis .
qed

lemma not_missing_known:
  assumes f: "has_words code rcv f" and rcv: "rcv \<inter> {..<4} \<noteq> {}" and p: "p < 118"
    "unshortened 58 137 p \<notin> set (missing (inav_rs_pages f))"
  shows "p \<in> known rcv"
proof -
  let ?pages = "inav_rs_pages f"
  have un: "unshortened 58 137 p = (if p < 58 then p else p + 137)" by (simp add: unshortened_def)
  have no: "unshortened 58 137 p \<notin> set (missing_part ?pages k first stop)"
    if "(k, first, stop) \<in> {(0, 1, 16), (1, 16, 30), (2, 30, 44), (3, 44, 58), (4, 195, 210), (5, 210, 225),
      (6, 225, 240), (7, 240, 255)}" for k first stop
    using p(2) that unfolding missing_def set_append by auto
  have pages: "?pages ! k = of_bool (k \<in> rcv)" if "k < 8" for k using f that by (simp add: has_words_def)
  have part: "k \<in> rcv" if "(k, first, stop) \<in> {(0, 1, 16), (1, 16, 30), (2, 30, 44), (3, 44, 58), (4, 195, 210),
      (5, 210, 225), (6, 225, 240), (7, 240, 255)}" "first \<le> unshortened 58 137 p" "unshortened 58 137 p < stop" "k < 8"
    for k first stop
    using no[OF that(1)] that(2-4) pages[of k] by (auto simp: set_missing_part split: if_splits)
  show ?thesis
  proof (cases "p = 0")
    case True
    then show ?thesis using rcv by (simp add: known_def)
  next
    case False
    have s: "k \<in> rcv \<Longrightarrow> p \<in> slice k \<Longrightarrow> ?thesis" for k by (auto simp: known_def)
    consider "p < 16" | "16 \<le> p" "p < 30" | "30 \<le> p" "p < 44" | "44 \<le> p" "p < 58" | "58 \<le> p" "p < 73"
      | "73 \<le> p" "p < 88" | "88 \<le> p" "p < 103" | "103 \<le> p" using False by linarith
    then show ?thesis
    proof cases
      case 1 show ?thesis by (rule s[of 0]) (use 1 False part[of 0 1 16] un in \<open>simp_all add: slice_def\<close>)
    next
      case 2 show ?thesis by (rule s[of 1]) (use 2 part[of 1 16 30] un in \<open>simp_all add: slice_def\<close>)
    next
      case 3 show ?thesis by (rule s[of 2]) (use 3 part[of 2 30 44] un in \<open>simp_all add: slice_def\<close>)
    next
      case 4 show ?thesis by (rule s[of 3]) (use 4 part[of 3 44 58] un in \<open>simp_all add: slice_def\<close>)
    next
      case 5 show ?thesis by (rule s[of 4]) (use 5 part[of 4 195 210] un in \<open>simp_all add: slice_def\<close>)
    next
      case 6 show ?thesis by (rule s[of 5]) (use 6 part[of 5 210 225] un in \<open>simp_all add: slice_def\<close>)
    next
      case 7 show ?thesis by (rule s[of 6]) (use 7 part[of 6 225 240] un in \<open>simp_all add: slice_def\<close>)
    next
      case 8 show ?thesis by (rule s[of 7]) (use 8 p(1) part[of 7 240 255] un in \<open>simp_all add: slice_def\<close>)
    qed
  qed
qed

lemma fec_decoded:
  assumes "sender code" "has_words code rcv f" "card rcv = 4" "rcv \<inter> {..<4} \<noteq> {}"
  shows "\<exists>r \<ge> 0. decode (rs_decoder f) (rs_buffer f) (inav_erasure_positions (inav_rs_pages f)) = Some (r, code)"
proof -
  let ?ps = "missing (inav_rs_pages f)"
  have "length (inav_rs_pages f) = 8" "\<forall>k < 8. inav_rs_pages f ! k \<le> 1" "sum_list (inav_rs_pages f) = 4"
    using assms(2,3) sum_of_received[OF assms(2)] by (simp_all add: has_words_def)
  note ps = missing_erasures[OF this]
  have l: "(255 :: nat) - 60 - 137 = 58" "(255 :: nat) - 137 = 118" by simp_all
  have "\<exists>r \<ge> 0. decode (rs_decoder f) (rs_buffer f) (map int ?ps) = Some (r, code)"
  proof (rule decode_erasures[of 60 195 137, unfolded l, OF _ _ _ _ ps])
    fix p assume "p < 118" "unshortened 58 137 p \<notin> set ?ps"
    then have "p \<in> known rcv" using not_missing_known[OF assms(2,4)] by simp
    then show "rs_buffer f ! p = code ! p" using assms(2) by (simp add: has_words_def)
  qed (use assms in \<open>simp_all add: has_words_def sender_def\<close>)
  then show ?thesis by (simp only: erasure_positions_missing)
qed

end
