(* ===== verification/Inav_Ephemeris.thy ===== *)
theory Inav_Ephemeris
  imports Inav_Fec2
begin

text \<open>
  The ephemeris of a satellite from its words: with FEC2, from any four of the eight that carry it, in any
  order and among words of other types.
\<close>

section \<open>Words as the decoder takes them\<close>

definition word_type :: "bool list \<Rightarrow> nat" where
  "word_type ws = bit_val (take 6 ws)"

definition decode_words :: "(u8 list \<Rightarrow> u32) \<Rightarrow> (rat \<Rightarrow> 'f::times) \<Rightarrow> bool list list \<Rightarrow> 'f inav \<Rightarrow> 'f inav option" where
  "decode_words crc32 num =
    foldM (\<lambda>ws st. map_option snd (page_jk_decoder crc32 num (map char_of_bit ws) st))"

lemma page_number_eq:
  "length ws = 128 \<Longrightarrow> read_int32 (rev ws) PAGE_TYPE_BIT = of_nat (word_type ws)"
proof -
  assume "length ws = 128"
  moreover have "bit_val (take 6 ws) < 2 ^ 6"
    using bit_val_bound[of "take 6 ws"] \<open>length ws = 128\<close> by simp
  then have "take_bit LENGTH(64) (bit_val (take 6 ws)) = bit_val (take 6 ws)" by (simp add: take_bit_nat_eq_self)
  ultimately show ?thesis
    by (simp add: read_int32_def read_unsigned PAGE_TYPE_BIT_def fits_def at_places_def word_type_def unsigned_of_nat)
qed

lemma page_jk_decoder_word:
  assumes "length ws = 128"
  shows "page_jk_decoder crc32 num (map char_of_bit ws) st
    = map_option (\<lambda>st. (of_nat (word_type ws), check_position st)) (decode_word crc32 num (of_nat (word_type ws)) (rev ws) st)"
proof -
  have "bitset 128 (map char_of_bit ws) = Some (rev ws)" using assms by (simp add: bitset_Some)
  then show ?thesis
    by (cases "decode_word crc32 num (of_nat (word_type ws)) (rev ws) st")
      (simp_all add: page_jk_decoder_def GALILEO_DATA_JK_BITS_def page_number_eq[OF assms])
qed

lemma word_type_bound: "length ws = 128 \<Longrightarrow> word_type ws < 64"
  using bit_val_bound[of "take 6 ws"] by (simp add: word_type_def)

lemma word_type_word:
  assumes "length ws = 128" "k < 64"
  shows "(of_nat (word_type ws) :: i32) = of_nat k \<longleftrightarrow> word_type ws = k"
proof -
  have "unat (of_nat (word_type ws) :: i32) = word_type ws" "unat (of_nat k :: i32) = k"
    using word_type_bound[OF assms(1)] assms(2) by (simp_all add: unat_of_nat)
  then show ?thesis by metis
qed

lemma word_type_sent: "length code = 118 \<Longrightarrow> j < 8 \<Longrightarrow> word_type (sent_word code j) = (if j < 4 then j + 1 else 13 + j)"
  by (simp add: word_type_def sent_parts(1) bit_val_type_bits)

lemma sent_word_inj:
  assumes "length code = 118" "i < 8" "j < 8"
  shows "sent_word code i = sent_word code j \<longleftrightarrow> i = j"
proof
  assume "sent_word code i = sent_word code j"
  then have "word_type (sent_word code i) = word_type (sent_word code j)" by (simp only:)
  then show "i = j" using assms by (simp add: word_type_sent split: if_splits)
qed simp

text \<open>The words 1 to 4 have the issue of data of the code.\<close>

lemma iod_of_sent:
  assumes "length code = 118" "j < 4"
  shows "read_int32 (rev (sent_word code j)) [(7, 10)] = sent_iod code"
proof -
  have "bit_val (iod_bits code) < 2 ^ 10" using bit_val_bound[of "iod_bits code"] by simp
  then have "take_bit LENGTH(64) (bit_val (iod_bits code)) = bit_val (iod_bits code)"
    by (simp add: take_bit_nat_eq_self)
  then show ?thesis using assms sent_parts(2)[OF assms(1), of j]
    by (simp add: read_int32_def read_unsigned fits_def at_places_def sent_iod_def unsigned_of_nat)
qed

section \<open>Four of the eight words\<close>

text \<open>The words \<open>rcv\<close> of a code have arrived at the decoder and no other word of an ephemeris.\<close>

definition has_ephemeris_words :: "(rat \<Rightarrow> 'f::times) \<Rightarrow> u8 list \<Rightarrow> nat set \<Rightarrow> 'f inav \<Rightarrow> bool" where
  "has_ephemeris_words num code rcv st \<longleftrightarrow> has_words code rcv (fec st)
     \<and> (0 \<in> rcv \<longrightarrow> w1 st = read_word_1 num (rev (sent_word code 0)))
     \<and> (1 \<in> rcv \<longrightarrow> w2 st = read_word_2 num (rev (sent_word code 1)))
     \<and> (2 \<in> rcv \<longrightarrow> w3 st = read_word_3 num (rev (sent_word code 2)))
     \<and> (3 \<in> rcv \<longrightarrow> w4 st = read_word_4 num (rev (sent_word code 3)))
     \<and> flag_ephemeris_1 (flags st) = (0 \<in> rcv) \<and> flag_ephemeris_2 (flags st) = (1 \<in> rcv)
     \<and> flag_ephemeris_3 (flags st) = (2 \<in> rcv) \<and> flag_ephemeris_4 (flags st) = (3 \<in> rcv)"

lemma check_position_fields [simp]:
  "fec (check_position st) = fec st" "w1 (check_position st) = w1 st" "w2 (check_position st) = w2 st"
  "w3 (check_position st) = w3 st" "w4 (check_position st) = w4 st" "flags (check_position st) = flags st"
  by (simp_all add: check_position_def Let_def)

lemma has_ephemeris_words_check_position [simp]:
  "has_ephemeris_words num code rcv (check_position st) = has_ephemeris_words num code rcv st"
  by (simp add: has_ephemeris_words_def)

lemma decode_other_word:
  assumes "has_ephemeris_words num code rcv st" "length ws = 128" "word_type ws \<notin> {1, 2, 3, 4, 17, 18, 19, 20}"
  shows "\<exists>st'. decode_word crc32 num (of_nat (word_type ws)) (rev ws) st = Some st'
    \<and> has_ephemeris_words num code rcv st'"
proof -
  have n: "(of_nat (word_type ws) :: i32) \<noteq> 1" "(of_nat (word_type ws) :: i32) \<noteq> 2"
    "(of_nat (word_type ws) :: i32) \<noteq> 3" "(of_nat (word_type ws) :: i32) \<noteq> 4"
    "(of_nat (word_type ws) :: i32) \<noteq> 17" "(of_nat (word_type ws) :: i32) \<noteq> 18"
    "(of_nat (word_type ws) :: i32) \<noteq> 19" "(of_nat (word_type ws) :: i32) \<noteq> 20"
    using assms(3) word_type_word[OF assms(2), of 1] word_type_word[OF assms(2), of 2]
      word_type_word[OF assms(2), of 3] word_type_word[OF assms(2), of 4] word_type_word[OF assms(2), of 17]
      word_type_word[OF assms(2), of 18] word_type_word[OF assms(2), of 19] word_type_word[OF assms(2), of 20]
    by simp_all
  show ?thesis
    using assms(1) n
    by (simp add: decode_word_def has_ephemeris_words_def read_page_5_def read_page_6_def read_page_10_def
        read_page_0_def read_page_22_def page_position_def Let_def split: prod.splits)
qed

lemma iod_of_sent_words:
  assumes "length code = 118"
  shows "IOD_nav_1 (read_word_1 num (rev (sent_word code 0))) = sent_iod code"
    "IOD_nav_2 (read_word_2 num (rev (sent_word code 1))) = sent_iod code"
    "IOD_nav_3 (read_word_3 num (rev (sent_word code 2))) = sent_iod code"
    "IOD_nav_4 (read_word_4 num (rev (sent_word code 3))) = sent_iod code"
  using iod_of_sent[OF assms]
  by (simp_all add: read_word_1_def read_word_2_def read_word_3_def read_word_4_def IOD_NAV_1_BIT_def IOD_NAV_2_BIT_def
      IOD_NAV_3_BIT_def IOD_NAV_4_BIT_def)

lemma start_subframe_fields [simp]:
  "fec (start_subframe st) = fec st" "w1 (start_subframe st) = w1 st" "w2 (start_subframe st) = w2 st"
  "w3 (start_subframe st) = w3 st" "w4 (start_subframe st) = w4 st" "flags (start_subframe st) = flags st"
  "fec (page_position k st) = fec st" "w1 (page_position k st) = w1 st" "w2 (page_position k st) = w2 st"
  "w3 (page_position k st) = w3 st" "w4 (page_position k st) = w4 st" "flags (page_position k st) = flags st"
  by (simp_all add: start_subframe_def page_position_def)

lemma decode_sent_word:
  assumes st: "has_ephemeris_words num code rcv st" and code: "sender code" "sent_iod code \<noteq> 0" and j: "j < 8"
  shows "\<exists>st'. decode_word crc32 num (of_nat (word_type (sent_word code j))) (rev (sent_word code j)) st = Some st'
    \<and> has_ephemeris_words num code (insert j rcv) st'"
proof -
  have len: "length code = 118" using code(1) by (simp add: sender_def)
  have f: "has_words code rcv (fec st)" using st by (simp add: has_ephemeris_words_def)
  note iod = iod_of_sent_words[OF len, of num] and type = word_type_sent[OF len]
  have "j = 0 \<or> j = 1 \<or> j = 2 \<or> j = 3 \<or> (\<exists>i < 4. j = 4 + i)" using j by presburger
  then consider "j = 0" | "j = 1" | "j = 2" | "j = 3" | i where "i < 4" "j = 4 + i" by blast
  then show ?thesis
  proof cases
    case 1
    obtain g where "fec_word_1 (rev (sent_word code 0)) (sent_iod code) (fec st) = Some g" "has_words code (insert 0 rcv) g"
      using fec_word_1_sent[OF f code] by blast
    then show ?thesis using st 1 type[of 0] iod(1)
      by (simp add: decode_word_def read_page_1_def with_fec_def has_ephemeris_words_def)
  next
    case 2
    obtain g where "fec_info_word 1 (rev (sent_word code 1)) (sent_iod code) (fec st) = Some g" "has_words code (insert 1 rcv) g"
      using fec_info_sent[OF f code, of 1] by auto
    then show ?thesis using st 2 type[of 1] iod(2)
      by (simp add: decode_word_def read_page_2_def with_fec_def has_ephemeris_words_def)
  next
    case 3
    obtain g where "fec_info_word 2 (rev (sent_word code 2)) (sent_iod code) (fec st) = Some g" "has_words code (insert 2 rcv) g"
      using fec_info_sent[OF f code, of 2] by auto
    then show ?thesis using st 3 type[of 2] iod(3)
      by (simp add: decode_word_def read_page_3_def with_fec_def has_ephemeris_words_def)
  next
    case 4
    obtain g where "fec_info_word 3 (rev (sent_word code 3)) (sent_iod code) (fec st) = Some g" "has_words code (insert 3 rcv) g"
      using fec_info_sent[OF f code, of 3] by auto
    then show ?thesis using st 4 type[of 3] iod(4)
      by (simp add: decode_word_def read_page_4_def with_fec_def has_ephemeris_words_def)
  next
    case (5 i)
    obtain g where g: "fec_parity_word i (rev (sent_word code (4 + i))) (fec st) = Some g" "has_words code (insert (4 + i) rcv) g"
      using fec_parity_sent[OF f code(1) 5(1)] by blast
    have t: "word_type (sent_word code (4 + i)) = 17 + i" using type[of "4 + i"] 5(1) by simp
    consider "i = 0" | "i = 1" | "i = 2" | "i = 3" using 5(1) by linarith
    then have "decode_word crc32 num (of_nat (17 + i)) (rev (sent_word code j)) st
        = with_fec (fec_parity_word i (rev (sent_word code (4 + i)))) (page_position (if i < 2 then 5 else 6) st)"
      using 5(2) by cases (simp_all add: decode_word_def)
    then show ?thesis using st g 5(2) by (simp add: t with_fec_def has_ephemeris_words_def)
  qed
qed

lemma decode_words_received:
  assumes "has_ephemeris_words num code rcv st" "sender code" "sent_iod code \<noteq> 0"
    "\<forall>ws \<in> set words. ws \<in> sent_word code ` {..<8} \<or> length ws = 128 \<and> word_type ws \<notin> {1, 2, 3, 4, 17, 18, 19, 20}"
  shows "\<exists>st'. decode_words crc32 num words st = Some st'
    \<and> has_ephemeris_words num code (rcv \<union> {j. j < 8 \<and> sent_word code j \<in> set words}) st'"
  using assms(1,4)
proof (induction words arbitrary: st rcv)
  case Nil
  then show ?case by (simp add: decode_words_def)
next
  case (Cons ws words)
  have len: "length code = 118" using assms(2) by (simp add: sender_def)
  have "\<exists>st'. decode_word crc32 num (of_nat (word_type ws)) (rev ws) st = Some st' \<and> length ws = 128
      \<and> has_ephemeris_words num code (rcv \<union> {j. j < 8 \<and> sent_word code j = ws}) st'"
  proof (cases "ws \<in> sent_word code ` {..<8}")
    case True
    then obtain j where j: "j < 8" "ws = sent_word code j" by auto
    then have "{i. i < 8 \<and> sent_word code i = ws} = {j}" using sent_word_inj[OF len] by auto
    then show ?thesis using decode_sent_word[OF Cons.prems(1) assms(2,3) j(1)] j len by simp
  next
    case False
    then have ws: "length ws = 128" "word_type ws \<notin> {1, 2, 3, 4, 17, 18, 19, 20}" using Cons.prems(2) by auto
    have e: "rcv \<union> {j. j < 8 \<and> sent_word code j = ws} = rcv" using False by auto
    show ?thesis unfolding e using decode_other_word[OF Cons.prems(1) ws] ws(1) by simp
  qed
  then obtain st' where st': "decode_word crc32 num (of_nat (word_type ws)) (rev ws) st = Some st'" "length ws = 128"
    "has_ephemeris_words num code (rcv \<union> {j. j < 8 \<and> sent_word code j = ws}) st'" by blast
  have "(rcv \<union> {j. j < 8 \<and> sent_word code j = ws}) \<union> {j. j < 8 \<and> sent_word code j \<in> set words}
      = rcv \<union> {j. j < 8 \<and> sent_word code j \<in> set (ws # words)}" by auto
  then show ?case
    using Cons.IH[of "rcv \<union> {j. j < 8 \<and> sent_word code j = ws}" "check_position st'"] Cons.prems(2) st'
    by (simp add: decode_words_def page_jk_decoder_word)
qed

lemma recover_page_sent:
  assumes "inav_rs_pages (fec st) ! k = of_bool (k \<in> rcv)" "regenerate (fec st) = Some bits"
  shows "recover_page k regenerate read_page st = Some (if k \<in> rcv then st else read_page bits st)"
  using assms by (simp add: recover_page_def)

lemma recover_sent:
  assumes code: "sender code" and f: "has_words code rcv (fec st)" "rcv \<inter> {..<4} \<noteq> {}" "rs_buffer (fec st) = code"
    and w: "0 \<in> rcv \<longrightarrow> w1 st = read_word_1 num (rev (sent_word code 0))"
      "1 \<in> rcv \<longrightarrow> w2 st = read_word_2 num (rev (sent_word code 1))"
      "2 \<in> rcv \<longrightarrow> w3 st = read_word_3 num (rev (sent_word code 2))"
      "3 \<in> rcv \<longrightarrow> w4 st = read_word_4 num (rev (sent_word code 3))"
  shows "\<exists>st'. recover_pages num st = Some st' \<and> w1 st' = read_word_1 num (rev (sent_word code 0))
    \<and> w2 st' = read_word_2 num (rev (sent_word code 1)) \<and> w3 st' = read_word_3 num (rev (sent_word code 2))
    \<and> w4 st' = read_word_4 num (rev (sent_word code 3))"
proof -
  have p: "inav_rs_pages (fec st) ! k = of_bool (k \<in> rcv)" if "k < 8" for k using f(1) that by (simp add: has_words_def)
  have i: "current_IODnav (fec st) = sent_iod code" using f(1,2) by (simp add: has_words_def)
  note g = regenerate_sent[OF code]
  have keep: "fec (read_page_1 num bits s) = fec s" "fec (read_page_2 num bits s) = fec s" "fec (read_page_3 num bits s) = fec s"
    for bits and s :: "'a inav"
    by (simp_all add: read_page_1_def read_page_2_def read_page_3_def)
  show ?thesis
    unfolding recover_pages_def
    using w
    by (simp add: recover_page_def p i f(3) g keep read_page_1_def read_page_2_def read_page_3_def read_page_4_def
        split: if_splits)
qed

lemma new_ephemeris:
  assumes st: "has_ephemeris_words num code rcv st" and code: "sender code" and rcv: "card rcv = 4" "rcv \<inter> {..<4} \<noteq> {}"
  shows "\<exists>st'. have_new_ephemeris num st = Some (True, st') \<and> w1 st' = read_word_1 num (rev (sent_word code 0))
    \<and> w2 st' = read_word_2 num (rev (sent_word code 1)) \<and> w3 st' = read_word_3 num (rev (sent_word code 2))
    \<and> w4 st' = read_word_4 num (rev (sent_word code 3)) \<and> IOD_ephemeris st' = sent_iod code"
proof -
  have len: "length code = 118" using code by (simp add: sender_def)
  have f: "has_words code rcv (fec st)" "enable_rs (fec st)" using st by (simp_all add: has_ephemeris_words_def has_words_def)
  have s4: "sum_list (inav_rs_pages (fec st)) = 4" using sum_of_received[OF f(1)] rcv(1) by simp
  obtain r where r: "r \<ge> 0" "decode (rs_decoder (fec st)) (rs_buffer (fec st)) (inav_erasure_positions (inav_rs_pages (fec st))) = Some (r, code)"
    using fec_decoded[OF code f(1) rcv] by blast
  let ?st = "st\<lparr> fec := (fec st)\<lparr> rs_buffer := code \<rparr> \<rparr>"
  have "has_words code rcv (fec ?st)" using f(1) len by (simp add: has_words_def)
  then obtain st' where st': "recover_pages num ?st = Some st'" "w1 st' = read_word_1 num (rev (sent_word code 0))"
    "w2 st' = read_word_2 num (rev (sent_word code 1))" "w3 st' = read_word_3 num (rev (sent_word code 2))"
    "w4 st' = read_word_4 num (rev (sent_word code 3))"
    using recover_sent[OF code, of rcv ?st num] rcv(2) st by (auto simp: has_ephemeris_words_def)
  show ?thesis
  proof (cases "0 \<in> rcv \<and> 1 \<in> rcv \<and> 2 \<in> rcv \<and> 3 \<in> rcv \<and> flag_iono_and_GST (flags st)")
    case True
    then show ?thesis using st iod_of_sent_words[OF len, of num]
      by (simp add: have_new_ephemeris_def has_ephemeris_words_def ephemeris_complete_def)
  next
    case False
    then have "have_new_ephemeris num st
        = Some (True, ephemeris_complete (st'\<lparr> fec := (fec st')\<lparr> inav_rs_pages := replicate 8 0 \<rparr> \<rparr>))"
      using st f(2) s4 r st'(1) by (auto simp: have_new_ephemeris_def has_ephemeris_words_def)
    then show ?thesis using st' iod_of_sent_words[OF len, of num] by (simp add: ephemeris_complete_def)
  qed
qed

text \<open>The constructor makes the code of 60 parity octets, shortened by 137. It passes no generator polynomial.\<close>

lemma constructor_code:
  obtains st where "Galileo_Inav_Message num = Some st"
    "has_ephemeris_words num code {} (init_PRN prn (enable_reed_solomon st))"
proof -
  have "reed_solomon_custom 60 29 1 195 0 137 [] [] = reed_solomon_custom 60 29 1 195 0 137 (replicate 61 0) []"
    by (simp add: reed_solomon_custom_def)
  moreover obtain rs where "reed_solomon_custom (int 60) 29 1 (int 195) (int 0) (int 137) (replicate 61 0) [] = Some rs"
    "standard_code 60 195 0 137 rs"
    by (rule custom_standard[of 60 195 0 137 "replicate 61 0" "[]"]) (simp_all add: rejects_configuration_def)
  ultimately have rs: "reed_solomon_custom 60 29 1 195 0 137 [] [] = Some rs" "standard_code 60 195 0 137 rs" by simp_all
  let ?f = "(inav_fec_blank rs)\<lparr> enable_rs := True \<rparr>"
  obtain st where st: "Galileo_Inav_Message num = Some st" "fec st = inav_fec_blank rs" "flags st = inav_flags_blank"
    using rs(1) by (simp add: Galileo_Inav_Message_def)
  then have "fec (init_PRN prn (enable_reed_solomon st)) = ?f" "flags (init_PRN prn (enable_reed_solomon st)) = inav_flags_blank"
    by (simp_all add: init_PRN_def enable_reed_solomon_def)
  moreover have "has_words code {} ?f"
    using rs(2) by (simp add: has_words_def known_def inav_fec_blank_def inav_sizes)
  ultimately show thesis
    using st(1) by (intro that[of st]) (simp_all add: has_ephemeris_words_def inav_flags_blank_def)
qed

text \<open>C39: FEC2 recovers an ephemeris. A satellite sends the four words of an ephemeris and the four words
  of parity of its Reed-Solomon code, with an issue of data other than zero. In a new message object for
  this satellite with FEC2 enabled, any words in any order and any number, of which exactly four of the
  eight, at least one of them a word of the ephemeris itself, arrived, and none of another ephemeris, give
  a new ephemeris: all four words are read as if they had arrived, with the issue of data that was
  sent.\<close>

theorem fec2_recovers_ephemeris:
  assumes "sender code" "sent_iod code \<noteq> 0"
    and "\<forall>ws \<in> set words. ws \<in> sent_word code ` {..<8} \<or> length ws = 128 \<and> word_type ws \<notin> {1, 2, 3, 4, 17, 18, 19, 20}"
    and "card {j. j < 8 \<and> sent_word code j \<in> set words} = 4" "\<exists>j < 4. sent_word code j \<in> set words"
  shows "\<exists>st0 st1 st2. Galileo_Inav_Message num = Some st0
    \<and> decode_words crc32 num words (init_PRN prn (enable_reed_solomon st0)) = Some st1
    \<and> have_new_ephemeris num st1 = Some (True, st2) \<and> IOD_ephemeris st2 = sent_iod code
    \<and> w1 st2 = read_word_1 num (rev (sent_word code 0)) \<and> w2 st2 = read_word_2 num (rev (sent_word code 1))
    \<and> w3 st2 = read_word_3 num (rev (sent_word code 2)) \<and> w4 st2 = read_word_4 num (rev (sent_word code 3))"
proof -
  let ?rcv = "{j. j < 8 \<and> sent_word code j \<in> set words}"
  obtain st0 where st0: "Galileo_Inav_Message num = Some st0"
    "has_ephemeris_words num code {} (init_PRN prn (enable_reed_solomon st0))" by (rule constructor_code)
  obtain st1 where st1: "decode_words crc32 num words (init_PRN prn (enable_reed_solomon st0)) = Some st1"
    "has_ephemeris_words num code ?rcv st1"
    using decode_words_received[OF st0(2) assms(1-3)] by auto
  have "?rcv \<inter> {..<4} \<noteq> {}" using assms(5) by force
  then show ?thesis using new_ephemeris[OF st1(2) assms(1,4)] st0(1) st1(1) by blast
qed

text \<open>A code whose message starts with the type of word 1 and the issue of data 4.\<close>

lemma sample_sender:
  obtains code where "sender code" "sent_iod code = 4"
proof -
  let ?msg = "[4, 1] @ replicate 56 (0 :: u8)"
  have "length (?msg @ replicate 137 0) = 255 - 60" by simp
  then obtain parity where p: "length parity = 60" "codeword 60 195 ((?msg @ replicate 137 0) @ parity)"
    by (rule systematic[of 60, rotated]) simp_all
  have "insert_padding 58 137 (?msg @ parity) = (?msg @ replicate 137 0) @ parity" by (simp add: insert_padding_def)
  moreover have "take 6 (byte_bits 4) = type_bits 1" "iod_bits (?msg @ parity) = byte_bits 1 @ drop 6 (byte_bits 4)"
    by (simp_all add: byte_bits_def type_bits_def upt_rec bit_0 iod_bits_def)
  moreover have "bit_val (byte_bits 1 @ drop 6 (byte_bits 4)) = 4"
    by (simp add: bit_val_append) (simp add: byte_bits_def bit_val_horner horner_sum_simps)
  ultimately show thesis using that[of "?msg @ parity"] p by (simp add: sender_def sent_iod_def)
qed

text \<open>The first word of the ephemeris, a word without contents and three words of parity.\<close>

theorem fec2_recovers_ephemeris_witness:
  "\<exists>code words st0 st1 st2. words = [sent_word code 4, sent_word code 0, replicate 128 True, sent_word code 7, sent_word code 5]
    \<and> Galileo_Inav_Message (\<lambda>q. q) = Some st0
    \<and> decode_words (\<lambda>bs. 0) (\<lambda>q. q) words (init_PRN 11 (enable_reed_solomon st0)) = Some st1
    \<and> have_new_ephemeris (\<lambda>q. q) st1 = Some (True, st2) \<and> IOD_ephemeris st2 = 4
    \<and> w3 st2 = read_word_3 (\<lambda>q. q) (rev (sent_word code 2))"
proof -
  obtain code where c: "sender code" "sent_iod code = 4" by (rule sample_sender)
  then have l: "length code = 118" by (simp add: sender_def)
  have t: "word_type (replicate 128 True) = 63" by (simp add: word_type_def bit_val_horner numeral_eq_Suc)
  let ?words = "[sent_word code 4, sent_word code 0, replicate 128 True, sent_word code 7, sent_word code 5]"
  have n: "sent_word code j \<noteq> replicate 128 True" if "j < 8" for j
    using arg_cong[of "sent_word code j" "replicate 128 True" word_type] t word_type_sent[OF l that] that by (auto split: if_splits)
  have r: "{j. j < 8 \<and> sent_word code j \<in> set ?words} = {0, 4, 5, 7}"
    using n sent_word_inj[OF l] by auto
  have w: "\<forall>ws \<in> set ?words. ws \<in> sent_word code ` {..<8} \<or> length ws = 128 \<and> word_type ws \<notin> {1, 2, 3, 4, 17, 18, 19, 20}"
    using t by (simp only: set_simps ball_simps) simp
  have k: "card {j. j < 8 \<and> sent_word code j \<in> set ?words} = 4" unfolding r by simp
  have e: "\<exists>j < 4. sent_word code j \<in> set ?words" by (intro exI[of _ 0]) simp
  have i: "sent_iod code \<noteq> 0" using c(2) by simp
  show ?thesis
    using fec2_recovers_ephemeris[OF c(1) i w k e, of "\<lambda>q. q" "\<lambda>bs. 0" 11] unfolding c(2) by blast
qed

end
