(* ===== verification/Spec2Isabelle.thy ===== *)
theory Spec2Isabelle
  imports Osnma_Total Control_Errors Reed_Solomon_Codec Has_Link Has_Timeouts Cnav_Link Cnav_Safety
    Inav_Telemetry Inav_Ephemeris
begin

text \<open>
  \<^bold>\<open>The program.\<close> The repository is a front end in Python around the satellite receiver \<open>gnss-sdr\<close>, written
  in C++ under \<open>src/gnss-sdr/src\<close>. A flowgraph of signal processing blocks is cut into channels. The control
  thread and the flowgraph decide which channel searches which satellite; a channel acquires and
  tracks it; its telemetry decoder turns symbols into bits and bits into navigation messages; and three
  services of Galileo take these up: the ephemerides of I/NAV, the corrections of the High Accuracy
  Service (HAS) in C/NAV, and the authentication of navigation data (OSNMA). This development models
  that path, apart from the signal processing itself, and states what each part promises:

  \<^verbatim>\<open>
    control thread <--queue-- channels (state machines) <--events-- acquisition, tracking   (not modelled)
         |                        ^                                     | symbols
         v                        |                                     v
    flowgraph: lists of signals, acquisition manager          telemetry decoders (Viterbi)
                                                            E1, E5b: I/NAV      E6: C/NAV
                                                              |      |             | pages
                                                     ephemeris,     OSNMA         HAS receiver
                                                     FEC2 (Reed-     receiver      (Reed-Solomon)
                                                     Solomon)          |             | corrections
                                                              +--------+-------------+--> PVT (not modelled)
  \<close>

  \<^bold>\<open>Conventions.\<close> A class is a record with the members of the class, a method a function from the state to the
  new state, an enumeration a datatype. Integers keep their width as words where the code can wrap, and
  are natural numbers or integers where it cannot. \<^const>\<open>None\<close> is an access outside a container, an
  exception that leaves the function, an undefined conversion or an endless loop; so a theorem that says
  \<open>Some\<close> is a statement of safety and of termination. Messages to other blocks are appended to lists of
  the state, the last one at the end. Floating-point numbers are a type variable; where rounding matters,
  in the metrics of the Viterbi decoder, it is instantiated by \<open>binary32\<close>. Logging, dump files and
  printing are left out. What is not in the repository is a parameter: the cryptographic library
  (\<open>crypto_lib\<close>, with the lengths it documents in \<open>crypto_ok\<close>), the checksums of \<open>boost::crc_optimal\<close> (\<open>crc\<close>),
  \<open>boost::circular_buffer\<close> (\<open>push_back\<close>, with the law \<open>circular_buffer\<close>), the conversion of samples to
  milliseconds (\<open>elapsed\<close>) and of rational constants to \<open>double\<close> (\<open>num\<close>). Loops are structural recursion or
  folds over indices; the few that are not have a termination proof by a measure. No fuel is used.

  \<^bold>\<open>Common parts.\<close>
  \<^item> \<open>Prelude\<close>: words, guarded reads and writes of vectors, folds that may fail, the collections \<open>vec_simps\<close>
    and \<open>word_nat\<close>.
  \<^item> \<open>Containers\<close>: \<open>std::map\<close> and \<open>std::multimap\<close> as lists in iteration order; locales \<open>key_value_store\<close> and
    \<open>ordered_store\<close>, interpreted on both (\<open>om\<close>, \<open>um\<close>).
  \<^item> \<open>Bit_Strings\<close>: strings of zeros and ones and bit sets.
  \<^item> \<open>Rx_Queue\<close>: \<open>concurrent_queue.h\<close> and \<open>concurrent_map.h\<close>; locale \<open>message_queue\<close> (first in, first out, nothing
    lost), interpreted for both ways of taking a message (\<open>tq\<close>, \<open>wq\<close>).

  \<^bold>\<open>Control of the receiver.\<close>
  \<^item> \<open>Gnss_Satellite\<close>: \<open>gnss_satellite.cc\<close>, \<open>gnss_signal.cc\<close>.
  \<^item> \<open>Channel\<close>: \<open>channel_fsm.cc\<close>, \<open>channel_msg_receiver_cc.cc\<close>, \<open>channel.cc\<close>. The state machine never fails, and
    sessions of tracking, reports and stops balance. Locale \<open>channel_control\<close> (\<open>cc\<close>) is what the flowgraph
    relies on.
  \<^item> \<open>Flowgraph\<close>, \<open>Flowgraph_Start\<close>: the lists of signals, the search, the acquisition manager, the actions and
    the start in \<open>gnss_flowgraph.cc\<close> and \<open>gnss_block_factory.cc\<close>. \<open>Flowgraph_Pool\<close> is the abstract
    specification of the signals, a pool of which every signal is available or held by one channel;
    \<open>Flowgraph_Invariant\<close> and \<open>Flowgraph_Actions\<close> show that the operations refine it and keep the books of
    states and slots; \<open>Flowgraph_Init\<close> that the start establishes it.
  \<^item> \<open>Control_Thread\<close>: \<open>control_thread.cc\<close>, and the receiver as a step relation: a round of the control thread, a
    message of a block, a telecommand. \<open>Control_Frames\<close> says what each operation leaves alone,
    \<open>Control_Safety\<close> that every step keeps the invariant, \<open>Control_Properties\<close> what follows: no exception,
    signals conserved, slots bounded by \<open>Channels.in_acquisition\<close>, flowgraph and state machines in agreement.
    These hold in a scope that the theorems carry as premises: a configuration without fixed
    satellites, with at most 200 channels (from 200 on the numbers of senders are not channels) and
    well-formed lists (\<open>startable\<close>), and only the telecommands stop, restart, cold and warm start
    (\<open>plain_command\<close>), no prioritized satellites. Outside it the code violates them, and
    \<open>Control_Errors\<close> proves how: a hot start throws when a signal of a visible satellite is not configured, an
    event older than a standby loses a channel until the next standby, a standby gives away fixed
    satellites, and the check of the number of Glonass channels is too weak. \<open>Control_Liveness\<close>: the
    manager leaves no slot unused.

  \<^bold>\<open>Codes.\<close>
  \<^item> \<open>Galois_Field\<close>: the field of 256 elements, an instance of the class \<open>field\<close>; nothing there is code.
  \<^item> \<open>Reed_Solomon\<close>, \<open>Reed_Solomon_Matrices\<close>: \<open>reed_solomon.cc\<close> with its matrices. \<open>Reed_Solomon_Tables\<close>,
    \<open>Reed_Solomon_Algebra\<close>, \<open>Reed_Solomon_Decode\<close>, \<open>Reed_Solomon_Erasures\<close> and
    \<open>Reed_Solomon_Codec\<close> prove that \<open>decode\<close> (syndromes, Berlekamp and Massey, Chien, Forney) restores every
    codeword from up to as many erasures as there are parity symbols, and that encoding gives codewords. Errors
    at unknown positions are not covered.
  \<^item> \<open>Viterbi\<close>: \<open>viterbi_decoder.cc\<close>. \<open>Binary32\<close> is the rounded arithmetic of \<open>float\<close> on an instance of
    \<open>linorder\<close>; the locale \<open>metrics\<close> of \<open>Viterbi_Path\<close> states what the proof needs of the metrics and is
    interpreted on exact arithmetic (\<open>exact\<close>) and on the rounded one (\<open>rounded\<close>). \<open>Viterbi_Frames\<close>: frames
    come back when the first symbols have the right signs and amplitudes within a factor of \<open>2\<^sup>2\<^sup>4\<close>, beyond
    which a sum may absorb a symbol; the last symbol of a group is never used.

  \<^bold>\<open>E6 and the High Accuracy Service.\<close>
  \<^item> \<open>Cnav_Telemetry\<close>: \<open>galileo_telemetry_decoder_gs.cc\<close> with frame type 3. \<open>Cnav_Message\<close>:
    \<open>galileo_cnav_message.cc\<close>. \<open>Cnav_Pages\<close>, \<open>Cnav_Fec\<close>, \<open>Cnav_Stream\<close>, \<open>Cnav_Acquisition\<close>: pages as a satellite sends
    them, and that the decoder locks on and passes them on. \<open>Cnav_Safety\<close>: it never fails.
  \<^item> \<open>Has_Data\<close>, \<open>Has_Body\<close>, \<open>Has_Receiver\<close>: \<open>galileo_has_data.cc\<close> and \<open>galileo_e6_has_msg_receiver.cc\<close>.
    \<open>Has_Steps\<close>, \<open>Has_Mask\<close>, \<open>Has_Corrections\<close>, \<open>Has_Contents\<close>, \<open>Has_Text\<close>: a sender of messages, and that the
    readers return what it wrote. \<open>Has_Columns\<close>: locale \<open>erasure_code\<close>, interpreted on the decoder of the
    receiver (\<open>e6b\<close>). \<open>Has_Reassembly\<close>, \<open>Has_Run\<close>: a message is handed on once. \<open>Has_Frame\<close>, \<open>Has_Shape\<close>,
    \<open>Has_Timeouts\<close>: what reading leaves alone, the shape of the state, the time-outs. The contents in the
    round trip are masks, orbit corrections and full clock corrections; the readers of clock subsets and of
    biases are modelled without it. The shape of the state holds as long as the handler returns: a
    message size of 255 or an exception of a look-up in a decoded message is \<^const>\<open>None\<close>.
  \<^item> \<open>Has_Link\<close>, \<open>Cnav_Link\<close>: from frames, and from symbols, to corrections.

  \<^bold>\<open>E1 and E5b.\<close>
  \<^item> \<open>Inav_Fields\<close>, \<open>Inav_Message\<close>, \<open>Inav_Pages\<close>: \<open>Galileo_INAV.h\<close> and \<open>galileo_inav_message.cc\<close>.
    \<open>Galileo_Ism\<close>: \<open>galileo_ism.cc\<close>. \<open>Inav_Telemetry\<close>: \<open>decode_INAV_word\<close> of the telemetry decoder.
  \<^item> \<open>Inav_Fec2\<close>, \<open>Inav_Ephemeris\<close>: the words of an ephemeris with its Reed-Solomon code as a
    satellite sends them, and that any four of the eight, one of them a word of the ephemeris, give the ephemeris.

  \<^bold>\<open>OSNMA.\<close>
  \<^item> \<open>Osnma_Tables\<close>, \<open>Osnma_Helper\<close>, \<open>Osnma_Dsm_Reader\<close>, \<open>Osnma_Data\<close>, \<open>Osnma_Nav_Data\<close>, \<open>Gnss_Crypto\<close>: \<open>Galileo_OSNMA.h\<close>,
    \<open>osnma_helper.cc\<close>, \<open>osnma_dsm_reader.cc\<close>, \<open>osnma_data.h\<close>, \<open>osnma_nav_data_manager.cc\<close>, \<open>gnss_crypto.cc\<close>.
  \<^item> \<open>Osnma_State\<close>, \<open>Osnma_Mack\<close>, \<open>Osnma_Tesla\<close>, \<open>Osnma_Tags\<close>, \<open>Osnma_Macseq\<close>, \<open>Osnma_Merkle\<close>, \<open>Osnma_Dsm\<close>,
    \<open>Osnma_Receiver\<close>: \<open>osnma_msg_receiver.cc\<close>, one theory per part with the lemmas about it: the layout of
    the message for every tag length, the key chain (locale \<open>key_chain\<close>, interpreted as \<open>tesla\<close>), acceptance of
    tags, of tag sequences, of public keys (completeness and collision) and of root keys.
  \<^item> \<open>Osnma_Dsm_Collect\<close>: reassembly of a message from its blocks. \<open>Osnma_Invariant\<close>, \<open>Osnma_Run\<close>, \<open>Osnma_Safety\<close>: the
    invariant over all messages, and the safety of what is published. \<open>Osnma_Total\<close>: the
    processing of a subframe returns when the root key message names a MAC function that exists and a tag
    length; with a reserved function it reads outside a vector (\<open>reserved_mac_function_fails\<close>).

  \<^bold>\<open>Simplifications.\<close> The prompt correlator output is narrowed from \<open>double\<close> to \<open>float\<close> when the telemetry decoder
  stores it; here symbols have the type of the metrics from the start. The time in milliseconds of a time
  tag is not bounded. The zeros of \<open>float\<close> are one number, and its largest exponent is not modelled. Times from
  the clock of the host are arguments. A handler runs under its lock and is one step; what threads do
  between steps is the order of the steps.

  \<^bold>\<open>Not modelled.\<close> Acquisition, tracking, observables, position solution, sources and conditioning are numerical
  signal processing. The messages of the other systems and F/NAV, the ephemeris models, output formats, files,
  network, monitors, the telecommand server and the user interface are parsing of fields into doubles,
  floating-point arithmetic or input and output. Of the telemetry decoder the synchronisation for I/NAV and F/NAV is
  left out, of the flowgraph the connection of blocks, of the control thread the reading of assistance data.
  Vendored libraries and tests are not part of the program.
\<close>

end
